(* ===== verification/Binary64.thy ===== *)
theory Binary64 imports Complex_Main "HOL-Library.Log_Nat" begin

text \<open>
  Rounding of exact rationals to IEEE 754 binary64, the format of the language's \<open>number\<close>:
  53 significant bits, exponents down to \<open>- 1074\<close>, round to nearest with ties to even.
  \<open>fp_round\<close> is executable.  The lemmas: it is the identity on representable values (every
  integer below \<open>2 ^ 53\<close> among them), odd and monotone.
\<close>

section \<open>Rounding of rationals\<close>

definition ilog2 :: "rat \<Rightarrow> int" where
  "ilog2 q =
     (let (a, b) = quotient_of q; e = bitlen a - bitlen b
      in if 2 powi e \<le> q then e else e - 1)"

definition round_half_even :: "rat \<Rightarrow> int" where
  "round_half_even q =
     (let f = \<lfloor>q\<rfloor>; d = q - of_int f
      in if d < 1 / 2 then f else if 1 / 2 < d then f + 1 else if even f then f else f + 1)"

definition fp_exp :: "rat \<Rightarrow> int" where
  "fp_exp q = max (ilog2 \<bar>q\<bar> - 52) (- 1074)"

definition fp_round :: "rat \<Rightarrow> rat" where
  "fp_round q =
     (if q = 0 then 0
      else of_int (round_half_even (q / 2 powi fp_exp q)) * 2 powi fp_exp q)"

definition fp_limit :: rat where
  "fp_limit = 2 ^ 1024"

definition representable :: "rat \<Rightarrow> bool" where
  "representable q \<longleftrightarrow> (\<exists>m e. q = of_int m * 2 powi e \<and> \<bar>m\<bar> < 2 ^ 53 \<and> - 1074 \<le> e)"

section \<open>The logarithm and the rounding of a scaled value\<close>

lemma powi_2_pos [simp]: "0 < (2 :: rat) powi e"
  by (simp add: zero_less_power_int)

lemma powi_2_le_iff: "(2 :: rat) powi a \<le> 2 powi b \<longleftrightarrow> a \<le> b"
  by (metis less_le_not_le linorder_not_le one_less_numeral_iff order_less_imp_le
      power_int_increasing power_int_strict_increasing semiring_norm(76))

lemma powi_2_less_iff: "(2 :: rat) powi a < 2 powi b \<longleftrightarrow> a < b"
  by (meson not_le powi_2_le_iff)

lemma powi_2_add: "(2 :: rat) powi (a + b) = 2 powi a * 2 powi b"
  by (simp add: power_int_add)

lemma powi_2_nonneg_int: "0 \<le> e \<Longrightarrow> (2 :: rat) powi e = of_int (2 ^ nat e)"
  by (simp add: power_int_def)

lemma ilog2_bounds:
  assumes "0 < q"
  shows "2 powi ilog2 q \<le> q \<and> q < 2 powi (ilog2 q + 1)"
proof -
  obtain a b where ab: "quotient_of q = (a, b)" by force
  have b: "0 < b" using ab by (rule quotient_of_denom_pos)
  have q: "q = of_int a / of_int b" using ab by (rule quotient_of_div)
  have a: "0 < a" using assms b q by (simp add: zero_less_divide_iff)
  define la lb where "la = bitlen a" and "lb = bitlen b"
  have l1: "1 \<le> la" "1 \<le> lb"
    using a b by (auto simp: la_def lb_def bitlen_alt_def)
  have a1: "2 powi (la - 1) \<le> rat_of_int a"
    using bitlen_bounds [OF a] l1 by (simp add: power_int_def la_def [symmetric])
  have a2: "rat_of_int a < 2 powi la"
  proof -
    have "a < 2 ^ nat la" using bitlen_bounds [OF a] by (simp add: la_def)
    then have "rat_of_int a < of_int (2 ^ nat la)" by (simp only: of_int_less_iff)
    then show ?thesis using l1 by (simp add: power_int_def)
  qed
  have b1: "2 powi (lb - 1) \<le> rat_of_int b"
    using bitlen_bounds [OF b] l1 by (simp add: power_int_def lb_def [symmetric])
  have b2: "rat_of_int b < 2 powi lb"
  proof -
    have "b < 2 ^ nat lb" using bitlen_bounds [OF b] by (simp add: lb_def)
    then have "rat_of_int b < of_int (2 ^ nat lb)" by (simp only: of_int_less_iff)
    then show ?thesis using l1 by (simp add: power_int_def)
  qed
  have up: "q < 2 powi (la - lb + 1)"
  proof -
    have "q \<le> of_int a / 2 powi (lb - 1)"
      unfolding q using a b b1 by (intro divide_left_mono) auto
    also have "\<dots> < 2 powi la / 2 powi (lb - 1)"
      using a2 by (simp add: divide_strict_right_mono)
    also have "\<dots> = 2 powi (la - lb + 1)"
      by (simp flip: power_int_diff add: algebra_simps)
    finally show ?thesis .
  qed
  have low: "2 powi (la - lb - 1) < q"
  proof -
    have "(2 :: rat) powi (la - lb - 1) = 2 powi (la - 1) / 2 powi lb"
      by (simp flip: power_int_diff add: algebra_simps)
    also have "\<dots> \<le> of_int a / 2 powi lb"
      using a1 by (simp add: divide_right_mono)
    also have "\<dots> < q"
      unfolding q using a b b2 by (intro divide_strict_left_mono) auto
    finally show ?thesis .
  qed
  show ?thesis
    using up low ab by (auto simp: ilog2_def Let_def la_def lb_def)
qed

lemma ilog2_le:
  assumes "0 < q" "q < 2 powi (e + 1)"
  shows "ilog2 q \<le> e"
proof -
  have "(2 :: rat) powi ilog2 q < 2 powi (e + 1)"
    using ilog2_bounds [OF assms(1)] assms(2) by linarith
  then show ?thesis by (simp add: powi_2_less_iff)
qed

lemma ilog2_mono:
  assumes "0 < p" "p \<le> q"
  shows "ilog2 p \<le> ilog2 q"
  using assms ilog2_bounds [of q] by (intro ilog2_le) auto

lemma round_half_even_of_int [simp]: "round_half_even (of_int n) = n"
  by (simp add: round_half_even_def)

lemma round_half_even_0 [simp]: "round_half_even 0 = 0"
  using round_half_even_of_int [of 0] by simp

lemma round_half_even_bounds:
  "\<lfloor>q\<rfloor> \<le> round_half_even q \<and> round_half_even q \<le> \<lfloor>q\<rfloor> + 1"
  by (simp add: round_half_even_def Let_def)

lemma round_half_even_mono:
  assumes "p \<le> q"
  shows "round_half_even p \<le> round_half_even q"
proof (cases "\<lfloor>p\<rfloor> = \<lfloor>q\<rfloor>")
  case True
  then show ?thesis using assms by (auto simp: round_half_even_def Let_def)
next
  case False
  then have "\<lfloor>p\<rfloor> + 1 \<le> \<lfloor>q\<rfloor>" using floor_mono [OF assms] by simp
  then show ?thesis using round_half_even_bounds [of p] round_half_even_bounds [of q] by linarith
qed

lemma round_half_even_minus: "round_half_even (- q) = - round_half_even q"
proof (cases "q = of_int \<lfloor>q\<rfloor>")
  case True
  then obtain n where n: "q = of_int n" by blast
  have "- q = of_int (- n)" by (simp add: n)
  then show ?thesis by (metis n round_half_even_of_int)
next
  case False
  then have "of_int \<lfloor>q\<rfloor> < q" by (metis of_int_floor_le order_less_le)
  then have f: "\<lfloor>- q\<rfloor> = - \<lfloor>q\<rfloor> - 1"
    by (intro floor_unique) (auto, linarith)
  show ?thesis by (auto simp: round_half_even_def Let_def f)
qed

section \<open>Rounding is exact on representable values, odd and monotone\<close>

lemma fp_round_0 [simp]: "fp_round 0 = 0"
  by (simp add: fp_round_def)

lemma fp_round_minus: "fp_round (- q) = - fp_round q"
  by (simp add: fp_round_def fp_exp_def round_half_even_minus)

lemma fp_round_representable:
  assumes "representable q"
  shows "fp_round q = q"
proof (cases "q = 0")
  case False
  obtain m e where q: "q = of_int m * 2 powi e" and m: "\<bar>m\<bar> < 2 ^ 53" and e: "- 1074 \<le> e"
    using assms by (auto simp: representable_def)
  have "\<bar>q\<bar> = of_int \<bar>m\<bar> * 2 powi e" by (simp add: q abs_mult)
  also have "\<dots> < 2 powi 53 * 2 powi e"
  proof (rule mult_strict_right_mono)
    have "rat_of_int \<bar>m\<bar> < of_int (2 ^ 53)" using m by (simp only: of_int_less_iff)
    then show "rat_of_int \<bar>m\<bar> < 2 powi 53" by simp
  qed simp
  also have "\<dots> = 2 powi (53 + e)" by (rule powi_2_add [symmetric])
  also have "53 + e = (52 + e) + 1" by simp
  finally have "ilog2 \<bar>q\<bar> \<le> 52 + e" using False by (intro ilog2_le) auto
  then have le: "fp_exp q \<le> e" using e by (simp add: fp_exp_def)
  define x where "x = fp_exp q"
  define d where "d = e - x"
  have d: "0 \<le> d" "e = d + x" using le by (auto simp: d_def x_def)
  have "q / 2 powi x = of_int m * 2 powi d" by (simp add: q d(2) powi_2_add)
  also have "\<dots> = of_int (m * 2 ^ nat d)" using d by (simp add: powi_2_nonneg_int)
  finally have s: "q / 2 powi x = of_int (m * 2 ^ nat d)" .
  have "fp_round q = of_int (m * 2 ^ nat d) * 2 powi x"
    using False by (simp only: fp_round_def x_def [symmetric] s round_half_even_of_int if_False)
  also have "\<dots> = q / 2 powi x * 2 powi x" by (simp only: s)
  finally show ?thesis by simp
qed simp

lemma representable_of_int:
  assumes "\<bar>n\<bar> < 2 ^ 53"
  shows "representable (of_int n)"
  unfolding representable_def using assms
  by (intro exI [of _ n] exI [of _ 0]) auto

lemma representable_0 [simp]: "representable 0"
  using representable_of_int [of 0] by simp

lemma representable_powi: "- 1074 \<le> e \<Longrightarrow> representable (2 powi e)"
  unfolding representable_def by (intro exI [of _ 1] exI [of _ e]) auto

lemma fp_round_le_boundary:
  assumes "0 < p" "p < 2 powi k" "fp_exp p \<le> k"
  shows "fp_round p \<le> 2 powi k"
proof -
  define d where "d = k - fp_exp p"
  have d: "0 \<le> d" "k = d + fp_exp p" using assms by (auto simp: d_def)
  have "p / 2 powi fp_exp p \<le> 2 powi d"
    using assms(2) unfolding d(2) powi_2_add by (simp add: divide_le_eq)
  then have "p / 2 powi fp_exp p \<le> of_int (2 ^ nat d)" using d by (simp add: powi_2_nonneg_int)
  then have "round_half_even (p / 2 powi fp_exp p) \<le> 2 ^ nat d"
    by (metis round_half_even_mono round_half_even_of_int)
  then have "rat_of_int (round_half_even (p / 2 powi fp_exp p)) \<le> of_int (2 ^ nat d)"
    by (simp only: of_int_le_iff)
  then have "rat_of_int (round_half_even (p / 2 powi fp_exp p)) \<le> 2 powi d"
    using d by (simp add: powi_2_nonneg_int)
  then have "fp_round p \<le> 2 powi d * 2 powi fp_exp p"
    using assms(1) by (simp add: fp_round_def)
  then show ?thesis by (simp add: d(2) powi_2_add)
qed

lemma fp_round_ge_boundary:
  assumes "2 powi k \<le> q" "fp_exp q \<le> k"
  shows "2 powi k \<le> fp_round q"
proof -
  define d where "d = k - fp_exp q"
  have d: "0 \<le> d" "k = d + fp_exp q" using assms by (auto simp: d_def)
  have q: "0 < q" using assms(1) powi_2_pos [of k] by linarith
  have "2 powi d \<le> q / 2 powi fp_exp q"
    using assms(1) unfolding d(2) powi_2_add by (simp add: le_divide_eq)
  then have "of_int (2 ^ nat d) \<le> q / 2 powi fp_exp q" using d by (simp add: powi_2_nonneg_int)
  then have "2 ^ nat d \<le> round_half_even (q / 2 powi fp_exp q)"
    by (metis round_half_even_mono round_half_even_of_int)
  then have "of_int (2 ^ nat d) \<le> rat_of_int (round_half_even (q / 2 powi fp_exp q))"
    by (simp only: of_int_le_iff)
  then have "2 powi d \<le> rat_of_int (round_half_even (q / 2 powi fp_exp q))"
    using d by (simp add: powi_2_nonneg_int)
  then have "2 powi d * 2 powi fp_exp q \<le> fp_round q"
    using q by (simp add: fp_round_def)
  then show ?thesis by (simp add: d(2) powi_2_add)
qed

lemma fp_round_mono_pos:
  assumes "0 < p" "p \<le> q"
  shows "fp_round p \<le> fp_round q"
proof (cases "fp_exp p = fp_exp q")
  case True
  have "round_half_even (p / 2 powi fp_exp q) \<le> round_half_even (q / 2 powi fp_exp q)"
    using assms by (intro round_half_even_mono divide_right_mono) auto
  then have "rat_of_int (round_half_even (p / 2 powi fp_exp q))
      \<le> of_int (round_half_even (q / 2 powi fp_exp q))" by (simp only: of_int_le_iff)
  then show ?thesis using assms True
    by (auto simp: fp_round_def intro: mult_right_mono)
next
  case False
  have le: "ilog2 p \<le> ilog2 q" using assms by (rule ilog2_mono)
  then have lt: "fp_exp p < fp_exp q" using False assms by (auto simp: fp_exp_def)
  then have e: "fp_exp q = ilog2 q - 52" "ilog2 p < ilog2 q"
    using assms by (auto simp: fp_exp_def)
  have "p < 2 powi (ilog2 p + 1)" using ilog2_bounds [OF assms(1)] by simp
  also have "\<dots> \<le> 2 powi ilog2 q" using e by (simp add: powi_2_le_iff)
  finally have "fp_round p \<le> 2 powi ilog2 q"
    using assms lt e by (intro fp_round_le_boundary) auto
  also have "\<dots> \<le> fp_round q"
    using assms e ilog2_bounds [of q] by (intro fp_round_ge_boundary) auto
  finally show ?thesis .
qed

lemma fp_round_nonneg: "0 \<le> q \<Longrightarrow> 0 \<le> fp_round q"
proof (cases "q = 0")
  case False
  assume "0 \<le> q"
  then have "0 \<le> round_half_even (q / 2 powi fp_exp q)"
    using round_half_even_mono [of "of_int 0" "q / 2 powi fp_exp q"] by simp
  then show ?thesis using False by (simp add: fp_round_def)
qed simp

lemma fp_round_mono: "p \<le> q \<Longrightarrow> fp_round p \<le> fp_round q"
proof -
  assume le: "p \<le> q"
  consider "0 < p" | "p \<le> 0 \<and> 0 \<le> q" | "q < 0" by linarith
  then show ?thesis
  proof cases
    case 1
    then show ?thesis using le by (rule fp_round_mono_pos)
  next
    case 2
    then have "0 \<le> fp_round (- p)" "0 \<le> fp_round q" by (auto intro: fp_round_nonneg)
    then show ?thesis by (simp add: fp_round_minus)
  next
    case 3
    then have "fp_round (- q) \<le> fp_round (- p)" using le by (intro fp_round_mono_pos) auto
    then show ?thesis by (simp add: fp_round_minus)
  qed
qed

section \<open>Integers and integer quotients\<close>

lemma representable_scaled: "\<bar>m\<bar> < 2 ^ 53 \<Longrightarrow> - 1074 \<le> e \<Longrightarrow> representable (of_int m * 2 powi e)"
  unfolding representable_def by blast

lemma fp_round_int: "\<exists>m. fp_round (of_int n) = of_int m"
proof (cases "\<bar>n\<bar> < 2 ^ 52")
  case True
  then have "\<bar>n\<bar> < 2 ^ 53" by simp
  then show ?thesis using fp_round_representable [OF representable_of_int] by blast
next
  case False
  have "(2 :: rat) powi 52 = of_int (2 ^ 52)" by (simp add: powi_2_nonneg_int)
  also have "\<dots> \<le> of_int \<bar>n\<bar>" using False by (simp only: of_int_le_iff not_less)
  finally have ge: "(2 :: rat) powi 52 \<le> \<bar>of_int n\<bar>" by simp
  have pos: "0 < \<bar>rat_of_int n\<bar>" using ge powi_2_pos [of 52] by linarith
  have "\<not> ilog2 \<bar>rat_of_int n\<bar> < 52"
  proof
    assume "ilog2 \<bar>rat_of_int n\<bar> < 52"
    then have "(2 :: rat) powi (ilog2 \<bar>rat_of_int n\<bar> + 1) \<le> 2 powi 52" by (simp only: powi_2_le_iff)
    then show False using ilog2_bounds [OF pos] ge by linarith
  qed
  then have e: "0 \<le> fp_exp (of_int n)" by (simp add: fp_exp_def)
  then show ?thesis
    by (simp only: fp_round_def powi_2_nonneg_int [OF e]) (metis of_int_0 of_int_mult)
qed

lemma round_half_even_less:
  assumes "s < of_int k - 1 / 2"
  shows "round_half_even s < k"
proof -
  have f: "\<lfloor>s\<rfloor> < k" using assms by (simp add: floor_less_iff)
  show ?thesis
  proof (cases "\<lfloor>s\<rfloor> = k - 1")
    case True
    then have "s - of_int \<lfloor>s\<rfloor> < 1 / 2" using assms by simp
    then have "round_half_even s = \<lfloor>s\<rfloor>" by (simp add: round_half_even_def Let_def)
    then show ?thesis using True by simp
  next
    case False
    then show ?thesis using f round_half_even_bounds [of s] by linarith
  qed
qed

lemma scaled_round_less:
  assumes "p * of_int n = 1" "0 < p" "1 / 2 < rat_of_int n / of_int y" "q \<le> of_int k - 1 / of_int y"
  shows "of_int (round_half_even (q / p)) * p < of_int k"
proof -
  have n: "0 < rat_of_int n" using assms(1,2) by (metis zero_less_mult_pos zero_less_one)
  have "q / p = q * of_int n"
    using assms(1,2) by (metis divide_eq_eq less_irrefl mult.assoc mult.commute mult.right_neutral)
  also have "\<dots> \<le> (of_int k - 1 / of_int y) * of_int n"
    using assms(4) n by (intro mult_right_mono) auto
  also have "\<dots> = of_int (k * n) - of_int n / of_int y" by (simp add: algebra_simps)
  also have "\<dots> < of_int (k * n) - 1 / 2" using assms(3) by simp
  finally have "round_half_even (q / p) < k * n" by (rule round_half_even_less)
  then have "rat_of_int (round_half_even (q / p)) < of_int (k * n)" by (simp only: of_int_less_iff)
  then have "rat_of_int (round_half_even (q / p)) * p < of_int (k * n) * p"
    using assms(2) by (rule mult_strict_right_mono)
  also have "\<dots> = of_int k" using assms(1) by (simp add: mult.assoc mult.commute)
  finally show ?thesis .
qed

text \<open>Rounding a quotient of integers below \<open>2 ^ 53\<close> never moves it to the next integer.\<close>

lemma fp_round_quotient_less:
  assumes "0 \<le> x" "x < 2 ^ 53" "0 < y" "y < 2 ^ 53"
  shows "fp_round (of_int x / of_int y) < of_int (x div y + 1)"
proof (cases "x < y")
  case True
  then have d: "x div y = 0" using assms by simp
  have "of_int x / of_int y \<le> (1 - 1 / of_int y :: rat)"
    using True assms(3) by (simp add: field_simps)
  also have "\<dots> \<le> 1 - 1 / 2 ^ 53"
  proof -
    have "(of_int y :: rat) \<le> of_int (2 ^ 53)" using assms(4) by (simp only: of_int_le_iff)
    then have "1 / (2 :: rat) ^ 53 \<le> 1 / of_int y" using assms(3) by (intro divide_left_mono) auto
    then show ?thesis by simp
  qed
  also have "(1 - 1 / 2 ^ 53 :: rat) = of_int (2 ^ 53 - 1) * 2 powi - 53"
    by (simp add: power_int_def field_simps)
  finally have "fp_round (of_int x / of_int y) \<le> fp_round (of_int (2 ^ 53 - 1) * 2 powi - 53)"
    by (rule fp_round_mono)
  also have "\<dots> = of_int (2 ^ 53 - 1) * 2 powi - 53"
    by (intro fp_round_representable representable_scaled) simp_all
  also have "\<dots> < 1" by (simp add: power_int_def field_simps)
  finally show ?thesis by (simp add: d)
next
  case False
  define q t where "q = rat_of_int x / of_int y" and "t = ilog2 q"
  define k where "k = x div y + 1"
  have q1: "1 \<le> q" using False assms(3) by (simp add: q_def)
  have tb: "2 powi t \<le> q" "q < 2 powi (t + 1)" using ilog2_bounds [of q] q1 by (auto simp: t_def)
  have t0: "0 \<le> t"
  proof -
    have "(2 :: rat) powi 0 < 2 powi (t + 1)" using q1 tb(2) by simp
    then show ?thesis by (simp only: powi_2_less_iff)
  qed
  have yt: "rat_of_int y * 2 powi t \<le> of_int x"
    using tb(1) assms(3) by (simp add: q_def field_simps)
  have qx: "q \<le> of_int x" using assms by (simp add: q_def divide_le_eq mult_le_cancel_left1)
  have "rat_of_int x < of_int (2 ^ 53)" using assms(2) by (simp only: of_int_less_iff)
  then have x53: "rat_of_int x < 2 powi 53" by (simp add: power_int_def)
  then have x53: "rat_of_int x < 2 powi 53" "q < 2 powi 53" using qx by linarith+
  have t52: "t \<le> 52"
  proof -
    have "(2 :: rat) powi t < 2 powi 53" using tb(1) x53(2) by (rule le_less_trans)
    then show ?thesis by (simp only: powi_2_less_iff)
  qed
  have e: "fp_exp q = t - 52" using t0 q1 by (simp add: fp_exp_def t_def)
  have scale: "(2 :: rat) powi (t - 52) * of_int (2 ^ nat (52 - t)) = 1"
    using t52 by (simp flip: powi_2_nonneg_int add: power_int_def field_simps)
  have half: "1 / 2 < rat_of_int (2 ^ nat (52 - t)) / of_int y"
  proof -
    have "rat_of_int y * 2 powi t < 2 powi 53" using yt x53(1) by simp
    also have "(2 :: rat) powi 53 = 2 * (2 powi t * of_int (2 ^ nat (52 - t)))"
      using t52 by (simp only: flip: powi_2_nonneg_int powi_2_add) (simp add: power_int_def)
    finally have "2 powi t * rat_of_int y < 2 powi t * (2 * of_int (2 ^ nat (52 - t)))"
      by (simp only: mult.commute mult.left_commute)
    then have "rat_of_int y < 2 * of_int (2 ^ nat (52 - t))"
      by (simp only: mult_less_cancel_left_pos [OF powi_2_pos])
    then show ?thesis using assms(3) by (simp add: field_simps)
  qed
  have qk: "q \<le> of_int k - 1 / of_int y"
  proof -
    have "x < y * (x div y) + y"
      using pos_mod_bound [OF assms(3), of x] mult_div_mod_eq [of y x] by linarith
    then have "x < y * k" by (simp only: k_def distrib_left mult_1_right)
    then have "x + 1 \<le> y * k" by simp
    then have "rat_of_int (x + 1) \<le> of_int (y * k)" by (simp only: of_int_le_iff)
    then show ?thesis using assms(3) by (simp add: q_def field_simps)
  qed
  have "of_int (round_half_even (q / 2 powi (t - 52))) * 2 powi (t - 52) < rat_of_int k"
    using scale powi_2_pos half qk by (rule scaled_round_less)
  then show ?thesis using q1 e by (simp add: fp_round_def q_def [symmetric] k_def [symmetric])
qed

lemma floor_fp_round_quotient:
  assumes "0 \<le> x" "x < 2 ^ 53" "0 < y" "y < 2 ^ 53"
  shows "\<lfloor>fp_round (of_int x / of_int y)\<rfloor> = x div y"
proof -
  have "x div y \<le> x" using assms zdiv_mono2 [of x 1 y] by simp
  then have "\<bar>x div y\<bar> < 2 ^ 53" using assms by (simp add: pos_imp_zdiv_nonneg_iff)
  then have "rat_of_int (x div y) = fp_round (of_int (x div y))"
    using fp_round_representable [OF representable_of_int] by simp
  also have "\<dots> \<le> fp_round (of_int x / of_int y)"
    by (intro fp_round_mono) (metis floor_divide_of_int_eq of_int_floor_le)
  finally show ?thesis using fp_round_quotient_less [OF assms] by (simp add: floor_eq_iff)
qed

section \<open>Evaluation\<close>

text \<open>The same rounding on the numerator and denominator, in integers.\<close>

definition rhe_quotient :: "int \<Rightarrow> int \<Rightarrow> int" where
  "rhe_quotient n d =
     (let f = n div d; r = n mod d
      in if 2 * r < d then f else if d < 2 * r then f + 1 else if even f then f else f + 1)"

lemma round_half_even_quotient:
  assumes "0 < d"
  shows "round_half_even (of_int n / of_int d) = rhe_quotient n d"
proof -
  have f: "\<lfloor>rat_of_int n / of_int d\<rfloor> = n div d" by (rule floor_divide_of_int_eq)
  have "rat_of_int n = of_int d * of_int (n div d) + of_int (n mod d)"
    by (simp only: of_int_mult [symmetric] of_int_add [symmetric] mult_div_mod_eq)
  then have d: "rat_of_int n / of_int d - of_int (n div d) = of_int (n mod d) / of_int d"
    using assms by (simp add: field_simps)
  have "of_int (n mod d) / of_int d < (1 :: rat) / 2 \<longleftrightarrow> rat_of_int (2 * (n mod d)) < of_int d"
    using assms by (simp add: field_simps)
  then have lt: "of_int (n mod d) / of_int d < (1 :: rat) / 2 \<longleftrightarrow> 2 * (n mod d) < d" by (simp only: of_int_less_iff)
  have "(1 :: rat) / 2 < of_int (n mod d) / of_int d \<longleftrightarrow> of_int d < rat_of_int (2 * (n mod d))"
    using assms by (simp add: field_simps)
  then have gt: "(1 :: rat) / 2 < of_int (n mod d) / of_int d \<longleftrightarrow> d < 2 * (n mod d)" by (simp only: of_int_less_iff)
  show ?thesis by (simp only: round_half_even_def rhe_quotient_def Let_def f d lt gt)
qed

definition ilog2_quotient :: "int \<Rightarrow> int \<Rightarrow> int" where
  "ilog2_quotient a b =
     (let e = bitlen a - bitlen b
      in if (if 0 \<le> e then 2 ^ nat e * b \<le> a else b \<le> 2 ^ nat (- e) * a) then e else e - 1)"

lemma ilog2_quotient:
  assumes "0 < b"
  shows "(if 0 \<le> e then 2 ^ nat e * b \<le> a else b \<le> 2 ^ nat (- e) * a) \<longleftrightarrow> 2 powi e \<le> rat_of_int a / of_int b"
proof (cases "0 \<le> e")
  case True
  have "2 powi e \<le> rat_of_int a / of_int b \<longleftrightarrow> rat_of_int (2 ^ nat e * b) \<le> of_int a"
    using assms True by (simp add: power_int_def pos_le_divide_eq)
  then show ?thesis using True by (simp only: of_int_le_iff if_True)
next
  case False
  have "2 powi e \<le> rat_of_int a / of_int b \<longleftrightarrow> rat_of_int b \<le> of_int (2 ^ nat (- e) * a)"
    using assms False by (simp add: power_int_def field_simps)
  then show ?thesis using False by (simp only: of_int_le_iff if_False)
qed

definition fp_round_quotient :: "int \<Rightarrow> int \<Rightarrow> rat" where
  "fp_round_quotient a b =
     (let e = max (ilog2_quotient \<bar>a\<bar> b - 52) (- 1074)
      in if 0 \<le> e then of_int (rhe_quotient a (b * 2 ^ nat e) * 2 ^ nat e)
         else Fract (rhe_quotient (a * 2 ^ nat (- e)) b) (2 ^ nat (- e)))"

lemma fp_round_code [code]:
  "fp_round q = (if q = 0 then 0 else (let (a, b) = quotient_of q in fp_round_quotient a b))"
proof (cases "q = 0")
  case False
  obtain a b where ab: "quotient_of q = (a, b)" by force
  have b: "0 < b" using ab by (rule quotient_of_denom_pos)
  have q: "q = of_int a / of_int b" using ab by (rule quotient_of_div)
  have "quotient_of \<bar>q\<bar> = (\<bar>a\<bar>, b)" using ab by (simp add: rat_abs_code)
  moreover have "\<bar>q\<bar> = rat_of_int \<bar>a\<bar> / of_int b" using q b by simp
  ultimately have l: "ilog2 \<bar>q\<bar> = ilog2_quotient \<bar>a\<bar> b"
    by (simp only: ilog2_def ilog2_quotient_def ilog2_quotient [OF b] Let_def prod.case)
  define e where "e = max (ilog2_quotient \<bar>a\<bar> b - 52) (- 1074)"
  have e: "fp_exp q = e" by (simp add: fp_exp_def l e_def)
  have "of_int (round_half_even (q / 2 powi e)) * 2 powi e = fp_round_quotient a b"
  proof (cases "0 \<le> e")
    case True
    have "q / 2 powi e = of_int a / of_int (b * 2 ^ nat e)" using True q by (simp add: power_int_def)
    then have "round_half_even (q / 2 powi e) = rhe_quotient a (b * 2 ^ nat e)"
      using b round_half_even_quotient [of "b * 2 ^ nat e" a] by simp
    then show ?thesis using True by (simp add: fp_round_quotient_def Let_def e_def [symmetric] power_int_def)
  next
    case False
    have "q / 2 powi e = of_int (a * 2 ^ nat (- e)) / of_int b" using False q by (simp add: power_int_def field_simps)
    then have "round_half_even (q / 2 powi e) = rhe_quotient (a * 2 ^ nat (- e)) b"
      using b by (simp only: round_half_even_quotient)
    then show ?thesis using False by (simp add: fp_round_quotient_def Let_def e_def [symmetric] power_int_def Fract_of_int_quotient field_simps)
  qed
  then show ?thesis using False by (simp add: fp_round_def ab e)
qed (simp add: fp_round_def)

end
