(* ===== verification/JsNumber.thy ===== *)
theory JsNumber imports Binary64 begin

text \<open>
  The \<open>number\<close> type of the language over the rounding of \<open>Binary64\<close>: NaN, the two
  infinities, the negative zero and the finite values; \<open>Fin 0\<close> is the positive zero.  Each
  arithmetic operation computes the exact rational and rounds it once.  Comparisons with NaN
  are false, the two zeros are equal, and \<open>js_eq\<close> is the strict equality of the language,
  which HOL's equality is not (NaN differs from itself, the zeros do not differ).
\<close>

datatype jsnum = NaN | PInf | NInf | NZero | Fin rat

fun jval :: "jsnum \<Rightarrow> rat" where
  "jval (Fin q) = q"
| "jval _ = 0"

fun is_finite :: "jsnum \<Rightarrow> bool" where
  "is_finite (Fin q) = True"
| "is_finite NZero = True"
| "is_finite _ = False"

fun jneg :: "jsnum \<Rightarrow> bool" where
  "jneg NInf = True"
| "jneg NZero = True"
| "jneg (Fin q) = (q < 0)"
| "jneg _ = False"

definition jzero :: "jsnum \<Rightarrow> bool" where
  "jzero a \<longleftrightarrow> is_finite a \<and> jval a = 0"

definition js_of_rat :: "bool \<Rightarrow> rat \<Rightarrow> jsnum" where
  "js_of_rat neg q =
     (let r = fp_round q
      in if fp_limit \<le> r then PInf else if r \<le> - fp_limit then NInf
      else if r = 0 then (if neg then NZero else Fin 0) else Fin r)"

definition jinf :: "bool \<Rightarrow> jsnum" where
  "jinf neg = (if neg then NInf else PInf)"

instantiation jsnum :: "{plus, minus, times, inverse, uminus, ord}"
begin

definition plus_jsnum :: "jsnum \<Rightarrow> jsnum \<Rightarrow> jsnum" where
  "a + b =
     (if a = NaN \<or> b = NaN then NaN
      else if a = PInf then (if b = NInf then NaN else PInf)
      else if a = NInf then (if b = PInf then NaN else NInf)
      else if b = PInf then PInf else if b = NInf then NInf
      else if a = NZero \<and> b = NZero then NZero
      else js_of_rat False (jval a + jval b))"

fun uminus_jsnum :: "jsnum \<Rightarrow> jsnum" where
  "- NaN = NaN"
| "- PInf = NInf"
| "- NInf = PInf"
| "- NZero = Fin 0"
| "- Fin q = (if q = 0 then NZero else Fin (- q))"

definition minus_jsnum :: "jsnum \<Rightarrow> jsnum \<Rightarrow> jsnum" where
  "a - b = a + (- b :: jsnum)"

definition times_jsnum :: "jsnum \<Rightarrow> jsnum \<Rightarrow> jsnum" where
  "a * b =
     (let neg = (jneg a \<noteq> jneg b)
      in if a = NaN \<or> b = NaN then NaN
      else if \<not> is_finite a \<or> \<not> is_finite b
      then (if jzero a \<or> jzero b then NaN else jinf neg)
      else js_of_rat neg (jval a * jval b))"

definition divide_jsnum :: "jsnum \<Rightarrow> jsnum \<Rightarrow> jsnum" where
  "a div b =
     (let neg = (jneg a \<noteq> jneg b)
      in if a = NaN \<or> b = NaN then NaN
      else if \<not> is_finite a then (if is_finite b then jinf neg else NaN)
      else if \<not> is_finite b then js_of_rat neg 0
      else if jzero b then (if jzero a then NaN else jinf neg)
      else js_of_rat neg (jval a / jval b))"

definition inverse_jsnum :: "jsnum \<Rightarrow> jsnum" where
  "inverse a = Fin 1 div (a :: jsnum)"

definition less_eq_jsnum :: "jsnum \<Rightarrow> jsnum \<Rightarrow> bool" where
  "a \<le> b \<longleftrightarrow> a \<noteq> NaN \<and> b \<noteq> NaN \<and>
     (a = NInf \<or> b = PInf \<or> is_finite a \<and> is_finite b \<and> jval a \<le> jval b)"

definition less_jsnum :: "jsnum \<Rightarrow> jsnum \<Rightarrow> bool" where
  "a < b \<longleftrightarrow> a \<noteq> NaN \<and> b \<noteq> NaN \<and> \<not> b \<le> (a :: jsnum)"

instance ..

end

definition js_eq :: "jsnum \<Rightarrow> jsnum \<Rightarrow> bool" where
  "js_eq a b \<longleftrightarrow> a \<le> b \<and> b \<le> a"

definition is_integer :: "jsnum \<Rightarrow> bool" where
  "is_integer a \<longleftrightarrow> is_finite a \<and> of_int \<lfloor>jval a\<rfloor> = jval a"

definition is_safe_integer :: "jsnum \<Rightarrow> bool" where
  "is_safe_integer a \<longleftrightarrow> is_integer a \<and> \<bar>jval a\<bar> \<le> 2 ^ 53 - 1"

definition js_abs :: "jsnum \<Rightarrow> jsnum" where
  "js_abs a = (if jneg a then - a else a)"

definition js_min :: "jsnum \<Rightarrow> jsnum \<Rightarrow> jsnum" where
  "js_min a b =
     (if a = NaN \<or> b = NaN then NaN
      else if jzero a \<and> jzero b then (if a = NZero then a else b)
      else if b \<le> a then b else a)"

definition js_max :: "jsnum \<Rightarrow> jsnum \<Rightarrow> jsnum" where
  "js_max a b =
     (if a = NaN \<or> b = NaN then NaN
      else if jzero a \<and> jzero b then (if a = NZero then b else a)
      else if a \<le> b then b else a)"

definition js_floor :: "jsnum \<Rightarrow> jsnum" where
  "js_floor a = (case a of Fin q \<Rightarrow> Fin (of_int \<lfloor>q\<rfloor>) | _ \<Rightarrow> a)"

definition js_round :: "jsnum \<Rightarrow> jsnum" where
  "js_round a =
     (case a of Fin q \<Rightarrow>
        (let n = \<lfloor>q + 1 / 2\<rfloor> in if n = 0 \<and> q < 0 then NZero else Fin (of_int n))
      | _ \<Rightarrow> a)"

definition jint :: "int \<Rightarrow> jsnum" where
  "jint n = js_of_rat False (of_int n)"

definition lit :: "rat \<Rightarrow> jsnum" where
  "lit q = js_of_rat (q < 0) q"

section \<open>Comparisons on constructors\<close>

lemma jle_simps [simp]:
  "\<not> NaN \<le> a" "\<not> a \<le> NaN"
  "NInf \<le> b \<longleftrightarrow> b \<noteq> NaN" "a \<le> PInf \<longleftrightarrow> a \<noteq> NaN"
  "Fin p \<le> Fin q \<longleftrightarrow> p \<le> q" "NZero \<le> Fin q \<longleftrightarrow> 0 \<le> q" "Fin q \<le> NZero \<longleftrightarrow> q \<le> 0"
  "NZero \<le> NZero" "\<not> PInf \<le> Fin q" "\<not> PInf \<le> NZero" "\<not> PInf \<le> NInf"
  "\<not> Fin q \<le> NInf" "\<not> NZero \<le> NInf"
  by (auto simp: less_eq_jsnum_def)

lemma jless_simps [simp]:
  "\<not> NaN < a" "\<not> a < NaN" "\<not> a < NInf" "\<not> PInf < b"
  "Fin p < Fin q \<longleftrightarrow> p < q" "NZero < Fin q \<longleftrightarrow> 0 < q" "Fin q < NZero \<longleftrightarrow> q < 0"
  "\<not> NZero < NZero" "Fin q < PInf" "NZero < PInf" "NInf < PInf" "NInf < Fin q" "NInf < NZero"
  by (auto simp: less_jsnum_def less_eq_jsnum_def)

lemma js_eq_simps [simp]:
  "\<not> js_eq NaN a" "\<not> js_eq a NaN" "js_eq (Fin p) (Fin q) \<longleftrightarrow> p = q"
  "js_eq NZero (Fin q) \<longleftrightarrow> q = 0" "js_eq (Fin q) NZero \<longleftrightarrow> q = 0" "js_eq NZero NZero"
  "js_eq PInf PInf" "js_eq NInf NInf" "\<not> js_eq PInf (Fin q)" "\<not> js_eq (Fin q) PInf"
  "\<not> js_eq NInf (Fin q)" "\<not> js_eq (Fin q) NInf" "\<not> js_eq PInf NInf" "\<not> js_eq NInf PInf"
  by (auto simp: js_eq_def)

lemma NZero_as_zero [simp]:
  "NZero \<le> b \<longleftrightarrow> Fin 0 \<le> b" "b \<le> NZero \<longleftrightarrow> b \<le> Fin 0"
  "NZero < b \<longleftrightarrow> Fin 0 < b" "b < NZero \<longleftrightarrow> b < Fin 0"
  by (cases b; simp)+

lemma jle_finite: "is_finite a \<Longrightarrow> is_finite b \<Longrightarrow> a \<le> b \<longleftrightarrow> jval a \<le> jval b"
  by (cases a; cases b) auto

lemma jless_finite: "is_finite a \<Longrightarrow> is_finite b \<Longrightarrow> a < b \<longleftrightarrow> jval a < jval b"
  by (cases a; cases b) auto

lemma js_eq_finite: "is_finite a \<Longrightarrow> is_finite b \<Longrightarrow> js_eq a b \<longleftrightarrow> jval a = jval b"
  by (cases a; cases b) auto

lemma jle_trans: "a \<le> b \<Longrightarrow> b \<le> c \<Longrightarrow> a \<le> (c :: jsnum)"
  by (cases a; cases b; cases c) auto

lemma jless_le_trans: "a < b \<Longrightarrow> b \<le> c \<Longrightarrow> a < (c :: jsnum)"
  by (cases a; cases b; cases c) auto

lemma jle_less_trans: "a \<le> b \<Longrightarrow> b < c \<Longrightarrow> a < (c :: jsnum)"
  by (cases a; cases b; cases c) auto

lemma jless_trans: "a < b \<Longrightarrow> b < c \<Longrightarrow> a < (c :: jsnum)"
  by (cases a; cases b; cases c) auto

lemma jless_imp_le: "a < b \<Longrightarrow> a \<le> (b :: jsnum)"
  by (cases a; cases b) auto

lemma jle_refl_iff: "a \<le> a \<longleftrightarrow> a \<noteq> (NaN :: jsnum)"
  by (cases a) auto

lemma js_eq_refl_iff [simp]: "js_eq a a \<longleftrightarrow> a \<noteq> NaN"
  by (cases a) auto

lemma js_eq_sym: "js_eq a b \<Longrightarrow> js_eq b a"
  by (simp add: js_eq_def)

lemma js_eq_trans: "js_eq a b \<Longrightarrow> js_eq b c \<Longrightarrow> js_eq a c"
  by (auto simp: js_eq_def intro: jle_trans)

lemma not_jless_iff: "a \<noteq> NaN \<Longrightarrow> b \<noteq> NaN \<Longrightarrow> \<not> a < b \<longleftrightarrow> b \<le> (a :: jsnum)"
  by (simp add: less_jsnum_def)

lemma is_finite_cases:
  assumes "is_finite a"
  obtains q where "a = Fin q" | "a = NZero"
  using assms by (cases a) auto

lemma positive_cases:
  assumes "Fin 0 < a" "is_finite a"
  obtains q where "a = Fin q" "0 < q"
  using assms by (cases a) auto

section \<open>Arithmetic\<close>

lemma js_of_rat_not_NaN [simp]: "js_of_rat s q \<noteq> NaN"
  by (simp add: js_of_rat_def Let_def)

lemma fp_limit_pos: "0 < fp_limit"
  by (simp add: fp_limit_def)

lemma js_of_rat_mono: "p \<le> q \<Longrightarrow> js_of_rat s p \<le> js_of_rat t q"
  using fp_round_mono [of p q] fp_limit_pos by (auto simp: js_of_rat_def Let_def)

lemma js_of_rat_representable:
  assumes "representable q" "\<bar>q\<bar> < fp_limit" "q \<noteq> 0 \<or> \<not> s"
  shows "js_of_rat s q = Fin q"
  using assms by (auto simp: js_of_rat_def fp_round_representable)

lemma js_of_rat_nonneg: "0 \<le> q \<Longrightarrow> Fin 0 \<le> js_of_rat s q"
  using js_of_rat_mono [of 0 q False s] fp_limit_pos by (simp add: js_of_rat_def [of False])

lemma js_of_rat_nonpos: "q \<le> 0 \<Longrightarrow> js_of_rat s q \<le> Fin 0"
  using js_of_rat_mono [of q 0 s False] fp_limit_pos by (simp add: js_of_rat_def [of False])

lemma int_less_fp_limit: "\<bar>n\<bar> < 2 ^ 53 \<Longrightarrow> \<bar>rat_of_int n\<bar> < fp_limit"
proof -
  assume "\<bar>n\<bar> < 2 ^ 53"
  then have "rat_of_int \<bar>n\<bar> < of_int (2 ^ 53)" by (simp only: of_int_less_iff)
  also have "\<dots> \<le> fp_limit" by (simp add: fp_limit_def)
  finally show ?thesis by simp
qed

lemma js_of_rat_int: "\<bar>n\<bar> < 2 ^ 53 \<Longrightarrow> js_of_rat False (of_int n) = Fin (of_int n)"
  by (intro js_of_rat_representable representable_of_int int_less_fp_limit) auto

lemma jint_small: "\<bar>n\<bar> < 2 ^ 53 \<Longrightarrow> jint n = Fin (of_int n)"
  by (simp add: jint_def js_of_rat_int)

lemma jadd_int: "\<bar>m + n\<bar> < 2 ^ 53 \<Longrightarrow> Fin (of_int m) + Fin (of_int n) = Fin (of_int (m + n))"
  using js_of_rat_int [of "m + n"] by (simp add: plus_jsnum_def)

lemma jadd_finite:
  "is_finite a \<Longrightarrow> is_finite b \<Longrightarrow>
     a + b = (if a = NZero \<and> b = NZero then NZero else js_of_rat False (jval a + jval b))"
  by (cases a; cases b) (auto simp: plus_jsnum_def)

lemma jminus_finite [simp]: "is_finite (- a) = is_finite a"
  by (cases a) auto

lemma jval_uminus: "jval (- a) = - jval a"
  by (cases a) auto

lemma jsub_nonneg:
  assumes "is_finite a" "is_finite b" "b \<le> a"
  shows "Fin 0 \<le> a - b"
  using assms js_of_rat_nonneg [of "jval a - jval b" False]
  by (auto simp: minus_jsnum_def jadd_finite jval_uminus jle_finite)

lemma jadd_nonneg:
  assumes "Fin 0 \<le> a" "Fin 0 \<le> b"
  shows "Fin 0 \<le> a + b"
proof (cases "is_finite a \<and> is_finite b")
  case True
  then show ?thesis
    using assms js_of_rat_nonneg [of "jval a + jval b" False] by (auto simp: jadd_finite jle_finite)
next
  case False
  then show ?thesis using assms by (cases a; cases b) (auto simp: plus_jsnum_def)
qed

lemma jadd_mono_right:
  assumes "is_finite a" "is_finite b" "is_finite c" "b \<le> c"
  shows "a + b \<le> a + c"
proof -
  have le: "jval a + jval b \<le> jval a + jval c" using assms by (simp add: jle_finite)
  show ?thesis
    using assms js_of_rat_mono [OF le, of False False]
      js_of_rat_nonneg [of "jval c" False] js_of_rat_nonpos [of "jval b" False]
    by (auto simp: jadd_finite jle_finite)
qed

lemma jadd_ge_self:
  assumes "is_finite a" "representable (jval a)" "\<bar>jval a\<bar> < fp_limit" "Fin 0 \<le> b"
  shows "a \<le> a + b"
proof (cases "is_finite b")
  case True
  have "js_of_rat False (jval a) = Fin (jval a)" using assms by (intro js_of_rat_representable) auto
  moreover have "js_of_rat False (jval a) \<le> js_of_rat False (jval a + jval b)"
    using assms True by (intro js_of_rat_mono) (simp add: jle_finite)
  ultimately show ?thesis using assms True js_of_rat_nonneg [of "jval b" False]
    by (cases a; cases b) (auto simp: jadd_finite js_of_rat_representable intro: jle_trans)
next
  case False
  then show ?thesis using assms by (cases b; cases a) (auto simp: plus_jsnum_def)
qed

lemma is_safe_integer_cases:
  assumes "is_safe_integer a"
  obtains n where "jval a = of_int n" "\<bar>n\<bar> < 2 ^ 53" "is_finite a"
proof -
  define n where "n = \<lfloor>jval a\<rfloor>"
  have n: "jval a = of_int n" using assms by (simp only: is_safe_integer_def is_integer_def n_def)
  have "\<bar>rat_of_int n\<bar> \<le> 2 ^ 53 - 1" using assms by (simp add: is_safe_integer_def n)
  then have "rat_of_int \<bar>n\<bar> < of_int (2 ^ 53)" by simp
  then have "\<bar>n\<bar> < 2 ^ 53" by (simp only: of_int_less_iff)
  then show thesis using n assms by (intro that) (auto simp: is_safe_integer_def is_integer_def)
qed

lemma is_safe_integer_of_int [simp]:
  "is_safe_integer (Fin (of_int n)) \<longleftrightarrow> \<bar>n\<bar> < 2 ^ 53"
proof -
  have "\<bar>rat_of_int n\<bar> \<le> 2 ^ 53 - 1 \<longleftrightarrow> rat_of_int \<bar>n\<bar> \<le> of_int (2 ^ 53 - 1)" by simp
  also have "\<dots> \<longleftrightarrow> \<bar>n\<bar> \<le> 2 ^ 53 - 1" by (simp only: of_int_le_iff)
  finally show ?thesis by (auto simp: is_safe_integer_def is_integer_def)
qed

lemma js_min_le:
  assumes "a \<noteq> NaN" "b \<noteq> NaN"
  shows "js_min a b \<le> a \<and> js_min a b \<le> b"
  using assms by (cases a; cases b) (auto simp: js_min_def jzero_def)

lemma js_max_ge:
  assumes "a \<noteq> NaN" "b \<noteq> NaN"
  shows "a \<le> js_max a b \<and> b \<le> js_max a b"
  using assms by (cases a; cases b) (auto simp: js_max_def jzero_def)

lemma js_min_cases: "js_min a b = NaN \<or> js_min a b = a \<or> js_min a b = b"
  by (simp add: js_min_def)

lemma js_max_cases: "js_max a b = NaN \<or> js_max a b = a \<or> js_max a b = b"
  by (simp add: js_max_def)

section \<open>Evaluation\<close>

text \<open>Below \<open>2^53\<close> evaluation needs no overflow check, and integers there need no rounding.\<close>

lemma js_of_rat_code [code]:
  "js_of_rat neg q =
     (if \<bar>q\<bar> < 9007199254740992
      then (let r = (if of_int \<lfloor>q\<rfloor> = q then q else fp_round q) in if r = 0 then (if neg then NZero else Fin 0) else Fin r)
      else (let r = fp_round q
        in if fp_limit \<le> r then PInf else if r \<le> - fp_limit then NInf
        else if r = 0 then (if neg then NZero else Fin 0) else Fin r))"
proof (cases "\<bar>q\<bar> < 9007199254740992")
  case True
  have lim: "(9007199254740992 :: rat) < fp_limit" by (simp add: fp_limit_def)
  have rep: "representable 9007199254740992" using representable_powi [of 53] by simp
  then have "representable (- 9007199254740992)"
    unfolding representable_def by (metis abs_minus mult_minus_left of_int_minus)
  then have "fp_round q \<le> 9007199254740992 \<and> - 9007199254740992 \<le> fp_round q"
    using fp_round_mono [of q "9007199254740992"] fp_round_mono [of "- 9007199254740992" q] True rep
    by (auto simp: fp_round_representable)
  then have b: "\<not> fp_limit \<le> fp_round q" "\<not> fp_round q \<le> - fp_limit" using lim by auto
  have int: "fp_round q = q" if "of_int \<lfloor>q\<rfloor> = q"
  proof -
    have "rat_of_int \<bar>\<lfloor>q\<rfloor>\<bar> < of_int 9007199254740992" using True by (simp only: of_int_abs that of_int_numeral)
    then have "\<bar>\<lfloor>q\<rfloor>\<bar> < 2 ^ 53" by (simp only: of_int_less_iff) simp
    then have "fp_round (of_int \<lfloor>q\<rfloor>) = of_int \<lfloor>q\<rfloor>" by (intro fp_round_representable representable_of_int)
    then show ?thesis by (simp only: that)
  qed
  define r where "r = (if of_int \<lfloor>q\<rfloor> = q then q else fp_round q)"
  have r: "r = fp_round q" by (metis int r_def)
  show ?thesis
    by (simp only: js_of_rat_def Let_def True if_True b if_False r_def [symmetric]) (simp only: r)
qed (simp only: js_of_rat_def if_False)

lemma js_min_finite:
  "is_finite a \<Longrightarrow> is_finite b \<Longrightarrow> is_finite (js_min a b) \<and> jval (js_min a b) = min (jval a) (jval b)"
  by (auto simp: js_min_def jzero_def jle_finite min_def)

lemma js_max_finite:
  "is_finite a \<Longrightarrow> is_finite b \<Longrightarrow> is_finite (js_max a b) \<and> jval (js_max a b) = max (jval a) (jval b)"
  by (auto simp: js_max_def jzero_def jle_finite max_def)

lemma js_min_PInf: "is_finite a \<Longrightarrow> js_min a PInf = a"
  by (cases a) (auto simp: js_min_def jzero_def)

section \<open>Integers\<close>

definition js_ceil :: "jsnum \<Rightarrow> jsnum" where
  "js_ceil a =
     (case a of Fin q \<Rightarrow> (if \<lceil>q\<rceil> = 0 \<and> q < 0 then NZero else Fin (of_int \<lceil>q\<rceil>)) | _ \<Rightarrow> a)"

lemma is_safe_integer_nonneg_cases:
  assumes "is_safe_integer a" "Fin 0 \<le> a"
  obtains n where "jval a = of_int n" "0 \<le> n" "n < 2 ^ 53" "is_finite a"
proof -
  obtain n where n: "jval a = of_int n" "\<bar>n\<bar> < 2 ^ 53" "is_finite a"
    using assms(1) by (rule is_safe_integer_cases)
  have "0 \<le> rat_of_int n" using assms(2) n(1,3) by (simp add: jle_finite)
  then have "0 \<le> n" by (simp only: of_int_0_le_iff)
  then show thesis using n that by simp
qed

lemma is_safe_integer_pos_cases:
  assumes "is_safe_integer a" "\<not> a \<le> Fin 0"
  obtains n where "a = Fin (of_int n)" "0 < n" "n < 2 ^ 53"
proof -
  obtain n where n: "jval a = of_int n" "\<bar>n\<bar> < 2 ^ 53" "is_finite a"
    using assms(1) by (rule is_safe_integer_cases)
  have "0 < rat_of_int n" using assms(2) n(1,3) by (simp add: jle_finite)
  then have "0 < n" by (simp only: of_int_0_less_iff)
  moreover have "a = Fin (of_int n)" using n calculation by (cases a) auto
  ultimately show thesis using n(2) that by simp
qed

lemma js_of_rat_floor:
  assumes "0 \<le> x" "x < 2 ^ 53" "0 < y" "y < 2 ^ 53"
  shows "js_floor (js_of_rat s (of_int x / of_int y)) = Fin (of_int (x div y)) \<or>
    (x = 0 \<and> s \<and> js_floor (js_of_rat s (of_int x / of_int y)) = NZero)"
proof -
  define q where "q = rat_of_int x / of_int y"
  have fl: "\<lfloor>fp_round q\<rfloor> = x div y" unfolding q_def by (rule floor_fp_round_quotient [OF assms])
  have q0: "0 \<le> q" using assms by (simp add: q_def)
  have r0: "0 \<le> fp_round q" using fp_round_nonneg [OF q0] .
  have "x div y \<le> x" using zdiv_mono2 [of x 1 y] assms by simp
  then have "x div y + 1 \<le> 2 ^ 53" using assms(2) by simp
  then have "rat_of_int (x div y + 1) \<le> of_int (2 ^ 53)" by (simp only: of_int_le_iff)
  moreover have "fp_round q < of_int (x div y + 1)"
    unfolding q_def by (rule fp_round_quotient_less [OF assms])
  moreover have "rat_of_int (2 ^ 53) < fp_limit" by (simp add: fp_limit_def)
  ultimately have lim: "fp_round q < fp_limit" by linarith
  show ?thesis
  proof (cases "fp_round q = 0")
    case True
    then have z: "x div y = 0" using fl by simp
    have "x = 0"
    proof (rule ccontr)
      assume "x \<noteq> 0"
      then have "1 \<le> x" using assms(1) by simp
      have "rat_of_int y \<le> of_int (2 ^ 53)" using assms(4) by (simp only: of_int_le_iff)
      then have "1 / (2 :: rat) ^ 53 \<le> 1 / of_int y" using assms(3) by (intro divide_left_mono) auto
      also have "\<dots> \<le> q" using \<open>1 \<le> x\<close> assms(3) by (simp add: q_def divide_right_mono)
      finally have "1 / (2 :: rat) ^ 53 \<le> q" .
      then have "fp_round (of_int 1 * 2 powi - 53) \<le> fp_round q"
        by (intro fp_round_mono) (simp add: power_int_minus inverse_eq_divide)
      moreover have "fp_round (of_int 1 * 2 powi - 53) = of_int 1 * 2 powi - 53"
        by (intro fp_round_representable representable_scaled) simp_all
      ultimately show False using True powi_2_pos [of "- 53"] by simp
    qed
    then show ?thesis using True z fp_limit_pos
      by (auto simp: js_of_rat_def js_floor_def q_def)
  next
    case False
    then show ?thesis using lim r0 fp_limit_pos fl
      by (simp add: js_of_rat_def js_floor_def q_def [symmetric] Let_def)
  qed
qed

text \<open>\<open>jis x n\<close>: the number \<open>x\<close> is the integer \<open>n\<close> (either zero for 0).\<close>

definition jis :: "jsnum \<Rightarrow> int \<Rightarrow> bool" where
  "jis x n \<longleftrightarrow> is_finite x \<and> jval x = of_int n"

named_theorems jis_intros

lemma jis_Fin [jis_intros, simp]: "jis (Fin (of_int n)) n"
  by (simp add: jis_def)

lemma jis_nat [jis_intros, simp]: "jis (Fin (of_nat n)) (int n)"
  by (simp add: jis_def)

lemma jis_numeral [simp]: "jis (Fin (numeral k)) (numeral k)" "jis (Fin 0) 0" "jis (Fin 1) 1" "jis NZero 0"
  by (simp_all add: jis_def)

lemma is_safe_integer_jis: "is_safe_integer x \<longleftrightarrow> (\<exists>n. jis x n \<and> \<bar>n\<bar> < 2 ^ 53)"
proof
  assume "is_safe_integer x"
  then show "\<exists>n. jis x n \<and> \<bar>n\<bar> < 2 ^ 53"
    by (auto simp: jis_def elim!: is_safe_integer_cases)
next
  assume "\<exists>n. jis x n \<and> \<bar>n\<bar> < 2 ^ 53"
  then obtain n where n: "is_finite x" "jval x = of_int n" "\<bar>n\<bar> < 2 ^ 53" by (auto simp: jis_def)
  have "is_safe_integer (Fin (of_int n))" using n(3) by (simp only: is_safe_integer_of_int)
  then show "is_safe_integer x" using n(1,2) by (cases x) (auto simp: is_safe_integer_def is_integer_def)
qed

lemma jis_le: "jis x m \<Longrightarrow> jis y n \<Longrightarrow> x \<le> y \<longleftrightarrow> m \<le> n"
  by (simp add: jis_def jle_finite)

lemma jis_less: "jis x m \<Longrightarrow> jis y n \<Longrightarrow> x < y \<longleftrightarrow> m < n"
  by (simp add: jis_def jless_finite)

lemma jis_eq: "jis x m \<Longrightarrow> jis y n \<Longrightarrow> js_eq x y \<longleftrightarrow> m = n"
  by (simp add: jis_def js_eq_finite)

lemma jis_add:
  assumes "jis x m" "jis y n" "\<bar>m + n\<bar> < 2 ^ 53"
  shows "jis (x + y) (m + n)"
  using assms js_of_rat_int [OF assms(3)]
  by (auto simp: jis_def jadd_finite)

lemma jis_minus: "jis x m \<Longrightarrow> jis (- x) (- m)"
  by (simp add: jis_def jval_uminus)

lemma jis_sub:
  assumes "jis x m" "jis y n" "\<bar>m - n\<bar> < 2 ^ 53"
  shows "jis (x - y) (m - n)"
  using jis_add [OF assms(1) jis_minus [OF assms(2)]] assms(3) by (simp add: minus_jsnum_def)

lemma js_of_rat_int_zero: "\<bar>n\<bar> < 2 ^ 53 \<Longrightarrow> jis (js_of_rat s (of_int n)) n"
proof -
  assume n: "\<bar>n\<bar> < 2 ^ 53"
  show ?thesis
  proof (cases "n = 0")
    case True
    then show ?thesis using fp_limit_pos by (simp add: js_of_rat_def jis_def)
  next
    case False
    then have "js_of_rat s (of_int n) = Fin (of_int n)"
      using n by (intro js_of_rat_representable representable_of_int int_less_fp_limit) auto
    then show ?thesis by simp
  qed
qed

lemma jis_mult:
  assumes "jis x m" "jis y n" "\<bar>m * n\<bar> < 2 ^ 53"
  shows "jis (x * y) (m * n)"
proof -
  have "x * y = js_of_rat (jneg x \<noteq> jneg y) (of_int (m * n))"
    using assms by (cases x; cases y) (auto simp: jis_def times_jsnum_def)
  then show ?thesis using js_of_rat_int_zero [OF assms(3)] by simp
qed

lemma jis_min: "jis x m \<Longrightarrow> jis y n \<Longrightarrow> jis (js_min x y) (min m n)"
  using js_min_finite [of x y] by (simp add: jis_def of_int_min)

lemma jis_max: "jis x m \<Longrightarrow> jis y n \<Longrightarrow> jis (js_max x y) (max m n)"
  using js_max_finite [of x y] by (simp add: jis_def of_int_max)

lemma jis_floor_div:
  assumes "jis x m" "jis y n" "0 \<le> m" "m < 2 ^ 53" "0 < n" "n < 2 ^ 53"
  shows "jis (js_floor (x div y)) (m div n)"
proof -
  have "x div y = js_of_rat (jneg x \<noteq> jneg y) (of_int m / of_int n)"
    using assms(1,2,5) by (cases x; cases y) (auto simp: jis_def divide_jsnum_def jzero_def)
  then show ?thesis
    using js_of_rat_floor [OF assms(3-6), of "jneg x \<noteq> jneg y"] by (auto simp: jis_def)
qed

text \<open>A sum that is capped by an integer below \<open>2 ^ 53\<close> is exact or the cap, also where the sum rounds.\<close>

lemma js_of_rat_big: "2 ^ 53 \<le> n \<Longrightarrow> Fin (2 ^ 53) \<le> js_of_rat s (of_int n)"
proof -
  assume "2 ^ 53 \<le> n"
  then have "rat_of_int (2 ^ 53) \<le> of_int n" by (simp only: of_int_le_iff)
  then have "js_of_rat False (2 ^ 53) \<le> js_of_rat s (of_int n)" by (intro js_of_rat_mono) simp
  moreover have "js_of_rat False (2 ^ 53) = Fin (2 ^ 53)"
  proof (rule js_of_rat_representable)
    show "representable (2 ^ 53)" using representable_powi [of 53] by simp
    show "\<bar>2 ^ 53\<bar> < fp_limit" by (simp add: fp_limit_def)
  qed simp
  ultimately show ?thesis by simp
qed

lemma js_min_big:
  assumes "jis c m" "m < 2 ^ 53" "Fin (2 ^ 53) \<le> x"
  shows "js_min c x = c"
proof -
  have "(of_int m :: rat) < of_int (2 ^ 53)" using assms(2) by (simp only: of_int_less_iff)
  then show ?thesis using assms(1,3) by (cases c; cases x) (auto simp: jis_def js_min_def jzero_def)
qed

lemma jis_capped_sum:
  assumes "jis c cn" "jis a an" "jis k kn" "jis r rn"
    and "0 \<le> an" "an \<le> cn" "cn < 2 ^ 53" "0 \<le> kn" "0 \<le> rn"
  shows "jis (js_min c (a + k * r)) (min cn (an + kn * rn))"
proof -
  have kr: "k * r = js_of_rat (jneg k \<noteq> jneg r) (of_int (kn * rn))"
    using assms(3,4) by (cases k; cases r) (auto simp: jis_def times_jsnum_def)
  have big: "2 ^ 53 \<le> an + kn * rn \<Longrightarrow> Fin (2 ^ 53) \<le> a + k * r"
  proof -
    assume l: "2 ^ 53 \<le> an + kn * rn"
    show "Fin (2 ^ 53) \<le> a + k * r"
    proof (cases "kn * rn < 2 ^ 53")
      case True
      then have "jis (k * r) (kn * rn)" using assms by (intro jis_mult) auto
      then have "a + k * r = js_of_rat False (of_int (an + kn * rn))"
        using assms(2) l assms(5) True by (auto simp: jadd_finite jis_def)
      then show ?thesis using js_of_rat_big [OF l] by simp
    next
      case False
      then have f: "Fin (2 ^ 53) \<le> k * r" unfolding kr by (intro js_of_rat_big) simp
      have a0: "0 \<le> jval a" "is_finite a" using assms(2,5) by (auto simp: jis_def)
      show ?thesis
      proof (cases "is_finite (k * r)")
        case True
        then have "jval (k * r) \<ge> 2 ^ 53" using f by (simp add: jle_finite)
        then have "js_of_rat False (2 ^ 53) \<le> js_of_rat False (jval a + jval (k * r))"
          using a0 by (intro js_of_rat_mono) simp
        moreover have "Fin (2 ^ 53) \<le> js_of_rat False (2 ^ 53)" using js_of_rat_big [of "2 ^ 53" False] by simp
        ultimately show ?thesis using a0 True f by (auto simp: jadd_finite intro: jle_trans)
      next
        case False
        then have "k * r = PInf" using f by (cases "k * r") auto
        then show ?thesis using a0 by (cases a) (auto simp: plus_jsnum_def)
      qed
    qed
  qed
  show ?thesis
  proof (cases "an + kn * rn < 2 ^ 53")
    case True
    have p: "0 \<le> kn * rn" using assms by simp
    have kr_lt: "\<bar>kn * rn\<bar> < 2 ^ 53" using True p assms(5) by linarith
    have sum_lt: "\<bar>an + kn * rn\<bar> < 2 ^ 53" using True p assms(5) by linarith
    have "jis (a + k * r) (an + kn * rn)"
      by (rule jis_add [OF assms(2) jis_mult [OF assms(3,4) kr_lt] sum_lt])
    then show ?thesis using assms(1) by (rule jis_min [rotated])
  next
    case False
    then have "js_min c (a + k * r) = c" using assms(1,7) big by (intro js_min_big) auto
    moreover have "min cn (an + kn * rn) = cn" using False assms(7) by linarith
    ultimately show ?thesis using assms(1) by simp
  qed
qed

end
