(* ===== verification/Prelude.thy ===== *)
theory Prelude imports JsNumber "HOL-Library.AList" "HOL-Library.Char_ord" "HOL-Library.List_Lexorder" "HOL-Library.Sublist" begin

text \<open>
  What the components share.  A function that throws returns \<open>'a result\<close>: \<open>Inl\<close> of the thrown
  error or \<open>Inr\<close> of the value; \<open>bind_r\<close> sequences two such computations and \<open>guard_r\<close> is the
  \<open>if (...) throw\<close> statement.  An insertion-ordered \<open>Map\<close> is an association list updated with
  \<open>AList.update\<close> and \<open>AList.delete\<close>, a \<open>Set\<close> is a list without repetitions in insertion order.
  Strings are lists of code units below 256.
\<close>

datatype js_error = Error string | RangeError string | TypeError string

type_synonym 'a result = "js_error + 'a"

named_theorems result_simps
named_theorems step_invs

section \<open>Results\<close>

definition bind_r :: "'a result \<Rightarrow> ('a \<Rightarrow> 'b result) \<Rightarrow> 'b result" where
  "bind_r m f = (case m of Inl e \<Rightarrow> Inl e | Inr x \<Rightarrow> f x)"

definition guard_r :: "bool \<Rightarrow> js_error \<Rightarrow> 'a result \<Rightarrow> 'a result" where
  "guard_r bad e k = (if bad then Inl e else k)"

definition throw :: "string \<Rightarrow> 'a result" where
  "throw m = Inl (Error m)"

fun map_r :: "('a \<Rightarrow> 'b result) \<Rightarrow> 'a list \<Rightarrow> 'b list result" where
  "map_r f [] = Inr []"
| "map_r f (x # xs) = bind_r (f x) (\<lambda>y. bind_r (map_r f xs) (\<lambda>ys. Inr (y # ys)))"

fun fold_r :: "('a \<Rightarrow> 'b \<Rightarrow> 'b result) \<Rightarrow> 'a list \<Rightarrow> 'b \<Rightarrow> 'b result" where
  "fold_r f [] s = Inr s"
| "fold_r f (x # xs) s = bind_r (f x s) (fold_r f xs)"

lemma bind_r_simps [simp]: "bind_r (Inl e) f = Inl e" "bind_r (Inr x) f = f x"
  by (simp_all add: bind_r_def)

lemma bind_r_Inr_iff [result_simps]: "bind_r m f = Inr y \<longleftrightarrow> (\<exists>x. m = Inr x \<and> f x = Inr y)"
  by (cases m) auto

lemma guard_r_Inr_iff [result_simps]: "guard_r bad e k = Inr y \<longleftrightarrow> \<not> bad \<and> k = Inr y"
  by (simp add: guard_r_def)

lemma guard_r_simps [simp]: "guard_r True e k = Inl e" "guard_r False e k = k"
  by (simp_all add: guard_r_def)

lemma throw_not_Inr [simp, result_simps]: "throw m \<noteq> Inr x" "Inr x \<noteq> throw m"
  by (simp_all add: throw_def)

lemma map_r_Inr_iff [result_simps]: "map_r f xs = Inr ys \<longleftrightarrow> list_all2 (\<lambda>x y. f x = Inr y) xs ys"
proof (induction xs arbitrary: ys)
  case (Cons x xs)
  show ?case by (cases ys) (auto simp: result_simps Cons.IH)
qed auto

lemma fold_r_append: "fold_r f (xs @ ys) s = bind_r (fold_r f xs s) (fold_r f ys)"
proof (induction xs arbitrary: s)
  case (Cons x xs)
  then show ?case by (cases "f x s") auto
qed simp

lemma fold_r_invariant:
  assumes "fold_r f xs s = Inr t" "P s"
    and "\<And>x s t. x \<in> set xs \<Longrightarrow> f x s = Inr t \<Longrightarrow> P s \<Longrightarrow> P t"
  shows "P t"
  using assms
proof (induction xs arbitrary: s)
  case (Cons x xs)
  then obtain u where "f x s = Inr u" "fold_r f xs u = Inr t" by (auto simp: result_simps)
  with Cons show ?case by (metis list.set_intros)
qed simp

section \<open>Strings\<close>

definition is_space :: "char \<Rightarrow> bool" where
  "is_space c \<longleftrightarrow> (let n = of_char c :: nat in 9 \<le> n \<and> n \<le> 13 \<or> n = 32 \<or> n = 160)"

definition js_trim :: "string \<Rightarrow> string" where
  "js_trim s = rev (dropWhile is_space (rev (dropWhile is_space s)))"

definition blank :: "string \<Rightarrow> bool" where
  "blank s \<longleftrightarrow> js_trim s = []"

lemma blank_iff: "blank s \<longleftrightarrow> list_all is_space s"
proof
  assume b: "blank s"
  have "dropWhile is_space s = []"
  proof (rule ccontr)
    assume n: "dropWhile is_space s \<noteq> []"
    then have "\<not> is_space (hd (dropWhile is_space s))" by (rule hd_dropWhile)
    moreover have "list_all is_space (dropWhile is_space s)"
      using b by (auto simp: blank_def js_trim_def list_all_iff dest: set_dropWhileD)
    ultimately show False using n by (cases "dropWhile is_space s") auto
  qed
  then show "list_all is_space s" by (simp add: list_all_iff)
next
  assume "list_all is_space s"
  then show "blank s" by (auto simp: blank_def js_trim_def list_all_iff dest: set_dropWhileD)
qed

definition is_digit :: "char \<Rightarrow> bool" where
  "is_digit c \<longleftrightarrow> (let n = of_char c :: nat in 48 \<le> n \<and> n \<le> 57)"

definition digit_val :: "char \<Rightarrow> nat" where
  "digit_val c = of_char c - 48"

definition digit_char :: "nat \<Rightarrow> char" where
  "digit_char d = char_of (48 + d)"

fun nat_string :: "nat \<Rightarrow> string" where
  "nat_string n =
     (if n < 10 then [digit_char n] else nat_string (n div 10) @ [digit_char (n mod 10)])"

declare nat_string.simps [simp del]

definition int_string :: "int \<Rightarrow> string" where
  "int_string i = (if i < 0 then CHR ''-'' # nat_string (nat (- i)) else nat_string (nat i))"

definition digits_val :: "string \<Rightarrow> nat" where
  "digits_val s = foldl (\<lambda>a c. 10 * a + digit_val c) 0 s"

definition pad_start :: "nat \<Rightarrow> char \<Rightarrow> string \<Rightarrow> string" where
  "pad_start n c s = replicate (n - length s) c @ s"

lemma of_char_digit: "d < 10 \<Longrightarrow> of_char (digit_char d) = 48 + d"
  by (simp add: digit_char_def of_char_of)

lemma is_digit_char [simp]: "d < 10 \<Longrightarrow> is_digit (digit_char d)"
  by (simp add: is_digit_def of_char_digit)

lemma digit_val_char [simp]: "d < 10 \<Longrightarrow> digit_val (digit_char d) = d"
  by (simp add: digit_val_def of_char_digit)

lemma digits_val_Nil [simp]: "digits_val [] = 0"
  by (simp add: digits_val_def)

lemma digits_val_snoc [simp]: "digits_val (s @ [c]) = 10 * digits_val s + digit_val c"
  by (simp add: digits_val_def)

lemma digits_val_append: "digits_val (s @ t) = digits_val s * 10 ^ length t + digits_val t"
proof (induction t rule: rev_induct)
  case (snoc c t)
  have "digits_val (s @ t @ [c]) = 10 * digits_val (s @ t) + digit_val c"
    by (metis append.assoc digits_val_snoc)
  with snoc show ?case by (simp add: algebra_simps)
qed simp

lemma digits_val_bound: "list_all is_digit s \<Longrightarrow> digits_val s < 10 ^ length s"
proof (induction s rule: rev_induct)
  case (snoc c s)
  then have "digits_val s < 10 ^ length s" "digit_val c < 10"
    by (auto simp: is_digit_def digit_val_def Let_def)
  then show ?case by simp
qed simp

lemma digits_val_nat_string [simp]: "digits_val (nat_string n) = n"
proof (induction n rule: nat_string.induct)
  case (1 n)
  show ?case
  proof (cases "n < 10")
    case True
    then show ?thesis using digits_val_snoc [of "[]"] by (simp add: nat_string.simps)
  next
    case False
    then show ?thesis using 1 by (subst nat_string.simps) simp
  qed
qed

lemma nat_string_digits: "list_all is_digit (nat_string n)"
proof (induction n rule: nat_string.induct)
  case (1 n)
  then show ?case by (subst nat_string.simps) auto
qed

lemma nat_string_nonempty [simp]: "nat_string n \<noteq> []"
  by (subst nat_string.simps) simp

lemma nat_string_inject [simp]: "nat_string m = nat_string n \<longleftrightarrow> m = n"
  by (metis digits_val_nat_string)

lemma digits_val_zeros [simp]: "digits_val (replicate n (digit_char 0)) = 0"
  by (induction n rule: nat.induct) (simp_all add: replicate_append_same [symmetric])

lemma CHR_0: "CHR ''0'' = digit_char 0"
  by code_simp

lemma digits_val_pad: "digits_val (pad_start n (CHR ''0'') s) = digits_val s"
  by (simp add: pad_start_def digits_val_append CHR_0)

lemma pad_start_digits: "list_all is_digit s \<Longrightarrow> list_all is_digit (pad_start n (CHR ''0'') s)"
  by (auto simp: pad_start_def list_all_iff CHR_0)

lemma pad_start_length: "length (pad_start n c s) = max n (length s)"
  by (simp add: pad_start_def max_def)

section \<open>Sets in insertion order\<close>

fun set_add :: "'a \<Rightarrow> 'a list \<Rightarrow> 'a list" where
  "set_add x xs = (if x \<in> set xs then xs else xs @ [x])"

definition set_of_list :: "'a list \<Rightarrow> 'a list" where
  "set_of_list xs = fold set_add xs []"

lemma set_set_add [simp]: "set (set_add x xs) = insert x (set xs)"
  by auto

lemma distinct_set_add: "distinct xs \<Longrightarrow> distinct (set_add x xs)"
  by simp

declare set_add.simps [simp del]

lemma set_of_list_aux:
  "set (fold set_add xs ys) = set ys \<union> set xs"
  "distinct ys \<Longrightarrow> distinct (fold set_add xs ys)"
  by (induction xs arbitrary: ys) (auto simp: distinct_set_add)

lemma set_set_of_list [simp]: "set (set_of_list xs) = set xs"
  by (simp add: set_of_list_def set_of_list_aux)

lemma distinct_set_of_list [simp]: "distinct (set_of_list xs)"
  by (simp add: set_of_list_def set_of_list_aux)

lemma set_of_list_distinct: "distinct xs \<Longrightarrow> set_of_list xs = xs"
proof -
  have "distinct (ys @ xs) \<Longrightarrow> fold set_add xs ys = ys @ xs" for ys
    by (induction xs arbitrary: ys) (auto simp: set_add.simps)
  then show "distinct xs \<Longrightarrow> set_of_list xs = xs" by (simp add: set_of_list_def)
qed

section \<open>Reading an array at a number\<close>

definition js_index :: "'a list \<Rightarrow> jsnum \<Rightarrow> 'a option" where
  "js_index xs i =
     (if is_integer i \<and> 0 \<le> jval i \<and> jval i < of_nat (length xs)
      then Some (xs ! nat \<lfloor>jval i\<rfloor>) else None)"

lemma js_index_of_nat: "js_index xs (Fin (of_nat n)) = (if n < length xs then Some (xs ! n) else None)"
  by (simp add: js_index_def is_integer_def)

section \<open>Sorting with a comparator\<close>

text \<open>
  \<open>Array.prototype.sort\<close> is stable.  For a comparator that is a consistent total preorder every
  stable sort gives the list of \<open>js_sort\<close>; for others the language leaves the order open.
\<close>

fun js_insert :: "('a \<Rightarrow> 'a \<Rightarrow> jsnum) \<Rightarrow> 'a \<Rightarrow> 'a list \<Rightarrow> 'a list" where
  "js_insert cmp x [] = [x]"
| "js_insert cmp x (y # ys) = (if Fin 0 < cmp x y then y # js_insert cmp x ys else x # y # ys)"

definition js_sort :: "('a \<Rightarrow> 'a \<Rightarrow> jsnum) \<Rightarrow> 'a list \<Rightarrow> 'a list" where
  "js_sort cmp xs = foldr (js_insert cmp) xs []"

lemma set_js_insert [simp]: "set (js_insert cmp x ys) = insert x (set ys)"
  by (induction ys) auto

lemma length_js_insert [simp]: "length (js_insert cmp x ys) = Suc (length ys)"
  by (induction ys) auto

lemma distinct_js_insert: "distinct (x # ys) \<Longrightarrow> distinct (js_insert cmp x ys)"
  by (induction ys) auto

lemma set_js_sort [simp]: "set (js_sort cmp xs) = set xs"
  by (induction xs) (auto simp: js_sort_def)

lemma length_js_sort [simp]: "length (js_sort cmp xs) = length xs"
  by (induction xs) (auto simp: js_sort_def)

lemma distinct_js_sort: "distinct xs \<Longrightarrow> distinct (js_sort cmp xs)"
proof (induction xs)
  case (Cons x xs)
  then have "distinct (x # js_sort cmp xs)" by simp
  then show ?case using distinct_js_insert by (simp add: js_sort_def)
qed (simp add: js_sort_def)

text \<open>\<open>a || b\<close> on comparator results: the second when the first is zero or NaN.\<close>

definition js_or :: "jsnum \<Rightarrow> jsnum \<Rightarrow> jsnum" where
  "js_or a b = (if a = NaN \<or> jzero a then b else a)"

section \<open>Maps in insertion order\<close>

lemma map_of_update [simp]: "map_of (AList.update k v m) = (map_of m)(k \<mapsto> v)"
  by (rule update_conv')

lemma map_of_delete [simp]: "map_of (AList.delete k m) = (map_of m)(k := None)"
  by (rule delete_conv')

section \<open>Decimal numerals are unambiguous\<close>

lemma int_string_inject [simp]: "int_string i = int_string j \<longleftrightarrow> i = j"
proof -
  have nm: "nat_string n \<noteq> CHR ''-'' # s" for n s
    using nat_string_digits [of n] by (auto simp: is_digit_def)
  have nm': "CHR ''-'' # s \<noteq> nat_string n" for n s
    using nm [of n s] by metis
  show ?thesis by (auto simp: int_string_def nm nm')
qed

lemma int_string_nonempty [simp]: "int_string i \<noteq> []" "[] \<noteq> int_string i"
  using nat_string_nonempty by (auto simp: int_string_def) (metis nat_string_nonempty)+

definition prefixed :: "string \<Rightarrow> string" where
  "prefixed s = nat_string (length s) @ CHR '':'' # s"

lemma prefixed_append_inject:
  "prefixed s @ u = prefixed t @ v \<longleftrightarrow> s = t \<and> u = v"
proof
  assume eq: "prefixed s @ u = prefixed t @ v"
  have tw: "takeWhile is_digit (prefixed x @ y) = nat_string (length x)" for x y
  proof -
    have "\<not> is_digit (CHR '':'')" by (simp add: is_digit_def)
    then show ?thesis using nat_string_digits [of "length x"]
      by (simp add: prefixed_def list_all_iff takeWhile_append2)
  qed
  have "nat_string (length s) = nat_string (length t)" using tw [of s u] tw [of t v] eq by metis
  then have "length s = length t" by simp
  then show "s = t \<and> u = v" using eq by (simp add: prefixed_def)
qed simp

lemma concat_prefixed_inject:
  "length xs = length ys \<Longrightarrow> concat (map prefixed xs) = concat (map prefixed ys) \<Longrightarrow> xs = ys"
proof (induction xs ys rule: list_induct2)
  case (Cons x xs y ys)
  then show ?case using prefixed_append_inject [of x "concat (map prefixed xs)" y] by simp
qed simp

end
