(* ===== verification/Decimals.thy ===== *)
theory Decimals imports Prelude begin

text \<open>
  Exact decimals written as text, as \<open>apps/execution/src/order-engine.ts\<close> computes with them
  (\<open>decimal\<close>, \<open>add\<close>, \<open>compare\<close>, \<open>subtract\<close>): a decimal is parsed into an integer and a scale,
  two decimals are aligned to the larger scale, and the result is printed with exactly that
  scale, unless its fraction is all zeros.  \<open>dec_rat\<close> is the number a parsed decimal denotes;
  the lemmas show that addition and subtraction are exact and that comparison is the order of
  the denoted numbers.
\<close>

section \<open>Parsing\<close>

record dec =
  dec_value :: int
  dec_scale :: nat

definition dec_rat :: "dec \<Rightarrow> rat" where
  "dec_rat d = of_int (dec_value d) / 10 ^ dec_scale d"

definition requireText :: "string \<Rightarrow> string \<Rightarrow> string result" where
  "requireText value name =
     (if blank value then throw (name @ '' is required'') else Inr value)"

definition split_dot :: "string \<Rightarrow> string \<times> string option" where
  "split_dot s =
     (case dropWhile (\<lambda>c. c \<noteq> CHR ''.'') s of
        [] \<Rightarrow> (s, None)
      | _ # fraction \<Rightarrow> (takeWhile (\<lambda>c. c \<noteq> CHR ''.'') s, Some fraction))"

definition digits1 :: "string \<Rightarrow> bool" where
  "digits1 s \<longleftrightarrow> s \<noteq> [] \<and> list_all is_digit s"

definition decimal_text :: "string \<Rightarrow> bool" where
  "decimal_text s =
     (case split_dot s of (whole, None) \<Rightarrow> digits1 whole
      | (whole, Some fraction) \<Rightarrow> digits1 whole \<and> digits1 fraction)"

definition parse_parts :: "string \<Rightarrow> dec" where
  "parse_parts s =
     (case split_dot s of
        (whole, None) \<Rightarrow> \<lparr>dec_value = int (digits_val whole), dec_scale = 0\<rparr>
      | (whole, Some fraction) \<Rightarrow>
          \<lparr>dec_value = int (digits_val (whole @ fraction)), dec_scale = length fraction\<rparr>)"

definition decimal :: "string \<Rightarrow> string \<Rightarrow> dec result" where
  "decimal value name =
     bind_r (requireText value name) (\<lambda>text.
     guard_r (\<not> decimal_text text) (Error (name @ '' must be a non-negative decimal''))
       (Inr (parse_parts text)))"

section \<open>Alignment and printing\<close>

definition scale_up :: "nat \<Rightarrow> dec \<Rightarrow> int" where
  "scale_up scale d = dec_value d * 10 ^ (scale - dec_scale d)"

definition drop_zero_fraction :: "string \<Rightarrow> string \<Rightarrow> string" where
  "drop_zero_fraction whole fraction =
     (if list_all (\<lambda>c. c = CHR ''0'') fraction then whole else whole @ CHR ''.'' # fraction)"

definition format_scaled :: "int \<Rightarrow> nat \<Rightarrow> string" where
  "format_scaled value scale =
     (let text = pad_start (scale + 1) (CHR ''0'') (int_string value)
      in if scale = 0 then text
         else drop_zero_fraction (take (length text - scale) text) (drop (length text - scale) text))"

definition dec_add :: "string \<Rightarrow> string \<Rightarrow> string result" where
  "dec_add a b =
     bind_r (decimal a ''decimal'') (\<lambda>left. bind_r (decimal b ''decimal'') (\<lambda>right.
     (let scale = max (dec_scale left) (dec_scale right)
      in Inr (format_scaled (scale_up scale left + scale_up scale right) scale))))"

definition dec_compare :: "string \<Rightarrow> string \<Rightarrow> int result" where
  "dec_compare a b =
     bind_r (decimal a ''decimal'') (\<lambda>left. bind_r (decimal b ''decimal'') (\<lambda>right.
     (let scale = max (dec_scale left) (dec_scale right);
          l = scale_up scale left; r = scale_up scale right
      in Inr (if l < r then - 1 else if r < l then 1 else 0))))"

definition dec_subtract :: "string \<Rightarrow> string \<Rightarrow> string result" where
  "dec_subtract a b =
     bind_r (dec_compare a b) (\<lambda>c.
     guard_r (c < 0) (Error ''quantity cannot become negative'')
     (bind_r (decimal a ''decimal'') (\<lambda>left. bind_r (decimal b ''decimal'') (\<lambda>right.
      (let scale = max (dec_scale left) (dec_scale right)
       in Inr (format_scaled (scale_up scale left - scale_up scale right) scale))))))"

section \<open>What a decimal denotes\<close>

text \<open>\<open>denotes s q\<close>: the text \<open>s\<close> is accepted by \<open>decimal\<close> and its value is \<open>q\<close>.\<close>

definition denotes :: "string \<Rightarrow> rat \<Rightarrow> bool" where
  "denotes s q \<longleftrightarrow> decimal_text s \<and> dec_rat (parse_parts s) = q"

lemma is_digit_not_dot: "is_digit c \<Longrightarrow> c \<noteq> CHR ''.''"
  by (auto simp: is_digit_def)

lemma is_digit_not_space: "is_digit c \<Longrightarrow> \<not> is_space c"
  by (auto simp: is_digit_def is_space_def Let_def)

lemma split_dot_plain: "list_all is_digit s \<Longrightarrow> split_dot s = (s, None)"
proof -
  assume "list_all is_digit s"
  then have "dropWhile (\<lambda>c. c \<noteq> CHR ''.'') s = []"
    by (auto simp: list_all_iff dropWhile_eq_Nil_conv dest: is_digit_not_dot)
  then show ?thesis by (simp only: split_dot_def list.case)
qed

lemma split_dot_fraction:
  "list_all is_digit w \<Longrightarrow> split_dot (w @ CHR ''.'' # f) = (w, Some f)"
proof -
  assume "list_all is_digit w"
  then have "\<forall>c\<in>set w. c \<noteq> CHR ''.''" by (auto simp: list_all_iff dest: is_digit_not_dot)
  then show ?thesis by (simp add: split_dot_def dropWhile_append2 takeWhile_append2)
qed

lemma split_dot_eq: "split_dot s = (w, Some f) \<Longrightarrow> s = w @ CHR ''.'' # f"
proof -
  assume a: "split_dot s = (w, Some f)"
  then obtain c where c: "dropWhile (\<lambda>c. c \<noteq> CHR ''.'') s = c # f"
      and w: "w = takeWhile (\<lambda>c. c \<noteq> CHR ''.'') s"
    by (auto simp: split_dot_def split: list.splits)
  have "c = CHR ''.''" using c hd_dropWhile [of "\<lambda>c. c \<noteq> CHR ''.''" s] by auto
  then show ?thesis using c w by (metis takeWhile_dropWhile_id)
qed

lemma split_dot_None: "split_dot s = (w, None) \<Longrightarrow> w = s"
  by (auto simp: split_dot_def split: list.splits)

lemma decimal_text_not_blank: "decimal_text s \<Longrightarrow> \<not> blank s"
proof -
  assume d: "decimal_text s"
  obtain w r where wr: "split_dot s = (w, r)" by force
  then have w: "digits1 w" using d by (auto simp: decimal_text_def split: option.splits)
  have "set w \<subseteq> set s"
    using wr by (cases r) (auto dest: split_dot_eq split_dot_None)
  moreover have "hd w \<in> set w" "is_digit (hd w)" using w by (auto simp: digits1_def list_all_iff)
  ultimately show "\<not> blank s" by (auto simp: blank_iff list_all_iff dest: is_digit_not_space)
qed

lemma decimal_Inr_iff [result_simps]:
  "decimal s name = Inr d \<longleftrightarrow> decimal_text s \<and> d = parse_parts s"
  using decimal_text_not_blank [of s]
  by (auto simp: decimal_def requireText_def result_simps guard_r_def)

lemma decimal_denotes: "denotes s q \<Longrightarrow> decimal s name = Inr (parse_parts s)"
  by (simp add: denotes_def result_simps)

lemma dec_value_nonneg: "0 \<le> dec_value (parse_parts s)"
  by (auto simp: parse_parts_def split: prod.splits option.splits)

lemma denotes_nonneg: "denotes s q \<Longrightarrow> 0 \<le> q"
  using dec_value_nonneg [of s] by (auto simp: denotes_def dec_rat_def)

lemma denotes_unique: "denotes s p \<Longrightarrow> denotes s q \<Longrightarrow> p = q"
  by (simp add: denotes_def)

lemma decimal_text_denotes: "decimal_text s \<Longrightarrow> denotes s (dec_rat (parse_parts s))"
  by (simp add: denotes_def)

lemma scale_up_rat:
  "dec_scale d \<le> scale \<Longrightarrow> of_int (scale_up scale d) = dec_rat d * 10 ^ scale"
  by (auto simp: scale_up_def dec_rat_def le_iff_add power_add)

lemma zeros_digits: "list_all (\<lambda>c. c = CHR ''0'') f \<Longrightarrow> digits_val f = 0"
proof -
  assume "list_all (\<lambda>c. c = CHR ''0'') f"
  then have "f = replicate (length f) (CHR ''0'')" by (induction f) auto
  then show ?thesis by (metis CHR_0 digits_val_zeros)
qed

lemma denotes_plain: "digits1 w \<Longrightarrow> denotes w (of_nat (digits_val w))"
  by (simp add: denotes_def decimal_text_def parse_parts_def dec_rat_def digits1_def
      split_dot_plain)

lemma denotes_fraction:
  "digits1 w \<Longrightarrow> digits1 f \<Longrightarrow>
     denotes (w @ CHR ''.'' # f) (of_nat (digits_val (w @ f)) / 10 ^ length f)"
  by (simp add: denotes_def decimal_text_def parse_parts_def dec_rat_def digits1_def
      split_dot_fraction)

lemma denotes_format_scaled:
  assumes "0 \<le> v"
  shows "denotes (format_scaled v n) (of_int v / 10 ^ n)"
proof -
  define t0 where "t0 = pad_start (n + 1) (CHR ''0'') (int_string v)"
  define w where "w = take (length t0 - n) t0"
  define f where "f = drop (length t0 - n) t0"
  have t0: "list_all is_digit t0" "n < length t0" "digits_val t0 = nat v"
    using assms by (auto simp: t0_def int_string_def pad_start_length digits_val_pad
        intro!: pad_start_digits nat_string_digits)
  have wf: "t0 = w @ f" by (simp add: w_def f_def)
  have len: "length f = n" "w \<noteq> []" using t0(2) by (auto simp: f_def w_def)
  have d: "list_all is_digit w" "list_all is_digit f" using t0(1) by (auto simp: wf)
  have v: "of_nat (digits_val t0) = (of_int v :: rat)" using assms t0(3) by simp
  show ?thesis
  proof (cases "n = 0")
    case True
    then have "format_scaled v n = t0" by (simp add: format_scaled_def t0_def)
    moreover have "digits1 t0" using t0 by (auto simp: digits1_def)
    ultimately show ?thesis using denotes_plain [of t0] v True by simp
  next
    case False
    then have fs: "format_scaled v n = drop_zero_fraction w f"
      by (simp add: format_scaled_def t0_def w_def f_def Let_def)
    show ?thesis
    proof (cases "list_all (\<lambda>c. c = CHR ''0'') f")
      case True
      then have "digits_val t0 = digits_val w * 10 ^ n"
        by (simp add: wf digits_val_append zeros_digits len)
      then have "(of_int v :: rat) = of_nat (digits_val w) * 10 ^ n" using v by simp
      then show ?thesis
        using denotes_plain [of w] True d len by (simp add: fs drop_zero_fraction_def digits1_def)
    next
      case False
      then have "denotes (w @ CHR ''.'' # f) (of_nat (digits_val t0) / 10 ^ n)"
        using denotes_fraction [of w f] d len \<open>n \<noteq> 0\<close> by (auto simp: digits1_def wf)
      then show ?thesis using False v by (simp add: fs drop_zero_fraction_def)
    qed
  qed
qed

section \<open>The operations are exact\<close>

lemma dec_add_denotes:
  assumes "denotes a p" "denotes b q"
  shows "\<exists>c. dec_add a b = Inr c \<and> denotes c (p + q)"
proof -
  define l r where "l = parse_parts a" and "r = parse_parts b"
  define n where "n = max (dec_scale l) (dec_scale r)"
  have "(of_int (scale_up n l + scale_up n r) :: rat) = (p + q) * 10 ^ n"
    using assms by (simp add: scale_up_rat n_def denotes_def l_def r_def algebra_simps)
  moreover have "0 \<le> scale_up n l + scale_up n r"
    by (simp add: scale_up_def l_def r_def dec_value_nonneg)
  ultimately have "denotes (format_scaled (scale_up n l + scale_up n r) n) (p + q)"
    using denotes_format_scaled [of "scale_up n l + scale_up n r" n] by simp
  then show ?thesis
    using assms by (auto simp: dec_add_def decimal_denotes Let_def l_def r_def n_def)
qed

lemma scale_up_less_iff:
  assumes "dec_scale l \<le> n" "dec_scale r \<le> n"
  shows "scale_up n l < scale_up n r \<longleftrightarrow> dec_rat l < dec_rat r"
proof -
  have "scale_up n l < scale_up n r \<longleftrightarrow> (of_int (scale_up n l) :: rat) < of_int (scale_up n r)"
    by simp
  also have "\<dots> \<longleftrightarrow> dec_rat l * 10 ^ n < dec_rat r * 10 ^ n" using assms by (simp only: scale_up_rat)
  finally show ?thesis by simp
qed

lemma dec_compare_denotes:
  assumes "denotes a p" "denotes b q"
  shows "dec_compare a b = Inr (if p < q then - 1 else if q < p then 1 else 0)"
  using assms
  by (simp add: dec_compare_def decimal_denotes Let_def scale_up_less_iff denotes_def
      decimal_Inr_iff)

lemma dec_subtract_denotes:
  assumes "denotes a p" "denotes b q" "q \<le> p"
  shows "\<exists>c. dec_subtract a b = Inr c \<and> denotes c (p - q)"
proof -
  define l r where "l = parse_parts a" and "r = parse_parts b"
  define n where "n = max (dec_scale l) (dec_scale r)"
  have eq: "(of_int (scale_up n l - scale_up n r) :: rat) = (p - q) * 10 ^ n"
    using assms by (simp add: scale_up_rat n_def denotes_def l_def r_def algebra_simps)
  have "(0 :: rat) \<le> of_int (scale_up n l - scale_up n r)"
    unfolding eq using assms by simp
  then have "0 \<le> scale_up n l - scale_up n r" by (simp only: of_int_0_le_iff)
  then have "denotes (format_scaled (scale_up n l - scale_up n r) n) (p - q)"
    using denotes_format_scaled [of "scale_up n l - scale_up n r" n] eq by simp
  then show ?thesis
    using assms dec_compare_denotes [OF assms(1,2)]
    by (auto simp: dec_subtract_def decimal_denotes Let_def l_def r_def n_def)
qed

lemma dec_subtract_negative:
  assumes "denotes a p" "denotes b q" "p < q"
  shows "dec_subtract a b = throw ''quantity cannot become negative''"
  using dec_compare_denotes [OF assms(1,2)] assms(3) by (simp add: dec_subtract_def throw_def)

lemma dec_add_Inr:
  "dec_add a b = Inr c \<Longrightarrow> \<exists>p q. denotes a p \<and> denotes b q \<and> denotes c (p + q)"
proof -
  assume eq: "dec_add a b = Inr c"
  then have "denotes a (dec_rat (parse_parts a))" "denotes b (dec_rat (parse_parts b))"
    by (auto simp: dec_add_def result_simps intro: decimal_text_denotes)
  then show ?thesis using dec_add_denotes eq by fastforce
qed

lemma dec_subtract_Inr:
  "dec_subtract a b = Inr c \<Longrightarrow> \<exists>p q. denotes a p \<and> denotes b q \<and> q \<le> p \<and> denotes c (p - q)"
proof -
  assume eq: "dec_subtract a b = Inr c"
  then have d: "denotes a (dec_rat (parse_parts a))" "denotes b (dec_rat (parse_parts b))"
    by (auto simp: dec_subtract_def dec_compare_def result_simps intro: decimal_text_denotes)
  show ?thesis
  proof (cases "dec_rat (parse_parts a) < dec_rat (parse_parts b)")
    case True
    then show ?thesis using dec_subtract_negative [OF d] eq by simp
  next
    case False
    then show ?thesis using dec_subtract_denotes [OF d] d eq by fastforce
  qed
qed

end
