(* ===== verification/KeyedQueue.thy ===== *)
theory KeyedQueue imports Prelude begin

text \<open>
  The interface of the bounded first-in first-out queues that refuse a second item with a key
  that is still queued (\<open>OrderQueue\<close> of \<open>order-engine.ts\<close>, \<open>SyncQueue\<close> of
  \<open>offline-engine.ts\<close>).  A provider promises what one \<open>enq\<close> and one \<open>deq\<close> do to the list of
  items and to the key index; from that alone follow the invariant that ties the index to the
  items, the capacity bound and the first-in first-out order over any sequence of operations.
\<close>

datatype 'a queue_op = Enq 'a | Deq

locale keyed_queue =
  fixes items :: "'q \<Rightarrow> 'a list"
    and keys :: "'q \<Rightarrow> string set"
    and key :: "'a \<Rightarrow> string"
    and stored :: "'a \<Rightarrow> 'a"
    and accepts :: "'a \<Rightarrow> bool"
    and capacity :: "'q \<Rightarrow> jsnum"
    and enq :: "'a \<Rightarrow> 'q \<Rightarrow> (bool \<times> 'q) result"
    and deq :: "'q \<Rightarrow> 'a option \<times> 'q"
  assumes stored_key: "key (stored x) = key x"
    and enq_rejected: "\<not> accepts x \<Longrightarrow> \<exists>e. enq x q = Inl e"
    and enq_duplicate: "accepts x \<Longrightarrow> key x \<in> keys q \<Longrightarrow> enq x q = Inr (False, q)"
    and enq_full: "accepts x \<Longrightarrow> key x \<notin> keys q \<Longrightarrow>
      capacity q \<le> Fin (of_nat (length (items q))) \<Longrightarrow> \<exists>e. enq x q = Inl e"
    and enq_stores: "accepts x \<Longrightarrow> key x \<notin> keys q \<Longrightarrow>
      \<not> capacity q \<le> Fin (of_nat (length (items q))) \<Longrightarrow>
      \<exists>q'. enq x q = Inr (True, q') \<and> items q' = items q @ [stored x] \<and>
        keys q' = insert (key x) (keys q) \<and> capacity q' = capacity q"
    and deq_empty: "items q = [] \<Longrightarrow> deq q = (None, q)"
    and deq_first: "items q = x # xs \<Longrightarrow>
      \<exists>q'. deq q = (Some x, q') \<and> items q' = xs \<and> keys q' = keys q - {key x} \<and>
        capacity q' = capacity q"
begin

definition ok :: "'q \<Rightarrow> bool" where
  "ok q \<longleftrightarrow> keys q = key ` set (items q) \<and> distinct (map key (items q)) \<and>
     Fin (of_nat (length (items q))) \<le> capacity q \<and> is_safe_integer (capacity q)"

definition apply_op :: "'a queue_op \<Rightarrow> 'q \<Rightarrow> 'q" where
  "apply_op p q =
     (case p of Enq x \<Rightarrow> (case enq x q of Inl e \<Rightarrow> q | Inr (b, q') \<Rightarrow> q') | Deq \<Rightarrow> snd (deq q))"

lemma below_capacity:
  assumes "ok q" "\<not> capacity q \<le> Fin (of_nat (length (items q)))"
  shows "Fin (of_nat (Suc (length (items q)))) \<le> capacity q"
proof -
  obtain n where n: "jval (capacity q) = of_int n" "is_finite (capacity q)"
    using assms(1) by (auto simp: ok_def elim: is_safe_integer_cases)
  have "(of_int (int (length (items q))) :: rat) < of_int n"
    using assms(2) n by (simp add: jle_finite)
  then have "int (length (items q)) < n" by (simp only: of_int_less_iff)
  then have "(of_int (int (Suc (length (items q)))) :: rat) \<le> of_int n" by (simp only: of_int_le_iff)
  then show ?thesis using n by (simp add: jle_finite)
qed

lemma ok_enq: "ok q \<Longrightarrow> enq x q = Inr (b, q') \<Longrightarrow> ok q'"
proof -
  assume ok: "ok q" and e: "enq x q = Inr (b, q')"
  have a: "accepts x" using enq_rejected [of x q] e by auto
  show "ok q'"
  proof (cases "key x \<in> keys q")
    case True
    then show ?thesis using enq_duplicate [OF a, of q] e ok by auto
  next
    case False
    then have c: "\<not> capacity q \<le> Fin (of_nat (length (items q)))" using enq_full [OF a False] e by auto
    from enq_stores [OF a False c] e have q': "items q' = items q @ [stored x]"
        "keys q' = insert (key x) (keys q)" "capacity q' = capacity q" by auto
    then show ?thesis using ok False below_capacity [OF ok c] by (auto simp: ok_def stored_key)
  qed
qed

lemma ok_deq: "ok q \<Longrightarrow> ok (snd (deq q))"
proof (cases "items q")
  case Nil
  assume "ok q"
  then show ?thesis using Nil by (simp add: deq_empty)
next
  case (Cons x xs)
  assume ok: "ok q"
  obtain q' where q': "deq q = (Some x, q')" "items q' = xs" "keys q' = keys q - {key x}"
      "capacity q' = capacity q" using deq_first [OF Cons] by auto
  have "Fin (of_nat (length xs)) \<le> Fin (of_nat (length (items q)))" using Cons by simp
  then have "Fin (of_nat (length xs)) \<le> capacity q" using ok unfolding ok_def by (blast intro: jle_trans)
  then show ?thesis using ok Cons q' by (auto simp: ok_def)
qed

lemma ok_run: "ok q \<Longrightarrow> ok (fold apply_op ps q)"
proof (induction ps arbitrary: q)
  case (Cons p ps)
  have "ok (apply_op p q)"
    using Cons.prems by (auto simp: apply_op_def ok_deq split: queue_op.splits sum.splits intro: ok_enq)
  then show ?case using Cons.IH by simp
qed simp

text \<open>
  First in, first out: what a run of dequeues returns is a prefix of what was there and what
  was accepted, in order.
\<close>

fun outputs :: "'a queue_op list \<Rightarrow> 'q \<Rightarrow> 'a list" where
  "outputs [] q = []"
| "outputs (Enq x # ps) q = outputs ps (apply_op (Enq x) q)"
| "outputs (Deq # ps) q =
     (case fst (deq q) of None \<Rightarrow> [] | Some x \<Rightarrow> [x]) @ outputs ps (apply_op Deq q)"

fun inputs :: "'a queue_op list \<Rightarrow> 'q \<Rightarrow> 'a list" where
  "inputs [] q = []"
| "inputs (Enq x # ps) q =
     (case enq x q of Inr (True, _) \<Rightarrow> [stored x] | _ \<Rightarrow> []) @ inputs ps (apply_op (Enq x) q)"
| "inputs (Deq # ps) q = inputs ps (apply_op Deq q)"

lemma enq_items:
  "items (apply_op (Enq x) q) = items q @ (case enq x q of Inr (True, _) \<Rightarrow> [stored x] | _ \<Rightarrow> [])"
proof (cases "enq x q")
  case (Inr r)
  then have a: "accepts x" using enq_rejected [of x q] by auto
  show ?thesis
  proof (cases "key x \<in> keys q")
    case True
    then show ?thesis using enq_duplicate [OF a True] by (simp add: apply_op_def)
  next
    case False
    then have "\<not> capacity q \<le> Fin (of_nat (length (items q)))" using enq_full [OF a False] Inr by auto
    from enq_stores [OF a False this] show ?thesis by (auto simp: apply_op_def)
  qed
qed (simp add: apply_op_def)

lemma fifo: "items q @ inputs ps q = outputs ps q @ items (fold apply_op ps q)"
proof (induction ps arbitrary: q)
  case (Cons p ps)
  show ?case
  proof (cases p)
    case (Enq x)
    have "items q @ inputs (p # ps) q = items (apply_op p q) @ inputs ps (apply_op p q)"
      by (simp add: Enq enq_items)
    then show ?thesis
      using Cons.IH [of "apply_op p q"] by (simp only: Enq outputs.simps fold_Cons o_apply)
  next
    case Deq
    have eq: "items q = (case fst (deq q) of None \<Rightarrow> [] | Some x \<Rightarrow> [x]) @ items (apply_op p q)"
    proof (cases "items q")
      case Nil
      then show ?thesis by (simp add: Deq apply_op_def deq_empty)
    next
      case (Cons x xs)
      then obtain q' where "deq q = (Some x, q')" "items q' = xs" using deq_first [OF Cons] by auto
      then show ?thesis using Cons by (simp add: Deq apply_op_def)
    qed
    have "items q @ inputs (p # ps) q =
        (case fst (deq q) of None \<Rightarrow> [] | Some x \<Rightarrow> [x]) @ items (apply_op p q) @ inputs ps (apply_op p q)"
      by (subst eq) (simp only: Deq inputs.simps append_assoc)
    then show ?thesis
      by (simp only: Cons.IH Deq outputs.simps fold_Cons o_apply append_assoc)
  qed
qed simp

end

end
