(* ===== verification/OrderEngine.thy ===== *)
theory OrderEngine imports Decimals KeyedQueue begin

text \<open>
  \<open>apps/execution/src/order-engine.ts\<close>: the order state machine and its replay from an event
  log, the partial-fill manager, the recovery of fills the exchange reports and the local log
  misses, the bounded order queue and dead-letter queue, retries, cancel-and-replace, the
  sequence check of the order stream, inventory reservations, the hash-chained execution audit
  and the execution metrics.  Decimals are text, as in the source (\<open>Decimals\<close>).  Parameters:
  the power operator of numbers (\<open>pow\<close>), the digest of an audit payload (\<open>sha\<close>), the random
  identifiers and the exchange port.
\<close>

section \<open>States and events\<close>

datatype order_state =
  OsCreated | OsQueued | OsSubmitting | OsAccepted | OsPartiallyFilled | OsFilled
| OsCancelRequested | OsCanceled | OsFailed | OsDeadLettered

datatype order_event_type =
  OeCreated | OeQueued | OeSubmitting | OeAccepted | OePartialFill | OeFilled
| OeCancelRequested | OeCanceled | OeFailed | OeDeadLettered

record order_event =
  oe_eventId :: string
  oe_orderId :: string
  oe_type :: order_event_type
  oe_sequence :: jsnum
  oe_occurredAtMs :: jsnum
  oe_quantity :: "string option"
  oe_price :: "string option"
  oe_reason :: "string option"

record replayed_order =
  ro_orderId :: string
  ro_state :: order_state
  ro_filledQuantity :: string
  ro_remainingQuantity :: "string option"
  ro_averageFillPrice :: "string option"
  ro_sequence :: jsnum

fun transitions :: "order_state \<Rightarrow> order_state list" where
  "transitions OsCreated = [OsQueued, OsFailed]"
| "transitions OsQueued = [OsSubmitting, OsCanceled, OsFailed]"
| "transitions OsSubmitting = [OsAccepted, OsFailed, OsDeadLettered]"
| "transitions OsAccepted = [OsPartiallyFilled, OsFilled, OsCancelRequested, OsFailed]"
| "transitions OsPartiallyFilled = [OsPartiallyFilled, OsFilled, OsCancelRequested, OsFailed]"
| "transitions OsFilled = []"
| "transitions OsCanceled = []"
| "transitions OsFailed = []"
| "transitions OsDeadLettered = []"
| "transitions OsCancelRequested = [OsCanceled, OsFilled, OsPartiallyFilled, OsFailed]"

fun state_name :: "order_state \<Rightarrow> string" where
  "state_name OsCreated = ''CREATED''"
| "state_name OsQueued = ''QUEUED''"
| "state_name OsSubmitting = ''SUBMITTING''"
| "state_name OsAccepted = ''ACCEPTED''"
| "state_name OsPartiallyFilled = ''PARTIALLY_FILLED''"
| "state_name OsFilled = ''FILLED''"
| "state_name OsCancelRequested = ''CANCEL_REQUESTED''"
| "state_name OsCanceled = ''CANCELED''"
| "state_name OsFailed = ''FAILED''"
| "state_name OsDeadLettered = ''DEAD_LETTERED''"

definition assertOrderEngineTransition :: "order_state \<Rightarrow> order_state \<Rightarrow> unit result" where
  "assertOrderEngineTransition from to =
     (if to \<in> set (transitions from) then Inr ()
      else throw (''INVALID_ORDER_TRANSITION:'' @ state_name from @ ''->'' @ state_name to))"

fun event_state :: "order_event_type \<Rightarrow> order_state" where
  "event_state OePartialFill = OsPartiallyFilled"
| "event_state OeFilled = OsFilled"
| "event_state OeCancelRequested = OsCancelRequested"
| "event_state OeDeadLettered = OsDeadLettered"
| "event_state OeCreated = OsCreated"
| "event_state OeQueued = OsQueued"
| "event_state OeSubmitting = OsSubmitting"
| "event_state OeAccepted = OsAccepted"
| "event_state OeCanceled = OsCanceled"
| "event_state OeFailed = OsFailed"

section \<open>The average fill price\<close>

type_synonym fill_text = "string option \<times> string option"

definition opt_text :: "string \<Rightarrow> string option \<Rightarrow> string" where
  "opt_text d s = (case s of None \<Rightarrow> d | Some t \<Rightarrow> t)"

definition max_scale :: "dec list \<Rightarrow> nat" where
  "max_scale ds = fold (\<lambda>d m. max m (dec_scale d)) ds 0"

definition total_quantity :: "nat \<Rightarrow> dec list \<Rightarrow> int" where
  "total_quantity maxScale qs = sum_list (map (scale_up maxScale) qs)"

definition total_value :: "nat \<Rightarrow> nat \<Rightarrow> dec list \<Rightarrow> dec list \<Rightarrow> int" where
  "total_value maxScale priceScale qs ps =
     sum_list (map2 (\<lambda>q p. scale_up maxScale q * scale_up priceScale p) qs ps)"

definition averagePrice :: "fill_text list \<Rightarrow> string option result" where
  "averagePrice fills =
     (if fills = [] then Inr None
      else bind_r (map_r (\<lambda>f. decimal (opt_text [] (fst f)) ''quantity'') fills) (\<lambda>qs.
           bind_r (map_r (\<lambda>f. decimal (opt_text [] (snd f)) ''price'') fills) (\<lambda>ps.
           (let maxScale = max_scale qs; priceScale = max_scale ps;
                totalQuantity = total_quantity maxScale qs;
                totalValue = total_value maxScale priceScale qs ps
            in if totalQuantity = 0 then Inl (RangeError ''Division by zero'')
               else Inr (Some (format_scaled (totalValue div totalQuantity) priceScale))))))"

section \<open>Replay\<close>

type_synonym replay_state = "order_event list \<times> order_state \<times> jsnum"

definition fill_event :: "order_event \<Rightarrow> bool" where
  "fill_event e \<longleftrightarrow> oe_type e = OePartialFill \<or> oe_type e = OeFilled"

definition event_text :: "order_event \<Rightarrow> fill_text" where
  "event_text e = (oe_quantity e, oe_price e)"

definition previous_time :: "order_event list \<Rightarrow> order_event \<Rightarrow> jsnum" where
  "previous_time events e =
     (case js_index events (oe_sequence e - Fin 2) of
        None \<Rightarrow> oe_occurredAtMs e | Some p \<Rightarrow> oe_occurredAtMs p)"

definition replay_step ::
  "order_event list \<Rightarrow> order_event \<Rightarrow> order_event \<Rightarrow> replay_state \<Rightarrow> replay_state result" where
  "replay_step events first e s =
     (case s of (fills, state, lastSequence) \<Rightarrow>
      guard_r (oe_orderId e \<noteq> oe_orderId first \<or> \<not> js_eq (oe_sequence e) (lastSequence + Fin 1)
               \<or> oe_occurredAtMs e < previous_time events e)
        (Error ''ORDER_REPLAY_SEQUENCE_INVALID'')
      (if oe_type e = OeCreated then Inr (fills, state, oe_sequence e)
       else let next = event_state (oe_type e) in
         bind_r (assertOrderEngineTransition state next) (\<lambda>_.
         if fill_event e
         then bind_r (decimal (opt_text [] (oe_quantity e)) ''fill quantity'') (\<lambda>_.
              bind_r (decimal (opt_text [] (oe_price e)) ''fill price'') (\<lambda>_.
              Inr (fills @ [e], next, oe_sequence e)))
         else Inr (fills, next, oe_sequence e))))"

definition filled_sum :: "order_event list \<Rightarrow> string result" where
  "filled_sum fills = fold_r (\<lambda>f sum. dec_add sum (opt_text ''0'' (oe_quantity f))) fills ''0''"

definition replayOrderEvents ::
  "order_event list \<Rightarrow> string option \<Rightarrow> replayed_order result" where
  "replayOrderEvents events requestedQuantity =
     (case events of [] \<Rightarrow> throw ''ORDER_EVENTS_REQUIRED''
      | first # _ \<Rightarrow>
        guard_r (oe_type first \<noteq> OeCreated \<or> \<not> js_eq (oe_sequence first) (Fin 1))
          (Error ''ORDER_REPLAY_MUST_START_CREATED'')
        (bind_r (fold_r (replay_step events first) events ([], OsCreated, Fin 0))
          (\<lambda>(fills, state, lastSequence).
         bind_r (filled_sum fills) (\<lambda>filledQuantity.
         bind_r (case requestedQuantity of None \<Rightarrow> Inr ()
                 | Some r \<Rightarrow> bind_r (dec_compare filledQuantity r) (\<lambda>c.
                     guard_r (0 < c) (Error ''ORDER_REPLAY_OVERFILLED'') (Inr ()))) (\<lambda>_.
         bind_r (case requestedQuantity of None \<Rightarrow> Inr None
                 | Some r \<Rightarrow> bind_r (dec_subtract r filledQuantity) (\<lambda>x. Inr (Some x))) (\<lambda>remaining.
         bind_r (averagePrice (map event_text fills)) (\<lambda>average.
         Inr \<lparr>ro_orderId = oe_orderId first, ro_state = state, ro_filledQuantity = filledQuantity,
              ro_remainingQuantity = remaining, ro_averageFillPrice = average,
              ro_sequence = lastSequence\<rparr>)))))))"

section \<open>Partial fills\<close>

record partial_fill_state =
  pf_requestedQuantity :: string
  pf_filledQuantity :: string
  pf_remainingQuantity :: string
  pf_averageFillPrice :: "string option"
  pf_fills :: "(string \<times> string) list"

definition PartialFillManager_new :: "string \<Rightarrow> partial_fill_state result" where
  "PartialFillManager_new requested =
     bind_r (decimal requested ''requestedQuantity'') (\<lambda>_.
       Inr \<lparr>pf_requestedQuantity = requested, pf_filledQuantity = ''0'',
            pf_remainingQuantity = requested, pf_averageFillPrice = None, pf_fills = []\<rparr>)"

definition PartialFillManager_apply ::
  "string \<times> string \<Rightarrow> partial_fill_state \<Rightarrow> partial_fill_state result" where
  "PartialFillManager_apply fill s =
     bind_r (decimal (fst fill) ''fill quantity'') (\<lambda>_.
     bind_r (decimal (snd fill) ''fill price'') (\<lambda>_.
     bind_r (dec_add (pf_filledQuantity s) (fst fill)) (\<lambda>filled.
     bind_r (dec_compare filled (pf_requestedQuantity s)) (\<lambda>c.
     guard_r (0 < c) (Error ''PARTIAL_FILL_OVERFLOW'')
     (let fills = pf_fills s @ [fill] in
      bind_r (dec_subtract (pf_requestedQuantity s) filled) (\<lambda>remaining.
      bind_r (averagePrice (map (\<lambda>f. (Some (fst f), Some (snd f))) fills)) (\<lambda>average.
      Inr \<lparr>pf_requestedQuantity = pf_requestedQuantity s, pf_filledQuantity = filled,
           pf_remainingQuantity = remaining, pf_averageFillPrice = average, pf_fills = fills\<rparr>)))))))"

text \<open>The object after a sequence of calls: a call that throws leaves it as it was.\<close>

definition partial_fill_run :: "(string \<times> string) list \<Rightarrow> partial_fill_state \<Rightarrow> partial_fill_state" where
  "partial_fill_run =
     fold (\<lambda>f s. case PartialFillManager_apply f s of Inl _ \<Rightarrow> s | Inr t \<Rightarrow> t)"

section \<open>Ghost fills\<close>

record ghost_fill =
  gf_exchangeTradeId :: string
  gf_quantity :: string
  gf_price :: string
  gf_executedAtMs :: jsnum

datatype ghost_status = GsMatched | GsRecovered | GsBlocked

record ghost_result =
  gr_status :: ghost_status
  gr_recovered :: "ghost_fill list"
  gr_duplicateIds :: "string list"
  gr_unknownIds :: "string list"

definition ghost_step ::
  "string set \<Rightarrow> ghost_fill \<Rightarrow> string list \<times> ghost_fill list \<times> string list
     \<Rightarrow> (string list \<times> ghost_fill list \<times> string list) result" where
  "ghost_step localIds fill s =
     (case s of (seen, recovered, duplicateIds) \<Rightarrow>
      bind_r (requireText (gf_exchangeTradeId fill) ''exchangeTradeId'') (\<lambda>_.
      bind_r (decimal (gf_quantity fill) ''fill quantity'') (\<lambda>_.
      bind_r (decimal (gf_price fill) ''fill price'') (\<lambda>_.
      Inr (if gf_exchangeTradeId fill \<in> set seen
           then (seen, recovered, duplicateIds @ [gf_exchangeTradeId fill])
           else (seen @ [gf_exchangeTradeId fill],
                 if gf_exchangeTradeId fill \<in> localIds then recovered else recovered @ [fill],
                 duplicateIds))))))"

definition recoverGhostFills :: "ghost_fill list \<Rightarrow> ghost_fill list \<Rightarrow> ghost_result result" where
  "recoverGhostFills locals remote =
     bind_r (fold_r (ghost_step (gf_exchangeTradeId ` set locals)) remote ([], [], []))
       (\<lambda>(seen, recovered, duplicateIds).
        let unknownIds = map gf_exchangeTradeId
              (filter (\<lambda>f. gf_exchangeTradeId f \<notin> set seen) locals);
            status = (if duplicateIds \<noteq> [] \<or> unknownIds \<noteq> [] then GsBlocked
                      else if recovered \<noteq> [] then GsRecovered else GsMatched)
        in Inr \<lparr>gr_status = status, gr_recovered = recovered, gr_duplicateIds = duplicateIds,
                gr_unknownIds = unknownIds\<rparr>)"

section \<open>The state machine\<close>

inductive order_step :: "order_state \<Rightarrow> order_state \<Rightarrow> bool" where
  order_stepI: "to \<in> set (transitions from) \<Longrightarrow> order_step from to"

inductive_simps order_step_from [simp]: "order_step from to"

definition terminal_state :: "order_state \<Rightarrow> bool" where
  "terminal_state s \<longleftrightarrow> transitions s = []"

fun order_path :: "order_state \<Rightarrow> order_state list \<Rightarrow> bool" where
  "order_path s [] = True"
| "order_path s (t # ts) = (order_step s t \<and> order_path t ts)"

lemma order_path_append:
  "order_path s (ts @ us) \<longleftrightarrow> order_path s ts \<and> order_path (last (s # ts)) us"
  by (induction ts arbitrary: s) auto

lemma order_path_terminal: "terminal_state s \<Longrightarrow> order_path s ts \<Longrightarrow> ts = []"
  by (cases ts) (auto simp: terminal_state_def)

lemma assertOrderEngineTransition_Inr [result_simps]:
  "assertOrderEngineTransition from to = Inr x \<longleftrightarrow> order_step from to"
  by (auto simp: assertOrderEngineTransition_def)

definition later_states :: "order_event list \<Rightarrow> order_state list" where
  "later_states events = map (event_state \<circ> oe_type) (filter (\<lambda>e. oe_type e \<noteq> OeCreated) events)"

section \<open>The replay loop\<close>

lemma replay_step_Inr:
  assumes "replay_step events first e (fills, s, n) = Inr (fills', s', n')"
  shows "oe_orderId e = oe_orderId first" "js_eq (oe_sequence e) (n + Fin 1)"
    "\<not> oe_occurredAtMs e < previous_time events e" "n' = oe_sequence e"
    "fills' = fills @ filter fill_event [e]"
    "order_path s (later_states [e])" "s' = last (s # later_states [e])"
    "fill_event e \<Longrightarrow> decimal_text (opt_text [] (oe_quantity e)) \<and> decimal_text (opt_text [] (oe_price e))"
  using assms
  by (auto simp: replay_step_def result_simps later_states_def fill_event_def Let_def split: if_splits)

lemma replay_loop:
  assumes "fold_r (replay_step events first) es (fills, s, n) = Inr (fills', s', n')"
  shows "fills' = fills @ filter fill_event es" "order_path s (later_states es)"
    "s' = last (s # later_states es)"
    "\<forall>e \<in> set es. oe_orderId e = oe_orderId first \<and> \<not> oe_occurredAtMs e < previous_time events e \<and>
      (fill_event e \<longrightarrow> decimal_text (opt_text [] (oe_quantity e)) \<and> decimal_text (opt_text [] (oe_price e)))"
proof -
  have "fills' = fills @ filter fill_event es \<and> order_path s (later_states es) \<and>
    s' = last (s # later_states es) \<and>
    (\<forall>e \<in> set es. oe_orderId e = oe_orderId first \<and> \<not> oe_occurredAtMs e < previous_time events e \<and>
      (fill_event e \<longrightarrow> decimal_text (opt_text [] (oe_quantity e)) \<and> decimal_text (opt_text [] (oe_price e))))"
    using assms
  proof (induction es arbitrary: fills s n)
    case Nil
    then show ?case by (simp add: later_states_def)
  next
    case (Cons e es)
    then obtain f u m where e: "replay_step events first e (fills, s, n) = Inr (f, u, m)"
      and es: "fold_r (replay_step events first) es (f, u, m) = Inr (fills', s', n')"
      by (auto simp: result_simps)
    note step = replay_step_Inr [OF e] and rest = Cons.IH [OF es]
    have "later_states (e # es) = later_states [e] @ later_states es"
      by (simp add: later_states_def)
    then show ?case
      using step rest by (cases "later_states es") (auto simp: order_path_append)
  qed
  then show "fills' = fills @ filter fill_event es" "order_path s (later_states es)"
    "s' = last (s # later_states es)"
    "\<forall>e \<in> set es. oe_orderId e = oe_orderId first \<and> \<not> oe_occurredAtMs e < previous_time events e \<and>
      (fill_event e \<longrightarrow> decimal_text (opt_text [] (oe_quantity e)) \<and> decimal_text (opt_text [] (oe_price e)))"
    by auto
qed

lemma next_sequence:
  assumes "js_eq x (Fin (of_nat k) + Fin 1)" "Suc k < 2 ^ 53"
  shows "x = Fin (of_nat (Suc k))"
proof -
  have "Fin (of_nat k) + Fin 1 = Fin (of_nat (Suc k))"
    using jadd_int [of "int k" 1] assms(2) by (simp add: add.commute)
  then show ?thesis using assms(1) by (cases x) auto
qed

lemma replay_loop_sequence:
  assumes "fold_r (replay_step events first) es (fills, s, Fin (of_nat k)) = Inr (fills', s', n')"
    and "k + length es < 2 ^ 53"
  shows "(\<forall>i < length es. oe_sequence (es ! i) = Fin (of_nat (Suc (k + i)))) \<and>
    n' = Fin (of_nat (k + length es))"
  using assms
proof (induction es arbitrary: fills s k)
  case (Cons e es)
  then obtain f u m where e: "replay_step events first e (fills, s, Fin (of_nat k)) = Inr (f, u, m)"
    and es: "fold_r (replay_step events first) es (f, u, m) = Inr (fills', s', n')"
    by (auto simp: result_simps)
  have m: "oe_sequence e = Fin (of_nat (Suc k))" "m = Fin (of_nat (Suc k))"
    using replay_step_Inr(2,4) [OF e] next_sequence [of "oe_sequence e" k] Cons.prems(2) by auto
  have "(\<forall>i < length es. oe_sequence (es ! i) = Fin (of_nat (Suc (Suc k + i)))) \<and>
      n' = Fin (of_nat (Suc k + length es))"
    using Cons.prems(2) es [unfolded m(2)] by (intro Cons.IH) auto
  then show ?case using m(1) by (auto simp: nth_Cons split: nat.split)
qed simp

lemma filled_sum_denotes:
  assumes "\<forall>f \<in> set fills. denotes (opt_text ''0'' (oe_quantity f)) (q f)" "denotes s p"
  shows "\<exists>c. fold_r (\<lambda>f sum. dec_add sum (opt_text ''0'' (oe_quantity f))) fills s = Inr c \<and>
    denotes c (p + sum_list (map q fills))"
  using assms
proof (induction fills arbitrary: s p)
  case (Cons f fills)
  have f: "denotes (opt_text ''0'' (oe_quantity f)) (q f)" using Cons.prems(1) by simp
  obtain d where d: "dec_add s (opt_text ''0'' (oe_quantity f)) = Inr d" "denotes d (p + q f)"
    using dec_add_denotes [OF Cons.prems(2) f] by blast
  have "\<forall>f \<in> set fills. denotes (opt_text ''0'' (oe_quantity f)) (q f)" using Cons.prems(1) by simp
  from Cons.IH [OF this d(2)] show ?case
    by (simp only: fold_r.simps d(1) bind_r_simps list.map sum_list.Cons add.assoc)
qed simp

definition event_quantity :: "order_event \<Rightarrow> rat" where
  "event_quantity e = dec_rat (parse_parts (opt_text [] (oe_quantity e)))"

lemma not_decimal_empty [simp]: "\<not> decimal_text []"
  by (simp add: decimal_text_def split_dot_def digits1_def)

lemma event_quantity_denotes:
  "decimal_text (opt_text [] (oe_quantity e)) \<Longrightarrow>
     denotes (opt_text ''0'' (oe_quantity e)) (event_quantity e)"
  by (cases "oe_quantity e") (auto simp: event_quantity_def opt_text_def denotes_def)

lemma denotes_zero: "denotes ''0'' 0"
  using denotes_plain [of "''0''"] by (simp add: digits1_def is_digit_def digits_val_def digit_val_def)

section \<open>What replay returns\<close>

lemma replayOrderEvents_Inr:
  assumes "replayOrderEvents events requested = Inr r"
  obtains first rest fills where
    "events = first # rest" "oe_type first = OeCreated" "js_eq (oe_sequence first) (Fin 1)"
    "fold_r (replay_step events first) events ([], OsCreated, Fin 0) = Inr (fills, ro_state r, ro_sequence r)"
    "filled_sum fills = Inr (ro_filledQuantity r)" "ro_orderId r = oe_orderId first"
    "averagePrice (map event_text fills) = Inr (ro_averageFillPrice r)"
    "case requested of None \<Rightarrow> ro_remainingQuantity r = None
     | Some q \<Rightarrow> \<exists>c m. dec_compare (ro_filledQuantity r) q = Inr c \<and> c \<le> 0 \<and>
         dec_subtract q (ro_filledQuantity r) = Inr m \<and> ro_remainingQuantity r = Some m"
proof -
  obtain first rest where ev: "events = first # rest"
    using assms by (cases events) (auto simp: replayOrderEvents_def)
  show thesis
    using assms that [OF ev]
    by (simp add: replayOrderEvents_def ev result_simps split: prod.splits)
      (cases requested; force simp: result_simps)
qed

lemma replay_filled:
  assumes "replayOrderEvents events requested = Inr r"
  shows "denotes (ro_filledQuantity r) (sum_list (map event_quantity (filter fill_event events)))"
proof -
  obtain first fills where
    l: "fold_r (replay_step events first) events ([], OsCreated, Fin 0) = Inr (fills, ro_state r, ro_sequence r)"
    and s: "filled_sum fills = Inr (ro_filledQuantity r)"
    using assms by (rule replayOrderEvents_Inr)
  have fills: "fills = filter fill_event events" using replay_loop(1) [OF l] by simp
  have "\<forall>f \<in> set fills. denotes (opt_text ''0'' (oe_quantity f)) (event_quantity f)"
    using replay_loop(4) [OF l] by (auto simp: fills intro: event_quantity_denotes)
  from filled_sum_denotes [OF this denotes_zero] s show ?thesis
    by (auto simp: filled_sum_def fills)
qed

text \<open>C1: A replay that succeeds for a requested quantity reports exactly the sum of the logged fill
  quantities as filled and exactly the difference to the request as remaining, as decimals, and
  never more filled than requested.\<close>
theorem replay_quantities:
  assumes "replayOrderEvents events (Some requested) = Inr r"
  shows "\<exists>q m. denotes requested q \<and> ro_remainingQuantity r = Some m \<and>
    denotes (ro_filledQuantity r) (sum_list (map event_quantity (filter fill_event events))) \<and>
    sum_list (map event_quantity (filter fill_event events)) \<le> q \<and>
    denotes m (q - sum_list (map event_quantity (filter fill_event events)))"
proof -
  note f = replay_filled [OF assms]
  obtain m where m: "dec_subtract requested (ro_filledQuantity r) = Inr m"
      "ro_remainingQuantity r = Some m"
    using assms by (rule replayOrderEvents_Inr) auto
  then show ?thesis using dec_subtract_Inr [OF m(1)] f by (metis denotes_unique)
qed

lemma replay_log_facts:
  assumes "replayOrderEvents events requested = Inr r" "length events < 2 ^ 53"
  shows "order_path OsCreated (later_states events)"
    "ro_state r = last (OsCreated # later_states events)"
    "\<forall>e \<in> set events. oe_orderId e = ro_orderId r"
    "\<forall>i < length events. oe_sequence (events ! i) = Fin (of_nat (Suc i))"
    "\<forall>i. Suc i < length events \<longrightarrow> \<not> oe_occurredAtMs (events ! Suc i) < oe_occurredAtMs (events ! i)"
    "ro_sequence r = Fin (of_nat (length events))"
proof -
  obtain first fills where
    l: "fold_r (replay_step events first) events ([], OsCreated, Fin 0) = Inr (fills, ro_state r, ro_sequence r)"
    and o: "ro_orderId r = oe_orderId first"
    using assms(1) by (rule replayOrderEvents_Inr)
  note loop = replay_loop [OF l]
  from l have l0: "fold_r (replay_step events first) events ([], OsCreated, Fin (of_nat 0))
      = Inr (fills, ro_state r, ro_sequence r)" by simp
  have sq: "\<forall>i < length events. oe_sequence (events ! i) = Fin (of_nat (Suc i))"
      "ro_sequence r = Fin (of_nat (length events))"
    using replay_loop_sequence [OF l0] assms(2) by simp_all
  show "order_path OsCreated (later_states events)"
    "ro_state r = last (OsCreated # later_states events)"
    "\<forall>e \<in> set events. oe_orderId e = ro_orderId r"
    using loop o by simp_all
  show "\<forall>i < length events. oe_sequence (events ! i) = Fin (of_nat (Suc i))"
    "ro_sequence r = Fin (of_nat (length events))" by (fact sq)+
  show "\<forall>i. Suc i < length events \<longrightarrow> \<not> oe_occurredAtMs (events ! Suc i) < oe_occurredAtMs (events ! i)"
  proof (intro allI impI)
    fix i assume i: "Suc i < length events"
    have s: "oe_sequence (events ! Suc i) = Fin (of_int (int (i + 2)))" using sq(1) i by simp
    have "Fin (of_int (int (i + 2))) - Fin 2 = Fin (of_int (int (i + 2))) + Fin (of_int (- 2))"
      by (simp add: minus_jsnum_def)
    also have "\<dots> = Fin (of_int (int (i + 2) + - 2))" using i assms(2) by (intro jadd_int) simp
    finally have "oe_sequence (events ! Suc i) - Fin 2 = Fin (of_nat i)" by (simp add: s)
    then have "previous_time events (events ! Suc i) = oe_occurredAtMs (events ! i)"
      using i by (simp add: previous_time_def js_index_of_nat)
    then show "\<not> oe_occurredAtMs (events ! Suc i) < oe_occurredAtMs (events ! i)"
      using loop(4) i by (metis nth_mem)
  qed
qed

text \<open>A replay that succeeds has folded a well-formed log: every event has the order id of the
  first and the sequence numbers are 1, 2, 3, ... in log order, occurrence times are never before
  the previous event, the states the events after creation lead to are a path of the transition
  table, and the result carries the last of these states and the last sequence number.\<close>
theorem replay_log:
  assumes "replayOrderEvents events requested = Inr r" "length events < 2 ^ 53"
  shows "order_path OsCreated (later_states events) \<and>
    ro_state r = last (OsCreated # later_states events) \<and>
    (\<forall>e \<in> set events. oe_orderId e = ro_orderId r) \<and>
    (\<forall>i < length events. oe_sequence (events ! i) = Fin (of_nat (Suc i))) \<and>
    (\<forall>i. Suc i < length events \<longrightarrow> \<not> oe_occurredAtMs (events ! Suc i) < oe_occurredAtMs (events ! i)) \<and>
    ro_sequence r = Fin (of_nat (length events))"
  using replay_log_facts [OF assms] by blast

section \<open>Average price, partial fills\<close>

definition text_rat :: "string option \<Rightarrow> rat" where
  "text_rat s = dec_rat (parse_parts (opt_text [] s))"

definition quantity_sum :: "fill_text list \<Rightarrow> rat" where
  "quantity_sum fills = sum_list (map (\<lambda>f. text_rat (fst f)) fills)"

definition value_sum :: "fill_text list \<Rightarrow> rat" where
  "value_sum fills = sum_list (map (\<lambda>f. text_rat (fst f) * text_rat (snd f)) fills)"

definition price_scale :: "fill_text list \<Rightarrow> nat" where
  "price_scale fills = max_scale (map (\<lambda>f. parse_parts (opt_text [] (snd f))) fills)"

lemma max_scale_aux: "m \<le> fold (\<lambda>d m. max m (dec_scale d)) ds m \<and>
    (d \<in> set ds \<longrightarrow> dec_scale d \<le> fold (\<lambda>d m. max m (dec_scale d)) ds m)"
proof (induction ds arbitrary: m)
  case (Cons e ds)
  then show ?case by simp (meson le_trans max.cobounded1 max.cobounded2)
qed simp

lemma max_scale_ge: "d \<in> set ds \<Longrightarrow> dec_scale d \<le> max_scale ds"
  using max_scale_aux [of 0 ds d] by (simp add: max_scale_def)

lemma total_quantity_rat:
  "\<forall>d \<in> set ds. dec_scale d \<le> n \<Longrightarrow>
     of_int (total_quantity n ds) = sum_list (map dec_rat ds) * 10 ^ n"
  by (induction ds) (simp_all add: total_quantity_def scale_up_rat algebra_simps)

lemma total_value_rat:
  assumes "\<forall>f \<in> set fills. dec_scale (a f) \<le> n \<and> dec_scale (b f) \<le> k"
  shows "of_int (total_value n k (map a fills) (map b fills)) =
    sum_list (map (\<lambda>f. dec_rat (a f) * dec_rat (b f)) fills) * 10 ^ n * 10 ^ k"
  using assms
  by (induction fills) (simp_all add: total_value_def scale_up_rat algebra_simps)

lemma map_r_decimal:
  "map_r (\<lambda>f. decimal (g f) n) fills = Inr ds \<longleftrightarrow>
     (\<forall>f \<in> set fills. decimal_text (g f)) \<and> ds = map (\<lambda>f. parse_parts (g f)) fills"
  by (induction fills arbitrary: ds) (auto simp: result_simps)

lemma quantity_sum_nonneg: "0 \<le> quantity_sum fills"
  by (auto simp: quantity_sum_def text_rat_def dec_rat_def dec_value_nonneg intro!: sum_list_nonneg)

lemma value_sum_nonneg: "0 \<le> value_sum fills"
  by (auto simp: value_sum_def text_rat_def dec_rat_def dec_value_nonneg intro!: sum_list_nonneg)

lemma averagePrice_value:
  assumes "fills \<noteq> []" "\<forall>f \<in> set fills. decimal_text (opt_text [] (fst f)) \<and> decimal_text (opt_text [] (snd f))"
  shows "quantity_sum fills = 0 \<and> averagePrice fills = Inl (RangeError ''Division by zero'') \<or>
    (\<exists>a. averagePrice fills = Inr (Some a) \<and> 0 < quantity_sum fills \<and>
      denotes a (of_int \<lfloor>value_sum fills / quantity_sum fills * 10 ^ price_scale fills\<rfloor>
        / 10 ^ price_scale fills))"
proof -
  define q p where "q f = parse_parts (opt_text [] (fst f))" and "p f = parse_parts (opt_text [] (snd f))"
    for f :: fill_text
  define n k where "n = max_scale (map q fills)" and "k = max_scale (map p fills)"
  define tq tv where "tq = total_quantity n (map q fills)" and "tv = total_value n k (map q fills) (map p fills)"
  have "map_r (\<lambda>f. decimal (opt_text [] (fst f)) ''quantity'') fills = Inr (map q fills)"
    "map_r (\<lambda>f. decimal (opt_text [] (snd f)) ''price'') fills = Inr (map p fills)"
    using assms(2) by (auto simp: map_r_decimal q_def [abs_def] p_def [abs_def])
  then have avg: "averagePrice fills = (if tq = 0 then Inl (RangeError ''Division by zero'')
      else Inr (Some (format_scaled (tv div tq) k)))"
    using assms(1) by (simp add: averagePrice_def Let_def n_def k_def tq_def tv_def)
  have sc: "\<forall>f \<in> set fills. dec_scale (q f) \<le> n \<and> dec_scale (p f) \<le> k"
    by (auto simp: n_def k_def intro: max_scale_ge)
  have ps: "price_scale fills = k" by (simp add: price_scale_def k_def p_def [abs_def])
  have Q: "of_int tq = quantity_sum fills * 10 ^ n"
    using total_quantity_rat [of "map q fills" n] sc
    by (simp add: tq_def quantity_sum_def text_rat_def q_def [abs_def] comp_def)
  have V: "of_int tv = value_sum fills * 10 ^ n * 10 ^ k"
    using total_value_rat [OF sc] by (simp add: tv_def value_sum_def text_rat_def q_def [abs_def] p_def [abs_def])
  have z: "tq = 0 \<longleftrightarrow> quantity_sum fills = 0"
    using Q by (metis mult_eq_0_iff of_int_0_eq_iff power_eq_0_iff zero_neq_numeral)
  show ?thesis
  proof (cases "tq = 0")
    case True
    then show ?thesis using avg z by simp
  next
    case False
    then have pos: "0 < quantity_sum fills" using z quantity_sum_nonneg [of fills] by simp
    have "(of_int tv :: rat) / of_int tq = value_sum fills / quantity_sum fills * 10 ^ k"
      using pos by (simp add: Q V)
    then have d: "tv div tq = \<lfloor>value_sum fills / quantity_sum fills * 10 ^ k\<rfloor>"
      by (metis floor_divide_of_int_eq)
    have "0 \<le> tv div tq" using pos value_sum_nonneg [of fills] by (simp add: d)
    from denotes_format_scaled [OF this, of k] show ?thesis
      using avg False pos d ps by simp
  qed
qed

text \<open>The average fill price is the quantity-weighted mean truncated to the largest price scale:
  it is at most the mean and less than one unit of that scale below it.  When every quantity is
  zero the computation throws the engine's division error instead of returning a price.\<close>
theorem averagePrice_truncated_mean:
  assumes "fills \<noteq> []" "\<forall>f \<in> set fills. decimal_text (opt_text [] (fst f)) \<and> decimal_text (opt_text [] (snd f))"
  shows "if quantity_sum fills = 0 then averagePrice fills = Inl (RangeError ''Division by zero'')
    else \<exists>a x. averagePrice fills = Inr (Some a) \<and> denotes a x \<and>
      x \<le> value_sum fills / quantity_sum fills \<and>
      value_sum fills / quantity_sum fills < x + 1 / 10 ^ price_scale fills"
proof -
  define v where "v = value_sum fills / quantity_sum fills"
  define k where "k = price_scale fills"
  define x :: rat where "x = of_int \<lfloor>v * 10 ^ k\<rfloor> / 10 ^ k"
  have "of_int \<lfloor>v * 10 ^ k\<rfloor> \<le> v * 10 ^ k" "v * 10 ^ k < of_int \<lfloor>v * 10 ^ k\<rfloor> + 1" by linarith+
  then have "x \<le> v" "v < x + 1 / 10 ^ k" by (simp_all add: x_def field_simps)
  then show ?thesis
    using averagePrice_value [OF assms] by (auto simp: v_def k_def x_def)
qed

definition partial_fill_ok :: "partial_fill_state \<Rightarrow> bool" where
  "partial_fill_ok s \<longleftrightarrow>
     (\<exists>r f m. denotes (pf_requestedQuantity s) r \<and> denotes (pf_filledQuantity s) f \<and>
        denotes (pf_remainingQuantity s) m \<and> f + m = r \<and>
        f = quantity_sum (map (\<lambda>x. (Some (fst x), Some (snd x))) (pf_fills s)))"

lemma PartialFillManager_apply_ok [step_invs]:
  assumes "PartialFillManager_apply f s = Inr t" "partial_fill_ok s"
  shows "partial_fill_ok t \<and> pf_requestedQuantity t = pf_requestedQuantity s \<and>
    pf_fills t = pf_fills s @ [f]"
proof -
  obtain r q m where s: "denotes (pf_requestedQuantity s) r" "denotes (pf_filledQuantity s) q"
      "q = quantity_sum (map (\<lambda>x. (Some (fst x), Some (snd x))) (pf_fills s))"
    using assms(2) by (auto simp: partial_fill_ok_def)
  obtain filled remaining average where
    t: "decimal_text (fst f)" "dec_add (pf_filledQuantity s) (fst f) = Inr filled"
      "dec_subtract (pf_requestedQuantity s) filled = Inr remaining"
      "t = \<lparr>pf_requestedQuantity = pf_requestedQuantity s, pf_filledQuantity = filled,
           pf_remainingQuantity = remaining, pf_averageFillPrice = average, pf_fills = pf_fills s @ [f]\<rparr>"
    using assms(1) by (auto simp: PartialFillManager_apply_def result_simps Let_def)
  have "denotes (fst f) (text_rat (Some (fst f)))"
    using t(1) by (simp add: text_rat_def opt_text_def denotes_def)
  from dec_add_denotes [OF s(2) this] t(2) have f': "denotes filled (q + text_rat (Some (fst f)))" by simp
  obtain m' where "denotes remaining m'" "m' = r - (q + text_rat (Some (fst f)))"
    using dec_subtract_Inr [OF t(3)] s(1) f' by (metis denotes_unique)
  then have "partial_fill_ok t"
    using s(1,3) f' unfolding partial_fill_ok_def
    by (intro exI [of _ r] exI [of _ "q + text_rat (Some (fst f))"] exI [of _ m'])
      (simp add: t(4) quantity_sum_def)
  then show ?thesis by (simp add: t(4))
qed

lemma partial_fill_run_ok:
  "partial_fill_ok s \<Longrightarrow> partial_fill_ok (partial_fill_run fs s) \<and>
     pf_requestedQuantity (partial_fill_run fs s) = pf_requestedQuantity s"
  by (induction fs arbitrary: s)
    (auto simp: partial_fill_run_def dest: PartialFillManager_apply_ok split: sum.split)

text \<open>Whatever fills a partial-fill manager is given, in any order and however many of them are
  refused, the filled quantity is exactly the sum of the accepted fills and filled plus remaining
  is exactly the requested quantity.\<close>
theorem partial_fill_conservation:
  assumes "PartialFillManager_new requested = Inr s"
  shows "partial_fill_ok (partial_fill_run fs s) \<and>
    pf_requestedQuantity (partial_fill_run fs s) = requested"
proof -
  have "partial_fill_ok s \<and> pf_requestedQuantity s = requested"
    using assms denotes_zero
    by (auto simp: PartialFillManager_new_def result_simps partial_fill_ok_def denotes_def quantity_sum_def)
  then show ?thesis using partial_fill_run_ok by blast
qed

section \<open>Recovered fills\<close>

lemma ghost_loop:
  assumes "fold_r (ghost_step ids) remote (seen, rec, dups) = Inr (seen', rec', dups')"
    and "set (map gf_exchangeTradeId rec) = set seen - ids" "distinct seen"
    and "distinct (map gf_exchangeTradeId rec)"
  shows "set seen' = set seen \<union> gf_exchangeTradeId ` set remote \<and> distinct seen' \<and>
    set (map gf_exchangeTradeId rec') = set seen' - ids \<and>
    distinct (map gf_exchangeTradeId rec') \<and> set rec' \<subseteq> set rec \<union> set remote \<and>
    length seen' + length dups' = length seen + length dups + length remote"
  using assms
proof (induction remote arbitrary: seen rec dups)
  case (Cons f remote)
  obtain seen1 rec1 dups1 where
    f: "ghost_step ids f (seen, rec, dups) = Inr (seen1, rec1, dups1)"
    and l: "fold_r (ghost_step ids) remote (seen1, rec1, dups1) = Inr (seen', rec', dups')"
    using Cons.prems(1) by (auto simp: result_simps)
  have s: "seen1 = (if gf_exchangeTradeId f \<in> set seen then seen else seen @ [gf_exchangeTradeId f])"
    "rec1 = (if gf_exchangeTradeId f \<in> set seen \<or> gf_exchangeTradeId f \<in> ids then rec else rec @ [f])"
    "dups1 = (if gf_exchangeTradeId f \<in> set seen then dups @ [gf_exchangeTradeId f] else dups)"
    using f by (auto simp: ghost_step_def result_simps split: if_splits)
  have "set (map gf_exchangeTradeId rec1) = set seen1 - ids"
    using Cons.prems(2) by (auto simp: s)
  moreover have "distinct seen1" using Cons.prems(3) by (auto simp: s)
  moreover have "distinct (map gf_exchangeTradeId rec1)"
    using Cons.prems(2,4) by (auto simp: s)
  moreover have "set seen1 = insert (gf_exchangeTradeId f) (set seen)" "set rec1 \<subseteq> insert f (set rec)"
    "length seen1 + length dups1 = Suc (length seen + length dups)" by (auto simp: s)
  ultimately show ?case using Cons.IH [OF l] by fastforce
qed auto

text \<open>Ghost-fill recovery returns, once each, the remote fills whose trade id the local log does not
  have; it reports MATCHED exactly when the remote trade ids have no repetition and are the local
  ids, RECOVERED exactly when they have no repetition and strictly contain the local ids, and
  blocks in every other case.\<close>
theorem ghost_fill_recovery:
  assumes "recoverGhostFills locals remote = Inr g"
  shows "set (map gf_exchangeTradeId (gr_recovered g))
      = gf_exchangeTradeId ` set remote - gf_exchangeTradeId ` set locals \<and>
    distinct (map gf_exchangeTradeId (gr_recovered g)) \<and> set (gr_recovered g) \<subseteq> set remote \<and>
    gr_status g =
      (if \<not> distinct (map gf_exchangeTradeId remote) \<or>
          \<not> gf_exchangeTradeId ` set locals \<subseteq> gf_exchangeTradeId ` set remote then GsBlocked
       else if gf_exchangeTradeId ` set locals = gf_exchangeTradeId ` set remote then GsMatched
       else GsRecovered)"
proof -
  define ids where "ids = gf_exchangeTradeId ` set locals"
  obtain seen rec dups where
    l: "fold_r (ghost_step ids) remote ([], [], []) = Inr (seen, rec, dups)"
    and g: "g = \<lparr>gr_status = (if dups \<noteq> [] \<or> map gf_exchangeTradeId (filter (\<lambda>f. gf_exchangeTradeId f \<notin> set seen) locals) \<noteq> []
          then GsBlocked else if rec \<noteq> [] then GsRecovered else GsMatched),
        gr_recovered = rec, gr_duplicateIds = dups,
        gr_unknownIds = map gf_exchangeTradeId (filter (\<lambda>f. gf_exchangeTradeId f \<notin> set seen) locals)\<rparr>"
    using assms by (auto simp: recoverGhostFills_def ids_def result_simps Let_def)
  have r: "set seen = gf_exchangeTradeId ` set remote" "distinct seen"
    "set (map gf_exchangeTradeId rec) = set seen - ids" "distinct (map gf_exchangeTradeId rec)"
    "set rec \<subseteq> set remote" "length seen + length dups = length remote"
    using ghost_loop [OF l] by auto
  have "card (set (map gf_exchangeTradeId remote)) = length seen"
    using r(1,2) by (metis distinct_card set_map)
  then have d: "dups = [] \<longleftrightarrow> distinct (map gf_exchangeTradeId remote)"
    using r(6) by (metis add.right_neutral add_left_cancel card_distinct distinct_card length_0_conv length_map)
  have u: "map gf_exchangeTradeId (filter (\<lambda>f. gf_exchangeTradeId f \<notin> set seen) locals) = [] \<longleftrightarrow>
      ids \<subseteq> gf_exchangeTradeId ` set remote"
    by (auto simp: filter_empty_conv ids_def r(1))
  have "rec = [] \<longleftrightarrow> set seen - ids = {}" using r(3) by (metis list.map_disc_iff set_empty)
  then have e: "rec = [] \<longleftrightarrow> gf_exchangeTradeId ` set remote \<subseteq> ids" by (simp add: r(1))
  have eq: "ids = R \<longleftrightarrow> ids \<subseteq> R \<and> R \<subseteq> ids" for R by blast
  have "gr_status g = (if \<not> distinct (map gf_exchangeTradeId remote) \<or> \<not> ids \<subseteq> gf_exchangeTradeId ` set remote
      then GsBlocked else if ids = gf_exchangeTradeId ` set remote then GsMatched else GsRecovered)"
    unfolding g eq by (simp only: ghost_result.select_convs d u e) simp
  then show ?thesis
    using r(1,3-5) unfolding ids_def [symmetric] by (simp add: g)
qed

section \<open>Concrete runs\<close>

definition sample_event :: "order_event_type \<Rightarrow> rat \<Rightarrow> string option \<Rightarrow> string option \<Rightarrow> order_event" where
  "sample_event t n q p = \<lparr>oe_eventId = ''e'', oe_orderId = ''o'', oe_type = t, oe_sequence = Fin n,
     oe_occurredAtMs = Fin 5, oe_quantity = q, oe_price = p, oe_reason = None\<rparr>"

definition sample_log :: "order_event list" where
  "sample_log = [sample_event OeCreated 1 None None, sample_event OeQueued 2 None None,
     sample_event OeSubmitting 3 None None, sample_event OeAccepted 4 None None,
     sample_event OePartialFill 5 (Some ''0.5'') (Some ''3''),
     sample_event OeFilled 6 (Some ''1.5'') (Some ''5'')]"

definition sample_order :: replayed_order where
  "sample_order = \<lparr>ro_orderId = ''o'', ro_state = OsFilled, ro_filledQuantity = ''2'',
     ro_remainingQuantity = Some ''0'', ro_averageFillPrice = Some ''4'', ro_sequence = Fin 6\<rparr>"

lemma sample_replay: "replayOrderEvents sample_log (Some ''2'') = Inr sample_order"
  by code_simp

lemma replay_quantities_witness:
  "\<exists>q m. denotes ''2'' q \<and> ro_remainingQuantity sample_order = Some m \<and>
    denotes m (q - sum_list (map event_quantity (filter fill_event sample_log)))"
  using replay_quantities [OF sample_replay] by blast

lemma replay_log_witness: "order_path OsCreated (later_states sample_log)"
  using replay_log [OF sample_replay] by (simp add: sample_log_def)

lemma averagePrice_truncated_mean_witness:
  "quantity_sum [(Some ''3'', Some ''2.5'')] \<noteq> 0 \<and> (\<exists>a x. averagePrice [(Some ''3'', Some ''2.5'')] = Inr (Some a) \<and> denotes a x)"
proof -
  have "quantity_sum [(Some ''3'', Some ''2.5'')] \<noteq> 0"
    "decimal_text (opt_text [] (Some ''3'')) \<and> decimal_text (opt_text [] (Some ''2.5''))" by code_simp+
  then show ?thesis using averagePrice_truncated_mean [of "[(Some ''3'', Some ''2.5'')]"] by auto
qed

lemma partial_fill_conservation_witness:
  "partial_fill_ok (partial_fill_run [(''1'', ''10''), (''9'', ''10''), (''0.5'', ''11'')]
     \<lparr>pf_requestedQuantity = ''2'', pf_filledQuantity = ''0'', pf_remainingQuantity = ''2'',
      pf_averageFillPrice = None, pf_fills = []\<rparr>)"
proof -
  have "PartialFillManager_new ''2'' = Inr \<lparr>pf_requestedQuantity = ''2'', pf_filledQuantity = ''0'',
      pf_remainingQuantity = ''2'', pf_averageFillPrice = None, pf_fills = []\<rparr>" by code_simp
  from partial_fill_conservation [OF this] show ?thesis by blast
qed

lemma ghost_fill_recovery_witness:
  "recoverGhostFills [] [\<lparr>gf_exchangeTradeId = ''t'', gf_quantity = ''1'', gf_price = ''2'', gf_executedAtMs = Fin 1\<rparr>]
    = Inr \<lparr>gr_status = GsRecovered, gr_recovered = [\<lparr>gf_exchangeTradeId = ''t'', gf_quantity = ''1'', gf_price = ''2'', gf_executedAtMs = Fin 1\<rparr>],
        gr_duplicateIds = [], gr_unknownIds = []\<rparr> \<and> distinct [''t'']"
proof -
  have r: "recoverGhostFills [] [\<lparr>gf_exchangeTradeId = ''t'', gf_quantity = ''1'', gf_price = ''2'', gf_executedAtMs = Fin 1\<rparr>]
    = Inr \<lparr>gr_status = GsRecovered, gr_recovered = [\<lparr>gf_exchangeTradeId = ''t'', gf_quantity = ''1'', gf_price = ''2'', gf_executedAtMs = Fin 1\<rparr>],
        gr_duplicateIds = [], gr_unknownIds = []\<rparr>" by code_simp
  from ghost_fill_recovery [OF r] r show ?thesis by simp
qed

end
