(* ===== verification/OrderServices.thy ===== *)
theory OrderServices imports OrderEngine begin

text \<open>
  The second half of \<open>apps/execution/src/order-engine.ts\<close>: the bounded order queue and the
  dead-letter queue, retry delays, cancel-and-replace, the sequence check of the order stream,
  inventory reservations, the hash-chained execution audit and the execution metrics.
  Parameters: \<open>pow\<close> is the power operator at a fractional exponent (the language leaves its last
  bits to the implementation), \<open>sha\<close> the hexadecimal digest of the JSON text of an object with
  the given fields, the fresh identifier of a dead letter, and the exchange port, which acts on a
  state of its own.
\<close>

section \<open>Order queue\<close>

record 'v order_queue_item =
  qi_orderId :: string
  qi_value :: 'v
  qi_enqueuedAtMs :: jsnum
  qi_attempts :: jsnum

record 'v order_queue =
  oq_items :: "'v order_queue_item list"
  oq_ids :: "string list"
  oq_maximumItems :: jsnum

definition OrderQueue_new :: "jsnum \<Rightarrow> 'v order_queue result" where
  "OrderQueue_new maximumItems =
     guard_r (\<not> is_safe_integer maximumItems \<or> maximumItems \<le> Fin 0)
       (Error ''invalid order queue capacity'')
     (Inr \<lparr>oq_items = [], oq_ids = [], oq_maximumItems = maximumItems\<rparr>)"

definition OrderQueue_enqueue ::
  "'v order_queue_item \<Rightarrow> 'v order_queue \<Rightarrow> (bool \<times> 'v order_queue) result" where
  "OrderQueue_enqueue item q =
     bind_r (requireText (qi_orderId item) ''orderId'') (\<lambda>_.
     if qi_orderId item \<in> set (oq_ids q) then Inr (False, q)
     else guard_r (oq_maximumItems q \<le> Fin (of_nat (length (oq_items q)))) (Error ''ORDER_QUEUE_FULL'')
       (Inr (True, q\<lparr>oq_items := oq_items q @ [item], oq_ids := set_add (qi_orderId item) (oq_ids q)\<rparr>)))"

definition OrderQueue_dequeue :: "'v order_queue \<Rightarrow> 'v order_queue_item option \<times> 'v order_queue" where
  "OrderQueue_dequeue q =
     (case oq_items q of [] \<Rightarrow> (None, q)
      | item # rest \<Rightarrow>
          (Some item, q\<lparr>oq_items := rest, oq_ids := filter (\<lambda>i. i \<noteq> qi_orderId item) (oq_ids q)\<rparr>))"

definition OrderQueue_depth :: "'v order_queue \<Rightarrow> nat" where
  "OrderQueue_depth q = length (oq_items q)"

interpretation oq: keyed_queue oq_items "\<lambda>q. set (oq_ids q)" qi_orderId "\<lambda>x. x"
  "\<lambda>x. \<not> blank (qi_orderId x)" oq_maximumItems OrderQueue_enqueue OrderQueue_dequeue
  by unfold_locales (auto simp: OrderQueue_enqueue_def OrderQueue_dequeue_def requireText_def throw_def)

lemma OrderQueue_new_ok: "OrderQueue_new m = Inr q \<Longrightarrow> oq.ok q \<and> oq_items q = []"
  by (auto simp: OrderQueue_new_def result_simps oq.ok_def is_safe_integer_def is_integer_def
      elim!: is_finite_cases)

text \<open>An order queue delivers the accepted items in the order they were accepted, never holds two
  items of one order id nor more than its capacity, and its id index is exactly the ids it holds,
  after any sequence of enqueues and dequeues, refused ones included.\<close>
theorem order_queue_fifo:
  assumes "OrderQueue_new maximumItems = Inr q"
  shows "oq.inputs ops q = oq.outputs ops q @ oq_items (fold oq.apply_op ops q) \<and>
    distinct (map qi_orderId (oq_items (fold oq.apply_op ops q))) \<and>
    set (oq_ids (fold oq.apply_op ops q)) = qi_orderId ` set (oq_items (fold oq.apply_op ops q)) \<and>
    Fin (of_nat (OrderQueue_depth (fold oq.apply_op ops q))) \<le> oq_maximumItems (fold oq.apply_op ops q)"
proof -
  have "oq.ok (fold oq.apply_op ops q)" "oq_items q = []"
    using OrderQueue_new_ok [OF assms] oq.ok_run by auto
  then show ?thesis using oq.fifo [of q ops] by (simp add: oq.ok_def OrderQueue_depth_def)
qed

section \<open>Retries\<close>

record retry_policy =
  rp_maximumAttempts :: jsnum
  rp_baseDelayMs :: jsnum
  rp_maximumDelayMs :: jsnum
  rp_retryableReasons :: "string list"

definition js_pow2 :: "(jsnum \<Rightarrow> jsnum) \<Rightarrow> jsnum \<Rightarrow> jsnum" where
  "js_pow2 pow a =
     (if a = NaN then NaN else if a = PInf then PInf else if a = NInf then Fin 0
      else if is_integer a
      then (if 1024 \<le> jval a then PInf else if jval a < - 1074 then Fin 0
            else if 0 \<le> jval a then Fin (2 ^ nat \<lfloor>jval a\<rfloor>) else Fin (1 / 2 ^ nat (- \<lfloor>jval a\<rfloor>)))
      else pow a)"

definition retryDelay ::
  "(jsnum \<Rightarrow> jsnum) \<Rightarrow> retry_policy \<Rightarrow> jsnum \<Rightarrow> string \<Rightarrow> jsnum option result" where
  "retryDelay pow policy attempt reason =
     (if reason \<notin> set (rp_retryableReasons policy) \<or> rp_maximumAttempts policy \<le> attempt then Inr None
      else guard_r
        (\<not> (\<forall>v \<in> set [rp_baseDelayMs policy, rp_maximumDelayMs policy]. is_safe_integer v \<and> Fin 0 \<le> v)
         \<or> rp_maximumDelayMs policy < rp_baseDelayMs policy)
        (Error ''invalid retry policy'')
      (Inr (Some (js_min (rp_maximumDelayMs policy) (rp_baseDelayMs policy * js_pow2 pow attempt)))))"

lemma representable_shift:
  assumes "\<bar>b\<bar> < 2 ^ 53"
  shows "representable (of_int b * 2 ^ n)"
  unfolding representable_def using assms by (intro exI [of _ b] exI [of _ "int n"]) auto

lemma double_exact:
  assumes "is_safe_integer a" "Fin 0 \<le> a" "0 \<le> n" "n < 1024"
  shows "a * js_pow2 pow (Fin (of_int n)) =
    (if fp_limit \<le> jval a * 2 ^ nat n then PInf else if a = NZero then NZero else Fin (jval a * 2 ^ nat n))"
proof -
  obtain b where b: "jval a = of_int b" "\<bar>b\<bar> < 2 ^ 53" "is_finite a"
    using assms(1) by (rule is_safe_integer_cases)
  have "(of_int n :: rat) < of_int 1024" using assms(4) by (simp only: of_int_less_iff)
  then have p: "js_pow2 pow (Fin (of_int n)) = Fin (2 ^ nat n)"
    using assms(3) by (simp add: js_pow2_def is_integer_def)
  have r: "fp_round (jval a * 2 ^ nat n) = jval a * 2 ^ nat n"
    unfolding b(1) by (intro fp_round_representable representable_shift b(2))
  have z: "0 \<le> jval a" using assms(2) b(3) by (simp add: jle_finite)
  then have "0 \<le> jval a * 2 ^ nat n" by simp
  then have "\<not> jval a * 2 ^ nat n \<le> - fp_limit" using fp_limit_pos by linarith
  then show ?thesis
    using b(3) z fp_limit_pos r by (cases a) (auto simp: p times_jsnum_def js_of_rat_def Let_def)
qed

text \<open>For a valid policy and a whole attempt number below 1024, a retryable failure is retried after
  exactly the smaller of the maximum delay and the base delay doubled once per attempt; the
  doubling never loses a bit, also where it overflows to infinity.\<close>
theorem retryDelay_backoff:
  assumes "retryDelay pow policy (Fin (of_int n)) reason = Inr (Some d)" "0 \<le> n" "n < 1024"
  shows "jval d = min (jval (rp_maximumDelayMs policy)) (jval (rp_baseDelayMs policy) * 2 ^ nat n) \<and>
    is_finite d \<and> rp_baseDelayMs policy \<le> d \<and> d \<le> rp_maximumDelayMs policy \<and>
    reason \<in> set (rp_retryableReasons policy)"
proof -
  let ?b = "rp_baseDelayMs policy" and ?m = "rp_maximumDelayMs policy"
  have g: "is_safe_integer ?b" "Fin 0 \<le> ?b" "is_safe_integer ?m" "Fin 0 \<le> ?m" "\<not> ?m < ?b"
    and r: "reason \<in> set (rp_retryableReasons policy)"
    and d: "d = js_min ?m (?b * js_pow2 pow (Fin (of_int n)))"
    using assms(1) by (auto simp: retryDelay_def result_simps split: if_splits)
  obtain b where b: "jval ?b = of_int b" "is_finite ?b" using g(1) by (rule is_safe_integer_cases)
  obtain m where m: "jval ?m = of_int m" "\<bar>m\<bar> < 2 ^ 53" "is_finite ?m"
    using g(3) by (rule is_safe_integer_cases)
  note bm = b m
  have lim: "jval ?m < fp_limit" using int_less_fp_limit [OF bm(4)] by (simp add: bm(3))
  have v: "0 \<le> jval ?b" "jval ?b \<le> jval ?m" "0 \<le> jval ?m"
    using g bm by (auto simp: jle_finite jless_finite)
  have le: "jval ?b \<le> jval ?b * 2 ^ nat n" using v(1) by (simp add: mult_le_cancel_left1)
  define x where "x = ?b * js_pow2 pow (Fin (of_int n))"
  have x: "(?b * js_pow2 pow (Fin (of_int n)) = PInf \<and> jval ?m \<le> jval ?b * 2 ^ nat n) \<or>
      (is_finite (?b * js_pow2 pow (Fin (of_int n))) \<and> jval (?b * js_pow2 pow (Fin (of_int n))) = jval ?b * 2 ^ nat n)"
    using double_exact [OF g(1,2) assms(2,3), of pow] lim by auto
  have "jval d = min (jval ?m) (jval ?b * 2 ^ nat n) \<and> is_finite d"
    using x js_min_finite [of ?m x] js_min_PInf [of ?m] bm(5) unfolding d x_def [symmetric]
    by (metis min.absorb1)
  then show ?thesis using r le v bm(2,5) by (simp add: jle_finite)
qed

section \<open>Dead letters\<close>

record 'v dead_letter =
  dl_id :: string
  dl_orderId :: string
  dl_value :: 'v
  dl_reason :: string
  dl_failedAtMs :: jsnum

record 'v dead_letter_queue =
  dq_items :: "'v dead_letter list"
  dq_maximumItems :: jsnum

definition DeadLetterQueue_append ::
  "string \<Rightarrow> 'v dead_letter \<Rightarrow> 'v dead_letter_queue \<Rightarrow> ('v dead_letter \<times> 'v dead_letter_queue) result" where
  "DeadLetterQueue_append freshId item q =
     guard_r (dq_maximumItems q \<le> Fin (of_nat (length (dq_items q)))) (Error ''DEAD_LETTER_QUEUE_FULL'')
     (let value = item\<lparr>dl_id := freshId\<rparr> in Inr (value, q\<lparr>dq_items := dq_items q @ [value]\<rparr>))"

section \<open>Cancel and replace\<close>

datatype cancel_answer = CaCanceled | CaFilled | CaUnknown

datatype replace_status = RsReplaced | RsFilled | RsBlocked

definition CancelReplaceManager_replace ::
  "(string \<Rightarrow> 'w \<Rightarrow> cancel_answer result \<times> 'w) \<Rightarrow> ('v \<Rightarrow> 'w \<Rightarrow> string result \<times> 'w) \<Rightarrow>
    string \<Rightarrow> 'v \<Rightarrow> 'w \<Rightarrow> (replace_status \<times> string option) result \<times> 'w" where
  "CancelReplaceManager_replace cancel submit orderId replacement w =
     (case cancel orderId w of
        (Inl e, w1) \<Rightarrow> (Inl e, w1)
      | (Inr CaUnknown, w1) \<Rightarrow> (Inr (RsBlocked, None), w1)
      | (Inr CaFilled, w1) \<Rightarrow> (Inr (RsFilled, None), w1)
      | (Inr CaCanceled, w1) \<Rightarrow>
          (case submit replacement w1 of
             (Inl e, w2) \<Rightarrow> (Inl e, w2)
           | (Inr submitted, w2) \<Rightarrow> (Inr (RsReplaced, Some submitted), w2)))"

section \<open>Sequence of the order stream\<close>

record order_snapshot =
  os_sequence :: jsnum
  os_orderId :: string
  os_state :: order_state
  os_fills :: "order_event list"

datatype sync_answer = SaApplied | SaDuplicate | SaGap | SaOutOfOrder

definition WebSocketOrderSynchronizer_apply ::
  "order_snapshot \<Rightarrow> jsnum \<Rightarrow> (sync_answer \<times> jsnum) result" where
  "WebSocketOrderSynchronizer_apply snapshot lastSequence =
     guard_r (\<not> is_safe_integer (os_sequence snapshot) \<or> os_sequence snapshot < Fin 1)
       (Error ''INVALID_ORDER_SEQUENCE'')
     (if js_eq (os_sequence snapshot) lastSequence then Inr (SaDuplicate, lastSequence)
      else if os_sequence snapshot < lastSequence then Inr (SaOutOfOrder, lastSequence)
      else if \<not> js_eq (os_sequence snapshot) (lastSequence + Fin 1) then Inr (SaGap, lastSequence)
      else Inr (SaApplied, os_sequence snapshot))"

text \<open>The synchronizer over a stream of snapshots: the snapshots it applied and its last sequence.\<close>

fun sync_stream :: "order_snapshot list \<Rightarrow> jsnum \<Rightarrow> order_snapshot list \<times> jsnum" where
  "sync_stream [] n = ([], n)"
| "sync_stream (s # ss) n =
     (case WebSocketOrderSynchronizer_apply s n of
        Inr (SaApplied, m) \<Rightarrow> (case sync_stream ss m of (xs, k) \<Rightarrow> (s # xs, k))
      | _ \<Rightarrow> sync_stream ss n)"

lemma sync_applied:
  assumes "WebSocketOrderSynchronizer_apply s (Fin (of_nat k)) = Inr (SaApplied, m)"
  shows "os_sequence s = Fin (of_nat (Suc k)) \<and> m = Fin (of_nat (Suc k)) \<and> Suc k < 2 ^ 53"
proof -
  have g: "is_safe_integer (os_sequence s)" "Fin 1 \<le> os_sequence s" "js_eq (os_sequence s) (Fin (of_nat k) + Fin 1)"
    "\<not> js_eq (os_sequence s) (Fin (of_nat k))" "\<not> os_sequence s < Fin (of_nat k)" "m = os_sequence s"
    using assms by (auto simp: WebSocketOrderSynchronizer_apply_def result_simps less_jsnum_def
        is_safe_integer_def is_integer_def split: if_splits)
  obtain n where n: "jval (os_sequence s) = of_int n" "\<bar>n\<bar> < 2 ^ 53" "is_finite (os_sequence s)"
    using g(1) by (rule is_safe_integer_cases)
  have "(of_int (int k) :: rat) < of_int n" using g(4,5) n(1,3)
    by (simp add: js_eq_finite jless_finite)
  then have k: "int k < n" by (simp only: of_int_less_iff)
  then have "Suc k < 2 ^ 53" using n(2) by (simp only: nat_less_as_int) simp
  then show ?thesis using next_sequence [OF g(3)] g(6) by simp
qed

text \<open>Whatever stream of snapshots arrives - repeated, reordered, with gaps or with invalid
  sequence numbers - the snapshots the synchronizer applies carry exactly the sequence numbers
  1, 2, 3, ... in order, and its last sequence is their count.\<close>
theorem sync_stream_contiguous:
  "map os_sequence (fst (sync_stream ss (Fin 0)))
     = map (\<lambda>i. Fin (of_nat i)) [1..<Suc (length (fst (sync_stream ss (Fin 0))))] \<and>
   snd (sync_stream ss (Fin 0)) = Fin (of_nat (length (fst (sync_stream ss (Fin 0)))))"
proof -
  have "map os_sequence (fst (sync_stream ss (Fin (of_nat k))))
     = map (\<lambda>i. Fin (of_nat i)) [Suc k..<Suc (k + length (fst (sync_stream ss (Fin (of_nat k)))))] \<and>
   snd (sync_stream ss (Fin (of_nat k))) = Fin (of_nat (k + length (fst (sync_stream ss (Fin (of_nat k))))))" for k
  proof (induction ss arbitrary: k)
    case (Cons s ss)
    show ?case
    proof (cases "\<exists>m. WebSocketOrderSynchronizer_apply s (Fin (of_nat k)) = Inr (SaApplied, m)")
      case True
      then obtain m where a: "WebSocketOrderSynchronizer_apply s (Fin (of_nat k)) = Inr (SaApplied, m)" ..
      note m = sync_applied [OF a]
      show ?thesis using Cons.IH [of "Suc k"] a m
        by (cases "sync_stream ss (Fin (of_nat (Suc k)))")
          (simp del: of_nat_Suc of_nat_add upt_Suc add: upt_conv_Cons)
    next
      case False
      then have "sync_stream (s # ss) (Fin (of_nat k)) = sync_stream ss (Fin (of_nat k))"
        by (auto split: sum.split prod.split sync_answer.split)
      then show ?thesis using Cons.IH by metis
    qed
  qed simp
  from this [of 0] show ?thesis by simp
qed

section \<open>Inventory reservations\<close>

record inventory_reservation =
  ir_orderId :: string
  ir_market :: string
  ir_quantity :: string

type_synonym inventory = "(string \<times> inventory_reservation) list"

definition InventoryReservationManager_reserve ::
  "inventory_reservation \<Rightarrow> inventory \<Rightarrow> inventory result" where
  "InventoryReservationManager_reserve r m =
     guard_r (map_of m (ir_orderId r) \<noteq> None) (Error ''DUPLICATE_INVENTORY_RESERVATION'')
     (bind_r (decimal (ir_quantity r) ''reservation quantity'') (\<lambda>_. Inr (AList.update (ir_orderId r) r m)))"

definition InventoryReservationManager_release :: "string \<Rightarrow> inventory \<Rightarrow> inventory result" where
  "InventoryReservationManager_release orderId m =
     bind_r (requireText orderId ''orderId'') (\<lambda>i. Inr (AList.delete i m))"

definition InventoryReservationManager_list :: "string option \<Rightarrow> inventory \<Rightarrow> inventory_reservation list" where
  "InventoryReservationManager_list market m =
     filter (\<lambda>r. market = None \<or> Some (ir_market r) = market) (map snd m)"

section \<open>The execution audit\<close>

text \<open>
  The caller's object is its four properties and the order it lists them in; an absent or
  undefined \<open>reason\<close> does not appear in the JSON text.
\<close>

datatype audit_value = AvText string | AvNumber jsnum

type_synonym audit_payload = "(string \<times> audit_value) list"

record audit_input =
  ai_orderId :: string
  ai_event :: string
  ai_reason :: "string option"
  ai_occurredAtMs :: jsnum
  ai_keys :: "string list"

record execution_audit_record =
  ar_sequence :: jsnum
  ar_orderId :: string
  ar_event :: string
  ar_reason :: "string option"
  ar_occurredAtMs :: jsnum
  ar_previousHash :: string
  ar_hash :: string

definition zero_hash :: string where
  "zero_hash = replicate 64 (CHR ''0'')"

definition audit_property :: "audit_input \<Rightarrow> string \<Rightarrow> audit_payload" where
  "audit_property i k =
     (if k = ''orderId'' then [(k, AvText (ai_orderId i))]
      else if k = ''event'' then [(k, AvText (ai_event i))]
      else if k = ''reason'' then (case ai_reason i of None \<Rightarrow> [] | Some r \<Rightarrow> [(k, AvText r)])
      else if k = ''occurredAtMs'' then [(k, AvNumber (ai_occurredAtMs i))] else [])"

definition last_hash :: "execution_audit_record list \<Rightarrow> string" where
  "last_hash records = (if records = [] then zero_hash else ar_hash (last records))"

definition ExecutionAudit_append ::
  "(audit_payload \<Rightarrow> string) \<Rightarrow> audit_input \<Rightarrow> execution_audit_record list \<Rightarrow> execution_audit_record list" where
  "ExecutionAudit_append sha input records =
     (let previousHash = last_hash records;
          sequence = Fin (of_nat (length records + 1));
          payload = [(''sequence'', AvNumber sequence)] @ concat (map (audit_property input) (ai_keys input))
            @ [(''previousHash'', AvText previousHash)]
      in records @ [\<lparr>ar_sequence = sequence, ar_orderId = ai_orderId input, ar_event = ai_event input,
           ar_reason = ai_reason input, ar_occurredAtMs = ai_occurredAtMs input,
           ar_previousHash = previousHash, ar_hash = sha payload\<rparr>])"

definition verified_payload :: "execution_audit_record \<Rightarrow> audit_payload" where
  "verified_payload r =
     [(''sequence'', AvNumber (ar_sequence r)), (''orderId'', AvText (ar_orderId r)), (''event'', AvText (ar_event r))]
     @ (case ar_reason r of None \<Rightarrow> [] | Some x \<Rightarrow> [(''reason'', AvText x)])
     @ [(''occurredAtMs'', AvNumber (ar_occurredAtMs r)), (''previousHash'', AvText (ar_previousHash r))]"

fun audit_verify_from ::
  "(audit_payload \<Rightarrow> string) \<Rightarrow> nat \<Rightarrow> string \<Rightarrow> execution_audit_record list \<Rightarrow> unit result" where
  "audit_verify_from sha index previousHash [] = Inr ()"
| "audit_verify_from sha index previousHash (r # rs) =
     (if \<not> js_eq (ar_sequence r) (Fin (of_nat (index + 1))) \<or> ar_previousHash r \<noteq> previousHash
         \<or> ar_hash r \<noteq> sha (verified_payload r)
      then throw ''EXECUTION_AUDIT_INTEGRITY_FAILURE''
      else audit_verify_from sha (index + 1) (ar_hash r) rs)"

definition ExecutionAudit_verify :: "(audit_payload \<Rightarrow> string) \<Rightarrow> execution_audit_record list \<Rightarrow> unit result" where
  "ExecutionAudit_verify sha records = audit_verify_from sha 0 zero_hash records"

definition canonical_keys :: "string list" where
  "canonical_keys = [''orderId'', ''event'', ''reason'', ''occurredAtMs'']"

lemma audit_verify_snoc:
  "audit_verify_from sha i h (rs @ [r]) = Inr () \<longleftrightarrow>
     audit_verify_from sha i h rs = Inr () \<and> js_eq (ar_sequence r) (Fin (of_nat (Suc (i + length rs)))) \<and>
     ar_previousHash r = (if rs = [] then h else ar_hash (last rs)) \<and> ar_hash r = sha (verified_payload r)"
  by (induction rs arbitrary: i h) (auto simp: throw_def)

lemma verify_snoc:
  "ExecutionAudit_verify sha (rs @ [r]) = Inr () \<longleftrightarrow>
     ExecutionAudit_verify sha rs = Inr () \<and> js_eq (ar_sequence r) (Fin (of_nat (Suc (length rs)))) \<and>
     ar_previousHash r = last_hash rs \<and> ar_hash r = sha (verified_payload r)"
  unfolding ExecutionAudit_verify_def audit_verify_snoc by (simp add: last_hash_def)

text \<open>A log built by appending objects that list their properties in the declared order passes
  verification, however many records it has.\<close>
theorem audit_append_verifies:
  assumes "\<forall>i \<in> set inputs. ai_keys i = canonical_keys"
  shows "ExecutionAudit_verify sha (fold (ExecutionAudit_append sha) inputs []) = Inr ()"
  using assms
proof (induction inputs rule: rev_induct)
  case Nil
  show ?case by (simp add: ExecutionAudit_verify_def)
next
  case (snoc i inputs)
  then show ?case
    by (cases "ai_reason i")
      (simp_all add: ExecutionAudit_append_def Let_def verify_snoc verified_payload_def
        canonical_keys_def audit_property_def)
qed

lemma verified_payload_inject:
  "verified_payload r = verified_payload s \<Longrightarrow> ar_sequence r = ar_sequence s \<and> ar_orderId r = ar_orderId s \<and>
     ar_event r = ar_event s \<and> ar_reason r = ar_reason s \<and> ar_occurredAtMs r = ar_occurredAtMs s \<and>
     ar_previousHash r = ar_previousHash s"
  by (auto simp: verified_payload_def split: option.splits)

text \<open>The audit is tamper evident: two logs of the same length that both verify and end in the same
  hash are the same log, record for record, unless some record of one and some record of the other
  are different payloads with the same digest.\<close>
theorem audit_tamper_evident:
  assumes "ExecutionAudit_verify sha log1 = Inr ()" "ExecutionAudit_verify sha log2 = Inr ()"
    "length log1 = length log2" "last_hash log1 = last_hash log2"
  shows "log1 = log2 \<or> (\<exists>r \<in> set log1. \<exists>s \<in> set log2.
    verified_payload r \<noteq> verified_payload s \<and> sha (verified_payload r) = sha (verified_payload s))"
  using assms
proof (induction log1 arbitrary: log2 rule: rev_induct)
  case Nil
  then show ?case by simp
next
  case (snoc r rs)
  obtain ss s where l2: "log2 = ss @ [s]" using snoc.prems(3) by (cases log2 rule: rev_cases) auto
  have v: "ExecutionAudit_verify sha rs = Inr ()" "ExecutionAudit_verify sha ss = Inr ()"
    "ar_previousHash r = last_hash rs" "ar_previousHash s = last_hash ss"
    "ar_hash r = sha (verified_payload r)" "ar_hash s = sha (verified_payload s)"
    using snoc.prems(1,2) by (auto simp: l2 verify_snoc)
  have h: "ar_hash r = ar_hash s" using snoc.prems(4) by (simp add: l2 last_hash_def)
  show ?case
  proof (cases "verified_payload r = verified_payload s")
    case True
    note i = verified_payload_inject [OF True]
    have "length rs = length ss" "last_hash rs = last_hash ss" using snoc.prems(3) v(3,4) i by (auto simp: l2)
    from snoc.IH [OF v(1,2) this] show ?thesis
    proof
      assume "rs = ss"
      moreover have "r = s" using i h by (cases r; cases s) simp
      ultimately show ?thesis by (simp add: l2)
    qed (auto simp: l2)
  next
    case False
    then show ?thesis using h v(5,6) by (auto simp: l2)
  qed
qed

section \<open>Execution metrics\<close>

datatype metric_event = MeSubmitted | MeAccepted | MeRejected | MeFilled | MePartialFills | MeRetries | MeDeadLetters

record execution_metrics =
  em_submitted :: jsnum
  em_accepted :: jsnum
  em_rejected :: jsnum
  em_filled :: jsnum
  em_partialFills :: jsnum
  em_retries :: jsnum
  em_deadLetters :: jsnum
  em_queueHighWaterMark :: jsnum
  em_totalLatencyMs :: jsnum

definition ExecutionMetrics_new :: execution_metrics where
  "ExecutionMetrics_new = \<lparr>em_submitted = Fin 0, em_accepted = Fin 0, em_rejected = Fin 0, em_filled = Fin 0,
     em_partialFills = Fin 0, em_retries = Fin 0, em_deadLetters = Fin 0, em_queueHighWaterMark = Fin 0,
     em_totalLatencyMs = Fin 0\<rparr>"

fun bump_metric :: "metric_event \<Rightarrow> execution_metrics \<Rightarrow> execution_metrics" where
  "bump_metric MeSubmitted s = s\<lparr>em_submitted := em_submitted s + Fin 1\<rparr>"
| "bump_metric MeAccepted s = s\<lparr>em_accepted := em_accepted s + Fin 1\<rparr>"
| "bump_metric MeRejected s = s\<lparr>em_rejected := em_rejected s + Fin 1\<rparr>"
| "bump_metric MeFilled s = s\<lparr>em_filled := em_filled s + Fin 1\<rparr>"
| "bump_metric MePartialFills s = s\<lparr>em_partialFills := em_partialFills s + Fin 1\<rparr>"
| "bump_metric MeRetries s = s\<lparr>em_retries := em_retries s + Fin 1\<rparr>"
| "bump_metric MeDeadLetters s = s\<lparr>em_deadLetters := em_deadLetters s + Fin 1\<rparr>"

definition ExecutionMetrics_observe ::
  "metric_event \<Rightarrow> jsnum \<Rightarrow> jsnum \<Rightarrow> execution_metrics \<Rightarrow> execution_metrics result" where
  "ExecutionMetrics_observe event queueDepth latencyMs s =
     guard_r (\<not> is_safe_integer queueDepth \<or> queueDepth < Fin 0 \<or> \<not> is_finite latencyMs \<or> latencyMs < Fin 0)
       (Error ''INVALID_EXECUTION_METRIC'')
     (Inr ((bump_metric event s)
       \<lparr>em_queueHighWaterMark := js_max (em_queueHighWaterMark s) queueDepth,
        em_totalLatencyMs := em_totalLatencyMs s + latencyMs\<rparr>))"

section \<open>Concrete runs\<close>

definition sample_audit :: "audit_input" where
  "sample_audit = \<lparr>ai_orderId = ''o'', ai_event = ''FILLED'', ai_reason = None, ai_occurredAtMs = Fin 7,
     ai_keys = canonical_keys\<rparr>"

lemma order_queue_fifo_witness:
  "oq.outputs [Enq \<lparr>qi_orderId = ''a'', qi_value = (), qi_enqueuedAtMs = Fin 1, qi_attempts = Fin 0\<rparr>, Deq]
     \<lparr>oq_items = [], oq_ids = [], oq_maximumItems = Fin 2\<rparr> \<noteq> []
   \<and> distinct (map qi_orderId (oq_items (fold oq.apply_op
      [Enq \<lparr>qi_orderId = ''a'', qi_value = (), qi_enqueuedAtMs = Fin 1, qi_attempts = Fin 0\<rparr>, Deq]
      \<lparr>oq_items = [], oq_ids = [], oq_maximumItems = Fin 2\<rparr>)))"
proof -
  have n: "OrderQueue_new (Fin 2) = Inr \<lparr>oq_items = [] :: unit order_queue_item list, oq_ids = [], oq_maximumItems = Fin 2\<rparr>"
    by code_simp
  have b: "\<not> blank ''a''" by code_simp
  show ?thesis using order_queue_fifo [OF n] b
    by (auto simp: oq.apply_op_def OrderQueue_enqueue_def OrderQueue_dequeue_def requireText_def)
qed

lemma retryDelay_backoff_witness: "jval (Fin 400) = min 1000 (100 * 2 ^ nat 2)"
proof -
  have "retryDelay (\<lambda>_. NaN) \<lparr>rp_maximumAttempts = Fin 5, rp_baseDelayMs = Fin 100, rp_maximumDelayMs = Fin 1000,
      rp_retryableReasons = [''timeout'']\<rparr> (Fin (of_int 2)) ''timeout'' = Inr (Some (Fin 400))" by code_simp
  from retryDelay_backoff [OF this] show ?thesis by simp
qed

definition sample_digest :: "audit_payload \<Rightarrow> string" where
  "sample_digest p = replicate (length p) (CHR ''h'')"

lemma audit_append_verifies_witness:
  "ExecutionAudit_verify sample_digest (fold (ExecutionAudit_append sample_digest) [sample_audit, sample_audit] []) = Inr ()"
  by (rule audit_append_verifies) (simp add: sample_audit_def)

definition sample_audit_log :: "string \<Rightarrow> execution_audit_record list" where
  "sample_audit_log event = [\<lparr>ar_sequence = Fin 1, ar_orderId = ''o'', ar_event = event, ar_reason = None,
     ar_occurredAtMs = Fin 7, ar_previousHash = zero_hash, ar_hash = ''hhhhh''\<rparr>]"

lemma audit_tamper_evident_witness:
  "\<exists>r \<in> set (sample_audit_log ''FILLED''). \<exists>s \<in> set (sample_audit_log ''FAILED'').
    verified_payload r \<noteq> verified_payload s \<and> sample_digest (verified_payload r) = sample_digest (verified_payload s)"
proof -
  have "ExecutionAudit_verify sample_digest (sample_audit_log ''FILLED'') = Inr ()"
    "ExecutionAudit_verify sample_digest (sample_audit_log ''FAILED'') = Inr ()"
    "length (sample_audit_log ''FILLED'') = length (sample_audit_log ''FAILED'')"
    "last_hash (sample_audit_log ''FILLED'') = last_hash (sample_audit_log ''FAILED'')" by code_simp+
  moreover have "sample_audit_log ''FILLED'' \<noteq> sample_audit_log ''FAILED''" by code_simp
  ultimately show ?thesis using audit_tamper_evident by blast
qed

end
