(* ===== verification/RateLimit.thy ===== *)
theory RateLimit imports Prelude begin

text \<open>
  \<open>apps/execution/src/rate-limit-manager.ts\<close>: the deterministic token bucket with memoized
  decisions.  A method that changes the object before it throws returns the changed object beside
  the error, so \<open>evaluate\<close> and \<open>isIdle\<close> return a pair of a result and the manager.  The lemmas
  show that tokens stay between zero and the capacity as exact integers, although
  the refill computes with rounded products, and that the weight allowed in any run is bounded by
  the capacity plus what the elapsed time refills.
\<close>

section \<open>Types\<close>

datatype rate_decision_type = RlAllow | RlDelay | RlBlock

record rate_policy =
  rl_capacity :: jsnum
  rl_refillTokens :: jsnum
  rl_refillIntervalMs :: jsnum
  rl_maximumQueueDelayMs :: jsnum
  rl_maximumTrackedRequests :: "jsnum option"
  rl_decisionRetentionMs :: "jsnum option"

record rate_request =
  rq_requestId :: string
  rq_weight :: jsnum
  rq_nowMs :: jsnum

record rate_decision =
  rd_type :: rate_decision_type
  rd_requestId :: string
  rd_remainingTokens :: jsnum
  rd_retryAtMs :: "jsnum option"
  rd_reason :: "string option"

record rate_state =
  rs_availableTokens :: jsnum
  rs_lastRefillAtMs :: jsnum

record rate_manager =
  rm_policy :: rate_policy
  rm_state :: rate_state
  rm_decisions :: "(string \<times> rate_decision) list"
  rm_decisionExpiryMs :: "(string \<times> jsnum) list"
  rm_lastActivityAtMs :: jsnum

section \<open>Operations\<close>

definition rate_assertPolicy :: "rate_policy \<Rightarrow> unit result" where
  "rate_assertPolicy p =
     guard_r (\<not> is_safe_integer (rl_capacity p) \<or> rl_capacity p \<le> Fin 0)
       (Error ''capacity must be a positive safe integer'')
     (guard_r (\<not> is_safe_integer (rl_refillTokens p) \<or> rl_refillTokens p \<le> Fin 0)
       (Error ''refillTokens must be a positive safe integer'')
     (guard_r (\<not> is_safe_integer (rl_refillIntervalMs p) \<or> rl_refillIntervalMs p \<le> Fin 0)
       (Error ''refillIntervalMs must be a positive safe integer'')
     (guard_r (\<not> is_safe_integer (rl_maximumQueueDelayMs p) \<or> rl_maximumQueueDelayMs p < Fin 0)
       (Error ''maximumQueueDelayMs must be a non-negative safe integer'')
     (guard_r (case rl_maximumTrackedRequests p of None \<Rightarrow> False | Some n \<Rightarrow> \<not> is_safe_integer n \<or> n \<le> Fin 0)
       (Error ''maximumTrackedRequests must be a positive safe integer'')
     (guard_r (case rl_decisionRetentionMs p of None \<Rightarrow> False | Some n \<Rightarrow> \<not> is_safe_integer n \<or> n \<le> Fin 0)
       (Error ''decisionRetentionMs must be a positive safe integer'')
     (Inr ()))))))"

definition rate_refill :: "rate_state \<Rightarrow> rate_policy \<Rightarrow> jsnum \<Rightarrow> rate_state result" where
  "rate_refill s p nowMs =
     guard_r (\<not> is_safe_integer nowMs \<or> nowMs < rs_lastRefillAtMs s)
       (Error ''rate-limit clock moved backwards'')
     (let intervals = js_floor ((nowMs - rs_lastRefillAtMs s) div rl_refillIntervalMs p)
      in Inr (if js_eq intervals (Fin 0) then s
         else \<lparr>rs_availableTokens = js_min (rl_capacity p) (rs_availableTokens s + intervals * rl_refillTokens p),
               rs_lastRefillAtMs = rs_lastRefillAtMs s + intervals * rl_refillIntervalMs p\<rparr>))"

definition RateLimitManager_new :: "rate_policy \<Rightarrow> jsnum \<Rightarrow> rate_manager result" where
  "RateLimitManager_new p initialNowMs =
     bind_r (rate_assertPolicy p) (\<lambda>_.
     guard_r (\<not> is_safe_integer initialNowMs \<or> initialNowMs < Fin 0) (Error ''initialNowMs is invalid'')
     (Inr \<lparr>rm_policy = p, rm_state = \<lparr>rs_availableTokens = rl_capacity p, rs_lastRefillAtMs = initialNowMs\<rparr>,
           rm_decisions = [], rm_decisionExpiryMs = [], rm_lastActivityAtMs = initialNowMs\<rparr>))"

definition rate_retentionMs :: "rate_policy \<Rightarrow> jsnum" where
  "rate_retentionMs p = (case rl_decisionRetentionMs p of None \<Rightarrow> rl_refillIntervalMs p | Some n \<Rightarrow> n)"

definition rate_pruneDecisions :: "jsnum \<Rightarrow> rate_manager \<Rightarrow> rate_manager" where
  "rate_pruneDecisions nowMs m =
     (let expired = map fst (filter (\<lambda>(requestId, expiresAtMs). \<not> nowMs < expiresAtMs) (rm_decisionExpiryMs m))
      in m\<lparr>rm_decisionExpiryMs := filter (\<lambda>e. fst e \<notin> set expired) (rm_decisionExpiryMs m),
           rm_decisions := filter (\<lambda>d. fst d \<notin> set expired) (rm_decisions m)\<rparr>)"

definition rate_isIdle :: "jsnum \<Rightarrow> rate_manager \<Rightarrow> bool result \<times> rate_manager" where
  "rate_isIdle nowMs m0 =
     (let m = rate_pruneDecisions nowMs m0 in
      (if rm_decisions m \<noteq> [] then Inr False
       else if nowMs < rm_lastActivityAtMs m then Inr False
       else bind_r (rate_refill (rm_state m) (rm_policy m) nowMs)
         (\<lambda>s. Inr (rl_capacity (rm_policy m) \<le> rs_availableTokens s)), m))"

definition rate_decide :: "rate_request \<Rightarrow> rate_manager \<Rightarrow> rate_decision \<times> rate_state" where
  "rate_decide r m =
     (let p = rm_policy m; s = rm_state m; available = rs_availableTokens s;
          decision = \<lparr>rd_type = RlBlock, rd_requestId = rq_requestId r, rd_remainingTokens = available,
            rd_retryAtMs = None, rd_reason = None\<rparr>
      in if rl_capacity p < rq_weight r
         then (decision\<lparr>rd_reason := Some ''request weight exceeds bucket capacity''\<rparr>, s)
         else if rq_weight r \<le> available
         then (let s2 = s\<lparr>rs_availableTokens := available - rq_weight r\<rparr>
               in (decision\<lparr>rd_type := RlAllow, rd_remainingTokens := rs_availableTokens s2\<rparr>, s2))
         else (let deficit = rq_weight r - available;
                   intervalsNeeded = js_ceil (deficit div rl_refillTokens p);
                   retryAtMs = rs_lastRefillAtMs s + intervalsNeeded * rl_refillIntervalMs p;
                   delayMs = retryAtMs - rq_nowMs r
               in (if delayMs \<le> rl_maximumQueueDelayMs p
                   then decision\<lparr>rd_type := RlDelay, rd_retryAtMs := Some retryAtMs\<rparr>
                   else decision\<lparr>rd_reason := Some ''required delay exceeds policy''\<rparr>, s)))"

definition rate_evaluate :: "rate_request \<Rightarrow> rate_manager \<Rightarrow> rate_decision result \<times> rate_manager" where
  "rate_evaluate r m0 =
     (if blank (rq_requestId r) then (throw ''requestId is required'', m0)
      else if \<not> is_safe_integer (rq_weight r) \<or> rq_weight r \<le> Fin 0
      then (throw ''weight must be a positive safe integer'', m0)
      else case map_of (rm_decisions m0) (rq_requestId r) of
        Some prior \<Rightarrow> (Inr prior, m0)
      | None \<Rightarrow>
        (let m = rate_pruneDecisions (rq_nowMs r) m0 in
         if (case rl_maximumTrackedRequests (rm_policy m) of None \<Rightarrow> False
             | Some n \<Rightarrow> n \<le> Fin (of_nat (length (rm_decisions m))))
         then (Inr \<lparr>rd_type = RlBlock, rd_requestId = rq_requestId r,
                 rd_remainingTokens = rs_availableTokens (rm_state m), rd_retryAtMs = None,
                 rd_reason = Some ''request tracking capacity exhausted''\<rparr>, m)
         else case rate_refill (rm_state m) (rm_policy m) (rq_nowMs r) of
           Inl e \<Rightarrow> (Inl e, m)
         | Inr s \<Rightarrow>
           (let m1 = m\<lparr>rm_state := s, rm_lastActivityAtMs := js_max (rm_lastActivityAtMs m) (rq_nowMs r)\<rparr>;
                (decision, s2) = rate_decide r m1
            in (Inr decision, m1\<lparr>rm_state := s2,
                 rm_decisions := AList.update (rq_requestId r) decision (rm_decisions m1),
                 rm_decisionExpiryMs := AList.update (rq_requestId r)
                   (rq_nowMs r + rate_retentionMs (rm_policy m1)) (rm_decisionExpiryMs m1)\<rparr>))))"

section \<open>The tokens\<close>

record bucket_shape =
  bs_capacity :: int
  bs_refill :: int
  bs_interval :: int

definition shaped :: "bucket_shape \<Rightarrow> rate_policy \<Rightarrow> bool" where
  "shaped b p \<longleftrightarrow> rl_capacity p = Fin (of_int (bs_capacity b)) \<and> 0 < bs_capacity b \<and> bs_capacity b < 2 ^ 53 \<and>
     rl_refillTokens p = Fin (of_int (bs_refill b)) \<and> 0 < bs_refill b \<and> bs_refill b < 2 ^ 53 \<and>
     rl_refillIntervalMs p = Fin (of_int (bs_interval b)) \<and> 0 < bs_interval b \<and> bs_interval b < 2 ^ 53"

text \<open>Tokens and last refill as integers.\<close>

definition tokens :: "rate_state \<Rightarrow> int \<Rightarrow> int \<Rightarrow> bool" where
  "tokens s a l \<longleftrightarrow> jis (rs_availableTokens s) a \<and> jis (rs_lastRefillAtMs s) l \<and> 0 \<le> l \<and> l < 2 ^ 53"

lemma rate_assertPolicy_shaped:
  assumes "rate_assertPolicy p = Inr u"
  shows "\<exists>b. shaped b p"
proof -
  have g: "is_safe_integer (rl_capacity p)" "\<not> rl_capacity p \<le> Fin 0"
    "is_safe_integer (rl_refillTokens p)" "\<not> rl_refillTokens p \<le> Fin 0"
    "is_safe_integer (rl_refillIntervalMs p)" "\<not> rl_refillIntervalMs p \<le> Fin 0"
    using assms by (auto simp: rate_assertPolicy_def result_simps)
  obtain c where c: "rl_capacity p = Fin (of_int c)" "0 < c" "c < 2 ^ 53"
    using g(1,2) by (rule is_safe_integer_pos_cases)
  obtain r where r: "rl_refillTokens p = Fin (of_int r)" "0 < r" "r < 2 ^ 53"
    using g(3,4) by (rule is_safe_integer_pos_cases)
  obtain i where i: "rl_refillIntervalMs p = Fin (of_int i)" "0 < i" "i < 2 ^ 53"
    using g(5,6) by (rule is_safe_integer_pos_cases)
  show ?thesis using c r i
    by (intro exI [of _ "\<lparr>bs_capacity = c, bs_refill = r, bs_interval = i\<rparr>"]) (simp add: shaped_def)
qed

lemma rate_refill_tokens:
  assumes "shaped b p" "tokens s a l" "0 \<le> a" "a \<le> bs_capacity b" "rate_refill s p now = Inr t"
  shows "\<exists>n k. jis now n \<and> l \<le> n \<and> n < 2 ^ 53 \<and> 0 \<le> k \<and> l + k * bs_interval b \<le> n \<and>
    tokens t (min (bs_capacity b) (a + k * bs_refill b)) (l + k * bs_interval b)"
proof -
  have g: "is_safe_integer now" "\<not> now < rs_lastRefillAtMs s"
    using assms(5) by (auto simp: rate_refill_def result_simps)
  obtain n where n: "jis now n" "\<bar>n\<bar> < 2 ^ 53" using g(1) by (auto simp: is_safe_integer_jis)
  have s: "jis (rs_availableTokens s) a" "jis (rs_lastRefillAtMs s) l" "0 \<le> l" "l < 2 ^ 53"
    using assms(2) by (auto simp: tokens_def)
  have ln: "l \<le> n" using g(2) jis_less [OF n(1) s(2)] by simp
  define k where "k = (n - l) div bs_interval b"
  have p: "jis (rl_capacity p) (bs_capacity b)" "jis (rl_refillTokens p) (bs_refill b)"
    "jis (rl_refillIntervalMs p) (bs_interval b)" "0 < bs_interval b" "bs_interval b < 2 ^ 53"
    "bs_capacity b < 2 ^ 53" "0 < bs_refill b"
    using assms(1) by (auto simp: shaped_def)
  have d: "jis (now - rs_lastRefillAtMs s) (n - l)" using n s ln by (intro jis_sub) auto
  have i: "jis (js_floor ((now - rs_lastRefillAtMs s) div rl_refillIntervalMs p)) k"
    unfolding k_def using d p n s ln by (intro jis_floor_div) auto
  have k: "0 \<le> k" "k * bs_interval b \<le> n - l"
    using ln p(4) by (auto simp: k_def pos_imp_zdiv_nonneg_iff) (metis div_mult_mod_eq le_add_same_cancel1 pos_mod_sign)
  show ?thesis
  proof (cases "k = 0")
    case True
    then have "t = s" using assms(5) i jis_eq [OF i jis_numeral(2)]
      by (simp add: rate_refill_def result_simps Let_def)
    then show ?thesis using assms(2-4) n ln True by (intro exI [of _ n] exI [of _ 0]) auto
  next
    case False
    then have t: "t = \<lparr>rs_availableTokens = js_min (rl_capacity p) (rs_availableTokens s
          + js_floor ((now - rs_lastRefillAtMs s) div rl_refillIntervalMs p) * rl_refillTokens p),
        rs_lastRefillAtMs = rs_lastRefillAtMs s
          + js_floor ((now - rs_lastRefillAtMs s) div rl_refillIntervalMs p) * rl_refillIntervalMs p\<rparr>"
      using assms(5) jis_eq [OF i jis_numeral(2)] by (simp add: rate_refill_def result_simps Let_def)
    have "jis (rs_availableTokens t) (min (bs_capacity b) (a + k * bs_refill b))"
      unfolding t using p s(1) i assms(3,4) k by (simp, intro jis_capped_sum) auto
    moreover have "jis (rs_lastRefillAtMs t) (l + k * bs_interval b)"
    proof -
      have "\<bar>k * bs_interval b\<bar> < 2 ^ 53" "\<bar>l + k * bs_interval b\<bar> < 2 ^ 53"
        using k n(2) s(3) ln p(4) by (auto simp: abs_mult)
      then show ?thesis unfolding t using i p s by (simp add: jis_add jis_mult)
    qed
    ultimately show ?thesis
      using n k ln s(3,4) p(4) by (intro exI [of _ n] exI [of _ k]) (auto simp: tokens_def)
  qed
qed

section \<open>Runs\<close>

fun rate_run :: "rate_request list \<Rightarrow> rate_manager \<Rightarrow> rate_manager" where
  "rate_run [] m = m"
| "rate_run (r # rs) m = rate_run rs (snd (rate_evaluate r m))"

text \<open>The weight a call newly allows: a memoized answer allows nothing more.\<close>

definition newly_allowed :: "rate_request \<Rightarrow> rate_manager \<Rightarrow> rat" where
  "newly_allowed r m =
     (case map_of (rm_decisions m) (rq_requestId r) of Some _ \<Rightarrow> 0
      | None \<Rightarrow> (case fst (rate_evaluate r m) of Inl _ \<Rightarrow> 0
          | Inr d \<Rightarrow> if rd_type d = RlAllow then jval (rq_weight r) else 0))"

fun allowed_weight :: "rate_request list \<Rightarrow> rate_manager \<Rightarrow> rat" where
  "allowed_weight [] m = 0"
| "allowed_weight (r # rs) m = newly_allowed r m + allowed_weight rs (snd (rate_evaluate r m))"

definition bucket_inv :: "bucket_shape \<Rightarrow> int \<Rightarrow> int \<Rightarrow> rate_manager \<Rightarrow> bool" where
  "bucket_inv b l0 spent m \<longleftrightarrow> shaped b (rm_policy m) \<and>
     (\<exists>a j z. tokens (rm_state m) a (l0 + j * bs_interval b) \<and> 0 \<le> a \<and> a \<le> bs_capacity b \<and> 0 \<le> j \<and>
        spent + a \<le> bs_capacity b + bs_refill b * j \<and>
        jis (rm_lastActivityAtMs m) z \<and> l0 + j * bs_interval b \<le> z)"

lemma prune_fields [simp]:
  "rm_policy (rate_pruneDecisions n m) = rm_policy m" "rm_state (rate_pruneDecisions n m) = rm_state m"
  "rm_lastActivityAtMs (rate_pruneDecisions n m) = rm_lastActivityAtMs m"
  by (simp_all add: rate_pruneDecisions_def Let_def)

lemma prune_None: "map_of (rm_decisions m) i = None \<Longrightarrow> map_of (rm_decisions (rate_pruneDecisions n m)) i = None"
  by (auto simp: rate_pruneDecisions_def Let_def map_of_eq_None_iff)

lemma rate_decide_tokens:
  assumes "shaped b (rm_policy m)" "tokens (rm_state m) a l" "0 \<le> a" "a \<le> bs_capacity b"
    and "jis (rq_weight r) w" "0 < w" "rate_decide r m = (d, s)"
  shows "\<exists>v. 0 \<le> v \<and> v \<le> a \<and> tokens s (a - v) l \<and> (if rd_type d = RlAllow then v = w else v = 0)"
proof (cases "rl_capacity (rm_policy m) < rq_weight r \<or> \<not> rq_weight r \<le> rs_availableTokens (rm_state m)")
  case True
  then have "s = rm_state m" "rd_type d \<noteq> RlAllow"
    using assms(7) by (auto simp: rate_decide_def Let_def split: if_splits)
  then show ?thesis using assms(2,3) by (intro exI [of _ 0]) simp
next
  case False
  then have s: "s = (rm_state m)\<lparr>rs_availableTokens := rs_availableTokens (rm_state m) - rq_weight r\<rparr>"
    "rd_type d = RlAllow"
    using assms(7) by (auto simp: rate_decide_def Let_def)
  have t: "jis (rs_availableTokens (rm_state m)) a" "jis (rs_lastRefillAtMs (rm_state m)) l" "0 \<le> l" "l < 2 ^ 53"
    using assms(2) by (auto simp: tokens_def)
  have wa: "w \<le> a" using False jis_le [OF assms(5) t(1)] by simp
  have "a < 2 ^ 53" using assms(1,4) by (auto simp: shaped_def)
  then have "jis (rs_availableTokens (rm_state m) - rq_weight r) (a - w)"
    using t(1) assms(5,6) wa by (intro jis_sub) auto
  then show ?thesis using s t wa assms(6) by (intro exI [of _ w]) (simp add: tokens_def)
qed

definition processed :: "rate_request \<Rightarrow> rate_manager \<Rightarrow> rate_state \<Rightarrow> bool" where
  "processed r m s \<longleftrightarrow> \<not> blank (rq_requestId r) \<and> is_safe_integer (rq_weight r) \<and> \<not> rq_weight r \<le> Fin 0 \<and>
     map_of (rm_decisions m) (rq_requestId r) = None \<and>
     \<not> (case rl_maximumTrackedRequests (rm_policy m) of None \<Rightarrow> False
        | Some n \<Rightarrow> n \<le> Fin (of_nat (length (rm_decisions (rate_pruneDecisions (rq_nowMs r) m))))) \<and>
     rate_refill (rm_state m) (rm_policy m) (rq_nowMs r) = Inr s"

lemma rate_evaluate_processed:
  assumes "processed r m s"
  obtains m2 d s2 where "rm_policy m2 = rm_policy m" "rm_state m2 = s" "rate_decide r m2 = (d, s2)"
    "fst (rate_evaluate r m) = Inr d" "rm_state (snd (rate_evaluate r m)) = s2"
    "rm_policy (snd (rate_evaluate r m)) = rm_policy m"
    "rm_lastActivityAtMs (snd (rate_evaluate r m)) = js_max (rm_lastActivityAtMs m) (rq_nowMs r)"
proof -
  define m1 where "m1 = rate_pruneDecisions (rq_nowMs r) m"
  have m1: "rm_policy m1 = rm_policy m" "rm_state m1 = rm_state m"
    "rm_lastActivityAtMs m1 = rm_lastActivityAtMs m" by (simp_all add: m1_def)
  define m2 where "m2 = m1\<lparr>rm_state := s, rm_lastActivityAtMs := js_max (rm_lastActivityAtMs m1) (rq_nowMs r)\<rparr>"
  obtain d s2 where d: "rate_decide r m2 = (d, s2)" by force
  have "rate_evaluate r m = (Inr d, m2\<lparr>rm_state := s2,
      rm_decisions := AList.update (rq_requestId r) d (rm_decisions m2),
      rm_decisionExpiryMs := AList.update (rq_requestId r)
        (rq_nowMs r + rate_retentionMs (rm_policy m2)) (rm_decisionExpiryMs m2)\<rparr>)"
    using assms [unfolded processed_def, folded m1_def] d m1
    by (simp add: rate_evaluate_def m1_def [symmetric] m2_def)
  then show thesis using that [of m2 d s2] d m1 by (simp add: m2_def)
qed

lemma rate_evaluate_unprocessed:
  assumes "\<nexists>s. processed r m s"
  shows "snd (rate_evaluate r m) \<in> {m, rate_pruneDecisions (rq_nowMs r) m} \<and> newly_allowed r m = 0"
proof (cases "blank (rq_requestId r) \<or> \<not> is_safe_integer (rq_weight r) \<or> rq_weight r \<le> Fin 0")
  case True
  then show ?thesis by (auto simp: rate_evaluate_def newly_allowed_def throw_def split: option.split)
next
  case valid: False
  show ?thesis
  proof (cases "map_of (rm_decisions m) (rq_requestId r)")
    case (Some d)
    then show ?thesis using valid by (simp add: rate_evaluate_def newly_allowed_def)
  next
    case None
    show ?thesis
    proof (cases "case rl_maximumTrackedRequests (rm_policy m) of None \<Rightarrow> False
        | Some n \<Rightarrow> n \<le> Fin (of_nat (length (rm_decisions (rate_pruneDecisions (rq_nowMs r) m))))")
      case True
      then show ?thesis using valid None by (simp add: rate_evaluate_def newly_allowed_def Let_def)
    next
      case False
      obtain e where "rate_refill (rm_state m) (rm_policy m) (rq_nowMs r) = Inl e"
        using assms valid None False by (cases "rate_refill (rm_state m) (rm_policy m) (rq_nowMs r)")
          (auto simp: processed_def)
      then show ?thesis using valid None False by (simp add: rate_evaluate_def newly_allowed_def Let_def)
    qed
  qed
qed

lemma rate_evaluate_inv:
  assumes "bucket_inv b l0 spent m"
  shows "\<exists>v. newly_allowed r m = of_int v \<and> bucket_inv b l0 (spent + v) (snd (rate_evaluate r m))"
proof (cases "\<exists>s. processed r m s")
  case False
  have "bucket_inv b l0 spent (rate_pruneDecisions (rq_nowMs r) m)" using assms by (simp add: bucket_inv_def)
  then show ?thesis using rate_evaluate_unprocessed [OF False] assms by (intro exI [of _ 0]) auto
next
  case True
  then obtain s where pr: "processed r m s" ..
  obtain a j z where sh: "shaped b (rm_policy m)"
    and t: "tokens (rm_state m) a (l0 + j * bs_interval b)" "0 \<le> a" "a \<le> bs_capacity b" "0 \<le> j"
      "spent + a \<le> bs_capacity b + bs_refill b * j"
    and z: "jis (rm_lastActivityAtMs m) z" "l0 + j * bs_interval b \<le> z"
    using assms by (auto simp: bucket_inv_def)
  have w: "is_safe_integer (rq_weight r)" "\<not> rq_weight r \<le> Fin 0"
    and none: "map_of (rm_decisions m) (rq_requestId r) = None"
    and s: "rate_refill (rm_state m) (rm_policy m) (rq_nowMs r) = Inr s"
    using pr by (simp_all only: processed_def simp_thms)
  obtain m2 d s2 where m2: "rm_policy m2 = rm_policy m" "rm_state m2 = s"
    and dec: "rate_decide r m2 = (d, s2)" "fst (rate_evaluate r m) = Inr d"
    and st: "rm_state (snd (rate_evaluate r m)) = s2"
      "rm_policy (snd (rate_evaluate r m)) = rm_policy m"
      "rm_lastActivityAtMs (snd (rate_evaluate r m)) = js_max (rm_lastActivityAtMs m) (rq_nowMs r)"
    using pr by (rule rate_evaluate_processed)
  obtain wi where wi: "jis (rq_weight r) wi" "0 < wi"
    using is_safe_integer_pos_cases [OF w] jis_Fin by metis
  obtain n k where k: "jis (rq_nowMs r) n" "0 \<le> k" "l0 + j * bs_interval b + k * bs_interval b \<le> n"
    "tokens s (min (bs_capacity b) (a + k * bs_refill b)) (l0 + j * bs_interval b + k * bs_interval b)"
    using rate_refill_tokens [OF sh t(1-3) s] by blast
  define a2 where "a2 = min (bs_capacity b) (a + k * bs_refill b)"
  have pos: "0 < bs_capacity b" "0 < bs_refill b" using sh by (auto simp: shaped_def)
  have a2: "0 \<le> a2" "a2 \<le> bs_capacity b" "a2 \<le> a + k * bs_refill b"
    using t(2) k(2) pos by (auto simp: a2_def)
  obtain v where v: "0 \<le> v" "v \<le> a2" "tokens s2 (a2 - v) (l0 + j * bs_interval b + k * bs_interval b)"
    "if rd_type d = RlAllow then v = wi else v = 0"
    using rate_decide_tokens [of b m2 a2 _ r wi d s2] sh k(4) a2(1,2) wi dec(1) m2
    by (auto simp: a2_def)
  have nv: "newly_allowed r m = of_int v"
    using dec(2) none v(4) wi(1) by (auto simp: newly_allowed_def jis_def)
  have l: "l0 + j * bs_interval b + k * bs_interval b = l0 + (j + k) * bs_interval b"
    by (simp add: algebra_simps)
  have sp: "spent + v + (a2 - v) \<le> bs_capacity b + bs_refill b * (j + k)"
    using t(5) a2(3) by (simp add: algebra_simps)
  have "jis (rm_lastActivityAtMs (snd (rate_evaluate r m))) (max z n)"
    unfolding st using z(1) k(1) by (rule jis_max)
  then have "bucket_inv b l0 (spent + v) (snd (rate_evaluate r m))"
    unfolding bucket_inv_def using sh st v a2 sp t(4) k(2,3) l
    by (intro conjI exI [of _ "a2 - v"] exI [of _ "j + k"] exI [of _ "max z n"]) auto
  then show ?thesis using nv by blast
qed

lemma rate_run_inv:
  "bucket_inv b l0 spent m \<Longrightarrow>
     \<exists>v. allowed_weight rs m = of_int v \<and> bucket_inv b l0 (spent + v) (rate_run rs m)"
proof (induction rs arbitrary: m spent)
  case Nil
  then show ?case by (intro exI [of _ 0]) simp
next
  case (Cons r rs)
  obtain v where v: "newly_allowed r m = of_int v" "bucket_inv b l0 (spent + v) (snd (rate_evaluate r m))"
    using rate_evaluate_inv [OF Cons.prems] by blast
  obtain u where "allowed_weight rs (snd (rate_evaluate r m)) = of_int u"
    "bucket_inv b l0 (spent + v + u) (rate_run rs (snd (rate_evaluate r m)))"
    using Cons.IH [OF v(2)] by blast
  then show ?case using v(1) by (intro exI [of _ "v + u"]) (simp add: add.assoc)
qed

text \<open>C2: Over any run of requests - replayed, malformed or with a clock that moves backwards - the
  weight a new token bucket allows is at most its capacity plus the refill rate times the time
  between its creation and its last refill, which is not after the newest request processed, and
  the tokens left are between zero and the capacity.\<close>
theorem rate_limit_bound:
  assumes "RateLimitManager_new p initialNowMs = Inr m"
  shows "allowed_weight rs m \<le> jval (rl_capacity p) + jval (rl_refillTokens p) *
      ((jval (rs_lastRefillAtMs (rm_state (rate_run rs m))) - jval initialNowMs) / jval (rl_refillIntervalMs p)) \<and>
    rs_lastRefillAtMs (rm_state (rate_run rs m)) \<le> rm_lastActivityAtMs (rate_run rs m) \<and>
    Fin 0 \<le> rs_availableTokens (rm_state (rate_run rs m)) \<and>
    rs_availableTokens (rm_state (rate_run rs m)) \<le> rl_capacity p"
proof -
  obtain u where g: "rate_assertPolicy p = Inr u" "is_safe_integer initialNowMs" "\<not> initialNowMs < Fin 0"
    and m: "m = \<lparr>rm_policy = p, rm_state = \<lparr>rs_availableTokens = rl_capacity p, rs_lastRefillAtMs = initialNowMs\<rparr>,
           rm_decisions = [], rm_decisionExpiryMs = [], rm_lastActivityAtMs = initialNowMs\<rparr>"
    using assms by (auto simp: RateLimitManager_new_def result_simps)
  obtain b where b: "shaped b p" using rate_assertPolicy_shaped [OF g(1)] ..
  obtain l0 where l0: "jis initialNowMs l0" "\<bar>l0\<bar> < 2 ^ 53" using g(2) by (auto simp: is_safe_integer_jis)
  have "0 \<le> l0" using g(3) jis_less [OF l0(1) jis_numeral(2)] by simp
  then have "bucket_inv b l0 0 m"
    using b l0 unfolding bucket_inv_def
    by (intro conjI exI [of _ "bs_capacity b"] exI [of _ 0] exI [of _ l0]) (auto simp: m tokens_def shaped_def)
  from rate_run_inv [OF this, of rs] obtain v where v: "allowed_weight rs m = of_int v"
    "bucket_inv b l0 v (rate_run rs m)" by auto
  then obtain a j z where f: "tokens (rm_state (rate_run rs m)) a (l0 + j * bs_interval b)" "0 \<le> a"
    "a \<le> bs_capacity b" "v + a \<le> bs_capacity b + bs_refill b * j"
    "jis (rm_lastActivityAtMs (rate_run rs m)) z" "l0 + j * bs_interval b \<le> z"
    by (auto simp: bucket_inv_def)
  have p: "jis (rl_capacity p) (bs_capacity b)" "jval (rl_refillTokens p) = of_int (bs_refill b)"
    "jval (rl_refillIntervalMs p) = of_int (bs_interval b)" "0 < bs_interval b"
    using b by (auto simp: shaped_def)
  have "v \<le> bs_capacity b + bs_refill b * j" using f(2,4) by simp
  then have "rat_of_int v \<le> of_int (bs_capacity b + bs_refill b * j)" by (simp only: of_int_le_iff)
  moreover have "(jval (rs_lastRefillAtMs (rm_state (rate_run rs m))) - jval initialNowMs) / jval (rl_refillIntervalMs p)
      = of_int j"
    using f(1) l0(1) p(3,4) by (simp add: tokens_def jis_def)
  moreover have "rs_lastRefillAtMs (rm_state (rate_run rs m)) \<le> rm_lastActivityAtMs (rate_run rs m)"
    "Fin 0 \<le> rs_availableTokens (rm_state (rate_run rs m))"
    "rs_availableTokens (rm_state (rate_run rs m)) \<le> rl_capacity p"
    using f(1-3,5,6) p(1) unfolding tokens_def by (metis jis_le jis_numeral(2))+
  ultimately show ?thesis using v(1) p by (simp add: jis_def)
qed

lemma rate_limit_bound_witness:
  "allowed_weight [\<lparr>rq_requestId = ''a'', rq_weight = Fin 2, rq_nowMs = Fin 0\<rparr>,
      \<lparr>rq_requestId = ''b'', rq_weight = Fin 2, rq_nowMs = Fin 20\<rparr>]
     \<lparr>rm_policy = \<lparr>rl_capacity = Fin 2, rl_refillTokens = Fin 1, rl_refillIntervalMs = Fin 10,
        rl_maximumQueueDelayMs = Fin 100, rl_maximumTrackedRequests = None, rl_decisionRetentionMs = None\<rparr>,
      rm_state = \<lparr>rs_availableTokens = Fin 2, rs_lastRefillAtMs = Fin 0\<rparr>,
      rm_decisions = [], rm_decisionExpiryMs = [], rm_lastActivityAtMs = Fin 0\<rparr> \<le> 2 + 1 * ((20 - 0) / 10)"
proof -
  let ?p = "\<lparr>rl_capacity = Fin 2, rl_refillTokens = Fin 1, rl_refillIntervalMs = Fin 10,
        rl_maximumQueueDelayMs = Fin 100, rl_maximumTrackedRequests = None, rl_decisionRetentionMs = None\<rparr>"
  let ?m = "\<lparr>rm_policy = ?p, rm_state = \<lparr>rs_availableTokens = Fin 2, rs_lastRefillAtMs = Fin 0\<rparr>,
      rm_decisions = [], rm_decisionExpiryMs = [], rm_lastActivityAtMs = Fin 0\<rparr>"
  let ?rs = "[\<lparr>rq_requestId = ''a'', rq_weight = Fin 2, rq_nowMs = Fin 0\<rparr>,
      \<lparr>rq_requestId = ''b'', rq_weight = Fin 2, rq_nowMs = Fin 20\<rparr>]"
  have n: "RateLimitManager_new ?p (Fin 0) = Inr ?m" by code_simp
  have l: "rs_lastRefillAtMs (rm_state (rate_run ?rs ?m)) = Fin 20" by code_simp
  show ?thesis using rate_limit_bound [OF n, of ?rs] unfolding l by simp
qed

end
