(* ===== verification/HardRisk.thy ===== *)
theory HardRisk imports Decimals begin

text \<open>
  \<open>apps/execution/src/hard-risk-gateway.ts\<close>: the hard risk gate.  Parameters: \<open>digest\<close>, the
  hash of the canonical JSON text of policy and input, \<open>sha\<close>, the hash of a string, and
  \<open>time_ok\<close>, whether \<open>Date.parse\<close> accepts a text.  The lemmas give the decision in terms of the
  exact numbers the texts denote.
\<close>

section \<open>Types\<close>

datatype hard_result = HrPass | HrReject | HrBlock | HrUnknown

datatype recon_health = RhMatch | RhDiff | RhUnknown

datatype market_health = MhHealthy | MhStale | MhDisconnected | MhUnknown

datatype runtime_health = RtSafe | RtDegraded | RtRestricted | RtHalt | RtUnknown

record hard_risk_policy =
  hp_policyVersion :: string
  hp_maxOrderNotional :: string
  hp_maxGlobalExposure :: string
  hp_maxStrategyExposure :: string
  hp_maxSymbolExposure :: string
  hp_maxDrawdown :: string
  hp_maxOpenOrders :: jsnum
  hp_maxPositionCount :: jsnum
  hp_maxConcentrationBps :: jsnum

record hard_risk_input =
  hi_requestedNotional :: string
  hi_globalExposure :: string
  hi_strategyExposure :: string
  hi_symbolExposure :: string
  hi_portfolioGrossExposure :: string
  hi_drawdown :: string
  hi_openOrders :: jsnum
  hi_positionCount :: jsnum
  hi_reconciliation :: recon_health
  hi_marketData :: market_health
  hi_runtime :: runtime_health
  hi_killSwitchActive :: bool

record hard_risk_decision =
  hd_decisionId :: string
  hd_result :: hard_result
  hd_policyVersion :: string
  hd_reasonCodes :: "string list"
  hd_observedAt :: string
  hd_inputDigest :: string

fun recon_name :: "recon_health \<Rightarrow> string" where
  "recon_name RhMatch = ''MATCH''" | "recon_name RhDiff = ''DIFF''" | "recon_name RhUnknown = ''UNKNOWN''"

fun market_name :: "market_health \<Rightarrow> string" where
  "market_name MhHealthy = ''HEALTHY''" | "market_name MhStale = ''STALE''"
| "market_name MhDisconnected = ''DISCONNECTED''" | "market_name MhUnknown = ''UNKNOWN''"

fun runtime_name :: "runtime_health \<Rightarrow> string" where
  "runtime_name RtSafe = ''SAFE''" | "runtime_name RtDegraded = ''DEGRADED''"
| "runtime_name RtRestricted = ''RESTRICTED''" | "runtime_name RtHalt = ''HALT''"
| "runtime_name RtUnknown = ''UNKNOWN''"

fun result_name :: "hard_result \<Rightarrow> string" where
  "result_name HrPass = ''PASS''" | "result_name HrReject = ''REJECT''"
| "result_name HrBlock = ''BLOCK''" | "result_name HrUnknown = ''UNKNOWN''"

section \<open>Decimals\<close>

definition risk_decimal_text :: "string \<Rightarrow> bool" where
  "risk_decimal_text s \<longleftrightarrow> decimal_text s \<and>
     (case fst (split_dot s) of c # _ # _ \<Rightarrow> c \<noteq> CHR ''0'' | _ \<Rightarrow> True)"

definition parseNonNegativeDecimal :: "string \<Rightarrow> dec result" where
  "parseNonNegativeDecimal s =
     guard_r (\<not> risk_decimal_text s) (Error ''INVALID_DECIMAL'') (Inr (parse_parts s))"

definition dec_align :: "dec \<Rightarrow> dec \<Rightarrow> int \<times> int" where
  "dec_align a b = (let scale = max (dec_scale a) (dec_scale b) in (scale_up scale a, scale_up scale b))"

definition dec_gt :: "dec \<Rightarrow> dec \<Rightarrow> bool" where
  "dec_gt a b = (case dec_align a b of (x, y) \<Rightarrow> y < x)"

definition dec_plus :: "dec \<Rightarrow> dec \<Rightarrow> dec" where
  "dec_plus a b =
     (case dec_align a b of (x, y) \<Rightarrow> \<lparr>dec_value = x + y, dec_scale = max (dec_scale a) (dec_scale b)\<rparr>)"

definition ratioBps :: "dec \<Rightarrow> dec \<Rightarrow> int option" where
  "ratioBps part whole =
     (if dec_value whole = 0 then (if dec_value part = 0 then Some 0 else None)
      else (case dec_align part whole of (p, w) \<Rightarrow> Some ((p * 10000 + w - 1) div w)))"

section \<open>The decision\<close>

definition hard_decision ::
  "(string \<Rightarrow> string) \<Rightarrow> string \<Rightarrow> hard_result \<Rightarrow> string list \<Rightarrow> string \<Rightarrow> string \<Rightarrow> hard_risk_decision" where
  "hard_decision sha policyVersion result reasons observedAt digest =
     (let reasonCodes = sort (set_of_list reasons);
          joined = concat (List.map (\<lambda>i. if i = 0 then reasonCodes ! i else CHR '','' # reasonCodes ! i) [0..<length reasonCodes])
      in \<lparr>hd_decisionId = sha (policyVersion @ ''|'' @ observedAt @ ''|'' @ digest @ ''|'' @ result_name result @ ''|'' @ joined),
          hd_result = result, hd_policyVersion = policyVersion, hd_reasonCodes = reasonCodes,
          hd_observedAt = observedAt, hd_inputDigest = digest\<rparr>)"

definition hard_metadata :: "(string \<Rightarrow> bool) \<Rightarrow> hard_risk_policy \<Rightarrow> hard_risk_input \<Rightarrow> string \<Rightarrow> unit result" where
  "hard_metadata time_ok p i observedAt =
     guard_r (blank (hp_policyVersion p) \<or> \<not> time_ok observedAt) (Error ''INVALID_METADATA'')
     (guard_r (\<not> is_integer (hp_maxOpenOrders p) \<or> hp_maxOpenOrders p < Fin 0
         \<or> \<not> is_integer (hp_maxPositionCount p) \<or> hp_maxPositionCount p < Fin 0) (Error ''INVALID_POLICY'')
     (guard_r (\<not> is_integer (hp_maxConcentrationBps p) \<or> hp_maxConcentrationBps p < Fin 0
         \<or> Fin 10000 < hp_maxConcentrationBps p) (Error ''INVALID_POLICY'')
     (guard_r (\<not> is_integer (hi_openOrders i) \<or> hi_openOrders i < Fin 0
         \<or> \<not> is_integer (hi_positionCount i) \<or> hi_positionCount i < Fin 0) (Error ''INVALID_INPUT'')
     (Inr ()))))"

definition hard_blocked :: "hard_risk_input \<Rightarrow> string list" where
  "hard_blocked i =
     (if hi_killSwitchActive i then [''KILL_SWITCH_ACTIVE''] else [])
     @ (if hi_reconciliation i \<noteq> RhMatch then [''RECONCILIATION_'' @ recon_name (hi_reconciliation i)] else [])
     @ (if hi_marketData i \<noteq> MhHealthy then [''MARKET_DATA_'' @ market_name (hi_marketData i)] else [])
     @ (if hi_runtime i \<noteq> RtSafe then [''RUNTIME_'' @ runtime_name (hi_runtime i)] else [])"

definition hard_rejected :: "hard_risk_policy \<Rightarrow> hard_risk_input \<Rightarrow> string list result" where
  "hard_rejected p i =
     bind_r (parseNonNegativeDecimal (hi_requestedNotional i)) (\<lambda>requested.
     bind_r (parseNonNegativeDecimal (hi_globalExposure i)) (\<lambda>global.
     bind_r (parseNonNegativeDecimal (hi_strategyExposure i)) (\<lambda>strategy.
     bind_r (parseNonNegativeDecimal (hi_symbolExposure i)) (\<lambda>symbol.
     bind_r (parseNonNegativeDecimal (hi_portfolioGrossExposure i)) (\<lambda>gross.
     bind_r (parseNonNegativeDecimal (hi_drawdown i)) (\<lambda>drawdown.
     bind_r (parseNonNegativeDecimal (hp_maxOrderNotional p)) (\<lambda>maxOrder.
     bind_r (parseNonNegativeDecimal (hp_maxGlobalExposure p)) (\<lambda>maxGlobal.
     bind_r (parseNonNegativeDecimal (hp_maxStrategyExposure p)) (\<lambda>maxStrategy.
     bind_r (parseNonNegativeDecimal (hp_maxSymbolExposure p)) (\<lambda>maxSymbol.
     bind_r (parseNonNegativeDecimal (hp_maxDrawdown p)) (\<lambda>maxDrawdown.
     Inr ((if dec_gt requested maxOrder then [''MAX_ORDER_NOTIONAL''] else [])
       @ (if dec_gt (dec_plus global requested) maxGlobal then [''MAX_GLOBAL_EXPOSURE''] else [])
       @ (if dec_gt (dec_plus strategy requested) maxStrategy then [''MAX_STRATEGY_EXPOSURE''] else [])
       @ (if dec_gt (dec_plus symbol requested) maxSymbol then [''MAX_SYMBOL_EXPOSURE''] else [])
       @ (if dec_gt drawdown maxDrawdown then [''MAX_DRAWDOWN''] else [])
       @ (if hp_maxOpenOrders p \<le> hi_openOrders i then [''MAX_OPEN_ORDERS''] else [])
       @ (if hp_maxPositionCount p \<le> hi_positionCount i then [''MAX_POSITION_COUNT''] else [])
       @ (case ratioBps (dec_plus symbol requested) (dec_plus gross requested) of
            None \<Rightarrow> [''MAX_CONCENTRATION'']
          | Some c \<Rightarrow> if \<lfloor>jval (hp_maxConcentrationBps p)\<rfloor> < c then [''MAX_CONCENTRATION''] else []))
     )))))))))))"

definition evaluateHardRisk ::
  "(hard_risk_policy \<Rightarrow> hard_risk_input \<Rightarrow> string) \<Rightarrow> (string \<Rightarrow> string) \<Rightarrow> (string \<Rightarrow> bool) \<Rightarrow>
    hard_risk_policy \<Rightarrow> hard_risk_input \<Rightarrow> string \<Rightarrow> hard_risk_decision" where
  "evaluateHardRisk digest sha time_ok p i observedAt =
     (let unknown = hard_decision sha (if hp_policyVersion p = [] then ''UNKNOWN'' else hp_policyVersion p)
            HrUnknown [''RISK_INPUT_OR_POLICY_UNKNOWN''] observedAt
      in case hard_metadata time_ok p i observedAt of
        Inl _ \<Rightarrow> unknown ''INVALID''
      | Inr _ \<Rightarrow>
        (let d = digest p i in
         case hard_rejected p i of
           Inl _ \<Rightarrow> unknown d
         | Inr rejected \<Rightarrow>
           (let blocked = hard_blocked i in
            if blocked \<noteq> [] then hard_decision sha (hp_policyVersion p) HrBlock (blocked @ rejected) observedAt d
            else if rejected \<noteq> [] then hard_decision sha (hp_policyVersion p) HrReject rejected observedAt d
            else hard_decision sha (hp_policyVersion p) HrPass [] observedAt d)))"

definition hard_assertPass :: "hard_risk_decision \<Rightarrow> unit result" where
  "hard_assertPass d =
     (if hd_result d \<noteq> HrPass then throw (''HARD_RISK_'' @ result_name (hd_result d) @ '':''
        @ concat (List.map (\<lambda>i. if i = 0 then hd_reasonCodes d ! i else CHR '','' # hd_reasonCodes d ! i)
            [0..<length (hd_reasonCodes d)]))
      else Inr ())"

section \<open>The decision over exact numbers\<close>

text \<open>The number a text denotes.\<close>

definition amount :: "string \<Rightarrow> rat" where
  "amount s = dec_rat (parse_parts s)"

definition risk_texts :: "hard_risk_policy \<Rightarrow> hard_risk_input \<Rightarrow> string list" where
  "risk_texts p i =
     [hi_requestedNotional i, hi_globalExposure i, hi_strategyExposure i, hi_symbolExposure i,
      hi_portfolioGrossExposure i, hi_drawdown i, hp_maxOrderNotional p, hp_maxGlobalExposure p,
      hp_maxStrategyExposure p, hp_maxSymbolExposure p, hp_maxDrawdown p]"

definition within_limits :: "hard_risk_policy \<Rightarrow> hard_risk_input \<Rightarrow> bool" where
  "within_limits p i \<longleftrightarrow>
     (let requested = amount (hi_requestedNotional i) in
      requested \<le> amount (hp_maxOrderNotional p) \<and>
      amount (hi_globalExposure i) + requested \<le> amount (hp_maxGlobalExposure p) \<and>
      amount (hi_strategyExposure i) + requested \<le> amount (hp_maxStrategyExposure p) \<and>
      amount (hi_symbolExposure i) + requested \<le> amount (hp_maxSymbolExposure p) \<and>
      amount (hi_drawdown i) \<le> amount (hp_maxDrawdown p) \<and>
      jval (hi_openOrders i) < jval (hp_maxOpenOrders p) \<and>
      jval (hi_positionCount i) < jval (hp_maxPositionCount p) \<and>
      (amount (hi_symbolExposure i) + requested) * 10000
        \<le> jval (hp_maxConcentrationBps p) * (amount (hi_portfolioGrossExposure i) + requested))"

lemma parseNonNegativeDecimal_Inr [result_simps]:
  "parseNonNegativeDecimal s = Inr d \<longleftrightarrow> risk_decimal_text s \<and> d = parse_parts s"
  by (auto simp: parseNonNegativeDecimal_def result_simps)

lemma dec_gt_rat: "dec_gt a b \<longleftrightarrow> dec_rat b < dec_rat a"
  by (simp add: dec_gt_def dec_align_def Let_def scale_up_less_iff)

lemma dec_plus_rat: "dec_rat (dec_plus a b) = dec_rat a + dec_rat b"
proof -
  define n where "n = max (dec_scale a) (dec_scale b)"
  have "(of_int (scale_up n a + scale_up n b) :: rat) = (dec_rat a + dec_rat b) * 10 ^ n"
    by (simp add: scale_up_rat n_def algebra_simps)
  moreover have "dec_rat (dec_plus a b) = of_int (scale_up n a + scale_up n b) / 10 ^ n"
    by (simp only: dec_rat_def dec_plus_def dec_align_def Let_def prod.case dec.simps n_def)
  ultimately show ?thesis by simp
qed

lemma dec_value_zero_iff: "dec_value d = 0 \<longleftrightarrow> dec_rat d = 0"
  by (simp add: dec_rat_def)

lemma ceil_div_le_iff:
  assumes "0 < (w :: int)"
  shows "(x + w - 1) div w \<le> k \<longleftrightarrow> x \<le> k * w"
proof -
  have "(x + w - 1) div w \<le> k \<longleftrightarrow> \<lfloor>rat_of_int (x + w - 1) / of_int w\<rfloor> < k + 1"
    by (simp only: floor_divide_of_int_eq zless_add1_eq le_less)
  also have "\<dots> \<longleftrightarrow> rat_of_int (x + w - 1) < of_int ((k + 1) * w)"
    using assms by (simp only: floor_less_iff pos_divide_less_eq of_int_0_less_iff of_int_mult)
  also have "\<dots> \<longleftrightarrow> x + w - 1 < (k + 1) * w" by (simp only: of_int_less_iff)
  also have "\<dots> \<longleftrightarrow> x \<le> k * w" by (simp add: distrib_right) linarith
  finally show ?thesis .
qed

lemma ratioBps_le_iff:
  assumes "0 \<le> dec_rat part" "0 \<le> dec_rat whole"
  shows "(case ratioBps part whole of None \<Rightarrow> False | Some c \<Rightarrow> c \<le> k) \<longleftrightarrow>
    dec_rat part * 10000 \<le> of_int k * dec_rat whole \<and> (dec_rat whole = 0 \<longrightarrow> 0 \<le> k)"
proof (cases "dec_rat whole = 0")
  case True
  then show ?thesis using assms
    by (auto simp: ratioBps_def dec_value_zero_iff)
next
  case False
  define n where "n = max (dec_scale part) (dec_scale whole)"
  have P: "(of_int (scale_up n part) :: rat) = dec_rat part * 10 ^ n"
    and Wh: "(of_int (scale_up n whole) :: rat) = dec_rat whole * 10 ^ n"
    by (simp_all add: scale_up_rat n_def)
  have "(0 :: rat) < of_int (scale_up n whole)" using False assms(2) by (simp add: Wh)
  then have w: "0 < scale_up n whole" by (simp only: of_int_0_less_iff)
  have "(case ratioBps part whole of None \<Rightarrow> False | Some c \<Rightarrow> c \<le> k) \<longleftrightarrow>
      scale_up n part * 10000 \<le> k * scale_up n whole"
    using False w by (simp add: ratioBps_def dec_value_zero_iff dec_align_def Let_def n_def ceil_div_le_iff)
  also have "\<dots> \<longleftrightarrow> rat_of_int (scale_up n part * 10000) \<le> of_int (k * scale_up n whole)"
    by (simp only: of_int_le_iff)
  also have "\<dots> \<longleftrightarrow> (dec_rat part * 10000) * 10 ^ n \<le> (of_int k * dec_rat whole) * 10 ^ n"
    by (simp only: of_int_mult P Wh of_int_numeral) (simp add: mult_ac)
  finally show ?thesis using False by simp
qed

lemma amount_nonneg: "0 \<le> amount s"
  by (simp add: amount_def dec_rat_def dec_value_nonneg)

lemma is_integer_int: "is_integer a \<Longrightarrow> jval a = of_int \<lfloor>jval a\<rfloor>"
  by (simp only: is_integer_def)

definition hard_valid :: "(string \<Rightarrow> bool) \<Rightarrow> hard_risk_policy \<Rightarrow> hard_risk_input \<Rightarrow> string \<Rightarrow> bool" where
  "hard_valid time_ok p i observedAt \<longleftrightarrow>
     \<not> blank (hp_policyVersion p) \<and> time_ok observedAt \<and>
     (\<forall>n \<in> {hp_maxOpenOrders p, hp_maxPositionCount p, hp_maxConcentrationBps p, hi_openOrders i, hi_positionCount i}.
        is_integer n \<and> Fin 0 \<le> n) \<and> hp_maxConcentrationBps p \<le> Fin 10000 \<and>
     (\<forall>s \<in> set (risk_texts p i). risk_decimal_text s)"

lemma is_integer_not_less: "is_integer n \<Longrightarrow> n < Fin 0 \<longleftrightarrow> \<not> Fin 0 \<le> n"
  "is_integer n \<Longrightarrow> Fin 10000 < n \<longleftrightarrow> \<not> n \<le> Fin 10000"
  by (auto simp: is_integer_def less_jsnum_def)

lemma hard_metadata_Inr:
  "hard_metadata time_ok p i t = Inr u \<longleftrightarrow> \<not> blank (hp_policyVersion p) \<and> time_ok t \<and>
     (\<forall>n \<in> {hp_maxOpenOrders p, hp_maxPositionCount p, hp_maxConcentrationBps p, hi_openOrders i, hi_positionCount i}.
        is_integer n \<and> Fin 0 \<le> n) \<and> hp_maxConcentrationBps p \<le> Fin 10000"
  by (auto simp: hard_metadata_def result_simps is_integer_not_less)

lemma hard_rejected_parses:
  "(\<exists>r. hard_rejected p i = Inr r) \<longleftrightarrow> (\<forall>s \<in> set (risk_texts p i). risk_decimal_text s)"
  by (simp add: hard_rejected_def result_simps risk_texts_def)

lemma hard_rejected_empty:
  assumes "hard_rejected p i = Inr r" "hard_metadata time_ok p i t = Inr u"
  shows "r = [] \<longleftrightarrow> within_limits p i"
proof -
  define q where "q = amount (hi_requestedNotional i)"
  define bps where "bps = \<lfloor>jval (hp_maxConcentrationBps p)\<rfloor>"
  have m: "is_integer n \<and> Fin 0 \<le> n" if "n \<in> {hp_maxOpenOrders p, hp_maxPositionCount p, hp_maxConcentrationBps p,
      hi_openOrders i, hi_positionCount i}" for n
    using assms(2) that unfolding hard_metadata_Inr by blast
  then have fin: "is_finite (hp_maxOpenOrders p)" "is_finite (hp_maxPositionCount p)"
    "is_finite (hi_openOrders i)" "is_finite (hi_positionCount i)"
    by (auto simp: is_integer_def)
  have b: "jval (hp_maxConcentrationBps p) = of_int bps" "0 \<le> bps"
    using m [of "hp_maxConcentrationBps p"] is_integer_int [of "hp_maxConcentrationBps p"]
    by (auto simp: bps_def is_integer_def jle_finite)
  have pr: "dec_rat (dec_plus (parse_parts (hi_symbolExposure i)) (parse_parts (hi_requestedNotional i)))
      = amount (hi_symbolExposure i) + q"
    "dec_rat (dec_plus (parse_parts (hi_portfolioGrossExposure i)) (parse_parts (hi_requestedNotional i)))
      = amount (hi_portfolioGrossExposure i) + q"
    by (simp_all add: dec_plus_rat amount_def q_def)
  have conc: "(case ratioBps (dec_plus (parse_parts (hi_symbolExposure i)) (parse_parts (hi_requestedNotional i)))
        (dec_plus (parse_parts (hi_portfolioGrossExposure i)) (parse_parts (hi_requestedNotional i))) of
        None \<Rightarrow> [''MAX_CONCENTRATION''] | Some c \<Rightarrow> if bps < c then [''MAX_CONCENTRATION''] else []) = [] \<longleftrightarrow>
      (amount (hi_symbolExposure i) + q) * 10000 \<le> of_int bps * (amount (hi_portfolioGrossExposure i) + q)"
    using ratioBps_le_iff [of "dec_plus (parse_parts (hi_symbolExposure i)) (parse_parts (hi_requestedNotional i))"
        "dec_plus (parse_parts (hi_portfolioGrossExposure i)) (parse_parts (hi_requestedNotional i))" bps]
      amount_nonneg b(2)
    by (cases "ratioBps (dec_plus (parse_parts (hi_symbolExposure i)) (parse_parts (hi_requestedNotional i)))
        (dec_plus (parse_parts (hi_portfolioGrossExposure i)) (parse_parts (hi_requestedNotional i)))")
      (simp_all add: pr q_def flip: not_le)
  have "r = (if dec_gt (parse_parts (hi_requestedNotional i)) (parse_parts (hp_maxOrderNotional p)) then [''MAX_ORDER_NOTIONAL''] else [])
       @ (if dec_gt (dec_plus (parse_parts (hi_globalExposure i)) (parse_parts (hi_requestedNotional i))) (parse_parts (hp_maxGlobalExposure p)) then [''MAX_GLOBAL_EXPOSURE''] else [])
       @ (if dec_gt (dec_plus (parse_parts (hi_strategyExposure i)) (parse_parts (hi_requestedNotional i))) (parse_parts (hp_maxStrategyExposure p)) then [''MAX_STRATEGY_EXPOSURE''] else [])
       @ (if dec_gt (dec_plus (parse_parts (hi_symbolExposure i)) (parse_parts (hi_requestedNotional i))) (parse_parts (hp_maxSymbolExposure p)) then [''MAX_SYMBOL_EXPOSURE''] else [])
       @ (if dec_gt (parse_parts (hi_drawdown i)) (parse_parts (hp_maxDrawdown p)) then [''MAX_DRAWDOWN''] else [])
       @ (if hp_maxOpenOrders p \<le> hi_openOrders i then [''MAX_OPEN_ORDERS''] else [])
       @ (if hp_maxPositionCount p \<le> hi_positionCount i then [''MAX_POSITION_COUNT''] else [])
       @ (case ratioBps (dec_plus (parse_parts (hi_symbolExposure i)) (parse_parts (hi_requestedNotional i)))
            (dec_plus (parse_parts (hi_portfolioGrossExposure i)) (parse_parts (hi_requestedNotional i))) of
            None \<Rightarrow> [''MAX_CONCENTRATION''] | Some c \<Rightarrow> if bps < c then [''MAX_CONCENTRATION''] else [])"
    using assms(1) unfolding hard_rejected_def bind_r_Inr_iff parseNonNegativeDecimal_Inr bps_def
    by (elim exE conjE) (simp only: sum.inject)
  then have "r = [] \<longleftrightarrow> \<not> dec_gt (parse_parts (hi_requestedNotional i)) (parse_parts (hp_maxOrderNotional p)) \<and>
      \<not> dec_gt (dec_plus (parse_parts (hi_globalExposure i)) (parse_parts (hi_requestedNotional i))) (parse_parts (hp_maxGlobalExposure p)) \<and>
      \<not> dec_gt (dec_plus (parse_parts (hi_strategyExposure i)) (parse_parts (hi_requestedNotional i))) (parse_parts (hp_maxStrategyExposure p)) \<and>
      \<not> dec_gt (dec_plus (parse_parts (hi_symbolExposure i)) (parse_parts (hi_requestedNotional i))) (parse_parts (hp_maxSymbolExposure p)) \<and>
      \<not> dec_gt (parse_parts (hi_drawdown i)) (parse_parts (hp_maxDrawdown p)) \<and>
      \<not> hp_maxOpenOrders p \<le> hi_openOrders i \<and> \<not> hp_maxPositionCount p \<le> hi_positionCount i \<and>
      (amount (hi_symbolExposure i) + q) * 10000 \<le> of_int bps * (amount (hi_portfolioGrossExposure i) + q)"
    by (simp only: append_is_Nil_conv conc) simp
  then show ?thesis
    using fin by (simp add: within_limits_def dec_gt_rat dec_plus_rat amount_def [symmetric] q_def [symmetric]
        not_less not_le b(1) jle_finite Let_def)
qed

lemma evaluateHardRisk_result:
  "hd_result (evaluateHardRisk digest sha time_ok p i observedAt) =
     (if \<not> hard_valid time_ok p i observedAt then HrUnknown
      else if hi_killSwitchActive i \<or> hi_reconciliation i \<noteq> RhMatch \<or> hi_marketData i \<noteq> MhHealthy
        \<or> hi_runtime i \<noteq> RtSafe then HrBlock
      else if within_limits p i then HrPass else HrReject)"
proof (cases "hard_metadata time_ok p i observedAt")
  case (Inl e)
  then have "\<not> hard_valid time_ok p i observedAt"
    using hard_metadata_Inr [of time_ok p i observedAt "()"] by (auto simp: hard_valid_def)
  then show ?thesis using Inl by (simp add: evaluateHardRisk_def hard_decision_def Let_def)
next
  case (Inr u)
  show ?thesis
  proof (cases "hard_rejected p i")
    case (Inl e)
    then have "\<not> hard_valid time_ok p i observedAt"
      using hard_rejected_parses [of p i] by (auto simp: hard_valid_def)
    then show ?thesis using Inl Inr by (simp add: evaluateHardRisk_def hard_decision_def Let_def)
  next
    fix r assume r: "hard_rejected p i = Inr r"
    then have "hard_valid time_ok p i observedAt"
      using hard_rejected_parses [of p i] Inr [unfolded hard_metadata_Inr] unfolding hard_valid_def by blast
    moreover have "hard_blocked i \<noteq> [] \<longleftrightarrow> hi_killSwitchActive i \<or> hi_reconciliation i \<noteq> RhMatch \<or>
        hi_marketData i \<noteq> MhHealthy \<or> hi_runtime i \<noteq> RtSafe"
      by (simp add: hard_blocked_def)
    ultimately show ?thesis
      using hard_rejected_empty [OF r Inr] r Inr
      by (simp add: evaluateHardRisk_def hard_decision_def Let_def)
  qed
qed

text \<open>The gate decides exactly: malformed metadata, counts or amounts give UNKNOWN; otherwise an
  active kill switch or any input that is not healthy gives BLOCK, whatever the amounts; otherwise
  PASS exactly when every limit holds over the exact decimals, with the exposure after the order
  and the concentration in basis points compared without rounding; and REJECT in the rest.\<close>
theorem hard_risk_decides:
  "hd_result (evaluateHardRisk digest sha time_ok p i observedAt) =
     (if hard_valid time_ok p i observedAt
      then (if \<not> hi_killSwitchActive i \<and> hi_reconciliation i = RhMatch \<and> hi_marketData i = MhHealthy \<and> hi_runtime i = RtSafe
            then (if within_limits p i then HrPass else HrReject)
            else HrBlock)
      else HrUnknown)"
  unfolding evaluateHardRisk_result by simp

text \<open>A caller that asserts the decision goes on only for an order that is valid, observed in a
  healthy and reconciled system with the kill switch off, and within every limit.\<close>
theorem hard_assertPass_sound:
  assumes "hard_assertPass (evaluateHardRisk digest sha time_ok p i observedAt) = Inr ()"
  shows "hard_valid time_ok p i observedAt \<and> within_limits p i \<and> \<not> hi_killSwitchActive i \<and>
    hi_reconciliation i = RhMatch \<and> hi_marketData i = MhHealthy \<and> hi_runtime i = RtSafe"
proof -
  have "hd_result (evaluateHardRisk digest sha time_ok p i observedAt) = HrPass"
    using assms by (auto simp: hard_assertPass_def split: if_splits)
  moreover have "hd_result (evaluateHardRisk digest sha time_ok p i observedAt) =
     (if \<not> hard_valid time_ok p i observedAt then HrUnknown
      else if hi_killSwitchActive i \<or> hi_reconciliation i \<noteq> RhMatch \<or> hi_marketData i \<noteq> MhHealthy
        \<or> hi_runtime i \<noteq> RtSafe then HrBlock
      else if within_limits p i then HrPass else HrReject)"
    by (rule evaluateHardRisk_result)
  ultimately show ?thesis by (auto split: if_splits)
qed

lemma hard_assertPass_sound_witness:
  "within_limits
     \<lparr>hp_policyVersion = ''v1'', hp_maxOrderNotional = ''10.5'', hp_maxGlobalExposure = ''100'', hp_maxStrategyExposure = ''50'',
      hp_maxSymbolExposure = ''30'', hp_maxDrawdown = ''5'', hp_maxOpenOrders = Fin 3, hp_maxPositionCount = Fin 3,
      hp_maxConcentrationBps = Fin 5000\<rparr>
     \<lparr>hi_requestedNotional = ''10'', hi_globalExposure = ''40'', hi_strategyExposure = ''20'', hi_symbolExposure = ''10'',
      hi_portfolioGrossExposure = ''40'', hi_drawdown = ''0'', hi_openOrders = Fin 2, hi_positionCount = Fin 1,
      hi_reconciliation = RhMatch, hi_marketData = MhHealthy, hi_runtime = RtSafe, hi_killSwitchActive = False\<rparr>"
proof -
  have "hard_assertPass (evaluateHardRisk (\<lambda>_ _. ''d'') (\<lambda>s. s) (\<lambda>_. True)
     \<lparr>hp_policyVersion = ''v1'', hp_maxOrderNotional = ''10.5'', hp_maxGlobalExposure = ''100'', hp_maxStrategyExposure = ''50'',
      hp_maxSymbolExposure = ''30'', hp_maxDrawdown = ''5'', hp_maxOpenOrders = Fin 3, hp_maxPositionCount = Fin 3,
      hp_maxConcentrationBps = Fin 5000\<rparr>
     \<lparr>hi_requestedNotional = ''10'', hi_globalExposure = ''40'', hi_strategyExposure = ''20'', hi_symbolExposure = ''10'',
      hi_portfolioGrossExposure = ''40'', hi_drawdown = ''0'', hi_openOrders = Fin 2, hi_positionCount = Fin 1,
      hi_reconciliation = RhMatch, hi_marketData = MhHealthy, hi_runtime = RtSafe, hi_killSwitchActive = False\<rparr> ''t'') = Inr ()"
    by code_simp
  from hard_assertPass_sound [OF this] show ?thesis by blast
qed

end
