(* ===== verification/KillSwitch.thy ===== *)
theory KillSwitch imports HardRisk begin

text \<open>
  \<open>apps/execution/src/latched-kill-switch.ts\<close>: the kill switch that latches when triggered and is
  released by two distinct human approvers over safe evidence.  Parameters: \<open>time_ok\<close>, whether
  \<open>Date.parse\<close> accepts a text, and the optional evidence sink, an \<open>append\<close> on a state of its own
  that may throw.  A method returns its result, the object's snapshot and the sink's state: a throw
  leaves what was written before it.
\<close>

section \<open>Types\<close>

datatype kill_reason =
  KrManualStop | KrHardRiskBlock | KrHardRiskUnknown | KrReconciliationDiff | KrReconciliationUnknown
| KrMarketDataStale | KrMarketDataDisconnected | KrRuntimeUnsafe | KrUnknownExecutionState

record kill_snapshot =
  ks_active :: bool
  ks_reasons :: "kill_reason list"
  ks_activatedAt :: "string option"
  ks_updatedAt :: string
  ks_generation :: jsnum

record human_approver =
  ha_id :: string
  ha_kind :: string

record release_evidence =
  re_operationalState :: runtime_health
  re_hardRisk :: hard_result
  re_reconciliation :: recon_health
  re_marketData :: market_health
  re_unresolvedExecutionCount :: jsnum

datatype kill_event_type = KeTriggered | KeReleased

record kill_event =
  ke_type :: kill_event_type
  ke_observedAt :: string
  ke_generation :: jsnum
  ke_reasons :: "kill_reason list"
  ke_approvers :: "string list option"

type_synonym 'w evidence_sink = "kill_event \<Rightarrow> 'w \<Rightarrow> unit result \<times> 'w"

fun kill_reason_name :: "kill_reason \<Rightarrow> string" where
  "kill_reason_name KrManualStop = ''MANUAL_STOP''"
| "kill_reason_name KrHardRiskBlock = ''HARD_RISK_BLOCK''"
| "kill_reason_name KrHardRiskUnknown = ''HARD_RISK_UNKNOWN''"
| "kill_reason_name KrReconciliationDiff = ''RECONCILIATION_DIFF''"
| "kill_reason_name KrReconciliationUnknown = ''RECONCILIATION_UNKNOWN''"
| "kill_reason_name KrMarketDataStale = ''MARKET_DATA_STALE''"
| "kill_reason_name KrMarketDataDisconnected = ''MARKET_DATA_DISCONNECTED''"
| "kill_reason_name KrRuntimeUnsafe = ''RUNTIME_UNSAFE''"
| "kill_reason_name KrUnknownExecutionState = ''UNKNOWN_EXECUTION_STATE''"

section \<open>Operations\<close>

type_synonym 'w kill_outcome = "kill_snapshot result \<times> kill_snapshot \<times> 'w"

definition LatchedKillSwitch_new :: "(string \<Rightarrow> bool) \<Rightarrow> string \<Rightarrow> kill_snapshot result" where
  "LatchedKillSwitch_new time_ok now =
     guard_r (\<not> time_ok now) (Error ''INVALID_KILL_SWITCH_TIME'')
     (Inr \<lparr>ks_active = False, ks_reasons = [], ks_activatedAt = None, ks_updatedAt = now, ks_generation = Fin 0\<rparr>)"

definition append_evidence :: "'w evidence_sink option \<Rightarrow> kill_event \<Rightarrow> 'w \<Rightarrow> unit result \<times> 'w" where
  "append_evidence sink e w = (case sink of None \<Rightarrow> (Inr (), w) | Some put \<Rightarrow> put e w)"

definition kill_trigger ::
  "(string \<Rightarrow> bool) \<Rightarrow> 'w evidence_sink option \<Rightarrow> kill_reason \<Rightarrow> string \<Rightarrow> kill_snapshot \<Rightarrow> 'w \<Rightarrow> 'w kill_outcome" where
  "kill_trigger time_ok sink reason now s w =
     (if \<not> time_ok now then (throw ''INVALID_KILL_SWITCH_TIME'', s, w)
      else let reasons = sort_key kill_reason_name (set_of_list (ks_reasons s @ [reason]));
               generation = (if ks_active s then ks_generation s else ks_generation s + Fin 1);
               t = \<lparr>ks_active = True, ks_reasons = reasons,
                    ks_activatedAt = (case ks_activatedAt s of None \<Rightarrow> Some now | Some a \<Rightarrow> Some a),
                    ks_updatedAt = now, ks_generation = generation\<rparr>;
               (r, w2) = append_evidence sink \<lparr>ke_type = KeTriggered, ke_observedAt = now,
                    ke_generation = generation, ke_reasons = reasons, ke_approvers = None\<rparr> w
           in (bind_r r (\<lambda>_. Inr t), t, w2))"

definition release_ok :: "human_approver list \<Rightarrow> release_evidence \<Rightarrow> unit result" where
  "release_ok approvers safety =
     guard_r (length approvers \<noteq> 2
         \<or> (\<exists>x \<in> set approvers. ha_kind x \<noteq> ''HUMAN'' \<or> blank (ha_id x))
         \<or> map_option ha_id (js_index approvers (Fin 0)) = map_option ha_id (js_index approvers (Fin 1)))
       (Error ''KILL_SWITCH_TWO_HUMAN_APPROVERS_REQUIRED'')
     (guard_r (\<not> is_integer (re_unresolvedExecutionCount safety) \<or> re_unresolvedExecutionCount safety < Fin 0)
       (Error ''KILL_SWITCH_RELEASE_EVIDENCE_UNKNOWN'')
     (guard_r (re_operationalState safety \<noteq> RtSafe \<or> re_hardRisk safety \<noteq> HrPass
         \<or> re_reconciliation safety \<noteq> RhMatch \<or> re_marketData safety \<noteq> MhHealthy
         \<or> \<not> js_eq (re_unresolvedExecutionCount safety) (Fin 0))
       (Error ''KILL_SWITCH_RELEASE_UNSAFE'')
     (Inr ())))"

definition kill_release ::
  "(string \<Rightarrow> bool) \<Rightarrow> 'w evidence_sink option \<Rightarrow> human_approver list \<Rightarrow> release_evidence \<Rightarrow> string \<Rightarrow>
    kill_snapshot \<Rightarrow> 'w \<Rightarrow> 'w kill_outcome" where
  "kill_release time_ok sink approvers safety now s w =
     (if \<not> ks_active s then (Inr s, s, w)
      else if \<not> time_ok now then (throw ''INVALID_KILL_SWITCH_TIME'', s, w)
      else case release_ok approvers safety of
        Inl e \<Rightarrow> (Inl e, s, w)
      | Inr _ \<Rightarrow>
        (let ids = sort (map ha_id approvers);
             t = \<lparr>ks_active = False, ks_reasons = [], ks_activatedAt = None, ks_updatedAt = now,
                  ks_generation = ks_generation s\<rparr>;
             (r, w2) = append_evidence sink \<lparr>ke_type = KeReleased, ke_observedAt = now,
                  ke_generation = ks_generation s, ke_reasons = ks_reasons s, ke_approvers = Some ids\<rparr> w
         in case r of Inl e \<Rightarrow> (Inl e, s, w2) | Inr _ \<Rightarrow> (Inr t, t, w2)))"

definition restorable :: "(string \<Rightarrow> bool) \<Rightarrow> kill_snapshot \<Rightarrow> bool" where
  "restorable time_ok t \<longleftrightarrow>
     time_ok (ks_updatedAt t) \<and> (case ks_activatedAt t of None \<Rightarrow> True | Some a \<Rightarrow> time_ok a) \<and>
     is_integer (ks_generation t) \<and> \<not> ks_generation t < Fin 0 \<and>
     (ks_active t \<longrightarrow> ks_activatedAt t \<notin> {None, Some []} \<and> ks_reasons t \<noteq> []) \<and>
     (\<not> ks_active t \<longrightarrow> ks_activatedAt t = None \<and> ks_reasons t = [])"

definition kill_restore :: "(string \<Rightarrow> bool) \<Rightarrow> kill_snapshot \<Rightarrow> kill_snapshot \<Rightarrow> unit result \<times> kill_snapshot" where
  "kill_restore time_ok t s =
     (if \<not> restorable time_ok t then (throw ''INVALID_KILL_SWITCH_SNAPSHOT'', s) else (Inr (), t))"

section \<open>The switch as a state machine\<close>

datatype kill_call =
  KcTrigger kill_reason string | KcRelease "human_approver list" release_evidence string | KcRestore kill_snapshot

fun kill_apply ::
  "(string \<Rightarrow> bool) \<Rightarrow> 'w evidence_sink option \<Rightarrow> kill_call \<Rightarrow> kill_snapshot \<times> 'w \<Rightarrow> kill_snapshot \<times> 'w" where
  "kill_apply time_ok sink (KcTrigger reason now) (s, w) = snd (kill_trigger time_ok sink reason now s w)"
| "kill_apply time_ok sink (KcRelease approvers safety now) (s, w) =
     snd (kill_release time_ok sink approvers safety now s w)"
| "kill_apply time_ok sink (KcRestore t) (s, w) = (snd (kill_restore time_ok t s), w)"

inductive kill_reachable ::
  "(string \<Rightarrow> bool) \<Rightarrow> 'w evidence_sink option \<Rightarrow> kill_snapshot \<times> 'w \<Rightarrow> bool"
  for time_ok sink where
  kill_start: "LatchedKillSwitch_new time_ok now = Inr s \<Longrightarrow> kill_reachable time_ok sink (s, w)"
| kill_call: "kill_reachable time_ok sink c \<Longrightarrow> kill_reachable time_ok sink (kill_apply time_ok sink call c)"

inductive_cases kill_reachable_cases: "kill_reachable time_ok sink c"

definition kill_consistent :: "kill_snapshot \<Rightarrow> bool" where
  "kill_consistent s \<longleftrightarrow> (ks_active s \<longleftrightarrow> ks_reasons s \<noteq> []) \<and> (ks_active s \<longleftrightarrow> ks_activatedAt s \<noteq> None)"

definition two_humans :: "human_approver list \<Rightarrow> bool" where
  "two_humans approvers \<longleftrightarrow>
     (\<exists>a b. approvers = [a, b] \<and> ha_kind a = ''HUMAN'' \<and> ha_kind b = ''HUMAN'' \<and> \<not> blank (ha_id a) \<and>
        \<not> blank (ha_id b) \<and> ha_id a \<noteq> ha_id b)"

definition safe_evidence :: "release_evidence \<Rightarrow> bool" where
  "safe_evidence e \<longleftrightarrow> re_operationalState e = RtSafe \<and> re_hardRisk e = HrPass \<and> re_reconciliation e = RhMatch \<and>
     re_marketData e = MhHealthy \<and> jis (re_unresolvedExecutionCount e) 0"

lemma release_ok_Inr [result_simps]:
  "release_ok approvers safety = Inr u \<longleftrightarrow> two_humans approvers \<and> safe_evidence safety"
proof -
  have z: "is_integer x \<and> \<not> x < Fin 0 \<and> js_eq x (Fin 0) \<longleftrightarrow> jis x 0" for x
    by (cases x) (auto simp: jis_def is_integer_def)
  have a: "length approvers = 2 \<and> (\<forall>x \<in> set approvers. ha_kind x = ''HUMAN'' \<and> \<not> blank (ha_id x)) \<and>
      map_option ha_id (js_index approvers (Fin 0)) \<noteq> map_option ha_id (js_index approvers (Fin 1)) \<longleftrightarrow>
      two_humans approvers"
    using js_index_of_nat [of approvers 0] js_index_of_nat [of approvers 1]
    by (auto simp: two_humans_def length_Suc_conv numeral_2_eq_2)
  show ?thesis
    unfolding release_ok_def guard_r_Inr_iff safe_evidence_def a [symmetric] z [symmetric] by auto
qed

lemma sorted_set_nonempty: "xs \<noteq> [] \<Longrightarrow> sort_key f (set_of_list xs) \<noteq> []"
  by (metis set_empty set_set_of_list set_sort)

lemma kill_trigger_consistent: "kill_consistent s \<Longrightarrow> kill_consistent (fst (snd (kill_trigger time_ok sink r now s w)))"
  using sorted_set_nonempty [of "ks_reasons s @ [r]" kill_reason_name]
  by (auto simp: kill_trigger_def kill_consistent_def Let_def split: prod.split option.split)

lemma kill_release_consistent:
  "kill_consistent s \<Longrightarrow> kill_consistent (fst (snd (kill_release time_ok sink a e now s w)))"
  by (auto simp: kill_release_def kill_consistent_def Let_def split: prod.split sum.split)

lemma kill_restore_consistent: "kill_consistent s \<Longrightarrow> kill_consistent (snd (kill_restore time_ok t s))"
  by (auto simp: kill_restore_def kill_consistent_def restorable_def)

lemma kill_apply_consistent:
  "kill_consistent s \<Longrightarrow> kill_consistent (fst (kill_apply time_ok sink call (s, w)))"
  by (cases call)
    (simp_all add: kill_trigger_consistent kill_release_consistent kill_restore_consistent)

lemma kill_reachable_consistent: "kill_reachable time_ok sink c \<Longrightarrow> kill_consistent (fst c)"
proof (induction rule: kill_reachable.induct)
  case (kill_start now s w)
  then show ?case by (auto simp: LatchedKillSwitch_new_def result_simps kill_consistent_def)
next
  case (kill_call c call)
  then show ?case using kill_apply_consistent [of "fst c"] by (metis prod.collapse)
qed

text \<open>C3: The switch latches: from any reachable state in which it is active, one call makes it inactive
  only if it is a release signed by exactly two different named humans over evidence that is safe,
  reconciled, healthy and without unresolved executions, at a valid time and with its release event
  appended, or the restoration of a well-formed inactive snapshot.  An active switch always has a
  reason and an activation time, an inactive one has neither.\<close>
theorem kill_switch_latches:
  assumes "kill_reachable time_ok sink (s, w)"
  shows "kill_consistent s \<and>
    (ks_active s \<and> \<not> ks_active (fst (kill_apply time_ok sink call (s, w))) \<longrightarrow>
      (case call of
         KcTrigger _ _ \<Rightarrow> False
       | KcRelease approvers safety now \<Rightarrow> two_humans approvers \<and> safe_evidence safety \<and> time_ok now \<and>
           fst (append_evidence sink \<lparr>ke_type = KeReleased, ke_observedAt = now, ke_generation = ks_generation s,
             ke_reasons = ks_reasons s, ke_approvers = Some (sort (map ha_id approvers))\<rparr> w) = Inr ()
       | KcRestore t \<Rightarrow> restorable time_ok t \<and> \<not> ks_active t))"
proof -
  have "kill_consistent s" using kill_reachable_consistent [OF assms] by simp
  then show ?thesis
    by (cases call)
      (auto simp: kill_trigger_def kill_release_def kill_restore_def Let_def release_ok_Inr
        split: prod.splits sum.splits if_splits)
qed

text \<open>A trigger at a valid time always leaves the switch active with its reason recorded, also when
  the evidence sink throws, and keeps the first activation time and every earlier reason.\<close>
theorem kill_trigger_activates:
  assumes "time_ok now" "kill_trigger time_ok sink reason now s w = (r, t, w2)"
  shows "ks_active t \<and> set (ks_reasons t) = insert reason (set (ks_reasons s)) \<and> distinct (ks_reasons t) \<and>
    ks_activatedAt t = (case ks_activatedAt s of None \<Rightarrow> Some now | Some a \<Rightarrow> Some a) \<and>
    ks_generation t = (if ks_active s then ks_generation s else ks_generation s + Fin 1)"
  using assms by (auto simp: kill_trigger_def Let_def split: prod.splits)

section \<open>Concrete runs\<close>

lemma kill_switch_latches_witness:
  "\<not> ks_active (fst (kill_apply (\<lambda>_. True) None
     (KcRelease [\<lparr>ha_id = ''b'', ha_kind = ''HUMAN''\<rparr>, \<lparr>ha_id = ''a'', ha_kind = ''HUMAN''\<rparr>]
       \<lparr>re_operationalState = RtSafe, re_hardRisk = HrPass, re_reconciliation = RhMatch, re_marketData = MhHealthy,
        re_unresolvedExecutionCount = Fin 0\<rparr> ''t3'')
     (kill_apply (\<lambda>_. True) None (KcTrigger KrManualStop ''t2'')
       (\<lparr>ks_active = False, ks_reasons = [], ks_activatedAt = None, ks_updatedAt = ''t1'', ks_generation = Fin 0\<rparr>, ()))))
   \<and> two_humans [\<lparr>ha_id = ''b'', ha_kind = ''HUMAN''\<rparr>, \<lparr>ha_id = ''a'', ha_kind = ''HUMAN''\<rparr>]"
proof -
  let ?s = "\<lparr>ks_active = False, ks_reasons = [], ks_activatedAt = None, ks_updatedAt = ''t1'', ks_generation = Fin 0\<rparr>"
  let ?t = "\<lparr>ks_active = True, ks_reasons = [KrManualStop], ks_activatedAt = Some ''t2'', ks_updatedAt = ''t2'',
      ks_generation = Fin 1\<rparr>"
  let ?c = "KcRelease [\<lparr>ha_id = ''b'', ha_kind = ''HUMAN''\<rparr>, \<lparr>ha_id = ''a'', ha_kind = ''HUMAN''\<rparr>]
       \<lparr>re_operationalState = RtSafe, re_hardRisk = HrPass, re_reconciliation = RhMatch, re_marketData = MhHealthy,
        re_unresolvedExecutionCount = Fin 0\<rparr> ''t3''"
  have "LatchedKillSwitch_new (\<lambda>_. True) ''t1'' = Inr ?s" by (simp add: LatchedKillSwitch_new_def)
  then have "kill_reachable (\<lambda>_. True) None (?s, ())" by (rule kill_start)
  then have "kill_reachable (\<lambda>_. True) None (kill_apply (\<lambda>_. True) None (KcTrigger KrManualStop ''t2'') (?s, ()))"
    by (rule kill_call)
  moreover have t: "kill_apply (\<lambda>_. True) None (KcTrigger KrManualStop ''t2'') (?s, ()) = (?t, ())" by code_simp
  ultimately have reach: "kill_reachable (\<lambda>_. True) None (?t, ())" by simp
  have off: "\<not> ks_active (fst (kill_apply (\<lambda>_. True) None ?c (?t, ())))" by code_simp
  then show ?thesis using kill_switch_latches [OF reach, of ?c] unfolding t by simp
qed

lemma kill_trigger_activates_witness:
  "set [KrManualStop, KrRuntimeUnsafe] = insert KrRuntimeUnsafe {KrManualStop}"
proof -
  have "kill_trigger (\<lambda>_. True) (Some (\<lambda>e n. (throw ''disk full'', Suc n))) KrRuntimeUnsafe ''t2''
     \<lparr>ks_active = True, ks_reasons = [KrManualStop], ks_activatedAt = Some ''t1'', ks_updatedAt = ''t1'', ks_generation = Fin 1\<rparr> 0
    = (throw ''disk full'', \<lparr>ks_active = True, ks_reasons = [KrManualStop, KrRuntimeUnsafe], ks_activatedAt = Some ''t1'',
       ks_updatedAt = ''t2'', ks_generation = Fin 1\<rparr>, 1)" by code_simp
  from kill_trigger_activates [OF _ this] show ?thesis by simp
qed

end
