(* ===== verification/ExecutionStore.thy ===== *)
theory ExecutionStore imports Prelude begin

text \<open>
  \<open>packages/contracts/src/executionPersistence.ts\<close> and the in-memory repository of
  \<open>apps/execution/src/execution-gateway.ts\<close>: execution records, the allowed status transitions and
  the repository that enforces them.  \<open>execution_repository\<close> is the interface the gateway and the
  restriction release rely on; over it the lemmas show, for any sequence of saves, that a record
  keeps its identity and that an accepted or rejected one keeps its status.
  \<open>compare_text\<close> stands for \<open>localeCompare\<close>.
\<close>

section \<open>Records\<close>

datatype submission_status = SsSubmitting | SsAccepted | SsRejected | SsUnknown

record execution_record =
  er_executionId :: string
  er_intentId :: string
  er_idempotencyKey :: string
  er_payloadHash :: string
  er_status :: submission_status
  er_providerOrderId :: "string option"
  er_reason :: "string option"
  er_createdAtMs :: jsnum
  er_updatedAtMs :: jsnum

definition isAllowedTransition :: "submission_status \<Rightarrow> submission_status \<Rightarrow> bool" where
  "isAllowedTransition previous next =
     (if previous = next then True
      else if previous = SsSubmitting then next = SsAccepted \<or> next = SsRejected \<or> next = SsUnknown
      else if previous = SsUnknown then next = SsAccepted \<or> next = SsRejected
      else False)"

section \<open>The in-memory repository\<close>

type_synonym execution_repo = "(string \<times> execution_record) list"

definition exec_getByIntentId :: "execution_repo \<Rightarrow> string \<Rightarrow> execution_record option" where
  "exec_getByIntentId m i = map_of m i"

definition exec_listByStatus ::
  "(string \<Rightarrow> string \<Rightarrow> jsnum) \<Rightarrow> execution_repo \<Rightarrow> submission_status \<Rightarrow> execution_record list" where
  "exec_listByStatus compare_text m status =
     js_sort (\<lambda>l r. js_or (er_createdAtMs l - er_createdAtMs r) (compare_text (er_executionId l) (er_executionId r)))
       (filter (\<lambda>r. er_status r = status) (map snd m))"

definition exec_save :: "execution_record \<Rightarrow> execution_repo \<Rightarrow> (execution_record \<times> execution_repo) result" where
  "exec_save r m =
     (let stored = Inr (r, AList.update (er_intentId r) r m) in
      case map_of m (er_intentId r) of
        None \<Rightarrow> stored
      | Some previous \<Rightarrow>
        guard_r (er_executionId previous \<noteq> er_executionId r)
          (Error ''intent already belongs to another execution'')
        (guard_r (\<not> isAllowedTransition (er_status previous) (er_status r))
          (Error ''execution status transition is not allowed'')
        (guard_r (er_idempotencyKey previous \<noteq> er_idempotencyKey r \<or> er_payloadHash previous \<noteq> er_payloadHash r
            \<or> \<not> js_eq (er_createdAtMs previous) (er_createdAtMs r))
          (Error ''execution identity cannot be changed'')
        (guard_r (er_updatedAtMs r < er_updatedAtMs previous)
          (Error ''execution update time cannot regress'') stored))))"

section \<open>The interface\<close>

definition same_execution :: "execution_record \<Rightarrow> execution_record \<Rightarrow> bool" where
  "same_execution p r \<longleftrightarrow> er_executionId p = er_executionId r \<and> er_intentId p = er_intentId r \<and>
     er_idempotencyKey p = er_idempotencyKey r \<and> er_payloadHash p = er_payloadHash r"

definition settled :: "execution_record \<Rightarrow> bool" where
  "settled r \<longleftrightarrow> er_status r = SsAccepted \<or> er_status r = SsRejected"

locale execution_repository =
  fixes get :: "'m \<Rightarrow> string \<Rightarrow> execution_record option"
    and save :: "execution_record \<Rightarrow> 'm \<Rightarrow> (execution_record \<times> 'm) result"
    and good :: "'m \<Rightarrow> bool"
  assumes get_good: "good m \<Longrightarrow> get m i = Some p \<Longrightarrow> er_intentId p = i"
    and save_get: "save r m = Inr (r', m') \<Longrightarrow> r' = r \<and> get m' (er_intentId r) = Some r"
    and save_frame: "save r m = Inr (r', m') \<Longrightarrow> i \<noteq> er_intentId r \<Longrightarrow> get m' i = get m i"
    and save_good: "good m \<Longrightarrow> save r m = Inr (r', m') \<Longrightarrow> good m'"
    and save_allowed: "good m \<Longrightarrow> save r m = Inr (r', m') \<Longrightarrow> get m (er_intentId r) = Some p \<Longrightarrow>
      same_execution p r \<and> isAllowedTransition (er_status p) (er_status r)"
    and save_fresh: "get m (er_intentId r) = None \<Longrightarrow> \<exists>m'. save r m = Inr (r, m')"
begin

definition save_all :: "execution_record list \<Rightarrow> 'm \<Rightarrow> 'm" where
  "save_all = fold (\<lambda>r m. case save r m of Inl _ \<Rightarrow> m | Inr (_, m') \<Rightarrow> m')"

lemma save_all_Cons: "save_all (r # rs) m = save_all rs (case save r m of Inl _ \<Rightarrow> m | Inr (_, m') \<Rightarrow> m')"
  by (simp add: save_all_def)

lemma save_keeps:
  assumes "good m" "get m i = Some p" "save r m = Inr (r', m')"
  shows "\<exists>q. get m' i = Some q \<and> same_execution p q \<and> isAllowedTransition (er_status p) (er_status q)"
proof (cases "i = er_intentId r")
  case True
  then show ?thesis using assms save_get [OF assms(3)] save_allowed [OF assms(1,3)] by auto
next
  case False
  then show ?thesis
    using assms(2) save_frame [OF assms(3)] by (auto simp: same_execution_def isAllowedTransition_def)
qed

lemma settled_step: "settled p \<Longrightarrow> isAllowedTransition (er_status p) (er_status q) \<Longrightarrow> er_status q = er_status p"
  by (auto simp: settled_def isAllowedTransition_def split: if_splits)

lemma save_all_keeps:
  assumes "good m" "get m i = Some p"
  shows "\<exists>q. get (save_all rs m) i = Some q \<and> same_execution p q \<and> (settled p \<longrightarrow> er_status q = er_status p)"
  using assms
proof (induction rs arbitrary: m p)
  case Nil
  then show ?case by (simp add: save_all_def same_execution_def)
next
  case (Cons r rs)
  show ?case
  proof (cases "save r m")
    case (Inl e)
    then show ?thesis using Cons by (simp add: save_all_Cons)
  next
    case (Inr x)
    obtain r' m' where s: "save r m = Inr (r', m')" using Inr by (cases x) auto
    obtain q where q: "get m' i = Some q" "same_execution p q" "isAllowedTransition (er_status p) (er_status q)"
      using save_keeps [OF Cons.prems s] by blast
    obtain z where "get (save_all rs m') i = Some z" "same_execution q z" "settled q \<longrightarrow> er_status z = er_status q"
      using Cons.IH [OF save_good [OF Cons.prems(1) s] q(1)] by blast
    then show ?thesis
      using q settled_step [of p q] by (auto simp: save_all_Cons s same_execution_def settled_def)
  qed
qed

end

definition exec_good :: "execution_repo \<Rightarrow> bool" where
  "exec_good m \<longleftrightarrow> (\<forall>i p. map_of m i = Some p \<longrightarrow> er_intentId p = i)"

lemma exec_save_Inr [result_simps]:
  "exec_save r m = Inr (r', m') \<longleftrightarrow> r' = r \<and> m' = AList.update (er_intentId r) r m \<and>
     (\<forall>p. map_of m (er_intentId r) = Some p \<longrightarrow>
        er_executionId p = er_executionId r \<and> isAllowedTransition (er_status p) (er_status r) \<and>
        er_idempotencyKey p = er_idempotencyKey r \<and> er_payloadHash p = er_payloadHash r \<and>
        js_eq (er_createdAtMs p) (er_createdAtMs r) \<and> \<not> er_updatedAtMs r < er_updatedAtMs p)"
  by (auto simp: exec_save_def Let_def guard_r_def split: option.splits if_splits)

lemma exec_save_fresh: "map_of m (er_intentId r) = None \<Longrightarrow> exec_save r m = Inr (r, AList.update (er_intentId r) r m)"
  by (simp add: exec_save_def)

interpretation exec_repo: execution_repository exec_getByIntentId exec_save exec_good
  by unfold_locales
    (auto simp: exec_save_Inr exec_save_fresh exec_getByIntentId_def exec_good_def same_execution_def split: if_splits)

text \<open>Over any sequence of saves, refused ones included, a stored execution keeps its execution id,
  intent, idempotency key and payload hash, and one that was accepted or rejected keeps that
  status: no later save reopens or flips it.\<close>
theorem execution_settles_once:
  assumes "exec_good m" "exec_getByIntentId m i = Some p"
  shows "\<exists>q. exec_getByIntentId (exec_repo.save_all rs m) i = Some q \<and> same_execution p q \<and>
    (settled p \<longrightarrow> er_status q = er_status p)"
  by (rule exec_repo.save_all_keeps [OF assms])

definition sample_execution :: "submission_status \<Rightarrow> execution_record" where
  "sample_execution st = \<lparr>er_executionId = ''x'', er_intentId = ''i'', er_idempotencyKey = ''k'', er_payloadHash = ''h'',
     er_status = st, er_providerOrderId = None, er_reason = None, er_createdAtMs = Fin 1, er_updatedAtMs = Fin 1\<rparr>"

lemma execution_settles_once_witness:
  "\<exists>q. exec_getByIntentId (exec_repo.save_all [sample_execution SsUnknown, sample_execution SsRejected]
     [(''i'', sample_execution SsAccepted)]) ''i'' = Some q \<and> er_status q = SsAccepted"
proof -
  have "exec_good [(''i'', sample_execution SsAccepted)]"
    by (auto simp: exec_good_def sample_execution_def split: if_splits)
  moreover have "exec_getByIntentId [(''i'', sample_execution SsAccepted)] ''i'' = Some (sample_execution SsAccepted)"
    by (simp add: exec_getByIntentId_def)
  ultimately obtain q where "exec_getByIntentId (exec_repo.save_all [sample_execution SsUnknown, sample_execution SsRejected]
     [(''i'', sample_execution SsAccepted)]) ''i'' = Some q"
    "settled (sample_execution SsAccepted) \<longrightarrow> er_status q = er_status (sample_execution SsAccepted)"
    using execution_settles_once by blast
  then show ?thesis by (simp add: settled_def sample_execution_def)
qed

end
