(* ===== verification/Restrictions.thy ===== *)
theory Restrictions imports ExecutionStore begin

text \<open>
  \<open>apps/execution/src/order-restriction.ts\<close>: operational restrictions of an account, their
  in-memory repository, the release-evidence repository, the restriction for critical unknown
  submissions and its release.  \<open>restriction_repository\<close> is the interface the reconcilers and the
  order admission share; over it: an account with an active restriction stays restricted through
  any saves of other restrictions.  The optional transaction of a release is a parameter that runs
  the operation.
\<close>

section \<open>Types\<close>

datatype restriction_reason =
  RrCriticalUnknownSubmission | RrPositionMismatch | RrPositionStateUncertain | RrPositionReconciliationStale
| RrBalanceMismatch | RrBalanceStateUncertain | RrBalanceReconciliationStale
| RrFundingReconciliationMismatch | RrFundingStateUncertain | RrFundingReconciliationStale
| RrFeeReconciliationMismatch | RrFeeStateUncertain | RrFeeReconciliationStale
| RrFillReconciliationMismatch | RrFillStateUncertain | RrFillReconciliationStale
| RrPnlReconciliationMismatch | RrPnlStateUncertain | RrPnlReconciliationStale
| RrLiquidationRiskCritical | RrMarginStateInvalid

datatype restriction_status = RActive | RReleased

record restriction =
  rx_restrictionId :: string
  rx_accountId :: string
  rx_reason :: restriction_reason
  rx_sourceRunId :: string
  rx_sourceIntentIds :: "string list"
  rx_blockNewExposure :: bool
  rx_manualReleaseRequired :: bool
  rx_status :: restriction_status
  rx_createdAtMs :: jsnum
  rx_releasedAtMs :: "jsnum option"

record release_record =
  rv_releaseId :: string
  rv_restrictionId :: string
  rv_accountId :: string
  rv_requestedBy :: string
  rv_verifiedBy :: string
  rv_rationale :: string
  rv_verifiedIntentIds :: "string list"
  rv_matchedReconciliationId :: "string option"
  rv_matchedBalanceReconciliationId :: "string option"
  rv_matchedFundingReconciliationId :: "string option"
  rv_matchedFeeReconciliationId :: "string option"
  rv_matchedFillReconciliationId :: "string option"
  rv_matchedPnlReconciliationId :: "string option"
  rv_releasedAtMs :: jsnum

section \<open>The in-memory repositories\<close>

type_synonym restriction_repo = "(string \<times> restriction) list"

definition rx_getById :: "restriction_repo \<Rightarrow> string \<Rightarrow> restriction option" where
  "rx_getById m i = map_of m i"

definition rx_getActiveForAccount :: "restriction_repo \<Rightarrow> string \<Rightarrow> restriction option" where
  "rx_getActiveForAccount m a = List.find (\<lambda>r. rx_accountId r = a \<and> rx_status r = RActive) (map snd m)"

definition rx_save :: "restriction \<Rightarrow> restriction_repo \<Rightarrow> (restriction \<times> restriction_repo) result" where
  "rx_save r m =
     (let stored = Inr (r, AList.update (rx_restrictionId r) r m) in
      case map_of m (rx_restrictionId r) of
        None \<Rightarrow> stored
      | Some p \<Rightarrow>
        guard_r (rx_accountId p \<noteq> rx_accountId r \<or> rx_reason p \<noteq> rx_reason r \<or> rx_sourceRunId p \<noteq> rx_sourceRunId r)
          (Error ''restriction identity cannot be changed'')
        (guard_r (rx_status p = RReleased \<and> rx_status r \<noteq> RReleased)
          (Error ''released restriction cannot be reactivated'') stored))"

type_synonym release_repo = "(string \<times> release_record) list"

definition rv_append :: "release_record \<Rightarrow> release_repo \<Rightarrow> (release_record \<times> release_repo) result" where
  "rv_append e m =
     guard_r (map_of m (rv_restrictionId e) \<noteq> None) (Error ''restriction already has release evidence'')
     (let rationale = (case rv_matchedReconciliationId e of None \<Rightarrow> rv_rationale e
            | Some i \<Rightarrow> rv_rationale e @ '' matchedReconciliationId='' @ i);
          s = e\<lparr>rv_rationale := rationale\<rparr>
      in Inr (s, AList.update (rv_restrictionId e) s m))"

definition rv_getByRestrictionId :: "release_repo \<Rightarrow> string \<Rightarrow> release_record option" where
  "rv_getByRestrictionId m i = map_of m i"

section \<open>Critical unknown submissions\<close>

definition createCriticalUnknownSubmissionRestriction ::
  "string \<Rightarrow> string \<Rightarrow> string \<Rightarrow> string list \<Rightarrow> jsnum \<Rightarrow> restriction result" where
  "createCriticalUnknownSubmissionRestriction restrictionId accountId sourceRunId sourceIntentIds nowMs =
     guard_r (blank restrictionId \<or> blank accountId \<or> blank sourceRunId \<or> sourceIntentIds = [])
       (Error ''restriction identity and source intents are required'')
     (Inr \<lparr>rx_restrictionId = restrictionId, rx_accountId = accountId, rx_reason = RrCriticalUnknownSubmission,
           rx_sourceRunId = sourceRunId, rx_sourceIntentIds = sort (set_of_list sourceIntentIds),
           rx_blockNewExposure = True, rx_manualReleaseRequired = True, rx_status = RActive,
           rx_createdAtMs = nowMs, rx_releasedAtMs = None\<rparr>)"

record release_request =
  rl_releaseId :: string
  rl_restrictionId :: string
  rl_requestedBy :: string
  rl_verifiedBy :: string
  rl_rationale :: string
  rl_nowMs :: jsnum

record release_world =
  lw_restrictions :: restriction_repo
  lw_evidence :: release_repo

fun sources_resolved :: "execution_repo \<Rightarrow> string list \<Rightarrow> unit result" where
  "sources_resolved executions [] = Inr ()"
| "sources_resolved executions (i # is) =
     (case exec_getByIntentId executions i of
        None \<Rightarrow> throw (''source execution remains unresolved: '' @ i)
      | Some e \<Rightarrow>
        if er_status e = SsSubmitting \<or> er_status e = SsUnknown
        then throw (''source execution remains unresolved: '' @ i)
        else sources_resolved executions is)"

definition release_op ::
  "execution_repo \<Rightarrow> release_request \<Rightarrow> release_world \<Rightarrow> restriction result \<times> release_world" where
  "release_op executions q w =
     (case
        guard_r (blank (rl_releaseId q) \<or> blank (rl_requestedBy q) \<or> blank (rl_verifiedBy q) \<or> blank (rl_rationale q))
          (Error ''complete release approval is required'')
        (guard_r (rl_requestedBy q = rl_verifiedBy q) (Error ''requester and verifier must be different'')
        (case rx_getById (lw_restrictions w) (rl_restrictionId q) of
           None \<Rightarrow> throw ''active submission restriction not found''
         | Some r \<Rightarrow>
           guard_r (rx_status r \<noteq> RActive) (Error ''active submission restriction not found'')
           (guard_r (rx_reason r \<in> {RrPositionMismatch, RrPositionStateUncertain, RrPositionReconciliationStale})
             (Error ''matched position reconciliation evidence is required'')
           (guard_r (rx_reason r \<noteq> RrCriticalUnknownSubmission) (Error ''active submission restriction not found'')
           (bind_r (sources_resolved executions (rx_sourceIntentIds r)) (\<lambda>_.
            bind_r (rv_append \<lparr>rv_releaseId = rl_releaseId q, rv_restrictionId = rx_restrictionId r,
                rv_accountId = rx_accountId r, rv_requestedBy = rl_requestedBy q, rv_verifiedBy = rl_verifiedBy q,
                rv_rationale = js_trim (rl_rationale q), rv_verifiedIntentIds = rx_sourceIntentIds r,
                rv_matchedReconciliationId = None, rv_matchedBalanceReconciliationId = None,
                rv_matchedFundingReconciliationId = None, rv_matchedFeeReconciliationId = None,
                rv_matchedFillReconciliationId = None, rv_matchedPnlReconciliationId = None,
                rv_releasedAtMs = rl_nowMs q\<rparr> (lw_evidence w)) (\<lambda>(_, evidence).
            Inr (r, evidence)))))))) of
        Inl e \<Rightarrow> (Inl e, w)
      | Inr (r, evidence) \<Rightarrow>
        (let w2 = w\<lparr>lw_evidence := evidence\<rparr> in
         case rx_save (r\<lparr>rx_status := RReleased, rx_releasedAtMs := Some (rl_nowMs q)\<rparr>) (lw_restrictions w2) of
           Inl e \<Rightarrow> (Inl e, w2)
         | Inr (s, restrictions) \<Rightarrow> (Inr s, w2\<lparr>lw_restrictions := restrictions\<rparr>)))"

type_synonym release_transaction =
  "(release_world \<Rightarrow> restriction result \<times> release_world) \<Rightarrow> release_world \<Rightarrow> restriction result \<times> release_world"

definition releaseOrderOperationalRestriction ::
  "release_transaction option \<Rightarrow> execution_repo \<Rightarrow> release_request \<Rightarrow> release_world \<Rightarrow>
    restriction result \<times> release_world" where
  "releaseOrderOperationalRestriction transaction executions q w =
     (case transaction of None \<Rightarrow> release_op executions q w | Some t \<Rightarrow> t (release_op executions q) w)"

section \<open>The interface\<close>

locale restriction_repository =
  fixes get :: "'m \<Rightarrow> string \<Rightarrow> restriction option"
    and active :: "'m \<Rightarrow> string \<Rightarrow> restriction option"
    and save :: "restriction \<Rightarrow> 'm \<Rightarrow> (restriction \<times> 'm) result"
    and good :: "'m \<Rightarrow> bool"
  assumes active_iff: "good m \<Longrightarrow> active m a \<noteq> None \<longleftrightarrow> (\<exists>i r. get m i = Some r \<and> rx_accountId r = a \<and> rx_status r = RActive)"
    and active_is: "active m a = Some r \<Longrightarrow> rx_accountId r = a \<and> rx_status r = RActive"
    and save_get: "save r m = Inr (r', m') \<Longrightarrow> r' = r \<and> get m' (rx_restrictionId r) = Some r"
    and save_frame: "save r m = Inr (r', m') \<Longrightarrow> i \<noteq> rx_restrictionId r \<Longrightarrow> get m' i = get m i"
    and save_good: "good m \<Longrightarrow> save r m = Inr (r', m') \<Longrightarrow> good m'"
    and save_identity: "save r m = Inr (r', m') \<Longrightarrow> get m (rx_restrictionId r) = Some p \<Longrightarrow>
      rx_accountId p = rx_accountId r \<and> rx_reason p = rx_reason r \<and> rx_sourceRunId p = rx_sourceRunId r \<and>
      (rx_status p = RReleased \<longrightarrow> rx_status r = RReleased)"
begin

definition restricted :: "'m \<Rightarrow> string \<Rightarrow> bool" where
  "restricted m a \<longleftrightarrow> active m a \<noteq> None"

lemma restricted_after_save:
  assumes "good m" "save r m = Inr (r', m')" "rx_status r = RActive"
  shows "restricted m' (rx_accountId r)"
  using save_get [OF assms(2)] save_good [OF assms(1,2)] assms(3) active_iff
  unfolding restricted_def by blast

lemma restricted_kept:
  assumes "good m" "save r m = Inr (r', m')" "restricted m a" "rx_status r = RActive"
  shows "restricted m' a"
proof -
  obtain i p where p: "get m i = Some p" "rx_accountId p = a" "rx_status p = RActive"
    using assms(1,3) active_iff by (auto simp: restricted_def)
  show ?thesis
  proof (cases "i = rx_restrictionId r")
    case True
    then have "rx_accountId r = a" using save_identity [OF assms(2)] p by auto
    then show ?thesis using restricted_after_save [OF assms(1,2,4)] by simp
  next
    case False
    then have "get m' i = Some p" using save_frame [OF assms(2)] p by simp
    then show ?thesis using p save_good [OF assms(1,2)] active_iff unfolding restricted_def by blast
  qed
qed

definition save_all :: "restriction list \<Rightarrow> 'm \<Rightarrow> 'm" where
  "save_all = fold (\<lambda>r m. case save r m of Inl _ \<Rightarrow> m | Inr (_, m') \<Rightarrow> m')"

lemma save_all_restricted:
  assumes "good m" "restricted m a" "\<forall>r \<in> set rs. rx_status r = RActive"
  shows "good (save_all rs m) \<and> restricted (save_all rs m) a"
  using assms
proof (induction rs arbitrary: m)
  case (Cons r rs)
  then show ?case
    using save_good [of m r] restricted_kept [of m r]
    by (auto simp: save_all_def split: sum.split)
qed (simp add: save_all_def)

end

definition rx_good :: "restriction_repo \<Rightarrow> bool" where
  "rx_good m \<longleftrightarrow> distinct (map fst m)"

lemma rx_save_Inr [result_simps]:
  "rx_save r m = Inr (r', m') \<longleftrightarrow> r' = r \<and> m' = AList.update (rx_restrictionId r) r m \<and>
     (\<forall>p. map_of m (rx_restrictionId r) = Some p \<longrightarrow> rx_accountId p = rx_accountId r \<and> rx_reason p = rx_reason r \<and>
        rx_sourceRunId p = rx_sourceRunId r \<and> (rx_status p = RReleased \<longrightarrow> rx_status r = RReleased))"
  by (auto simp: rx_save_def Let_def guard_r_def split: option.splits if_splits)

lemma rx_active_iff:
  assumes "rx_good m"
  shows "rx_getActiveForAccount m a \<noteq> None \<longleftrightarrow>
    (\<exists>i r. rx_getById m i = Some r \<and> rx_accountId r = a \<and> rx_status r = RActive)"
proof -
  have "rx_getActiveForAccount m a \<noteq> None \<longleftrightarrow> (\<exists>r \<in> snd ` set m. rx_accountId r = a \<and> rx_status r = RActive)"
    by (auto simp: rx_getActiveForAccount_def find_None_iff)
  also have "\<dots> \<longleftrightarrow> (\<exists>i r. (i, r) \<in> set m \<and> rx_accountId r = a \<and> rx_status r = RActive)" by force
  finally show ?thesis using assms map_of_eq_Some_iff [of m]
    by (simp add: rx_good_def rx_getById_def)
qed

interpretation rx_repo: restriction_repository rx_getById rx_getActiveForAccount rx_save rx_good
proof unfold_locales
  show "rx_good m \<Longrightarrow> rx_getActiveForAccount m a \<noteq> None \<longleftrightarrow>
      (\<exists>i r. rx_getById m i = Some r \<and> rx_accountId r = a \<and> rx_status r = RActive)" for m a
    by (rule rx_active_iff)
qed (auto simp: rx_save_Inr rx_getById_def rx_getActiveForAccount_def rx_good_def distinct_update find_Some_iff)

section \<open>Release\<close>

lemma sources_resolved_Inr [result_simps]:
  "sources_resolved executions is = Inr u \<longleftrightarrow>
     (\<forall>i \<in> set is. \<exists>e. exec_getByIntentId executions i = Some e \<and> settled e)"
proof (induction "is")
  case (Cons i "is")
  have s: "(er_status e = SsSubmitting \<or> er_status e = SsUnknown) \<longleftrightarrow> \<not> settled e" for e
    by (cases "er_status e") (auto simp: settled_def)
  show ?case
  proof (cases "exec_getByIntentId executions i")
    case (Some e)
    then show ?thesis using Cons.IH by (simp only: sources_resolved.simps option.case s) auto
  qed simp
qed simp

text \<open>A critical-submission restriction is released only when two different named people request
  and verify it with a rationale, every execution it was raised for is accepted or rejected, and
  the release evidence is stored; an error leaves the restrictions unchanged.\<close>
theorem restriction_release_requires:
  assumes "release_op executions q w = (res, w')"
  shows "case res of
      Inl e \<Rightarrow> lw_restrictions w' = lw_restrictions w
    | Inr s \<Rightarrow> rl_requestedBy q \<noteq> rl_verifiedBy q \<and> \<not> blank (rl_requestedBy q) \<and> \<not> blank (rl_verifiedBy q) \<and>
        \<not> blank (rl_rationale q) \<and> rx_status s = RReleased \<and> rx_reason s = RrCriticalUnknownSubmission \<and>
        (\<forall>i \<in> set (rx_sourceIntentIds s). \<exists>e. exec_getByIntentId executions i = Some e \<and> settled e) \<and>
        (\<exists>e. rv_getByRestrictionId (lw_evidence w') (rx_restrictionId s) = Some e \<and>
           rv_verifiedBy e = rl_verifiedBy q \<and> rv_verifiedIntentIds e = rx_sourceIntentIds s) \<and>
        rx_getById (lw_restrictions w') (rx_restrictionId s) = Some s"
  using assms
  by (auto simp: release_op_def Let_def guard_r_def rv_append_def rv_getByRestrictionId_def rx_getById_def
      bind_r_def sources_resolved_Inr rx_save_Inr
      split: if_splits option.splits sum.splits prod.splits)

section \<open>Concrete runs\<close>

definition sample_restriction :: restriction where
  "sample_restriction = \<lparr>rx_restrictionId = ''r'', rx_accountId = ''acc'', rx_reason = RrCriticalUnknownSubmission,
     rx_sourceRunId = ''run'', rx_sourceIntentIds = [''i''], rx_blockNewExposure = True, rx_manualReleaseRequired = True,
     rx_status = RActive, rx_createdAtMs = Fin 1, rx_releasedAtMs = None\<rparr>"

definition sample_request :: release_request where
  "sample_request = \<lparr>rl_releaseId = ''rel'', rl_restrictionId = ''r'', rl_requestedBy = ''ann'', rl_verifiedBy = ''bob'',
     rl_rationale = ''checked'', rl_nowMs = Fin 9\<rparr>"

lemma restriction_release_requires_witness:
  "\<exists>w'. release_op [(''i'', sample_execution SsAccepted)] sample_request
      \<lparr>lw_restrictions = [(''r'', sample_restriction)], lw_evidence = []\<rparr>
    = (Inr (sample_restriction\<lparr>rx_status := RReleased, rx_releasedAtMs := Some (Fin 9)\<rparr>), w') \<and>
    rl_requestedBy sample_request \<noteq> rl_verifiedBy sample_request"
proof -
  have "fst (release_op [(''i'', sample_execution SsAccepted)] sample_request
      \<lparr>lw_restrictions = [(''r'', sample_restriction)], lw_evidence = []\<rparr>)
    = Inr (sample_restriction\<lparr>rx_status := RReleased, rx_releasedAtMs := Some (Fin 9)\<rparr>)" by code_simp
  then obtain w' where w: "release_op [(''i'', sample_execution SsAccepted)] sample_request
      \<lparr>lw_restrictions = [(''r'', sample_restriction)], lw_evidence = []\<rparr>
    = (Inr (sample_restriction\<lparr>rx_status := RReleased, rx_releasedAtMs := Some (Fin 9)\<rparr>), w')"
    by (metis prod.collapse)
  from restriction_release_requires [OF w] w show ?thesis by auto
qed

end
