(* ===== verification/Admission.thy ===== *)
theory Admission imports Restrictions begin

text \<open>
  \<open>apps/execution/src/order-admission.ts\<close> and \<open>pre-trade-risk.ts\<close>: admission of an order intent -
  authorization scope, idempotency by key and by intent, operational restrictions and the
  pre-trade risk check.  Parameters: \<open>sha\<close>, the digest of a string, \<open>num_text\<close>, the decimal text
  of a number, and the idempotency store, given by its three operations; \<open>idempotency_store\<close>
  states what a store promises and the in-memory store provides it.
\<close>

section \<open>Pre-trade risk\<close>

datatype ledger_side = SideBuy | SideSell

datatype risk_reason_code = RcRiskDisabled | RcMaxNotionalExceeded | RcMaxPositionQtyExceeded | RcMaxLossExceeded | RcOversold

record risk_position =
  rp_baseQtyRaw :: int
  rp_realizedPnlRaw :: int

record pre_trade_order =
  po_side :: ledger_side
  po_baseQtyRaw :: int
  po_quoteQtyRaw :: "int option"

record pre_trade_policy =
  pp_enabled :: "bool option"
  pp_maxOrderQuoteRaw :: "int option"
  pp_maxPositionBaseRaw :: "int option"
  pp_maxRealizedLossRaw :: "int option"

datatype risk_decision = RiskAllow | RiskBlock risk_reason_code string

definition evaluatePreTradeRisk ::
  "risk_position option \<Rightarrow> pre_trade_order \<Rightarrow> pre_trade_policy \<Rightarrow> risk_decision" where
  "evaluatePreTradeRisk current order policy =
     (if pp_enabled policy = Some False then RiskAllow
      else if po_side order = SideSell \<and>
          (case current of None \<Rightarrow> True | Some c \<Rightarrow> rp_baseQtyRaw c < po_baseQtyRaw order)
      then RiskBlock RcOversold ''sell quantity exceeds position''
      else if (case (pp_maxOrderQuoteRaw policy, po_quoteQtyRaw order) of (Some m, Some q) \<Rightarrow> m < q | _ \<Rightarrow> False)
      then RiskBlock RcMaxNotionalExceeded ''order quote exceeds policy''
      else let currentBase = (case current of None \<Rightarrow> 0 | Some c \<Rightarrow> rp_baseQtyRaw c);
               nextBase = (if po_side order = SideBuy then currentBase + po_baseQtyRaw order
                           else currentBase - po_baseQtyRaw order)
      in if (case pp_maxPositionBaseRaw policy of None \<Rightarrow> False | Some m \<Rightarrow> m < nextBase)
      then RiskBlock RcMaxPositionQtyExceeded ''position base exceeds policy''
      else if (case (pp_maxRealizedLossRaw policy, current) of (Some m, Some c) \<Rightarrow> rp_realizedPnlRaw c < - m | _ \<Rightarrow> False)
      then RiskBlock RcMaxLossExceeded ''realized loss exceeds policy''
      else RiskAllow)"

section \<open>Intents and decisions\<close>

datatype environment = EnvSynthetic | EnvTestnet | EnvProduction

datatype order_type = OtMarket | OtLimit

datatype admission_reason =
  ArInvalidIntent | ArEnvironmentMismatch | ArAccountNotAuthorized | ArStrategyNotAuthorized
| ArSymbolNotAuthorized | ArOrderTypeNotAuthorized | ArAuthorizationExpired | ArOperationalRestrictionActive
| ArPayloadChangedForIdempotencyKey | ArIntentReplayedWithDifferentKey | ArRiskBlocked

record order_intent =
  it_intentId :: string
  it_idempotencyKey :: string
  it_environment :: environment
  it_accountId :: string
  it_strategyId :: string
  it_symbol :: string
  it_side :: ledger_side
  it_orderType :: order_type
  it_baseQtyRaw :: int
  it_quoteQtyRaw :: "int option"
  it_createdAtMs :: jsnum

record authorization_scope =
  as_environment :: environment
  as_accountIds :: "string list"
  as_strategyIds :: "string list"
  as_symbols :: "string list"
  as_orderTypes :: "order_type list"
  as_expiresAtMs :: jsnum

record admission_context =
  ac_nowMs :: jsnum
  ac_authorization :: authorization_scope
  ac_riskPosition :: "risk_position option"
  ac_riskPolicy :: "pre_trade_policy option"
  ac_operationalRestrictions :: "restriction_repo option"

datatype admission_decision =
  AdAllow string
| AdDuplicate string
| AdBlock admission_reason "risk_reason_code option" string string

record idempotency_record =
  id_key :: string
  id_intentId :: string
  id_payloadHash :: string

fun environment_name :: "environment \<Rightarrow> string" where
  "environment_name EnvSynthetic = ''SYNTHETIC''" | "environment_name EnvTestnet = ''TESTNET''"
| "environment_name EnvProduction = ''PRODUCTION''"

fun side_name :: "ledger_side \<Rightarrow> string" where
  "side_name SideBuy = ''BUY''" | "side_name SideSell = ''SELL''"

fun order_type_name :: "order_type \<Rightarrow> string" where
  "order_type_name OtMarket = ''MARKET''" | "order_type_name OtLimit = ''LIMIT''"

section \<open>The in-memory idempotency store\<close>

record idempotency_memory =
  im_byKey :: "(string \<times> idempotency_record) list"
  im_byIntentId :: "(string \<times> idempotency_record) list"

definition idem_getByKey :: "idempotency_memory \<Rightarrow> string \<Rightarrow> idempotency_record option" where
  "idem_getByKey s k = map_of (im_byKey s) k"

definition idem_getByIntentId :: "idempotency_memory \<Rightarrow> string \<Rightarrow> idempotency_record option" where
  "idem_getByIntentId s i = map_of (im_byIntentId s) i"

definition idem_save :: "idempotency_record \<Rightarrow> idempotency_memory \<Rightarrow> idempotency_memory" where
  "idem_save r s =
     s\<lparr>im_byKey := AList.update (id_key r) r (im_byKey s),
       im_byIntentId := AList.update (id_intentId r) r (im_byIntentId s)\<rparr>"

section \<open>The payload hash\<close>

definition payload_fields :: "(jsnum \<Rightarrow> string) \<Rightarrow> order_intent \<Rightarrow> string list" where
  "payload_fields num_text i =
     [it_intentId i, environment_name (it_environment i), it_accountId i, it_strategyId i, it_symbol i,
      side_name (it_side i), order_type_name (it_orderType i), int_string (it_baseQtyRaw i),
      (case it_quoteQtyRaw i of None \<Rightarrow> [] | Some q \<Rightarrow> int_string q), num_text (it_createdAtMs i)]"

definition stablePayload :: "(jsnum \<Rightarrow> string) \<Rightarrow> order_intent \<Rightarrow> string" where
  "stablePayload num_text i = concat (map prefixed (payload_fields num_text i))"

definition hashOrderIntent :: "(string \<Rightarrow> string) \<Rightarrow> (jsnum \<Rightarrow> string) \<Rightarrow> order_intent \<Rightarrow> string" where
  "hashOrderIntent sha num_text i = sha (stablePayload num_text i)"

section \<open>Admission\<close>

definition assertNonEmpty :: "string \<Rightarrow> string \<Rightarrow> unit result" where
  "assertNonEmpty value name = (if blank value then throw (name @ '' is required'') else Inr ())"

definition assert_intent :: "order_intent \<Rightarrow> unit result" where
  "assert_intent i =
     bind_r (assertNonEmpty (it_intentId i) ''intent.intentId'') (\<lambda>_.
     bind_r (assertNonEmpty (it_idempotencyKey i) ''intent.idempotencyKey'') (\<lambda>_.
     bind_r (assertNonEmpty (it_accountId i) ''intent.accountId'') (\<lambda>_.
     bind_r (assertNonEmpty (it_strategyId i) ''intent.strategyId'') (\<lambda>_.
     bind_r (assertNonEmpty (it_symbol i) ''intent.symbol'') (\<lambda>_.
     guard_r (it_baseQtyRaw i \<le> 0) (Error ''intent.baseQtyRaw must be a positive bigint'')
     (guard_r (case it_quoteQtyRaw i of None \<Rightarrow> False | Some q \<Rightarrow> q < 0)
       (Error ''intent.quoteQtyRaw must be a non-negative bigint'') (Inr ())))))))"

definition default_risk_policy :: pre_trade_policy where
  "default_risk_policy = \<lparr>pp_enabled = None, pp_maxOrderQuoteRaw = None, pp_maxPositionBaseRaw = None,
     pp_maxRealizedLossRaw = None\<rparr>"

definition context_policy :: "admission_context \<Rightarrow> pre_trade_policy" where
  "context_policy c = (case ac_riskPolicy c of None \<Rightarrow> default_risk_policy | Some p \<Rightarrow> p)"

definition exposure_blocked :: "admission_context \<Rightarrow> string \<Rightarrow> bool" where
  "exposure_blocked c a =
     (case ac_operationalRestrictions c of None \<Rightarrow> False
      | Some rs \<Rightarrow> (case rx_getActiveForAccount rs a of None \<Rightarrow> False | Some r \<Rightarrow> rx_blockNewExposure r))"

definition admitOrder ::
  "(string \<Rightarrow> string) \<Rightarrow> (jsnum \<Rightarrow> string) \<Rightarrow> ('s \<Rightarrow> string \<Rightarrow> idempotency_record option) \<Rightarrow>
    ('s \<Rightarrow> string \<Rightarrow> idempotency_record option) \<Rightarrow> (idempotency_record \<Rightarrow> 's \<Rightarrow> 's) \<Rightarrow>
    order_intent \<Rightarrow> admission_context \<Rightarrow> 's \<Rightarrow> (admission_decision \<times> 's) result" where
  "admitOrder sha num_text getByKey getByIntentId save i c s =
     bind_r (assert_intent i) (\<lambda>_.
     (let payloadHash = hashOrderIntent sha num_text i;
          auth = ac_authorization c;
          block = (\<lambda>code reason. Inr (AdBlock code None reason payloadHash, s))
      in case getByKey s (it_idempotencyKey i) of
        Some byKey \<Rightarrow>
          if id_payloadHash byKey \<noteq> payloadHash
          then block ArPayloadChangedForIdempotencyKey ''idempotency key was reused for a different payload''
          else Inr (AdDuplicate payloadHash, s)
      | None \<Rightarrow>
        if getByIntentId s (it_intentId i) \<noteq> None
        then block ArIntentReplayedWithDifferentKey
          ''economic intent was reused with a different idempotency key or payload''
        else if as_expiresAtMs auth \<le> ac_nowMs c then block ArAuthorizationExpired ''authorization expired''
        else if as_environment auth \<noteq> it_environment i
        then block ArEnvironmentMismatch ''intent environment is outside authorization scope''
        else if it_accountId i \<notin> set (as_accountIds auth)
        then block ArAccountNotAuthorized ''account is outside authorization scope''
        else if it_strategyId i \<notin> set (as_strategyIds auth)
        then block ArStrategyNotAuthorized ''strategy is outside authorization scope''
        else if it_symbol i \<notin> set (as_symbols auth)
        then block ArSymbolNotAuthorized ''symbol is outside authorization scope''
        else if it_orderType i \<notin> set (as_orderTypes auth)
        then block ArOrderTypeNotAuthorized ''order type is outside authorization scope''
        else if exposure_blocked c (it_accountId i)
        then block ArOperationalRestrictionActive
          ''new exposure is blocked while a critical unknown submission requires manual review''
        else (case evaluatePreTradeRisk (ac_riskPosition c)
            \<lparr>po_side = it_side i, po_baseQtyRaw = it_baseQtyRaw i, po_quoteQtyRaw = it_quoteQtyRaw i\<rparr> (context_policy c) of
          RiskBlock code reason \<Rightarrow> Inr (AdBlock ArRiskBlocked (Some code) reason payloadHash, s)
        | RiskAllow \<Rightarrow>
            Inr (AdAllow payloadHash, save \<lparr>id_key = it_idempotencyKey i, id_intentId = it_intentId i,
              id_payloadHash = payloadHash\<rparr> s))))"

section \<open>Lemmas\<close>

lemma environment_name_inject [simp]: "environment_name a = environment_name b \<longleftrightarrow> a = b"
  by (cases a; cases b) simp_all

lemma side_name_inject [simp]: "side_name a = side_name b \<longleftrightarrow> a = b"
  by (cases a; cases b) simp_all

lemma order_type_name_inject [simp]: "order_type_name a = order_type_name b \<longleftrightarrow> a = b"
  by (cases a; cases b) simp_all

definition same_economics :: "order_intent \<Rightarrow> order_intent \<Rightarrow> bool" where
  "same_economics i j \<longleftrightarrow> it_intentId i = it_intentId j \<and> it_environment i = it_environment j \<and>
     it_accountId i = it_accountId j \<and> it_strategyId i = it_strategyId j \<and> it_symbol i = it_symbol j \<and>
     it_side i = it_side j \<and> it_orderType i = it_orderType j \<and> it_baseQtyRaw i = it_baseQtyRaw j \<and>
     it_quoteQtyRaw i = it_quoteQtyRaw j"

lemma stablePayload_eq_iff:
  "stablePayload num_text i = stablePayload num_text j \<longleftrightarrow>
     same_economics i j \<and> num_text (it_createdAtMs i) = num_text (it_createdAtMs j)"
proof -
  have "stablePayload num_text i = stablePayload num_text j \<longleftrightarrow> payload_fields num_text i = payload_fields num_text j"
    unfolding stablePayload_def
    by (metis concat_prefixed_inject payload_fields_def length_Cons list.size(3))
  also have "\<dots> \<longleftrightarrow> same_economics i j \<and> num_text (it_createdAtMs i) = num_text (it_createdAtMs j)"
    by (auto simp: payload_fields_def same_economics_def split: option.splits)
  finally show ?thesis .
qed

text \<open>The length-prefixed payload is an injective encoding: two intents have the same payload exactly
  when every economic field agrees and their creation times print alike, whatever characters the
  fields contain.\<close>
theorem stablePayload_injective:
  "stablePayload num_text i = stablePayload num_text j \<longleftrightarrow>
     same_economics i j \<and> num_text (it_createdAtMs i) = num_text (it_createdAtMs j)"
  by (rule stablePayload_eq_iff)

locale idempotency_store =
  fixes getByKey :: "'s \<Rightarrow> string \<Rightarrow> idempotency_record option"
    and getByIntentId :: "'s \<Rightarrow> string \<Rightarrow> idempotency_record option"
    and save :: "idempotency_record \<Rightarrow> 's \<Rightarrow> 's"
  assumes key_saved: "getByKey (save r s) k = (if k = id_key r then Some r else getByKey s k)"
    and intent_saved: "getByIntentId (save r s) i = (if i = id_intentId r then Some r else getByIntentId s i)"
begin

abbreviation admit where
  "admit sha num_text \<equiv> admitOrder sha num_text getByKey getByIntentId save"

lemma admit_allow:
  assumes "admit sha num_text i c s = Inr (AdAllow h, s')"
  shows "assert_intent i = Inr () \<and> h = hashOrderIntent sha num_text i \<and>
    s' = save \<lparr>id_key = it_idempotencyKey i, id_intentId = it_intentId i, id_payloadHash = h\<rparr> s \<and>
    getByKey s (it_idempotencyKey i) = None \<and> getByIntentId s (it_intentId i) = None \<and>
    \<not> as_expiresAtMs (ac_authorization c) \<le> ac_nowMs c \<and>
    as_environment (ac_authorization c) = it_environment i \<and>
    it_accountId i \<in> set (as_accountIds (ac_authorization c)) \<and>
    it_strategyId i \<in> set (as_strategyIds (ac_authorization c)) \<and>
    it_symbol i \<in> set (as_symbols (ac_authorization c)) \<and>
    it_orderType i \<in> set (as_orderTypes (ac_authorization c)) \<and>
    \<not> exposure_blocked c (it_accountId i) \<and>
    evaluatePreTradeRisk (ac_riskPosition c)
      \<lparr>po_side = it_side i, po_baseQtyRaw = it_baseQtyRaw i, po_quoteQtyRaw = it_quoteQtyRaw i\<rparr> (context_policy c) = RiskAllow"
proof -
  obtain u where a: "assert_intent i = Inr u" using assms by (auto simp: admitOrder_def result_simps)
  show ?thesis
    using assms
    by (auto simp: admitOrder_def a Let_def split: option.splits if_splits risk_decision.splits)
qed

lemma admit_unchanged:
  assumes "admit sha num_text i c s = Inr (d, s')" "\<forall>h. d \<noteq> AdAllow h"
  shows "s' = s"
proof -
  obtain u where a: "assert_intent i = Inr u" using assms by (auto simp: admitOrder_def result_simps)
  show ?thesis
    using assms
    by (auto simp: admitOrder_def a Let_def split: option.splits if_splits risk_decision.splits)
qed

lemma readmit:
  assumes "admit sha num_text i c s = Inr (AdAllow h, s')" "assert_intent j = Inr ()"
    and "it_idempotencyKey j = it_idempotencyKey i"
  shows "\<exists>d. admit sha num_text j c' s' = Inr (d, s') \<and>
    d = (if hashOrderIntent sha num_text j = h then AdDuplicate h
         else AdBlock ArPayloadChangedForIdempotencyKey None
           ''idempotency key was reused for a different payload'' (hashOrderIntent sha num_text j))"
  using admit_allow [OF assms(1)] assms(2,3) by (auto simp: admitOrder_def key_saved Let_def)

end

interpretation idem: idempotency_store idem_getByKey idem_getByIntentId idem_save
  by unfold_locales (simp_all add: idem_getByKey_def idem_getByIntentId_def idem_save_def)

text \<open>An intent is admitted only inside its authorization scope, before its expiry, with no active
  restriction on its account, with the risk check passed, and with neither its key nor its intent
  id seen before.\<close>
theorem admission_requires:
  assumes "admitOrder sha num_text idem_getByKey idem_getByIntentId idem_save i c s = Inr (AdAllow h, s')"
  shows "\<not> as_expiresAtMs (ac_authorization c) \<le> ac_nowMs c \<and>
    as_environment (ac_authorization c) = it_environment i \<and>
    it_accountId i \<in> set (as_accountIds (ac_authorization c)) \<and>
    it_strategyId i \<in> set (as_strategyIds (ac_authorization c)) \<and>
    it_symbol i \<in> set (as_symbols (ac_authorization c)) \<and>
    it_orderType i \<in> set (as_orderTypes (ac_authorization c)) \<and> 0 < it_baseQtyRaw i \<and>
    \<not> (\<exists>rs r. ac_operationalRestrictions c = Some rs \<and>
        rx_getActiveForAccount rs (it_accountId i) = Some r \<and> rx_blockNewExposure r) \<and>
    (it_side i = SideSell \<and> (\<forall>p. ac_riskPolicy c = Some p \<longrightarrow> pp_enabled p \<noteq> Some False) \<longrightarrow>
      (\<exists>q. ac_riskPosition c = Some q \<and> it_baseQtyRaw i \<le> rp_baseQtyRaw q)) \<and>
    idem_getByKey s (it_idempotencyKey i) = None \<and> idem_getByIntentId s (it_intentId i) = None"
proof -
  note a = idem.admit_allow [OF assms]
  have "0 < it_baseQtyRaw i" using a by (auto simp: assert_intent_def result_simps)
  moreover have "it_side i = SideSell \<and> (\<forall>p. ac_riskPolicy c = Some p \<longrightarrow> pp_enabled p \<noteq> Some False) \<longrightarrow>
      (\<exists>q. ac_riskPosition c = Some q \<and> it_baseQtyRaw i \<le> rp_baseQtyRaw q)"
  proof
    assume s: "it_side i = SideSell \<and> (\<forall>p. ac_riskPolicy c = Some p \<longrightarrow> pp_enabled p \<noteq> Some False)"
    then have "pp_enabled (context_policy c) \<noteq> Some False"
      by (auto simp: context_policy_def default_risk_policy_def split: option.split)
    then show "\<exists>q. ac_riskPosition c = Some q \<and> it_baseQtyRaw i \<le> rp_baseQtyRaw q"
      using a s by (auto simp: evaluatePreTradeRisk_def not_less split: option.splits if_splits)
  qed
  moreover have "\<not> (\<exists>rs r. ac_operationalRestrictions c = Some rs \<and>
      rx_getActiveForAccount rs (it_accountId i) = Some r \<and> rx_blockNewExposure r)"
    using a by (auto simp: exposure_blocked_def)
  ultimately show ?thesis using a by blast
qed

text \<open>After an intent is admitted, a well-formed submission under the same idempotency key never
  reaches the store again: it is answered as a duplicate when its digest is the admitted one and
  blocked as a changed payload otherwise.\<close>
theorem admission_idempotent:
  assumes "admitOrder sha num_text idem_getByKey idem_getByIntentId idem_save i c s = Inr (AdAllow h, s')"
    and "assert_intent j = Inr ()" "it_idempotencyKey j = it_idempotencyKey i"
  shows "\<exists>d. admitOrder sha num_text idem_getByKey idem_getByIntentId idem_save j c' s' = Inr (d, s') \<and>
    d = (if hashOrderIntent sha num_text j = h then AdDuplicate h
         else AdBlock ArPayloadChangedForIdempotencyKey None
           ''idempotency key was reused for a different payload'' (hashOrderIntent sha num_text j))"
  by (rule idem.readmit [OF assms])

section \<open>Concrete runs\<close>

definition sample_intent :: order_intent where
  "sample_intent = \<lparr>it_intentId = ''i'', it_idempotencyKey = ''k'', it_environment = EnvTestnet, it_accountId = ''acc'',
     it_strategyId = ''s'', it_symbol = ''BTC'', it_side = SideBuy, it_orderType = OtMarket, it_baseQtyRaw = 5,
     it_quoteQtyRaw = None, it_createdAtMs = Fin 1\<rparr>"

definition sample_context :: admission_context where
  "sample_context = \<lparr>ac_nowMs = Fin 5, ac_authorization = \<lparr>as_environment = EnvTestnet, as_accountIds = [''acc''],
     as_strategyIds = [''s''], as_symbols = [''BTC''], as_orderTypes = [OtMarket], as_expiresAtMs = Fin 9\<rparr>,
     ac_riskPosition = None, ac_riskPolicy = None, ac_operationalRestrictions = None\<rparr>"

lemma sample_admission:
  "\<exists>s'. admitOrder (take 8) (\<lambda>_. ''1'') idem_getByKey idem_getByIntentId idem_save sample_intent sample_context
      \<lparr>im_byKey = [], im_byIntentId = []\<rparr> = Inr (AdAllow ''1:i7:TES'', s')"
proof -
  have "map_sum id fst (admitOrder (take 8) (\<lambda>_. ''1'') idem_getByKey idem_getByIntentId idem_save sample_intent sample_context
      \<lparr>im_byKey = [], im_byIntentId = []\<rparr>) = Inr (AdAllow ''1:i7:TES'')" by code_simp
  then show ?thesis
    by (cases "admitOrder (take 8) (\<lambda>_. ''1'') idem_getByKey idem_getByIntentId idem_save sample_intent sample_context
      \<lparr>im_byKey = [], im_byIntentId = []\<rparr>") auto
qed

lemma admission_requires_witness: "it_accountId sample_intent \<in> set (as_accountIds (ac_authorization sample_context))"
proof -
  obtain s' where "admitOrder (take 8) (\<lambda>_. ''1'') idem_getByKey idem_getByIntentId idem_save sample_intent sample_context
      \<lparr>im_byKey = [], im_byIntentId = []\<rparr> = Inr (AdAllow ''1:i7:TES'', s')" using sample_admission ..
  from admission_requires [OF this] show ?thesis by blast
qed

lemma admission_idempotent_witness:
  "\<exists>s'. admitOrder (take 8) (\<lambda>_. ''1'') idem_getByKey idem_getByIntentId idem_save
      (sample_intent\<lparr>it_intentId := ''other''\<rparr>) sample_context s' =
    Inr (AdBlock ArPayloadChangedForIdempotencyKey None
           ''idempotency key was reused for a different payload'' ''5:other7'', s')"
proof -
  obtain s' where a: "admitOrder (take 8) (\<lambda>_. ''1'') idem_getByKey idem_getByIntentId idem_save sample_intent sample_context
      \<lparr>im_byKey = [], im_byIntentId = []\<rparr> = Inr (AdAllow ''1:i7:TES'', s')" using sample_admission ..
  have b: "assert_intent (sample_intent\<lparr>it_intentId := ''other''\<rparr>) = Inr ()" by code_simp
  have c: "it_idempotencyKey (sample_intent\<lparr>it_intentId := ''other''\<rparr>) = it_idempotencyKey sample_intent" by simp
  have h: "hashOrderIntent (take 8) (\<lambda>_. ''1'') (sample_intent\<lparr>it_intentId := ''other''\<rparr>) = ''5:other7''" by code_simp
  show ?thesis using admission_idempotent [OF a b c, of sample_context] unfolding h by auto
qed

end
