(* ===== verification/ExecGateway.thy ===== *)
theory ExecGateway imports Admission begin

text \<open>
  \<open>apps/execution/src/execution-gateway.ts\<close>: execution of an admitted order against a provider,
  reconciliation of a submission whose outcome is unknown, and the scripted synthetic provider.
  The provider is a parameter acting on a state of its own; it may throw.  The world also has a journal,
  which no operation reads: every execution that is stored and every request that is sent, in the order
  they happen.  The lemmas show that no intent is ever submitted twice, in any interleaving of executions
  and reconciliations, and that each is stored before it is sent.
\<close>

section \<open>Types\<close>

record provider_request =
  pr_intentId :: string
  pr_clientOrderId :: string
  pr_accountId :: string
  pr_symbol :: string
  pr_side :: ledger_side
  pr_orderType :: order_type
  pr_baseQtyRaw :: int
  pr_quoteQtyRaw :: "int option"

record provider_response =
  ps_accepted :: bool
  ps_providerOrderId :: "string option"
  ps_reason :: "string option"

datatype lookup_result = LookupAccepted string | LookupRejected string | LookupNotFound

datatype lookup_status = LsFoundAccepted | LsFoundRejected | LsNotFound | LsFailed | LsUnsupported

record 'p provider =
  pv_environment :: environment
  pv_submit :: "provider_request \<Rightarrow> 'p \<Rightarrow> provider_response result \<times> 'p"
  pv_lookup :: "(string \<Rightarrow> 'p \<Rightarrow> lookup_result result \<times> 'p) option"

record gateway_context =
  gc_admission :: admission_context
  gc_nowMs :: jsnum
  gc_executionId :: string

record gateway_result =
  gr_admission :: admission_decision
  gr_execution :: "execution_record option"

record reconciliation_result =
  rr_before :: execution_record
  rr_after :: execution_record
  rr_resolved :: bool
  rr_lookupStatus :: lookup_status

text \<open>An entry of the journal: an execution of an intent stored with its status, or a request sent.\<close>

datatype gateway_event = GvStored string submission_status | GvSent provider_request

record 'p gateway_world =
  gw_idempotency :: idempotency_memory
  gw_executions :: execution_repo
  gw_provider :: 'p
  gw_journal :: "gateway_event list"

fun error_message :: "js_error \<Rightarrow> string" where
  "error_message (Error m) = m" | "error_message (RangeError m) = m" | "error_message (TypeError m) = m"

definition toProviderRequest :: "order_intent \<Rightarrow> provider_request" where
  "toProviderRequest i =
     \<lparr>pr_intentId = it_intentId i, pr_clientOrderId = it_idempotencyKey i, pr_accountId = it_accountId i,
      pr_symbol = it_symbol i, pr_side = it_side i, pr_orderType = it_orderType i,
      pr_baseQtyRaw = it_baseQtyRaw i, pr_quoteQtyRaw = it_quoteQtyRaw i\<rparr>"

section \<open>Execution\<close>

definition save_execution ::
  "execution_record \<Rightarrow> 'p gateway_world \<Rightarrow> execution_record result \<times> 'p gateway_world" where
  "save_execution r w =
     (case exec_save r (gw_executions w) of
        Inl e \<Rightarrow> (Inl e, w) | Inr (s, m) \<Rightarrow> (Inr s, w\<lparr>gw_executions := m, gw_journal := gw_journal w @ [GvStored (er_intentId r) (er_status r)]\<rparr>))"

definition submit_admitted ::
  "'p provider \<Rightarrow> order_intent \<Rightarrow> jsnum \<Rightarrow> admission_decision \<Rightarrow> execution_record \<Rightarrow> 'p gateway_world \<Rightarrow>
    gateway_result result \<times> 'p gateway_world" where
  "submit_admitted provider i nowMs admission submitting w =
     (let finish = (\<lambda>(r, w'). (bind_r r (\<lambda>x. Inr \<lparr>gr_admission = admission, gr_execution = Some x\<rparr>), w'));
          unknown = (\<lambda>e w'. finish (save_execution (submitting\<lparr>er_status := SsUnknown,
            er_reason := Some (error_message e), er_updatedAtMs := nowMs\<rparr>) w'));
          sent_to = (\<lambda>p. w\<lparr>gw_provider := p, gw_journal := gw_journal w @ [GvSent (toProviderRequest i)]\<rparr>)
      in case pv_submit provider (toProviderRequest i) (gw_provider w) of
        (Inl e, p) \<Rightarrow> unknown e (sent_to p)
      | (Inr response, p) \<Rightarrow>
        (case save_execution (submitting\<lparr>er_status := (if ps_accepted response then SsAccepted else SsRejected),
              er_providerOrderId := ps_providerOrderId response, er_reason := ps_reason response,
              er_updatedAtMs := nowMs\<rparr>) (sent_to p) of
           (Inl e, w2) \<Rightarrow> unknown e w2
         | (Inr completed, w2) \<Rightarrow> finish (Inr completed, w2)))"

definition executeAdmittedOrder ::
  "(string \<Rightarrow> string) \<Rightarrow> (jsnum \<Rightarrow> string) \<Rightarrow> 'p provider \<Rightarrow> order_intent \<Rightarrow> gateway_context \<Rightarrow>
    'p gateway_world \<Rightarrow> gateway_result result \<times> 'p gateway_world" where
  "executeAdmittedOrder sha num_text provider i c w =
     (if it_environment i = EnvProduction
      then (throw ''production execution is not available in the reconstructed baseline'', w)
      else if pv_environment provider \<noteq> it_environment i
      then (throw ''provider environment does not match order intent'', w)
      else case exec_getByIntentId (gw_executions w) (it_intentId i) of
        Some existing \<Rightarrow>
          (Inr \<lparr>gr_admission = AdDuplicate (er_payloadHash existing), gr_execution = Some existing\<rparr>, w)
      | None \<Rightarrow>
        (case admitOrder sha num_text idem_getByKey idem_getByIntentId idem_save i (gc_admission c) (gw_idempotency w) of
           Inl e \<Rightarrow> (Inl e, w)
         | Inr (AdAllow h, s) \<Rightarrow>
           (case save_execution \<lparr>er_executionId = gc_executionId c, er_intentId = it_intentId i,
                er_idempotencyKey = it_idempotencyKey i, er_payloadHash = h, er_status = SsSubmitting,
                er_providerOrderId = None, er_reason = None, er_createdAtMs = gc_nowMs c,
                er_updatedAtMs = gc_nowMs c\<rparr> (w\<lparr>gw_idempotency := s\<rparr>) of
              (Inl e, w1) \<Rightarrow> (Inl e, w1)
            | (Inr submitting, w1) \<Rightarrow> submit_admitted provider i (gc_nowMs c) (AdAllow h) submitting w1)
         | Inr (admission, s) \<Rightarrow>
           (Inr \<lparr>gr_admission = admission, gr_execution = None\<rparr>, w\<lparr>gw_idempotency := s\<rparr>)))"

section \<open>Unknown submissions\<close>

definition save_reconciled ::
  "execution_record \<Rightarrow> bool \<Rightarrow> lookup_status \<Rightarrow> execution_record \<Rightarrow> 'p gateway_world \<Rightarrow>
    reconciliation_result result \<times> 'p gateway_world" where
  "save_reconciled before resolved status r w =
     (case save_execution r w of
        (Inl e, w2) \<Rightarrow> (Inl e, w2)
      | (Inr after, w2) \<Rightarrow> (Inr \<lparr>rr_before = before, rr_after = after, rr_resolved = resolved,
          rr_lookupStatus = status\<rparr>, w2))"

definition lookup_settles ::
  "execution_record \<Rightarrow> jsnum \<Rightarrow> lookup_result \<Rightarrow> 'p gateway_world \<Rightarrow> reconciliation_result result \<times> 'p gateway_world" where
  "lookup_settles before nowMs found w =
     (case found of
        LookupNotFound \<Rightarrow> save_reconciled before False LsNotFound
          (before\<lparr>er_reason := Some ''provider order not found; automatic resubmission remains prohibited'',
             er_updatedAtMs := nowMs\<rparr>) w
      | LookupAccepted providerOrderId \<Rightarrow> save_reconciled before True LsFoundAccepted
          (before\<lparr>er_status := SsAccepted, er_providerOrderId := Some providerOrderId, er_reason := None,
             er_updatedAtMs := nowMs\<rparr>) w
      | LookupRejected reason \<Rightarrow> save_reconciled before True LsFoundRejected
          (before\<lparr>er_status := SsRejected, er_providerOrderId := None, er_reason := Some reason,
             er_updatedAtMs := nowMs\<rparr>) w)"

definition reconcileUnknownSubmission ::
  "'p provider \<Rightarrow> string \<Rightarrow> jsnum \<Rightarrow> 'p gateway_world \<Rightarrow> reconciliation_result result \<times> 'p gateway_world" where
  "reconcileUnknownSubmission provider intentId nowMs w =
     (case exec_getByIntentId (gw_executions w) intentId of
        None \<Rightarrow> (throw ''execution record not found'', w)
      | Some before \<Rightarrow>
        if er_status before \<noteq> SsUnknown
        then (throw ''only submission-unknown executions can be reconciled'', w)
        else case pv_lookup provider of
          None \<Rightarrow> save_reconciled before False LsUnsupported
            (before\<lparr>er_reason := Some ''provider lookup unsupported; automatic resubmission remains prohibited'',
               er_updatedAtMs := nowMs\<rparr>) w
        | Some lookup \<Rightarrow>
          (let failed = (\<lambda>e w'. save_reconciled before False LsFailed
             (before\<lparr>er_reason := Some (error_message e), er_updatedAtMs := nowMs\<rparr>) w') in
           case lookup (er_idempotencyKey before) (gw_provider w) of
             (Inl e, p) \<Rightarrow> failed e (w\<lparr>gw_provider := p\<rparr>)
           | (Inr found, p) \<Rightarrow>
             (case lookup_settles before nowMs found (w\<lparr>gw_provider := p\<rparr>) of
                (Inl e, w2) \<Rightarrow> failed e w2
              | (Inr r, w2) \<Rightarrow> (Inr r, w2))))"

section \<open>The scripted provider\<close>

datatype synthetic_outcome = SynAccept string | SynReject string | SynThrow string

datatype synthetic_lookup = SynLookup lookup_result | SynLookupThrow string

record scripted_provider =
  sp_submitCount :: nat
  sp_lookupCount :: nat
  sp_outcomes :: "synthetic_outcome list"
  sp_lookupOutcomes :: "synthetic_lookup list"

definition scripted_submit ::
  "provider_request \<Rightarrow> scripted_provider \<Rightarrow> provider_response result \<times> scripted_provider" where
  "scripted_submit q p =
     (let n = sp_submitCount p; p2 = p\<lparr>sp_submitCount := n + 1\<rparr> in
      if n < length (sp_outcomes p)
      then (case sp_outcomes p ! n of
          SynThrow reason \<Rightarrow> (throw reason, p2)
        | SynReject reason \<Rightarrow> (Inr \<lparr>ps_accepted = False, ps_providerOrderId = None, ps_reason = Some reason\<rparr>, p2)
        | SynAccept i \<Rightarrow> (Inr \<lparr>ps_accepted = True, ps_providerOrderId = Some i, ps_reason = None\<rparr>, p2))
      else (throw ''no synthetic provider outcome configured'', p2))"

definition scripted_lookup :: "string \<Rightarrow> scripted_provider \<Rightarrow> lookup_result result \<times> scripted_provider" where
  "scripted_lookup clientOrderId p =
     (let n = sp_lookupCount p; p2 = p\<lparr>sp_lookupCount := n + 1\<rparr> in
      if n < length (sp_lookupOutcomes p)
      then (case sp_lookupOutcomes p ! n of
          SynLookupThrow reason \<Rightarrow> (throw reason, p2)
        | SynLookup r \<Rightarrow> (Inr r, p2))
      else (Inr LookupNotFound, p2))"

definition ScriptedSyntheticOrderProvider :: "scripted_provider provider" where
  "ScriptedSyntheticOrderProvider =
     \<lparr>pv_environment = EnvSynthetic, pv_submit = scripted_submit, pv_lookup = Some scripted_lookup\<rparr>"

section \<open>No intent is submitted twice\<close>

text \<open>A provider that also records the requests it is sent.\<close>

definition recording :: "'p provider \<Rightarrow> (provider_request list \<times> 'p) provider" where
  "recording v =
     \<lparr>pv_environment = pv_environment v,
      pv_submit = (\<lambda>q (log, p). case pv_submit v q p of (r, p2) \<Rightarrow> (r, (log @ [q], p2))),
      pv_lookup = map_option (\<lambda>f k (log, p). case f k p of (r, p2) \<Rightarrow> (r, (log, p2))) (pv_lookup v)\<rparr>"

datatype gateway_call = GcExecute order_intent gateway_context | GcReconcile string jsnum

fun gateway_apply ::
  "(string \<Rightarrow> string) \<Rightarrow> (jsnum \<Rightarrow> string) \<Rightarrow> 'p provider \<Rightarrow> gateway_call \<Rightarrow> 'p gateway_world \<Rightarrow> 'p gateway_world" where
  "gateway_apply sha num_text v (GcExecute i c) w = snd (executeAdmittedOrder sha num_text v i c w)"
| "gateway_apply sha num_text v (GcReconcile intentId nowMs) w = snd (reconcileUnknownSubmission v intentId nowMs w)"

definition sent :: "(provider_request list \<times> 'p) gateway_world \<Rightarrow> string list" where
  "sent w = map pr_intentId (fst (gw_provider w))"

definition known :: "'p gateway_world \<Rightarrow> string set" where
  "known w = {i. exec_getByIntentId (gw_executions w) i \<noteq> None}"

lemma known_other [simp]:
  "known (w\<lparr>gw_provider := p\<rparr>) = known w" "known (w\<lparr>gw_idempotency := s\<rparr>) = known w" "known (w\<lparr>gw_journal := j\<rparr>) = known w"
  by (simp_all add: known_def)

fun sends :: "gateway_event list \<Rightarrow> provider_request list" where
  "sends [] = []"
| "sends (GvStored i st # j) = sends j"
| "sends (GvSent q # j) = q # sends j"

lemma sends_append [simp]: "sends (j @ j') = sends j @ sends j'"
  by (induction j rule: sends.induct) simp_all

text \<open>Every request of the journal comes after an entry that stores its intent as being submitted.\<close>

definition stored_before :: "gateway_event list \<Rightarrow> bool" where
  "stored_before j \<longleftrightarrow>
     (\<forall>us q vs. j = us @ GvSent q # vs \<longrightarrow> GvStored (pr_intentId q) SsSubmitting \<in> set us)"

lemma stored_before_Nil: "stored_before []"
  by (simp add: stored_before_def)

lemma stored_before_snoc:
  "stored_before (j @ [v]) \<longleftrightarrow>
    stored_before j \<and> (\<forall>q. v = GvSent q \<longrightarrow> GvStored (pr_intentId q) SsSubmitting \<in> set j)"
proof -
  have "(j @ [v] = us @ x # vs) \<longleftrightarrow> (vs = [] \<and> us = j \<and> x = v) \<or> (\<exists>ws. vs = ws @ [v] \<and> j = us @ x # ws)" for us x vs
    by (cases vs rule: rev_cases) auto
  note snoc = this
  show ?thesis
  proof
    assume a: "stored_before (j @ [v])"
    have "stored_before j" unfolding stored_before_def
    proof (intro allI impI)
      fix us q vs
      assume "j = us @ GvSent q # vs"
      then have "j @ [v] = us @ GvSent q # (vs @ [v])" by simp
      then show "GvStored (pr_intentId q) SsSubmitting \<in> set us" using a unfolding stored_before_def by blast
    qed
    moreover have "GvStored (pr_intentId q) SsSubmitting \<in> set j" if "v = GvSent q" for q
      using a that unfolding stored_before_def by blast
    ultimately show "stored_before j \<and> (\<forall>q. v = GvSent q \<longrightarrow> GvStored (pr_intentId q) SsSubmitting \<in> set j)" by blast
  next
    assume b: "stored_before j \<and> (\<forall>q. v = GvSent q \<longrightarrow> GvStored (pr_intentId q) SsSubmitting \<in> set j)"
    show "stored_before (j @ [v])" unfolding stored_before_def
    proof (intro allI impI)
      fix us q vs
      assume "j @ [v] = us @ GvSent q # vs"
      then show "GvStored (pr_intentId q) SsSubmitting \<in> set us"
        using b unfolding snoc stored_before_def by (elim disjE exE conjE) simp_all
    qed
  qed
qed

lemma stored_before_quiet:
  assumes "stored_before j" "sends us = []"
  shows "stored_before (j @ us)"
  using assms(2)
proof (induction us rule: rev_induct)
  case (snoc v us)
  then have "sends us = []" "\<nexists>q. v = GvSent q" by (cases v; simp)+
  then show ?case using snoc stored_before_snoc [of "j @ us" v] by simp
qed (simp add: assms(1))

text \<open>What later saves keep: the executions known so far, the provider and the requests sent.\<close>

definition extends :: "'p gateway_world \<Rightarrow> 'p gateway_world \<Rightarrow> bool" where
  "extends w w' \<longleftrightarrow> known w \<subseteq> known w' \<and> gw_provider w' = gw_provider w \<and>
     (\<exists>us. gw_journal w' = gw_journal w @ us \<and> sends us = [])"

lemma extends_refl [simp]: "extends w w"
  by (simp add: extends_def)

lemma extends_trans:
  assumes "extends u v" "extends v w"
  shows "extends u w"
proof -
  obtain us vs where "gw_journal v = gw_journal u @ us" "sends us = []" "gw_journal w = gw_journal v @ vs" "sends vs = []"
    using assms by (auto simp: extends_def)
  then have "\<exists>us. gw_journal w = gw_journal u @ us \<and> sends us = []" by (intro exI [of _ "us @ vs"]) simp
  then show ?thesis using assms by (auto simp: extends_def)
qed

lemma extends_save [simp, intro]: "extends w (snd (save_execution r w))"
  by (auto simp: save_execution_def extends_def known_def exec_save_Inr exec_getByIntentId_def
      split: sum.split prod.split)

lemma save_execution_known:
  "save_execution r w = (Inr x, w') \<Longrightarrow>
    x = r \<and> er_intentId r \<in> known w' \<and> GvStored (er_intentId r) (er_status r) \<in> set (gw_journal w')"
  by (auto simp: save_execution_def known_def exec_save_Inr exec_getByIntentId_def split: sum.splits prod.splits)

lemma save_reconciled_snd [simp]: "snd (save_reconciled b d st r w) = snd (save_execution r w)"
  by (cases "save_execution r w") (auto simp: save_reconciled_def split: sum.split)

lemma lookup_settles_snd: "\<exists>r. snd (lookup_settles b n f w) = snd (save_execution r w)"
  by (cases f) (auto simp: lookup_settles_def)

lemma extends_saves: "extends w (snd (save_execution r (snd (save_execution r' w))))"
  by (rule extends_trans [OF extends_save extends_save])

lemma submit_admitted_extends:
  "extends (w\<lparr>gw_provider := snd (pv_submit v (toProviderRequest i) (gw_provider w)),
       gw_journal := gw_journal w @ [GvSent (toProviderRequest i)]\<rparr>)
     (snd (submit_admitted v i n a s w))"
proof -
  obtain r p where sub: "pv_submit v (toProviderRequest i) (gw_provider w) = (r, p)" by force
  let ?w = "w\<lparr>gw_provider := p, gw_journal := gw_journal w @ [GvSent (toProviderRequest i)]\<rparr>"
  show ?thesis
  proof (cases r)
    case (Inl e)
    then show ?thesis by (simp add: submit_admitted_def sub case_prod_beta)
  next
    case (Inr response)
    let ?r = "s\<lparr>er_status := (if ps_accepted response then SsAccepted else SsRejected),
              er_providerOrderId := ps_providerOrderId response, er_reason := ps_reason response,
              er_updatedAtMs := n\<rparr>"
    obtain x w2 where sv: "save_execution ?r ?w = (x, w2)" by force
    then have w2: "w2 = snd (save_execution ?r ?w)" by simp
    have "extends ?w w2" unfolding w2 by (rule extends_save)
    moreover have "extends ?w (snd (save_execution q w2))" for q unfolding w2 by (rule extends_saves)
    ultimately show ?thesis
      using sub Inr sv by (cases x) (auto simp: submit_admitted_def case_prod_beta)
  qed
qed

lemma reconcile_extends:
  "\<exists>p. (p = gw_provider w \<or> (\<exists>f k. pv_lookup v = Some f \<and> p = snd (f k (gw_provider w)))) \<and>
     extends (w\<lparr>gw_provider := p\<rparr>) (snd (reconcileUnknownSubmission v intentId n w))"
proof (cases "exec_getByIntentId (gw_executions w) intentId")
  case None
  then show ?thesis by (intro exI [of _ "gw_provider w"]) (simp add: reconcileUnknownSubmission_def)
next
  case (Some b)
  show ?thesis
  proof (cases "er_status b \<noteq> SsUnknown \<or> pv_lookup v = None")
    case True
    then show ?thesis using Some
      by (intro exI [of _ "gw_provider w"]) (auto simp: reconcileUnknownSubmission_def)
  next
    case False
    then obtain f where f: "pv_lookup v = Some f" by auto
    obtain r p where lk: "f (er_idempotencyKey b) (gw_provider w) = (r, p)" by force
    let ?w = "w\<lparr>gw_provider := p\<rparr>"
    have p: "p = snd (f (er_idempotencyKey b) (gw_provider w))" using lk by simp
    have "extends ?w (snd (reconcileUnknownSubmission v intentId n w))"
    proof (cases r)
      case (Inl e)
      then show ?thesis using Some False f lk by (simp add: reconcileUnknownSubmission_def)
    next
      case (Inr found)
      obtain x w2 where st: "lookup_settles b n found ?w = (x, w2)" by force
      obtain q where "w2 = snd (save_execution q ?w)" using lookup_settles_snd [of b n found ?w] st by auto
      then have "extends ?w w2" "extends ?w (snd (save_execution q' w2))" for q'
        using extends_save extends_saves by auto
      then show ?thesis using Some False f lk Inr st
        by (cases x) (auto simp: reconcileUnknownSubmission_def)
    qed
    then show ?thesis using f p by blast
  qed
qed

lemma recording_submit: "fst (snd (pv_submit (recording v) q p)) = fst p @ [q]"
  by (cases p) (simp add: recording_def split: prod.split)

lemma recording_lookup: "pv_lookup (recording v) = Some f \<Longrightarrow> fst (snd (f k p)) = fst p"
  by (cases p) (auto simp: recording_def split: prod.split)

definition submitted_once :: "(provider_request list \<times> 'p) gateway_world \<Rightarrow> bool" where
  "submitted_once w \<longleftrightarrow> distinct (sent w) \<and> set (sent w) \<subseteq> known w \<and>
     fst (gw_provider w) = sends (gw_journal w) \<and> stored_before (gw_journal w)"

lemma extends_once: "submitted_once w \<Longrightarrow> extends w w' \<Longrightarrow> submitted_once w'"
proof -
  assume w: "submitted_once w" and e: "extends w w'"
  have "sent w' = sent w" using e by (simp add: extends_def sent_def)
  moreover have "set (sent w) \<subseteq> known w'" using w e unfolding submitted_once_def extends_def by (blast intro: subset_trans)
  ultimately show "submitted_once w'" using w e by (auto simp: submitted_once_def extends_def stored_before_quiet)
qed

lemma execute_once:
  assumes "submitted_once w"
  shows "submitted_once (snd (executeAdmittedOrder sha num_text (recording v) i c w))"
proof (cases "it_environment i = EnvProduction \<or> pv_environment v \<noteq> it_environment i
    \<or> exec_getByIntentId (gw_executions w) (it_intentId i) \<noteq> None")
  case True
  then show ?thesis using assms by (auto simp: executeAdmittedOrder_def recording_def)
next
  case False
  then have fresh: "it_intentId i \<notin> known w" and env: "it_environment i \<noteq> EnvProduction"
      "pv_environment (recording v) = it_environment i"
    by (auto simp: known_def recording_def)
  have idem: "submitted_once (w\<lparr>gw_idempotency := s\<rparr>)" for s
  proof -
    have "sent (w\<lparr>gw_idempotency := s\<rparr>) = sent w" by (simp add: sent_def)
    then show ?thesis using assms unfolding submitted_once_def by simp
  qed
  show ?thesis
  proof (cases "\<exists>h s. admitOrder sha num_text idem_getByKey idem_getByIntentId idem_save i (gc_admission c)
      (gw_idempotency w) = Inr (AdAllow h, s)")
    case no: False
    have "snd (executeAdmittedOrder sha num_text (recording v) i c w) \<in> insert w (range (\<lambda>s. w\<lparr>gw_idempotency := s\<rparr>))"
      using no False env by (auto simp: executeAdmittedOrder_def split: sum.split admission_decision.split)
    then show ?thesis using assms idem by auto
  next
    case True
    then obtain h s where ad: "admitOrder sha num_text idem_getByKey idem_getByIntentId idem_save i (gc_admission c)
      (gw_idempotency w) = Inr (AdAllow h, s)" by blast
    let ?w = "w\<lparr>gw_idempotency := s\<rparr>"
    let ?r = "\<lparr>er_executionId = gc_executionId c, er_intentId = it_intentId i,
                er_idempotencyKey = it_idempotencyKey i, er_payloadHash = h, er_status = SsSubmitting,
                er_providerOrderId = None, er_reason = None, er_createdAtMs = gc_nowMs c,
                er_updatedAtMs = gc_nowMs c\<rparr>"
    obtain x w1 where sv: "save_execution ?r ?w = (x, w1)" by force
    have e1: "extends ?w w1" using extends_save [of ?w ?r] sv by simp
    have o1: "submitted_once w1" using extends_once [OF idem e1] .
    show ?thesis
    proof (cases x)
      case (Inl e)
      then show ?thesis using o1 False env ad sv by (simp add: executeAdmittedOrder_def)
    next
      case (Inr submitting)
      let ?w2 = "w1\<lparr>gw_provider := snd (pv_submit (recording v) (toProviderRequest i) (gw_provider w1)),
        gw_journal := gw_journal w1 @ [GvSent (toProviderRequest i)]\<rparr>"
      have k: "it_intentId i \<in> known w1" "GvStored (it_intentId i) SsSubmitting \<in> set (gw_journal w1)"
        using save_execution_known [of ?r ?w] sv Inr by auto
      have s1: "sent w1 = sent w" using e1 by (simp add: extends_def sent_def)
      have "it_intentId i \<notin> set (sent w)" using assms fresh by (auto simp: submitted_once_def)
      moreover have "fst (gw_provider ?w2) = fst (gw_provider w1) @ [toProviderRequest i]" by (simp add: recording_submit)
      moreover from this have "sent ?w2 = sent w1 @ [it_intentId i]" by (simp add: sent_def toProviderRequest_def)
      ultimately have "submitted_once ?w2" using o1 k s1
        by (auto simp: submitted_once_def stored_before_snoc toProviderRequest_def)
      then have "submitted_once (snd (submit_admitted (recording v) i (gc_nowMs c) (AdAllow h) submitting w1))"
        using extends_once submit_admitted_extends by blast
      then show ?thesis using False env ad sv Inr by (simp add: executeAdmittedOrder_def)
    qed
  qed
qed

text \<open>Reconciliation sends nothing, in whatever world.\<close>

lemma reconcile_sent:
  fixes w :: "(provider_request list \<times> 'p) gateway_world"
  assumes w'_def: "w' = snd (reconcileUnknownSubmission (recording v) intentId n w)"
  shows "fst (gw_provider w') = fst (gw_provider w) \<and> known w \<subseteq> known w' \<and>
    (\<exists>us. gw_journal w' = gw_journal w @ us \<and> sends us = [])"
proof -
  obtain p where p: "p = gw_provider w \<or> (\<exists>f k. pv_lookup (recording v) = Some f \<and> p = snd (f k (gw_provider w)))"
    "extends (w\<lparr>gw_provider := p\<rparr>) w'"
    using reconcile_extends [of w "recording v" intentId n] unfolding w'_def by blast
  have "fst p = fst (gw_provider w)" using p(1)
  proof
    assume "\<exists>f k. pv_lookup (recording v) = Some f \<and> p = snd (f k (gw_provider w))"
    then show ?thesis by (elim exE conjE) (simp add: recording_lookup)
  qed simp
  then show ?thesis using p(2) by (auto simp: extends_def)
qed

lemma reconcile_once:
  "submitted_once w \<Longrightarrow> submitted_once (snd (reconcileUnknownSubmission (recording v) intentId n w))"
proof -
  assume w: "submitted_once w"
  let ?w = "snd (reconcileUnknownSubmission (recording v) intentId n w)"
  note r = reconcile_sent [OF refl, of v intentId n w]
  have "sent ?w = sent w" using r by (simp add: sent_def)
  moreover have "set (sent w) \<subseteq> known ?w" using w r unfolding submitted_once_def by (blast intro: subset_trans)
  ultimately show "submitted_once ?w" using w r by (auto simp: submitted_once_def stored_before_quiet)
qed

lemma gateway_apply_once: "submitted_once w \<Longrightarrow> submitted_once (gateway_apply sha num_text (recording v) call w)"
  by (cases call) (simp_all add: execute_once reconcile_once)

text \<open>C4: In any interleaving of executions and reconciliations from an empty gateway, whatever the
  provider answers or throws and whatever the admission contexts are, the provider is sent each
  intent at most once.  The journal of what was stored and sent names exactly the requests the provider
  received, and each of them comes after an execution of its intent was stored as being submitted.  A
  reconciliation sends nothing, in whatever state of the gateway it runs.\<close>
theorem no_intent_submitted_twice:
  assumes "gw_executions w = []" "fst (gw_provider w) = []" "gw_journal w = []"
  shows "distinct (sent (fold (gateway_apply sha num_text (recording v)) calls w)) \<and>
    set (sent (fold (gateway_apply sha num_text (recording v)) calls w))
      \<subseteq> known (fold (gateway_apply sha num_text (recording v)) calls w) \<and>
    fst (gw_provider (fold (gateway_apply sha num_text (recording v)) calls w)) =
      sends (gw_journal (fold (gateway_apply sha num_text (recording v)) calls w)) \<and>
    stored_before (gw_journal (fold (gateway_apply sha num_text (recording v)) calls w)) \<and>
    (\<forall>u. fst (gw_provider (gateway_apply sha num_text (recording v) (GcReconcile i n) u)) = fst (gw_provider u))"
proof -
  have "submitted_once w" using assms by (simp add: submitted_once_def sent_def stored_before_Nil)
  moreover have "submitted_once (fold (gateway_apply sha num_text (recording v)) calls u)" if "submitted_once u" for u
    using that by (induction calls arbitrary: u) (simp_all del: gateway_apply.simps add: gateway_apply_once)
  ultimately show ?thesis using reconcile_sent [OF refl, of v i n] by (simp add: submitted_once_def)
qed

text \<open>One order whose submission times out and whose outcome is then looked up: one request is sent, after its store.\<close>

definition sample_gateway_calls :: "gateway_call list" where
  "sample_gateway_calls =
     [GcExecute (sample_intent\<lparr>it_environment := EnvSynthetic\<rparr>) \<lparr>gc_admission = sample_context\<lparr>ac_authorization :=
        (ac_authorization sample_context)\<lparr>as_environment := EnvSynthetic\<rparr>\<rparr>, gc_nowMs = Fin 5, gc_executionId = ''x''\<rparr>, GcReconcile ''i'' (Fin 6)]"

definition sample_gateway :: "(provider_request list \<times> scripted_provider) gateway_world" where
  "sample_gateway = \<lparr>gw_idempotency = \<lparr>im_byKey = [], im_byIntentId = []\<rparr>, gw_executions = [],
      gw_provider = ([], \<lparr>sp_submitCount = 0, sp_lookupCount = 0, sp_outcomes = [SynThrow ''timeout''],
        sp_lookupOutcomes = []\<rparr>), gw_journal = []\<rparr>"

lemma no_intent_submitted_twice_witness:
  "let w = fold (gateway_apply (take 8) (\<lambda>_. ''1'') (recording ScriptedSyntheticOrderProvider)) sample_gateway_calls sample_gateway
   in sent w = [''i''] \<and> stored_before (gw_journal w)"
proof -
  have "sent (fold (gateway_apply (take 8) (\<lambda>_. ''1'') (recording ScriptedSyntheticOrderProvider)) sample_gateway_calls sample_gateway) = [''i'']"
    by code_simp
  moreover have "gw_executions sample_gateway = []" "fst (gw_provider sample_gateway) = []" "gw_journal sample_gateway = []"
    by (simp_all add: sample_gateway_def)
  note no_intent_submitted_twice [OF this]
  ultimately show ?thesis unfolding Let_def by blast
qed

end
