(* ===== verification/RiskGateway.thy ===== *)
theory RiskGateway imports Prelude begin

text \<open>
  \<open>packages/core/src/independentRiskGateway.ts\<close> with \<open>packages/contracts/src/riskGateway.ts\<close>: the
  independent pre-trade risk gateway of the paper system and the deployment safety gate.
  Parameters: the hashes of a request, of a decision and of a descriptor (SHA-256 of their JSON
  texts).  What the contract's types exclude (a missing block, a value of another type) is not
  represented; numbers that are not finite, empty texts and another schema version are.
\<close>

section \<open>The contract\<close>

datatype risk_status = RgAllow | RgReject | RgHalt

datatype risk_code =
  RkInvalidRequest | RkLiveCapabilityDetected | RkPrivateApiCapabilityDetected |
  RkDeploymentIntegrityFailed | RkKillSwitchActive | RkStrategyFingerprintMismatch |
  RkConfigFingerprintMismatch | RkRuntimeFingerprintMismatch |
  RkRiskPolicyFingerprintMismatch | RkApprovalMissing | RkApprovalExpired |
  RkApprovalScopeMismatch | RkPersistenceUnhealthy | RkReconciliationFailed |
  RkOpenP0Alert | RkMarketDataStale | RkMarketDataReconnecting | RkMarketDataWarmingUp |
  RkMarketDataGap | RkMarketDataOutOfOrder | RkMarketDataInvalid | RkPriceDeviationLimit |
  RkDuplicateSignal | RkDuplicateCommand | RkDuplicateClientOrderId |
  RkOrderRateLimitPerSecond | RkOrderRateLimitPerMinute | RkSameSideBurstLimit |
  RkOpenOrderLimit | RkMaxOrderNotional | RkMaxPositionNotional | RkMaxSymbolExposure |
  RkMaxPortfolioExposure | RkMaxDailyBuyNotional | RkMaxDailySellNotional |
  RkInsufficientCash | RkInsufficientPosition | RkDailyLossLimit | RkConsecutiveLossLimit |
  RkSessionDrawdownLimit

datatype data_status = DsHealthy | DsStale | DsReconnecting | DsWarmingUp | DsGapDetected | DsOutOfOrder | DsInvalid

datatype trade_side = TsBuy | TsSell

record market_data_state =
  md_status :: data_status
  md_price :: "jsnum option"

record account_state =
  ac_cash :: jsnum
  ac_positionQuantity :: jsnum
  ac_openOrderCount :: jsnum

record control_state =
  ct_killSwitchActive :: bool
  ct_liveCapabilityDetected :: bool
  ct_privateApiCapabilityDetected :: bool

record approval_state =
  ap_approved :: bool
  ap_expiresAt :: jsnum
  ap_symbols :: "string list"

record rate_flow =
  rf_ordersInLastSecond :: jsnum
  rf_ordersInLastMinute :: jsnum
  rf_sameSideStreak :: jsnum

record exposure_state =
  ex_symbolExposureNotional :: jsnum
  ex_portfolioExposureNotional :: jsnum
  ex_dailyBuyNotional :: jsnum
  ex_dailySellNotional :: jsnum

record session_state =
  se_dailyRealizedPnL :: jsnum
  se_consecutiveLossCount :: jsnum
  se_sessionPeakEquity :: jsnum
  se_sessionEquity :: jsnum

record risk_request =
  rk_schemaVersion :: jsnum
  rk_requestId :: string
  rk_signalId :: string
  rk_commandId :: string
  rk_clientOrderId :: string
  rk_strategyFingerprint :: string
  rk_configFingerprint :: string
  rk_runtimeFingerprint :: string
  rk_riskPolicyFingerprint :: string
  rk_symbol :: string
  rk_side :: trade_side
  rk_quantity :: jsnum
  rk_referencePrice :: jsnum
  rk_requestedAt :: jsnum
  rk_marketDataState :: market_data_state
  rk_accountState :: account_state
  rk_controlState :: control_state
  rk_approvalState :: approval_state
  rk_persistenceHealthy :: bool
  rk_reconciliationHealthy :: bool
  rk_openP0 :: bool
  rk_integrityVerified :: bool
  rk_rateState :: rate_flow
  rk_exposureState :: exposure_state
  rk_sessionState :: session_state

record risk_gateway_decision =
  rg_status :: risk_status
  rg_reasonCodes :: "risk_code list"
  rg_evaluatedAt :: jsnum
  rg_requestSha256 :: string
  rg_decisionSha256 :: string
  rg_productionMutationAllowed :: bool

definition RISK_REASON_ORDER :: "risk_code list" where
  "RISK_REASON_ORDER =
    [RkInvalidRequest, RkLiveCapabilityDetected, RkPrivateApiCapabilityDetected,
     RkDeploymentIntegrityFailed, RkKillSwitchActive, RkStrategyFingerprintMismatch,
     RkConfigFingerprintMismatch, RkRuntimeFingerprintMismatch,
     RkRiskPolicyFingerprintMismatch, RkApprovalMissing, RkApprovalExpired,
     RkApprovalScopeMismatch, RkPersistenceUnhealthy, RkReconciliationFailed, RkOpenP0Alert,
     RkMarketDataStale, RkMarketDataReconnecting, RkMarketDataWarmingUp, RkMarketDataGap,
     RkMarketDataOutOfOrder, RkMarketDataInvalid, RkPriceDeviationLimit, RkDuplicateSignal,
     RkDuplicateCommand, RkDuplicateClientOrderId, RkOrderRateLimitPerSecond,
     RkOrderRateLimitPerMinute, RkSameSideBurstLimit, RkOpenOrderLimit, RkMaxOrderNotional,
     RkMaxPositionNotional, RkMaxSymbolExposure, RkMaxPortfolioExposure,
     RkMaxDailyBuyNotional, RkMaxDailySellNotional, RkInsufficientCash,
     RkInsufficientPosition, RkDailyLossLimit, RkConsecutiveLossLimit, RkSessionDrawdownLimit]"

definition LAST_HALTING_CODE :: risk_code where
  "LAST_HALTING_CODE = RkOpenP0Alert"

record risk_limits =
  lm_maxOrderNotional :: jsnum
  lm_maxPositionNotional :: jsnum
  lm_maxOpenOrders :: jsnum
  lm_maxOrdersPerSecond :: jsnum
  lm_maxOrdersPerMinute :: jsnum
  lm_maxSameSideStreak :: jsnum
  lm_maxSymbolExposureNotional :: jsnum
  lm_maxPortfolioExposureNotional :: jsnum
  lm_maxDailyBuyNotional :: jsnum
  lm_maxDailySellNotional :: jsnum
  lm_maxDailyLoss :: jsnum
  lm_maxConsecutiveLosses :: jsnum
  lm_consecutiveLossLimitEnabled :: "bool option"
  lm_maxSessionDrawdownRatio :: jsnum
  lm_maxPriceDeviationRatio :: jsnum

record risk_identity =
  ri_strategyFingerprint :: string
  ri_configFingerprint :: string
  ri_runtimeFingerprint :: string
  ri_riskPolicyFingerprint :: string
  ri_seenSignalIds :: "string list"
  ri_seenCommandIds :: "string list"
  ri_seenClientOrderIds :: "string list"

section \<open>Validity\<close>

definition isNonNegativeFinite :: "jsnum \<Rightarrow> bool" where
  "isNonNegativeFinite v \<longleftrightarrow> is_finite v \<and> Fin 0 \<le> v"

fun MARKET_DATA_REASONS :: "data_status \<Rightarrow> risk_code option" where
  "MARKET_DATA_REASONS DsHealthy = None"
| "MARKET_DATA_REASONS DsStale = Some RkMarketDataStale"
| "MARKET_DATA_REASONS DsReconnecting = Some RkMarketDataReconnecting"
| "MARKET_DATA_REASONS DsWarmingUp = Some RkMarketDataWarmingUp"
| "MARKET_DATA_REASONS DsGapDetected = Some RkMarketDataGap"
| "MARKET_DATA_REASONS DsOutOfOrder = Some RkMarketDataOutOfOrder"
| "MARKET_DATA_REASONS DsInvalid = Some RkMarketDataInvalid"

definition valid_limits :: "risk_limits \<Rightarrow> bool" where
  "valid_limits l \<longleftrightarrow> list_all isNonNegativeFinite
     [lm_maxOrderNotional l, lm_maxPositionNotional l, lm_maxOpenOrders l, lm_maxOrdersPerSecond l,
      lm_maxOrdersPerMinute l, lm_maxSameSideStreak l, lm_maxSymbolExposureNotional l, lm_maxPortfolioExposureNotional l,
      lm_maxDailyBuyNotional l, lm_maxDailySellNotional l, lm_maxDailyLoss l, lm_maxConsecutiveLosses l,
      lm_maxSessionDrawdownRatio l, lm_maxPriceDeviationRatio l]"

definition valid_request :: "risk_request \<Rightarrow> bool" where
  "valid_request r \<longleftrightarrow>
     js_eq (rk_schemaVersion r) (Fin 1) \<and>
     list_all (\<lambda>s. s \<noteq> []) [rk_requestId r, rk_signalId r, rk_commandId r, rk_clientOrderId r, rk_symbol r,
       rk_strategyFingerprint r, rk_configFingerprint r, rk_runtimeFingerprint r, rk_riskPolicyFingerprint r] \<and>
     list_all is_finite [rk_quantity r, rk_referencePrice r, rk_requestedAt r] \<and>
     \<not> rk_quantity r \<le> Fin 0 \<and> \<not> rk_referencePrice r \<le> Fin 0 \<and>
     (case md_price (rk_marketDataState r) of None \<Rightarrow> True | Some p \<Rightarrow> is_finite p \<and> Fin 0 < p) \<and>
     list_all isNonNegativeFinite [ac_cash (rk_accountState r), ac_positionQuantity (rk_accountState r),
       ac_openOrderCount (rk_accountState r)] \<and>
     is_finite (ap_expiresAt (rk_approvalState r)) \<and>
     list_all isNonNegativeFinite [rf_ordersInLastSecond (rk_rateState r), rf_ordersInLastMinute (rk_rateState r),
       rf_sameSideStreak (rk_rateState r)] \<and>
     list_all isNonNegativeFinite [ex_symbolExposureNotional (rk_exposureState r),
       ex_portfolioExposureNotional (rk_exposureState r), ex_dailyBuyNotional (rk_exposureState r),
       ex_dailySellNotional (rk_exposureState r)] \<and>
     list_all is_finite [se_dailyRealizedPnL (rk_sessionState r), se_consecutiveLossCount (rk_sessionState r),
       se_sessionPeakEquity (rk_sessionState r), se_sessionEquity (rk_sessionState r)]"

definition isStructurallyValid :: "risk_request \<Rightarrow> risk_limits \<Rightarrow> bool" where
  "isStructurallyValid r l \<longleftrightarrow> valid_request r \<and> valid_limits l"

section \<open>The decision\<close>

fun index_of :: "'a \<Rightarrow> 'a list \<Rightarrow> nat" where
  "index_of x [] = 0"
| "index_of x (y # ys) = (if x = y then 0 else Suc (index_of x ys))"

definition sealDecision ::
  "(risk_request \<Rightarrow> string) \<Rightarrow> (risk_status \<Rightarrow> risk_code list \<Rightarrow> string \<Rightarrow> string) \<Rightarrow>
    risk_code list \<Rightarrow> jsnum \<Rightarrow> risk_request \<Rightarrow> risk_gateway_decision" where
  "sealDecision hash_request hash_decision ordered evaluatedAt r =
     (let haltBoundary = index_of LAST_HALTING_CODE RISK_REASON_ORDER;
          halt = (\<exists>c \<in> set ordered. index_of c RISK_REASON_ORDER \<le> haltBoundary);
          status = (if ordered = [] then RgAllow else if halt then RgHalt else RgReject);
          requestSha256 = hash_request r
      in \<lparr>rg_status = status, rg_reasonCodes = ordered, rg_evaluatedAt = evaluatedAt,
          rg_requestSha256 = requestSha256, rg_decisionSha256 = hash_decision status ordered requestSha256,
          rg_productionMutationAllowed = False\<rparr>)"

definition envelope_reasons :: "risk_request \<Rightarrow> risk_identity \<Rightarrow> risk_code list" where
  "envelope_reasons r i =
     (if ct_liveCapabilityDetected (rk_controlState r) then [RkLiveCapabilityDetected] else [])
     @ (if ct_privateApiCapabilityDetected (rk_controlState r) then [RkPrivateApiCapabilityDetected] else [])
     @ (if \<not> rk_integrityVerified r then [RkDeploymentIntegrityFailed] else [])
     @ (if ct_killSwitchActive (rk_controlState r) then [RkKillSwitchActive] else [])
     @ (if rk_strategyFingerprint r \<noteq> ri_strategyFingerprint i then [RkStrategyFingerprintMismatch] else [])
     @ (if rk_configFingerprint r \<noteq> ri_configFingerprint i then [RkConfigFingerprintMismatch] else [])
     @ (if rk_runtimeFingerprint r \<noteq> ri_runtimeFingerprint i then [RkRuntimeFingerprintMismatch] else [])
     @ (if rk_riskPolicyFingerprint r \<noteq> ri_riskPolicyFingerprint i then [RkRiskPolicyFingerprintMismatch] else [])
     @ (if \<not> ap_approved (rk_approvalState r) then [RkApprovalMissing] else [])
     @ (if ap_expiresAt (rk_approvalState r) < rk_requestedAt r then [RkApprovalExpired] else [])
     @ (if rk_symbol r \<notin> set (ap_symbols (rk_approvalState r)) then [RkApprovalScopeMismatch] else [])
     @ (if \<not> rk_persistenceHealthy r then [RkPersistenceUnhealthy] else [])
     @ (if \<not> rk_reconciliationHealthy r then [RkReconciliationFailed] else [])
     @ (if rk_openP0 r then [RkOpenP0Alert] else [])"

definition feed_reasons :: "risk_request \<Rightarrow> risk_identity \<Rightarrow> risk_limits \<Rightarrow> risk_code list" where
  "feed_reasons r i l =
     (case MARKET_DATA_REASONS (md_status (rk_marketDataState r)) of None \<Rightarrow> [] | Some c \<Rightarrow> [c])
     @ (if md_status (rk_marketDataState r) = DsHealthy \<and> md_price (rk_marketDataState r) = None
        then [RkMarketDataInvalid] else [])
     @ (case md_price (rk_marketDataState r) of None \<Rightarrow> []
        | Some p \<Rightarrow> if lm_maxPriceDeviationRatio l < js_abs (rk_referencePrice r - p) div p
                   then [RkPriceDeviationLimit] else [])
     @ (if rk_signalId r \<in> set (ri_seenSignalIds i) then [RkDuplicateSignal] else [])
     @ (if rk_commandId r \<in> set (ri_seenCommandIds i) then [RkDuplicateCommand] else [])
     @ (if rk_clientOrderId r \<in> set (ri_seenClientOrderIds i) then [RkDuplicateClientOrderId] else [])
     @ (if lm_maxOrdersPerSecond l \<le> rf_ordersInLastSecond (rk_rateState r) then [RkOrderRateLimitPerSecond] else [])
     @ (if lm_maxOrdersPerMinute l \<le> rf_ordersInLastMinute (rk_rateState r) then [RkOrderRateLimitPerMinute] else [])
     @ (if lm_maxSameSideStreak l \<le> rf_sameSideStreak (rk_rateState r) then [RkSameSideBurstLimit] else [])
     @ (if lm_maxOpenOrders l \<le> ac_openOrderCount (rk_accountState r) then [RkOpenOrderLimit] else [])"

definition notional_reasons :: "risk_request \<Rightarrow> risk_limits \<Rightarrow> risk_code list" where
  "notional_reasons r l =
     (let notional = rk_quantity r * rk_referencePrice r; buying = rk_side r = TsBuy;
          added = (if buying then notional else Fin 0); a = rk_accountState r; e = rk_exposureState r
      in (if lm_maxOrderNotional l < notional then [RkMaxOrderNotional] else [])
       @ (if lm_maxPositionNotional l < ac_positionQuantity a * rk_referencePrice r + added
          then [RkMaxPositionNotional] else [])
       @ (if lm_maxSymbolExposureNotional l < ex_symbolExposureNotional e + added then [RkMaxSymbolExposure] else [])
       @ (if lm_maxPortfolioExposureNotional l < ex_portfolioExposureNotional e + added
          then [RkMaxPortfolioExposure] else [])
       @ (if buying \<and> lm_maxDailyBuyNotional l < ex_dailyBuyNotional e + notional then [RkMaxDailyBuyNotional] else [])
       @ (if \<not> buying \<and> lm_maxDailySellNotional l < ex_dailySellNotional e + notional
          then [RkMaxDailySellNotional] else [])
       @ (if buying \<and> ac_cash a < notional then [RkInsufficientCash] else [])
       @ (if \<not> buying \<and> ac_positionQuantity a < rk_quantity r then [RkInsufficientPosition] else []))"

definition session_reasons :: "risk_request \<Rightarrow> risk_limits \<Rightarrow> risk_code list" where
  "session_reasons r l =
     (let s = rk_sessionState r in
      (if se_dailyRealizedPnL s < Fin 0 \<and> lm_maxDailyLoss l \<le> js_abs (se_dailyRealizedPnL s)
       then [RkDailyLossLimit] else [])
      @ (if lm_consecutiveLossLimitEnabled l \<noteq> Some False \<and> lm_maxConsecutiveLosses l \<le> se_consecutiveLossCount s
         then [RkConsecutiveLossLimit] else [])
      @ (if Fin 0 < se_sessionPeakEquity s
           \<and> lm_maxSessionDrawdownRatio l
              \<le> (se_sessionPeakEquity s - se_sessionEquity s) div se_sessionPeakEquity s
         then [RkSessionDrawdownLimit] else []))"

definition risk_reasons :: "risk_request \<Rightarrow> risk_identity \<Rightarrow> risk_limits \<Rightarrow> risk_code list" where
  "risk_reasons r i l =
     envelope_reasons r i @ feed_reasons r i l @ notional_reasons r l @ session_reasons r l"

definition gateway_evaluate ::
  "(risk_request \<Rightarrow> string) \<Rightarrow> (risk_status \<Rightarrow> risk_code list \<Rightarrow> string \<Rightarrow> string) \<Rightarrow>
    risk_request \<Rightarrow> risk_identity \<Rightarrow> risk_limits \<Rightarrow> risk_gateway_decision" where
  "gateway_evaluate hash_request hash_decision r i l =
     (let evaluatedAt = (if is_finite (rk_requestedAt r) then rk_requestedAt r else Fin 0) in
      if \<not> isStructurallyValid r l
      then sealDecision hash_request hash_decision [RkInvalidRequest] evaluatedAt r
      else let reasons = risk_reasons r i l in
        sealDecision hash_request hash_decision (filter (\<lambda>c. c \<in> set reasons) RISK_REASON_ORDER) evaluatedAt r)"

section \<open>Deployment safety\<close>

datatype deployment_code =
  DpInvalidDescriptor | DpLiveTradingCapabilityPresent | DpPrivateApiCapabilityPresent |
  DpCredentialStoragePresent | DpRiskGatewayAbsent | DpKillSwitchUnreachable |
  DpAutoTradeDefaultOn | DpArtifactHashMismatch | DpSourceCommitMismatch |
  DpPersistenceSchemaMismatch

record deployment_descriptor =
  dd_schemaVersion :: jsnum
  dd_deploymentId :: string
  dd_sourceCommitSha :: string
  dd_expectedSourceCommitSha :: string
  dd_artifactSha256 :: string
  dd_expectedArtifactSha256 :: string
  dd_persistenceSchemaVersion :: jsnum
  dd_expectedPersistenceSchemaVersion :: jsnum
  dd_liveTradingCapabilityPresent :: bool
  dd_privateApiCapabilityPresent :: bool
  dd_credentialStoragePresent :: bool
  dd_killSwitchReachable :: bool
  dd_autoTradeDefaultEnabled :: bool
  dd_riskGatewayPresent :: bool

record deployment_decision =
  dp_allowed :: bool
  dp_reasonCodes :: "deployment_code list"
  dp_descriptorSha256 :: string
  dp_decisionSha256 :: string
  dp_productionMutationAllowed :: bool

definition DEPLOYMENT_REASON_ORDER :: "deployment_code list" where
  "DEPLOYMENT_REASON_ORDER =
    [DpInvalidDescriptor, DpLiveTradingCapabilityPresent, DpPrivateApiCapabilityPresent,
     DpCredentialStoragePresent, DpRiskGatewayAbsent, DpKillSwitchUnreachable,
     DpAutoTradeDefaultOn, DpArtifactHashMismatch, DpSourceCommitMismatch,
     DpPersistenceSchemaMismatch]"

definition descriptor_valid :: "deployment_descriptor \<Rightarrow> bool" where
  "descriptor_valid d \<longleftrightarrow>
     js_eq (dd_schemaVersion d) (Fin 1) \<and>
     list_all (\<lambda>s. s \<noteq> []) [dd_deploymentId d, dd_sourceCommitSha d, dd_expectedSourceCommitSha d,
       dd_artifactSha256 d, dd_expectedArtifactSha256 d] \<and>
     list_all is_integer [dd_persistenceSchemaVersion d, dd_expectedPersistenceSchemaVersion d]"

definition deployment_reasons :: "deployment_descriptor \<Rightarrow> deployment_code list" where
  "deployment_reasons d =
     (if \<not> descriptor_valid d then [DpInvalidDescriptor]
      else (if dd_liveTradingCapabilityPresent d then [DpLiveTradingCapabilityPresent] else [])
       @ (if dd_privateApiCapabilityPresent d then [DpPrivateApiCapabilityPresent] else [])
       @ (if dd_credentialStoragePresent d then [DpCredentialStoragePresent] else [])
       @ (if \<not> dd_riskGatewayPresent d then [DpRiskGatewayAbsent] else [])
       @ (if \<not> dd_killSwitchReachable d then [DpKillSwitchUnreachable] else [])
       @ (if dd_autoTradeDefaultEnabled d then [DpAutoTradeDefaultOn] else [])
       @ (if dd_artifactSha256 d \<noteq> dd_expectedArtifactSha256 d then [DpArtifactHashMismatch] else [])
       @ (if dd_sourceCommitSha d \<noteq> dd_expectedSourceCommitSha d then [DpSourceCommitMismatch] else [])
       @ (if \<not> js_eq (dd_persistenceSchemaVersion d) (dd_expectedPersistenceSchemaVersion d)
          then [DpPersistenceSchemaMismatch] else []))"

definition evaluateDeploymentSafety ::
  "(deployment_descriptor \<Rightarrow> string) \<Rightarrow> (bool \<Rightarrow> deployment_code list \<Rightarrow> string \<Rightarrow> string) \<Rightarrow>
    deployment_descriptor \<Rightarrow> deployment_decision" where
  "evaluateDeploymentSafety hash_descriptor hash_decision d =
     (let reasons = deployment_reasons d;
          ordered = filter (\<lambda>c. c \<in> set reasons) DEPLOYMENT_REASON_ORDER;
          descriptorSha256 = hash_descriptor d
      in \<lparr>dp_allowed = (ordered = []), dp_reasonCodes = ordered, dp_descriptorSha256 = descriptorSha256,
          dp_decisionSha256 = hash_decision (ordered = []) ordered descriptorSha256,
          dp_productionMutationAllowed = False\<rparr>)"

section \<open>The order of the reasons\<close>

definition critical :: "risk_code \<Rightarrow> bool" where
  "critical c \<longleftrightarrow> c \<in> {RkInvalidRequest, RkLiveCapabilityDetected, RkPrivateApiCapabilityDetected,
     RkDeploymentIntegrityFailed, RkKillSwitchActive, RkStrategyFingerprintMismatch, RkConfigFingerprintMismatch,
     RkRuntimeFingerprintMismatch, RkRiskPolicyFingerprintMismatch, RkApprovalMissing, RkApprovalExpired,
     RkApprovalScopeMismatch, RkPersistenceUnhealthy, RkReconciliationFailed, RkOpenP0Alert}"

lemma RISK_REASON_ORDER_complete [simp]: "c \<in> set RISK_REASON_ORDER"
  by (cases c) (simp_all add: RISK_REASON_ORDER_def)

lemma DEPLOYMENT_REASON_ORDER_complete [simp]: "c \<in> set DEPLOYMENT_REASON_ORDER"
  by (cases c) (simp_all add: DEPLOYMENT_REASON_ORDER_def)

lemma halting_iff: "index_of c RISK_REASON_ORDER \<le> index_of LAST_HALTING_CODE RISK_REASON_ORDER \<longleftrightarrow> critical c"
proof -
  have "index_of LAST_HALTING_CODE RISK_REASON_ORDER = 14"
    by (simp add: LAST_HALTING_CODE_def RISK_REASON_ORDER_def)
  then show ?thesis by (cases c) (simp_all add: RISK_REASON_ORDER_def critical_def)
qed

lemma filter_order_empty: "filter (\<lambda>c. c \<in> set rs) RISK_REASON_ORDER = [] \<longleftrightarrow> rs = []"
  by (metis (mono_tags, lifting) RISK_REASON_ORDER_complete filter_empty_conv list.set_intros(1) neq_Nil_conv
      empty_iff list.set(1))

definition required_status :: "risk_code set \<Rightarrow> risk_status" where
  "required_status rs =
     (if rs = {} then RgAllow else if \<exists>c \<in> rs. critical c then RgHalt else RgReject)"

lemma sealDecision_status: "rg_status (sealDecision h d ordered t r) = required_status (set ordered)"
  by (simp add: sealDecision_def Let_def halting_iff required_status_def)

lemma gateway_status:
  "rg_status (gateway_evaluate h d r i l) =
     required_status (if isStructurallyValid r l then set (risk_reasons r i l) else {RkInvalidRequest})"
proof -
  have "set (filter (\<lambda>c. c \<in> set (risk_reasons r i l)) RISK_REASON_ORDER) = set (risk_reasons r i l)" by auto
  then show ?thesis by (simp add: gateway_evaluate_def sealDecision_status Let_def)
qed

text \<open>The gateway reports exactly the reasons it raised - none is lost in the severity ordering - and
  its status follows: ALLOW without a reason, HALT when one of the safety-critical reasons is among
  them or the request is malformed, REJECT otherwise.  It never allows a production mutation.\<close>
theorem gateway_reports_all_reasons:
  "set (rg_reasonCodes (gateway_evaluate h d r i l)) =
      (if isStructurallyValid r l then set (risk_reasons r i l) else {RkInvalidRequest}) \<and>
   rg_status (gateway_evaluate h d r i l) =
      required_status (if isStructurallyValid r l then set (risk_reasons r i l) else {RkInvalidRequest}) \<and>
   \<not> rg_productionMutationAllowed (gateway_evaluate h d r i l)"
proof -
  have "set (rg_reasonCodes (gateway_evaluate h d r i l)) =
      (if isStructurallyValid r l then set (risk_reasons r i l) else {RkInvalidRequest})"
    by (auto simp: gateway_evaluate_def sealDecision_def Let_def)
  moreover have "\<not> rg_productionMutationAllowed (gateway_evaluate h d r i l)"
    by (simp add: gateway_evaluate_def sealDecision_def Let_def)
  ultimately show ?thesis by (simp only: gateway_status simp_thms)
qed

section \<open>Fail closed\<close>

lemma jmult_nonneg: "is_finite a \<Longrightarrow> is_finite b \<Longrightarrow> Fin 0 \<le> a \<Longrightarrow> Fin 0 \<le> b \<Longrightarrow> Fin 0 \<le> a * b"
  by (cases a; cases b) (auto simp: times_jsnum_def intro!: js_of_rat_nonneg)

lemma jdiv_positive_not_NaN: "x \<noteq> NaN \<Longrightarrow> is_finite p \<Longrightarrow> Fin 0 < p \<Longrightarrow> x div p \<noteq> NaN"
  by (cases x; cases p) (auto simp: divide_jsnum_def jinf_def jzero_def)

lemma jsub_not_NaN: "is_finite a \<Longrightarrow> is_finite b \<Longrightarrow> a - b \<noteq> NaN"
  by (cases a; cases b) (auto simp: minus_jsnum_def plus_jsnum_def)

lemma js_abs_not_NaN: "x \<noteq> NaN \<Longrightarrow> js_abs x \<noteq> NaN"
  by (cases x) (auto simp: js_abs_def)

lemma below_limit: "\<not> l < x \<Longrightarrow> is_finite l \<Longrightarrow> x \<noteq> NaN \<Longrightarrow> x \<le> l"
  by (cases l; cases x) auto

lemma under_limit: "\<not> l \<le> x \<Longrightarrow> is_finite l \<Longrightarrow> x \<noteq> NaN \<Longrightarrow> x < l"
  by (cases l; cases x) auto

lemma nonneg_not_NaN: "Fin 0 \<le> x \<Longrightarrow> x \<noteq> NaN"
  by auto

lemma finite_not_NaN: "is_finite x \<Longrightarrow> x \<noteq> NaN"
  by auto

definition within_envelope :: "risk_request \<Rightarrow> risk_identity \<Rightarrow> bool" where
  "within_envelope r i \<longleftrightarrow>
     \<not> ct_liveCapabilityDetected (rk_controlState r) \<and> \<not> ct_privateApiCapabilityDetected (rk_controlState r) \<and>
     rk_integrityVerified r \<and> \<not> ct_killSwitchActive (rk_controlState r) \<and>
     rk_strategyFingerprint r = ri_strategyFingerprint i \<and> rk_configFingerprint r = ri_configFingerprint i \<and>
     rk_runtimeFingerprint r = ri_runtimeFingerprint i \<and> rk_riskPolicyFingerprint r = ri_riskPolicyFingerprint i \<and>
     ap_approved (rk_approvalState r) \<and> rk_requestedAt r \<le> ap_expiresAt (rk_approvalState r) \<and>
     rk_symbol r \<in> set (ap_symbols (rk_approvalState r)) \<and> rk_persistenceHealthy r \<and> rk_reconciliationHealthy r \<and>
     \<not> rk_openP0 r"

definition within_feed :: "risk_request \<Rightarrow> risk_identity \<Rightarrow> risk_limits \<Rightarrow> bool" where
  "within_feed r i l \<longleftrightarrow>
     md_status (rk_marketDataState r) = DsHealthy \<and>
     (\<exists>p. md_price (rk_marketDataState r) = Some p \<and>
        js_abs (rk_referencePrice r - p) div p \<le> lm_maxPriceDeviationRatio l) \<and>
     rk_signalId r \<notin> set (ri_seenSignalIds i) \<and> rk_commandId r \<notin> set (ri_seenCommandIds i) \<and>
     rk_clientOrderId r \<notin> set (ri_seenClientOrderIds i) \<and>
     rf_ordersInLastSecond (rk_rateState r) < lm_maxOrdersPerSecond l \<and>
     rf_ordersInLastMinute (rk_rateState r) < lm_maxOrdersPerMinute l \<and>
     rf_sameSideStreak (rk_rateState r) < lm_maxSameSideStreak l \<and>
     ac_openOrderCount (rk_accountState r) < lm_maxOpenOrders l"

definition within_notional :: "risk_request \<Rightarrow> risk_limits \<Rightarrow> bool" where
  "within_notional r l \<longleftrightarrow>
     (let notional = rk_quantity r * rk_referencePrice r; a = rk_accountState r; e = rk_exposureState r;
          added = (if rk_side r = TsBuy then notional else Fin 0)
      in notional \<le> lm_maxOrderNotional l \<and>
         ac_positionQuantity a * rk_referencePrice r + added \<le> lm_maxPositionNotional l \<and>
         ex_symbolExposureNotional e + added \<le> lm_maxSymbolExposureNotional l \<and>
         ex_portfolioExposureNotional e + added \<le> lm_maxPortfolioExposureNotional l \<and>
         (case rk_side r of
            TsBuy \<Rightarrow> ex_dailyBuyNotional e + notional \<le> lm_maxDailyBuyNotional l \<and> notional \<le> ac_cash a
          | TsSell \<Rightarrow> ex_dailySellNotional e + notional \<le> lm_maxDailySellNotional l \<and>
              rk_quantity r \<le> ac_positionQuantity a))"

definition within_session :: "risk_request \<Rightarrow> risk_limits \<Rightarrow> bool" where
  "within_session r l \<longleftrightarrow>
     (let s = rk_sessionState r in
      (Fin 0 \<le> se_dailyRealizedPnL s \<or> js_abs (se_dailyRealizedPnL s) < lm_maxDailyLoss l) \<and>
      (lm_consecutiveLossLimitEnabled l = Some False \<or> se_consecutiveLossCount s < lm_maxConsecutiveLosses l) \<and>
      (se_sessionPeakEquity s \<le> Fin 0 \<or>
        (se_sessionPeakEquity s - se_sessionEquity s) div se_sessionPeakEquity s < lm_maxSessionDrawdownRatio l))"

lemma valid_requestD:
  assumes "valid_request r"
  shows "is_finite (rk_quantity r)" "is_finite (rk_referencePrice r)" "is_finite (rk_requestedAt r)"
    "Fin 0 \<le> rk_quantity r" "Fin 0 \<le> rk_referencePrice r"
    "is_finite (ap_expiresAt (rk_approvalState r))"
    "md_price (rk_marketDataState r) = Some p \<Longrightarrow> is_finite p \<and> Fin 0 < p"
    "x \<in> {ac_cash (rk_accountState r), ac_positionQuantity (rk_accountState r), ac_openOrderCount (rk_accountState r),
       rf_ordersInLastSecond (rk_rateState r), rf_ordersInLastMinute (rk_rateState r), rf_sameSideStreak (rk_rateState r),
       ex_symbolExposureNotional (rk_exposureState r), ex_portfolioExposureNotional (rk_exposureState r),
       ex_dailyBuyNotional (rk_exposureState r), ex_dailySellNotional (rk_exposureState r)} \<Longrightarrow>
       is_finite x \<and> Fin 0 \<le> x"
    "y \<in> {se_dailyRealizedPnL (rk_sessionState r), se_consecutiveLossCount (rk_sessionState r),
       se_sessionPeakEquity (rk_sessionState r), se_sessionEquity (rk_sessionState r)} \<Longrightarrow> is_finite y"
proof -
  have le: "is_finite v \<Longrightarrow> \<not> v \<le> Fin 0 \<Longrightarrow> Fin 0 \<le> v" for v by (cases v) auto
  show "is_finite (rk_quantity r)" "is_finite (rk_referencePrice r)" "is_finite (rk_requestedAt r)"
    "is_finite (ap_expiresAt (rk_approvalState r))"
    "md_price (rk_marketDataState r) = Some p \<Longrightarrow> is_finite p \<and> Fin 0 < p"
    "x \<in> {ac_cash (rk_accountState r), ac_positionQuantity (rk_accountState r), ac_openOrderCount (rk_accountState r),
       rf_ordersInLastSecond (rk_rateState r), rf_ordersInLastMinute (rk_rateState r), rf_sameSideStreak (rk_rateState r),
       ex_symbolExposureNotional (rk_exposureState r), ex_portfolioExposureNotional (rk_exposureState r),
       ex_dailyBuyNotional (rk_exposureState r), ex_dailySellNotional (rk_exposureState r)} \<Longrightarrow>
       is_finite x \<and> Fin 0 \<le> x"
    "y \<in> {se_dailyRealizedPnL (rk_sessionState r), se_consecutiveLossCount (rk_sessionState r),
       se_sessionPeakEquity (rk_sessionState r), se_sessionEquity (rk_sessionState r)} \<Longrightarrow> is_finite y"
    using assms by (auto simp: valid_request_def isNonNegativeFinite_def)
  show "Fin 0 \<le> rk_quantity r" "Fin 0 \<le> rk_referencePrice r"
    using assms le by (auto simp: valid_request_def)
qed

lemma valid_limitsD:
  "valid_limits l \<Longrightarrow> x \<in> {lm_maxOrderNotional l, lm_maxPositionNotional l, lm_maxOpenOrders l, lm_maxOrdersPerSecond l,
      lm_maxOrdersPerMinute l, lm_maxSameSideStreak l, lm_maxSymbolExposureNotional l, lm_maxPortfolioExposureNotional l,
      lm_maxDailyBuyNotional l, lm_maxDailySellNotional l, lm_maxDailyLoss l, lm_maxConsecutiveLosses l,
      lm_maxSessionDrawdownRatio l, lm_maxPriceDeviationRatio l} \<Longrightarrow> is_finite x"
  by (auto simp: valid_limits_def isNonNegativeFinite_def)

lemma envelope_reasons_empty:
  assumes "valid_request r" "envelope_reasons r i = []"
  shows "within_envelope r i"
proof -
  have e: "\<not> ap_expiresAt (rk_approvalState r) < rk_requestedAt r"
    using assms(2) by (auto simp: envelope_reasons_def split: if_splits)
  have "rk_requestedAt r \<le> ap_expiresAt (rk_approvalState r)"
    using below_limit [OF e] valid_requestD(3,6) [OF assms(1)] finite_not_NaN by blast
  then show ?thesis
    using assms(2) by (simp add: envelope_reasons_def within_envelope_def split: if_splits)
qed

lemma if_single_Nil: "(if b then [x] else []) = [] \<longleftrightarrow> \<not> b"
  by simp

lemma feed_reasons_empty:
  assumes "valid_request r" "valid_limits l" "feed_reasons r i l = []"
  shows "within_feed r i l"
proof -
  note v = valid_requestD [OF assms(1)] and lim = valid_limitsD [OF assms(2)]
  have parts: "(case MARKET_DATA_REASONS (md_status (rk_marketDataState r)) of None \<Rightarrow> [] | Some c \<Rightarrow> [c]) = []"
    "\<not> (md_status (rk_marketDataState r) = DsHealthy \<and> md_price (rk_marketDataState r) = None)"
    "(case md_price (rk_marketDataState r) of None \<Rightarrow> []
      | Some p \<Rightarrow> if lm_maxPriceDeviationRatio l < js_abs (rk_referencePrice r - p) div p
                 then [RkPriceDeviationLimit] else []) = []"
    and n: "\<not> lm_maxOrdersPerSecond l \<le> rf_ordersInLastSecond (rk_rateState r)"
    "\<not> lm_maxOrdersPerMinute l \<le> rf_ordersInLastMinute (rk_rateState r)"
    "\<not> lm_maxSameSideStreak l \<le> rf_sameSideStreak (rk_rateState r)"
    "\<not> lm_maxOpenOrders l \<le> ac_openOrderCount (rk_accountState r)"
    "rk_signalId r \<notin> set (ri_seenSignalIds i)" "rk_commandId r \<notin> set (ri_seenCommandIds i)"
    "rk_clientOrderId r \<notin> set (ri_seenClientOrderIds i)"
    using assms(3) by (simp_all only: feed_reasons_def append_is_Nil_conv if_single_Nil simp_thms)
  have st: "md_status (rk_marketDataState r) = DsHealthy"
    using parts(1) by (cases "md_status (rk_marketDataState r)") simp_all
  then obtain p where p: "md_price (rk_marketDataState r) = Some p" using parts(2) by auto
  have dev: "\<not> lm_maxPriceDeviationRatio l < js_abs (rk_referencePrice r - p) div p"
    using parts(3) by (simp only: p option.case if_single_Nil simp_thms)
  have "js_abs (rk_referencePrice r - p) div p \<noteq> NaN"
    using v(2) v(7) [OF p] by (intro jdiv_positive_not_NaN js_abs_not_NaN jsub_not_NaN) auto
  then have d: "js_abs (rk_referencePrice r - p) div p \<le> lm_maxPriceDeviationRatio l"
    using below_limit [OF dev] lim by simp
  have "rf_ordersInLastSecond (rk_rateState r) < lm_maxOrdersPerSecond l"
    by (rule under_limit [OF n(1)]) (rule lim, simp, rule finite_not_NaN, rule conjunct1, rule v(8), simp)
  moreover have "rf_ordersInLastMinute (rk_rateState r) < lm_maxOrdersPerMinute l"
    by (rule under_limit [OF n(2)]) (rule lim, simp, rule finite_not_NaN, rule conjunct1, rule v(8), simp)
  moreover have "rf_sameSideStreak (rk_rateState r) < lm_maxSameSideStreak l"
    by (rule under_limit [OF n(3)]) (rule lim, simp, rule finite_not_NaN, rule conjunct1, rule v(8), simp)
  moreover have "ac_openOrderCount (rk_accountState r) < lm_maxOpenOrders l"
    by (rule under_limit [OF n(4)]) (rule lim, simp, rule finite_not_NaN, rule conjunct1, rule v(8), simp)
  ultimately show ?thesis using st p d n(5-7) by (simp add: within_feed_def)
qed

lemma notional_reasons_empty:
  assumes "valid_request r" "valid_limits l" "notional_reasons r l = []"
  shows "within_notional r l"
proof -
  note v = valid_requestD [OF assms(1)] and lim = valid_limitsD [OF assms(2)]
  define n where "n = rk_quantity r * rk_referencePrice r"
  define added where "added = (if rk_side r = TsBuy then n else Fin 0)"
  have n0: "Fin 0 \<le> n" unfolding n_def using v(1,2,4,5) by (intro jmult_nonneg)
  then have a0: "Fin 0 \<le> added" by (simp add: added_def)
  have pos: "Fin 0 \<le> ac_positionQuantity (rk_accountState r) * rk_referencePrice r"
    using v(2,5) v(8) by (intro jmult_nonneg) auto
  have nn: "n \<noteq> NaN" "ac_positionQuantity (rk_accountState r) * rk_referencePrice r + added \<noteq> NaN"
    "ex_symbolExposureNotional (rk_exposureState r) + added \<noteq> NaN"
    "ex_portfolioExposureNotional (rk_exposureState r) + added \<noteq> NaN"
    "ex_dailyBuyNotional (rk_exposureState r) + n \<noteq> NaN" "ex_dailySellNotional (rk_exposureState r) + n \<noteq> NaN"
    using n0 a0 pos v(8) by (auto intro!: nonneg_not_NaN jadd_nonneg)
  have g: "\<not> lm_maxOrderNotional l < n"
    "\<not> lm_maxPositionNotional l < ac_positionQuantity (rk_accountState r) * rk_referencePrice r + added"
    "\<not> lm_maxSymbolExposureNotional l < ex_symbolExposureNotional (rk_exposureState r) + added"
    "\<not> lm_maxPortfolioExposureNotional l < ex_portfolioExposureNotional (rk_exposureState r) + added"
    "rk_side r = TsBuy \<Longrightarrow> \<not> lm_maxDailyBuyNotional l < ex_dailyBuyNotional (rk_exposureState r) + n"
    "rk_side r = TsBuy \<Longrightarrow> \<not> ac_cash (rk_accountState r) < n"
    "rk_side r = TsSell \<Longrightarrow> \<not> lm_maxDailySellNotional l < ex_dailySellNotional (rk_exposureState r) + n"
    "rk_side r = TsSell \<Longrightarrow> \<not> ac_positionQuantity (rk_accountState r) < rk_quantity r"
    using assms(3)
    by (auto simp only: notional_reasons_def Let_def n_def [symmetric] added_def [symmetric] append_is_Nil_conv
        trade_side.distinct simp_thms split: if_splits)
  have le: "n \<le> lm_maxOrderNotional l"
    "ac_positionQuantity (rk_accountState r) * rk_referencePrice r + added \<le> lm_maxPositionNotional l"
    "ex_symbolExposureNotional (rk_exposureState r) + added \<le> lm_maxSymbolExposureNotional l"
    "ex_portfolioExposureNotional (rk_exposureState r) + added \<le> lm_maxPortfolioExposureNotional l"
    using below_limit [OF g(1)] below_limit [OF g(2)] below_limit [OF g(3)] below_limit [OF g(4)] nn lim by auto
  show ?thesis
  proof (cases "rk_side r")
    case TsBuy
    have "n \<le> ac_cash (rk_accountState r)" using below_limit [OF g(6) [OF TsBuy]] v(8) nn(1) by simp
    moreover have "ex_dailyBuyNotional (rk_exposureState r) + n \<le> lm_maxDailyBuyNotional l"
      using below_limit [OF g(5) [OF TsBuy]] lim nn(5) by simp
    ultimately show ?thesis using le TsBuy by (simp add: within_notional_def Let_def n_def added_def)
  next
    case TsSell
    have "rk_quantity r \<le> ac_positionQuantity (rk_accountState r)"
      using below_limit [OF g(8) [OF TsSell]] v(8) finite_not_NaN [OF v(1)] by simp
    moreover have "ex_dailySellNotional (rk_exposureState r) + n \<le> lm_maxDailySellNotional l"
      using below_limit [OF g(7) [OF TsSell]] lim nn(6) by simp
    ultimately show ?thesis using le TsSell by (simp add: within_notional_def Let_def n_def added_def)
  qed
qed

lemma session_reasons_empty:
  assumes "valid_request r" "valid_limits l" "session_reasons r l = []"
  shows "within_session r l"
proof -
  let ?s = "rk_sessionState r"
  have fin: "is_finite (se_dailyRealizedPnL ?s)" "is_finite (se_consecutiveLossCount ?s)"
    "is_finite (se_sessionPeakEquity ?s)" "is_finite (se_sessionEquity ?s)"
    using valid_requestD(9) [OF assms(1)] by auto
  have l: "is_finite (lm_maxDailyLoss l)" "is_finite (lm_maxConsecutiveLosses l)" "is_finite (lm_maxSessionDrawdownRatio l)"
    using valid_limitsD [OF assms(2)] by auto
  have g: "\<not> (se_dailyRealizedPnL ?s < Fin 0 \<and> lm_maxDailyLoss l \<le> js_abs (se_dailyRealizedPnL ?s))"
    "\<not> (lm_consecutiveLossLimitEnabled l \<noteq> Some False \<and> lm_maxConsecutiveLosses l \<le> se_consecutiveLossCount ?s)"
    "\<not> (Fin 0 < se_sessionPeakEquity ?s \<and> lm_maxSessionDrawdownRatio l
        \<le> (se_sessionPeakEquity ?s - se_sessionEquity ?s) div se_sessionPeakEquity ?s)"
    using assms(3) by (simp_all add: session_reasons_def Let_def split: if_splits)
  have "Fin 0 \<le> se_dailyRealizedPnL ?s \<or> js_abs (se_dailyRealizedPnL ?s) < lm_maxDailyLoss l"
    using g(1) fin(1) l(1) js_abs_not_NaN [of "se_dailyRealizedPnL ?s"] finite_not_NaN under_limit below_limit by blast
  moreover have "lm_consecutiveLossLimitEnabled l = Some False \<or> se_consecutiveLossCount ?s < lm_maxConsecutiveLosses l"
    using g(2) fin(2) l(2) finite_not_NaN under_limit by blast
  moreover have "se_sessionPeakEquity ?s \<le> Fin 0 \<or>
      (se_sessionPeakEquity ?s - se_sessionEquity ?s) div se_sessionPeakEquity ?s < lm_maxSessionDrawdownRatio l"
  proof (cases "Fin 0 < se_sessionPeakEquity ?s")
    case True
    then have "(se_sessionPeakEquity ?s - se_sessionEquity ?s) div se_sessionPeakEquity ?s \<noteq> NaN"
      using fin(3,4) by (intro jdiv_positive_not_NaN jsub_not_NaN)
    then show ?thesis using g(3) True l(3) under_limit by blast
  next
    case False
    then show ?thesis using fin(3) by (cases "se_sessionPeakEquity ?s") auto
  qed
  ultimately show ?thesis by (simp add: within_session_def Let_def)
qed

text \<open>C5: The gateway fails closed: ALLOW is returned only when every declared limit holds as a positive
  comparison of actual numbers - no check is passed because its input was missing, infinite or not
  a number - the feed is healthy and carries a price, no identifier was seen before, and the whole
  safety envelope (capabilities, deployment, kill switch, fingerprints, approval, persistence,
  reconciliation, alerts) is in order.\<close>
theorem gateway_fails_closed:
  assumes "rg_status (gateway_evaluate h d r i l) = RgAllow"
  shows "isStructurallyValid r l \<and> within_envelope r i \<and> within_feed r i l \<and> within_notional r l \<and> within_session r l"
proof -
  have "required_status (if isStructurallyValid r l then set (risk_reasons r i l) else {RkInvalidRequest}) = RgAllow"
    using assms by (simp only: gateway_status)
  then have v: "isStructurallyValid r l" "risk_reasons r i l = []"
    by (auto simp: required_status_def critical_def split: if_splits)
  then show ?thesis
    using envelope_reasons_empty [of r i] feed_reasons_empty [of r l i] notional_reasons_empty [of r l]
      session_reasons_empty [of r l]
    by (simp add: isStructurallyValid_def risk_reasons_def)
qed

text \<open>The deployment gate allows automation only for a well-formed descriptor whose artifact, commit
  and persistence schema are the expected ones, without live, private or credential capability,
  with the risk gateway present, the kill switch reachable and automatic trading off by default.\<close>
theorem deployment_gate_exact:
  "dp_allowed (evaluateDeploymentSafety h d x) \<longleftrightarrow>
     descriptor_valid x \<and> \<not> dd_liveTradingCapabilityPresent x \<and> \<not> dd_privateApiCapabilityPresent x \<and>
     \<not> dd_credentialStoragePresent x \<and> dd_riskGatewayPresent x \<and> dd_killSwitchReachable x \<and>
     \<not> dd_autoTradeDefaultEnabled x \<and> dd_artifactSha256 x = dd_expectedArtifactSha256 x \<and>
     dd_sourceCommitSha x = dd_expectedSourceCommitSha x \<and>
     js_eq (dd_persistenceSchemaVersion x) (dd_expectedPersistenceSchemaVersion x)"
proof -
  have "filter (\<lambda>c. c \<in> set rs) DEPLOYMENT_REASON_ORDER = [] \<longleftrightarrow> rs = []" for rs
    by (cases rs) (auto simp: filter_empty_conv intro: DEPLOYMENT_REASON_ORDER_complete)
  then show ?thesis by (simp add: evaluateDeploymentSafety_def Let_def deployment_reasons_def)
qed

section \<open>Concrete runs\<close>

definition sample_risk_request :: risk_request where
  "sample_risk_request = \<lparr>rk_schemaVersion = Fin 1, rk_requestId = ''r'', rk_signalId = ''s'', rk_commandId = ''c'',
     rk_clientOrderId = ''o'', rk_strategyFingerprint = ''f'', rk_configFingerprint = ''f'', rk_runtimeFingerprint = ''f'',
     rk_riskPolicyFingerprint = ''f'', rk_symbol = ''BTC'', rk_side = TsBuy, rk_quantity = Fin 2, rk_referencePrice = Fin 10,
     rk_requestedAt = Fin 5, rk_marketDataState = \<lparr>md_status = DsHealthy, md_price = Some (Fin 10)\<rparr>,
     rk_accountState = \<lparr>ac_cash = Fin 100, ac_positionQuantity = Fin 0, ac_openOrderCount = Fin 0\<rparr>,
     rk_controlState = \<lparr>ct_killSwitchActive = False, ct_liveCapabilityDetected = False, ct_privateApiCapabilityDetected = False\<rparr>,
     rk_approvalState = \<lparr>ap_approved = True, ap_expiresAt = Fin 9, ap_symbols = [''BTC'']\<rparr>,
     rk_persistenceHealthy = True, rk_reconciliationHealthy = True, rk_openP0 = False, rk_integrityVerified = True,
     rk_rateState = \<lparr>rf_ordersInLastSecond = Fin 0, rf_ordersInLastMinute = Fin 0, rf_sameSideStreak = Fin 0\<rparr>,
     rk_exposureState = \<lparr>ex_symbolExposureNotional = Fin 0, ex_portfolioExposureNotional = Fin 0,
       ex_dailyBuyNotional = Fin 0, ex_dailySellNotional = Fin 0\<rparr>,
     rk_sessionState = \<lparr>se_dailyRealizedPnL = Fin 0, se_consecutiveLossCount = Fin 0, se_sessionPeakEquity = Fin 100,
       se_sessionEquity = Fin 100\<rparr>\<rparr>"

definition sample_identity :: risk_identity where
  "sample_identity = \<lparr>ri_strategyFingerprint = ''f'', ri_configFingerprint = ''f'', ri_runtimeFingerprint = ''f'',
     ri_riskPolicyFingerprint = ''f'', ri_seenSignalIds = [], ri_seenCommandIds = [], ri_seenClientOrderIds = []\<rparr>"

definition sample_limits :: risk_limits where
  "sample_limits = \<lparr>lm_maxOrderNotional = Fin 50, lm_maxPositionNotional = Fin 50, lm_maxOpenOrders = Fin 5,
     lm_maxOrdersPerSecond = Fin 5, lm_maxOrdersPerMinute = Fin 5, lm_maxSameSideStreak = Fin 5,
     lm_maxSymbolExposureNotional = Fin 50, lm_maxPortfolioExposureNotional = Fin 50, lm_maxDailyBuyNotional = Fin 50,
     lm_maxDailySellNotional = Fin 50, lm_maxDailyLoss = Fin 5, lm_maxConsecutiveLosses = Fin 3,
     lm_consecutiveLossLimitEnabled = None, lm_maxSessionDrawdownRatio = Fin 1, lm_maxPriceDeviationRatio = Fin 1\<rparr>"

lemma gateway_fails_closed_witness: "within_notional sample_risk_request sample_limits"
proof -
  have "rg_status (gateway_evaluate (\<lambda>_. []) (\<lambda>_ _ _. []) sample_risk_request sample_identity sample_limits) = RgAllow"
    by code_simp
  from gateway_fails_closed [OF this] show ?thesis by blast
qed

end
