(* ===== verification/DependencyOrder.thy ===== *)
theory DependencyOrder imports Prelude begin

text \<open>
  What \<open>packages/core/src/engineRegistry.ts\<close> and \<open>pluginSystem.ts\<close> share: the depth-first resolution
  of a start order from declared dependencies (\<open>visit\<close>), the start of all members in that order
  with rollback of what was started, and the collecting stop.  \<open>visiting\<close> is the stack of the
  recursion, so it is passed down; the two sets of the source that only grow are threaded.
  \<open>lifecycle\<close> is the interface of a registry whose members are started and stopped one by one.
\<close>

section \<open>The start order\<close>

type_synonym dependencies = "(string \<times> string list) list"

lemma bind_r_cong [fundef_cong]:
  "m = m' \<Longrightarrow> (\<And>x. m' = Inr x \<Longrightarrow> f x = f' x) \<Longrightarrow> bind_r m f = bind_r m' f'"
  by (cases m') simp_all

function visit_all ::
  "string \<Rightarrow> string \<Rightarrow> dependencies \<Rightarrow> string list \<Rightarrow> string list \<Rightarrow> string list \<times> string list \<Rightarrow>
    (string list \<times> string list) result" where
  "visit_all missing cyclic deps visiting [] st = Inr st"
| "visit_all missing cyclic deps visiting (i # is) st =
     (if i \<in> set (fst st) then visit_all missing cyclic deps visiting is st
      else if i \<in> set visiting then throw (cyclic @ i)
      else case map_of deps i of
        None \<Rightarrow> throw (missing @ i)
      | Some ds \<Rightarrow> bind_r (visit_all missing cyclic deps (i # visiting) ds st) (\<lambda>(visited, order).
          visit_all missing cyclic deps visiting is (set_add i visited, order @ [i])))"
  by pat_completeness auto

termination
proof (relation "measures [\<lambda>(_, _, deps, visiting, _, _). card (set (map fst deps) - set visiting),
    \<lambda>(_, _, _, _, is, _). length is]", goal_cases)
  case (3 missing cyclic deps visiting i "is" st ds)
  have "i \<in> set (map fst deps) - set visiting"
    using 3(2,3) by (auto simp: map_of_eq_None_iff dest!: map_of_SomeD intro!: image_eqI)
  then have "card (set (map fst deps) - set (i # visiting)) < card (set (map fst deps) - set visiting)"
    by (intro psubset_card_mono) auto
  then show ?case by simp
qed auto

definition resolve_order :: "string \<Rightarrow> string \<Rightarrow> dependencies \<Rightarrow> string list result" where
  "resolve_order missing cyclic deps =
     bind_r (visit_all missing cyclic deps [] (map fst deps) ([], [])) (\<lambda>(_, order). Inr order)"

section \<open>The order is a topological sort\<close>

text \<open>Newest first: no repetition, and every member's dependencies come earlier.\<close>

fun topological :: "dependencies \<Rightarrow> string list \<Rightarrow> bool" where
  "topological deps [] = True"
| "topological deps (b # xs) =
     (b \<notin> set xs \<and> (\<exists>ds. map_of deps b = Some ds \<and> set ds \<subseteq> set xs) \<and> topological deps xs)"

definition start_order :: "dependencies \<Rightarrow> string list \<Rightarrow> bool" where
  "start_order deps order \<longleftrightarrow> topological deps (rev order)"

lemma start_order_distinct: "start_order deps order \<Longrightarrow> distinct order"
proof -
  have "topological deps xs \<Longrightarrow> distinct xs" for xs by (induction xs) auto
  then show "start_order deps order \<Longrightarrow> distinct order" by (metis start_order_def distinct_rev)
qed

lemma start_order_split:
  "start_order deps (us @ b # vs) \<Longrightarrow> \<exists>ds. map_of deps b = Some ds \<and> set ds \<subseteq> set us"
proof -
  have "topological deps (xs @ b # ys) \<Longrightarrow> \<exists>ds. map_of deps b = Some ds \<and> set ds \<subseteq> set ys" for xs ys
    by (induction xs) auto
  from this [of "rev vs" "rev us"] show "start_order deps (us @ b # vs) \<Longrightarrow> \<exists>ds. map_of deps b = Some ds \<and> set ds \<subseteq> set us"
    by (simp add: start_order_def)
qed

lemma visit_all_sound:
  assumes "visit_all m c deps visiting is st = Inr st'" "start_order deps (snd st)" "set (fst st) = set (snd st)"
    "set visiting \<inter> set (snd st) = {}"
  shows "start_order deps (snd st') \<and> set (fst st') = set (snd st') \<and> set (snd st) \<subseteq> set (snd st') \<and>
    set is \<subseteq> set (snd st') \<and> set visiting \<inter> set (snd st') = {}"
  using assms
proof (induction m c deps visiting "is" st arbitrary: st' rule: visit_all.induct)
  case (2 m c deps visiting i "is" st)
  show ?case
  proof (cases "i \<in> set (fst st)")
    case True
    then have "visit_all m c deps visiting is st = Inr st'" using "2.prems"(1) by simp
    from "2.IH"(1) [OF True this "2.prems"(2,3,4)] show ?thesis using True "2.prems"(3) by auto
  next
    case False
    then obtain ds visited order where ds: "i \<notin> set visiting" "map_of deps i = Some ds"
      and dp: "visit_all m c deps (i # visiting) ds st = Inr (visited, order)"
      and rest: "visit_all m c deps visiting is (set_add i visited, order @ [i]) = Inr st'"
      using "2.prems"(1) by (auto simp: result_simps throw_def split: if_splits option.splits)
    have "set (i # visiting) \<inter> set (snd st) = {}" using "2.prems"(3,4) False by auto
    from "2.IH"(2) [OF False ds dp "2.prems"(2,3) this]
    have d: "start_order deps order" "set visited = set order" "set (snd st) \<subseteq> set order" "set ds \<subseteq> set order"
      "i \<notin> set order" "set visiting \<inter> set order = {}" by auto
    have "start_order deps (order @ [i])" using d ds(2) by (simp add: start_order_def)
    moreover have "set visiting \<inter> set (order @ [i]) = {}" using d(6) ds(1) by auto
    ultimately have r: "start_order deps (snd st') \<and> set (fst st') = set (snd st') \<and> set (order @ [i]) \<subseteq> set (snd st') \<and>
        set is \<subseteq> set (snd st') \<and> set visiting \<inter> set (snd st') = {}"
      using "2.IH"(3) [OF False ds dp _ rest] d(2) by simp
    then show ?thesis using d(3) by auto
  qed
qed auto

lemma visit_all_registered:
  assumes "visit_all m c deps visiting is st = Inr st'" "set (snd st) \<subseteq> fst ` set deps"
  shows "set (snd st') \<subseteq> fst ` set deps"
  using assms
proof (induction m c deps visiting "is" st arbitrary: st' rule: visit_all.induct)
  case (2 m c deps visiting i "is" st)
  show ?case
  proof (cases "i \<in> set (fst st)")
    case True
    then show ?thesis using 2 by simp
  next
    case False
    then obtain ds visited order where ds: "i \<notin> set visiting" "map_of deps i = Some ds"
      and dp: "visit_all m c deps (i # visiting) ds st = Inr (visited, order)"
      and rest: "visit_all m c deps visiting is (set_add i visited, order @ [i]) = Inr st'"
      using "2.prems"(1) by (auto simp: result_simps throw_def split: if_splits option.splits)
    have "set order \<subseteq> fst ` set deps" using "2.IH"(2) [OF False ds dp "2.prems"(2)] by simp
    moreover have "i \<in> fst ` set deps" using ds(2) by (metis map_of_SomeD fst_conv imageI)
    ultimately show ?thesis using "2.IH"(3) [OF False ds dp _ rest] by simp
  qed
qed auto

lemma resolve_order_sound:
  assumes "resolve_order m c deps = Inr order"
  shows "start_order deps order \<and> set order = fst ` set deps"
proof -
  obtain visited where v: "visit_all m c deps [] (map fst deps) ([], []) = Inr (visited, order)"
    using assms by (auto simp: resolve_order_def result_simps)
  show ?thesis using visit_all_sound [OF v] visit_all_registered [OF v] by (auto simp: start_order_def)
qed

section \<open>It exists when there is no cycle\<close>

definition depends :: "dependencies \<Rightarrow> (string \<times> string) set" where
  "depends deps = {(d, i). \<exists>ds. map_of deps i = Some ds \<and> d \<in> set ds}"

definition closed_deps :: "dependencies \<Rightarrow> bool" where
  "closed_deps deps \<longleftrightarrow> (\<forall>i ds. map_of deps i = Some ds \<longrightarrow> set ds \<subseteq> fst ` set deps)"

lemma visit_all_complete:
  assumes "acyclic (depends deps)" "closed_deps deps" "set is \<subseteq> fst ` set deps"
    "\<forall>v \<in> set visiting. \<forall>i \<in> set is. (i, v) \<in> (depends deps)\<^sup>+"
  shows "\<exists>st'. visit_all m c deps visiting is st = Inr st'"
  using assms
proof (induction m c deps visiting "is" st rule: visit_all.induct)
  case (2 m c deps visiting i "is" st)
  show ?case
  proof (cases "i \<in> set (fst st)")
    case True
    then show ?thesis using 2 by simp
  next
    case False
    have ni: "i \<notin> set visiting" using "2.prems"(1,4) by (auto simp: acyclic_def)
    obtain ds where ds: "map_of deps i = Some ds"
      using "2.prems"(3) by (auto simp: map_of_eq_None_iff) (metis map_of_SomeD not_None_eq map_of_eq_None_iff imageI fst_conv)
    have dd: "(d, i) \<in> depends deps" if "d \<in> set ds" for d using ds that by (auto simp: depends_def)
    have "set ds \<subseteq> fst ` set deps" using "2.prems"(2) ds by (auto simp: closed_deps_def)
    moreover have "\<forall>v \<in> set (i # visiting). \<forall>d \<in> set ds. (d, v) \<in> (depends deps)\<^sup>+"
      using dd "2.prems"(4) by (auto intro: trancl_into_trancl2)
    ultimately obtain st1 where st1: "visit_all m c deps (i # visiting) ds st = Inr st1"
      using "2.IH"(2) [OF False ni ds "2.prems"(1,2)] by blast
    obtain visited order where vo: "st1 = (visited, order)" by force
    have "\<exists>st'. visit_all m c deps visiting is (set_add i visited, order @ [i]) = Inr st'"
      using "2.IH"(3) [OF False ni ds st1 vo [symmetric] "2.prems"(1,2)] "2.prems"(3,4) by simp
    then show ?thesis using False ni ds st1 vo by simp
  qed
qed simp

lemma resolve_order_complete:
  assumes "acyclic (depends deps)" "closed_deps deps"
  shows "\<exists>order. resolve_order m c deps = Inr order"
proof -
  have "\<exists>st. visit_all m c deps [] (map fst deps) ([], []) = Inr st"
    by (rule visit_all_complete [OF assms]) simp_all
  then obtain st where "visit_all m c deps [] (map fst deps) ([], []) = Inr st" ..
  then show ?thesis by (cases st) (simp add: resolve_order_def)
qed

text \<open>Conversely an order rules out cycles and missing dependencies.\<close>

lemma start_order_closed: "start_order deps order \<Longrightarrow> set order = fst ` set deps \<Longrightarrow> closed_deps deps"
proof -
  assume o: "start_order deps order" "set order = fst ` set deps"
  show "closed_deps deps"
    unfolding closed_deps_def
  proof (intro allI impI)
    fix i ds assume ds: "map_of deps i = Some ds"
    then have "i \<in> set order" using o(2) by (metis map_of_SomeD fst_conv imageI)
    then obtain us vs where "order = us @ i # vs" by (meson split_list)
    then show "set ds \<subseteq> fst ` set deps" using start_order_split [of deps us i vs] o ds by auto
  qed
qed

lemma start_order_acyclic:
  assumes "start_order deps order" "set order = fst ` set deps"
  shows "acyclic (depends deps)"
proof -
  have pos: "\<exists>k. k < length order \<and> order ! k = i" if "i \<in> set order" for i
    using that by (metis in_set_conv_nth)
  define f where "f i = (THE k. k < length order \<and> order ! k = i)" for i
  have f: "f i = k" if "k < length order" "order ! k = i" for i k
    unfolding f_def using that start_order_distinct [OF assms(1)]
    by (intro the_equality) (auto simp: nth_eq_iff_index_eq)
  have "f d < f i" if "(d, i) \<in> depends deps" for d i
  proof -
    obtain ds where ds: "map_of deps i = Some ds" "d \<in> set ds" using \<open>(d, i) \<in> depends deps\<close> by (auto simp: depends_def)
    then have "i \<in> set order" using assms(2) by (metis map_of_SomeD fst_conv imageI)
    then obtain us vs where o: "order = us @ i # vs" by (meson split_list)
    then have "d \<in> set us" using start_order_split [of deps us i vs] assms(1) ds by auto
    then obtain k where k: "k < length us" "us ! k = d" by (metis in_set_conv_nth)
    have "f d = k" using k o by (intro f) (auto simp: nth_append)
    moreover have "f i = length us" using o by (intro f) auto
    ultimately show ?thesis using k by simp
  qed
  then have "depends deps \<subseteq> inv_image less_than f" by auto
  then have "wf (depends deps)" using wf_subset wf_inv_image wf_less_than by blast
  then show ?thesis by (rule wf_acyclic)
qed

section \<open>Starting in order, stopping in reverse\<close>

fun start_in_order ::
  "(string \<Rightarrow> 's \<Rightarrow> unit result \<times> 's) \<Rightarrow> (string \<Rightarrow> 's \<Rightarrow> unit result \<times> 's) \<Rightarrow> string list \<Rightarrow> string list \<Rightarrow> 's \<Rightarrow>
    unit result \<times> 's" where
  "start_in_order start stop started [] s = (Inr (), s)"
| "start_in_order start stop started (i # is) s =
     (case start i s of
        (Inr _, t) \<Rightarrow> start_in_order start stop (started @ [i]) is t
      | (Inl e, t) \<Rightarrow> (Inl e, fold (\<lambda>j u. snd (stop j u)) (rev started) t))"

fun stop_in_order ::
  "(string \<Rightarrow> 's \<Rightarrow> unit result \<times> 's) \<Rightarrow> string list \<Rightarrow> js_error list \<Rightarrow> 's \<Rightarrow> js_error list \<times> 's" where
  "stop_in_order stop [] errors s = (errors, s)"
| "stop_in_order stop (i # is) errors s =
     (case stop i s of (r, t) \<Rightarrow>
        stop_in_order stop is (case r of Inl e \<Rightarrow> errors @ [e] | Inr _ \<Rightarrow> errors) t)"

locale lifecycle =
  fixes running :: "'s \<Rightarrow> string \<Rightarrow> bool"
    and start :: "string \<Rightarrow> 's \<Rightarrow> unit result \<times> 's"
    and stop :: "string \<Rightarrow> 's \<Rightarrow> unit result \<times> 's"
  assumes start_ok: "start i s = (Inr u, t) \<Longrightarrow> running t i"
    and start_fails: "start i s = (Inl e, t) \<Longrightarrow> running t = running s \<and> \<not> running s i"
    and start_frame: "j \<noteq> i \<Longrightarrow> running (snd (start i s)) j = running s j"
    and stop_stops: "running s i \<Longrightarrow> \<not> running (snd (stop i s)) i"
    and stop_frame: "j \<noteq> i \<or> \<not> running s j \<Longrightarrow> running (snd (stop i s)) j = running s j"
begin

lemma stops:
  "running (fold (\<lambda>j u. snd (stop j u)) is s) j \<longleftrightarrow> running s j \<and> j \<notin> set is"
proof (induction "is" arbitrary: s)
  case (Cons i "is")
  have "running (snd (stop i s)) j \<longleftrightarrow> running s j \<and> j \<noteq> i"
    using stop_stops stop_frame by metis
  then show ?case using Cons.IH by auto
qed simp

lemma stop_in_order_running:
  "running (snd (stop_in_order stop is errors s)) j \<longleftrightarrow> running s j \<and> j \<notin> set is"
proof (induction "is" arbitrary: errors s)
  case (Cons i "is")
  have "running (snd (stop i s)) j \<longleftrightarrow> running s j \<and> j \<noteq> i"
    using stop_stops stop_frame by metis
  then show ?case using Cons.IH by (auto split: prod.split)
qed simp

lemma start_in_order_running:
  assumes "start_in_order start stop started is s = (r, t)"
  shows "case r of
      Inr _ \<Rightarrow> (\<forall>j. running t j \<longleftrightarrow> running s j \<or> j \<in> set is)
    | Inl e \<Rightarrow> \<exists>us i vs. is = us @ i # vs \<and> \<not> running t i \<and>
        (\<forall>j. running t j \<longleftrightarrow> running s j \<and> j \<notin> set started \<and> j \<notin> set us)"
  using assms
proof (induction "is" arbitrary: started s)
  case (Cons i "is")
  obtain q u where q: "start i s = (q, u)" by force
  show ?case
  proof (cases q)
    case (Inl e)
    then have t: "r = Inl e" "t = fold (\<lambda>j u. snd (stop j u)) (rev started) u" using Cons.prems q by auto
    have "running u = running s" "\<not> running s i" using start_fails [of i s e u] q Inl by auto
    then show ?thesis using t stops
      by (simp only: sum.case) (intro exI [of _ "[]"] exI [of _ i] exI [of _ "is"], simp)
  next
    case (Inr v)
    have run: "running u i" "\<And>j. j \<noteq> i \<Longrightarrow> running u j = running s j"
      using start_ok [of i s v u] start_frame [of _ i s] q Inr by auto
    have run': "running u j \<longleftrightarrow> running s j \<or> j = i" for j using run by (cases "j = i") auto
    have rest: "start_in_order start stop (started @ [i]) is u = (r, t)" using Cons.prems q Inr by simp
    show ?thesis
    proof (cases r)
      case (Inr w)
      then have "\<forall>j. running t j \<longleftrightarrow> running u j \<or> j \<in> set is" using Cons.IH [OF rest] by simp
      then show ?thesis using Inr run' by auto
    next
      case (Inl e)
      then obtain us k vs where k: "is = us @ k # vs" "\<not> running t k"
        "\<forall>j. running t j \<longleftrightarrow> running u j \<and> j \<notin> set (started @ [i]) \<and> j \<notin> set us"
        using Cons.IH [OF rest] by auto
      then have "\<forall>j. running t j \<longleftrightarrow> running s j \<and> j \<notin> set started \<and> j \<notin> set (i # us)"
        using run(2) by auto
      then show ?thesis using Inl k(1,2)
        by (simp only: sum.case) (intro exI [of _ "i # us"] exI [of _ k] exI [of _ vs], simp)
    qed
  qed
qed auto

end

end
