(* ===== verification/EngineRegistry.thy ===== *)
theory EngineRegistry imports DependencyOrder begin

text \<open>
  \<open>packages/core/src/engineRegistry.ts\<close>: the service container and the engine registry.  An
  engine's \<open>start\<close> and \<open>stop\<close> are parameters: they act on a world of their own (the services
  included), get the number of the abort controller whose signal they are passed, and may throw;
  they do not call back into the registry.  A call returns its result and the registry, so what was
  changed before a throw stays.
\<close>

section \<open>Services\<close>

type_synonym 'v service_container = "(string \<times> 'v) list"

definition ServiceContainer_register :: "string \<Rightarrow> 'v \<Rightarrow> 'v service_container \<Rightarrow> 'v service_container result" where
  "ServiceContainer_register key service m =
     guard_r (map_of m key \<noteq> None) (Error (''Service already registered: '' @ key)) (Inr (AList.update key service m))"

definition ServiceContainer_replace :: "string \<Rightarrow> 'v \<Rightarrow> 'v service_container \<Rightarrow> 'v service_container" where
  "ServiceContainer_replace key service m = AList.update key service m"

definition ServiceContainer_resolve :: "string \<Rightarrow> 'v service_container \<Rightarrow> 'v result" where
  "ServiceContainer_resolve key m =
     (case map_of m key of None \<Rightarrow> throw (''Service not registered: '' @ key) | Some v \<Rightarrow> Inr v)"

definition ServiceContainer_has :: "string \<Rightarrow> 'v service_container \<Rightarrow> bool" where
  "ServiceContainer_has key m \<longleftrightarrow> map_of m key \<noteq> None"

section \<open>The registry\<close>

datatype engine_state = EsRegistered | EsStarting | EsRunning | EsStopping | EsStopped | EsFailed

type_synonym 'w engine_action = "nat \<Rightarrow> 'w \<Rightarrow> unit result \<times> 'w"

record 'w engine =
  en_id :: string
  en_dependencies :: "string list option"
  en_start :: "'w engine_action"
  en_stop :: "'w engine_action option"

record 'w engine_registry =
  eg_engines :: "(string \<times> 'w engine) list"
  eg_states :: "(string \<times> engine_state) list"
  eg_controllers :: "(string \<times> nat) list"
  eg_nextController :: nat
  eg_aborted :: "nat list"
  eg_world :: 'w

fun engine_state_name :: "engine_state \<Rightarrow> string" where
  "engine_state_name EsRegistered = ''registered''" | "engine_state_name EsStarting = ''starting''"
| "engine_state_name EsRunning = ''running''" | "engine_state_name EsStopping = ''stopping''"
| "engine_state_name EsStopped = ''stopped''" | "engine_state_name EsFailed = ''failed''"

definition engine_deps :: "'w engine \<Rightarrow> string list" where
  "engine_deps e = (case en_dependencies e of None \<Rightarrow> [] | Some ds \<Rightarrow> ds)"

definition EngineRegistry_register :: "'w engine \<Rightarrow> 'w engine_registry \<Rightarrow> 'w engine_registry result" where
  "EngineRegistry_register e r =
     guard_r (blank (en_id e)) (Error ''Engine id must not be empty'')
     (guard_r (map_of (eg_engines r) (en_id e) \<noteq> None) (Error (''Engine already registered: '' @ en_id e))
     (Inr (r\<lparr>eg_engines := AList.update (en_id e) e (eg_engines r),
             eg_states := AList.update (en_id e) EsRegistered (eg_states r)\<rparr>)))"

definition EngineRegistry_get :: "string \<Rightarrow> 'w engine_registry \<Rightarrow> 'w engine result" where
  "EngineRegistry_get i r =
     (case map_of (eg_engines r) i of None \<Rightarrow> throw (''Engine not registered: '' @ i) | Some e \<Rightarrow> Inr e)"

definition EngineRegistry_state :: "string \<Rightarrow> 'w engine_registry \<Rightarrow> engine_state result" where
  "EngineRegistry_state i r =
     (case map_of (eg_states r) i of None \<Rightarrow> throw (''Engine not registered: '' @ i) | Some s \<Rightarrow> Inr s)"

definition EngineRegistry_list :: "'w engine_registry \<Rightarrow> (string \<times> engine_state) list result" where
  "EngineRegistry_list r =
     map_r (\<lambda>i. bind_r (EngineRegistry_state i r) (\<lambda>s. Inr (i, s))) (map fst (eg_engines r))"

fun engine_requires :: "string \<Rightarrow> string list \<Rightarrow> 'w engine_registry \<Rightarrow> unit result" where
  "engine_requires i [] r = Inr ()"
| "engine_requires i (d # ds) r =
     bind_r (EngineRegistry_state d r) (\<lambda>s.
     guard_r (s \<noteq> EsRunning) (Error (''Engine '' @ i @ '' requires running dependency '' @ d)) (engine_requires i ds r))"

definition set_engine_state :: "string \<Rightarrow> engine_state \<Rightarrow> 'w engine_registry \<Rightarrow> 'w engine_registry" where
  "set_engine_state i s r = r\<lparr>eg_states := AList.update i s (eg_states r)\<rparr>"

definition EngineRegistry_start :: "string \<Rightarrow> 'w engine_registry \<Rightarrow> unit result \<times> 'w engine_registry" where
  "EngineRegistry_start i r =
     (case bind_r (EngineRegistry_get i r) (\<lambda>e. bind_r (EngineRegistry_state i r) (\<lambda>s. Inr (e, s))) of
        Inl x \<Rightarrow> (Inl x, r)
      | Inr (e, current) \<Rightarrow>
        if current = EsRunning then (Inr (), r)
        else if current = EsStarting \<or> current = EsStopping
        then (throw (''Engine '' @ i @ '' is transitioning: '' @ engine_state_name current), r)
        else case engine_requires i (engine_deps e) r of
          Inl x \<Rightarrow> (Inl x, r)
        | Inr _ \<Rightarrow>
          (let c = eg_nextController r;
               r1 = set_engine_state i EsStarting
                 (r\<lparr>eg_nextController := c + 1, eg_controllers := AList.update i c (eg_controllers r)\<rparr>)
           in case en_start e c (eg_world r1) of
             (Inr _, w) \<Rightarrow> (Inr (), set_engine_state i EsRunning (r1\<lparr>eg_world := w\<rparr>))
           | (Inl x, w) \<Rightarrow> (Inl x, set_engine_state i EsFailed
               (r1\<lparr>eg_world := w, eg_aborted := eg_aborted r1 @ [c],
                   eg_controllers := AList.delete i (eg_controllers r1)\<rparr>))))"

definition EngineRegistry_stop :: "string \<Rightarrow> 'w engine_registry \<Rightarrow> unit result \<times> 'w engine_registry" where
  "EngineRegistry_stop i r =
     (case bind_r (EngineRegistry_get i r) (\<lambda>e. bind_r (EngineRegistry_state i r) (\<lambda>s. Inr (e, s))) of
        Inl x \<Rightarrow> (Inl x, r)
      | Inr (e, current) \<Rightarrow>
        if current = EsRegistered \<or> current = EsStopped then (Inr (), r)
        else if current = EsStarting \<or> current = EsStopping
        then (throw (''Engine '' @ i @ '' is transitioning: '' @ engine_state_name current), r)
        else
          (let (c, r0) = (case map_of (eg_controllers r) i of
                 Some c \<Rightarrow> (c, r)
               | None \<Rightarrow> (eg_nextController r, r\<lparr>eg_nextController := eg_nextController r + 1\<rparr>));
               r1 = (set_engine_state i EsStopping r0)\<lparr>eg_aborted := eg_aborted r0 @ [c]\<rparr>;
               (x, w) = (case en_stop e of None \<Rightarrow> (Inr (), eg_world r1) | Some f \<Rightarrow> f c (eg_world r1));
               r2 = set_engine_state i (case x of Inr _ \<Rightarrow> EsStopped | Inl _ \<Rightarrow> EsFailed) (r1\<lparr>eg_world := w\<rparr>)
           in (x, r2\<lparr>eg_controllers := AList.delete i (eg_controllers r2)\<rparr>)))"

definition registry_deps :: "'w engine_registry \<Rightarrow> dependencies" where
  "registry_deps r = map (\<lambda>(i, e). (i, engine_deps e)) (eg_engines r)"

definition EngineRegistry_resolveStartOrder :: "'w engine_registry \<Rightarrow> string list result" where
  "EngineRegistry_resolveStartOrder r =
     resolve_order ''Engine not registered: '' ''Cyclic engine dependency detected at '' (registry_deps r)"

definition EngineRegistry_startAll :: "'w engine_registry \<Rightarrow> unit result \<times> 'w engine_registry" where
  "EngineRegistry_startAll r =
     (case EngineRegistry_resolveStartOrder r of
        Inl e \<Rightarrow> (Inl e, r)
      | Inr order \<Rightarrow> start_in_order EngineRegistry_start EngineRegistry_stop [] order r)"

text \<open>The error of a failed stop of all carries the collected errors; only their presence matters here.\<close>

definition EngineRegistry_stopAll :: "'w engine_registry \<Rightarrow> unit result \<times> 'w engine_registry" where
  "EngineRegistry_stopAll r =
     (case EngineRegistry_resolveStartOrder r of
        Inl e \<Rightarrow> (Inl e, r)
      | Inr order \<Rightarrow>
        (case stop_in_order EngineRegistry_stop (rev order) [] r of
           (errors, t) \<Rightarrow> (if errors \<noteq> [] then throw ''One or more engines failed to stop'' else Inr (), t)))"

section \<open>Lifecycle\<close>

definition engine_running :: "'w engine_registry \<Rightarrow> string \<Rightarrow> bool" where
  "engine_running r i \<longleftrightarrow> map_of (eg_engines r) i \<noteq> None \<and> map_of (eg_states r) i = Some EsRunning"

lemma set_engine_state_simps [simp]:
  "eg_engines (set_engine_state i s r) = eg_engines r"
  "map_of (eg_states (set_engine_state i s r)) = (map_of (eg_states r))(i \<mapsto> s)"
  "eg_world (set_engine_state i s r) = eg_world r"
  "eg_controllers (set_engine_state i s r) = eg_controllers r"
  "eg_aborted (set_engine_state i s r) = eg_aborted r"
  by (simp_all add: set_engine_state_def)

lemma EngineRegistry_get_state:
  "bind_r (EngineRegistry_get i r) (\<lambda>e. bind_r (EngineRegistry_state i r) (\<lambda>s. Inr (e, s))) = Inr (e, s) \<longleftrightarrow>
     map_of (eg_engines r) i = Some e \<and> map_of (eg_states r) i = Some s"
  by (auto simp: result_simps EngineRegistry_get_def EngineRegistry_state_def split: option.splits)

lemma EngineRegistry_start_cases:
  obtains (refused) x where "EngineRegistry_start i r = (Inl x, r)" "\<not> engine_running r i"
  | (running) "EngineRegistry_start i r = (Inr (), r)" "engine_running r i"
  | (started) e t where "EngineRegistry_start i r = (Inr (), t)" "map_of (eg_engines r) i = Some e"
      "eg_engines t = eg_engines r" "map_of (eg_states t) = (map_of (eg_states r))(i \<mapsto> EsRunning)"
      "\<forall>d \<in> set (engine_deps e). map_of (eg_states r) d = Some EsRunning"
  | (failed) x t where "EngineRegistry_start i r = (Inl x, t)" "\<not> engine_running r i"
      "eg_engines t = eg_engines r" "map_of (eg_states t) = (map_of (eg_states r))(i \<mapsto> EsFailed)"
proof (cases "bind_r (EngineRegistry_get i r) (\<lambda>e. bind_r (EngineRegistry_state i r) (\<lambda>s. Inr (e, s)))")
  case (Inl x)
  have "\<not> engine_running r i"
    using Inl EngineRegistry_get_state [of i r] by (auto simp: engine_running_def)
  then show thesis using Inl by (intro refused) (auto simp: EngineRegistry_start_def)
next
  case (Inr es)
  obtain e s where es: "es = (e, s)" by force
  note gs = Inr [unfolded es]
  have look: "map_of (eg_engines r) i = Some e" "map_of (eg_states r) i = Some s"
    using gs EngineRegistry_get_state by auto
  show thesis
  proof (cases "s = EsRunning")
    case True
    then show thesis using gs look by (intro running) (auto simp: EngineRegistry_start_def engine_running_def)
  next
    case nr: False
    then have notrun: "\<not> engine_running r i" using look by (simp add: engine_running_def)
    show thesis
    proof (cases "s = EsStarting \<or> s = EsStopping")
      case True
      then show thesis using gs notrun
        by (intro refused [of "Error (''Engine '' @ i @ '' is transitioning: '' @ engine_state_name s)"])
          (auto simp: EngineRegistry_start_def throw_def)
    next
      case nt: False
      show thesis
      proof (cases "engine_requires i (engine_deps e) r")
        case (Inl x)
        then show thesis using gs nr nt notrun by (intro refused) (auto simp: EngineRegistry_start_def)
      next
        case req: (Inr u)
        have deps: "\<forall>d \<in> set ds. map_of (eg_states r) d = Some EsRunning" if "engine_requires i ds r = Inr u" for ds
          using that by (induction ds) (auto simp: result_simps EngineRegistry_state_def split: option.splits)
        let ?c = "eg_nextController r"
        let ?r1 = "set_engine_state i EsStarting
            (r\<lparr>eg_nextController := ?c + 1, eg_controllers := AList.update i ?c (eg_controllers r)\<rparr>)"
        obtain q w where act: "en_start e ?c (eg_world ?r1) = (q, w)" by force
        show thesis
        proof (cases q)
          case (Inr v)
          show thesis using gs nr nt req act Inr look deps [OF req]
            by (intro started [of "set_engine_state i EsRunning (?r1\<lparr>eg_world := w\<rparr>)" e])
              (auto simp: EngineRegistry_start_def Let_def)
        next
          case (Inl x)
          show thesis using gs nr nt req act Inl notrun
            by (intro failed [of x "set_engine_state i EsFailed (?r1\<lparr>eg_world := w, eg_aborted := eg_aborted ?r1 @ [?c],
                 eg_controllers := AList.delete i (eg_controllers ?r1)\<rparr>)"])
              (auto simp: EngineRegistry_start_def Let_def)
        qed
      qed
    qed
  qed
qed

lemma EngineRegistry_stop_running:
  "engine_running (snd (EngineRegistry_stop i r)) j \<longleftrightarrow> engine_running r j \<and> j \<noteq> i"
proof (cases "bind_r (EngineRegistry_get i r) (\<lambda>e. bind_r (EngineRegistry_state i r) (\<lambda>s. Inr (e, s)))")
  case (Inl x)
  have "\<not> engine_running r i"
    using Inl EngineRegistry_get_state [of i r] by (auto simp: engine_running_def)
  then show ?thesis using Inl by (auto simp: EngineRegistry_stop_def)
next
  case (Inr es)
  obtain e s where es: "es = (e, s)" by force
  note gs = Inr [unfolded es]
  have look: "map_of (eg_engines r) i = Some e" "map_of (eg_states r) i = Some s"
    using gs EngineRegistry_get_state by auto
  show ?thesis
  proof (cases "s = EsRegistered \<or> s = EsStopped \<or> s = EsStarting \<or> s = EsStopping")
    case True
    then show ?thesis using gs look by (auto simp: EngineRegistry_stop_def engine_running_def)
  next
    case False
    obtain c r0 where c: "(case map_of (eg_controllers r) i of Some c \<Rightarrow> (c, r)
        | None \<Rightarrow> (eg_nextController r, r\<lparr>eg_nextController := eg_nextController r + 1\<rparr>)) = (c, r0)" by force
    have r0: "eg_engines r0 = eg_engines r" "eg_states r0 = eg_states r" using c by (auto split: option.splits)
    let ?r1 = "(set_engine_state i EsStopping r0)\<lparr>eg_aborted := eg_aborted r0 @ [c]\<rparr>"
    obtain x w where xw: "(case en_stop e of None \<Rightarrow> (Inr (), eg_world ?r1) | Some f \<Rightarrow> f c (eg_world ?r1)) = (x, w)"
      by force
    show ?thesis using gs False c xw r0
      by (cases x) (auto simp: EngineRegistry_stop_def engine_running_def Let_def)
  qed
qed

interpretation engines: lifecycle engine_running EngineRegistry_start EngineRegistry_stop
proof unfold_locales
  show "EngineRegistry_start i s = (Inr u, t) \<Longrightarrow> engine_running t i" for i s u t
    by (cases rule: EngineRegistry_start_cases [of i s]) (auto simp: engine_running_def)
  show "EngineRegistry_start i s = (Inl e, t) \<Longrightarrow> engine_running t = engine_running s \<and> \<not> engine_running s i" for i s e t
    by (cases rule: EngineRegistry_start_cases [of i s]) (auto simp: engine_running_def fun_eq_iff)
  show "j \<noteq> i \<Longrightarrow> engine_running (snd (EngineRegistry_start i s)) j = engine_running s j" for i j s
    by (cases rule: EngineRegistry_start_cases [of i s]) (auto simp: engine_running_def)
qed (auto simp: EngineRegistry_stop_running)

lemma registry_deps_ids: "fst ` set (registry_deps r) = fst ` set (eg_engines r)"
  by (force simp: registry_deps_def)

lemma startAll_running:
  assumes "EngineRegistry_startAll r = (x, t)"
  shows "case EngineRegistry_resolveStartOrder r of
      Inl e \<Rightarrow> x = Inl e \<and> t = r
    | Inr order \<Rightarrow> start_order (registry_deps r) order \<and> set order = fst ` set (eg_engines r) \<and>
        (case x of
           Inr _ \<Rightarrow> \<forall>i. i \<in> set order \<longrightarrow> engine_running t i
         | Inl e \<Rightarrow> \<exists>us i vs. order = us @ i # vs \<and> (\<forall>j \<in> set (us @ [i]). \<not> engine_running t j) \<and>
             (\<forall>j \<in> set vs. engine_running t j \<longleftrightarrow> engine_running r j))"
proof (cases "EngineRegistry_resolveStartOrder r")
  case (Inl e)
  then show ?thesis using assms by (simp add: EngineRegistry_startAll_def)
next
  case (Inr order)
  have o: "start_order (registry_deps r) order \<and> set order = fst ` set (eg_engines r)"
    using resolve_order_sound [OF Inr [unfolded EngineRegistry_resolveStartOrder_def]]
    by (simp only: registry_deps_ids)
  have run: "start_in_order EngineRegistry_start EngineRegistry_stop [] order r = (x, t)"
    using assms Inr by (simp add: EngineRegistry_startAll_def)
  note l = engines.start_in_order_running [OF run]
  show ?thesis
  proof (cases x)
    case (Inr u)
    then show ?thesis using l o \<open>EngineRegistry_resolveStartOrder r = Inr order\<close> by auto
  next
    case (Inl e)
    then obtain us i vs where k: "order = us @ i # vs" "\<not> engine_running t i"
      "\<forall>j. engine_running t j \<longleftrightarrow> engine_running r j \<and> j \<notin> set us" using l by auto
    have "distinct order" using o by (blast intro: start_order_distinct)
    then have "\<forall>j \<in> set vs. engine_running t j \<longleftrightarrow> engine_running r j"
      "\<forall>j \<in> set (us @ [i]). \<not> engine_running t j" using k by auto
    then show ?thesis using Inl k(1) o \<open>EngineRegistry_resolveStartOrder r = Inr order\<close>
      by (simp only: sum.case) blast
  qed
qed

lemma startAll_keeps_engines:
  "eg_engines (snd (EngineRegistry_startAll r)) = eg_engines r"
proof -
  have start: "eg_engines (snd (EngineRegistry_start i s)) = eg_engines s" for i and s :: "'a engine_registry"
    by (cases rule: EngineRegistry_start_cases [of i s]) auto
  have stop: "eg_engines (snd (EngineRegistry_stop i s)) = eg_engines s" for i and s :: "'a engine_registry"
    by (auto simp: EngineRegistry_stop_def Let_def split: sum.split option.split prod.split)
  have stops: "eg_engines (fold (\<lambda>j u. snd (EngineRegistry_stop j u)) is s) = eg_engines s" for "is" and s :: "'a engine_registry"
    by (induction "is" arbitrary: s) (simp_all add: stop)
  have "eg_engines (snd (start_in_order EngineRegistry_start EngineRegistry_stop started is s)) = eg_engines s"
    for started "is" and s :: "'a engine_registry"
  proof (induction "is" arbitrary: started s)
    case (Cons i "is")
    then show ?case using start [of i s] by (auto simp: stops split: prod.split sum.split)
  qed simp
  then show ?thesis by (simp add: EngineRegistry_startAll_def split: sum.split)
qed

text \<open>C6: Starting all engines goes through them in an order in which every engine comes after its
  dependencies.  When it succeeds every registered engine runs.  When an engine refuses or fails,
  that engine and every engine before it in the order is left not running, and no other engine's
  state of running changes.\<close>
theorem startAll_rolls_back:
  assumes "EngineRegistry_startAll r = (x, t)"
  shows "case EngineRegistry_resolveStartOrder r of
      Inl e \<Rightarrow> x = Inl e \<and> t = r
    | Inr order \<Rightarrow> start_order (registry_deps r) order \<and> set order = fst ` set (eg_engines r) \<and>
        (case x of
           Inr _ \<Rightarrow> \<forall>i. i \<in> set order \<longrightarrow> engine_running t i
         | Inl e \<Rightarrow> \<exists>us i vs. order = us @ i # vs \<and> (\<forall>j \<in> set (us @ [i]). \<not> engine_running t j) \<and>
             (\<forall>j \<in> set vs. engine_running t j \<longleftrightarrow> engine_running r j))"
  by (rule startAll_running [OF assms])

definition sample_engine :: "string \<Rightarrow> string list \<Rightarrow> bool \<Rightarrow> nat engine" where
  "sample_engine i ds ok = \<lparr>en_id = i, en_dependencies = Some ds,
     en_start = (\<lambda>c w. (if ok then Inr () else throw ''boom'', w + 1)), en_stop = Some (\<lambda>c w. (Inr (), w + 10))\<rparr>"

definition sample_registry :: "nat engine_registry" where
  "sample_registry = \<lparr>eg_engines = [(''b'', sample_engine ''b'' [''a''] False), (''a'', sample_engine ''a'' [] True)],
     eg_states = [(''b'', EsRegistered), (''a'', EsRegistered)], eg_controllers = [], eg_nextController = 0,
     eg_aborted = [], eg_world = 0\<rparr>"

lemma startAll_rolls_back_witness:
  "fst (EngineRegistry_startAll sample_registry) = throw ''boom'' \<and>
   \<not> engine_running (snd (EngineRegistry_startAll sample_registry)) ''a''"
proof -
  have run: "fst (EngineRegistry_startAll sample_registry) = throw ''boom''" by code_simp
  have order: "EngineRegistry_resolveStartOrder sample_registry = Inr [''a'', ''b'']" by code_simp
  obtain us i vs where k: "[''a'', ''b''] = us @ i # vs"
    "\<forall>j \<in> set (us @ [i]). \<not> engine_running (snd (EngineRegistry_startAll sample_registry)) j"
    using startAll_rolls_back [OF surjective_pairing, of sample_registry] order run by (auto simp: throw_def)
  have "''a'' \<in> set (us @ [i])" using k(1) by (cases us) auto
  then show ?thesis using k(2) run by blast
qed

text \<open>C7: A start order is found exactly when the registered dependencies have no cycle and name only
  registered engines.\<close>
theorem start_order_exists_iff:
  "(\<exists>order. EngineRegistry_resolveStartOrder r = Inr order) \<longleftrightarrow>
     acyclic (depends (registry_deps r)) \<and> closed_deps (registry_deps r)"
proof
  assume "\<exists>order. EngineRegistry_resolveStartOrder r = Inr order"
  then obtain order where order: "EngineRegistry_resolveStartOrder r = Inr order" ..
  have "start_order (registry_deps r) order \<and> set order = fst ` set (registry_deps r)"
    by (rule resolve_order_sound [OF order [unfolded EngineRegistry_resolveStartOrder_def]])
  then show "acyclic (depends (registry_deps r)) \<and> closed_deps (registry_deps r)"
    using start_order_acyclic start_order_closed by blast
next
  assume "acyclic (depends (registry_deps r)) \<and> closed_deps (registry_deps r)"
  then show "\<exists>order. EngineRegistry_resolveStartOrder r = Inr order"
    unfolding EngineRegistry_resolveStartOrder_def by (blast intro: resolve_order_complete)
qed

end
