(* ===== verification/PluginSystem.thy ===== *)
theory PluginSystem imports DependencyOrder begin

text \<open>
  \<open>packages/core/src/pluginSystem.ts\<close>.  A plugin's \<open>register\<close> and \<open>dispose\<close> are parameters that act
  on the context (the engine registry with its services) and may throw; they do not call back into
  the plugin system.  As in \<open>EngineRegistry\<close> a call returns its result and the state.
\<close>

section \<open>State and operations\<close>

datatype plugin_state = PgRegistered | PgLoading | PgLoaded | PgDisposing | PgDisposed | PgFailed

record 'c plugin =
  pg_id :: string
  pg_version :: string
  pg_dependencies :: "string list option"
  pg_register :: "'c \<Rightarrow> unit result \<times> 'c"
  pg_dispose :: "('c \<Rightarrow> unit result \<times> 'c) option"

record 'c plugin_system =
  ps_plugins :: "(string \<times> 'c plugin) list"
  ps_states :: "(string \<times> plugin_state) list"
  ps_context :: 'c

fun plugin_state_name :: "plugin_state \<Rightarrow> string" where
  "plugin_state_name PgRegistered = ''registered''" | "plugin_state_name PgLoading = ''loading''"
| "plugin_state_name PgLoaded = ''loaded''" | "plugin_state_name PgDisposing = ''disposing''"
| "plugin_state_name PgDisposed = ''disposed''" | "plugin_state_name PgFailed = ''failed''"

definition PluginSystem_new :: "'c \<Rightarrow> 'c plugin_system" where
  "PluginSystem_new context = \<lparr>ps_plugins = [], ps_states = [], ps_context = context\<rparr>"

definition plugin_deps :: "'c plugin \<Rightarrow> string list" where
  "plugin_deps p = (case pg_dependencies p of None \<Rightarrow> [] | Some ds \<Rightarrow> ds)"

definition PluginSystem_add :: "'c plugin \<Rightarrow> 'c plugin_system \<Rightarrow> 'c plugin_system result" where
  "PluginSystem_add p s =
     guard_r (blank (pg_id p)) (Error ''Plugin id must not be empty'')
     (guard_r (blank (pg_version p)) (Error (''Plugin version must not be empty: '' @ pg_id p))
     (guard_r (map_of (ps_plugins s) (pg_id p) \<noteq> None) (Error (''Plugin already registered: '' @ pg_id p))
     (Inr (s\<lparr>ps_plugins := AList.update (pg_id p) p (ps_plugins s),
             ps_states := AList.update (pg_id p) PgRegistered (ps_states s)\<rparr>))))"

definition PluginSystem_state :: "string \<Rightarrow> 'c plugin_system \<Rightarrow> plugin_state result" where
  "PluginSystem_state i s =
     (case map_of (ps_states s) i of None \<Rightarrow> throw (''Plugin not registered: '' @ i) | Some x \<Rightarrow> Inr x)"

definition PluginSystem_get :: "string \<Rightarrow> 'c plugin_system \<Rightarrow> 'c plugin result" where
  "PluginSystem_get i s =
     (case map_of (ps_plugins s) i of None \<Rightarrow> throw (''Plugin not registered: '' @ i) | Some p \<Rightarrow> Inr p)"

definition PluginSystem_list :: "'c plugin_system \<Rightarrow> (string \<times> string \<times> plugin_state) list result" where
  "PluginSystem_list s =
     map_r (\<lambda>p. bind_r (PluginSystem_state (pg_id p) s) (\<lambda>x. Inr (pg_id p, pg_version p, x))) (map snd (ps_plugins s))"

fun plugin_requires :: "string \<Rightarrow> string list \<Rightarrow> 'c plugin_system \<Rightarrow> unit result" where
  "plugin_requires i [] s = Inr ()"
| "plugin_requires i (d # ds) s =
     bind_r (PluginSystem_state d s) (\<lambda>x.
     guard_r (x \<noteq> PgLoaded) (Error (''Plugin '' @ i @ '' requires loaded dependency '' @ d)) (plugin_requires i ds s))"

definition set_plugin_state :: "string \<Rightarrow> plugin_state \<Rightarrow> 'c plugin_system \<Rightarrow> 'c plugin_system" where
  "set_plugin_state i x s = s\<lparr>ps_states := AList.update i x (ps_states s)\<rparr>"

definition PluginSystem_load :: "string \<Rightarrow> 'c plugin_system \<Rightarrow> unit result \<times> 'c plugin_system" where
  "PluginSystem_load i s =
     (case bind_r (PluginSystem_get i s) (\<lambda>p. bind_r (PluginSystem_state i s) (\<lambda>x. Inr (p, x))) of
        Inl e \<Rightarrow> (Inl e, s)
      | Inr (p, current) \<Rightarrow>
        if current = PgLoaded then (Inr (), s)
        else if current = PgLoading \<or> current = PgDisposing
        then (throw (''Plugin '' @ i @ '' is transitioning: '' @ plugin_state_name current), s)
        else case plugin_requires i (plugin_deps p) s of
          Inl e \<Rightarrow> (Inl e, s)
        | Inr _ \<Rightarrow>
          (let s1 = set_plugin_state i PgLoading s in
           case pg_register p (ps_context s1) of
             (Inr _, c) \<Rightarrow> (Inr (), set_plugin_state i PgLoaded (s1\<lparr>ps_context := c\<rparr>))
           | (Inl e, c) \<Rightarrow> (Inl e, set_plugin_state i PgFailed (s1\<lparr>ps_context := c\<rparr>))))"

definition PluginSystem_dispose :: "string \<Rightarrow> 'c plugin_system \<Rightarrow> unit result \<times> 'c plugin_system" where
  "PluginSystem_dispose i s =
     (case bind_r (PluginSystem_get i s) (\<lambda>p. bind_r (PluginSystem_state i s) (\<lambda>x. Inr (p, x))) of
        Inl e \<Rightarrow> (Inl e, s)
      | Inr (p, current) \<Rightarrow>
        if current = PgRegistered \<or> current = PgDisposed then (Inr (), s)
        else if current = PgLoading \<or> current = PgDisposing
        then (throw (''Plugin '' @ i @ '' is transitioning: '' @ plugin_state_name current), s)
        else
          (let s1 = set_plugin_state i PgDisposing s;
               (x, c) = (case pg_dispose p of None \<Rightarrow> (Inr (), ps_context s1) | Some f \<Rightarrow> f (ps_context s1))
           in (x, set_plugin_state i (case x of Inr _ \<Rightarrow> PgDisposed | Inl _ \<Rightarrow> PgFailed) (s1\<lparr>ps_context := c\<rparr>))))"

definition plugin_dependencies :: "'c plugin_system \<Rightarrow> dependencies" where
  "plugin_dependencies s = map (\<lambda>(i, p). (i, plugin_deps p)) (ps_plugins s)"

definition PluginSystem_resolveOrder :: "'c plugin_system \<Rightarrow> string list result" where
  "PluginSystem_resolveOrder s =
     resolve_order ''Plugin not registered: '' ''Cyclic plugin dependency detected at '' (plugin_dependencies s)"

definition PluginSystem_loadAll :: "'c plugin_system \<Rightarrow> unit result \<times> 'c plugin_system" where
  "PluginSystem_loadAll s =
     (case PluginSystem_resolveOrder s of
        Inl e \<Rightarrow> (Inl e, s)
      | Inr order \<Rightarrow> start_in_order PluginSystem_load PluginSystem_dispose [] order s)"

definition PluginSystem_disposeAll :: "'c plugin_system \<Rightarrow> unit result \<times> 'c plugin_system" where
  "PluginSystem_disposeAll s =
     (case PluginSystem_resolveOrder s of
        Inl e \<Rightarrow> (Inl e, s)
      | Inr order \<Rightarrow>
        (case stop_in_order PluginSystem_dispose (rev order) [] s of
           (errors, t) \<Rightarrow> (if errors \<noteq> [] then throw ''One or more plugins failed to dispose'' else Inr (), t)))"

section \<open>Lifecycle\<close>

definition plugin_loaded :: "'c plugin_system \<Rightarrow> string \<Rightarrow> bool" where
  "plugin_loaded s i \<longleftrightarrow> map_of (ps_plugins s) i \<noteq> None \<and> map_of (ps_states s) i = Some PgLoaded"

lemma set_plugin_state_simps [simp]:
  "ps_plugins (set_plugin_state i x s) = ps_plugins s"
  "map_of (ps_states (set_plugin_state i x s)) = (map_of (ps_states s))(i \<mapsto> x)"
  "ps_context (set_plugin_state i x s) = ps_context s"
  by (simp_all add: set_plugin_state_def)

lemma PluginSystem_get_state:
  "bind_r (PluginSystem_get i s) (\<lambda>p. bind_r (PluginSystem_state i s) (\<lambda>x. Inr (p, x))) = Inr (p, x) \<longleftrightarrow>
     map_of (ps_plugins s) i = Some p \<and> map_of (ps_states s) i = Some x"
  by (auto simp: result_simps PluginSystem_get_def PluginSystem_state_def split: option.splits)

lemma plugin_lookup_cases:
  obtains (missing) e where "bind_r (PluginSystem_get i s) (\<lambda>p. bind_r (PluginSystem_state i s) (\<lambda>x. Inr (p, x))) = Inl e"
      "\<not> plugin_loaded s i"
  | (found) p x where "bind_r (PluginSystem_get i s) (\<lambda>p. bind_r (PluginSystem_state i s) (\<lambda>x. Inr (p, x))) = Inr (p, x)"
      "map_of (ps_plugins s) i = Some p" "map_of (ps_states s) i = Some x"
proof (cases "bind_r (PluginSystem_get i s) (\<lambda>p. bind_r (PluginSystem_state i s) (\<lambda>x. Inr (p, x)))")
  case (Inl e)
  then show thesis using PluginSystem_get_state [of i s] by (intro missing) (auto simp: plugin_loaded_def)
next
  case (Inr px)
  then show thesis using PluginSystem_get_state [of i s "fst px" "snd px"] by (intro found) auto
qed

lemma PluginSystem_load_loaded:
  "PluginSystem_load i s = (x, t) \<Longrightarrow> ps_plugins t = ps_plugins s \<and>
     (case x of Inr _ \<Rightarrow> \<forall>j. plugin_loaded t j \<longleftrightarrow> plugin_loaded s j \<or> j = i
      | Inl e \<Rightarrow> plugin_loaded t = plugin_loaded s \<and> \<not> plugin_loaded s i)"
  by (cases rule: plugin_lookup_cases [of i s])
    (auto simp: PluginSystem_load_def plugin_loaded_def Let_def throw_def fun_eq_iff
      split: if_splits sum.splits prod.splits)

lemma PluginSystem_dispose_loaded:
  "PluginSystem_dispose i s = (x, t) \<Longrightarrow> ps_plugins t = ps_plugins s \<and>
     (\<forall>j. plugin_loaded t j \<longleftrightarrow> plugin_loaded s j \<and> j \<noteq> i)"
  by (cases rule: plugin_lookup_cases [of i s])
    (auto simp: PluginSystem_dispose_def plugin_loaded_def Let_def throw_def
      split: if_splits sum.splits prod.splits)

interpretation plugins: lifecycle plugin_loaded PluginSystem_load PluginSystem_dispose
proof unfold_locales
  fix i j :: string and s t :: "'a plugin_system" and u e
  show "PluginSystem_load i s = (Inr u, t) \<Longrightarrow> plugin_loaded t i"
    by (drule PluginSystem_load_loaded) simp
  show "PluginSystem_load i s = (Inl e, t) \<Longrightarrow> plugin_loaded t = plugin_loaded s \<and> \<not> plugin_loaded s i"
    by (drule PluginSystem_load_loaded) simp
  show "j \<noteq> i \<Longrightarrow> plugin_loaded (snd (PluginSystem_load i s)) j = plugin_loaded s j"
    using PluginSystem_load_loaded [of i s "fst (PluginSystem_load i s)" "snd (PluginSystem_load i s)"]
    by (auto split: sum.splits)
  show "plugin_loaded s i \<Longrightarrow> \<not> plugin_loaded (snd (PluginSystem_dispose i s)) i"
    "j \<noteq> i \<or> \<not> plugin_loaded s j \<Longrightarrow> plugin_loaded (snd (PluginSystem_dispose i s)) j = plugin_loaded s j"
    using PluginSystem_dispose_loaded [of i s "fst (PluginSystem_dispose i s)" "snd (PluginSystem_dispose i s)"]
    by auto
qed

lemma plugin_dependencies_ids: "fst ` set (plugin_dependencies s) = fst ` set (ps_plugins s)"
  by (force simp: plugin_dependencies_def)

lemma plugin_loaded_registered: "plugin_loaded s i \<Longrightarrow> i \<in> fst ` set (ps_plugins s)"
  by (auto simp: plugin_loaded_def dest!: map_of_SomeD intro: rev_image_eqI)

lemma resolveOrder_sound:
  assumes "PluginSystem_resolveOrder s = Inr order"
  shows "start_order (plugin_dependencies s) order" "set order = fst ` set (ps_plugins s)"
  using resolve_order_sound [OF assms [unfolded PluginSystem_resolveOrder_def]]
  by (simp_all only: plugin_dependencies_ids)

lemma resolveOrder_cong: "ps_plugins t = ps_plugins s \<Longrightarrow> PluginSystem_resolveOrder t = PluginSystem_resolveOrder s"
  by (simp add: PluginSystem_resolveOrder_def plugin_dependencies_def)

lemma dispose_fold_plugins:
  "ps_plugins (fold (\<lambda>j u. snd (PluginSystem_dispose j u)) is s) = ps_plugins s"
proof (induction "is" arbitrary: s)
  case (Cons i "is")
  then show ?case using PluginSystem_dispose_loaded [of i s "fst (PluginSystem_dispose i s)" "snd (PluginSystem_dispose i s)"]
    by simp
qed simp

lemma loadAll_plugins: "PluginSystem_loadAll s = (x, t) \<Longrightarrow> ps_plugins t = ps_plugins s"
proof -
  have "ps_plugins (snd (start_in_order PluginSystem_load PluginSystem_dispose started is s)) = ps_plugins s"
    for started "is" and s :: "'a plugin_system"
  proof (induction "is" arbitrary: started s)
    case (Cons i "is")
    then show ?case
      using PluginSystem_load_loaded [of i s "fst (PluginSystem_load i s)" "snd (PluginSystem_load i s)"]
      by (auto simp: dispose_fold_plugins split: prod.split sum.split)
  qed simp
  then have "ps_plugins (snd (PluginSystem_loadAll s)) = ps_plugins s"
    by (cases "PluginSystem_resolveOrder s") (simp_all add: PluginSystem_loadAll_def)
  then show "PluginSystem_loadAll s = (x, t) \<Longrightarrow> ps_plugins t = ps_plugins s" by simp
qed

lemma loadAll_loaded:
  assumes "PluginSystem_loadAll s = (x, t)"
  shows "case x of
      Inr _ \<Rightarrow> \<exists>order. PluginSystem_resolveOrder s = Inr order \<and> (\<forall>i \<in> fst ` set (ps_plugins s). plugin_loaded t i)
    | Inl e \<Rightarrow> \<forall>i. plugin_loaded t i \<longrightarrow> plugin_loaded s i"
proof (cases "PluginSystem_resolveOrder s")
  case (Inl e)
  then show ?thesis using assms by (auto simp: PluginSystem_loadAll_def)
next
  case (Inr order)
  have run: "start_in_order PluginSystem_load PluginSystem_dispose [] order s = (x, t)"
    using assms Inr by (simp add: PluginSystem_loadAll_def)
  show ?thesis
    using plugins.start_in_order_running [OF run] resolveOrder_sound(2) [OF Inr] Inr
    by (cases x) auto
qed

text \<open>A successful \<open>loadAll\<close> is one load after the other, in the order found, each of which succeeds.\<close>

definition load_each :: "string list \<Rightarrow> 'c plugin_system \<Rightarrow> 'c plugin_system" where
  "load_each order s = fold (\<lambda>i u. snd (PluginSystem_load i u)) order s"

lemma start_in_order_fold:
  "start_in_order start stop started is s = (Inr u, t) \<Longrightarrow>
    t = fold (\<lambda>i v. snd (start i v)) is s \<and>
    (\<forall>k < length is. fst (start (is ! k) (fold (\<lambda>i v. snd (start i v)) (take k is) s)) = Inr ())"
proof (induction "is" arbitrary: started s)
  case (Cons i "is")
  then obtain v where v: "start i s = (Inr (), v)" "start_in_order start stop (started @ [i]) is v = (Inr u, t)"
    by (auto split: prod.splits sum.splits)
  show ?case using Cons.IH [OF v(2)] v(1) by (auto simp: nth_Cons less_Suc_eq_0_disj split: nat.split)
qed simp

lemma loadAll_in_order:
  assumes "PluginSystem_loadAll s = (Inr u, t)"
  obtains order where "start_order (plugin_dependencies s) order" "set order = fst ` set (ps_plugins s)" "t = load_each order s"
    "\<forall>k < length order. fst (PluginSystem_load (order ! k) (load_each (take k order) s)) = Inr ()"
proof (cases "PluginSystem_resolveOrder s")
  case (Inl e)
  then show ?thesis using assms by (simp add: PluginSystem_loadAll_def)
next
  case (Inr order)
  have "start_in_order PluginSystem_load PluginSystem_dispose [] order s = (Inr u, t)"
    using assms Inr by (simp add: PluginSystem_loadAll_def)
  from start_in_order_fold [OF this] show ?thesis using that resolveOrder_sound [OF Inr] by (simp add: load_each_def)
qed

lemma disposeAll_unloads:
  assumes "PluginSystem_resolveOrder s = Inr order"
  shows "\<not> plugin_loaded (snd (PluginSystem_disposeAll s)) i"
proof -
  obtain errors t where run: "stop_in_order PluginSystem_dispose (rev order) [] s = (errors, t)" by force
  have "plugin_loaded t i \<longleftrightarrow> plugin_loaded s i \<and> i \<notin> set order"
    using plugins.stop_in_order_running [of "rev order" "[]" s i] run by simp
  then have "\<not> plugin_loaded t i"
    using plugin_loaded_registered resolveOrder_sound(2) [OF assms] by blast
  then show ?thesis using assms run by (simp add: PluginSystem_disposeAll_def)
qed

end
