(* ===== verification/EventBus.thy ===== *)
theory EventBus imports Prelude begin

text \<open>
  \<open>packages/core/src/eventBus.ts\<close>.  Handler sets are shared between the map and the closures of the
  subscriptions, so they live in a store (\<open>eb_sets\<close>) and are referred to by index; a subscription is
  an index into \<open>eb_subs\<close>.  A handler is what the caller passed, compared by identity, or the fresh
  wrapper that \<open>once\<close> makes, which knows its own subscription.  What a handler does to the bus and
  to the world is a parameter.  In parallel mode the bodies of the handlers run one after another.
\<close>

section \<open>State and operations\<close>

datatype 'h handler = Direct 'h | OnceOf nat 'h

record 'h subscription =
  su_event :: string
  su_set :: nat
  su_handler :: "'h handler"
  su_active :: bool

record 'h event_bus =
  eb_handlers :: "(string \<times> nat) list"
  eb_sets :: "'h handler list list"
  eb_subs :: "'h subscription list"

definition EventBus_new :: "'h event_bus" where
  "EventBus_new = \<lparr>eb_handlers = [], eb_sets = [], eb_subs = []\<rparr>"

definition bus_subscribe :: "string \<Rightarrow> 'h handler \<Rightarrow> 'h event_bus \<Rightarrow> nat \<times> 'h event_bus" where
  "bus_subscribe event handler b =
     (let (s, sets) = (case map_of (eb_handlers b) event of
          Some s \<Rightarrow> (s, eb_sets b) | None \<Rightarrow> (length (eb_sets b), eb_sets b @ [[]]))
      in (length (eb_subs b),
          b\<lparr>eb_sets := sets[s := set_add handler (sets ! s)],
            eb_handlers := AList.update event s (eb_handlers b),
            eb_subs := eb_subs b @ [\<lparr>su_event = event, su_set = s, su_handler = handler, su_active = True\<rparr>]\<rparr>))"

definition EventBus_subscribe :: "string \<Rightarrow> 'h \<Rightarrow> 'h event_bus \<Rightarrow> nat \<times> 'h event_bus" where
  "EventBus_subscribe event handler b = bus_subscribe event (Direct handler) b"

definition Subscription_unsubscribe :: "nat \<Rightarrow> 'h event_bus \<Rightarrow> 'h event_bus" where
  "Subscription_unsubscribe k b =
     (let u = eb_subs b ! k in
      if k \<ge> length (eb_subs b) \<or> \<not> su_active u then b
      else
        (let left = filter (\<lambda>h. h \<noteq> su_handler u) (eb_sets b ! su_set u)
         in b\<lparr>eb_subs := (eb_subs b)[k := u\<lparr>su_active := False\<rparr>],
              eb_sets := (eb_sets b)[su_set u := left],
              eb_handlers := (if left = [] then AList.delete (su_event u) (eb_handlers b) else eb_handlers b)\<rparr>))"

definition EventBus_once :: "string \<Rightarrow> 'h \<Rightarrow> 'h event_bus \<Rightarrow> nat \<times> 'h event_bus" where
  "EventBus_once event handler b = bus_subscribe event (OnceOf (length (eb_subs b)) handler) b"

definition EventBus_clear :: "string option \<Rightarrow> 'h event_bus \<Rightarrow> 'h event_bus" where
  "EventBus_clear event b =
     (case event of
        None \<Rightarrow> b\<lparr>eb_handlers := []\<rparr>
      | Some e \<Rightarrow> b\<lparr>eb_handlers := AList.delete e (eb_handlers b)\<rparr>)"

definition bus_listeners :: "string \<Rightarrow> 'h event_bus \<Rightarrow> 'h handler list" where
  "bus_listeners event b = (case map_of (eb_handlers b) event of None \<Rightarrow> [] | Some s \<Rightarrow> eb_sets b ! s)"

definition EventBus_listenerCount :: "string \<Rightarrow> 'h event_bus \<Rightarrow> nat" where
  "EventBus_listenerCount event b = length (bus_listeners event b)"

text \<open>A signal says of the world whether it is aborted, and with what reason.\<close>

type_synonym 'w abort_signal = "'w \<Rightarrow> bool \<times> js_error option"
type_synonym ('h, 'p, 'w) handler_body = "'h \<Rightarrow> 'p \<Rightarrow> 'h event_bus \<times> 'w \<Rightarrow> unit result \<times> 'h event_bus \<times> 'w"

definition abort_reason :: "'w abort_signal option \<Rightarrow> 'w \<Rightarrow> js_error option" where
  "abort_reason signal w =
     (case signal of None \<Rightarrow> None
      | Some f \<Rightarrow> (case f w of (False, _) \<Rightarrow> None
          | (True, reason) \<Rightarrow> Some (case reason of None \<Rightarrow> Error ''Event publication aborted'' | Some e \<Rightarrow> e)))"

definition call_handler ::
  "('h, 'p, 'w) handler_body \<Rightarrow> 'p \<Rightarrow> 'h handler \<Rightarrow> 'h event_bus \<times> 'w \<Rightarrow> unit result \<times> 'h event_bus \<times> 'w" where
  "call_handler body payload h s =
     (case h of Direct f \<Rightarrow> body f payload s
      | OnceOf k f \<Rightarrow> body f payload (Subscription_unsubscribe k (fst s), snd s))"

definition bus_invoke ::
  "('h, 'p, 'w) handler_body \<Rightarrow> 'w abort_signal option \<Rightarrow> 'p \<Rightarrow> 'h handler \<Rightarrow> 'h event_bus \<times> 'w \<Rightarrow>
    unit result \<times> 'h event_bus \<times> 'w" where
  "bus_invoke body signal payload h s =
     (case abort_reason signal (snd s) of Some e \<Rightarrow> (Inl e, s) | None \<Rightarrow> call_handler body payload h s)"

fun publish_serial ::
  "('h handler \<Rightarrow> 's \<Rightarrow> unit result \<times> 's) \<Rightarrow> 'h handler list \<Rightarrow> 's \<Rightarrow> unit result \<times> 's" where
  "publish_serial invoke [] s = (Inr (), s)"
| "publish_serial invoke (h # hs) s =
     (case invoke h s of (Inl e, t) \<Rightarrow> (Inl e, t) | (Inr _, t) \<Rightarrow> publish_serial invoke hs t)"

fun publish_parallel ::
  "('h handler \<Rightarrow> 's \<Rightarrow> unit result \<times> 's) \<Rightarrow> 'h handler list \<Rightarrow> 's \<Rightarrow> unit result \<times> 's" where
  "publish_parallel invoke [] s = (Inr (), s)"
| "publish_parallel invoke (h # hs) s =
     (case invoke h s of (r, t) \<Rightarrow>
        (case publish_parallel invoke hs t of (q, u) \<Rightarrow> (case r of Inl e \<Rightarrow> Inl e | Inr _ \<Rightarrow> q, u)))"

definition EventBus_publish ::
  "('h, 'p, 'w) handler_body \<Rightarrow> string \<Rightarrow> 'p \<Rightarrow> bool \<Rightarrow> 'w abort_signal option \<Rightarrow> 'h event_bus \<times> 'w \<Rightarrow>
    unit result \<times> 'h event_bus \<times> 'w" where
  "EventBus_publish body event payload par signal s =
     (case abort_reason signal (snd s) of
        Some e \<Rightarrow> (Inl e, s)
      | None \<Rightarrow>
        (let hs = bus_listeners event (fst s) in
         if par then publish_parallel (bus_invoke body signal payload) hs s
         else publish_serial (bus_invoke body signal payload) hs s))"

section \<open>Reachable buses\<close>

inductive bus_step :: "'h event_bus \<Rightarrow> 'h event_bus \<Rightarrow> bool" where
  Subscribe: "bus_step b (snd (EventBus_subscribe e h b))"
| Once: "bus_step b (snd (EventBus_once e h b))"
| Unsubscribe: "bus_step b (Subscription_unsubscribe k b)"
| Clear: "bus_step b (EventBus_clear e b)"

inductive bus_reachable :: "'h event_bus \<Rightarrow> bool" where
  Init: "bus_reachable EventBus_new"
| Step: "bus_reachable b \<Longrightarrow> bus_step b b' \<Longrightarrow> bus_reachable b'"

text \<open>Live sets exist and belong to one event; a wrapper of \<open>once\<close> is only in the set of its own,
  still active subscription.\<close>

definition live_sets_ok :: "'h event_bus \<Rightarrow> bool" where
  "live_sets_ok b \<longleftrightarrow>
     (\<forall>e s. map_of (eb_handlers b) e = Some s \<longrightarrow>
        s < length (eb_sets b) \<and> (\<forall>u \<in> set (eb_subs b). su_set u = s \<longrightarrow> su_event u = e)) \<and>
     (\<forall>e e' s. map_of (eb_handlers b) e = Some s \<and> map_of (eb_handlers b) e' = Some s \<longrightarrow> e = e') \<and>
     (\<forall>u \<in> set (eb_subs b). su_set u < length (eb_sets b)) \<and>
     (\<forall>hs \<in> set (eb_sets b). distinct hs)"

definition wrappers_ok :: "'h event_bus \<Rightarrow> bool" where
  "wrappers_ok b \<longleftrightarrow>
     (\<forall>s k f. s < length (eb_sets b) \<and> OnceOf k f \<in> set (eb_sets b ! s) \<longrightarrow>
        k < length (eb_subs b) \<and> su_set (eb_subs b ! k) = s \<and> su_handler (eb_subs b ! k) = OnceOf k f \<and>
        su_active (eb_subs b ! k))"

lemma live_setsD:
  assumes "live_sets_ok b"
  shows "map_of (eb_handlers b) e = Some s \<Longrightarrow> s < length (eb_sets b)"
    and "map_of (eb_handlers b) e = Some s \<Longrightarrow> u \<in> set (eb_subs b) \<Longrightarrow> su_set u = s \<Longrightarrow> su_event u = e"
    and "map_of (eb_handlers b) e = Some s \<Longrightarrow> map_of (eb_handlers b) e' = Some s \<Longrightarrow> e = e'"
    and "u \<in> set (eb_subs b) \<Longrightarrow> su_set u < length (eb_sets b)"
    and "hs \<in> set (eb_sets b) \<Longrightarrow> distinct hs"
  using assms unfolding live_sets_ok_def by blast+

lemma bus_subscribe_simps:
  assumes "live_sets_ok b"
  obtains s where "map_of (eb_handlers (snd (bus_subscribe e h b))) = (map_of (eb_handlers b))(e \<mapsto> s)"
    "eb_subs (snd (bus_subscribe e h b)) =
       eb_subs b @ [\<lparr>su_event = e, su_set = s, su_handler = h, su_active = True\<rparr>]"
    "map_of (eb_handlers b) e = Some s \<and> s < length (eb_sets b) \<and>
       eb_sets (snd (bus_subscribe e h b)) = (eb_sets b)[s := set_add h (eb_sets b ! s)] \<or>
     map_of (eb_handlers b) e = None \<and> s = length (eb_sets b) \<and>
       eb_sets (snd (bus_subscribe e h b)) = eb_sets b @ [[h]]"
proof (cases "map_of (eb_handlers b) e")
  case None
  show thesis using None
    by (intro that [of "length (eb_sets b)"]) (simp_all add: bus_subscribe_def set_add.simps)
next
  case (Some s)
  then have "s < length (eb_sets b)" using assms by (simp add: live_sets_ok_def)
  then show thesis using Some by (intro that [of s]) (simp_all add: bus_subscribe_def)
qed

lemma live_sets_subscribe [step_invs]:
  assumes "live_sets_ok b"
  shows "live_sets_ok (snd (bus_subscribe e h b))"
proof -
  let ?b = "snd (bus_subscribe e h b)"
  obtain s where m: "map_of (eb_handlers ?b) = (map_of (eb_handlers b))(e \<mapsto> s)"
    and u: "eb_subs ?b = eb_subs b @ [\<lparr>su_event = e, su_set = s, su_handler = h, su_active = True\<rparr>]"
    and d: "map_of (eb_handlers b) e = Some s \<and> s < length (eb_sets b) \<and>
       eb_sets ?b = (eb_sets b)[s := set_add h (eb_sets b ! s)] \<or>
     map_of (eb_handlers b) e = None \<and> s = length (eb_sets b) \<and> eb_sets ?b = eb_sets b @ [[h]]"
    using assms by (rule bus_subscribe_simps)
  note ok = live_setsD [OF assms]
  from d have n: "length (eb_sets b) \<le> length (eb_sets ?b)" "s < length (eb_sets ?b)"
    and o: "map_of (eb_handlers b) e = Some s \<or> s = length (eb_sets b)" by auto
  have dist: "distinct hs" if "hs \<in> set (eb_sets ?b)" for hs
    using d that ok(5) set_update_subset_insert [of "eb_sets b" s "set_add h (eb_sets b ! s)"]
    by (auto simp: distinct_set_add)
  have live: "t = s \<and> e' = e \<or> map_of (eb_handlers b) e' = Some t \<and> t \<noteq> s" if "map_of (eb_handlers ?b) e' = Some t" for e' t
  proof (cases "e' = e")
    case True
    then show ?thesis using that by (simp add: m)
  next
    case False
    then have t: "map_of (eb_handlers b) e' = Some t" using that by (simp add: m)
    have "t \<noteq> s" using o ok(1) [OF t] ok(3) [OF t, of e] False by auto
    then show ?thesis using t by simp
  qed
  have sub: "su_event u = e \<and> su_set u = s \<or> u \<in> set (eb_subs b) \<and> (su_set u = s \<longrightarrow> su_event u = e)"
    if "u \<in> set (eb_subs ?b)" for u
  proof (cases "u \<in> set (eb_subs b)")
    case True
    then show ?thesis using o ok(2) [of e s u] ok(4) [of u] by auto
  next
    case False
    then show ?thesis using that by (simp add: u)
  qed
  show ?thesis unfolding live_sets_ok_def
  proof (intro conjI allI impI ballI)
    show "t < length (eb_sets ?b)" if "map_of (eb_handlers ?b) e' = Some t" for e' t
      using live [OF that] n ok(1) by fastforce
    show "su_event u = e'" if "map_of (eb_handlers ?b) e' = Some t" "u \<in> set (eb_subs ?b)" "su_set u = t" for e' t u
      using live [OF that(1)] sub [OF that(2)] that(3) ok(2) by auto
    show "e1 = e2" if "map_of (eb_handlers ?b) e1 = Some t \<and> map_of (eb_handlers ?b) e2 = Some t" for e1 e2 t
      using live that ok(3) by blast
    show "su_set u < length (eb_sets ?b)" if "u \<in> set (eb_subs ?b)" for u
      using sub [OF that] n ok(4) by fastforce
  qed (rule dist)
qed

lemma wrappers_subscribe [step_invs]:
  assumes "live_sets_ok b" "wrappers_ok b" "\<forall>k f. h = OnceOf k f \<longrightarrow> k = length (eb_subs b)"
  shows "wrappers_ok (snd (bus_subscribe e h b))"
proof -
  let ?b = "snd (bus_subscribe e h b)"
  obtain s where u: "eb_subs ?b = eb_subs b @ [\<lparr>su_event = e, su_set = s, su_handler = h, su_active = True\<rparr>]"
    and d: "s < length (eb_sets b) \<and> eb_sets ?b = (eb_sets b)[s := set_add h (eb_sets b ! s)] \<or>
     s = length (eb_sets b) \<and> eb_sets ?b = eb_sets b @ [[h]]"
    using assms(1) by (rule bus_subscribe_simps) blast
  have old: "t < length (eb_sets b) \<Longrightarrow> OnceOf k f \<in> set (eb_sets b ! t) \<Longrightarrow>
      k < length (eb_subs b) \<and> su_set (eb_subs b ! k) = t \<and> su_handler (eb_subs b ! k) = OnceOf k f \<and>
        su_active (eb_subs b ! k)" for t k f
    using assms(2) by (simp add: wrappers_ok_def)
  have mem: "OnceOf k f \<in> set (eb_sets b ! t) \<and> t < length (eb_sets b) \<or> OnceOf k f = h \<and> t = s"
    if "t < length (eb_sets ?b)" "OnceOf k f \<in> set (eb_sets ?b ! t)" for t k f
    using d that by (auto simp: nth_append nth_list_update split: if_splits)
  show ?thesis
    unfolding wrappers_ok_def u
  proof (intro allI impI, elim conjE)
    fix t k f
    assume "t < length (eb_sets ?b)" "OnceOf k f \<in> set (eb_sets ?b ! t)"
    from mem [OF this] show "k < length (eb_subs b @ [\<lparr>su_event = e, su_set = s, su_handler = h, su_active = True\<rparr>]) \<and>
      su_set ((eb_subs b @ [\<lparr>su_event = e, su_set = s, su_handler = h, su_active = True\<rparr>]) ! k) = t \<and>
      su_handler ((eb_subs b @ [\<lparr>su_event = e, su_set = s, su_handler = h, su_active = True\<rparr>]) ! k) = OnceOf k f \<and>
      su_active ((eb_subs b @ [\<lparr>su_event = e, su_set = s, su_handler = h, su_active = True\<rparr>]) ! k)"
      using old [of t k f] assms(3) by (auto simp: nth_append)
  qed
qed

lemma live_sets_unsubscribe [step_invs]:
  assumes "live_sets_ok b"
  shows "live_sets_ok (Subscription_unsubscribe k b)"
proof (cases "k < length (eb_subs b) \<and> su_active (eb_subs b ! k)")
  case True
  let ?u = "eb_subs b ! k"
  let ?left = "filter (\<lambda>h. h \<noteq> su_handler ?u) (eb_sets b ! su_set ?u)"
  let ?b = "Subscription_unsubscribe k b"
  note ok = live_setsD [OF assms]
  have eq: "eb_subs ?b = (eb_subs b)[k := ?u\<lparr>su_active := False\<rparr>]" "eb_sets ?b = (eb_sets b)[su_set ?u := ?left]"
    using True by (simp_all add: Subscription_unsubscribe_def Let_def)
  have live: "map_of (eb_handlers b) e = Some t" if "map_of (eb_handlers ?b) e = Some t" for e t
    using that True by (auto simp: Subscription_unsubscribe_def Let_def split: if_splits)
  have sub: "\<exists>w \<in> set (eb_subs b). su_set v = su_set w \<and> su_event v = su_event w" if "v \<in> set (eb_subs ?b)" for v
  proof -
    have "v = ?u\<lparr>su_active := False\<rparr> \<or> v \<in> set (eb_subs b)"
      using that set_update_subset_insert [of "eb_subs b" k "?u\<lparr>su_active := False\<rparr>"] unfolding eq by blast
    then show ?thesis using True nth_mem [of k "eb_subs b"] by auto
  qed
  have "?u \<in> set (eb_subs b)" using True by simp
  then have "distinct ?left" using ok(4,5) by simp
  then have dist: "distinct hs" if "hs \<in> set (eb_sets ?b)" for hs
    using that ok(5) set_update_subset_insert [of "eb_sets b" "su_set ?u" ?left] unfolding eq by blast
  show ?thesis unfolding live_sets_ok_def
  proof (intro conjI allI impI ballI)
    show "t < length (eb_sets ?b)" if "map_of (eb_handlers ?b) e' = Some t" for e' t
      using ok(1) [OF live [OF that]] by (simp add: eq)
    show "su_event u = e'" if "map_of (eb_handlers ?b) e' = Some t" "u \<in> set (eb_subs ?b)" "su_set u = t" for e' t u
      using ok(2) [OF live [OF that(1)]] sub [OF that(2)] that(3) by auto
    show "e1 = e2" if "map_of (eb_handlers ?b) e1 = Some t \<and> map_of (eb_handlers ?b) e2 = Some t" for e1 e2 t
      using live that ok(3) by blast
    show "su_set u < length (eb_sets ?b)" if "u \<in> set (eb_subs ?b)" for u
      using sub [OF that] ok(4) by (auto simp: eq)
  qed (rule dist)
qed (use assms in \<open>auto simp: Subscription_unsubscribe_def Let_def\<close>)

lemma wrappers_unsubscribe [step_invs]:
  assumes "live_sets_ok b" "wrappers_ok b"
  shows "wrappers_ok (Subscription_unsubscribe k b)"
proof (cases "k < length (eb_subs b) \<and> su_active (eb_subs b ! k)")
  case True
  have old: "t < length (eb_sets b) \<Longrightarrow> OnceOf j f \<in> set (eb_sets b ! t) \<Longrightarrow>
      j < length (eb_subs b) \<and> su_set (eb_subs b ! j) = t \<and> su_handler (eb_subs b ! j) = OnceOf j f \<and>
        su_active (eb_subs b ! j)" for t j f
    using assms(2) by (simp add: wrappers_ok_def)
  let ?u = "eb_subs b ! k" and ?b = "Subscription_unsubscribe k b"
  have eq: "eb_subs ?b = (eb_subs b)[k := ?u\<lparr>su_active := False\<rparr>]"
    "eb_sets ?b = (eb_sets b)[su_set ?u := filter (\<lambda>h. h \<noteq> su_handler ?u) (eb_sets b ! su_set ?u)]"
    using True by (simp_all add: Subscription_unsubscribe_def Let_def)
  have mem: "OnceOf j f \<in> set (eb_sets b ! t) \<and> j \<noteq> k" if "t < length (eb_sets b)" "OnceOf j f \<in> set (eb_sets ?b ! t)" for t j f
    using that old [of t j f] by (cases "t = su_set ?u") (auto simp: eq)
  show ?thesis unfolding wrappers_ok_def
  proof (intro allI impI, elim conjE)
    fix t j f assume t: "t < length (eb_sets ?b)" "OnceOf j f \<in> set (eb_sets ?b ! t)"
    then have "t < length (eb_sets b)" by (simp add: eq)
    then show "j < length (eb_subs ?b) \<and> su_set (eb_subs ?b ! j) = t \<and> su_handler (eb_subs ?b ! j) = OnceOf j f \<and>
        su_active (eb_subs ?b ! j)"
      using mem [OF _ t(2)] old [of t j f] by (simp add: eq)
  qed
qed (use assms in \<open>auto simp: Subscription_unsubscribe_def Let_def\<close>)

lemma bus_reachable_ok: "bus_reachable b \<Longrightarrow> live_sets_ok b \<and> wrappers_ok b"
proof (induction rule: bus_reachable.induct)
  case Init
  then show ?case by (simp add: EventBus_new_def live_sets_ok_def wrappers_ok_def)
next
  case (Step b b')
  from Step(2) Step(3) show ?case
  proof (cases rule: bus_step.cases)
    case (Clear e)
    then show ?thesis using Step(3)
      by (auto simp: EventBus_clear_def live_sets_ok_def wrappers_ok_def split: option.splits if_splits)
  qed (auto simp: EventBus_subscribe_def EventBus_once_def intro!: step_invs)
qed

section \<open>Delivery\<close>

fun is_direct :: "'h handler \<Rightarrow> bool" where
  "is_direct (Direct f) = True" | "is_direct (OnceOf k f) = False"

fun handler_fun :: "'h handler \<Rightarrow> 'h" where
  "handler_fun (Direct f) = f" | "handler_fun (OnceOf k f) = f"

text \<open>A body that acts on the world only.\<close>

definition bus_blind :: "('h \<Rightarrow> 'p \<Rightarrow> 'w \<Rightarrow> unit result \<times> 'w) \<Rightarrow> ('h, 'p, 'w) handler_body" where
  "bus_blind act f p s = (case act f p (snd s) of (r, w) \<Rightarrow> (r, fst s, w))"

lemma unsubscribe_wrapper:
  assumes "live_sets_ok b" "wrappers_ok b" "bus_listeners e b = us @ OnceOf k f # vs"
  shows "bus_listeners e (Subscription_unsubscribe k b) = us @ vs"
proof -
  obtain s where s: "map_of (eb_handlers b) e = Some s" "eb_sets b ! s = us @ OnceOf k f # vs" "s < length (eb_sets b)"
    using assms(1,3) by (auto simp: bus_listeners_def live_sets_ok_def split: option.splits)
  have "OnceOf k f \<in> set (eb_sets b ! s)" using s(2) by simp
  then have k: "k < length (eb_subs b)" "su_set (eb_subs b ! k) = s" "su_handler (eb_subs b ! k) = OnceOf k f"
    "su_active (eb_subs b ! k)"
    using assms(2) s(3) unfolding wrappers_ok_def by blast+
  have "distinct (us @ OnceOf k f # vs)" using assms(1) s by (metis live_sets_ok_def nth_mem)
  then have left: "filter (\<lambda>h. h \<noteq> OnceOf k f) (eb_sets b ! s) = us @ vs"
    using s(2) by (simp add: filter_id_conv) (metis (mono_tags, lifting) filter_True)
  have "su_event (eb_subs b ! k) = e" using assms(1) s(1) k by (auto simp: live_sets_ok_def)
  then show ?thesis using s k left by (auto simp: bus_listeners_def Subscription_unsubscribe_def Let_def)
qed

lemma bus_invoke_blind:
  "bus_invoke (bus_blind act) None p h (b, w) =
     (fst (act (handler_fun h) p w),
      case h of Direct f \<Rightarrow> b | OnceOf k f \<Rightarrow> Subscription_unsubscribe k b, snd (act (handler_fun h) p w))"
  by (cases h) (auto simp: bus_invoke_def abort_reason_def call_handler_def bus_blind_def split: prod.split)

lemma publish_serial_delivers:
  assumes "live_sets_ok b" "wrappers_ok b" "bus_listeners e b = ds @ hs" "list_all is_direct ds"
    "publish_serial (bus_invoke (bus_blind act) None p) hs (b, w) = (Inr u, b', w')"
  shows "bus_listeners e b' = ds @ filter is_direct hs \<and> w' = fold (\<lambda>h w. snd (act (handler_fun h) p w)) hs w"
  using assms
proof (induction hs arbitrary: ds b w)
  case (Cons h hs)
  obtain r x where act: "act (handler_fun h) p w = (r, x)" by force
  show ?case
  proof (cases h)
    case (Direct f)
    then have "publish_serial (bus_invoke (bus_blind act) None p) hs (b, x) = (Inr u, b', w')"
      using Cons.prems(5) act by (cases r) (auto simp: bus_invoke_blind)
    then show ?thesis using Cons.IH [of b "ds @ [h]" x] Cons.prems(1-4) Direct act by simp
  next
    case (OnceOf k f)
    let ?b = "Subscription_unsubscribe k b"
    have "publish_serial (bus_invoke (bus_blind act) None p) hs (?b, x) = (Inr u, b', w')"
      using Cons.prems(5) act OnceOf by (cases r) (auto simp: bus_invoke_blind)
    moreover have "bus_listeners e ?b = ds @ hs"
      using unsubscribe_wrapper [OF Cons.prems(1,2)] Cons.prems(3) OnceOf by simp
    ultimately show ?thesis
      using Cons.IH [of ?b ds x] live_sets_unsubscribe [OF Cons.prems(1)] wrappers_unsubscribe [OF Cons.prems(1,2)]
        Cons.prems(4) OnceOf act by simp
  qed
qed simp

text \<open>On a bus reached by any subscriptions, unsubscriptions and clears, a serial publication that
  succeeds runs every handler of the event once and in order, and afterwards exactly the handlers
  that were not registered with \<open>once\<close> are still registered, provided the handlers do not use the
  bus themselves.\<close>
theorem publish_delivers_once:
  assumes "bus_reachable b" "EventBus_publish (bus_blind act) e p False None (b, w) = (Inr u, b', w')"
  shows "w' = fold (\<lambda>h w. snd (act (handler_fun h) p w)) (bus_listeners e b) w \<and>
    bus_listeners e b' = filter is_direct (bus_listeners e b)"
  using publish_serial_delivers [of b e "[]" "bus_listeners e b" act p w u b' w'] bus_reachable_ok [OF assms(1)] assms(2)
  by (simp add: EventBus_publish_def abort_reason_def)

definition sample_bus :: "nat event_bus" where
  "sample_bus = snd (EventBus_subscribe ''tick'' 2 (snd (EventBus_once ''tick'' 1 EventBus_new)))"

definition sample_act :: "nat \<Rightarrow> nat \<Rightarrow> nat list \<Rightarrow> unit result \<times> nat list" where
  "sample_act f p w = (Inr (), w @ [f + p])"

lemma publish_delivers_once_witness:
  "snd (snd (EventBus_publish (bus_blind sample_act) ''tick'' 10 False None (sample_bus, []))) = [11, 12] \<and>
   bus_listeners ''tick'' (fst (snd (EventBus_publish (bus_blind sample_act) ''tick'' 10 False None (sample_bus, [])))) = [Direct 2]"
proof -
  have reach: "bus_reachable sample_bus"
    unfolding sample_bus_def
    by (rule bus_reachable.Step [OF bus_reachable.Step [OF bus_reachable.Init bus_step.Once] bus_step.Subscribe])
  have run: "fst (EventBus_publish (bus_blind sample_act) ''tick'' 10 False None (sample_bus, [])) = Inr ()"
    by code_simp
  have pair: "EventBus_publish (bus_blind sample_act) ''tick'' 10 False None (sample_bus, []) = (Inr (),
      fst (snd (EventBus_publish (bus_blind sample_act) ''tick'' 10 False None (sample_bus, []))),
      snd (snd (EventBus_publish (bus_blind sample_act) ''tick'' 10 False None (sample_bus, []))))"
    using run by (simp add: prod_eq_iff)
  have l: "bus_listeners ''tick'' sample_bus = [OnceOf 0 1, Direct 2]" by code_simp
  show ?thesis using publish_delivers_once [OF reach pair] by (simp add: l sample_act_def)
qed

text \<open>An unsubscription whose handler set was emptied or cleared in the meantime removes the event
  from the map although newer subscriptions are registered there: after subscribing, clearing and
  subscribing again, the first subscription's \<open>unsubscribe\<close> leaves the newer one without delivery.\<close>
theorem stale_unsubscribe_drops_newer:
  "let (old, b1) = EventBus_subscribe ''tick'' (1 :: nat) EventBus_new;
       (new, b2) = EventBus_subscribe ''tick'' 2 (EventBus_clear (Some ''tick'') b1);
       b3 = Subscription_unsubscribe old b2
   in EventBus_listenerCount ''tick'' b2 = 1 \<and> EventBus_listenerCount ''tick'' b3 = 0 \<and>
      su_active (eb_subs b3 ! new)"
  by code_simp

end
