(* ===== verification/Runtime.thy ===== *)
theory Runtime imports EngineRegistry PluginSystem EventBus begin

text \<open>
  \<open>packages/core/src/runtime.ts\<close>.  The plugins' context is the engine registry, whose world holds
  the service container next to whatever else the engines act on; so the runtime state is the
  plugin system, the event bus and the started flag.  The four objects the constructor registers as
  services are parameters, by their key.
\<close>

section \<open>State and operations\<close>

record ('v, 'x, 'h) runtime =
  rt_plugins :: "('v service_container \<times> 'x) engine_registry plugin_system"
  rt_events :: "'h event_bus"
  rt_started :: bool

definition rt_engines :: "('v, 'x, 'h) runtime \<Rightarrow> ('v service_container \<times> 'x) engine_registry" where
  "rt_engines r = ps_context (rt_plugins r)"

definition rt_services :: "('v, 'x, 'h) runtime \<Rightarrow> 'v service_container" where
  "rt_services r = fst (eg_world (rt_engines r))"

definition EngineRegistry_new :: "'w \<Rightarrow> 'w engine_registry" where
  "EngineRegistry_new w = \<lparr>eg_engines = [], eg_states = [], eg_controllers = [], eg_nextController = 0,
     eg_aborted = [], eg_world = w\<rparr>"

definition NusaRuntime_new ::
  "'v service_container option \<Rightarrow> 'h event_bus option \<Rightarrow> (string \<Rightarrow> 'v) \<Rightarrow> 'x \<Rightarrow> ('v, 'x, 'h) runtime result" where
  "NusaRuntime_new services bus obj x =
     bind_r (fold_r (\<lambda>key. ServiceContainer_register key (obj key))
         [''core.runtime'', ''core.events'', ''core.engines'', ''core.plugins'']
         (case services of None \<Rightarrow> [] | Some m \<Rightarrow> m)) (\<lambda>m.
     Inr \<lparr>rt_plugins = PluginSystem_new (EngineRegistry_new (m, x)),
          rt_events = (case bus of None \<Rightarrow> EventBus_new | Some b \<Rightarrow> b), rt_started = False\<rparr>)"

definition NusaRuntime_start :: "('v, 'x, 'h) runtime \<Rightarrow> unit result \<times> ('v, 'x, 'h) runtime" where
  "NusaRuntime_start r =
     (if rt_started r then (Inr (), r)
      else case PluginSystem_loadAll (rt_plugins r) of
        (Inl e, p) \<Rightarrow> (Inl e, r\<lparr>rt_plugins := p\<rparr>)
      | (Inr _, p) \<Rightarrow>
        (case EngineRegistry_startAll (ps_context p) of
           (Inr _, g) \<Rightarrow> (Inr (), r\<lparr>rt_plugins := p\<lparr>ps_context := g\<rparr>, rt_started := True\<rparr>)
         | (Inl e, g) \<Rightarrow> (Inl e, r\<lparr>rt_plugins := snd (PluginSystem_disposeAll (p\<lparr>ps_context := g\<rparr>))\<rparr>)))"

definition NusaRuntime_stop :: "('v, 'x, 'h) runtime \<Rightarrow> unit result \<times> ('v, 'x, 'h) runtime" where
  "NusaRuntime_stop r =
     (if \<not> rt_started r then (Inr (), r)
      else case EngineRegistry_stopAll (rt_engines r) of (x1, g) \<Rightarrow>
        (case PluginSystem_disposeAll ((rt_plugins r)\<lparr>ps_context := g\<rparr>) of (x2, p) \<Rightarrow>
          (case (x1, x2) of (Inr _, Inr _) \<Rightarrow> Inr () | _ \<Rightarrow> throw ''NUSA runtime shutdown failed'',
           r\<lparr>rt_plugins := p, rt_events := EventBus_clear None (rt_events r), rt_started := False\<rparr>)))"

definition NusaRuntime_isStarted :: "('v, 'x, 'h) runtime \<Rightarrow> bool" where
  "NusaRuntime_isStarted r = rt_started r"

section \<open>Start and stop\<close>

lemma plugin_loaded_context [simp]: "plugin_loaded (p\<lparr>ps_context := g\<rparr>) = plugin_loaded p"
  by (simp add: plugin_loaded_def fun_eq_iff)

lemma disposeAll_context_unloads:
  assumes "PluginSystem_resolveOrder s = Inr order" "ps_plugins t = ps_plugins s"
  shows "\<not> plugin_loaded (snd (PluginSystem_disposeAll (t\<lparr>ps_context := g\<rparr>))) i"
  using assms resolveOrder_cong [of "t\<lparr>ps_context := g\<rparr>" s] by (intro disposeAll_unloads [of _ order]) simp

text \<open>C8: Starting a runtime that is not started either succeeds or fails.  When it succeeds, the plugins were loaded one after the
  other in an order in which every plugin comes once and after all its dependencies, every load of that sequence succeeded, the engines
  were started on the registry the last load left, and every registered plugin is loaded and every engine registered by then is running.
  When it fails, the runtime stays not started, and no plugin is loaded that was not loaded before.\<close>
theorem runtime_start_all_or_nothing:
  assumes "NusaRuntime_start r = (x, t)" "\<not> rt_started r"
  shows "case x of
      Inr _ \<Rightarrow> rt_started t \<and> (\<forall>i \<in> fst ` set (ps_plugins (rt_plugins r)). plugin_loaded (rt_plugins t) i) \<and>
        (\<forall>i \<in> fst ` set (eg_engines (rt_engines t)). engine_running (rt_engines t) i) \<and>
        (\<exists>order p g. start_order (plugin_dependencies (rt_plugins r)) order \<and> distinct order \<and>
          set order = fst ` set (ps_plugins (rt_plugins r)) \<and> p = load_each order (rt_plugins r) \<and>
          (\<forall>k < length order. fst (PluginSystem_load (order ! k) (load_each (take k order) (rt_plugins r))) = Inr ()) \<and>
          EngineRegistry_startAll (ps_context p) = (Inr (), g) \<and> rt_plugins t = p\<lparr>ps_context := g\<rparr>)
    | Inl e \<Rightarrow> \<not> rt_started t \<and> (\<forall>i. plugin_loaded (rt_plugins t) i \<longrightarrow> plugin_loaded (rt_plugins r) i)"
proof -
  obtain y p where load: "PluginSystem_loadAll (rt_plugins r) = (y, p)" by force
  note ld = loadAll_loaded [OF load] and pl = loadAll_plugins [OF load]
  show ?thesis
  proof (cases y)
    case (Inl e)
    then show ?thesis using assms load ld by (auto simp: NusaRuntime_start_def)
  next
    case (Inr u)
    then obtain ord where ord: "PluginSystem_resolveOrder (rt_plugins r) = Inr ord"
      "\<forall>i \<in> fst ` set (ps_plugins (rt_plugins r)). plugin_loaded p i" using ld by auto
    obtain order where order: "start_order (plugin_dependencies (rt_plugins r)) order"
      "set order = fst ` set (ps_plugins (rt_plugins r))" "p = load_each order (rt_plugins r)"
      "\<forall>k < length order. fst (PluginSystem_load (order ! k) (load_each (take k order) (rt_plugins r))) = Inr ()"
      by (rule loadAll_in_order [OF load [unfolded Inr]])
    obtain z g where st: "EngineRegistry_startAll (ps_context p) = (z, g)" by force
    show ?thesis
    proof (cases z)
      case (Inl e)
      then have "x = Inl e" "t = r\<lparr>rt_plugins := snd (PluginSystem_disposeAll (p\<lparr>ps_context := g\<rparr>))\<rparr>"
        using assms load st Inr by (simp_all add: NusaRuntime_start_def)
      then show ?thesis using disposeAll_context_unloads [OF ord(1) pl] assms(2) by simp
    next
      case (Inr v)
      then have xt: "x = Inr ()" "t = r\<lparr>rt_plugins := p\<lparr>ps_context := g\<rparr>, rt_started := True\<rparr>"
        using assms load st \<open>y = Inr u\<close> by (simp_all add: NusaRuntime_start_def)
      obtain o' where "EngineRegistry_resolveStartOrder (ps_context p) = Inr o'"
        using startAll_running [OF st] Inr by (cases "EngineRegistry_resolveStartOrder (ps_context p)") auto
      then have "\<forall>i \<in> fst ` set (eg_engines (ps_context p)). engine_running g i"
        using startAll_running [OF st] Inr by simp
      then have run: "\<forall>i \<in> fst ` set (eg_engines (rt_engines t)). engine_running (rt_engines t) i"
        using xt startAll_keeps_engines [of "ps_context p"] st by (simp add: rt_engines_def)
      have "EngineRegistry_startAll (ps_context p) = (Inr (), g)" using st Inr by simp
      then have "\<exists>order p g. start_order (plugin_dependencies (rt_plugins r)) order \<and> distinct order \<and>
          set order = fst ` set (ps_plugins (rt_plugins r)) \<and> p = load_each order (rt_plugins r) \<and>
          (\<forall>k < length order. fst (PluginSystem_load (order ! k) (load_each (take k order) (rt_plugins r))) = Inr ()) \<and>
          EngineRegistry_startAll (ps_context p) = (Inr (), g) \<and> rt_plugins t = p\<lparr>ps_context := g\<rparr>"
        using order start_order_distinct [OF order(1)] xt(2) by (intro exI [of _ order] exI [of _ p] exI [of _ g]) simp
      then show ?thesis using xt ord(2) run by simp
    qed
  qed
qed

definition sample_plugin :: "(nat service_container \<times> nat) engine_registry plugin" where
  "sample_plugin = \<lparr>pg_id = ''p'', pg_version = ''1'', pg_dependencies = None,
     pg_register = (\<lambda>g. case EngineRegistry_register \<lparr>en_id = ''e'', en_dependencies = None,
         en_start = (\<lambda>c w. (Inr (), w)), en_stop = None\<rparr> g of Inl e \<Rightarrow> (Inl e, g) | Inr g' \<Rightarrow> (Inr (), g')),
     pg_dispose = None\<rparr>"

definition sample_runtime :: "(nat, nat, nat) runtime" where
  "sample_runtime = \<lparr>rt_plugins = \<lparr>ps_plugins = [(''p'', sample_plugin)], ps_states = [(''p'', PgRegistered)],
     ps_context = EngineRegistry_new ([], 0)\<rparr>, rt_events = EventBus_new, rt_started = False\<rparr>"

lemma runtime_start_all_or_nothing_witness:
  "rt_started (snd (NusaRuntime_start sample_runtime)) \<and>
   engine_running (rt_engines (snd (NusaRuntime_start sample_runtime))) ''e''"
proof -
  have x: "fst (NusaRuntime_start sample_runtime) = Inr ()" by code_simp
  have e: "map fst (eg_engines (rt_engines (snd (NusaRuntime_start sample_runtime)))) = [''e'']" by code_simp
  have n: "\<not> rt_started sample_runtime" by (simp add: sample_runtime_def)
  have "''e'' \<in> fst ` set (eg_engines (rt_engines (snd (NusaRuntime_start sample_runtime))))"
    using e by (metis list.set_intros(1) list.set_map)
  then show ?thesis
    using runtime_start_all_or_nothing [OF surjective_pairing n] by (simp only: x sum.case)
qed

lemma runtime_stop_clears:
  assumes "NusaRuntime_stop r = (x, t)" "rt_started r" "PluginSystem_resolveOrder (rt_plugins r) = Inr order"
  shows "\<not> rt_started t \<and> EventBus_listenerCount e (rt_events t) = 0 \<and> \<not> plugin_loaded (rt_plugins t) i"
  using assms disposeAll_context_unloads [OF assms(3) refl]
  by (auto simp: NusaRuntime_stop_def EventBus_clear_def EventBus_listenerCount_def bus_listeners_def split: prod.splits)
    (metis snd_conv)

end
