(* ===== verification/ControlPlane.thy ===== *)
theory ControlPlane imports Prelude begin

text \<open>
  \<open>packages/core/src/controlPlane.ts\<close>.  The clock is a parameter of every operation that records an
  event (the milliseconds as they are printed and the ISO time), the text of a number is a
  parameter, and the data of an event has any type.  An operation returns its result and the state,
  so what it changed before a throw stays.
\<close>

section \<open>State\<close>

datatype control_status = CtlStopped | CtlRunning | CtlPaused | CtlFaulted
datatype control_event_type = CeStatus | CeSignal | CeOrder | CeRisk | CeSystem

record 'd control_event =
  ce_id :: string
  ce_type :: control_event_type
  ce_message :: string
  ce_timestamp :: string
  ce_data :: "'d option"

record 'd control_snapshot =
  cs_status :: control_status
  cs_strategyId :: string
  cs_autoTradeEnabled :: bool
  cs_orderQuantity :: jsnum
  cs_events :: "'d control_event list"

record 'd control_plane_state =
  ct_version :: jsnum
  ct_status :: control_status
  ct_strategyId :: string
  ct_orderQuantity :: jsnum
  ct_events :: "'d control_event list"
  ct_processedSignalKeys :: "string list"

record 'd control_runtime_state =
  cr_persisted :: "'d control_plane_state"
  cr_autoTradeEnabled :: bool

record 'd control_plane =
  cp_strategyId :: string
  cp_maxEvents :: jsnum
  cp_status :: control_status
  cp_autoTradeEnabled :: bool
  cp_orderQuantity :: jsnum
  cp_events :: "'d control_event list"
  cp_processedSignalKeys :: "string list"

record clock =
  ck_ms :: string
  ck_iso :: string

section \<open>Operations\<close>

text \<open>\<open>xs.slice(0, n)\<close> and the assignment \<open>xs.length = n\<close> guarded by \<open>xs.length > n\<close>.\<close>

definition slice_to :: "'a list \<Rightarrow> jsnum \<Rightarrow> 'a list" where
  "slice_to xs n =
     (case n of PInf \<Rightarrow> xs | NaN \<Rightarrow> [] | NInf \<Rightarrow> [] | NZero \<Rightarrow> []
      | Fin q \<Rightarrow> if 0 \<le> q then take (nat \<lfloor>q\<rfloor>) xs else take (nat (int (length xs) + \<lceil>q\<rceil>)) xs)"

definition truncate_to :: "jsnum \<Rightarrow> 'a list \<Rightarrow> 'a list result" where
  "truncate_to n xs =
     (if n < Fin (of_nat (length xs))
      then (if is_integer n \<and> Fin 0 \<le> n then Inr (take (nat \<lfloor>jval n\<rfloor>) xs) else Inl (RangeError ''Invalid array length''))
      else Inr xs)"

definition control_record ::
  "clock \<Rightarrow> control_event_type \<Rightarrow> string \<Rightarrow> 'd option \<Rightarrow> 'd control_plane \<Rightarrow> 'd control_event result \<times> 'd control_plane" where
  "control_record c t message data p =
     (let e = \<lparr>ce_id = ck_ms c @ ''-'' @ nat_string (length (cp_events p) + 1), ce_type = t, ce_message = message,
               ce_timestamp = ck_iso c, ce_data = data\<rparr>;
          es = e # cp_events p
      in case truncate_to (cp_maxEvents p) es of
           Inl x \<Rightarrow> (Inl x, p\<lparr>cp_events := es\<rparr>)
         | Inr ys \<Rightarrow> (Inr e, p\<lparr>cp_events := ys\<rparr>))"

definition record_unit ::
  "clock \<Rightarrow> control_event_type \<Rightarrow> string \<Rightarrow> 'd control_plane \<Rightarrow> unit result \<times> 'd control_plane" where
  "record_unit c t message p =
     (case control_record c t message None p of (x, q) \<Rightarrow> (bind_r x (\<lambda>_. Inr ()), q))"

definition ControlPlane_new ::
  "clock \<Rightarrow> string \<Rightarrow> jsnum \<Rightarrow> 'd control_plane_state option \<Rightarrow> 'd control_plane result" where
  "ControlPlane_new c strategyId maxEvents restoredState =
     (let p = \<lparr>cp_strategyId = strategyId, cp_maxEvents = maxEvents, cp_status = CtlStopped, cp_autoTradeEnabled = False,
               cp_orderQuantity = lit (1 / 1000), cp_events = [], cp_processedSignalKeys = []\<rparr>
      in case restoredState of
           None \<Rightarrow> Inr p
         | Some s \<Rightarrow>
           guard_r (\<not> js_eq (ct_version s) (Fin 1) \<or> ct_strategyId s \<noteq> strategyId) (Error ''invalid control plane state'')
           (guard_r (\<not> is_finite (ct_orderQuantity s) \<or> ct_orderQuantity s \<le> Fin 0) (Error ''invalid control order quantity'')
           (case record_unit c CeSystem ''control state restored; paper auto trading remains disabled''
               (p\<lparr>cp_status := ct_status s, cp_orderQuantity := ct_orderQuantity s,
                  cp_events := slice_to (ct_events s) maxEvents,
                  cp_processedSignalKeys := slice_to (ct_processedSignalKeys s) maxEvents\<rparr>) of
              (Inl e, _) \<Rightarrow> Inl e | (Inr _, q) \<Rightarrow> Inr q)))"

definition control_start :: "clock \<Rightarrow> 'd control_plane \<Rightarrow> unit result \<times> 'd control_plane" where
  "control_start c p =
     (if cp_status p = CtlFaulted then (throw ''faulted control plane requires operator repair before restart'', p)
      else record_unit c CeStatus ''strategy started'' (p\<lparr>cp_status := CtlRunning\<rparr>))"

definition control_stop :: "clock \<Rightarrow> 'd control_plane \<Rightarrow> unit result \<times> 'd control_plane" where
  "control_stop c p =
     record_unit c CeStatus ''strategy stopped'' (p\<lparr>cp_status := CtlStopped, cp_autoTradeEnabled := False\<rparr>)"

definition control_pause :: "clock \<Rightarrow> 'd control_plane \<Rightarrow> unit result \<times> 'd control_plane" where
  "control_pause c p = record_unit c CeStatus ''strategy paused'' (p\<lparr>cp_status := CtlPaused\<rparr>)"

definition control_fault :: "clock \<Rightarrow> string \<Rightarrow> 'd control_plane \<Rightarrow> unit result \<times> 'd control_plane" where
  "control_fault c message p =
     record_unit c CeSystem message (p\<lparr>cp_status := CtlFaulted, cp_autoTradeEnabled := False\<rparr>)"

definition setAutoTrade :: "clock \<Rightarrow> bool \<Rightarrow> 'd control_plane \<Rightarrow> unit result \<times> 'd control_plane" where
  "setAutoTrade c enabled p =
     (if enabled \<and> cp_status p \<noteq> CtlRunning then (throw ''strategy must be running before auto trading'', p)
      else record_unit c CeStatus (if enabled then ''paper auto trading enabled'' else ''paper auto trading disabled'')
        (p\<lparr>cp_autoTradeEnabled := enabled\<rparr>))"

definition setOrderQuantity ::
  "(jsnum \<Rightarrow> string) \<Rightarrow> clock \<Rightarrow> jsnum \<Rightarrow> 'd control_plane \<Rightarrow> unit result \<times> 'd control_plane" where
  "setOrderQuantity show_num c quantity p =
     (if \<not> is_finite quantity \<or> quantity \<le> Fin 0 then (throw ''order quantity must be positive'', p)
      else record_unit c CeStatus (''order quantity set to '' @ show_num quantity) (p\<lparr>cp_orderQuantity := quantity\<rparr>))"

definition canAutoTrade :: "'d control_plane \<Rightarrow> bool" where
  "canAutoTrade p \<longleftrightarrow> cp_status p = CtlRunning \<and> cp_autoTradeEnabled p"

definition claimAutomaticSignal :: "string \<Rightarrow> 'd control_plane \<Rightarrow> bool result \<times> 'd control_plane" where
  "claimAutomaticSignal key p =
     (if key = [] then (throw ''automatic signal key is required'', p)
      else if key \<in> set (cp_processedSignalKeys p) then (Inr False, p)
      else (let ks = key # cp_processedSignalKeys p
            in case truncate_to (cp_maxEvents p) ks of
                 Inl x \<Rightarrow> (Inl x, p\<lparr>cp_processedSignalKeys := ks\<rparr>)
               | Inr ys \<Rightarrow> (Inr True, p\<lparr>cp_processedSignalKeys := ys\<rparr>)))"

definition control_snapshot :: "'d control_plane \<Rightarrow> 'd control_snapshot" where
  "control_snapshot p = \<lparr>cs_status = cp_status p, cs_strategyId = cp_strategyId p,
     cs_autoTradeEnabled = cp_autoTradeEnabled p, cs_orderQuantity = cp_orderQuantity p, cs_events = cp_events p\<rparr>"

definition control_exportState :: "'d control_plane \<Rightarrow> 'd control_plane_state" where
  "control_exportState p = \<lparr>ct_version = Fin 1, ct_status = cp_status p, ct_strategyId = cp_strategyId p,
     ct_orderQuantity = cp_orderQuantity p, ct_events = cp_events p, ct_processedSignalKeys = cp_processedSignalKeys p\<rparr>"

definition exportRuntimeState :: "'d control_plane \<Rightarrow> 'd control_runtime_state" where
  "exportRuntimeState p = \<lparr>cr_persisted = control_exportState p, cr_autoTradeEnabled = cp_autoTradeEnabled p\<rparr>"

definition restoreRuntimeState :: "'d control_runtime_state \<Rightarrow> 'd control_plane \<Rightarrow> 'd control_plane result" where
  "restoreRuntimeState s p =
     (let d = cr_persisted s in
      guard_r (\<not> js_eq (ct_version d) (Fin 1) \<or> ct_strategyId d \<noteq> cp_strategyId p) (Error ''invalid control plane state'')
      (guard_r (\<not> is_finite (ct_orderQuantity d) \<or> ct_orderQuantity d \<le> Fin 0) (Error ''invalid control order quantity'')
      (Inr (p\<lparr>cp_status := ct_status d, cp_orderQuantity := ct_orderQuantity d,
              cp_events := slice_to (ct_events d) (cp_maxEvents p),
              cp_processedSignalKeys := slice_to (ct_processedSignalKeys d) (cp_maxEvents p),
              cp_autoTradeEnabled := cr_autoTradeEnabled s\<rparr>))))"

section \<open>Automatic trading\<close>

inductive control_step :: "'d control_plane \<Rightarrow> 'd control_plane \<Rightarrow> bool" where
  Start: "control_step p (snd (control_start c p))"
| Stop: "control_step p (snd (control_stop c p))"
| Pause: "control_step p (snd (control_pause c p))"
| Fault: "control_step p (snd (control_fault c message p))"
| AutoTrade: "control_step p (snd (setAutoTrade c enabled p))"
| Quantity: "control_step p (snd (setOrderQuantity show_num c quantity p))"
| Claim: "control_step p (snd (claimAutomaticSignal key p))"
| Record: "control_step p (snd (control_record c t message data p))"

inductive control_reachable :: "'d control_plane \<Rightarrow> bool" where
  New: "ControlPlane_new c i n s = Inr p \<Longrightarrow> control_reachable p"
| Step: "control_reachable p \<Longrightarrow> control_step p q \<Longrightarrow> control_reachable q"

lemma control_record_simps [simp]:
  "cp_status (snd (control_record c t m d p)) = cp_status p"
  "cp_autoTradeEnabled (snd (control_record c t m d p)) = cp_autoTradeEnabled p"
  "cp_orderQuantity (snd (control_record c t m d p)) = cp_orderQuantity p"
  "cp_processedSignalKeys (snd (control_record c t m d p)) = cp_processedSignalKeys p"
  "cp_maxEvents (snd (control_record c t m d p)) = cp_maxEvents p"
  by (simp_all add: control_record_def Let_def split: sum.split)

lemma record_unit_simps [simp]:
  "cp_status (snd (record_unit c t m p)) = cp_status p"
  "cp_autoTradeEnabled (snd (record_unit c t m p)) = cp_autoTradeEnabled p"
  "cp_orderQuantity (snd (record_unit c t m p)) = cp_orderQuantity p"
  "cp_processedSignalKeys (snd (record_unit c t m p)) = cp_processedSignalKeys p"
  "cp_maxEvents (snd (record_unit c t m p)) = cp_maxEvents p"
  by (simp_all add: record_unit_def split_beta)

definition auto_trade_ok :: "'d control_plane \<Rightarrow> bool" where
  "auto_trade_ok p \<longleftrightarrow> (cp_autoTradeEnabled p \<longrightarrow> cp_status p = CtlRunning \<or> cp_status p = CtlPaused) \<and>
     is_finite (cp_orderQuantity p) \<and> Fin 0 < cp_orderQuantity p"

lemma default_quantity_positive: "is_finite (lit (1 / 1000)) \<and> Fin 0 < lit (1 / 1000)"
proof -
  have "js_of_rat False (1 / 1024) = Fin (1 / 1024)"
    using representable_powi [of "- 10"]
    by (intro js_of_rat_representable) (simp_all add: power_int_minus fp_limit_def)
  then have "Fin (1 / 1024) \<le> lit (1 / 1000)" using js_of_rat_mono [of "1 / 1024" "1 / 1000" False False] by (simp add: lit_def)
  moreover have "lit (1 / 1000) \<le> Fin 1"
    using js_of_rat_mono [of "1 / 1000" 1 False False] js_of_rat_int [of 1] by (simp add: lit_def)
  ultimately show ?thesis by (cases "lit (1 / 1000)") auto
qed

lemma auto_trade_ok_new:
  assumes "ControlPlane_new c i n s = Inr p"
  shows "auto_trade_ok p"
proof (cases s)
  case None
  then show ?thesis using assms default_quantity_positive by (auto simp: ControlPlane_new_def auto_trade_ok_def)
next
  case (Some z)
  let ?p = "\<lparr>cp_strategyId = i, cp_maxEvents = n, cp_status = ct_status z, cp_autoTradeEnabled = False,
      cp_orderQuantity = ct_orderQuantity z, cp_events = slice_to (ct_events z) n,
      cp_processedSignalKeys = slice_to (ct_processedSignalKeys z) n\<rparr>"
  let ?m = "''control state restored; paper auto trading remains disabled''"
  have "is_finite (ct_orderQuantity z)" "\<not> ct_orderQuantity z \<le> Fin 0" "p = snd (record_unit c CeSystem ?m ?p)"
    using assms Some by (auto simp: ControlPlane_new_def result_simps split: prod.splits sum.splits)
  moreover have "is_finite x \<Longrightarrow> \<not> x \<le> Fin 0 \<Longrightarrow> Fin 0 < x" for x by (cases x) auto
  ultimately show ?thesis by (simp add: auto_trade_ok_def)
qed

lemma auto_trade_ok_step: "control_step p q \<Longrightarrow> auto_trade_ok p \<Longrightarrow> auto_trade_ok q"
proof (induction rule: control_step.induct)
  case (Quantity p show_num c quantity)
  have "is_finite x \<Longrightarrow> \<not> x \<le> Fin 0 \<Longrightarrow> Fin 0 < x" for x by (cases x) auto
  then show ?case using Quantity by (auto simp: auto_trade_ok_def setOrderQuantity_def)
qed (auto simp: auto_trade_ok_def control_start_def control_stop_def control_pause_def control_fault_def setAutoTrade_def
    claimAutomaticSignal_def Let_def split: sum.split)

text \<open>Whatever sequence of operations follows the construction, restored or not, automatic trading is
  enabled only while the plane runs or is paused (never when stopped or faulted), and the order
  quantity is a positive finite number.\<close>
theorem auto_trade_never_faulted:
  assumes "control_reachable p"
  shows "(cp_autoTradeEnabled p \<longrightarrow> cp_status p = CtlRunning \<or> cp_status p = CtlPaused) \<and>
    is_finite (cp_orderQuantity p) \<and> Fin 0 < cp_orderQuantity p"
proof -
  have "auto_trade_ok p" using assms
  proof (induction rule: control_reachable.induct)
    case (New c i n s p)
    then show ?case by (rule auto_trade_ok_new)
  next
    case (Step p q)
    then show ?case by (blast intro: auto_trade_ok_step)
  qed
  then show ?thesis by (simp add: auto_trade_ok_def)
qed

definition sample_clock :: clock where
  "sample_clock = \<lparr>ck_ms = ''5'', ck_iso = ''t''\<rparr>"

definition sample_plane :: "unit control_plane" where
  "sample_plane = \<lparr>cp_strategyId = ''s'', cp_maxEvents = Fin 2, cp_status = CtlStopped, cp_autoTradeEnabled = False,
     cp_orderQuantity = lit (1 / 1000), cp_events = [], cp_processedSignalKeys = []\<rparr>"

lemma auto_trade_never_faulted_witness:
  "cp_autoTradeEnabled (snd (setAutoTrade sample_clock True (snd (control_start sample_clock sample_plane)))) \<and>
   is_finite (cp_orderQuantity (snd (setAutoTrade sample_clock True (snd (control_start sample_clock sample_plane)))))"
proof -
  have "control_reachable sample_plane"
    by (rule control_reachable.New [of sample_clock "''s''" "Fin 2" None]) (simp add: ControlPlane_new_def sample_plane_def)
  then have "control_reachable (snd (setAutoTrade sample_clock True (snd (control_start sample_clock sample_plane))))"
    by (blast intro: control_reachable.Step control_step.intros)
  from auto_trade_never_faulted [OF this] show ?thesis
    by (simp add: setAutoTrade_def control_start_def sample_plane_def)
qed

text \<open>A faulted plane refuses to start, but \<open>stop\<close> or \<open>pause\<close> clears the fault without any repair.\<close>

lemma fault_cleared_by_stop:
  "fst (control_start c (snd (control_fault c m p))) = throw ''faulted control plane requires operator repair before restart'' \<and>
   cp_status (snd (control_start c (snd (control_stop c (snd (control_fault c m p)))))) = CtlRunning"
  by (simp add: control_start_def control_stop_def control_fault_def)

section \<open>Automatic signals\<close>

fun claim_all :: "string list \<Rightarrow> 'd control_plane \<Rightarrow> 'd control_plane" where
  "claim_all [] p = p"
| "claim_all (k # ks) p = claim_all ks (snd (claimAutomaticSignal k p))"

lemma claim_take:
  assumes "cp_maxEvents p = Fin (of_nat n)" "k \<in> set (take m (cp_processedSignalKeys p))" "m < n"
  shows "cp_maxEvents (snd (claimAutomaticSignal k' p)) = Fin (of_nat n)"
    "k \<in> set (take (Suc m) (cp_processedSignalKeys (snd (claimAutomaticSignal k' p))))"
proof -
  show "cp_maxEvents (snd (claimAutomaticSignal k' p)) = Fin (of_nat n)"
    using assms(1) by (simp add: claimAutomaticSignal_def Let_def split: sum.split)
  let ?xs = "cp_processedSignalKeys p"
  have k: "k \<in> set ?xs" using assms(2) by (rule in_set_takeD)
  show "k \<in> set (take (Suc m) (cp_processedSignalKeys (snd (claimAutomaticSignal k' p))))"
  proof (cases "k' = [] \<or> k' \<in> set ?xs")
    case True
    then show ?thesis using assms(2) set_take_subset_set_take [of m "Suc m" ?xs] by (auto simp: claimAutomaticSignal_def)
  next
    case False
    have "cp_processedSignalKeys (snd (claimAutomaticSignal k' p)) = take n (k' # ?xs)"
      using False assms(1) by (auto simp: claimAutomaticSignal_def Let_def truncate_to_def is_integer_def)
    then have "take (Suc m) (cp_processedSignalKeys (snd (claimAutomaticSignal k' p))) = k' # take m ?xs"
      using assms(3) by (simp add: min_def)
    then show ?thesis using assms(2) by simp
  qed
qed

lemma claim_all_take:
  assumes "cp_maxEvents p = Fin (of_nat n)" "k \<in> set (take m (cp_processedSignalKeys p))" "m + length ks \<le> n"
  shows "k \<in> set (cp_processedSignalKeys (claim_all ks p))"
  using assms
proof (induction ks arbitrary: p m)
  case Nil
  then show ?case using set_take_subset by fastforce
next
  case (Cons k' ks)
  then have "m < n" by simp
  from claim_take [OF Cons.prems(1,2) this] Cons.IH [of _ "Suc m"] Cons.prems(3) show ?case by simp
qed

text \<open>A signal key that was claimed (or was already known) is refused again as long as fewer than the
  configured number of claims happened in between.\<close>
theorem claimed_signal_refused:
  assumes "cp_maxEvents p = Fin (of_nat n)" "claimAutomaticSignal k p = (Inr b, q)" "length ks < n" "b"
  shows "claimAutomaticSignal k (claim_all ks q) = (Inr False, claim_all ks q)"
proof -
  have k: "k \<noteq> []" "k \<notin> set (cp_processedSignalKeys p)"
    using assms(2,4) by (auto simp: claimAutomaticSignal_def throw_def split: if_splits)
  then have q: "q = snd (claimAutomaticSignal k p)" using assms(2) by simp
  have "cp_maxEvents q = Fin (of_nat n)" "k \<in> set (take 1 (cp_processedSignalKeys q))"
    unfolding q using assms(1,3) k
    by (auto simp: claimAutomaticSignal_def Let_def truncate_to_def is_integer_def take_Cons' split: sum.splits)
  then have "k \<in> set (cp_processedSignalKeys (claim_all ks q))" using assms(3) by (intro claim_all_take) auto
  then show ?thesis using k by (simp add: claimAutomaticSignal_def)
qed

definition sample_signals :: "unit control_plane" where
  "sample_signals = \<lparr>cp_strategyId = ''s'', cp_maxEvents = Fin 2, cp_status = CtlStopped, cp_autoTradeEnabled = False,
     cp_orderQuantity = Fin 1, cp_events = [], cp_processedSignalKeys = []\<rparr>"

lemma claimed_signal_refused_witness:
  "fst (claimAutomaticSignal ''a'' (claim_all [''b''] (snd (claimAutomaticSignal ''a'' sample_signals)))) = Inr False \<and>
   fst (claimAutomaticSignal ''a'' (claim_all [''b'', ''c''] (snd (claimAutomaticSignal ''a'' sample_signals)))) = Inr True"
proof -
  have "claimAutomaticSignal ''a'' sample_signals = (Inr True, snd (claimAutomaticSignal ''a'' sample_signals))"
    by (simp add: claimAutomaticSignal_def sample_signals_def truncate_to_def)
  then have "fst (claimAutomaticSignal ''a'' (claim_all [''b''] (snd (claimAutomaticSignal ''a'' sample_signals)))) = Inr False"
    using claimed_signal_refused [of sample_signals 2 "''a''" True _ "[''b'']"] by (simp add: sample_signals_def)
  moreover have "fst (claimAutomaticSignal ''a'' (claim_all [''b'', ''c''] (snd (claimAutomaticSignal ''a'' sample_signals)))) = Inr True"
    by code_simp
  ultimately show ?thesis by simp
qed

end
