(* ===== verification/MarketSupervisor.thy ===== *)
theory MarketSupervisor imports Prelude begin

text \<open>
  \<open>packages/core/src/marketConnectionSupervisor.ts\<close>: the reconnect policy, the freshness verdict and
  the connection supervisor.  A reading of the clock is an argument of each operation, the
  exponentiation of the back-off is a parameter, and the listener counts are what \<open>diagnostics\<close> is
  given.  Attempt and episode counters are natural numbers; they are compared and reported as numbers.
\<close>

section \<open>Policy and freshness\<close>

datatype market_state = McConnected | McStale | McDisconnected | McReconnecting | McRecovered | McFailed
datatype market_freshness = MfFresh | MfStale | MfUnknown
datatype reconnect_failure = MaxAttemptsExceeded | MaxReconnectTimeExceeded
datatype reconnect_outcome = RoRecovered | RoFailed | RoAbandoned | RoInProgress

record reconnect_policy =
  mp_initialDelayMs :: jsnum
  mp_maxDelayMs :: jsnum
  mp_backoffFactor :: jsnum
  mp_maxAttempts :: jsnum
  mp_maxTotalReconnectMs :: jsnum
  mp_staleAfterMs :: jsnum

definition DEFAULT_MARKET_RECONNECT_POLICY :: reconnect_policy where
  "DEFAULT_MARKET_RECONNECT_POLICY = \<lparr>mp_initialDelayMs = Fin 1000, mp_maxDelayMs = Fin 30000,
     mp_backoffFactor = Fin 2, mp_maxAttempts = Fin 10, mp_maxTotalReconnectMs = Fin 600000, mp_staleAfterMs = Fin 30000\<rparr>"

definition validateMarketReconnectPolicy :: "reconnect_policy \<Rightarrow> string list" where
  "validateMarketReconnectPolicy p =
     (if \<not> is_safe_integer (mp_initialDelayMs p) \<or> mp_initialDelayMs p < Fin 100 then [''INITIAL_DELAY_TOO_SMALL''] else []) @
     (if \<not> is_safe_integer (mp_maxDelayMs p) \<or> mp_maxDelayMs p < mp_initialDelayMs p then [''MAX_DELAY_BELOW_INITIAL''] else []) @
     (if \<not> is_finite (mp_backoffFactor p) \<or> mp_backoffFactor p < Fin 1 then [''BACKOFF_FACTOR_NOT_INCREASING''] else []) @
     (if \<not> is_safe_integer (mp_maxAttempts p) \<or> mp_maxAttempts p < Fin 1 then [''MAX_ATTEMPTS_UNBOUNDED''] else []) @
     (if \<not> is_safe_integer (mp_maxTotalReconnectMs p) \<or> mp_maxTotalReconnectMs p < mp_initialDelayMs p
      then [''MAX_RECONNECT_TIME_UNBOUNDED''] else []) @
     (if \<not> is_safe_integer (mp_staleAfterMs p) \<or> mp_staleAfterMs p < Fin 1000 then [''STALE_THRESHOLD_TOO_SMALL''] else [])"

definition marketReconnectDelay :: "(jsnum \<Rightarrow> jsnum \<Rightarrow> jsnum) \<Rightarrow> jsnum \<Rightarrow> reconnect_policy \<Rightarrow> jsnum result" where
  "marketReconnectDelay pow attempt p =
     guard_r (\<not> is_safe_integer attempt \<or> attempt < Fin 1) (Error ''attempt must be a positive safe integer'')
     (let raw = mp_initialDelayMs p * pow (mp_backoffFactor p) (attempt - Fin 1)
      in Inr (js_min (mp_maxDelayMs p) (js_round (if is_finite raw then raw else mp_maxDelayMs p))))"

record freshness_input =
  fi_now :: jsnum
  fi_lastMessageAt :: "jsnum option"
  fi_latestCandleCloseTime :: "jsnum option"
  fi_toleranceMs :: jsnum

definition evaluateMarketFreshness :: "freshness_input \<Rightarrow> market_freshness" where
  "evaluateMarketFreshness i =
     (if \<not> is_finite (fi_now i) \<or> \<not> is_finite (fi_toleranceMs i) \<or> fi_toleranceMs i < Fin 0 then MfUnknown
      else case filter is_finite (List.map_filter id [fi_lastMessageAt i, fi_latestCandleCloseTime i]) of
        [] \<Rightarrow> MfUnknown
      | c # cs \<Rightarrow>
        (let newest = fold (\<lambda>x m. js_max m x) cs c
         in if fi_toleranceMs i < newest - fi_now i then MfUnknown
            else if fi_toleranceMs i < fi_now i - newest then MfStale else MfFresh))"

section \<open>The supervisor\<close>

record market_episode =
  me_episodeId :: nat
  me_disconnectedAt :: jsnum
  me_reconnectAttemptCount :: nat
  me_recoveredAt :: "jsnum option"
  me_totalDowntime :: jsnum
  me_finalReconnectState :: reconnect_outcome
  me_failureReason :: "reconnect_failure option"

record open_episode =
  oe_episodeId :: nat
  oe_disconnectedAt :: jsnum
  oe_attempts :: nat

datatype reconnect_decision = Retry nat jsnum | GiveUp nat reconnect_failure

record supervisor =
  sv_policy :: reconnect_policy
  sv_maxEpisodes :: jsnum
  sv_state :: market_state
  sv_attempt :: nat
  sv_lastMessageAt :: "jsnum option"
  sv_lastSuccessfulReconnectAt :: "jsnum option"
  sv_failureReason :: "reconnect_failure option"
  sv_timerArmed :: bool
  sv_episodeSequence :: nat
  sv_openEpisode :: "open_episode option"
  sv_unresolvedSince :: "jsnum option"
  sv_downtimeAccountedUpTo :: jsnum
  sv_episodeLog :: "market_episode list"
  sv_closedDowntimeMs :: jsnum

record market_diagnostics =
  md_marketConnectionState :: market_state
  md_reconnectAttempt :: nat
  md_reconnectAttemptLimit :: jsnum
  md_reconnectStartedAt :: "jsnum option"
  md_lastMarketMessageAt :: "jsnum option"
  md_lastSuccessfulReconnectAt :: "jsnum option"
  md_activeMarketListenerCount :: jsnum
  md_activeMarketSubscriptionCount :: jsnum
  md_reconnectTimerCount :: nat
  md_reconnectFailureReason :: "reconnect_failure option"
  md_currentDowntimeMs :: jsnum
  md_totalDowntimeMs :: jsnum
  md_episodes :: "market_episode list"

fun join_commas :: "string list \<Rightarrow> string" where
  "join_commas [] = []"
| "join_commas [x] = x"
| "join_commas (x # xs) = x @ '','' @ join_commas xs"

definition safeCount :: "jsnum \<Rightarrow> jsnum" where
  "safeCount v = (if is_safe_integer v \<and> Fin 0 \<le> v then v else Fin 0)"

definition Supervisor_new :: "reconnect_policy option \<Rightarrow> jsnum option \<Rightarrow> supervisor result" where
  "Supervisor_new policy maxEpisodes =
     (let p = (case policy of None \<Rightarrow> DEFAULT_MARKET_RECONNECT_POLICY | Some p \<Rightarrow> p);
          m = (case maxEpisodes of None \<Rightarrow> Fin 200 | Some m \<Rightarrow> m);
          violations = validateMarketReconnectPolicy p
      in guard_r (violations \<noteq> []) (Error (''invalid market reconnect policy: '' @ join_commas violations))
         (guard_r (\<not> is_safe_integer m \<or> m < Fin 1) (Error ''maxEpisodes must be a positive safe integer'')
         (Inr \<lparr>sv_policy = p, sv_maxEpisodes = m, sv_state = McDisconnected, sv_attempt = 0, sv_lastMessageAt = None,
               sv_lastSuccessfulReconnectAt = None, sv_failureReason = None, sv_timerArmed = False,
               sv_episodeSequence = 0, sv_openEpisode = None, sv_unresolvedSince = None,
               sv_downtimeAccountedUpTo = Fin 0, sv_episodeLog = [], sv_closedDowntimeMs = Fin 0\<rparr>)))"

text \<open>The loop that drops the oldest episodes while there are more than the bound.\<close>

fun shift_while :: "jsnum \<Rightarrow> 'a list \<Rightarrow> 'a list" where
  "shift_while n [] = []"
| "shift_while n (x # xs) = (if n < Fin (of_nat (length (x # xs))) then shift_while n xs else x # xs)"

definition closeEpisode ::
  "reconnect_outcome \<Rightarrow> jsnum \<Rightarrow> reconnect_failure option \<Rightarrow> supervisor \<Rightarrow> supervisor" where
  "closeEpisode outcome now failureReason s =
     (case sv_openEpisode s of
        None \<Rightarrow> s
      | Some opn \<Rightarrow>
        s\<lparr>sv_closedDowntimeMs := sv_closedDowntimeMs s + js_max (Fin 0) (now - sv_downtimeAccountedUpTo s),
          sv_downtimeAccountedUpTo := now,
          sv_episodeLog := shift_while (sv_maxEpisodes s) (sv_episodeLog s @
            [\<lparr>me_episodeId = oe_episodeId opn, me_disconnectedAt = oe_disconnectedAt opn,
              me_reconnectAttemptCount = oe_attempts opn,
              me_recoveredAt = (if outcome = RoRecovered then Some now else None),
              me_totalDowntime = js_max (Fin 0) (now - oe_disconnectedAt opn),
              me_finalReconnectState = outcome, me_failureReason = failureReason\<rparr>]),
          sv_openEpisode := None\<rparr>)"

definition sv_giveUp :: "nat \<Rightarrow> reconnect_failure \<Rightarrow> jsnum \<Rightarrow> supervisor \<Rightarrow> reconnect_decision \<times> supervisor" where
  "sv_giveUp attempt reason now s =
     (GiveUp attempt reason,
      closeEpisode RoFailed now (Some reason)
        (s\<lparr>sv_attempt := attempt - 1, sv_failureReason := Some reason, sv_state := McFailed\<rparr>))"

definition noteOpened :: "jsnum \<Rightarrow> supervisor \<Rightarrow> supervisor" where
  "noteOpened now s =
     (let s1 =
        (if sv_openEpisode s \<noteq> None
         then (closeEpisode RoRecovered now None s)\<lparr>sv_lastSuccessfulReconnectAt := Some now, sv_state := McRecovered\<rparr>
         else if sv_unresolvedSince s \<noteq> None
         then s\<lparr>sv_closedDowntimeMs := sv_closedDowntimeMs s + js_max (Fin 0) (now - sv_downtimeAccountedUpTo s),
                sv_lastSuccessfulReconnectAt := Some now, sv_state := McRecovered\<rparr>
         else s\<lparr>sv_state := McConnected\<rparr>)
      in s1\<lparr>sv_unresolvedSince := None, sv_attempt := 0, sv_failureReason := None\<rparr>)"

definition noteMessage :: "jsnum \<Rightarrow> supervisor \<Rightarrow> supervisor" where
  "noteMessage now s =
     s\<lparr>sv_lastMessageAt := Some now,
       sv_state := (if sv_state s = McRecovered \<or> sv_state s = McStale then McConnected else sv_state s)\<rparr>"

definition noteStale :: "supervisor \<Rightarrow> supervisor" where
  "noteStale s =
     s\<lparr>sv_state := (if sv_state s = McConnected \<or> sv_state s = McRecovered then McStale else sv_state s)\<rparr>"

definition open_if_needed :: "jsnum \<Rightarrow> supervisor \<Rightarrow> open_episode \<times> supervisor" where
  "open_if_needed now s =
     (case sv_openEpisode s of
        Some opn \<Rightarrow> (opn, s)
      | None \<Rightarrow>
        (let opn = \<lparr>oe_episodeId = sv_episodeSequence s + 1, oe_disconnectedAt = now, oe_attempts = 0\<rparr>;
             s1 = s\<lparr>sv_episodeSequence := sv_episodeSequence s + 1, sv_openEpisode := Some opn, sv_attempt := 0,
                    sv_failureReason := None\<rparr>
         in (opn, if sv_unresolvedSince s = None
                then s1\<lparr>sv_unresolvedSince := Some now, sv_downtimeAccountedUpTo := now\<rparr> else s1)))"

definition noteDisconnected ::
  "(jsnum \<Rightarrow> jsnum \<Rightarrow> jsnum) \<Rightarrow> jsnum \<Rightarrow> supervisor \<Rightarrow> reconnect_decision result \<times> supervisor" where
  "noteDisconnected pow now s =
     (let (opn, s1) = open_if_needed now s;
          s2 = s1\<lparr>sv_state := McDisconnected\<rparr>;
          attempt = sv_attempt s2 + 1;
          p = sv_policy s
      in if mp_maxAttempts p < Fin (of_nat attempt)
         then (case sv_giveUp attempt MaxAttemptsExceeded now s2 of (d, t) \<Rightarrow> (Inr d, t))
         else case marketReconnectDelay pow (Fin (of_nat attempt)) p of
           Inl e \<Rightarrow> (Inl e, s2)
         | Inr delayMs \<Rightarrow>
           if mp_maxTotalReconnectMs p < now - oe_disconnectedAt opn + delayMs
           then (case sv_giveUp attempt MaxReconnectTimeExceeded now s2 of (d, t) \<Rightarrow> (Inr d, t))
           else (Inr (Retry attempt delayMs),
                 s2\<lparr>sv_attempt := attempt, sv_openEpisode := Some (opn\<lparr>oe_attempts := attempt\<rparr>), sv_state := McReconnecting\<rparr>))"

definition armReconnectTimer :: "supervisor \<Rightarrow> supervisor result" where
  "armReconnectTimer s =
     guard_r (sv_timerArmed s) (Error ''a reconnect timer is already armed'') (Inr (s\<lparr>sv_timerArmed := True\<rparr>))"

definition disarmReconnectTimer :: "supervisor \<Rightarrow> supervisor" where
  "disarmReconnectTimer s = s\<lparr>sv_timerArmed := False\<rparr>"

definition noteStopped :: "jsnum \<Rightarrow> jsnum \<Rightarrow> supervisor \<Rightarrow> supervisor" where
  "noteStopped now1 now2 s =
     (let s1 = s\<lparr>sv_timerArmed := False\<rparr>;
          s2 = (if sv_openEpisode s1 \<noteq> None then closeEpisode RoAbandoned now1 None s1 else s1);
          s3 = (if sv_unresolvedSince s2 \<noteq> None
                then s2\<lparr>sv_closedDowntimeMs := sv_closedDowntimeMs s2 + js_max (Fin 0) (now2 - sv_downtimeAccountedUpTo s2)\<rparr>
                else s2)
      in s3\<lparr>sv_unresolvedSince := None, sv_state := McDisconnected, sv_attempt := 0\<rparr>)"

definition sv_diagnostics :: "jsnum \<Rightarrow> jsnum \<Rightarrow> jsnum \<Rightarrow> supervisor \<Rightarrow> market_diagnostics" where
  "sv_diagnostics now listeners subscriptions s =
     (let started = (case sv_openEpisode s of Some opn \<Rightarrow> Some (oe_disconnectedAt opn) | None \<Rightarrow> sv_unresolvedSince s);
          unrecorded = (if sv_unresolvedSince s = None then Fin 0 else js_max (Fin 0) (now - sv_downtimeAccountedUpTo s))
      in \<lparr>md_marketConnectionState = sv_state s, md_reconnectAttempt = sv_attempt s,
          md_reconnectAttemptLimit = mp_maxAttempts (sv_policy s), md_reconnectStartedAt = started,
          md_lastMarketMessageAt = sv_lastMessageAt s, md_lastSuccessfulReconnectAt = sv_lastSuccessfulReconnectAt s,
          md_activeMarketListenerCount = safeCount listeners, md_activeMarketSubscriptionCount = safeCount subscriptions,
          md_reconnectTimerCount = (if sv_timerArmed s then 1 else 0), md_reconnectFailureReason = sv_failureReason s,
          md_currentDowntimeMs = (case started of None \<Rightarrow> Fin 0 | Some t \<Rightarrow> js_max (Fin 0) (now - t)),
          md_totalDowntimeMs = sv_closedDowntimeMs s + unrecorded, md_episodes = sv_episodeLog s\<rparr>)"

section \<open>Runs\<close>

datatype 't sv_op = Opened 't | Message 't | Stale | Disconnected 't | Arm | Disarm | Stopped 't 't

fun sv_apply :: "(jsnum \<Rightarrow> jsnum \<Rightarrow> jsnum) \<Rightarrow> jsnum sv_op \<Rightarrow> supervisor \<Rightarrow> supervisor" where
  "sv_apply pow (Opened t) s = noteOpened t s"
| "sv_apply pow (Message t) s = noteMessage t s"
| "sv_apply pow Stale s = noteStale s"
| "sv_apply pow (Disconnected t) s = snd (noteDisconnected pow t s)"
| "sv_apply pow Arm s = (case armReconnectTimer s of Inl e \<Rightarrow> s | Inr t \<Rightarrow> t)"
| "sv_apply pow Disarm s = disarmReconnectTimer s"
| "sv_apply pow (Stopped t u) s = noteStopped t u s"

definition sv_run :: "(jsnum \<Rightarrow> jsnum \<Rightarrow> jsnum) \<Rightarrow> jsnum sv_op list \<Rightarrow> supervisor \<Rightarrow> supervisor" where
  "sv_run pow = fold (sv_apply pow)"

lemma shift_while_length:
  "is_safe_integer n \<Longrightarrow> Fin 1 \<le> n \<Longrightarrow> Fin (of_nat (length (shift_while n xs))) \<le> n"
proof (induction n xs rule: shift_while.induct)
  case (1 n)
  then show ?case by (auto intro: jle_trans [of _ "Fin 1"])
next
  case (2 n x xs)
  have "n \<noteq> NaN" using "2.prems" by auto
  then show ?case using 2 by (auto simp: not_jless_iff)
qed

lemma validate_ok:
  assumes "validateMarketReconnectPolicy p = []"
  obtains n where "mp_maxAttempts p = Fin (of_nat n)" "0 < n" "int n < 2 ^ 53"
    "is_safe_integer (mp_maxDelayMs p)" "is_safe_integer (mp_maxTotalReconnectMs p)"
proof -
  have v: "is_safe_integer (mp_maxAttempts p)" "\<not> mp_maxAttempts p < Fin 1"
    "is_safe_integer (mp_maxDelayMs p)" "is_safe_integer (mp_maxTotalReconnectMs p)"
    using assms by (auto simp: validateMarketReconnectPolicy_def split: if_splits)
  then have "\<not> mp_maxAttempts p \<le> Fin 0" by (cases "mp_maxAttempts p") auto
  with v(1) obtain m where m: "mp_maxAttempts p = Fin (of_int m)" "0 < m" "m < 2 ^ 53"
    by (rule is_safe_integer_pos_cases)
  have "mp_maxAttempts p = Fin (of_nat (nat m))" using m by simp
  then show thesis using m v by (intro that [of "nat m"]) auto
qed

definition sv_ok :: "supervisor \<Rightarrow> bool" where
  "sv_ok s \<longleftrightarrow>
     validateMarketReconnectPolicy (sv_policy s) = [] \<and> is_safe_integer (sv_maxEpisodes s) \<and> Fin 1 \<le> sv_maxEpisodes s \<and>
     Fin (of_nat (sv_attempt s)) \<le> mp_maxAttempts (sv_policy s) \<and>
     Fin (of_nat (length (sv_episodeLog s))) \<le> sv_maxEpisodes s \<and>
     (sv_openEpisode s \<noteq> None \<longleftrightarrow> sv_state s = McReconnecting) \<and>
     (\<forall>opn. sv_openEpisode s = Some opn \<longrightarrow> oe_attempts opn = sv_attempt s \<and> sv_unresolvedSince s \<noteq> None) \<and>
     (sv_state s = McFailed \<longrightarrow> sv_failureReason s \<noteq> None \<and> sv_unresolvedSince s \<noteq> None) \<and>
     (sv_state s \<in> {McConnected, McStale, McRecovered} \<longrightarrow> sv_unresolvedSince s = None)"

lemma closeEpisode_simps [simp]:
  "sv_policy (closeEpisode oc now r s) = sv_policy s" "sv_maxEpisodes (closeEpisode oc now r s) = sv_maxEpisodes s"
  "sv_state (closeEpisode oc now r s) = sv_state s" "sv_attempt (closeEpisode oc now r s) = sv_attempt s"
  "sv_failureReason (closeEpisode oc now r s) = sv_failureReason s" "sv_openEpisode (closeEpisode oc now r s) = None"
  "sv_unresolvedSince (closeEpisode oc now r s) = sv_unresolvedSince s"
  by (auto simp: closeEpisode_def split: option.split)

lemma closeEpisode_log:
  "is_safe_integer (sv_maxEpisodes s) \<Longrightarrow> Fin 1 \<le> sv_maxEpisodes s \<Longrightarrow>
   Fin (of_nat (length (sv_episodeLog s))) \<le> sv_maxEpisodes s \<Longrightarrow>
   Fin (of_nat (length (sv_episodeLog (closeEpisode oc now r s)))) \<le> sv_maxEpisodes s"
  by (auto simp: closeEpisode_def shift_while_length split: option.split)

lemma sv_ok_new: "Supervisor_new policy m = Inr s \<Longrightarrow> sv_ok s"
proof -
  assume "Supervisor_new policy m = Inr s"
  then obtain k p where k: "is_safe_integer k" "\<not> k < Fin 1" "validateMarketReconnectPolicy p = []"
    and s: "s = \<lparr>sv_policy = p, sv_maxEpisodes = k, sv_state = McDisconnected, sv_attempt = 0, sv_lastMessageAt = None,
               sv_lastSuccessfulReconnectAt = None, sv_failureReason = None, sv_timerArmed = False,
               sv_episodeSequence = 0, sv_openEpisode = None, sv_unresolvedSince = None,
               sv_downtimeAccountedUpTo = Fin 0, sv_episodeLog = [], sv_closedDowntimeMs = Fin 0\<rparr>"
    by (auto simp: Supervisor_new_def Let_def result_simps)
  obtain n where "mp_maxAttempts p = Fin (of_nat n)" using k(3) by (rule validate_ok)
  moreover have "Fin 1 \<le> k" using k(1,2) by (cases k) (auto simp: is_safe_integer_def is_integer_def)
  moreover have "Fin 0 \<le> k" using \<open>Fin 1 \<le> k\<close> by (auto intro: jle_trans [of _ "Fin 1"])
  ultimately show ?thesis using k by (simp add: sv_ok_def s)
qed

lemma open_if_needed_simps:
  assumes "open_if_needed now s = (opn, s1)"
  shows "sv_policy s1 = sv_policy s" "sv_maxEpisodes s1 = sv_maxEpisodes s" "sv_episodeLog s1 = sv_episodeLog s"
    "sv_openEpisode s1 = Some opn" "sv_closedDowntimeMs s1 = sv_closedDowntimeMs s"
    "sv_ok s \<Longrightarrow> sv_unresolvedSince s1 \<noteq> None \<and> oe_attempts opn = sv_attempt s1 \<and>
       sv_attempt s1 = (if sv_openEpisode s = None then 0 else sv_attempt s)"
  using assms by (auto simp: open_if_needed_def Let_def sv_ok_def split: option.splits if_splits)

lemma noteDisconnected_cases:
  assumes "sv_ok s"
  obtains (retry) opn s1 d where "open_if_needed now s = (opn, s1)"
      "Fin (of_nat (sv_attempt s1 + 1)) \<le> mp_maxAttempts (sv_policy s)"
      "marketReconnectDelay pow (Fin (of_nat (sv_attempt s1 + 1))) (sv_policy s) = Inr d"
      "\<not> mp_maxTotalReconnectMs (sv_policy s) < now - oe_disconnectedAt opn + d"
      "noteDisconnected pow now s = (Inr (Retry (sv_attempt s1 + 1) d),
         s1\<lparr>sv_attempt := sv_attempt s1 + 1, sv_openEpisode := Some (opn\<lparr>oe_attempts := sv_attempt s1 + 1\<rparr>),
            sv_state := McReconnecting\<rparr>)"
  | (give_up) opn s1 r where "open_if_needed now s = (opn, s1)"
      "noteDisconnected pow now s = (Inr (GiveUp (sv_attempt s1 + 1) r),
         closeEpisode RoFailed now (Some r)
           (s1\<lparr>sv_attempt := sv_attempt s1, sv_failureReason := Some r, sv_state := McFailed\<rparr>))"
proof -
  obtain opn s1 where oo: "open_if_needed now s = (opn, s1)" by force
  note sp = open_if_needed_simps [OF oo]
  let ?k = "Fin (of_nat (sv_attempt s1 + 1))" and ?p = "sv_policy s"
  have v: "validateMarketReconnectPolicy ?p = []" using assms by (simp add: sv_ok_def)
  obtain n where n: "mp_maxAttempts ?p = Fin (of_nat n)" "0 < n" "int n < 2 ^ 53"
    "is_safe_integer (mp_maxDelayMs ?p)" "is_safe_integer (mp_maxTotalReconnectMs ?p)"
    using v by (rule validate_ok)
  show thesis
  proof (cases "mp_maxAttempts ?p < ?k")
    case True
    then show thesis using oo sp by (intro give_up) (auto simp: noteDisconnected_def sv_giveUp_def)
  next
    case False
    then have le: "?k \<le> mp_maxAttempts ?p" by (simp add: n(1))
    then have "sv_attempt s1 + 1 \<le> n" unfolding n(1) by (simp only: jle_simps of_nat_le_iff)
    then have "is_safe_integer (Fin (of_int (int (sv_attempt s1 + 1))))"
      using n(3) unfolding is_safe_integer_of_int by simp
    then have "is_safe_integer ?k" by simp
    then obtain d where d: "marketReconnectDelay pow ?k ?p = Inr d"
      by (auto simp: marketReconnectDelay_def Let_def)
    show thesis
    proof (cases "mp_maxTotalReconnectMs ?p < now - oe_disconnectedAt opn + d")
      case True
      then show thesis using oo sp False d by (intro give_up) (auto simp: noteDisconnected_def sv_giveUp_def)
    next
      case nt: False
      then show thesis using oo sp False d le by (intro retry) (auto simp: noteDisconnected_def)
    qed
  qed
qed

lemma sv_ok_disconnected:
  assumes "sv_ok s"
  shows "sv_ok (snd (noteDisconnected pow now s))"
  using assms
proof (cases rule: noteDisconnected_cases [of s now pow])
  case (retry opn s1 d)
  then show ?thesis using assms open_if_needed_simps [OF retry(1)] by (auto simp: sv_ok_def)
next
  case (give_up opn s1 r)
  note sp = open_if_needed_simps [OF give_up(1)]
  have "Fin (of_nat (sv_attempt s1)) \<le> mp_maxAttempts (sv_policy s)"
    using assms sp by (auto simp: sv_ok_def intro: jle_trans [of "Fin 0" "Fin (of_nat (sv_attempt s))"])
  then show ?thesis using assms sp give_up closeEpisode_log [of "s1\<lparr>sv_attempt := sv_attempt s1,
      sv_failureReason := Some r, sv_state := McFailed\<rparr>" RoFailed now "Some r"]
    by (auto simp: sv_ok_def)
qed

lemma sv_ok_apply [step_invs]:
  assumes "sv_ok s"
  shows "sv_ok (sv_apply pow op s)"
proof -
  have z: "Fin 0 \<le> mp_maxAttempts (sv_policy s)"
    using assms by (auto simp: sv_ok_def intro: jle_trans [of _ "Fin (of_nat (sv_attempt s))"])
  show ?thesis
  proof (cases op)
    case (Disconnected t)
    then show ?thesis using sv_ok_disconnected [OF assms] by simp
  next
    case (Opened t)
    then show ?thesis using assms z closeEpisode_log [of s]
      by (auto simp: noteOpened_def sv_ok_def)
  next
    case (Stopped t u)
    then show ?thesis using assms z closeEpisode_log [of "s\<lparr>sv_timerArmed := False\<rparr>"]
      by (auto simp: noteStopped_def sv_ok_def Let_def)
  qed (use assms in \<open>auto simp: sv_ok_def noteMessage_def noteStale_def disarmReconnectTimer_def armReconnectTimer_def
      guard_r_def\<close>)
qed

lemma sv_ok_run: "sv_ok s \<Longrightarrow> sv_ok (sv_run pow ops s)"
  unfolding sv_run_def by (induction ops arbitrary: s) (auto intro: step_invs)

section \<open>Bounded reconnection\<close>

text \<open>Whatever happened before, a retry that a disconnection orders is within the attempt ceiling, waits at
  most the maximal delay, and would fire within the time ceiling counted from the start of its open
  episode; the episode log never exceeds its bound.\<close>
theorem retry_within_ceilings:
  assumes "Supervisor_new policy m = Inr s0" "s = sv_run pow ops s0"
    "noteDisconnected pow now s = (Inr (Retry k d), t)"
  shows "Fin (of_nat k) \<le> mp_maxAttempts (sv_policy s) \<and> d \<le> mp_maxDelayMs (sv_policy s) \<and>
    Fin (of_nat (length (sv_episodeLog t))) \<le> sv_maxEpisodes t \<and> sv_state t = McReconnecting \<and>
    (\<exists>opn. sv_openEpisode t = Some opn \<and> oe_attempts opn = k \<and>
       \<not> mp_maxTotalReconnectMs (sv_policy s) < now - oe_disconnectedAt opn + d)"
proof -
  have ok: "sv_ok s" using assms(1,2) sv_ok_new sv_ok_run by blast
  have log: "Fin (of_nat (length (sv_episodeLog t))) \<le> sv_maxEpisodes t"
    using sv_ok_disconnected [OF ok, of pow now] assms(3) by (simp add: sv_ok_def)
  from ok show ?thesis
  proof (cases rule: noteDisconnected_cases [of s now pow])
    case (retry opn s1 e)
    have "validateMarketReconnectPolicy (sv_policy s) = []" using ok by (simp add: sv_ok_def)
    then have "is_safe_integer (mp_maxDelayMs (sv_policy s))" by (rule validate_ok)
    then have fin: "is_finite (mp_maxDelayMs (sv_policy s))" by (simp add: is_safe_integer_def is_integer_def)
    have "js_min c (js_round x) \<le> c" if "is_finite c" "is_finite x" for c x
    proof -
      have "c \<noteq> NaN" "js_round x \<noteq> NaN" using that by (cases c; cases x; auto simp: js_round_def Let_def)+
      then show ?thesis using js_min_le by blast
    qed
    then have "e \<le> mp_maxDelayMs (sv_policy s)"
      using retry(3) fin by (auto simp: marketReconnectDelay_def Let_def result_simps split: if_splits)
    then show ?thesis using retry assms(3) log by auto
  next
    case (give_up opn s1 r)
    then show ?thesis using assms(3) by simp
  qed
qed

definition sample_supervisor :: supervisor where
  "sample_supervisor = \<lparr>sv_policy = DEFAULT_MARKET_RECONNECT_POLICY, sv_maxEpisodes = Fin 200, sv_state = McDisconnected,
     sv_attempt = 0, sv_lastMessageAt = None, sv_lastSuccessfulReconnectAt = None, sv_failureReason = None,
     sv_timerArmed = False, sv_episodeSequence = 0, sv_openEpisode = None, sv_unresolvedSince = None,
     sv_downtimeAccountedUpTo = Fin 0, sv_episodeLog = [], sv_closedDowntimeMs = Fin 0\<rparr>"

definition one_pow :: "jsnum \<Rightarrow> jsnum \<Rightarrow> jsnum" where
  "one_pow a b = Fin 1"

lemma sample_supervisor_new: "Supervisor_new None None = Inr sample_supervisor"
  by code_simp

lemma retry_within_ceilings_witness:
  "sv_state (snd (noteDisconnected one_pow (Fin 60) (sv_run one_pow [Opened (Fin 50)] sample_supervisor))) = McReconnecting \<and>
   Fin 1000 \<le> mp_maxDelayMs DEFAULT_MARKET_RECONNECT_POLICY"
proof -
  have d: "fst (noteDisconnected one_pow (Fin 60) (sv_run one_pow [Opened (Fin 50)] sample_supervisor)) = Inr (Retry 1 (Fin 1000))"
    by code_simp
  have p: "sv_policy (sv_run one_pow [Opened (Fin 50)] sample_supervisor) = DEFAULT_MARKET_RECONNECT_POLICY" by code_simp
  have "noteDisconnected one_pow (Fin 60) (sv_run one_pow [Opened (Fin 50)] sample_supervisor) = (Inr (Retry 1 (Fin 1000)),
      snd (noteDisconnected one_pow (Fin 60) (sv_run one_pow [Opened (Fin 50)] sample_supervisor)))"
    using d by (simp add: prod_eq_iff)
  from retry_within_ceilings [OF sample_supervisor_new refl this] show ?thesis by (simp add: p)
qed

fun gives_up :: "(jsnum \<Rightarrow> jsnum \<Rightarrow> jsnum) \<Rightarrow> jsnum sv_op list \<Rightarrow> supervisor \<Rightarrow> bool" where
  "gives_up pow [] s = False"
| "gives_up pow (op # ops) s =
     ((case op of Disconnected t \<Rightarrow> (case fst (noteDisconnected pow t s) of Inr (GiveUp k r) \<Rightarrow> True | _ \<Rightarrow> False) | _ \<Rightarrow> False)
      \<or> gives_up pow ops (sv_apply pow op s))"

fun disconnects :: "jsnum sv_op list \<Rightarrow> nat" where
  "disconnects [] = 0"
| "disconnects (Disconnected t # ops) = Suc (disconnects ops)"
| "disconnects (op # ops) = disconnects ops"

fun keeps_outage :: "'t sv_op \<Rightarrow> bool" where
  "keeps_outage (Opened t) = False" | "keeps_outage (Stopped t u) = False" | "keeps_outage op = True"

lemma keeps_outage_attempt:
  assumes "sv_ok s" "keeps_outage op" "\<not> gives_up pow [op] s"
  shows "sv_policy (sv_apply pow op s) = sv_policy s"
    "(if sv_openEpisode s = None then 0 else sv_attempt s) + disconnects [op] \<le>
     (if sv_openEpisode (sv_apply pow op s) = None then 0 else sv_attempt (sv_apply pow op s))"
proof -
  have "sv_policy (sv_apply pow op s) = sv_policy s \<and>
    (if sv_openEpisode s = None then 0 else sv_attempt s) + disconnects [op] \<le>
     (if sv_openEpisode (sv_apply pow op s) = None then 0 else sv_attempt (sv_apply pow op s))"
  proof (cases op)
    case (Disconnected t)
    from assms(1) show ?thesis
    proof (cases rule: noteDisconnected_cases [of s t pow])
      case (retry opn s1 d)
      then show ?thesis using open_if_needed_simps [OF retry(1)] Disconnected assms(1) by simp
    next
      case (give_up opn s1 r)
      then show ?thesis using assms(3) Disconnected by simp
    qed
  qed (use assms in \<open>auto simp: noteMessage_def noteStale_def disarmReconnectTimer_def armReconnectTimer_def guard_r_def\<close>)
  then show "sv_policy (sv_apply pow op s) = sv_policy s"
    "(if sv_openEpisode s = None then 0 else sv_attempt s) + disconnects [op] \<le>
     (if sv_openEpisode (sv_apply pow op s) = None then 0 else sv_attempt (sv_apply pow op s))" by blast+
qed

lemma disconnects_bounded:
  assumes "sv_ok s" "list_all keeps_outage ops" "\<not> gives_up pow ops s"
  shows "Fin (of_nat ((if sv_openEpisode s = None then 0 else sv_attempt s) + disconnects ops)) \<le> mp_maxAttempts (sv_policy s)"
  using assms
proof (induction ops arbitrary: s)
  case Nil
  have "Fin 0 \<le> Fin (of_nat (sv_attempt s))" by simp
  then have "Fin 0 \<le> mp_maxAttempts (sv_policy s)" using Nil.prems(1) unfolding sv_ok_def by (blast intro: jle_trans)
  then show ?case using Nil.prems(1) by (auto simp: sv_ok_def)
next
  case (Cons op ops)
  let ?a = "\<lambda>s. if sv_openEpisode s = None then 0 else sv_attempt s"
  have op: "keeps_outage op" "\<not> gives_up pow [op] s" "\<not> gives_up pow ops (sv_apply pow op s)"
    using Cons.prems(2,3) by auto
  note step = keeps_outage_attempt [OF Cons.prems(1) op(1,2)]
  have "Fin (of_nat (?a (sv_apply pow op s) + disconnects ops)) \<le> mp_maxAttempts (sv_policy s)"
    using Cons.IH [OF sv_ok_apply [OF Cons.prems(1)] _ op(3)] Cons.prems(2) by (simp only: step(1)) simp
  moreover have "disconnects (op # ops) = disconnects [op] + disconnects ops" by (cases op) auto
  then have "of_nat (?a s + disconnects (op # ops)) \<le> (of_nat (?a (sv_apply pow op s) + disconnects ops) :: rat)"
    using step(2) by (simp only: of_nat_le_iff)
  then have "Fin (of_nat (?a s + disconnects (op # ops))) \<le> Fin (of_nat (?a (sv_apply pow op s) + disconnects ops))"
    by (simp only: jle_simps)
  ultimately show ?case by (rule jle_trans [rotated])
qed

text \<open>Reconnection does not go on forever: after any history, a sequence of events in which the socket is
  neither opened nor the client stopped, and that contains more disconnections than the attempt
  ceiling, contains one that gives up.\<close>
theorem reconnection_gives_up:
  assumes "Supervisor_new policy m = Inr s0" "s = sv_run pow ops0 s0" "list_all keeps_outage ops"
    "mp_maxAttempts (sv_policy s) < Fin (of_nat (disconnects ops))"
  shows "gives_up pow ops s"
proof (rule ccontr)
  assume "\<not> gives_up pow ops s"
  moreover have "sv_ok s" using assms(1,2) sv_ok_new sv_ok_run by blast
  ultimately have le: "Fin (of_nat ((if sv_openEpisode s = None then 0 else sv_attempt s) + disconnects ops)) \<le>
      mp_maxAttempts (sv_policy s)" using assms(3) by (intro disconnects_bounded)
  have "(of_nat (disconnects ops) :: rat) \<le> of_nat ((if sv_openEpisode s = None then 0 else sv_attempt s) + disconnects ops)"
    by (simp only: of_nat_le_iff le_add2)
  then have "Fin (of_nat (disconnects ops)) \<le> mp_maxAttempts (sv_policy s)" using le by (metis jle_simps(5) jle_trans)
  then show False using assms(4) by (metis less_jsnum_def)
qed

lemma reconnection_gives_up_witness:
  "gives_up one_pow (replicate 11 (Disconnected (Fin 60))) (sv_run one_pow [Opened (Fin 50)] sample_supervisor)"
proof (rule reconnection_gives_up [OF sample_supervisor_new refl])
  show "mp_maxAttempts (sv_policy (sv_run one_pow [Opened (Fin 50)] sample_supervisor)) <
    Fin (of_nat (disconnects (replicate 11 (Disconnected (Fin 60)))))" by code_simp
qed code_simp

section \<open>Downtime\<close>

text \<open>The specification: since when the feed is down, and the length of the outages that ended.\<close>

fun outage_step :: "int sv_op \<Rightarrow> int option \<times> int \<Rightarrow> int option \<times> int" where
  "outage_step (Opened t) (since, tot) = (None, tot + (case since of None \<Rightarrow> 0 | Some u \<Rightarrow> t - u))"
| "outage_step (Stopped t t') (since, tot) = (None, tot + (case since of None \<Rightarrow> 0 | Some u \<Rightarrow> t' - u))"
| "outage_step (Disconnected t) (since, tot) = (case since of None \<Rightarrow> Some t | Some u \<Rightarrow> Some u, tot)"
| "outage_step op a = a"

fun op_times :: "'t sv_op \<Rightarrow> 't list" where
  "op_times (Opened t) = [t]" | "op_times (Message t) = [t]" | "op_times (Disconnected t) = [t]"
| "op_times (Stopped t u) = [t, u]" | "op_times op = []"

fun clocked :: "int \<Rightarrow> int sv_op list \<Rightarrow> bool" where
  "clocked n [] = (n < 2 ^ 53)"
| "clocked n (op # ops) = (sorted (n # op_times op) \<and> clocked (last (n # op_times op)) ops)"

definition num_op :: "int sv_op \<Rightarrow> jsnum sv_op" where
  "num_op = map_sv_op (\<lambda>t. Fin (of_int t))"

definition outage_rel :: "supervisor \<Rightarrow> int option \<times> int \<Rightarrow> int \<Rightarrow> bool" where
  "outage_rel s a now \<longleftrightarrow> sv_ok s \<and>
     sv_unresolvedSince s = map_option (\<lambda>u. Fin (of_int u)) (fst a) \<and> 0 \<le> snd a \<and>
     (case fst a of
        None \<Rightarrow> jis (sv_closedDowntimeMs s) (snd a) \<and> snd a \<le> now
      | Some u \<Rightarrow> \<exists>c. jis (sv_downtimeAccountedUpTo s) c \<and> u \<le> c \<and> c \<le> now \<and> snd a \<le> u \<and>
          jis (sv_closedDowntimeMs s) (snd a + (c - u))) \<and>
     (\<forall>opn. sv_openEpisode s = Some opn \<longrightarrow>
        (\<exists>d u. jis (oe_disconnectedAt opn) d \<and> fst a = Some u \<and> u \<le> d \<and> d \<le> now))"

text \<open>What is added when downtime up to \<open>now\<close> is accounted.\<close>

lemma account:
  assumes "jis cl (tot + (c - u))" "jis acc c" "0 \<le> tot" "tot \<le> u" "u \<le> c" "c \<le> now" "now < 2 ^ 53"
  shows "jis (cl + js_max (Fin 0) (Fin (of_int now) - acc)) (tot + (now - u))"
proof -
  have "jis (Fin (of_int now) - acc) (now - c)" using assms by (intro jis_sub jis_Fin) auto
  then have "jis (js_max (Fin 0) (Fin (of_int now) - acc)) (max 0 (now - c))" by (intro jis_max) simp_all
  then have "jis (cl + js_max (Fin 0) (Fin (of_int now) - acc)) ((tot + (c - u)) + max 0 (now - c))"
    using assms by (intro jis_add) auto
  then show ?thesis using assms(6) by (simp add: max_def split: if_splits)
qed

lemma closeEpisode_closed [simp]:
  "sv_openEpisode s \<noteq> None \<Longrightarrow> sv_closedDowntimeMs (closeEpisode oc now r s) =
     sv_closedDowntimeMs s + js_max (Fin 0) (now - sv_downtimeAccountedUpTo s)"
  "sv_openEpisode s \<noteq> None \<Longrightarrow> sv_downtimeAccountedUpTo (closeEpisode oc now r s) = now"
  by (auto simp: closeEpisode_def)

lemma outage_Disconnected:
  assumes "outage_rel s a now" "now \<le> t" "t < 2 ^ 53"
  shows "outage_rel (sv_apply pow (num_op (Disconnected t)) s) (outage_step (Disconnected t) a) t"
proof -
  obtain since tot where a: "a = (since, tot)" by force
  have ok: "sv_ok s" and un: "sv_unresolvedSince s = map_option (\<lambda>u. Fin (of_int u)) since" and t0: "0 \<le> tot"
    using assms(1) by (simp_all add: outage_rel_def a)
  define u where "u = (case since of None \<Rightarrow> t | Some u \<Rightarrow> u)"
  have step: "outage_step (Disconnected t) a = (Some u, tot)" by (simp add: a u_def split: option.split)
  obtain opn s1 where oo: "open_if_needed (Fin (of_int t)) s = (opn, s1)" by force
  note sp = open_if_needed_simps [OF oo]
  have un1: "sv_unresolvedSince s1 = Some (Fin (of_int u))"
    using oo un ok by (auto simp: open_if_needed_def Let_def u_def sv_ok_def split: option.splits if_splits)
  obtain c where c: "jis (sv_downtimeAccountedUpTo s1) c" "u \<le> c" "c \<le> t" "tot \<le> u" "jis (sv_closedDowntimeMs s1) (tot + (c - u))"
  proof (cases since)
    case None
    then have "sv_openEpisode s = None" using ok un by (auto simp: sv_ok_def)
    then have "sv_downtimeAccountedUpTo s1 = Fin (of_int t)" using oo un None by (auto simp: open_if_needed_def Let_def)
    then show thesis using assms None sp(5) by (intro that [of t]) (auto simp: u_def outage_rel_def a)
  next
    case (Some v)
    then have "sv_downtimeAccountedUpTo s1 = sv_downtimeAccountedUpTo s"
      using oo un by (auto simp: open_if_needed_def Let_def split: option.splits)
    then show thesis using assms Some sp(5) that by (auto simp: u_def outage_rel_def a)
  qed
  have d: "\<exists>d. jis (oe_disconnectedAt opn) d \<and> u \<le> d \<and> d \<le> t"
  proof (cases "sv_openEpisode s")
    case None
    then have "oe_disconnectedAt opn = Fin (of_int t)" using oo by (auto simp: open_if_needed_def Let_def)
    then show ?thesis using c by (intro exI [of _ t]) auto
  next
    case (Some x)
    then have "opn = x" using oo by (simp add: open_if_needed_def)
    then show ?thesis using assms(1,2) Some by (fastforce simp: outage_rel_def a u_def)
  qed
  have ok': "sv_ok (snd (noteDisconnected pow (Fin (of_int t)) s))" by (rule sv_ok_disconnected [OF ok])
  from ok show ?thesis
  proof (cases rule: noteDisconnected_cases [of s "Fin (of_int t)" pow])
    case (retry opn' s1' e)
    then have "opn' = opn" "s1' = s1" using oo by auto
    then show ?thesis using retry ok' un1 c d t0 unfolding step
      by (auto simp: outage_rel_def num_op_def)
  next
    case (give_up opn' s1' r)
    then have s1: "opn' = opn" "s1' = s1" using oo by auto
    have "jis (sv_closedDowntimeMs s1 + js_max (Fin 0) (Fin (of_int t) - sv_downtimeAccountedUpTo s1)) (tot + (t - u))"
      using c t0 assms(3) by (intro account [of _ _ c]) auto
    then show ?thesis using give_up s1 ok' un1 c t0 sp(4) unfolding step
      by (auto simp: outage_rel_def num_op_def intro: exI [of _ t])
  qed
qed

lemma outage_closing:
  assumes "outage_rel s (since, tot) now" "now \<le> t" "t < 2 ^ 53" "sv_openEpisode s \<noteq> None \<or> since \<noteq> None"
  shows "\<exists>u. since = Some u \<and> jis (sv_closedDowntimeMs s + js_max (Fin 0) (Fin (of_int t) - sv_downtimeAccountedUpTo s)) (tot + (t - u))"
proof -
  obtain u where u: "since = Some u" using assms(1,4) by (auto simp: outage_rel_def)
  then obtain c where "jis (sv_downtimeAccountedUpTo s) c" "u \<le> c" "c \<le> now" "tot \<le> u" "0 \<le> tot"
      "jis (sv_closedDowntimeMs s) (tot + (c - u))"
    using assms(1) by (auto simp: outage_rel_def)
  then have "jis (sv_closedDowntimeMs s + js_max (Fin 0) (Fin (of_int t) - sv_downtimeAccountedUpTo s)) (tot + (t - u))"
    using assms(2,3) by (intro account [of _ _ c]) auto
  then show ?thesis using u by blast
qed

lemma outage_Opened:
  assumes "outage_rel s a now" "now \<le> t" "t < 2 ^ 53"
  shows "outage_rel (sv_apply pow (num_op (Opened t)) s) (outage_step (Opened t) a) t"
proof -
  obtain since tot where a: "a = (since, tot)" by force
  have ok: "sv_ok s" "sv_ok (noteOpened (Fin (of_int t)) s)"
    using assms(1) sv_ok_apply [of s pow "Opened (Fin (of_int t))"] by (auto simp: outage_rel_def)
  show ?thesis
  proof (cases "sv_openEpisode s = None \<and> since = None")
    case True
    then show ?thesis using assms ok unfolding a by (auto simp: outage_rel_def num_op_def noteOpened_def)
  next
    case False
    then obtain u where u: "since = Some u"
      "jis (sv_closedDowntimeMs s + js_max (Fin 0) (Fin (of_int t) - sv_downtimeAccountedUpTo s)) (tot + (t - u))"
      using outage_closing [OF assms(1) [unfolded a] assms(2,3)] by auto
    have "tot \<le> u" "0 \<le> tot" "u \<le> now" "sv_unresolvedSince s \<noteq> None" using assms(1) u(1) by (auto simp: outage_rel_def a)
    then show ?thesis using assms(2) u ok unfolding a
      by (cases "sv_openEpisode s = None") (auto simp: outage_rel_def num_op_def noteOpened_def)
  qed
qed

lemma jis_add_zero: "jis x n \<Longrightarrow> \<bar>n\<bar> < 2 ^ 53 \<Longrightarrow> jis (x + js_max (Fin 0) (Fin 0)) n"
  using jis_add [of x n "js_max (Fin 0) (Fin 0)" 0] jis_max [of "Fin 0" 0 "Fin 0" 0] by simp

lemma outage_Stopped:
  assumes "outage_rel s a now" "now \<le> t" "t \<le> t'" "t' < 2 ^ 53"
  shows "outage_rel (sv_apply pow (num_op (Stopped t t')) s) (outage_step (Stopped t t') a) t'"
proof -
  obtain since tot where a: "a = (since, tot)" by force
  have ok: "sv_ok s" "sv_ok (noteStopped (Fin (of_int t)) (Fin (of_int t')) s)"
    using assms(1) sv_ok_apply [of s pow "Stopped (Fin (of_int t)) (Fin (of_int t'))"] by (auto simp: outage_rel_def)
  show ?thesis
  proof (cases since)
    case None
    then have "sv_openEpisode s = None" using assms(1) by (auto simp: outage_rel_def a)
    then show ?thesis using None assms ok unfolding a by (auto simp: outage_rel_def num_op_def noteStopped_def Let_def)
  next
    case (Some u)
    have b: "tot \<le> u" "0 \<le> tot" "u \<le> now" "sv_unresolvedSince s \<noteq> None" using assms(1) Some by (auto simp: outage_rel_def a)
    show ?thesis
    proof (cases "sv_openEpisode s = None")
      case True
      obtain v where "since = Some v"
        "jis (sv_closedDowntimeMs s + js_max (Fin 0) (Fin (of_int t') - sv_downtimeAccountedUpTo s)) (tot + (t' - v))"
        using outage_closing [OF assms(1) [unfolded a], of t'] assms Some by auto
      then show ?thesis using True b assms ok Some unfolding a
        by (auto simp: outage_rel_def num_op_def noteStopped_def Let_def)
    next
      case False
      have cl: "jis (sv_closedDowntimeMs s + js_max (Fin 0) (Fin (of_int t) - sv_downtimeAccountedUpTo s)) (tot + (t - u))"
        using outage_closing [OF assms(1) [unfolded a] assms(2)] assms Some by auto
      have "jis (sv_closedDowntimeMs s + js_max (Fin 0) (Fin (of_int t) - sv_downtimeAccountedUpTo s) +
          js_max (Fin 0) (Fin (of_int t') - Fin (of_int t))) (tot + (t' - u))"
        by (rule account [OF cl jis_Fin]) (use assms b in auto)
      then show ?thesis using False b assms ok Some unfolding a
        by (auto simp: outage_rel_def num_op_def noteStopped_def Let_def)
    qed
  qed
qed

lemma outage_rel_later: "outage_rel s a n \<Longrightarrow> n \<le> m \<Longrightarrow> outage_rel s a m"
  by (cases "fst a") (fastforce simp: outage_rel_def)+

lemma outage_apply:
  assumes "outage_rel s a now" "sorted (now # op_times op)" "last (now # op_times op) < 2 ^ 53"
  shows "outage_rel (sv_apply pow (num_op op) s) (outage_step op a) (last (now # op_times op))"
proof (cases op)
  case (Message t)
  have "sv_ok (sv_apply pow (num_op op) s)" using assms(1) sv_ok_apply by (auto simp: outage_rel_def)
  then show ?thesis using assms outage_rel_later [OF assms(1), of t] Message
    by (cases a) (auto simp: outage_rel_def num_op_def noteMessage_def split: option.splits)
next
  case Stale
  have "sv_ok (sv_apply pow (num_op op) s)" using assms(1) sv_ok_apply by (auto simp: outage_rel_def)
  then show ?thesis using assms Stale
    by (cases a) (auto simp: outage_rel_def num_op_def noteStale_def split: option.splits)
next
  case Arm
  have "sv_ok (sv_apply pow (num_op op) s)" using assms(1) sv_ok_apply by (auto simp: outage_rel_def)
  then show ?thesis using assms Arm
    by (cases a) (auto simp: outage_rel_def num_op_def armReconnectTimer_def guard_r_def split: option.splits)
next
  case Disarm
  have "sv_ok (sv_apply pow (num_op op) s)" using assms(1) sv_ok_apply by (auto simp: outage_rel_def)
  then show ?thesis using assms Disarm
    by (cases a) (auto simp: outage_rel_def num_op_def disarmReconnectTimer_def split: option.splits)
qed (use assms outage_Opened outage_Disconnected outage_Stopped in auto)

lemma outage_run:
  "outage_rel s a now \<Longrightarrow> clocked now ops \<Longrightarrow>
   \<exists>n. n < 2 ^ 53 \<and> now \<le> n \<and> n = last (now # concat (map op_times ops)) \<and>
     outage_rel (sv_run pow (map num_op ops) s) (fold outage_step ops a) n"
proof (induction ops arbitrary: s a now)
  case (Cons op ops)
  let ?m = "last (now # op_times op)"
  have c: "sorted (now # op_times op)" "clocked ?m ops" using Cons.prems(2) by auto
  have bound: "clocked k xs \<Longrightarrow> k < 2 ^ 53" for k xs
  proof (induction xs arbitrary: k)
    case (Cons x xs)
    then have "last (k # op_times x) < 2 ^ 53" "sorted (k # op_times x)" by auto
    moreover have "k \<le> last (k # op_times x)" using calculation(2) by (cases x) auto
    ultimately show ?case by simp
  qed simp
  have "outage_rel (sv_apply pow (num_op op) s) (outage_step op a) ?m"
    using Cons.prems(1) c(1) bound [OF c(2)] by (rule outage_apply)
  from Cons.IH [OF this c(2)] obtain n where n: "n < 2 ^ 53" "?m \<le> n" "n = last (?m # concat (map op_times ops))"
    "outage_rel (sv_run pow (map num_op ops) (sv_apply pow (num_op op) s)) (fold outage_step ops (outage_step op a)) n" by blast
  have "now \<le> ?m" using c(1) by (cases op) auto
  moreover have "last (now # concat (map op_times (op # ops))) = n" using n(3) by (cases op) auto
  ultimately show ?case using n by (intro exI [of _ n]) (simp add: sv_run_def)
qed (auto simp: sv_run_def)

text \<open>C9: On a clock that gives integers below \<open>2^53\<close> and does not run backwards, the total downtime that
  the diagnostics report is exactly the length of all outages that ended plus the time since the
  current one began, across give-ups, restarts and stops, and the reported current downtime never
  exceeds it.\<close>
theorem downtime_is_outage_time:
  assumes "Supervisor_new policy m = Inr s0" "clocked 0 (ops @ [Message t])"
    "fold outage_step ops (None, 0) = (since, tot)"
    "d = sv_diagnostics (Fin (of_int t)) l k (sv_run pow (map num_op ops) s0)"
  shows "jis (md_totalDowntimeMs d) (tot + (case since of None \<Rightarrow> 0 | Some u \<Rightarrow> t - u)) \<and>
    md_currentDowntimeMs d \<le> md_totalDowntimeMs d"
proof -
  have "outage_rel s0 (None, 0) 0"
    using sv_ok_new [OF assms(1)] assms(1) by (auto simp: outage_rel_def Supervisor_new_def Let_def result_simps)
  moreover have split: "clocked n (xs @ [Message t]) \<Longrightarrow> clocked n xs \<and> last (n # concat (map op_times xs)) \<le> t \<and> t < 2 ^ 53" for n xs
  proof (induction xs arbitrary: n)
    case (Cons x xs)
    then have "clocked (last (n # op_times x)) (xs @ [Message t])" "sorted (n # op_times x)" by auto
    with Cons.IH show ?case by (cases x) (auto split: if_splits)
  qed simp
  ultimately obtain n where n: "n \<le> t" "t < 2 ^ 53" "outage_rel (sv_run pow (map num_op ops) s0) (since, tot) n"
    using outage_run [of s0 "(None, 0)" 0 ops pow] assms(2,3) by fastforce
  let ?s = "sv_run pow (map num_op ops) s0"
  show ?thesis
  proof (cases since)
    case None
    then have "sv_openEpisode ?s = None" "sv_unresolvedSince ?s = None" "jis (sv_closedDowntimeMs ?s) tot" "0 \<le> tot" "tot \<le> n"
      using n(3) by (auto simp: outage_rel_def)
    moreover from this have "jis (sv_closedDowntimeMs ?s + Fin 0) (tot + 0)"
      using n(1,2) by (intro jis_add) auto
    ultimately show ?thesis using None jis_le [of "Fin 0" 0 "sv_closedDowntimeMs ?s + Fin 0" tot]
      by (simp add: assms(4) sv_diagnostics_def)
  next
    case (Some u)
    have un: "sv_unresolvedSince ?s = Some (Fin (of_int u))" "0 \<le> tot" "tot \<le> u" "u \<le> n"
      using n(3) Some by (auto simp: outage_rel_def)
    have total: "jis (sv_closedDowntimeMs ?s + js_max (Fin 0) (Fin (of_int t) - sv_downtimeAccountedUpTo ?s)) (tot + (t - u))"
      using outage_closing [OF n(3) n(1,2)] Some by auto
    obtain b where b: "jis (case sv_openEpisode ?s of Some opn \<Rightarrow> oe_disconnectedAt opn | None \<Rightarrow> Fin (of_int u)) b" "u \<le> b" "b \<le> n"
    proof (cases "sv_openEpisode ?s")
      case None
      show thesis by (rule that [of u]) (use None un in auto)
    next
      case (Some x)
      then show thesis using n(3) \<open>since = Some u\<close> that by (auto simp: outage_rel_def)
    qed
    have "jis (js_max (Fin 0) (Fin (of_int t) - (case sv_openEpisode ?s of Some opn \<Rightarrow> oe_disconnectedAt opn | None \<Rightarrow> Fin (of_int u))))
        (max 0 (t - b))"
      using b n un by (intro jis_max jis_sub jis_Fin) auto
    moreover have "max 0 (t - b) \<le> tot + (t - u)" using b un n by simp
    ultimately have "js_max (Fin 0) (Fin (of_int t) - (case sv_openEpisode ?s of Some opn \<Rightarrow> oe_disconnectedAt opn | None \<Rightarrow> Fin (of_int u)))
        \<le> sv_closedDowntimeMs ?s + js_max (Fin 0) (Fin (of_int t) - sv_downtimeAccountedUpTo ?s)"
      using total by (simp add: jis_le)
    then show ?thesis using total un Some
      by (cases "sv_openEpisode ?s") (simp_all add: assms(4) sv_diagnostics_def)
  qed
qed

lemma downtime_is_outage_time_witness:
  "jis (md_totalDowntimeMs (sv_diagnostics (Fin (of_int 300)) (Fin 0) (Fin 0)
     (sv_run one_pow (map num_op [Opened 5, Disconnected 10, Opened 40, Disconnected 100]) sample_supervisor))) 230"
proof -
  have "clocked 0 ([Opened 5, Disconnected 10, Opened 40, Disconnected 100] @ [Message 300])" by simp
  from downtime_is_outage_time [OF sample_supervisor_new this _ refl, of "Some 100" 30] show ?thesis by simp
qed

end
