(* ===== verification/NumberText.thy ===== *)
theory NumberText imports Prelude begin

text \<open>
  The parts of the language's number formatting that the paper broker computes with:
  \<open>toFixed\<close> (nearest multiple of a power of ten, the larger one on a tie), the shortest digits that
  read back as the same number, from which \<open>toString\<close> is made, and \<open>BigInt\<close> division.
\<close>

section \<open>toFixed\<close>

text \<open>\<open>fixed_units f q\<close> is the integer whose digits \<open>toFixed(f)\<close> prints for \<open>q \<ge> 0\<close>.\<close>

definition fixed_units :: "nat \<Rightarrow> rat \<Rightarrow> int" where
  "fixed_units f q = \<lfloor>q * 10 ^ f + 1 / 2\<rfloor>"

text \<open>\<open>Number(x.toFixed(f))\<close>; from \<open>10^21\<close> on \<open>toFixed\<close> prints \<open>x\<close> as it is.\<close>

definition fixed_number :: "nat \<Rightarrow> jsnum \<Rightarrow> jsnum" where
  "fixed_number f x =
     (if \<not> is_finite x \<or> 10 ^ 21 \<le> \<bar>jval x\<bar> then x
      else (let q = of_int (fixed_units f \<bar>jval x\<bar>) / 10 ^ f
            in js_of_rat (jval x < 0) (if jval x < 0 then - q else q)))"

lemma fixed_units_nonneg: "0 \<le> q \<Longrightarrow> 0 \<le> fixed_units f q"
  by (simp add: fixed_units_def)

lemma fixed_number_nonneg: "Fin 0 \<le> x \<Longrightarrow> Fin 0 \<le> fixed_number f x"
proof -
  assume x: "Fin 0 \<le> x"
  show ?thesis
  proof (cases "\<not> is_finite x \<or> 10 ^ 21 \<le> \<bar>jval x\<bar>")
    case True
    then show ?thesis using x by (simp add: fixed_number_def)
  next
    case False
    then have "\<not> jval x < 0" using x by (simp add: jle_finite)
    then show ?thesis using False fixed_units_nonneg [of "\<bar>jval x\<bar>" f]
      by (simp add: fixed_number_def Let_def js_of_rat_nonneg)
  qed
qed

section \<open>Shortest digits\<close>

text \<open>\<open>decade q = n\<close> when \<open>10^(n-1) \<le> q < 10^n\<close>, for the positive values of the format.\<close>

definition decade :: "rat \<Rightarrow> int" where
  "decade q =
     (if 1 \<le> q then int (length (takeWhile (\<lambda>i. 10 ^ i \<le> q) [0..<310]))
      else - int (length (takeWhile (\<lambda>i. q * 10 ^ (i + 1) < 1) [0..<330])))"

definition scaled_digits :: "rat \<Rightarrow> int \<Rightarrow> nat \<Rightarrow> int" where
  "scaled_digits q n k = \<lfloor>q * 10 powi (int k - n) + 1 / 2\<rfloor>"

text \<open>Number of significant digits and position of the decimal point of the shortest representation.\<close>

definition shortest_digits :: "rat \<Rightarrow> nat \<times> int" where
  "shortest_digits q =
     (let n = decade q;
          k = (case List.find (\<lambda>k. js_of_rat False (of_int (scaled_digits q n k) * 10 powi (n - int k)) = Fin q) [1..<17] of
                 Some k \<Rightarrow> k | None \<Rightarrow> 17)
      in if scaled_digits q n k = 10 ^ k then (1, n + 1) else (k, n))"

section \<open>BigInt division\<close>

definition big_div :: "int \<Rightarrow> int \<Rightarrow> int" where
  "big_div a b = sgn a * sgn b * (\<bar>a\<bar> div \<bar>b\<bar>)"

end
