(* ===== verification/PaperBroker.thy ===== *)
theory PaperBroker imports NumberText begin

text \<open>
  \<open>packages/core/src/paperBroker.ts\<close>: the paper account with its exact ledger replay.  A date is the
  integer of its milliseconds or invalid (\<open>None\<close>), its ISO text a parameter.  \<open>BigInt\<close> values are
  integers.  \<open>execute\<close> returns its result and the broker, because a ledger amount out of range
  throws after the order was recorded.  The sides are a datatype, so the check for another side has
  no counterpart.
\<close>

section \<open>Types\<close>

datatype paper_side = Buy | Sell

record paper_order =
  po_id :: string
  po_strategyId :: "string option"
  po_market :: string
  po_side :: paper_side
  po_quantity :: jsnum
  po_price :: jsnum
  po_fee :: jsnum
  po_filledAt :: string
  po_requestedQuantity :: jsnum
  po_quotedPrice :: jsnum
  po_spreadCost :: jsnum
  po_slippageCost :: jsnum
  po_marketImpactCost :: jsnum

record paper_entry =
  pe_sequence :: nat
  pe_orderId :: string
  pe_fillId :: string
  pe_market :: string
  pe_side :: paper_side
  pe_quantity :: jsnum
  pe_price :: jsnum
  pe_fee :: jsnum
  pe_cashBefore :: jsnum
  pe_cashAfter :: jsnum
  pe_positionQuantityBefore :: jsnum
  pe_positionQuantityAfter :: jsnum
  pe_realizedPnlAfter :: jsnum
  pe_occurredAt :: string

record paper_position =
  pp_market :: string
  pp_quantity :: jsnum
  pp_averagePrice :: jsnum
  pp_realizedPnl :: jsnum

record paper_policy =
  rp_maxOrderNotional :: "jsnum option"
  rp_maxPositionQuantity :: "jsnum option"
  rp_maxRealizedLoss :: "jsnum option"
  rp_quantityStep :: "jsnum option"
  rp_dustThreshold :: "jsnum option"
  rp_priceTick :: "jsnum option"
  rp_minOrderNotional :: "jsnum option"

record normalized_policy =
  np_maxOrderNotional :: "jsnum option"
  np_maxPositionQuantity :: "jsnum option"
  np_maxRealizedLoss :: "jsnum option"
  np_quantityStep :: jsnum
  np_dustThreshold :: jsnum
  np_priceTick :: "jsnum option"
  np_minOrderNotional :: "jsnum option"

record fill_model =
  fm_slippageBps :: "jsnum option"
  fm_spreadBps :: "jsnum option"
  fm_maxFillRatio :: "jsnum option"
  fm_marketImpactBpsPerUnit :: "jsnum option"

record normalized_fill =
  nf_slippageBps :: jsnum
  nf_spreadBps :: jsnum
  nf_maxFillRatio :: jsnum
  nf_marketImpactBpsPerUnit :: jsnum

record broker_state =
  bs_version :: jsnum
  bs_cash :: jsnum
  bs_feeRate :: jsnum
  bs_position :: paper_position
  bs_orders :: "paper_order list"
  bs_ledger :: "paper_entry list option"

record account_snapshot =
  as_cash :: jsnum
  as_equity :: jsnum
  as_unrealizedPnl :: jsnum
  as_markPrice :: jsnum
  as_position :: paper_position
  as_orders :: "paper_order list"

section \<open>Exact amounts and the replay\<close>

abbreviation LEDGER_REPLAY_SCALE :: int where
  "LEDGER_REPLAY_SCALE \<equiv> 100000000"

text \<open>The digits of \<open>toFixed(12)\<close> are those of \<open>fixed_units 12\<close>; from \<open>10^21\<close> on the text has an exponent.\<close>

definition toScaledLedgerAmount :: "jsnum \<Rightarrow> int result" where
  "toScaledLedgerAmount amount =
     guard_r (\<not> is_finite amount) (Error ''ledger amount must be finite'')
     (guard_r (10 ^ 21 \<le> \<bar>jval amount\<bar>) (Error ''ledger amount out of exact-decimal range'')
     (let scaled = (fixed_units 12 \<bar>jval amount\<bar> + 5000) div 10000
      in Inr (if amount < Fin 0 then - scaled else scaled)))"

definition fromScaledLedgerAmount :: "int \<Rightarrow> jsnum" where
  "fromScaledLedgerAmount amount = jint amount div Fin 100000000"

definition assertFiniteNonNegative :: "jsnum \<Rightarrow> string \<Rightarrow> unit result" where
  "assertFiniteNonNegative v name =
     guard_r (\<not> is_finite v \<or> v < Fin 0) (Error (name @ '' must be non-negative'')) (Inr ())"

text \<open>The text of a positive number has an exponent below \<open>10^-6\<close> and from \<open>10^21\<close> on.\<close>

definition decimalPlaces :: "jsnum \<Rightarrow> int" where
  "decimalPlaces v =
     (let (k, n) = shortest_digits (jval v)
      in if n \<le> - 6 then 1 - n
         else if n \<le> 21 then max 0 (int k - n)
         else if k = 1 then 0 else int k + 1 + int (length (nat_string (nat (n - 1)))))"

definition EPSILON :: jsnum where
  "EPSILON = Fin (1 / 4503599627370496)"

definition floorToStep :: "jsnum \<Rightarrow> jsnum \<Rightarrow> jsnum" where
  "floorToStep v step =
     (let precision = min 15 (max (decimalPlaces step) 0);
          units = js_floor ((v + EPSILON) div step)
      in fixed_number (nat precision) (units * step))"

definition isAlignedToTick :: "jsnum \<Rightarrow> jsnum \<Rightarrow> bool" where
  "isAlignedToTick v tick = (let units = v div tick in js_abs (units - js_round units) < lit (1 / 1000000))"

record replay_state =
  ry_cash :: int
  ry_quantity :: int
  ry_costBasis :: int
  ry_realizedPnl :: int

definition applyReplayEntry :: "paper_entry \<Rightarrow> replay_state \<Rightarrow> replay_state result" where
  "applyReplayEntry entry s =
     bind_r (toScaledLedgerAmount (pe_quantity entry)) (\<lambda>q.
     bind_r (toScaledLedgerAmount (pe_price entry)) (\<lambda>p.
     bind_r (toScaledLedgerAmount (pe_fee entry)) (\<lambda>fee.
     Inr (case pe_side entry of
        Buy \<Rightarrow>
          s\<lparr>ry_cash := ry_cash s - (big_div (q * p) LEDGER_REPLAY_SCALE + fee),
            ry_costBasis := ry_costBasis s + big_div (q * p) LEDGER_REPLAY_SCALE,
            ry_quantity := ry_quantity s + q\<rparr>
      | Sell \<Rightarrow>
          (let average = (if ry_quantity s = 0 then 0 else big_div (ry_costBasis s * LEDGER_REPLAY_SCALE) (ry_quantity s));
               left = ry_quantity s - q
           in s\<lparr>ry_cash := ry_cash s + (big_div (q * p) LEDGER_REPLAY_SCALE - fee),
                ry_realizedPnl := ry_realizedPnl s + (big_div ((p - average) * q) LEDGER_REPLAY_SCALE - fee),
                ry_costBasis := (if left = 0 then 0 else ry_costBasis s - big_div (average * q) LEDGER_REPLAY_SCALE),
                ry_quantity := left\<rparr>)))))"

definition replay_start :: "jsnum \<Rightarrow> replay_state result" where
  "replay_start cash =
     bind_r (toScaledLedgerAmount cash) (\<lambda>c.
     Inr \<lparr>ry_cash = c, ry_quantity = 0, ry_costBasis = 0, ry_realizedPnl = 0\<rparr>)"

definition replay_ledger :: "jsnum \<Rightarrow> paper_entry list \<Rightarrow> replay_state result" where
  "replay_ledger cash es = bind_r (replay_start cash) (fold_r applyReplayEntry es)"

section \<open>The broker\<close>

record paper_broker =
  pb_cash :: jsnum
  pb_feeRate :: jsnum
  pb_position :: paper_position
  pb_orders :: "paper_order list"
  pb_ledger :: "paper_entry list"
  pb_riskPolicy :: normalized_policy
  pb_fillModel :: normalized_fill
  pb_replay :: replay_state

definition assert_opt :: "jsnum option \<Rightarrow> string \<Rightarrow> unit result" where
  "assert_opt v name = (case v of None \<Rightarrow> Inr () | Some x \<Rightarrow> assertFiniteNonNegative x name)"

definition default_to :: "'a \<Rightarrow> 'a option \<Rightarrow> 'a" where
  "default_to d v = (case v of None \<Rightarrow> d | Some x \<Rightarrow> x)"

definition normalizePolicy :: "paper_policy \<Rightarrow> normalized_policy result" where
  "normalizePolicy p =
     bind_r (assert_opt (rp_maxOrderNotional p) ''maxOrderNotional'') (\<lambda>_.
     bind_r (assert_opt (rp_maxPositionQuantity p) ''maxPositionQuantity'') (\<lambda>_.
     bind_r (assert_opt (rp_maxRealizedLoss p) ''maxRealizedLoss'') (\<lambda>_.
     guard_r (case rp_priceTick p of None \<Rightarrow> False | Some t \<Rightarrow> \<not> is_finite t \<or> t \<le> Fin 0)
       (Error ''priceTick must be positive'')
     (bind_r (assert_opt (rp_minOrderNotional p) ''minOrderNotional'') (\<lambda>_.
      let quantityStep = default_to (lit (1 / 100000000)) (rp_quantityStep p);
          dustThreshold = default_to (quantityStep div Fin 2) (rp_dustThreshold p)
      in guard_r (\<not> is_finite quantityStep \<or> quantityStep \<le> Fin 0) (Error ''quantityStep must be positive'')
      (bind_r (assertFiniteNonNegative dustThreshold ''dustThreshold'') (\<lambda>_.
       guard_r (quantityStep \<le> dustThreshold) (Error ''dustThreshold must be smaller than quantityStep'')
       (Inr \<lparr>np_maxOrderNotional = rp_maxOrderNotional p, np_maxPositionQuantity = rp_maxPositionQuantity p,
             np_maxRealizedLoss = rp_maxRealizedLoss p, np_quantityStep = quantityStep,
             np_dustThreshold = dustThreshold, np_priceTick = rp_priceTick p,
             np_minOrderNotional = rp_minOrderNotional p\<rparr>)))))))) "

definition normalizeFill :: "fill_model \<Rightarrow> normalized_fill result" where
  "normalizeFill f =
     (let slippageBps = default_to (Fin 0) (fm_slippageBps f);
          spreadBps = default_to (Fin 0) (fm_spreadBps f);
          maxFillRatio = default_to (Fin 1) (fm_maxFillRatio f);
          marketImpactBpsPerUnit = default_to (Fin 0) (fm_marketImpactBpsPerUnit f)
      in bind_r (assertFiniteNonNegative slippageBps ''slippageBps'') (\<lambda>_.
         bind_r (assertFiniteNonNegative spreadBps ''spreadBps'') (\<lambda>_.
         bind_r (assertFiniteNonNegative marketImpactBpsPerUnit ''marketImpactBpsPerUnit'') (\<lambda>_.
         guard_r (\<not> is_finite maxFillRatio \<or> maxFillRatio \<le> Fin 0 \<or> Fin 1 < maxFillRatio)
           (Error ''maxFillRatio must be in (0, 1]'')
         (Inr \<lparr>nf_slippageBps = slippageBps, nf_spreadBps = spreadBps, nf_maxFillRatio = maxFillRatio,
               nf_marketImpactBpsPerUnit = marketImpactBpsPerUnit\<rparr>)))))"

definition normalizeOrderQuantity :: "normalized_policy \<Rightarrow> jsnum \<Rightarrow> jsnum result" where
  "normalizeOrderQuantity np quantity =
     (let normalized = floorToStep quantity (np_quantityStep np)
      in guard_r (normalized \<le> np_dustThreshold np) (Error ''quantity is below market step or dust threshold'')
         (Inr normalized))"

definition normalizePositionQuantity :: "normalized_policy \<Rightarrow> jsnum \<Rightarrow> jsnum" where
  "normalizePositionQuantity np quantity =
     (if quantity \<le> np_dustThreshold np then Fin 0 else floorToStep quantity (np_quantityStep np))"

definition commitReplayState :: "paper_broker \<Rightarrow> paper_broker" where
  "commitReplayState b =
     (let r = pb_replay b;
          quantity = normalizePositionQuantity (pb_riskPolicy b) (fromScaledLedgerAmount (ry_quantity r))
      in b\<lparr>pb_cash := fromScaledLedgerAmount (ry_cash r),
           pb_position := (pb_position b)\<lparr>pp_quantity := quantity,
             pp_averagePrice := (if js_eq quantity (Fin 0) then Fin 0
               else fromScaledLedgerAmount (big_div (ry_costBasis r * LEDGER_REPLAY_SCALE) (ry_quantity r))),
             pp_realizedPnl := fromScaledLedgerAmount (ry_realizedPnl r)\<rparr>\<rparr>)"

definition projectFromLedger :: "jsnum \<Rightarrow> paper_broker \<Rightarrow> paper_broker result" where
  "projectFromLedger initialCash b =
     bind_r (replay_ledger initialCash (pb_ledger b)) (\<lambda>r. Inr (commitReplayState (b\<lparr>pb_replay := r\<rparr>)))"

definition restore_broker ::
  "string \<Rightarrow> jsnum \<Rightarrow> normalized_policy \<Rightarrow> normalized_fill \<Rightarrow> broker_state \<Rightarrow> paper_broker result" where
  "restore_broker market feeRate np nf s =
     guard_r (\<not> js_eq (bs_version s) (Fin 1)) (Error ''unsupported paper broker state version'')
     (guard_r (pp_market (bs_position s) \<noteq> market) (Error ''paper state market mismatch'')
     (guard_r (\<not> js_eq (bs_feeRate s) feeRate) (Error ''paper state fee rate mismatch'')
     (let quantity = normalizePositionQuantity np (pp_quantity (bs_position s));
          position = (bs_position s)\<lparr>pp_quantity := quantity,
            pp_averagePrice := (if js_eq quantity (Fin 0) then Fin 0 else pp_averagePrice (bs_position s))\<rparr>;
          ledger = default_to [] (bs_ledger s)
      in bind_r (replay_start (bs_cash s)) (\<lambda>r.
         let b = \<lparr>pb_cash = bs_cash s, pb_feeRate = bs_feeRate s, pb_position = position, pb_orders = bs_orders s,
                  pb_ledger = ledger, pb_riskPolicy = np, pb_fillModel = nf, pb_replay = r\<rparr>
         in case ledger of [] \<Rightarrow> Inr b | e # es \<Rightarrow> projectFromLedger (pe_cashBefore e) b))))"

definition PaperBroker_new ::
  "jsnum \<Rightarrow> string \<Rightarrow> jsnum \<Rightarrow> paper_policy \<Rightarrow> broker_state option \<Rightarrow> fill_model \<Rightarrow> paper_broker result" where
  "PaperBroker_new initialCash market feeRate riskPolicy restoredState fillModel =
     guard_r (\<not> is_finite initialCash \<or> initialCash \<le> Fin 0) (Error ''initialCash must be positive'')
     (bind_r (assertFiniteNonNegative feeRate ''feeRate'') (\<lambda>_.
      bind_r (normalizePolicy riskPolicy) (\<lambda>np.
      bind_r (normalizeFill fillModel) (\<lambda>nf.
      case restoredState of
        Some s \<Rightarrow> restore_broker market feeRate np nf s
      | None \<Rightarrow>
        bind_r (replay_start initialCash) (\<lambda>r.
        Inr \<lparr>pb_cash = initialCash, pb_feeRate = feeRate,
             pb_position = \<lparr>pp_market = market, pp_quantity = Fin 0, pp_averagePrice = Fin 0, pp_realizedPnl = Fin 0\<rparr>,
             pb_orders = [], pb_ledger = [], pb_riskPolicy = np, pb_fillModel = nf, pb_replay = r\<rparr>)))))"

text \<open>What \<open>execute\<close> computes before it changes anything: the fill, its costs and the next values.\<close>

record paper_fill =
  pf_quantity :: jsnum
  pf_price :: jsnum
  pf_notional :: jsnum
  pf_fee :: jsnum
  pf_spreadCost :: jsnum
  pf_slippageCost :: jsnum
  pf_marketImpactCost :: jsnum
  pf_nextCash :: jsnum
  pf_nextQuantity :: jsnum
  pf_nextRealizedPnl :: jsnum

definition exceeds :: "jsnum \<Rightarrow> jsnum option \<Rightarrow> bool" where
  "exceeds v limit = (case limit of None \<Rightarrow> False | Some l \<Rightarrow> l < v)"

definition paper_fill_for :: "paper_side \<Rightarrow> jsnum \<Rightarrow> jsnum \<Rightarrow> int option \<Rightarrow> paper_broker \<Rightarrow> (int \<times> paper_fill) result" where
  "paper_fill_for side quantity price now b =
     guard_r (\<not> is_finite quantity \<or> quantity \<le> Fin 0) (Error ''quantity must be positive'')
     (guard_r (\<not> is_finite price \<or> price \<le> Fin 0) (Error ''price must be positive'')
     (case now of None \<Rightarrow> throw ''now must be a valid date'' | Some time \<Rightarrow>
      let np = pb_riskPolicy b; nf = pb_fillModel b; position = pb_position b in
      guard_r (case np_priceTick np of None \<Rightarrow> False | Some tick \<Rightarrow> \<not> isAlignedToTick price tick)
        (Error ''price does not align to tick size'')
      (bind_r (normalizeOrderQuantity np (quantity * nf_maxFillRatio nf)) (\<lambda>normalized.
       let impactBps = normalized * nf_marketImpactBpsPerUnit nf;
           adverseBps = nf_slippageBps nf + nf_spreadBps nf div Fin 2 + impactBps;
           fillPrice = (case side of
               Buy \<Rightarrow> price * (Fin 1 + adverseBps div Fin 10000)
             | Sell \<Rightarrow> price * (Fin 1 - adverseBps div Fin 10000));
           notional = normalized * fillPrice;
           chargedFee = notional * pb_feeRate b;
           spread = (\<lambda>q. price * q * nf_spreadBps nf div Fin 20000);
           slippage = (\<lambda>q. price * q * nf_slippageBps nf div Fin 10000);
           impact = (\<lambda>q. price * q * impactBps div Fin 10000)
       in guard_r (side = Sell \<and> np_dustThreshold np < normalized - pp_quantity position)
            (Error ''insufficient paper position'')
          (guard_r (exceeds notional (np_maxOrderNotional np)) (Error ''paper risk: max order notional exceeded'')
          (guard_r (case np_minOrderNotional np of None \<Rightarrow> False | Some l \<Rightarrow> notional < l)
            (Error ''notional is below minimum order notional'')
          (guard_r (case np_maxRealizedLoss np of None \<Rightarrow> False | Some l \<Rightarrow> pp_realizedPnl position < - l)
            (Error ''paper risk: max realized loss exceeded'')
          (case side of
             Buy \<Rightarrow>
               (let nextQuantity = normalizePositionQuantity np (pp_quantity position + normalized)
                in guard_r (exceeds nextQuantity (np_maxPositionQuantity np))
                     (Error ''paper risk: max position quantity exceeded'')
                   (guard_r (pb_cash b < notional + chargedFee) (Error ''insufficient paper cash'')
                   (Inr (time, \<lparr>pf_quantity = normalized, pf_price = fillPrice, pf_notional = notional,
                      pf_fee = chargedFee, pf_spreadCost = spread normalized, pf_slippageCost = slippage normalized,
                      pf_marketImpactCost = impact normalized, pf_nextCash = pb_cash b - (notional + chargedFee),
                      pf_nextQuantity = nextQuantity, pf_nextRealizedPnl = pp_realizedPnl position\<rparr>))))
           | Sell \<Rightarrow>
               (let sellQuantity = js_min normalized (pp_quantity position);
                    sellNotional = sellQuantity * fillPrice;
                    sellFee = sellNotional * pb_feeRate b;
                    pnl = (fillPrice - pp_averagePrice position) * sellQuantity - sellFee
                in Inr (time, \<lparr>pf_quantity = normalized, pf_price = fillPrice, pf_notional = notional,
                      pf_fee = sellFee, pf_spreadCost = spread sellQuantity, pf_slippageCost = slippage sellQuantity,
                      pf_marketImpactCost = impact sellQuantity, pf_nextCash = pb_cash b + (sellNotional - sellFee),
                      pf_nextQuantity = normalizePositionQuantity np (pp_quantity position - sellQuantity),
                      pf_nextRealizedPnl = pp_realizedPnl position + pnl\<rparr>)))))))))) "

definition PaperBroker_execute ::
  "(int \<Rightarrow> string) \<Rightarrow> paper_side \<Rightarrow> jsnum \<Rightarrow> jsnum \<Rightarrow> int option \<Rightarrow> string option \<Rightarrow> paper_broker \<Rightarrow>
    paper_order result \<times> paper_broker" where
  "PaperBroker_execute isoText side quantity price now strategyId b =
     (case paper_fill_for side quantity price now b of
        Inl e \<Rightarrow> (Inl e, b)
      | Inr (time, f) \<Rightarrow>
        (let order = \<lparr>po_id = int_string time @ ''-'' @ nat_string (length (pb_orders b) + 1), po_strategyId = strategyId,
               po_market = pp_market (pb_position b), po_side = side, po_quantity = pf_quantity f,
               po_price = pf_price f, po_fee = pf_fee f, po_filledAt = isoText time, po_requestedQuantity = quantity,
               po_quotedPrice = price, po_spreadCost = pf_spreadCost f, po_slippageCost = pf_slippageCost f,
               po_marketImpactCost = pf_marketImpactCost f\<rparr>;
             entry = \<lparr>pe_sequence = length (pb_ledger b) + 1, pe_orderId = po_id order,
               pe_fillId = ''fill:'' @ po_id order, pe_market = po_market order, pe_side = side,
               pe_quantity = po_quantity order, pe_price = po_price order, pe_fee = po_fee order,
               pe_cashBefore = pb_cash b, pe_cashAfter = pf_nextCash f,
               pe_positionQuantityBefore = pp_quantity (pb_position b), pe_positionQuantityAfter = pf_nextQuantity f,
               pe_realizedPnlAfter = pf_nextRealizedPnl f, pe_occurredAt = po_filledAt order\<rparr>;
             b1 = b\<lparr>pb_orders := order # pb_orders b, pb_ledger := pb_ledger b @ [entry]\<rparr>
         in case applyReplayEntry entry (pb_replay b) of
              Inl e \<Rightarrow> (Inl e, b1)
            | Inr r \<Rightarrow>
              (let b2 = commitReplayState (b1\<lparr>pb_replay := r\<rparr>)
               in (Inr order, b2\<lparr>pb_ledger := pb_ledger b @ [entry\<lparr>pe_cashAfter := pb_cash b2,
                    pe_positionQuantityAfter := pp_quantity (pb_position b2),
                    pe_realizedPnlAfter := pp_realizedPnl (pb_position b2)\<rparr>]\<rparr>))))"

definition PaperBroker_exportState :: "paper_broker \<Rightarrow> broker_state" where
  "PaperBroker_exportState b = \<lparr>bs_version = Fin 1, bs_cash = pb_cash b, bs_feeRate = pb_feeRate b,
     bs_position = pb_position b, bs_orders = pb_orders b, bs_ledger = Some (pb_ledger b)\<rparr>"

definition public_policy :: "normalized_policy \<Rightarrow> paper_policy" where
  "public_policy np = \<lparr>rp_maxOrderNotional = np_maxOrderNotional np, rp_maxPositionQuantity = np_maxPositionQuantity np,
     rp_maxRealizedLoss = np_maxRealizedLoss np, rp_quantityStep = Some (np_quantityStep np),
     rp_dustThreshold = Some (np_dustThreshold np), rp_priceTick = np_priceTick np,
     rp_minOrderNotional = np_minOrderNotional np\<rparr>"

definition PaperBroker_restoreState :: "broker_state \<Rightarrow> paper_broker \<Rightarrow> paper_broker result" where
  "PaperBroker_restoreState s b =
     bind_r (PaperBroker_new (Fin 1) (pp_market (pb_position b)) (pb_feeRate b) (public_policy (pb_riskPolicy b)) (Some s)
       \<lparr>fm_slippageBps = None, fm_spreadBps = None, fm_maxFillRatio = None, fm_marketImpactBpsPerUnit = None\<rparr>) (\<lambda>w.
     let v = PaperBroker_exportState w
     in Inr (b\<lparr>pb_cash := bs_cash v,
               pb_position := (pb_position b)\<lparr>pp_quantity := pp_quantity (bs_position v),
                 pp_averagePrice := pp_averagePrice (bs_position v), pp_realizedPnl := pp_realizedPnl (bs_position v)\<rparr>,
               pb_orders := bs_orders v, pb_ledger := default_to [] (bs_ledger v)\<rparr>))"

definition PaperBroker_snapshot :: "jsnum \<Rightarrow> paper_broker \<Rightarrow> account_snapshot result" where
  "PaperBroker_snapshot markPrice b =
     guard_r (\<not> is_finite markPrice \<or> markPrice \<le> Fin 0) (Error ''markPrice must be positive'')
     (let position = pb_position b;
          marketValue = pp_quantity position * markPrice
      in Inr \<lparr>as_cash = pb_cash b, as_equity = pb_cash b + marketValue,
              as_unrealizedPnl = pp_quantity position * (markPrice - pp_averagePrice position),
              as_markPrice = markPrice, as_position = position, as_orders = pb_orders b\<rparr>)"

section \<open>The cursor is the replay of the ledger\<close>

inductive paper_reachable :: "jsnum \<Rightarrow> string \<Rightarrow> jsnum \<Rightarrow> paper_policy \<Rightarrow> fill_model \<Rightarrow> paper_broker \<Rightarrow> bool"
  for cash market fee policy fill where
  New: "PaperBroker_new cash market fee policy None fill = Inr b \<Longrightarrow> paper_reachable cash market fee policy fill b"
| Execute: "paper_reachable cash market fee policy fill b \<Longrightarrow>
    paper_reachable cash market fee policy fill (snd (PaperBroker_execute isoText side quantity price now strategyId b))"

lemma applyReplayEntry_frame:
  "pe_side e = pe_side e' \<Longrightarrow> pe_quantity e = pe_quantity e' \<Longrightarrow> pe_price e = pe_price e' \<Longrightarrow> pe_fee e = pe_fee e' \<Longrightarrow>
   applyReplayEntry e s = applyReplayEntry e' s"
  by (simp add: applyReplayEntry_def)

lemma bind_fold_r_Nil: "bind_r m (fold_r f []) = m"
  by (cases m) simp_all

lemma replay_ledger_snoc: "replay_ledger c (es @ [e]) = bind_r (replay_ledger c es) (applyReplayEntry e)"
proof (cases "replay_start c")
  case (Inr s)
  then show ?thesis by (cases "fold_r applyReplayEntry es s") (simp_all add: replay_ledger_def fold_r_append bind_fold_r_Nil)
qed (simp add: replay_ledger_def)

text \<open>What the broker knows of its configuration and of its ledger.\<close>

definition paper_ok :: "jsnum \<Rightarrow> string \<Rightarrow> jsnum \<Rightarrow> paper_policy \<Rightarrow> fill_model \<Rightarrow> paper_broker \<Rightarrow> bool" where
  "paper_ok cash market fee policy fill b \<longleftrightarrow>
     is_finite cash \<and> \<not> cash \<le> Fin 0 \<and> is_finite fee \<and> \<not> fee < Fin 0 \<and>
     normalizePolicy policy = Inr (pb_riskPolicy b) \<and> normalizeFill fill = Inr (pb_fillModel b) \<and>
     pb_feeRate b = fee \<and> pp_market (pb_position b) = market \<and>
     (pb_ledger b \<noteq> [] \<longrightarrow> pe_cashBefore (hd (pb_ledger b)) = cash) \<and>
     (pb_ledger b = [] \<longrightarrow> pb_cash b = cash \<and>
        pb_position b = \<lparr>pp_market = market, pp_quantity = Fin 0, pp_averagePrice = Fin 0, pp_realizedPnl = Fin 0\<rparr> \<and>
        replay_start cash = Inr (pb_replay b)) \<and>
     (\<forall>r. replay_ledger cash (pb_ledger b) = Inr r \<longrightarrow>
        r = pb_replay b \<and> (pb_ledger b \<noteq> [] \<longrightarrow> commitReplayState b = b))"

lemma assertFiniteNonNegative_Inr [result_simps]:
  "assertFiniteNonNegative v name = Inr u \<longleftrightarrow> is_finite v \<and> \<not> v < Fin 0"
  by (auto simp: assertFiniteNonNegative_def guard_r_def)

lemma normalizePolicy_dust:
  "normalizePolicy p = Inr np \<Longrightarrow> is_finite (np_dustThreshold np) \<and> \<not> np_dustThreshold np < Fin 0"
  by (auto simp: normalizePolicy_def result_simps Let_def)

lemma paper_ok_new:
  assumes "PaperBroker_new cash market fee policy None fill = Inr b"
  shows "paper_ok cash market fee policy fill b"
  using assms by (auto simp: PaperBroker_new_def paper_ok_def replay_ledger_def result_simps)

lemma commit_simps [simp]:
  "pb_replay (commitReplayState b) = pb_replay b" "pb_ledger (commitReplayState b) = pb_ledger b"
  "pb_riskPolicy (commitReplayState b) = pb_riskPolicy b" "pb_fillModel (commitReplayState b) = pb_fillModel b"
  "pb_feeRate (commitReplayState b) = pb_feeRate b" "pb_orders (commitReplayState b) = pb_orders b"
  "pp_market (pb_position (commitReplayState b)) = pp_market (pb_position b)"
  by (simp_all add: commitReplayState_def Let_def)

lemma commit_idem: "commitReplayState ((commitReplayState b)\<lparr>pb_ledger := l\<rparr>) = (commitReplayState b)\<lparr>pb_ledger := l\<rparr>"
  by (simp add: commitReplayState_def Let_def)

lemma execute_cases:
  obtains (refused) e where "PaperBroker_execute isoText side quantity price now strategyId b = (Inl e, b)"
  | (corrupt) e os entry where "PaperBroker_execute isoText side quantity price now strategyId b =
        (Inl e, b\<lparr>pb_orders := os, pb_ledger := pb_ledger b @ [entry]\<rparr>)"
      "pe_cashBefore entry = pb_cash b" "applyReplayEntry entry (pb_replay b) = Inl e"
  | (filled) order os entry entry' r where
      "PaperBroker_execute isoText side quantity price now strategyId b =
        (Inr order, (commitReplayState (b\<lparr>pb_orders := os, pb_ledger := pb_ledger b @ [entry], pb_replay := r\<rparr>))\<lparr>pb_ledger := pb_ledger b @ [entry']\<rparr>)"
      "pe_cashBefore entry' = pb_cash b" "applyReplayEntry entry' (pb_replay b) = Inr r"
proof (cases "paper_fill_for side quantity price now b")
  case (Inl e)
  then show thesis by (intro refused) (simp add: PaperBroker_execute_def)
next
  case (Inr tf)
  obtain time f where tf: "tf = (time, f)" by force
  let ?id = "int_string time @ ''-'' @ nat_string (length (pb_orders b) + 1)"
  let ?o = "\<lparr>po_id = ?id, po_strategyId = strategyId,
               po_market = pp_market (pb_position b), po_side = side, po_quantity = pf_quantity f,
               po_price = pf_price f, po_fee = pf_fee f, po_filledAt = isoText time, po_requestedQuantity = quantity,
               po_quotedPrice = price, po_spreadCost = pf_spreadCost f, po_slippageCost = pf_slippageCost f,
               po_marketImpactCost = pf_marketImpactCost f\<rparr>"
  let ?e = "\<lparr>pe_sequence = length (pb_ledger b) + 1, pe_orderId = ?id,
               pe_fillId = ''fill:'' @ ?id, pe_market = pp_market (pb_position b), pe_side = side,
               pe_quantity = pf_quantity f, pe_price = pf_price f, pe_fee = pf_fee f,
               pe_cashBefore = pb_cash b, pe_cashAfter = pf_nextCash f,
               pe_positionQuantityBefore = pp_quantity (pb_position b), pe_positionQuantityAfter = pf_nextQuantity f,
               pe_realizedPnlAfter = pf_nextRealizedPnl f, pe_occurredAt = isoText time\<rparr>"
  show thesis
  proof (cases "applyReplayEntry ?e (pb_replay b)")
    case (Inl e)
    show thesis
      by (rule corrupt [where e = e and os = "?o # pb_orders b" and entry = ?e])
        (use Inl Inr tf in \<open>simp_all add: PaperBroker_execute_def Let_def\<close>)
  next
    case app: (Inr r)
    let ?b2 = "commitReplayState (b\<lparr>pb_orders := ?o # pb_orders b, pb_ledger := pb_ledger b @ [?e], pb_replay := r\<rparr>)"
    let ?e' = "?e\<lparr>pe_cashAfter := pb_cash ?b2, pe_positionQuantityAfter := pp_quantity (pb_position ?b2),
                  pe_realizedPnlAfter := pp_realizedPnl (pb_position ?b2)\<rparr>"
    have "applyReplayEntry ?e' (pb_replay b) = Inr r"
      using app by (subst applyReplayEntry_frame [of ?e' ?e]) simp_all
    then show thesis
      by (intro filled [where order = ?o and os = "?o # pb_orders b" and entry = ?e and entry' = ?e' and r = r])
        (use app Inr tf in \<open>simp_all add: PaperBroker_execute_def Let_def\<close>)
  qed
qed

lemma paper_ok_execute:
  assumes "paper_ok cash market fee policy fill b"
  shows "paper_ok cash market fee policy fill (snd (PaperBroker_execute isoText side quantity price now strategyId b))"
proof (cases rule: execute_cases [of isoText side quantity price now strategyId b])
  case (refused e)
  then show ?thesis using assms by simp
next
  case (corrupt e os entry)
  have "replay_ledger cash (pb_ledger b @ [entry]) \<noteq> Inr r" for r
    using assms corrupt(3) by (auto simp: replay_ledger_snoc paper_ok_def result_simps)
  moreover have "pe_cashBefore (hd (pb_ledger b @ [entry])) = cash"
    using assms corrupt(2) by (cases "pb_ledger b") (auto simp: paper_ok_def)
  ultimately show ?thesis using assms corrupt(1) by (simp add: paper_ok_def)
next
  case (filled order os entry entry' r)
  have "replay_ledger cash (pb_ledger b @ [entry']) = Inr q \<longrightarrow> q = r" for q
    using assms filled(3) by (auto simp: replay_ledger_snoc paper_ok_def result_simps)
  moreover have "pe_cashBefore (hd (pb_ledger b @ [entry'])) = cash"
    using assms filled(2) by (cases "pb_ledger b") (auto simp: paper_ok_def)
  ultimately show ?thesis using assms filled(1) by (simp add: paper_ok_def commit_idem)
qed

lemma paper_reachable_ok: "paper_reachable cash market fee policy fill b \<Longrightarrow> paper_ok cash market fee policy fill b"
  by (induction rule: paper_reachable.induct) (auto intro: paper_ok_new paper_ok_execute)


lemma restore_broker_export:
  assumes "paper_ok cash market fee policy fill b" "replay_ledger cash (pb_ledger b) = Inr r" "replay_start (pb_cash b) = Inr r0"
  shows "restore_broker market fee (pb_riskPolicy b) nf (PaperBroker_exportState b) = Inr (b\<lparr>pb_fillModel := nf\<rparr>)"
proof -
  note ok = assms(1) [unfolded paper_ok_def]
  have nf: "fee \<noteq> NaN" using ok by auto
  have np: "\<not> np_dustThreshold (pb_riskPolicy b) < Fin 0" "is_finite (np_dustThreshold (pb_riskPolicy b))"
    using ok normalizePolicy_dust by blast+
  then have zero: "normalizePositionQuantity (pb_riskPolicy b) (Fin 0) = Fin 0"
    by (cases "np_dustThreshold (pb_riskPolicy b)") (auto simp: normalizePositionQuantity_def)
  show ?thesis
  proof (cases "pb_ledger b")
    case Nil
    then show ?thesis using ok nf zero
      by (cases b; cases "pb_position b")
        (auto simp: restore_broker_def PaperBroker_exportState_def default_to_def)
  next
    case (Cons e es)
    have c: "commitReplayState b = b" "pb_replay b = r" using ok assms(2) Cons by auto
    have com: "commitReplayState \<lparr>pb_cash = x, pb_feeRate = fee,
        pb_position = (pb_position b)\<lparr>pp_quantity := y, pp_averagePrice := z\<rparr>, pb_orders = pb_orders b, pb_ledger = e # es,
        pb_riskPolicy = pb_riskPolicy b, pb_fillModel = nf, pb_replay = r\<rparr> = b\<lparr>pb_fillModel := nf\<rparr>" for x y z
    proof -
      have "commitReplayState \<lparr>pb_cash = x, pb_feeRate = pb_feeRate b,
        pb_position = (pb_position b)\<lparr>pp_quantity := y, pp_averagePrice := z\<rparr>, pb_orders = pb_orders b, pb_ledger = pb_ledger b,
        pb_riskPolicy = pb_riskPolicy b, pb_fillModel = nf, pb_replay = pb_replay b\<rparr> = (commitReplayState b)\<lparr>pb_fillModel := nf\<rparr>"
        by (cases b) (simp add: commitReplayState_def Let_def)
      then show ?thesis using c Cons ok by simp
    qed
    show ?thesis using ok nf assms(2,3) Cons com
      by (simp add: restore_broker_def PaperBroker_exportState_def default_to_def projectFromLedger_def Let_def)
  qed
qed

lemma normalizePolicy_public:
  assumes "normalizePolicy p = Inr np"
  shows "normalizePolicy (public_policy np) = Inr np"
  using assms by (cases np) (auto simp: normalizePolicy_def public_policy_def default_to_def result_simps Let_def)

text \<open>What \<open>restoreState\<close> of an exported state gives back: everything but the replay cursor.\<close>

lemma restoreState_export:
  assumes "paper_ok cash market fee policy fill b" "replay_ledger cash (pb_ledger b) = Inr r" "replay_start (pb_cash b) = Inr r0"
    "pb_feeRate b' = pb_feeRate b" "pb_riskPolicy b' = pb_riskPolicy b" "pp_market (pb_position b') = pp_market (pb_position b)"
  shows "PaperBroker_restoreState (PaperBroker_exportState b) b' =
    Inr (b'\<lparr>pb_cash := pb_cash b, pb_position := pb_position b, pb_orders := pb_orders b, pb_ledger := pb_ledger b\<rparr>)"
proof -
  note ok = assms(1) [unfolded paper_ok_def]
  let ?nf = "\<lparr>nf_slippageBps = Fin 0, nf_spreadBps = Fin 0, nf_maxFillRatio = Fin 1, nf_marketImpactBpsPerUnit = Fin 0\<rparr>"
  have fill: "normalizeFill \<lparr>fm_slippageBps = None, fm_spreadBps = None, fm_maxFillRatio = None, fm_marketImpactBpsPerUnit = None\<rparr> = Inr ?nf"
    by code_simp
  have "PaperBroker_new (Fin 1) market fee (public_policy (pb_riskPolicy b)) (Some (PaperBroker_exportState b))
      \<lparr>fm_slippageBps = None, fm_spreadBps = None, fm_maxFillRatio = None, fm_marketImpactBpsPerUnit = None\<rparr> =
    Inr (b\<lparr>pb_fillModel := ?nf\<rparr>)"
    using ok normalizePolicy_public [of policy] restore_broker_export [OF assms(1-3), of ?nf] fill
    by (simp add: PaperBroker_new_def result_simps)
  moreover have "pb_feeRate b' = fee" "pp_market (pb_position b') = market" using ok assms(4,6) by simp_all
  ultimately show ?thesis using assms(5) ok
    by (cases "pb_position b"; cases "pb_position b'") (simp add: PaperBroker_restoreState_def PaperBroker_exportState_def default_to_def)
qed

text \<open>C11: Take a broker that the constructor made without a saved state and that only executed orders since, whose ledger replays from
  its initial cash, and whose present cash is an amount a replay can start from.  Restoring its export under the same configuration
  gives back the same broker: cash, position, orders, ledger and replay cursor.  An initial-cash argument that is not positive and
  finite is refused although the restore does not use it.\<close>
theorem export_restore_identity:
  assumes "paper_reachable cash market fee policy fill b" "replay_ledger cash (pb_ledger b) = Inr r"
    "replay_start (pb_cash b) = Inr r0"
  shows "PaperBroker_new initial market fee policy (Some (PaperBroker_exportState b)) fill =
    (if is_finite initial \<and> \<not> initial \<le> Fin 0 then Inr b else throw ''initialCash must be positive'')"
proof -
  note ok = paper_reachable_ok [OF assms(1), unfolded paper_ok_def]
  have "assertFiniteNonNegative fee ''feeRate'' = Inr ()" using ok by (auto simp: result_simps)
  moreover have "restore_broker market fee (pb_riskPolicy b) (pb_fillModel b) (PaperBroker_exportState b) = Inr b"
    using restore_broker_export [OF paper_reachable_ok [OF assms(1)] assms(2,3), of "pb_fillModel b"] by simp
  ultimately show ?thesis using ok by (simp add: PaperBroker_new_def guard_r_def throw_def)
qed

text \<open>An executed order has positive finite quantity and price, fills more than the dust threshold, keeps
  the notional limits of the policy, is not executed after the loss limit is passed, and a purchase
  is covered by the cash while a sale is covered by the position up to dust.  A refused order leaves
  the broker unchanged.\<close>
theorem execute_requires:
  assumes "PaperBroker_execute isoText side quantity price now strategyId b = (Inr order, b')"
  shows "is_finite quantity \<and> Fin 0 < quantity \<and> is_finite price \<and> Fin 0 < price \<and>
    \<not> po_quantity order \<le> np_dustThreshold (pb_riskPolicy b) \<and>
    \<not> exceeds (po_quantity order * po_price order) (np_maxOrderNotional (pb_riskPolicy b)) \<and>
    (\<forall>l. np_minOrderNotional (pb_riskPolicy b) = Some l \<longrightarrow> \<not> po_quantity order * po_price order < l) \<and>
    (\<forall>l. np_maxRealizedLoss (pb_riskPolicy b) = Some l \<longrightarrow> \<not> pp_realizedPnl (pb_position b) < - l) \<and>
    (case side of
       Buy \<Rightarrow> \<not> pb_cash b < po_quantity order * po_price order + po_fee order
     | Sell \<Rightarrow> \<not> np_dustThreshold (pb_riskPolicy b) < po_quantity order - pp_quantity (pb_position b)) \<and>
    (\<exists>entry. pb_orders b' = order # pb_orders b \<and> pb_ledger b' = pb_ledger b @ [entry] \<and>
       pe_quantity entry = po_quantity order \<and> pe_price entry = po_price order \<and> pe_fee entry = po_fee order)"
proof -
  obtain time f where f: "paper_fill_for side quantity price now b = Inr (time, f)"
    using assms by (cases "paper_fill_for side quantity price now b") (auto simp: PaperBroker_execute_def)
  have o: "po_quantity order = pf_quantity f" "po_price order = pf_price f" "po_fee order = pf_fee f"
    "\<exists>entry. pb_orders b' = order # pb_orders b \<and> pb_ledger b' = pb_ledger b @ [entry] \<and>
       pe_quantity entry = po_quantity order \<and> pe_price entry = po_price order \<and> pe_fee entry = po_fee order"
    using assms f by (auto simp: PaperBroker_execute_def Let_def split: sum.splits)
  have pos: "is_finite x \<Longrightarrow> \<not> x \<le> Fin 0 \<Longrightarrow> Fin 0 < x" for x by (cases x) auto
  have g: "is_finite quantity \<and> Fin 0 < quantity \<and> is_finite price \<and> Fin 0 < price \<and>
    \<not> pf_quantity f \<le> np_dustThreshold (pb_riskPolicy b)"
    using f pos by (cases side) (auto simp: paper_fill_for_def normalizeOrderQuantity_def result_simps Let_def split: option.splits)
  have h: "\<not> exceeds (pf_quantity f * pf_price f) (np_maxOrderNotional (pb_riskPolicy b))"
    "np_minOrderNotional (pb_riskPolicy b) = Some l \<longrightarrow> \<not> pf_quantity f * pf_price f < l"
    "np_maxRealizedLoss (pb_riskPolicy b) = Some l \<longrightarrow> \<not> pp_realizedPnl (pb_position b) < - l" for l
    using f by (cases side; auto simp: paper_fill_for_def result_simps Let_def split: option.splits)+
  have c: "case side of
       Buy \<Rightarrow> \<not> pb_cash b < pf_quantity f * pf_price f + pf_fee f
     | Sell \<Rightarrow> \<not> np_dustThreshold (pb_riskPolicy b) < pf_quantity f - pp_quantity (pb_position b)"
    using f by (cases side) (auto simp: paper_fill_for_def result_simps Let_def split: option.splits)
  show ?thesis using g h c o by (cases side) simp_all
qed

section \<open>A worked account\<close>

definition sample_policy :: paper_policy where
  "sample_policy = \<lparr>rp_maxOrderNotional = None, rp_maxPositionQuantity = None, rp_maxRealizedLoss = None,
     rp_quantityStep = Some (Fin 1), rp_dustThreshold = Some (Fin 0), rp_priceTick = None, rp_minOrderNotional = None\<rparr>"

definition no_fill :: fill_model where
  "no_fill = \<lparr>fm_slippageBps = None, fm_spreadBps = None, fm_maxFillRatio = None, fm_marketImpactBpsPerUnit = None\<rparr>"

definition sample_broker :: paper_broker where
  "sample_broker = \<lparr>pb_cash = Fin 1000, pb_feeRate = Fin 0,
     pb_position = \<lparr>pp_market = ''M'', pp_quantity = Fin 0, pp_averagePrice = Fin 0, pp_realizedPnl = Fin 0\<rparr>,
     pb_orders = [], pb_ledger = [],
     pb_riskPolicy = \<lparr>np_maxOrderNotional = None, np_maxPositionQuantity = None, np_maxRealizedLoss = None,
       np_quantityStep = Fin 1, np_dustThreshold = Fin 0, np_priceTick = None, np_minOrderNotional = None\<rparr>,
     pb_fillModel = \<lparr>nf_slippageBps = Fin 0, nf_spreadBps = Fin 0, nf_maxFillRatio = Fin 1, nf_marketImpactBpsPerUnit = Fin 0\<rparr>,
     pb_replay = \<lparr>ry_cash = 100000000000, ry_quantity = 0, ry_costBasis = 0, ry_realizedPnl = 0\<rparr>\<rparr>"

lemma sample_broker_new: "PaperBroker_new (Fin 1000) ''M'' (Fin 0) sample_policy None no_fill = Inr sample_broker"
  by code_simp

lemma sample_arith:
  "Fin 2 * Fin 1 = Fin 2" "Fin 2 * Fin 0 = Fin 0" "Fin 0 div Fin 2 = Fin 0" "Fin 0 + Fin 0 = Fin 0"
  "Fin 0 div Fin 10000 = Fin 0" "Fin 1 + Fin 0 = Fin 1" "Fin 100 * Fin 1 = Fin 100" "Fin 2 * Fin 100 = Fin 200"
  "Fin 200 * Fin 0 = Fin 0" "Fin 200 + Fin 0 = Fin 200" "Fin 0 + Fin 2 = Fin 2" "Fin 100 * Fin 2 = Fin 200"
  "Fin 0 div Fin 20000 = Fin 0"
  "floorToStep (Fin 2) (Fin 1) = Fin 2"
  "toScaledLedgerAmount (Fin 2) = Inr 200000000" "toScaledLedgerAmount (Fin 100) = Inr 10000000000"
  "toScaledLedgerAmount (Fin 0) = Inr 0" "toScaledLedgerAmount (Fin 800) = Inr 80000000000"
  "toScaledLedgerAmount (Fin 1000) = Inr 100000000000" "fromScaledLedgerAmount 80000000000 = Fin 800"
  by code_simp+

definition sample_buy :: "paper_broker \<Rightarrow> paper_order result \<times> paper_broker" where
  "sample_buy = PaperBroker_execute (\<lambda>t. ''t'') Buy (Fin 2) (Fin 100) (Some 5) None"

lemmas sample_unfold = sample_buy_def PaperBroker_execute_def paper_fill_for_def sample_broker_def
  normalizeOrderQuantity_def normalizePositionQuantity_def Let_def sample_arith exceeds_def less_jsnum_def
  applyReplayEntry_def big_div_def commitReplayState_def

lemma sample_buy:
  assumes "Fin 200 \<le> c"
  shows "\<exists>order. fst (sample_buy (sample_broker\<lparr>pb_cash := c\<rparr>)) = Inr order"
    "pb_cash (snd (sample_buy (sample_broker\<lparr>pb_cash := c\<rparr>))) = Fin 800"
  using assms by (simp_all add: sample_unfold)

lemma sample_broker_cash: "sample_broker\<lparr>pb_cash := Fin 1000\<rparr> = sample_broker"
  by (simp add: sample_broker_def)

lemma sample_bought_reachable:
  "paper_reachable (Fin 1000) ''M'' (Fin 0) sample_policy no_fill (snd (sample_buy sample_broker))"
  unfolding sample_buy_def by (rule paper_reachable.Execute [OF paper_reachable.New [OF sample_broker_new]])

lemma sample_bought_replay:
  "\<exists>r. replay_ledger (Fin 1000) (pb_ledger (snd (sample_buy sample_broker))) = Inr r"
  by (simp add: sample_unfold replay_ledger_def replay_start_def)


lemma export_restore_identity_witness:
  "PaperBroker_new (Fin 1) ''M'' (Fin 0) sample_policy (Some (PaperBroker_exportState (snd (sample_buy sample_broker)))) no_fill =
     Inr (snd (sample_buy sample_broker))"
proof -
  obtain r where r: "replay_ledger (Fin 1000) (pb_ledger (snd (sample_buy sample_broker))) = Inr r"
    using sample_bought_replay by blast
  have "pb_cash (snd (sample_buy sample_broker)) = Fin 800"
    using sample_buy(2) [of "Fin 1000"] by (simp add: sample_broker_cash)
  then have "\<exists>r0. replay_start (pb_cash (snd (sample_buy sample_broker))) = Inr r0"
    by (simp add: replay_start_def sample_arith)
  then show ?thesis using export_restore_identity [OF sample_bought_reachable r, of _ "Fin 1"] by auto
qed

lemma execute_requires_witness:
  "\<exists>order. fst (sample_buy sample_broker) = Inr order \<and> \<not> Fin 1000 < po_quantity order * po_price order + po_fee order"
proof -
  obtain order where o: "fst (sample_buy sample_broker) = Inr order"
    using sample_buy(1) [of "Fin 1000"] by (auto simp: sample_broker_cash)
  then have "PaperBroker_execute (\<lambda>t. ''t'') Buy (Fin 2) (Fin 100) (Some 5) None sample_broker =
      (Inr order, snd (sample_buy sample_broker))" by (simp add: sample_buy_def prod_eq_iff)
  from execute_requires [OF this] have "\<not> pb_cash sample_broker < po_quantity order * po_price order + po_fee order"
    by simp
  then show ?thesis using o by (simp add: sample_broker_def)
qed

text \<open>\<open>restoreState\<close> leaves the replay cursor of the old account in place: after restoring an account
  of 500 into a broker of 1000, a purchase for 200 commits a cash of 800 instead of 300.\<close>
theorem restoreState_keeps_stale_cursor:
  "\<exists>b order. PaperBroker_restoreState
       \<lparr>bs_version = Fin 1, bs_cash = Fin 500, bs_feeRate = Fin 0,
        bs_position = \<lparr>pp_market = ''M'', pp_quantity = Fin 0, pp_averagePrice = Fin 0, pp_realizedPnl = Fin 0\<rparr>,
        bs_orders = [], bs_ledger = Some []\<rparr> sample_broker = Inr b \<and>
     pb_cash b = Fin 500 \<and> fst (sample_buy b) = Inr order \<and> pb_cash (snd (sample_buy b)) = Fin 800"
proof -
  have restored: "PaperBroker_restoreState
       \<lparr>bs_version = Fin 1, bs_cash = Fin 500, bs_feeRate = Fin 0,
        bs_position = \<lparr>pp_market = ''M'', pp_quantity = Fin 0, pp_averagePrice = Fin 0, pp_realizedPnl = Fin 0\<rparr>,
        bs_orders = [], bs_ledger = Some []\<rparr> sample_broker = Inr (sample_broker\<lparr>pb_cash := Fin 500\<rparr>)"
    by code_simp
  obtain order where "fst (sample_buy (sample_broker\<lparr>pb_cash := Fin 500\<rparr>)) = Inr order"
    using sample_buy(1) [of "Fin 500"] by auto
  moreover have "pb_cash (snd (sample_buy (sample_broker\<lparr>pb_cash := Fin 500\<rparr>))) = Fin 800"
    by (rule sample_buy(2)) simp
  ultimately show ?thesis using restored by (intro exI conjI) (simp_all)
qed

end
