(* ===== verification/SafetyGate.thy ===== *)
theory SafetyGate imports Prelude begin

text \<open>
  \<open>packages/contracts/src/risk-safety-integration.ts\<close> (the canonical risk safety gate with its
  in-memory persistence) and \<open>packages/core/src/paperApprovalService.ts\<close>.  The digests, the trading
  day of a time in Seoul, the text of a number and fresh ids are parameters; the broker is a
  parameter of \<open>evaluateAndSubmit\<close>.  An evaluation returns its decision and the persistence.
  \<open>claim_store\<close> is the interface of the claimed keys.
\<close>

section \<open>Types\<close>

datatype risk_boundary = RbManual | RbStrategy | RbReconnectReplay | RbShadow | RbCanary
datatype canonical_status = CsApproved | CsRejected | CsBlocked | CsUnknown
datatype paper_order_status = PsOpen | PsPending | PsFilled | PsCancelled | PsRejected
datatype risk_mode = RmPaper | RmShadow | RmLive
datatype gate_side = GsBuy | GsSell

record approval_scope =
  pa_mode :: risk_mode
  pa_symbol :: string
  pa_strategyId :: string
  pa_policyFingerprint :: string
  pa_expiresAtMs :: jsnum
  pa_side :: "gate_side option"
  pa_commandId :: "string option"

record paper_approval = approval_scope +
  pa_approvalId :: string
  pa_approvedBy :: string
  pa_approvedAtMs :: jsnum

record daily_loss =
  dl_accountId :: string
  dl_tradingDay :: string
  dl_dayStartEquity :: jsnum
  dl_updatedAtMs :: jsnum

record claim_record =
  cl_accountId :: string
  cl_commandId :: string
  cl_signalId :: string
  cl_clientOrderId :: string
  cl_payloadFingerprint :: string
  cl_createdAtMs :: jsnum

record risk_order =
  ro_accountId :: string
  ro_orderId :: string
  ro_status :: paper_order_status
  ro_updatedAtMs :: jsnum

record gate_request =
  gq_accountId :: string
  gq_requestId :: string
  gq_boundary :: risk_boundary
  gq_mode :: risk_mode
  gq_symbol :: string
  gq_side :: gate_side
  gq_strategyId :: string
  gq_policyFingerprint :: string
  gq_approvalId :: "string option"
  gq_nowMs :: jsnum
  gq_currentEquity :: jsnum
  gq_marketDataFresh :: bool
  gq_marketHealthy :: bool
  gq_killSwitchActive :: bool
  gq_liveMutationAllowed :: bool
  gq_recoveryReady :: bool
  gq_persistenceHealthy :: bool
  gq_maxDailyLoss :: jsnum
  gq_maxOpenOrders :: jsnum
  gq_idempotency :: claim_record

record gate_dashboard =
  gd_status :: canonical_status
  gd_reasonCodes :: "string list"

record gate_decision =
  ge_status :: canonical_status
  ge_reasonCodes :: "string list"
  ge_reason :: string
  ge_evaluatedAtMs :: jsnum
  ge_decisionId :: string
  ge_productionMutationAllowed :: bool
  ge_dashboard :: gate_dashboard

section \<open>The in-memory persistence\<close>

record risk_persistence =
  rk_approvals :: "(string \<times> paper_approval) list"
  rk_dailyLoss :: "(string \<times> daily_loss) list"
  rk_idempotency :: "(string \<times> claim_record) list"
  rk_orders :: "(string \<times> risk_order) list"

definition mem_saveApproval :: "paper_approval \<Rightarrow> risk_persistence \<Rightarrow> risk_persistence" where
  "mem_saveApproval a p = p\<lparr>rk_approvals := AList.update (pa_approvalId a) a (rk_approvals p)\<rparr>"

definition mem_loadApproval :: "string \<Rightarrow> risk_persistence \<Rightarrow> paper_approval option" where
  "mem_loadApproval i p = map_of (rk_approvals p) i"


definition mem_loadDailyLoss :: "string \<Rightarrow> risk_persistence \<Rightarrow> daily_loss option" where
  "mem_loadDailyLoss a p = map_of (rk_dailyLoss p) a"

definition mem_saveDailyLoss :: "daily_loss \<Rightarrow> risk_persistence \<Rightarrow> risk_persistence" where
  "mem_saveDailyLoss d p = p\<lparr>rk_dailyLoss := AList.update (dl_accountId d) d (rk_dailyLoss p)\<rparr>"

definition scoped_key :: "string \<Rightarrow> string \<Rightarrow> string" where
  "scoped_key account key = account @ '':'' @ key"

definition mem_getIdempotency :: "string \<Rightarrow> string \<Rightarrow> risk_persistence \<Rightarrow> claim_record option" where
  "mem_getIdempotency account key p = map_of (rk_idempotency p) (scoped_key account key)"

definition claim_keys :: "claim_record \<Rightarrow> string list" where
  "claim_keys r = [cl_commandId r, cl_signalId r, cl_clientOrderId r]"

definition mem_claimIdempotency :: "claim_record \<Rightarrow> risk_persistence \<Rightarrow> risk_persistence result" where
  "mem_claimIdempotency r p =
     (let keys = map (scoped_key (cl_accountId r)) (claim_keys r)
      in case List.map_filter (map_of (rk_idempotency p)) keys of
           existing # _ \<Rightarrow>
             (if cl_payloadFingerprint existing \<noteq> cl_payloadFingerprint r then throw ''IDEMPOTENCY_CONFLICT''
              else throw ''IDEMPOTENCY_DUPLICATE'')
         | [] \<Rightarrow> Inr (p\<lparr>rk_idempotency := fold (\<lambda>k. AList.update k r) keys (rk_idempotency p)\<rparr>))"


definition mem_listOrders :: "string \<Rightarrow> risk_persistence \<Rightarrow> risk_order list" where
  "mem_listOrders account p = filter (\<lambda>r. ro_accountId r = account) (map snd (rk_orders p))"

section \<open>The gate\<close>

definition isSafeTime :: "jsnum \<Rightarrow> bool" where
  "isSafeTime v \<longleftrightarrow> is_safe_integer v \<and> Fin 0 \<le> v"

definition gate_requireText :: "string \<Rightarrow> string \<Rightarrow> unit result" where
  "gate_requireText v name = guard_r (blank v) (Error (name @ '' is required'')) (Inr ())"

definition tradingDayKey :: "(jsnum \<Rightarrow> string) \<Rightarrow> jsnum \<Rightarrow> string result" where
  "tradingDayKey seoul_day nowMs =
     guard_r (\<not> isSafeTime nowMs) (Error ''valid timestamp is required'') (Inr (seoul_day nowMs))"

definition countOpenOrders :: "risk_order list \<Rightarrow> nat" where
  "countOpenOrders os = length (filter (\<lambda>r. ro_status r = PsOpen \<or> ro_status r = PsPending) os)"

definition gate_saveApproval :: "paper_approval \<Rightarrow> risk_persistence \<Rightarrow> risk_persistence result" where
  "gate_saveApproval a p =
     bind_r (gate_requireText (pa_approvalId a) ''approvalId'') (\<lambda>_.
     bind_r (gate_requireText (pa_symbol a) ''approval.symbol'') (\<lambda>_.
     bind_r (gate_requireText (pa_strategyId a) ''approval.strategyId'') (\<lambda>_.
     bind_r (gate_requireText (pa_policyFingerprint a) ''approval.policyFingerprint'') (\<lambda>_.
     bind_r (gate_requireText (pa_approvedBy a) ''approval.approvedBy'') (\<lambda>_.
     guard_r (pa_mode a \<noteq> RmPaper) (Error ''approval mode must be PAPER'')
     (guard_r (\<not> isSafeTime (pa_expiresAtMs a) \<or> \<not> isSafeTime (pa_approvedAtMs a) \<or> pa_expiresAtMs a \<le> pa_approvedAtMs a)
       (Error ''approval expiry is invalid'')
     (bind_r (case pa_commandId a of None \<Rightarrow> Inr () | Some c \<Rightarrow> gate_requireText c ''approval.commandId'') (\<lambda>_.
      Inr (mem_saveApproval a p))))))))) "


fun join_with :: "string \<Rightarrow> string list \<Rightarrow> string" where
  "join_with sep [] = []"
| "join_with sep [x] = x"
| "join_with sep (x # xs) = x @ sep @ join_with sep xs"

fun status_name :: "canonical_status \<Rightarrow> string" where
  "status_name CsApproved = ''APPROVED''" | "status_name CsRejected = ''REJECTED''"
| "status_name CsBlocked = ''BLOCKED''" | "status_name CsUnknown = ''UNKNOWN''"

definition default_reason :: "string list \<Rightarrow> string" where
  "default_reason codes = (if join_with '','' codes = [] then ''APPROVED'' else join_with '','' codes)"

definition gate_decision_of ::
  "(string \<Rightarrow> string) \<Rightarrow> (jsnum \<Rightarrow> string) \<Rightarrow> canonical_status \<Rightarrow> string list \<Rightarrow> jsnum \<Rightarrow> string \<Rightarrow> gate_decision" where
  "gate_decision_of sha num_text status codes at_ms reason =
     (let frozen = sort (set_of_list codes)
      in \<lparr>ge_status = status, ge_reasonCodes = frozen, ge_reason = reason, ge_evaluatedAtMs = at_ms,
          ge_decisionId = take 24 (sha (status_name status @ ''|'' @ join_with ''|'' frozen @ ''|'' @ num_text at_ms)),
          ge_productionMutationAllowed = False, ge_dashboard = \<lparr>gd_status = status, gd_reasonCodes = frozen\<rparr>\<rparr>)"

definition failClosedCodes :: "string list" where
  "failClosedCodes = [''PERSISTENCE_UNHEALTHY'', ''RECOVERY_PENDING'', ''LIVE_CAPABILITY_DETECTED'',
     ''LIVE_MUTATION_NOT_DISABLED'', ''KILL_SWITCH_ACTIVE'', ''MARKET_DATA_STALE'', ''SHADOW_EVALUATION_ONLY'',
     ''INVALID_REQUEST'', ''APPROVAL_MISSING'', ''APPROVAL_EXPIRED'', ''APPROVAL_SCOPE_MISMATCH'',
     ''RISK_POLICY_FINGERPRINT_MISMATCH'', ''DUPLICATE_COMMAND'']"

text \<open>The rejections, in the order of the checks; \<open>reject\<close> keeps the first of equal codes.\<close>

definition request_codes :: "gate_request \<Rightarrow> string list" where
  "request_codes q =
     (if gq_persistenceHealthy q then [] else [''PERSISTENCE_UNHEALTHY''])
     @ (if gq_recoveryReady q then [] else [''RECOVERY_PENDING''])
     @ (if gq_mode q = RmPaper then [] else [''LIVE_CAPABILITY_DETECTED''])
     @ (if gq_liveMutationAllowed q then [''LIVE_MUTATION_NOT_DISABLED''] else [])
     @ (if gq_killSwitchActive q then [''KILL_SWITCH_ACTIVE''] else [])
     @ (if gq_marketDataFresh q \<and> gq_marketHealthy q then [] else [''MARKET_DATA_STALE''])
     @ (if gq_boundary q = RbShadow then [''SHADOW_EVALUATION_ONLY''] else [])
     @ (if \<not> isSafeTime (gq_nowMs q) \<or> \<not> is_finite (gq_currentEquity q) \<or> gq_currentEquity q < Fin 0
          \<or> gq_maxDailyLoss q < Fin 0 \<or> gq_maxOpenOrders q < Fin 0 then [''INVALID_REQUEST''] else [])"

definition approval_codes :: "gate_request \<Rightarrow> paper_approval option \<Rightarrow> string list" where
  "approval_codes q approval =
     (case approval of
        None \<Rightarrow> (if gq_boundary q = RbShadow then [] else [''APPROVAL_MISSING''])
      | Some a \<Rightarrow>
        (if pa_expiresAtMs a \<le> gq_nowMs q then [''APPROVAL_EXPIRED''] else [])
        @ (if pa_mode a \<noteq> gq_mode q \<or> pa_symbol a \<noteq> gq_symbol q \<or> pa_strategyId a \<noteq> gq_strategyId q
           then [''APPROVAL_SCOPE_MISMATCH''] else [])
        @ (if pa_policyFingerprint a = gq_policyFingerprint q then [] else [''RISK_POLICY_FINGERPRINT_MISMATCH''])
        @ (case pa_commandId a of None \<Rightarrow> []
           | Some c \<Rightarrow> if c = cl_commandId (gq_idempotency q) then [] else [''APPROVAL_SCOPE_MISMATCH''])
        @ (case pa_side a of None \<Rightarrow> [] | Some s \<Rightarrow> if s = gq_side q then [] else [''APPROVAL_SCOPE_MISMATCH'']))"

definition day_state :: "string \<Rightarrow> gate_request \<Rightarrow> risk_persistence \<Rightarrow> daily_loss \<times> risk_persistence" where
  "day_state day q p =
     (let fresh = \<lparr>dl_accountId = gq_accountId q, dl_tradingDay = day, dl_dayStartEquity = gq_currentEquity q,
                   dl_updatedAtMs = gq_nowMs q\<rparr>
      in case mem_loadDailyLoss (gq_accountId q) p of
           Some d \<Rightarrow> (if dl_tradingDay d = day then (d, p) else (fresh, mem_saveDailyLoss fresh p))
         | None \<Rightarrow> (fresh, mem_saveDailyLoss fresh p))"

definition evaluate_codes :: "daily_loss \<Rightarrow> gate_request \<Rightarrow> risk_persistence \<Rightarrow> string list" where
  "evaluate_codes d q p =
     set_of_list (request_codes q
       @ (if gq_currentEquity q - dl_dayStartEquity d < - gq_maxDailyLoss q then [''DAILY_LOSS_LIMIT''] else [])
       @ (if gq_maxOpenOrders q \<le> Fin (of_nat (countOpenOrders (mem_listOrders (gq_accountId q) p)))
          then [''OPEN_ORDER_LIMIT''] else [])
       @ approval_codes q (case gq_approvalId q of None \<Rightarrow> None | Some i \<Rightarrow> mem_loadApproval i p)
       @ (if list_ex (\<lambda>k. mem_getIdempotency (gq_accountId q) k p \<noteq> None) (claim_keys (gq_idempotency q))
          then [''DUPLICATE_COMMAND''] else []))"

definition error_text :: "js_error \<Rightarrow> string" where
  "error_text e = (case e of Error m \<Rightarrow> m | RangeError m \<Rightarrow> m | TypeError m \<Rightarrow> m)"

definition gate_evaluate ::
  "(string \<Rightarrow> string) \<Rightarrow> (jsnum \<Rightarrow> string) \<Rightarrow> (jsnum \<Rightarrow> string) \<Rightarrow> (gate_request \<Rightarrow> string) \<Rightarrow> gate_request \<Rightarrow>
    risk_persistence \<Rightarrow> gate_decision \<times> risk_persistence" where
  "gate_evaluate sha num_text seoul_day stableFingerprint q p =
     (case tradingDayKey seoul_day (gq_nowMs q) of
        Inl e \<Rightarrow> (gate_decision_of sha num_text CsUnknown [''PERSISTENCE_UNHEALTHY''] (gq_nowMs q) (error_text e), p)
      | Inr day \<Rightarrow>
        (case day_state day q p of (d, p1) \<Rightarrow>
         let codes = evaluate_codes d q p1;
             status = (if codes = [] then CsApproved
                       else if list_ex (\<lambda>c. c \<in> set failClosedCodes) codes then CsBlocked else CsRejected);
             decide = (\<lambda>s cs. gate_decision_of sha num_text s cs (gq_nowMs q) (default_reason cs))
         in if status = CsApproved
            then (case mem_claimIdempotency ((gq_idempotency q)\<lparr>cl_payloadFingerprint := stableFingerprint q\<rparr>) p1 of
                    Inr p2 \<Rightarrow> (decide CsApproved [], p2)
                  | Inl e \<Rightarrow> (decide CsUnknown
                      [if e = Error ''IDEMPOTENCY_DUPLICATE'' then ''DUPLICATE_COMMAND'' else ''PERSISTENCE_UNHEALTHY''], p1))
            else (decide status codes, p1)))"

definition evaluateAndSubmit ::
  "(string \<Rightarrow> string) \<Rightarrow> (jsnum \<Rightarrow> string) \<Rightarrow> (jsnum \<Rightarrow> string) \<Rightarrow> (gate_request \<Rightarrow> string) \<Rightarrow>
    (gate_request \<Rightarrow> 'b \<Rightarrow> unit result \<times> 'b) \<Rightarrow> gate_request \<Rightarrow> risk_persistence \<times> 'b \<Rightarrow>
    gate_decision \<times> risk_persistence \<times> 'b" where
  "evaluateAndSubmit sha num_text seoul_day stableFingerprint submit q w =
     (case gate_evaluate sha num_text seoul_day stableFingerprint q (fst w) of (d, p) \<Rightarrow>
        if ge_status d = CsApproved \<and> gq_boundary q \<noteq> RbShadow
        then (case submit q (snd w) of
                (Inr _, b) \<Rightarrow> (d, p, b)
              | (Inl e, b) \<Rightarrow> (gate_decision_of sha num_text CsUnknown [''BROKER_SUBMISSION_FAILED''] (gq_nowMs q) (error_text e), p, b))
        else (d, p, snd w))"

definition projectDashboard :: "gate_decision \<Rightarrow> gate_dashboard" where
  "projectDashboard d =
     (if ge_productionMutationAllowed d then \<lparr>gd_status = CsBlocked, gd_reasonCodes = [''PROJECTION_UNHEALTHY'']\<rparr>
      else \<lparr>gd_status = ge_status d, gd_reasonCodes = ge_reasonCodes d\<rparr>)"

section \<open>The approval service\<close>

definition MANUAL_APPROVAL_TTL_MS :: jsnum where
  "MANUAL_APPROVAL_TTL_MS = Fin 60000"

definition STRATEGY_APPROVAL_TTL_MS :: jsnum where
  "STRATEGY_APPROVAL_TTL_MS = Fin 3600000"

record manual_approval_input =
  mi_symbol :: string
  mi_side :: gate_side
  mi_commandId :: string
  mi_policyFingerprint :: string
  mi_nowMs :: jsnum

record strategy_approval_input =
  si_symbol :: string
  si_strategyId :: string
  si_policyFingerprint :: string
  si_nowMs :: jsnum

definition issueManualApproval ::
  "string \<Rightarrow> manual_approval_input \<Rightarrow> risk_persistence \<Rightarrow> (paper_approval \<times> risk_persistence) result" where
  "issueManualApproval uuid i p =
     (let a = \<lparr>pa_mode = RmPaper, pa_symbol = mi_symbol i, pa_strategyId = ''MANUAL'',
               pa_policyFingerprint = mi_policyFingerprint i, pa_expiresAtMs = mi_nowMs i + MANUAL_APPROVAL_TTL_MS,
               pa_side = Some (mi_side i), pa_commandId = Some (mi_commandId i), pa_approvalId = ''manual-'' @ uuid,
               pa_approvedBy = ''LOCAL_OPERATOR'', pa_approvedAtMs = mi_nowMs i\<rparr>
      in bind_r (gate_saveApproval a p) (\<lambda>p'. Inr (a, p')))"

definition issueStrategyApproval ::
  "string \<Rightarrow> strategy_approval_input \<Rightarrow> risk_persistence \<Rightarrow> (paper_approval \<times> risk_persistence) result" where
  "issueStrategyApproval uuid i p =
     (let a = \<lparr>pa_mode = RmPaper, pa_symbol = si_symbol i, pa_strategyId = si_strategyId i,
               pa_policyFingerprint = si_policyFingerprint i, pa_expiresAtMs = si_nowMs i + STRATEGY_APPROVAL_TTL_MS,
               pa_side = None, pa_commandId = None, pa_approvalId = ''strategy-'' @ uuid,
               pa_approvedBy = ''LOCAL_OPERATOR'', pa_approvedAtMs = si_nowMs i\<rparr>
      in bind_r (gate_saveApproval a p) (\<lambda>p'. Inr (a, p')))"


section \<open>Claims\<close>







section \<open>Approval\<close>

lemma set_of_list_Nil_iff: "set_of_list xs = [] \<longleftrightarrow> xs = []"
  by (metis set_empty set_set_of_list)

lemma if_Nil_iff: "(if b then [] else [x]) = [] \<longleftrightarrow> b" "(if b then [x] else []) = [] \<longleftrightarrow> \<not> b"
  by simp_all

lemma gate_approved:
  assumes "gate_evaluate sha num_text seoul_day fp q p = (d, p')" "ge_status d = CsApproved"
  shows "\<exists>dl p1. isSafeTime (gq_nowMs q) \<and> day_state (seoul_day (gq_nowMs q)) q p = (dl, p1) \<and>
    evaluate_codes dl q p1 = [] \<and>
    mem_claimIdempotency ((gq_idempotency q)\<lparr>cl_payloadFingerprint := fp q\<rparr>) p1 = Inr p'"
proof (cases "tradingDayKey seoul_day (gq_nowMs q)")
  case (Inl e)
  then show ?thesis using assms by (auto simp: gate_evaluate_def gate_decision_of_def Let_def)
next
  case (Inr day)
  then have day: "isSafeTime (gq_nowMs q)" "day = seoul_day (gq_nowMs q)" by (auto simp: tradingDayKey_def result_simps)
  obtain dl p1 where ds: "day_state day q p = (dl, p1)" by force
  have nil: "evaluate_codes dl q p1 = []"
    using assms Inr ds by (auto simp: gate_evaluate_def gate_decision_of_def Let_def split: if_splits)
  have "mem_claimIdempotency ((gq_idempotency q)\<lparr>cl_payloadFingerprint := fp q\<rparr>) p1 = Inr p'"
    using assms Inr ds nil by (auto simp: gate_evaluate_def gate_decision_of_def Let_def split: sum.splits)
  then show ?thesis using day ds nil by blast
qed

definition approval_covers :: "gate_request \<Rightarrow> paper_approval \<Rightarrow> bool" where
  "approval_covers q a \<longleftrightarrow> \<not> pa_expiresAtMs a \<le> gq_nowMs q \<and> pa_mode a = gq_mode q \<and> pa_symbol a = gq_symbol q \<and>
     pa_strategyId a = gq_strategyId q \<and> pa_policyFingerprint a = gq_policyFingerprint q \<and>
     pa_commandId a \<in> {None, Some (cl_commandId (gq_idempotency q))} \<and> pa_side a \<in> {None, Some (gq_side q)}"

lemma approval_codes_Nil:
  "gq_boundary q \<noteq> RbShadow \<Longrightarrow> approval_codes q ao = [] \<longleftrightarrow> (\<exists>a. ao = Some a \<and> approval_covers q a)"
  by (auto simp: approval_codes_def approval_covers_def split: option.splits if_splits)

lemma jless_iff_not_le: "a < b \<longleftrightarrow> a \<noteq> NaN \<and> b \<noteq> NaN \<and> \<not> b \<le> (a :: jsnum)"
  by (simp add: less_jsnum_def)

lemma gate_jsub_not_NaN: "is_finite a \<Longrightarrow> b \<noteq> NaN \<Longrightarrow> a - b \<noteq> NaN"
  by (cases a; cases b) (auto simp: minus_jsnum_def plus_jsnum_def)

lemma request_codes_Nil:
  "request_codes q = [] \<longleftrightarrow> gq_persistenceHealthy q \<and> gq_recoveryReady q \<and> gq_mode q = RmPaper \<and>
     \<not> gq_liveMutationAllowed q \<and> \<not> gq_killSwitchActive q \<and> gq_marketDataFresh q \<and> gq_marketHealthy q \<and>
     gq_boundary q \<noteq> RbShadow \<and> isSafeTime (gq_nowMs q) \<and> is_finite (gq_currentEquity q) \<and>
     \<not> gq_currentEquity q < Fin 0 \<and> \<not> gq_maxDailyLoss q < Fin 0 \<and> \<not> gq_maxOpenOrders q < Fin 0"
  by (simp only: request_codes_def append_is_Nil_conv if_Nil_iff de_Morgan_disj not_not conj_assoc)

lemma day_state_frame:
  "day_state day q p = (dl, p1) \<Longrightarrow>
     rk_approvals p1 = rk_approvals p \<and> rk_idempotency p1 = rk_idempotency p \<and> rk_orders p1 = rk_orders p \<and>
     dl = (case mem_loadDailyLoss (gq_accountId q) p of
        Some d \<Rightarrow> if dl_tradingDay d = day then d else \<lparr>dl_accountId = gq_accountId q, dl_tradingDay = day,
          dl_dayStartEquity = gq_currentEquity q, dl_updatedAtMs = gq_nowMs q\<rparr>
      | None \<Rightarrow> \<lparr>dl_accountId = gq_accountId q, dl_tradingDay = day,
          dl_dayStartEquity = gq_currentEquity q, dl_updatedAtMs = gq_nowMs q\<rparr>)"
  by (auto simp: day_state_def Let_def mem_saveDailyLoss_def split: option.splits if_splits)

text \<open>C12: The gate approves only a paper request made with healthy persistence and recovery, fresh and healthy market data, the kill
  switch off and no live mutation, outside the shadow boundary, at a valid time, with a finite equity that is not negative and limits that
  are not negative.  A stored approval covers the request in mode, symbol, strategy, policy, side and command, and expires later.  There are
  fewer open orders than the limit, and the loss since the recorded start of the day is not beyond the loss limit.  A limit or an expiry
  that is not a number does not limit: the comparison of the code is false for it.\<close>
theorem gate_approval_requires:
  assumes "gate_evaluate sha num_text seoul_day fp q p = (d, p')" "ge_status d = CsApproved"
  shows "gq_persistenceHealthy q \<and> gq_recoveryReady q \<and> gq_mode q = RmPaper \<and> \<not> gq_liveMutationAllowed q \<and>
    \<not> gq_killSwitchActive q \<and> gq_marketDataFresh q \<and> gq_marketHealthy q \<and> gq_boundary q \<noteq> RbShadow \<and>
    is_safe_integer (gq_nowMs q) \<and> Fin 0 \<le> gq_nowMs q \<and> is_finite (gq_currentEquity q) \<and> Fin 0 \<le> gq_currentEquity q \<and>
    \<not> gq_maxDailyLoss q < Fin 0 \<and> \<not> gq_maxOpenOrders q < Fin 0 \<and>
    (\<exists>i a. gq_approvalId q = Some i \<and> mem_loadApproval i p = Some a \<and> approval_covers q a \<and>
       (pa_expiresAtMs a \<noteq> NaN \<longrightarrow> gq_nowMs q < pa_expiresAtMs a)) \<and>
    (gq_maxOpenOrders q \<noteq> NaN \<longrightarrow>
       Fin (of_nat (countOpenOrders (mem_listOrders (gq_accountId q) p))) < gq_maxOpenOrders q) \<and>
    (\<forall>dl. mem_loadDailyLoss (gq_accountId q) p = Some dl \<and> dl_tradingDay dl = seoul_day (gq_nowMs q) \<longrightarrow>
       \<not> gq_currentEquity q - dl_dayStartEquity dl < - gq_maxDailyLoss q \<and>
       (dl_dayStartEquity dl \<noteq> NaN \<and> gq_maxDailyLoss q \<noteq> NaN \<longrightarrow> - gq_maxDailyLoss q \<le> gq_currentEquity q - dl_dayStartEquity dl))"
proof -
  obtain dl p1 where e: "day_state (seoul_day (gq_nowMs q)) q p = (dl, p1)" "evaluate_codes dl q p1 = []"
    using gate_approved [OF assms] by blast
  note fr = day_state_frame [OF e(1)]
  have c: "request_codes q = []" "\<not> gq_currentEquity q - dl_dayStartEquity dl < - gq_maxDailyLoss q"
    "\<not> gq_maxOpenOrders q \<le> Fin (of_nat (countOpenOrders (mem_listOrders (gq_accountId q) p1)))"
    "approval_codes q (case gq_approvalId q of None \<Rightarrow> None | Some i \<Rightarrow> mem_loadApproval i p1) = []"
    using e(2) unfolding evaluate_codes_def set_of_list_Nil_iff append_is_Nil_conv if_Nil_iff by blast+
  note rq = c(1) [unfolded request_codes_Nil isSafeTime_def]
  have "gq_boundary q \<noteq> RbShadow" using rq by blast
  then have "\<exists>i a. gq_approvalId q = Some i \<and> mem_loadApproval i p = Some a \<and> approval_covers q a"
    using c(4) fr by (auto simp: approval_codes_Nil mem_loadApproval_def split: option.splits)
  then have approval: "\<exists>i a. gq_approvalId q = Some i \<and> mem_loadApproval i p = Some a \<and> approval_covers q a \<and>
       (pa_expiresAtMs a \<noteq> NaN \<longrightarrow> gq_nowMs q < pa_expiresAtMs a)"
    using rq by (auto simp: approval_covers_def jless_iff_not_le)
  have "mem_listOrders (gq_accountId q) p1 = mem_listOrders (gq_accountId q) p"
    using fr by (simp add: mem_listOrders_def)
  then have orders: "gq_maxOpenOrders q \<noteq> NaN \<longrightarrow>
       Fin (of_nat (countOpenOrders (mem_listOrders (gq_accountId q) p))) < gq_maxOpenOrders q"
    using c(3) by (simp add: jless_iff_not_le)
  have equity: "is_finite (gq_currentEquity q)" "Fin 0 \<le> gq_currentEquity q"
    using rq not_jless_iff [of "gq_currentEquity q" "Fin 0"] by (cases "gq_currentEquity q"; auto)+
  have loss: "\<not> gq_currentEquity q - dl_dayStartEquity x < - gq_maxDailyLoss q \<and>
       (dl_dayStartEquity x \<noteq> NaN \<and> gq_maxDailyLoss q \<noteq> NaN \<longrightarrow> - gq_maxDailyLoss q \<le> gq_currentEquity q - dl_dayStartEquity x)"
    if "mem_loadDailyLoss (gq_accountId q) p = Some x" "dl_tradingDay x = seoul_day (gq_nowMs q)" for x
  proof -
    have n: "\<not> gq_currentEquity q - dl_dayStartEquity x < - gq_maxDailyLoss q" using that c(2) fr by simp
    moreover have "gq_currentEquity q - dl_dayStartEquity x \<noteq> NaN" if "dl_dayStartEquity x \<noteq> NaN"
      using gate_jsub_not_NaN [OF equity(1) that] .
    moreover have "- gq_maxDailyLoss q \<noteq> NaN" if "gq_maxDailyLoss q \<noteq> NaN" using that by (cases "gq_maxDailyLoss q") auto
    ultimately show ?thesis using not_jless_iff by blast
  qed
  show ?thesis using rq approval orders equity loss by blast
qed

section \<open>No command twice\<close>







definition sample_gate_request :: gate_request where
  "sample_gate_request = \<lparr>gq_accountId = ''a'', gq_requestId = ''r'', gq_boundary = RbManual, gq_mode = RmPaper,
     gq_symbol = ''S'', gq_side = GsBuy, gq_strategyId = ''MANUAL'', gq_policyFingerprint = ''f'',
     gq_approvalId = Some ''manual-u'', gq_nowMs = Fin 10, gq_currentEquity = Fin 100, gq_marketDataFresh = True,
     gq_marketHealthy = True, gq_killSwitchActive = False, gq_liveMutationAllowed = False, gq_recoveryReady = True,
     gq_persistenceHealthy = True, gq_maxDailyLoss = Fin 5, gq_maxOpenOrders = Fin 1,
     gq_idempotency = \<lparr>cl_accountId = ''a'', cl_commandId = ''c'', cl_signalId = ''s'', cl_clientOrderId = ''o'',
       cl_payloadFingerprint = '''', cl_createdAtMs = Fin 10\<rparr>\<rparr>"

definition sample_persistence :: risk_persistence where
  "sample_persistence = (case issueManualApproval ''u'' \<lparr>mi_symbol = ''S'', mi_side = GsBuy, mi_commandId = ''c'',
       mi_policyFingerprint = ''f'', mi_nowMs = Fin 5\<rparr>
     \<lparr>rk_approvals = [], rk_dailyLoss = [], rk_idempotency = [], rk_orders = []\<rparr> of Inl e \<Rightarrow> undefined | Inr (a, p) \<Rightarrow> p)"

abbreviation sample_evaluate :: "gate_request \<Rightarrow> risk_persistence \<Rightarrow> gate_decision \<times> risk_persistence" where
  "sample_evaluate \<equiv> gate_evaluate id (\<lambda>_. '''') (\<lambda>_. ''day'') (\<lambda>_. ''h'')"

lemma sample_approved: "ge_status (fst (sample_evaluate sample_gate_request sample_persistence)) = CsApproved"
  by code_simp

lemma gate_approval_requires_witness:
  "\<not> gq_killSwitchActive sample_gate_request \<and>
   (\<exists>a. mem_loadApproval ''manual-u'' sample_persistence = Some a \<and> approval_covers sample_gate_request a)"
proof -
  have i: "gq_approvalId sample_gate_request = Some i \<longleftrightarrow> i = ''manual-u''" for i by (auto simp: sample_gate_request_def)
  show ?thesis using gate_approval_requires [OF surjective_pairing sample_approved] unfolding i by blast
qed


end
