(* ===== verification/Regime.thy ===== *)
theory Regime imports Prelude begin

text \<open>
  \<open>packages/core/src/regimePolicy.ts\<close>: the classification of a price window into a trading regime and
  the exposure policy of a regime.  \<open>Math.sqrt\<close> and \<open>x ** 2\<close> are the parameters \<open>rt\<close> and \<open>square\<close>
  (the language leaves the last bit of both to the implementation).  The negative offsets of
  \<open>slice\<close> and \<open>splice\<close> are \<open>js_slice\<close> and \<open>splice_front\<close>, which keep the conversions of their
  arguments: \<open>xs.slice(-0)\<close> is the whole list.  The sign rules say which results cannot be negative
  (not even the negative zero).
\<close>

section \<open>Slices and sums\<close>

definition js_trunc :: "rat \<Rightarrow> int" where
  "js_trunc q = (if q < 0 then \<lceil>q\<rceil> else \<lfloor>q\<rfloor>)"

definition js_offset :: "nat \<Rightarrow> jsnum \<Rightarrow> nat" where
  "js_offset len x =
     (case x of PInf \<Rightarrow> len
      | Fin q \<Rightarrow> (let k = js_trunc q in if k < 0 then nat (int len + k) else min len (nat k))
      | _ \<Rightarrow> 0)"

definition js_slice :: "'a list \<Rightarrow> jsnum \<Rightarrow> 'a list" where
  "js_slice xs start = drop (js_offset (length xs) start) xs"

definition splice_front :: "'a list \<Rightarrow> jsnum \<Rightarrow> 'a list" where
  "splice_front xs count =
     drop (case count of PInf \<Rightarrow> length xs | Fin q \<Rightarrow> nat (js_trunc q) | _ \<Rightarrow> 0) xs"

definition js_sum :: "jsnum list \<Rightarrow> jsnum" where
  "js_sum xs = fold (\<lambda>x t. t + x) xs (Fin 0)"

definition js_length :: "'a list \<Rightarrow> jsnum" where
  "js_length xs = Fin (of_nat (length xs))"

section \<open>Types\<close>

datatype trading_regime =
  STRONG_UPTREND | WEAK_UPTREND | SIDEWAYS | HIGH_VOLATILITY | LOW_VOLATILITY | STRONG_DOWNTREND | WEAK_DOWNTREND

datatype regime_preference = PREFERRED | NEUTRAL | FORBIDDEN

record regime_config =
  rc_trendLookback :: jsnum
  rc_strongTrendReturn :: jsnum
  rc_weakTrendReturn :: jsnum
  rc_lowVolatility :: jsnum
  rc_highVolatility :: jsnum

record regime_profile =
  rg_positionSizeMultiplier :: jsnum
  rg_maximumExposureMultiplier :: jsnum
  rg_dailyRiskMultiplier :: jsnum
  rg_stopLossMultiplier :: jsnum
  rg_takeProfitMultiplier :: jsnum
  rg_orderFrequencyMultiplier :: jsnum

record regime_decision =
  rd_strategyId :: string
  rd_regime :: trading_regime
  rd_preference :: regime_preference
  rd_allowNewExposure :: bool
  rd_risk :: regime_profile
  rd_reason :: string

definition DEFAULT_REGIME_CONFIG :: regime_config where
  "DEFAULT_REGIME_CONFIG =
     \<lparr>rc_trendLookback = Fin 20, rc_strongTrendReturn = lit (4 / 100), rc_weakTrendReturn = lit (1 / 100),
      rc_lowVolatility = lit (1 / 1000), rc_highVolatility = lit (1 / 100)\<rparr>"

section \<open>Classification\<close>

definition assertFinitePositive :: "jsnum \<Rightarrow> string \<Rightarrow> unit result" where
  "assertFinitePositive v name =
     guard_r (\<not> is_finite v \<or> v \<le> Fin 0) (Error (name @ '' must be positive and finite'')) (Inr ())"

definition js_average :: "jsnum list \<Rightarrow> jsnum" where
  "js_average xs = js_sum xs div js_length xs"

definition standardDeviation :: "(jsnum \<Rightarrow> jsnum) \<Rightarrow> (jsnum \<Rightarrow> jsnum) \<Rightarrow> jsnum list \<Rightarrow> jsnum" where
  "standardDeviation rt square xs =
     (let mean = js_average xs in rt (js_average (map (\<lambda>v. square (v - mean)) xs)))"

definition positive_price :: "jsnum \<Rightarrow> bool" where
  "positive_price p \<longleftrightarrow> is_finite p \<and> Fin 0 < p"

definition regime_of_window ::
  "(jsnum \<Rightarrow> jsnum) \<Rightarrow> (jsnum \<Rightarrow> jsnum) \<Rightarrow> regime_config \<Rightarrow> jsnum list \<Rightarrow> trading_regime" where
  "regime_of_window rt square c w =
     (let returns = map (\<lambda>(p, prev). p div prev - Fin 1) (zip (tl w) w);
          totalReturn = last w div hd w - Fin 1;
          volatility = standardDeviation rt square returns
      in if rc_highVolatility c \<le> volatility then HIGH_VOLATILITY
         else if rc_strongTrendReturn c \<le> js_abs totalReturn
              then (if Fin 0 < totalReturn then STRONG_UPTREND else STRONG_DOWNTREND)
         else if rc_weakTrendReturn c \<le> js_abs totalReturn
              then (if Fin 0 < totalReturn then WEAK_UPTREND else WEAK_DOWNTREND)
         else if volatility \<le> rc_lowVolatility c then LOW_VOLATILITY
         else SIDEWAYS)"

definition check_regime_config :: "regime_config \<Rightarrow> unit result" where
  "check_regime_config c =
     guard_r (\<not> is_safe_integer (rc_trendLookback c) \<or> rc_trendLookback c < Fin 2)
       (Error ''trendLookback must be at least 2'')
     (bind_r (assertFinitePositive (rc_strongTrendReturn c) ''strongTrendReturn'') (\<lambda>_.
      bind_r (assertFinitePositive (rc_weakTrendReturn c) ''weakTrendReturn'') (\<lambda>_.
      bind_r (assertFinitePositive (rc_lowVolatility c) ''lowVolatility'') (\<lambda>_.
      bind_r (assertFinitePositive (rc_highVolatility c) ''highVolatility'') (\<lambda>_.
      guard_r (rc_strongTrendReturn c \<le> rc_weakTrendReturn c \<or> rc_highVolatility c \<le> rc_lowVolatility c)
        (Error ''regime thresholds are invalid'') (Inr ()))))))"

definition classifyPriceRegime ::
  "(jsnum \<Rightarrow> jsnum) \<Rightarrow> (jsnum \<Rightarrow> jsnum) \<Rightarrow> jsnum list \<Rightarrow> jsnum \<Rightarrow> regime_config \<Rightarrow> trading_regime option result" where
  "classifyPriceRegime rt square prices observedAt c =
     guard_r (\<not> is_safe_integer observedAt \<or> observedAt < Fin 0)
       (Error ''observedAt must be a non-negative safe integer'')
     (bind_r (check_regime_config c) (\<lambda>_.
      if js_length prices < rc_trendLookback c + Fin 1 then Inr None
      else (let window = js_slice prices (- (rc_trendLookback c + Fin 1))
            in guard_r (\<not> list_all positive_price window) (Error ''prices must be positive and finite'')
                 (Inr (Some (regime_of_window rt square c window))))))"

section \<open>The policy of a regime\<close>

definition regime_risk :: "jsnum \<Rightarrow> jsnum \<Rightarrow> jsnum \<Rightarrow> jsnum \<Rightarrow> jsnum \<Rightarrow> jsnum \<Rightarrow> regime_profile" where
  "regime_risk a b c d e f =
     \<lparr>rg_positionSizeMultiplier = a, rg_maximumExposureMultiplier = b, rg_dailyRiskMultiplier = c,
      rg_stopLossMultiplier = d, rg_takeProfitMultiplier = e, rg_orderFrequencyMultiplier = f\<rparr>"

definition risk_of_regime :: "trading_regime \<Rightarrow> regime_profile" where
  "risk_of_regime r =
     (if r = STRONG_UPTREND then regime_risk (Fin 1) (Fin 1) (Fin 1) (Fin 1) (Fin 1) (Fin 1)
      else if r = WEAK_UPTREND
           then regime_risk (lit (3 / 4)) (lit (3 / 4)) (lit (3 / 4)) (Fin 1) (lit (9 / 10)) (lit (3 / 4))
      else if r = SIDEWAYS \<or> r = LOW_VOLATILITY
           then regime_risk (lit (1 / 2)) (lit (1 / 2)) (lit (1 / 2)) (lit (8 / 10)) (lit (8 / 10)) (lit (1 / 2))
      else if r = HIGH_VOLATILITY
           then regime_risk (lit (1 / 4)) (lit (1 / 4)) (lit (1 / 4)) (lit (1 / 2)) (lit (3 / 4)) (lit (1 / 4))
      else if r = WEAK_DOWNTREND
           then regime_risk (lit (1 / 4)) (lit (1 / 4)) (lit (1 / 4)) (lit (3 / 4)) (lit (3 / 4)) (lit (1 / 4))
      else regime_risk (Fin 0) (Fin 0) (Fin 0) (lit (1 / 2)) (lit (1 / 2)) (Fin 0))"

definition evaluateStrategyRegime :: "string \<Rightarrow> trading_regime \<Rightarrow> regime_decision result" where
  "evaluateStrategyRegime strategyId r =
     guard_r (strategyId = []) (Error ''strategyId is required'')
     (let preferred = (r = STRONG_UPTREND \<or> r = WEAK_UPTREND);
          forbidden = (r = STRONG_DOWNTREND \<or> r = HIGH_VOLATILITY)
      in Inr \<lparr>rd_strategyId = strategyId, rd_regime = r,
              rd_preference = (if preferred then PREFERRED else if forbidden then FORBIDDEN else NEUTRAL),
              rd_allowNewExposure = (\<not> forbidden), rd_risk = risk_of_regime r,
              rd_reason = (if forbidden then ''NEW_EXPOSURE_BLOCKED_BY_REGIME''
                           else if preferred then ''TREND_REGIME_SUPPORTED'' else ''REDUCED_REGIME_EXPOSURE'')\<rparr>)"

section \<open>Lemmas\<close>

lemma js_slice_last: "js_slice xs (- Fin (of_nat (Suc n))) = drop (length xs - Suc n) xs"
  by (simp add: js_slice_def js_offset_def js_trunc_def ceiling_minus nat_diff_distrib' del: of_nat_Suc)

lemma set_js_slice: "set (js_slice xs x) \<subseteq> set xs"
  by (simp add: js_slice_def set_drop_subset)

lemma set_splice_front: "set (splice_front xs x) \<subseteq> set xs"
  by (simp add: splice_front_def set_drop_subset)

lemma positive_price_cases: "positive_price p \<longleftrightarrow> (\<exists>q. p = Fin q \<and> 0 < q)"
  by (cases p) (auto simp: positive_price_def)

lemma default_config_ok: "check_regime_config DEFAULT_REGIME_CONFIG = Inr ()"
  by code_simp

lemma classify_default:
  "classifyPriceRegime rt square prices t DEFAULT_REGIME_CONFIG =
     (if \<not> is_safe_integer t \<or> t < Fin 0 then throw ''observedAt must be a non-negative safe integer''
      else if length prices < 21 then Inr None
      else if list_all positive_price (drop (length prices - 21) prices)
           then Inr (Some (regime_of_window rt square DEFAULT_REGIME_CONFIG (drop (length prices - 21) prices)))
      else throw ''prices must be positive and finite'')"
proof -
  have l: "rc_trendLookback DEFAULT_REGIME_CONFIG + Fin 1 = Fin (of_nat (Suc 20))" by code_simp
  have "Fin (of_nat (length prices)) < Fin (of_nat (Suc 20)) \<longleftrightarrow> length prices < 21"
    by (simp only: jless_simps of_nat_less_iff) simp
  then show ?thesis unfolding classifyPriceRegime_def default_config_ok l js_slice_last
    by (simp add: js_length_def guard_r_def throw_def)
qed

lemma classify_total:
  assumes "is_safe_integer t" "\<not> t < Fin 0" "list_all positive_price prices"
  shows "\<exists>r. classifyPriceRegime rt square prices t DEFAULT_REGIME_CONFIG = Inr r"
proof -
  have "list_all positive_price (drop (length prices - 21) prices)"
    using assms(3) by (auto simp: list_all_iff dest: in_set_dropD)
  with assms show ?thesis by (simp add: classify_default)
qed

text \<open>Only the last twenty prices before the tick matter.\<close>

lemma classify_trimmed:
  "classifyPriceRegime rt square (js_slice prices (- rc_trendLookback DEFAULT_REGIME_CONFIG) @ [p]) t DEFAULT_REGIME_CONFIG =
   classifyPriceRegime rt square (prices @ [p]) t DEFAULT_REGIME_CONFIG"
proof -
  have l: "- rc_trendLookback DEFAULT_REGIME_CONFIG = - Fin (of_nat (Suc 19))" by code_simp
  have d: "drop (length (drop (length prices - 20) prices @ [p]) - 21) (drop (length prices - 20) prices @ [p]) =
           drop (length (prices @ [p]) - 21) (prices @ [p])"
    if "20 \<le> length prices"
    using that by (simp add: numeral_eq_Suc)
  show ?thesis unfolding l js_slice_last classify_default using d
    by (cases "length prices < 20") (simp_all add: numeral_eq_Suc)
qed

lemma evaluateStrategyRegime_allow:
  "sid \<noteq> [] \<Longrightarrow> \<exists>d. evaluateStrategyRegime sid r = Inr d \<and>
     rd_allowNewExposure d = (r \<noteq> STRONG_DOWNTREND \<and> r \<noteq> HIGH_VOLATILITY)"
  by (simp add: evaluateStrategyRegime_def Let_def)

section \<open>Signs\<close>

named_theorems sign_rules

definition plus_signed :: "jsnum \<Rightarrow> bool" where
  "plus_signed x \<longleftrightarrow> \<not> jneg x"

lemma plus_signed_of_rat: "0 \<le> q \<Longrightarrow> plus_signed (js_of_rat False q)"
  using js_of_rat_nonneg [of q False] by (auto simp: plus_signed_def js_of_rat_def Let_def split: if_splits)

lemma plus_signed_plus [sign_rules]: "plus_signed a \<Longrightarrow> plus_signed b \<Longrightarrow> plus_signed (a + b)"
  by (cases a; cases b) (auto simp: plus_jsnum_def plus_signed_of_rat plus_signed_def [of "Fin _"] plus_signed_def [of NInf]
      plus_signed_def [of PInf] plus_signed_def [of NaN] plus_signed_def [of NZero])

lemma plus_signed_div [sign_rules]: "plus_signed a \<Longrightarrow> plus_signed b \<Longrightarrow> plus_signed (a div b)"
  using plus_signed_of_rat by (cases a; cases b) (auto simp: plus_signed_def divide_jsnum_def Let_def jinf_def jzero_def)

lemma plus_signed_abs [sign_rules]: "plus_signed (js_abs a)"
  by (cases a) (auto simp: js_abs_def plus_signed_def)

lemma plus_signed_sub [sign_rules]: "b < a \<Longrightarrow> plus_signed (a - b)"
  using plus_signed_of_rat by (cases a; cases b) (auto simp: plus_signed_def minus_jsnum_def plus_jsnum_def split: if_splits)

lemma plus_signed_pos [sign_rules]: "Fin 0 < a \<Longrightarrow> plus_signed a"
  by (cases a) (auto simp: plus_signed_def)

lemma plus_signed_Fin [simp]: "plus_signed (Fin q) \<longleftrightarrow> 0 \<le> q"
  by (auto simp: plus_signed_def)

lemma plus_signed_numeral [sign_rules]: "plus_signed (Fin (numeral n))" "plus_signed (Fin 0)" "plus_signed (Fin 1)"
    "plus_signed (Fin (of_nat k))"
  by simp_all

lemma plus_signed_sum: "\<forall>x \<in> set xs. plus_signed x \<Longrightarrow> plus_signed t \<Longrightarrow> plus_signed (fold (\<lambda>x t. t + x) xs t)"
  by (induction xs arbitrary: t) (simp_all add: plus_signed_plus)

end
