(* ===== verification/Strategies.thy ===== *)
theory Strategies imports Regime begin

text \<open>
  The strategies of \<open>packages/core/src/strategyEngine.ts\<close>.  A class is a record of its
  configuration and its private state; \<open>onTick\<close> returns the signal and the next state.  The
  constructors check their \<open>number\<close> arguments and keep a period as \<open>nat\<close>: it is an integer from 2
  on, and is only compared with lengths or used as a factor (\<open>js_nat\<close>).  Only the regime gate can
  throw, after its inner strategy has already moved.
\<close>

section \<open>Ticks and signals\<close>

datatype signal_type = BUY | SELL | HOLD

record market_tick =
  mt_market :: string
  mt_price :: jsnum
  mt_timestamp :: jsnum

record strategy_signal =
  sg_type :: signal_type
  sg_reason :: string
  sg_confidence :: jsnum
  sg_timestamp :: jsnum
  sg_regime :: "trading_regime option"

record strategy_context =
  sc_market :: string
  sc_prices :: "jsnum list"
  sc_positionQuantity :: jsnum

definition signal_at :: "signal_type \<Rightarrow> string \<Rightarrow> jsnum \<Rightarrow> market_tick \<Rightarrow> strategy_signal" where
  "signal_at ty reason confidence t =
     \<lparr>sg_type = ty, sg_reason = reason, sg_confidence = confidence, sg_timestamp = mt_timestamp t, sg_regime = None\<rparr>"

definition closes_of :: "market_tick \<Rightarrow> strategy_context \<Rightarrow> jsnum list" where
  "closes_of t c = sc_prices c @ [mt_price t]"

definition js_nat :: "nat \<Rightarrow> jsnum" where
  "js_nat n = Fin (of_nat n)"

definition last_n :: "nat \<Rightarrow> 'a list \<Rightarrow> 'a list" where
  "last_n n xs = drop (length xs - n) xs"

definition invalid_period :: "jsnum \<Rightarrow> bool" where
  "invalid_period p \<longleftrightarrow> \<not> is_integer p \<or> p < Fin 2"

definition period_of :: "jsnum \<Rightarrow> nat" where
  "period_of p = nat \<lfloor>jval p\<rfloor>"

definition js_min_list :: "jsnum list \<Rightarrow> jsnum" where
  "js_min_list xs = fold (\<lambda>x m. js_min m x) xs PInf"

definition js_max_list :: "jsnum list \<Rightarrow> jsnum" where
  "js_max_list xs = fold (\<lambda>x m. js_max m x) xs NInf"

section \<open>SMA crossover\<close>

record sma_crossover =
  sma_shortPeriod :: nat
  sma_longPeriod :: nat
  sma_previousSpread :: "jsnum option"

definition averageLastIncludingTick :: "jsnum list \<Rightarrow> jsnum \<Rightarrow> nat \<Rightarrow> jsnum" where
  "averageLastIncludingTick prices tickPrice count =
     (let recent = last_n (count - 1) prices
      in (js_sum recent + tickPrice) div (js_length recent + Fin 1))"

definition SmaCrossoverStrategy_new :: "jsnum \<Rightarrow> jsnum \<Rightarrow> sma_crossover result" where
  "SmaCrossoverStrategy_new shortPeriod longPeriod =
     guard_r (\<not> is_integer shortPeriod \<or> \<not> is_integer longPeriod \<or> shortPeriod < Fin 2 \<or> longPeriod \<le> shortPeriod)
       (Error ''invalid SMA periods'')
       (Inr \<lparr>sma_shortPeriod = period_of shortPeriod, sma_longPeriod = period_of longPeriod, sma_previousSpread = None\<rparr>)"

definition sma_onTick :: "market_tick \<Rightarrow> strategy_context \<Rightarrow> sma_crossover \<Rightarrow> strategy_signal \<times> sma_crossover" where
  "sma_onTick t c s =
     (if length (sc_prices c) + 1 < sma_longPeriod s then (signal_at HOLD ''warming-up'' (Fin 0) t, s)
      else
        let short = averageLastIncludingTick (sc_prices c) (mt_price t) (sma_shortPeriod s);
            long = averageLastIncludingTick (sc_prices c) (mt_price t) (sma_longPeriod s);
            spread = short - long;
            s' = s\<lparr>sma_previousSpread := Some spread\<rparr>;
            strength = js_min (Fin 1) (js_abs spread div long)
        in case sma_previousSpread s of
             None \<Rightarrow> (signal_at HOLD ''baseline-established'' (Fin 0) t, s')
           | Some prior \<Rightarrow>
             (if prior \<le> Fin 0 \<and> Fin 0 < spread then (signal_at BUY ''short-SMA crossed above long-SMA'' strength t, s')
              else if Fin 0 \<le> prior \<and> spread < Fin 0
                   then (signal_at SELL ''short-SMA crossed below long-SMA'' strength t, s')
              else (signal_at HOLD ''no-cross'' strength t, s')))"

section \<open>RSI mean reversion\<close>

record rsi_mean_reversion =
  rsi_period :: nat
  rsi_oversold :: jsnum
  rsi_overbought :: jsnum
  rsi_previousRsi :: "jsnum option"

definition RsiMeanReversionStrategy_new :: "jsnum \<Rightarrow> jsnum \<Rightarrow> jsnum \<Rightarrow> rsi_mean_reversion result" where
  "RsiMeanReversionStrategy_new period oversold overbought =
     guard_r (invalid_period period) (Error ''invalid RSI period'')
     (guard_r (\<not> (Fin 0 < oversold \<and> oversold < overbought \<and> overbought < Fin 100)) (Error ''invalid RSI thresholds'')
       (Inr \<lparr>rsi_period = period_of period, rsi_oversold = oversold, rsi_overbought = overbought, rsi_previousRsi = None\<rparr>))"

definition rsi_initial :: "jsnum \<Rightarrow> jsnum \<times> jsnum \<Rightarrow> jsnum \<times> jsnum" where
  "rsi_initial change gl =
     (if Fin 0 < change then (fst gl + change, snd gl) else (fst gl, snd gl - change))"

definition rsi_smooth :: "nat \<Rightarrow> jsnum \<Rightarrow> jsnum \<times> jsnum \<Rightarrow> jsnum \<times> jsnum" where
  "rsi_smooth period change gl =
     ((fst gl * (js_nat period - Fin 1) + js_max (Fin 0) change) div js_nat period,
      (snd gl * (js_nat period - Fin 1) + js_max (Fin 0) (- change)) div js_nat period)"

definition rsi_value :: "rsi_mean_reversion \<Rightarrow> jsnum list \<Rightarrow> jsnum option" where
  "rsi_value s closes =
     (if length closes < rsi_period s + 1 then None
      else
        let changes = map (\<lambda>(b, a). b - a) (zip (tl closes) closes);
            first = fold rsi_initial (take (rsi_period s) changes) (Fin 0, Fin 0);
            (gain, loss) = fold (rsi_smooth (rsi_period s)) (drop (rsi_period s) changes)
              (fst first div js_nat (rsi_period s), snd first div js_nat (rsi_period s))
        in if js_eq loss (Fin 0) then Some (if js_eq gain (Fin 0) then Fin 50 else Fin 100)
           else Some (Fin 100 - Fin 100 div (Fin 1 + gain div loss)))"

definition rsi_onTick :: "market_tick \<Rightarrow> strategy_context \<Rightarrow> rsi_mean_reversion \<Rightarrow> strategy_signal \<times> rsi_mean_reversion" where
  "rsi_onTick t c s =
     (case rsi_value s (closes_of t c) of
        None \<Rightarrow> (signal_at HOLD ''warming-up'' (Fin 0) t, s)
      | Some v \<Rightarrow>
        let s' = s\<lparr>rsi_previousRsi := Some v\<rparr>;
            strength = js_min (Fin 1) (js_abs (v - Fin 50) div Fin 50)
        in case rsi_previousRsi s of
             None \<Rightarrow> (signal_at HOLD ''baseline-established'' (Fin 0) t, s')
           | Some prior \<Rightarrow>
             (if prior \<le> rsi_oversold s \<and> rsi_oversold s < v
              then (signal_at BUY ''rsi-recovered-from-oversold'' strength t, s')
              else if rsi_overbought s \<le> prior \<and> v < rsi_overbought s
                   then (signal_at SELL ''rsi-rejected-from-overbought'' strength t, s')
              else (signal_at HOLD ''rsi-no-signal'' strength t, s')))"

section \<open>Bollinger breakout\<close>

record bollinger_breakout =
  bb_period :: nat
  bb_multiplier :: jsnum
  bb_previousPosition :: "int option"

definition BollingerBreakoutStrategy_new :: "jsnum \<Rightarrow> jsnum \<Rightarrow> bollinger_breakout result" where
  "BollingerBreakoutStrategy_new period multiplier =
     guard_r (invalid_period period) (Error ''invalid Bollinger period'')
     (guard_r (\<not> is_finite multiplier \<or> multiplier \<le> Fin 0) (Error ''invalid Bollinger multiplier'')
       (Inr \<lparr>bb_period = period_of period, bb_multiplier = multiplier, bb_previousPosition = None\<rparr>))"

definition bollinger_onTick ::
  "(jsnum \<Rightarrow> jsnum) \<Rightarrow> (jsnum \<Rightarrow> jsnum) \<Rightarrow> market_tick \<Rightarrow> strategy_context \<Rightarrow> bollinger_breakout \<Rightarrow>
    strategy_signal \<times> bollinger_breakout" where
  "bollinger_onTick rt square t c s =
     (if length (closes_of t c) < bb_period s then (signal_at HOLD ''warming-up'' (Fin 0) t, s)
      else
        let window = last_n (bb_period s) (closes_of t c);
            mean = js_sum window div js_length window;
            variance = fold (\<lambda>p total_sq. total_sq + square (p - mean)) window (Fin 0) div js_length window;
            deviation = rt variance;
            upper = mean + bb_multiplier s * deviation;
            lower = mean - bb_multiplier s * deviation;
            position = (if upper < mt_price t then 1 else if mt_price t < lower then -1 else 0);
            s' = s\<lparr>bb_previousPosition := Some position\<rparr>
        in case bb_previousPosition s of
             None \<Rightarrow> (signal_at HOLD ''baseline-established'' (Fin 0) t, s')
           | Some prior \<Rightarrow>
             (if prior \<le> 0 \<and> position = 1
              then (signal_at BUY ''close-broke-above-upper-band''
                     (if Fin 0 < upper then js_min (Fin 1) ((mt_price t - upper) div upper) else Fin 1) t, s')
              else if 0 \<le> prior \<and> position = -1
              then (signal_at SELL ''close-broke-below-lower-band''
                     (if Fin 0 < lower then js_min (Fin 1) ((lower - mt_price t) div lower) else Fin 1) t, s')
              else (signal_at HOLD ''band-ride'' (Fin 0) t, s')))"

section \<open>MACD momentum\<close>

record macd_momentum =
  md_fastPeriod :: nat
  md_slowPeriod :: nat
  md_signalPeriod :: nat
  md_fastEma :: "jsnum option"
  md_slowEma :: "jsnum option"
  md_signalEma :: "jsnum option"
  md_previousSpread :: "jsnum option"

definition MacdMomentumStrategy_new :: "jsnum \<Rightarrow> jsnum \<Rightarrow> jsnum \<Rightarrow> macd_momentum result" where
  "MacdMomentumStrategy_new fastPeriod slowPeriod signalPeriod =
     guard_r (list_ex invalid_period [fastPeriod, slowPeriod, signalPeriod]) (Error ''invalid MACD period'')
     (guard_r (slowPeriod \<le> fastPeriod) (Error ''invalid MACD periods'')
       (Inr \<lparr>md_fastPeriod = period_of fastPeriod, md_slowPeriod = period_of slowPeriod,
             md_signalPeriod = period_of signalPeriod, md_fastEma = None, md_slowEma = None,
             md_signalEma = None, md_previousSpread = None\<rparr>))"

definition ema_factor :: "nat \<Rightarrow> jsnum" where
  "ema_factor period = Fin 2 div (js_nat period + Fin 1)"

definition ema_next :: "nat \<Rightarrow> jsnum option \<Rightarrow> jsnum \<Rightarrow> jsnum" where
  "ema_next period ema v =
     (case ema of None \<Rightarrow> v
      | Some e \<Rightarrow> v * ema_factor period + e * (Fin 1 - ema_factor period))"

definition macd_onTick :: "market_tick \<Rightarrow> strategy_context \<Rightarrow> macd_momentum \<Rightarrow> strategy_signal \<times> macd_momentum" where
  "macd_onTick t c s =
     (if length (closes_of t c) < md_slowPeriod s + md_signalPeriod s then (signal_at HOLD ''warming-up'' (Fin 0) t, s)
      else
        let fast = ema_next (md_fastPeriod s) (md_fastEma s) (mt_price t);
            slow = ema_next (md_slowPeriod s) (md_slowEma s) (mt_price t);
            macd = fast - slow;
            signal = ema_next (md_signalPeriod s) (md_signalEma s) macd;
            spread = macd - signal;
            s' = s\<lparr>md_fastEma := Some fast, md_slowEma := Some slow, md_signalEma := Some signal,
                   md_previousSpread := Some spread\<rparr>;
            confidence = js_min (Fin 1) (js_abs spread div (if Fin 0 < mt_price t then mt_price t else Fin 1))
        in case md_previousSpread s of
             None \<Rightarrow> (signal_at HOLD ''baseline-established'' (Fin 0) t, s')
           | Some prior \<Rightarrow>
             (if prior \<le> Fin 0 \<and> Fin 0 < spread then (signal_at BUY ''macd-crossed-above-signal'' confidence t, s')
              else if Fin 0 \<le> prior \<and> spread < Fin 0
                   then (signal_at SELL ''macd-crossed-below-signal'' confidence t, s')
              else (signal_at HOLD ''macd-no-cross'' confidence t, s')))"

section \<open>Stochastic oscillator\<close>

record stochastic_oscillator =
  so_kPeriod :: nat
  so_dPeriod :: nat
  so_oversold :: jsnum
  so_overbought :: jsnum
  so_previousPosition :: "int option"

definition StochasticOscillatorStrategy_new :: "jsnum \<Rightarrow> jsnum \<Rightarrow> jsnum \<Rightarrow> jsnum \<Rightarrow> stochastic_oscillator result" where
  "StochasticOscillatorStrategy_new kPeriod dPeriod oversold overbought =
     guard_r (list_ex invalid_period [kPeriod, dPeriod]) (Error ''invalid Stochastic period'')
     (guard_r (\<not> (Fin 0 < oversold \<and> oversold < overbought \<and> overbought < Fin 100))
       (Error ''invalid Stochastic thresholds'')
       (Inr \<lparr>so_kPeriod = period_of kPeriod, so_dPeriod = period_of dPeriod, so_oversold = oversold,
             so_overbought = overbought, so_previousPosition = None\<rparr>))"

definition percentK_at :: "jsnum list \<Rightarrow> jsnum" where
  "percentK_at window =
     (let lowest = js_min_list window; highest = js_max_list window
      in if js_eq highest lowest then Fin 50 else ((last window - lowest) div (highest - lowest)) * Fin 100)"

definition percentK :: "stochastic_oscillator \<Rightarrow> jsnum list \<Rightarrow> jsnum list" where
  "percentK s closes =
     map (\<lambda>end_ix. percentK_at (drop (end_ix - so_kPeriod s) (take end_ix closes))) [so_kPeriod s ..< length closes + 1]"

definition stochastic_onTick ::
  "market_tick \<Rightarrow> strategy_context \<Rightarrow> stochastic_oscillator \<Rightarrow> strategy_signal \<times> stochastic_oscillator" where
  "stochastic_onTick t c s =
     (if length (closes_of t c) < so_kPeriod s + so_dPeriod s - 1 then (signal_at HOLD ''warming-up'' (Fin 0) t, s)
      else
        let kSeries = percentK s (closes_of t c);
            d = js_sum (last_n (so_dPeriod s) kSeries) div js_nat (so_dPeriod s);
            k = last kSeries;
            position = (if k < so_oversold s then -1 else if so_overbought s < k then 1 else 0);
            s' = s\<lparr>so_previousPosition := Some position\<rparr>;
            strength = js_min (Fin 1) (js_abs (k - d) div Fin 100 + js_abs (k - Fin 50) div Fin 100)
        in case so_previousPosition s of
             None \<Rightarrow> (signal_at HOLD ''baseline-established'' (Fin 0) t, s')
           | Some prior \<Rightarrow>
             (if prior = -1 \<and> so_oversold s \<le> k
              then (signal_at BUY ''stochastic-recovered-from-oversold'' strength t, s')
              else if prior = 1 \<and> k \<le> so_overbought s
                   then (signal_at SELL ''stochastic-rejected-from-overbought'' strength t, s')
              else (signal_at HOLD ''stochastic-no-signal'' strength t, s')))"

section \<open>Donchian breakout\<close>

record donchian_breakout =
  dc_channelPeriod :: nat
  dc_previousPosition :: "int option"

definition DonchianBreakoutStrategy_new :: "jsnum \<Rightarrow> donchian_breakout result" where
  "DonchianBreakoutStrategy_new channelPeriod =
     guard_r (invalid_period channelPeriod) (Error ''invalid Donchian period'')
       (Inr \<lparr>dc_channelPeriod = period_of channelPeriod, dc_previousPosition = None\<rparr>)"

definition donchian_onTick :: "market_tick \<Rightarrow> strategy_context \<Rightarrow> donchian_breakout \<Rightarrow> strategy_signal \<times> donchian_breakout" where
  "donchian_onTick t c s =
     (if length (closes_of t c) < dc_channelPeriod s + 1 then (signal_at HOLD ''warming-up'' (Fin 0) t, s)
      else
        let channel = butlast (last_n (dc_channelPeriod s + 1) (closes_of t c));
            highest = js_max_list channel;
            lowest = js_min_list channel;
            position = (if highest < mt_price t then 1 else if mt_price t < lowest then -1 else 0);
            s' = s\<lparr>dc_previousPosition := Some position\<rparr>;
            width = highest - lowest;
            confidence = (if Fin 0 < width
                          then js_min (Fin 1) (js_abs (mt_price t - (highest + lowest) div Fin 2) div width) else Fin 0)
        in case dc_previousPosition s of
             None \<Rightarrow> (signal_at HOLD ''baseline-established'' (Fin 0) t, s')
           | Some prior \<Rightarrow>
             (if prior \<le> 0 \<and> position = 1
              then (signal_at BUY ''close-broke-above-donchian-channel'' confidence t, s')
              else if 0 \<le> prior \<and> position = -1
                   then (signal_at SELL ''close-broke-below-donchian-channel'' confidence t, s')
              else (signal_at HOLD ''channel-ride'' (Fin 0) t, s')))"

end
