(* ===== verification/StrategyEngine.thy ===== *)
theory StrategyEngine imports Strategies begin

text \<open>
  The regime gate and the engine of \<open>packages/core/src/strategyEngine.ts\<close>.  \<open>strategy\<close> is the
  \<open>TradingStrategy\<close> of the repository: the six strategies of \<open>Strategies\<close> and the gate around any of
  them.  The engine is polymorphic in the strategy it drives, whose \<open>onTick\<close> and \<open>reset\<close> are its
  parameters; \<open>trading_strategy\<close> and \<open>gated_strategy\<close> state what it relies on, and \<open>strategies\<close> and
  \<open>gates\<close> are their interpretations on the model.  The text of a number is the parameter \<open>num_text\<close>.
\<close>

section \<open>The strategies and the regime gate\<close>

datatype strategy =
  SmaCrossover sma_crossover | RsiMeanReversion rsi_mean_reversion | BollingerBreakout bollinger_breakout
| MacdMomentum macd_momentum | StochasticOscillator stochastic_oscillator | DonchianBreakout donchian_breakout
| RegimeGated strategy "trading_regime list"

primrec strategy_id :: "strategy \<Rightarrow> string" where
  "strategy_id (SmaCrossover s) = ''sma-crossover''"
| "strategy_id (RsiMeanReversion s) = ''rsi-mean-reversion''"
| "strategy_id (BollingerBreakout s) = ''bollinger-breakout''"
| "strategy_id (MacdMomentum s) = ''macd-momentum''"
| "strategy_id (StochasticOscillator s) = ''stochastic-oscillator''"
| "strategy_id (DonchianBreakout s) = ''donchian-breakout''"
| "strategy_id (RegimeGated inner blocked) = strategy_id inner @ ''+regime-gate''"

primrec strategy_name :: "strategy \<Rightarrow> string" where
  "strategy_name (SmaCrossover s) = ''SMA Crossover''"
| "strategy_name (RsiMeanReversion s) = ''RSI Mean Reversion''"
| "strategy_name (BollingerBreakout s) = ''Bollinger Breakout''"
| "strategy_name (MacdMomentum s) = ''MACD Momentum''"
| "strategy_name (StochasticOscillator s) = ''Stochastic Oscillator''"
| "strategy_name (DonchianBreakout s) = ''Donchian Breakout''"
| "strategy_name (RegimeGated inner blocked) = strategy_name inner @ '' + Regime Gate''"

primrec strategy_reset :: "strategy \<Rightarrow> strategy" where
  "strategy_reset (SmaCrossover s) = SmaCrossover (s\<lparr>sma_previousSpread := None\<rparr>)"
| "strategy_reset (RsiMeanReversion s) = RsiMeanReversion (s\<lparr>rsi_previousRsi := None\<rparr>)"
| "strategy_reset (BollingerBreakout s) = BollingerBreakout (s\<lparr>bb_previousPosition := None\<rparr>)"
| "strategy_reset (MacdMomentum s) =
     MacdMomentum (s\<lparr>md_fastEma := None, md_slowEma := None, md_signalEma := None, md_previousSpread := None\<rparr>)"
| "strategy_reset (StochasticOscillator s) = StochasticOscillator (s\<lparr>so_previousPosition := None\<rparr>)"
| "strategy_reset (DonchianBreakout s) = DonchianBreakout (s\<lparr>dc_previousPosition := None\<rparr>)"
| "strategy_reset (RegimeGated inner blocked) = RegimeGated (strategy_reset inner) blocked"

fun regime_name :: "trading_regime \<Rightarrow> string" where
  "regime_name STRONG_UPTREND = ''STRONG_UPTREND''" | "regime_name WEAK_UPTREND = ''WEAK_UPTREND''"
| "regime_name SIDEWAYS = ''SIDEWAYS''" | "regime_name HIGH_VOLATILITY = ''HIGH_VOLATILITY''"
| "regime_name LOW_VOLATILITY = ''LOW_VOLATILITY''" | "regime_name STRONG_DOWNTREND = ''STRONG_DOWNTREND''"
| "regime_name WEAK_DOWNTREND = ''WEAK_DOWNTREND''"

definition gate_regimes :: "trading_regime list" where
  "gate_regimes = [STRONG_UPTREND, WEAK_UPTREND, SIDEWAYS, LOW_VOLATILITY, HIGH_VOLATILITY, STRONG_DOWNTREND, WEAK_DOWNTREND]"

definition RegimeGatedStrategy_new :: "strategy \<Rightarrow> trading_regime list option \<Rightarrow> strategy result" where
  "RegimeGatedStrategy_new inner blockedRegimes =
     bind_r (case blockedRegimes of
               Some b \<Rightarrow> Inr b
             | None \<Rightarrow> bind_r (map_r (\<lambda>r. bind_r (evaluateStrategyRegime (strategy_id inner) r)
                                         (\<lambda>d. Inr (r, rd_allowNewExposure d))) gate_regimes)
                         (\<lambda>ds. Inr (map fst (filter (\<lambda>d. \<not> snd d) ds))))
       (\<lambda>blocked. Inr (RegimeGated inner (set_of_list blocked)))"

definition gate_onTick ::
  "(jsnum \<Rightarrow> jsnum) \<Rightarrow> (jsnum \<Rightarrow> jsnum) \<Rightarrow> trading_regime list \<Rightarrow> market_tick \<Rightarrow> strategy_context \<Rightarrow>
    strategy_signal result \<Rightarrow> strategy_signal result" where
  "gate_onTick rt square blocked t c inner_signal =
     bind_r inner_signal (\<lambda>g.
       if sg_type g \<noteq> BUY then Inr g
       else bind_r (classifyPriceRegime rt square (closes_of t c) (mt_timestamp t) DEFAULT_REGIME_CONFIG) (\<lambda>regime.
         case regime of
           None \<Rightarrow> Inr g
         | Some r \<Rightarrow> if r \<in> set blocked then Inr (signal_at HOLD (''regime-gated:'' @ regime_name r) (Fin 0) t) else Inr g))"

primrec strategy_onTick ::
  "(jsnum \<Rightarrow> jsnum) \<Rightarrow> (jsnum \<Rightarrow> jsnum) \<Rightarrow> market_tick \<Rightarrow> strategy_context \<Rightarrow> strategy \<Rightarrow>
    strategy_signal result \<times> strategy" where
  "strategy_onTick rt square t c (SmaCrossover s) = map_prod Inr SmaCrossover (sma_onTick t c s)"
| "strategy_onTick rt square t c (RsiMeanReversion s) = map_prod Inr RsiMeanReversion (rsi_onTick t c s)"
| "strategy_onTick rt square t c (BollingerBreakout s) = map_prod Inr BollingerBreakout (bollinger_onTick rt square t c s)"
| "strategy_onTick rt square t c (MacdMomentum s) = map_prod Inr MacdMomentum (macd_onTick t c s)"
| "strategy_onTick rt square t c (StochasticOscillator s) = map_prod Inr StochasticOscillator (stochastic_onTick t c s)"
| "strategy_onTick rt square t c (DonchianBreakout s) = map_prod Inr DonchianBreakout (donchian_onTick t c s)"
| "strategy_onTick rt square t c (RegimeGated inner blocked) =
     map_prod (gate_onTick rt square blocked t c) (\<lambda>i. RegimeGated i blocked) (strategy_onTick rt square t c inner)"

section \<open>The engine\<close>

record 's strategy_engine =
  se_prices :: "jsnum list"
  se_signalHistory :: "strategy_signal list"
  se_running :: bool
  se_latestSignal :: "strategy_signal option"
  se_lastTickKey :: "string option"
  se_strategy :: 's
  se_maxHistory :: jsnum
  se_maxSignalHistory :: jsnum

definition StrategyEngine_new :: "'s \<Rightarrow> jsnum \<Rightarrow> jsnum \<Rightarrow> 's strategy_engine" where
  "StrategyEngine_new s maxHistory maxSignalHistory =
     \<lparr>se_prices = [], se_signalHistory = [], se_running = False, se_latestSignal = None, se_lastTickKey = None,
      se_strategy = s, se_maxHistory = maxHistory, se_maxSignalHistory = maxSignalHistory\<rparr>"

definition engine_restoreRunning :: "bool \<Rightarrow> 's strategy_engine \<Rightarrow> 's strategy_engine" where
  "engine_restoreRunning r e = e\<lparr>se_running := r\<rparr>"

definition engine_start :: "'s strategy_engine \<Rightarrow> 's strategy_engine" where
  "engine_start e = e\<lparr>se_running := True\<rparr>"

definition engine_stop :: "'s strategy_engine \<Rightarrow> 's strategy_engine" where
  "engine_stop e = e\<lparr>se_running := False\<rparr>"

definition engine_restoreHistory :: "jsnum list \<Rightarrow> 's strategy_engine \<Rightarrow> 's strategy_engine result" where
  "engine_restoreHistory prices e =
     guard_r (\<not> list_all positive_price prices) (Error ''restored price history must contain only positive finite numbers'')
       (Inr (e\<lparr>se_prices := js_slice prices (- se_maxHistory e)\<rparr>))"

definition engine_setStrategy :: "('s \<Rightarrow> 's) \<Rightarrow> 's \<Rightarrow> 's strategy_engine \<Rightarrow> 's strategy_engine" where
  "engine_setStrategy reset s e =
     e\<lparr>se_strategy := reset s, se_prices := [], se_signalHistory := [], se_latestSignal := None, se_lastTickKey := None\<rparr>"

definition trim_front :: "jsnum \<Rightarrow> 'a list \<Rightarrow> 'a list" where
  "trim_front limit xs = (if limit < js_length xs then splice_front xs (js_length xs - limit) else xs)"

definition tick_key :: "(jsnum \<Rightarrow> string) \<Rightarrow> market_tick \<Rightarrow> string" where
  "tick_key num_text t = mt_market t @ '':'' @ num_text (mt_timestamp t) @ '':'' @ num_text (mt_price t)"

definition same_state :: "strategy_signal \<Rightarrow> strategy_signal \<Rightarrow> bool" where
  "same_state a b \<longleftrightarrow> sg_type a = sg_type b \<and> sg_reason a = sg_reason b"

definition note_transition :: "jsnum \<Rightarrow> strategy_signal \<Rightarrow> strategy_signal list \<Rightarrow> strategy_signal list" where
  "note_transition limit g hist =
     (if hist = [] \<or> \<not> same_state (last hist) g then trim_front limit (hist @ [g]) else hist)"

definition engine_record ::
  "string \<Rightarrow> jsnum \<Rightarrow> strategy_signal \<Rightarrow> 's \<Rightarrow> 's strategy_engine \<Rightarrow> 's strategy_engine" where
  "engine_record key price g s e =
     e\<lparr>se_strategy := s, se_prices := trim_front (se_maxHistory e) (se_prices e @ [price]),
       se_signalHistory := note_transition (se_maxSignalHistory e) g (se_signalHistory e),
       se_latestSignal := Some g, se_lastTickKey := Some key\<rparr>"

definition engine_onTick ::
  "(jsnum \<Rightarrow> string) \<Rightarrow> (jsnum \<Rightarrow> jsnum) \<Rightarrow> (jsnum \<Rightarrow> jsnum) \<Rightarrow>
    (market_tick \<Rightarrow> strategy_context \<Rightarrow> 's \<Rightarrow> strategy_signal result \<times> 's) \<Rightarrow>
    market_tick \<Rightarrow> jsnum \<Rightarrow> 's strategy_engine \<Rightarrow> strategy_signal result \<times> 's strategy_engine" where
  "engine_onTick num_text rt square onTick t positionQuantity e =
     (if \<not> is_finite (mt_price t) \<or> mt_price t \<le> Fin 0 then (throw ''tick price must be positive'', e)
      else if \<not> is_safe_integer (mt_timestamp t) \<or> mt_timestamp t < Fin 0
           then (throw ''tick timestamp must be a non-negative integer'', e)
      else case (if se_lastTickKey e = Some (tick_key num_text t) then se_latestSignal e else None) of
        Some g \<Rightarrow> (Inr g, e)
      | None \<Rightarrow>
        (case classifyPriceRegime rt square
                (js_slice (se_prices e) (- rc_trendLookback DEFAULT_REGIME_CONFIG) @ [mt_price t])
                (mt_timestamp t) DEFAULT_REGIME_CONFIG of
           Inl x \<Rightarrow> (Inl x, e)
         | Inr regime \<Rightarrow>
           (case (if se_running e
                  then onTick t \<lparr>sc_market = mt_market t, sc_prices = se_prices e, sc_positionQuantity = positionQuantity\<rparr>
                         (se_strategy e)
                  else (Inr (signal_at HOLD ''strategy-stopped'' (Fin 0) t), se_strategy e)) of
              (Inl x, s) \<Rightarrow> (Inl x, e\<lparr>se_strategy := s\<rparr>)
            | (Inr g, s) \<Rightarrow>
              (let g' = (case regime of None \<Rightarrow> g | Some r \<Rightarrow> g\<lparr>sg_regime := Some r\<rparr>)
               in (Inr g', engine_record (tick_key num_text t) (mt_price t) g' s e)))))"

datatype 's engine_op =
  EoStart | EoStop | EoRestoreRunning bool | EoRestoreHistory "jsnum list" | EoSetStrategy 's | EoTick market_tick jsnum

definition engine_step ::
  "(jsnum \<Rightarrow> string) \<Rightarrow> (jsnum \<Rightarrow> jsnum) \<Rightarrow> (jsnum \<Rightarrow> jsnum) \<Rightarrow>
    (market_tick \<Rightarrow> strategy_context \<Rightarrow> 's \<Rightarrow> strategy_signal result \<times> 's) \<Rightarrow> ('s \<Rightarrow> 's) \<Rightarrow>
    's engine_op \<Rightarrow> 's strategy_engine \<Rightarrow> 's strategy_engine" where
  "engine_step num_text rt square onTick reset op e =
     (case op of
        EoStart \<Rightarrow> engine_start e
      | EoStop \<Rightarrow> engine_stop e
      | EoRestoreRunning r \<Rightarrow> engine_restoreRunning r e
      | EoRestoreHistory ps \<Rightarrow> (case engine_restoreHistory ps e of Inl x \<Rightarrow> e | Inr e' \<Rightarrow> e')
      | EoSetStrategy s \<Rightarrow> engine_setStrategy reset s e
      | EoTick t q \<Rightarrow> snd (engine_onTick num_text rt square onTick t q e))"

section \<open>Every strategy returns a well-formed signal\<close>

definition valid_tick :: "market_tick \<Rightarrow> bool" where
  "valid_tick t \<longleftrightarrow> positive_price (mt_price t) \<and> is_safe_integer (mt_timestamp t) \<and> \<not> mt_timestamp t < Fin 0"

definition confidence_ok :: "jsnum \<Rightarrow> bool" where
  "confidence_ok x \<longleftrightarrow> x = NaN \<or> Fin 0 \<le> x \<and> x \<le> Fin 1"

definition signal_ok :: "market_tick \<Rightarrow> strategy_signal \<Rightarrow> bool" where
  "signal_ok t g \<longleftrightarrow> confidence_ok (sg_confidence g) \<and> sg_timestamp g = mt_timestamp t \<and> sg_regime g = None"

lemma confidence_bounds [sign_rules]: "confidence_ok (Fin 0)" "confidence_ok (Fin 1)"
  by (simp_all add: confidence_ok_def)

lemma confidence_min [sign_rules]: "plus_signed x \<Longrightarrow> confidence_ok (js_min (Fin 1) x)"
  by (cases x) (auto simp: plus_signed_def confidence_ok_def js_min_def jzero_def)

lemma signal_ok_at: "confidence_ok x \<Longrightarrow> signal_ok t (signal_at ty reason x t)"
  by (simp add: signal_ok_def signal_at_def)

lemma positive_price_alt: "positive_price p \<longleftrightarrow> is_finite p \<and> \<not> p \<le> Fin 0"
  by (cases p) (auto simp: positive_price_def)

lemma positive_plus_signed: "positive_price p \<Longrightarrow> plus_signed p"
  by (auto simp: positive_price_cases)

lemma average_plus_signed:
  assumes "list_all positive_price ps" "positive_price p"
  shows "plus_signed (averageLastIncludingTick ps p n)"
proof -
  have "\<forall>x \<in> set (last_n (n - 1) ps). plus_signed x"
    using assms(1) by (auto simp: last_n_def list_all_iff positive_plus_signed dest: in_set_dropD)
  then have "plus_signed (js_sum (last_n (n - 1) ps))" unfolding js_sum_def by (rule plus_signed_sum) simp
  moreover have "plus_signed (js_length (last_n (n - 1) ps) + Fin 1)"
    unfolding js_length_def by (intro plus_signed_plus) simp_all
  ultimately show ?thesis unfolding averageLastIncludingTick_def Let_def
    using positive_plus_signed [OF assms(2)] by (blast intro: plus_signed_div plus_signed_plus)
qed

lemma sma_signal_ok:
  assumes "valid_tick t" "list_all positive_price (sc_prices c)"
  shows "signal_ok t (fst (sma_onTick t c s))"
  using average_plus_signed [OF assms(2)] assms(1)
  by (auto simp: sma_onTick_def Let_def valid_tick_def split: option.split intro!: signal_ok_at intro: sign_rules)

lemma rsi_signal_ok: "signal_ok t (fst (rsi_onTick t c s))"
  by (auto simp: rsi_onTick_def Let_def split: option.split intro!: signal_ok_at intro: sign_rules)

lemma bollinger_signal_ok: "signal_ok t (fst (bollinger_onTick rt square t c s))"
  by (auto simp: bollinger_onTick_def Let_def split: option.split split: if_splits intro!: signal_ok_at intro: sign_rules)

lemma macd_signal_ok: "signal_ok t (fst (macd_onTick t c s))"
  by (auto simp: macd_onTick_def Let_def split: option.split intro!: signal_ok_at intro: sign_rules)

lemma stochastic_signal_ok: "signal_ok t (fst (stochastic_onTick t c s))"
  by (auto simp: stochastic_onTick_def Let_def split: option.split intro!: signal_ok_at intro: sign_rules)

lemma donchian_signal_ok: "signal_ok t (fst (donchian_onTick t c s))"
  by (auto simp: donchian_onTick_def Let_def split: option.split intro!: signal_ok_at intro: sign_rules)

lemma strategy_onTick_returns:
  assumes "valid_tick t" "list_all positive_price (sc_prices c)"
  shows "\<exists>g s'. strategy_onTick rt square t c s = (Inr g, s') \<and> signal_ok t g"
proof (induction s)
  case (RegimeGated inner blocked)
  then obtain g s' where g: "strategy_onTick rt square t c inner = (Inr g, s')" "signal_ok t g" by blast
  have "list_all positive_price (closes_of t c)" using assms by (simp add: closes_of_def valid_tick_def)
  then obtain r where "classifyPriceRegime rt square (closes_of t c) (mt_timestamp t) DEFAULT_REGIME_CONFIG = Inr r"
    using classify_total assms(1) unfolding valid_tick_def by blast
  then show ?case using g by (auto simp: gate_onTick_def split: option.split intro: signal_ok_at confidence_bounds)
qed (simp_all add: map_prod_def split: prod.split,
     metis fst_conv sma_signal_ok [OF assms], metis fst_conv rsi_signal_ok, metis fst_conv bollinger_signal_ok,
     metis fst_conv macd_signal_ok, metis fst_conv stochastic_signal_ok, metis fst_conv donchian_signal_ok)

section \<open>What the engine relies on\<close>

locale trading_strategy =
  fixes onTick :: "market_tick \<Rightarrow> strategy_context \<Rightarrow> 's \<Rightarrow> strategy_signal result \<times> 's"
    and reset :: "'s \<Rightarrow> 's"
  assumes returns: "valid_tick t \<Longrightarrow> list_all positive_price (sc_prices c) \<Longrightarrow>
    \<exists>g s'. onTick t c s = (Inr g, s') \<and> signal_ok t g"
begin

lemma engine_returns:
  assumes "valid_tick t" "list_all positive_price (se_prices e)" "\<forall>g. se_latestSignal e = Some g \<longrightarrow> confidence_ok (sg_confidence g)"
  shows "\<exists>g e'. engine_onTick num_text rt square onTick t q e = (Inr g, e') \<and> confidence_ok (sg_confidence g)"
proof (cases "if se_lastTickKey e = Some (tick_key num_text t) then se_latestSignal e else None")
  case (Some g)
  then have "se_latestSignal e = Some g" by (simp split: if_splits)
  then show ?thesis using assms Some by (simp add: engine_onTick_def valid_tick_def positive_price_cases) force
next
  case None
  let ?c = "\<lparr>sc_market = mt_market t, sc_prices = se_prices e, sc_positionQuantity = q\<rparr>"
  have "list_all positive_price (js_slice (se_prices e) (- rc_trendLookback DEFAULT_REGIME_CONFIG) @ [mt_price t])"
    using assms(1,2) set_js_slice by (fastforce simp: list_all_iff valid_tick_def)
  then obtain r where r: "classifyPriceRegime rt square
      (js_slice (se_prices e) (- rc_trendLookback DEFAULT_REGIME_CONFIG) @ [mt_price t]) (mt_timestamp t)
      DEFAULT_REGIME_CONFIG = Inr r"
    using classify_total assms(1) unfolding valid_tick_def by blast
  obtain g s' where g: "onTick t ?c (se_strategy e) = (Inr g, s')" "signal_ok t g"
    using returns [OF assms(1), of ?c "se_strategy e"] assms(2) by auto
  from assms(1) have p: "is_finite (mt_price t)" "\<not> mt_price t \<le> Fin 0" "is_safe_integer (mt_timestamp t)"
    "\<not> mt_timestamp t < Fin 0"
    by (auto simp: valid_tick_def positive_price_cases)
  show ?thesis unfolding engine_onTick_def None r using p g
    by (auto simp: Let_def signal_ok_def signal_at_def confidence_bounds split: option.split)
qed

end

section \<open>The invariant of the engine\<close>

definition fits :: "jsnum \<Rightarrow> 'a list \<Rightarrow> bool" where
  "fits limit xs \<longleftrightarrow> (\<forall>m. limit = Fin (of_nat m) \<and> 0 < m \<and> m < 2 ^ 52 \<longrightarrow> length xs \<le> m)"

definition engine_inv :: "('s \<Rightarrow> trading_regime list) \<Rightarrow> 's strategy_engine \<Rightarrow> bool" where
  "engine_inv blocked e \<longleftrightarrow>
     list_all positive_price (se_prices e) \<and> fits (se_maxHistory e) (se_prices e) \<and>
     successively (\<lambda>a b. \<not> same_state a b) (se_signalHistory e) \<and> fits (se_maxSignalHistory e) (se_signalHistory e) \<and>
     (\<forall>g. se_latestSignal e = Some g \<longrightarrow> confidence_ok (sg_confidence g) \<and>
        (\<forall>r. sg_type g = BUY \<and> sg_regime g = Some r \<longrightarrow> r \<notin> set (blocked (se_strategy e))))"

lemma trim_front_drop: "\<exists>k. trim_front limit xs = drop k xs"
  by (auto simp: trim_front_def splice_front_def intro: exI [of _ 0])

lemma fits_trim:
  assumes "fits limit xs"
  shows "fits limit (trim_front limit (xs @ [x]))"
  unfolding fits_def
proof (intro allI impI)
  fix m assume m: "limit = Fin (of_nat m) \<and> 0 < m \<and> m < 2 ^ 52"
  then have l: "length xs \<le> m" using assms by (simp add: fits_def)
  have "js_length (xs @ [x]) - limit = Fin 1" if "length xs = m"
  proof -
    have "jis (js_length (xs @ [x]) - limit) (int (Suc m) - int m)"
      unfolding js_length_def using m that by (intro jis_sub) (simp_all del: of_nat_Suc)
    then show ?thesis by (auto simp: jis_def elim: is_finite.elims)
  qed
  then show "length (trim_front limit (xs @ [x])) \<le> m"
    using l m by (cases "length xs = m") (auto simp: trim_front_def splice_front_def js_trunc_def js_length_def simp del: of_nat_Suc)
qed

lemma successively_drop: "successively P xs \<Longrightarrow> successively P (drop k xs)"
  by (metis append_take_drop_id successively_append_iff)

lemma successively_note:
  "successively (\<lambda>a b. \<not> same_state a b) h \<Longrightarrow> successively (\<lambda>a b. \<not> same_state a b) (note_transition limit g h)"
proof (cases "h = [] \<or> \<not> same_state (last h) g")
  case True
  assume "successively (\<lambda>a b. \<not> same_state a b) h"
  then have "successively (\<lambda>a b. \<not> same_state a b) (h @ [g])" using True by (auto simp: successively_append_iff)
  then show ?thesis using True trim_front_drop [of limit "h @ [g]"]
    by (simp only: note_transition_def if_True) (metis successively_drop)
qed (simp add: note_transition_def)

lemma fits_note: "fits limit h \<Longrightarrow> fits limit (note_transition limit g h)"
  by (simp add: note_transition_def fits_trim)

lemma fits_Nil [simp]: "fits limit []"
  by (simp add: fits_def)

lemma fits_slice: "fits limit (js_slice xs (- limit))"
  unfolding fits_def
proof (intro allI impI)
  fix m assume m: "limit = Fin (of_nat m) \<and> 0 < m \<and> m < 2 ^ 52"
  then obtain n where "m = Suc n" by (cases m) auto
  moreover have "limit = Fin (of_nat (Suc n))" using m \<open>m = Suc n\<close> by simp
  ultimately show "length (js_slice xs (- limit)) \<le> m" by (simp only: js_slice_last length_drop)
qed

lemma engine_record_inv:
  assumes "engine_inv blocked e" "positive_price p" "confidence_ok (sg_confidence g)"
    "\<forall>r. sg_type g = BUY \<and> sg_regime g = Some r \<longrightarrow> r \<notin> set (blocked s)"
  shows "engine_inv blocked (engine_record key p g s e)"
proof -
  obtain k where "trim_front (se_maxHistory e) (se_prices e @ [p]) = drop k (se_prices e @ [p])"
    using trim_front_drop by blast
  moreover have "list_all positive_price (drop k (se_prices e @ [p]))"
    using assms(1,2) by (auto simp: engine_inv_def list_all_iff dest!: in_set_dropD)
  moreover have "fits (se_maxHistory e) (trim_front (se_maxHistory e) (se_prices e @ [p]))"
    using assms(1) by (intro fits_trim) (simp add: engine_inv_def)
  ultimately show ?thesis using assms
    by (simp add: engine_inv_def engine_record_def successively_note fits_note)
qed

definition keeps_strategy :: "'s engine_op \<Rightarrow> bool" where
  "keeps_strategy op \<longleftrightarrow> (case op of EoSetStrategy s \<Rightarrow> False | _ \<Rightarrow> True)"

interpretation strategies: trading_strategy "strategy_onTick rt square" strategy_reset for rt square
  by unfold_locales (rule strategy_onTick_returns)

locale gated_strategy = trading_strategy onTick reset
  for onTick :: "market_tick \<Rightarrow> strategy_context \<Rightarrow> 's \<Rightarrow> strategy_signal result \<times> 's" and reset :: "'s \<Rightarrow> 's" +
  fixes rt square :: "jsnum \<Rightarrow> jsnum" and blocked :: "'s \<Rightarrow> trading_regime list"
  assumes gate: "onTick t c s = (Inr g, s') \<Longrightarrow> sg_type g = BUY \<Longrightarrow>
      classifyPriceRegime rt square (closes_of t c) (mt_timestamp t) DEFAULT_REGIME_CONFIG = Inr (Some r) \<Longrightarrow>
      r \<notin> set (blocked s)"
    and blocked_step: "onTick t c s = (out, s') \<Longrightarrow> blocked s' = blocked s"
begin

lemma engine_tick_inv:
  assumes inv: "engine_inv blocked e" and v: "valid_tick t"
  shows "\<exists>g e'. engine_onTick num_text rt square onTick t q e = (Inr g, e') \<and> engine_inv blocked e' \<and>
    se_latestSignal e' = Some g \<and> blocked (se_strategy e') = blocked (se_strategy e)"
proof (cases "if se_lastTickKey e = Some (tick_key num_text t) then se_latestSignal e else None")
  case (Some g)
  then have "se_latestSignal e = Some g" by (simp split: if_splits)
  then show ?thesis using assms Some by (auto simp: engine_onTick_def valid_tick_def positive_price_cases)
next
  case None
  let ?c = "\<lparr>sc_market = mt_market t, sc_prices = se_prices e, sc_positionQuantity = q\<rparr>"
  have pos: "list_all positive_price (se_prices e @ [mt_price t])"
    using inv v by (simp add: engine_inv_def valid_tick_def)
  then obtain r where r: "classifyPriceRegime rt square (se_prices e @ [mt_price t]) (mt_timestamp t) DEFAULT_REGIME_CONFIG = Inr r"
    using classify_total v unfolding valid_tick_def by blast
  obtain g s' where g: "(if se_running e then onTick t ?c (se_strategy e)
      else (Inr (signal_at HOLD ''strategy-stopped'' (Fin 0) t), se_strategy e)) = (Inr g, s')" "signal_ok t g"
    using returns [OF v, of ?c "se_strategy e"] pos signal_ok_at [OF confidence_bounds(1)] by (cases "se_running e") auto
  let ?g = "case r of None \<Rightarrow> g | Some x \<Rightarrow> g\<lparr>sg_regime := Some x\<rparr>"
  have buy: "\<forall>x. sg_type ?g = BUY \<and> sg_regime ?g = Some x \<longrightarrow> x \<notin> set (blocked (se_strategy e))"
    using g gate [of t ?c "se_strategy e" g s'] r
    by (auto simp: signal_ok_def signal_at_def closes_of_def split: option.splits if_splits)
  have b: "blocked s' = blocked (se_strategy e)"
    using g(1) blocked_step [of t ?c "se_strategy e"] by (auto split: if_splits)
  have "confidence_ok (sg_confidence ?g)" using g(2) by (simp add: signal_ok_def split: option.split)
  then have "engine_inv blocked (engine_record (tick_key num_text t) (mt_price t) ?g s' e)"
    using engine_record_inv [OF inv] v buy b by (simp add: valid_tick_def)
  moreover have "engine_onTick num_text rt square onTick t q e =
      (Inr ?g, engine_record (tick_key num_text t) (mt_price t) ?g s' e)"
    unfolding engine_onTick_def None classify_trimmed r g(1)
    using v by (auto simp: valid_tick_def positive_price_cases Let_def)
  ultimately show ?thesis using b by (simp add: engine_record_def)
qed

lemma engine_tick_rejects:
  assumes "\<not> valid_tick t"
  shows "\<exists>x. engine_onTick num_text rt square onTick t q e = (Inl x, e)"
proof (cases "positive_price (mt_price t)")
  case True
  then have "\<not> (\<not> is_finite (mt_price t) \<or> mt_price t \<le> Fin 0)"
    "\<not> is_safe_integer (mt_timestamp t) \<or> mt_timestamp t < Fin 0"
    using assms by (auto simp: valid_tick_def positive_price_alt)
  then show ?thesis by (simp only: engine_onTick_def if_True if_False throw_def) blast
next
  case False
  then have "\<not> is_finite (mt_price t) \<or> mt_price t \<le> Fin 0" by (auto simp: positive_price_alt)
  then show ?thesis by (simp only: engine_onTick_def if_True throw_def) blast
qed

lemma engine_step_inv: "engine_inv blocked e \<Longrightarrow> engine_inv blocked (engine_step num_text rt square onTick reset op e)"
proof (cases op)
  case (EoTick t q)
  assume "engine_inv blocked e"
  then have "engine_inv blocked (snd (engine_onTick num_text rt square onTick t q e))"
    using engine_tick_inv [of e t num_text q] engine_tick_rejects [of t num_text q e]
    by (cases "valid_tick t") auto
  then show ?thesis by (simp add: engine_step_def EoTick)
next
  case (EoRestoreHistory ps)
  assume "engine_inv blocked e"
  then show ?thesis using EoRestoreHistory set_js_slice [of ps "- se_maxHistory e"] fits_slice [of "se_maxHistory e" ps]
    by (auto simp: engine_step_def engine_restoreHistory_def guard_r_def engine_inv_def list_all_iff)
qed (auto simp: engine_step_def engine_start_def engine_stop_def engine_restoreRunning_def engine_setStrategy_def engine_inv_def)

lemma engine_step_blocked:
  assumes "engine_inv blocked e" "keeps_strategy op"
  shows "blocked (se_strategy (engine_step num_text rt square onTick reset op e)) = blocked (se_strategy e)"
proof (cases op)
  case (EoTick t q)
  then show ?thesis using engine_tick_inv [OF assms(1), of t num_text q] engine_tick_rejects [of t num_text q e]
    by (cases "valid_tick t") (auto simp: engine_step_def)
next
  case (EoRestoreHistory ps)
  then show ?thesis by (auto simp: engine_step_def engine_restoreHistory_def guard_r_def)
qed (use assms in \<open>auto simp: keeps_strategy_def engine_step_def engine_start_def engine_stop_def engine_restoreRunning_def\<close>)

lemma engine_run_blocked:
  assumes "engine_inv blocked e" "list_all keeps_strategy ops"
  shows "blocked (se_strategy (fold (engine_step num_text rt square onTick reset) ops e)) = blocked (se_strategy e)"
  using assms
proof (induction ops arbitrary: e)
  case (Cons op ops)
  then show ?case by (simp add: engine_step_inv engine_step_blocked)
qed simp

lemma engine_run_inv: "engine_inv blocked (fold (engine_step num_text rt square onTick reset) ops (StrategyEngine_new s m n))"
proof -
  have "engine_inv blocked e \<Longrightarrow> engine_inv blocked (fold (engine_step num_text rt square onTick reset) ops e)" for e
    by (induction ops arbitrary: e) (simp_all add: engine_step_inv)
  moreover have "engine_inv blocked (StrategyEngine_new s m n)" by (simp add: StrategyEngine_new_def engine_inv_def)
  ultimately show ?thesis .
qed

end

primrec blocked_of :: "strategy \<Rightarrow> trading_regime list" where
  "blocked_of (SmaCrossover s) = []"
| "blocked_of (RsiMeanReversion s) = []"
| "blocked_of (BollingerBreakout s) = []"
| "blocked_of (MacdMomentum s) = []"
| "blocked_of (StochasticOscillator s) = []"
| "blocked_of (DonchianBreakout s) = []"
| "blocked_of (RegimeGated inner blocked) = blocked @ blocked_of inner"

lemma blocked_of_step: "strategy_onTick rt square t c s = (out, s') \<Longrightarrow> blocked_of s' = blocked_of s"
  by (induction s arbitrary: out s') (auto simp: map_prod_def split: prod.splits)

lemma blocked_of_gate:
  "strategy_onTick rt square t c s = (Inr g, s') \<Longrightarrow> sg_type g = BUY \<Longrightarrow>
   classifyPriceRegime rt square (closes_of t c) (mt_timestamp t) DEFAULT_REGIME_CONFIG = Inr (Some r) \<Longrightarrow>
   r \<notin> set (blocked_of s)"
proof (induction s arbitrary: g s')
  case (RegimeGated inner blocked)
  obtain x i where x: "strategy_onTick rt square t c inner = (x, i)" by force
  with RegimeGated.prems obtain h where h: "x = Inr h" "gate_onTick rt square blocked t c (Inr h) = Inr g"
    by (cases x) (auto simp: gate_onTick_def map_prod_def)
  with RegimeGated.prems have "h = g" "r \<notin> set blocked"
    by (auto simp: gate_onTick_def signal_at_def split: if_splits)
  with RegimeGated x h show ?case by auto
qed auto

interpretation gates: gated_strategy "strategy_onTick rt square" strategy_reset rt square blocked_of for rt square
  by unfold_locales (blast intro: strategy_onTick_returns blocked_of_step dest: blocked_of_gate)+

lemma default_blocked: "set_of_list [HIGH_VOLATILITY, STRONG_DOWNTREND] = [HIGH_VOLATILITY, STRONG_DOWNTREND]"
  by code_simp

lemma default_gate:
  assumes "RegimeGatedStrategy_new inner None = Inr s"
  shows "set (blocked_of s) = {STRONG_DOWNTREND, HIGH_VOLATILITY} \<union> set (blocked_of inner)"
proof -
  have "s = RegimeGated inner [HIGH_VOLATILITY, STRONG_DOWNTREND]"
  proof (cases "strategy_id inner = []")
    case False
    then show ?thesis using assms
      by (auto simp: RegimeGatedStrategy_new_def gate_regimes_def evaluateStrategyRegime_def Let_def default_blocked)
  qed (use assms in \<open>simp add: RegimeGatedStrategy_new_def gate_regimes_def evaluateStrategyRegime_def\<close>)
  then show ?thesis by auto
qed

section \<open>Properties\<close>

text \<open>C14: Whatever sequence of starts, stops, restores, history restores, strategy changes and ticks the engine has
  seen, with any of the strategies and any gates around them: its prices are positive and finite, each of its two buffers
  fits its limit when that limit is an integer from 1 to below 2^52 (for other limits no bound is claimed), successive entries of the signal history differ in type or reason, and the next tick is refused
  (leaving the engine as it was) exactly when its price or timestamp is invalid; a valid tick never throws, not even
  in a regime gate, and its confidence is NaN or between 0 and 1.\<close>

theorem engine_tick_well_formed:
  "engine_inv blocked_of (fold (engine_step num_text rt square (strategy_onTick rt square) strategy_reset) ops (StrategyEngine_new s m n)) \<and>
   (if valid_tick t
    then \<exists>g e'. engine_onTick num_text rt square (strategy_onTick rt square) t q
           (fold (engine_step num_text rt square (strategy_onTick rt square) strategy_reset) ops (StrategyEngine_new s m n)) = (Inr g, e')
         \<and> engine_inv blocked_of e' \<and> confidence_ok (sg_confidence g)
    else \<exists>x. engine_onTick num_text rt square (strategy_onTick rt square) t q
           (fold (engine_step num_text rt square (strategy_onTick rt square) strategy_reset) ops (StrategyEngine_new s m n)) =
           (Inl x, fold (engine_step num_text rt square (strategy_onTick rt square) strategy_reset) ops (StrategyEngine_new s m n)))"
  (is "engine_inv _ ?e \<and> _")
proof -
  have inv: "engine_inv blocked_of ?e" by (rule gates.engine_run_inv)
  show ?thesis
  proof (cases "valid_tick t")
    case True
    obtain g e' where "engine_onTick num_text rt square (strategy_onTick rt square) t q ?e = (Inr g, e')"
      "engine_inv blocked_of e'" "se_latestSignal e' = Some g"
      using gates.engine_tick_inv [OF inv True] by blast
    then show ?thesis using inv True by (auto simp: engine_inv_def)
  next
    case False
    then show ?thesis using inv gates.engine_tick_rejects [OF False] by simp
  qed
qed

text \<open>C15: An engine driven by a strategy behind the default regime gate never reports a BUY together with a regime in
  which the policy forbids new exposure, whatever the inner strategy, the starts, stops, restores and ticks before, and
  although the gate classifies the whole price buffer and the engine only the window it trims from it.\<close>

theorem gated_engine_never_buys_blocked:
  assumes "RegimeGatedStrategy_new inner None = Inr s" "list_all keeps_strategy ops"
    and "engine_onTick num_text rt square (strategy_onTick rt square) t q
      (fold (engine_step num_text rt square (strategy_onTick rt square) strategy_reset) ops (StrategyEngine_new s m n)) = (Inr g, e')"
    and "sg_regime g = Some STRONG_DOWNTREND \<or> sg_regime g = Some HIGH_VOLATILITY"
  shows "sg_type g \<noteq> BUY"
proof -
  let ?e = "fold (engine_step num_text rt square (strategy_onTick rt square) strategy_reset) ops (StrategyEngine_new s m n)"
  have inv: "engine_inv blocked_of ?e" by (rule gates.engine_run_inv)
  have v: "valid_tick t" using gates.engine_tick_rejects [of t num_text rt square q ?e] assms(3) by auto
  have "engine_inv blocked_of e'" "se_latestSignal e' = Some g" "blocked_of (se_strategy e') = blocked_of (se_strategy ?e)"
    using gates.engine_tick_inv [OF inv v, of num_text rt square q] assms(3) by auto
  moreover have "blocked_of (se_strategy ?e) = blocked_of s"
    using gates.engine_run_blocked [OF gates.engine_run_inv [where ops = "[]", simplified] assms(2)]
    by (simp add: StrategyEngine_new_def)
  ultimately show ?thesis using default_gate [OF assms(1)] assms(4) by (auto simp: engine_inv_def)
qed

lemma gate_passes_exits:
  "strategy_onTick rt square t c inner = (Inr g, i) \<Longrightarrow> sg_type g = SELL \<Longrightarrow>
   strategy_onTick rt square t c (RegimeGated inner blocked) = (Inr g, RegimeGated i blocked)"
  by (simp add: gate_onTick_def)

section \<open>A sample run\<close>

text \<open>Prices that alternate between 100 and 200: every return is 1 or -1/2, so all the sums are exact.\<close>

definition sample_inner :: strategy where
  "sample_inner = SmaCrossover \<lparr>sma_shortPeriod = 2, sma_longPeriod = 3, sma_previousSpread = Some (Fin 0)\<rparr>"

definition sample_history :: "jsnum list" where
  "sample_history = concat (replicate 10 [Fin 100, Fin 200])"

definition sample_tick :: market_tick where
  "sample_tick = \<lparr>mt_market = ''KRW-BTC'', mt_price = Fin 100, mt_timestamp = Fin 1\<rparr>"

lemma sample_returns:
  "map (\<lambda>(p, prev). p div prev - Fin 1) (zip (tl (sample_history @ [Fin 100])) (sample_history @ [Fin 100])) =
   concat (replicate 10 [Fin 1, Fin (- 1 / 2)])"
  by code_simp

lemma sample_mean: "js_average (concat (replicate 10 [Fin 1, Fin (- 1 / 2)])) = Fin (1 / 4)"
  by code_simp

lemma sample_deviation: "(Fin 1 - Fin (1 / 4)) * (Fin 1 - Fin (1 / 4)) = Fin (9 / 16)"
    "(Fin (- 1 / 2) - Fin (1 / 4)) * (Fin (- 1 / 2) - Fin (1 / 4)) = Fin (9 / 16)"
  by code_simp+

lemma sample_variance: "js_average (replicate 20 (Fin (9 / 16))) = Fin (9 / 16)"
  by code_simp

lemma sample_high: "rc_highVolatility DEFAULT_REGIME_CONFIG \<le> Fin (9 / 16)"
  by code_simp

lemma sample_regime:
  "classifyPriceRegime (\<lambda>x. x) (\<lambda>x. x * x) (sample_history @ [Fin 100]) (Fin 1) DEFAULT_REGIME_CONFIG = Inr (Some HIGH_VOLATILITY)"
proof -
  have "map (\<lambda>v. (v - Fin (1 / 4)) * (v - Fin (1 / 4))) (concat (replicate 10 [Fin 1, Fin (- 1 / 2)])) = replicate 20 (Fin (9 / 16))"
    by (simp only: map_concat map_replicate list.map sample_deviation) (simp add: numeral_eq_Suc)
  then have "regime_of_window (\<lambda>x. x) (\<lambda>x. x * x) DEFAULT_REGIME_CONFIG (sample_history @ [Fin 100]) = HIGH_VOLATILITY"
    unfolding regime_of_window_def standardDeviation_def Let_def sample_returns sample_mean
    by (simp only: sample_variance sample_high if_True)
  moreover have "length (sample_history @ [Fin 100]) = 21" "list_all positive_price (sample_history @ [Fin 100])"
    "is_safe_integer (Fin 1)" by code_simp+
  ultimately show ?thesis by (simp add: classify_default)
qed

definition sample_engine :: "strategy strategy_engine" where
  "sample_engine =
     fold (engine_step (\<lambda>x. ''n'') (\<lambda>x. x) (\<lambda>x. x * x) (strategy_onTick (\<lambda>x. x) (\<lambda>x. x * x)) strategy_reset)
       [EoRestoreHistory sample_history, EoStart]
       (StrategyEngine_new (RegimeGated sample_inner [HIGH_VOLATILITY, STRONG_DOWNTREND]) (Fin 500) (Fin 20))"

lemma sample_engine_fields:
  "se_prices sample_engine = sample_history" "se_running sample_engine" "se_lastTickKey sample_engine = None"
  "se_strategy sample_engine = RegimeGated sample_inner [HIGH_VOLATILITY, STRONG_DOWNTREND]"
  by code_simp+

lemma sample_tick_valid: "valid_tick sample_tick"
  by code_simp

lemma sample_history_positive: "list_all positive_price sample_history"
  by code_simp

lemma sample_tick_regime:
  "\<exists>g e'. engine_onTick (\<lambda>x. ''n'') (\<lambda>x. x) (\<lambda>x. x * x) (strategy_onTick (\<lambda>x. x) (\<lambda>x. x * x)) sample_tick (Fin 0) sample_engine =
     (Inr g, e') \<and> sg_regime g = Some HIGH_VOLATILITY"
proof -
  let ?c = "\<lparr>sc_market = ''KRW-BTC'', sc_prices = sample_history, sc_positionQuantity = Fin 0\<rparr>"
  obtain g s' where g: "strategy_onTick (\<lambda>x. x) (\<lambda>x. x * x) sample_tick ?c
      (RegimeGated sample_inner [HIGH_VOLATILITY, STRONG_DOWNTREND]) = (Inr g, s')"
    using strategy_onTick_returns [OF sample_tick_valid, of ?c] sample_history_positive by fastforce
  show ?thesis unfolding engine_onTick_def classify_trimmed sample_engine_fields
    using g sample_regime sample_tick_valid by (auto simp: valid_tick_def positive_price_alt sample_tick_def Let_def)
qed

lemma gated_engine_never_buys_blocked_witness:
  "\<exists>g e'. engine_onTick (\<lambda>x. ''n'') (\<lambda>x. x) (\<lambda>x. x * x) (strategy_onTick (\<lambda>x. x) (\<lambda>x. x * x)) sample_tick (Fin 0) sample_engine =
     (Inr g, e') \<and> sg_type g \<noteq> BUY"
proof -
  have new: "RegimeGatedStrategy_new sample_inner None = Inr (RegimeGated sample_inner [HIGH_VOLATILITY, STRONG_DOWNTREND])"
    by code_simp
  have keep: "list_all keeps_strategy [EoRestoreHistory sample_history, EoStart]" by (simp add: keeps_strategy_def)
  obtain g e' where g: "engine_onTick (\<lambda>x. ''n'') (\<lambda>x. x) (\<lambda>x. x * x) (strategy_onTick (\<lambda>x. x) (\<lambda>x. x * x)) sample_tick (Fin 0)
      sample_engine = (Inr g, e')" "sg_regime g = Some HIGH_VOLATILITY"
    using sample_tick_regime by blast
  with gated_engine_never_buys_blocked [OF new keep g(1) [unfolded sample_engine_def] disjI2] show ?thesis by blast
qed

lemma sample_inner_buys:
  "sg_type (fst (sma_onTick sample_tick \<lparr>sc_market = ''KRW-BTC'', sc_prices = sample_history, sc_positionQuantity = Fin 0\<rparr>
     \<lparr>sma_shortPeriod = 2, sma_longPeriod = 3, sma_previousSpread = Some (Fin 0)\<rparr>)) = BUY"
  by code_simp

end
