(* ===== verification/OrderReconciliation.thy ===== *)
theory OrderReconciliation imports ExecGateway Restrictions begin

text \<open>
  \<open>apps/execution/src/order-reconciliation.ts\<close>: the periodic reconciliation of submissions whose
  outcome is unknown.  A run scans a window of the unknown executions after the cursor of the run
  before, ages and reconciles each of them over \<open>ExecGateway\<close>, appends its evidence and restricts
  the account when a critical one stays unresolved.  The evidence repository, the generated ids,
  \<open>localeCompare\<close> and the text of a number are parameters.  The restriction repository is used
  through the interface of \<open>Restrictions\<close>.
\<close>

section \<open>Types\<close>

datatype age_status = AgeRecent | AgeOverdue | AgeCritical

record unknown_policy =
  up_overdueAfterMs :: jsnum
  up_criticalAfterMs :: jsnum
  up_maximumRecordsPerRun :: jsnum

record unknown_assessment =
  ua_intentId :: string
  ua_executionId :: string
  ua_ageMs :: jsnum
  ua_ageStatus :: age_status

record unknown_item =
  ui_assessment :: unknown_assessment
  ui_reconciliation :: reconciliation_result

record unknown_run =
  ur_runId :: "string option"
  ur_startedAtMs :: jsnum
  ur_scannedCount :: nat
  ur_resolvedCount :: nat
  ur_unresolvedCount :: nat
  ur_overdueCount :: nat
  ur_criticalCount :: nat
  ur_truncated :: bool
  ur_nextCursor :: "string option"
  ur_items :: "unknown_item list"

record 'e evidence_context =
  ec_append :: "unknown_run \<Rightarrow> 'e \<Rightarrow> unit result \<times> 'e"
  ec_runId :: string

record restriction_context =
  xc_accountId :: string
  xc_restrictionId :: string

record ('p, 'e) unknown_world =
  uw_gateway :: "'p gateway_world"
  uw_restrictions :: restriction_repo
  uw_evidence :: 'e

section \<open>Assessment\<close>

definition validate_unknown_policy :: "unknown_policy \<Rightarrow> unit result" where
  "validate_unknown_policy p =
     guard_r (\<not> is_safe_integer (up_overdueAfterMs p) \<or> up_overdueAfterMs p < Fin 0)
       (Error ''overdueAfterMs must be a non-negative safe integer'')
     (guard_r (\<not> is_safe_integer (up_criticalAfterMs p) \<or> up_criticalAfterMs p < up_overdueAfterMs p)
       (Error ''criticalAfterMs must be greater than or equal to overdueAfterMs'')
     (guard_r (\<not> is_safe_integer (up_maximumRecordsPerRun p) \<or> up_maximumRecordsPerRun p \<le> Fin 0)
       (Error ''maximumRecordsPerRun must be a positive safe integer'') (Inr ())))"

definition assessUnknownSubmission :: "execution_record \<Rightarrow> jsnum \<Rightarrow> unknown_policy \<Rightarrow> unknown_assessment result" where
  "assessUnknownSubmission r nowMs p =
     bind_r (validate_unknown_policy p) (\<lambda>_.
     guard_r (er_status r \<noteq> SsUnknown) (Error ''only unknown submissions can be assessed'')
     (guard_r (\<not> is_safe_integer nowMs \<or> nowMs < er_createdAtMs r) (Error ''nowMs cannot predate execution creation'')
     (let ageMs = nowMs - er_createdAtMs r
      in Inr \<lparr>ua_intentId = er_intentId r, ua_executionId = er_executionId r, ua_ageMs = ageMs,
              ua_ageStatus = (if up_criticalAfterMs p \<le> ageMs then AgeCritical
                else if up_overdueAfterMs p \<le> ageMs then AgeOverdue else AgeRecent)\<rparr>)))"

section \<open>The window of a run\<close>

definition cursor_index :: "string \<Rightarrow> execution_record list \<Rightarrow> nat option" where
  "cursor_index c rs =
     (let i = length (takeWhile (\<lambda>r. er_executionId r \<noteq> c) rs) in if i < length rs then Some i else None)"

definition scan_start :: "execution_record list \<Rightarrow> string option \<Rightarrow> nat" where
  "scan_start unknowns cursor =
     (case cursor of None \<Rightarrow> 0
      | Some c \<Rightarrow> (case cursor_index c unknowns of None \<Rightarrow> 0 | Some i \<Rightarrow> (i + 1) mod length unknowns))"

definition scan_window :: "jsnum \<Rightarrow> execution_record list \<Rightarrow> string option \<Rightarrow> execution_record list" where
  "scan_window limit unknowns cursor =
     (let s = scan_start unknowns cursor
      in take (nat \<lfloor>jval limit\<rfloor>) (if s = 0 then unknowns else drop s unknowns @ take s unknowns))"

definition next_cursor :: "execution_record list \<Rightarrow> string option \<Rightarrow> string option" where
  "next_cursor selected cursor = (if selected = [] then cursor else Some (er_executionId (last selected)))"

section \<open>A run\<close>

fun reconcile_items ::
  "'p provider \<Rightarrow> unknown_policy \<Rightarrow> jsnum \<Rightarrow> execution_record list \<Rightarrow> 'p gateway_world \<Rightarrow>
    unknown_item list result \<times> 'p gateway_world" where
  "reconcile_items provider p nowMs [] w = (Inr [], w)"
| "reconcile_items provider p nowMs (r # rs) w =
     (case assessUnknownSubmission r nowMs p of
        Inl e \<Rightarrow> (Inl e, w)
      | Inr a \<Rightarrow>
        (case reconcileUnknownSubmission provider (er_intentId r) nowMs w of
           (Inl e, w1) \<Rightarrow> (Inl e, w1)
         | (Inr x, w1) \<Rightarrow>
           (case reconcile_items provider p nowMs rs w1 of
              (Inl e, w2) \<Rightarrow> (Inl e, w2)
            | (Inr items, w2) \<Rightarrow> (Inr (\<lparr>ui_assessment = a, ui_reconciliation = x\<rparr> # items), w2))))"

definition unresolved_items :: "age_status \<Rightarrow> unknown_item list \<Rightarrow> unknown_item list" where
  "unresolved_items age items =
     filter (\<lambda>i. \<not> rr_resolved (ui_reconciliation i) \<and> ua_ageStatus (ui_assessment i) = age) items"

definition unknown_run_of ::
  "string option \<Rightarrow> jsnum \<Rightarrow> execution_record list \<Rightarrow> execution_record list \<Rightarrow> string option \<Rightarrow> unknown_item list \<Rightarrow>
    unknown_run" where
  "unknown_run_of runId nowMs unknowns selected cursor items =
     \<lparr>ur_runId = runId, ur_startedAtMs = nowMs, ur_scannedCount = length selected,
      ur_resolvedCount = length (filter (\<lambda>i. rr_resolved (ui_reconciliation i)) items),
      ur_unresolvedCount = length (filter (\<lambda>i. \<not> rr_resolved (ui_reconciliation i)) items),
      ur_overdueCount = length (unresolved_items AgeOverdue items),
      ur_criticalCount = length (unresolved_items AgeCritical items),
      ur_truncated = (length selected < length unknowns), ur_nextCursor = next_cursor selected cursor,
      ur_items = items\<rparr>"

definition restrict_critical ::
  "(jsnum \<Rightarrow> string) \<Rightarrow> jsnum \<Rightarrow> restriction_context option \<Rightarrow> unknown_run \<Rightarrow> restriction_repo \<Rightarrow>
    restriction_repo result" where
  "restrict_critical num_text nowMs ctx run m =
     (case ctx of None \<Rightarrow> Inr m
      | Some x \<Rightarrow>
        if 0 < ur_criticalCount run \<and> rx_getActiveForAccount m (xc_accountId x) = None
        then bind_r (createCriticalUnknownSubmissionRestriction (xc_restrictionId x) (xc_accountId x)
                (case ur_runId run of Some i \<Rightarrow> i | None \<Rightarrow> ''unpersisted-'' @ num_text nowMs)
                (map (ua_intentId \<circ> ui_assessment) (unresolved_items AgeCritical (ur_items run))) nowMs)
             (\<lambda>r. bind_r (rx_save r m) (\<lambda>(_, m'). Inr m'))
        else Inr m)"

definition check_run ::
  "unknown_policy \<Rightarrow> 'e evidence_context option \<Rightarrow> restriction_context option \<Rightarrow> unit result" where
  "check_run p evidence ctx =
     bind_r (validate_unknown_policy p) (\<lambda>_.
     guard_r (case evidence of None \<Rightarrow> False | Some v \<Rightarrow> ec_runId v = [])
       (Error ''reconciliation run id is required'')
     (guard_r (case ctx of None \<Rightarrow> False | Some x \<Rightarrow> blank (xc_accountId x))
       (Error ''restriction account id is required'') (Inr ())))"

definition append_run ::
  "'e evidence_context option \<Rightarrow> unknown_run \<Rightarrow> 'e \<Rightarrow> unit result \<times> 'e" where
  "append_run evidence run s = (case evidence of None \<Rightarrow> (Inr (), s) | Some v \<Rightarrow> ec_append v run s)"

definition reconcileUnknownSubmissions ::
  "(string \<Rightarrow> string \<Rightarrow> jsnum) \<Rightarrow> (jsnum \<Rightarrow> string) \<Rightarrow> 'p provider \<Rightarrow> unknown_policy \<Rightarrow> jsnum \<Rightarrow>
    'e evidence_context option \<Rightarrow> restriction_context option \<Rightarrow> string option \<Rightarrow> ('p, 'e) unknown_world \<Rightarrow>
    unknown_run result \<times> ('p, 'e) unknown_world" where
  "reconcileUnknownSubmissions compare_text num_text provider p nowMs evidence ctx cursor w =
     (case check_run p evidence ctx of
        Inl e \<Rightarrow> (Inl e, w)
      | Inr _ \<Rightarrow>
        let unknowns = exec_listByStatus compare_text (gw_executions (uw_gateway w)) SsUnknown;
            selected = scan_window (up_maximumRecordsPerRun p) unknowns cursor
        in case reconcile_items provider p nowMs selected (uw_gateway w) of
             (Inl e, g) \<Rightarrow> (Inl e, w\<lparr>uw_gateway := g\<rparr>)
           | (Inr items, g) \<Rightarrow>
             let run = unknown_run_of (map_option ec_runId evidence) nowMs unknowns selected cursor items
             in case append_run evidence run (uw_evidence w) of
                  (Inl e, s) \<Rightarrow> (Inl e, w\<lparr>uw_gateway := g, uw_evidence := s\<rparr>)
                | (Inr _, s) \<Rightarrow>
                  (case restrict_critical num_text nowMs ctx run (uw_restrictions w) of
                     Inl e \<Rightarrow> (Inl e, w\<lparr>uw_gateway := g, uw_evidence := s\<rparr>)
                   | Inr m \<Rightarrow> (Inr run, w\<lparr>uw_gateway := g, uw_evidence := s, uw_restrictions := m\<rparr>)))"

section \<open>Critical submissions restrict the account\<close>

lemma created_active:
  "createCriticalUnknownSubmissionRestriction i a s is n = Inr r \<Longrightarrow> rx_accountId r = a \<and> rx_status r = RActive"
  by (auto simp: createCriticalUnknownSubmissionRestriction_def result_simps)

lemma restrict_critical_restricts:
  assumes "restrict_critical num_text n ctx run m = Inr m'" "rx_good m"
  shows "rx_good m' \<and> (\<forall>a. rx_repo.restricted m a \<longrightarrow> rx_repo.restricted m' a) \<and>
    (\<forall>x. ctx = Some x \<and> 0 < ur_criticalCount run \<longrightarrow> rx_repo.restricted m' (xc_accountId x))"
proof (cases ctx)
  case (Some x)
  show ?thesis
  proof (cases "0 < ur_criticalCount run \<and> rx_getActiveForAccount m (xc_accountId x) = None")
    case True
    with assms(1) Some obtain r r' where r: "rx_save r m = Inr (r', m')" "rx_accountId r = xc_accountId x" "rx_status r = RActive"
      by (auto simp: restrict_critical_def result_simps dest: created_active)
    show ?thesis using rx_repo.save_good [OF assms(2) r(1)] rx_repo.restricted_kept [OF assms(2) r(1) _ r(3)]
        rx_repo.restricted_after_save [OF assms(2) r(1,3)] r(2) Some by auto
  next
    case False
    then show ?thesis using assms Some by (auto simp: restrict_critical_def rx_repo.restricted_def)
  qed
qed (use assms in \<open>simp add: restrict_critical_def\<close>)

text \<open>When a reconciliation run that guards an account returns and counts a critical submission that is still
  unresolved, the account has an active restriction, new or from before; no run ever lifts the restriction of any
  account, also when it fails half-way.\<close>
theorem critical_submission_restricts:
  assumes "rx_good (uw_restrictions w)"
    "reconcileUnknownSubmissions compare_text num_text provider p nowMs evidence ctx cursor w = (res, w')"
  shows "(\<forall>a. rx_repo.restricted (uw_restrictions w) a \<longrightarrow> rx_repo.restricted (uw_restrictions w') a) \<and>
    (case res of
       Inl e \<Rightarrow> uw_restrictions w' = uw_restrictions w
     | Inr run \<Rightarrow> \<forall>x. ctx = Some x \<and> 0 < ur_criticalCount run \<longrightarrow> rx_repo.restricted (uw_restrictions w') (xc_accountId x))"
proof (cases res)
  case (Inl e)
  then show ?thesis using assms(2)
    by (auto simp: reconcileUnknownSubmissions_def Let_def split: sum.splits prod.splits)
next
  case (Inr run)
  then have "restrict_critical num_text nowMs ctx run (uw_restrictions w) = Inr (uw_restrictions w')"
    using assms(2) by (auto simp: reconcileUnknownSubmissions_def Let_def split: sum.splits prod.splits)
  then show ?thesis using restrict_critical_restricts [OF _ assms(1)] Inr by simp
qed

section \<open>Successive runs scan everything\<close>

lemma scan_window_rotate:
  assumes "scan_start rs cursor < length rs"
  shows "scan_window limit rs cursor = take (nat \<lfloor>jval limit\<rfloor>) (rotate (scan_start rs cursor) rs)"
  using assms by (simp add: scan_window_def Let_def rotate_drop_take)

lemma cursor_index_nth:
  assumes "distinct (map er_executionId rs)" "i < length rs"
  shows "cursor_index (er_executionId (rs ! i)) rs = Some i"
proof -
  have "takeWhile (\<lambda>r. er_executionId r \<noteq> er_executionId (rs ! i)) rs = take i rs"
    using assms by (intro takeWhile_eq_take_P_nth) (auto simp: distinct_conv_nth)
  then show ?thesis using assms(2) by (simp add: cursor_index_def)
qed

lemma scan_start_less: "rs \<noteq> [] \<Longrightarrow> scan_start rs cursor < length rs"
  by (simp add: scan_start_def split: option.split)

definition cursor_after :: "jsnum \<Rightarrow> execution_record list \<Rightarrow> string option \<Rightarrow> string option" where
  "cursor_after limit rs cursor = next_cursor (scan_window limit rs cursor) cursor"

lemma last_rotated: "0 < m \<Longrightarrow> m \<le> length xs \<Longrightarrow> last (take m (rotate s xs)) = xs ! ((s + (m - 1)) mod length xs)"
  by (subst last_conv_nth) (auto simp: nth_rotate min_def)

lemma scan_start_after:
  assumes "distinct (map er_executionId rs)" "rs \<noteq> []" "0 < nat \<lfloor>jval limit\<rfloor>"
  shows "scan_start rs (cursor_after limit rs cursor) =
    (scan_start rs cursor + min (nat \<lfloor>jval limit\<rfloor>) (length rs)) mod length rs"
proof -
  let ?n = "length rs" and ?s = "scan_start rs cursor" and ?m = "min (nat \<lfloor>jval limit\<rfloor>) (length rs)"
  note s = scan_start_less [OF assms(2), of cursor]
  have m: "0 < ?m" "?m \<le> ?n" using assms by auto
  have w: "scan_window limit rs cursor = take ?m (rotate ?s rs)"
    unfolding scan_window_rotate [OF s] by (simp add: min_def)
  have some: "take ?m (rotate ?s rs) \<noteq> []" using m(1) assms(2) by (metis not_gr_zero rotate_is_Nil_conv take_eq_Nil)
  have "last (take ?m (rotate ?s rs)) = rs ! ((?s + (?m - 1)) mod ?n)" by (rule last_rotated [OF m])
  then have "cursor_after limit rs cursor = Some (er_executionId (rs ! ((?s + (?m - 1)) mod ?n)))"
    unfolding cursor_after_def next_cursor_def w if_not_P [OF some] by simp
  moreover have "(?s + (?m - 1)) mod ?n < ?n" using s by (intro mod_less_divisor) linarith
  ultimately have "scan_start rs (cursor_after limit rs cursor) = ((?s + (?m - 1)) mod ?n + 1) mod ?n"
    by (simp only: scan_start_def cursor_index_nth [OF assms(1)] option.case)
  also have "\<dots> = (?s + (?m - 1) + 1) mod ?n" by (rule mod_add_left_eq)
  also have "?s + (?m - 1) + 1 = ?s + ?m" using m(1) by linarith
  finally show ?thesis .
qed

lemma scan_start_run:
  assumes "distinct (map er_executionId rs)" "rs \<noteq> []" "0 < nat \<lfloor>jval limit\<rfloor>"
  shows "scan_start rs ((cursor_after limit rs ^^ k) cursor) =
    (scan_start rs cursor + k * min (nat \<lfloor>jval limit\<rfloor>) (length rs)) mod length rs"
proof (induction k)
  case 0
  then show ?case using scan_start_less [OF assms(2)] by simp
next
  case (Suc k)
  have "((a + k * m) mod n + m) mod n = (a + Suc k * m) mod n" for a m n :: nat
    by (metis add.assoc add.commute mod_add_left_eq mult_Suc)
  then show ?case unfolding funpow.simps o_apply scan_start_after [OF assms] Suc .
qed

lemma window_reaches:
  assumes "validate_unknown_policy p = Inr ()" "distinct (map er_executionId rs)" "r \<in> set rs"
  shows "\<exists>k. k * nat \<lfloor>jval (up_maximumRecordsPerRun p)\<rfloor> < length rs \<and>
    r \<in> set (scan_window (up_maximumRecordsPerRun p) rs ((cursor_after (up_maximumRecordsPerRun p) rs ^^ k) cursor))"
proof -
  let ?limit = "up_maximumRecordsPerRun p"
  let ?l = "nat \<lfloor>jval ?limit\<rfloor>" and ?n = "length rs" and ?s = "scan_start rs cursor"
  have "is_safe_integer ?limit" "\<not> ?limit \<le> Fin 0" using assms(1)
    by (auto simp: validate_unknown_policy_def guard_r_def split: if_splits)
  then have l: "0 < ?l" by (auto elim!: is_safe_integer_cases simp: jle_finite)
  obtain i where i: "i < ?n" "r = rs ! i" using assms(3) by (auto simp: in_set_conv_nth)
  then have ne: "rs \<noteq> []" by auto
  define m where "m = min ?l ?n"
  define d where "d = (i + (?n - ?s)) mod ?n"
  have m: "0 < m" "m \<le> ?n" using l i by (auto simp: m_def)
  have d: "d < ?n" using ne by (simp add: d_def)
  have "(?s + d) mod ?n = (?s + (i + (?n - ?s))) mod ?n" unfolding d_def by (rule mod_add_right_eq)
  also have "?s + (i + (?n - ?s)) = i + ?n" using scan_start_less [OF ne, of cursor] by simp
  finally have sd: "(?s + d) mod ?n = i" using i by simp
  let ?k = "d div m"
  let ?c = "(cursor_after ?limit rs ^^ ?k) cursor"
  have st: "scan_start rs ?c = (?s + ?k * m) mod ?n" using scan_start_run [OF assms(2) ne l] by (simp add: m_def)
  have w: "scan_window ?limit rs ?c = take m (rotate (?s + ?k * m) rs)"
    unfolding scan_window_rotate [OF scan_start_less [OF ne]] st rotate_conv_mod [symmetric] by (simp add: m_def min_def)
  have less: "d mod m < m" using m by simp
  then have "rotate (?s + ?k * m) rs ! (d mod m) = rs ! ((?s + ?k * m + d mod m) mod ?n)"
    by (intro nth_rotate less_le_trans [OF _ m(2)])
  also have "?s + ?k * m + d mod m = ?s + d" by (simp add: div_mult_mod_eq add.assoc)
  finally have "rotate (?s + ?k * m) rs ! (d mod m) = r" unfolding sd using i(2) by simp
  then have "r = take m (rotate (?s + ?k * m) rs) ! (d mod m)" using less by (simp only: nth_take)
  then have r: "r \<in> set (scan_window ?limit rs ?c)" unfolding w using nth_mem [of "d mod m" "take m (rotate (?s + ?k * m) rs)"] less m
    by (simp only: length_take length_rotate min_absorb2)
  have "?k * ?l < ?n"
  proof (cases "?l \<le> ?n")
    case True
    then have "?k * ?l \<le> d" by (simp add: m_def)
    then show ?thesis using d by linarith
  next
    case False
    then have "?k = 0" using d by (simp add: m_def)
    then show ?thesis using ne by simp
  qed
  with r show ?thesis by blast
qed

text \<open>The window and the cursor of a run depend on the execution ids only, and a run that returns has an item for each execution
  of its window.\<close>

lemma cursor_index_ids: "cursor_index c rs =
    (let i = length (takeWhile (\<lambda>x. x \<noteq> c) (map er_executionId rs)) in if i < length (map er_executionId rs) then Some i else None)"
  by (simp add: cursor_index_def takeWhile_map o_def)

lemma scan_start_ids:
  assumes "map er_executionId rs = map er_executionId rs'"
  shows "scan_start rs cursor = scan_start rs' cursor"
  unfolding scan_start_def cursor_index_ids assms map_eq_imp_length_eq [OF assms] ..

lemma scan_window_ids:
  assumes "map er_executionId rs = map er_executionId rs'"
  shows "map er_executionId (scan_window limit rs cursor) = map er_executionId (scan_window limit rs' cursor)"
  unfolding scan_window_def Let_def scan_start_ids [OF assms]
  by (simp add: assms take_map [symmetric] drop_map [symmetric])

lemma next_cursor_ids:
  "next_cursor selected cursor =
    (if map er_executionId selected = [] then cursor else Some (last (map er_executionId selected)))"
  by (simp add: next_cursor_def last_map)

lemma cursor_after_ids:
  assumes "map er_executionId rs = map er_executionId rs'"
  shows "cursor_after limit rs cursor = cursor_after limit rs' cursor"
  unfolding cursor_after_def next_cursor_ids scan_window_ids [OF assms] ..

lemma reconcile_items_ids:
  "reconcile_items provider p nowMs rs w = (Inr items, w') \<Longrightarrow>
    map (ua_executionId \<circ> ui_assessment) items = map er_executionId rs"
proof (induction rs arbitrary: w items)
  case (Cons r rs)
  then show ?case
    by (auto simp: assessUnknownSubmission_def result_simps Let_def split: sum.splits prod.splits)
qed simp

lemma run_returned:
  assumes "reconcileUnknownSubmissions compare_text num_text provider p nowMs evidence ctx cursor w = (Inr run, w')"
    "rs = exec_listByStatus compare_text (gw_executions (uw_gateway w)) SsUnknown"
  shows "ur_nextCursor run = cursor_after (up_maximumRecordsPerRun p) rs cursor"
    "map (ua_executionId \<circ> ui_assessment) (ur_items run) = map er_executionId (scan_window (up_maximumRecordsPerRun p) rs cursor)"
    "validate_unknown_policy p = Inr ()"
proof -
  let ?sel = "scan_window (up_maximumRecordsPerRun p) rs cursor"
  obtain items g where items: "reconcile_items provider p nowMs ?sel (uw_gateway w) = (Inr items, g)"
    and run: "run = unknown_run_of (map_option ec_runId evidence) nowMs rs ?sel cursor items" and c: "check_run p evidence ctx = Inr ()"
    using assms by (auto simp: reconcileUnknownSubmissions_def Let_def split: sum.splits prod.splits)
  show "ur_nextCursor run = cursor_after (up_maximumRecordsPerRun p) rs cursor"
    by (simp add: run unknown_run_of_def cursor_after_def)
  show "map (ua_executionId \<circ> ui_assessment) (ur_items run) = map er_executionId ?sel"
    using reconcile_items_ids [OF items] by (simp add: run unknown_run_of_def)
  show "validate_unknown_policy p = Inr ()" using c by (simp add: check_run_def result_simps)
qed

text \<open>C16: No unknown submission is starved: take successive runs that all return (a run that throws returns no cursor) and each of
  which is given the cursor of the run before.  Between them the world may change in any way, as long as the listed unknown submissions
  keep the same execution ids, which are distinct.  Then, whatever cursor the first run starts from, each of these submissions has an
  item in one of the first \<open>N\<close> runs, where \<open>N\<close> times the records a run may scan is at least their number.\<close>
theorem every_unknown_scanned:
  assumes runs: "\<And>k. k < N \<Longrightarrow> reconcileUnknownSubmissions compare_text num_text provider p (now k) (evidence k) (ctx k) (cur k) (w k) = (Inr (run k), w' k)"
    and cursors: "\<And>k. Suc k < N \<Longrightarrow> cur (Suc k) = ur_nextCursor (run k)"
    and same: "\<And>k. k < N \<Longrightarrow> map er_executionId (exec_listByStatus compare_text (gw_executions (uw_gateway (w k))) SsUnknown) = ids"
    and ids: "distinct ids" "i \<in> set ids" "length ids \<le> N * nat \<lfloor>jval (up_maximumRecordsPerRun p)\<rfloor>"
  shows "\<exists>k < N. i \<in> set (map (ua_executionId \<circ> ui_assessment) (ur_items (run k)))"
proof -
  let ?limit = "up_maximumRecordsPerRun p"
  define rs where "rs k = exec_listByStatus compare_text (gw_executions (uw_gateway (w k))) SsUnknown" for k
  have rs: "map er_executionId (rs k) = map er_executionId (rs 0)" if "k < N" for k using same that by (simp add: rs_def)
  have "ids \<noteq> []" using ids(2) by auto
  then have "N \<noteq> 0" using ids(3) by (cases N) auto
  then have r0: "map er_executionId (rs 0) = ids" and policy: "validate_unknown_policy p = Inr ()"
    using same [of 0] run_returned(3) [OF runs rs_def, of 0] by (simp_all add: rs_def)
  obtain r where r: "r \<in> set (rs 0)" "er_executionId r = i" using ids(2) r0 [symmetric] by auto
  obtain k where k: "k * nat \<lfloor>jval ?limit\<rfloor> < length (rs 0)" "r \<in> set (scan_window ?limit (rs 0) ((cursor_after ?limit (rs 0) ^^ k) (cur 0)))"
    using window_reaches [OF policy _ r(1), of "cur 0"] ids(1) r0 by auto
  have "length (rs 0) = length ids" using r0 by (metis length_map)
  then have "k * nat \<lfloor>jval ?limit\<rfloor> < N * nat \<lfloor>jval ?limit\<rfloor>" using k(1) ids(3) by linarith
  then have less: "k < N" by (rule mult_less_cancel2 [THEN iffD1, THEN conjunct2])
  have "cur m = (cursor_after ?limit (rs 0) ^^ m) (cur 0)" if "m < N" for m
    using that
  proof (induction m)
    case (Suc m)
    then show ?case using cursors [OF Suc.prems] run_returned(1) [OF runs rs_def, of m] cursor_after_ids [OF rs, of m] by simp
  qed simp
  from this [OF less] have "i \<in> set (map er_executionId (scan_window ?limit (rs 0) (cur k)))" using k(2) r(2) by (metis image_eqI set_map)
  then have "i \<in> set (map er_executionId (scan_window ?limit (rs k) (cur k)))" 
    unfolding scan_window_ids [OF rs [OF less]] .
  then show ?thesis unfolding run_returned(2) [OF runs rs_def, OF less, symmetric] using less by (intro exI [of _ k] conjI)
qed

section \<open>Concrete runs\<close>

definition sample_unknown :: "string \<Rightarrow> execution_record" where
  "sample_unknown i = \<lparr>er_executionId = i, er_intentId = i, er_idempotencyKey = i, er_payloadHash = ''h'',
     er_status = SsUnknown, er_providerOrderId = None, er_reason = None, er_createdAtMs = Fin 0, er_updatedAtMs = Fin 0\<rparr>"

definition sample_policy :: unknown_policy where
  "sample_policy = \<lparr>up_overdueAfterMs = Fin 10, up_criticalAfterMs = Fin 20, up_maximumRecordsPerRun = Fin 2\<rparr>"

definition silent_provider :: "unit provider" where
  "silent_provider = \<lparr>pv_environment = EnvSynthetic, pv_submit = (\<lambda>_ p. (throw ''down'', p)), pv_lookup = None\<rparr>"

definition sample_world :: "(unit, unit) unknown_world" where
  "sample_world = \<lparr>uw_gateway = \<lparr>gw_idempotency = \<lparr>im_byKey = [], im_byIntentId = []\<rparr>, gw_executions = [(''a'', sample_unknown ''a'')], gw_provider = (), gw_journal = []\<rparr>,
     uw_restrictions = [], uw_evidence = ()\<rparr>"

definition sample_unknown_run :: "unknown_run result \<times> (unit, unit) unknown_world" where
  "sample_unknown_run = reconcileUnknownSubmissions (\<lambda>_ _. Fin 0) (\<lambda>_. ''30'') silent_provider sample_policy (Fin 30) None
     (Some \<lparr>xc_accountId = ''acc'', xc_restrictionId = ''r1''\<rparr>) None sample_world"

lemma critical_submission_restricts_witness:
  "rx_getActiveForAccount (uw_restrictions (snd sample_unknown_run)) ''acc'' \<noteq> None"
proof -
  have c: "(case fst sample_unknown_run of Inl e \<Rightarrow> False | Inr run \<Rightarrow> 0 < ur_criticalCount run)" by code_simp
  have g: "rx_good (uw_restrictions sample_world)" by (simp add: rx_good_def sample_world_def)
  show ?thesis
    using critical_submission_restricts [OF g surjective_pairing, of "\<lambda>_ _. Fin 0" "\<lambda>_. ''30''" silent_provider sample_policy
        "Fin 30" None "Some \<lparr>xc_accountId = ''acc'', xc_restrictionId = ''r1''\<rparr>" None] c
    unfolding sample_unknown_run_def [symmetric] by (auto simp: rx_repo.restricted_def split: sum.splits)
qed

text \<open>Three unknown submissions and two runs that scan two of them each.\<close>

definition three_unknown :: "(unit, unit) unknown_world" where
  "three_unknown = sample_world\<lparr>uw_gateway := (uw_gateway sample_world)\<lparr>gw_executions :=
     map (\<lambda>i. (i, sample_unknown i)) [''a'', ''b'', ''c'']\<rparr>\<rparr>"

definition three_run :: "string option \<Rightarrow> (unit, unit) unknown_world \<Rightarrow> unknown_run result \<times> (unit, unit) unknown_world" where
  "three_run cursor w = reconcileUnknownSubmissions (\<lambda>_ _. Fin 0) (\<lambda>_. ''30'') silent_provider sample_policy (Fin 30) None None cursor w"

lemma every_unknown_scanned_witness:
  "\<exists>k < 2. ''c'' \<in> set (map (ua_executionId \<circ> ui_assessment) (ur_items
     (if k = (0::nat) then projr (fst (three_run None three_unknown))
      else projr (fst (three_run (Some ''b'') (snd (three_run None three_unknown)))))))"
proof -
  let ?w = "\<lambda>k::nat. if k = 0 then three_unknown else snd (three_run None three_unknown)"
  let ?cur = "\<lambda>k::nat. if k = 0 then None else Some ''b''"
  let ?x = "\<lambda>k. three_run (?cur k) (?w k)"
  let ?run = "\<lambda>k::nat. projr (fst (?x k))"
  have two: "k = 0 \<or> k = 1" if "k < 2" for k :: nat using that by auto
  have inr: "isl (fst (three_run None three_unknown)) = False"
    "isl (fst (three_run (Some ''b'') (snd (three_run None three_unknown)))) = False" by code_simp+
  have c: "ur_nextCursor (projr (fst (three_run None three_unknown))) = Some ''b''" by code_simp
  have l: "map er_executionId (exec_listByStatus (\<lambda>_ _. Fin 0) (gw_executions (uw_gateway three_unknown)) SsUnknown) = [''a'', ''b'', ''c'']"
    "map er_executionId (exec_listByStatus (\<lambda>_ _. Fin 0) (gw_executions (uw_gateway (snd (three_run None three_unknown)))) SsUnknown) = [''a'', ''b'', ''c'']"
    by code_simp+
  have m: "length [''a'', ''b'', ''c''] \<le> 2 * nat \<lfloor>jval (up_maximumRecordsPerRun sample_policy)\<rfloor>" by (simp add: sample_policy_def)
  have "\<exists>k < 2. ''c'' \<in> set (map (ua_executionId \<circ> ui_assessment) (ur_items (?run k)))"
  proof (rule every_unknown_scanned [where w = ?w and cur = ?cur and now = "\<lambda>_. Fin 30" and evidence = "\<lambda>_. None" and ctx = "\<lambda>_. None"
        and w' = "\<lambda>k. snd (?x k)" and ids = "[''a'', ''b'', ''c'']" and p = sample_policy and provider = silent_provider
        and compare_text = "\<lambda>_ _. Fin 0" and num_text = "\<lambda>_. ''30''"])
    fix k :: nat
    assume "k < 2"
    then show "reconcileUnknownSubmissions (\<lambda>_ _. Fin 0) (\<lambda>_. ''30'') silent_provider sample_policy (Fin 30) None None (?cur k) (?w k) =
        (Inr (?run k), snd (?x k))"
      using two [of k] inr by (auto simp: three_run_def [symmetric] prod_eq_iff)
    show "map er_executionId (exec_listByStatus (\<lambda>_ _. Fin 0) (gw_executions (uw_gateway (?w k))) SsUnknown) = [''a'', ''b'', ''c'']"
      using l by simp
  next
    fix k :: nat
    assume "Suc k < 2"
    then show "?cur (Suc k) = ur_nextCursor (?run k)" using c by simp
  qed (use m in simp_all)
  then show ?thesis by (simp add: if_distrib cong: if_cong)
qed

end
