(* ===== verification/Reconcile.thy ===== *)
theory Reconcile imports Restrictions begin

text \<open>
  What the reconcilers of \<open>apps/execution/src\<close> (balance, position, funding) share: the restriction
  they raise unless the account already has one, and the two steps of a release, the evidence and
  then the released restriction.  \<open>recon_world\<close> is the restriction repository, the release evidence
  and the reconciler's own evidence store.  The lemmas extend the interface of \<open>Restrictions\<close>:
  raising keeps every restriction, and a release lifts only that of its account.
\<close>

record 'e recon_world = release_world +
  rw_evidence :: 'e

definition active_restriction ::
  "string \<Rightarrow> string \<Rightarrow> restriction_reason \<Rightarrow> string \<Rightarrow> jsnum \<Rightarrow> restriction" where
  "active_restriction restrictionId accountId reason sourceRunId nowMs =
     \<lparr>rx_restrictionId = restrictionId, rx_accountId = accountId, rx_reason = reason, rx_sourceRunId = sourceRunId,
      rx_sourceIntentIds = [], rx_blockNewExposure = True, rx_manualReleaseRequired = True, rx_status = RActive,
      rx_createdAtMs = nowMs, rx_releasedAtMs = None\<rparr>"

definition ensure_restricted :: "restriction \<Rightarrow> restriction_repo \<Rightarrow> (restriction \<times> restriction_repo) result" where
  "ensure_restricted r m =
     (case rx_getActiveForAccount m (rx_accountId r) of Some active \<Rightarrow> Inr (active, m) | None \<Rightarrow> rx_save r m)"

definition store_result ::
  "('x \<Rightarrow> 'e \<Rightarrow> unit result \<times> 'e) \<Rightarrow> 'x \<Rightarrow> 'e recon_world \<Rightarrow> 'x result \<times> 'e recon_world" where
  "store_result append_evidence x w =
     (case append_evidence x (rw_evidence w) of
        (Inl e, s) \<Rightarrow> (Inl e, w\<lparr>rw_evidence := s\<rparr>)
      | (Inr _, s) \<Rightarrow> (Inr x, w\<lparr>rw_evidence := s\<rparr>))"

definition restrict_and_store ::
  "('x \<Rightarrow> 'e \<Rightarrow> unit result \<times> 'e) \<Rightarrow> restriction \<Rightarrow> (string \<Rightarrow> 'x) \<Rightarrow> 'e recon_world \<Rightarrow> 'x result \<times> 'e recon_world" where
  "restrict_and_store append_evidence r mk w =
     (case ensure_restricted r (lw_restrictions w) of
        Inl e \<Rightarrow> (Inl e, w)
      | Inr (x, m) \<Rightarrow> store_result append_evidence (mk (rx_restrictionId x)) (w\<lparr>lw_restrictions := m\<rparr>))"

definition store_release :: "release_record \<Rightarrow> restriction \<Rightarrow> 'e recon_world \<Rightarrow> restriction result \<times> 'e recon_world" where
  "store_release v r w =
     (case rv_append v (lw_evidence w) of
        Inl e \<Rightarrow> (Inl e, w)
      | Inr (_, releases) \<Rightarrow>
        (let w1 = w\<lparr>lw_evidence := releases\<rparr> in
         case rx_save (r\<lparr>rx_status := RReleased, rx_releasedAtMs := Some (rv_releasedAtMs v)\<rparr>) (lw_restrictions w1) of
           Inl e \<Rightarrow> (Inl e, w1)
         | Inr (s, restrictions) \<Rightarrow> (Inr s, w1\<lparr>lw_restrictions := restrictions\<rparr>)))"

type_synonym ('e, 'x) recon_transaction =
  "('e recon_world \<Rightarrow> 'x result \<times> 'e recon_world) \<Rightarrow> 'e recon_world \<Rightarrow> 'x result \<times> 'e recon_world"

section \<open>Raising and lifting\<close>

context restriction_repository begin

lemma restricted_lost:
  assumes "good m" "save r m = Inr (r', m')" "restricted m a" "\<not> restricted m' a"
  shows "rx_accountId r = a"
proof -
  obtain i p where p: "get m i = Some p" "rx_accountId p = a" "rx_status p = RActive"
    using assms(1,3) active_iff by (auto simp: restricted_def)
  have "i = rx_restrictionId r"
  proof (rule ccontr)
    assume "i \<noteq> rx_restrictionId r"
    then have "get m' i = Some p" using save_frame [OF assms(2)] p by simp
    then show False using assms(4) p save_good [OF assms(1,2)] active_iff unfolding restricted_def by blast
  qed
  then show ?thesis using save_identity [OF assms(2)] p by auto
qed

end

abbreviation restricted :: "('e, 'z) recon_world_scheme \<Rightarrow> string \<Rightarrow> bool" where
  "restricted w a \<equiv> rx_repo.restricted (lw_restrictions w) a"

lemma ensure_restricted_Inr:
  assumes "ensure_restricted r m = Inr (x, m')" "rx_good m" "rx_status r = RActive"
  shows "rx_good m' \<and> rx_repo.restricted m' (rx_accountId r) \<and> (\<forall>a. rx_repo.restricted m a \<longrightarrow> rx_repo.restricted m' a)"
proof (cases "rx_getActiveForAccount m (rx_accountId r)")
  case None
  then have s: "rx_save r m = Inr (x, m')" using assms(1) by (simp add: ensure_restricted_def)
  show ?thesis using rx_repo.save_good [OF assms(2) s] rx_repo.restricted_after_save [OF assms(2) s assms(3)]
      rx_repo.restricted_kept [OF assms(2) s _ assms(3)] by blast
next
  case (Some y)
  then show ?thesis using assms by (auto simp: ensure_restricted_def rx_repo.restricted_def)
qed

lemma active_restriction_fields [simp]:
  "rx_accountId (active_restriction i a x s n) = a" "rx_status (active_restriction i a x s n) = RActive"
  by (simp_all add: active_restriction_def)

lemma store_result_frame:
  "store_result f r w = (res, w') \<Longrightarrow> lw_restrictions w' = lw_restrictions w \<and> (\<forall>x. res = Inr x \<longrightarrow> x = r)"
  by (auto simp: store_result_def split: prod.splits sum.splits)

lemma restrict_and_store_restricts:
  assumes "restrict_and_store f r mk w = (res, w')" "rx_good (lw_restrictions w)" "rx_status r = RActive"
  shows "(\<forall>a. restricted w a \<longrightarrow> restricted w' a) \<and>
    (\<forall>x. res = Inr x \<longrightarrow> restricted w' (rx_accountId r) \<and> (\<exists>i. x = mk i))"
proof (cases "ensure_restricted r (lw_restrictions w)")
  case (Inr y)
  obtain x m where y: "y = (x, m)" by force
  have "store_result f (mk (rx_restrictionId x)) (w\<lparr>lw_restrictions := m\<rparr>) = (res, w')"
    using assms(1) Inr y by (simp add: restrict_and_store_def)
  from store_result_frame [OF this] ensure_restricted_Inr [OF Inr [unfolded y] assms(2,3)]
  show ?thesis by auto
qed (use assms(1) in \<open>auto simp: restrict_and_store_def\<close>)

lemma store_release_lifts:
  assumes "rx_good (lw_restrictions w)" "restricted w a" "\<not> restricted (snd (store_release v r w)) a"
  shows "rx_accountId r = a"
proof -
  obtain s rs where s: "rx_save (r\<lparr>rx_status := RReleased, rx_releasedAtMs := Some (rv_releasedAtMs v)\<rparr>) (lw_restrictions w) = Inr (s, rs)"
    "\<not> rx_repo.restricted rs a"
    using assms(2,3) by (auto simp: store_release_def Let_def split: sum.splits prod.splits)
  show ?thesis using rx_repo.restricted_lost [OF assms(1) s(1) assms(2) s(2)] by simp
qed

end
