(* ===== verification/BalanceReconciliation.thy ===== *)
theory BalanceReconciliation imports Reconcile begin

text \<open>
  \<open>apps/execution/src/balance-reconciliation.ts\<close>: the comparison of the local balance of an asset
  with the provider's, the freshness of its evidence, and the release of the restrictions it
  raises.  The evidence repository and the provider are parameters (\<open>balance_port\<close>); they may throw.
  The restrictions are used through the interface of \<open>Restrictions\<close>: a restriction raised here is
  lifted by nothing but a release.
\<close>

section \<open>Types\<close>

datatype balance_status = BsMatched | BsMismatch | BsProviderUnavailable
datatype balance_freshness = BfFresh | BfExpiringSoon | BfStale | BfNotMatched

record balance_snapshot =
  lb_accountId :: string
  lb_asset :: string
  lb_walletBalanceRaw :: int
  lb_availableBalanceRaw :: int
  lb_observedAtMs :: jsnum

record balance_policy =
  bp_walletBalanceToleranceRaw :: int
  bp_availableBalanceToleranceRaw :: int

record balance_result =
  br_reconciliationId :: string
  br_accountId :: string
  br_asset :: string
  br_status :: balance_status
  br_localWalletBalanceRaw :: int
  br_providerWalletBalanceRaw :: "int option"
  br_walletBalanceDifferenceRaw :: "int option"
  br_localAvailableBalanceRaw :: int
  br_providerAvailableBalanceRaw :: "int option"
  br_availableBalanceDifferenceRaw :: "int option"
  br_observedAtMs :: jsnum
  br_restrictionId :: "string option"
  br_reason :: "string option"

record 'e balance_port =
  bt_getBalance :: "string \<Rightarrow> string \<Rightarrow> balance_snapshot option result"
  bt_append :: "balance_result \<Rightarrow> 'e \<Rightarrow> unit result \<times> 'e"
  bt_getById :: "'e \<Rightarrow> string \<Rightarrow> balance_result option"
  bt_getLatest :: "'e \<Rightarrow> string \<Rightarrow> string \<Rightarrow> balance_result option"

record balance_request =
  bq_reconciliationId :: string
  bq_restrictionId :: string
  bq_local :: balance_snapshot
  bq_policy :: balance_policy
  bq_nowMs :: jsnum

section \<open>Freshness\<close>

definition assert_balance_policy :: "balance_policy \<Rightarrow> unit result" where
  "assert_balance_policy p =
     guard_r (bp_walletBalanceToleranceRaw p < 0) (Error ''walletBalanceToleranceRaw must be a non-negative bigint'')
     (guard_r (bp_availableBalanceToleranceRaw p < 0) (Error ''availableBalanceToleranceRaw must be a non-negative bigint'')
       (Inr ()))"

definition evaluateBalanceReconciliationFreshness ::
  "balance_result \<Rightarrow> jsnum \<Rightarrow> jsnum \<Rightarrow> jsnum \<Rightarrow> balance_freshness result" where
  "evaluateBalanceReconciliationFreshness r nowMs warningAgeMs maximumAgeMs =
     guard_r (\<not> is_safe_integer nowMs \<or> nowMs < br_observedAtMs r) (Error ''nowMs is invalid'')
     (guard_r (\<not> is_safe_integer maximumAgeMs \<or> maximumAgeMs \<le> Fin 0) (Error ''maximumAgeMs must be positive'')
     (guard_r (\<not> is_safe_integer warningAgeMs \<or> warningAgeMs < Fin 0 \<or> maximumAgeMs \<le> warningAgeMs)
       (Error ''warningAgeMs must be non-negative and less than maximumAgeMs'')
     (if br_status r \<noteq> BsMatched then Inr BfNotMatched
      else let ageMs = nowMs - br_observedAtMs r
           in Inr (if maximumAgeMs \<le> ageMs then BfStale else if warningAgeMs \<le> ageMs then BfExpiringSoon else BfFresh))))"

section \<open>Reconciliation\<close>

definition balance_checks :: "'e balance_port \<Rightarrow> balance_request \<Rightarrow> 'e \<Rightarrow> unit result" where
  "balance_checks port q s =
     guard_r (blank (bq_reconciliationId q)) (Error ''reconciliationId is required'')
     (guard_r (blank (bq_restrictionId q)) (Error ''restrictionId is required'')
     (guard_r (blank (lb_accountId (bq_local q)) \<or> blank (lb_asset (bq_local q))) (Error ''balance identity is required'')
     (guard_r (\<not> is_safe_integer (bq_nowMs q) \<or> bq_nowMs q < lb_observedAtMs (bq_local q)) (Error ''nowMs is invalid'')
     (guard_r (lb_walletBalanceRaw (bq_local q) < lb_availableBalanceRaw (bq_local q))
       (Error ''local available balance cannot exceed wallet balance'')
     (bind_r (assert_balance_policy (bq_policy q)) (\<lambda>_.
      guard_r (bt_getById port s (bq_reconciliationId q) \<noteq> None)
        (Error ''balance reconciliation id already exists'') (Inr ())))))))"

definition remote_checks :: "balance_request \<Rightarrow> balance_snapshot \<Rightarrow> unit result" where
  "remote_checks q remote =
     guard_r (lb_accountId remote \<noteq> lb_accountId (bq_local q) \<or> lb_asset remote \<noteq> lb_asset (bq_local q))
       (Error ''provider balance identity mismatch'')
     (guard_r (bq_nowMs q < lb_observedAtMs remote) (Error ''provider balance observation cannot be in the future'')
     (guard_r (lb_walletBalanceRaw remote < lb_availableBalanceRaw remote)
       (Error ''provider available balance cannot exceed wallet balance'') (Inr ())))"

definition balance_mismatch :: "balance_request \<Rightarrow> balance_snapshot \<Rightarrow> bool" where
  "balance_mismatch q remote \<longleftrightarrow>
     bp_walletBalanceToleranceRaw (bq_policy q) < \<bar>lb_walletBalanceRaw (bq_local q) - lb_walletBalanceRaw remote\<bar> \<or>
     bp_availableBalanceToleranceRaw (bq_policy q) < \<bar>lb_availableBalanceRaw (bq_local q) - lb_availableBalanceRaw remote\<bar>"

definition unavailable_result :: "balance_request \<Rightarrow> string \<Rightarrow> balance_result" where
  "unavailable_result q restrictionId =
     \<lparr>br_reconciliationId = bq_reconciliationId q, br_accountId = lb_accountId (bq_local q), br_asset = lb_asset (bq_local q),
      br_status = BsProviderUnavailable, br_localWalletBalanceRaw = lb_walletBalanceRaw (bq_local q),
      br_providerWalletBalanceRaw = None, br_walletBalanceDifferenceRaw = None,
      br_localAvailableBalanceRaw = lb_availableBalanceRaw (bq_local q), br_providerAvailableBalanceRaw = None,
      br_availableBalanceDifferenceRaw = None, br_observedAtMs = bq_nowMs q, br_restrictionId = Some restrictionId,
      br_reason = Some ''provider balance unavailable''\<rparr>"

definition compared_result :: "balance_request \<Rightarrow> balance_snapshot \<Rightarrow> string option \<Rightarrow> balance_result" where
  "compared_result q remote restrictionId =
     \<lparr>br_reconciliationId = bq_reconciliationId q, br_accountId = lb_accountId (bq_local q), br_asset = lb_asset (bq_local q),
      br_status = (if balance_mismatch q remote then BsMismatch else BsMatched),
      br_localWalletBalanceRaw = lb_walletBalanceRaw (bq_local q),
      br_providerWalletBalanceRaw = Some (lb_walletBalanceRaw remote),
      br_walletBalanceDifferenceRaw = Some \<bar>lb_walletBalanceRaw (bq_local q) - lb_walletBalanceRaw remote\<bar>,
      br_localAvailableBalanceRaw = lb_availableBalanceRaw (bq_local q),
      br_providerAvailableBalanceRaw = Some (lb_availableBalanceRaw remote),
      br_availableBalanceDifferenceRaw = Some \<bar>lb_availableBalanceRaw (bq_local q) - lb_availableBalanceRaw remote\<bar>,
      br_observedAtMs = bq_nowMs q, br_restrictionId = restrictionId,
      br_reason = (if balance_mismatch q remote then Some ''provider and local balance differ beyond tolerance'' else None)\<rparr>"

definition reconcileBalance ::
  "'e balance_port \<Rightarrow> balance_request \<Rightarrow> 'e recon_world \<Rightarrow> balance_result result \<times> 'e recon_world" where
  "reconcileBalance port q w =
     (case bind_r (balance_checks port q (rw_evidence w))
             (\<lambda>_. bind_r (bt_getBalance port (lb_accountId (bq_local q)) (lb_asset (bq_local q)))
             (\<lambda>remote. case remote of None \<Rightarrow> Inr None | Some r \<Rightarrow> bind_r (remote_checks q r) (\<lambda>_. Inr (Some r)))) of
        Inl e \<Rightarrow> (Inl e, w)
      | Inr None \<Rightarrow>
        restrict_and_store (bt_append port) (active_restriction (bq_restrictionId q) (lb_accountId (bq_local q)) RrBalanceStateUncertain
            (bq_reconciliationId q) (bq_nowMs q)) (unavailable_result q) w
      | Inr (Some remote) \<Rightarrow>
        if balance_mismatch q remote
        then restrict_and_store (bt_append port) (active_restriction (bq_restrictionId q) (lb_accountId (bq_local q)) RrBalanceMismatch
            (bq_reconciliationId q) (bq_nowMs q)) (\<lambda>i. compared_result q remote (Some i)) w
        else store_result (bt_append port) (compared_result q remote None) w)"

definition enforceBalanceReconciliationFreshness ::
  "'e balance_port \<Rightarrow> string \<Rightarrow> balance_snapshot \<Rightarrow> jsnum \<Rightarrow> jsnum \<Rightarrow> jsnum \<Rightarrow> 'e recon_world \<Rightarrow>
    restriction option result \<times> 'e recon_world" where
  "enforceBalanceReconciliationFreshness port restrictionId l nowMs warningAgeMs maximumAgeMs w =
     (let latest = bt_getLatest port (rw_evidence w) (lb_accountId l) (lb_asset l);
          stale = (case latest of None \<Rightarrow> Inr True
            | Some r \<Rightarrow> bind_r (evaluateBalanceReconciliationFreshness r nowMs warningAgeMs maximumAgeMs)
                (\<lambda>f. Inr (f = BfStale \<or> br_status r \<noteq> BsMatched)))
      in case stale of
           Inl e \<Rightarrow> (Inl e, w)
         | Inr False \<Rightarrow> (Inr None, w)
         | Inr True \<Rightarrow>
           (case ensure_restricted (active_restriction restrictionId (lb_accountId l) RrBalanceReconciliationStale
                (case latest of Some r \<Rightarrow> br_reconciliationId r | None \<Rightarrow> ''missing:'' @ lb_asset l) nowMs) (lw_restrictions w) of
              Inl e \<Rightarrow> (Inl e, w)
            | Inr (x, m) \<Rightarrow> (Inr (Some x), w\<lparr>lw_restrictions := m\<rparr>)))"

section \<open>Release\<close>

record balance_release =
  bl_releaseId :: string
  bl_restrictionId :: string
  bl_matchedBalanceReconciliationId :: string
  bl_requestedBy :: string
  bl_verifiedBy :: string
  bl_rationale :: string
  bl_nowMs :: jsnum

definition release_approval :: "balance_release \<Rightarrow> unit result" where
  "release_approval q =
     guard_r (blank (bl_releaseId q) \<or> blank (bl_matchedBalanceReconciliationId q))
       (Error ''release and reconciliation ids are required'')
     (guard_r (blank (bl_requestedBy q) \<or> blank (bl_verifiedBy q)) (Error ''requester and verifier are required'')
     (guard_r (bl_requestedBy q = bl_verifiedBy q) (Error ''requester and verifier must be different'')
     (guard_r (blank (bl_rationale q)) (Error ''release rationale is required'') (Inr ()))))"

definition release_matched ::
  "'e balance_port \<Rightarrow> balance_release \<Rightarrow> 'e recon_world \<Rightarrow> (restriction \<times> balance_result) result" where
  "release_matched port q w =
     (case rx_getById (lw_restrictions w) (bl_restrictionId q) of
        None \<Rightarrow> throw ''active restriction not found''
      | Some r \<Rightarrow>
        guard_r (rx_status r \<noteq> RActive) (Error ''active restriction not found'')
        (guard_r (rx_reason r \<notin> {RrBalanceMismatch, RrBalanceStateUncertain, RrBalanceReconciliationStale})
          (Error ''restriction is not balance-related'')
        (case bt_getById port (rw_evidence w) (bl_matchedBalanceReconciliationId q) of
           None \<Rightarrow> throw ''matched balance reconciliation evidence is required''
         | Some m \<Rightarrow>
           guard_r (br_status m \<noteq> BsMatched) (Error ''matched balance reconciliation evidence is required'')
           (guard_r (br_accountId m \<noteq> rx_accountId r) (Error ''matched balance reconciliation account mismatch'')
           (guard_r (br_observedAtMs m < rx_createdAtMs r \<or> br_reconciliationId m = rx_sourceRunId r)
             (Error ''matched balance reconciliation must postdate the restriction'') (Inr (r, m)))))))"

definition balance_release_op ::
  "'e balance_port \<Rightarrow> balance_release \<Rightarrow> 'e recon_world \<Rightarrow> restriction result \<times> 'e recon_world" where
  "balance_release_op port q w =
     (case release_matched port q w of
        Inl e \<Rightarrow> (Inl e, w)
      | Inr (r, m) \<Rightarrow>
        store_release \<lparr>rv_releaseId = bl_releaseId q, rv_restrictionId = rx_restrictionId r, rv_accountId = rx_accountId r,
             rv_requestedBy = bl_requestedBy q, rv_verifiedBy = bl_verifiedBy q, rv_rationale = js_trim (bl_rationale q),
             rv_verifiedIntentIds = [], rv_matchedReconciliationId = None,
             rv_matchedBalanceReconciliationId = Some (br_reconciliationId m), rv_matchedFundingReconciliationId = None,
             rv_matchedFeeReconciliationId = None, rv_matchedFillReconciliationId = None,
             rv_matchedPnlReconciliationId = None, rv_releasedAtMs = bl_nowMs q\<rparr> r w)"

definition releaseBalanceRestriction ::
  "('e, restriction) recon_transaction option \<Rightarrow> 'e balance_port \<Rightarrow> balance_release \<Rightarrow> 'e recon_world \<Rightarrow>
    restriction result \<times> 'e recon_world" where
  "releaseBalanceRestriction transaction port q w =
     (case release_approval q of
        Inl e \<Rightarrow> (Inl e, w)
      | Inr _ \<Rightarrow> (case transaction of None \<Rightarrow> balance_release_op port q w | Some t \<Rightarrow> t (balance_release_op port q) w))"

definition scripted_getBalance :: "balance_snapshot list \<Rightarrow> string \<Rightarrow> string \<Rightarrow> balance_snapshot option" where
  "scripted_getBalance snapshots accountId asset =
     List.find (\<lambda>s. lb_accountId s = accountId \<and> lb_asset s = asset) snapshots"

section \<open>What lifts a restriction\<close>

lemma reconcileBalance_restricts:
  assumes "reconcileBalance port q w = (res, w')" "rx_good (lw_restrictions w)"
  shows "(\<forall>a. restricted w a \<longrightarrow> restricted w' a) \<and>
    (\<forall>r. res = Inr r \<longrightarrow>
       (if br_status r = BsMatched
        then \<exists>remote. bt_getBalance port (lb_accountId (bq_local q)) (lb_asset (bq_local q)) = Inr (Some remote) \<and>
          \<bar>lb_walletBalanceRaw (bq_local q) - lb_walletBalanceRaw remote\<bar> \<le> bp_walletBalanceToleranceRaw (bq_policy q) \<and>
          \<bar>lb_availableBalanceRaw (bq_local q) - lb_availableBalanceRaw remote\<bar> \<le> bp_availableBalanceToleranceRaw (bq_policy q)
        else restricted w' (lb_accountId (bq_local q))))"
proof (cases "bind_r (balance_checks port q (rw_evidence w))
             (\<lambda>_. bind_r (bt_getBalance port (lb_accountId (bq_local q)) (lb_asset (bq_local q)))
             (\<lambda>remote. case remote of None \<Rightarrow> Inr None | Some r \<Rightarrow> bind_r (remote_checks q r) (\<lambda>_. Inr (Some r))))")
  case (Inl e)
  then show ?thesis using assms(1) by (auto simp: reconcileBalance_def)
next
  case (Inr seen)
  show ?thesis
  proof (cases seen)
    case None
    have "restrict_and_store (bt_append port) (active_restriction (bq_restrictionId q) (lb_accountId (bq_local q)) RrBalanceStateUncertain
            (bq_reconciliationId q) (bq_nowMs q)) (unavailable_result q) w = (res, w')"
      using assms(1) Inr None by (simp add: reconcileBalance_def)
    from restrict_and_store_restricts [OF this assms(2)] show ?thesis by (auto simp: unavailable_result_def)
  next
    case (Some remote)
    have get: "bt_getBalance port (lb_accountId (bq_local q)) (lb_asset (bq_local q)) = Inr (Some remote)"
      using Inr Some by (auto simp: result_simps split: option.splits)
    show ?thesis
    proof (cases "balance_mismatch q remote")
      case True
      have "restrict_and_store (bt_append port) (active_restriction (bq_restrictionId q) (lb_accountId (bq_local q)) RrBalanceMismatch
            (bq_reconciliationId q) (bq_nowMs q)) (\<lambda>i. compared_result q remote (Some i)) w = (res, w')"
        using assms(1) Inr Some True by (simp add: reconcileBalance_def)
      from restrict_and_store_restricts [OF this assms(2)] True show ?thesis by (auto simp: compared_result_def)
    next
      case False
      have "store_result (bt_append port) (compared_result q remote None) w = (res, w')"
        using assms(1) Inr Some False by (simp add: reconcileBalance_def)
      from store_result_frame [OF this] False get show ?thesis
        by (auto simp: compared_result_def balance_mismatch_def not_less)
    qed
  qed
qed

lemma enforce_keeps:
  assumes "enforceBalanceReconciliationFreshness port i l n wa ma w = (res, w')" "rx_good (lw_restrictions w)"
    "restricted w a"
  shows "restricted w' a"
  using assms
  by (auto simp: enforceBalanceReconciliationFreshness_def Let_def dest!: ensure_restricted_Inr
      split: sum.splits bool.splits prod.splits)

lemma release_matched_Inr:
  assumes "release_matched port q w = Inr (r, m)"
  shows "rx_getById (lw_restrictions w) (bl_restrictionId q) = Some r \<and> rx_status r = RActive \<and>
    bt_getById port (rw_evidence w) (bl_matchedBalanceReconciliationId q) = Some m \<and> br_status m = BsMatched \<and>
    br_accountId m = rx_accountId r \<and> \<not> br_observedAtMs m < rx_createdAtMs r \<and> br_reconciliationId m \<noteq> rx_sourceRunId r"
  using assms by (auto simp: release_matched_def result_simps split: option.splits)

datatype balance_op =
  BoReconcile balance_request | BoEnforce string balance_snapshot jsnum jsnum jsnum | BoRelease balance_release

definition balance_apply :: "'e balance_port \<Rightarrow> balance_op \<Rightarrow> 'e recon_world \<Rightarrow> 'e recon_world" where
  "balance_apply port op w =
     (case op of
        BoReconcile q \<Rightarrow> snd (reconcileBalance port q w)
      | BoEnforce i l n wa ma \<Rightarrow> snd (enforceBalanceReconciliationFreshness port i l n wa ma w)
      | BoRelease q \<Rightarrow> snd (releaseBalanceRestriction None port q w))"

definition two_person_release :: "'e balance_port \<Rightarrow> 'e recon_world \<Rightarrow> string \<Rightarrow> balance_release \<Rightarrow> bool" where
  "two_person_release port w account q \<longleftrightarrow>
     bl_requestedBy q \<noteq> bl_verifiedBy q \<and> \<not> blank (bl_requestedBy q) \<and> \<not> blank (bl_verifiedBy q) \<and> \<not> blank (bl_rationale q) \<and>
     (\<exists>r m. rx_getById (lw_restrictions w) (bl_restrictionId q) = Some r \<and> rx_accountId r = account \<and>
        bt_getById port (rw_evidence w) (bl_matchedBalanceReconciliationId q) = Some m \<and> br_status m = BsMatched \<and>
        br_accountId m = account \<and> \<not> br_observedAtMs m < rx_createdAtMs r \<and> br_reconciliationId m \<noteq> rx_sourceRunId r)"

lemma release_lifts:
  assumes "rx_good (lw_restrictions w)" "restricted w a"
    "\<not> restricted (snd (releaseBalanceRestriction None port q w)) a"
  shows "two_person_release port w a q"
proof -
  have ok: "release_approval q = Inr ()"
    using assms(2,3) by (cases "release_approval q") (auto simp: releaseBalanceRestriction_def)
  then have ch: "\<not> restricted (snd (balance_release_op port q w)) a"
    using assms(3) by (simp add: releaseBalanceRestriction_def)
  then obtain r m where rm: "release_matched port q w = Inr (r, m)"
    using assms(2) by (cases "release_matched port q w") (auto simp: balance_release_op_def)
  have "rx_accountId r = a" using store_release_lifts [OF assms(1,2)] ch rm by (auto simp: balance_release_op_def)
  then show ?thesis using release_matched_Inr [OF rm] ok
    by (auto simp: two_person_release_def release_approval_def guard_r_def split: if_splits)
qed

text \<open>C17: A balance reconciliation that returns anything but MATCHED leaves the account restricted, and returns MATCHED
  only for a provider answer within both tolerances. Over the operations of the component - reconciliations, freshness
  checks and releases, failed ones included - an account loses its restriction only in a release that two different
  named people give with a rationale over matched evidence of the same account, not older than the restriction and not
  the run that raised it.\<close>
theorem balance_restriction_lifecycle:
  assumes "rx_good (lw_restrictions w)"
  shows "(case reconcileBalance port q w of
      (Inl e, w') \<Rightarrow> True
    | (Inr r, w') \<Rightarrow> if br_status r = BsMatched
        then \<exists>remote. bt_getBalance port (lb_accountId (bq_local q)) (lb_asset (bq_local q)) = Inr (Some remote) \<and>
          \<bar>lb_walletBalanceRaw (bq_local q) - lb_walletBalanceRaw remote\<bar> \<le> bp_walletBalanceToleranceRaw (bq_policy q) \<and>
          \<bar>lb_availableBalanceRaw (bq_local q) - lb_availableBalanceRaw remote\<bar> \<le> bp_availableBalanceToleranceRaw (bq_policy q)
        else restricted w' (lb_accountId (bq_local q))) \<and>
    (restricted w a \<and> \<not> restricted (balance_apply port op w) a \<longrightarrow>
      (\<exists>l. op = BoRelease l \<and> two_person_release port w a l))"
proof (intro conjI impI)
  show "case reconcileBalance port q w of
      (Inl e, w') \<Rightarrow> True
    | (Inr r, w') \<Rightarrow> if br_status r = BsMatched
        then \<exists>remote. bt_getBalance port (lb_accountId (bq_local q)) (lb_asset (bq_local q)) = Inr (Some remote) \<and>
          \<bar>lb_walletBalanceRaw (bq_local q) - lb_walletBalanceRaw remote\<bar> \<le> bp_walletBalanceToleranceRaw (bq_policy q) \<and>
          \<bar>lb_availableBalanceRaw (bq_local q) - lb_availableBalanceRaw remote\<bar> \<le> bp_availableBalanceToleranceRaw (bq_policy q)
        else restricted w' (lb_accountId (bq_local q))"
    using reconcileBalance_restricts [OF surjective_pairing assms, of port q] by (auto split: prod.split sum.split)
next
  assume l: "restricted w a \<and> \<not> restricted (balance_apply port op w) a"
  show "\<exists>l. op = BoRelease l \<and> two_person_release port w a l"
  proof (cases op)
    case (BoReconcile q')
    have "restricted (snd (reconcileBalance port q' w)) a"
      using conjunct1 [OF reconcileBalance_restricts [OF surjective_pairing assms, of port q']] l by blast
    then show ?thesis using l by (simp add: balance_apply_def BoReconcile)
  next
    case (BoEnforce i s n wa ma)
    then show ?thesis using l enforce_keeps [OF surjective_pairing assms, of a] by (simp add: balance_apply_def)
  next
    case (BoRelease q')
    then show ?thesis using l release_lifts [OF assms] by (simp add: balance_apply_def)
  qed
qed

section \<open>A concrete run\<close>

definition sample_balance :: "int \<Rightarrow> balance_snapshot" where
  "sample_balance n = \<lparr>lb_accountId = ''acc'', lb_asset = ''KRW'', lb_walletBalanceRaw = n, lb_availableBalanceRaw = n,
     lb_observedAtMs = Fin 1\<rparr>"

definition sample_port :: "balance_result list balance_port" where
  "sample_port = \<lparr>bt_getBalance = (\<lambda>a x. Inr (scripted_getBalance [sample_balance 90] a x)),
     bt_append = (\<lambda>r s. (Inr (), r # s)), bt_getById = (\<lambda>s i. List.find (\<lambda>r. br_reconciliationId r = i) s),
     bt_getLatest = (\<lambda>s a x. List.find (\<lambda>r. br_accountId r = a \<and> br_asset r = x) s)\<rparr>"

definition sample_balance_request :: balance_request where
  "sample_balance_request = \<lparr>bq_reconciliationId = ''rec'', bq_restrictionId = ''rx'', bq_local = sample_balance 100,
     bq_policy = \<lparr>bp_walletBalanceToleranceRaw = 5, bp_availableBalanceToleranceRaw = 5\<rparr>, bq_nowMs = Fin 2\<rparr>"

definition sample_balance_world :: "balance_result list recon_world" where
  "sample_balance_world = \<lparr>lw_restrictions = [], lw_evidence = [], rw_evidence = []\<rparr>"

lemma balance_restriction_lifecycle_witness:
  "rx_getActiveForAccount (lw_restrictions (snd (reconcileBalance sample_port sample_balance_request sample_balance_world))) ''acc'' \<noteq> None"
proof -
  have s: "map_sum (\<lambda>e. ()) br_status (fst (reconcileBalance sample_port sample_balance_request sample_balance_world)) = Inr BsMismatch"
    by code_simp
  have g: "rx_good (lw_restrictions sample_balance_world)" by (simp add: rx_good_def sample_balance_world_def)
  have a: "lb_accountId (bq_local sample_balance_request) = ''acc''" by (simp add: sample_balance_request_def sample_balance_def)
  obtain x w' where x: "reconcileBalance sample_port sample_balance_request sample_balance_world = (Inr x, w')"
    "br_status x \<noteq> BsMatched"
    using s by (cases "reconcileBalance sample_port sample_balance_request sample_balance_world"; cases "fst (reconcileBalance sample_port sample_balance_request sample_balance_world)") auto
  show ?thesis using conjunct1 [OF balance_restriction_lifecycle [OF g, of sample_port sample_balance_request]] x a
    by (simp add: rx_repo.restricted_def)
qed

end
