(* ===== verification/PositionReconciliation.thy ===== *)
theory PositionReconciliation imports Reconcile begin

text \<open>
  \<open>apps/execution/src/position-reconciliation.ts\<close>: the comparison of a local position with the
  provider's and the release of position restrictions, over \<open>Reconcile\<close>.  Of the local position
  (\<open>WalletPositionSnapshot\<close>) the code reads the wallet, the symbol, the quantity and the average entry
  price.  Unlike a balance, an unavailable position is only recorded and raises no restriction.
\<close>

section \<open>Types\<close>

datatype position_status = PrMatched | PrMismatch | PrProviderUnavailable

record local_position =
  lp_walletId :: string
  lp_symbol :: string
  lp_baseQtyRaw :: int
  lp_avgEntryPriceRaw :: "int option"

record provider_position =
  pp_accountId :: string
  pp_symbol :: string
  pp_baseQtyRaw :: int
  pp_avgEntryPriceRaw :: "int option"
  pp_observedAtMs :: jsnum

record position_policy =
  py_baseQtyToleranceRaw :: int
  py_avgEntryPriceToleranceRaw :: int

record position_result =
  pz_reconciliationId :: string
  pz_accountId :: string
  pz_symbol :: string
  pz_status :: position_status
  pz_localBaseQtyRaw :: int
  pz_providerBaseQtyRaw :: "int option"
  pz_baseQtyDifferenceRaw :: "int option"
  pz_localAvgEntryPriceRaw :: "int option"
  pz_providerAvgEntryPriceRaw :: "int option"
  pz_avgEntryPriceDifferenceRaw :: "int option"
  pz_observedAtMs :: jsnum
  pz_restrictionId :: "string option"
  pz_reason :: "string option"

record 'e position_port =
  pt_getPosition :: "string \<Rightarrow> string \<Rightarrow> provider_position option result"
  pt_append :: "position_result \<Rightarrow> 'e \<Rightarrow> unit result \<times> 'e"
  pt_getById :: "'e \<Rightarrow> string \<Rightarrow> position_result option"

record position_request =
  pn_reconciliationId :: string
  pn_restrictionId :: string
  pn_accountId :: string
  pn_local :: local_position
  pn_policy :: position_policy
  pn_nowMs :: jsnum

section \<open>Reconciliation\<close>

definition assert_position_policy :: "position_policy \<Rightarrow> unit result" where
  "assert_position_policy p =
     guard_r (py_baseQtyToleranceRaw p < 0) (Error ''baseQtyToleranceRaw must be a non-negative bigint'')
     (guard_r (py_avgEntryPriceToleranceRaw p < 0) (Error ''avgEntryPriceToleranceRaw must be a non-negative bigint'') (Inr ()))"

definition position_checks :: "'e position_port \<Rightarrow> position_request \<Rightarrow> 'e \<Rightarrow> unit result" where
  "position_checks port q s =
     guard_r (blank (pn_reconciliationId q)) (Error ''reconciliationId is required'')
     (guard_r (blank (pn_restrictionId q)) (Error ''restrictionId is required'')
     (guard_r (blank (pn_accountId q)) (Error ''accountId is required'')
     (guard_r (\<not> is_safe_integer (pn_nowMs q) \<or> pn_nowMs q < Fin 0) (Error ''nowMs must be a non-negative safe integer'')
     (guard_r (lp_walletId (pn_local q) \<noteq> pn_accountId q) (Error ''local position account mismatch'')
     (bind_r (assert_position_policy (pn_policy q)) (\<lambda>_.
      guard_r (pt_getById port s (pn_reconciliationId q) \<noteq> None)
        (Error ''position reconciliation id already exists'') (Inr ())))))))"

definition position_remote_checks :: "position_request \<Rightarrow> provider_position \<Rightarrow> unit result" where
  "position_remote_checks q remote =
     guard_r (pp_accountId remote \<noteq> pn_accountId q \<or> pp_symbol remote \<noteq> lp_symbol (pn_local q))
       (Error ''provider position identity mismatch'')
     (guard_r (pn_nowMs q < pp_observedAtMs remote) (Error ''provider observation cannot be in the future'') (Inr ()))"

definition average_difference :: "position_request \<Rightarrow> provider_position \<Rightarrow> int" where
  "average_difference q remote =
     (case (lp_avgEntryPriceRaw (pn_local q), pp_avgEntryPriceRaw remote) of
        (None, None) \<Rightarrow> 0
      | (Some a, Some b) \<Rightarrow> \<bar>a - b\<bar>
      | _ \<Rightarrow> py_avgEntryPriceToleranceRaw (pn_policy q) + 1)"

definition position_mismatch :: "position_request \<Rightarrow> provider_position \<Rightarrow> bool" where
  "position_mismatch q remote \<longleftrightarrow>
     py_baseQtyToleranceRaw (pn_policy q) < \<bar>lp_baseQtyRaw (pn_local q) - pp_baseQtyRaw remote\<bar> \<or>
     py_avgEntryPriceToleranceRaw (pn_policy q) < average_difference q remote"

definition position_unavailable :: "position_request \<Rightarrow> position_result" where
  "position_unavailable q =
     \<lparr>pz_reconciliationId = pn_reconciliationId q, pz_accountId = pn_accountId q, pz_symbol = lp_symbol (pn_local q),
      pz_status = PrProviderUnavailable, pz_localBaseQtyRaw = lp_baseQtyRaw (pn_local q), pz_providerBaseQtyRaw = None,
      pz_baseQtyDifferenceRaw = None, pz_localAvgEntryPriceRaw = lp_avgEntryPriceRaw (pn_local q),
      pz_providerAvgEntryPriceRaw = None, pz_avgEntryPriceDifferenceRaw = None, pz_observedAtMs = pn_nowMs q,
      pz_restrictionId = None, pz_reason = Some ''provider position unavailable''\<rparr>"

definition position_compared :: "position_request \<Rightarrow> provider_position \<Rightarrow> string option \<Rightarrow> position_result" where
  "position_compared q remote restrictionId =
     \<lparr>pz_reconciliationId = pn_reconciliationId q, pz_accountId = pn_accountId q, pz_symbol = lp_symbol (pn_local q),
      pz_status = (if position_mismatch q remote then PrMismatch else PrMatched),
      pz_localBaseQtyRaw = lp_baseQtyRaw (pn_local q), pz_providerBaseQtyRaw = Some (pp_baseQtyRaw remote),
      pz_baseQtyDifferenceRaw = Some \<bar>lp_baseQtyRaw (pn_local q) - pp_baseQtyRaw remote\<bar>,
      pz_localAvgEntryPriceRaw = lp_avgEntryPriceRaw (pn_local q), pz_providerAvgEntryPriceRaw = pp_avgEntryPriceRaw remote,
      pz_avgEntryPriceDifferenceRaw = Some (average_difference q remote), pz_observedAtMs = pn_nowMs q,
      pz_restrictionId = restrictionId,
      pz_reason = (if position_mismatch q remote then Some ''provider and local position differ beyond tolerance'' else None)\<rparr>"

definition reconcilePosition ::
  "'e position_port \<Rightarrow> position_request \<Rightarrow> 'e recon_world \<Rightarrow> position_result result \<times> 'e recon_world" where
  "reconcilePosition port q w =
     (case bind_r (position_checks port q (rw_evidence w))
             (\<lambda>_. bind_r (pt_getPosition port (pn_accountId q) (lp_symbol (pn_local q)))
             (\<lambda>remote. case remote of None \<Rightarrow> Inr None | Some r \<Rightarrow> bind_r (position_remote_checks q r) (\<lambda>_. Inr (Some r)))) of
        Inl e \<Rightarrow> (Inl e, w)
      | Inr None \<Rightarrow> store_result (pt_append port) (position_unavailable q) w
      | Inr (Some remote) \<Rightarrow>
        if position_mismatch q remote
        then restrict_and_store (pt_append port) (active_restriction (pn_restrictionId q) (pn_accountId q) RrPositionMismatch
            (pn_reconciliationId q) (pn_nowMs q)) (\<lambda>i. position_compared q remote (Some i)) w
        else store_result (pt_append port) (position_compared q remote None) w)"

section \<open>Release\<close>

record position_release =
  px_releaseId :: string
  px_restrictionId :: string
  px_matchedReconciliationId :: string
  px_requestedBy :: string
  px_verifiedBy :: string
  px_rationale :: string
  px_nowMs :: jsnum

definition position_approval :: "position_release \<Rightarrow> unit result" where
  "position_approval q =
     guard_r (blank (px_releaseId q)) (Error ''releaseId is required'')
     (guard_r (blank (px_matchedReconciliationId q)) (Error ''matchedReconciliationId is required'')
     (guard_r (blank (px_requestedBy q) \<or> blank (px_verifiedBy q)) (Error ''requester and verifier are required'')
     (guard_r (px_requestedBy q = px_verifiedBy q) (Error ''requester and verifier must be different'')
     (guard_r (blank (px_rationale q)) (Error ''release rationale is required'') (Inr ())))))"

definition position_release_matched ::
  "'e position_port \<Rightarrow> position_release \<Rightarrow> 'e recon_world \<Rightarrow> (restriction \<times> position_result) result" where
  "position_release_matched port q w =
     (case rx_getById (lw_restrictions w) (px_restrictionId q) of
        None \<Rightarrow> throw ''restriction not found''
      | Some r \<Rightarrow>
        guard_r (rx_status r \<noteq> RActive) (Error ''only active restrictions can be released'')
        (guard_r (rx_reason r \<notin> {RrPositionMismatch, RrPositionStateUncertain, RrPositionReconciliationStale})
          (Error ''restriction is not position-related'')
        (guard_r (\<not> is_safe_integer (px_nowMs q) \<or> px_nowMs q < rx_createdAtMs r) (Error ''release time is invalid'')
        (case pt_getById port (rw_evidence w) (px_matchedReconciliationId q) of
           None \<Rightarrow> throw ''matched reconciliation evidence not found''
         | Some m \<Rightarrow>
           guard_r (pz_status m \<noteq> PrMatched) (Error ''position reconciliation is not matched'')
           (guard_r (pz_accountId m \<noteq> rx_accountId r) (Error ''matched reconciliation account mismatch'')
           (guard_r (pz_observedAtMs m < rx_createdAtMs r) (Error ''matched reconciliation predates restriction'')
           (guard_r (pz_reconciliationId m = rx_sourceRunId r) (Error ''source reconciliation cannot release restriction'')
             (Inr (r, m)))))))))"

definition position_release_op ::
  "'e position_port \<Rightarrow> position_release \<Rightarrow> 'e recon_world \<Rightarrow> restriction result \<times> 'e recon_world" where
  "position_release_op port q w =
     (case position_release_matched port q w of
        Inl e \<Rightarrow> (Inl e, w)
      | Inr (r, m) \<Rightarrow>
        store_release \<lparr>rv_releaseId = px_releaseId q, rv_restrictionId = rx_restrictionId r, rv_accountId = rx_accountId r,
             rv_requestedBy = px_requestedBy q, rv_verifiedBy = px_verifiedBy q, rv_rationale = js_trim (px_rationale q),
             rv_verifiedIntentIds = [], rv_matchedReconciliationId = Some (pz_reconciliationId m),
             rv_matchedBalanceReconciliationId = None, rv_matchedFundingReconciliationId = None,
             rv_matchedFeeReconciliationId = None, rv_matchedFillReconciliationId = None,
             rv_matchedPnlReconciliationId = None, rv_releasedAtMs = px_nowMs q\<rparr> r w)"

definition releasePositionMismatchRestriction ::
  "('e, restriction) recon_transaction option \<Rightarrow> 'e position_port \<Rightarrow> position_release \<Rightarrow> 'e recon_world \<Rightarrow>
    restriction result \<times> 'e recon_world" where
  "releasePositionMismatchRestriction transaction port q w =
     (case position_approval q of
        Inl e \<Rightarrow> (Inl e, w)
      | Inr _ \<Rightarrow> (case transaction of None \<Rightarrow> position_release_op port q w | Some t \<Rightarrow> t (position_release_op port q) w))"

definition scripted_getPosition :: "provider_position list \<Rightarrow> string \<Rightarrow> string \<Rightarrow> provider_position option" where
  "scripted_getPosition snapshots accountId symbol =
     List.find (\<lambda>s. pp_accountId s = accountId \<and> pp_symbol s = symbol) snapshots"

section \<open>Restriction life cycle\<close>

lemma reconcilePosition_restricts:
  assumes "reconcilePosition port q w = (res, w')" "rx_good (lw_restrictions w)"
  shows "(\<forall>a. restricted w a \<longrightarrow> restricted w' a) \<and>
    (\<forall>r. res = Inr r \<and> pz_status r = PrMismatch \<longrightarrow> restricted w' (pn_accountId q)) \<and>
    (\<forall>r. res = Inr r \<and> pz_status r = PrMatched \<longrightarrow>
       (\<exists>remote. pt_getPosition port (pn_accountId q) (lp_symbol (pn_local q)) = Inr (Some remote) \<and> \<not> position_mismatch q remote))"
proof (cases "bind_r (position_checks port q (rw_evidence w))
             (\<lambda>_. bind_r (pt_getPosition port (pn_accountId q) (lp_symbol (pn_local q)))
             (\<lambda>remote. case remote of None \<Rightarrow> Inr None | Some r \<Rightarrow> bind_r (position_remote_checks q r) (\<lambda>_. Inr (Some r))))")
  case (Inl e)
  then show ?thesis using assms(1) by (auto simp: reconcilePosition_def)
next
  case (Inr seen)
  show ?thesis
  proof (cases seen)
    case None
    then have "store_result (pt_append port) (position_unavailable q) w = (res, w')"
      using assms(1) Inr by (simp add: reconcilePosition_def)
    from store_result_frame [OF this] have w': "lw_restrictions w' = lw_restrictions w"
      and u: "\<And>x. res = Inr x \<Longrightarrow> x = position_unavailable q" by blast+
    have "pz_status (position_unavailable q) = PrProviderUnavailable" by (simp add: position_unavailable_def)
    then have "pz_status x \<noteq> PrMatched \<and> pz_status x \<noteq> PrMismatch" if "res = Inr x" for x using u [OF that] by simp
    then show ?thesis unfolding w' by blast
  next
    case (Some remote)
    have get: "pt_getPosition port (pn_accountId q) (lp_symbol (pn_local q)) = Inr (Some remote)"
      using Inr Some by (auto simp: result_simps split: option.splits)
    show ?thesis
    proof (cases "position_mismatch q remote")
      case True
      have "restrict_and_store (pt_append port) (active_restriction (pn_restrictionId q) (pn_accountId q) RrPositionMismatch
            (pn_reconciliationId q) (pn_nowMs q)) (\<lambda>i. position_compared q remote (Some i)) w = (res, w')"
        using assms(1) Inr Some True by (simp add: reconcilePosition_def)
      from restrict_and_store_restricts [OF this assms(2)] True show ?thesis by (auto simp: position_compared_def)
    next
      case False
      have "store_result (pt_append port) (position_compared q remote None) w = (res, w')"
        using assms(1) Inr Some False by (simp add: reconcilePosition_def)
      from store_result_frame [OF this] False get show ?thesis by (auto simp: position_compared_def)
    qed
  qed
qed

lemma position_release_lifts:
  assumes "rx_good (lw_restrictions w)" "restricted w a"
    "\<not> restricted (snd (releasePositionMismatchRestriction None port q w)) a"
  shows "px_requestedBy q \<noteq> px_verifiedBy q \<and> \<not> blank (px_rationale q) \<and>
    (\<exists>m. pt_getById port (rw_evidence w) (px_matchedReconciliationId q) = Some m \<and> pz_status m = PrMatched \<and> pz_accountId m = a)"
proof -
  have ok: "position_approval q = Inr ()"
    using assms(2,3) by (cases "position_approval q") (auto simp: releasePositionMismatchRestriction_def)
  then have ch: "\<not> restricted (snd (position_release_op port q w)) a"
    using assms(3) by (simp add: releasePositionMismatchRestriction_def)
  then obtain r m where rm: "position_release_matched port q w = Inr (r, m)"
    using assms(2) by (cases "position_release_matched port q w") (auto simp: position_release_op_def)
  have "rx_accountId r = a" using store_release_lifts [OF assms(1,2)] ch rm by (auto simp: position_release_op_def)
  moreover have "pt_getById port (rw_evidence w) (px_matchedReconciliationId q) = Some m \<and> pz_status m = PrMatched \<and>
      pz_accountId m = rx_accountId r"
    using rm by (auto simp: position_release_matched_def result_simps split: option.splits)
  ultimately show ?thesis using ok by (auto simp: position_approval_def guard_r_def split: if_splits)
qed

end
