(* ===== verification/FundingReconciliation.thy ===== *)
theory FundingReconciliation imports Reconcile begin

text \<open>
  \<open>apps/execution/src/funding-reconciliation.ts\<close>: the comparison of local and provider funding fees
  by id, the freshness of its evidence, and the release of funding restrictions, over \<open>Reconcile\<close>.
  The lemmas show what MATCHED means: both sides list the same funding ids once each, with the same
  symbol and asset and amounts within the tolerance.
\<close>

section \<open>Types\<close>

datatype funding_status =
  FuMatched | FuMissingLocal | FuMissingProvider | FuAmountMismatch | FuDuplicateLocal | FuDuplicateProvider
| FuProviderUnavailable

datatype funding_freshness = FfFresh | FfExpiringSoon | FfStale | FfNotMatched

record funding_fee =
  ff_fundingId :: string
  ff_accountId :: string
  ff_symbol :: string
  ff_asset :: string
  ff_amountRaw :: int
  ff_fundingTimeMs :: jsnum

record funding_freshness_policy =
  fy_maximumAgeMs :: jsnum
  fy_expiringSoonAgeMs :: jsnum

record funding_result =
  fr_reconciliationId :: string
  fr_accountId :: string
  fr_status :: funding_status
  fr_localCount :: nat
  fr_providerCount :: nat
  fr_mismatchFundingIds :: "string list"
  fr_observedAtMs :: jsnum
  fr_restrictionId :: "string option"
  fr_reason :: "string option"

record 'e funding_port =
  fp_listFundingFees :: "string \<Rightarrow> jsnum \<Rightarrow> jsnum \<Rightarrow> funding_fee list option result"
  fp_append :: "funding_result \<Rightarrow> 'e \<Rightarrow> unit result \<times> 'e"
  fp_getById :: "'e \<Rightarrow> string \<Rightarrow> funding_result option"
  fp_getLatest :: "'e \<Rightarrow> string \<Rightarrow> funding_result option"

record funding_request =
  fq_reconciliationId :: string
  fq_restrictionId :: string
  fq_accountId :: string
  fq_local :: "funding_fee list"
  fq_fromMs :: jsnum
  fq_toMs :: jsnum
  fq_amountToleranceRaw :: int
  fq_nowMs :: jsnum

section \<open>Comparison\<close>

definition dup_step :: "funding_fee \<Rightarrow> string list \<times> string list \<Rightarrow> string list \<times> string list" where
  "dup_step r sd =
     (if ff_fundingId r \<in> set (fst sd) then (fst sd, set_add (ff_fundingId r) (snd sd))
      else (set_add (ff_fundingId r) (fst sd), snd sd))"

definition duplicateIds :: "funding_fee list \<Rightarrow> string list" where
  "duplicateIds rs = sort (snd (fold dup_step rs ([], [])))"

definition by_id :: "funding_fee list \<Rightarrow> (string \<times> funding_fee) list" where
  "by_id rs = fold (\<lambda>r. AList.update (ff_fundingId r) r) rs []"

definition fee_mismatch :: "int \<Rightarrow> (string \<times> funding_fee) list \<Rightarrow> string \<times> funding_fee \<Rightarrow> bool" where
  "fee_mismatch tol remote e =
     (case map_of remote (fst e) of
        None \<Rightarrow> False
      | Some p \<Rightarrow> ff_symbol p \<noteq> ff_symbol (snd e) \<or> ff_asset p \<noteq> ff_asset (snd e) \<or>
          tol < \<bar>ff_amountRaw p - ff_amountRaw (snd e)\<bar>)"

definition compare_funding :: "int \<Rightarrow> funding_fee list \<Rightarrow> funding_fee list \<Rightarrow> funding_status \<times> string list" where
  "compare_funding tol local_fees remote_fees =
     (if duplicateIds local_fees \<noteq> [] then (FuDuplicateLocal, duplicateIds local_fees)
      else if duplicateIds remote_fees \<noteq> [] then (FuDuplicateProvider, duplicateIds remote_fees)
      else
        let l = by_id local_fees; r = by_id remote_fees;
            missingLocal = sort (filter (\<lambda>i. map_of l i = None) (map fst r));
            missingProvider = sort (filter (\<lambda>i. map_of r i = None) (map fst l));
            amountMismatch = sort (map fst (filter (fee_mismatch tol r) l))
        in if missingLocal \<noteq> [] then (FuMissingLocal, missingLocal)
           else if missingProvider \<noteq> [] then (FuMissingProvider, missingProvider)
           else if amountMismatch \<noteq> [] then (FuAmountMismatch, amountMismatch)
           else (FuMatched, []))"

definition outside_scope :: "funding_request \<Rightarrow> funding_fee \<Rightarrow> bool" where
  "outside_scope q r \<longleftrightarrow>
     ff_accountId r \<noteq> fq_accountId q \<or> ff_fundingTimeMs r < fq_fromMs q \<or> fq_toMs q < ff_fundingTimeMs r"

definition funding_checks :: "'e funding_port \<Rightarrow> funding_request \<Rightarrow> 'e \<Rightarrow> unit result" where
  "funding_checks port q s =
     guard_r (blank (fq_reconciliationId q) \<or> blank (fq_restrictionId q) \<or> blank (fq_accountId q))
       (Error ''funding reconciliation identity is required'')
     (guard_r (\<not> is_safe_integer (fq_fromMs q) \<or> \<not> is_safe_integer (fq_toMs q) \<or> fq_fromMs q < Fin 0 \<or>
         fq_toMs q < fq_fromMs q \<or> \<not> is_safe_integer (fq_nowMs q) \<or> fq_nowMs q < fq_toMs q)
       (Error ''funding reconciliation window is invalid'')
     (guard_r (fq_amountToleranceRaw q < 0) (Error ''amountToleranceRaw must be a non-negative bigint'')
     (guard_r (fp_getById port s (fq_reconciliationId q) \<noteq> None) (Error ''funding reconciliation id already exists'')
     (guard_r (list_ex (outside_scope q) (fq_local q)) (Error ''local funding record outside scope'') (Inr ())))))"

definition funding_outcome :: "funding_request \<Rightarrow> funding_fee list option \<Rightarrow> (funding_status \<times> string list) result" where
  "funding_outcome q remote =
     (case remote of
        None \<Rightarrow> Inr (FuProviderUnavailable, [])
      | Some fees \<Rightarrow>
        guard_r (list_ex (outside_scope q) fees) (Error ''provider funding record outside scope'')
          (Inr (compare_funding (fq_amountToleranceRaw q) (fq_local q) fees)))"

definition funding_result_of ::
  "funding_request \<Rightarrow> funding_fee list option \<Rightarrow> funding_status \<times> string list \<Rightarrow> string option \<Rightarrow> funding_result" where
  "funding_result_of q remote sm restrictionId =
     \<lparr>fr_reconciliationId = fq_reconciliationId q, fr_accountId = fq_accountId q, fr_status = fst sm,
      fr_localCount = length (fq_local q), fr_providerCount = (case remote of None \<Rightarrow> 0 | Some fees \<Rightarrow> length fees),
      fr_mismatchFundingIds = snd sm, fr_observedAtMs = fq_nowMs q, fr_restrictionId = restrictionId,
      fr_reason = (if fst sm = FuMatched then None else Some ''funding fee records are not fully reconciled'')\<rparr>"

definition reconcileFundingFees ::
  "'e funding_port \<Rightarrow> funding_request \<Rightarrow> 'e recon_world \<Rightarrow> funding_result result \<times> 'e recon_world" where
  "reconcileFundingFees port q w =
     (case bind_r (funding_checks port q (rw_evidence w)) (\<lambda>_.
           bind_r (fp_listFundingFees port (fq_accountId q) (fq_fromMs q) (fq_toMs q)) (\<lambda>remote.
           bind_r (funding_outcome q remote) (\<lambda>sm. Inr (remote, sm)))) of
        Inl e \<Rightarrow> (Inl e, w)
      | Inr (remote, sm) \<Rightarrow>
        if fst sm = FuMatched then store_result (fp_append port) (funding_result_of q remote sm None) w
        else restrict_and_store (fp_append port)
          (active_restriction (fq_restrictionId q) (fq_accountId q)
             (if fst sm = FuProviderUnavailable then RrFundingStateUncertain else RrFundingReconciliationMismatch)
             (fq_reconciliationId q) (fq_nowMs q))
          (\<lambda>i. funding_result_of q remote sm (Some i)) w)"

section \<open>Freshness and release\<close>

definition evaluateFundingReconciliationFreshness ::
  "funding_result option \<Rightarrow> jsnum \<Rightarrow> funding_freshness_policy \<Rightarrow> funding_freshness result" where
  "evaluateFundingReconciliationFreshness result nowMs p =
     guard_r (\<not> is_safe_integer nowMs \<or> \<not> is_safe_integer (fy_maximumAgeMs p) \<or> \<not> is_safe_integer (fy_expiringSoonAgeMs p) \<or>
         fy_maximumAgeMs p \<le> Fin 0 \<or> fy_expiringSoonAgeMs p < Fin 0 \<or> fy_maximumAgeMs p \<le> fy_expiringSoonAgeMs p)
       (Error ''funding freshness policy is invalid'')
     (case result of None \<Rightarrow> Inr FfNotMatched
      | Some r \<Rightarrow>
        if fr_status r \<noteq> FuMatched then Inr FfNotMatched
        else let age = nowMs - fr_observedAtMs r
             in guard_r (age < Fin 0) (Error ''funding evidence cannot be from the future'')
                  (Inr (if fy_maximumAgeMs p \<le> age then FfStale else if fy_expiringSoonAgeMs p \<le> age then FfExpiringSoon else FfFresh)))"

definition enforceFundingReconciliationFreshness ::
  "'e funding_port \<Rightarrow> string \<Rightarrow> string \<Rightarrow> funding_freshness_policy \<Rightarrow> jsnum \<Rightarrow> 'e recon_world \<Rightarrow>
    restriction option result \<times> 'e recon_world" where
  "enforceFundingReconciliationFreshness port restrictionId accountId p nowMs w =
     (let latest = fp_getLatest port (rw_evidence w) accountId
      in case evaluateFundingReconciliationFreshness latest nowMs p of
           Inl e \<Rightarrow> (Inl e, w)
         | Inr f \<Rightarrow>
           if f = FfFresh \<or> f = FfExpiringSoon then (Inr None, w)
           else case ensure_restricted (active_restriction restrictionId accountId RrFundingReconciliationStale
                  (case latest of Some r \<Rightarrow> fr_reconciliationId r | None \<Rightarrow> ''MISSING_FUNDING_RECONCILIATION'') nowMs)
                  (lw_restrictions w) of
                  Inl e \<Rightarrow> (Inl e, w)
                | Inr (x, m) \<Rightarrow> (Inr (Some x), w\<lparr>lw_restrictions := m\<rparr>))"

record funding_release =
  fx_releaseId :: string
  fx_restrictionId :: string
  fx_matchedFundingReconciliationId :: string
  fx_requestedBy :: string
  fx_verifiedBy :: string
  fx_rationale :: string
  fx_nowMs :: jsnum

definition funding_approval :: "funding_release \<Rightarrow> unit result" where
  "funding_approval q =
     guard_r (blank (fx_requestedBy q) \<or> blank (fx_verifiedBy q) \<or> fx_requestedBy q = fx_verifiedBy q)
       (Error ''separated requester and verifier are required'')
     (guard_r (blank (fx_rationale q)) (Error ''release rationale is required'') (Inr ()))"

definition funding_release_matched ::
  "'e funding_port \<Rightarrow> funding_release \<Rightarrow> 'e recon_world \<Rightarrow> (restriction \<times> funding_result) result" where
  "funding_release_matched port q w =
     (case rx_getById (lw_restrictions w) (fx_restrictionId q) of
        None \<Rightarrow> throw ''active funding restriction not found''
      | Some r \<Rightarrow>
        guard_r (rx_status r \<noteq> RActive) (Error ''active funding restriction not found'')
        (guard_r (rx_reason r \<notin> {RrFundingReconciliationMismatch, RrFundingStateUncertain, RrFundingReconciliationStale})
          (Error ''restriction is not funding-related'')
        (case fp_getById port (rw_evidence w) (fx_matchedFundingReconciliationId q) of
           None \<Rightarrow> throw ''later matched funding reconciliation is required''
         | Some m \<Rightarrow>
           guard_r (fr_status m \<noteq> FuMatched \<or> fr_accountId m \<noteq> rx_accountId r \<or> fr_observedAtMs m \<le> rx_createdAtMs r)
             (Error ''later matched funding reconciliation is required'') (Inr (r, m)))))"

definition funding_release_op ::
  "'e funding_port \<Rightarrow> funding_release \<Rightarrow> 'e recon_world \<Rightarrow> restriction result \<times> 'e recon_world" where
  "funding_release_op port q w =
     (case funding_release_matched port q w of
        Inl e \<Rightarrow> (Inl e, w)
      | Inr (r, m) \<Rightarrow>
        store_release \<lparr>rv_releaseId = fx_releaseId q, rv_restrictionId = rx_restrictionId r, rv_accountId = rx_accountId r,
             rv_requestedBy = fx_requestedBy q, rv_verifiedBy = fx_verifiedBy q, rv_rationale = js_trim (fx_rationale q),
             rv_verifiedIntentIds = [], rv_matchedReconciliationId = None, rv_matchedBalanceReconciliationId = None,
             rv_matchedFundingReconciliationId = Some (fr_reconciliationId m), rv_matchedFeeReconciliationId = None,
             rv_matchedFillReconciliationId = None, rv_matchedPnlReconciliationId = None,
             rv_releasedAtMs = fx_nowMs q\<rparr> r w)"

definition releaseFundingRestriction ::
  "('e, restriction) recon_transaction option \<Rightarrow> 'e funding_port \<Rightarrow> funding_release \<Rightarrow> 'e recon_world \<Rightarrow>
    restriction result \<times> 'e recon_world" where
  "releaseFundingRestriction transaction port q w =
     (case funding_approval q of
        Inl e \<Rightarrow> (Inl e, w)
      | Inr _ \<Rightarrow> (case transaction of None \<Rightarrow> funding_release_op port q w | Some t \<Rightarrow> t (funding_release_op port q) w))"

definition scripted_listFundingFees :: "funding_fee list option \<Rightarrow> string \<Rightarrow> jsnum \<Rightarrow> jsnum \<Rightarrow> funding_fee list option" where
  "scripted_listFundingFees fees accountId fromMs toMs =
     map_option (filter (\<lambda>r. ff_accountId r = accountId \<and> fromMs \<le> ff_fundingTimeMs r \<and> ff_fundingTimeMs r \<le> toMs)) fees"

section \<open>What MATCHED means\<close>

lemma dup_fold:
  assumes "distinct s"
  shows "set (fst (fold dup_step rs (s, d))) = set s \<union> ff_fundingId ` set rs \<and>
    (snd (fold dup_step rs (s, d)) = [] \<longleftrightarrow> d = [] \<and> distinct (map ff_fundingId rs) \<and> ff_fundingId ` set rs \<inter> set s = {})"
  using assms
proof (induction rs arbitrary: s d)
  case (Cons r rs)
  have ne: "set_add x xs \<noteq> []" for x and xs :: "string list" by (metis insert_not_empty set_empty set_set_add)
  show ?case
  proof (cases "ff_fundingId r \<in> set s")
    case True
    have "set (set_add (ff_fundingId r) d) \<noteq> {}" by simp
    then show ?thesis using Cons.IH [OF Cons.prems, of "set_add (ff_fundingId r) d"] True
      by (auto simp: dup_step_def ne)
  next
    case False
    then show ?thesis using Cons.IH [OF distinct_set_add [OF Cons.prems], of "ff_fundingId r" d]
      by (auto simp: dup_step_def)
  qed
qed simp

lemma duplicateIds_Nil: "duplicateIds rs = [] \<longleftrightarrow> distinct (map ff_fundingId rs)"
proof -
  have "(sort xs = []) = (xs = [])" for xs :: "string list" by (metis length_0_conv length_sort)
  then show ?thesis unfolding duplicateIds_def using dup_fold [of "[]" rs "[]"] by simp
qed

lemma map_of_by_id: "distinct (map ff_fundingId rs) \<Longrightarrow>
    map_of (fold (\<lambda>r. AList.update (ff_fundingId r) r) rs m) i =
      (case List.find (\<lambda>r. ff_fundingId r = i) rs of Some r \<Rightarrow> Some r | None \<Rightarrow> map_of m i)"
proof (induction rs arbitrary: m)
  case (Cons r rs)
  have "List.find (\<lambda>r. ff_fundingId r = i) rs = None" if "ff_fundingId r = i"
    using Cons.prems that by (simp add: find_None_iff) (metis imageI)
  then show ?case using Cons by (auto split: option.split)
qed simp

lemma by_id_distinct: "distinct (map fst (by_id rs))"
proof -
  have "distinct (map fst m) \<Longrightarrow> distinct (map fst (fold (\<lambda>r. AList.update (ff_fundingId r) r) rs m))" for m
    by (induction rs arbitrary: m) (simp_all add: distinct_update)
  then show ?thesis by (simp add: by_id_def)
qed

lemma find_member: "List.find P xs = Some x \<Longrightarrow> x \<in> set xs \<and> P x"
  by (induction xs) (auto split: if_splits)

lemma by_id_member:
  assumes "distinct (map ff_fundingId rs)"
  shows "(i, r) \<in> set (by_id rs) \<longleftrightarrow> r \<in> set rs \<and> ff_fundingId r = i"
proof -
  have "(i, r) \<in> set (by_id rs) \<longleftrightarrow> map_of (by_id rs) i = Some r"
    using by_id_distinct by (simp add: map_of_eq_Some_iff)
  also have "\<dots> \<longleftrightarrow> List.find (\<lambda>r. ff_fundingId r = i) rs = Some r"
    unfolding by_id_def map_of_by_id [OF assms] by (simp split: option.split)
  also have "\<dots> \<longleftrightarrow> r \<in> set rs \<and> ff_fundingId r = i"
  proof
    assume m: "r \<in> set rs \<and> ff_fundingId r = i"
    have inj: "inj_on ff_fundingId (set rs)" using assms by (simp add: distinct_map)
    obtain x where x: "List.find (\<lambda>r. ff_fundingId r = i) rs = Some x"
      using m by (cases "List.find (\<lambda>r. ff_fundingId r = i) rs") (auto simp: find_None_iff)
    then show "List.find (\<lambda>r. ff_fundingId r = i) rs = Some r"
      using find_member [OF x] m inj_onD [OF inj, of x r] by simp
  qed (blast dest: find_member)
  finally show ?thesis .
qed

definition same_fees :: "int \<Rightarrow> funding_fee list \<Rightarrow> funding_fee list \<Rightarrow> bool" where
  "same_fees tol ls rs \<longleftrightarrow>
     distinct (map ff_fundingId ls) \<and> distinct (map ff_fundingId rs) \<and> ff_fundingId ` set ls = ff_fundingId ` set rs \<and>
     (\<forall>l \<in> set ls. \<forall>r \<in> set rs. ff_fundingId l = ff_fundingId r \<longrightarrow>
        ff_symbol l = ff_symbol r \<and> ff_asset l = ff_asset r \<and> \<bar>ff_amountRaw r - ff_amountRaw l\<bar> \<le> tol)"

lemma compare_funding_matched: "fst (compare_funding tol ls rs) = FuMatched \<longleftrightarrow> same_fees tol ls rs"
proof (cases "distinct (map ff_fundingId ls) \<and> distinct (map ff_fundingId rs)")
  case True
  then have d: "distinct (map ff_fundingId ls)" "distinct (map ff_fundingId rs)" by auto
  have sn: "(sort xs = []) = (xs = [])" for xs :: "string list" by (metis length_0_conv length_sort)
  have keys: "fst ` set (by_id xs) = ff_fundingId ` set xs" if "distinct (map ff_fundingId xs)" for xs
  proof (rule set_eqI)
    fix i
    have "i \<in> fst ` set (by_id xs) \<longleftrightarrow> (\<exists>r. (i, r) \<in> set (by_id xs))" by force
    also have "\<dots> \<longleftrightarrow> i \<in> ff_fundingId ` set xs" unfolding by_id_member [OF that] by blast
    finally show "i \<in> fst ` set (by_id xs) \<longleftrightarrow> i \<in> ff_fundingId ` set xs" .
  qed
  have none: "map_of (by_id xs) i = None \<longleftrightarrow> i \<notin> ff_fundingId ` set xs" if "distinct (map ff_fundingId xs)" for xs i
    using keys [OF that] by (simp add: map_of_eq_None_iff)
  have some: "map_of (by_id xs) i = Some r \<longleftrightarrow> r \<in> set xs \<and> ff_fundingId r = i" if "distinct (map ff_fundingId xs)" for xs i r
    using by_id_member [OF that] by_id_distinct by (simp add: map_of_eq_Some_iff)
  have ml: "sort (filter (\<lambda>i. map_of (by_id xs) i = None) (map fst (by_id ys))) = [] \<longleftrightarrow> ff_fundingId ` set ys \<subseteq> ff_fundingId ` set xs"
    if "distinct (map ff_fundingId xs)" "distinct (map ff_fundingId ys)" for xs ys
    unfolding sn filter_empty_conv none [OF that(1)] using keys [OF that(2)] by auto
  have am: "sort (map fst (filter (fee_mismatch tol (by_id rs)) (by_id ls))) = [] \<longleftrightarrow>
     (\<forall>l \<in> set ls. \<forall>r \<in> set rs. ff_fundingId l = ff_fundingId r \<longrightarrow>
        ff_symbol l = ff_symbol r \<and> ff_asset l = ff_asset r \<and> \<bar>ff_amountRaw r - ff_amountRaw l\<bar> \<le> tol)"
  proof -
    have "fee_mismatch tol (by_id rs) (i, l) \<longleftrightarrow> (\<exists>r \<in> set rs. ff_fundingId r = i \<and>
        \<not> (ff_symbol l = ff_symbol r \<and> ff_asset l = ff_asset r \<and> \<bar>ff_amountRaw r - ff_amountRaw l\<bar> \<le> tol))" for i l
    proof (cases "map_of (by_id rs) i")
      case None
      then show ?thesis using none [OF d(2), of i] by (auto simp: fee_mismatch_def)
    next
      case (Some x)
      then have u: "r = x" if "r \<in> set rs" "ff_fundingId r = i" for r using some [OF d(2)] that by (metis option.inject)
      have x: "x \<in> set rs" "ff_fundingId x = i" using Some some [OF d(2)] by auto
      have "fee_mismatch tol (by_id rs) (i, l) \<longleftrightarrow>
          \<not> (ff_symbol l = ff_symbol x \<and> ff_asset l = ff_asset x \<and> \<bar>ff_amountRaw x - ff_amountRaw l\<bar> \<le> tol)"
        using Some by (auto simp: fee_mismatch_def)
      then show ?thesis using u x by blast
    qed
    then show ?thesis unfolding sn map_is_Nil_conv filter_empty_conv using by_id_member [OF d(1)] by fastforce
  qed
  show ?thesis unfolding compare_funding_def Let_def same_fees_def
    using True ml [OF d] ml [OF d(2,1)] am by (simp add: duplicateIds_Nil)
next
  case False
  then show ?thesis by (auto simp: compare_funding_def same_fees_def duplicateIds_Nil)
qed

text \<open>A funding reconciliation returns MATCHED exactly when the provider answered and both sides list the same funding
  ids without repetition, with the same symbols and assets and amounts within the tolerance; any other answer leaves
  the account restricted, and no reconciliation lifts a restriction of any account.\<close>
theorem funding_matched_exact:
  assumes "reconcileFundingFees port q w = (res, w')" "rx_good (lw_restrictions w)"
  shows "(\<forall>a. restricted w a \<longrightarrow> restricted w' a) \<and>
    (case res of Inl e \<Rightarrow> True
     | Inr r \<Rightarrow>
       (fr_status r = FuMatched \<longleftrightarrow> (\<exists>fees. fp_listFundingFees port (fq_accountId q) (fq_fromMs q) (fq_toMs q) = Inr (Some fees) \<and>
          same_fees (fq_amountToleranceRaw q) (fq_local q) fees)) \<and>
       (fr_status r = FuMatched \<or> restricted w' (fq_accountId q)))"
proof (cases "bind_r (funding_checks port q (rw_evidence w)) (\<lambda>_.
           bind_r (fp_listFundingFees port (fq_accountId q) (fq_fromMs q) (fq_toMs q)) (\<lambda>remote.
           bind_r (funding_outcome q remote) (\<lambda>sm. Inr (remote, sm))))")
  case (Inl e)
  then show ?thesis using assms(1) by (auto simp: reconcileFundingFees_def)
next
  case (Inr rs)
  obtain remote sm where rs: "rs = (remote, sm)" by (cases rs)
  have get: "fp_listFundingFees port (fq_accountId q) (fq_fromMs q) (fq_toMs q) = Inr remote" "funding_outcome q remote = Inr sm"
    using Inr rs by (auto simp: result_simps)
  have m: "fst sm = FuMatched \<longleftrightarrow> (\<exists>fees. fp_listFundingFees port (fq_accountId q) (fq_fromMs q) (fq_toMs q) = Inr (Some fees) \<and>
      same_fees (fq_amountToleranceRaw q) (fq_local q) fees)"
    using get compare_funding_matched by (auto simp: funding_outcome_def result_simps split: option.splits)
  have st: "fr_status (funding_result_of q remote sm i) = fst sm" for i by (simp add: funding_result_of_def)
  show ?thesis
  proof (cases "fst sm = FuMatched")
    case True
    have "store_result (fp_append port) (funding_result_of q remote sm None) w = (res, w')"
      using assms(1) Inr rs True by (simp add: reconcileFundingFees_def)
    from store_result_frame [OF this] have "lw_restrictions w' = lw_restrictions w"
      "\<And>x. res = Inr x \<Longrightarrow> fr_status x = FuMatched" using st True by auto
    then show ?thesis using m True by (simp split: sum.split)
  next
    case False
    have "restrict_and_store (fp_append port)
          (active_restriction (fq_restrictionId q) (fq_accountId q)
             (if fst sm = FuProviderUnavailable then RrFundingStateUncertain else RrFundingReconciliationMismatch)
             (fq_reconciliationId q) (fq_nowMs q))
          (\<lambda>i. funding_result_of q remote sm (Some i)) w = (res, w')"
      using assms(1) Inr rs False by (simp add: reconcileFundingFees_def)
    from restrict_and_store_restricts [OF this assms(2)] have r: "\<forall>a. restricted w a \<longrightarrow> restricted w' a"
      "\<And>x. res = Inr x \<Longrightarrow> restricted w' (fq_accountId q) \<and> fr_status x = fst sm" using st by auto
    then show ?thesis using m False by (cases res) auto
  qed
qed

lemma funding_release_lifts:
  assumes "rx_good (lw_restrictions w)" "restricted w a"
    "\<not> restricted (snd (releaseFundingRestriction None port q w)) a"
  shows "fx_requestedBy q \<noteq> fx_verifiedBy q \<and> \<not> blank (fx_rationale q) \<and>
    (\<exists>m. fp_getById port (rw_evidence w) (fx_matchedFundingReconciliationId q) = Some m \<and> fr_status m = FuMatched \<and> fr_accountId m = a)"
proof -
  have ok: "funding_approval q = Inr ()"
    using assms(2,3) by (cases "funding_approval q") (auto simp: releaseFundingRestriction_def)
  then have ch: "\<not> restricted (snd (funding_release_op port q w)) a"
    using assms(3) by (simp add: releaseFundingRestriction_def)
  then obtain r m where rm: "funding_release_matched port q w = Inr (r, m)"
    using assms(2) by (cases "funding_release_matched port q w") (auto simp: funding_release_op_def)
  have "rx_accountId r = a" using store_release_lifts [OF assms(1,2)] ch rm by (auto simp: funding_release_op_def)
  moreover have "fp_getById port (rw_evidence w) (fx_matchedFundingReconciliationId q) = Some m \<and> fr_status m = FuMatched \<and>
      fr_accountId m = rx_accountId r"
    using rm by (auto simp: funding_release_matched_def result_simps split: option.splits)
  ultimately show ?thesis using ok by (auto simp: funding_approval_def guard_r_def split: if_splits)
qed

section \<open>A concrete run\<close>

definition sample_fee :: "int \<Rightarrow> funding_fee" where
  "sample_fee n = \<lparr>ff_fundingId = ''f1'', ff_accountId = ''acc'', ff_symbol = ''BTC'', ff_asset = ''KRW'', ff_amountRaw = n,
     ff_fundingTimeMs = Fin 1\<rparr>"

definition sample_funding_port :: "funding_result list funding_port" where
  "sample_funding_port = \<lparr>fp_listFundingFees = (\<lambda>a f t. Inr (scripted_listFundingFees (Some [sample_fee 10]) a f t)),
     fp_append = (\<lambda>r s. (Inr (), r # s)), fp_getById = (\<lambda>s i. List.find (\<lambda>r. fr_reconciliationId r = i) s),
     fp_getLatest = (\<lambda>s a. List.find (\<lambda>r. fr_accountId r = a) s)\<rparr>"

definition sample_funding_request :: funding_request where
  "sample_funding_request = \<lparr>fq_reconciliationId = ''rec'', fq_restrictionId = ''rx'', fq_accountId = ''acc'',
     fq_local = [sample_fee 20], fq_fromMs = Fin 0, fq_toMs = Fin 2, fq_amountToleranceRaw = 5, fq_nowMs = Fin 3\<rparr>"

lemma funding_matched_exact_witness:
  "\<exists>x w'. reconcileFundingFees sample_funding_port sample_funding_request \<lparr>lw_restrictions = [], lw_evidence = [], rw_evidence = []\<rparr> =
     (Inr x, w') \<and> restricted w' ''acc''"
proof -
  let ?r = "reconcileFundingFees sample_funding_port sample_funding_request \<lparr>lw_restrictions = [], lw_evidence = [], rw_evidence = []\<rparr>"
  have "map_sum (\<lambda>e. ()) fr_status (fst ?r) = Inr FuAmountMismatch" by code_simp
  then obtain x w' where x: "?r = (Inr x, w')" "fr_status x = FuAmountMismatch"
    by (cases ?r; cases "fst ?r") auto
  have g: "rx_good (lw_restrictions \<lparr>lw_restrictions = [], lw_evidence = [], rw_evidence = [] :: funding_result list\<rparr>)"
    by (simp add: rx_good_def)
  have a: "fq_accountId sample_funding_request = ''acc''" by (simp add: sample_funding_request_def)
  show ?thesis using funding_matched_exact [OF x(1) g] x unfolding a by auto
qed

end
