(* ===== verification/PaperFutures.thy ===== *)
theory PaperFutures imports JsNumber Prelude begin

text \<open>
  \<open>packages/contracts/src/paperFutures.ts\<close> and \<open>apps/cloud/src/futures/paperFuturesSimulator.ts\<close>: the
  paper account of perpetual futures.  Orders, marks and funding are functions from an account to an
  account.  The lemmas show what holds of every account they can reach: unique ledger ids in three
  disjoint name spaces, one position per symbol, funding settled once per symbol and time, and no
  position left open whose mark has reached its liquidation price.
\<close>

section \<open>The account\<close>

datatype futures_side = Long | Short
datatype futures_kind = FkOpen | FkClose | FkFunding | FkLiquidation

record futures_costs =
  fcost_takerFeeRate :: jsnum
  fcost_slippageBps :: jsnum
  fcost_maintenanceMarginRate :: jsnum

record futures_position =
  fpos_symbol :: string
  fpos_side :: futures_side
  fpos_quantity :: jsnum
  fpos_entryPrice :: jsnum
  fpos_leverage :: jsnum
  fpos_marginMode :: string
  fpos_isolatedMargin :: jsnum
  fpos_liquidationPrice :: jsnum
  fpos_openedAt :: jsnum

record futures_entry =
  fent_id :: string
  fent_at :: jsnum
  fent_symbol :: string
  fent_kind :: futures_kind
  fent_side :: futures_side
  fent_quantity :: jsnum
  fent_price :: jsnum
  fent_fee :: jsnum
  fent_realizedPnl :: jsnum

record futures_account =
  facc_walletBalance :: jsnum
  facc_positions :: "futures_position list"
  facc_ledger :: "futures_entry list"

record futures_intent =
  fint_id :: string
  fint_symbol :: string
  fint_side :: futures_side
  fint_quantity :: jsnum
  fint_leverage :: jsnum
  fint_marginMode :: string
  fint_reduceOnly :: bool

datatype futures_fill = Filled futures_account futures_entry | Rejected futures_account string

section \<open>Prices\<close>

definition futures_eps :: jsnum where
  "futures_eps = lit (1 / 1000000000000)"

definition futures_sign :: "futures_side \<Rightarrow> jsnum" where
  "futures_sign s = (case s of Long \<Rightarrow> Fin 1 | Short \<Rightarrow> Fin (- 1))"

definition opposite :: "futures_side \<Rightarrow> futures_side" where
  "opposite s = (case s of Long \<Rightarrow> Short | Short \<Rightarrow> Long)"

definition finitePositive :: "jsnum \<Rightarrow> bool" where
  "finitePositive v \<longleftrightarrow> is_finite v \<and> Fin 0 < v"

definition validateCostProfile :: "futures_costs \<Rightarrow> unit result" where
  "validateCostProfile c =
     guard_r (\<not> (Fin 0 \<le> fcost_takerFeeRate c \<and> fcost_takerFeeRate c < lit (1 / 100)))
       (Error ''PAPER_FUTURES_FEE_RATE_INVALID'')
     (guard_r (\<not> (Fin 0 \<le> fcost_slippageBps c \<and> fcost_slippageBps c < Fin 500))
       (Error ''PAPER_FUTURES_SLIPPAGE_INVALID'')
     (guard_r (\<not> (Fin 0 < fcost_maintenanceMarginRate c \<and> fcost_maintenanceMarginRate c < lit (1 / 10)))
       (Error ''PAPER_FUTURES_MMR_INVALID'') (Inr ())))"

definition liquidationPriceFromMargin :: "futures_side \<Rightarrow> jsnum \<Rightarrow> jsnum \<Rightarrow> jsnum \<Rightarrow> jsnum \<Rightarrow> jsnum" where
  "liquidationPriceFromMargin side entryPrice quantity isolatedMargin mmr =
     (case side of
        Long \<Rightarrow> js_max (Fin 0) ((entryPrice * quantity - isolatedMargin) div (quantity * (Fin 1 - mmr)))
      | Short \<Rightarrow> (entryPrice * quantity + isolatedMargin) div (quantity * (Fin 1 + mmr)))"

definition liquidationPrice :: "futures_side \<Rightarrow> jsnum \<Rightarrow> jsnum \<Rightarrow> jsnum \<Rightarrow> jsnum" where
  "liquidationPrice side entryPrice leverage mmr =
     liquidationPriceFromMargin side entryPrice (Fin 1) (entryPrice div leverage) mmr"

definition adverseFillPrice :: "jsnum \<Rightarrow> futures_side \<Rightarrow> bool \<Rightarrow> jsnum \<Rightarrow> jsnum" where
  "adverseFillPrice referencePrice exposureSide opens slippageBps =
     (let buying = (if opens then exposureSide = Long else exposureSide = Short);
          move = slippageBps div Fin 10000
      in if buying then referencePrice * (Fin 1 + move) else referencePrice * (Fin 1 - move))"

definition unrealizedPnl :: "futures_position \<Rightarrow> jsnum \<Rightarrow> jsnum" where
  "unrealizedPnl p markPrice = futures_sign (fpos_side p) * (markPrice - fpos_entryPrice p) * fpos_quantity p"

text \<open>Prices by symbol are a partial function; an absent price is not finite.\<close>

type_synonym mark_prices = "string \<Rightarrow> jsnum option"

definition accountEquity :: "futures_account \<Rightarrow> mark_prices \<Rightarrow> jsnum" where
  "accountEquity a marks =
     facc_walletBalance a + fold (\<lambda>p sum. sum + fpos_isolatedMargin p +
       (case marks (fpos_symbol p) of
          Some m \<Rightarrow> (if is_finite m then unrealizedPnl p m else Fin 0)
        | None \<Rightarrow> Fin 0)) (facc_positions a) (Fin 0)"

definition emptyPaperFuturesAccount :: "jsnum \<Rightarrow> futures_account result" where
  "emptyPaperFuturesAccount walletBalance =
     guard_r (\<not> finitePositive walletBalance) (Error ''PAPER_FUTURES_WALLET_INVALID'')
       (Inr \<lparr>facc_walletBalance = walletBalance, facc_positions = [], facc_ledger = []\<rparr>)"

section \<open>Orders\<close>

definition reserved_id :: "string \<Rightarrow> bool" where
  "reserved_id s \<longleftrightarrow> take 8 s = ''funding:'' \<or> take 4 s = ''liq:''"

definition upper_or_digit :: "char \<Rightarrow> bool" where
  "upper_or_digit c \<longleftrightarrow> is_digit c \<or> (let n = of_char c :: nat in 65 \<le> n \<and> n \<le> 90)"

definition futures_symbol :: "string \<Rightarrow> bool" where
  "futures_symbol s \<longleftrightarrow>
     (let n = length s - 4
      in drop n s = ''USDT'' \<and> 2 \<le> n \<and> n \<le> 20 \<and> list_all upper_or_digit (take n s))"

definition find_position :: "string \<Rightarrow> futures_account \<Rightarrow> futures_position option" where
  "find_position s a = List.find (\<lambda>p. fpos_symbol p = s) (facc_positions a)"

definition other_positions :: "string \<Rightarrow> futures_account \<Rightarrow> futures_position list" where
  "other_positions s a = filter (\<lambda>p. fpos_symbol p \<noteq> s) (facc_positions a)"

definition has_entry :: "string \<Rightarrow> futures_entry list \<Rightarrow> bool" where
  "has_entry i es \<longleftrightarrow> list_ex (\<lambda>e. fent_id e = i) es"

definition close_order :: "futures_account \<Rightarrow> futures_intent \<Rightarrow> jsnum \<Rightarrow> jsnum \<Rightarrow> futures_costs \<Rightarrow> futures_position \<Rightarrow> futures_fill" where
  "close_order a x referencePrice t costs current =
     (if fpos_quantity current + futures_eps < fint_quantity x then Rejected a ''PAPER_FUTURES_FLIP_NOT_ALLOWED''
      else
        let price = adverseFillPrice referencePrice (fpos_side current) False (fcost_slippageBps costs);
            fee = fint_quantity x * price * fcost_takerFeeRate costs;
            fraction = js_min (Fin 1) (fint_quantity x div fpos_quantity current);
            releasedMargin = fpos_isolatedMargin current * fraction;
            gross = futures_sign (fpos_side current) * (price - fpos_entryPrice current) * fint_quantity x;
            realizedPnl = gross - fee;
            remaining = fpos_quantity current - fint_quantity x;
            entry = \<lparr>fent_id = fint_id x, fent_at = t, fent_symbol = fint_symbol x, fent_kind = FkClose,
              fent_side = fpos_side current, fent_quantity = fint_quantity x, fent_price = price, fent_fee = fee,
              fent_realizedPnl = realizedPnl\<rparr>;
            keptMargin = fpos_isolatedMargin current - releasedMargin;
            others = other_positions (fint_symbol x) a;
            positions = (if remaining \<le> futures_eps then others
              else others @ [current\<lparr>fpos_quantity := remaining, fpos_isolatedMargin := keptMargin,
                fpos_liquidationPrice := liquidationPriceFromMargin (fpos_side current) (fpos_entryPrice current) remaining
                  keptMargin (fcost_maintenanceMarginRate costs)\<rparr>])
        in Filled \<lparr>facc_walletBalance = facc_walletBalance a + releasedMargin + realizedPnl,
             facc_positions = positions, facc_ledger = facc_ledger a @ [entry]\<rparr> entry)"

definition opened_position :: "futures_intent \<Rightarrow> jsnum \<Rightarrow> jsnum \<Rightarrow> futures_costs \<Rightarrow> futures_position option \<Rightarrow> futures_position" where
  "opened_position x price t costs current =
     (let margin = fint_quantity x * price div fint_leverage x;
          quantity = (case current of None \<Rightarrow> Fin 0 | Some c \<Rightarrow> fpos_quantity c) + fint_quantity x;
          entryPrice = (case current of None \<Rightarrow> price
            | Some c \<Rightarrow> (fpos_entryPrice c * fpos_quantity c + price * fint_quantity x) div quantity);
          isolatedMargin = (case current of None \<Rightarrow> Fin 0 | Some c \<Rightarrow> fpos_isolatedMargin c) + margin
      in \<lparr>fpos_symbol = fint_symbol x, fpos_side = fint_side x, fpos_quantity = quantity, fpos_entryPrice = entryPrice,
          fpos_leverage = fint_leverage x, fpos_marginMode = ''ISOLATED'', fpos_isolatedMargin = isolatedMargin,
          fpos_liquidationPrice = liquidationPriceFromMargin (fint_side x) entryPrice quantity isolatedMargin
            (fcost_maintenanceMarginRate costs),
          fpos_openedAt = (case current of None \<Rightarrow> t | Some c \<Rightarrow> fpos_openedAt c)\<rparr>)"

definition open_order ::
  "futures_account \<Rightarrow> futures_intent \<Rightarrow> jsnum \<Rightarrow> jsnum \<Rightarrow> futures_costs \<Rightarrow> futures_position option \<Rightarrow> futures_fill" where
  "open_order a x referencePrice t costs current =
     (if \<not> is_finite (fint_leverage x) \<or> fint_leverage x < Fin 1 \<or> Fin 125 < fint_leverage x
      then Rejected a ''PAPER_FUTURES_LEVERAGE_INVALID''
      else if (case current of None \<Rightarrow> False | Some c \<Rightarrow> \<not> js_eq (fpos_leverage c) (fint_leverage x))
      then Rejected a ''PAPER_FUTURES_LEVERAGE_CHANGE_WITH_POSITION''
      else
        let price = adverseFillPrice referencePrice (fint_side x) True (fcost_slippageBps costs);
            notional = fint_quantity x * price;
            margin = notional div fint_leverage x;
            fee = notional * fcost_takerFeeRate costs
        in if facc_walletBalance a + futures_eps < margin + fee then Rejected a ''PAPER_FUTURES_INSUFFICIENT_BALANCE''
           else
             let entry = \<lparr>fent_id = fint_id x, fent_at = t, fent_symbol = fint_symbol x, fent_kind = FkOpen,
                   fent_side = fint_side x, fent_quantity = fint_quantity x, fent_price = price, fent_fee = fee,
                   fent_realizedPnl = Fin 0\<rparr>
             in Filled \<lparr>facc_walletBalance = facc_walletBalance a - margin - fee,
                  facc_positions = other_positions (fint_symbol x) a @ [opened_position x price t costs current],
                  facc_ledger = facc_ledger a @ [entry]\<rparr> entry)"

definition applyOrder ::
  "futures_account \<Rightarrow> futures_intent \<Rightarrow> jsnum \<Rightarrow> jsnum \<Rightarrow> futures_costs \<Rightarrow> futures_fill result" where
  "applyOrder a x referencePrice t costs =
     bind_r (validateCostProfile costs) (\<lambda>_. Inr (
       if reserved_id (fint_id x) \<or> blank (fint_id x) then Rejected a ''PAPER_FUTURES_ORDER_ID_RESERVED''
       else if has_entry (fint_id x) (facc_ledger a) then Rejected a ''PAPER_FUTURES_DUPLICATE_ORDER''
       else if \<not> futures_symbol (fint_symbol x) then Rejected a ''PAPER_FUTURES_SYMBOL_INVALID''
       else if \<not> finitePositive (fint_quantity x) \<or> \<not> finitePositive referencePrice \<or> \<not> is_safe_integer t \<or> t < Fin 0
       then Rejected a ''PAPER_FUTURES_INPUT_INVALID''
       else if fint_marginMode x \<noteq> ''ISOLATED'' then Rejected a ''PAPER_FUTURES_MARGIN_MODE_UNSUPPORTED''
       else
         let current = find_position (fint_symbol x) a;
             reducing = (case current of None \<Rightarrow> False | Some c \<Rightarrow> fpos_side c \<noteq> fint_side x)
         in if fint_reduceOnly x \<and> \<not> reducing then Rejected a ''PAPER_FUTURES_REDUCE_ONLY_WOULD_INCREASE''
            else case current of
              Some c \<Rightarrow> if reducing then close_order a x referencePrice t costs c
                else open_order a x referencePrice t costs current
            | None \<Rightarrow> open_order a x referencePrice t costs current))"

section \<open>Liquidation and funding\<close>

text \<open>The decimal text of an integral number, as in a template string.\<close>

definition int_text :: "jsnum \<Rightarrow> string" where
  "int_text x = int_string \<lfloor>jval x\<rfloor>"

definition breached :: "mark_prices \<Rightarrow> futures_position \<Rightarrow> bool" where
  "breached marks p \<longleftrightarrow>
     (case marks (fpos_symbol p) of
        None \<Rightarrow> False
      | Some m \<Rightarrow> is_finite m \<and>
          (if fpos_side p = Long then m \<le> fpos_liquidationPrice p else fpos_liquidationPrice p \<le> m))"

definition liq_base :: "string \<Rightarrow> jsnum \<Rightarrow> string" where
  "liq_base symbol t = ''liq:'' @ symbol @ '':'' @ int_text t"

definition taken_from :: "string \<Rightarrow> string set \<Rightarrow> nat \<Rightarrow> nat set" where
  "taken_from base ids n = {k. n \<le> k \<and> base @ '':'' @ nat_string k \<in> ids}"

lemma taken_from_finite: "finite (taken_from base (set ids) n)"
proof -
  have "inj (\<lambda>k. base @ '':'' @ nat_string k)" by (simp add: inj_def)
  then have "finite ((\<lambda>k. base @ '':'' @ nat_string k) -` set ids)" by (intro finite_vimageI) auto
  then show ?thesis by (rule finite_subset [rotated]) (auto simp: taken_from_def)
qed

lemma taken_from_Suc: "taken_from base ids n = (if base @ '':'' @ nat_string n \<in> ids then {n} else {}) \<union> taken_from base ids (Suc n)"
  unfolding taken_from_def by (auto simp: Suc_le_eq le_less)

function free_liq_id :: "string \<Rightarrow> string list \<Rightarrow> nat \<Rightarrow> string \<Rightarrow> string" where
  "free_liq_id base ids n i =
     (if i \<in> set ids then free_liq_id base ids (n + 1) (base @ '':'' @ nat_string n) else i)"
  by auto
termination
proof (relation "measure (\<lambda>(base, ids, n, i). 2 * card (taken_from base (set ids) n) + (if i \<in> set ids then 1 else 0))")
  fix base ids n and i :: string
  assume i: "i \<in> set ids"
  have "n \<notin> taken_from base (set ids) (Suc n)" by (simp add: taken_from_def)
  then have "card (taken_from base (set ids) n) =
      (if base @ '':'' @ nat_string n \<in> set ids then Suc (card (taken_from base (set ids) (Suc n)))
       else card (taken_from base (set ids) (Suc n)))"
    using taken_from_finite [of base ids "Suc n"] by (subst taken_from_Suc) simp
  then show "((base, ids, n + 1, base @ '':'' @ nat_string n), base, ids, n, i)
      \<in> measure (\<lambda>(base, ids, n, i). 2 * card (taken_from base (set ids) n) + (if i \<in> set ids then 1 else 0))"
    using i by simp
qed simp

declare free_liq_id.simps [simp del]

definition liquidate :: "jsnum \<Rightarrow> futures_position \<Rightarrow> futures_entry list \<Rightarrow> futures_entry" where
  "liquidate t p ledger =
     \<lparr>fent_id = free_liq_id (liq_base (fpos_symbol p) t) (map fent_id ledger) 2 (liq_base (fpos_symbol p) t),
      fent_at = t, fent_symbol = fpos_symbol p, fent_kind = FkLiquidation, fent_side = fpos_side p,
      fent_quantity = fpos_quantity p, fent_price = fpos_liquidationPrice p, fent_fee = Fin 0,
      fent_realizedPnl = - js_max (Fin 0) (fpos_isolatedMargin p)\<rparr>"

definition mark_step ::
  "mark_prices \<Rightarrow> jsnum \<Rightarrow> futures_position \<Rightarrow> futures_entry list \<times> futures_position list \<Rightarrow>
    futures_entry list \<times> futures_position list" where
  "mark_step marks t p lp =
     (if \<not> breached marks p then (fst lp, snd lp @ [p]) else (fst lp @ [liquidate t p (fst lp)], snd lp))"

definition applyMarkPrices :: "futures_account \<Rightarrow> mark_prices \<Rightarrow> jsnum \<Rightarrow> futures_account result" where
  "applyMarkPrices a marks t =
     guard_r (\<not> is_safe_integer t \<or> t < Fin 0) (Error ''PAPER_FUTURES_TIME_INVALID'')
       (let (ledger, positions) = fold (mark_step marks t) (facc_positions a) (facc_ledger a, [])
        in Inr (if length positions = length (facc_positions a) then a
             else \<lparr>facc_walletBalance = facc_walletBalance a, facc_positions = positions, facc_ledger = ledger\<rparr>))"

definition funding_id :: "string \<Rightarrow> jsnum \<Rightarrow> string" where
  "funding_id symbol t = ''funding:'' @ symbol @ '':'' @ int_text t"

definition fund_position :: "futures_account \<Rightarrow> futures_position \<Rightarrow> jsnum \<Rightarrow> jsnum \<Rightarrow> jsnum \<Rightarrow> futures_costs \<Rightarrow> futures_account" where
  "fund_position a p fundingRate markPrice t costs =
     (let amount = - futures_sign (fpos_side p) * fpos_quantity p * markPrice * fundingRate;
          margin = fpos_isolatedMargin p + amount;
          updated = p\<lparr>fpos_isolatedMargin := margin, fpos_liquidationPrice := liquidationPriceFromMargin (fpos_side p)
            (fpos_entryPrice p) (fpos_quantity p) margin (fcost_maintenanceMarginRate costs)\<rparr>;
          entry = \<lparr>fent_id = funding_id (fpos_symbol p) t, fent_at = t, fent_symbol = fpos_symbol p, fent_kind = FkFunding,
            fent_side = fpos_side p, fent_quantity = fpos_quantity p, fent_price = markPrice, fent_fee = Fin 0,
            fent_realizedPnl = amount\<rparr>
      in \<lparr>facc_walletBalance = facc_walletBalance a, facc_positions = other_positions (fpos_symbol p) a @ [updated],
          facc_ledger = facc_ledger a @ [entry]\<rparr>)"

definition applyFunding ::
  "futures_account \<Rightarrow> string \<Rightarrow> jsnum \<Rightarrow> jsnum \<Rightarrow> jsnum \<Rightarrow> futures_costs \<Rightarrow> futures_account result" where
  "applyFunding a symbol fundingRate markPrice fundingTime costs =
     bind_r (validateCostProfile costs) (\<lambda>_.
     guard_r (\<not> is_finite fundingRate \<or> lit (1 / 20) < js_abs fundingRate \<or> \<not> finitePositive markPrice \<or>
         \<not> is_safe_integer fundingTime)
       (Error ''PAPER_FUTURES_FUNDING_INVALID'')
       (case find_position symbol a of
          None \<Rightarrow> Inr a
        | Some p \<Rightarrow>
          if has_entry (funding_id symbol fundingTime) (facc_ledger a) then Inr a
          else applyMarkPrices (fund_position a p fundingRate markPrice fundingTime costs)
            ((\<lambda>_. None)(symbol \<mapsto> markPrice)) fundingTime))"

section \<open>Free liquidation ids\<close>

lemma free_liq_id_fresh: "free_liq_id base ids n i \<notin> set ids"
proof (induction base ids n i rule: free_liq_id.induct)
  case (1 base ids n i)
  then show ?case by (subst free_liq_id.simps) simp
qed

lemma free_liq_id_prefix: "free_liq_id base ids n i = i \<or> (\<exists>k. free_liq_id base ids n i = base @ '':'' @ nat_string k)"
proof (induction base ids n i rule: free_liq_id.induct)
  case (1 base ids n i)
  show ?case
  proof (cases "i \<in> set ids")
    case True
    then have "free_liq_id base ids n i = free_liq_id base ids (n + 1) (base @ '':'' @ nat_string n)"
      by (subst free_liq_id.simps) simp
    then show ?thesis using "1.IH" [OF True] by metis
  qed (subst free_liq_id.simps, simp)
qed

lemma liquidate_fields [simp]:
  "fent_kind (liquidate t p l) = FkLiquidation" "fent_symbol (liquidate t p l) = fpos_symbol p"
  "fent_at (liquidate t p l) = t" "fent_price (liquidate t p l) = fpos_liquidationPrice p"
  "fent_quantity (liquidate t p l) = fpos_quantity p"
  "fent_realizedPnl (liquidate t p l) = - js_max (Fin 0) (fpos_isolatedMargin p)"
  by (simp_all add: liquidate_def)

lemma liquidate_fresh: "fent_id (liquidate t p l) \<notin> fent_id ` set l"
  using free_liq_id_fresh [of _ "map fent_id l"] by (simp add: liquidate_def)

lemma liquidate_named: "take 4 (fent_id (liquidate t p l)) = ''liq:''"
  using free_liq_id_prefix [of "liq_base (fpos_symbol p) t" "map fent_id l" 2 "liq_base (fpos_symbol p) t"]
  by (auto simp: liquidate_def liq_base_def)

section \<open>Marking\<close>

text \<open>The loop keeps the positions that are not breached and appends one entry for each of the others.\<close>

definition liquidations :: "jsnum \<Rightarrow> futures_position list \<Rightarrow> futures_entry list \<Rightarrow> futures_entry list \<Rightarrow> bool" where
  "liquidations t ps old new \<longleftrightarrow>
     list_all2 (\<lambda>p e. fent_kind e = FkLiquidation \<and> fent_symbol e = fpos_symbol p \<and> fent_at e = t \<and>
       take 4 (fent_id e) = ''liq:'' \<and> fent_quantity e = fpos_quantity p \<and> fent_price e = fpos_liquidationPrice p \<and>
       fent_realizedPnl e = - js_max (Fin 0) (fpos_isolatedMargin p)) ps new \<and>
     distinct (map fent_id new) \<and> fent_id ` set new \<inter> fent_id ` set old = {}"

lemma mark_step_pair:
  "mark_step marks t p (l, kept) = (if breached marks p then (l @ [liquidate t p l], kept) else (l, kept @ [p]))"
  by (simp add: mark_step_def)

lemma mark_fold:
  "\<exists>new. fold (mark_step marks t) ps (l, kept) = (l @ new, kept @ filter (\<lambda>p. \<not> breached marks p) ps) \<and>
     liquidations t (filter (breached marks) ps) l new"
proof (induction ps arbitrary: l kept)
  case Nil
  show ?case by (auto simp: liquidations_def)
next
  case (Cons p ps)
  show ?case
  proof (cases "breached marks p")
    case False
    then show ?thesis using Cons.IH [of l "kept @ [p]"] by (simp add: mark_step_pair)
  next
    case True
    obtain new where new: "fold (mark_step marks t) ps (l @ [liquidate t p l], kept) =
        ((l @ [liquidate t p l]) @ new, kept @ filter (\<lambda>p. \<not> breached marks p) ps)"
      "liquidations t (filter (breached marks) ps) (l @ [liquidate t p l]) new" using Cons.IH by blast
    have "liquidations t (p # filter (breached marks) ps) l (liquidate t p l # new)"
      using new(2) liquidate_fresh [of t p l] liquidate_named [of t p l] by (auto simp: liquidations_def)
    then show ?thesis using True new(1) by (intro exI [of _ "liquidate t p l # new"]) (simp add: mark_step_pair)
  qed
qed

lemma applyMarkPrices_spec:
  assumes "applyMarkPrices a marks t = Inr a'"
  shows "facc_walletBalance a' = facc_walletBalance a \<and>
    facc_positions a' = filter (\<lambda>p. \<not> breached marks p) (facc_positions a) \<and>
    (\<exists>new. facc_ledger a' = facc_ledger a @ new \<and> liquidations t (filter (breached marks) (facc_positions a)) (facc_ledger a) new)"
proof -
  let ?ps = "facc_positions a" and ?l = "facc_ledger a"
  obtain new where new: "fold (mark_step marks t) ?ps (?l, []) = (?l @ new, filter (\<lambda>p. \<not> breached marks p) ?ps)"
    "liquidations t (filter (breached marks) ?ps) ?l new" using mark_fold [of marks t ?ps ?l "[]"] by auto
  show ?thesis
  proof (cases "length (filter (\<lambda>p. \<not> breached marks p) ?ps) = length ?ps")
    case True
    then have keep: "filter (\<lambda>p. \<not> breached marks p) ?ps = ?ps" by (metis (no_types, lifting) filter_id_conv length_filter_less order_less_irrefl)
    then have "filter (breached marks) ?ps = []" by (simp add: filter_empty_conv filter_id_conv)
    then show ?thesis using assms new keep by (simp add: applyMarkPrices_def result_simps liquidations_def)
  next
    case False
    then show ?thesis using assms new by (auto simp: applyMarkPrices_def result_simps)
  qed
qed

lemma applyMarkPrices_total:
  assumes "is_safe_integer t" "Fin 0 \<le> t"
  obtains a' where "applyMarkPrices a marks t = Inr a'"
proof -
  have "\<not> (\<not> is_safe_integer t \<or> t < Fin 0)" using assms by (cases t) auto
  then show thesis using that by (cases "applyMarkPrices a marks t") (auto simp: applyMarkPrices_def split: prod.splits)
qed

section \<open>Reachable accounts\<close>

inductive futures_reach :: "futures_account \<Rightarrow> bool" where
  fr_empty: "emptyPaperFuturesAccount w = Inr a \<Longrightarrow> futures_reach a"
| fr_order: "futures_reach a \<Longrightarrow> applyOrder a x price t costs = Inr (Filled a' e) \<Longrightarrow> futures_reach a'"
| fr_marks: "futures_reach a \<Longrightarrow> applyMarkPrices a marks t = Inr a' \<Longrightarrow> futures_reach a'"
| fr_funding: "futures_reach a \<Longrightarrow> applyFunding a s rate price t costs = Inr a' \<Longrightarrow> futures_reach a'"

text \<open>The three name spaces of ledger ids.\<close>

definition well_named :: "futures_entry \<Rightarrow> bool" where
  "well_named e \<longleftrightarrow>
     (case fent_kind e of
        FkFunding \<Rightarrow> fent_id e = funding_id (fent_symbol e) (fent_at e) \<and> is_safe_integer (fent_at e) \<and>
          futures_symbol (fent_symbol e)
      | FkLiquidation \<Rightarrow> take 4 (fent_id e) = ''liq:''
      | _ \<Rightarrow> \<not> reserved_id (fent_id e))"

definition futures_ok :: "futures_account \<Rightarrow> bool" where
  "futures_ok a \<longleftrightarrow>
     distinct (map fent_id (facc_ledger a)) \<and> distinct (map fpos_symbol (facc_positions a)) \<and>
     list_all (\<lambda>p. futures_symbol (fpos_symbol p)) (facc_positions a) \<and> list_all well_named (facc_ledger a)"

lemma has_entry_iff: "has_entry i es \<longleftrightarrow> i \<in> fent_id ` set es"
  by (auto simp: has_entry_def list_ex_iff)

lemma find_position_Some: "find_position s a = Some p \<Longrightarrow> p \<in> set (facc_positions a) \<and> fpos_symbol p = s"
  by (auto simp: find_position_def find_Some_iff)

lemma other_positions_ok:
  assumes "distinct (map fpos_symbol (facc_positions a))"
  shows "distinct (map fpos_symbol (other_positions s a))" "s \<notin> fpos_symbol ` set (other_positions s a)"
  using assms by (auto simp: other_positions_def distinct_map_filter)

lemma list_all_other: "list_all P (facc_positions a) \<Longrightarrow> list_all P (other_positions s a)"
  by (auto simp: other_positions_def list_all_iff)

lemma futures_ok_append:
  assumes "futures_ok a" "facc_ledger a' = facc_ledger a @ [e]" "fent_id e \<notin> fent_id ` set (facc_ledger a)"
    "well_named e" "futures_symbol s"
    "facc_positions a' = other_positions s a \<or> (\<exists>q. facc_positions a' = other_positions s a @ [q] \<and> fpos_symbol q = s)"
  shows "futures_ok a'"
proof -
  have d: "distinct (map fpos_symbol (facc_positions a))" using assms(1) by (simp add: futures_ok_def)
  show ?thesis using assms other_positions_ok [OF d, of s] list_all_other [of _ a s] by (auto simp: futures_ok_def)
qed

lemma close_order_Filled:
  assumes "close_order a x r t costs c = Filled a' e"
  shows "facc_ledger a' = facc_ledger a @ [e] \<and> fent_id e = fint_id x \<and> fent_kind e = FkClose \<and> fent_symbol e = fint_symbol x \<and>
    \<not> fpos_quantity c + futures_eps < fint_quantity x \<and>
    (facc_positions a' = other_positions (fint_symbol x) a \<or>
     (\<exists>q. facc_positions a' = other_positions (fint_symbol x) a @ [q] \<and> fpos_symbol q = fpos_symbol c \<and>
        fpos_side q = fpos_side c \<and> fpos_quantity q = fpos_quantity c - fint_quantity x))"
  using assms by (auto simp: close_order_def Let_def split: if_splits)

lemma open_order_Filled:
  assumes "open_order a x r t costs current = Filled a' e"
  shows "facc_ledger a' = facc_ledger a @ [e] \<and> fent_id e = fint_id x \<and> fent_kind e = FkOpen \<and> fent_symbol e = fint_symbol x \<and>
    Fin 1 \<le> fint_leverage x \<and>
    facc_positions a' = other_positions (fint_symbol x) a @
      [opened_position x (adverseFillPrice r (fint_side x) True (fcost_slippageBps costs)) t costs current]"
  using assms by (cases "fint_leverage x") (auto simp: open_order_def Let_def split: if_splits)

lemma opened_position_symbol [simp]: "fpos_symbol (opened_position x r t costs c) = fint_symbol x"
  by (simp add: opened_position_def Let_def)

text \<open>A filled order passed every check, and is a close of an opposite position or an opening.\<close>

lemma applyOrder_Filled:
  assumes "applyOrder a x r t costs = Inr (Filled a' e)"
  shows "\<not> reserved_id (fint_id x) \<and> fint_id x \<notin> fent_id ` set (facc_ledger a) \<and> futures_symbol (fint_symbol x) \<and>
    validateCostProfile costs = Inr () \<and> finitePositive r \<and> finitePositive (fint_quantity x) \<and>
    (case find_position (fint_symbol x) a of
       Some c \<Rightarrow> if fpos_side c \<noteq> fint_side x then close_order a x r t costs c = Filled a' e
         else \<not> fint_reduceOnly x \<and> open_order a x r t costs (Some c) = Filled a' e
     | None \<Rightarrow> \<not> fint_reduceOnly x \<and> open_order a x r t costs None = Filled a' e)"
  using assms by (auto simp: applyOrder_def result_simps has_entry_iff Let_def split: if_splits option.splits)

lemma well_named_order:
  "fent_kind e = FkOpen \<or> fent_kind e = FkClose \<Longrightarrow> \<not> reserved_id (fent_id e) \<Longrightarrow> well_named e"
  by (auto simp: well_named_def)

lemma applyOrder_ok:
  assumes "futures_ok a" "applyOrder a x r t costs = Inr (Filled a' e)"
  shows "futures_ok a'"
proof -
  note f = applyOrder_Filled [OF assms(2)]
  have "(facc_positions a' = other_positions (fint_symbol x) a \<or>
        (\<exists>q. facc_positions a' = other_positions (fint_symbol x) a @ [q] \<and> fpos_symbol q = fint_symbol x)) \<and>
      facc_ledger a' = facc_ledger a @ [e] \<and> fent_id e = fint_id x \<and> (fent_kind e = FkOpen \<or> fent_kind e = FkClose)"
  proof (cases "find_position (fint_symbol x) a")
    case None
    then show ?thesis using f open_order_Filled [of a x r t costs None a' e] by auto
  next
    case (Some c)
    then show ?thesis using f find_position_Some [OF Some] close_order_Filled [of a x r t costs c a' e]
        open_order_Filled [of a x r t costs "Some c" a' e] by (cases "fpos_side c = fint_side x") auto
  qed
  then show ?thesis using f by (intro futures_ok_append [OF assms(1), of a' e "fint_symbol x"] well_named_order) auto
qed

lemma applyMarkPrices_ok:
  assumes "futures_ok a" "applyMarkPrices a marks t = Inr a'"
  shows "futures_ok a'"
proof -
  obtain new where new: "facc_ledger a' = facc_ledger a @ new"
    "liquidations t (filter (breached marks) (facc_positions a)) (facc_ledger a) new"
    "facc_positions a' = filter (\<lambda>p. \<not> breached marks p) (facc_positions a)"
    using applyMarkPrices_spec [OF assms(2)] by blast
  have "well_named e" if "e \<in> set new" for e
    using new(2) that by (auto simp: liquidations_def list_all2_conv_all_nth in_set_conv_nth well_named_def)
  then show ?thesis using assms(1) new
    by (auto simp: futures_ok_def liquidations_def list_all_iff distinct_map_filter)
qed

section \<open>Funding\<close>

lemma futures_symbol_no_colon: "futures_symbol s \<Longrightarrow> CHR '':'' \<notin> set s"
proof -
  assume s: "futures_symbol s"
  define n where "n = length s - 4"
  have "s = take n s @ drop n s" by simp
  moreover have "drop n s = ''USDT''" using s by (simp add: futures_symbol_def Let_def n_def)
  moreover have "CHR '':'' \<notin> set (take n s)"
    using s by (auto simp: futures_symbol_def Let_def n_def list_all_iff upper_or_digit_def is_digit_def)
  moreover have "CHR '':'' \<notin> set ''USDT''" by simp
  ultimately show ?thesis by (metis Un_iff set_append)
qed

lemma int_text_eq: "is_safe_integer t \<Longrightarrow> is_safe_integer u \<Longrightarrow> int_text t = int_text u \<longleftrightarrow> js_eq t u"
  by (elim is_safe_integer_cases) (auto simp: int_text_def js_eq_finite)

lemma funding_id_inject:
  assumes "futures_symbol s" "futures_symbol s'" "is_safe_integer t" "is_safe_integer t'"
  shows "funding_id s t = funding_id s' t' \<longleftrightarrow> s = s' \<and> js_eq t t'"
proof
  assume "funding_id s t = funding_id s' t'"
  then have e: "s @ CHR '':'' # int_text t = s' @ CHR '':'' # int_text t'" by (simp add: funding_id_def)
  have tw: "takeWhile (\<lambda>c. c \<noteq> CHR '':'') (s @ CHR '':'' # u) = s" if "futures_symbol s" for s u
    using futures_symbol_no_colon [OF that] by (subst takeWhile_append2) auto
  have "s = s'" using tw [OF assms(1)] tw [OF assms(2)] e by metis
  then show "s = s' \<and> js_eq t t'" using e int_text_eq [OF assms(3,4)] by simp
next
  assume "s = s' \<and> js_eq t t'"
  then show "funding_id s t = funding_id s' t'" using int_text_eq [OF assms(3,4)] by (simp add: funding_id_def)
qed

definition funding_of :: "string \<Rightarrow> jsnum \<Rightarrow> futures_entry \<Rightarrow> bool" where
  "funding_of s t e \<longleftrightarrow> fent_kind e = FkFunding \<and> fent_symbol e = s \<and> js_eq (fent_at e) t"

lemma reserved_funding_id [simp]: "reserved_id (funding_id s t)" "take 4 (funding_id s t) \<noteq> ''liq:''"
  by (simp_all add: reserved_id_def funding_id_def)

text \<open>In a well-formed ledger the funding entry of a symbol and time is the entry with that id.\<close>

lemma funding_of_iff:
  assumes "futures_ok a" "futures_symbol s" "is_safe_integer t" "e \<in> set (facc_ledger a)"
  shows "funding_of s t e \<longleftrightarrow> fent_id e = funding_id s t"
proof -
  have w: "well_named e" using assms(1,4) by (simp add: futures_ok_def list_all_iff)
  show ?thesis
  proof (cases "fent_kind e = FkFunding")
    case True
    then show ?thesis using w funding_id_inject [of "fent_symbol e" s "fent_at e" t] assms(2,3)
      by (auto simp: well_named_def funding_of_def)
  next
    case False
    then have "fent_id e \<noteq> funding_id s t" using w by (cases "fent_kind e") (auto simp: well_named_def)
    then show ?thesis using False by (simp add: funding_of_def)
  qed
qed

lemma funding_count:
  assumes "futures_ok a" "futures_symbol s" "is_safe_integer t"
  shows "length (filter (funding_of s t) (facc_ledger a)) = (if has_entry (funding_id s t) (facc_ledger a) then 1 else 0)"
proof -
  have "filter (funding_of s t) (facc_ledger a) = filter (\<lambda>e. fent_id e = funding_id s t) (facc_ledger a)"
    using funding_of_iff [OF assms] by (intro filter_cong) auto
  moreover have "distinct (map fent_id (facc_ledger a))" using assms(1) by (simp add: futures_ok_def)
  moreover have "length (filter (\<lambda>e. fent_id e = i) es) = (if i \<in> fent_id ` set es then 1 else 0)"
    if "distinct (map fent_id es)" for i es using that by (induction es) auto
  ultimately show ?thesis by (simp only: has_entry_iff)
qed

lemma fund_position_ok:
  assumes "futures_ok a" "find_position s a = Some p" "\<not> has_entry (funding_id s t) (facc_ledger a)" "is_safe_integer t"
  shows "futures_ok (fund_position a p rate price t costs)"
proof -
  have p: "fpos_symbol p = s" "futures_symbol s"
    using find_position_Some [OF assms(2)] assms(1) by (auto simp: futures_ok_def list_all_iff)
  obtain e where e: "facc_ledger (fund_position a p rate price t costs) = facc_ledger a @ [e]" "fent_id e = funding_id s t"
    "fent_kind e = FkFunding" "fent_symbol e = s" "fent_at e = t"
    using p by (auto simp: fund_position_def Let_def)
  have "\<exists>q. facc_positions (fund_position a p rate price t costs) = other_positions s a @ [q] \<and> fpos_symbol q = s"
    using p by (simp add: fund_position_def Let_def)
  then show ?thesis using e assms(3,4) p
    by (intro futures_ok_append [OF assms(1) e(1), of s]) (auto simp: has_entry_iff well_named_def)
qed

lemma applyFunding_ok:
  assumes "futures_ok a" "applyFunding a s rate price t costs = Inr a'"
  shows "futures_ok a'"
proof (cases "find_position s a")
  case None
  then show ?thesis using assms by (simp add: applyFunding_def result_simps)
next
  case (Some p)
  show ?thesis
  proof (cases "has_entry (funding_id s t) (facc_ledger a)")
    case True
    then show ?thesis using Some assms by (simp add: applyFunding_def result_simps)
  next
    case False
    then have "applyMarkPrices (fund_position a p rate price t costs) ((\<lambda>_. None)(s \<mapsto> price)) t = Inr a'" "is_safe_integer t"
      using assms(2) Some by (simp_all add: applyFunding_def result_simps)
    then show ?thesis using applyMarkPrices_ok fund_position_ok [OF assms(1) Some False] by blast
  qed
qed

lemma futures_reach_ok: "futures_reach a \<Longrightarrow> futures_ok a"
proof (induction rule: futures_reach.induct)
  case (fr_empty w a)
  then show ?case by (auto simp: emptyPaperFuturesAccount_def result_simps futures_ok_def)
next
  case (fr_order a x price t costs a' e)
  then show ?case using applyOrder_ok by blast
next
  case (fr_marks a marks t a')
  then show ?case using applyMarkPrices_ok by blast
next
  case (fr_funding a s rate price t costs a')
  then show ?case using applyFunding_ok by blast
qed

section \<open>Slippage is adverse\<close>

lemma jmult_ge_self:
  assumes "finitePositive r" "representable (jval r)" "jval r < fp_limit" "Fin 1 \<le> m"
  shows "r \<le> r * m"
proof -
  obtain q where q: "r = Fin q" "0 < q" using assms(1) by (cases r) (auto simp: finitePositive_def)
  have r: "js_of_rat False q = Fin q" using assms(2,3) q by (intro js_of_rat_representable) auto
  show ?thesis
  proof (cases m)
    case (Fin u)
    then have "js_of_rat False q \<le> js_of_rat False (q * u)" using q assms(4) by (intro js_of_rat_mono) simp
    then show ?thesis using Fin q assms(4) r by (simp add: times_jsnum_def)
  qed (use assms(4) q in \<open>auto simp: times_jsnum_def jzero_def jinf_def\<close>)
qed

lemma jmult_le_self:
  assumes "finitePositive r" "representable (jval r)" "jval r < fp_limit" "Fin 0 \<le> m" "m \<le> Fin 1"
  shows "r * m \<le> r \<and> Fin 0 \<le> r * m"
proof -
  obtain q where q: "r = Fin q" "0 < q" using assms(1) by (cases r) (auto simp: finitePositive_def)
  have r: "js_of_rat False q = Fin q" using assms(2,3) q by (intro js_of_rat_representable) auto
  have fm: "is_finite m" "0 \<le> jval m" "jval m \<le> 1" using assms(4,5) by (cases m; simp)+
  then have "js_of_rat s (q * jval m) \<le> js_of_rat False q" "Fin 0 \<le> js_of_rat s (q * jval m)" for s
    using q by (auto intro!: js_of_rat_mono js_of_rat_nonneg)
  then show ?thesis using q r fm by (cases m) (simp_all add: times_jsnum_def)
qed

lemma slippage_move:
  assumes "validateCostProfile costs = Inr ()"
  shows "Fin 0 \<le> fcost_slippageBps costs div Fin 10000 \<and> fcost_slippageBps costs div Fin 10000 \<le> Fin 1"
proof -
  have b: "Fin 0 \<le> fcost_slippageBps costs" "fcost_slippageBps costs < Fin 500"
    using assms by (auto simp: validateCostProfile_def result_simps)
  then have f: "is_finite (fcost_slippageBps costs)" "0 \<le> jval (fcost_slippageBps costs)" "jval (fcost_slippageBps costs) < 500"
    by (cases "fcost_slippageBps costs"; simp)+
  have "js_of_rat s (jval (fcost_slippageBps costs) / 10000) \<le> js_of_rat False 1" for s using f by (intro js_of_rat_mono) simp
  moreover have "js_of_rat False 1 = Fin 1" using js_of_rat_int [of 1] by simp
  ultimately show ?thesis using f
    by (cases "fcost_slippageBps costs") (simp_all add: divide_jsnum_def jzero_def js_of_rat_nonneg)
qed

lemma adverse_price:
  assumes "finitePositive r" "representable (jval r)" "jval r < fp_limit" "validateCostProfile costs = Inr ()"
  shows "if opens = (side = Long) then r \<le> adverseFillPrice r side opens (fcost_slippageBps costs)
    else adverseFillPrice r side opens (fcost_slippageBps costs) \<le> r \<and> Fin 0 \<le> adverseFillPrice r side opens (fcost_slippageBps costs)"
proof -
  define move where "move = fcost_slippageBps costs div Fin 10000"
  have m: "Fin 0 \<le> move" "move \<le> Fin 1" using slippage_move [OF assms(4)] by (simp_all add: move_def)
  then have f: "is_finite move" by (cases move) auto
  have one: "representable 1" using representable_powi [of 0] by simp
  have lim: "(1 :: rat) < fp_limit" by (simp add: fp_limit_def)
  have up: "Fin 1 \<le> Fin 1 + move" using m one lim by (intro jadd_ge_self) auto
  have "Fin 1 + - move \<le> Fin 1 + Fin 0" using m f by (intro jadd_mono_right) (auto simp: jle_finite jval_uminus)
  moreover have "Fin 1 + Fin 0 = Fin 1" using jadd_int [of 1 0] by simp
  ultimately have down: "Fin 1 - move \<le> Fin 1" by (simp add: minus_jsnum_def)
  have nn: "Fin 0 \<le> Fin 1 - move" using m f by (intro jsub_nonneg) auto
  show ?thesis
    using jmult_ge_self [OF assms(1-3) up] jmult_le_self [OF assms(1-3) nn down]
    by (cases side; cases opens) (simp_all add: adverseFillPrice_def Let_def move_def)
qed

section \<open>Properties\<close>

text \<open>C21: Every account the simulator can reach has ledger ids without repetition, at most one position per symbol, and
  only symbols that an order may name; an order whose id the ledger holds, in whatever role, is never filled.\<close>
theorem futures_account_invariant:
  assumes "futures_reach a"
  shows "distinct (map fent_id (facc_ledger a)) \<and> distinct (map fpos_symbol (facc_positions a)) \<and>
    list_all (\<lambda>p. futures_symbol (fpos_symbol p)) (facc_positions a) \<and>
    (fint_id x \<in> fent_id ` set (facc_ledger a) \<longrightarrow> applyOrder a x price t costs \<noteq> Inr (Filled a' e))"
  using futures_reach_ok [OF assms] applyOrder_Filled [of a x price t costs a' e] by (auto simp: futures_ok_def)

text \<open>Marking an account closes exactly the positions whose mark has reached the liquidation price: the others are
  kept unchanged, none of them is breached at these marks, the wallet is untouched, and each closed position gets one
  ledger entry under a fresh id, at its liquidation price, that loses its isolated margin and never more.  The search
  for a fresh id always ends.\<close>
theorem marks_liquidate_breached:
  assumes "is_safe_integer t" "Fin 0 \<le> t"
  shows "\<exists>a' new. applyMarkPrices a marks t = Inr a' \<and> facc_walletBalance a' = facc_walletBalance a \<and>
    facc_positions a' = filter (\<lambda>p. \<not> breached marks p) (facc_positions a) \<and>
    facc_ledger a' = facc_ledger a @ new \<and>
    list_all2 (\<lambda>p e. fent_kind e = FkLiquidation \<and> fent_symbol e = fpos_symbol p \<and>
      fent_price e = fpos_liquidationPrice p \<and> fent_realizedPnl e = - js_max (Fin 0) (fpos_isolatedMargin p))
      (filter (breached marks) (facc_positions a)) new \<and>
    distinct (map fent_id new) \<and> fent_id ` set new \<inter> fent_id ` set (facc_ledger a) = {}"
proof -
  obtain a' where a': "applyMarkPrices a marks t = Inr a'" using applyMarkPrices_total [OF assms] .
  obtain new where "facc_ledger a' = facc_ledger a @ new"
    "liquidations t (filter (breached marks) (facc_positions a)) (facc_ledger a) new"
    using applyMarkPrices_spec [OF a'] by blast
  then show ?thesis using a' applyMarkPrices_spec [OF a'] by (auto simp: liquidations_def elim!: list_all2_mono)
qed

text \<open>C22: On a reachable account with a position in the symbol, settling a funding time leaves exactly one funding entry
  for that symbol and time, whatever order ids were used before; settling it again, at any valid rate and price, changes
  nothing, and the wallet is never touched.\<close>
theorem funding_settles_once:
  assumes "futures_reach a" "find_position s a = Some p" "validateCostProfile costs = Inr ()"
    "is_finite rate" "js_abs rate \<le> lit (1 / 20)" "finitePositive price" "is_safe_integer t" "Fin 0 \<le> t"
  shows "\<exists>a'. applyFunding a s rate price t costs = Inr a' \<and> facc_walletBalance a' = facc_walletBalance a \<and>
    length (filter (funding_of s t) (facc_ledger a')) = 1 \<and>
    (length (filter (funding_of s t) (facc_ledger a)) = 1 \<longrightarrow> a' = a) \<and>
    (applyFunding a' s rate2 price2 t costs = Inr a2 \<longrightarrow> a2 = a')"
proof -
  have ok: "futures_ok a" by (rule futures_reach_ok [OF assms(1)])
  have s: "futures_symbol s" using ok find_position_Some [OF assms(2)] by (auto simp: futures_ok_def list_all_iff)
  note cnt = funding_count [OF _ s assms(7)]
  have valid: "\<not> lit (1 / 20) < js_abs rate" using assms(5) by (auto simp: less_jsnum_def)
  have again: "a2 = b" if "has_entry (funding_id s t) (facc_ledger b)" "applyFunding b s rate2 price2 t costs = Inr a2" for b
    using that by (auto simp: applyFunding_def result_simps split: option.splits)
  show ?thesis
  proof (cases "has_entry (funding_id s t) (facc_ledger a)")
    case True
    then have "applyFunding a s rate price t costs = Inr a" using assms valid by (simp add: applyFunding_def)
    then show ?thesis using cnt [OF ok] True again [OF True] by simp
  next
    case False
    define f where "f = fund_position a p rate price t costs"
    obtain a' where m: "applyMarkPrices f ((\<lambda>_. None)(s \<mapsto> price)) t = Inr a'" using applyMarkPrices_total [OF assms(7,8)] .
    obtain new where a': "applyMarkPrices f ((\<lambda>_. None)(s \<mapsto> price)) t = Inr a'"
      "facc_walletBalance a' = facc_walletBalance f" "facc_ledger a' = facc_ledger f @ new"
      using m applyMarkPrices_spec [OF m] by blast
    have ap: "applyFunding a s rate price t costs = Inr a'"
      using assms(2-7) valid False a'(1) by (simp add: applyFunding_def f_def)
    have "facc_walletBalance f = facc_walletBalance a" "has_entry (funding_id s t) (facc_ledger f)"
      using find_position_Some [OF assms(2)] by (simp_all add: f_def fund_position_def Let_def has_entry_iff)
    then have e: "has_entry (funding_id s t) (facc_ledger a')" "facc_walletBalance a' = facc_walletBalance a"
      using a' by (auto simp: has_entry_iff)
    have "futures_ok a'" by (rule applyFunding_ok [OF ok ap])
    then show ?thesis using ap e cnt [of a'] cnt [OF ok] False again [OF e(1)] by simp
  qed
qed

text \<open>A filled order never trades at a better price than the reference: buying (opening a long or closing a short)
  fills at or above it, selling at or below it and never below zero, with every rounding included; and an order marked
  reduce-only only ever shrinks the opposite position of its symbol, by at most its quantity plus the dust tolerance.\<close>
theorem futures_fill_is_adverse:
  assumes "applyOrder a x r t costs = Inr (Filled a' e)" "representable (jval r)" "jval r < fp_limit"
  shows "(if (fent_kind e = FkOpen) = (fent_side e = Long) then r \<le> fent_price e else fent_price e \<le> r \<and> Fin 0 \<le> fent_price e) \<and>
    (fint_reduceOnly x \<longrightarrow> fent_kind e = FkClose \<and>
      (\<exists>c. find_position (fint_symbol x) a = Some c \<and> fent_side e = fpos_side c \<and> fpos_side c \<noteq> fint_side x \<and>
        \<not> fpos_quantity c + futures_eps < fent_quantity e))"
proof -
  note f = applyOrder_Filled [OF assms(1)]
  note price = adverse_price [of r, OF _ assms(2,3), of costs]
  show ?thesis
  proof (cases "find_position (fint_symbol x) a")
    case None
    then show ?thesis using f price [of True "fint_side x"]
      by (auto simp: open_order_def Let_def split: if_splits)
  next
    case (Some c)
    then show ?thesis using f price [of True "fint_side x"] price [of False "fpos_side c"]
      by (auto simp: open_order_def close_order_def Let_def split: if_splits)
  qed
qed

section \<open>A concrete account\<close>

definition sample_futures_costs :: futures_costs where
  "sample_futures_costs = \<lparr>fcost_takerFeeRate = Fin 0, fcost_slippageBps = Fin 100, fcost_maintenanceMarginRate = Fin (1 / 64)\<rparr>"

definition sample_empty_futures :: futures_account where
  "sample_empty_futures = \<lparr>facc_walletBalance = Fin 1000, facc_positions = [], facc_ledger = []\<rparr>"

definition sample_futures_intent :: "string \<Rightarrow> futures_side \<Rightarrow> bool \<Rightarrow> futures_intent" where
  "sample_futures_intent i side r = \<lparr>fint_id = i, fint_symbol = ''BTCUSDT'', fint_side = side, fint_quantity = Fin 2,
     fint_leverage = Fin 2, fint_marginMode = ''ISOLATED'', fint_reduceOnly = r\<rparr>"

definition sample_fill :: "futures_fill result" where
  "sample_fill = applyOrder sample_empty_futures (sample_futures_intent ''o1'' Long False) (Fin 100) (Fin 5) sample_futures_costs"

lemma sample_fill_obtain:
  obtains a e p where "sample_fill = Inr (Filled a e)" "futures_reach a" "find_position ''BTCUSDT'' a = Some p"
    "fent_id ` set (facc_ledger a) = {''o1''}" "fpos_side p = Long" "fpos_quantity p = Fin 2"
proof -
  have "case sample_fill of
      Inr (Filled a e) \<Rightarrow> map fent_id (facc_ledger a) = [''o1''] \<and>
        map_option (\<lambda>p. (fpos_side p, fpos_quantity p)) (find_position ''BTCUSDT'' a) = Some (Long, Fin 2)
    | _ \<Rightarrow> False" by code_simp
  then obtain a e where a: "sample_fill = Inr (Filled a e)" "map fent_id (facc_ledger a) = [''o1'']"
    "map_option (\<lambda>p. (fpos_side p, fpos_quantity p)) (find_position ''BTCUSDT'' a) = Some (Long, Fin 2)"
    by (auto split: sum.splits futures_fill.splits)
  have "futures_reach sample_empty_futures"
    by (rule fr_empty [of "Fin 1000"]) (simp add: emptyPaperFuturesAccount_def finitePositive_def sample_empty_futures_def)
  then have "futures_reach a" using a(1) unfolding sample_fill_def by (rule fr_order)
  moreover have "fent_id ` set (facc_ledger a) = {''o1''}" using arg_cong [OF a(2), of set] by simp
  moreover obtain p where "find_position ''BTCUSDT'' a = Some p" "fpos_side p = Long" "fpos_quantity p = Fin 2"
    using a(3) by (cases "find_position ''BTCUSDT'' a") simp_all
  ultimately show thesis by (intro that [OF a(1)])
qed

lemma sample_costs_valid: "validateCostProfile sample_futures_costs = Inr ()"
  by code_simp

lemma futures_account_invariant_witness:
  "\<exists>a e. sample_fill = Inr (Filled a e) \<and> distinct (map fent_id (facc_ledger a)) \<and>
     applyOrder a (sample_futures_intent ''o1'' Long False) (Fin 100) (Fin 6) sample_futures_costs \<noteq> Inr (Filled a e)"
proof -
  obtain a e p where a: "sample_fill = Inr (Filled a e)" "futures_reach a" "fent_id ` set (facc_ledger a) = {''o1''}"
    by (rule sample_fill_obtain)
  have "fint_id (sample_futures_intent ''o1'' Long False) \<in> fent_id ` set (facc_ledger a)" unfolding a(3)
    by (simp add: sample_futures_intent_def)
  then show ?thesis using futures_account_invariant [OF a(2), of "sample_futures_intent ''o1'' Long False" "Fin 100" "Fin 6"
      sample_futures_costs a e] a(1) by blast
qed

lemma marks_liquidate_breached_witness:
  "\<exists>a' new. applyMarkPrices sample_empty_futures (\<lambda>_. None) (Fin 7) = Inr a' \<and>
     facc_ledger a' = facc_ledger sample_empty_futures @ new \<and> facc_positions a' = []"
  using marks_liquidate_breached [of "Fin 7" sample_empty_futures "\<lambda>_. None"] is_safe_integer_of_int [of 7]
  by (auto simp: sample_empty_futures_def)

lemma funding_settles_once_witness:
  "\<exists>a e a'. sample_fill = Inr (Filled a e) \<and>
     applyFunding a ''BTCUSDT'' (lit (1 / 1000)) (Fin 100) (Fin 8) sample_futures_costs = Inr a' \<and>
     length (filter (funding_of ''BTCUSDT'' (Fin 8)) (facc_ledger a')) = 1"
proof -
  obtain a e p where a: "sample_fill = Inr (Filled a e)" "futures_reach a" "find_position ''BTCUSDT'' a = Some p"
    by (rule sample_fill_obtain)
  have c: "is_finite (lit (1 / 1000))" "js_abs (lit (1 / 1000)) \<le> lit (1 / 20)" by code_simp+
  have p: "finitePositive (Fin 100)" "is_safe_integer (Fin 8)" "Fin 0 \<le> Fin 8"
    using is_safe_integer_of_int [of 8] by (simp_all add: finitePositive_def)
  show ?thesis using funding_settles_once [OF a(2,3) sample_costs_valid c p] a(1) by blast
qed

lemma futures_fill_is_adverse_witness:
  "\<exists>a e. sample_fill = Inr (Filled a e) \<and> (fent_side e = Long \<and> fent_kind e = FkOpen \<longrightarrow> Fin 100 \<le> fent_price e)"
proof -
  obtain a e p where a: "sample_fill = Inr (Filled a e)" by (rule sample_fill_obtain)
  have r: "representable (jval (Fin 100))" "jval (Fin 100) < fp_limit"
    using representable_of_int [of 100] int_less_fp_limit [of 100] by simp_all
  have "fent_side e = Long \<and> fent_kind e = FkOpen \<longrightarrow> Fin 100 \<le> fent_price e"
    using futures_fill_is_adverse [OF a [unfolded sample_fill_def] r] by (auto split: if_splits)
  then show ?thesis using a by blast
qed

end
