(* ===== verification/FuturesGate.thy ===== *)
theory FuturesGate imports PaperFutures SafetyGate begin

text \<open>
  \<open>apps/cloud/src/futures/paperFuturesRiskGate.ts\<close> and the day key of
  \<open>apps/cloud/src/paperTradingDay.ts\<close>: the limits, the loss state of the trading day, and the decision
  on one futures order.  The properties compose the gate with the simulator of \<open>PaperFutures\<close>: what
  the gate judged is what the simulator opens, and an order that shrinks exposure passes both.
\<close>

section \<open>The memoized day key\<close>

definition same_value_zero :: "jsnum \<Rightarrow> jsnum \<Rightarrow> bool" where
  "same_value_zero a b \<longleftrightarrow> a = b \<or> js_eq a b"

definition paperTradingDayKey :: "(jsnum \<Rightarrow> string) \<Rightarrow> jsnum \<Rightarrow> (jsnum \<times> string) list \<Rightarrow> string result \<times> (jsnum \<times> string) list" where
  "paperTradingDayKey seoul_day timestamp cache =
     (case List.find (\<lambda>e. same_value_zero (fst e) timestamp) cache of
        Some e \<Rightarrow> (Inr (snd e), cache)
      | None \<Rightarrow>
        (case tradingDayKey seoul_day timestamp of
           Inl e \<Rightarrow> (Inl e, cache)
         | Inr key \<Rightarrow> (Inr key, (if 50000 \<le> length cache then [] else cache) @ [(timestamp, key)])))"

definition day_cache_ok :: "(jsnum \<Rightarrow> string) \<Rightarrow> (jsnum \<times> string) list \<Rightarrow> bool" where
  "day_cache_ok seoul_day cache \<longleftrightarrow> list_all (\<lambda>e. tradingDayKey seoul_day (fst e) = Inr (snd e)) cache"

text \<open>The memo never changes an answer, whatever was asked before; the day function must not tell the two zeros apart.\<close>

lemma paperTradingDayKey_memo:
  assumes "day_cache_ok seoul_day cache" "seoul_day NZero = seoul_day (Fin 0)"
  shows "fst (paperTradingDayKey seoul_day t cache) = tradingDayKey seoul_day t \<and>
    day_cache_ok seoul_day (snd (paperTradingDayKey seoul_day t cache))"
proof (cases "List.find (\<lambda>e. same_value_zero (fst e) t) cache")
  case None
  then show ?thesis using assms(1)
    by (auto simp: paperTradingDayKey_def day_cache_ok_def split: sum.split)
next
  case (Some e)
  then have e: "e \<in> set cache" "same_value_zero (fst e) t" by (auto simp: find_Some_iff)
  have k: "tradingDayKey seoul_day (fst e) = Inr (snd e)" using assms(1) e(1) by (simp add: day_cache_ok_def list_all_iff)
  have z: "fst e = t \<or> fst e = Fin 0 \<and> t = NZero \<or> fst e = NZero \<and> t = Fin 0"
    using e(2) by (cases "fst e"; cases t) (auto simp: same_value_zero_def js_eq_def)
  have "tradingDayKey seoul_day (fst e) = tradingDayKey seoul_day t"
    using z assms(2) by (auto simp: tradingDayKey_def isSafeTime_def is_safe_integer_def is_integer_def)
  then show ?thesis using Some k assms(1) by (simp add: paperTradingDayKey_def)
qed

section \<open>Limits and daily losses\<close>

record futures_limits =
  flim_maxLeverage :: jsnum
  flim_minLiquidationDistanceRatio :: jsnum
  flim_maxConsecutiveLosses :: jsnum
  flim_maxDailyLossRatio :: jsnum
  flim_maxPositionMarginRatio :: jsnum

definition PAPER_FUTURES_OWNER_LIMITS :: futures_limits where
  "PAPER_FUTURES_OWNER_LIMITS =
     \<lparr>flim_maxLeverage = Fin 2, flim_minLiquidationDistanceRatio = lit (1 / 4), flim_maxConsecutiveLosses = Fin 3,
      flim_maxDailyLossRatio = lit (1 / 20), flim_maxPositionMarginRatio = lit (1 / 5)\<rparr>"

definition assertLimitsNotLoosened :: "futures_limits \<Rightarrow> futures_limits \<Rightarrow> unit result" where
  "assertLimitsNotLoosened limits owner =
     guard_r (flim_maxLeverage owner < flim_maxLeverage limits \<or>
         flim_minLiquidationDistanceRatio limits < flim_minLiquidationDistanceRatio owner \<or>
         flim_maxConsecutiveLosses owner < flim_maxConsecutiveLosses limits \<or>
         flim_maxDailyLossRatio owner < flim_maxDailyLossRatio limits \<or>
         flim_maxPositionMarginRatio owner < flim_maxPositionMarginRatio limits)
       (Error ''PAPER_FUTURES_RISK_LIMITS_LOOSENED'') (Inr ())"

definition futuresDailyLossState :: "(jsnum \<Rightarrow> string) \<Rightarrow> futures_account \<Rightarrow> jsnum \<Rightarrow> (nat \<times> jsnum) result" where
  "futuresDailyLossState seoul_day a nowMs =
     bind_r (tradingDayKey seoul_day nowMs) (\<lambda>today.
     bind_r (map_r (\<lambda>e. tradingDayKey seoul_day (fent_at e)) (facc_ledger a)) (\<lambda>keys.
     let todays = js_sort (\<lambda>x y. fent_at x - fent_at y) (map fst (filter (\<lambda>ek. snd ek = today) (zip (facc_ledger a) keys)));
         realizedPnl = fold (\<lambda>e sum. sum + (if fent_kind e = FkOpen then - fent_fee e else fent_realizedPnl e)) todays (Fin 0);
         closes = filter (\<lambda>e. fent_kind e = FkClose \<or> fent_kind e = FkLiquidation) todays
     in Inr (length (takeWhile (\<lambda>e. fent_realizedPnl e < Fin 0) (rev closes)), realizedPnl)))"

section \<open>The decision\<close>

record futures_check =
  fck_account :: futures_account
  fck_intent :: futures_intent
  fck_markPrice :: jsnum
  fck_markObservedAt :: jsnum
  fck_now :: jsnum
  fck_maxMarkAgeMs :: jsnum
  fck_startOfDayEquity :: jsnum
  fck_costs :: futures_costs
  fck_limits :: "futures_limits option"

text \<open>The decision is the list of reason codes; the order is allowed when it is empty.\<close>

definition gate_limits :: "futures_check \<Rightarrow> futures_limits" where
  "gate_limits q = (case fck_limits q of None \<Rightarrow> PAPER_FUTURES_OWNER_LIMITS | Some l \<Rightarrow> l)"

definition gate_current :: "futures_check \<Rightarrow> futures_position option" where
  "gate_current q = find_position (fint_symbol (fck_intent q)) (fck_account q)"

definition gate_reduces :: "futures_check \<Rightarrow> bool" where
  "gate_reduces q = (case gate_current q of None \<Rightarrow> False | Some c \<Rightarrow> fpos_side c \<noteq> fint_side (fck_intent q))"

definition mark_stale :: "futures_check \<Rightarrow> bool" where
  "mark_stale q \<longleftrightarrow>
     \<not> Fin 0 < fck_markPrice q \<or> \<not> is_finite (fck_markPrice q) \<or> fck_now q < fck_markObservedAt q \<or>
     fck_maxMarkAgeMs q < fck_now q - fck_markObservedAt q"

definition gate_fill :: "futures_check \<Rightarrow> jsnum" where
  "gate_fill q = adverseFillPrice (fck_markPrice q) (fint_side (fck_intent q)) True (fcost_slippageBps (fck_costs q))"

definition gate_margin :: "futures_check \<Rightarrow> jsnum" where
  "gate_margin q =
     fint_quantity (fck_intent q) * gate_fill q div js_max (Fin 1) (fint_leverage (fck_intent q)) +
     (case gate_current q of None \<Rightarrow> Fin 0 | Some c \<Rightarrow> fpos_isolatedMargin c)"

definition gate_liquidation :: "futures_check \<Rightarrow> jsnum" where
  "gate_liquidation q =
     (let quantity = fint_quantity (fck_intent q) + (case gate_current q of None \<Rightarrow> Fin 0 | Some c \<Rightarrow> fpos_quantity c);
          entry = (case gate_current q of None \<Rightarrow> gate_fill q
            | Some c \<Rightarrow> (fpos_entryPrice c * fpos_quantity c + gate_fill q * fint_quantity (fck_intent q)) div quantity)
      in liquidationPriceFromMargin (fint_side (fck_intent q)) entry quantity (gate_margin q)
        (fcost_maintenanceMarginRate (fck_costs q)))"

definition exposure_reasons :: "futures_check \<Rightarrow> nat \<times> jsnum \<Rightarrow> string list" where
  "exposure_reasons q loss =
     (let x = fck_intent q; limits = gate_limits q
      in (if fint_marginMode x \<noteq> ''ISOLATED'' then [''PAPER_FUTURES_MARGIN_MODE_NOT_ALLOWED''] else []) @
         (if \<not> (Fin 1 \<le> fint_leverage x \<and> fint_leverage x \<le> flim_maxLeverage limits)
          then [''PAPER_FUTURES_LEVERAGE_ABOVE_LIMIT''] else []) @
         (if js_abs (fck_markPrice q - gate_liquidation q) div fck_markPrice q < flim_minLiquidationDistanceRatio limits
          then [''PAPER_FUTURES_LIQUIDATION_TOO_CLOSE''] else []) @
         (if \<not> Fin 0 < fck_startOfDayEquity q \<or> fck_startOfDayEquity q * flim_maxPositionMarginRatio limits < gate_margin q
          then [''PAPER_FUTURES_POSITION_MARGIN_ABOVE_LIMIT''] else []) @
         (if flim_maxConsecutiveLosses limits \<le> jint (int (fst loss))
          then [''PAPER_FUTURES_CONSECUTIVE_LOSS_LIMIT''] else []) @
         (if snd loss \<le> - fck_startOfDayEquity q * flim_maxDailyLossRatio limits
          then [''PAPER_FUTURES_DAILY_LOSS_LIMIT''] else []))"

definition evaluatePaperFuturesOrder :: "(jsnum \<Rightarrow> string) \<Rightarrow> futures_check \<Rightarrow> string list result" where
  "evaluatePaperFuturesOrder seoul_day q =
     bind_r (assertLimitsNotLoosened (gate_limits q) PAPER_FUTURES_OWNER_LIMITS) (\<lambda>_.
       if mark_stale q then Inr [''PAPER_FUTURES_MARK_PRICE_STALE'']
       else if \<not> finitePositive (fint_quantity (fck_intent q)) then Inr [''PAPER_FUTURES_QUANTITY_INVALID'']
       else if gate_reduces q \<and> (case gate_current q of None \<Rightarrow> False
           | Some c \<Rightarrow> fpos_quantity c + futures_eps < fint_quantity (fck_intent q))
       then Inr [''PAPER_FUTURES_FLIP_NOT_ALLOWED'']
       else if gate_reduces q then Inr []
       else if fint_reduceOnly (fck_intent q) then Inr [''PAPER_FUTURES_REDUCE_ONLY_WOULD_INCREASE'']
       else bind_r (futuresDailyLossState seoul_day (fck_account q) (fck_now q)) (\<lambda>loss. Inr (exposure_reasons q loss)))"

section \<open>The gate and the simulator agree\<close>

lemma jadd_comm: "a + b = b + (a :: jsnum)"
  by (cases a; cases b) (auto simp: plus_jsnum_def add.commute)

lemma js_max_one: "Fin 1 \<le> x \<Longrightarrow> js_max (Fin 1) x = x"
  by (cases x) (auto simp: js_max_def jzero_def)

lemma gate_judges_opened:
  assumes "Fin 1 \<le> fint_leverage (fck_intent q)"
    and p_def: "p = opened_position (fck_intent q) (gate_fill q) t (fck_costs q) (gate_current q)"
  shows "fpos_isolatedMargin p = gate_margin q" "fpos_liquidationPrice p = gate_liquidation q"
    "fpos_leverage p = fint_leverage (fck_intent q)"
proof -
  show m: "fpos_isolatedMargin p = gate_margin q"
    using assms(1) by (simp add: p_def opened_position_def gate_margin_def Let_def js_max_one jadd_comm)
  have m': "gate_margin q = (case gate_current q of None \<Rightarrow> Fin 0 | Some c \<Rightarrow> fpos_isolatedMargin c) +
      fint_quantity (fck_intent q) * gate_fill q div fint_leverage (fck_intent q)"
    using m by (simp add: p_def opened_position_def Let_def)
  show "fpos_liquidationPrice p = gate_liquidation q"
    unfolding gate_liquidation_def m' by (simp add: p_def opened_position_def Let_def jadd_comm split: option.split)
  show "fpos_leverage p = fint_leverage (fck_intent q)" by (simp add: p_def opened_position_def Let_def)
qed

lemma find_opened: "fpos_symbol p = s \<Longrightarrow> find_position s \<lparr>facc_walletBalance = w, facc_positions = other_positions s a @ [p], facc_ledger = l\<rparr> = Some p"
proof -
  assume p: "fpos_symbol p = s"
  have "List.find (\<lambda>p. fpos_symbol p = s) (qs @ [p]) = Some p" if "\<forall>x \<in> set qs. fpos_symbol x \<noteq> s" for qs
    using that p by (induction qs) auto
  then show ?thesis by (simp add: find_position_def other_positions_def)
qed

section \<open>Properties\<close>

text \<open>C23: When the gate allows an order and the simulator, given the same account, price and costs, fills it as an opening,
  the position it opens is exactly the one the gate judged: its leverage is within the owner's cap, its margin is not
  above the share of the day's equity, its liquidation price is not closer to the mark than the floor, and neither the
  losing streak nor the day's loss had reached its limit.\<close>
theorem gated_opening_within_limits:
  assumes "evaluatePaperFuturesOrder seoul_day q = Inr []"
    "applyOrder (fck_account q) (fck_intent q) (fck_markPrice q) t (fck_costs q) = Inr (Filled a' e)" "fent_kind e = FkOpen"
  shows "\<exists>p n pnl. find_position (fint_symbol (fck_intent q)) a' = Some p \<and>
    fpos_leverage p \<le> flim_maxLeverage PAPER_FUTURES_OWNER_LIMITS \<and>
    \<not> fck_startOfDayEquity q * flim_maxPositionMarginRatio (gate_limits q) < fpos_isolatedMargin p \<and>
    \<not> js_abs (fck_markPrice q - fpos_liquidationPrice p) div fck_markPrice q < flim_minLiquidationDistanceRatio (gate_limits q) \<and>
    futuresDailyLossState seoul_day (fck_account q) (fck_now q) = Inr (n, pnl) \<and>
    \<not> flim_maxConsecutiveLosses (gate_limits q) \<le> jint (int n) \<and>
    \<not> pnl \<le> - fck_startOfDayEquity q * flim_maxDailyLossRatio (gate_limits q)"
proof -
  note f = applyOrder_Filled [OF assms(2)]
  have op: "\<not> gate_reduces q \<and> open_order (fck_account q) (fck_intent q) (fck_markPrice q) t (fck_costs q) (gate_current q) = Filled a' e"
  proof (cases "gate_current q")
    case None
    then show ?thesis using f by (simp add: gate_reduces_def gate_current_def)
  next
    case (Some c)
    then show ?thesis using f close_order_Filled [of "fck_account q" "fck_intent q" "fck_markPrice q" t "fck_costs q" c a' e] assms(3)
      by (auto simp: gate_reduces_def gate_current_def split: if_splits)
  qed
  then obtain n pnl where loss: "futuresDailyLossState seoul_day (fck_account q) (fck_now q) = Inr (n, pnl)"
    "exposure_reasons q (n, pnl) = []" "assertLimitsNotLoosened (gate_limits q) PAPER_FUTURES_OWNER_LIMITS = Inr ()"
    using assms(1) by (auto simp: evaluatePaperFuturesOrder_def result_simps split: if_splits)
  define p where "p = opened_position (fck_intent q) (gate_fill q) t (fck_costs q) (gate_current q)"
  have ps: "facc_positions a' = other_positions (fint_symbol (fck_intent q)) (fck_account q) @ [p]"
    using op open_order_Filled by (simp add: p_def gate_fill_def)
  have find: "find_position (fint_symbol (fck_intent q)) a' = Some p"
    using find_opened [of p "fint_symbol (fck_intent q)" "Fin 0" "fck_account q" "[]"] ps by (simp add: find_position_def p_def)
  have lev: "Fin 1 \<le> fint_leverage (fck_intent q)" "fint_leverage (fck_intent q) \<le> flim_maxLeverage (gate_limits q)"
    using loss(2) by (auto simp: exposure_reasons_def Let_def split: if_splits)
  have "flim_maxLeverage (gate_limits q) \<le> flim_maxLeverage PAPER_FUTURES_OWNER_LIMITS"
    using loss(3) lev(2)
    by (cases "flim_maxLeverage (gate_limits q)") (auto simp: assertLimitsNotLoosened_def result_simps PAPER_FUTURES_OWNER_LIMITS_def)
  then have "fpos_leverage p \<le> flim_maxLeverage PAPER_FUTURES_OWNER_LIMITS"
    using gate_judges_opened(3) [OF lev(1) p_def] lev(2) jle_trans by simp
  then show ?thesis using find loss gate_judges_opened(1,2) [OF lev(1) p_def]
    by (auto simp: exposure_reasons_def Let_def split: if_splits)
qed

text \<open>Reducing risk is never blocked: on a reachable account, an order against the current position that does not
  exceed it passes the gate with a fresh mark whatever the losses of the day, and under a fresh unreserved id the
  simulator fills it, leaving at most the rest of that position on its side.\<close>
theorem risk_reduction_always_passes:
  assumes "futures_reach (fck_account q)" "gate_current q = Some c" "fpos_side c \<noteq> fint_side (fck_intent q)"
    "\<not> fpos_quantity c + futures_eps < fint_quantity (fck_intent q)" "finitePositive (fint_quantity (fck_intent q))"
    "\<not> mark_stale q" "fck_limits q = None" "validateCostProfile (fck_costs q) = Inr ()"
    "\<not> reserved_id (fint_id (fck_intent q))" "\<not> blank (fint_id (fck_intent q))"
    "\<not> has_entry (fint_id (fck_intent q)) (facc_ledger (fck_account q))"
    "is_safe_integer t" "Fin 0 \<le> t" "fint_marginMode (fck_intent q) = ''ISOLATED''"
  shows "evaluatePaperFuturesOrder seoul_day q = Inr [] \<and>
    (\<exists>a' e. applyOrder (fck_account q) (fck_intent q) (fck_markPrice q) t (fck_costs q) = Inr (Filled a' e) \<and>
      fent_kind e = FkClose \<and>
      (\<forall>p \<in> set (facc_positions a'). fpos_symbol p = fint_symbol (fck_intent q) \<longrightarrow>
        fpos_side p = fpos_side c \<and> fpos_quantity p = fpos_quantity c - fint_quantity (fck_intent q)))"
proof -
  have red: "gate_reduces q" using assms(2,3) by (simp add: gate_reduces_def)
  have lim: "assertLimitsNotLoosened (gate_limits q) PAPER_FUTURES_OWNER_LIMITS = Inr ()"
    using assms(7) by (simp add: gate_limits_def) code_simp
  have gate: "evaluatePaperFuturesOrder seoul_day q = Inr []"
    using red lim assms(2,4-6) by (simp add: evaluatePaperFuturesOrder_def)
  have sym: "futures_symbol (fint_symbol (fck_intent q))" "fpos_symbol c = fint_symbol (fck_intent q)"
    using futures_reach_ok [OF assms(1)] find_position_Some [OF assms(2) [unfolded gate_current_def]]
    by (auto simp: futures_ok_def list_all_iff)
  have mark: "finitePositive (fck_markPrice q)" using assms(6) by (simp add: mark_stale_def finitePositive_def)
  have t: "\<not> t < Fin 0" using assms(13) by (cases t) auto
  obtain a' e where ae: "close_order (fck_account q) (fck_intent q) (fck_markPrice q) t (fck_costs q) c = Filled a' e"
    using assms(4) by (simp add: close_order_def Let_def)
  have "applyOrder (fck_account q) (fck_intent q) (fck_markPrice q) t (fck_costs q) = Inr (Filled a' e)"
    using assms ae sym mark t by (simp add: applyOrder_def gate_current_def)
  moreover have "fpos_symbol p \<noteq> s" if "p \<in> set (other_positions s (fck_account q))" for p s
    using that by (simp add: other_positions_def)
  ultimately show ?thesis using gate close_order_Filled [OF ae] by fastforce
qed

section \<open>A concrete decision\<close>

definition sample_check :: "futures_account \<Rightarrow> futures_intent \<Rightarrow> futures_check" where
  "sample_check a x = \<lparr>fck_account = a, fck_intent = x, fck_markPrice = Fin 100, fck_markObservedAt = Fin 5, fck_now = Fin 5,
     fck_maxMarkAgeMs = Fin 10, fck_startOfDayEquity = Fin 1000, fck_costs = sample_futures_costs, fck_limits = None\<rparr>"

lemma sample_check_fields [simp]:
  "fck_account (sample_check a x) = a" "fck_intent (sample_check a x) = x" "fck_markPrice (sample_check a x) = Fin 100"
  "fck_costs (sample_check a x) = sample_futures_costs" "fck_limits (sample_check a x) = None"
  by (simp_all add: sample_check_def)

lemma sample_check_fresh: "\<not> mark_stale (sample_check a x)"
  using jadd_int [of 5 "- 5"] by (simp add: mark_stale_def sample_check_def minus_jsnum_def)

lemma gated_opening_within_limits_witness:
  "\<exists>a e p. sample_fill = Inr (Filled a e) \<and> find_position ''BTCUSDT'' a = Some p \<and> fpos_leverage p \<le> Fin 2"
proof -
  let ?x = "sample_futures_intent ''o1'' Long False" and ?q = "sample_check sample_empty_futures (sample_futures_intent ''o1'' Long False)"
  have g: "evaluatePaperFuturesOrder (\<lambda>_. ''day'') ?q = Inr []" by code_simp
  have "case sample_fill of Inr (Filled a e) \<Rightarrow> fent_kind e = FkOpen | _ \<Rightarrow> False" by code_simp
  then obtain a e where f: "sample_fill = Inr (Filled a e)" "fent_kind e = FkOpen"
    by (auto split: sum.splits futures_fill.splits)
  have x: "fint_symbol ?x = ''BTCUSDT''" by (simp add: sample_futures_intent_def)
  show ?thesis using gated_opening_within_limits [OF g _ f(2), of "Fin 5" a] f
    by (auto simp: x sample_fill_def PAPER_FUTURES_OWNER_LIMITS_def)
qed

lemma risk_reduction_always_passes_witness:
  "\<exists>a e a2 e2. sample_fill = Inr (Filled a e) \<and>
     applyOrder a (sample_futures_intent ''o2'' Short True) (Fin 100) (Fin 6) sample_futures_costs = Inr (Filled a2 e2) \<and>
     fent_kind e2 = FkClose"
proof -
  obtain a e p where a: "sample_fill = Inr (Filled a e)" "futures_reach a" "find_position ''BTCUSDT'' a = Some p"
    "fent_id ` set (facc_ledger a) = {''o1''}" "fpos_side p = Long" "fpos_quantity p = Fin 2" by (rule sample_fill_obtain)
  let ?x = "sample_futures_intent ''o2'' Short True" and ?q = "sample_check a (sample_futures_intent ''o2'' Short True)"
  have q: "\<not> Fin 2 + futures_eps < Fin 2" "finitePositive (fint_quantity ?x)" "\<not> reserved_id (fint_id ?x)" "\<not> blank (fint_id ?x)"
    by code_simp+
  have x: "fint_symbol ?x = ''BTCUSDT''" "fint_side ?x = Short" "fint_quantity ?x = Fin 2" "fint_id ?x = ''o2''"
    "fint_marginMode ?x = ''ISOLATED''" by (simp_all add: sample_futures_intent_def)
  have e: "\<not> has_entry (fint_id ?x) (facc_ledger a)" using a(4) by (simp add: has_entry_iff x)
  have t: "is_safe_integer (Fin 6)" using is_safe_integer_of_int [of 6] by simp
  show ?thesis
    using risk_reduction_always_passes [of ?q p "Fin 6" "\<lambda>_. ''day''"] a q e t x sample_check_fresh sample_costs_valid
    by (auto simp: gate_current_def)
qed

end
