(* ===== verification/DecimalText.thy ===== *)
theory DecimalText imports JsNumber Prelude begin

text \<open>
  Decimal numbers as text, as \<open>durable-execution.ts\<close> and \<open>global-risk-gateway.ts\<close> handle them: the
  accepted pattern, the exact sum, the canonical form and the value, which \<open>Number\<close> rounds once.  The
  sum denotes the sum of the values, and canonical forms agree exactly when the values do, for texts
  without superfluous leading zeros.
\<close>

section \<open>Texts and values\<close>

definition dot :: char where
  "dot = CHR ''.''"

definition before_dot :: "string \<Rightarrow> string" where
  "before_dot s = takeWhile (\<lambda>c. c \<noteq> dot) s"

definition after_dot :: "string \<Rightarrow> string" where
  "after_dot s = takeWhile (\<lambda>c. c \<noteq> dot) (drop 1 (dropWhile (\<lambda>c. c \<noteq> dot) s))"

text \<open>The pattern \<open>^\d+(?:\.\d+)?$\<close>.\<close>

definition is_decimal :: "string \<Rightarrow> bool" where
  "is_decimal s \<longleftrightarrow>
     before_dot s \<noteq> [] \<and> list_all is_digit (before_dot s) \<and>
     (dot \<in> set s \<longrightarrow> after_dot s \<noteq> [] \<and> list_all is_digit (after_dot s) \<and> s = before_dot s @ dot # after_dot s)"

definition strip_zeros :: "string \<Rightarrow> string" where
  "strip_zeros s = rev (dropWhile (\<lambda>c. c = CHR ''0'') (rev s))"

text \<open>The sum of two decimals of that pattern, digits aligned on the longer fraction; a fraction of zeros is dropped.\<close>

definition dec_sum :: "string \<Rightarrow> string \<Rightarrow> string" where
  "dec_sum a b =
     (let af = after_dot a; bf = after_dot b; scale = max (length af) (length bf);
          n = digits_val (before_dot a @ af @ replicate (scale - length af) (CHR ''0'')) +
              digits_val (before_dot b @ bf @ replicate (scale - length bf) (CHR ''0''));
          s = pad_start (scale + 1) (CHR ''0'') (nat_string n);
          k = length s - scale
      in if scale = 0 then s
         else if list_all (\<lambda>c. c = CHR ''0'') (drop k s) then take k s
         else take k s @ dot # drop k s)"

definition canonicalDecimal :: "string \<Rightarrow> string" where
  "canonicalDecimal v =
     (if dot \<notin> set v then v
      else if strip_zeros (after_dot v) = [] then before_dot v
      else before_dot v @ dot # strip_zeros (after_dot v))"

definition text_value :: "string \<Rightarrow> rat" where
  "text_value s = of_nat (digits_val (before_dot s @ after_dot s)) / 10 ^ length (after_dot s)"

definition text_number :: "string \<Rightarrow> jsnum" where
  "text_number s = js_of_rat False (text_value s)"

section \<open>Digits\<close>

lemma digit_char_val: "is_digit c \<Longrightarrow> digit_char (digit_val c) = c"
  by (simp add: is_digit_def digit_char_def digit_val_def Let_def)

lemma digit_val_less: "is_digit c \<Longrightarrow> digit_val c < 10"
  unfolding is_digit_def digit_val_def Let_def by linarith

lemma last_digit_inject: "10 * a + x = 10 * b + y \<Longrightarrow> x < 10 \<Longrightarrow> y < 10 \<Longrightarrow> a = b \<and> x = (y :: nat)"
  by presburger

lemma digits_val_inject:
  assumes "list_all is_digit s" "list_all is_digit t" "length s = length t" "digits_val s = digits_val t"
  shows "s = t"
  using assms
proof (induction s arbitrary: t rule: rev_induct)
  case (snoc c s)
  obtain u d where t: "t = u @ [d]" using snoc.prems(3) by (cases t rule: rev_cases) auto
  have e: "10 * digits_val s + digit_val c = 10 * digits_val u + digit_val d" using snoc.prems(4) t by simp
  have l: "digit_val c < 10" "digit_val d < 10" using snoc.prems(1,2) t digit_val_less by simp_all
  note q = last_digit_inject [OF e l]
  have "is_digit c" "is_digit d" using snoc.prems(1,2) t by simp_all
  then have "c = d" using q digit_char_val by metis
  moreover have "s = u" using q snoc.prems t by (intro snoc.IH) simp_all
  ultimately show ?case using t by simp
qed simp

lemma digits_val_Cons: "digits_val (c # s) = digit_val c * 10 ^ length s + digits_val s"
  using digits_val_append [of "[c]" s] digits_val_snoc [of "[]" c] by simp

lemma digit_not_dot: "is_digit c \<Longrightarrow> c \<noteq> dot"
  by (auto simp: is_digit_def dot_def)

lemma digits_no_dot: "list_all is_digit s \<Longrightarrow> dot \<notin> set s"
  using digit_not_dot by (auto simp: list_all_iff)

lemma dot_parts:
  assumes "list_all is_digit u"
  shows "before_dot u = u" "after_dot u = []" "before_dot (u @ dot # v) = u"
    "list_all is_digit v \<Longrightarrow> after_dot (u @ dot # v) = v"
proof -
  have u: "\<forall>c \<in> set u. c \<noteq> dot" using digits_no_dot [OF assms] by blast
  then show "before_dot u = u" "after_dot u = []" "before_dot (u @ dot # v) = u"
    by (simp_all add: before_dot_def after_dot_def dropWhile_eq_Nil_conv [THEN iffD2])
  show "after_dot (u @ dot # v) = v" if "list_all is_digit v"
  proof -
    have "\<forall>c \<in> set v. c \<noteq> dot" using digits_no_dot [OF that] by blast
    then show ?thesis using u by (simp add: after_dot_def)
  qed
qed

text \<open>A decimal is digits, or digits, a dot and digits.\<close>

lemma is_decimal_cases:
  assumes "is_decimal s"
  obtains "s = before_dot s" "after_dot s = []" "before_dot s \<noteq> []" "list_all is_digit (before_dot s)"
  | "s = before_dot s @ dot # after_dot s" "after_dot s \<noteq> []" "before_dot s \<noteq> []" "list_all is_digit (before_dot s)"
    "list_all is_digit (after_dot s)"
proof (cases "dot \<in> set s")
  case False
  then have "\<forall>c \<in> set s. c \<noteq> dot" by blast
  then have "before_dot s = s" "after_dot s = []" by (simp_all add: before_dot_def after_dot_def dropWhile_eq_Nil_conv [THEN iffD2])
  then show ?thesis using assms that(1) by (simp add: is_decimal_def)
qed (use assms that(2) in \<open>simp add: is_decimal_def\<close>)

lemma is_decimal_int: "list_all is_digit u \<Longrightarrow> u \<noteq> [] \<Longrightarrow> is_decimal u"
  using digits_no_dot [of u] dot_parts [of u] by (simp add: is_decimal_def)

lemma is_decimal_frac: "list_all is_digit u \<Longrightarrow> u \<noteq> [] \<Longrightarrow> list_all is_digit v \<Longrightarrow> v \<noteq> [] \<Longrightarrow> is_decimal (u @ dot # v)"
  using dot_parts(3,4) [of u v] by (simp add: is_decimal_def)

lemma text_value_int: "list_all is_digit u \<Longrightarrow> text_value u = of_nat (digits_val u)"
  by (simp add: text_value_def dot_parts)

lemma text_value_frac:
  "list_all is_digit u \<Longrightarrow> list_all is_digit v \<Longrightarrow> text_value (u @ dot # v) = of_nat (digits_val (u @ v)) / 10 ^ length v"
  by (simp add: text_value_def dot_parts)

lemma zeros_value: "list_all (\<lambda>c. c = CHR ''0'') z \<Longrightarrow> digits_val z = 0"
proof -
  assume "list_all (\<lambda>c. c = CHR ''0'') z"
  then have z: "z = replicate (length z) (digit_char 0)" by (induction z) (auto simp: CHR_0)
  show ?thesis by (subst z) (rule digits_val_zeros)
qed

section \<open>Sums\<close>

lemma scaled_value:
  assumes "is_decimal a" "length (after_dot a) \<le> k"
  shows "of_nat (digits_val (before_dot a @ after_dot a @ replicate (k - length (after_dot a)) (CHR ''0''))) = text_value a * 10 ^ k"
proof -
  let ?z = "replicate (k - length (after_dot a)) (CHR ''0'')"
  have "digits_val (before_dot a @ after_dot a @ ?z) = digits_val (before_dot a @ after_dot a) * 10 ^ (k - length (after_dot a))"
    using digits_val_append [of "before_dot a @ after_dot a" ?z] zeros_value [of ?z] by (simp add: list_all_iff)
  moreover have "(10 :: rat) ^ k = 10 ^ length (after_dot a) * 10 ^ (k - length (after_dot a))"
    using assms(2) by (simp flip: power_add)
  ultimately show ?thesis by (simp add: text_value_def)
qed

lemma scaled_digits_text:
  assumes "list_all is_digit s" "k < length s"
  defines "t \<equiv> (if k = 0 then s else if list_all (\<lambda>c. c = CHR ''0'') (drop (length s - k) s) then take (length s - k) s
      else take (length s - k) s @ dot # drop (length s - k) s)"
  shows "is_decimal t \<and> text_value t = of_nat (digits_val s) / 10 ^ k"
proof -
  define u where "u = take (length s - k) s"
  define v where "v = drop (length s - k) s"
  have uv: "s = u @ v" "list_all is_digit u" "list_all is_digit v" "u \<noteq> []" "length v = k"
    using assms(1,2) by (auto simp: u_def v_def list_all_iff dest: in_set_takeD in_set_dropD)
  show ?thesis
  proof (cases "k = 0")
    case True
    then show ?thesis using assms(1,2) by (auto simp: t_def text_value_int intro: is_decimal_int)
  next
    case False
    show ?thesis
    proof (cases "list_all (\<lambda>c. c = CHR ''0'') v")
      case True
      then have "t = u" using False by (simp add: t_def u_def v_def)
      moreover have "digits_val s = digits_val u * 10 ^ k"
        unfolding uv(1) digits_val_append uv(5) using zeros_value [OF True] by simp
      ultimately show ?thesis using uv by (simp add: text_value_int is_decimal_int)
    next
      case v: False
      then have "t = u @ dot # v" using False by (simp add: t_def u_def v_def)
      moreover have "v \<noteq> []" using uv(5) False by auto
      ultimately show ?thesis using uv text_value_frac [OF uv(2,3)] is_decimal_frac [OF uv(2,4,3)] by simp
    qed
  qed
qed

lemma dec_sum_value:
  assumes "is_decimal a" "is_decimal b"
  shows "is_decimal (dec_sum a b) \<and> text_value (dec_sum a b) = text_value a + text_value b"
proof -
  define k where "k = max (length (after_dot a)) (length (after_dot b))"
  define n where "n = digits_val (before_dot a @ after_dot a @ replicate (k - length (after_dot a)) (CHR ''0'')) +
      digits_val (before_dot b @ after_dot b @ replicate (k - length (after_dot b)) (CHR ''0''))"
  define s where "s = pad_start (k + 1) (CHR ''0'') (nat_string n)"
  have s: "list_all is_digit s" "k < length s" "digits_val s = n"
    by (simp_all add: s_def pad_start_digits nat_string_digits pad_start_length digits_val_pad)
  have "rat_of_nat n = (text_value a + text_value b) * 10 ^ k"
    using scaled_value [OF assms(1), of k] scaled_value [OF assms(2), of k] by (simp add: n_def k_def distrib_right)
  moreover have "dec_sum a b = (if k = 0 then s else if list_all (\<lambda>c. c = CHR ''0'') (drop (length s - k) s) then take (length s - k) s
      else take (length s - k) s @ dot # drop (length s - k) s)"
    unfolding dec_sum_def Let_def k_def [symmetric] n_def [symmetric] s_def [symmetric] by simp
  ultimately show ?thesis using scaled_digits_text [OF s(1,2)] s(3) by simp
qed

section \<open>Canonical forms\<close>

text \<open>A text without superfluous leading zeros.\<close>

definition plain :: "string \<Rightarrow> bool" where
  "plain s \<longleftrightarrow> before_dot s = ''0'' \<or> (before_dot s \<noteq> [] \<and> hd (before_dot s) \<noteq> CHR ''0'')"

lemma leading_digit: "is_digit c \<Longrightarrow> c \<noteq> CHR ''0'' \<Longrightarrow> 1 \<le> digit_val c"
proof (rule ccontr)
  assume c: "is_digit c" "c \<noteq> CHR ''0''" and "\<not> 1 \<le> digit_val c"
  then have "digit_val c = 0" by simp
  then have "digit_char (digit_val c) = digit_char 0" by simp
  then show False using c by (metis CHR_0 digit_char_val)
qed

lemma plain_int_length:
  assumes "list_all is_digit u" "u = ''0'' \<or> (u \<noteq> [] \<and> hd u \<noteq> CHR ''0'')"
  shows "digits_val u < 10 ^ length u \<and> (1 < length u \<longrightarrow> 10 ^ (length u - 1) \<le> digits_val u)"
proof (intro conjI impI)
  show "digits_val u < 10 ^ length u" using assms(1) by (rule digits_val_bound)
  assume l: "1 < length u"
  then obtain c t where u: "u = c # t" by (cases u) auto
  then have "1 \<le> digit_val c" using assms l by (intro leading_digit) auto
  then show "10 ^ (length u - 1) \<le> digits_val u" 
    using mult_le_mono1 [of 1 "digit_val c" "10 ^ length t"] u by (simp add: digits_val_Cons trans_le_add1)
qed

lemma plain_int_inject:
  assumes "list_all is_digit u" "u = ''0'' \<or> (u \<noteq> [] \<and> hd u \<noteq> CHR ''0'')"
    "list_all is_digit v" "v = ''0'' \<or> (v \<noteq> [] \<and> hd v \<noteq> CHR ''0'')" "digits_val u = digits_val v"
  shows "u = v"
proof -
  have le: "length x \<le> length y" if "list_all is_digit x" "x = ''0'' \<or> (x \<noteq> [] \<and> hd x \<noteq> CHR ''0'')"
    "list_all is_digit y" "y = ''0'' \<or> (y \<noteq> [] \<and> hd y \<noteq> CHR ''0'')" "digits_val x = digits_val y" for x y
  proof (rule ccontr)
    assume "\<not> length x \<le> length y"
    moreover have "0 < length y" using that(4) by auto
    ultimately have l: "1 < length x" "length y \<le> length x - 1" by linarith+
    have "(10 :: nat) ^ length y \<le> 10 ^ (length x - 1)" using l(2) by (intro power_increasing) auto
    then show False using plain_int_length [OF that(1,2)] plain_int_length [OF that(3,4)] l(1) that(5) by linarith
  qed
  have "length u = length v" using le [OF assms] le [OF assms(3,4,1,2) assms(5) [symmetric]] by (rule le_antisym)
  then show ?thesis by (rule digits_val_inject [OF assms(1,3) _ assms(5)])
qed

lemma strip_zeros_append: "\<exists>z. s = strip_zeros s @ z \<and> list_all (\<lambda>c. c = CHR ''0'') z"
proof -
  have "rev s = takeWhile (\<lambda>c. c = CHR ''0'') (rev s) @ dropWhile (\<lambda>c. c = CHR ''0'') (rev s)" by simp
  then have "s = strip_zeros s @ rev (takeWhile (\<lambda>c. c = CHR ''0'') (rev s))"
    unfolding strip_zeros_def by (metis rev_append rev_rev_ident)
  moreover have "list_all (\<lambda>c. c = CHR ''0'') (rev (takeWhile (\<lambda>c. c = CHR ''0'') (rev s)))"
    by (auto simp: list_all_iff dest: set_takeWhileD)
  ultimately show ?thesis by blast
qed

lemma strip_zeros_last: "strip_zeros s \<noteq> [] \<Longrightarrow> last (strip_zeros s) \<noteq> CHR ''0''"
  unfolding strip_zeros_def by (simp add: last_rev) (use hd_dropWhile [of "\<lambda>c. c = CHR ''0''" "rev s"] in simp)

lemma strip_zeros_digits: "list_all is_digit s \<Longrightarrow> list_all is_digit (strip_zeros s)"
  using strip_zeros_append [of s] by (metis list_all_append)

lemma strip_zeros_value: "rat_of_nat (digits_val s) / 10 ^ length s = of_nat (digits_val (strip_zeros s)) / 10 ^ length (strip_zeros s)"
proof -
  obtain z where z: "s = strip_zeros s @ z" "list_all (\<lambda>c. c = CHR ''0'') z" using strip_zeros_append by blast
  have "digits_val s = digits_val (strip_zeros s) * 10 ^ length z"
    by (subst z(1), subst digits_val_append) (simp add: zeros_value [OF z(2)])
  moreover have "length s = length (strip_zeros s) + length z" by (subst z(1)) simp
  ultimately show ?thesis by (simp add: power_add)
qed

text \<open>Two fractions without trailing zeros have the same value only if they are the same text.\<close>

lemma fraction_inject:
  assumes "list_all is_digit s" "list_all is_digit t" "s = [] \<or> last s \<noteq> CHR ''0''" "t = [] \<or> last t \<noteq> CHR ''0''"
    "rat_of_nat (digits_val s) / 10 ^ length s = of_nat (digits_val t) / 10 ^ length t"
  shows "s = t"
proof -
  have le: "length y \<le> length x" if d: "list_all is_digit x" "list_all is_digit y" and l: "y = [] \<or> last y \<noteq> CHR ''0''"
    and e: "rat_of_nat (digits_val x) / 10 ^ length x = of_nat (digits_val y) / 10 ^ length y" for x y
  proof (rule ccontr)
    assume n: "\<not> length y \<le> length x"
    define m where "m = length y - length x"
    have m: "length y = length x + m" "0 < m" using n by (simp_all add: m_def)
    have "rat_of_nat (digits_val y) = of_nat (digits_val x * 10 ^ m)" using e m(1) by (simp add: field_simps power_add)
    then have "digits_val y = digits_val x * 10 ^ m" by (simp only: of_nat_eq_iff)
    then have "digits_val y = digits_val (x @ replicate m (digit_char 0))" by (simp add: digits_val_append)
    moreover have "list_all is_digit (x @ replicate m (digit_char 0))" using d(1) by (auto simp: list_all_iff)
    ultimately have "y = x @ replicate m (digit_char 0)" using d(2) m(1) by (intro digits_val_inject) simp_all
    then have "last y = CHR ''0''" using m(2) by (simp add: CHR_0)
    then show False using l m by auto
  qed
  have len: "length s = length t" using le [OF assms(1,2,4,5)] le [OF assms(2,1,3) assms(5) [symmetric]] by simp
  then have "rat_of_nat (digits_val s) = of_nat (digits_val t)" using assms(5) by simp
  then have "digits_val s = digits_val t" by (simp only: of_nat_eq_iff)
  then show ?thesis using digits_val_inject [OF assms(1,2) len] by simp
qed

lemma text_value_parts:
  "text_value s = of_nat (digits_val (before_dot s)) + of_nat (digits_val (after_dot s)) / 10 ^ length (after_dot s)"
  by (simp add: text_value_def digits_val_append add_divide_distrib)

lemma decimal_parts_digits: "is_decimal s \<Longrightarrow> list_all is_digit (before_dot s) \<and> list_all is_digit (after_dot s)"
  by (erule is_decimal_cases) auto

lemma canonical_parts:
  assumes "is_decimal s"
  shows "before_dot (canonicalDecimal s) = before_dot s \<and> after_dot (canonicalDecimal s) = strip_zeros (after_dot s)"
  using assms
proof (cases rule: is_decimal_cases)
  case 1
  then have "dot \<notin> set s" using digits_no_dot by metis
  then show ?thesis using 1 by (simp add: canonicalDecimal_def strip_zeros_def)
next
  case 2
  then have "dot \<in> set s" by (metis in_set_conv_decomp)
  then show ?thesis using 2 strip_zeros_digits [of "after_dot s"] dot_parts [of "before_dot s"]
    by (simp add: canonicalDecimal_def)
qed

lemma canonicalDecimal_eq_iff:
  assumes "is_decimal a" "plain a" "is_decimal b" "plain b"
  shows "canonicalDecimal a = canonicalDecimal b \<longleftrightarrow> text_value a = text_value b"
proof
  let ?f = "\<lambda>s. rat_of_nat (digits_val (after_dot s)) / 10 ^ length (after_dot s)"
  note da = decimal_parts_digits [OF assms(1)] and db = decimal_parts_digits [OF assms(3)]
  have fs: "?f s = of_nat (digits_val (strip_zeros (after_dot s))) / 10 ^ length (strip_zeros (after_dot s))" for s
    by (rule strip_zeros_value)
  assume "canonicalDecimal a = canonicalDecimal b"
  then have "before_dot a = before_dot b" "strip_zeros (after_dot a) = strip_zeros (after_dot b)"
    using canonical_parts [OF assms(1)] canonical_parts [OF assms(3)] by metis+
  then show "text_value a = text_value b" unfolding text_value_parts fs by simp
next
  let ?f = "\<lambda>s. rat_of_nat (digits_val (after_dot s)) / 10 ^ length (after_dot s)"
  note da = decimal_parts_digits [OF assms(1)] and db = decimal_parts_digits [OF assms(3)]
  assume v: "text_value a = text_value b"
  have unit: "0 \<le> ?f s \<and> ?f s < 1" if "list_all is_digit (after_dot s)" for s
  proof -
    have "rat_of_nat (digits_val (after_dot s)) < of_nat (10 ^ length (after_dot s))"
      using digits_val_bound [OF that] by (simp only: of_nat_less_iff)
    then show ?thesis by simp
  qed
  have fl: "\<lfloor>text_value s\<rfloor> = int (digits_val (before_dot s))" if "list_all is_digit (after_dot s)" for s
    using unit [OF that] unfolding text_value_parts by (intro floor_unique) auto
  have "int (digits_val (before_dot a)) = int (digits_val (before_dot b))" using fl [of a] fl [of b] v da db by metis
  then have w: "digits_val (before_dot a) = digits_val (before_dot b)" by simp
  then have h: "before_dot a = before_dot b"
    using assms(2,4) da db by (intro plain_int_inject) (auto simp: plain_def)
  have "?f a = ?f b" using v w unfolding text_value_parts by simp
  then have t: "strip_zeros (after_dot a) = strip_zeros (after_dot b)"
    using da db strip_zeros_digits strip_zeros_last [of "after_dot a"] strip_zeros_last [of "after_dot b"]
    unfolding strip_zeros_value [of "after_dot a"] strip_zeros_value [of "after_dot b"] by (intro fraction_inject) auto
  have form: "canonicalDecimal s = (if strip_zeros (after_dot s) = [] then before_dot s else before_dot s @ dot # strip_zeros (after_dot s))"
    if "is_decimal s" for s using that
  proof (cases rule: is_decimal_cases)
    case 1
    then have "dot \<notin> set s" using digits_no_dot by metis
    then show ?thesis using 1 by (simp add: canonicalDecimal_def strip_zeros_def)
  next
    case 2
    then have "dot \<in> set s" by (metis in_set_conv_decomp)
    then show ?thesis by (simp add: canonicalDecimal_def)
  qed
  show "canonicalDecimal a = canonicalDecimal b" unfolding form [OF assms(1)] form [OF assms(3)] h t ..
qed

text \<open>A sum never has superfluous zeros in front.\<close>

lemma nat_string_leading: "n \<noteq> 0 \<Longrightarrow> hd (nat_string n) \<noteq> CHR ''0''"
proof (induction n rule: less_induct)
  case (less n)
  show ?case
  proof (cases "n < 10")
    case True
    have "digit_char n \<noteq> digit_char 0" using True less.prems digit_val_char [of n] digit_val_char [of 0] by force
    then show ?thesis using True by (subst nat_string.simps) (simp add: CHR_0)
  next
    case False
    then have "hd (nat_string (n div 10)) \<noteq> CHR ''0''" using less.IH [of "n div 10"] by simp
    then show ?thesis using False by (subst nat_string.simps) (simp add: hd_append)
  qed
qed

lemma dec_sum_plain: "plain (dec_sum a b)"
proof -
  define k where "k = max (length (after_dot a)) (length (after_dot b))"
  define n where "n = digits_val (before_dot a @ after_dot a @ replicate (k - length (after_dot a)) (CHR ''0'')) +
      digits_val (before_dot b @ after_dot b @ replicate (k - length (after_dot b)) (CHR ''0''))"
  define s where "s = pad_start (k + 1) (CHR ''0'') (nat_string n)"
  define u where "u = take (length s - k) s"
  have s: "list_all is_digit s" by (simp add: s_def pad_start_digits nat_string_digits)
  have ds: "dec_sum a b = s \<and> k = 0 \<or> dec_sum a b = u \<or> dec_sum a b = u @ dot # drop (length s - k) s"
    unfolding dec_sum_def Let_def k_def [symmetric] n_def [symmetric] s_def [symmetric] u_def by simp
  have ud: "list_all is_digit u" using s by (auto simp: u_def list_all_iff dest: in_set_takeD)
  have bd: "before_dot (dec_sum a b) = u"
    using ds dot_parts(1) [OF ud] dot_parts(3) [OF ud] dot_parts(1) [OF s] by (auto simp: u_def)
  have "u = ''0'' \<or> (u \<noteq> [] \<and> hd u \<noteq> CHR ''0'')"
  proof (cases "k + 1 \<le> length (nat_string n)")
    case True
    then have "s = nat_string n" by (simp add: s_def pad_start_def)
    then have u: "u = take (length (nat_string n) - k) (nat_string n)" by (simp add: u_def)
    show ?thesis
    proof (cases "n = 0")
      case True
      then show ?thesis using u \<open>k + 1 \<le> length (nat_string n)\<close> by (simp add: nat_string.simps [of 0] CHR_0)
    next
      case False
      then show ?thesis using u True nat_string_leading [OF False] by (simp add: hd_take)
    qed
  next
    case False
    have "length (nat_string n) \<noteq> 0" by simp
    then have "s = (CHR ''0'') # replicate (k - length (nat_string n)) (CHR ''0'') @ nat_string n" "length s = k + 1"
      using False by (simp_all add: s_def pad_start_def Suc_diff_le)
    then show ?thesis by (simp add: u_def)
  qed
  then show ?thesis using bd by (simp add: plain_def)
qed

end
