(* ===== verification/DurableExecution.thy ===== *)
theory DurableExecution imports DecimalText begin

text \<open>
  \<open>apps/execution/src/durable-execution.ts\<close>: executions as versioned records with a transition log
  and a fill list per execution, and the service that submits, cancels and reconciles them over an
  exchange port.  Each method that awaits the port is two functions: the part before the call, which
  yields what is sent, and the part that resumes with the answer.  The clock, random ids, date syntax
  and decimal text of numbers come from an environment whose values are drawn one after another.
\<close>

section \<open>States\<close>

datatype exec_state =
  IntentCreated | RiskApproved | RiskRejected | Queued | Submitting | Accepted | ExRejected | SubmissionUnknown
| PartiallyFilled | ExFilled | CancelRequested | Canceling | Canceled | Expired | ReconciliationRequired | Reconciled

fun exec_transitions :: "exec_state \<Rightarrow> exec_state list" where
  "exec_transitions IntentCreated = [RiskApproved, RiskRejected]"
| "exec_transitions RiskApproved = [Queued]"
| "exec_transitions Queued = [Submitting, Canceled]"
| "exec_transitions Submitting = [Accepted, ExRejected, SubmissionUnknown]"
| "exec_transitions Accepted = [PartiallyFilled, ExFilled, CancelRequested, Expired, ReconciliationRequired]"
| "exec_transitions PartiallyFilled = [PartiallyFilled, ExFilled, CancelRequested, Expired, ReconciliationRequired]"
| "exec_transitions CancelRequested = [Canceling, ReconciliationRequired]"
| "exec_transitions Canceling = [Canceled, ExFilled, PartiallyFilled, SubmissionUnknown, ReconciliationRequired]"
| "exec_transitions SubmissionUnknown = [Accepted, PartiallyFilled, ExFilled, ExRejected, ReconciliationRequired]"
| "exec_transitions ReconciliationRequired = [Reconciled, Accepted, PartiallyFilled, ExFilled, Canceled, ExRejected, Expired]"
| "exec_transitions _ = []"

definition exec_terminal :: "exec_state \<Rightarrow> bool" where
  "exec_terminal s \<longleftrightarrow> s \<in> set [RiskRejected, ExRejected, ExFilled, Canceled, Expired, Reconciled]"

definition assertExecutionTransition :: "exec_state \<Rightarrow> exec_state \<Rightarrow> unit result" where
  "assertExecutionTransition f t =
     guard_r (f \<noteq> t \<and> t \<notin> set (exec_transitions f)) (Error ''INVALID_EXECUTION_TRANSITION'') (Inr ())"

section \<open>Records\<close>

datatype exec_side = EsBuy | EsSell
datatype exec_type = EtMarket | EtLimit
datatype exec_reconciliation = ErNotRequired | ErPending | ErMatch | ErDiff | ErUnknown

record durable_record =
  dr_executionId :: string
  dr_clientOrderId :: string
  dr_strategyId :: string
  dr_signalId :: "string option"
  dr_market :: string
  dr_side :: exec_side
  dr_orderType :: exec_type
  dr_requestedQuantity :: "string option"
  dr_requestedQuoteAmount :: "string option"
  dr_limitPrice :: "string option"
  dr_state :: exec_state
  dr_exchangeOrderId :: "string option"
  dr_submittedQuantity :: "string option"
  dr_filledQuantity :: string
  dr_remainingQuantity :: "string option"
  dr_averageFillPrice :: "string option"
  dr_totalFee :: "string option"
  dr_feeCurrency :: "string option"
  dr_riskDecisionId :: "string option"
  dr_reconciliationStatus :: exec_reconciliation
  dr_createdAt :: string
  dr_updatedAt :: string
  dr_submittedAt :: "string option"
  dr_acceptedAt :: "string option"
  dr_completedAt :: "string option"
  dr_version :: nat

record durable_transition =
  dt_transitionId :: string
  dt_executionId :: string
  dt_fromState :: "exec_state option"
  dt_toState :: exec_state
  dt_reasonCode :: string
  dt_metadata :: "(string \<times> string) list"
  dt_createdAt :: string
  dt_sequence :: nat

record durable_fill =
  df_fillId :: string
  df_executionId :: string
  df_exchangeTradeId :: string
  df_quantity :: string
  df_price :: string
  df_fee :: "string option"
  df_feeCurrency :: "string option"
  df_executedAt :: string

record create_intent =
  ci_strategyId :: string
  ci_signalId :: "string option"
  ci_market :: string
  ci_side :: exec_side
  ci_orderType :: exec_type
  ci_requestedQuantity :: "string option"
  ci_requestedQuoteAmount :: "string option"
  ci_limitPrice :: "string option"
  ci_createdAt :: "string option"

record submit_request =
  sq_clientOrderId :: string
  sq_market :: string
  sq_side :: exec_side
  sq_orderType :: exec_type
  sq_requestedQuantity :: "string option"
  sq_requestedQuoteAmount :: "string option"
  sq_limitPrice :: "string option"

datatype submit_result = SubmitAccepted string | SubmitRejected string | SubmitUnknown string
datatype cancel_result = CancelCanceled | CancelFilled | CancelPartiallyFilled | CancelUnknown string
datatype snapshot_state = SnAccepted | SnPartiallyFilled | SnFilled | SnCanceled | SnRejected | SnExpired

record exchange_snapshot =
  sn_exchangeOrderId :: "string option"
  sn_clientOrderId :: "string option"
  sn_state :: snapshot_state
  sn_fills :: "durable_fill list"

definition check_decimal :: "string option \<Rightarrow> string \<Rightarrow> unit result" where
  "check_decimal v name =
     (case v of None \<Rightarrow> Inr ()
      | Some s \<Rightarrow> guard_r (\<not> is_decimal s \<or> s = ''0'') (Error (''INVALID_DECIMAL:'' @ name)) (Inr ()))"

section \<open>The repository\<close>

record durable_world =
  dw_records :: "(string \<times> durable_record) list"
  dw_history :: "(string \<times> durable_transition list) list"
  dw_fills :: "(string \<times> durable_fill list) list"
  dw_tick :: nat

record durable_env =
  de_now :: "nat \<Rightarrow> string"
  de_clockText :: "nat \<Rightarrow> string"
  de_uuid :: "nat \<Rightarrow> string"
  de_dateOk :: "string \<Rightarrow> bool"
  de_numberText :: "jsnum \<Rightarrow> string"

definition durable_empty :: durable_world where
  "durable_empty = \<lparr>dw_records = [], dw_history = [], dw_fills = [], dw_tick = 0\<rparr>"

definition repo_get :: "durable_world \<Rightarrow> string \<Rightarrow> durable_record option" where
  "repo_get w i = map_of (dw_records w) i"

definition repo_getByClientOrderId :: "durable_world \<Rightarrow> string \<Rightarrow> durable_record option" where
  "repo_getByClientOrderId w i = List.find (\<lambda>r. dr_clientOrderId r = i) (map snd (dw_records w))"

definition repo_transitions :: "durable_world \<Rightarrow> string \<Rightarrow> durable_transition list" where
  "repo_transitions w i = (case map_of (dw_history w) i of None \<Rightarrow> [] | Some l \<Rightarrow> l)"

definition repo_fills :: "durable_world \<Rightarrow> string \<Rightarrow> durable_fill list" where
  "repo_fills w i = (case map_of (dw_fills w) i of None \<Rightarrow> [] | Some l \<Rightarrow> l)"

definition repo_save :: "durable_record \<Rightarrow> durable_transition \<Rightarrow> durable_world \<Rightarrow> durable_record result \<times> durable_world" where
  "repo_save r t w =
     (case (case repo_get w (dr_executionId r) of
              Some old \<Rightarrow> bind_r (assertExecutionTransition (dr_state old) (dr_state r)) (\<lambda>_.
                guard_r (dr_version r \<noteq> dr_version old + 1) (Error ''EXECUTION_VERSION_CONFLICT'') (Inr ()))
            | None \<Rightarrow> guard_r (dt_fromState t \<noteq> None \<or> dt_sequence t \<noteq> 1) (Error ''INVALID_INITIAL_TRANSITION'') (Inr ())) of
        Inl e \<Rightarrow> (Inl e, w)
      | Inr _ \<Rightarrow>
        let w1 = w\<lparr>dw_records := AList.update (dr_executionId r) r (dw_records w)\<rparr>;
            l = repo_transitions w (dr_executionId r)
        in if list_ex (\<lambda>x. dt_sequence x = dt_sequence t) l then (Inl (Error ''DUPLICATE_TRANSITION_SEQUENCE''), w1)
           else (Inr r, w1\<lparr>dw_history := AList.update (dr_executionId r) (l @ [t]) (dw_history w1)\<rparr>))"

definition repo_appendFill :: "durable_fill \<Rightarrow> durable_world \<Rightarrow> durable_world result" where
  "repo_appendFill f w =
     (let l = repo_fills w (df_executionId f)
      in case List.find (\<lambda>x. df_exchangeTradeId x = df_exchangeTradeId f) l of
           Some d \<Rightarrow>
             guard_r (df_quantity d \<noteq> df_quantity f \<or> df_price d \<noteq> df_price f \<or> df_fee d \<noteq> df_fee f \<or>
                 df_feeCurrency d \<noteq> df_feeCurrency f \<or> df_executedAt d \<noteq> df_executedAt f)
               (Error ''EXECUTION_FILL_CONFLICT'') (Inr w)
         | None \<Rightarrow>
           bind_r (check_decimal (Some (df_quantity f)) ''fillQuantity'') (\<lambda>_.
           bind_r (check_decimal (Some (df_price f)) ''fillPrice'') (\<lambda>_.
           Inr (w\<lparr>dw_fills := AList.update (df_executionId f) (l @ [f]) (dw_fills w)\<rparr>))))"

definition repo_listActive :: "durable_world \<Rightarrow> durable_record list" where
  "repo_listActive w = filter (\<lambda>r. \<not> exec_terminal (dr_state r)) (map snd (dw_records w))"

section \<open>The service\<close>

definition require_execution :: "durable_world \<Rightarrow> string \<Rightarrow> durable_record result" where
  "require_execution w i = (case repo_get w i of None \<Rightarrow> throw ''EXECUTION_NOT_FOUND'' | Some r \<Rightarrow> Inr r)"

definition exec_transition ::
  "durable_env \<Rightarrow> durable_record \<Rightarrow> exec_state \<Rightarrow> string \<Rightarrow> (string \<times> string) list \<Rightarrow> (durable_record \<Rightarrow> durable_record) \<Rightarrow>
    durable_world \<Rightarrow> durable_record result \<times> durable_world" where
  "exec_transition env r s reason metadata patch w =
     (case assertExecutionTransition (dr_state r) s of
        Inl e \<Rightarrow> (Inl e, w)
      | Inr _ \<Rightarrow>
        let now = de_now env (dw_tick w);
            next = (patch r)\<lparr>dr_state := s, dr_updatedAt := now, dr_version := dr_version r + 1,
              dr_submittedAt := (if s = Submitting then Some now else dr_submittedAt r),
              dr_acceptedAt := (if s = Accepted then Some now else dr_acceptedAt r),
              dr_completedAt := (if exec_terminal s then Some now else dr_completedAt r),
              dr_reconciliationStatus := (if s = ReconciliationRequired then ErPending else dr_reconciliationStatus r)\<rparr>;
            event = \<lparr>dt_transitionId = de_uuid env (dw_tick w), dt_executionId = dr_executionId r,
              dt_fromState = Some (dr_state r), dt_toState = s, dt_reasonCode = reason, dt_metadata = metadata,
              dt_createdAt = now, dt_sequence = length (repo_transitions w (dr_executionId r)) + 1\<rparr>
        in repo_save next event (w\<lparr>dw_tick := dw_tick w + 1\<rparr>))"

definition createRecord :: "durable_env \<Rightarrow> nat \<Rightarrow> create_intent \<Rightarrow> string \<Rightarrow> durable_record result" where
  "createRecord env t c now =
     bind_r (check_decimal (ci_requestedQuantity c) ''requestedQuantity'') (\<lambda>_.
     bind_r (check_decimal (ci_requestedQuoteAmount c) ''requestedQuoteAmount'') (\<lambda>_.
     bind_r (check_decimal (ci_limitPrice c) ''limitPrice'') (\<lambda>_.
     Inr \<lparr>dr_executionId = de_uuid env t,
       dr_clientOrderId = ''nusa_'' @ de_clockText env t @ ''_'' @ filter (\<lambda>c. c \<noteq> CHR ''-'') (de_uuid env (t + 1)),
       dr_strategyId = ci_strategyId c, dr_signalId = ci_signalId c, dr_market = ci_market c, dr_side = ci_side c,
       dr_orderType = ci_orderType c, dr_requestedQuantity = ci_requestedQuantity c,
       dr_requestedQuoteAmount = ci_requestedQuoteAmount c, dr_limitPrice = ci_limitPrice c, dr_state = IntentCreated,
       dr_exchangeOrderId = None, dr_submittedQuantity = None, dr_filledQuantity = ''0'',
       dr_remainingQuantity = ci_requestedQuantity c, dr_averageFillPrice = None, dr_totalFee = None, dr_feeCurrency = None,
       dr_riskDecisionId = None, dr_reconciliationStatus = ErNotRequired, dr_createdAt = now, dr_updatedAt = now,
       dr_submittedAt = None, dr_acceptedAt = None, dr_completedAt = None, dr_version = 1\<rparr>)))"

definition createIntent :: "durable_env \<Rightarrow> create_intent \<Rightarrow> durable_world \<Rightarrow> durable_record result \<times> durable_world" where
  "createIntent env c w =
     (let t = dw_tick w; now = (case ci_createdAt c of None \<Rightarrow> de_now env t | Some x \<Rightarrow> x)
      in case guard_r (ci_strategyId c = [] \<or> ci_market c = []) (Error ''INVALID_EXECUTION_INTENT'')
            (guard_r (\<not> de_dateOk env now) (Error ''INVALID_TIMESTAMP'') (createRecord env t c now)) of
           Inl e \<Rightarrow> (Inl e, w)
         | Inr r \<Rightarrow>
           if repo_getByClientOrderId w (dr_clientOrderId r) \<noteq> None then (throw ''DUPLICATE_CLIENT_ORDER_ID'', w)
           else repo_save r \<lparr>dt_transitionId = de_uuid env (t + 2), dt_executionId = dr_executionId r, dt_fromState = None,
             dt_toState = dr_state r, dt_reasonCode = ''INTENT_CREATED'', dt_metadata = [], dt_createdAt = now, dt_sequence = 1\<rparr>
             (w\<lparr>dw_tick := t + 3\<rparr>))"

definition with_execution ::
  "string \<Rightarrow> (durable_record \<Rightarrow> durable_world \<Rightarrow> 'a result \<times> durable_world) \<Rightarrow> durable_world \<Rightarrow> 'a result \<times> durable_world" where
  "with_execution i k w = (case require_execution w i of Inl e \<Rightarrow> (Inl e, w) | Inr r \<Rightarrow> k r w)"

definition approveRisk :: "durable_env \<Rightarrow> string \<Rightarrow> string \<Rightarrow> durable_world \<Rightarrow> durable_record result \<times> durable_world" where
  "approveRisk env i riskDecisionId =
     with_execution i (\<lambda>r. exec_transition env r RiskApproved ''RISK_APPROVED'' [(''riskDecisionId'', riskDecisionId)]
       (\<lambda>r. r\<lparr>dr_riskDecisionId := Some riskDecisionId\<rparr>))"

definition rejectRisk :: "durable_env \<Rightarrow> string \<Rightarrow> string \<Rightarrow> string \<Rightarrow> durable_world \<Rightarrow> durable_record result \<times> durable_world" where
  "rejectRisk env i riskDecisionId reason =
     with_execution i (\<lambda>r. exec_transition env r RiskRejected reason [] (\<lambda>r. r\<lparr>dr_riskDecisionId := Some riskDecisionId\<rparr>))"

definition queueExecution :: "durable_env \<Rightarrow> string \<Rightarrow> durable_world \<Rightarrow> durable_record result \<times> durable_world" where
  "queueExecution env i = with_execution i (\<lambda>r. exec_transition env r Queued ''QUEUED'' [] (\<lambda>r. r))"

definition requestCancel :: "durable_env \<Rightarrow> string \<Rightarrow> durable_world \<Rightarrow> durable_record result \<times> durable_world" where
  "requestCancel env i = with_execution i (\<lambda>r. exec_transition env r CancelRequested ''CANCEL_REQUESTED'' [] (\<lambda>r. r))"

definition fill_quantity :: "durable_fill list \<Rightarrow> string" where
  "fill_quantity fs = fold (\<lambda>f x. dec_sum x (df_quantity f)) fs ''0''"

definition applyFills :: "durable_env \<Rightarrow> durable_record \<Rightarrow> durable_world \<Rightarrow> durable_record result \<times> durable_world" where
  "applyFills env r w =
     (let fs = repo_fills w (dr_executionId r);
          quantity = fill_quantity fs;
          complete = (case dr_requestedQuantity r of None \<Rightarrow> False | Some q \<Rightarrow> canonicalDecimal quantity = canonicalDecimal q);
          priced = fold (\<lambda>f x. x + text_number (df_quantity f) * text_number (df_price f)) fs (Fin 0);
          qty = text_number quantity
      in exec_transition env r (if complete then ExFilled else PartiallyFilled)
           (if complete then ''FILL_COMPLETE'' else ''FILL_PARTIAL'') []
           (\<lambda>r. r\<lparr>dr_filledQuantity := quantity,
             dr_averageFillPrice := (if is_finite (priced div qty) then Some (de_numberText env (priced div qty)) else None),
             dr_remainingQuantity := map_option (\<lambda>q. de_numberText env (js_max (Fin 0) (text_number q - qty)))
               (dr_requestedQuantity r)\<rparr>) w)"

definition addFill :: "durable_env \<Rightarrow> durable_fill \<Rightarrow> durable_world \<Rightarrow> durable_record result \<times> durable_world" where
  "addFill env f =
     with_execution (df_executionId f) (\<lambda>r w.
       case repo_appendFill f w of Inl e \<Rightarrow> (Inl e, w) | Inr w1 \<Rightarrow> applyFills env r w1)"

subsection \<open>Calls of the exchange\<close>

definition submit_start ::
  "durable_env \<Rightarrow> bool \<Rightarrow> string \<Rightarrow> durable_world \<Rightarrow> (durable_record \<times> submit_request) result \<times> durable_world" where
  "submit_start env allowed i =
     with_execution i (\<lambda>r w.
       if dr_state r \<noteq> Queued then (throw ''SUBMIT_REQUIRES_QUEUED'', w)
       else if \<not> allowed then (throw ''LIVE_MUTATION_DISABLED'', w)
       else case exec_transition env r Submitting ''SUBMIT_STARTED'' [] (\<lambda>r. r) w of
         (Inl e, w1) \<Rightarrow> (Inl e, w1)
       | (Inr s, w1) \<Rightarrow> (Inr (s, \<lparr>sq_clientOrderId = dr_clientOrderId s, sq_market = dr_market s, sq_side = dr_side s,
           sq_orderType = dr_orderType s, sq_requestedQuantity = dr_requestedQuantity s,
           sq_requestedQuoteAmount = dr_requestedQuoteAmount s, sq_limitPrice = dr_limitPrice s\<rparr>), w1))"

definition or_else ::
  "durable_record result \<times> durable_world \<Rightarrow> (durable_world \<Rightarrow> durable_record result \<times> durable_world) \<Rightarrow>
    durable_record result \<times> durable_world" where
  "or_else rw handler = (case rw of (Inl _, w) \<Rightarrow> handler w | _ \<Rightarrow> rw)"

definition submit_resume ::
  "durable_env \<Rightarrow> durable_record \<Rightarrow> submit_result result \<Rightarrow> durable_world \<Rightarrow> durable_record result \<times> durable_world" where
  "submit_resume env s answer w =
     or_else (case answer of
         Inl e \<Rightarrow> (Inl e, w)
       | Inr (SubmitAccepted oid) \<Rightarrow>
           exec_transition env (s\<lparr>dr_exchangeOrderId := Some oid\<rparr>) Accepted ''EXCHANGE_ACCEPTED'' [] (\<lambda>r. r) w
       | Inr (SubmitRejected reason) \<Rightarrow> exec_transition env s ExRejected reason [] (\<lambda>r. r) w
       | Inr (SubmitUnknown reason) \<Rightarrow> exec_transition env s SubmissionUnknown reason [] (\<lambda>r. r) w)
     (exec_transition env s SubmissionUnknown ''SUBMISSION_OUTCOME_UNKNOWN'' [] (\<lambda>r. r))"

definition cancel_start :: "durable_env \<Rightarrow> string \<Rightarrow> durable_world \<Rightarrow> (durable_record \<times> string) result \<times> durable_world" where
  "cancel_start env i =
     with_execution i (\<lambda>r w.
       if dr_state r \<noteq> CancelRequested then (throw ''CANCEL_REQUIRES_REQUEST'', w)
       else case exec_transition env r Canceling ''CANCEL_STARTED'' [] (\<lambda>r. r) w of
         (Inl e, w1) \<Rightarrow> (Inl e, w1)
       | (Inr c, w1) \<Rightarrow> (Inr (c, case dr_exchangeOrderId c of None \<Rightarrow> [] | Some x \<Rightarrow> x), w1))"

definition cancel_resume ::
  "durable_env \<Rightarrow> durable_record \<Rightarrow> cancel_result result \<Rightarrow> durable_world \<Rightarrow> durable_record result \<times> durable_world" where
  "cancel_resume env c answer w =
     or_else (case answer of
         Inl e \<Rightarrow> (Inl e, w)
       | Inr CancelCanceled \<Rightarrow> exec_transition env c Canceled ''CANCEL_CONFIRMED'' [] (\<lambda>r. r) w
       | Inr CancelFilled \<Rightarrow> exec_transition env c ExFilled ''CANCEL_RACE_FILLED'' [] (\<lambda>r. r) w
       | Inr CancelPartiallyFilled \<Rightarrow> exec_transition env c PartiallyFilled ''CANCEL_RACE_PARTIAL'' [] (\<lambda>r. r) w
       | Inr (CancelUnknown reason) \<Rightarrow> exec_transition env c ReconciliationRequired reason [] (\<lambda>r. r) w)
     (exec_transition env c SubmissionUnknown ''CANCEL_OUTCOME_UNKNOWN'' [] (\<lambda>r. r))"

definition reconcile_start :: "string \<Rightarrow> durable_world \<Rightarrow> durable_record result" where
  "reconcile_start i w =
     bind_r (require_execution w i) (\<lambda>r.
       guard_r (dr_state r \<notin> set [SubmissionUnknown, ReconciliationRequired, Accepted, PartiallyFilled, Canceling])
         (Error ''RECONCILIATION_NOT_REQUIRED'') (Inr r))"

definition snapshot_target :: "snapshot_state \<Rightarrow> exec_state" where
  "snapshot_target s =
     (case s of SnFilled \<Rightarrow> ExFilled | SnPartiallyFilled \<Rightarrow> PartiallyFilled | SnCanceled \<Rightarrow> Canceled
      | SnRejected \<Rightarrow> ExRejected | _ \<Rightarrow> Accepted)"

fun absorb_fills ::
  "durable_env \<Rightarrow> durable_fill list \<Rightarrow> durable_record \<Rightarrow> durable_world \<Rightarrow> durable_record result \<times> durable_world" where
  "absorb_fills env [] r w = (Inr r, w)"
| "absorb_fills env (f # fs) r w =
     (case repo_appendFill f w of
        Inl e \<Rightarrow> (Inl e, w)
      | Inr w1 \<Rightarrow> (case applyFills env r w1 of (Inl e, w2) \<Rightarrow> (Inl e, w2) | (Inr r2, w2) \<Rightarrow> absorb_fills env fs r2 w2))"

definition reconcile_resume ::
  "durable_env \<Rightarrow> durable_record \<Rightarrow> exchange_snapshot result \<Rightarrow> durable_world \<Rightarrow> durable_record result \<times> durable_world" where
  "reconcile_resume env r answer w =
     (case answer of
        Inl e \<Rightarrow> (Inl e, w)
      | Inr sn \<Rightarrow>
        if sn_clientOrderId sn \<noteq> Some (dr_clientOrderId r)
        then exec_transition env r ReconciliationRequired ''RECONCILIATION_DIFF'' [] (\<lambda>r. r) w
        else case absorb_fills env (sn_fills sn) r w of
          (Inl e, w1) \<Rightarrow> (Inl e, w1)
        | (Inr current, w1) \<Rightarrow>
          exec_transition env current (snapshot_target (sn_state sn)) ''RECONCILIATION_MATCH'' [] (\<lambda>r. r) w1)"

text \<open>Recovery reconciles the active executions one after another; what fails is reported as it was.\<close>

definition recoverable_state :: "exec_state \<Rightarrow> bool" where
  "recoverable_state s \<longleftrightarrow>
     s \<in> set [Submitting, SubmissionUnknown, Accepted, PartiallyFilled, CancelRequested, Canceling, ReconciliationRequired]"

fun recover_each ::
  "durable_env \<Rightarrow> (durable_record \<Rightarrow> exchange_snapshot result) \<Rightarrow> durable_record list \<Rightarrow> durable_world \<Rightarrow>
    durable_record list \<times> durable_world" where
  "recover_each env lookup [] w = ([], w)"
| "recover_each env lookup (r # rs) w =
     (if \<not> recoverable_state (dr_state r) then recover_each env lookup rs w
      else
        let (x, w1) = (case reconcile_start (dr_executionId r) w of
              Inl e \<Rightarrow> (Inl e, w)
            | Inr c \<Rightarrow> reconcile_resume env c (lookup c) w);
            (ys, w2) = recover_each env lookup rs w1
        in ((case x of Inl _ \<Rightarrow> r | Inr y \<Rightarrow> y) # ys, w2))"

definition replayRecovery ::
  "durable_env \<Rightarrow> (durable_record \<Rightarrow> exchange_snapshot result) \<Rightarrow> durable_world \<Rightarrow> durable_record list \<times> durable_world" where
  "replayRecovery env lookup w = recover_each env lookup (repo_listActive w) w"

section \<open>Transition logs\<close>

definition legal :: "exec_state \<Rightarrow> exec_state \<Rightarrow> bool" where
  "legal f t \<longleftrightarrow> f = t \<or> t \<in> set (exec_transitions f)"

lemma assertExecutionTransition_iff: "assertExecutionTransition f t = Inr u \<longleftrightarrow> legal f t"
  by (auto simp: assertExecutionTransition_def legal_def guard_r_def)

fun chain :: "exec_state \<Rightarrow> durable_transition list \<Rightarrow> bool" where
  "chain s [] = True"
| "chain s (t # ts) = (dt_fromState t = Some s \<and> legal s (dt_toState t) \<and> chain (dt_toState t) ts)"

fun final_state :: "exec_state \<Rightarrow> durable_transition list \<Rightarrow> exec_state" where
  "final_state s [] = s"
| "final_state s (t # ts) = final_state (dt_toState t) ts"

lemma chain_snoc: "chain s (ts @ [t]) \<longleftrightarrow> chain s ts \<and> dt_fromState t = Some (final_state s ts) \<and> legal (final_state s ts) (dt_toState t)"
  by (induction ts arbitrary: s) auto

lemma final_snoc [simp]: "final_state s (ts @ [t]) = dt_toState t"
  by (induction ts arbitrary: s) auto

text \<open>A well-formed log starts with the creation, numbers its entries from 1, and goes from state to state by legal
  transitions; \<open>log_state h v\<close> is the state the record had at version \<open>v\<close>.\<close>

definition log_ok :: "durable_transition list \<Rightarrow> bool" where
  "log_ok h \<longleftrightarrow>
     (\<exists>t ts. h = t # ts \<and> dt_fromState t = None \<and> dt_toState t = IntentCreated \<and> chain IntentCreated ts) \<and>
     map dt_sequence h = [1..<Suc (length h)]"

definition log_state :: "durable_transition list \<Rightarrow> nat \<Rightarrow> exec_state" where
  "log_state h v = dt_toState (h ! (v - 1))"

lemma final_last: "ts \<noteq> [] \<Longrightarrow> final_state s ts = dt_toState (last ts)"
  by (induction ts arbitrary: s) auto

lemma log_ok_snoc:
  assumes "log_ok h" "dt_fromState t = Some (log_state h (length h))" "legal (log_state h (length h)) (dt_toState t)"
    "dt_sequence t = Suc (length h)"
  shows "log_ok (h @ [t])"
proof -
  obtain a ts where h: "h = a # ts" "dt_fromState a = None" "dt_toState a = IntentCreated" "chain IntentCreated ts"
    "map dt_sequence h = [1..<Suc (length h)]" using assms(1) by (auto simp: log_ok_def)
  have "log_state h (length h) = final_state IntentCreated ts"
    using h(1,3) by (cases ts rule: rev_cases) (auto simp: log_state_def nth_append)
  then show ?thesis using assms(2-4) h by (auto simp: log_ok_def chain_snoc)
qed

lemma log_ok_fresh: "log_ok h \<Longrightarrow> \<not> list_ex (\<lambda>x. dt_sequence x = Suc (length h)) h"
proof
  assume ok: "log_ok h" and "list_ex (\<lambda>x. dt_sequence x = Suc (length h)) h"
  then obtain x where "x \<in> set h" "dt_sequence x = Suc (length h)" by (auto simp: list_ex_iff)
  then have "Suc (length h) \<in> set (map dt_sequence h)" by (metis image_eqI set_map)
  also have "map dt_sequence h = [1..<Suc (length h)]" using ok by (simp add: log_ok_def)
  finally show False by simp
qed

section \<open>The repository keeps the logs legal\<close>

definition same_order :: "durable_world \<Rightarrow> durable_record \<Rightarrow> bool" where
  "same_order w r \<longleftrightarrow> (\<exists>x. repo_get w (dr_executionId r) = Some x \<and> dr_clientOrderId x = dr_clientOrderId r)"

text \<open>A record some method still holds: an earlier version of a stored one.\<close>

definition known_record :: "durable_world \<Rightarrow> durable_record \<Rightarrow> bool" where
  "known_record w r \<longleftrightarrow> same_order w r \<and>
     (let h = repo_transitions w (dr_executionId r)
      in 1 \<le> dr_version r \<and> dr_version r \<le> length h \<and> dr_state r = log_state h (dr_version r))"

definition stored_ok :: "durable_world \<Rightarrow> string \<Rightarrow> durable_record \<Rightarrow> bool" where
  "stored_ok w i r \<longleftrightarrow>
     dr_executionId r = i \<and> log_ok (repo_transitions w i) \<and> dr_version r = length (repo_transitions w i) \<and>
     dr_state r = log_state (repo_transitions w i) (dr_version r)"

definition fills_ok :: "durable_fill list \<Rightarrow> bool" where
  "fills_ok fs \<longleftrightarrow> distinct (map df_exchangeTradeId fs) \<and> list_all (\<lambda>f. is_decimal (df_quantity f)) fs"

definition world_ok :: "durable_world \<Rightarrow> bool" where
  "world_ok w \<longleftrightarrow>
     (\<forall>i. repo_get w i = None \<longrightarrow> repo_transitions w i = []) \<and>
     (\<forall>i r. repo_get w i = Some r \<longrightarrow> stored_ok w i r) \<and>
     (\<forall>i j r s. repo_get w i = Some r \<and> repo_get w j = Some s \<and> dr_clientOrderId r = dr_clientOrderId s \<longrightarrow> i = j) \<and>
     (\<forall>i. fills_ok (repo_fills w i))"

text \<open>What every method does to a world: logs grow at the end, orders keep their identity.\<close>

definition grows :: "durable_world \<Rightarrow> durable_world \<Rightarrow> bool" where
  "grows w w' \<longleftrightarrow>
     (\<forall>i. \<exists>ts. repo_transitions w' i = repo_transitions w i @ ts) \<and>
     (\<forall>i r. repo_get w i = Some r \<longrightarrow> (\<exists>r'. repo_get w' i = Some r' \<and> dr_clientOrderId r' = dr_clientOrderId r))"

lemma grows_refl [simp]: "grows w w"
  by (simp add: grows_def)

lemma grows_trans: "grows u v \<Longrightarrow> grows v w \<Longrightarrow> grows u w"
  unfolding grows_def by (metis append.assoc)

lemma known_grows:
  assumes "known_record w r" "grows w w'"
  shows "known_record w' r"
proof -
  let ?i = "dr_executionId r"
  obtain ts where ts: "repo_transitions w' ?i = repo_transitions w ?i @ ts" using assms(2) unfolding grows_def by blast
  have "same_order w' r" using assms unfolding known_record_def same_order_def grows_def by metis
  moreover have "dr_version r - 1 < length (repo_transitions w ?i)" using assms(1) by (auto simp: known_record_def Let_def)
  ultimately show ?thesis using assms(1) ts by (auto simp: known_record_def Let_def log_state_def nth_append)
qed

lemma stored_known: "world_ok w \<Longrightarrow> repo_get w i = Some r \<Longrightarrow> known_record w r \<and> dr_executionId r = i"
proof -
  assume ok: "world_ok w" and r: "repo_get w i = Some r"
  have s: "dr_executionId r = i" "log_ok (repo_transitions w i)" "dr_version r = length (repo_transitions w i)"
    "dr_state r = log_state (repo_transitions w i) (dr_version r)"
    using ok r by (simp_all add: world_ok_def stored_ok_def)
  have "1 \<le> length (repo_transitions w i)" using s(2) by (auto simp: log_ok_def)
  then show ?thesis using s r by (simp add: known_record_def same_order_def)
qed

lemma repo_get_update: "repo_get (w\<lparr>dw_records := AList.update i r (dw_records w), dw_history := h\<rparr>) j = (if j = i then Some r else repo_get w j)"
  by (simp add: repo_get_def)

lemma repo_transitions_update:
  "repo_transitions (w\<lparr>dw_records := rs, dw_history := AList.update i l (dw_history w)\<rparr>) j = (if j = i then l else repo_transitions w j)"
  by (simp add: repo_transitions_def)

lemma repo_fills_update [simp]: "repo_fills (w\<lparr>dw_records := rs, dw_history := hs\<rparr>) i = repo_fills w i"
  by (simp add: repo_fills_def)

lemma tick_simps [simp]:
  "repo_get (w\<lparr>dw_tick := n\<rparr>) i = repo_get w i" "repo_transitions (w\<lparr>dw_tick := n\<rparr>) i = repo_transitions w i"
  "repo_fills (w\<lparr>dw_tick := n\<rparr>) i = repo_fills w i" "dw_records (w\<lparr>dw_tick := n\<rparr>) = dw_records w"
  by (auto simp: repo_get_def repo_transitions_def repo_fills_def fun_eq_iff)

lemma world_ok_tick [simp]: "world_ok (w\<lparr>dw_tick := n\<rparr>) = world_ok w" "grows w (w\<lparr>dw_tick := n\<rparr>)"
  "grows (w\<lparr>dw_tick := n\<rparr>) w' = grows w w'"
  by (simp_all add: world_ok_def stored_ok_def grows_def)

definition bump :: "durable_record \<Rightarrow> durable_record \<Rightarrow> bool" where
  "bump r n \<longleftrightarrow> dr_executionId n = dr_executionId r \<and> dr_clientOrderId n = dr_clientOrderId r \<and> dr_version n = dr_version r + 1"

lemma repo_save_next:
  assumes "world_ok w" "known_record w r" "bump r n" "dt_fromState t = Some (dr_state r)" "dt_toState t = dr_state n"
    "dt_sequence t = length (repo_transitions w (dr_executionId r)) + 1" "repo_save n t w = (res, w')"
  shows "world_ok w' \<and> grows w w' \<and> (\<forall>x. res = Inr x \<longrightarrow> x = n \<and> known_record w' x \<and> repo_get w' (dr_executionId r) = Some x)"
proof -
  let ?i = "dr_executionId r" and ?h = "repo_transitions w (dr_executionId r)"
  obtain x where x: "repo_get w ?i = Some x" "dr_clientOrderId x = dr_clientOrderId r"
    using assms(2) by (auto simp: known_record_def same_order_def)
  have sx: "dr_executionId x = ?i" "log_ok ?h" "dr_version x = length ?h" "dr_state x = log_state ?h (dr_version x)"
    using assms(1) x(1) by (simp_all add: world_ok_def stored_ok_def)
  show ?thesis
  proof (cases "legal (dr_state x) (dr_state n) \<and> dr_version n = dr_version x + 1")
    case False
    then have "w' = w \<and> (\<exists>e. res = Inl e)" using assms(3,7) x(1)
      by (auto simp: repo_save_def bump_def assertExecutionTransition_def legal_def guard_r_def split: if_splits)
    then show ?thesis using assms(1) by auto
  next
    case True
    then have v: "dr_version r = length ?h" using assms(3) sx by (simp add: bump_def)
    then have st: "dr_state r = log_state ?h (length ?h)" "dr_state x = dr_state r"
      using assms(2) sx by (simp_all add: known_record_def Let_def)
    have new: "log_ok (?h @ [t])" using log_ok_snoc [OF sx(2)] assms(4-6) st True by simp
    have fresh: "\<not> list_ex (\<lambda>y. dt_sequence y = dt_sequence t) ?h" using log_ok_fresh [OF sx(2)] assms(6) by simp
    have w': "w' = w\<lparr>dw_records := AList.update ?i n (dw_records w), dw_history := AList.update ?i (?h @ [t]) (dw_history w)\<rparr>"
      "res = Inr n"
      using assms(3,7) x(1) True fresh
      by (auto simp: repo_save_def bump_def assertExecutionTransition_def legal_def Let_def repo_transitions_def)
    note upd = repo_get_update [where i = "?i" and r = n] repo_transitions_update [where i = "?i" and l = "?h @ [t]"]
    have n: "dr_version n = length (?h @ [t])" "dr_state n = log_state (?h @ [t]) (dr_version n)" "dr_executionId n = ?i"
      using assms(3,5) v by (simp_all add: bump_def log_state_def)
    have inj: "dr_clientOrderId n = dr_clientOrderId x" using x(2) assms(3) by (simp add: bump_def)
    have ok': "world_ok w'"
      unfolding world_ok_def w'(1) upd
    proof (intro conjI allI impI, goal_cases)
      case (1 j)
      then show ?case using assms(1) by (auto simp: world_ok_def split: if_splits)
    next
      case (2 j y)
      then show ?case using assms(1) new n upd unfolding w'(1) by (auto simp: world_ok_def stored_ok_def split: if_splits)
    next
      case (3 j k a b)
      have "\<exists>a0. repo_get w j = Some a0 \<and> dr_clientOrderId a0 = dr_clientOrderId a"
        "\<exists>b0. repo_get w k = Some b0 \<and> dr_clientOrderId b0 = dr_clientOrderId b"
        using 3 inj x(1) by (auto split: if_splits)
      then show ?case using 3 assms(1) unfolding world_ok_def by metis
    next
      case (4 j)
      then show ?case using assms(1) by (simp add: world_ok_def)
    qed
    moreover have "grows w w'" unfolding grows_def w'(1) upd using inj x(1) by auto
    moreover have g: "repo_get w' ?i = Some n" unfolding w'(1) upd by simp
    moreover have "known_record w' n" using stored_known [OF ok' g] by simp
    ultimately show ?thesis using w'(2) by simp
  qed
qed

section \<open>Every method keeps them\<close>

definition step_ok :: "durable_world \<Rightarrow> durable_record result \<times> durable_world \<Rightarrow> bool" where
  "step_ok w rw \<longleftrightarrow> world_ok (snd rw) \<and> grows w (snd rw) \<and> (\<forall>x. fst rw = Inr x \<longrightarrow> known_record (snd rw) x)"

lemma step_okD: "step_ok w (res, w') \<Longrightarrow> world_ok w' \<and> grows w w' \<and> (\<forall>x. res = Inr x \<longrightarrow> known_record w' x)"
  by (simp add: step_ok_def)

lemma step_ok_error [simp]: "world_ok w \<Longrightarrow> step_ok w (Inl e, w)"
  by (simp add: step_ok_def)

lemma step_ok_trans: "grows u v \<Longrightarrow> step_ok v rw \<Longrightarrow> step_ok u rw"
  by (auto simp: step_ok_def intro: grows_trans)

lemma exec_transition_next:
  assumes "world_ok w" "known_record w r" "\<And>x. dr_executionId (patch x) = dr_executionId x \<and> dr_clientOrderId (patch x) = dr_clientOrderId x"
    "exec_transition env r s reason m patch w = (res, w')"
  shows "step_ok w (res, w') \<and> (\<forall>x. res = Inr x \<longrightarrow> dr_executionId x = dr_executionId r \<and> dr_clientOrderId x = dr_clientOrderId r \<and>
    dr_state x = s \<and> legal (dr_state r) s \<and> repo_get w' (dr_executionId r) = Some x)"
proof (cases "legal (dr_state r) s")
  case False
  then have "res \<in> range Inl" "w' = w"
    using assms(4) by (auto simp: exec_transition_def assertExecutionTransition_def legal_def)
  then show ?thesis using assms(1) by auto
next
  case True
  then obtain n t where nt: "repo_save n t (w\<lparr>dw_tick := dw_tick w + 1\<rparr>) = (res, w')" "bump r n" "dt_fromState t = Some (dr_state r)"
    "dt_toState t = dr_state n" "dr_state n = s" "dt_sequence t = length (repo_transitions w (dr_executionId r)) + 1"
    using assms(3,4) by (auto simp: exec_transition_def assertExecutionTransition_def legal_def bump_def Let_def)
  have "known_record (w\<lparr>dw_tick := dw_tick w + 1\<rparr>) r" using assms(2) by (simp add: known_record_def same_order_def)
  from repo_save_next [OF _ this nt(2-4) _ nt(1)] nt assms(1,2) True show ?thesis
    by (auto simp: step_ok_def bump_def)
qed

lemma exec_transition_step:
  "world_ok w \<Longrightarrow> known_record w r \<Longrightarrow> (\<And>x. dr_executionId (patch x) = dr_executionId x \<and> dr_clientOrderId (patch x) = dr_clientOrderId x) \<Longrightarrow>
    step_ok w (exec_transition env r s reason m patch w)"
  using exec_transition_next [of w r patch env s reason m] by (metis surj_pair)

lemma with_execution_step:
  assumes "world_ok w" "\<And>r. known_record w r \<Longrightarrow> repo_get w i = Some r \<Longrightarrow> dr_executionId r = i \<Longrightarrow> step_ok w (k r w)"
  shows "step_ok w (with_execution i k w)"
  using assms stored_known [OF assms(1)]
  by (auto simp: with_execution_def require_execution_def throw_def split: option.splits)

lemma repo_appendFill_frame:
  assumes "repo_appendFill f w = Inr w'"
  shows "repo_get w' i = repo_get w i" "repo_transitions w' i = repo_transitions w i" "dw_records w' = dw_records w"
  using assms by (auto simp: repo_appendFill_def Let_def result_simps repo_get_def repo_transitions_def split: option.splits)

lemma repo_appendFill_fills:
  assumes "repo_appendFill f w = Inr w'" "fills_ok (repo_fills w (df_executionId f))"
  shows "fills_ok (repo_fills w' i) \<or> repo_fills w' i = repo_fills w i"
    "\<exists>g \<in> set (repo_fills w' (df_executionId f)). df_exchangeTradeId g = df_exchangeTradeId f \<and> df_quantity g = df_quantity f"
proof -
  have "(fills_ok (repo_fills w' i) \<or> repo_fills w' i = repo_fills w i) \<and>
    (\<exists>g \<in> set (repo_fills w' (df_executionId f)). df_exchangeTradeId g = df_exchangeTradeId f \<and> df_quantity g = df_quantity f)"
  proof (cases "List.find (\<lambda>x. df_exchangeTradeId x = df_exchangeTradeId f) (repo_fills w (df_executionId f))")
    case None
    then have "w' = w\<lparr>dw_fills := AList.update (df_executionId f) (repo_fills w (df_executionId f) @ [f]) (dw_fills w)\<rparr>"
      "is_decimal (df_quantity f)"
      using assms(1) by (simp_all add: repo_appendFill_def check_decimal_def result_simps Let_def)
    moreover have "df_exchangeTradeId f \<notin> df_exchangeTradeId ` set (repo_fills w (df_executionId f))"
      using None by (auto simp: find_None_iff)
    ultimately show ?thesis using assms(2) by (auto simp: repo_fills_def fills_ok_def)
  next
    case (Some d)
    then have "w' = w" "df_quantity d = df_quantity f"
      using assms(1) by (simp_all add: repo_appendFill_def result_simps Let_def)
    moreover have "d \<in> set (repo_fills w (df_executionId f))" "df_exchangeTradeId d = df_exchangeTradeId f"
      using Some by (auto simp: find_Some_iff)
    ultimately show ?thesis by blast
  qed
  then show "fills_ok (repo_fills w' i) \<or> repo_fills w' i = repo_fills w i"
    "\<exists>g \<in> set (repo_fills w' (df_executionId f)). df_exchangeTradeId g = df_exchangeTradeId f \<and> df_quantity g = df_quantity f"
    by blast+
qed

lemma appendFill_ok:
  assumes "repo_appendFill f w = Inr w'" "world_ok w"
  shows "world_ok w' \<and> grows w w'"
proof -
  have "fills_ok (repo_fills w' i)" for i
    using repo_appendFill_fills(1) [OF assms(1), of i] assms(2) unfolding world_ok_def by metis
  then show ?thesis
    using assms(2) repo_appendFill_frame [OF assms(1)] by (simp add: world_ok_def stored_ok_def grows_def)
qed

lemma applyFills_step: "world_ok w \<Longrightarrow> known_record w r \<Longrightarrow> step_ok w (applyFills env r w)"
  unfolding applyFills_def Let_def by (rule exec_transition_step) auto

lemma addFill_step: "world_ok w \<Longrightarrow> step_ok w (addFill env f w)"
  unfolding addFill_def
proof (rule with_execution_step)
  fix r
  assume "world_ok w" "known_record w r"
  then show "step_ok w (case repo_appendFill f w of Inl e \<Rightarrow> (Inl e, w) | Inr w1 \<Rightarrow> applyFills env r w1)"
    using appendFill_ok [of f w] known_grows [of w r] applyFills_step [of _ r env]
    by (auto split: sum.split intro: step_ok_trans)
qed

lemma absorb_fills_step: "world_ok w \<Longrightarrow> known_record w r \<Longrightarrow> step_ok w (absorb_fills env fs r w)"
proof (induction env fs r w rule: absorb_fills.induct)
  case (1 env r w)
  then show ?case by (simp add: step_ok_def)
next
  case (2 env f fs r w)
  show ?case
  proof (cases "repo_appendFill f w")
    case (Inr w1)
    have w1: "world_ok w1" "grows w w1" "known_record w1 r"
      using appendFill_ok [OF Inr 2(2)] known_grows [OF 2(3)] by blast+
    obtain res w2 where a: "applyFills env r w1 = (res, w2)" by force
    have s: "step_ok w1 (res, w2)" using applyFills_step [OF w1(1,3), of env] a by simp
    have e: "grows w w2" using s w1(2) grows_trans by (auto simp: step_ok_def)
    show ?thesis
    proof (cases res)
      case (Inl x)
      then show ?thesis using Inr a s e by (simp add: step_ok_def)
    next
      case r2: (Inr r2)
      then show ?thesis using Inr a s e "2.IH" [OF Inr a [symmetric] r2] by (auto simp: step_ok_def intro: grows_trans)
    qed
  qed (use 2 in simp)
qed

lemma or_else_step: "step_ok w rw \<Longrightarrow> (\<And>w'. world_ok w' \<Longrightarrow> grows w w' \<Longrightarrow> step_ok w' (h w')) \<Longrightarrow> step_ok w (or_else rw h)"
  by (cases rw) (auto simp: or_else_def step_ok_def split: sum.split intro: grows_trans)

lemma submit_resume_step:
  assumes "world_ok w" "known_record w s"
  shows "step_ok w (submit_resume env s answer w)"
proof -
  have k: "known_record w (s\<lparr>dr_exchangeOrderId := x\<rparr>)" for x using assms(2) by (simp add: known_record_def same_order_def)
  show ?thesis unfolding submit_resume_def
    by (rule or_else_step)
      (use assms in \<open>auto split: sum.split submit_result.split intro!: exec_transition_step k intro: known_grows\<close>)
qed

lemma cancel_resume_step:
  "world_ok w \<Longrightarrow> known_record w c \<Longrightarrow> step_ok w (cancel_resume env c answer w)"
  unfolding cancel_resume_def
  by (rule or_else_step) (auto split: sum.split cancel_result.split intro!: exec_transition_step intro: known_grows)

lemma reconcile_resume_step:
  assumes "world_ok w" "known_record w r"
  shows "step_ok w (reconcile_resume env r answer w)"
proof (cases answer)
  case (Inr sn)
  obtain res w1 where a: "absorb_fills env (sn_fills sn) r w = (res, w1)" by force
  have s: "step_ok w (res, w1)" using absorb_fills_step [OF assms, of env "sn_fills sn"] a by simp
  have "step_ok w1 (exec_transition env x t y [] (\<lambda>r. r) w1)" if "res = Inr x" for x t y
    using s that by (intro exec_transition_step) (auto simp: step_ok_def)
  then show ?thesis using Inr a s exec_transition_step [OF assms, of "\<lambda>r. r" env ReconciliationRequired "''RECONCILIATION_DIFF''" "[]"]
    by (auto simp: reconcile_resume_def step_ok_def split: sum.split intro: grows_trans)
qed (use assms in \<open>simp add: reconcile_resume_def\<close>)

lemma createIntent_step:
  assumes "world_ok w"
  shows "step_ok w (createIntent env c w)"
proof -
  let ?t = "dw_tick w"
  define now where "now = (case ci_createdAt c of None \<Rightarrow> de_now env ?t | Some x \<Rightarrow> x)"
  show ?thesis
  proof (cases "guard_r (ci_strategyId c = [] \<or> ci_market c = []) (Error ''INVALID_EXECUTION_INTENT'')
      (guard_r (\<not> de_dateOk env now) (Error ''INVALID_TIMESTAMP'') (createRecord env ?t c now))")
    case (Inl e)
    then show ?thesis using assms by (simp add: createIntent_def now_def)
  next
    case (Inr r)
    define u where "u = w\<lparr>dw_tick := ?t + 3\<rparr>"
    define e where "e = \<lparr>dt_transitionId = de_uuid env (?t + 2), dt_executionId = dr_executionId r, dt_fromState = None,
       dt_toState = dr_state r, dt_reasonCode = ''INTENT_CREATED'', dt_metadata = [], dt_createdAt = now, dt_sequence = 1\<rparr>"
    have r: "dr_state r = IntentCreated" "dr_version r = 1" using Inr by (auto simp: result_simps createRecord_def)
    let ?i = "dr_executionId r"
    show ?thesis
    proof (cases "repo_getByClientOrderId w (dr_clientOrderId r)")
      case (Some x)
      then show ?thesis using Inr assms by (simp add: createIntent_def now_def throw_def)
    next
      case None
      have cl: "dr_clientOrderId x \<noteq> dr_clientOrderId r" if "repo_get w j = Some x" for j x
        using None map_of_SomeD [OF that [unfolded repo_get_def]]
        by (force simp: repo_getByClientOrderId_def find_None_iff)
      have c: "createIntent env c w = repo_save r e u"
        using Inr None by (simp add: createIntent_def now_def u_def e_def Let_def)
      show ?thesis
      proof (cases "repo_get w ?i")
        case (Some x)
        have "dr_version x \<noteq> 0" using stored_known [OF assms Some] by (auto simp: known_record_def Let_def)
        then have "\<exists>er. repo_save r e u = (Inl er, u)" using Some r
          by (auto simp: repo_save_def u_def assertExecutionTransition_def guard_r_def split: if_splits)
        then show ?thesis using c assms by (auto simp: step_ok_def u_def)
      next
        case n: None
        have h: "repo_transitions w ?i = []" using assms n by (simp add: world_ok_def)
        define v where "v = u\<lparr>dw_records := AList.update ?i r (dw_records u), dw_history := AList.update ?i [e] (dw_history u)\<rparr>"
        have sv: "repo_save r e u = (Inr r, v)"
          using n h by (simp add: repo_save_def u_def v_def e_def repo_transitions_def)
        note upd = repo_get_update [where i = "?i" and r = r] repo_transitions_update [where i = "?i" and l = "[e]"]
        have lg: "log_ok [e]" "log_state [e] 1 = IntentCreated" using r by (simp_all add: log_ok_def log_state_def e_def)
        have u: "repo_get u j = repo_get w j" "repo_transitions u j = repo_transitions w j" for j by (simp_all add: u_def)
        have ok: "world_ok v" unfolding world_ok_def v_def upd
        proof (intro conjI allI impI, goal_cases)
          case (1 j)
          then show ?case using assms by (auto simp: world_ok_def u split: if_splits)
        next
          case (2 j y)
          then show ?case using assms lg r by (auto simp: world_ok_def stored_ok_def u upd split: if_splits)
        next
          case (3 j k a b)
          then show ?case using assms cl by (auto simp: world_ok_def u split: if_splits)
        next
          case (4 j)
          then show ?case using assms by (simp add: world_ok_def u_def)
        qed
        have "grows w v" unfolding grows_def v_def upd using n h by (auto simp: u)
        moreover have "known_record v r" using stored_known [OF ok, of ?i r] upd by (simp add: v_def)
        ultimately show ?thesis using c sv ok by (simp add: step_ok_def)
      qed
    qed
  qed
qed

end
