(* ===== verification/DurableSystem.thy ===== *)
theory DurableSystem imports DurableExecution begin

text \<open>
  The execution service of \<open>DurableExecution\<close> as a system of interleaved steps: any method may start or
  run while others wait for the exchange, answers may be late, wrong or errors, and a resumed method
  still holds the record it had.  The log of what was sent to the exchange is part of the system's
  state.  The properties: an execution is sent at most once and only after risk approval, its log is a
  legal path, fills are summed exactly, and what recovery leaves unresolved.
\<close>

section \<open>Interleaved methods\<close>

datatype pending_call =
  PSubmit (pending_record: durable_record) | PCancel (pending_record: durable_record) | PReconcile (pending_record: durable_record)

datatype durable_call =
  DcCreate create_intent | DcApprove string string | DcReject string string string | DcQueue string
| DcRequestCancel string | DcFill durable_fill

record durable_system =
  ds_world :: durable_world
  ds_pending :: "pending_call list"
  ds_sent :: "(string \<times> submit_request) list"

fun run_call :: "durable_env \<Rightarrow> durable_call \<Rightarrow> durable_world \<Rightarrow> durable_record result \<times> durable_world" where
  "run_call env (DcCreate c) = createIntent env c"
| "run_call env (DcApprove i d) = approveRisk env i d"
| "run_call env (DcReject i d reason) = rejectRisk env i d reason"
| "run_call env (DcQueue i) = queueExecution env i"
| "run_call env (DcRequestCancel i) = requestCancel env i"
| "run_call env (DcFill f) = addFill env f"

inductive durable_run :: "durable_env \<Rightarrow> bool \<Rightarrow> durable_system \<Rightarrow> bool" for env allowed where
  run_empty: "durable_run env allowed \<lparr>ds_world = durable_empty, ds_pending = [], ds_sent = []\<rparr>"
| run_sync: "durable_run env allowed s \<Longrightarrow> durable_run env allowed (s\<lparr>ds_world := snd (run_call env c (ds_world s))\<rparr>)"
| run_submit: "durable_run env allowed s \<Longrightarrow> submit_start env allowed i (ds_world s) = (Inr (r, q), w) \<Longrightarrow>
    durable_run env allowed \<lparr>ds_world = w, ds_pending = PSubmit r # ds_pending s, ds_sent = ds_sent s @ [(i, q)]\<rparr>"
| run_submit_error: "durable_run env allowed s \<Longrightarrow> submit_start env allowed i (ds_world s) = (Inl e, w) \<Longrightarrow>
    durable_run env allowed (s\<lparr>ds_world := w\<rparr>)"
| run_cancel: "durable_run env allowed s \<Longrightarrow> cancel_start env i (ds_world s) = (Inr (r, q), w) \<Longrightarrow>
    durable_run env allowed (s\<lparr>ds_world := w, ds_pending := PCancel r # ds_pending s\<rparr>)"
| run_cancel_error: "durable_run env allowed s \<Longrightarrow> cancel_start env i (ds_world s) = (Inl e, w) \<Longrightarrow>
    durable_run env allowed (s\<lparr>ds_world := w\<rparr>)"
| run_reconcile: "durable_run env allowed s \<Longrightarrow> reconcile_start i (ds_world s) = Inr r \<Longrightarrow>
    durable_run env allowed (s\<lparr>ds_pending := PReconcile r # ds_pending s\<rparr>)"
| run_submitted: "durable_run env allowed s \<Longrightarrow> PSubmit r \<in> set (ds_pending s) \<Longrightarrow>
    durable_run env allowed (s\<lparr>ds_world := snd (submit_resume env r answer (ds_world s)),
      ds_pending := remove1 (PSubmit r) (ds_pending s)\<rparr>)"
| run_canceled: "durable_run env allowed s \<Longrightarrow> PCancel r \<in> set (ds_pending s) \<Longrightarrow>
    durable_run env allowed (s\<lparr>ds_world := snd (cancel_resume env r answer' (ds_world s)),
      ds_pending := remove1 (PCancel r) (ds_pending s)\<rparr>)"
| run_reconciled: "durable_run env allowed s \<Longrightarrow> PReconcile r \<in> set (ds_pending s) \<Longrightarrow>
    durable_run env allowed (s\<lparr>ds_world := snd (reconcile_resume env r answer'' (ds_world s)),
      ds_pending := remove1 (PReconcile r) (ds_pending s)\<rparr>)"

section \<open>The invariant\<close>

definition reached :: "durable_world \<Rightarrow> string \<Rightarrow> exec_state set" where
  "reached w i = dt_toState ` set (repo_transitions w i)"

lemma reached_grows: "grows w w' \<Longrightarrow> reached w i \<subseteq> reached w' i"
  unfolding grows_def reached_def by (metis Un_upper1 image_mono set_append)

definition sent_ok :: "durable_world \<Rightarrow> string \<times> submit_request \<Rightarrow> bool" where
  "sent_ok w iq \<longleftrightarrow> Submitting \<in> reached w (fst iq) \<and>
     (\<exists>r. repo_get w (fst iq) = Some r \<and> dr_clientOrderId r = sq_clientOrderId (snd iq))"

definition system_ok :: "durable_system \<Rightarrow> bool" where
  "system_ok s \<longleftrightarrow>
     world_ok (ds_world s) \<and> (\<forall>p \<in> set (ds_pending s). known_record (ds_world s) (pending_record p)) \<and>
     (\<forall>iq \<in> set (ds_sent s). sent_ok (ds_world s) iq) \<and> distinct (map fst (ds_sent s))"

lemma sent_ok_grows:
  assumes "sent_ok w iq" "grows w w'"
  shows "sent_ok w' iq"
proof -
  obtain r where r: "repo_get w (fst iq) = Some r" "dr_clientOrderId r = sq_clientOrderId (snd iq)" "Submitting \<in> reached w (fst iq)"
    using assms(1) by (auto simp: sent_ok_def)
  then obtain r' where "repo_get w' (fst iq) = Some r'" "dr_clientOrderId r' = dr_clientOrderId r"
    using assms(2) unfolding grows_def by blast
  then show ?thesis using r reached_grows [OF assms(2), of "fst iq"] by (auto simp: sent_ok_def)
qed

lemma system_ok_step:
  assumes "system_ok s" "world_ok w" "grows (ds_world s) w" "\<forall>p \<in> set ps. p \<in> set (ds_pending s) \<or> known_record w (pending_record p)"
  shows "system_ok (s\<lparr>ds_world := w, ds_pending := ps\<rparr>)"
  using assms known_grows [of "ds_world s" _ w] sent_ok_grows [of "ds_world s" _ w] by (auto simp: system_ok_def)

lemma run_call_step:
  assumes "world_ok w"
  shows "step_ok w (run_call env c w)"
proof (cases c)
  case (DcApprove i d)
  show ?thesis unfolding DcApprove run_call.simps approveRisk_def
    by (rule with_execution_step [OF assms]) (intro exec_transition_step assms, auto)
next
  case (DcReject i d reason)
  show ?thesis unfolding DcReject run_call.simps rejectRisk_def
    by (rule with_execution_step [OF assms]) (intro exec_transition_step assms, auto)
next
  case (DcQueue i)
  show ?thesis unfolding DcQueue run_call.simps queueExecution_def
    by (rule with_execution_step [OF assms]) (intro exec_transition_step assms, auto)
next
  case (DcRequestCancel i)
  show ?thesis unfolding DcRequestCancel run_call.simps requestCancel_def
    by (rule with_execution_step [OF assms]) (intro exec_transition_step assms, auto)
qed (use assms in \<open>simp_all add: createIntent_step addFill_step\<close>)

text \<open>A start that fails leaves a well-formed world; one that succeeds moved the stored record.\<close>

lemma submit_start_eq:
  "submit_start env allowed i w =
     (case repo_get w i of
        None \<Rightarrow> (throw ''EXECUTION_NOT_FOUND'', w)
      | Some r \<Rightarrow>
        if dr_state r \<noteq> Queued then (throw ''SUBMIT_REQUIRES_QUEUED'', w)
        else if \<not> allowed then (throw ''LIVE_MUTATION_DISABLED'', w)
        else case exec_transition env r Submitting ''SUBMIT_STARTED'' [] (\<lambda>r. r) w of
          (Inl e, w1) \<Rightarrow> (Inl e, w1)
        | (Inr s, w1) \<Rightarrow> (Inr (s, \<lparr>sq_clientOrderId = dr_clientOrderId s, sq_market = dr_market s, sq_side = dr_side s,
            sq_orderType = dr_orderType s, sq_requestedQuantity = dr_requestedQuantity s,
            sq_requestedQuoteAmount = dr_requestedQuoteAmount s, sq_limitPrice = dr_limitPrice s\<rparr>), w1))"
  by (simp add: submit_start_def with_execution_def require_execution_def throw_def split: option.split)

lemma submit_start_cases:
  assumes "world_ok w" "submit_start env allowed i w = (res, w')"
  shows "world_ok w' \<and> grows w w' \<and> (\<forall>r q. res = Inr (r, q) \<longrightarrow> known_record w' r \<and> repo_get w' i = Some r \<and> dr_executionId r = i \<and>
    dr_state r = Submitting \<and> sq_clientOrderId q = dr_clientOrderId r \<and> allowed \<and>
    (\<exists>x. repo_get w i = Some x \<and> dr_state x = Queued))"
proof (cases "\<exists>x. repo_get w i = Some x \<and> dr_state x = Queued \<and> allowed")
  case False
  then have "w' = w" "\<exists>e. res = Inl e" using assms(2) by (auto simp: submit_start_eq throw_def split: option.splits if_splits)
  then show ?thesis using assms(1) by auto
next
  case True
  then obtain x where x: "repo_get w i = Some x" "dr_state x = Queued" allowed by blast
  have k: "known_record w x" "dr_executionId x = i" using stored_known [OF assms(1) x(1)] by blast+
  obtain r1 w1 where e: "exec_transition env x Submitting ''SUBMIT_STARTED'' [] (\<lambda>r. r) w = (r1, w1)" by force
  have n: "step_ok w (r1, w1) \<and> (\<forall>r. r1 = Inr r \<longrightarrow> dr_executionId r = i \<and> dr_state r = Submitting \<and> repo_get w1 i = Some r)"
    using exec_transition_next [OF assms(1) k(1) _ e] k(2) by simp
  show ?thesis
  proof (cases r1)
    case (Inl er)
    then have "w' = w1" "res = Inl er" using assms(2) x e by (simp_all add: submit_start_eq)
    then show ?thesis using n by (simp add: step_ok_def)
  next
    case (Inr r)
    then have "w' = w1" "\<exists>q. res = Inr (r, q) \<and> sq_clientOrderId q = dr_clientOrderId r"
      using assms(2) x e Inr by (auto simp: submit_start_eq)
    moreover have "known_record w1 r" "dr_executionId r = i" "dr_state r = Submitting" "repo_get w1 i = Some r" "world_ok w1" "grows w w1"
      using n Inr by (simp_all add: step_ok_def)
    ultimately show ?thesis using x by auto
  qed
qed

lemma cancel_start_cases:
  assumes "world_ok w" "cancel_start env i w = (res, w')"
  shows "world_ok w' \<and> grows w w' \<and> (\<forall>r q. res = Inr (r, q) \<longrightarrow> known_record w' r)"
proof (cases "\<exists>x. repo_get w i = Some x \<and> dr_state x = CancelRequested")
  case False
  then have "w' = w" "\<exists>e. res = Inl e"
    using assms(2) by (auto simp: cancel_start_def with_execution_def require_execution_def throw_def split: option.splits if_splits)
  then show ?thesis using assms(1) by auto
next
  case True
  then obtain x where x: "repo_get w i = Some x" "dr_state x = CancelRequested" by blast
  have k: "known_record w x" using stored_known [OF assms(1) x(1)] by blast
  obtain r1 w1 where e: "exec_transition env x Canceling ''CANCEL_STARTED'' [] (\<lambda>r. r) w = (r1, w1)" by force
  have "step_ok w (r1, w1)" using exec_transition_next [OF assms(1) k _ e] by simp
  moreover have "w' = w1" "(case r1 of Inl er \<Rightarrow> res = Inl er | Inr r \<Rightarrow> \<exists>q. res = Inr (r, q))"
    using assms(2) x e by (auto simp: cancel_start_def with_execution_def require_execution_def split: sum.splits)
  ultimately show ?thesis by (auto simp: step_ok_def split: sum.splits)
qed

text \<open>Before the submission and after it: the graph of states has no way back.\<close>

definition unsent :: "exec_state \<Rightarrow> bool" where
  "unsent s \<longleftrightarrow> s = IntentCreated \<or> s = RiskApproved \<or> s = RiskRejected \<or> s = Queued"

lemma legal_sent: "legal s t \<Longrightarrow> \<not> unsent s \<Longrightarrow> \<not> unsent t"
  by (cases s) (auto simp: legal_def unsent_def)

lemma chain_sent: "chain s ts \<Longrightarrow> \<not> unsent s \<Longrightarrow> \<not> unsent (final_state s ts)"
  by (induction s ts rule: chain.induct) (auto dest: legal_sent)

lemma chain_unsent: "chain s ts \<Longrightarrow> unsent (final_state s ts) \<Longrightarrow> Submitting \<notin> dt_toState ` set ts"
proof (induction s ts rule: chain.induct)
  case (2 s t ts)
  then have "unsent (dt_toState t)" using chain_sent by auto
  then show ?case using 2 by (auto simp: unsent_def)
qed simp

lemma chain_approved:
  "chain s ts \<Longrightarrow> s = IntentCreated \<or> s = RiskRejected \<Longrightarrow> Submitting \<in> dt_toState ` set ts \<Longrightarrow> RiskApproved \<in> dt_toState ` set ts"
proof (induction s ts rule: chain.induct)
  case (2 s t ts)
  then have "dt_toState t = IntentCreated \<or> dt_toState t = RiskRejected \<or> dt_toState t = RiskApproved"
    by (auto simp: legal_def)
  then show ?case using 2 by auto
qed simp

lemma log_state_final: "h = t # ts \<Longrightarrow> log_state h (length h) = final_state (dt_toState t) ts"
  by (cases ts rule: rev_cases) (auto simp: log_state_def nth_append)

lemma queued_not_submitted:
  assumes "world_ok w" "repo_get w i = Some r" "unsent (dr_state r)"
  shows "Submitting \<notin> reached w i"
proof -
  have "log_ok (repo_transitions w i)" "dr_state r = log_state (repo_transitions w i) (length (repo_transitions w i))"
    using assms(1,2) by (auto simp: world_ok_def stored_ok_def)
  then obtain t ts where h: "repo_transitions w i = t # ts" "dt_toState t = IntentCreated" "chain IntentCreated ts"
    "unsent (final_state IntentCreated ts)" using assms(3) log_state_final by (auto simp: log_ok_def)
  then show ?thesis using chain_unsent by (auto simp: reached_def)
qed

lemma submitted_approved:
  assumes "world_ok w" "Submitting \<in> reached w i"
  shows "RiskApproved \<in> reached w i"
proof -
  have "repo_get w i \<noteq> None" using assms by (auto simp: world_ok_def reached_def)
  then have "log_ok (repo_transitions w i)" using assms(1) by (auto simp: world_ok_def stored_ok_def)
  then obtain t ts where h: "repo_transitions w i = t # ts" "dt_toState t = IntentCreated" "chain IntentCreated ts"
    by (auto simp: log_ok_def)
  then show ?thesis using chain_approved [OF h(3)] assms(2) by (auto simp: reached_def)
qed

lemma durable_run_ok: "durable_run env allowed s \<Longrightarrow> system_ok s"
proof (induction rule: durable_run.induct)
  case run_empty
  show ?case by (simp add: system_ok_def world_ok_def durable_empty_def repo_get_def repo_transitions_def repo_fills_def fills_ok_def)
next
  case (run_sync s c)
  then have "step_ok (ds_world s) (run_call env c (ds_world s))" by (intro run_call_step) (simp add: system_ok_def)
  then show ?case using system_ok_step [OF run_sync.IH, of _ "ds_pending s"] by (simp add: step_ok_def)
next
  case (run_submit s i r q w)
  then have ok: "world_ok (ds_world s)" by (simp add: system_ok_def)
  note c = submit_start_cases [OF ok run_submit.hyps(2)]
  then obtain x where x: "repo_get (ds_world s) i = Some x" "dr_state x = Queued" by blast
  have "i \<notin> fst ` set (ds_sent s)"
    using queued_not_submitted [OF ok x(1)] x(2) run_submit.IH by (auto simp: system_ok_def sent_ok_def unsent_def)
  moreover have "Submitting \<in> reached w i"
  proof -
    have "known_record w r" "dr_executionId r = i" "dr_state r = Submitting" using c by auto
    then show ?thesis by (auto simp: known_record_def reached_def Let_def log_state_def intro!: image_eqI [OF _ nth_mem])
  qed
  ultimately show ?case
    using c run_submit.IH known_grows [of "ds_world s" _ w] sent_ok_grows [of "ds_world s" _ w]
    by (auto simp: system_ok_def sent_ok_def)
next
  case (run_submit_error s i e w)
  then show ?case using submit_start_cases [of "ds_world s" env allowed i "Inl e" w] system_ok_step [OF run_submit_error.IH, of w "ds_pending s"]
    by (simp add: system_ok_def)
next
  case (run_cancel s i r q w)
  then show ?case using cancel_start_cases [of "ds_world s" env i "Inr (r, q)" w]
      system_ok_step [OF run_cancel.IH, of w "PCancel r # ds_pending s"] by (auto simp: system_ok_def)
next
  case (run_cancel_error s i e w)
  then show ?case using cancel_start_cases [of "ds_world s" env i "Inl e" w] system_ok_step [OF run_cancel_error.IH, of w "ds_pending s"]
    by (simp add: system_ok_def)
next
  case (run_reconcile s i r)
  have ok: "world_ok (ds_world s)" using run_reconcile.IH by (simp add: system_ok_def)
  have "repo_get (ds_world s) i = Some r"
    using run_reconcile.hyps(2) by (auto simp: reconcile_start_def require_execution_def result_simps split: option.splits)
  then have "known_record (ds_world s) r" using stored_known [OF ok] by blast
  then show ?case using run_reconcile.IH by (simp add: system_ok_def)
next
  case (run_submitted s r answer)
  then have "step_ok (ds_world s) (submit_resume env r answer (ds_world s))"
    by (intro submit_resume_step) (auto simp: system_ok_def)
  then show ?case using system_ok_step [OF run_submitted.IH, of _ "remove1 (PSubmit r) (ds_pending s)"] set_remove1_subset [of _ "ds_pending s"]
    by (auto simp: step_ok_def subset_iff)
next
  case (run_canceled s r answer)
  then have "step_ok (ds_world s) (cancel_resume env r answer (ds_world s))"
    by (intro cancel_resume_step) (auto simp: system_ok_def)
  then show ?case using system_ok_step [OF run_canceled.IH, of _ "remove1 (PCancel r) (ds_pending s)"] set_remove1_subset [of _ "ds_pending s"]
    by (auto simp: step_ok_def subset_iff)
next
  case (run_reconciled s r answer)
  then have "step_ok (ds_world s) (reconcile_resume env r answer (ds_world s))"
    by (intro reconcile_resume_step) (auto simp: system_ok_def)
  then show ?case using system_ok_step [OF run_reconciled.IH, of _ "remove1 (PReconcile r) (ds_pending s)"] set_remove1_subset [of _ "ds_pending s"]
    by (auto simp: step_ok_def subset_iff)
qed

section \<open>Sent at most once, and only after approval\<close>

lemma durable_run_allowed: "durable_run env allowed s \<Longrightarrow> ds_sent s = [] \<or> allowed"
proof (induction rule: durable_run.induct)
  case (run_submit s i r q w)
  then have "world_ok (ds_world s)" using durable_run_ok by (simp add: system_ok_def)
  then show ?case using submit_start_cases [OF _ run_submit.hyps(2)] by blast
qed auto

lemma system_sent_distinct:
  assumes "system_ok s"
  shows "distinct (map (\<lambda>iq. sq_clientOrderId (snd iq)) (ds_sent s))"
proof -
  have d: "distinct (map fst (ds_sent s))" and ok: "world_ok (ds_world s)" and sent: "\<forall>iq \<in> set (ds_sent s). sent_ok (ds_world s) iq"
    using assms by (simp_all add: system_ok_def)
  have "fst a = fst b" if ab: "a \<in> set (ds_sent s)" "b \<in> set (ds_sent s)" "sq_clientOrderId (snd a) = sq_clientOrderId (snd b)" for a b
  proof -
    obtain r where r: "repo_get (ds_world s) (fst a) = Some r" "dr_clientOrderId r = sq_clientOrderId (snd a)"
      using sent ab(1) by (auto simp: sent_ok_def)
    obtain t where t: "repo_get (ds_world s) (fst b) = Some t" "dr_clientOrderId t = sq_clientOrderId (snd b)"
      using sent ab(2) by (auto simp: sent_ok_def)
    have "dr_clientOrderId r = dr_clientOrderId t" using r(2) t(2) ab(3) by simp
    then show ?thesis using ok r(1) t(1) unfolding world_ok_def by blast
  qed
  moreover have "distinct (ds_sent s)" "inj_on fst (set (ds_sent s))" using d by (simp_all add: distinct_map)
  ultimately have "inj_on (\<lambda>iq. sq_clientOrderId (snd iq)) (set (ds_sent s))" by (metis (no_types, lifting) inj_onD inj_onI)
  then show ?thesis using \<open>distinct (ds_sent s)\<close> by (simp add: distinct_map)
qed

text \<open>C18: in every interleaving of the service's methods with late, wrong or failed answers of the exchange, an execution is
  submitted at most once, no two submissions share a client order id, nothing is sent unless live mutation was
  enabled, and the log of what was sent contains its risk approval.\<close>

theorem durable_submits_once:
  assumes "durable_run env allowed s"
  shows "distinct (map fst (ds_sent s)) \<and> distinct (map (\<lambda>iq. sq_clientOrderId (snd iq)) (ds_sent s)) \<and>
    (\<forall>(i, q) \<in> set (ds_sent s). allowed \<and> {RiskApproved, Submitting} \<subseteq> reached (ds_world s) i \<and>
      (\<exists>r. repo_get (ds_world s) i = Some r \<and> dr_clientOrderId r = sq_clientOrderId q))"
proof -
  have ok: "system_ok s" using assms by (rule durable_run_ok)
  then have "RiskApproved \<in> reached (ds_world s) (fst iq)" if "iq \<in> set (ds_sent s)" for iq
    using that submitted_approved [of "ds_world s" "fst iq"] by (simp add: system_ok_def sent_ok_def)
  then show ?thesis using ok system_sent_distinct [OF ok] durable_run_allowed [OF assms]
    by (auto simp: system_ok_def sent_ok_def)
qed

section \<open>Legal logs\<close>

lemma chain_nth: "chain s ts \<Longrightarrow> Suc k < length (t # ts) \<Longrightarrow> dt_toState t = s \<Longrightarrow>
    dt_fromState ((t # ts) ! Suc k) = Some (dt_toState ((t # ts) ! k)) \<and>
    legal (dt_toState ((t # ts) ! k)) (dt_toState ((t # ts) ! Suc k))"
proof (induction ts arbitrary: s t k)
  case (Cons u ts)
  then show ?case using Cons.IH [of "dt_toState u" _ u] by (cases k) auto
qed simp

lemma log_ok_nth:
  assumes "log_ok h" "Suc k < length h"
  shows "dt_fromState (h ! Suc k) = Some (dt_toState (h ! k)) \<and> legal (dt_toState (h ! k)) (dt_toState (h ! Suc k))"
proof -
  obtain t ts where "h = t # ts" "dt_toState t = IntentCreated" "chain IntentCreated ts" using assms(1) by (auto simp: log_ok_def)
  then show ?thesis using chain_nth [of IntentCreated ts k t] assms(2) by simp
qed

lemma legal_terminal: "legal s t \<Longrightarrow> exec_terminal s \<Longrightarrow> t = s"
  by (cases s) (auto simp: legal_def exec_terminal_def)

lemma log_terminal:
  assumes "log_ok h" "exec_terminal (dt_toState (h ! k))" "k \<le> j" "j < length h"
  shows "dt_toState (h ! j) = dt_toState (h ! k)"
  using assms(3,4)
proof (induction rule: dec_induct)
  case (step n)
  then show ?case using log_ok_nth [OF assms(1), of n] legal_terminal assms(2) by auto
qed simp

text \<open>C19: whatever the interleaving, the log of a stored execution starts with its creation, is numbered without gaps, every
  entry starts in the state the one before reached and either stays in it, as a reconciliation that learns nothing new does, or
  makes a step of the transition table, a terminal state is never left,
  and the record's version and state are those of the last entry.\<close>

theorem durable_log_legal:
  assumes "durable_run env allowed s" "repo_get (ds_world s) i = Some r"
  defines "h \<equiv> repo_transitions (ds_world s) i"
  shows "h \<noteq> [] \<and> dt_fromState (h ! 0) = None \<and> dt_toState (h ! 0) = IntentCreated \<and> map dt_sequence h = [1..<Suc (length h)] \<and>
    (\<forall>k. Suc k < length h \<longrightarrow> dt_fromState (h ! Suc k) = Some (dt_toState (h ! k)) \<and>
      (dt_toState (h ! Suc k) = dt_toState (h ! k) \<or> dt_toState (h ! Suc k) \<in> set (exec_transitions (dt_toState (h ! k))))) \<and>
    (\<forall>k j. k \<le> j \<and> j < length h \<and> exec_terminal (dt_toState (h ! k)) \<longrightarrow> dt_toState (h ! j) = dt_toState (h ! k)) \<and>
    dr_version r = length h \<and> dr_state r = dt_toState (last h)"
proof -
  have "world_ok (ds_world s)" using durable_run_ok [OF assms(1)] by (simp add: system_ok_def)
  then have l: "log_ok h" "dr_version r = length h" "dr_state r = log_state h (length h)"
    using assms(2) by (auto simp: world_ok_def stored_ok_def h_def)
  have ne: "h \<noteq> []" using l(1) by (auto simp: log_ok_def)
  have "dt_fromState (h ! 0) = None \<and> dt_toState (h ! 0) = IntentCreated \<and> map dt_sequence h = [1..<Suc (length h)]"
    using l(1) by (auto simp: log_ok_def)
  moreover have "dt_toState (last h) = log_state h (length h)" using ne by (simp add: log_state_def last_conv_nth)
  moreover have "dt_fromState (h ! Suc k) = Some (dt_toState (h ! k)) \<and>
      (dt_toState (h ! Suc k) = dt_toState (h ! k) \<or> dt_toState (h ! Suc k) \<in> set (exec_transitions (dt_toState (h ! k))))"
    if "Suc k < length h" for k
    using log_ok_nth [OF l(1) that] unfolding legal_def by auto
  moreover have "dt_toState (h ! j) = dt_toState (h ! k)" if "k \<le> j" "j < length h" "exec_terminal (dt_toState (h ! k))" for k j
    using log_terminal [OF l(1) that(3,1,2)] .
  ultimately show ?thesis using l(2,3) ne by simp
qed

section \<open>Fills\<close>

definition fills_value :: "durable_fill list \<Rightarrow> rat" where
  "fills_value fs = sum_list (map (\<lambda>f. text_value (df_quantity f)) fs)"

lemma fold_fill_quantity:
  "is_decimal a \<Longrightarrow> list_all (\<lambda>f. is_decimal (df_quantity f)) fs \<Longrightarrow> plain a \<Longrightarrow>
    is_decimal (fold (\<lambda>f x. dec_sum x (df_quantity f)) fs a) \<and> plain (fold (\<lambda>f x. dec_sum x (df_quantity f)) fs a) \<and>
    text_value (fold (\<lambda>f x. dec_sum x (df_quantity f)) fs a) = text_value a + fills_value fs"
proof (induction fs arbitrary: a)
  case (Cons f fs)
  then show ?case using Cons.IH [of "dec_sum a (df_quantity f)"] dec_sum_value [of a "df_quantity f"] dec_sum_plain
    by (simp add: fills_value_def)
qed (simp add: fills_value_def)

lemma fill_quantity_value:
  assumes "fills_ok fs"
  shows "is_decimal (fill_quantity fs) \<and> plain (fill_quantity fs) \<and> text_value (fill_quantity fs) = fills_value fs"
proof -
  have "is_decimal ''0''" "plain ''0''" "text_value ''0'' = 0" by code_simp+
  then show ?thesis using fold_fill_quantity [of "''0''" fs] assms by (simp add: fill_quantity_def fills_ok_def)
qed

lemma repo_save_value: "repo_save n t w = (Inr x, w') \<Longrightarrow> x = n \<and> dw_fills w' = dw_fills w"
  by (simp add: repo_save_def Let_def split: sum.splits if_splits) auto

lemma exec_transition_value:
  assumes "exec_transition env r s reason m patch w = (Inr x, w')"
  shows "dr_state x = s" "dr_filledQuantity x = dr_filledQuantity (patch r)" "dw_fills w' = dw_fills w"
proof -
  obtain n t where "repo_save n t (w\<lparr>dw_tick := dw_tick w + 1\<rparr>) = (Inr x, w')" "dr_state n = s"
    "dr_filledQuantity n = dr_filledQuantity (patch r)"
    using assms unfolding exec_transition_def Let_def by (cases "assertExecutionTransition (dr_state r) s") auto
  then show "dr_state x = s" "dr_filledQuantity x = dr_filledQuantity (patch r)" "dw_fills w' = dw_fills w"
    using repo_save_value [of n t "w\<lparr>dw_tick := dw_tick w + 1\<rparr>" x w'] by simp_all
qed

lemma requested_value:
  assumes "fills_ok fs" "is_decimal q" "plain q"
  shows "canonicalDecimal (fill_quantity fs) = canonicalDecimal q \<longleftrightarrow> fills_value fs = text_value q"
  using canonicalDecimal_eq_iff [of "fill_quantity fs" q] fill_quantity_value [OF assms(1)] assms(2,3) by simp

text \<open>C20: adding a fill to an execution of any reachable system records each exchange trade once and leaves a filled quantity
  whose value is the exact sum of the recorded fills; the execution is filled exactly when that sum is the requested quantity
  (written without superfluous leading zeros) and partially filled otherwise.\<close>

theorem durable_fills_exact:
  assumes "durable_run env allowed s" "addFill env f (ds_world s) = (Inr r, w)"
  defines "fs \<equiv> repo_fills w (df_executionId f)"
  shows "distinct (map df_exchangeTradeId fs) \<and> (\<exists>g \<in> set fs. df_exchangeTradeId g = df_exchangeTradeId f \<and> df_quantity g = df_quantity f) \<and>
    text_value (dr_filledQuantity r) = fills_value fs \<and>
    (\<forall>x q. repo_get (ds_world s) (df_executionId f) = Some x \<and> dr_requestedQuantity x = Some q \<and> is_decimal q \<and> plain q \<longrightarrow>
      dr_state r = (if fills_value fs = text_value q then ExFilled else PartiallyFilled))"
proof -
  have ok: "world_ok (ds_world s)" using durable_run_ok [OF assms(1)] by (simp add: system_ok_def)
  obtain x w1 where x: "repo_get (ds_world s) (df_executionId f) = Some x" "repo_appendFill f (ds_world s) = Inr w1"
    "applyFills env x w1 = (Inr r, w)"
    using assms(2) by (auto simp: addFill_def with_execution_def require_execution_def throw_def split: option.splits sum.splits)
  have i: "dr_executionId x = df_executionId f" using stored_known [OF ok x(1)] by blast
  note a = x(3) [unfolded applyFills_def Let_def, THEN exec_transition_value(1)]
    x(3) [unfolded applyFills_def Let_def, THEN exec_transition_value(2)]
    x(3) [unfolded applyFills_def Let_def, THEN exec_transition_value(3)]
  have fs: "fs = repo_fills w1 (df_executionId f)" using a(3) by (simp add: fs_def repo_fills_def)
  have "world_ok w1" using appendFill_ok [OF x(2) ok] by blast
  then have fok: "fills_ok fs" by (simp add: world_ok_def fs)
  have "\<exists>g \<in> set fs. df_exchangeTradeId g = df_exchangeTradeId f \<and> df_quantity g = df_quantity f"
    using repo_appendFill_fills(2) [OF x(2)] ok fs by (simp add: world_ok_def)
  moreover have "dr_filledQuantity r = fill_quantity fs" using a(2) by (simp add: fs i)
  moreover have "dr_state r = (if fills_value fs = text_value q then ExFilled else PartiallyFilled)"
    if "dr_requestedQuantity x = Some q" "is_decimal q" "plain q" for q
    using a(1) that requested_value [OF fok that(2,3)] by (simp add: fs i)
  ultimately show ?thesis using fill_quantity_value [OF fok] fok x(1) by (auto simp: fills_ok_def)
qed

section \<open>A run\<close>

definition demo_env :: durable_env where
  "demo_env = \<lparr>de_now = \<lambda>_. ''t'', de_clockText = \<lambda>_. ''1'', de_uuid = nat_string, de_dateOk = \<lambda>_. True, de_numberText = \<lambda>_. ''n''\<rparr>"

definition demo_intent :: create_intent where
  "demo_intent = \<lparr>ci_strategyId = ''s'', ci_signalId = None, ci_market = ''KRW-BTC'', ci_side = EsBuy, ci_orderType = EtLimit,
     ci_requestedQuantity = Some ''0.10'', ci_requestedQuoteAmount = None, ci_limitPrice = Some ''5'', ci_createdAt = None\<rparr>"

definition demo_queued :: durable_world where
  "demo_queued = snd (run_call demo_env (DcQueue ''0'') (snd (run_call demo_env (DcApprove ''0'' ''d'')
     (snd (run_call demo_env (DcCreate demo_intent) durable_empty)))))"

definition demo_fill :: "string \<Rightarrow> durable_fill" where
  "demo_fill q = \<lparr>df_fillId = ''f'', df_executionId = ''0'', df_exchangeTradeId = ''x'', df_quantity = q, df_price = ''5'',
     df_fee = None, df_feeCurrency = None, df_executedAt = ''t''\<rparr>"

definition demo_submitting :: "(durable_record \<times> submit_request) result \<times> durable_world" where
  "demo_submitting = submit_start demo_env True ''0'' demo_queued"

definition demo_accepted :: durable_world where
  "demo_accepted = (case fst demo_submitting of Inl _ \<Rightarrow> durable_empty
     | Inr (r, q) \<Rightarrow> snd (submit_resume demo_env r (Inr (SubmitAccepted ''e'')) (snd demo_submitting)))"

lemma demo_sent: "case demo_submitting of (Inl _, _) \<Rightarrow> False | (Inr (r, q), _) \<Rightarrow> sq_clientOrderId q = ''nusa_1_1''"
  by code_simp

lemma demo_filled: "case addFill demo_env (demo_fill ''0.1'') demo_accepted of (Inl _, _) \<Rightarrow> False
    | (Inr r, _) \<Rightarrow> dr_state r = ExFilled"
  by code_simp

lemma demo_run_queued: "durable_run demo_env True \<lparr>ds_world = demo_queued, ds_pending = [], ds_sent = []\<rparr>"
  using run_sync [OF run_sync [OF run_sync [OF run_empty [of demo_env True], of "DcCreate demo_intent"],
      of "DcApprove ''0'' ''d''"], of "DcQueue ''0''"] by (simp add: demo_queued_def)

lemma demo_run_accepted: "\<exists>q. durable_run demo_env True \<lparr>ds_world = demo_accepted, ds_pending = [], ds_sent = [(''0'', q)]\<rparr>"
proof -
  obtain r q w where d: "demo_submitting = (Inr (r, q), w)" using demo_sent by (auto split: prod.splits sum.splits)
  have "durable_run demo_env True \<lparr>ds_world = w, ds_pending = [PSubmit r], ds_sent = [(''0'', q)]\<rparr>"
    using run_submit [OF demo_run_queued, of "''0''" r q w] d by (simp add: demo_submitting_def)
  from run_submitted [OF this, of r "Inr (SubmitAccepted ''e'')"]
  have "durable_run demo_env True \<lparr>ds_world = demo_accepted, ds_pending = [], ds_sent = [(''0'', q)]\<rparr>"
    unfolding demo_accepted_def d by simp
  then show ?thesis by blast
qed

lemma demo_get: "case repo_get demo_accepted ''0'' of None \<Rightarrow> False | Some r \<Rightarrow> dr_state r = Accepted \<and> dr_requestedQuantity r = Some ''0.10''"
  by code_simp

theorem durable_submits_once_witness:
  "\<exists>s q. durable_run demo_env True s \<and> ds_sent s = [(''0'', q)] \<and> {RiskApproved, Submitting} \<subseteq> reached (ds_world s) ''0''"
proof -
  obtain q where "durable_run demo_env True \<lparr>ds_world = demo_accepted, ds_pending = [], ds_sent = [(''0'', q)]\<rparr>"
    using demo_run_accepted by blast
  with durable_submits_once [OF this] show ?thesis by (intro exI conjI) auto
qed

theorem durable_log_legal_witness:
  "\<exists>s r. durable_run demo_env True s \<and> repo_get (ds_world s) ''0'' = Some r \<and> dr_state r = Accepted \<and>
     dt_toState (last (repo_transitions (ds_world s) ''0'')) = Accepted"
proof -
  obtain q where run: "durable_run demo_env True \<lparr>ds_world = demo_accepted, ds_pending = [], ds_sent = [(''0'', q)]\<rparr>"
    using demo_run_accepted by blast
  obtain r where r: "repo_get demo_accepted ''0'' = Some r" "dr_state r = Accepted" using demo_get by (auto split: option.splits)
  have "dt_toState (last (repo_transitions demo_accepted ''0'')) = Accepted"
    using durable_log_legal [OF run, of "''0''" r] r by simp
  then show ?thesis using run r by (intro exI [of _ "\<lparr>ds_world = demo_accepted, ds_pending = [], ds_sent = [(''0'', q)]\<rparr>"]) auto
qed

theorem durable_fills_exact_witness:
  "\<exists>s r w. durable_run demo_env True s \<and> addFill demo_env (demo_fill ''0.1'') (ds_world s) = (Inr r, w) \<and> dr_state r = ExFilled \<and>
     fills_value (repo_fills w ''0'') = 1 / 10"
proof -
  obtain q where run: "durable_run demo_env True \<lparr>ds_world = demo_accepted, ds_pending = [], ds_sent = [(''0'', q)]\<rparr>"
    using demo_run_accepted by blast
  obtain r w where f: "addFill demo_env (demo_fill ''0.1'') demo_accepted = (Inr r, w)" "dr_state r = ExFilled"
    using demo_filled by (auto split: prod.splits sum.splits)
  obtain x where x: "repo_get demo_accepted ''0'' = Some x" "dr_requestedQuantity x = Some ''0.10''"
    using demo_get by (auto split: option.splits)
  have q: "is_decimal ''0.10''" "plain ''0.10''" "text_value ''0.10'' = 1 / 10" by code_simp+
  have "fills_value (repo_fills w ''0'') = 1 / 10"
    using durable_fills_exact [OF run, of "demo_fill ''0.1''" r w] f x q by (auto simp: demo_fill_def split: if_splits)
  then show ?thesis using run f by (intro exI [of _ "\<lparr>ds_world = demo_accepted, ds_pending = [], ds_sent = [(''0'', q)]\<rparr>"]) auto
qed

end
