(* ===== verification/Readiness.thy ===== *)
theory Readiness imports Prelude "HOL-Library.List_Lexorder" "HOL-Library.Char_ord" begin

text \<open>
  \<open>apps/cloud/src/operationalReadinessGate.ts\<close>: whether new positions may be entered, only exits are
  allowed, or everything halts, from the mode, the kill switch, recovery, the data and the connection.
\<close>

datatype readiness_action = AllowNewEntries | AllowExitOnly | ReadinessHalt
datatype readiness_mode = RyPaper | RyDryRun | RyStopped | RyFaulted

record readiness_input =
  ri_now :: jsnum
  ri_mode :: readiness_mode
  ri_killSwitchActive :: bool
  ri_recoveryUnresolved :: bool
  ri_strategySuspended :: bool
  ri_dataFingerprintMatches :: bool
  ri_marketDataObservedAt :: jsnum
  ri_maximumDataAgeMs :: jsnum
  ri_warmupSamples :: jsnum
  ri_requiredWarmupSamples :: jsnum
  ri_disconnectedAt :: "jsnum option"
  ri_reconnectedAt :: "jsnum option"
  ri_reconnectCooldownMs :: jsnum
  ri_protectionLockedUntil :: "jsnum option"

record readiness_decision =
  rn_action :: readiness_action
  rn_ready :: bool
  rn_reasons :: "string list"
  rn_evaluatedAt :: jsnum

definition safeTime :: "jsnum \<Rightarrow> string \<Rightarrow> unit result" where
  "safeTime v field = guard_r (\<not> is_safe_integer v \<or> v < Fin 0) (Error (field @ '' is invalid'')) (Inr ())"

definition opt_safeTime :: "jsnum option \<Rightarrow> string \<Rightarrow> unit result" where
  "opt_safeTime v field = (case v of None \<Rightarrow> Inr () | Some t \<Rightarrow> safeTime t field)"

definition readiness_valid :: "readiness_input \<Rightarrow> unit result" where
  "readiness_valid i =
     bind_r (safeTime (ri_now i) ''now'') (\<lambda>_.
     bind_r (safeTime (ri_marketDataObservedAt i) ''marketDataObservedAt'') (\<lambda>_.
     bind_r (safeTime (ri_maximumDataAgeMs i) ''maximumDataAgeMs'') (\<lambda>_.
     bind_r (safeTime (ri_reconnectCooldownMs i) ''reconnectCooldownMs'') (\<lambda>_.
     guard_r (\<not> is_safe_integer (ri_warmupSamples i) \<or> ri_warmupSamples i < Fin 0 \<or>
         \<not> is_safe_integer (ri_requiredWarmupSamples i) \<or> ri_requiredWarmupSamples i \<le> Fin 0)
       (Error ''warmup sample counts are invalid'')
     (guard_r (ri_now i < ri_marketDataObservedAt i) (Error ''market data cannot come from the future'')
     (bind_r (opt_safeTime (ri_disconnectedAt i) ''disconnectedAt'') (\<lambda>_.
      bind_r (opt_safeTime (ri_reconnectedAt i) ''reconnectedAt'') (\<lambda>_.
      opt_safeTime (ri_protectionLockedUntil i) ''protectionLockedUntil''))))))))"

definition readiness_connection :: "readiness_input \<Rightarrow> string list" where
  "readiness_connection i =
     (case ri_disconnectedAt i of
        None \<Rightarrow> []
      | Some d \<Rightarrow>
        (case ri_reconnectedAt i of
           None \<Rightarrow> [''MARKET_DATA_DISCONNECTED'']
         | Some r \<Rightarrow> if r < d then [''MARKET_DATA_DISCONNECTED'']
             else if ri_now i - r < ri_reconnectCooldownMs i then [''RECONNECT_COOLDOWN_ACTIVE''] else []))"

definition readiness_reasons :: "readiness_input \<Rightarrow> string list" where
  "readiness_reasons i =
     (if ri_mode i \<noteq> RyPaper \<and> ri_mode i \<noteq> RyDryRun then [''PAPER_OR_DRY_RUN_REQUIRED''] else []) @
     (if ri_killSwitchActive i then [''KILL_SWITCH_ACTIVE''] else []) @
     (if ri_recoveryUnresolved i then [''RECOVERY_UNRESOLVED''] else []) @
     (if ri_strategySuspended i then [''STRATEGY_SUSPENDED''] else []) @
     (if \<not> ri_dataFingerprintMatches i then [''DATA_FINGERPRINT_MISMATCH''] else []) @
     (if ri_maximumDataAgeMs i < ri_now i - ri_marketDataObservedAt i then [''MARKET_DATA_STALE''] else []) @
     (if ri_warmupSamples i < ri_requiredWarmupSamples i then [''WARMUP_INCOMPLETE''] else []) @
     (case ri_protectionLockedUntil i of None \<Rightarrow> [] | Some t \<Rightarrow> if ri_now i < t then [''PROTECTION_LOCK_ACTIVE''] else []) @
     readiness_connection i"

definition CRITICAL_READINESS :: "string list" where
  "CRITICAL_READINESS =
     [''KILL_SWITCH_ACTIVE'', ''RECOVERY_UNRESOLVED'', ''MARKET_DATA_DISCONNECTED'', ''PAPER_OR_DRY_RUN_REQUIRED'']"

definition evaluateOperationalReadiness :: "readiness_input \<Rightarrow> readiness_decision result" where
  "evaluateOperationalReadiness i =
     bind_r (readiness_valid i) (\<lambda>_.
     let reasons = readiness_reasons i;
         action = (if reasons = [] then AllowNewEntries
           else if list_ex (\<lambda>x. x \<in> set CRITICAL_READINESS) reasons then ReadinessHalt else AllowExitOnly)
     in Inr \<lparr>rn_action = action, rn_ready = (action = AllowNewEntries), rn_reasons = sort reasons, rn_evaluatedAt = ri_now i\<rparr>)"

lemma readiness_action:
  assumes "evaluateOperationalReadiness i = Inr d"
  shows "rn_action d = (if readiness_reasons i = [] then AllowNewEntries
    else if list_ex (\<lambda>x. x \<in> set CRITICAL_READINESS) (readiness_reasons i) then ReadinessHalt else AllowExitOnly)"
  using assms by (auto simp: evaluateOperationalReadiness_def result_simps Let_def)

lemma flag_Nil: "(if p then [x] else []) = [] \<longleftrightarrow> \<not> p"
  by simp

lemma flag_list_ex: "list_ex q (if p then [x] else []) \<longleftrightarrow> p \<and> q x"
  by simp

text \<open>New entries need every condition; the four critical conditions halt also the exits.\<close>

lemma readiness_entries_iff:
  assumes "evaluateOperationalReadiness i = Inr d"
  shows "rn_action d = AllowNewEntries \<longleftrightarrow>
    (ri_mode i = RyPaper \<or> ri_mode i = RyDryRun) \<and> \<not> ri_killSwitchActive i \<and> \<not> ri_recoveryUnresolved i \<and>
    \<not> ri_strategySuspended i \<and> ri_dataFingerprintMatches i \<and>
    \<not> ri_maximumDataAgeMs i < ri_now i - ri_marketDataObservedAt i \<and> \<not> ri_warmupSamples i < ri_requiredWarmupSamples i \<and>
    (\<forall>t. ri_protectionLockedUntil i = Some t \<longrightarrow> \<not> ri_now i < t) \<and> readiness_connection i = []"
proof -
  have "rn_action d = AllowNewEntries \<longleftrightarrow> readiness_reasons i = []" unfolding readiness_action [OF assms] by simp
  also have "\<dots> \<longleftrightarrow> (ri_mode i = RyPaper \<or> ri_mode i = RyDryRun) \<and> \<not> ri_killSwitchActive i \<and> \<not> ri_recoveryUnresolved i \<and>
    \<not> ri_strategySuspended i \<and> ri_dataFingerprintMatches i \<and>
    \<not> ri_maximumDataAgeMs i < ri_now i - ri_marketDataObservedAt i \<and> \<not> ri_warmupSamples i < ri_requiredWarmupSamples i \<and>
    (\<forall>t. ri_protectionLockedUntil i = Some t \<longrightarrow> \<not> ri_now i < t) \<and> readiness_connection i = []"
    unfolding readiness_reasons_def append_is_Nil_conv flag_Nil by (cases "ri_protectionLockedUntil i") (simp_all add: flag_Nil)
  finally show ?thesis .
qed

lemma readiness_halt_iff:
  assumes "evaluateOperationalReadiness i = Inr d"
  shows "rn_action d = ReadinessHalt \<longleftrightarrow>
    \<not> (ri_mode i = RyPaper \<or> ri_mode i = RyDryRun) \<or> ri_killSwitchActive i \<or> ri_recoveryUnresolved i \<or>
    readiness_connection i = [''MARKET_DATA_DISCONNECTED'']"
proof -
  let ?c = "\<lambda>x. x \<in> set CRITICAL_READINESS"
  have "rn_action d = ReadinessHalt \<longleftrightarrow> list_ex ?c (readiness_reasons i)"
    unfolding readiness_action [OF assms] by simp
  moreover have "list_ex ?c (readiness_connection i) \<longleftrightarrow> readiness_connection i = [''MARKET_DATA_DISCONNECTED'']"
    by (simp add: readiness_connection_def CRITICAL_READINESS_def split: option.splits)
  moreover have "\<not> list_ex ?c (case ri_protectionLockedUntil i of None \<Rightarrow> [] | Some t \<Rightarrow> if ri_now i < t then [''PROTECTION_LOCK_ACTIVE''] else [])"
    by (simp add: CRITICAL_READINESS_def split: option.splits)
  ultimately show ?thesis
    unfolding readiness_reasons_def list_ex_append flag_list_ex by (simp add: CRITICAL_READINESS_def)
qed

end
