(* ===== verification/CommandService.thy ===== *)
theory CommandService imports PaperBroker ControlPlane StrategyEngine SafetyGate Readiness begin

text \<open>
  \<open>apps/cloud/src/runtimeCommandService.ts\<close>: commands over the paper broker, the control plane and the
  strategy engine, each a transaction.  A command that throws is rolled back to the states captured
  before it; one whose result cannot be saved is rolled back and closes the service.  The risk gate,
  the store and the readiness callback are parameters that may answer or throw; the clock and ids are
  drawn from the environment, one value per reading.
\<close>

section \<open>Commands\<close>

type_synonym ('a, 's) command = "'s \<Rightarrow> 'a result \<times> 's"

definition ret_c :: "'a \<Rightarrow> ('a, 's) command" where
  "ret_c x s = (Inr x, s)"

definition lift_c :: "'a result \<Rightarrow> ('a, 's) command" where
  "lift_c r s = (r, s)"

definition then_c :: "('a, 's) command \<Rightarrow> ('a \<Rightarrow> ('b, 's) command) \<Rightarrow> ('b, 's) command" where
  "then_c m k s = (case m s of (Inl e, t) \<Rightarrow> (Inl e, t) | (Inr x, t) \<Rightarrow> k x t)"

definition catch_c :: "('a, 's) command \<Rightarrow> (js_error \<Rightarrow> ('a, 's) command) \<Rightarrow> ('a, 's) command" where
  "catch_c m h s = (case m s of (Inl e, t) \<Rightarrow> h e t | (Inr x, t) \<Rightarrow> (Inr x, t))"

section \<open>State\<close>

datatype audit_data = AdOrder paper_order | AdSignal strategy_signal | AdReadiness readiness_decision | AdRegime regime_decision

datatype command_path = CpManual | CpStrategy | CpReconnectReplay

record gate_command =
  gc_path :: command_path
  gc_side :: paper_side
  gc_quantity :: jsnum
  gc_price :: jsnum
  gc_accountId :: "string option"
  gc_strategyId :: "string option"
  gc_approvalId :: "string option"
  gc_commandId :: "string option"
  gc_signalId :: "string option"
  gc_clientOrderId :: "string option"
  gc_nowMs :: "jsnum option"

datatype gate_status = GateAllow | GateReject | GateHalt

record recorded_order =
  ro_orderId :: string
  ro_nowMs :: "jsnum option"

record scenario_event =
  sv_eventId :: string
  sv_type :: string
  sv_occurredAt :: jsnum
  sv_scenario :: "string option"
  sv_sessionId :: string

datatype diagnostic =
  MutationFailed string | RollbackCompleted string | RollbackFailed string js_error
| TradingDisabled string control_status | AutomaticBlocked

record command_metadata =
  cm_accountId :: "string option"
  cm_approvalId :: "string option"
  cm_commandId :: "string option"
  cm_signalId :: "string option"
  cm_clientOrderId :: "string option"
  cm_nowMs :: "jsnum option"

type_synonym audit_plane = "audit_data control_plane"
type_synonym audit_state = "audit_data control_plane_state"

record ('g, 'p) command_env =
  xe_clock :: "nat \<Rightarrow> clock"
  xe_now :: "nat \<Rightarrow> int"
  xe_uuid :: "nat \<Rightarrow> string"
  xe_isoText :: "int \<Rightarrow> string"
  xe_numText :: "jsnum \<Rightarrow> string"
  xe_parseDate :: "string \<Rightarrow> jsnum"
  xe_evaluate :: "gate_command \<Rightarrow> 'g \<Rightarrow> (gate_status \<times> string list) result \<times> 'g"
  xe_recordOrder :: "(recorded_order \<Rightarrow> 'g \<Rightarrow> unit result \<times> 'g) option"
  xe_readiness :: "(nat \<Rightarrow> readiness_decision result) option"
  xe_session :: "string option"
  xe_save :: "broker_state \<Rightarrow> audit_state \<Rightarrow> 'p \<Rightarrow> unit result \<times> 'p"
  xe_saveWithScenarioEvent :: "(broker_state \<Rightarrow> audit_state \<Rightarrow> scenario_event \<Rightarrow> 'p \<Rightarrow> unit result \<times> 'p) option"
  xe_saveWithScenarioEvents :: "(broker_state \<Rightarrow> audit_state \<Rightarrow> scenario_event list \<Rightarrow> 'p \<Rightarrow> unit result \<times> 'p) option"

record ('g, 'p) command_state =
  xs_available :: bool
  xs_broker :: paper_broker
  xs_control :: audit_plane
  xs_strategy :: "strategy strategy_engine"
  xs_gate :: 'g
  xs_persistence :: 'p
  xs_diagnostics :: "diagnostic list"
  xs_tick :: nat

definition REPAIR_MESSAGE :: string where
  "REPAIR_MESSAGE = ''Paper trading is unavailable. Stop the application, preserve the failed database, restore a verified backup, then restart and review state before manually resuming.''"

definition FAULT_MESSAGE :: string where
  "FAULT_MESSAGE = ''Local Paper Trading storage failed. Trading was stopped to protect account consistency. Stop the application, preserve the failed database, restore a verified backup, then restart and review state before manually resuming.''"

section \<open>What the commands use\<close>

definition emit_diagnostic :: "diagnostic \<Rightarrow> (unit, ('g, 'p) command_state) command" where
  "emit_diagnostic d s = (Inr (), s\<lparr>xs_diagnostics := xs_diagnostics s @ [d]\<rparr>)"

definition on_control ::
  "('g, 'p) command_env \<Rightarrow> (clock \<Rightarrow> audit_plane \<Rightarrow> 'a result \<times> audit_plane) \<Rightarrow> ('a, ('g, 'p) command_state) command" where
  "on_control env f s =
     (case f (xe_clock env (xs_tick s)) (xs_control s) of
        (r, p) \<Rightarrow> (r, s\<lparr>xs_control := p, xs_tick := xs_tick s + 1\<rparr>))"

definition record_event ::
  "('g, 'p) command_env \<Rightarrow> control_event_type \<Rightarrow> string \<Rightarrow> audit_data option \<Rightarrow> (unit, ('g, 'p) command_state) command" where
  "record_event env t message data = then_c (on_control env (\<lambda>c. control_record c t message data)) (\<lambda>_. ret_c ())"

definition on_strategy ::
  "(strategy strategy_engine \<Rightarrow> strategy strategy_engine) \<Rightarrow> (unit, ('g, 'p) command_state) command" where
  "on_strategy f s = (Inr (), s\<lparr>xs_strategy := f (xs_strategy s)\<rparr>)"

definition broker_execute ::
  "('g, 'p) command_env \<Rightarrow> paper_side \<Rightarrow> jsnum \<Rightarrow> jsnum \<Rightarrow> string option \<Rightarrow> (paper_order, ('g, 'p) command_state) command" where
  "broker_execute env side quantity price strategyId s =
     (case PaperBroker_execute (xe_isoText env) side quantity price (Some (xe_now env (xs_tick s))) strategyId (xs_broker s) of
        (r, b) \<Rightarrow> (r, s\<lparr>xs_broker := b, xs_tick := xs_tick s + 1\<rparr>))"

definition requireRiskApproval :: "('g, 'p) command_env \<Rightarrow> gate_command \<Rightarrow> (unit, ('g, 'p) command_state) command" where
  "requireRiskApproval env c s =
     (case xe_evaluate env c (xs_gate s) of
        (r, g) \<Rightarrow> (bind_r r (\<lambda>(status, codes). guard_r (status \<noteq> GateAllow)
            (Error (''paper risk '' @ (if status = GateHalt then ''HALT'' else ''REJECT'') @ '': '' @ join_with '','' codes)) (Inr ())),
          s\<lparr>xs_gate := g\<rparr>))"

definition recordOrder :: "('g, 'p) command_env \<Rightarrow> paper_order \<Rightarrow> jsnum option \<Rightarrow> (unit, ('g, 'p) command_state) command" where
  "recordOrder env order nowMs s =
     (case xe_recordOrder env of
        None \<Rightarrow> (Inr (), s)
      | Some f \<Rightarrow> (case f \<lparr>ro_orderId = po_id order, ro_nowMs = nowMs\<rparr> (xs_gate s) of (r, g) \<Rightarrow> (r, s\<lparr>xs_gate := g\<rparr>)))"

definition bind_event ::
  "('g, 'p) command_env \<Rightarrow> string \<Rightarrow> string \<Rightarrow> jsnum \<Rightarrow> string option \<Rightarrow> scenario_event list" where
  "bind_event env eventId t occurredAt scenario =
     (case xe_session env of
        None \<Rightarrow> []
      | Some x \<Rightarrow> [\<lparr>sv_eventId = eventId, sv_type = t, sv_occurredAt = occurredAt, sv_scenario = scenario, sv_sessionId = x\<rparr>])"

definition order_evidence :: "('g, 'p) command_env \<Rightarrow> paper_order \<Rightarrow> scenario_event list" where
  "order_evidence env order = bind_event env (po_id order) ''ORDER_COMPLETED'' (xe_parseDate env (po_filledAt order)) None"

definition command_persist :: "('g, 'p) command_env \<Rightarrow> scenario_event list \<Rightarrow> (unit, ('g, 'p) command_state) command" where
  "command_persist env events s =
     (let b = PaperBroker_exportState (xs_broker s); c = control_exportState (xs_control s);
          store = (\<lambda>f. case f (xs_persistence s) of (r, p) \<Rightarrow> (r, s\<lparr>xs_persistence := p\<rparr>))
      in if 1 < length events
         then (case xe_saveWithScenarioEvents env of
                 None \<Rightarrow> (throw ''atomic multi-event scenario persistence is unavailable'', s)
               | Some f \<Rightarrow> store (f b c events))
         else case (events, xe_saveWithScenarioEvent env) of
                ([e], Some f) \<Rightarrow> store (f b c e)
              | _ \<Rightarrow> store (xe_save env b c))"

section \<open>Snapshots and failure\<close>

record command_snapshot =
  sp_paper :: broker_state
  sp_control :: "audit_data control_runtime_state"
  sp_running :: bool

definition command_capture :: "('g, 'p) command_state \<Rightarrow> command_snapshot" where
  "command_capture s = \<lparr>sp_paper = PaperBroker_exportState (xs_broker s), sp_control = exportRuntimeState (xs_control s),
     sp_running = se_running (xs_strategy s)\<rparr>"

definition command_restore :: "command_snapshot \<Rightarrow> (unit, ('g, 'p) command_state) command" where
  "command_restore snap s =
     (case PaperBroker_restoreState (sp_paper snap) (xs_broker s) of
        Inl e \<Rightarrow> (Inl e, s)
      | Inr b \<Rightarrow>
        (case restoreRuntimeState (sp_control snap) (xs_control s) of
           Inl e \<Rightarrow> (Inl e, s\<lparr>xs_broker := b\<rparr>)
         | Inr p \<Rightarrow> (Inr (), s\<lparr>xs_broker := b, xs_control := p,
             xs_strategy := engine_restoreRunning (sp_running snap) (xs_strategy s)\<rparr>)))"

definition restoreAfterFailure :: "command_snapshot \<Rightarrow> string \<Rightarrow> (unit, ('g, 'p) command_state) command" where
  "restoreAfterFailure snap name =
     catch_c (then_c (command_restore snap) (\<lambda>_. emit_diagnostic (RollbackCompleted name)))
       (\<lambda>e. emit_diagnostic (RollbackFailed name e))"

definition failClosed :: "('g, 'p) command_env \<Rightarrow> string \<Rightarrow> (unit, ('g, 'p) command_state) command" where
  "failClosed env name =
     then_c (\<lambda>s. (Inr (), s\<lparr>xs_available := False\<rparr>)) (\<lambda>_.
     then_c (on_strategy engine_stop) (\<lambda>_.
     then_c (on_control env (\<lambda>c. control_fault c FAULT_MESSAGE)) (\<lambda>_ s.
       emit_diagnostic (TradingDisabled name (cp_status (xs_control s))) s)))"

definition commit ::
  "('g, 'p) command_env \<Rightarrow> string \<Rightarrow> ('a, ('g, 'p) command_state) command \<Rightarrow>
    ('a \<Rightarrow> (scenario_event list, ('g, 'p) command_state) command) \<Rightarrow> ('a, ('g, 'p) command_state) command" where
  "commit env name mutation evidence s =
     (if \<not> xs_available s then (throw REPAIR_MESSAGE, s)
      else case mutation s of
        (Inl e, t) \<Rightarrow> then_c (command_restore (command_capture s)) (\<lambda>_. lift_c (Inl e)) t
      | (Inr x, t) \<Rightarrow>
        catch_c (then_c (evidence x) (\<lambda>events. then_c (command_persist env events) (\<lambda>_. ret_c x)))
          (\<lambda>_. then_c (emit_diagnostic (MutationFailed name)) (\<lambda>_.
             then_c (restoreAfterFailure (command_capture s) name) (\<lambda>_.
             then_c (failClosed env name) (\<lambda>_. lift_c (throw REPAIR_MESSAGE))))) t)"

section \<open>The commands\<close>

definition markUnavailable :: "(unit, ('g, 'p) command_state) command" where
  "markUnavailable s = (Inr (), s\<lparr>xs_available := False, xs_strategy := engine_stop (xs_strategy s)\<rparr>)"

definition paper_side_name :: "paper_side \<Rightarrow> string" where
  "paper_side_name side = (case side of Buy \<Rightarrow> ''BUY'' | Sell \<Rightarrow> ''SELL'')"

definition gate_command_of :: "command_path \<Rightarrow> paper_side \<Rightarrow> jsnum \<Rightarrow> jsnum \<Rightarrow> command_metadata \<Rightarrow> gate_command" where
  "gate_command_of path side quantity price m =
     \<lparr>gc_path = path, gc_side = side, gc_quantity = quantity, gc_price = price, gc_accountId = cm_accountId m,
      gc_strategyId = None, gc_approvalId = cm_approvalId m, gc_commandId = cm_commandId m, gc_signalId = cm_signalId m,
      gc_clientOrderId = cm_clientOrderId m, gc_nowMs = cm_nowMs m\<rparr>"

definition order_mutation ::
  "('g, 'p) command_env \<Rightarrow> command_path \<Rightarrow> string \<Rightarrow> paper_side \<Rightarrow> jsnum \<Rightarrow> jsnum \<Rightarrow> command_metadata \<Rightarrow>
    (paper_order, ('g, 'p) command_state) command" where
  "order_mutation env path label side quantity price m =
     then_c (requireRiskApproval env (gate_command_of path side quantity price m)) (\<lambda>_.
     then_c (broker_execute env side quantity price None) (\<lambda>order.
     then_c (recordOrder env order (cm_nowMs m)) (\<lambda>_.
     then_c (record_event env CeOrder (label @ paper_side_name side @ '' filled'') (Some (AdOrder order))) (\<lambda>_. ret_c order))))"

definition manualOrder ::
  "('g, 'p) command_env \<Rightarrow> paper_side \<Rightarrow> jsnum \<Rightarrow> jsnum \<Rightarrow> command_metadata \<Rightarrow> (paper_order, ('g, 'p) command_state) command" where
  "manualOrder env side quantity price m =
     commit env ''manual paper order'' (order_mutation env CpManual ''manual '' side quantity price m)
       (\<lambda>order. ret_c (order_evidence env order))"

definition replayOrder ::
  "('g, 'p) command_env \<Rightarrow> paper_side \<Rightarrow> jsnum \<Rightarrow> jsnum \<Rightarrow> command_metadata \<Rightarrow> (paper_order, ('g, 'p) command_state) command" where
  "replayOrder env side quantity price m =
     commit env ''reconnect paper order replay'' (order_mutation env CpReconnectReplay ''reconnect replay '' side quantity price m)
       (\<lambda>order. ret_c (order_evidence env order))"

definition no_evidence :: "'a \<Rightarrow> (scenario_event list, ('g, 'p) command_state) command" where
  "no_evidence x = ret_c []"

definition command_start :: "('g, 'p) command_env \<Rightarrow> (unit, ('g, 'p) command_state) command" where
  "command_start env =
     commit env ''control start'' (then_c (on_strategy engine_start) (\<lambda>_. on_control env control_start)) no_evidence"

definition stop_mutation :: "('g, 'p) command_env \<Rightarrow> (unit, ('g, 'p) command_state) command" where
  "stop_mutation env =
     then_c (on_strategy engine_stop) (\<lambda>_.
     then_c (on_control env control_stop) (\<lambda>_ s.
       (guard_r (se_running (xs_strategy s) \<or> cp_status (xs_control s) \<noteq> CtlStopped \<or> cp_autoTradeEnabled (xs_control s))
          (Error ''kill switch did not reach a safe stopped state'') (Inr ()), s)))"

definition stop_evidence :: "('g, 'p) command_env \<Rightarrow> (scenario_event list, ('g, 'p) command_state) command" where
  "stop_evidence env s =
     (case xe_session env of
        None \<Rightarrow> (Inr [], s)
      | Some _ \<Rightarrow> (Inr (bind_event env (''fault-kill-switch-'' @ xe_uuid env (xs_tick s)) ''FAULT_SCENARIO_PASSED''
            (jint (xe_now env (xs_tick s))) (Some ''KILL_SWITCH'')), s\<lparr>xs_tick := xs_tick s + 1\<rparr>))"

definition command_stop :: "('g, 'p) command_env \<Rightarrow> (unit, ('g, 'p) command_state) command" where
  "command_stop env = commit env ''control stop'' (stop_mutation env) (\<lambda>_. stop_evidence env)"

definition command_setAutoTrade :: "('g, 'p) command_env \<Rightarrow> bool \<Rightarrow> (unit, ('g, 'p) command_state) command" where
  "command_setAutoTrade env enabled = commit env ''control auto'' (on_control env (\<lambda>c. setAutoTrade c enabled)) no_evidence"

definition command_setOrderQuantity :: "('g, 'p) command_env \<Rightarrow> jsnum \<Rightarrow> (unit, ('g, 'p) command_state) command" where
  "command_setOrderQuantity env quantity =
     commit env ''control quantity'' (on_control env (\<lambda>c. setOrderQuantity (xe_numText env) c quantity)) no_evidence"

section \<open>Automatic signals\<close>

datatype automatic_result = AutoSkipped | AutoDuplicate | AutoFilled paper_order | AutoRejected string

fun js_message :: "js_error \<Rightarrow> string" where
  "js_message (Error m) = m"
| "js_message (RangeError m) = m"
| "js_message (TypeError m) = m"

definition signal_name :: "signal_type \<Rightarrow> string" where
  "signal_name t = (case t of BUY \<Rightarrow> ''BUY'' | SELL \<Rightarrow> ''SELL'' | HOLD \<Rightarrow> ''HOLD'')"

definition signal_key :: "('g, 'p) command_env \<Rightarrow> string \<Rightarrow> strategy_signal \<Rightarrow> string" where
  "signal_key env market g = market @ '':'' @ xe_numText env (sg_timestamp g) @ '':'' @ signal_name (sg_type g)"

definition signal_command ::
  "('g, 'p) command_env \<Rightarrow> string \<Rightarrow> strategy_signal \<Rightarrow> string \<Rightarrow> jsnum \<Rightarrow> jsnum \<Rightarrow> command_metadata \<Rightarrow> gate_command" where
  "signal_command env market g strategyId quantity price m =
     \<lparr>gc_path = CpStrategy, gc_side = (if sg_type g = SELL then Sell else Buy), gc_quantity = quantity, gc_price = price,
      gc_accountId = cm_accountId m, gc_strategyId = Some strategyId, gc_approvalId = cm_approvalId m,
      gc_commandId = Some (''strategy:'' @ signal_key env market g), gc_signalId = Some (signal_key env market g),
      gc_clientOrderId = Some (''paper:strategy:'' @ signal_key env market g), gc_nowMs = Some (sg_timestamp g)\<rparr>"

definition reject_signal ::
  "('g, 'p) command_env \<Rightarrow> string \<Rightarrow> audit_data option \<Rightarrow> (automatic_result, ('g, 'p) command_state) command" where
  "reject_signal env message data =
     then_c (record_event env CeRisk message data) (\<lambda>_. then_c (command_persist env []) (\<lambda>_. ret_c (AutoRejected message)))"

definition duplicate_events :: "('g, 'p) command_env \<Rightarrow> strategy_signal \<Rightarrow> nat \<Rightarrow> scenario_event list" where
  "duplicate_events env g n =
     bind_event env (''duplicate-'' @ xe_uuid env n) ''DUPLICATE_ORDER_CHECKED'' (sg_timestamp g) None @
     bind_event env (''fault-duplicate-signal-'' @ xe_uuid env n) ''FAULT_SCENARIO_PASSED'' (sg_timestamp g) (Some ''DUPLICATE_SIGNAL'')"

definition signal_quantity :: "jsnum \<Rightarrow> strategy_signal \<Rightarrow> regime_decision option \<Rightarrow> jsnum \<Rightarrow> jsnum" where
  "signal_quantity positionQuantity g regime configured =
     (if sg_type g = SELL then js_min positionQuantity configured
      else case regime of None \<Rightarrow> configured | Some d \<Rightarrow> configured * rg_positionSizeMultiplier (rd_risk d))"

definition execute_signal ::
  "('g, 'p) command_env \<Rightarrow> string \<Rightarrow> jsnum \<Rightarrow> strategy_signal \<Rightarrow> jsnum \<Rightarrow> command_metadata \<Rightarrow>
    (automatic_result, ('g, 'p) command_state) command" where
  "execute_signal env market price g quantity m s =
     (let strategyId = strategy_id (se_strategy (xs_strategy s));
          side = (if sg_type g = SELL then Sell else Buy);
          run = then_c (requireRiskApproval env (signal_command env market g strategyId quantity price m)) (\<lambda>_.
            broker_execute env side quantity price (Some strategyId))
      in case run s of
           (Inl e, t) \<Rightarrow> reject_signal env (js_message e) None t
         | (Inr order, t) \<Rightarrow>
           then_c (recordOrder env order (Some (sg_timestamp g))) (\<lambda>_.
           then_c (record_event env CeOrder (''automatic '' @ signal_name (sg_type g) @ '' filled'') (Some (AdOrder order))) (\<lambda>_.
           then_c (command_persist env (order_evidence env order)) (\<lambda>_. ret_c (AutoFilled order)))) t)"

definition claimed_signal ::
  "('g, 'p) command_env \<Rightarrow> string \<Rightarrow> jsnum \<Rightarrow> jsnum \<Rightarrow> strategy_signal \<Rightarrow> command_metadata \<Rightarrow>
    (automatic_result, ('g, 'p) command_state) command" where
  "claimed_signal env market price positionQuantity g m s =
     (if sg_type g = SELL \<and> positionQuantity \<le> Fin 0 then reject_signal env ''insufficient paper position'' None s
      else case (case sg_regime g of None \<Rightarrow> Inr None
          | Some r \<Rightarrow> bind_r (evaluateStrategyRegime (strategy_id (se_strategy (xs_strategy s))) r) (\<lambda>d. Inr (Some d))) of
        Inl e \<Rightarrow> (Inl e, s)
      | Inr regime \<Rightarrow>
        (case regime of
           Some d \<Rightarrow>
             if sg_type g = BUY \<and> \<not> rd_allowNewExposure d
             then reject_signal env (rd_reason d @ '':'' @ regime_name (rd_regime d)) (Some (AdRegime d)) s
             else (let q = signal_quantity positionQuantity g regime (cp_orderQuantity (xs_control s))
               in if q \<le> Fin 0 then reject_signal env ''regime risk profile reduced order quantity to zero'' (Some (AdRegime d)) s
                  else execute_signal env market price g q m s)
         | None \<Rightarrow>
             (let q = signal_quantity positionQuantity g regime (cp_orderQuantity (xs_control s))
              in if q \<le> Fin 0 then reject_signal env ''regime risk profile reduced order quantity to zero'' None s
                 else execute_signal env market price g q m s)))"

definition signal_body ::
  "('g, 'p) command_env \<Rightarrow> string \<Rightarrow> jsnum \<Rightarrow> jsnum \<Rightarrow> strategy_signal \<Rightarrow> command_metadata \<Rightarrow>
    (automatic_result, ('g, 'p) command_state) command" where
  "signal_body env market price positionQuantity g m =
     then_c (record_event env CeSignal (signal_name (sg_type g) @ '': '' @ sg_reason g) (Some (AdSignal g))) (\<lambda>_ s.
       if \<not> canAutoTrade (xs_control s) \<or> sg_type g = HOLD
       then then_c (command_persist env []) (\<lambda>_. ret_c AutoSkipped) s
       else case (case xe_readiness env of None \<Rightarrow> Inr None | Some f \<Rightarrow> bind_r (f (xs_tick s)) (\<lambda>d. Inr (Some d))) of
         Inl e \<Rightarrow> (Inl e, s)
       | Inr readiness \<Rightarrow>
         (case (case readiness of
                  Some d \<Rightarrow> if rn_action d = ReadinessHalt \<or> sg_type g = BUY \<and> rn_action d \<noteq> AllowNewEntries then Some d else None
                | None \<Rightarrow> None) of
            Some d \<Rightarrow> reject_signal env (''operational readiness blocked '' @ signal_name (sg_type g) @ '': '' @ join_with '','' (rn_reasons d))
              (Some (AdReadiness d)) s
          | None \<Rightarrow>
            then_c (on_control env (\<lambda>_. claimAutomaticSignal (signal_key env market g))) (\<lambda>fresh t.
              if fresh then claimed_signal env market price positionQuantity g m t
              else then_c (command_persist env (duplicate_events env g (xs_tick t))) (\<lambda>_. ret_c AutoDuplicate) t) s))"

definition automaticSignal ::
  "('g, 'p) command_env \<Rightarrow> string \<Rightarrow> jsnum \<Rightarrow> jsnum \<Rightarrow> strategy_signal \<Rightarrow> command_metadata \<Rightarrow>
    (automatic_result, ('g, 'p) command_state) command" where
  "automaticSignal env market price positionQuantity g m s =
     (if \<not> xs_available s then (Inr AutoSkipped, s)
      else catch_c (signal_body env market price positionQuantity g m) (\<lambda>_.
        then_c (emit_diagnostic (MutationFailed ''automatic signal'')) (\<lambda>_.
        then_c (restoreAfterFailure (command_capture s) ''automatic signal'') (\<lambda>_.
        then_c (failClosed env ''automatic signal'') (\<lambda>_.
        then_c (emit_diagnostic AutomaticBlocked) (\<lambda>_. ret_c (AutoRejected REPAIR_MESSAGE)))))) s)"

end
