(* ===== verification/CommandSafety.thy ===== *)
theory CommandSafety imports CommandService begin

text \<open>
  The commands of \<open>CommandService\<close> are transactions: a refused command leaves account, control plane
  and strategy as they were, a successful one was saved as it is in memory, a failing store closes the
  service for good with the strategy stopped and the plane faulted; and what an automatic fill needs.
  The last section shows the exception: the replay cursor of the broker is not rolled back.
\<close>

section \<open>Rules of the command combinators\<close>

definition keeps :: "('s \<Rightarrow> 's \<Rightarrow> bool) \<Rightarrow> ('a, 's) command \<Rightarrow> bool" where
  "keeps R m \<longleftrightarrow> (\<forall>s. R s (snd (m s)))"

lemma keepsD: "keeps R m \<Longrightarrow> m s = (r, t) \<Longrightarrow> R s t"
  unfolding keeps_def by (metis snd_conv)

lemma keeps_snd: "keeps R m \<Longrightarrow> R s (snd (m s))"
  by (simp add: keeps_def)

lemma keeps_ret [intro]: "reflp R \<Longrightarrow> keeps R (ret_c x)" "reflp R \<Longrightarrow> keeps R (lift_c r)"
  by (simp_all add: keeps_def ret_c_def lift_c_def reflpD)

lemma keeps_then [intro]:
  assumes "transp R" "keeps R m" "\<And>x. keeps R (k x)"
  shows "keeps R (then_c m k)"
proof -
  have "R s (snd (then_c m k s))" for s
  proof (cases "m s")
    case (Pair r t)
    have t: "R s t" using assms(2) Pair by (rule keepsD)
    show ?thesis
    proof (cases r)
      case (Inr x)
      have "R t (snd (k x t))" using assms(3) [of x] by (simp add: keeps_def)
      then show ?thesis using t Inr Pair transpD [OF assms(1)] by (simp add: then_c_def)
    qed (use t Pair in \<open>simp add: then_c_def\<close>)
  qed
  then show ?thesis by (simp add: keeps_def)
qed

lemma then_c_Inr: "then_c m k s = (Inr y, t) \<longleftrightarrow> (\<exists>x u. m s = (Inr x, u) \<and> k x u = (Inr y, t))"
  by (auto simp: then_c_def split: prod.split sum.split)

lemma then_c_simps [simp]:
  "m s = (Inr x, t) \<Longrightarrow> then_c m k s = k x t" "m s = (Inl e, t) \<Longrightarrow> then_c m k s = (Inl e, t)"
  by (simp_all add: then_c_def)

section \<open>What a mutation leaves alone\<close>

definition frame :: "('g, 'p) command_state \<Rightarrow> ('g, 'p) command_state \<Rightarrow> bool" where
  "frame s t \<longleftrightarrow>
     pb_feeRate (xs_broker t) = pb_feeRate (xs_broker s) \<and> pb_riskPolicy (xs_broker t) = pb_riskPolicy (xs_broker s) \<and>
     pp_market (pb_position (xs_broker t)) = pp_market (pb_position (xs_broker s)) \<and>
     cp_strategyId (xs_control t) = cp_strategyId (xs_control s) \<and> cp_maxEvents (xs_control t) = cp_maxEvents (xs_control s) \<and>
     (\<exists>r. xs_strategy t = (xs_strategy s)\<lparr>se_running := r\<rparr>) \<and> xs_available t = xs_available s \<and>
     xs_persistence t = xs_persistence s"

lemma frame_refl: "reflp frame"
proof (rule reflpI)
  fix s :: "('g, 'p) command_state"
  have "xs_strategy s = (xs_strategy s)\<lparr>se_running := se_running (xs_strategy s)\<rparr>" by simp
  then show "frame s s" unfolding frame_def by blast
qed

lemma frame_trans: "transp frame"
  by (rule transpI) (auto simp: frame_def)

lemmas frame_rules = frame_refl frame_trans

lemma frame_broker: "keeps frame (broker_execute env side q p i)"
proof -
  have "frame s (snd (broker_execute env side q p i s))" for s :: "('a, 'b) command_state"
  proof (cases rule: execute_cases [of "xe_isoText env" side q p "Some (xe_now env (xs_tick s))" i "xs_broker s"])
    case refused
    then show ?thesis using reflpD [OF frame_refl, of s] by (simp add: broker_execute_def frame_def)
  next
    case corrupt
    then show ?thesis using reflpD [OF frame_refl, of s] by (simp add: broker_execute_def frame_def)
  next
    case filled
    then show ?thesis using reflpD [OF frame_refl, of s] by (simp add: broker_execute_def frame_def)
  qed
  then show ?thesis by (simp add: keeps_def)
qed

definition control_frame :: "(clock \<Rightarrow> audit_plane \<Rightarrow> 'a result \<times> audit_plane) \<Rightarrow> bool" where
  "control_frame f \<longleftrightarrow> (\<forall>c p. cp_strategyId (snd (f c p)) = cp_strategyId p \<and> cp_maxEvents (snd (f c p)) = cp_maxEvents p)"

lemma record_strategyId [simp]:
  "cp_strategyId (snd (control_record c t m d p)) = cp_strategyId p" "cp_strategyId (snd (record_unit c t m p)) = cp_strategyId p"
  by (simp_all add: record_unit_def control_record_def Let_def split_beta split: sum.split)

lemma control_frames:
  "control_frame control_start" "control_frame control_stop" "control_frame (\<lambda>c. setAutoTrade c b)"
  "control_frame (\<lambda>c. setOrderQuantity n c q)" "control_frame (\<lambda>c. control_record c t m d)"
  "control_frame (\<lambda>c. claimAutomaticSignal k)" "control_frame (\<lambda>c. control_fault c msg)"
  by (simp_all add: control_frame_def control_start_def control_stop_def setAutoTrade_def setOrderQuantity_def control_fault_def
      claimAutomaticSignal_def Let_def split: sum.split)

lemma frame_control: "control_frame f \<Longrightarrow> keeps frame (on_control env f)"
  using reflpD [OF frame_refl] unfolding keeps_def control_frame_def
  by (auto simp: on_control_def frame_def split_beta)

lemma frame_record: "keeps frame (record_event env t m d)"
  unfolding record_event_def by (intro keeps_then frame_rules frame_control control_frames keeps_ret)

lemma frame_gate: "keeps frame (requireRiskApproval env c)" "keeps frame (recordOrder env order n)"
  using reflpD [OF frame_refl]
  by (auto simp: keeps_def requireRiskApproval_def recordOrder_def frame_def split_beta split: option.split)

lemma frame_strategy: "keeps frame (on_strategy engine_start)" "keeps frame (on_strategy engine_stop)"
  by (auto simp: keeps_def on_strategy_def frame_def engine_start_def engine_stop_def)

lemma frame_order_mutation: "keeps frame (order_mutation env path label side q p m)"
  unfolding order_mutation_def
  by (intro keeps_then frame_rules frame_gate frame_broker frame_record keeps_ret)

lemma frame_stop: "keeps frame (stop_mutation env)"
proof -
  have "keeps frame (\<lambda>s. (guard_r (se_running (xs_strategy s) \<or> cp_status (xs_control s) \<noteq> CtlStopped \<or> cp_autoTradeEnabled (xs_control s))
       (Error ''kill switch did not reach a safe stopped state'') (Inr ()), s :: ('a, 'b) command_state))"
    by (simp add: keeps_def reflpD [OF frame_refl])
  then show ?thesis unfolding stop_mutation_def
    by (intro keeps_then frame_rules frame_strategy frame_control control_frames)
qed

lemma frame_evidence: "keeps frame (no_evidence x)" "keeps frame (stop_evidence env)"
  using reflpD [OF frame_refl] by (auto simp: keeps_def no_evidence_def ret_c_def stop_evidence_def frame_def split: option.split)

section \<open>Rolling back\<close>

text \<open>The state that a rollback has to give back, and a service in which it can: the broker's ledger replays to its
  state, and the control plane is within its bounds.\<close>

definition control_ok :: "audit_plane \<Rightarrow> bool" where
  "control_ok p \<longleftrightarrow>
     (\<exists>n. cp_maxEvents p = Fin (of_nat n) \<and> length (cp_events p) \<le> n \<and> length (cp_processedSignalKeys p) \<le> n) \<and>
     is_finite (cp_orderQuantity p) \<and> \<not> cp_orderQuantity p \<le> Fin 0"

definition broker_synced :: "paper_broker \<Rightarrow> bool" where
  "broker_synced b \<longleftrightarrow>
     (\<exists>cash market fee policy fill. paper_ok cash market fee policy fill b \<and> (\<exists>r. replay_ledger cash (pb_ledger b) = Inr r)) \<and>
     (\<exists>r. replay_start (pb_cash b) = Inr r)"


lemma slice_to_all: "length xs \<le> n \<Longrightarrow> slice_to xs (Fin (of_nat n)) = xs"
  by (simp add: slice_to_def)

lemma restore_control:
  assumes "control_ok p" "cp_strategyId q = cp_strategyId p" "cp_maxEvents q = cp_maxEvents p"
  shows "restoreRuntimeState (exportRuntimeState p) q = Inr p"
  using assms slice_to_all
  by (cases p; cases q) (auto simp: control_ok_def restoreRuntimeState_def exportRuntimeState_def control_exportState_def Let_def)


lemma restoreAfterFailure_returns:
  "\<exists>d u. restoreAfterFailure snap name t = (Inr (), u\<lparr>xs_diagnostics := d\<rparr>) \<and> u = snd (command_restore snap t)"
proof (cases "command_restore snap t")
  case (Pair r u)
  then show ?thesis
    by (cases r) (auto simp: restoreAfterFailure_def catch_c_def then_c_def emit_diagnostic_def)
qed


text \<open>A state in which the service is closed: no order is executed any more, the strategy is stopped.\<close>

definition closed_down :: "('g, 'p) command_state \<Rightarrow> bool" where
  "closed_down s \<longleftrightarrow> \<not> xs_available s \<and> \<not> se_running (xs_strategy s)"

lemma failClosed_closes: "closed_down (snd (failClosed env name t))"
  by (simp add: failClosed_def then_c_def on_strategy_def on_control_def emit_diagnostic_def closed_down_def engine_stop_def
      split_beta split: sum.split)


section \<open>Transactions\<close>

text \<open>A saved state: the store accepted exactly what is in memory.\<close>

definition saved :: "('g, 'p) command_env \<Rightarrow> ('g, 'p) command_state \<Rightarrow> bool" where
  "saved env t \<longleftrightarrow>
     (\<exists>p. let b = PaperBroker_exportState (xs_broker t); c = control_exportState (xs_control t) in
        xe_save env b c p = (Inr (), xs_persistence t) \<or>
        (\<exists>f e. xe_saveWithScenarioEvent env = Some f \<and> f b c e p = (Inr (), xs_persistence t)) \<or>
        (\<exists>f es. xe_saveWithScenarioEvents env = Some f \<and> f b c es p = (Inr (), xs_persistence t)))"

lemma command_persist_saved:
  assumes "command_persist env events s = (Inr u, t)"
  shows "saved env t \<and> xs_broker t = xs_broker s \<and> xs_control t = xs_control s \<and> xs_strategy t = xs_strategy s \<and>
    xs_available t = xs_available s"
proof -
  let ?b = "PaperBroker_exportState (xs_broker s)" and ?c = "control_exportState (xs_control s)"
  obtain f where f: "f (xs_persistence s) = (Inr (), xs_persistence t)" "t = s\<lparr>xs_persistence := xs_persistence t\<rparr>"
    "f = xe_save env ?b ?c \<or> (\<exists>g e. xe_saveWithScenarioEvent env = Some g \<and> f = g ?b ?c e) \<or>
     (\<exists>g es. xe_saveWithScenarioEvents env = Some g \<and> f = g ?b ?c es)"
  proof (cases "1 < length events")
    case True
    then obtain g where g: "xe_saveWithScenarioEvents env = Some g"
      using assms by (cases "xe_saveWithScenarioEvents env") (auto simp: command_persist_def throw_def)
    then show thesis using assms True by (intro that [of "g ?b ?c events"]) (auto simp: command_persist_def split: prod.splits)
  next
    case False
    show thesis
    proof (cases "\<exists>e g. events = [e] \<and> xe_saveWithScenarioEvent env = Some g")
      case True
      then obtain e g where "events = [e]" "xe_saveWithScenarioEvent env = Some g" by blast
      then show thesis using assms by (intro that [of "g ?b ?c e"]) (auto simp: command_persist_def split: prod.splits)
    next
      case no: False
      have "command_persist env events s = (case xe_save env ?b ?c (xs_persistence s) of (r, p) \<Rightarrow> (r, s\<lparr>xs_persistence := p\<rparr>))"
        using False no by (cases events; cases "tl events"; cases "xe_saveWithScenarioEvent env") (auto simp: command_persist_def Let_def)
      then show thesis using assms by (intro that [of "xe_save env ?b ?c"]) (auto split: prod.splits)
    qed
  qed
  have same: "xs_broker t = xs_broker s" "xs_control t = xs_control s" "xs_strategy t = xs_strategy s" "xs_available t = xs_available s"
    by (subst f(2), simp)+
  show ?thesis unfolding saved_def Let_def same using f(1,3) by auto
qed

lemma command_persist_frame:
  "command_persist env events s = (r, t) \<Longrightarrow> xs_broker t = xs_broker s \<and> xs_control t = xs_control s \<and>
    xs_strategy t = xs_strategy s \<and> xs_available t = xs_available s"
  by (auto simp: command_persist_def Let_def split: prod.splits if_splits option.splits list.splits)


text \<open>Rolling back and closing the service, after anything that kept the frame.\<close>

lemma frame_persistence: "frame s t \<Longrightarrow> frame s (t\<lparr>xs_persistence := p\<rparr>) = (p = xs_persistence s)"
  by (auto simp: frame_def)




definition quiet :: "('g, 'p) command_state \<Rightarrow> ('g, 'p) command_state \<Rightarrow> bool" where
  "quiet s t \<longleftrightarrow> xs_broker t = xs_broker s \<and> xs_control t = xs_control s \<and> xs_strategy t = xs_strategy s \<and>
     xs_available t = xs_available s \<and> xs_persistence t = xs_persistence s"

lemma quiet_evidence: "keeps quiet (no_evidence x)" "keeps quiet (stop_evidence env)" "keeps quiet (ret_c y)"
  by (auto simp: keeps_def no_evidence_def ret_c_def stop_evidence_def quiet_def split: option.split)




lemma commit_failed:
  assumes "xs_available s" "m s = (Inl e, u)"
  shows "commit env name m ev s = then_c (command_restore (command_capture s)) (\<lambda>_. lift_c (Inl e)) u"
  using assms by (simp add: commit_def)




section \<open>The commands are atomic\<close>

datatype service_call =
  CallManual paper_side jsnum jsnum command_metadata | CallReplay paper_side jsnum jsnum command_metadata
| CallStart | CallStop | CallAutoTrade bool | CallQuantity jsnum

definition forget :: "('a, 's) command \<Rightarrow> (unit, 's) command" where
  "forget m s = (case m s of (r, t) \<Rightarrow> (bind_r r (\<lambda>_. Inr ()), t))"

fun run_command :: "('g, 'p) command_env \<Rightarrow> service_call \<Rightarrow> (unit, ('g, 'p) command_state) command" where
  "run_command env (CallManual side q p m) = forget (manualOrder env side q p m)"
| "run_command env (CallReplay side q p m) = forget (replayOrder env side q p m)"
| "run_command env CallStart = command_start env"
| "run_command env CallStop = command_stop env"
| "run_command env (CallAutoTrade b) = command_setAutoTrade env b"
| "run_command env (CallQuantity q) = command_setOrderQuantity env q"

text \<open>Every call is a commit of a mutation that keeps the frame.\<close>

lemma run_command_commit:
  fixes env :: "('g, 'p) command_env"
  obtains (order) name and m :: "(paper_order, ('g, 'p) command_state) command" and ev where
      "run_command env c = forget (commit env name m ev)" "keeps frame m" "\<And>x. keeps quiet (ev x)"
  | (plain) name and m :: "(unit, ('g, 'p) command_state) command" and ev where
      "run_command env c = commit env name m ev" "keeps frame m" "\<And>x. keeps quiet (ev x)"
proof (cases c)
  case (CallManual side q p m)
  have "run_command env c = forget (commit env ''manual paper order'' (order_mutation env CpManual ''manual '' side q p m)
      (\<lambda>order. ret_c (order_evidence env order)))" using CallManual by (simp add: manualOrder_def)
  then show ?thesis by (rule order [OF _ frame_order_mutation quiet_evidence(3)])
next
  case (CallReplay side q p m)
  have "run_command env c = forget (commit env ''reconnect paper order replay''
      (order_mutation env CpReconnectReplay ''reconnect replay '' side q p m) (\<lambda>order. ret_c (order_evidence env order)))"
    using CallReplay by (simp add: replayOrder_def)
  then show ?thesis by (rule order [OF _ frame_order_mutation quiet_evidence(3)])
next
  case CallStart
  have f: "keeps frame (then_c (on_strategy engine_start) (\<lambda>_. on_control env control_start))"
    by (intro keeps_then frame_rules frame_strategy frame_control control_frames)
  have e: "run_command env c = commit env ''control start'' (then_c (on_strategy engine_start) (\<lambda>_. on_control env control_start)) no_evidence"
    using CallStart by (simp add: command_start_def)
  show ?thesis by (rule plain [OF e f quiet_evidence(1)])
next
  case CallStop
  have e: "run_command env c = commit env ''control stop'' (stop_mutation env) (\<lambda>_. stop_evidence env)"
    using CallStop by (simp add: command_stop_def)
  show ?thesis by (rule plain [OF e frame_stop quiet_evidence(2)])
next
  case (CallAutoTrade b)
  have f: "keeps frame (on_control env (\<lambda>c. setAutoTrade c b))" by (intro frame_control control_frames)
  have e: "run_command env c = commit env ''control auto'' (on_control env (\<lambda>c. setAutoTrade c b)) no_evidence"
    using CallAutoTrade by (simp add: command_setAutoTrade_def)
  show ?thesis by (rule plain [OF e f quiet_evidence(1)])
next
  case (CallQuantity q)
  have f: "keeps frame (on_control env (\<lambda>c. setOrderQuantity (xe_numText env) c q))" by (intro frame_control control_frames)
  have e: "run_command env c = commit env ''control quantity'' (on_control env (\<lambda>c. setOrderQuantity (xe_numText env) c q)) no_evidence"
    using CallQuantity by (simp add: command_setOrderQuantity_def)
  show ?thesis by (rule plain [OF e f quiet_evidence(1)])
qed


section \<open>A closed service stays closed\<close>

definition same_open :: "('g, 'p) command_state \<Rightarrow> ('g, 'p) command_state \<Rightarrow> bool" where
  "same_open s t \<longleftrightarrow> xs_available t = xs_available s"

lemma same_open_rules: "reflp same_open" "transp same_open"
  by (auto intro!: reflpI transpI simp: same_open_def)

lemma keeps_mono: "keeps R m \<Longrightarrow> (\<And>s t. R s t \<Longrightarrow> Q s t) \<Longrightarrow> keeps Q m"
  by (simp add: keeps_def)

lemma frame_open: "keeps frame m \<Longrightarrow> keeps same_open m"
  by (erule keeps_mono) (simp add: frame_def same_open_def)

lemma persist_open: "keeps same_open (command_persist env events)"
  unfolding keeps_def same_open_def by (metis command_persist_frame surjective_pairing)

lemma restore_open: "keeps same_open (command_restore snap)"
  by (auto simp: keeps_def same_open_def command_restore_def split: sum.split)

lemma reject_open: "keeps same_open (reject_signal env msg d)"
  unfolding reject_signal_def by (intro keeps_then same_open_rules frame_open frame_record persist_open keeps_ret)

lemma execute_open: "keeps same_open (execute_signal env market price g q m)"
proof -
  have "same_open s (snd (execute_signal env market price g q m s))" for s :: "('a, 'b) command_state"
  proof -
    let ?i = "strategy_id (se_strategy (xs_strategy s))"
    let ?run = "then_c (requireRiskApproval env (signal_command env market g ?i q price m)) (\<lambda>_.
            broker_execute env (if sg_type g = SELL then Sell else Buy) q price (Some ?i))"
    let ?rest = "\<lambda>order. then_c (recordOrder env order (Some (sg_timestamp g))) (\<lambda>_.
           then_c (record_event env CeOrder (''automatic '' @ signal_name (sg_type g) @ '' filled'') (Some (AdOrder order))) (\<lambda>_.
           then_c (command_persist env (order_evidence env order)) (\<lambda>_. ret_c (AutoFilled order))))"
    have run: "keeps same_open ?run" by (intro keeps_then same_open_rules frame_open frame_gate frame_broker)
    have rest: "keeps same_open (?rest order)" for order
      by (intro keeps_then same_open_rules frame_open frame_gate frame_record persist_open keeps_ret)
    obtain r t where r: "?run s = (r, t)" by force
    have st: "same_open s t" using run r by (rule keepsD)
    show ?thesis
    proof (cases r)
      case (Inl e)
      have "same_open t (snd (reject_signal env (js_message e) None t))" by (rule keeps_snd [OF reject_open])
      then show ?thesis using Inl r st transpD [OF same_open_rules(2)] by (simp add: execute_signal_def Let_def)
    next
      case (Inr order)
      have "same_open t (snd (?rest order t))" by (rule keeps_snd [OF rest])
      then show ?thesis using Inr r st transpD [OF same_open_rules(2)] by (simp add: execute_signal_def Let_def)
    qed
  qed
  then show ?thesis by (simp add: keeps_def)
qed

lemma claimed_open: "keeps same_open (claimed_signal env market price pos g m)"
  unfolding keeps_def claimed_signal_def Let_def
  by (auto split: sum.split option.split intro: keeps_snd [OF reject_open] keeps_snd [OF execute_open] reflpD [OF same_open_rules(1)])

lemma signal_open: "keeps same_open (signal_body env market price pos g m)"
proof -
  have c: "keeps same_open (then_c (on_control env (\<lambda>_. claimAutomaticSignal (signal_key env market g))) (\<lambda>fresh t.
              if fresh then claimed_signal env market price pos g m t
              else then_c (command_persist env (duplicate_events env g (xs_tick t))) (\<lambda>_. ret_c AutoDuplicate) t))"
  proof (rule keeps_then [OF same_open_rules(2) frame_open [OF frame_control [OF control_frames(6)]]])
    fix fresh
    have p: "keeps same_open (then_c (command_persist env ev) (\<lambda>_. ret_c AutoDuplicate))" for ev
      by (intro keeps_then same_open_rules persist_open keeps_ret)
    show "keeps same_open (\<lambda>t. if fresh then claimed_signal env market price pos g m t
              else then_c (command_persist env (duplicate_events env g (xs_tick t))) (\<lambda>_. ret_c AutoDuplicate) t)"
      unfolding keeps_def by (auto intro: keeps_snd [OF p] keeps_snd [OF claimed_open])
  qed
  have s: "keeps same_open (then_c (command_persist env []) (\<lambda>_. ret_c AutoSkipped))"
    by (intro keeps_then same_open_rules persist_open keeps_ret)
  show ?thesis unfolding signal_body_def
    by (rule keeps_then [OF same_open_rules(2) frame_open [OF frame_record]])
      (auto simp: keeps_def split: sum.split option.split intro: keeps_snd [OF reject_open] keeps_snd [OF c] keeps_snd [OF s]
        reflpD [OF same_open_rules(1)])
qed

text \<open>Closing never leaves a running strategy behind, also when the rollback or the fault itself throws.\<close>

definition open_or_closed :: "('g, 'p) command_state \<Rightarrow> bool" where
  "open_or_closed s \<longleftrightarrow> xs_available s \<or> closed_down s"

lemma closing_closes:
  assumes "\<And>t. closed_down t \<Longrightarrow> closed_down (snd (k () t))"
  shows "closed_down (snd (then_c (emit_diagnostic d) (\<lambda>_. then_c (restoreAfterFailure snap name) (\<lambda>_. then_c (failClosed env name) k)) t))"
proof -
  obtain u where u: "restoreAfterFailure snap name (t\<lparr>xs_diagnostics := xs_diagnostics t @ [d]\<rparr>) = (Inr (), u)"
    using restoreAfterFailure_returns by blast
  obtain r v where v: "failClosed env name u = (r, v)" by force
  have "closed_down v" using failClosed_closes [of env name u] v by simp
  then show ?thesis using u v assms by (cases r) (simp_all add: then_c_def emit_diagnostic_def)
qed

lemma commit_open:
  fixes m :: "('a, ('g, 'p) command_state) command"
  assumes "open_or_closed s" "keeps same_open m" "\<And>x. keeps same_open (ev x)"
  shows "open_or_closed (snd (commit env name m ev s))"
proof (cases "xs_available s")
  case True
  obtain r u where m: "m s = (r, u)" by force
  have u: "xs_available u" using keepsD [OF assms(2) m] True by (simp add: same_open_def)
  show ?thesis
  proof (cases r)
    case (Inl e)
    have "same_open u (snd (then_c (command_restore (command_capture s)) (\<lambda>_. lift_c (Inl e :: 'a result)) u))"
      by (rule keeps_snd [OF keeps_then [OF same_open_rules(2) restore_open keeps_ret(2) [OF same_open_rules(1)]]])
    moreover have "commit env name m ev s = then_c (command_restore (command_capture s)) (\<lambda>_. lift_c (Inl e)) u"
      using True m Inl by (intro commit_failed) simp_all
    ultimately show ?thesis using u by (simp add: same_open_def open_or_closed_def)
  next
    case (Inr x)
    have k: "keeps same_open (then_c (ev x) (\<lambda>events. then_c (command_persist env events) (\<lambda>_. ret_c x)))"
      by (intro keeps_then same_open_rules persist_open keeps_ret assms(3))
    obtain q v where q: "then_c (ev x) (\<lambda>events. then_c (command_persist env events) (\<lambda>_. ret_c x)) u = (q, v)" by force
    have "xs_available v" using keepsD [OF k q] u by (simp add: same_open_def)
    then show ?thesis
      using m Inr True q closing_closes [of "\<lambda>_. lift_c (throw REPAIR_MESSAGE :: 'a result)" "MutationFailed name" "command_capture s" name env v]
      by (cases q) (simp_all add: commit_def catch_c_def open_or_closed_def lift_c_def)
  qed
qed (use assms(1) in \<open>simp add: commit_def\<close>)

lemma quiet_open: "keeps quiet m \<Longrightarrow> keeps same_open m"
  by (erule keeps_mono) (simp add: quiet_def same_open_def)

inductive service_run :: "('g, 'p) command_env \<Rightarrow> ('g, 'p) command_state \<Rightarrow> ('g, 'p) command_state \<Rightarrow> bool" for env s where
  run_none: "service_run env s s"
| run_call: "service_run env s t \<Longrightarrow> service_run env s (snd (run_command env c t))"
| run_signal: "service_run env s t \<Longrightarrow> service_run env s (snd (automaticSignal env market price pos g m t))"
| run_unavailable: "service_run env s t \<Longrightarrow> service_run env s (snd (markUnavailable t))"

lemma call_open: "open_or_closed s \<Longrightarrow> open_or_closed (snd (run_command env c s))"
proof (cases rule: run_command_commit [of env c])
  case (order name m ev)
  assume "open_or_closed s"
  then have "open_or_closed (snd (commit env name m ev s))"
    by (rule commit_open) (use order in \<open>auto intro: frame_open quiet_open\<close>)
  then show ?thesis using order(1) by (simp add: forget_def split_beta)
next
  case (plain name m ev)
  assume "open_or_closed s"
  then show ?thesis unfolding plain(1) by (rule commit_open) (use plain in \<open>auto intro: frame_open quiet_open\<close>)
qed

lemma automatic_open:
  assumes "open_or_closed s"
  shows "open_or_closed (snd (automaticSignal env market price pos g m s))"
proof (cases "xs_available s")
  case True
  obtain r t where r: "signal_body env market price pos g m s = (r, t)" by force
  have "xs_available t" using keepsD [OF signal_open r] True by (simp add: same_open_def)
  moreover have "closed_down u \<Longrightarrow> closed_down (snd (then_c (emit_diagnostic AutomaticBlocked) (\<lambda>_. ret_c (AutoRejected REPAIR_MESSAGE)) u))"
    for u :: "('a, 'b) command_state"
    by (simp add: then_c_def emit_diagnostic_def ret_c_def closed_down_def)
  ultimately show ?thesis
    using r True closing_closes [of "\<lambda>_. then_c (emit_diagnostic AutomaticBlocked) (\<lambda>_. ret_c (AutoRejected REPAIR_MESSAGE))"
        "MutationFailed ''automatic signal''" "command_capture s" "''automatic signal''" env t]
    by (cases r) (simp_all add: automaticSignal_def catch_c_def open_or_closed_def)
qed (use assms in \<open>simp add: automaticSignal_def\<close>)

lemma closed_call: "closed_down s \<Longrightarrow> run_command env c s = (throw REPAIR_MESSAGE, s)"
  by (cases rule: run_command_commit [of env c]) (simp_all add: forget_def commit_def closed_down_def throw_def)

lemma closed_run: "service_run env s t \<Longrightarrow> closed_down s \<Longrightarrow> t = s"
proof (induction rule: service_run.induct)
  case (run_unavailable t)
  then have "xs_strategy s = (xs_strategy s)\<lparr>se_running := False\<rparr>" by (simp add: closed_down_def)
  then show ?case using run_unavailable by (simp add: markUnavailable_def closed_down_def engine_stop_def)
qed (simp_all add: closed_call automaticSignal_def closed_down_def)

text \<open>Whatever commands, signals and store failures follow, a service is open, or closed with its strategy stopped; and once
  it is closed nothing changes its account, control plane or strategy any more.\<close>

theorem closed_service_stays_closed:
  assumes "service_run env s t" "xs_available s"
  shows "(xs_available t \<or> closed_down t) \<and> (closed_down t \<longrightarrow> (\<forall>u. service_run env t u \<longrightarrow> u = t))"
proof -
  have "open_or_closed t" using assms
  proof (induction rule: service_run.induct)
    case run_none
    then show ?case by (simp add: open_or_closed_def)
  next
    case (run_call t c)
    then show ?case by (simp add: call_open)
  next
    case (run_signal t market price pos g m)
    then show ?case by (simp add: automatic_open)
  next
    case (run_unavailable t)
    then show ?case by (simp add: markUnavailable_def open_or_closed_def closed_down_def engine_stop_def)
  qed
  then show ?thesis using closed_run by (auto simp: open_or_closed_def)
qed

section \<open>What an automatic fill needs\<close>

lemma catch_filled:
  assumes "catch_c m h s = (Inr (AutoFilled o'), t)" "\<And>e u r v. h e u = (r, v) \<Longrightarrow> r \<noteq> Inr (AutoFilled o')"
  shows "m s = (Inr (AutoFilled o'), t)"
  using assms(1) assms(2) by (auto simp: catch_c_def split: prod.splits sum.splits)

lemma reject_not_filled: "reject_signal env msg d s = (Inr x, t) \<Longrightarrow> x = AutoRejected msg"
  by (auto simp: reject_signal_def then_c_Inr ret_c_def)

lemma recordOrder_keeps:
  "recordOrder env order n s = (r, t) \<Longrightarrow> xs_broker t = xs_broker s \<and> xs_control t = xs_control s"
  by (auto simp: recordOrder_def split: option.splits prod.splits)

lemma record_event_keeps:
  "record_event env ty m d s = (Inr u, t) \<Longrightarrow> xs_broker t = xs_broker s \<and> xs_strategy t = xs_strategy s \<and> xs_gate t = xs_gate s \<and>
    xs_tick t = xs_tick s + 1 \<and> cp_status (xs_control t) = cp_status (xs_control s) \<and>
    cp_autoTradeEnabled (xs_control t) = cp_autoTradeEnabled (xs_control s) \<and>
    cp_orderQuantity (xs_control t) = cp_orderQuantity (xs_control s) \<and>
    cp_processedSignalKeys (xs_control t) = cp_processedSignalKeys (xs_control s)"
proof -
  assume "record_event env ty m d s = (Inr u, t)"
  then have "t = s\<lparr>xs_control := snd (control_record (xe_clock env (xs_tick s)) ty m d (xs_control s)), xs_tick := xs_tick s + 1\<rparr>"
    by (auto simp: record_event_def then_c_Inr ret_c_def on_control_def split_beta)
  then show ?thesis by simp
qed

lemma approval_Inr:
  "requireRiskApproval env c s = (Inr u, t) \<Longrightarrow> \<exists>codes g. xe_evaluate env c (xs_gate s) = (Inr (GateAllow, codes), g) \<and> t = s\<lparr>xs_gate := g\<rparr>"
  by (auto simp: requireRiskApproval_def result_simps split: prod.splits)

lemma execute_signal_filled:
  assumes "execute_signal env market price g q m s = (Inr (AutoFilled order), t)"
  shows "(\<exists>codes gt. xe_evaluate env (signal_command env market g (strategy_id (se_strategy (xs_strategy s))) q price m) (xs_gate s) =
      (Inr (GateAllow, codes), gt)) \<and>
    PaperBroker_execute (xe_isoText env) (if sg_type g = SELL then Sell else Buy) q price (Some (xe_now env (xs_tick s)))
      (Some (strategy_id (se_strategy (xs_strategy s)))) (xs_broker s) = (Inr order, xs_broker t) \<and>
    cp_processedSignalKeys (xs_control t) = cp_processedSignalKeys (xs_control s) \<and> saved env t"
proof -
  let ?i = "strategy_id (se_strategy (xs_strategy s))" and ?side = "if sg_type g = SELL then Sell else Buy"
  let ?run = "then_c (requireRiskApproval env (signal_command env market g ?i q price m)) (\<lambda>_.
          broker_execute env ?side q price (Some ?i))"
  obtain r u where r: "?run s = (r, u)" by force
  show ?thesis
  proof (cases r)
    case (Inl e)
    then have "reject_signal env (js_message e) None u = (Inr (AutoFilled order), t)"
      using assms r by (simp add: execute_signal_def Let_def)
    then show ?thesis using reject_not_filled by blast
  next
    case (Inr o1)
    then have rest: "then_c (recordOrder env o1 (Some (sg_timestamp g))) (\<lambda>_.
           then_c (record_event env CeOrder (''automatic '' @ signal_name (sg_type g) @ '' filled'') (Some (AdOrder o1))) (\<lambda>_.
           then_c (command_persist env (order_evidence env o1)) (\<lambda>_. ret_c (AutoFilled o1)))) u = (Inr (AutoFilled order), t)"
      using assms r by (simp add: execute_signal_def Let_def)
    then obtain v w where v: "recordOrder env o1 (Some (sg_timestamp g)) u = (Inr (), v)"
      "record_event env CeOrder (''automatic '' @ signal_name (sg_type g) @ '' filled'') (Some (AdOrder o1)) v = (Inr (), w)"
      "command_persist env (order_evidence env o1) w = (Inr (), t)" "o1 = order"
      by (auto simp: then_c_Inr ret_c_def)
    have t: "saved env t" "xs_broker t = xs_broker u"
      "cp_processedSignalKeys (xs_control t) = cp_processedSignalKeys (xs_control u)"
      using command_persist_saved [OF v(3)] record_event_keeps [OF v(2)] recordOrder_keeps [OF v(1)] by simp_all
    obtain a where a: "requireRiskApproval env (signal_command env market g ?i q price m) s = (Inr (), a)"
      "broker_execute env ?side q price (Some ?i) a = (Inr o1, u)"
      using r Inr by (auto simp: then_c_Inr)
    obtain codes gt where gt: "xe_evaluate env (signal_command env market g ?i q price m) (xs_gate s) = (Inr (GateAllow, codes), gt)"
      "a = s\<lparr>xs_gate := gt\<rparr>" using approval_Inr [OF a(1)] by blast
    have "PaperBroker_execute (xe_isoText env) ?side q price (Some (xe_now env (xs_tick s))) (Some ?i) (xs_broker s) = (Inr o1, xs_broker u)"
      "xs_control u = xs_control s"
      using a(2) gt(2) by (auto simp: broker_execute_def split: prod.splits)
    then show ?thesis using t gt(1) v(4) by auto
  qed
qed

lemma claimed_signal_filled:
  assumes "claimed_signal env market price pos g m s = (Inr (AutoFilled order), t)"
  obtains q where "\<not> q \<le> Fin 0" "execute_signal env market price g q m s = (Inr (AutoFilled order), t)"
    "sg_type g = SELL \<Longrightarrow> \<not> pos \<le> Fin 0 \<and> q = js_min pos (cp_orderQuantity (xs_control s))"
    "sg_type g = BUY \<Longrightarrow> sg_regime g \<noteq> Some STRONG_DOWNTREND \<and> sg_regime g \<noteq> Some HIGH_VOLATILITY"
proof (cases "sg_regime g")
  case None
  then show thesis using assms reject_not_filled
    by (intro that [of "signal_quantity pos g None (cp_orderQuantity (xs_control s))"])
      (auto simp: claimed_signal_def Let_def signal_quantity_def split: if_splits dest: reject_not_filled)
next
  case (Some r)
  then obtain d where d: "evaluateStrategyRegime (strategy_id (se_strategy (xs_strategy s))) r = Inr d"
    using assms by (cases "evaluateStrategyRegime (strategy_id (se_strategy (xs_strategy s))) r")
      (auto simp: claimed_signal_def dest: reject_not_filled split: if_splits)
  have a: "rd_allowNewExposure d \<longrightarrow> r \<noteq> STRONG_DOWNTREND \<and> r \<noteq> HIGH_VOLATILITY"
    using d by (auto simp: evaluateStrategyRegime_def result_simps Let_def)
  show thesis using assms Some d a
    by (intro that [of "signal_quantity pos g (Some d) (cp_orderQuantity (xs_control s))"])
      (auto simp: claimed_signal_def Let_def signal_quantity_def split: if_splits dest: reject_not_filled)
qed

lemma signal_body_filled:
  assumes "signal_body env market price pos g m s = (Inr (AutoFilled order), t)"
  obtains u v where "record_event env CeSignal (signal_name (sg_type g) @ '': '' @ sg_reason g) (Some (AdSignal g)) s = (Inr (), u)"
    "canAutoTrade (xs_control u)" "sg_type g \<noteq> HOLD"
    "\<And>f d. xe_readiness env = Some f \<Longrightarrow> f (xs_tick u) = Inr d \<Longrightarrow> rn_action d \<noteq> ReadinessHalt \<and> (sg_type g = BUY \<longrightarrow> rn_action d = AllowNewEntries)"
    "on_control env (\<lambda>_. claimAutomaticSignal (signal_key env market g)) u = (Inr True, v)"
    "claimed_signal env market price pos g m v = (Inr (AutoFilled order), t)"
proof -
  obtain u where u: "record_event env CeSignal (signal_name (sg_type g) @ '': '' @ sg_reason g) (Some (AdSignal g)) s = (Inr (), u)"
    and rest: "(if \<not> canAutoTrade (xs_control u) \<or> sg_type g = HOLD
       then then_c (command_persist env []) (\<lambda>_. ret_c AutoSkipped) u
       else case (case xe_readiness env of None \<Rightarrow> Inr None | Some f \<Rightarrow> bind_r (f (xs_tick u)) (\<lambda>d. Inr (Some d))) of
         Inl e \<Rightarrow> (Inl e, u)
       | Inr readiness \<Rightarrow>
         (case (case readiness of
                  Some d \<Rightarrow> if rn_action d = ReadinessHalt \<or> sg_type g = BUY \<and> rn_action d \<noteq> AllowNewEntries then Some d else None
                | None \<Rightarrow> None) of
            Some d \<Rightarrow> reject_signal env (''operational readiness blocked '' @ signal_name (sg_type g) @ '': '' @ join_with '','' (rn_reasons d))
              (Some (AdReadiness d)) u
          | None \<Rightarrow>
            then_c (on_control env (\<lambda>_. claimAutomaticSignal (signal_key env market g))) (\<lambda>fresh t.
              if fresh then claimed_signal env market price pos g m t
              else then_c (command_persist env (duplicate_events env g (xs_tick t))) (\<lambda>_. ret_c AutoDuplicate) t) u)) = (Inr (AutoFilled order), t)"
    using assms by (auto simp: signal_body_def then_c_Inr)
  have go: "canAutoTrade (xs_control u)" "sg_type g \<noteq> HOLD"
    using rest by (auto simp: then_c_Inr ret_c_def split: if_splits)
  let ?claim = "then_c (on_control env (\<lambda>_. claimAutomaticSignal (signal_key env market g))) (\<lambda>fresh t.
              if fresh then claimed_signal env market price pos g m t
              else then_c (command_persist env (duplicate_events env g (xs_tick t))) (\<lambda>_. ret_c AutoDuplicate) t) u"
  have claim: "?claim = (Inr (AutoFilled order), t)" and
    ready: "\<And>f d. xe_readiness env = Some f \<Longrightarrow> f (xs_tick u) = Inr d \<Longrightarrow> rn_action d \<noteq> ReadinessHalt \<and> (sg_type g = BUY \<longrightarrow> rn_action d = AllowNewEntries)"
    using rest go by (auto split: option.splits sum.splits if_splits dest: reject_not_filled)
  from claim obtain fresh v where v: "on_control env (\<lambda>_. claimAutomaticSignal (signal_key env market g)) u = (Inr fresh, v)"
    "(if fresh then claimed_signal env market price pos g m v
      else then_c (command_persist env (duplicate_events env g (xs_tick v))) (\<lambda>_. ret_c AutoDuplicate) v) = (Inr (AutoFilled order), t)"
    by (auto simp: then_c_Inr)
  then have fresh by (cases fresh) (auto simp: then_c_Inr ret_c_def)
  then have w: "on_control env (\<lambda>_. claimAutomaticSignal (signal_key env market g)) u = (Inr True, v)"
    "claimed_signal env market price pos g m v = (Inr (AutoFilled order), t)" using v by simp_all
  show thesis by (rule that [OF u go ready w])
qed

lemma claim_fresh:
  assumes "on_control env (\<lambda>_. claimAutomaticSignal key) u = (Inr True, v)"
  shows "key \<notin> set (cp_processedSignalKeys (xs_control u)) \<and>
    truncate_to (cp_maxEvents (xs_control u)) (key # cp_processedSignalKeys (xs_control u)) = Inr (cp_processedSignalKeys (xs_control v)) \<and>
    xs_broker v = xs_broker u \<and> xs_gate v = xs_gate u \<and> xs_strategy v = xs_strategy u \<and> xs_tick v = xs_tick u + 1 \<and>
    cp_orderQuantity (xs_control v) = cp_orderQuantity (xs_control u)"
  using assms by (auto simp: on_control_def claimAutomaticSignal_def Let_def throw_def split: prod.splits sum.splits if_splits)

text \<open>C25: an automatic signal is filled only by an open service with automatic trading on, for a buy or sell signal the readiness
  callback lets through, under a key not seen before, which is then among the seen ones; a sale only of a positive position and at
  most that position, a purchase in no forbidden regime; after the risk gate allowed exactly this command; by one execution of the
  broker with a positive quantity; and what was saved is what is in memory.\<close>

theorem automatic_fill_requires:
  assumes "automaticSignal env market price pos g m s = (Inr (AutoFilled order), t)"
  defines "i \<equiv> strategy_id (se_strategy (xs_strategy s))" and "keys \<equiv> cp_processedSignalKeys (xs_control s)"
  shows "xs_available s \<and> cp_status (xs_control s) = CtlRunning \<and> cp_autoTradeEnabled (xs_control s) \<and> sg_type g \<noteq> HOLD \<and>
    (\<forall>f d. xe_readiness env = Some f \<and> f (xs_tick s + 1) = Inr d \<longrightarrow>
      rn_action d \<noteq> ReadinessHalt \<and> (sg_type g = BUY \<longrightarrow> rn_action d = AllowNewEntries)) \<and>
    signal_key env market g \<notin> set keys \<and>
    truncate_to (cp_maxEvents (xs_control s)) (signal_key env market g # keys) = Inr (cp_processedSignalKeys (xs_control t)) \<and>
    (sg_type g = BUY \<longrightarrow> sg_regime g \<noteq> Some STRONG_DOWNTREND \<and> sg_regime g \<noteq> Some HIGH_VOLATILITY) \<and>
    (\<exists>q codes gt. \<not> q \<le> Fin 0 \<and>
      (sg_type g = SELL \<longrightarrow> \<not> pos \<le> Fin 0 \<and> q = js_min pos (cp_orderQuantity (xs_control s))) \<and>
      xe_evaluate env (signal_command env market g i q price m) (xs_gate s) = (Inr (GateAllow, codes), gt) \<and>
      PaperBroker_execute (xe_isoText env) (if sg_type g = SELL then Sell else Buy) q price (Some (xe_now env (xs_tick s + 2)))
        (Some i) (xs_broker s) = (Inr order, xs_broker t)) \<and>
    saved env t"
proof -
  have av: "xs_available s" using assms(1) by (cases "xs_available s") (auto simp: automaticSignal_def)
  have body: "signal_body env market price pos g m s = (Inr (AutoFilled order), t)"
    using assms(1) av unfolding automaticSignal_def
    by (auto simp: then_c_Inr ret_c_def dest!: catch_filled)
  obtain u v where u: "record_event env CeSignal (signal_name (sg_type g) @ '': '' @ sg_reason g) (Some (AdSignal g)) s = (Inr (), u)"
    "canAutoTrade (xs_control u)" "sg_type g \<noteq> HOLD"
    and ready: "\<And>f d. xe_readiness env = Some f \<Longrightarrow> f (xs_tick u) = Inr d \<Longrightarrow> rn_action d \<noteq> ReadinessHalt \<and> (sg_type g = BUY \<longrightarrow> rn_action d = AllowNewEntries)"
    and claim: "on_control env (\<lambda>_. claimAutomaticSignal (signal_key env market g)) u = (Inr True, v)"
    and claimed: "claimed_signal env market price pos g m v = (Inr (AutoFilled order), t)"
    using signal_body_filled [OF body] by blast
  note r = record_event_keeps [OF u(1)] and c = claim_fresh [OF claim]
  obtain q where q: "\<not> q \<le> Fin 0" "execute_signal env market price g q m v = (Inr (AutoFilled order), t)"
    "sg_type g = SELL \<Longrightarrow> \<not> pos \<le> Fin 0 \<and> q = js_min pos (cp_orderQuantity (xs_control v))"
    "sg_type g = BUY \<Longrightarrow> sg_regime g \<noteq> Some STRONG_DOWNTREND \<and> sg_regime g \<noteq> Some HIGH_VOLATILITY"
    using claimed_signal_filled [OF claimed] by blast
  note x = execute_signal_filled [OF q(2)]
  have m: "cp_maxEvents (xs_control u) = cp_maxEvents (xs_control s)"
    using keepsD [OF frame_record u(1)] by (simp add: frame_def)
  have "\<exists>q codes gt. \<not> q \<le> Fin 0 \<and>
      (sg_type g = SELL \<longrightarrow> \<not> pos \<le> Fin 0 \<and> q = js_min pos (cp_orderQuantity (xs_control s))) \<and>
      xe_evaluate env (signal_command env market g i q price m) (xs_gate s) = (Inr (GateAllow, codes), gt) \<and>
      PaperBroker_execute (xe_isoText env) (if sg_type g = SELL then Sell else Buy) q price (Some (xe_now env (xs_tick s + 2)))
        (Some i) (xs_broker s) = (Inr order, xs_broker t)"
    using x q(1,3) r c by (intro exI [of _ q]) (auto simp: i_def)
  then show ?thesis using av u(2,3) ready r c q(4) x m by (auto simp: canAutoTrade_def keys_def)
qed

section \<open>A rolled-back purchase is charged later\<close>

text \<open>An account of 1000, a gate that allows every order and whose record of orders fails the first time, and a store that
  keeps what is saved.\<close>

definition flaky_env :: "(bool, broker_state list) command_env" where
  "flaky_env = \<lparr>xe_clock = \<lambda>_. \<lparr>ck_ms = ''5'', ck_iso = ''t''\<rparr>, xe_now = \<lambda>_. 5, xe_uuid = \<lambda>_. ''u'', xe_isoText = \<lambda>_. ''t'',
     xe_numText = \<lambda>_. ''n'', xe_parseDate = \<lambda>_. Fin 5, xe_evaluate = \<lambda>_ g. (Inr (GateAllow, []), g),
     xe_recordOrder = Some (\<lambda>_ g. if g then (Inr (), g) else (throw ''record failed'', True)), xe_readiness = None,
     xe_session = None, xe_save = \<lambda>b _ p. (Inr (), p @ [b]), xe_saveWithScenarioEvent = None, xe_saveWithScenarioEvents = None\<rparr>"

definition plain_metadata :: command_metadata where
  "plain_metadata = \<lparr>cm_accountId = None, cm_approvalId = None, cm_commandId = None, cm_signalId = None,
     cm_clientOrderId = None, cm_nowMs = None\<rparr>"

definition demo_plane :: audit_plane where
  "demo_plane = \<lparr>cp_strategyId = ''s'', cp_maxEvents = Fin 2, cp_status = CtlRunning, cp_autoTradeEnabled = True,
     cp_orderQuantity = Fin 2, cp_events = [], cp_processedSignalKeys = []\<rparr>"

definition demo_engine :: "strategy strategy_engine" where
  "demo_engine = \<lparr>se_prices = [], se_signalHistory = [], se_running = True, se_latestSignal = None, se_lastTickKey = None,
     se_strategy = SmaCrossover \<lparr>sma_shortPeriod = 2, sma_longPeriod = 3, sma_previousSpread = None\<rparr>,
     se_maxHistory = Fin 5, se_maxSignalHistory = Fin 5\<rparr>"

definition demo_service :: "bool \<Rightarrow> (bool, broker_state list) command_state" where
  "demo_service g = \<lparr>xs_available = True, xs_broker = sample_broker, xs_control = demo_plane, xs_strategy = demo_engine,
     xs_gate = g, xs_persistence = [], xs_diagnostics = [], xs_tick = 0\<rparr>"

definition demo_order :: "(bool, broker_state list) command_state \<Rightarrow> paper_order result \<times> (bool, broker_state list) command_state" where
  "demo_order = manualOrder flaky_env Buy (Fin 2) (Fin 100) plain_metadata"

definition stale_broker :: paper_broker where
  "stale_broker = sample_broker\<lparr>pb_replay := \<lparr>ry_cash = 80000000000, ry_quantity = 200000000, ry_costBasis = 20000000000, ry_realizedPnl = 0\<rparr>\<rparr>"

lemma more_arith: "fromScaledLedgerAmount 60000000000 = Fin 600" "Fin 0 < Fin 2" "Fin 0 < Fin 100"
  by code_simp+

text \<open>The first purchase, and the account that its rollback leaves: everything as before but the cursor.\<close>

lemma first_purchase:
  obtains order b where "sample_buy sample_broker = (Inr order, b)" "pb_feeRate b = pb_feeRate sample_broker"
    "pb_riskPolicy b = pb_riskPolicy sample_broker" "pp_market (pb_position b) = pp_market (pb_position sample_broker)"
    "b\<lparr>pb_cash := pb_cash sample_broker, pb_position := pb_position sample_broker, pb_orders := pb_orders sample_broker,
       pb_ledger := pb_ledger sample_broker\<rparr> = stale_broker"
proof -
  obtain order where o1: "fst (sample_buy sample_broker) = Inr order"
    using sample_buy(1) [of "Fin 1000"] by (auto simp: sample_broker_cash)
  show thesis
    by (rule that [of order "snd (sample_buy sample_broker)"])
      (use o1 in \<open>simp_all add: sample_unfold stale_broker_def prod_eq_iff\<close>)
qed

text \<open>The second purchase commits the cash of a cursor that still holds the first.\<close>

lemma second_purchase:
  "case sample_buy stale_broker of (r, b) \<Rightarrow>
     (\<exists>order. r = Inr order \<and> po_quantity order * po_price order + po_fee order = Fin 200) \<and>
     map pe_quantity (pb_ledger b) = [Fin 2] \<and> pb_cash b = Fin 600"
  by (simp add: sample_unfold stale_broker_def more_arith)

lemma sample_broker_ok: "paper_ok (Fin 1000) ''M'' (Fin 0) sample_policy no_fill sample_broker"
  by (rule paper_reachable_ok [OF paper_reachable.New [OF sample_broker_new]])

lemma sample_replays: "replay_ledger (Fin 1000) (pb_ledger sample_broker) = Inr (pb_replay sample_broker)"
  "replay_start (pb_cash sample_broker) = Inr (pb_replay sample_broker)"
  by (simp_all add: sample_broker_def replay_ledger_def replay_start_def sample_arith)

lemma demo_synced: "broker_synced (xs_broker (demo_service g))" "control_ok (xs_control (demo_service g))" "xs_available (demo_service g)"
proof -
  show "broker_synced (xs_broker (demo_service g))"
    using sample_broker_ok sample_replays unfolding broker_synced_def by (auto simp: demo_service_def) blast
  show "control_ok (xs_control (demo_service g))"
    by (auto simp: control_ok_def demo_service_def demo_plane_def intro!: exI [of _ 2])
qed (simp add: demo_service_def)

lemma flaky_simps:
  "xe_recordOrder flaky_env = Some (\<lambda>_ g. if g then (Inr (), g) else (throw ''record failed'', True))"
  "xe_clock flaky_env n = \<lparr>ck_ms = ''5'', ck_iso = ''t''\<rparr>" "xe_session flaky_env = None" "xe_save flaky_env b c p = (Inr (), p @ [b])"
  "xe_saveWithScenarioEvent flaky_env = None" "xe_readiness flaky_env = None"
  by (simp_all add: flaky_env_def)

lemma demo_gate: "requireRiskApproval flaky_env c s = (Inr (), s)"
  by (simp add: requireRiskApproval_def flaky_env_def)

lemma demo_execute:
  "broker_execute flaky_env Buy (Fin 2) (Fin 100) None s =
     (case sample_buy (xs_broker s) of (r, b) \<Rightarrow> (r, s\<lparr>xs_broker := b, xs_tick := xs_tick s + 1\<rparr>))"
  by (simp add: broker_execute_def flaky_env_def sample_buy_def)

lemma demo_order_eq:
  "order_mutation flaky_env CpManual l Buy (Fin 2) (Fin 100) plain_metadata s =
     (case sample_buy (xs_broker s) of
        (Inl e, b) \<Rightarrow> (Inl e, s\<lparr>xs_broker := b, xs_tick := xs_tick s + 1\<rparr>)
      | (Inr order, b) \<Rightarrow>
          if xs_gate s then then_c (record_event flaky_env CeOrder (l @ ''BUY filled'') (Some (AdOrder order))) (\<lambda>_. ret_c order)
            (s\<lparr>xs_broker := b, xs_tick := xs_tick s + 1, xs_gate := True\<rparr>)
          else (throw ''record failed'', s\<lparr>xs_broker := b, xs_tick := xs_tick s + 1, xs_gate := True\<rparr>))"
  unfolding order_mutation_def
  by (cases "sample_buy (xs_broker s)"; cases "fst (sample_buy (xs_broker s))")
    (auto simp: then_c_def demo_gate demo_execute recordOrder_def flaky_simps paper_side_name_def throw_def)

lemma demo_failed:
  "demo_order (demo_service False) = (throw ''record failed'', (demo_service True)\<lparr>xs_broker := stale_broker, xs_tick := 1\<rparr>)"
proof -
  obtain order b where b: "sample_buy sample_broker = (Inr order, b)" "pb_feeRate b = pb_feeRate sample_broker"
    "pb_riskPolicy b = pb_riskPolicy sample_broker" "pp_market (pb_position b) = pp_market (pb_position sample_broker)"
    "b\<lparr>pb_cash := pb_cash sample_broker, pb_position := pb_position sample_broker, pb_orders := pb_orders sample_broker,
       pb_ledger := pb_ledger sample_broker\<rparr> = stale_broker" using first_purchase by blast
  have "PaperBroker_restoreState (PaperBroker_exportState sample_broker) b = Inr stale_broker"
    using restoreState_export [OF sample_broker_ok sample_replays b(2-4)] b(5) by simp
  moreover have "restoreRuntimeState (exportRuntimeState demo_plane) demo_plane = Inr demo_plane"
    using demo_synced(2) by (intro restore_control) (simp_all add: demo_service_def)
  ultimately show ?thesis
    using b(1) by (simp add: demo_order_def manualOrder_def commit_def demo_order_eq demo_service_def command_restore_def command_capture_def
        engine_restoreRunning_def then_c_def lift_c_def throw_def)
qed

lemma demo_succeeds:
  assumes "sample_buy b = (Inr order, c)"
  shows "\<exists>t. demo_order ((demo_service True)\<lparr>xs_broker := b, xs_tick := n\<rparr>) = (Inr order, t) \<and> xs_broker t = c \<and>
    xs_persistence t = [PaperBroker_exportState c]"
  using assms
  by (simp add: demo_order_def manualOrder_def commit_def demo_order_eq demo_service_def record_event_def on_control_def
      control_record_def truncate_to_def then_c_def catch_c_def ret_c_def order_evidence_def bind_event_def command_persist_def
      flaky_simps demo_plane_def Let_def)

text \<open>C26: the composition with \<open>restoreState\<close> breaks the rollback of the account: a purchase for 200 whose record fails is rolled
  back to a cash of 1000 and an empty ledger, but the next purchase for 200 commits and saves a cash of 600 for a ledger that holds
  that purchase alone.\<close>

theorem rolled_back_purchase_is_charged:
  "\<exists>s1 s2 order. demo_order (demo_service False) = (throw ''record failed'', s1) \<and>
     pb_cash (xs_broker s1) = Fin 1000 \<and> pb_ledger (xs_broker s1) = [] \<and>
     demo_order s1 = (Inr order, s2) \<and> po_quantity order * po_price order + po_fee order = Fin 200 \<and>
     map pe_quantity (pb_ledger (xs_broker s2)) = [po_quantity order] \<and> map bs_cash (xs_persistence s2) = [Fin 600]"
proof -
  obtain order b where b: "sample_buy stale_broker = (Inr order, b)" "po_quantity order * po_price order + po_fee order = Fin 200"
    "map pe_quantity (pb_ledger b) = [Fin 2]" "pb_cash b = Fin 600"
    using second_purchase by (auto split: prod.splits)
  have q: "po_quantity order = Fin 2" using b(1) by (auto simp: sample_unfold stale_broker_def)
  obtain t where "demo_order ((demo_service True)\<lparr>xs_broker := stale_broker, xs_tick := 1\<rparr>) = (Inr order, t)" "xs_broker t = b"
    "xs_persistence t = [PaperBroker_exportState b]" using demo_succeeds [OF b(1)] by blast
  then show ?thesis using demo_failed b q
    by (intro exI conjI) (auto simp: stale_broker_def sample_broker_def PaperBroker_exportState_def)
qed


theorem closed_service_stays_closed_witness:
  "closed_down (snd (markUnavailable (demo_service True))) \<and>
   snd (run_command flaky_env (CallManual Buy (Fin 2) (Fin 100) plain_metadata) (snd (markUnavailable (demo_service True)))) =
     snd (markUnavailable (demo_service True))"
proof -
  let ?t = "snd (markUnavailable (demo_service True))"
  have r: "service_run flaky_env (demo_service True) ?t" by (rule service_run.run_unavailable [OF service_run.run_none])
  have c: "closed_down ?t" by (simp add: markUnavailable_def closed_down_def engine_stop_def)
  have "service_run flaky_env ?t (snd (run_command flaky_env (CallManual Buy (Fin 2) (Fin 100) plain_metadata) ?t))"
    by (rule service_run.run_call [OF service_run.run_none])
  then show ?thesis using closed_service_stays_closed [OF r demo_synced(3)] c by blast
qed

definition demo_signal :: strategy_signal where
  "demo_signal = \<lparr>sg_type = BUY, sg_reason = ''r'', sg_confidence = Fin 1, sg_timestamp = Fin 5, sg_regime = None\<rparr>"

lemma demo_signal_filled:
  "\<exists>order t. automaticSignal flaky_env ''M'' (Fin 100) (Fin 0) demo_signal plain_metadata (demo_service True) = (Inr (AutoFilled order), t)"
proof -
  let ?i = "Some (strategy_id (se_strategy demo_engine))"
  obtain order b where b: "PaperBroker_execute (\<lambda>_. ''t'') Buy (Fin 2) (Fin 100) (Some 5) ?i sample_broker = (Inr order, b)"
    using sample_buy(1) [of "Fin 1000"]
    by (simp add: sample_unfold)
  have "\<not> Fin 2 \<le> Fin 0" by simp
  then show ?thesis using b
    by (simp add: automaticSignal_def signal_body_def claimed_signal_def execute_signal_def demo_service_def demo_signal_def demo_plane_def
        record_event_def on_control_def control_record_def truncate_to_def then_c_def catch_c_def ret_c_def order_evidence_def
        bind_event_def command_persist_def flaky_env_def canAutoTrade_def claimAutomaticSignal_def signal_key_def signal_quantity_def
        requireRiskApproval_def broker_execute_def recordOrder_def Let_def)
qed

theorem automatic_fill_requires_witness:
  "\<exists>order t. automaticSignal flaky_env ''M'' (Fin 100) (Fin 0) demo_signal plain_metadata (demo_service True) = (Inr (AutoFilled order), t) \<and>
     saved flaky_env t"
proof -
  obtain order t where r: "automaticSignal flaky_env ''M'' (Fin 100) (Fin 0) demo_signal plain_metadata (demo_service True) = (Inr (AutoFilled order), t)"
    using demo_signal_filled by blast
  have "saved flaky_env t" using automatic_fill_requires [OF r] by (elim conjE)
  then show ?thesis using r by (intro exI conjI)
qed

end
