(* ===== verification/PaperAccounting.thy ===== *)
theory PaperAccounting imports NumberText begin

text \<open>
  \<open>apps/cloud/src/paperAccountingLedger.ts\<close>: the paper account as a replay of its fills in fixed point,
  the legacy replay in rounded decimals, the reconciliation of a stored account with the replay, and the
  source that collects the fills of an account's history.  \<open>localeCompare\<close>, the JSON text of a fill and
  the digest of a projection are parameters.
\<close>

section \<open>Amounts\<close>

definition LEDGER_SCALE :: int where
  "LEDGER_SCALE = 100000000"

definition round8 :: "jsnum \<Rightarrow> jsnum" where
  "round8 v = fixed_number 8 v"

text \<open>From \<open>10^21\<close> on \<open>toFixed\<close> prints an exponent, which \<open>BigInt\<close> refuses.\<close>

definition scaled :: "jsnum \<Rightarrow> int result" where
  "scaled v =
     guard_r (\<not> is_finite v) (Error ''paper ledger amount must be finite'')
     (guard_r (10 ^ 21 \<le> \<bar>jval v\<bar>) (Error ''SyntaxError'')
     (let value8 = (fixed_units 12 \<bar>jval v\<bar> + 5000) div 10000
      in Inr (if v < Fin 0 then - value8 else value8)))"

definition unscaled :: "int \<Rightarrow> jsnum" where
  "unscaled v = jint v div Fin 100000000"

section \<open>Fills\<close>

datatype fill_side = FillBuy | FillSell

record 'x paper_fill_record =
  fr_id :: string
  fr_orderId :: string
  fr_market :: string
  fr_side :: fill_side
  fr_quantity :: jsnum
  fr_price :: jsnum
  fr_fee :: jsnum
  fr_filledAt :: jsnum
  fr_evidence :: 'x

record journal_entry =
  je_sequence :: nat
  je_fillId :: string
  je_orderId :: string
  je_market :: string
  je_side :: fill_side
  je_quantity :: jsnum
  je_price :: jsnum
  je_fee :: jsnum
  je_cashAfter :: jsnum
  je_positionQuantityAfter :: jsnum
  je_averageEntryPriceAfter :: jsnum
  je_realizedPnLAfter :: jsnum
  je_occurredAt :: jsnum

record account_position =
  ap_market :: string
  ap_quantity :: jsnum
  ap_averageEntryPrice :: jsnum
  ap_realizedPnL :: jsnum
  ap_unrealizedPnL :: jsnum
  ap_markPrice :: jsnum

record accounting_projection =
  pj_cash :: jsnum
  pj_realizedPnL :: jsnum
  pj_positions :: "account_position list"
  pj_journal :: "journal_entry list"
  pj_fingerprintSha256 :: string

record mutable_position =
  mp_quantity :: int
  mp_costBasis :: int
  mp_realizedPnL :: int
  mp_markPrice :: jsnum

definition fill_order :: "(string \<Rightarrow> string \<Rightarrow> jsnum) \<Rightarrow> 'x paper_fill_record \<Rightarrow> 'x paper_fill_record \<Rightarrow> jsnum" where
  "fill_order locale a b = js_or (fr_filledAt a - fr_filledAt b) (locale (fr_id a) (fr_id b))"

definition valid_fill :: "'x paper_fill_record \<Rightarrow> bool" where
  "valid_fill f \<longleftrightarrow>
     \<not> blank (fr_orderId f) \<and> \<not> blank (fr_market f) \<and> is_safe_integer (fr_filledAt f) \<and> \<not> fr_filledAt f < Fin 0 \<and>
     is_finite (fr_quantity f) \<and> is_finite (fr_price f) \<and> is_finite (fr_fee f) \<and>
     \<not> fr_quantity f \<le> Fin 0 \<and> \<not> fr_price f \<le> Fin 0 \<and> \<not> fr_fee f < Fin 0"

fun check_fills :: "string list \<Rightarrow> 'x paper_fill_record list \<Rightarrow> unit result" where
  "check_fills ids [] = Inr ()"
| "check_fills ids (f # fs) =
     guard_r (blank (fr_id f) \<or> fr_id f \<in> set ids) (Error ''PAPER_LEDGER_DUPLICATE_FILL'')
     (guard_r (\<not> valid_fill f) (Error ''PAPER_LEDGER_INVALID_FILL'') (check_fills (fr_id f # ids) fs))"

definition canonicalFillOrder :: "(string \<Rightarrow> string \<Rightarrow> jsnum) \<Rightarrow> 'x paper_fill_record list \<Rightarrow> 'x paper_fill_record list result" where
  "canonicalFillOrder locale fills =
     (let ordered = js_sort (fill_order locale) fills in bind_r (check_fills [] ordered) (\<lambda>_. Inr ordered))"

section \<open>The projection\<close>

record ledger_state =
  ld_cash :: int
  ld_realized :: int
  ld_positions :: "(string \<times> mutable_position) list"
  ld_journal :: "journal_entry list"

definition ledger_position :: "'x paper_fill_record \<Rightarrow> ledger_state \<Rightarrow> mutable_position" where
  "ledger_position f s =
     (case map_of (ld_positions s) (fr_market f) of
        Some p \<Rightarrow> p
      | None \<Rightarrow> \<lparr>mp_quantity = 0, mp_costBasis = 0, mp_realizedPnL = 0, mp_markPrice = fr_price f\<rparr>)"

definition average_price :: "mutable_position \<Rightarrow> int" where
  "average_price p = (if mp_quantity p = 0 then 0 else big_div (mp_costBasis p * LEDGER_SCALE) (mp_quantity p))"

definition average_number :: "mutable_position \<Rightarrow> jsnum" where
  "average_number p = (if mp_quantity p = 0 then Fin 0 else unscaled (average_price p))"

definition mark_of :: "(string \<Rightarrow> jsnum option) \<Rightarrow> string \<Rightarrow> jsnum \<Rightarrow> jsnum" where
  "mark_of marks market fallback = (case marks market of Some m \<Rightarrow> m | None \<Rightarrow> fallback)"

definition ledger_trade ::
  "fill_side \<Rightarrow> int \<Rightarrow> int \<Rightarrow> int \<Rightarrow> int \<times> int \<times> mutable_position \<Rightarrow> (int \<times> int \<times> mutable_position) result" where
  "ledger_trade side quantity price fee crp =
     (case crp of (cash, realized, p) \<Rightarrow>
        let notional = big_div (quantity * price) LEDGER_SCALE
        in case side of
             FillBuy \<Rightarrow>
               guard_r (cash < notional + fee) (Error ''PAPER_LEDGER_INSUFFICIENT_CASH'')
               (Inr (cash - (notional + fee), realized,
                  p\<lparr>mp_quantity := mp_quantity p + quantity, mp_costBasis := mp_costBasis p + (notional + fee)\<rparr>))
           | FillSell \<Rightarrow>
               guard_r (mp_quantity p < quantity) (Error ''PAPER_LEDGER_INSUFFICIENT_POSITION'')
               (let average = average_price p;
                    pnl = big_div ((price - average) * quantity) LEDGER_SCALE - fee;
                    left = mp_quantity p - quantity
                in Inr (cash + (notional - fee), realized + pnl,
                     p\<lparr>mp_realizedPnL := mp_realizedPnL p + pnl, mp_quantity := left,
                       mp_costBasis := (if left = 0 then 0 else mp_costBasis p - big_div (average * quantity) LEDGER_SCALE)\<rparr>)))"

definition ledger_apply :: "(string \<Rightarrow> jsnum option) \<Rightarrow> 'x paper_fill_record \<Rightarrow> ledger_state \<Rightarrow> ledger_state result" where
  "ledger_apply marks f s =
     bind_r (scaled (fr_quantity f)) (\<lambda>quantity.
     bind_r (scaled (fr_price f)) (\<lambda>price.
     bind_r (scaled (fr_fee f)) (\<lambda>fee.
     bind_r (ledger_trade (fr_side f) quantity price fee (ld_cash s, ld_realized s, ledger_position f s)) (\<lambda>(cash, realized, p).
     let q = p\<lparr>mp_markPrice := mark_of marks (fr_market f) (fr_price f)\<rparr>
     in Inr \<lparr>ld_cash = cash, ld_realized = realized, ld_positions = AList.update (fr_market f) q (ld_positions s),
          ld_journal = ld_journal s @ [\<lparr>je_sequence = length (ld_journal s) + 1, je_fillId = fr_id f, je_orderId = fr_orderId f,
            je_market = fr_market f, je_side = fr_side f, je_quantity = fr_quantity f, je_price = fr_price f, je_fee = fr_fee f,
            je_cashAfter = unscaled cash, je_positionQuantityAfter = unscaled (mp_quantity q),
            je_averageEntryPriceAfter = average_number q, je_realizedPnLAfter = unscaled realized,
            je_occurredAt = fr_filledAt f\<rparr>]\<rparr>))))"

definition project_position :: "(string \<Rightarrow> jsnum option) \<Rightarrow> string \<times> mutable_position \<Rightarrow> account_position result" where
  "project_position marks mp =
     (case mp of (market, p) \<Rightarrow>
        let quantity = unscaled (mp_quantity p); average = average_number p; mark = mark_of marks market (mp_markPrice p)
        in guard_r (\<not> is_finite mark \<or> mark < Fin 0) (Error ''PAPER_LEDGER_INVALID_MARK'')
           (Inr \<lparr>ap_market = market, ap_quantity = quantity, ap_averageEntryPrice = average,
              ap_realizedPnL = unscaled (mp_realizedPnL p), ap_unrealizedPnL = round8 (quantity * (mark - average)),
              ap_markPrice = mark\<rparr>))"

definition ledger_start :: "jsnum \<Rightarrow> ledger_state result" where
  "ledger_start initialCapital =
     bind_r (scaled initialCapital) (\<lambda>cash. Inr \<lparr>ld_cash = cash, ld_realized = 0, ld_positions = [], ld_journal = []\<rparr>)"

definition ledger_replay ::
  "(string \<Rightarrow> string \<Rightarrow> jsnum) \<Rightarrow> jsnum \<Rightarrow> 'x paper_fill_record list \<Rightarrow> (string \<Rightarrow> jsnum option) \<Rightarrow> ledger_state result" where
  "ledger_replay locale initialCapital fills marks =
     guard_r (\<not> is_finite initialCapital \<or> initialCapital \<le> Fin 0) (Error ''PAPER_LEDGER_INVALID_INITIAL_CAPITAL'')
     (bind_r (ledger_start initialCapital) (\<lambda>s.
      bind_r (canonicalFillOrder locale fills) (\<lambda>ordered. fold_r (ledger_apply marks) ordered s)))"

type_synonym digest_fun = "jsnum \<Rightarrow> journal_entry list \<Rightarrow> account_position list \<Rightarrow> jsnum \<Rightarrow> jsnum \<Rightarrow> string"

definition projectPaperAccounting ::
  "(string \<Rightarrow> string \<Rightarrow> jsnum) \<Rightarrow> digest_fun \<Rightarrow> jsnum \<Rightarrow> 'x paper_fill_record list \<Rightarrow> (string \<Rightarrow> jsnum option) \<Rightarrow>
    accounting_projection result" where
  "projectPaperAccounting locale digest initialCapital fills marks =
     bind_r (ledger_replay locale initialCapital fills marks) (\<lambda>s.
     bind_r (map_r (project_position marks) (js_sort (\<lambda>a b. locale (fst a) (fst b)) (ld_positions s))) (\<lambda>positions.
     Inr \<lparr>pj_cash = unscaled (ld_cash s), pj_realizedPnL = unscaled (ld_realized s), pj_positions = positions,
          pj_journal = ld_journal s,
          pj_fingerprintSha256 = digest (round8 initialCapital) (ld_journal s) positions (unscaled (ld_cash s)) (unscaled (ld_realized s))\<rparr>))"

section \<open>The legacy replay\<close>

record legacy_state =
  lg_cash :: jsnum
  lg_realized :: jsnum
  lg_positions :: "(string \<times> account_position) list"
  lg_journal :: "journal_entry list"

definition legacy_trade ::
  "(string \<Rightarrow> jsnum option) \<Rightarrow> 'x paper_fill_record \<Rightarrow> legacy_state \<Rightarrow> account_position \<Rightarrow> (jsnum \<times> jsnum \<times> account_position) result" where
  "legacy_trade marks f s previous =
     (let notional = round8 (fr_quantity f * fr_price f); mark = mark_of marks (fr_market f) (fr_price f)
      in case fr_side f of
           FillBuy \<Rightarrow>
             guard_r (lg_cash s < round8 (notional + fr_fee f)) (Error ''PAPER_LEGACY_LEDGER_INSUFFICIENT_CASH'')
             (let quantity = round8 (ap_quantity previous + fr_quantity f)
              in Inr (round8 (lg_cash s - notional - fr_fee f), lg_realized s,
                   previous\<lparr>ap_quantity := quantity,
                     ap_averageEntryPrice :=
                       round8 ((ap_averageEntryPrice previous * ap_quantity previous + notional + fr_fee f) div quantity),
                     ap_markPrice := mark, ap_unrealizedPnL := Fin 0\<rparr>))
         | FillSell \<Rightarrow>
             guard_r (ap_quantity previous < fr_quantity f) (Error ''PAPER_LEGACY_LEDGER_INSUFFICIENT_POSITION'')
             (let realized = round8 ((fr_price f - ap_averageEntryPrice previous) * fr_quantity f - fr_fee f);
                  quantity = round8 (ap_quantity previous - fr_quantity f)
              in Inr (round8 (lg_cash s + notional - fr_fee f), round8 (lg_realized s + realized),
                   previous\<lparr>ap_quantity := quantity,
                     ap_averageEntryPrice := (if js_eq quantity (Fin 0) then Fin 0 else ap_averageEntryPrice previous),
                     ap_realizedPnL := round8 (ap_realizedPnL previous + realized), ap_markPrice := mark,
                     ap_unrealizedPnL := Fin 0\<rparr>)))"

definition legacy_apply :: "(string \<Rightarrow> jsnum option) \<Rightarrow> 'x paper_fill_record \<Rightarrow> legacy_state \<Rightarrow> legacy_state result" where
  "legacy_apply marks f s =
     (let previous = (case map_of (lg_positions s) (fr_market f) of
            Some p \<Rightarrow> p
          | None \<Rightarrow> \<lparr>ap_market = fr_market f, ap_quantity = Fin 0, ap_averageEntryPrice = Fin 0, ap_realizedPnL = Fin 0,
              ap_unrealizedPnL = Fin 0, ap_markPrice = fr_price f\<rparr>)
      in bind_r (legacy_trade marks f s previous) (\<lambda>(cash, realized, n).
         let mark = mark_of marks (fr_market f) (ap_markPrice n);
             p = n\<lparr>ap_unrealizedPnL := round8 (ap_quantity n * (mark - ap_averageEntryPrice n)), ap_markPrice := mark\<rparr>
         in Inr \<lparr>lg_cash = cash, lg_realized = realized, lg_positions = AList.update (fr_market f) p (lg_positions s),
              lg_journal = lg_journal s @ [\<lparr>je_sequence = length (lg_journal s) + 1, je_fillId = fr_id f, je_orderId = fr_orderId f,
                je_market = fr_market f, je_side = fr_side f, je_quantity = fr_quantity f, je_price = fr_price f, je_fee = fr_fee f,
                je_cashAfter = cash, je_positionQuantityAfter = ap_quantity p, je_averageEntryPriceAfter = ap_averageEntryPrice p,
                je_realizedPnLAfter = realized, je_occurredAt = fr_filledAt f\<rparr>]\<rparr>))"

definition projectLegacyPaperAccounting ::
  "(string \<Rightarrow> string \<Rightarrow> jsnum) \<Rightarrow> digest_fun \<Rightarrow> jsnum \<Rightarrow> 'x paper_fill_record list \<Rightarrow> (string \<Rightarrow> jsnum option) \<Rightarrow>
    accounting_projection result" where
  "projectLegacyPaperAccounting locale digest initialCapital fills marks =
     guard_r (\<not> is_finite initialCapital \<or> initialCapital \<le> Fin 0) (Error ''PAPER_LEGACY_LEDGER_INVALID_INITIAL_CAPITAL'')
     (bind_r (canonicalFillOrder locale fills) (\<lambda>ordered.
      bind_r (fold_r (legacy_apply marks) ordered
          \<lparr>lg_cash = round8 initialCapital, lg_realized = Fin 0, lg_positions = [], lg_journal = []\<rparr>) (\<lambda>s.
      let positions = js_sort (\<lambda>a b. locale (ap_market a) (ap_market b)) (map snd (lg_positions s))
      in Inr \<lparr>pj_cash = lg_cash s, pj_realizedPnL = lg_realized s, pj_positions = positions, pj_journal = lg_journal s,
           pj_fingerprintSha256 = digest (round8 initialCapital) (lg_journal s) positions (lg_cash s) (lg_realized s)\<rparr>)))"

section \<open>Reconciliation\<close>

record 'x stored_account =
  sa_initialCapital :: jsnum
  sa_fills :: "'x paper_fill_record list"
  sa_cash :: jsnum
  sa_realizedPnL :: jsnum
  sa_positions :: "account_position list"

definition position_marks :: "account_position list \<Rightarrow> string \<Rightarrow> jsnum option" where
  "position_marks ps = map_of (rev (map (\<lambda>p. (ap_market p, ap_markPrice p)) ps))"

definition sort_positions :: "(string \<Rightarrow> string \<Rightarrow> jsnum) \<Rightarrow> account_position list \<Rightarrow> account_position list" where
  "sort_positions locale = js_sort (\<lambda>a b. locale (ap_market a) (ap_market b))"

definition assertRecognizedLegacy ::
  "(string \<Rightarrow> string \<Rightarrow> jsnum) \<Rightarrow> digest_fun \<Rightarrow> (account_position list \<Rightarrow> string) \<Rightarrow> 'x stored_account \<Rightarrow> accounting_projection result" where
  "assertRecognizedLegacy locale digest json a =
     bind_r (projectLegacyPaperAccounting locale digest (sa_initialCapital a) (sa_fills a) (position_marks (sa_positions a))) (\<lambda>p.
     guard_r (\<not> js_eq (sa_cash a) (pj_cash p) \<or> \<not> js_eq (sa_realizedPnL a) (pj_realizedPnL p) \<or>
         json (sort_positions locale (sa_positions a)) \<noteq> json (pj_positions p))
       (Error ''PAPER_LEDGER_LEGACY_ACCOUNTING_UNRECOGNIZED'') (Inr p))"

definition reconciliationTolerance :: "nat \<Rightarrow> jsnum" where
  "reconciliationTolerance n = lit (1 / 10 ^ 7) + lit (2 / 10 ^ 8) * js_max (Fin 0) (jint (int n))"

definition within_tolerance :: "jsnum \<Rightarrow> jsnum \<Rightarrow> jsnum \<Rightarrow> bool" where
  "within_tolerance a b tolerance \<longleftrightarrow>
     is_finite a \<and> is_finite b \<and> js_abs (round8 a - round8 b) \<le> tolerance + lit (1 / 10 ^ 12)"

definition position_reconciles :: "jsnum \<Rightarrow> account_position \<Rightarrow> account_position \<Rightarrow> bool" where
  "position_reconciles tolerance state expected \<longleftrightarrow>
     (let wide = tolerance * (Fin 1 + js_max (Fin 1) (ap_quantity expected))
      in ap_market state = ap_market expected \<and>
         js_eq (round8 (ap_quantity state)) (round8 (ap_quantity expected)) \<and>
         js_eq (round8 (ap_markPrice state)) (round8 (ap_markPrice expected)) \<and>
         within_tolerance (ap_averageEntryPrice state) (ap_averageEntryPrice expected) wide \<and>
         within_tolerance (ap_realizedPnL state) (ap_realizedPnL expected) wide \<and>
         within_tolerance (ap_unrealizedPnL state) (ap_unrealizedPnL expected) wide)"

definition reconcilesWithinRounding :: "'x stored_account \<Rightarrow> account_position list \<Rightarrow> accounting_projection \<Rightarrow> bool" where
  "reconcilesWithinRounding a actual p \<longleftrightarrow>
     (let tolerance = reconciliationTolerance (length (sa_fills a))
      in within_tolerance (sa_cash a) (pj_cash p) tolerance \<and> within_tolerance (sa_realizedPnL a) (pj_realizedPnL p) tolerance \<and>
         length actual = length (pj_positions p) \<and> list_all2 (position_reconciles tolerance) actual (pj_positions p))"

definition assertPaperAccountingReconciled ::
  "(string \<Rightarrow> string \<Rightarrow> jsnum) \<Rightarrow> digest_fun \<Rightarrow> 'x stored_account \<Rightarrow> accounting_projection result" where
  "assertPaperAccountingReconciled locale digest a =
     bind_r (projectPaperAccounting locale digest (sa_initialCapital a) (sa_fills a) (position_marks (sa_positions a))) (\<lambda>p.
     guard_r (\<not> reconcilesWithinRounding a (sort_positions locale (sa_positions a)) p)
       (Error ''PAPER_LEDGER_RECONCILIATION_REQUIRED'') (Inr p))"

section \<open>The durable source\<close>

record order_identity =
  oi_id :: string
  oi_idempotencyKey :: string

record 'x paper_account_state =
  ac_version :: jsnum
  ac_initialCapital :: jsnum
  ac_cash :: jsnum
  ac_realizedPnL :: jsnum
  ac_positions :: "account_position list"
  ac_orders :: "order_identity list"
  ac_fills :: "'x paper_fill_record list"
  ac_processedIdempotencyKeys :: "string list"
  ac_workingOrders :: "order_identity list option"
  ac_updatedAt :: jsnum

record 'x accounting_source =
  so_historyStartAt :: jsnum
  so_historyEndAt :: jsnum
  so_fills :: "'x paper_fill_record list"
  so_projection :: accounting_projection

definition note_order :: "order_identity \<Rightarrow> (string \<times> string) list \<Rightarrow> (string \<times> string) list result" where
  "note_order x m =
     guard_r (case map_of m (oi_idempotencyKey x) of None \<Rightarrow> False | Some i \<Rightarrow> i \<noteq> oi_id x)
       (Error ''PAPER_LEDGER_HISTORY_IDEMPOTENCY_CONFLICT'') (Inr (AList.update (oi_idempotencyKey x) (oi_id x) m))"

definition note_fill ::
  "('x paper_fill_record \<Rightarrow> string) \<Rightarrow> 'x paper_fill_record \<Rightarrow> (string \<times> 'x paper_fill_record) list \<Rightarrow>
    (string \<times> 'x paper_fill_record) list result" where
  "note_fill json f m =
     guard_r (case map_of m (fr_id f) of None \<Rightarrow> False | Some g \<Rightarrow> json g \<noteq> json f)
       (Error ''PAPER_LEDGER_HISTORY_FILL_CONFLICT'') (Inr (AList.update (fr_id f) f m))"

definition note_state ::
  "('x paper_fill_record \<Rightarrow> string) \<Rightarrow> 'x paper_account_state \<Rightarrow> (string \<times> string) list \<times> (string \<times> 'x paper_fill_record) list \<Rightarrow>
    ((string \<times> string) list \<times> (string \<times> 'x paper_fill_record) list) result" where
  "note_state json s ks =
     bind_r (fold_r note_order (ac_orders s @ (case ac_workingOrders s of None \<Rightarrow> [] | Some ws \<Rightarrow> ws)) (fst ks)) (\<lambda>keys.
     bind_r (fold_r (note_fill json) (ac_fills s) (snd ks)) (\<lambda>fills. Inr (keys, fills)))"

definition note_durable ::
  "jsnum \<Rightarrow> 'x paper_fill_record \<Rightarrow> (string \<times> 'x paper_fill_record) list \<Rightarrow> (string \<times> 'x paper_fill_record) list result" where
  "note_durable endAt f m =
     (if endAt < fr_filledAt f then Inr m
      else guard_r (map_of m (fr_id f) \<noteq> None) (Error ''PAPER_LEDGER_DURABLE_DUPLICATE_FILL'') (Inr (AList.update (fr_id f) f m)))"

definition history_fills ::
  "(string \<Rightarrow> string \<Rightarrow> jsnum) \<Rightarrow> ('x paper_fill_record \<Rightarrow> string) \<Rightarrow> jsnum \<Rightarrow> (string \<times> 'x paper_fill_record) list \<Rightarrow>
    'x paper_fill_record list option \<Rightarrow> 'x paper_fill_record list result" where
  "history_fills locale json endAt seen durable =
     (case durable of
        None \<Rightarrow> Inr (js_sort (fill_order locale) (map snd seen))
      | Some ds \<Rightarrow>
          bind_r (fold_r (note_durable endAt) ds []) (\<lambda>byId.
          guard_r (list_ex (\<lambda>(i, f). map_option json (map_of byId i) \<noteq> Some (json f)) seen)
            (Error ''PAPER_LEDGER_DURABLE_HISTORY_MISMATCH'')
          (Inr (js_sort (fill_order locale) (map snd byId)))))"

definition buildDurablePaperAccountingSource ::
  "(string \<Rightarrow> string \<Rightarrow> jsnum) \<Rightarrow> digest_fun \<Rightarrow> ('x paper_fill_record \<Rightarrow> string) \<Rightarrow> 'x paper_account_state list \<Rightarrow> jsnum option \<Rightarrow>
    'x paper_fill_record list option \<Rightarrow> 'x accounting_source result" where
  "buildDurablePaperAccountingSource locale digest json history throughAt durable =
     guard_r (history = []) (Error ''PAPER_LEDGER_HISTORY_UNAVAILABLE'')
     (let ordered = js_sort (\<lambda>a b. ac_updatedAt a - ac_updatedAt b)
            (filter (\<lambda>s. case throughAt of None \<Rightarrow> True | Some t \<Rightarrow> ac_updatedAt s \<le> t) history)
      in guard_r (ordered = []) (Error ''PAPER_LEDGER_HISTORY_BOUNDARY_MISSING'')
        (guard_r (\<not> successively (\<lambda>a b. \<not> ac_updatedAt b \<le> ac_updatedAt a) ordered) (Error ''PAPER_LEDGER_HISTORY_CHRONOLOGY_INVALID'')
        (let end_state = last ordered
         in guard_r (case throughAt of None \<Rightarrow> False | Some t \<Rightarrow> \<not> js_eq (ac_updatedAt end_state) t)
              (Error ''PAPER_LEDGER_HISTORY_BOUNDARY_MISSING'')
           (guard_r (list_ex (\<lambda>s. \<not> js_eq (ac_version s) (Fin 1) \<or> \<not> js_eq (ac_initialCapital s) (ac_initialCapital end_state)) ordered)
              (Error ''PAPER_LEDGER_HISTORY_ACCOUNT_IDENTITY_MISMATCH'')
           (bind_r (fold_r (note_state json) ordered ([], [])) (\<lambda>(keys, seen).
            guard_r (list_ex (\<lambda>k. map_of keys k = None) (ac_processedIdempotencyKeys end_state)) (Error ''PAPER_LEDGER_HISTORY_INCOMPLETE'')
           (bind_r (history_fills locale json (ac_updatedAt end_state) seen durable) (\<lambda>fills.
            bind_r (assertPaperAccountingReconciled locale digest \<lparr>sa_initialCapital = ac_initialCapital end_state, sa_fills = fills,
                sa_cash = ac_cash end_state, sa_realizedPnL = ac_realizedPnL end_state, sa_positions = ac_positions end_state\<rparr>) (\<lambda>p.
            Inr \<lparr>so_historyStartAt = ac_updatedAt (hd ordered), so_historyEndAt = ac_updatedAt end_state, so_fills = fills,
              so_projection = p\<rparr>)))))))))"

end
