(* ===== verification/AccountingFacts.thy ===== *)
theory AccountingFacts imports PaperAccounting "HOL-Library.Multiset" begin

text \<open>
  The fixed-point paper ledger of \<open>PaperAccounting\<close>: quantities are exactly what was bought less what was
  sold, cash plus cost basis is the initial capital plus the realized result up to a bounded rounding, and
  the projection does not depend on the order in which the fills are given.
\<close>

section \<open>Rounding of the divisions\<close>

lemma scale_pos: "0 < LEDGER_SCALE"
  by (simp add: LEDGER_SCALE_def)

lemma big_div_nonneg: "0 \<le> a \<Longrightarrow> 0 < b \<Longrightarrow> big_div a b = a div b"
  by (cases "a = 0") (simp_all add: big_div_def)

lemma big_div_neg: "a \<le> 0 \<Longrightarrow> 0 < b \<Longrightarrow> big_div a b = - (- a div b)"
  by (cases "a = 0") (simp_all add: big_div_def)

lemma div_add_bound:
  fixes x y s :: int
  assumes "0 < s"
  shows "0 \<le> (x + y) div s - x div s - y div s \<and> (x + y) div s - x div s - y div s \<le> 1"
proof -
  have m: "0 \<le> x mod s" "x mod s < s" "0 \<le> y mod s" "y mod s < s" using assms by simp_all
  have "(x mod s + y mod s) div s < 2"
  proof (rule ccontr)
    assume "\<not> (x mod s + y mod s) div s < 2"
    then have "s * 2 \<le> s * ((x mod s + y mod s) div s)" using assms by (intro mult_left_mono) simp_all
    moreover have "s * ((x mod s + y mod s) div s) \<le> x mod s + y mod s"
      using mult_div_mod_eq [of s "x mod s + y mod s"] assms pos_mod_sign [of s "x mod s + y mod s"] by linarith
    ultimately show False using m by linarith
  qed
  moreover have "0 \<le> (x mod s + y mod s) div s" using m assms by (simp add: pos_imp_zdiv_nonneg_iff)
  ultimately show ?thesis using div_add1_eq [of x y s] by linarith
qed

text \<open>Selling \<open>q\<close> of cost \<open>a\<close> for the price \<open>p\<close>: proceeds, cost and result are rounded apart by at most one unit.\<close>

lemma sale_rounding:
  assumes "0 \<le> p" "0 \<le> a" "0 \<le> q"
  shows "\<bar>big_div (q * p) LEDGER_SCALE - big_div (a * q) LEDGER_SCALE - big_div ((p - a) * q) LEDGER_SCALE\<bar> \<le> 1"
proof (cases "a \<le> p")
  case True
  have "q * p = a * q + (p - a) * q" by (simp add: algebra_simps)
  then show ?thesis using div_add_bound [OF scale_pos, of "a * q" "(p - a) * q"] True assms
    by (simp add: big_div_nonneg scale_pos)
next
  case False
  have "a * q = q * p + (a - p) * q" by (simp add: algebra_simps)
  moreover have "big_div ((p - a) * q) LEDGER_SCALE = - (((a - p) * q) div LEDGER_SCALE)"
  proof -
    have "(p - a) * q \<le> 0" using False assms(3) by (simp add: mult_nonpos_nonneg)
    moreover have "- ((p - a) * q) = (a - p) * q" by (simp add: algebra_simps)
    ultimately show ?thesis using big_div_neg [OF _ scale_pos] by metis
  qed
  ultimately show ?thesis using div_add_bound [OF scale_pos, of "q * p" "(a - p) * q"] False assms
    by (simp add: big_div_nonneg scale_pos)
qed

text \<open>What the truncated average loses when a whole position is sold, and that a part never costs more than the whole.\<close>

lemma average_residual:
  assumes "0 \<le> c" "0 < q"
  shows "0 \<le> c - (((c * LEDGER_SCALE) div q) * q) div LEDGER_SCALE \<and>
    c - (((c * LEDGER_SCALE) div q) * q) div LEDGER_SCALE \<le> q div LEDGER_SCALE + 1"
proof -
  define r where "r = (c * LEDGER_SCALE) mod q"
  have r: "0 \<le> r" "r < q" using assms by (simp_all add: r_def)
  have e: "((c * LEDGER_SCALE) div q) * q = c * LEDGER_SCALE - r"
    using div_mult_mod_eq [of "c * LEDGER_SCALE" q] unfolding r_def by linarith
  have "(c * LEDGER_SCALE - r) div LEDGER_SCALE = c + (- r) div LEDGER_SCALE"
    using div_mult_self4 [of LEDGER_SCALE c "- r"] scale_pos by (simp add: algebra_simps)
  moreover have "(- r) div LEDGER_SCALE \<le> 0" using r scale_pos by (simp add: div_nonpos_pos_le0)
  moreover have "- (q div LEDGER_SCALE) - 1 \<le> (- r) div LEDGER_SCALE"
  proof -
    have "r div LEDGER_SCALE \<le> q div LEDGER_SCALE" using r scale_pos by (intro zdiv_mono1) auto
    moreover have "- (r div LEDGER_SCALE) - 1 \<le> (- r) div LEDGER_SCALE"
      using div_add_bound [OF scale_pos, of r "- r"] by simp
    ultimately show ?thesis by linarith
  qed
  ultimately show ?thesis unfolding e by linarith
qed

lemma part_cost:
  assumes "0 \<le> c" "0 < q" "0 \<le> n" "n \<le> q"
  shows "(((c * LEDGER_SCALE) div q) * n) div LEDGER_SCALE \<le> c"
proof -
  have a: "0 \<le> (c * LEDGER_SCALE) div q" using assms scale_pos by (simp add: pos_imp_zdiv_nonneg_iff)
  have "((c * LEDGER_SCALE) div q) * n \<le> ((c * LEDGER_SCALE) div q) * q" using assms(4) a by (rule mult_left_mono)
  then have "(((c * LEDGER_SCALE) div q) * n) div LEDGER_SCALE \<le> (((c * LEDGER_SCALE) div q) * q) div LEDGER_SCALE"
    using scale_pos by (intro zdiv_mono1)
  then show ?thesis using average_residual [OF assms(1,2)] by linarith
qed

section \<open>One trade\<close>

definition position_ok :: "mutable_position \<Rightarrow> bool" where
  "position_ok p \<longleftrightarrow> 0 \<le> mp_quantity p \<and> 0 \<le> mp_costBasis p \<and> (mp_quantity p = 0 \<longrightarrow> mp_costBasis p = 0)"

definition trade_slack :: "fill_side \<Rightarrow> int \<Rightarrow> int" where
  "trade_slack side q = (case side of FillBuy \<Rightarrow> 0 | FillSell \<Rightarrow> q div LEDGER_SCALE + 2)"

lemma ledger_trade_facts:
  assumes "ledger_trade side q price fee (cash, realized, p) = Inr (cash', realized', p')" "0 < q" "0 \<le> price" "0 \<le> fee" "position_ok p"
  shows "position_ok p' \<and> mp_quantity p' = mp_quantity p + (case side of FillBuy \<Rightarrow> q | FillSell \<Rightarrow> - q) \<and>
    realized' - realized = mp_realizedPnL p' - mp_realizedPnL p \<and>
    \<bar>(cash' + mp_costBasis p' - realized') - (cash + mp_costBasis p - realized)\<bar> \<le> trade_slack side q \<and>
    (side = FillBuy \<longrightarrow> 0 \<le> cash')"
proof (cases side)
  case FillBuy
  have "0 \<le> big_div (q * price) LEDGER_SCALE"
    using assms(2,3) scale_pos by (simp add: big_div_nonneg pos_imp_zdiv_nonneg_iff)
  then show ?thesis using assms FillBuy
    by (auto simp: ledger_trade_def Let_def result_simps position_ok_def trade_slack_def)
next
  case FillSell
  let ?a = "average_price p"
  have le: "q \<le> mp_quantity p" using assms(1) FillSell by (auto simp: ledger_trade_def Let_def result_simps)
  then have pos: "0 < mp_quantity p" using assms(2) by linarith
  have c0: "0 \<le> mp_costBasis p" using assms(5) by (simp add: position_ok_def)
  have a: "?a = (mp_costBasis p * LEDGER_SCALE) div mp_quantity p"
    using pos c0 scale_pos by (simp add: average_price_def big_div_nonneg)
  have a0: "0 \<le> ?a" unfolding a using pos c0 scale_pos by (simp add: pos_imp_zdiv_nonneg_iff)
  have cost: "big_div (?a * q) LEDGER_SCALE = (?a * q) div LEDGER_SCALE" using a0 assms(2) by (simp add: big_div_nonneg scale_pos)
  have e: "cash' = cash + (big_div (q * price) LEDGER_SCALE - fee)"
    "realized' = realized + (big_div ((price - ?a) * q) LEDGER_SCALE - fee)"
    "p' = p\<lparr>mp_realizedPnL := mp_realizedPnL p + (big_div ((price - ?a) * q) LEDGER_SCALE - fee), mp_quantity := mp_quantity p - q,
        mp_costBasis := (if mp_quantity p - q = 0 then 0 else mp_costBasis p - big_div (?a * q) LEDGER_SCALE)\<rparr>"
    using assms(1) FillSell by (auto simp: ledger_trade_def Let_def result_simps)
  have part: "(?a * q) div LEDGER_SCALE \<le> mp_costBasis p" unfolding a using part_cost [OF c0 pos _ le] assms(2) by simp
  have r: "\<bar>big_div (q * price) LEDGER_SCALE - big_div (?a * q) LEDGER_SCALE - big_div ((price - ?a) * q) LEDGER_SCALE\<bar> \<le> 1"
    using assms(2,3) a0 by (intro sale_rounding) simp_all
  have q0: "0 \<le> q div LEDGER_SCALE" using assms(2) scale_pos by (simp add: pos_imp_zdiv_nonneg_iff)
  have res: "0 \<le> mp_costBasis p - (?a * q) div LEDGER_SCALE \<and> mp_costBasis p - (?a * q) div LEDGER_SCALE \<le> q div LEDGER_SCALE + 1"
    if "mp_quantity p - q = 0"
    unfolding a using average_residual [OF c0 pos] that by simp
  have "position_ok p'" using le part cost e(3) by (simp add: position_ok_def)
  moreover have "\<bar>(cash' + mp_costBasis p' - realized') - (cash + mp_costBasis p - realized)\<bar> \<le> q div LEDGER_SCALE + 2"
  proof (cases "mp_quantity p - q = 0")
    case True
    have "cash' + mp_costBasis p' - realized' - (cash + mp_costBasis p - realized) =
        (big_div (q * price) LEDGER_SCALE - big_div (?a * q) LEDGER_SCALE - big_div ((price - ?a) * q) LEDGER_SCALE) -
        (mp_costBasis p - (?a * q) div LEDGER_SCALE)" using e True cost by simp
    then show ?thesis using r res [OF True] by linarith
  next
    case False
    then show ?thesis using e r cost q0 by simp
  qed
  ultimately show ?thesis using e FillSell by (simp add: trade_slack_def)
qed

section \<open>The whole ledger\<close>

definition amount :: "jsnum \<Rightarrow> int" where
  "amount v = (case scaled v of Inl _ \<Rightarrow> 0 | Inr n \<Rightarrow> n)"

definition net_quantity :: "string \<Rightarrow> 'x paper_fill_record list \<Rightarrow> int" where
  "net_quantity m fs = sum_list (map (\<lambda>f. if fr_market f = m
     then (case fr_side f of FillBuy \<Rightarrow> amount (fr_quantity f) | FillSell \<Rightarrow> - amount (fr_quantity f)) else 0) fs)"

definition rounding_slack :: "'x paper_fill_record list \<Rightarrow> int" where
  "rounding_slack fs = sum_list (map (\<lambda>f. trade_slack (fr_side f) (amount (fr_quantity f))) fs)"

definition total_of :: "(mutable_position \<Rightarrow> int) \<Rightarrow> (string \<times> mutable_position) list \<Rightarrow> int" where
  "total_of g ps = sum_list (map (\<lambda>p. g (snd p)) ps)"

definition ledger_invariant :: "int \<Rightarrow> 'x paper_fill_record list \<Rightarrow> ledger_state \<Rightarrow> bool" where
  "ledger_invariant start fs s \<longleftrightarrow>
     distinct (map fst (ld_positions s)) \<and> (\<forall>(m, p) \<in> set (ld_positions s). position_ok p) \<and>
     (\<forall>m. (case map_of (ld_positions s) m of None \<Rightarrow> 0 | Some p \<Rightarrow> mp_quantity p) = net_quantity m fs) \<and>
     ld_realized s = total_of mp_realizedPnL (ld_positions s) \<and>
     \<bar>ld_cash s + total_of mp_costBasis (ld_positions s) - ld_realized s - start\<bar> \<le> rounding_slack fs \<and>
     length (ld_journal s) = length fs"

lemma total_of_update:
  "distinct (map fst ps) \<Longrightarrow>
    total_of g (AList.update k v ps) = total_of g ps + g v - (case map_of ps k of None \<Rightarrow> 0 | Some w \<Rightarrow> g w)"
proof (induction ps)
  case (Cons p ps)
  obtain i w where p: "p = (i, w)" by force
  show ?case
  proof (cases "i = k")
    case True
    then have "k \<notin> fst ` set ps" using Cons.prems p by simp
    then have "map_of ps k = None" by (simp add: map_of_eq_None_iff)
    then show ?thesis using True p by (simp add: total_of_def)
  next
    case False
    then show ?thesis using Cons p by (simp add: total_of_def)
  qed
qed (simp add: total_of_def)

lemma scaled_nonneg:
  assumes "\<not> v < Fin 0" "scaled v = Inr n"
  shows "0 \<le> n"
proof -
  have "0 \<le> fixed_units 12 \<bar>jval v\<bar>" by (simp add: fixed_units_nonneg)
  moreover have "n = (fixed_units 12 \<bar>jval v\<bar> + 5000) div 10000"
    using assms by (simp add: scaled_def result_simps Let_def)
  ultimately show ?thesis by (simp add: pos_imp_zdiv_nonneg_iff)
qed

lemma ledger_apply_invariant:
  assumes "ledger_invariant start fs s" "ledger_apply marks f s = Inr t" "valid_fill f" "0 < amount (fr_quantity f)"
  shows "ledger_invariant start (fs @ [f]) t"
proof -
  obtain q price fee cash realized p where a: "scaled (fr_quantity f) = Inr q" "scaled (fr_price f) = Inr price" "scaled (fr_fee f) = Inr fee"
    "ledger_trade (fr_side f) q price fee (ld_cash s, ld_realized s, ledger_position f s) = Inr (cash, realized, p)"
    "ld_cash t = cash" "ld_realized t = realized"
    "ld_positions t = AList.update (fr_market f) (p\<lparr>mp_markPrice := mark_of marks (fr_market f) (fr_price f)\<rparr>) (ld_positions s)"
    "length (ld_journal t) = Suc (length (ld_journal s))"
    using assms(2) by (auto simp: ledger_apply_def result_simps Let_def)
  let ?before = "ledger_position f s" and ?p = "p\<lparr>mp_markPrice := mark_of marks (fr_market f) (fr_price f)\<rparr>" and ?m = "fr_market f"
  have q: "amount (fr_quantity f) = q" "0 < q" using assms(4) a(1) by (simp_all add: amount_def)
  have "\<not> fr_price f < Fin 0" "\<not> fr_fee f < Fin 0"
    using assms(3) jless_imp_le [of "fr_price f" "Fin 0"] by (simp_all add: valid_fill_def, blast)
  then have pf: "0 \<le> price" "0 \<le> fee" using scaled_nonneg a(2,3) by blast+
  have inv: "distinct (map fst (ld_positions s))" "\<forall>(m, p) \<in> set (ld_positions s). position_ok p"
    "\<And>m. (case map_of (ld_positions s) m of None \<Rightarrow> 0 | Some p \<Rightarrow> mp_quantity p) = net_quantity m fs"
    "ld_realized s = total_of mp_realizedPnL (ld_positions s)"
    "\<bar>ld_cash s + total_of mp_costBasis (ld_positions s) - ld_realized s - start\<bar> \<le> rounding_slack fs"
    "length (ld_journal s) = length fs" using assms(1) unfolding ledger_invariant_def by blast+
  have p0: "position_ok ?before"
  proof (cases "map_of (ld_positions s) ?m")
    case None
    then show ?thesis by (simp add: ledger_position_def position_ok_def)
  next
    case (Some w)
    then show ?thesis using inv(2) map_of_SomeD [OF Some] by (auto simp: ledger_position_def)
  qed
  have old: "(case map_of (ld_positions s) ?m of None \<Rightarrow> 0 | Some w \<Rightarrow> g w) = g ?before"
    if "\<And>x. g \<lparr>mp_quantity = 0, mp_costBasis = 0, mp_realizedPnL = 0, mp_markPrice = x\<rparr> = 0" for g :: "mutable_position \<Rightarrow> int"
    using that by (simp add: ledger_position_def split: option.split)
  note tr = ledger_trade_facts [OF a(4) q(2) pf p0]
  have tot: "total_of g (ld_positions t) = total_of g (ld_positions s) + g ?p - g ?before"
    if "\<And>x. g \<lparr>mp_quantity = 0, mp_costBasis = 0, mp_realizedPnL = 0, mp_markPrice = x\<rparr> = 0" for g
    unfolding a(7) using total_of_update [OF inv(1)] old [of g] that by simp
  have dist: "distinct (map fst (ld_positions t))" unfolding a(7) using inv(1) by (rule distinct_update)
  moreover have "\<forall>(m, p) \<in> set (ld_positions t). position_ok p"
  proof -
    have "position_ok ?p" using conjunct1 [OF tr] by (simp add: position_ok_def)
    moreover have "x = ?p \<or> (m, x) \<in> set (ld_positions s)" if "(m, x) \<in> set (ld_positions t)" for m x
    proof -
      have "map_of (ld_positions t) m = Some x" using dist that by (rule map_of_is_SomeI)
      then show ?thesis unfolding a(7) by (auto simp: update_conv' split: if_splits dest: map_of_SomeD)
    qed
    ultimately show ?thesis using inv(2) by blast
  qed
  moreover have "(case map_of (ld_positions t) m of None \<Rightarrow> 0 | Some p \<Rightarrow> mp_quantity p) = net_quantity m (fs @ [f])" for m
  proof (cases "m = ?m")
    case True
    have "mp_quantity ?before = net_quantity ?m fs" using inv(3) [of ?m] old [of mp_quantity] by simp
    then show ?thesis using True tr q(1) unfolding a(7) by (simp add: net_quantity_def split: fill_side.split)
  next
    case False
    then show ?thesis using inv(3) [of m] unfolding a(7) by (simp add: net_quantity_def)
  qed
  moreover have "ld_realized t = total_of mp_realizedPnL (ld_positions t)"
    using tot [of mp_realizedPnL] tr inv(4) a(6) by simp
  moreover have "\<bar>ld_cash t + total_of mp_costBasis (ld_positions t) - ld_realized t - start\<bar> \<le> rounding_slack (fs @ [f])"
  proof -
    have "rounding_slack (fs @ [f]) = rounding_slack fs + trade_slack (fr_side f) q" using q(1) by (simp add: rounding_slack_def)
    moreover have "total_of mp_costBasis (ld_positions t) = total_of mp_costBasis (ld_positions s) + mp_costBasis p - mp_costBasis ?before"
      using tot [of mp_costBasis] by simp
    ultimately show ?thesis using tr inv(5) a(5,6) by linarith
  qed
  ultimately show ?thesis using a(8) inv(6) by (simp add: ledger_invariant_def)
qed

lemma ledger_fold_invariant:
  assumes "fold_r (ledger_apply marks) gs s = Inr t" "ledger_invariant start fs s" "\<forall>f \<in> set gs. valid_fill f \<and> 0 < amount (fr_quantity f)"
  shows "ledger_invariant start (fs @ gs) t"
  using assms
proof (induction gs arbitrary: fs s)
  case (Cons f gs)
  then obtain u where "ledger_apply marks f s = Inr u" "fold_r (ledger_apply marks) gs u = Inr t" by (auto simp: result_simps)
  then show ?case using Cons.IH [of u "fs @ [f]"] ledger_apply_invariant [OF Cons.prems(2)] Cons.prems(3) by simp
qed simp

lemma check_fills_Inr: "check_fills ids fs = Inr u \<Longrightarrow>
    (\<forall>f \<in> set fs. valid_fill f \<and> \<not> blank (fr_id f)) \<and> distinct (map fr_id fs) \<and> fr_id ` set fs \<inter> set ids = {}"
  by (induction ids fs rule: check_fills.induct) (auto simp: result_simps)

lemma net_quantity_mset: "mset fs = mset gs \<Longrightarrow> net_quantity m fs = net_quantity m gs"
  unfolding net_quantity_def by (simp add: sum_mset_sum_list [symmetric])

lemma rounding_slack_mset: "mset fs = mset gs \<Longrightarrow> rounding_slack fs = rounding_slack gs"
  unfolding rounding_slack_def by (simp add: sum_mset_sum_list [symmetric])

lemma ledger_invariant_mset: "mset fs = mset gs \<Longrightarrow> ledger_invariant start fs s = ledger_invariant start gs s"
  using net_quantity_mset [of fs gs] rounding_slack_mset [of fs gs] mset_eq_length [of fs gs] unfolding ledger_invariant_def by presburger

lemma mset_js_insert: "mset (js_insert cmp x ys) = add_mset x (mset ys)"
  by (induction ys) auto

lemma mset_js_sort [simp]: "mset (js_sort cmp xs) = mset xs"
  by (induction xs) (simp_all add: js_sort_def mset_js_insert)

lemma canonicalFillOrder_Inr:
  "canonicalFillOrder locale fills = Inr ordered \<Longrightarrow> ordered = js_sort (fill_order locale) fills \<and> check_fills [] ordered = Inr ()"
  by (auto simp: canonicalFillOrder_def Let_def result_simps)

text \<open>C27: after any accepted replay, each market holds exactly what was bought less what was sold, never less than nothing, a flat
  position has no cost, the realized result is the sum over the positions, the journal has one entry per fill, and cash plus cost
  basis less realized result is the initial capital up to the rounding of the sales: two units of \<open>10^-8\<close> for each sale and one for
  each whole coin sold.  (Amounts below half a unit, which round to nothing, are excluded.)\<close>

theorem ledger_accounts_for_every_fill:
  assumes "ledger_replay locale initialCapital fills marks = Inr s" "scaled initialCapital = Inr start"
    "\<forall>f \<in> set fills. 0 < amount (fr_quantity f)"
  shows "(\<forall>m. (case map_of (ld_positions s) m of None \<Rightarrow> 0 | Some p \<Rightarrow> mp_quantity p) = net_quantity m fills) \<and>
    (\<forall>(m, p) \<in> set (ld_positions s). 0 \<le> mp_quantity p \<and> 0 \<le> mp_costBasis p \<and> (mp_quantity p = 0 \<longrightarrow> mp_costBasis p = 0)) \<and>
    ld_realized s = total_of mp_realizedPnL (ld_positions s) \<and> length (ld_journal s) = length fills \<and>
    \<bar>ld_cash s + total_of mp_costBasis (ld_positions s) - ld_realized s - start\<bar> \<le> rounding_slack fills"
proof -
  let ?s0 = "\<lparr>ld_cash = start, ld_realized = 0, ld_positions = [], ld_journal = []\<rparr>"
  obtain ordered where o: "canonicalFillOrder locale fills = Inr ordered" "fold_r (ledger_apply marks) ordered ?s0 = Inr s"
    using assms(1,2) by (auto simp: ledger_replay_def ledger_start_def result_simps)
  note c = canonicalFillOrder_Inr [OF o(1)]
  then have m: "mset ordered = mset fills" "set ordered = set fills" by simp_all
  have "ledger_invariant start [] ?s0" by (simp add: ledger_invariant_def total_of_def net_quantity_def rounding_slack_def)
  then have "ledger_invariant start ([] @ ordered) s"
    using ledger_fold_invariant [OF o(2)] check_fills_Inr [of "[]" ordered] c assms(3) m(2) by blast
  then have "ledger_invariant start fills s"
    using ledger_invariant_mset [OF m(1), of start s] by simp
  then show ?thesis unfolding ledger_invariant_def position_ok_def by blast
qed

section \<open>The order of the fills\<close>

text \<open>\<open>collates c S\<close>: on the texts of \<open>S\<close>, the comparison \<open>c\<close> puts any two different texts in one order, consistently.\<close>

definition collates :: "(string \<Rightarrow> string \<Rightarrow> jsnum) \<Rightarrow> string set \<Rightarrow> bool" where
  "collates c S \<longleftrightarrow>
     (\<forall>a\<in>S. \<forall>b\<in>S. (Fin 0 < c a b \<longrightarrow> \<not> Fin 0 < c b a) \<and> (a \<noteq> b \<longrightarrow> Fin 0 < c a b \<or> Fin 0 < c b a)) \<and>
     (\<forall>a\<in>S. \<forall>b\<in>S. \<forall>d\<in>S. Fin 0 < c a b \<longrightarrow> Fin 0 < c b d \<longrightarrow> Fin 0 < c a d)"

lemma sorted_wrt_mset_unique:
  assumes "sorted_wrt R xs" "sorted_wrt R ys" "mset xs = mset ys"
    "\<And>a b. a \<in> set xs \<Longrightarrow> b \<in> set xs \<Longrightarrow> R a b \<Longrightarrow> R b a \<Longrightarrow> a = b"
  shows "xs = ys"
  using assms
proof (induction xs arbitrary: ys)
  case (Cons x xs)
  obtain y zs where ys: "ys = y # zs" using Cons.prems(3) by (cases ys) auto
  have "set (x # xs) = set ys" using Cons.prems(3) by (rule mset_eq_setD)
  then have "y \<in> set (x # xs)" "x \<in> set (y # zs)" using ys by auto
  then have "x = y" using Cons.prems(1,2,4) ys by (cases "x = y") auto
  then show ?case using Cons.IH [of zs] Cons.prems ys by simp
qed simp

text \<open>A comparator orders a set when "not after" is total and transitive on it.\<close>

definition orders :: "('a \<Rightarrow> 'a \<Rightarrow> jsnum) \<Rightarrow> 'a set \<Rightarrow> bool" where
  "orders cmp S \<longleftrightarrow>
     (\<forall>a\<in>S. \<forall>b\<in>S. Fin 0 < cmp a b \<longrightarrow> \<not> Fin 0 < cmp b a) \<and>
     (\<forall>a\<in>S. \<forall>b\<in>S. \<forall>d\<in>S. \<not> Fin 0 < cmp a b \<longrightarrow> \<not> Fin 0 < cmp b d \<longrightarrow> \<not> Fin 0 < cmp a d)"

lemma orders_asym: "orders cmp S \<Longrightarrow> a \<in> S \<Longrightarrow> b \<in> S \<Longrightarrow> Fin 0 < cmp a b \<Longrightarrow> \<not> Fin 0 < cmp b a"
  unfolding orders_def by blast

lemma orders_trans:
  "orders cmp S \<Longrightarrow> a \<in> S \<Longrightarrow> b \<in> S \<Longrightarrow> d \<in> S \<Longrightarrow> \<not> Fin 0 < cmp a b \<Longrightarrow> \<not> Fin 0 < cmp b d \<Longrightarrow> \<not> Fin 0 < cmp a d"
  unfolding orders_def by blast

lemma sorted_js_insert:
  assumes "orders cmp S" "x \<in> S"
  shows "set ys \<subseteq> S \<Longrightarrow> sorted_wrt (\<lambda>a b. \<not> Fin 0 < cmp a b) ys \<Longrightarrow>
    sorted_wrt (\<lambda>a b. \<not> Fin 0 < cmp a b) (js_insert cmp x ys)"
proof (induction ys)
  case (Cons y ys)
  then have y: "y \<in> S" "set ys \<subseteq> S" by simp_all
  show ?case
  proof (cases "Fin 0 < cmp x y")
    case True
    then show ?thesis using Cons orders_asym [OF assms y(1) True] by simp
  next
    case False
    have "\<not> Fin 0 < cmp x z" if "z \<in> set ys" for z
      using orders_trans [OF assms y(1) _ False, of z] that y(2) Cons.prems(2) by auto
    then show ?thesis using False Cons.prems(2) by simp
  qed
qed simp

lemma sorted_js_sort:
  assumes "orders cmp S"
  shows "set xs \<subseteq> S \<Longrightarrow> sorted_wrt (\<lambda>a b. \<not> Fin 0 < cmp a b) (js_sort cmp xs)"
proof (induction xs)
  case (Cons x xs)
  then have "sorted_wrt (\<lambda>a b. \<not> Fin 0 < cmp a b) (js_insert cmp x (js_sort cmp xs))"
    by (intro sorted_js_insert [OF assms]) simp_all
  then show ?case by (simp add: js_sort_def)
qed (simp add: js_sort_def)

lemma fill_order_after:
  assumes "jis (fr_filledAt f) m" "jis (fr_filledAt g) n" "0 \<le> m" "m < 2 ^ 53" "0 \<le> n" "n < 2 ^ 53"
  shows "Fin 0 < fill_order c f g \<longleftrightarrow> n < m \<or> (m = n \<and> Fin 0 < c (fr_id f) (fr_id g))"
proof -
  have d: "jis (fr_filledAt f - fr_filledAt g) (m - n)" by (rule jis_sub [OF assms(1,2)]) (use assms(3-6) in linarith)
  then have "fr_filledAt f - fr_filledAt g \<noteq> NaN" by (auto simp: jis_def)
  moreover have "jzero (fr_filledAt f - fr_filledAt g) \<longleftrightarrow> m = n" using d by (auto simp: jis_def jzero_def)
  ultimately show ?thesis using jis_less [OF _ d, of "Fin 0" 0] by (simp add: fill_order_def js_or_def)
qed

lemma valid_fill_time:
  assumes "valid_fill f"
  obtains m where "jis (fr_filledAt f) m" "0 \<le> m" "m < 2 ^ 53"
proof -
  obtain m where m: "jis (fr_filledAt f) m" "\<bar>m\<bar> < 2 ^ 53"
    using assms by (auto simp: valid_fill_def is_safe_integer_jis)
  have "\<not> fr_filledAt f < Fin 0" using assms by (simp add: valid_fill_def)
  then have "0 \<le> m" using jis_less [OF m(1), of "Fin 0" 0] by simp
  then show thesis using m that by simp
qed

text \<open>The time a valid fill carries, as an integer.\<close>

definition fill_time :: "'x paper_fill_record \<Rightarrow> int" where
  "fill_time f = \<lfloor>jval (fr_filledAt f)\<rfloor>"

lemma fill_order_time:
  assumes "valid_fill f" "valid_fill g"
  shows "Fin 0 < fill_order c f g \<longleftrightarrow> fill_time g < fill_time f \<or> (fill_time f = fill_time g \<and> Fin 0 < c (fr_id f) (fr_id g))"
proof -
  obtain m n where "jis (fr_filledAt f) m" "0 \<le> m" "m < 2 ^ 53" "jis (fr_filledAt g) n" "0 \<le> n" "n < 2 ^ 53"
    using valid_fill_time [OF assms(1)] valid_fill_time [OF assms(2)] by metis
  moreover have "fill_time f = m" "fill_time g = n" using calculation by (simp_all add: fill_time_def jis_def)
  ultimately show ?thesis by (simp add: fill_order_after)
qed

lemma fill_sort_unique:
  assumes "\<forall>f \<in> set fs. valid_fill f" "distinct (map fr_id fs)" "collates c (fr_id ` set fs)" "mset gs = mset fs"
  shows "js_sort (fill_order c) gs = js_sort (fill_order c) fs"
proof -
  have col: "\<And>f g. f \<in> set fs \<Longrightarrow> g \<in> set fs \<Longrightarrow> Fin 0 < c (fr_id f) (fr_id g) \<Longrightarrow> \<not> Fin 0 < c (fr_id g) (fr_id f)"
    "\<And>f g. f \<in> set fs \<Longrightarrow> g \<in> set fs \<Longrightarrow> fr_id f \<noteq> fr_id g \<Longrightarrow> Fin 0 < c (fr_id f) (fr_id g) \<or> Fin 0 < c (fr_id g) (fr_id f)"
    "\<And>f g h. f \<in> set fs \<Longrightarrow> g \<in> set fs \<Longrightarrow> h \<in> set fs \<Longrightarrow> Fin 0 < c (fr_id f) (fr_id g) \<Longrightarrow>
      Fin 0 < c (fr_id g) (fr_id h) \<Longrightarrow> Fin 0 < c (fr_id f) (fr_id h)"
    using assms(3) unfolding collates_def by blast+
  have ord: "Fin 0 < fill_order c f g \<longleftrightarrow> fill_time g < fill_time f \<or> (fill_time f = fill_time g \<and> Fin 0 < c (fr_id f) (fr_id g))"
    if "f \<in> set fs" "g \<in> set fs" for f g using fill_order_time assms(1) that by blast
  have eq: "f = g" if "f \<in> set fs" "g \<in> set fs" "fr_id f = fr_id g" for f g
    using assms(2) that by (simp add: distinct_map inj_on_def)
  have asym: "\<not> Fin 0 < fill_order c g f" if "f \<in> set fs" "g \<in> set fs" "Fin 0 < fill_order c f g" for f g
    using that col(1) [of f g] by (auto simp: ord)
  have trans: "\<not> Fin 0 < fill_order c f h" if S: "f \<in> set fs" "g \<in> set fs" "h \<in> set fs" and
    n: "\<not> Fin 0 < fill_order c f g" "\<not> Fin 0 < fill_order c g h" for f g h
  proof
    assume a: "Fin 0 < fill_order c f h"
    have t: "fill_time f \<le> fill_time g" "fill_time g \<le> fill_time h" "fill_time h \<le> fill_time f"
      using n a S by (auto simp: ord)
    then have t: "fill_time f = fill_time g" "fill_time g = fill_time h" by linarith+
    then have c: "\<not> Fin 0 < c (fr_id f) (fr_id g)" "\<not> Fin 0 < c (fr_id g) (fr_id h)" "Fin 0 < c (fr_id f) (fr_id h)"
      using n a S by (auto simp: ord)
    show False
    proof (cases "fr_id f = fr_id g \<or> fr_id g = fr_id h")
      case True
      then show False using c by auto
    next
      case False
      then have "Fin 0 < c (fr_id g) (fr_id f)" "Fin 0 < c (fr_id h) (fr_id g)" using c col(2) S by blast+
      then have "Fin 0 < c (fr_id h) (fr_id f)" using col(3) S by blast
      then show False using c(3) col(1) S by blast
    qed
  qed
  have anti: "f = g" if S: "f \<in> set fs" "g \<in> set fs" and n: "\<not> Fin 0 < fill_order c f g" "\<not> Fin 0 < fill_order c g f" for f g
  proof (rule eq [OF S], rule ccontr)
    assume "fr_id f \<noteq> fr_id g"
    then show False using n col(2) S by (auto simp: ord)
  qed
  have sets: "set gs = set fs" using assms(4) by (rule mset_eq_setD)
  have "orders (fill_order c) (set fs)" using asym trans unfolding orders_def by blast
  note sorted = sorted_js_sort [OF this]
  have "mset (js_sort (fill_order c) gs) = mset (js_sort (fill_order c) fs)" using assms(4) by simp
  then show ?thesis using anti sorted [of gs] sorted [of fs] by (intro sorted_wrt_mset_unique [where R = "\<lambda>a b. \<not> Fin 0 < fill_order c a b"]) (simp_all add: sets)
qed

text \<open>C28: the projection of an account depends on its fills and not on the order in which they are listed: any rearrangement of an
  accepted list of fills gives the same cash, positions, journal and fingerprint, provided \<open>localeCompare\<close> orders the
  fills' identifiers consistently.\<close>

theorem projection_order_independent:
  assumes "projectPaperAccounting locale digest initialCapital fills marks = Inr p" "mset fills' = mset fills"
    "collates locale (fr_id ` set fills)"
  shows "projectPaperAccounting locale digest initialCapital fills' marks = Inr p"
proof -
  obtain s where "ledger_replay locale initialCapital fills marks = Inr s"
    using assms(1) by (auto simp: projectPaperAccounting_def result_simps)
  then obtain ordered where "canonicalFillOrder locale fills = Inr ordered"
    by (auto simp: ledger_replay_def result_simps)
  then have c: "check_fills [] (js_sort (fill_order locale) fills) = Inr ()" using canonicalFillOrder_Inr by blast
  note ok = check_fills_Inr [OF c]
  have "mset (map fr_id (js_sort (fill_order locale) fills)) = mset (map fr_id fills)" by simp
  then have "distinct (map fr_id fills)" using ok mset_eq_imp_distinct_iff by blast
  then have "js_sort (fill_order locale) fills' = js_sort (fill_order locale) fills"
    using ok assms(2,3) by (intro fill_sort_unique) simp_all
  then have "projectPaperAccounting locale digest initialCapital fills' marks = projectPaperAccounting locale digest initialCapital fills marks"
    by (simp add: projectPaperAccounting_def ledger_replay_def canonicalFillOrder_def)
  then show ?thesis using assms(1) by simp
qed

section \<open>A concrete account\<close>

definition sample_fills :: "unit paper_fill_record list" where
  "sample_fills =
     [\<lparr>fr_id = ''f2'', fr_orderId = ''o2'', fr_market = ''BTC'', fr_side = FillSell, fr_quantity = Fin 1, fr_price = Fin 110, fr_fee = Fin 1,
        fr_filledAt = Fin 20, fr_evidence = ()\<rparr>,
      \<lparr>fr_id = ''f1'', fr_orderId = ''o1'', fr_market = ''BTC'', fr_side = FillBuy, fr_quantity = Fin 2, fr_price = Fin 100, fr_fee = Fin 1,
        fr_filledAt = Fin 10, fr_evidence = ()\<rparr>]"

definition sample_locale :: "string \<Rightarrow> string \<Rightarrow> jsnum" where
  "sample_locale a b = (if a = b then Fin 0 else if a = ''f1'' then Fin (-1) else Fin 1)"

text \<open>Buying two at 100 and selling one at 110, a fee of 1 each way: 908 in cash, 8.5 gained, 100.5 of cost left.\<close>

definition sample_ledger :: ledger_state where
  "sample_ledger =
     \<lparr>ld_cash = 90800000000, ld_realized = 850000000,
      ld_positions = [(''BTC'', \<lparr>mp_quantity = 100000000, mp_costBasis = 10050000000, mp_realizedPnL = 850000000, mp_markPrice = Fin 110\<rparr>)],
      ld_journal =
        [\<lparr>je_sequence = 1, je_fillId = ''f1'', je_orderId = ''o1'', je_market = ''BTC'', je_side = FillBuy, je_quantity = Fin 2,
           je_price = Fin 100, je_fee = Fin 1, je_cashAfter = Fin 799, je_positionQuantityAfter = Fin 2,
           je_averageEntryPriceAfter = Fin (201 / 2), je_realizedPnLAfter = Fin 0, je_occurredAt = Fin 10\<rparr>,
         \<lparr>je_sequence = 2, je_fillId = ''f2'', je_orderId = ''o2'', je_market = ''BTC'', je_side = FillSell, je_quantity = Fin 1,
           je_price = Fin 110, je_fee = Fin 1, je_cashAfter = Fin 908, je_positionQuantityAfter = Fin 1,
           je_averageEntryPriceAfter = Fin (201 / 2), je_realizedPnLAfter = Fin (17 / 2), je_occurredAt = Fin 20\<rparr>]\<rparr>"

lemma sample_ledger_replay: "ledger_replay sample_locale (Fin 1000) sample_fills (\<lambda>_. None) = Inr sample_ledger"
  by code_simp

theorem ledger_accounts_for_every_fill_witness:
  "ledger_replay sample_locale (Fin 1000) sample_fills (\<lambda>_. None) = Inr sample_ledger \<and>
   net_quantity ''BTC'' sample_fills = 100000000 \<and> rounding_slack sample_fills = 3 \<and>
   \<bar>ld_cash sample_ledger + total_of mp_costBasis (ld_positions sample_ledger) - ld_realized sample_ledger - 100000000000\<bar> \<le> 3"
proof -
  have s: "scaled (Fin 1000) = Inr 100000000000" "\<forall>f \<in> set sample_fills. 0 < amount (fr_quantity f)"
    "net_quantity ''BTC'' sample_fills = 100000000" "rounding_slack sample_fills = 3"
    by code_simp+
  have "\<bar>ld_cash sample_ledger + total_of mp_costBasis (ld_positions sample_ledger) - ld_realized sample_ledger - 100000000000\<bar> \<le>
      rounding_slack sample_fills"
    using ledger_accounts_for_every_fill [OF sample_ledger_replay s(1,2)] by blast
  then show ?thesis unfolding s(4) using s(3) sample_ledger_replay by blast
qed

theorem projection_order_independent_witness:
  "\<exists>p. projectPaperAccounting sample_locale (\<lambda>_ _ _ _ _. ''digest'') (Fin 1000) (rev sample_fills) (\<lambda>_. None) = Inr p \<and>
     pj_cash p = Fin 908 \<and> pj_realizedPnL p = Fin (17 / 2)"
proof -
  let ?r = "projectPaperAccounting sample_locale (\<lambda>_ _ _ _ _. ''digest'') (Fin 1000) sample_fills (\<lambda>_. None)"
  have "unscaled (ld_cash sample_ledger) = Fin 908" "unscaled (ld_realized sample_ledger) = Fin (17 / 2)"
    "case map_r (project_position (\<lambda>_. None)) (js_sort (\<lambda>a b. sample_locale (fst a) (fst b)) (ld_positions sample_ledger)) of
      Inl _ \<Rightarrow> False | Inr _ \<Rightarrow> True" by code_simp+
  then have "case ?r of Inl _ \<Rightarrow> False | Inr p \<Rightarrow> pj_cash p = Fin 908 \<and> pj_realizedPnL p = Fin (17 / 2)"
    by (auto simp: projectPaperAccounting_def sample_ledger_replay bind_r_def split: sum.splits)
  then obtain p where p: "?r = Inr p" "pj_cash p = Fin 908" "pj_realizedPnL p = Fin (17 / 2)" by (auto split: sum.splits)
  have "collates sample_locale (fr_id ` set sample_fills)" by code_simp
  then show ?thesis using projection_order_independent [OF p(1), of "rev sample_fills"] p(2,3) by simp
qed

end
