(* ===== verification/OperatorControl.thy ===== *)
theory OperatorControl imports Prelude begin

text \<open>
  The operator's control plane of the cloud service: the decision on a command
  (\<open>apps/cloud/src/controlCommandProcessor.ts\<close>), the hash-chained ledger of decisions and its replay
  (\<open>apps/cloud/src/controlAuditLedger.ts\<close>), the two SQL tables they are kept in
  (\<open>packages/storage/src/controlPlaneStore.ts\<close>) and the transactional service over them
  (\<open>apps/cloud/src/transactionalControlCommandService.ts\<close>).  SHA-256 over the canonical text of a record
  is the parameter \<open>digest\<close>.
\<close>

section \<open>Commands\<close>

datatype command_type = OcPause | OcEmergencyStop | OcResumePaper
datatype auth_strength = OaSession | OaStrong
datatype decision_status = OdAccepted | OdRejected | OdDuplicate
datatype runtime_mode = OmPaper | OmStopped | OmFaulted

record command_request =
  oq_id :: string
  oq_userId :: string
  oq_deviceId :: string
  oq_type :: command_type
  oq_issuedAt :: jsnum
  oq_expiresAt :: jsnum
  oq_authStrength :: auth_strength
  oq_reason :: string

record runtime_snapshot =
  or_mode :: runtime_mode
  or_killSwitchActive :: bool
  or_healthy :: bool
  or_lastAcceptedCommandAt :: "jsnum option"

record control_audit_event =
  ce_commandId :: string
  ce_userId :: string
  ce_deviceId :: string
  ce_type :: command_type
  ce_status :: decision_status
  ce_decidedAt :: jsnum
  ce_reason :: string
  ce_resultingMode :: runtime_mode
  ce_cancelOpenOrders :: bool

record command_result =
  oc_status :: decision_status
  oc_runtime :: runtime_snapshot
  oc_audit :: control_audit_event

definition assertText :: "string \<Rightarrow> string \<Rightarrow> unit result" where
  "assertText value field = guard_r (blank value) (Error (field @ '' must not be empty'')) (Inr ())"

definition assertTimestamp :: "jsnum \<Rightarrow> string \<Rightarrow> unit result" where
  "assertTimestamp value field =
     guard_r (\<not> is_safe_integer value \<or> value < Fin 0) (Error (field @ '' must be a non-negative safe integer'')) (Inr ())"

definition command_audit ::
  "command_request \<Rightarrow> jsnum \<Rightarrow> decision_status \<Rightarrow> string \<Rightarrow> runtime_snapshot \<Rightarrow> bool \<Rightarrow> control_audit_event" where
  "command_audit q now status reason runtime cancel =
     \<lparr>ce_commandId = js_trim (oq_id q), ce_userId = js_trim (oq_userId q), ce_deviceId = js_trim (oq_deviceId q), ce_type = oq_type q,
      ce_status = status, ce_decidedAt = now, ce_reason = reason, ce_resultingMode = or_mode runtime, ce_cancelOpenOrders = cancel\<rparr>"

definition decide :: "command_request \<Rightarrow> jsnum \<Rightarrow> decision_status \<Rightarrow> string \<Rightarrow> runtime_snapshot \<Rightarrow> bool \<Rightarrow> command_result" where
  "decide q now status reason runtime cancel =
     \<lparr>oc_status = status, oc_runtime = runtime, oc_audit = command_audit q now status reason runtime cancel\<rparr>"

definition validate_request :: "jsnum \<Rightarrow> command_request \<Rightarrow> unit result" where
  "validate_request now q =
     bind_r (assertTimestamp now ''now'') (\<lambda>_.
     bind_r (assertText (oq_id q) ''request.id'') (\<lambda>_.
     bind_r (assertText (oq_userId q) ''request.userId'') (\<lambda>_.
     bind_r (assertText (oq_deviceId q) ''request.deviceId'') (\<lambda>_.
     bind_r (assertText (oq_reason q) ''request.reason'') (\<lambda>_.
     bind_r (assertTimestamp (oq_issuedAt q) ''request.issuedAt'') (\<lambda>_.
     bind_r (assertTimestamp (oq_expiresAt q) ''request.expiresAt'') (\<lambda>_.
     guard_r (oq_expiresAt q < oq_issuedAt q) (Error ''request.expiresAt must not precede request.issuedAt'')
     (guard_r (now < oq_issuedAt q) (Error ''future-issued control command rejected'') (Inr ())))))))))"

definition command_decision :: "jsnum \<Rightarrow> command_request \<Rightarrow> runtime_snapshot \<Rightarrow> string list \<Rightarrow> command_result" where
  "command_decision now q current processed =
     (if js_trim (oq_id q) \<in> set processed then decide q now OdDuplicate ''command already processed'' current False
      else if oq_expiresAt q < now then decide q now OdRejected ''command expired'' current False
      else if (case or_lastAcceptedCommandAt current of None \<Rightarrow> False | Some t \<Rightarrow> oq_issuedAt q \<le> t)
        then decide q now OdRejected ''command ordering violation'' current False
      else let accepted = current\<lparr>or_lastAcceptedCommandAt := Some (oq_issuedAt q)\<rparr>
        in case oq_type q of
             OcPause \<Rightarrow> decide q now OdAccepted ''command accepted'' (accepted\<lparr>or_mode := OmStopped\<rparr>) False
           | OcEmergencyStop \<Rightarrow>
               decide q now OdAccepted ''command accepted'' (accepted\<lparr>or_mode := OmStopped, or_killSwitchActive := True\<rparr>) True
           | OcResumePaper \<Rightarrow>
               if oq_authStrength q \<noteq> OaStrong then decide q now OdRejected ''strong authentication required'' current False
               else if \<not> or_healthy current \<or> or_killSwitchActive current \<or> or_mode current = OmFaulted
               then decide q now OdRejected ''runtime is not safe to resume'' current False
               else decide q now OdAccepted ''command accepted'' (accepted\<lparr>or_mode := OmPaper\<rparr>) False)"

definition processControlCommand :: "jsnum \<Rightarrow> command_request \<Rightarrow> runtime_snapshot \<Rightarrow> string list \<Rightarrow> command_result result" where
  "processControlCommand now q runtime processed =
     bind_r (validate_request now q) (\<lambda>_. Inr (command_decision now q runtime processed))"

section \<open>The ledger\<close>

record control_audit_record =
  ar_sequence :: nat
  ar_previousHash :: string
  ar_event :: control_audit_event
  ar_hash :: string

record replayed_control =
  ry_mode :: runtime_mode
  ry_killSwitchActive :: bool
  ry_processed :: "string list"
  ry_lastDecidedAt :: "jsnum option"
  ry_ledgerHash :: string
  ry_count :: nat

definition GENESIS_HASH :: string where
  "GENESIS_HASH = replicate 64 CHR ''0''"

text \<open>The JSON text of an event writes the negative zero as \<open>0\<close>; apart from that it determines the event.\<close>

definition canonicalEvent :: "control_audit_event \<Rightarrow> control_audit_event" where
  "canonicalEvent e = e\<lparr>ce_decidedAt := (if jzero (ce_decidedAt e) then Fin 0 else ce_decidedAt e)\<rparr>"

type_synonym record_digest = "nat \<Rightarrow> string \<Rightarrow> control_audit_event \<Rightarrow> string"

definition calculateRecordHash :: "record_digest \<Rightarrow> nat \<Rightarrow> string \<Rightarrow> control_audit_event \<Rightarrow> string" where
  "calculateRecordHash digest n previous e = digest n previous (canonicalEvent e)"

definition validateEvent :: "control_audit_event \<Rightarrow> control_audit_event result" where
  "validateEvent e =
     bind_r (assertText (ce_commandId e) ''event.commandId'') (\<lambda>_.
     bind_r (assertText (ce_userId e) ''event.userId'') (\<lambda>_.
     bind_r (assertText (ce_deviceId e) ''event.deviceId'') (\<lambda>_.
     bind_r (assertText (ce_reason e) ''event.reason'') (\<lambda>_.
     bind_r (assertTimestamp (ce_decidedAt e) ''event.decidedAt'') (\<lambda>_.
     guard_r (ce_type e = OcEmergencyStop \<and> ce_status e = OdAccepted \<and> \<not> ce_cancelOpenOrders e)
       (Error ''accepted emergency stop must request open-order cancellation'')
     (guard_r (ce_type e \<noteq> OcEmergencyStop \<and> ce_cancelOpenOrders e)
       (Error ''only emergency stop may request open-order cancellation'')
     (Inr (e\<lparr>ce_commandId := js_trim (ce_commandId e), ce_userId := js_trim (ce_userId e), ce_deviceId := js_trim (ce_deviceId e),
        ce_reason := js_trim (ce_reason e)\<rparr>))))))))"

definition note_command :: "control_audit_event \<Rightarrow> string list \<Rightarrow> string list result" where
  "note_command e processed =
     (if ce_status e = OdDuplicate
      then guard_r (ce_commandId e \<notin> set processed) (Error ''duplicate audit event has no prior command decision'') (Inr processed)
      else guard_r (ce_commandId e \<in> set processed) (Error (''command decided more than once: '' @ ce_commandId e))
        (Inr (processed @ [ce_commandId e])))"

definition accept_event :: "nat \<Rightarrow> control_audit_event \<Rightarrow> runtime_mode \<times> bool \<Rightarrow> (runtime_mode \<times> bool) result" where
  "accept_event n e mk =
     (if ce_status e \<noteq> OdAccepted then Inr mk
      else bind_r
        (case ce_type e of
           OcPause \<Rightarrow> Inr (OmStopped, snd mk)
         | OcEmergencyStop \<Rightarrow> Inr (OmStopped, True)
         | OcResumePaper \<Rightarrow> guard_r (snd mk) (Error ''paper resume cannot follow an active kill switch'') (Inr (OmPaper, snd mk)))
        (\<lambda>mk'. guard_r (ce_resultingMode e \<noteq> fst mk') (Error (''resulting mode mismatch at '' @ nat_string n)) (Inr mk')))"

definition replay_record :: "record_digest \<Rightarrow> control_audit_record \<Rightarrow> replayed_control \<Rightarrow> replayed_control result" where
  "replay_record digest r s =
     (let n = Suc (ry_count s)
      in guard_r (ar_sequence r \<noteq> n) (Error (''control audit sequence mismatch at '' @ nat_string n))
        (guard_r (ar_previousHash r \<noteq> ry_ledgerHash s) (Error (''control audit previous hash mismatch at '' @ nat_string n))
        (bind_r (validateEvent (ar_event r)) (\<lambda>e.
         guard_r (ar_hash r \<noteq> calculateRecordHash digest (ar_sequence r) (ar_previousHash r) e)
           (Error (''control audit hash mismatch at '' @ nat_string n))
        (guard_r (case ry_lastDecidedAt s of None \<Rightarrow> False | Some t \<Rightarrow> ce_decidedAt e < t)
           (Error ''control audit timestamps must be non-decreasing'')
        (bind_r (note_command e (ry_processed s)) (\<lambda>processed.
         bind_r (accept_event n e (ry_mode s, ry_killSwitchActive s)) (\<lambda>(mode, kill).
         Inr \<lparr>ry_mode = mode, ry_killSwitchActive = kill, ry_processed = processed, ry_lastDecidedAt = Some (ce_decidedAt e),
              ry_ledgerHash = ar_hash r, ry_count = n\<rparr>))))))))"

definition control_replay_start :: replayed_control where
  "control_replay_start =
     \<lparr>ry_mode = OmStopped, ry_killSwitchActive = False, ry_processed = [], ry_lastDecidedAt = None, ry_ledgerHash = GENESIS_HASH,
      ry_count = 0\<rparr>"

definition replayControlAuditLedger :: "record_digest \<Rightarrow> control_audit_record list \<Rightarrow> replayed_control result" where
  "replayControlAuditLedger digest records = fold_r (replay_record digest) records control_replay_start"

definition appendControlAuditEvent :: "record_digest \<Rightarrow> control_audit_record list \<Rightarrow> control_audit_event \<Rightarrow> control_audit_record list result" where
  "appendControlAuditEvent digest records e =
     bind_r (replayControlAuditLedger digest records) (\<lambda>_.
     bind_r (validateEvent e) (\<lambda>normalized.
     let sequence = length records + 1;
         previous = (if records = [] then GENESIS_HASH else ar_hash (last records));
         next = records @ [\<lparr>ar_sequence = sequence, ar_previousHash = previous, ar_event = normalized,
           ar_hash = calculateRecordHash digest sequence previous normalized\<rparr>]
     in bind_r (replayControlAuditLedger digest next) (\<lambda>_. Inr next)))"

section \<open>The store\<close>

text \<open>The row of \<open>control_runtime_state\<close>, if any, and the rows of \<open>control_audit_records\<close> by ascending sequence.
  A column holds the number 0 for both zeros, and an event is stored as its JSON text.\<close>

record control_store =
  cs_row :: "(runtime_snapshot \<times> string) option"
  cs_records :: "control_audit_record list"

definition is_sha256 :: "string \<Rightarrow> bool" where
  "is_sha256 s \<longleftrightarrow> length s = 64 \<and> list_all (\<lambda>c. c \<in> set ''abcdef0123456789'') s"

definition stored_runtime :: "runtime_snapshot \<Rightarrow> runtime_snapshot" where
  "stored_runtime r =
     r\<lparr>or_lastAcceptedCommandAt := map_option (\<lambda>t. if jzero t then Fin 0 else t) (or_lastAcceptedCommandAt r)\<rparr>"

definition assertHash :: "string \<Rightarrow> string \<Rightarrow> unit result" where
  "assertHash value field = guard_r (\<not> is_sha256 value) (Error (field @ '' must be a lowercase SHA-256 hex string'')) (Inr ())"

definition store_load :: "control_store \<Rightarrow> (runtime_snapshot \<times> string) option result" where
  "store_load s =
     (case cs_row s of None \<Rightarrow> Inr None
      | Some (r, h) \<Rightarrow> bind_r (assertHash h ''ledgerHash'') (\<lambda>_. Inr (Some (r, h))))"

definition store_initialize :: "runtime_snapshot \<Rightarrow> control_store \<Rightarrow> control_store result" where
  "store_initialize r s =
     bind_r (store_load s) (\<lambda>existing.
     if existing \<noteq> None then Inr s else Inr (s\<lparr>cs_row := Some (stored_runtime r, GENESIS_HASH)\<rparr>))"

definition max_sequence :: "control_audit_record list \<Rightarrow> nat" where
  "max_sequence rs = foldr (\<lambda>r n. max (ar_sequence r) n) rs 0"

definition appendAndSave :: "control_audit_record \<Rightarrow> runtime_snapshot \<Rightarrow> control_store \<Rightarrow> control_store result" where
  "appendAndSave r runtime s =
     bind_r (assertHash (ar_previousHash r) ''record.previousHash'') (\<lambda>_.
     bind_r (assertHash (ar_hash r) ''record.hash'') (\<lambda>_.
     bind_r (store_load s) (\<lambda>current.
     case current of
       None \<Rightarrow> throw ''control runtime state is not initialized''
     | Some (_, ledgerHash) \<Rightarrow>
         guard_r (ar_sequence r \<noteq> max_sequence (cs_records s) + 1) (Error ''control audit sequence conflict'')
         (guard_r (ar_previousHash r \<noteq> ledgerHash) (Error ''control audit previous hash conflict'')
         (guard_r (ar_hash r \<in> set (map ar_hash (cs_records s))) (Error ''UNIQUE constraint failed: control_audit_records.hash'')
         (Inr \<lparr>cs_row = Some (stored_runtime runtime, ar_hash r),
            cs_records = cs_records s @ [r\<lparr>ar_event := canonicalEvent (ar_event r)\<rparr>]\<rparr>))))))"

section \<open>The service\<close>

definition check_persisted :: "replayed_control \<Rightarrow> runtime_snapshot \<times> string \<Rightarrow> unit result" where
  "check_persisted p rh =
     guard_r (ry_ledgerHash p \<noteq> snd rh) (Error ''control audit ledger hash does not match runtime state'')
     (guard_r (ry_mode p \<noteq> or_mode (fst rh)) (Error ''control audit mode does not match runtime state'')
     (guard_r (ry_killSwitchActive p \<noteq> or_killSwitchActive (fst rh))
       (Error ''control audit kill-switch state does not match runtime state'') (Inr ())))"

definition verifyPersistedState :: "record_digest \<Rightarrow> control_store \<Rightarrow> unit result" where
  "verifyPersistedState digest s =
     bind_r (store_load s) (\<lambda>persisted.
     case persisted of
       None \<Rightarrow> throw ''control plane is not initialized''
     | Some rh \<Rightarrow> bind_r (replayControlAuditLedger digest (cs_records s)) (\<lambda>p. check_persisted p rh))"

text \<open>\<open>initialize\<close> inserts the row in a transaction of its own and verifies afterwards.\<close>

definition service_initialize :: "record_digest \<Rightarrow> runtime_snapshot \<Rightarrow> control_store \<Rightarrow> unit result \<times> control_store" where
  "service_initialize digest r s =
     (case store_initialize r s of Inl e \<Rightarrow> (Inl e, s) | Inr t \<Rightarrow> (verifyPersistedState digest t, t))"

definition execute_command :: "record_digest \<Rightarrow> jsnum \<Rightarrow> command_request \<Rightarrow> control_store \<Rightarrow> (command_result \<times> control_store) result" where
  "execute_command digest now q s =
     bind_r (store_load s) (\<lambda>persisted.
     case persisted of
       None \<Rightarrow> throw ''control plane is not initialized''
     | Some (runtime, h) \<Rightarrow>
         bind_r (replayControlAuditLedger digest (cs_records s)) (\<lambda>p.
         bind_r (check_persisted p (runtime, h)) (\<lambda>_.
         bind_r (processControlCommand now q runtime (ry_processed p)) (\<lambda>res.
         bind_r (appendControlAuditEvent digest (cs_records s) (oc_audit res)) (\<lambda>next.
         bind_r (appendAndSave (last next) (oc_runtime res) s) (\<lambda>t. Inr (res, t)))))))"

text \<open>The whole of \<open>execute\<close> is one transaction: when it throws, the tables are rolled back.\<close>

definition service_execute :: "record_digest \<Rightarrow> jsnum \<Rightarrow> command_request \<Rightarrow> control_store \<Rightarrow> command_result result \<times> control_store" where
  "service_execute digest now q s =
     (case execute_command digest now q s of Inl e \<Rightarrow> (Inl e, s) | Inr (res, t) \<Rightarrow> (Inr res, t))"

end
