(* ===== verification/OperatorFacts.thy ===== *)
theory OperatorFacts imports OperatorControl begin

text \<open>
  The operator control service of \<open>OperatorControl\<close>: its two tables agree after every command, an emergency
  stop is never refused for a reason of the ledger's own and is never undone, and the ledger determines its
  events.
\<close>

section \<open>Trimmed text\<close>

lemma dropWhile_fixed: "xs = [] \<or> \<not> P (hd xs) \<Longrightarrow> dropWhile P xs = xs"
  by (cases xs) auto

lemma js_trim_idem [simp]: "js_trim (js_trim s) = js_trim s"
proof -
  define a where "a = dropWhile is_space s"
  define b where "b = rev (dropWhile is_space (rev a))"
  have "suffix (dropWhile is_space (rev a)) (rev a)" by (rule suffix_dropWhile)
  then have "prefix b a" unfolding b_def by (simp add: suffix_to_prefix)
  moreover have "a = [] \<or> \<not> is_space (hd a)" unfolding a_def using hd_dropWhile [of is_space s] by blast
  ultimately have b: "b = [] \<or> \<not> is_space (hd b)" by (cases b) (auto simp: prefix_def)
  have "dropWhile is_space (rev b) = rev b" unfolding b_def by simp
  then have "js_trim b = b" using dropWhile_fixed [of b is_space] b by (simp add: js_trim_def)
  then show ?thesis unfolding b_def a_def by (simp add: js_trim_def)
qed

lemma blank_trim [simp]: "blank (js_trim s) = blank s"
  by (simp add: blank_def)

section \<open>Events\<close>

definition trimmed :: "control_audit_event \<Rightarrow> control_audit_event" where
  "trimmed e = e\<lparr>ce_commandId := js_trim (ce_commandId e), ce_userId := js_trim (ce_userId e), ce_deviceId := js_trim (ce_deviceId e),
     ce_reason := js_trim (ce_reason e)\<rparr>"

definition event_ok :: "control_audit_event \<Rightarrow> bool" where
  "event_ok e \<longleftrightarrow>
     \<not> blank (ce_commandId e) \<and> \<not> blank (ce_userId e) \<and> \<not> blank (ce_deviceId e) \<and> \<not> blank (ce_reason e) \<and>
     is_safe_integer (ce_decidedAt e) \<and> \<not> ce_decidedAt e < Fin 0 \<and>
     (ce_type e = OcEmergencyStop \<and> ce_status e = OdAccepted \<longrightarrow> ce_cancelOpenOrders e) \<and>
     (ce_cancelOpenOrders e \<longrightarrow> ce_type e = OcEmergencyStop)"

lemma validateEvent_Inr: "validateEvent e = Inr n \<longleftrightarrow> event_ok e \<and> n = trimmed e"
  by (auto simp: validateEvent_def assertText_def assertTimestamp_def result_simps event_ok_def trimmed_def)

lemma trimmed_simps [simp]:
  "ce_status (trimmed e) = ce_status e" "ce_type (trimmed e) = ce_type e" "ce_decidedAt (trimmed e) = ce_decidedAt e"
  "ce_resultingMode (trimmed e) = ce_resultingMode e" "ce_commandId (trimmed e) = js_trim (ce_commandId e)"
  "trimmed (trimmed e) = trimmed e" "event_ok (trimmed e) = event_ok e"
  by (simp_all add: trimmed_def event_ok_def)

lemma canonical_simps [simp]:
  "ce_status (canonicalEvent e) = ce_status e" "ce_type (canonicalEvent e) = ce_type e"
  "ce_resultingMode (canonicalEvent e) = ce_resultingMode e" "ce_commandId (canonicalEvent e) = ce_commandId e"
  "canonicalEvent (canonicalEvent e) = canonicalEvent e" "trimmed (canonicalEvent e) = canonicalEvent (trimmed e)"
  by (simp_all add: canonicalEvent_def trimmed_def)

lemma jzero_cases: "jzero x \<longleftrightarrow> x = Fin 0 \<or> x = NZero"
  by (cases x) (auto simp: jzero_def)

lemma event_ok_canonical [simp]: "event_ok (canonicalEvent e) = event_ok e"
proof -
  have "is_safe_integer (Fin 0)" "is_safe_integer NZero" by code_simp+
  then show ?thesis by (auto simp: event_ok_def canonicalEvent_def jzero_cases)
qed

lemma canonical_time [simp]: "ce_decidedAt (canonicalEvent e) < t \<longleftrightarrow> ce_decidedAt e < t"
  by (auto simp: canonicalEvent_def jzero_cases)

section \<open>The ledger\<close>

lemma replay_record_Inr:
  "replay_record digest r s = Inr t \<longleftrightarrow>
     ar_sequence r = Suc (ry_count s) \<and> ar_previousHash r = ry_ledgerHash s \<and> event_ok (ar_event r) \<and>
     ar_hash r = calculateRecordHash digest (ar_sequence r) (ar_previousHash r) (trimmed (ar_event r)) \<and>
     (\<forall>u. ry_lastDecidedAt s = Some u \<longrightarrow> \<not> ce_decidedAt (ar_event r) < u) \<and>
     note_command (trimmed (ar_event r)) (ry_processed s) = Inr (ry_processed t) \<and>
     accept_event (Suc (ry_count s)) (ar_event r) (ry_mode s, ry_killSwitchActive s) = Inr (ry_mode t, ry_killSwitchActive t) \<and>
     ry_lastDecidedAt t = Some (ce_decidedAt (ar_event r)) \<and> ry_ledgerHash t = ar_hash r \<and> ry_count t = Suc (ry_count s)"
proof -
  have a: "accept_event n (trimmed e) mk = accept_event n e mk" for n e mk by (simp add: accept_event_def)
  show ?thesis
    by (cases t) (auto simp: replay_record_def result_simps validateEvent_Inr a Let_def split: option.splits)
qed

lemma replay_facts:
  "fold_r (replay_record digest) rs p = Inr t \<Longrightarrow>
     ry_count t = ry_count p + length rs \<and>
     ry_ledgerHash t = (if rs = [] then ry_ledgerHash p else ar_hash (last rs)) \<and>
     map ar_sequence rs = [Suc (ry_count p)..<Suc (ry_count p + length rs)]"
proof (induction rs arbitrary: p)
  case (Cons r rs)
  then obtain u where u: "replay_record digest r p = Inr u" "fold_r (replay_record digest) rs u = Inr t" by (auto simp: result_simps)
  have "ar_sequence r = Suc (ry_count p)" "ry_count u = Suc (ry_count p)" "ry_ledgerHash u = ar_hash r"
    using u(1) unfolding replay_record_Inr by blast+
  then show ?case using Cons.IH [OF u(2)] by (simp add: upt_conv_Cons del: upt_Suc)
qed simp

lemma max_sequence_upt: "map ar_sequence rs = [1..<Suc n] \<Longrightarrow> max_sequence rs = n"
proof (induction n arbitrary: rs)
  case (Suc n)
  have "rs \<noteq> []" using Suc.prems by auto
  then obtain r qs where rs: "rs = qs @ [r]" by (cases rs rule: rev_cases) auto
  have "map ar_sequence qs @ [ar_sequence r] = [1..<Suc n] @ [Suc n]" using Suc.prems rs by simp
  then have q: "map ar_sequence qs = [1..<Suc n]" "ar_sequence r = Suc n" by simp_all
  have "foldr (\<lambda>r n. max (ar_sequence r) n) qs k = max (foldr (\<lambda>r n. max (ar_sequence r) n) qs 0) k" for k
    by (induction qs) auto
  from this [of "Suc n"] have "max_sequence rs = max (max_sequence qs) (Suc n)" using q(2) rs by (simp add: max_sequence_def)
  then show ?case using Suc.IH [OF q(1)] by simp
qed (simp add: max_sequence_def)

lemma replay_max_sequence:
  "replayControlAuditLedger digest rs = Inr p \<Longrightarrow>
     max_sequence rs = length rs \<and> ry_count p = length rs \<and> ry_ledgerHash p = (if rs = [] then GENESIS_HASH else ar_hash (last rs))"
  using replay_facts [of digest rs control_replay_start p] max_sequence_upt [of rs "length rs"]
  by (simp add: replayControlAuditLedger_def control_replay_start_def del: upt_Suc)

section \<open>The service\<close>

text \<open>The tables agree: the ledger replays, and to the mode, the kill switch and the hash of the runtime row.\<close>

definition tables_agree :: "record_digest \<Rightarrow> control_store \<Rightarrow> runtime_snapshot \<Rightarrow> replayed_control \<Rightarrow> bool" where
  "tables_agree digest s r p \<longleftrightarrow>
     cs_row s = Some (r, ry_ledgerHash p) \<and> is_sha256 (ry_ledgerHash p) \<and> replayControlAuditLedger digest (cs_records s) = Inr p \<and>
     ry_mode p = or_mode r \<and> ry_killSwitchActive p = or_killSwitchActive r"

lemma verifyPersistedState_Inr: "verifyPersistedState digest s = Inr () \<longleftrightarrow> (\<exists>r p. tables_agree digest s r p)"
  by (auto simp: verifyPersistedState_def store_load_def assertHash_def check_persisted_def tables_agree_def result_simps
      split: option.splits)

lemma validate_request_ok:
  "validate_request now q = Inr () \<Longrightarrow>
     is_safe_integer now \<and> \<not> now < Fin 0 \<and> \<not> blank (oq_id q) \<and> \<not> blank (oq_userId q) \<and> \<not> blank (oq_deviceId q)"
  by (auto simp: validate_request_def assertText_def assertTimestamp_def result_simps)

definition decision_texts :: "string list" where
  "decision_texts =
     [''command already processed'', ''command expired'', ''command ordering violation'', ''strong authentication required'',
      ''runtime is not safe to resume'', ''command accepted'']"

lemma decision_text: "reason \<in> set decision_texts \<Longrightarrow> \<not> blank reason \<and> js_trim reason = reason"
proof -
  have "\<forall>x \<in> set decision_texts. \<not> blank x \<and> js_trim x = x" by code_simp
  then show "reason \<in> set decision_texts \<Longrightarrow> ?thesis" by blast
qed

text \<open>A decision keeps the runtime, or accepts the command and performs it.\<close>

lemma decision_cases:
  obtains (kept) st reason where "command_decision now q r ps = decide q now st reason r False" "st \<noteq> OdAccepted"
      "st = OdDuplicate \<longleftrightarrow> js_trim (oq_id q) \<in> set ps" "reason \<in> set decision_texts"
  | (accepted) r' where
      "command_decision now q r ps = decide q now OdAccepted ''command accepted'' r' (oq_type q = OcEmergencyStop)"
      "js_trim (oq_id q) \<notin> set ps" "oq_type q = OcResumePaper \<Longrightarrow> \<not> or_killSwitchActive r"
      "or_mode r' = (if oq_type q = OcResumePaper then OmPaper else OmStopped)"
      "or_killSwitchActive r' = (or_killSwitchActive r \<or> oq_type q = OcEmergencyStop)"
proof (cases "oc_status (command_decision now q r ps) = OdAccepted")
  case True
  let ?d = "command_decision now q r ps"
  have "?d = decide q now OdAccepted ''command accepted'' (oc_runtime ?d) (oq_type q = OcEmergencyStop) \<and>
      js_trim (oq_id q) \<notin> set ps \<and> (oq_type q = OcResumePaper \<longrightarrow> \<not> or_killSwitchActive r) \<and>
      or_mode (oc_runtime ?d) = (if oq_type q = OcResumePaper then OmPaper else OmStopped) \<and>
      or_killSwitchActive (oc_runtime ?d) = (or_killSwitchActive r \<or> oq_type q = OcEmergencyStop)"
    using True unfolding command_decision_def
    by (cases "oq_type q") (simp_all add: decide_def Let_def split: if_splits)
  then show thesis using accepted by blast
next
  case False
  let ?d = "command_decision now q r ps"
  have "?d = decide q now (oc_status ?d) (ce_reason (oc_audit ?d)) r False \<and>
      (oc_status ?d = OdDuplicate \<longleftrightarrow> js_trim (oq_id q) \<in> set ps) \<and> ce_reason (oc_audit ?d) \<in> set decision_texts"
    using False unfolding command_decision_def decision_texts_def
    by (cases "oq_type q") (auto simp: decide_def command_audit_def Let_def split: if_splits)
  then show thesis using kept False by blast
qed

text \<open>The event of a decision on a valid request is valid, already trimmed, and agrees with the replayed ledger.\<close>

lemma decision_event:
  assumes "validate_request now q = Inr ()" "ry_mode p = or_mode r" "ry_killSwitchActive p = or_killSwitchActive r"
  defines "res \<equiv> command_decision now q r (ry_processed p)"
  shows "event_ok (oc_audit res) \<and> trimmed (oc_audit res) = oc_audit res \<and> ce_decidedAt (oc_audit res) = now \<and>
    (\<exists>ps. note_command (oc_audit res) (ry_processed p) = Inr ps) \<and>
    accept_event n (oc_audit res) (ry_mode p, ry_killSwitchActive p) =
      Inr (or_mode (oc_runtime res), or_killSwitchActive (oc_runtime res))"
proof -
  note valid = validate_request_ok [OF assms(1)]
  show ?thesis
  proof (cases rule: decision_cases [of now q r "ry_processed p"])
    case (kept st reason)
    then have e: "res = decide q now st reason r False" by (simp add: res_def)
    show ?thesis using valid kept(2,3) decision_text [OF kept(4)] assms(2,3)
      by (cases st) (simp_all add: e decide_def command_audit_def event_ok_def trimmed_def note_command_def accept_event_def)
  next
    case (accepted r')
    then have e: "res = decide q now OdAccepted ''command accepted'' r' (oq_type q = OcEmergencyStop)" by (simp add: res_def)
    have t: "\<not> blank ''command accepted''" "js_trim ''command accepted'' = ''command accepted''"
      using decision_text [of "''command accepted''"] by (simp_all add: decision_texts_def)
    show ?thesis using valid accepted(2-5) t assms(2,3)
      by (cases "oq_type q")
        (simp_all add: e decide_def command_audit_def event_ok_def trimmed_def note_command_def accept_event_def)
  qed
qed

definition command_record :: "record_digest \<Rightarrow> control_store \<Rightarrow> replayed_control \<Rightarrow> control_audit_event \<Rightarrow> control_audit_record" where
  "command_record digest s p e =
     \<lparr>ar_sequence = length (cs_records s) + 1, ar_previousHash = ry_ledgerHash p, ar_event = e,
      ar_hash = calculateRecordHash digest (length (cs_records s) + 1) (ry_ledgerHash p) e\<rparr>"

lemma replay_snoc:
  assumes "tables_agree digest s r p" "validate_request now q = Inr ()"
  defines "e \<equiv> oc_audit (command_decision now q r (ry_processed p))"
  assumes "e' = e \<or> e' = canonicalEvent e"
  shows "(\<exists>u. replayControlAuditLedger digest (cs_records s @ [(command_record digest s p e)\<lparr>ar_event := e'\<rparr>]) = Inr u) \<longleftrightarrow>
      (\<forall>t. ry_lastDecidedAt p = Some t \<longrightarrow> \<not> now < t)"
    "replayControlAuditLedger digest (cs_records s @ [(command_record digest s p e)\<lparr>ar_event := e'\<rparr>]) = Inr u \<Longrightarrow>
      ry_ledgerHash u = ar_hash (command_record digest s p e) \<and>
      ry_mode u = or_mode (oc_runtime (command_decision now q r (ry_processed p))) \<and>
      ry_killSwitchActive u = or_killSwitchActive (oc_runtime (command_decision now q r (ry_processed p))) \<and>
      note_command e (ry_processed p) = Inr (ry_processed u)"
proof -
  let ?r = "(command_record digest s p e)\<lparr>ar_event := e'\<rparr>"
  have a: "replayControlAuditLedger digest (cs_records s) = Inr p" "ry_mode p = or_mode r" "ry_killSwitchActive p = or_killSwitchActive r"
    using assms(1) by (simp_all add: tables_agree_def)
  note d = decision_event [OF assms(2) a(2,3), folded e_def]
  have n: "ry_count p = length (cs_records s)" using replay_max_sequence [OF a(1)] by simp
  have e': "event_ok e'" "trimmed e' = e'" "ce_decidedAt e' < t \<longleftrightarrow> now < t" "canonicalEvent e' = canonicalEvent e"
    "note_command e' ps = note_command e ps" "accept_event k e' mk = accept_event k e mk" for t ps k mk
    using assms(4) d by (auto simp: note_command_def accept_event_def)
  have f: "replayControlAuditLedger digest (cs_records s @ [?r]) = replay_record digest ?r p"
    using a(1) by (simp add: replayControlAuditLedger_def fold_r_append) (cases "replay_record digest ?r p"; simp)
  have hash: "ar_hash ?r = calculateRecordHash digest (ar_sequence ?r) (ar_previousHash ?r) (trimmed (ar_event ?r))"
    using e'(2,4) by (simp add: command_record_def calculateRecordHash_def)
  have iff: "replay_record digest ?r p = Inr u \<longleftrightarrow>
      (\<forall>t. ry_lastDecidedAt p = Some t \<longrightarrow> \<not> now < t) \<and> note_command e (ry_processed p) = Inr (ry_processed u) \<and>
      (ry_mode u, ry_killSwitchActive u) = (or_mode (oc_runtime (command_decision now q r (ry_processed p))),
        or_killSwitchActive (oc_runtime (command_decision now q r (ry_processed p)))) \<and>
      ry_lastDecidedAt u = Some (ce_decidedAt e') \<and> ry_ledgerHash u = ar_hash (command_record digest s p e) \<and> ry_count u = Suc (ry_count p)" for u
    using hash e' d n unfolding replay_record_Inr by (auto simp: command_record_def)
  obtain ps where ps: "note_command e (ry_processed p) = Inr ps" using d by blast
  show "(\<exists>u. replayControlAuditLedger digest (cs_records s @ [?r]) = Inr u) \<longleftrightarrow> (\<forall>t. ry_lastDecidedAt p = Some t \<longrightarrow> \<not> now < t)"
  proof
    assume "\<forall>t. ry_lastDecidedAt p = Some t \<longrightarrow> \<not> now < t"
    then have "replay_record digest ?r p = Inr
        \<lparr>ry_mode = or_mode (oc_runtime (command_decision now q r (ry_processed p))),
         ry_killSwitchActive = or_killSwitchActive (oc_runtime (command_decision now q r (ry_processed p))), ry_processed = ps,
         ry_lastDecidedAt = Some (ce_decidedAt e'), ry_ledgerHash = ar_hash (command_record digest s p e), ry_count = Suc (ry_count p)\<rparr>"
      unfolding iff using ps by simp
    then show "\<exists>u. replayControlAuditLedger digest (cs_records s @ [?r]) = Inr u" unfolding f by blast
  qed (use f iff in auto)
  show "ry_ledgerHash u = ar_hash (command_record digest s p e) \<and>
      ry_mode u = or_mode (oc_runtime (command_decision now q r (ry_processed p))) \<and>
      ry_killSwitchActive u = or_killSwitchActive (oc_runtime (command_decision now q r (ry_processed p))) \<and>
      note_command e (ry_processed p) = Inr (ry_processed u)"
    if "replayControlAuditLedger digest (cs_records s @ [?r]) = Inr u"
    using that unfolding f iff by simp
qed

lemma appendControlAuditEvent_Inr:
  assumes "tables_agree digest s r p" "validate_request now q = Inr ()"
  defines "e \<equiv> oc_audit (command_decision now q r (ry_processed p))"
  shows "appendControlAuditEvent digest (cs_records s) e = Inr next \<longleftrightarrow>
    next = cs_records s @ [command_record digest s p e] \<and> (\<forall>t. ry_lastDecidedAt p = Some t \<longrightarrow> \<not> now < t)"
proof -
  have a: "replayControlAuditLedger digest (cs_records s) = Inr p" "ry_mode p = or_mode r" "ry_killSwitchActive p = or_killSwitchActive r"
    using assms(1) by (simp_all add: tables_agree_def)
  have v: "validateEvent e = Inr e" using decision_event [OF assms(2) a(2,3)] by (simp add: validateEvent_Inr e_def)
  have h: "(if cs_records s = [] then GENESIS_HASH else ar_hash (last (cs_records s))) = ry_ledgerHash p"
    using replay_max_sequence [OF a(1)] by simp
  have "(\<exists>u. replayControlAuditLedger digest (cs_records s @ [command_record digest s p e]) = Inr u) \<longleftrightarrow>
      (\<forall>t. ry_lastDecidedAt p = Some t \<longrightarrow> \<not> now < t)"
    using replay_snoc(1) [OF assms(1,2), of e] by (simp add: e_def command_record_def)
  then show ?thesis
    using a(1) v h by (auto simp: appendControlAuditEvent_def Let_def result_simps command_record_def)
qed

text \<open>What a command does: when it returns, and the tables it leaves.\<close>

lemma execute_command_Inr:
  assumes "tables_agree digest s r p"
  shows "execute_command digest now q s = Inr (res, t) \<longleftrightarrow>
    (let h = ar_hash (command_record digest s p (oc_audit res))
     in validate_request now q = Inr () \<and> res = command_decision now q r (ry_processed p) \<and>
       (\<forall>u. ry_lastDecidedAt p = Some u \<longrightarrow> \<not> now < u) \<and> is_sha256 h \<and> h \<notin> ar_hash ` set (cs_records s) \<and>
       t = \<lparr>cs_row = Some (stored_runtime (oc_runtime res), h),
         cs_records = cs_records s @ [(command_record digest s p (oc_audit res))\<lparr>ar_event := canonicalEvent (oc_audit res)\<rparr>]\<rparr>)"
proof -
  have a: "cs_row s = Some (r, ry_ledgerHash p)" "is_sha256 (ry_ledgerHash p)" "replayControlAuditLedger digest (cs_records s) = Inr p"
    "ry_mode p = or_mode r" "ry_killSwitchActive p = or_killSwitchActive r" using assms by (simp_all add: tables_agree_def)
  have m: "max_sequence (cs_records s) = length (cs_records s)" using replay_max_sequence [OF a(3)] by simp
  have load: "store_load s = Inr (Some (r, ry_ledgerHash p))" using a(1,2) by (simp add: store_load_def assertHash_def)
  have check: "check_persisted p (r, ry_ledgerHash p) = Inr ()" using a(4,5) by (simp add: check_persisted_def)
  have save: "appendAndSave (command_record digest s p e) rt s = Inr t \<longleftrightarrow>
      is_sha256 (ar_hash (command_record digest s p e)) \<and> ar_hash (command_record digest s p e) \<notin> ar_hash ` set (cs_records s) \<and>
      t = \<lparr>cs_row = Some (stored_runtime rt, ar_hash (command_record digest s p e)),
        cs_records = cs_records s @ [(command_record digest s p e)\<lparr>ar_event := canonicalEvent e\<rparr>]\<rparr>" for e rt
    unfolding appendAndSave_def load using m a(2) by (auto simp: assertHash_def result_simps command_record_def)
  have e: "execute_command digest now q s =
      bind_r (validate_request now q) (\<lambda>_. let d = command_decision now q r (ry_processed p)
        in bind_r (appendControlAuditEvent digest (cs_records s) (oc_audit d)) (\<lambda>next.
           bind_r (appendAndSave (last next) (oc_runtime d) s) (\<lambda>t. Inr (d, t))))"
    by (cases "validate_request now q") (simp_all add: execute_command_def load a(3) check processControlCommand_def Let_def)
  show ?thesis
  proof (cases "validate_request now q = Inr ()")
    case True
    then show ?thesis unfolding e Let_def
      by (auto simp: result_simps appendControlAuditEvent_Inr [OF assms True] save)
  next
    case False
    then show ?thesis unfolding e Let_def by (auto simp: result_simps)
  qed
qed

lemma stored_runtime_simps [simp]:
  "or_mode (stored_runtime r) = or_mode r" "or_killSwitchActive (stored_runtime r) = or_killSwitchActive r"
  "or_healthy (stored_runtime r) = or_healthy r"
  by (simp_all add: stored_runtime_def)

lemma tables_agree_step:
  assumes "tables_agree digest s r p" "execute_command digest now q s = Inr (res, t)"
  obtains u where "tables_agree digest t (stored_runtime (oc_runtime res)) u"
    "note_command (oc_audit res) (ry_processed p) = Inr (ry_processed u)"
proof -
  let ?e = "oc_audit res"
  have x: "validate_request now q = Inr ()" "res = command_decision now q r (ry_processed p)"
    "\<forall>u. ry_lastDecidedAt p = Some u \<longrightarrow> \<not> now < u" "is_sha256 (ar_hash (command_record digest s p ?e))"
    "t = \<lparr>cs_row = Some (stored_runtime (oc_runtime res), ar_hash (command_record digest s p ?e)),
         cs_records = cs_records s @ [(command_record digest s p ?e)\<lparr>ar_event := canonicalEvent ?e\<rparr>]\<rparr>"
    using assms(2) unfolding execute_command_Inr [OF assms(1)] Let_def by blast+
  note snoc = replay_snoc [OF assms(1) x(1), of "canonicalEvent ?e", folded x(2)]
  obtain u where u: "replayControlAuditLedger digest (cs_records s @ [(command_record digest s p ?e)\<lparr>ar_event := canonicalEvent ?e\<rparr>]) = Inr u"
    using snoc(1) x(3) by blast
  note f = snoc(2) [OF _ u]
  have "tables_agree digest t (stored_runtime (oc_runtime res)) u"
    using f u x(4) by (simp add: tables_agree_def x(5))
  then show thesis using that f by simp
qed

section \<open>Runs of the service\<close>

inductive op_run :: "record_digest \<Rightarrow> control_store \<Rightarrow> (command_request \<times> command_result result) list \<Rightarrow> control_store \<Rightarrow> bool"
  for digest s where
  op_none: "op_run digest s [] s"
| op_call: "op_run digest s tr t \<Longrightarrow> service_execute digest now q t = (x, u) \<Longrightarrow> op_run digest s (tr @ [(q, x)]) u"

lemma service_execute_cases:
  assumes "service_execute digest now q s = (x, t)"
  obtains (failed) e where "x = Inl e" "t = s" | (returned) res where "x = Inr res" "execute_command digest now q s = Inr (res, t)"
  using assms by (auto simp: service_execute_def split: sum.splits)

text \<open>The commands of a trace that were decided: every answer but that the command is a duplicate.\<close>

definition decided :: "(command_request \<times> command_result result) list \<Rightarrow> string list" where
  "decided tr = concat (map (\<lambda>(q, x). case x of Inl _ \<Rightarrow> [] | Inr res \<Rightarrow> if oc_status res = OdDuplicate then [] else [js_trim (oq_id q)]) tr)"

lemma decided_snoc [simp]:
  "decided (tr @ [(q, Inl e)]) = decided tr"
  "decided (tr @ [(q, Inr res)]) = decided tr @ (if oc_status res = OdDuplicate then [] else [js_trim (oq_id q)])"
  by (simp_all add: decided_def)

lemma decision_id: "ce_commandId (oc_audit (command_decision now q r ps)) = js_trim (oq_id q)"
  "ce_status (oc_audit (command_decision now q r ps)) = oc_status (command_decision now q r ps)"
  by (cases rule: decision_cases [of now q r ps]; simp add: decide_def command_audit_def)+

lemma op_run_agree:
  assumes "op_run digest s tr t" "tables_agree digest s r p"
  shows "\<exists>r' p'. tables_agree digest t r' p' \<and> distinct (decided tr) \<and> set (decided tr) \<subseteq> set (ry_processed p')"
  using assms
proof (induction rule: op_run.induct)
  case op_none
  then show ?case by (auto simp: decided_def)
next
  case (op_call tr t now q x u)
  then obtain r' p' where i: "tables_agree digest t r' p'" "distinct (decided tr)" "set (decided tr) \<subseteq> set (ry_processed p')" by blast
  from op_call(2) show ?case
  proof (cases rule: service_execute_cases)
    case (failed e)
    then show ?thesis using i by auto
  next
    case (returned res)
    obtain p'' where n: "tables_agree digest u (stored_runtime (oc_runtime res)) p''"
      "note_command (oc_audit res) (ry_processed p') = Inr (ry_processed p'')"
      using tables_agree_step [OF i(1) returned(2)] by blast
    have res: "res = command_decision now q r' (ry_processed p')"
      using returned(2) unfolding execute_command_Inr [OF i(1)] Let_def by blast
    then have "if oc_status res = OdDuplicate then ry_processed p'' = ry_processed p'
        else js_trim (oq_id q) \<notin> set (ry_processed p') \<and> ry_processed p'' = ry_processed p' @ [js_trim (oq_id q)]"
      using n(2) decision_id [of now q r' "ry_processed p'"] by (auto simp: note_command_def result_simps split: if_splits)
    then have "distinct (decided (tr @ [(q, x)])) \<and> set (decided (tr @ [(q, x)])) \<subseteq> set (ry_processed p'')"
      using i(2,3) returned(1) by (auto split: if_splits)
    then show ?thesis using n(1) by blast
  qed
qed

text \<open>C35: whatever commands are given in whatever order, whether they succeed or fail, the ledger and the runtime row of the control
  service go on agreeing (so the service never locks itself out), and no command is decided twice.\<close>

theorem control_tables_agree:
  assumes "verifyPersistedState digest s = Inr ()" "op_run digest s tr t"
  shows "verifyPersistedState digest t = Inr () \<and> distinct (decided tr)"
proof -
  obtain r p where "tables_agree digest s r p" using assms(1) unfolding verifyPersistedState_Inr by blast
  then show ?thesis using op_run_agree [OF assms(2)] verifyPersistedState_Inr by blast
qed

section \<open>The emergency stop\<close>

lemma replay_killed_stopped:
  assumes "replayControlAuditLedger digest rs = Inr p" "ry_killSwitchActive p"
  shows "ry_mode p = OmStopped"
proof -
  have "ry_killSwitchActive p \<longrightarrow> ry_mode p = OmStopped"
  proof (rule fold_r_invariant [OF assms(1) [unfolded replayControlAuditLedger_def]])
    fix r s t assume "replay_record digest r s = Inr t" "ry_killSwitchActive s \<longrightarrow> ry_mode s = OmStopped"
    then show "ry_killSwitchActive t \<longrightarrow> ry_mode t = OmStopped"
      unfolding replay_record_Inr by (auto simp: accept_event_def result_simps split: if_splits command_type.splits)
  qed (simp add: control_replay_start_def)
  then show ?thesis using assms(2) by blast
qed

lemma agree_killed: "tables_agree digest s r p \<Longrightarrow> or_killSwitchActive r \<Longrightarrow> or_mode r = OmStopped"
  using replay_killed_stopped by (auto simp: tables_agree_def)

lemma killed_step:
  assumes "tables_agree digest s r p" "or_killSwitchActive r" "execute_command digest now q s = Inr (res, t)"
  shows "or_killSwitchActive (oc_runtime res) \<and> (oc_status res = OdAccepted \<longrightarrow> oq_type q \<noteq> OcResumePaper)"
proof -
  have "res = command_decision now q r (ry_processed p)" using assms(3) unfolding execute_command_Inr [OF assms(1)] Let_def by blast
  then show ?thesis using assms(2) by (cases rule: decision_cases [of now q r "ry_processed p"]) (auto simp: decide_def)
qed

lemma killed_run:
  assumes "op_run digest s tr t" "tables_agree digest s r p" "or_killSwitchActive r"
  shows "(\<exists>r' p'. tables_agree digest t r' p' \<and> or_killSwitchActive r') \<and>
    (\<forall>(q, x) \<in> set tr. \<forall>res. x = Inr res \<longrightarrow> oc_status res = OdAccepted \<longrightarrow> oq_type q \<noteq> OcResumePaper)"
  using assms
proof (induction rule: op_run.induct)
  case op_none
  then show ?case by auto
next
  case (op_call tr t now q x u)
  then obtain r' p' where i: "tables_agree digest t r' p'" "or_killSwitchActive r'" by blast
  from op_call(2) show ?case
  proof (cases rule: service_execute_cases)
    case (failed e)
    then show ?thesis using op_call i by auto
  next
    case (returned res)
    obtain p'' where "tables_agree digest u (stored_runtime (oc_runtime res)) p''" using tables_agree_step [OF i(1) returned(2)] by blast
    then show ?thesis using killed_step [OF i returned(2)] op_call returned(1) by auto
  qed
qed

text \<open>C36: once an emergency stop has been accepted, nothing undoes it: after any further commands the runtime is stopped with the kill
  switch active, and no resume command among them was accepted.\<close>

theorem emergency_stop_latches:
  assumes "verifyPersistedState digest s = Inr ()" "service_execute digest now q s = (Inr res, t)"
    "oq_type q = OcEmergencyStop" "oc_status res = OdAccepted" "op_run digest t tr u"
  shows "(\<exists>r h. cs_row u = Some (r, h) \<and> or_mode r = OmStopped \<and> or_killSwitchActive r) \<and>
    (\<forall>(q, x) \<in> set tr. \<forall>res. x = Inr res \<longrightarrow> oc_status res = OdAccepted \<longrightarrow> oq_type q \<noteq> OcResumePaper)"
proof -
  obtain r p where a: "tables_agree digest s r p" using assms(1) unfolding verifyPersistedState_Inr by blast
  have x: "execute_command digest now q s = Inr (res, t)"
    using assms(2) by (auto simp: service_execute_def split: sum.splits)
  obtain p' where t: "tables_agree digest t (stored_runtime (oc_runtime res)) p'" using tables_agree_step [OF a x] by blast
  have "res = command_decision now q r (ry_processed p)" using x unfolding execute_command_Inr [OF a] Let_def by blast
  then have "or_killSwitchActive (oc_runtime res)" using assms(3,4)
    by (cases rule: decision_cases [of now q r "ry_processed p"]) (auto simp: decide_def)
  then have k: "or_killSwitchActive (stored_runtime (oc_runtime res))" by simp
  obtain r' p' where u: "tables_agree digest u r' p'" "or_killSwitchActive r'" using killed_run [OF assms(5) t k] by blast
  have "or_mode r' = OmStopped" by (rule agree_killed [OF u])
  then show ?thesis using killed_run [OF assms(5) t k] u by (auto simp: tables_agree_def)
qed

text \<open>A valid emergency stop is carried out: if the tables agree, the command is new, not expired and issued after the last accepted
  one, the clock does not read earlier than the last decision, and its digest is a fresh hash, then \<open>execute\<close> accepts it, asks for the
  open orders to be cancelled, and stores the stopped runtime with the kill switch active.\<close>

theorem emergency_stop_accepted:
  assumes "tables_agree digest s r p" "validate_request now q = Inr ()" "oq_type q = OcEmergencyStop"
    "js_trim (oq_id q) \<notin> set (ry_processed p)" "\<not> oq_expiresAt q < now"
    "\<forall>t. or_lastAcceptedCommandAt r = Some t \<longrightarrow> \<not> oq_issuedAt q \<le> t" "\<forall>t. ry_lastDecidedAt p = Some t \<longrightarrow> \<not> now < t"
  defines "h \<equiv> calculateRecordHash digest (length (cs_records s) + 1) (ry_ledgerHash p) (oc_audit (command_decision now q r (ry_processed p)))"
  assumes "is_sha256 h" "h \<notin> ar_hash ` set (cs_records s)"
  shows "\<exists>res t r'. service_execute digest now q s = (Inr res, t) \<and> oc_status res = OdAccepted \<and> ce_cancelOpenOrders (oc_audit res) \<and>
    cs_row t = Some (r', h) \<and> or_mode r' = OmStopped \<and> or_killSwitchActive r' \<and> length (cs_records t) = length (cs_records s) + 1"
proof -
  let ?res = "command_decision now q r (ry_processed p)"
  let ?t = "\<lparr>cs_row = Some (stored_runtime (oc_runtime ?res), h),
    cs_records = cs_records s @ [(command_record digest s p (oc_audit ?res))\<lparr>ar_event := canonicalEvent (oc_audit ?res)\<rparr>]\<rparr>"
  have "execute_command digest now q s = Inr (?res, ?t)"
    unfolding execute_command_Inr [OF assms(1)] Let_def using assms(2,7,9,10) by (simp add: command_record_def h_def)
  moreover have "oc_status ?res = OdAccepted \<and> ce_cancelOpenOrders (oc_audit ?res) \<and> or_mode (oc_runtime ?res) = OmStopped \<and>
      or_killSwitchActive (oc_runtime ?res)"
    using assms(3-6) by (simp add: command_decision_def decide_def command_audit_def Let_def split: option.splits)
  ultimately show ?thesis by (simp add: service_execute_def)
qed

section \<open>The ledger determines its events\<close>

definition normal_record :: "control_audit_record \<Rightarrow> control_audit_record" where
  "normal_record r = r\<lparr>ar_event := canonicalEvent (trimmed (ar_event r))\<rparr>"

lemma replay_snoc_Inr:
  "replayControlAuditLedger digest (rs @ [r]) = Inr t \<longleftrightarrow>
    (\<exists>p. replayControlAuditLedger digest rs = Inr p \<and> replay_record digest r p = Inr t)"
  by (auto simp: replayControlAuditLedger_def fold_r_append result_simps)

text \<open>With a digest that never repeats a value and never gives the genesis hash, two ledgers that replay to the same hash are the same,
  up to white space around the texts of their events, which the digest does not cover.\<close>

lemma ledger_determined:
  assumes "\<And>n x e m y f. digest n x e = digest m y f \<Longrightarrow> n = m \<and> x = y \<and> e = f" "\<And>n x e. digest n x e \<noteq> GENESIS_HASH"
  shows "replayControlAuditLedger digest rs = Inr p \<Longrightarrow> replayControlAuditLedger digest rs' = Inr p' \<Longrightarrow>
    ry_ledgerHash p = ry_ledgerHash p' \<Longrightarrow> map normal_record rs = map normal_record rs'"
proof (induction rs arbitrary: p rs' p' rule: rev_induct)
  case Nil
  show ?case
  proof (cases rs' rule: rev_cases)
    case (snoc qs q)
    then have "ry_ledgerHash p' \<noteq> GENESIS_HASH"
      using Nil(2) assms(2) not_sym [OF assms(2)]
      by (auto simp: replay_snoc_Inr replay_record_Inr calculateRecordHash_def)
    then show ?thesis using Nil(1,3) by (auto simp: replayControlAuditLedger_def control_replay_start_def)
  qed simp
next
  case (snoc r rs)
  show ?case
  proof (cases rs' rule: rev_cases)
    case Nil
    then have "ry_ledgerHash p' = GENESIS_HASH" using snoc.prems(2) by (auto simp: replayControlAuditLedger_def control_replay_start_def)
    moreover have "ry_ledgerHash p \<noteq> GENESIS_HASH"
      using snoc.prems(1) assms(2) not_sym [OF assms(2)]
      by (auto simp: replay_snoc_Inr replay_record_Inr calculateRecordHash_def)
    ultimately show ?thesis using snoc.prems(3) by simp
  next
    case (snoc qs q)
    obtain u where u: "replayControlAuditLedger digest rs = Inr u" "replay_record digest r u = Inr p"
      using snoc.prems(1) by (auto simp: replay_snoc_Inr)
    obtain v where v: "replayControlAuditLedger digest qs = Inr v" "replay_record digest q v = Inr p'"
      using snoc.prems(2) \<open>rs' = qs @ [q]\<close> by (auto simp: replay_snoc_Inr)
    have h: "ar_hash r = ar_hash q" "ar_previousHash r = ry_ledgerHash u" "ar_previousHash q = ry_ledgerHash v"
      "ar_hash r = digest (ar_sequence r) (ar_previousHash r) (canonicalEvent (trimmed (ar_event r)))"
      "ar_hash q = digest (ar_sequence q) (ar_previousHash q) (canonicalEvent (trimmed (ar_event q)))"
      using u(2) v(2) snoc.prems(3) unfolding replay_record_Inr calculateRecordHash_def by simp_all
    then have e: "ar_sequence r = ar_sequence q \<and> ar_previousHash r = ar_previousHash q \<and>
        canonicalEvent (trimmed (ar_event r)) = canonicalEvent (trimmed (ar_event q))" using assms(1) by metis
    then have "map normal_record rs = map normal_record qs" using snoc.IH [OF u(1) v(1)] h(2,3) by simp
    moreover have "normal_record r = normal_record q" using e h(1) by (cases r, cases q) (simp add: normal_record_def)
    ultimately show ?thesis using \<open>rs' = qs @ [q]\<close> by simp
  qed
qed

section \<open>Initialization\<close>

text \<open>\<open>initialize\<close> stores the row before it verifies it: a runtime that is not stopped, or that starts with the kill switch active, makes
  it throw and leaves tables with which every later command, and every later \<open>initialize\<close>, throws as well.\<close>

lemma unsafe_initialization_locks_out:
  assumes "or_mode r \<noteq> OmStopped \<or> or_killSwitchActive r" "service_initialize digest r \<lparr>cs_row = None, cs_records = []\<rparr> = (x, t)"
  shows "(\<exists>e. x = Inl e) \<and>
    (\<exists>e. service_execute digest now q t = (Inl e, t)) \<and> (\<exists>e. service_initialize digest r' t = (Inl e, t))"
proof -
  have g: "is_sha256 GENESIS_HASH" by code_simp
  have t: "t = \<lparr>cs_row = Some (stored_runtime r, GENESIS_HASH), cs_records = []\<rparr>"
    using assms(2) by (simp add: service_initialize_def store_initialize_def store_load_def)
  have n: "check_persisted control_replay_start (stored_runtime r, GENESIS_HASH) \<noteq> Inr ()"
    using assms(1) by (auto simp: check_persisted_def control_replay_start_def result_simps)
  then obtain e where e: "check_persisted control_replay_start (stored_runtime r, GENESIS_HASH) = Inl e" by (cases "check_persisted control_replay_start (stored_runtime r, GENESIS_HASH)") auto
  have v: "verifyPersistedState digest t = Inl e"
    by (simp add: t verifyPersistedState_def store_load_def assertHash_def g replayControlAuditLedger_def e)
  moreover have "execute_command digest now q t = Inl e"
    by (simp add: t execute_command_def store_load_def assertHash_def g replayControlAuditLedger_def e)
  moreover have "store_initialize r' t = Inr t"
    by (simp add: t store_initialize_def store_load_def assertHash_def g)
  moreover have "x = Inl e" using assms(2) v t by (auto simp: service_initialize_def store_initialize_def store_load_def)
  ultimately show ?thesis using v by (simp add: service_execute_def service_initialize_def)
qed

section \<open>A concrete service\<close>

definition count_digest :: record_digest where
  "count_digest n previous e = pad_start 64 CHR ''0'' (nat_string n)"

definition stopped_runtime :: runtime_snapshot where
  "stopped_runtime = \<lparr>or_mode = OmStopped, or_killSwitchActive = False, or_healthy = True, or_lastAcceptedCommandAt = None\<rparr>"

definition demo_store :: control_store where
  "demo_store = snd (service_initialize count_digest stopped_runtime \<lparr>cs_row = None, cs_records = []\<rparr>)"

definition demo_command :: "string \<Rightarrow> command_type \<Rightarrow> jsnum \<Rightarrow> command_request" where
  "demo_command i c time =
     \<lparr>oq_id = i, oq_userId = ''owner'', oq_deviceId = ''phone'', oq_type = c, oq_issuedAt = time, oq_expiresAt = Fin 1000,
      oq_authStrength = OaStrong, oq_reason = ''test''\<rparr>"

definition demo_stopped :: "command_result result \<times> control_store" where
  "demo_stopped = service_execute count_digest (Fin 20) (demo_command ''stop'' OcEmergencyStop (Fin 20))
     (snd (service_execute count_digest (Fin 10) (demo_command ''go'' OcResumePaper (Fin 10)) demo_store))"

theorem control_tables_agree_witness:
  "verifyPersistedState count_digest (snd demo_stopped) = Inr () \<and> length (cs_records (snd demo_stopped)) = 2"
proof -
  let ?q = "demo_command ''go'' OcResumePaper (Fin 10)"
  have v: "verifyPersistedState count_digest demo_store = Inr ()" by code_simp
  have "op_run count_digest demo_store ([] @ [(?q, fst (service_execute count_digest (Fin 10) ?q demo_store))])
      (snd (service_execute count_digest (Fin 10) ?q demo_store))"
    by (rule op_run.op_call [OF op_run.op_none]) simp
  then have "op_run count_digest demo_store (([] @ [(?q, fst (service_execute count_digest (Fin 10) ?q demo_store))]) @
      [(demo_command ''stop'' OcEmergencyStop (Fin 20), fst demo_stopped)]) (snd demo_stopped)"
    by (rule op_run.op_call) (simp add: demo_stopped_def)
  note run = this
  have "length (cs_records (snd demo_stopped)) = 2" by code_simp
  then show ?thesis using control_tables_agree [OF v run] by (elim conjE) (intro conjI)
qed

theorem emergency_stop_latches_witness:
  "\<exists>r h. cs_row (snd (service_execute count_digest (Fin 30) (demo_command ''again'' OcResumePaper (Fin 30)) (snd demo_stopped))) = Some (r, h) \<and>
     or_mode r = OmStopped \<and> or_killSwitchActive r"
proof -
  let ?s = "snd (service_execute count_digest (Fin 10) (demo_command ''go'' OcResumePaper (Fin 10)) demo_store)"
  have v: "verifyPersistedState count_digest ?s = Inr ()" by code_simp
  have a: "case fst demo_stopped of Inl _ \<Rightarrow> False | Inr res \<Rightarrow> oc_status res = OdAccepted" by code_simp
  then obtain res where r: "fst demo_stopped = Inr res" "oc_status res = OdAccepted" by (auto split: sum.splits)
  have x: "service_execute count_digest (Fin 20) (demo_command ''stop'' OcEmergencyStop (Fin 20)) ?s = (Inr res, snd demo_stopped)"
    using r(1) unfolding demo_stopped_def by (simp add: prod_eq_iff)
  have "op_run count_digest (snd demo_stopped) ([] @ [(demo_command ''again'' OcResumePaper (Fin 30),
      fst (service_execute count_digest (Fin 30) (demo_command ''again'' OcResumePaper (Fin 30)) (snd demo_stopped)))])
      (snd (service_execute count_digest (Fin 30) (demo_command ''again'' OcResumePaper (Fin 30)) (snd demo_stopped)))"
    by (rule op_run.op_call [OF op_run.op_none]) simp
  then show ?thesis using emergency_stop_latches [OF v x _ r(2)] by (simp add: demo_command_def)
qed

theorem emergency_stop_accepted_witness:
  "\<exists>res t r'. service_execute count_digest (Fin 20) (demo_command ''stop'' OcEmergencyStop (Fin 20)) demo_store = (Inr res, t) \<and>
     oc_status res = OdAccepted \<and> or_mode r' = OmStopped \<and> or_killSwitchActive r' \<and>
     cs_row t = Some (r', pad_start 64 CHR ''0'' ''1'')"
proof -
  let ?q = "demo_command ''stop'' OcEmergencyStop (Fin 20)"
  have a: "tables_agree count_digest demo_store stopped_runtime control_replay_start"
    unfolding tables_agree_def by (intro conjI) code_simp+
  have n: "nat_string 1 = ''1''" by code_simp
  have l: "length (cs_records demo_store) + 1 = 1" by code_simp
  have b: "validate_request (Fin 20) ?q = Inr ()" "oq_type ?q = OcEmergencyStop" "js_trim (oq_id ?q) \<notin> set (ry_processed control_replay_start)"
    "\<not> oq_expiresAt ?q < Fin 20" "\<forall>t. or_lastAcceptedCommandAt stopped_runtime = Some t \<longrightarrow> \<not> oq_issuedAt ?q \<le> t"
    "\<forall>t. ry_lastDecidedAt control_replay_start = Some t \<longrightarrow> \<not> Fin 20 < t" "is_sha256 (pad_start 64 CHR ''0'' ''1'')"
    "pad_start 64 CHR ''0'' ''1'' \<notin> ar_hash ` set (cs_records demo_store)"
    by (simp_all add: stopped_runtime_def control_replay_start_def demo_command_def) code_simp+
  show ?thesis using emergency_stop_accepted [OF a b(1-6)] b(7,8) l n
    by (simp add: calculateRecordHash_def count_digest_def) blast
qed

end
