(* ===== verification/OrderLifecycle.thy ===== *)
theory OrderLifecycle imports Prelude begin

text \<open>
  \<open>apps/cloud/src/paperOrderLifecycle.ts\<close>: the state machine of one paper order, with the quantities
  that are filled and remain.  Every state it can reach passes its own validation, except when the fill
  that settles an order rounds to zero or to infinity.
\<close>

section \<open>The state machine\<close>

datatype lifecycle_status = LsCreated | LsAccepted | LsOpen | LsPartiallyFilled | LsFilled | LsCancelled | LsRejected

record order_lifecycle =
  lc_status :: lifecycle_status
  lc_requestedQuantity :: jsnum
  lc_filledQuantity :: jsnum
  lc_remainingQuantity :: jsnum
  lc_transitionSequence :: jsnum
  lc_lastTransitionAt :: jsnum

definition PAPER_FILL_REMAINDER_TOLERANCE :: jsnum where
  "PAPER_FILL_REMAINDER_TOLERANCE = lit (1 / 100000000)"

definition JS_EPSILON :: jsnum where
  "JS_EPSILON = Fin (1 / 4503599627370496)"

definition lifecycle_terminal :: "lifecycle_status \<Rightarrow> bool" where
  "lifecycle_terminal s \<longleftrightarrow> s = LsFilled \<or> s = LsCancelled \<or> s = LsRejected"

fun lifecycle_allowed :: "lifecycle_status \<Rightarrow> lifecycle_status list" where
  "lifecycle_allowed LsCreated = [LsAccepted, LsRejected]"
| "lifecycle_allowed LsAccepted = [LsOpen, LsFilled, LsRejected, LsCancelled]"
| "lifecycle_allowed LsOpen = [LsPartiallyFilled, LsFilled, LsCancelled]"
| "lifecycle_allowed LsPartiallyFilled = [LsPartiallyFilled, LsFilled, LsCancelled]"
| "lifecycle_allowed LsFilled = []"
| "lifecycle_allowed LsCancelled = []"
| "lifecycle_allowed LsRejected = []"

fun lifecycle_text :: "lifecycle_status \<Rightarrow> string" where
  "lifecycle_text LsCreated = ''CREATED''"
| "lifecycle_text LsAccepted = ''ACCEPTED''"
| "lifecycle_text LsOpen = ''OPEN''"
| "lifecycle_text LsPartiallyFilled = ''PARTIALLY_FILLED''"
| "lifecycle_text LsFilled = ''FILLED''"
| "lifecycle_text LsCancelled = ''CANCELLED''"
| "lifecycle_text LsRejected = ''REJECTED''"

definition assertQuantity :: "jsnum \<Rightarrow> string \<Rightarrow> unit result" where
  "assertQuantity value name =
     guard_r (\<not> is_finite value \<or> value < Fin 0) (Error (name @ '' must be finite and non-negative'')) (Inr ())"

definition createPaperOrderLifecycle :: "jsnum \<Rightarrow> jsnum \<Rightarrow> order_lifecycle result" where
  "createPaperOrderLifecycle requested createdAt =
     guard_r (\<not> is_finite requested \<or> requested \<le> Fin 0) (Error ''requestedQuantity must be positive'')
     (guard_r (\<not> is_safe_integer createdAt \<or> createdAt < Fin 0) (Error ''createdAt is invalid'')
     (Inr \<lparr>lc_status = LsCreated, lc_requestedQuantity = requested, lc_filledQuantity = Fin 0, lc_remainingQuantity = requested,
        lc_transitionSequence = Fin 0, lc_lastTransitionAt = createdAt\<rparr>))"

definition is_fill_transition :: "lifecycle_status \<Rightarrow> bool" where
  "is_fill_transition s \<longleftrightarrow> s = LsPartiallyFilled \<or> s = LsFilled"

definition settlesOrder :: "order_lifecycle \<Rightarrow> lifecycle_status \<Rightarrow> jsnum \<Rightarrow> bool" where
  "settlesOrder s next fill \<longleftrightarrow>
     next = LsFilled \<and> js_abs (fill - lc_remainingQuantity s) \<le> PAPER_FILL_REMAINDER_TOLERANCE"

definition settled_quantity :: "jsnum \<Rightarrow> jsnum" where
  "settled_quantity v = js_round (v * Fin 100000000) div Fin 100000000"

definition transitionPaperOrderLifecycle ::
  "order_lifecycle \<Rightarrow> lifecycle_status \<Rightarrow> jsnum \<Rightarrow> jsnum \<Rightarrow> order_lifecycle result" where
  "transitionPaperOrderLifecycle s next time fill =
     guard_r (\<not> is_safe_integer time \<or> time < lc_lastTransitionAt s) (Error ''paper order transition time is invalid'')
     (guard_r (lifecycle_terminal (lc_status s)) (Error (''paper order terminal state cannot transition: '' @ lifecycle_text (lc_status s)))
     (guard_r (next \<notin> set (lifecycle_allowed (lc_status s)))
       (Error (''invalid paper order transition: '' @ lifecycle_text (lc_status s) @ ''->'' @ lifecycle_text next))
     (bind_r (assertQuantity fill ''fillQuantity'') (\<lambda>_.
     guard_r (\<not> is_fill_transition next \<and> \<not> js_eq fill (Fin 0)) (Error ''non-fill transition cannot carry fill quantity'')
     (guard_r (is_fill_transition next \<and> fill \<le> Fin 0) (Error ''fill transition requires positive fill quantity'')
     (let settles = settlesOrder s next fill
      in guard_r (Fin 0 < fill - lc_remainingQuantity s \<and> \<not> settles) (Error ''fill quantity exceeds remaining quantity'')
        (let filled = (if settles then settled_quantity (lc_filledQuantity s + fill) else lc_filledQuantity s + fill);
             requested = (if settles then filled else lc_requestedQuantity s);
             remaining = (if settles then Fin 0 else requested - filled)
         in guard_r (next = LsPartiallyFilled \<and> remaining \<le> Fin 0) (Error ''partial fill must leave remaining quantity'')
           (guard_r (next = LsFilled \<and> \<not> js_eq remaining (Fin 0)) (Error ''filled transition must consume remaining quantity'')
           (Inr (s\<lparr>lc_status := next, lc_requestedQuantity := requested, lc_filledQuantity := filled, lc_remainingQuantity := remaining,
              lc_transitionSequence := lc_transitionSequence s + Fin 1, lc_lastTransitionAt := time\<rparr>))))))))))"

definition validatePaperOrderLifecycle :: "order_lifecycle \<Rightarrow> order_lifecycle result" where
  "validatePaperOrderLifecycle s =
     guard_r (\<not> is_finite (lc_requestedQuantity s) \<or> lc_requestedQuantity s \<le> Fin 0) (Error ''paper order requested quantity is invalid'')
     (bind_r (assertQuantity (lc_filledQuantity s) ''filledQuantity'') (\<lambda>_.
      bind_r (assertQuantity (lc_remainingQuantity s) ''remainingQuantity'') (\<lambda>_.
      guard_r (JS_EPSILON < js_abs (lc_requestedQuantity s - lc_filledQuantity s - lc_remainingQuantity s))
        (Error ''paper order quantity reconciliation mismatch'')
     (guard_r (\<not> is_safe_integer (lc_transitionSequence s) \<or> lc_transitionSequence s < Fin 0) (Error ''paper order transition sequence is invalid'')
     (guard_r (\<not> is_safe_integer (lc_lastTransitionAt s) \<or> lc_lastTransitionAt s < Fin 0) (Error ''paper order transition time is invalid'')
     (guard_r (lc_status s = LsFilled \<and> \<not> js_eq (lc_remainingQuantity s) (Fin 0)) (Error ''filled paper order has remaining quantity'')
     (guard_r (lc_status s \<in> {LsCreated, LsAccepted, LsOpen} \<and> \<not> js_eq (lc_filledQuantity s) (Fin 0))
       (Error ''unfilled paper order carries fill quantity'')
     (guard_r (lc_status s = LsPartiallyFilled \<and> (lc_filledQuantity s \<le> Fin 0 \<or> lc_remainingQuantity s \<le> Fin 0))
       (Error ''partial paper order quantity is invalid'') (Inr s)))))))))"

section \<open>Rounding twice\<close>

lemma representable_fp_round: "representable (fp_round q)"
proof (cases "q = 0")
  case False
  let ?e = "fp_exp q" and ?m = "round_half_even (q / 2 powi fp_exp q)"
  have e: "- 1074 \<le> ?e" "ilog2 \<bar>q\<bar> + 1 \<le> 53 + ?e" by (simp_all add: fp_exp_def)
  have "\<bar>q\<bar> < 2 powi (ilog2 \<bar>q\<bar> + 1)" using ilog2_bounds [of "\<bar>q\<bar>"] False by simp
  also have "\<dots> \<le> 2 powi (53 + ?e)" using e(2) by (simp only: powi_2_le_iff)
  finally have "\<bar>q / 2 powi ?e\<bar> \<le> of_int (2 ^ 53)"
    by (simp add: powi_2_add powi_2_nonneg_int abs_divide field_simps)
  then have "q / 2 powi ?e \<le> of_int (2 ^ 53)" "of_int (- (2 ^ 53)) \<le> q / 2 powi ?e" by linarith+
  from this [THEN round_half_even_mono] have m: "\<bar>?m\<bar> \<le> 2 ^ 53" by (simp only: round_half_even_of_int abs_le_iff) simp
  have r: "fp_round q = of_int ?m * 2 powi ?e" using False by (simp add: fp_round_def)
  show ?thesis
  proof (cases "\<bar>?m\<bar> < 2 ^ 53")
    case True
    then show ?thesis unfolding r by (intro representable_scaled) (use e in simp_all)
  next
    case False
    then obtain s :: int where s: "?m = s * 2 ^ 52 * 2" "\<bar>s\<bar> = 1"
      using m that [of 1] that [of "- 1"] by (cases "0 \<le> ?m") auto
    have "fp_round q = of_int (s * 2 ^ 52) * 2 powi (1 + ?e)" unfolding r s(1) powi_2_add by simp
    moreover have "\<bar>s * 2 ^ 52\<bar> < 2 ^ 53" using s(2) by (simp add: abs_mult)
    ultimately show ?thesis using e(1) representable_scaled [of "s * 2 ^ 52" "1 + ?e"] by simp
  qed
qed simp

lemma js_of_rat_twice:
  assumes "js_of_rat s q = Fin r"
  shows "representable r" "\<bar>r\<bar> < fp_limit"
  using assms representable_fp_round [of q] fp_limit_pos by (auto simp: js_of_rat_def Let_def split: if_splits)

lemma jadd_Fin: "Fin a + Fin b = js_of_rat False (a + b)"
  by (simp add: plus_jsnum_def)

lemma jsub_Fin: "Fin a - Fin b = js_of_rat False (a - b)"
  by (simp add: minus_jsnum_def plus_jsnum_def)

lemma jsub_self: "is_finite a \<Longrightarrow> a - a = Fin 0"
  by (cases a) (auto simp: minus_jsnum_def plus_jsnum_def js_of_rat_def fp_limit_def)

section \<open>Reachable states are valid\<close>

inductive lifecycle_run :: "order_lifecycle \<Rightarrow> bool" where
  lr_create: "createPaperOrderLifecycle q t = Inr s \<Longrightarrow> representable (jval q) \<Longrightarrow> jval q < fp_limit \<Longrightarrow> lifecycle_run s"
| lr_transition: "lifecycle_run s \<Longrightarrow> transitionPaperOrderLifecycle s next t fill = Inr s' \<Longrightarrow>
    representable (jval fill) \<Longrightarrow> jval fill < fp_limit \<Longrightarrow> lifecycle_run s'"

text \<open>While an order is not settled, what remains is the difference of the requested and the filled quantity.\<close>

definition lifecycle_quantities :: "order_lifecycle \<Rightarrow> bool" where
  "lifecycle_quantities s \<longleftrightarrow>
     (\<exists>r f. lc_requestedQuantity s = Fin r \<and> 0 < r \<and> representable r \<and> r < fp_limit \<and>
        lc_filledQuantity s = Fin f \<and> 0 \<le> f \<and> representable f \<and> f < fp_limit) \<and>
     lc_remainingQuantity s = lc_requestedQuantity s - lc_filledQuantity s \<and>
     is_finite (lc_remainingQuantity s) \<and> Fin 0 \<le> lc_remainingQuantity s"

definition lifecycle_shape :: "order_lifecycle \<Rightarrow> bool" where
  "lifecycle_shape s \<longleftrightarrow>
     (lc_status s \<in> {LsCreated, LsAccepted, LsOpen} \<longrightarrow> lc_filledQuantity s = Fin 0) \<and>
     (lc_status s = LsPartiallyFilled \<longrightarrow> Fin 0 < lc_filledQuantity s \<and> Fin 0 < lc_remainingQuantity s) \<and>
     (lc_status s = LsFilled \<longrightarrow> js_eq (lc_remainingQuantity s) (Fin 0))"

definition lifecycle_settled :: "order_lifecycle \<Rightarrow> bool" where
  "lifecycle_settled s \<longleftrightarrow>
     lc_status s = LsFilled \<and> lc_requestedQuantity s = lc_filledQuantity s \<and> lc_remainingQuantity s = Fin 0"

definition lifecycle_clock :: "order_lifecycle \<Rightarrow> bool" where
  "lifecycle_clock s \<longleftrightarrow> Fin 0 \<le> lc_transitionSequence s \<and> is_safe_integer (lc_lastTransitionAt s) \<and> Fin 0 \<le> lc_lastTransitionAt s"

definition lifecycle_inv :: "order_lifecycle \<Rightarrow> bool" where
  "lifecycle_inv s \<longleftrightarrow> lifecycle_clock s \<and> (lifecycle_settled s \<or> lifecycle_quantities s \<and> lifecycle_shape s)"

lemma validate_of_inv:
  assumes "lifecycle_inv s" "is_safe_integer (lc_transitionSequence s)"
    and "lifecycle_settled s \<Longrightarrow> is_finite (lc_filledQuantity s) \<and> Fin 0 < lc_filledQuantity s"
  shows "validatePaperOrderLifecycle s = Inr s"
proof -
  have z: "\<not> JS_EPSILON < js_abs (Fin 0)" by (simp add: JS_EPSILON_def js_abs_def)
  have "(is_finite (lc_requestedQuantity s) \<and> Fin 0 < lc_requestedQuantity s) \<and> (is_finite (lc_filledQuantity s) \<and> Fin 0 \<le> lc_filledQuantity s) \<and>
      (is_finite (lc_remainingQuantity s) \<and> Fin 0 \<le> lc_remainingQuantity s) \<and>
      lc_requestedQuantity s - lc_filledQuantity s - lc_remainingQuantity s = Fin 0 \<and> lifecycle_shape s"
  proof (cases "lifecycle_settled s")
    case True
    then show ?thesis using assms(3) by (auto simp: lifecycle_settled_def jsub_self lifecycle_shape_def intro: jless_imp_le)
  next
    case False
    then show ?thesis using assms(1) by (auto simp: lifecycle_inv_def lifecycle_quantities_def jsub_self)
  qed
  moreover have "\<not> lc_lastTransitionAt s < Fin 0" "\<not> lc_transitionSequence s < Fin 0"
    using assms(1) by (auto simp: lifecycle_inv_def lifecycle_clock_def less_jsnum_def)
  ultimately show ?thesis using assms(1,2) z
    by (auto simp: validatePaperOrderLifecycle_def assertQuantity_def lifecycle_shape_def lifecycle_inv_def lifecycle_clock_def less_jsnum_def)
qed

lemma create_inv:
  assumes "createPaperOrderLifecycle q t = Inr s" "representable (jval q)" "jval q < fp_limit"
  shows "lifecycle_inv s"
proof -
  obtain r where q: "q = Fin r" "0 < r" using assms(1) by (cases q) (auto simp: createPaperOrderLifecycle_def result_simps)
  have "Fin r - Fin 0 = Fin r"
    using assms(2,3) q by (simp add: jsub_Fin js_of_rat_representable)
  then show ?thesis using assms q fp_limit_pos
    by (auto simp: createPaperOrderLifecycle_def result_simps lifecycle_inv_def lifecycle_clock_def lifecycle_quantities_def lifecycle_shape_def
        lifecycle_settled_def less_jsnum_def is_safe_integer_def is_integer_def)
qed

lemma transition_Inr:
  assumes "transitionPaperOrderLifecycle s next t fill = Inr s'"
  defines "filled \<equiv> if settlesOrder s next fill then settled_quantity (lc_filledQuantity s + fill) else lc_filledQuantity s + fill"
  defines "requested \<equiv> if settlesOrder s next fill then filled else lc_requestedQuantity s"
  defines "remaining \<equiv> if settlesOrder s next fill then Fin 0 else requested - filled"
  shows "is_safe_integer t" "\<not> t < lc_lastTransitionAt s" "\<not> lifecycle_terminal (lc_status s)" "next \<in> set (lifecycle_allowed (lc_status s))"
    "is_finite fill" "\<not> fill < Fin 0" "\<not> is_fill_transition next \<longrightarrow> js_eq fill (Fin 0)" "is_fill_transition next \<longrightarrow> \<not> fill \<le> Fin 0"
    "next = LsPartiallyFilled \<longrightarrow> \<not> remaining \<le> Fin 0" "next = LsFilled \<longrightarrow> js_eq remaining (Fin 0)"
    "s' = s\<lparr>lc_status := next, lc_requestedQuantity := requested, lc_filledQuantity := filled, lc_remainingQuantity := remaining,
       lc_transitionSequence := lc_transitionSequence s + Fin 1, lc_lastTransitionAt := t\<rparr>"
  using assms(1)
  unfolding filled_def requested_def remaining_def transitionPaperOrderLifecycle_def assertQuantity_def Let_def guard_r_Inr_iff bind_r_Inr_iff
  by blast+

lemma transition_clock:
  assumes "transitionPaperOrderLifecycle s next t fill = Inr s'" "lifecycle_clock s"
  shows "lifecycle_clock s'"
proof -
  note t = transition_Inr [OF assms(1)]
  have "lc_lastTransitionAt s \<le> t" using t(1,2) assms(2)
    by (auto simp: less_jsnum_def lifecycle_clock_def is_safe_integer_def is_integer_def)
  then show ?thesis using assms(2) t(1,11) jadd_nonneg [of "lc_transitionSequence s" "Fin 1"]
    by (auto simp: lifecycle_clock_def intro: jle_trans)
qed

lemma fill_quantities:
  assumes "0 \<le> f" "0 < x" "representable x" "x < fp_limit" "representable r" "0 < r" "r < fp_limit"
    and "\<not> Fin r - (Fin f + Fin x) \<le> Fin 0 \<or> js_eq (Fin r - (Fin f + Fin x)) (Fin 0)"
  obtains g where "Fin f + Fin x = Fin g" "0 < g" "representable g" "g < fp_limit"
    "is_finite (Fin r - Fin g)" "Fin 0 \<le> Fin r - Fin g"
proof -
  have "js_of_rat False x = Fin x" using assms by (intro js_of_rat_representable) auto
  then have x: "Fin x \<le> js_of_rat False (f + x)" using js_of_rat_mono [of x "f + x" False False] assms(1) by simp
  then have "js_of_rat False (f + x) \<noteq> PInf" using assms(8) by (auto simp: jadd_Fin minus_jsnum_def plus_jsnum_def)
  then obtain g where g: "js_of_rat False (f + x) = Fin g" "0 < g" using x assms(2) by (cases "js_of_rat False (f + x)") auto
  have "js_of_rat False (r - g) \<le> js_of_rat False r" using g(2) by (intro js_of_rat_mono) simp
  also have "js_of_rat False r = Fin r" using assms by (intro js_of_rat_representable) auto
  finally have le: "Fin r - Fin g \<le> Fin r" by (simp add: jsub_Fin)
  have d: "\<not> Fin r - Fin g \<le> Fin 0 \<or> js_eq (Fin r - Fin g) (Fin 0)" using assms(8) g(1) by (simp add: jadd_Fin)
  have "is_finite (Fin r - Fin g) \<and> Fin 0 \<le> Fin r - Fin g" using le d by (cases "Fin r - Fin g") (auto simp: js_eq_def)
  then show thesis using that g js_of_rat_twice [OF g(1)] by (simp add: jadd_Fin)
qed

lemma transition_inv:
  assumes "transitionPaperOrderLifecycle s next time fill = Inr s'" "lifecycle_inv s" "representable (jval fill)" "jval fill < fp_limit"
  shows "lifecycle_inv s'"
proof (cases "settlesOrder s next fill")
  case True
  then have "next = LsFilled" by (simp add: settlesOrder_def)
  then have "lifecycle_settled s'" using transition_Inr(11) [OF assms(1)] True by (simp add: lifecycle_settled_def)
  then show ?thesis using transition_clock [OF assms(1)] assms(2) by (simp add: lifecycle_inv_def)
next
  case False
  note t = transition_Inr [OF assms(1)]
  have open_state: "lifecycle_quantities s" "lifecycle_shape s"
    using assms(2) t(3) by (auto simp: lifecycle_inv_def lifecycle_settled_def lifecycle_terminal_def)
  obtain r f where q: "lc_requestedQuantity s = Fin r" "0 < r" "representable r" "r < fp_limit"
    "lc_filledQuantity s = Fin f" "0 \<le> f" "representable f" "f < fp_limit"
    "lc_remainingQuantity s = Fin r - Fin f" "is_finite (Fin r - Fin f)" "Fin 0 \<le> Fin r - Fin f"
    using open_state(1) unfolding lifecycle_quantities_def by auto
  have s': "s' = s\<lparr>lc_status := next, lc_requestedQuantity := Fin r, lc_filledQuantity := Fin f + fill,
      lc_remainingQuantity := Fin r - (Fin f + fill), lc_transitionSequence := lc_transitionSequence s + Fin 1, lc_lastTransitionAt := time\<rparr>"
    using t(11) False q by simp
  have "lifecycle_quantities s' \<and> lifecycle_shape s'"
  proof (cases "is_fill_transition next")
    case True
    obtain x where x: "fill = Fin x" "0 < x" using t(5,8) True by (cases fill) auto
    have "\<not> Fin r - (Fin f + Fin x) \<le> Fin 0 \<or> js_eq (Fin r - (Fin f + Fin x)) (Fin 0)"
      using t(9,10) True False q x by (auto simp: is_fill_transition_def)
    then obtain g where g: "Fin f + Fin x = Fin g" "0 < g" "representable g" "g < fp_limit"
      "is_finite (Fin r - Fin g)" "Fin 0 \<le> Fin r - Fin g"
      using fill_quantities [of f x r] q x assms(3,4) by auto
    have "next = LsPartiallyFilled \<longrightarrow> Fin 0 < Fin r - Fin g" "next = LsFilled \<longrightarrow> js_eq (Fin r - Fin g) (Fin 0)"
      using t(9,10) False q x g by (auto simp: less_jsnum_def)
    then show ?thesis using s' x(1) g q(2-4) True by (auto simp: lifecycle_quantities_def lifecycle_shape_def is_fill_transition_def)
  next
    case no_fill: False
    have z: "fill = Fin 0 \<or> fill = NZero" using t(7) no_fill by (cases fill) auto
    have f: "Fin f + fill = Fin f"
      using z q(6-8) by (auto simp: plus_jsnum_def js_of_rat_representable)
    have "next \<in> {LsAccepted, LsOpen} \<longrightarrow> lc_filledQuantity s = Fin 0"
      using open_state(2) t(4) by (cases "lc_status s") (auto simp: lifecycle_shape_def)
    then show ?thesis using s' f q no_fill t(4)
      by (cases "lc_status s") (auto simp: lifecycle_quantities_def lifecycle_shape_def is_fill_transition_def)
  qed
  then show ?thesis using transition_clock [OF assms(1)] assms(2) by (simp add: lifecycle_inv_def)
qed

lemma lifecycle_run_inv: "lifecycle_run s \<Longrightarrow> lifecycle_inv s"
  by (induction rule: lifecycle_run.induct) (blast intro: create_inv transition_inv)+

text \<open>C29: whatever transitions an order takes, its state passes \<open>validatePaperOrderLifecycle\<close>, the check of the lifecycle itself that saving
  and restoring apply; the further comparison of an account with its fills is not part of this claim.  The one exception is an order whose settling fill rounded to zero or to infinity.  Here the
  quantities are numbers of the language and the transition count is a safe integer.\<close>

theorem lifecycle_stays_valid:
  assumes "lifecycle_run s" "is_safe_integer (lc_transitionSequence s)"
  shows "validatePaperOrderLifecycle s = Inr s \<or>
    lc_status s = LsFilled \<and> lc_requestedQuantity s = lc_filledQuantity s \<and> \<not> (is_finite (lc_filledQuantity s) \<and> Fin 0 < lc_filledQuantity s)"
  using validate_of_inv [OF lifecycle_run_inv [OF assms(1)] assms(2)] by (auto simp: lifecycle_settled_def)

definition demo_lifecycle :: "lifecycle_status \<Rightarrow> jsnum \<Rightarrow> jsnum \<Rightarrow> order_lifecycle" where
  "demo_lifecycle status n time =
     \<lparr>lc_status = status, lc_requestedQuantity = Fin 3, lc_filledQuantity = Fin 0, lc_remainingQuantity = Fin 3,
      lc_transitionSequence = n, lc_lastTransitionAt = time\<rparr>"

lemma demo_lifecycle_opens:
  "createPaperOrderLifecycle (Fin 3) (Fin 1) = Inr (demo_lifecycle LsCreated (Fin 0) (Fin 1))"
  "transitionPaperOrderLifecycle (demo_lifecycle LsCreated (Fin 0) (Fin 1)) LsAccepted (Fin 1) (Fin 0) = Inr (demo_lifecycle LsAccepted (Fin 1) (Fin 1))"
  by code_simp+

theorem lifecycle_stays_valid_witness:
  "validatePaperOrderLifecycle (demo_lifecycle LsAccepted (Fin 1) (Fin 1)) = Inr (demo_lifecycle LsAccepted (Fin 1) (Fin 1))"
proof -
  have n: "representable 3" "3 < fp_limit" using representable_of_int [of 3] by (simp_all add: fp_limit_def)
  have "lifecycle_run (demo_lifecycle LsAccepted (Fin 1) (Fin 1))"
    by (rule lr_transition [OF lr_create [OF demo_lifecycle_opens(1)] demo_lifecycle_opens(2)]) (use n fp_limit_pos in simp_all)
  moreover have "is_safe_integer (lc_transitionSequence (demo_lifecycle LsAccepted (Fin 1) (Fin 1)))" by code_simp
  ultimately show ?thesis using lifecycle_stays_valid by (fastforce simp: demo_lifecycle_def)
qed

text \<open>The exception occurs: an order of \<open>2 ^ -30\<close> (about \<open>10^-9\<close>) settles at quantity zero, which its own validation refuses.\<close>

lemma tiny_order_settles_at_zero:
  "settled_quantity (Fin 0 + Fin (1 / 1073741824)) = Fin 0"
  "validatePaperOrderLifecycle (demo_lifecycle LsFilled (Fin 2) (Fin 1)\<lparr>lc_requestedQuantity := Fin 0, lc_remainingQuantity := Fin 0\<rparr>) =
    throw ''paper order requested quantity is invalid''"
  by code_simp+

end
