(* ===== verification/LoopAccount.thy ===== *)
theory LoopAccount imports PaperAccounting OrderLifecycle begin

text \<open>
  The paper account of \<open>apps/cloud/src/paperTradingExecutionLoop.ts\<close>: its records, the execution profile and
  the fill it models, and \<open>validateState\<close>, which every state passes before it is saved.  What a strategy adds
  to an order or a fill (candidate provenance, execution intent, order-book receipts) is a value of the type
  variable; its own checks, the digests and the JSON texts are the functions of \<open>loop_env\<close>.
\<close>

section \<open>Records\<close>

datatype loop_order_type = LoopMarket | LoopLimit
datatype loop_order_status = LoopFilled | LoopCancelled

record exec_profile =
  ep_schemaVersion :: jsnum
  ep_engineVersion :: string
  ep_feeRate :: jsnum
  ep_slippageBps :: jsnum
  ep_spreadBps :: jsnum
  ep_maxFillRatio :: jsnum
  ep_latencyTicks :: jsnum
  ep_fingerprintSha256 :: string

record 's fill_evidence =
  fe_profileFingerprint :: "string option"
  fe_engineVersion :: "string option"
  fe_strategy :: "'s option"

type_synonym 's loop_fill = "'s fill_evidence paper_fill_record"

record loop_order =
  ao_id :: string
  ao_idempotencyKey :: string
  ao_market :: string
  ao_side :: fill_side
  ao_quantity :: jsnum
  ao_price :: jsnum
  ao_fee :: jsnum
  ao_status :: loop_order_status
  ao_createdAt :: jsnum
  ao_filledAt :: jsnum
  ao_requestFingerprint :: "string option"
  ao_lifecycle :: "order_lifecycle option"
  ao_executionProfile :: "exec_profile option"

record 's working_order =
  wo_id :: string
  wo_idempotencyKey :: string
  wo_market :: string
  wo_side :: fill_side
  wo_orderType :: loop_order_type
  wo_requestedQuantity :: jsnum
  wo_limitPrice :: "jsnum option"
  wo_createdAt :: jsnum
  wo_requestFingerprint :: string
  wo_lifecycle :: order_lifecycle
  wo_executionProfile :: exec_profile
  wo_observedTicks :: "jsnum option"
  wo_strategy :: "'s option"

record 's loop_account =
  la_version :: jsnum
  la_initialCapital :: jsnum
  la_cash :: jsnum
  la_equity :: jsnum
  la_realizedPnL :: jsnum
  la_unrealizedPnL :: jsnum
  la_positions :: "account_position list"
  la_orders :: "loop_order list"
  la_fills :: "'s loop_fill list"
  la_processedIdempotencyKeys :: "string list"
  la_workingOrders :: "'s working_order list option"
  la_updatedAt :: jsnum

record 's loop_env =
  le_locale :: "string \<Rightarrow> string \<Rightarrow> jsnum"
  le_digest :: digest_fun
  le_positionsJson :: "account_position list \<Rightarrow> string"
  le_profileDigest :: "exec_profile \<Rightarrow> string"
  le_sha :: "string \<Rightarrow> string"
  le_checkWorking :: "'s loop_account \<Rightarrow> 's working_order \<Rightarrow> 's \<Rightarrow> unit result"
  le_checkFill :: "'s loop_account \<Rightarrow> 's loop_fill \<Rightarrow> 's \<Rightarrow> unit result"
  le_checkBudget :: "'s loop_account \<Rightarrow> 's working_order \<Rightarrow> 's \<Rightarrow> unit result"

definition working_orders :: "'s loop_account \<Rightarrow> 's working_order list" where
  "working_orders d = (case la_workingOrders d of None \<Rightarrow> [] | Some ws \<Rightarrow> ws)"

definition or_default :: "'x option \<Rightarrow> 'x \<Rightarrow> 'x" where
  "or_default m x = (case m of None \<Rightarrow> x | Some y \<Rightarrow> y)"

definition error_message :: "js_error \<Rightarrow> string" where
  "error_message e = (case e of Error m \<Rightarrow> m | RangeError m \<Rightarrow> m | TypeError m \<Rightarrow> m)"

section \<open>The execution profile\<close>

definition finiteNonNegative :: "jsnum \<Rightarrow> string \<Rightarrow> unit result" where
  "finiteNonNegative value name = guard_r (\<not> is_finite value \<or> value < Fin 0) (Error (name @ '' must be non-negative'')) (Inr ())"

definition buildExecutionProfile ::
  "(exec_profile \<Rightarrow> string) \<Rightarrow> jsnum \<Rightarrow> jsnum \<Rightarrow> jsnum \<Rightarrow> jsnum \<Rightarrow> jsnum \<Rightarrow> exec_profile result" where
  "buildExecutionProfile digest feeRate slippageBps spreadBps maxFillRatio latencyTicks =
     bind_r (finiteNonNegative feeRate ''feeRate'') (\<lambda>_.
     bind_r (finiteNonNegative slippageBps ''slippageBps'') (\<lambda>_.
     bind_r (finiteNonNegative spreadBps ''spreadBps'') (\<lambda>_.
     guard_r (\<not> is_finite maxFillRatio \<or> maxFillRatio \<le> Fin 0 \<or> Fin 1 < maxFillRatio) (Error ''maxFillRatio must be in (0, 1]'')
     (guard_r (\<not> is_safe_integer latencyTicks \<or> latencyTicks < Fin 0) (Error ''latencyTicks must be a non-negative integer'')
     (let canonical = \<lparr>ep_schemaVersion = Fin 1, ep_engineVersion = ''cloud-paper-execution-v1'', ep_feeRate = feeRate,
            ep_slippageBps = slippageBps, ep_spreadBps = spreadBps, ep_maxFillRatio = maxFillRatio, ep_latencyTicks = latencyTicks,
            ep_fingerprintSha256 = []\<rparr>
      in Inr (canonical\<lparr>ep_fingerprintSha256 := digest canonical\<rparr>))))))"

definition validateExecutionProfile :: "(exec_profile \<Rightarrow> string) \<Rightarrow> exec_profile \<Rightarrow> exec_profile result" where
  "validateExecutionProfile digest p =
     bind_r (buildExecutionProfile digest (ep_feeRate p) (ep_slippageBps p) (ep_spreadBps p) (ep_maxFillRatio p) (ep_latencyTicks p))
       (\<lambda>rebuilt. guard_r (\<not> js_eq (ep_schemaVersion p) (Fin 1) \<or> ep_engineVersion p \<noteq> ''cloud-paper-execution-v1'' \<or> p \<noteq> rebuilt)
         (Error ''paper execution profile is invalid'') (Inr p))"

definition adverse_multiplier :: "exec_profile \<Rightarrow> fill_side \<Rightarrow> jsnum" where
  "adverse_multiplier p side =
     (let adverseBps = ep_slippageBps p + ep_spreadBps p div Fin 2
      in case side of FillBuy \<Rightarrow> Fin 1 + adverseBps div Fin 10000 | FillSell \<Rightarrow> Fin 1 - adverseBps div Fin 10000)"

definition deterministicFill :: "exec_profile \<Rightarrow> fill_side \<Rightarrow> jsnum \<Rightarrow> jsnum \<Rightarrow> jsnum \<Rightarrow> (jsnum \<times> jsnum) result" where
  "deterministicFill p side requested quote liquidity =
     guard_r (\<not> is_finite requested \<or> requested \<le> Fin 0 \<or> \<not> is_finite liquidity \<or> liquidity \<le> Fin 0 \<or> \<not> is_finite quote \<or> quote \<le> Fin 0)
       (Error ''paper fill input is invalid'')
     (let quantity = js_min requested (round8 (liquidity * ep_maxFillRatio p))
      in guard_r (quantity \<le> Fin 0) (Error ''paper liquidity model produced zero fill'')
        (let price = round8 (quote * adverse_multiplier p side)
         in guard_r (\<not> is_finite price \<or> price \<le> Fin 0) (Error ''paper execution profile produced invalid fill price'') (Inr (quantity, price))))"

section \<open>validateState\<close>

definition number_sum :: "('x \<Rightarrow> jsnum) \<Rightarrow> 'x list \<Rightarrow> jsnum" where
  "number_sum f xs = foldl (\<lambda>s x. s + f x) (Fin 0) xs"

definition sha256_text :: "string \<Rightarrow> bool" where
  "sha256_text s \<longleftrightarrow> length s = 64 \<and> list_all (\<lambda>c. is_digit c \<or> c \<in> set ''abcdef'') s"

definition check_header :: "'s loop_account \<Rightarrow> unit result" where
  "check_header d =
     guard_r (\<not> js_eq (la_version d) (Fin 1)) (Error ''unsupported paper account state version'')
     (guard_r (\<not> is_finite (la_initialCapital d)) (Error ''initialCapital must be finite'')
     (guard_r (\<not> is_finite (la_cash d)) (Error ''cash must be finite'')
     (guard_r (\<not> is_finite (la_equity d)) (Error ''equity must be finite'')
     (guard_r (\<not> is_finite (la_realizedPnL d)) (Error ''realizedPnL must be finite'')
     (guard_r (\<not> is_finite (la_unrealizedPnL d)) (Error ''unrealizedPnL must be finite'')
     (guard_r (la_initialCapital d \<le> Fin 0 \<or> la_cash d < Fin 0 \<or> la_equity d < Fin 0) (Error ''paper account balance invariant failed'')
     (guard_r (\<not> is_safe_integer (la_updatedAt d) \<or> la_updatedAt d < Fin 0) (Error ''paper account updatedAt is invalid'') (Inr ()))))))))"

fun check_positions :: "string list \<Rightarrow> account_position list \<Rightarrow> unit result" where
  "check_positions seen [] = Inr ()"
| "check_positions seen (p # ps) =
     guard_r (blank (ap_market p) \<or> ap_market p \<in> set seen) (Error ''paper position identity is invalid'')
     (bind_r (finiteNonNegative (ap_quantity p) ''position.quantity'') (\<lambda>_.
      bind_r (finiteNonNegative (ap_averageEntryPrice p) ''position.averageEntryPrice'') (\<lambda>_.
      bind_r (finiteNonNegative (ap_markPrice p) ''position.markPrice'') (\<lambda>_.
      guard_r (\<not> is_finite (ap_realizedPnL p) \<or> \<not> is_finite (ap_unrealizedPnL p)) (Error ''paper position PnL is invalid'')
        (check_positions (ap_market p # seen) ps)))))"

definition terminal_status :: "loop_order_status \<Rightarrow> lifecycle_status" where
  "terminal_status s = (case s of LoopFilled \<Rightarrow> LsFilled | LoopCancelled \<Rightarrow> LsCancelled)"

definition check_order_lifecycle :: "loop_order \<Rightarrow> unit result" where
  "check_order_lifecycle x =
     (case ao_lifecycle x of None \<Rightarrow> Inr ()
      | Some s \<Rightarrow>
          bind_r (validatePaperOrderLifecycle s) (\<lambda>l.
          guard_r (lc_status l \<noteq> terminal_status (ao_status x) \<or> \<not> js_eq (lc_filledQuantity l) (ao_quantity x) \<or>
              \<not> js_eq (lc_lastTransitionAt l) (ao_filledAt x)) (Error ''paper order lifecycle reconciliation mismatch'')
         (guard_r (ao_status x = LoopFilled \<and> (\<not> js_eq (lc_requestedQuantity l) (ao_quantity x) \<or> \<not> js_eq (lc_remainingQuantity l) (Fin 0)))
            (Error ''paper filled order lifecycle reconciliation mismatch'') (Inr ()))))"

definition check_terminal_order :: "'s loop_env \<Rightarrow> loop_order \<Rightarrow> unit result" where
  "check_terminal_order env x =
     bind_r (finiteNonNegative (ao_quantity x) ''paper order quantity'') (\<lambda>_.
     bind_r (finiteNonNegative (ao_price x) ''paper order price'') (\<lambda>_.
     bind_r (finiteNonNegative (ao_fee x) ''paper order fee'') (\<lambda>_.
     guard_r (ao_status x = LoopFilled \<and> ao_quantity x \<le> Fin 0 \<or> ao_price x \<le> Fin 0 \<or> \<not> is_safe_integer (ao_createdAt x) \<or>
         \<not> is_safe_integer (ao_filledAt x) \<or> ao_createdAt x < Fin 0 \<or> ao_filledAt x < ao_createdAt x)
       (Error ''paper order accounting fields are invalid'')
    (guard_r (case ao_requestFingerprint x of None \<Rightarrow> False | Some s \<Rightarrow> \<not> sha256_text s) (Error ''paper order request fingerprint is invalid'')
    (bind_r (check_order_lifecycle x) (\<lambda>_.
     case ao_executionProfile x of None \<Rightarrow> Inr ()
     | Some p \<Rightarrow> bind_r (validateExecutionProfile (le_profileDigest env) p) (\<lambda>_. Inr ())))))))"

fun check_orders :: "'s loop_env \<Rightarrow> string list \<Rightarrow> string list \<Rightarrow> loop_order list \<Rightarrow> unit result" where
  "check_orders env ids keys [] = Inr ()"
| "check_orders env ids keys (x # xs) =
     guard_r (blank (ao_id x) \<or> ao_id x \<in> set ids \<or> blank (ao_idempotencyKey x) \<or> ao_idempotencyKey x \<in> set keys \<or> blank (ao_market x))
       (Error ''paper order identity is invalid'')
     (bind_r (check_terminal_order env x) (\<lambda>_. check_orders env (ao_id x # ids) (ao_idempotencyKey x # keys) xs))"

definition check_working_order :: "'s loop_env \<Rightarrow> 's loop_account \<Rightarrow> 's working_order \<Rightarrow> unit result" where
  "check_working_order env d w =
     guard_r (\<not> is_finite (wo_requestedQuantity w) \<or> wo_requestedQuantity w \<le> Fin 0 \<or> \<not> is_safe_integer (wo_createdAt w) \<or>
         wo_createdAt w < Fin 0 \<or> \<not> sha256_text (wo_requestFingerprint w)) (Error ''paper working order fields are invalid'')
     (guard_r (wo_orderType w = LoopLimit \<and> (case wo_limitPrice w of None \<Rightarrow> True | Some v \<Rightarrow> \<not> is_finite v \<or> v \<le> Fin 0))
       (Error ''paper working limit price is invalid'')
     (bind_r (validatePaperOrderLifecycle (wo_lifecycle w)) (\<lambda>l.
      guard_r (\<not> js_eq (lc_requestedQuantity l) (wo_requestedQuantity w) \<or> lifecycle_terminal (lc_status l))
        (Error ''paper working order lifecycle is terminal or mismatched'')
      (case wo_strategy w of None \<Rightarrow> Inr () | Some x \<Rightarrow> le_checkWorking env d w x))))"

fun check_working :: "'s loop_env \<Rightarrow> 's loop_account \<Rightarrow> string list \<Rightarrow> string list \<Rightarrow> 's working_order list \<Rightarrow> unit result" where
  "check_working env d ids keys [] = Inr ()"
| "check_working env d ids keys (w # ws) =
     guard_r (blank (wo_id w) \<or> wo_id w \<in> set ids \<or> blank (wo_idempotencyKey w) \<or> wo_idempotencyKey w \<in> set keys \<or> blank (wo_market w))
       (Error ''paper working order identity is invalid'')
     (bind_r (check_working_order env d w) (\<lambda>_. check_working env d (wo_id w # ids) (wo_idempotencyKey w # keys) ws))"

fun check_loop_fills :: "'s loop_env \<Rightarrow> 's loop_account \<Rightarrow> string list \<Rightarrow> string list \<Rightarrow> 's loop_fill list \<Rightarrow> unit result" where
  "check_loop_fills env d known seen [] = Inr ()"
| "check_loop_fills env d known seen (f # fs) =
     guard_r (blank (fr_id f) \<or> fr_id f \<in> set seen \<or> fr_orderId f \<notin> set known \<or> blank (fr_market f)) (Error ''paper fill identity is invalid'')
     (bind_r (finiteNonNegative (fr_quantity f) ''paper fill quantity'') (\<lambda>_.
      bind_r (finiteNonNegative (fr_price f) ''paper fill price'') (\<lambda>_.
      bind_r (finiteNonNegative (fr_fee f) ''paper fill fee'') (\<lambda>_.
      guard_r (fr_quantity f \<le> Fin 0 \<or> fr_price f \<le> Fin 0 \<or> \<not> is_safe_integer (fr_filledAt f) \<or> fr_filledAt f < Fin 0)
        (Error ''paper fill accounting fields are invalid'')
     (bind_r (case fe_strategy (fr_evidence f) of None \<Rightarrow> Inr () | Some x \<Rightarrow> le_checkFill env d f x) (\<lambda>_.
      check_loop_fills env d known (fr_id f # seen) fs))))))"

definition order_fills :: "string \<Rightarrow> 's loop_account \<Rightarrow> 's loop_fill list" where
  "order_fills i d = filter (\<lambda>f. fr_orderId f = i) (la_fills d)"

definition fills_quantity :: "'s loop_fill list \<Rightarrow> jsnum" where
  "fills_quantity fs = round8 (number_sum fr_quantity fs)"

definition fills_fee :: "'s loop_fill list \<Rightarrow> jsnum" where
  "fills_fee fs = round8 (number_sum fr_fee fs)"

definition fills_notional :: "'s loop_fill list \<Rightarrow> jsnum" where
  "fills_notional fs = number_sum (\<lambda>f. fr_quantity f * fr_price f) fs"

definition check_order_fills :: "'s loop_account \<Rightarrow> loop_order \<Rightarrow> unit result" where
  "check_order_fills d x =
     (let fills = order_fills (ao_id x) d; quantity = fills_quantity fills;
          average = (if Fin 0 < quantity then round8 (fills_notional fills div quantity) else Fin 0);
          last = foldl (\<lambda>latest f. js_max latest (fr_filledAt f)) (Fin 0) fills;
          mismatch = (list_ex (\<lambda>f. fr_market f \<noteq> ao_market x \<or> fr_side f \<noteq> ao_side x) fills \<or>
            \<not> js_eq quantity (ao_quantity x) \<or> \<not> js_eq (fills_fee fills) (ao_fee x))
      in if ao_status x = LoopFilled
         then guard_r (fills = [] \<or> mismatch \<or> \<not> js_eq average (ao_price x) \<or> \<not> js_eq last (ao_filledAt x))
           (Error ''paper order/fill reconciliation mismatch'') (Inr ())
         else guard_r (mismatch \<or> fills \<noteq> [] \<and> (\<not> js_eq average (ao_price x) \<or> ao_filledAt x < last))
           (Error ''paper cancelled order/fill reconciliation mismatch'') (Inr ()))"

definition check_working_fills :: "'s loop_env \<Rightarrow> 's loop_account \<Rightarrow> 's working_order \<Rightarrow> unit result" where
  "check_working_fills env d w =
     (let fills = order_fills (wo_id w) d
      in guard_r (\<not> js_eq (fills_quantity fills) (lc_filledQuantity (wo_lifecycle w)) \<or>
             list_ex (\<lambda>f. fr_market f \<noteq> wo_market w \<or> fr_side f \<noteq> wo_side w) fills)
           (Error ''paper working order/fill reconciliation mismatch'')
         (case wo_strategy w of None \<Rightarrow> Inr () | Some x \<Rightarrow> le_checkBudget env d w x))"

definition check_idempotency :: "'s loop_account \<Rightarrow> unit result" where
  "check_idempotency d =
     (let keys = la_processedIdempotencyKeys d
      in guard_r (list_ex blank keys \<or> \<not> distinct keys \<or> list_ex (\<lambda>x. ao_idempotencyKey x \<notin> set keys) (la_orders d) \<or>
           list_ex (\<lambda>w. wo_idempotencyKey w \<notin> set keys) (working_orders d)) (Error ''paper idempotency ledger mismatch'') (Inr ()))"

definition complete_history :: "'s loop_account \<Rightarrow> bool" where
  "complete_history d \<longleftrightarrow>
     (let keys = la_processedIdempotencyKeys d;
          represented = set_of_list (map ao_idempotencyKey (la_orders d) @ map wo_idempotencyKey (working_orders d))
      in keys \<noteq> [] \<and> length represented = length keys \<and> set keys \<subseteq> set represented)"

definition accounting_input :: "'s loop_account \<Rightarrow> 's fill_evidence stored_account" where
  "accounting_input d =
     \<lparr>sa_initialCapital = la_initialCapital d, sa_fills = la_fills d, sa_cash = la_cash d, sa_realizedPnL = la_realizedPnL d,
      sa_positions = la_positions d\<rparr>"

definition check_accounting :: "'s loop_env \<Rightarrow> bool \<Rightarrow> 's loop_account \<Rightarrow> unit result" where
  "check_accounting env legacy d =
     (if \<not> complete_history d then Inr ()
      else case assertPaperAccountingReconciled (le_locale env) (le_digest env) (accounting_input d) of
        Inr _ \<Rightarrow> Inr ()
      | Inl e \<Rightarrow>
          if \<not> legacy \<or> e \<noteq> Error ''PAPER_LEDGER_RECONCILIATION_REQUIRED'' then Inl e
          else bind_r (assertRecognizedLegacy (le_locale env) (le_digest env) (le_positionsJson env) (accounting_input d)) (\<lambda>_. Inr ()))"

definition positions_value :: "account_position list \<Rightarrow> jsnum" where
  "positions_value ps = number_sum (\<lambda>p. ap_quantity p * ap_markPrice p) ps"

definition check_projection :: "'s loop_account \<Rightarrow> unit result" where
  "check_projection d =
     guard_r (\<not> js_eq (la_equity d) (round8 (la_cash d + positions_value (la_positions d))) \<or>
         \<not> js_eq (la_unrealizedPnL d) (round8 (number_sum ap_unrealizedPnL (la_positions d))))
       (Error ''paper account projection mismatch'') (Inr ())"

definition validateState :: "'s loop_env \<Rightarrow> bool \<Rightarrow> 's loop_account \<Rightarrow> unit result" where
  "validateState env legacy d =
     bind_r (check_header d) (\<lambda>_.
     bind_r (check_positions [] (la_positions d)) (\<lambda>_.
     bind_r (check_orders env [] [] (la_orders d)) (\<lambda>_.
     bind_r (check_working env d (map ao_id (la_orders d)) (map ao_idempotencyKey (la_orders d)) (working_orders d)) (\<lambda>_.
     bind_r (check_loop_fills env d (map ao_id (la_orders d) @ map wo_id (working_orders d)) [] (la_fills d)) (\<lambda>_.
     bind_r (map_r (check_order_fills d) (la_orders d)) (\<lambda>_.
     bind_r (map_r (check_working_fills env d) (working_orders d)) (\<lambda>_.
     bind_r (check_idempotency d) (\<lambda>_.
     bind_r (check_accounting env legacy d) (\<lambda>_. check_projection d)))))))))"

section \<open>Changes of the account\<close>

definition initialState :: "jsnum \<Rightarrow> 's loop_account" where
  "initialState capital =
     \<lparr>la_version = Fin 1, la_initialCapital = capital, la_cash = capital, la_equity = capital, la_realizedPnL = Fin 0,
      la_unrealizedPnL = Fin 0, la_positions = [], la_orders = [], la_fills = [], la_processedIdempotencyKeys = [],
      la_workingOrders = None, la_updatedAt = Fin 0\<rparr>"

definition markToMarket :: "'s loop_account \<Rightarrow> string \<Rightarrow> jsnum \<Rightarrow> jsnum \<Rightarrow> 's loop_account" where
  "markToMarket d market price now =
     (let positions = map (\<lambda>p. if ap_market p = market
            then p\<lparr>ap_markPrice := price, ap_unrealizedPnL := round8 (ap_quantity p * (price - ap_averageEntryPrice p))\<rparr> else p) (la_positions d)
      in d\<lparr>la_positions := positions, la_equity := round8 (la_cash d + positions_value positions),
           la_unrealizedPnL := round8 (number_sum ap_unrealizedPnL positions), la_updatedAt := now\<rparr>)"

definition toScaledLedger :: "jsnum \<Rightarrow> int result" where
  "toScaledLedger v =
     (let r = js_round (v * Fin 100000000)
      in if is_finite r then Inr \<lfloor>jval r\<rfloor> else Inl (RangeError ''BigInt''))"

definition divideRound8 :: "int \<Rightarrow> int \<Rightarrow> jsnum result" where
  "divideRound8 numerator denominator =
     guard_r (denominator \<le> 0) (Error ''division denominator must be positive'')
       (Inr (unscaled (big_div (numerator + big_div denominator 2) denominator)))"

definition held_position :: "string \<Rightarrow> jsnum \<Rightarrow> account_position list \<Rightarrow> account_position" where
  "held_position market price ps =
     (case find (\<lambda>p. ap_market p = market) ps of Some p \<Rightarrow> p
      | None \<Rightarrow> \<lparr>ap_market = market, ap_quantity = Fin 0, ap_averageEntryPrice = Fin 0, ap_realizedPnL = Fin 0, ap_unrealizedPnL = Fin 0,
          ap_markPrice = price\<rparr>)"

fun put_position :: "account_position \<Rightarrow> account_position list \<Rightarrow> account_position list" where
  "put_position q [] = [q]"
| "put_position q (p # ps) = (if ap_market p = ap_market q then q # ps else p # put_position q ps)"

text \<open>The outer \<open>Inl\<close> is an exception; the inner one is the reason for which a trade is refused.\<close>

definition trade_account ::
  "fill_side \<Rightarrow> string \<Rightarrow> jsnum \<Rightarrow> jsnum \<Rightarrow> jsnum \<Rightarrow> jsnum \<Rightarrow> 's loop_account \<Rightarrow> (string + 's loop_account) result" where
  "trade_account side market quantity price notional fee d =
     (let p = held_position market price (la_positions d)
      in case side of
           FillBuy \<Rightarrow>
             if la_cash d < notional + fee then Inr (Inl ''insufficient paper cash'')
             else let next = round8 (ap_quantity p + quantity)
               in bind_r (toScaledLedger (ap_averageEntryPrice p * ap_quantity p + notional + fee)) (\<lambda>costBasis.
                  bind_r (toScaledLedger next) (\<lambda>scaledNext.
                  bind_r (divideRound8 (costBasis * LEDGER_SCALE) scaledNext) (\<lambda>average.
                  Inr (Inr (d\<lparr>la_cash := round8 (la_cash d - notional - fee),
                    la_positions := put_position (p\<lparr>ap_quantity := next, ap_averageEntryPrice := average, ap_markPrice := price\<rparr>) (la_positions d)\<rparr>)))))
         | FillSell \<Rightarrow>
             if ap_quantity p + JS_EPSILON < quantity then Inr (Inl ''insufficient paper position'')
             else let realized = round8 ((price - ap_averageEntryPrice p) * quantity - fee); next = round8 (ap_quantity p - quantity)
               in Inr (Inr (d\<lparr>la_cash := round8 (la_cash d + notional - fee), la_realizedPnL := round8 (la_realizedPnL d + realized),
                    la_positions := put_position (p\<lparr>ap_quantity := next,
                      ap_averageEntryPrice := (if js_eq next (Fin 0) then Fin 0 else ap_averageEntryPrice p),
                      ap_realizedPnL := round8 (ap_realizedPnL p + realized), ap_markPrice := price\<rparr>) (la_positions d)\<rparr>)))"

end
