(* ===== verification/PaperLoop.thy ===== *)
theory PaperLoop imports LoopAccount begin

text \<open>
  The manual commands of \<open>PaperTradingExecutionLoop\<close> (\<open>apps/cloud/src/paperTradingExecutionLoop.ts\<close>) and the
  validation of a command (\<open>packages/contracts/src/personalPaperOrderCommand.ts\<close>).  A command takes the account and
  the world of its repository, and gives its result (or the error it throws), the account and the world after it.
  \<open>save\<close> is the repository's; a loop without repository has the \<open>save\<close> that always succeeds.
\<close>

section \<open>Commands\<close>

record paper_command =
  pc_schemaVersion :: jsnum
  pc_authority :: string
  pc_productionMutationAllowed :: bool
  pc_idempotencyKey :: string
  pc_market :: string
  pc_side :: fill_side
  pc_orderType :: loop_order_type
  pc_quantity :: jsnum
  pc_limitPrice :: "jsnum option"

definition is_alnum :: "char \<Rightarrow> bool" where
  "is_alnum c \<longleftrightarrow> (let n = of_char c :: nat in 48 \<le> n \<and> n \<le> 57 \<or> 65 \<le> n \<and> n \<le> 90 \<or> 97 \<le> n \<and> n \<le> 122)"

definition safe_key :: "string \<Rightarrow> bool" where
  "safe_key s \<longleftrightarrow>
     (case s of [] \<Rightarrow> False
      | c # cs \<Rightarrow> is_alnum c \<and> 15 \<le> length cs \<and> length cs \<le> 159 \<and> list_all (\<lambda>x. is_alnum x \<or> x \<in> set ''._:-'') cs)"

text \<open>\<open>toUpperCase\<close>; the two letters whose capital lies beyond 255 stay as they are.\<close>

definition upper_char :: "char \<Rightarrow> string" where
  "upper_char c =
     (let n = of_char c :: nat
      in if 97 \<le> n \<and> n \<le> 122 \<or> 224 \<le> n \<and> n \<le> 254 \<and> n \<noteq> 247 then [char_of (n - 32)] else if n = 223 then ''SS'' else [c])"

definition js_upper :: "string \<Rightarrow> string" where
  "js_upper s = concat (map upper_char s)"

definition krw_market :: "string \<Rightarrow> bool" where
  "krw_market s \<longleftrightarrow> take 4 s = ''KRW-'' \<and> drop 4 s \<noteq> [] \<and>
     list_all (\<lambda>c. let n = of_char c :: nat in 65 \<le> n \<and> n \<le> 90 \<or> 48 \<le> n \<and> n \<le> 57 \<or> n = 45) (drop 4 s)"

definition positive_number :: "jsnum \<Rightarrow> string \<Rightarrow> jsnum result" where
  "positive_number value name = guard_r (\<not> is_finite value \<or> value \<le> Fin 0) (Error (name @ '' must be positive'')) (Inr value)"

definition validatePersonalPaperOrderCommand :: "paper_command \<Rightarrow> paper_command result" where
  "validatePersonalPaperOrderCommand c =
     guard_r (\<not> js_eq (pc_schemaVersion c) (Fin 1)) (Error ''unsupported PAPER order command schemaVersion'')
     (guard_r (pc_authority c \<noteq> ''PAPER_ONLY'' \<or> pc_productionMutationAllowed c) (Error ''PAPER order authority invariant violated'')
     (guard_r (\<not> safe_key (pc_idempotencyKey c)) (Error ''idempotencyKey is invalid'')
     (let market = js_upper (js_trim (pc_market c))
      in guard_r (\<not> krw_market market) (Error ''market is invalid'')
        (bind_r (positive_number (pc_quantity c) ''quantity'') (\<lambda>quantity.
         bind_r (case pc_orderType c of LoopMarket \<Rightarrow> Inr None
             | LoopLimit \<Rightarrow> bind_r (positive_number (case pc_limitPrice c of None \<Rightarrow> NaN | Some v \<Rightarrow> v) ''limitPrice'') (\<lambda>v. Inr (Some v))) (\<lambda>limit.
         Inr (c\<lparr>pc_schemaVersion := Fin 1, pc_market := market, pc_limitPrice := limit\<rparr>)))))))"

section \<open>The loop\<close>

record 's loop_config =
  lf_env :: "'s loop_env"
  lf_commandDigest :: "paper_command \<Rightarrow> string"
  lf_numberText :: "jsnum \<Rightarrow> string"
  lf_executionProfile :: exec_profile
  lf_staleWindowMs :: jsnum

datatype p0_reading = P0Unread | P0Clear | P0Open | P0Throws

record loop_context =
  cx_now :: jsnum
  cx_marketPrice :: jsnum
  cx_observedAt :: jsnum
  cx_mode :: string
  cx_killSwitchActive :: bool
  cx_tradingAllowed :: bool
  cx_overallHealth :: string
  cx_p0 :: p0_reading

datatype loop_status = LoopRFilled | LoopRWait | LoopRBlocked | LoopRRejected | LoopRDuplicate | LoopRFailed

record 's loop_result =
  rs_status :: loop_status
  rs_reason :: "string option"
  rs_orders :: "loop_order list"
  rs_fills :: "'s loop_fill list"

type_synonym ('s, 'r) loop_save = "'s loop_account \<Rightarrow> 'r \<Rightarrow> unit result \<times> 'r"
type_synonym ('s, 'r) loop_answer = "'s loop_result result \<times> 's loop_account \<times> 'r"

definition plain_result :: "loop_status \<Rightarrow> string \<Rightarrow> 's loop_result" where
  "plain_result status reason = \<lparr>rs_status = status, rs_reason = Some reason, rs_orders = [], rs_fills = []\<rparr>"

definition answer :: "'s loop_result \<Rightarrow> 's loop_account \<Rightarrow> 'r \<Rightarrow> ('s, 'r) loop_answer" where
  "answer x d r = (Inr x, d, r)"

definition answer_r :: "'x result \<Rightarrow> ('x \<Rightarrow> ('s, 'r) loop_answer) \<Rightarrow> 's loop_account \<Rightarrow> 'r \<Rightarrow> ('s, 'r) loop_answer" where
  "answer_r m k d r = (case m of Inl e \<Rightarrow> (Inl e, d, r) | Inr x \<Rightarrow> k x)"

text \<open>The account changes only when the repository has saved the change.\<close>

definition commit_state :: "('s, 'r) loop_save \<Rightarrow> 's loop_account \<Rightarrow> 's loop_result \<Rightarrow> 's loop_account \<Rightarrow> 'r \<Rightarrow> ('s, 'r) loop_answer" where
  "commit_state save next x d r =
     (case save next r of
        (Inl _, r') \<Rightarrow> answer (plain_result LoopRFailed ''paper account persistence failed'') d r'
      | (Inr _, r') \<Rightarrow> answer x next r')"

definition executionGate :: "'s loop_config \<Rightarrow> loop_context \<Rightarrow> string option" where
  "executionGate cfg x =
     (if \<not> is_safe_integer (cx_now x) \<or> cx_now x < Fin 0 \<or> \<not> is_finite (cx_marketPrice x) \<or> cx_marketPrice x \<le> Fin 0 then Some ''invalid tick''
      else if cx_mode x = ''PAPER'' \<and> cx_p0 x = P0Open then Some ''OPEN_P0_ALERT''
      else if cx_mode x = ''PAPER'' \<and> cx_p0 x = P0Throws then Some ''P0_STATE_UNVERIFIABLE''
      else if cx_mode x \<noteq> ''PAPER'' \<or> cx_killSwitchActive x \<or> \<not> cx_tradingAllowed x \<or> cx_overallHealth x \<noteq> ''HEALTHY''
      then Some ''paper execution gate is closed''
      else if \<not> is_safe_integer (cx_observedAt x) \<or> cx_observedAt x < Fin 0 \<or> cx_now x < cx_observedAt x \<or>
          lf_staleWindowMs cfg \<le> cx_now x - cx_observedAt x
      then Some ''market data is stale'' else None)"

record loop_options =
  lq_initialCapital :: jsnum
  lq_feeRate :: "jsnum option"
  lq_slippageBps :: "jsnum option"
  lq_spreadBps :: "jsnum option"
  lq_maxFillRatio :: "jsnum option"
  lq_latencyTicks :: "jsnum option"
  lq_staleWindowMs :: "jsnum option"

definition PaperTradingExecutionLoop_new ::
  "'s loop_env \<Rightarrow> (paper_command \<Rightarrow> string) \<Rightarrow> (jsnum \<Rightarrow> string) \<Rightarrow> loop_options \<Rightarrow> 's loop_account option \<Rightarrow>
    ('s loop_config \<times> 's loop_account) result" where
  "PaperTradingExecutionLoop_new env commandDigest numberText x restored =
     (let feeRate = or_default (lq_feeRate x) (lit (5 / 10000)); stale = or_default (lq_staleWindowMs x) (Fin 30000)
      in guard_r (\<not> is_finite (lq_initialCapital x) \<or> lq_initialCapital x \<le> Fin 0) (Error ''paper initial capital must be positive'')
        (bind_r (buildExecutionProfile (le_profileDigest env) feeRate (or_default (lq_slippageBps x) (Fin 0)) (or_default (lq_spreadBps x) (Fin 0))
            (or_default (lq_maxFillRatio x) (Fin 1)) (or_default (lq_latencyTicks x) (Fin 0))) (\<lambda>profile.
         guard_r (\<not> is_safe_integer stale \<or> stale < Fin 1000) (Error ''paper stale window is invalid'')
         (let d = or_default restored (initialState (lq_initialCapital x))
          in guard_r (JS_EPSILON < js_abs (la_initialCapital d - lq_initialCapital x)) (Error ''paper initial capital mismatch'')
            (bind_r (validateState env False d) (\<lambda>_.
             Inr (\<lparr>lf_env = env, lf_commandDigest = commandDigest, lf_numberText = numberText, lf_executionProfile = profile,
               lf_staleWindowMs = stale\<rparr>, d)))))))"

section \<open>Opening and cancelling\<close>

definition open_lifecycle :: "jsnum \<Rightarrow> jsnum \<Rightarrow> order_lifecycle result" where
  "open_lifecycle quantity now =
     bind_r (createPaperOrderLifecycle quantity now) (\<lambda>a.
     bind_r (transitionPaperOrderLifecycle a LsAccepted now (Fin 0)) (\<lambda>b.
     transitionPaperOrderLifecycle b LsOpen now (Fin 0)))"

definition prior_fingerprint :: "string \<Rightarrow> 's loop_account \<Rightarrow> string option option" where
  "prior_fingerprint key d =
     (case find (\<lambda>x. ao_idempotencyKey x = key) (la_orders d) of
        Some x \<Rightarrow>
          Some (case ao_requestFingerprint x of Some s \<Rightarrow> Some s
            | None \<Rightarrow> map_option wo_requestFingerprint (find (\<lambda>w. wo_idempotencyKey w = key) (working_orders d)))
      | None \<Rightarrow> map_option (\<lambda>w. Some (wo_requestFingerprint w)) (find (\<lambda>w. wo_idempotencyKey w = key) (working_orders d)))"

definition openLimitOrder ::
  "'s loop_config \<Rightarrow> ('s, 'r) loop_save \<Rightarrow> paper_command \<Rightarrow> loop_context \<Rightarrow> 's loop_account \<Rightarrow> 'r \<Rightarrow> ('s, 'r) loop_answer" where
  "openLimitOrder cfg save c x d r =
     (case validatePersonalPaperOrderCommand c of
        Inl _ \<Rightarrow> answer (plain_result LoopRFailed ''invalid PAPER order command'') d r
      | Inr v \<Rightarrow>
          if pc_orderType v \<noteq> LoopLimit then answer (plain_result LoopRRejected ''PAPER_WORKING_ORDER_REQUIRES_LIMIT'') d r
          else case executionGate cfg x of
            Some gate \<Rightarrow> answer (plain_result LoopRBlocked gate) d r
          | None \<Rightarrow>
              let fingerprint = lf_commandDigest cfg v; key = pc_idempotencyKey v
              in case prior_fingerprint key d of
                Some prior \<Rightarrow>
                  if prior = Some fingerprint then answer (plain_result LoopRDuplicate key) d r
                  else answer (plain_result LoopRRejected ''PAPER_IDEMPOTENCY_CONFLICT'') d r
              | None \<Rightarrow>
                  answer_r (open_lifecycle (pc_quantity v) (cx_now x)) (\<lambda>lifecycle.
                    let w = \<lparr>wo_id = take 24 (le_sha (lf_env cfg) key), wo_idempotencyKey = key, wo_market = pc_market v, wo_side = pc_side v,
                          wo_orderType = LoopLimit, wo_requestedQuantity = pc_quantity v, wo_limitPrice = pc_limitPrice v,
                          wo_createdAt = cx_now x, wo_requestFingerprint = fingerprint, wo_lifecycle = lifecycle,
                          wo_executionProfile = lf_executionProfile cfg, wo_observedTicks = Some (Fin 0), wo_strategy = None\<rparr>
                    in commit_state save (d\<lparr>la_workingOrders := Some (take 1000 (w # working_orders d)),
                        la_processedIdempotencyKeys := key # la_processedIdempotencyKeys d, la_updatedAt := cx_now x\<rparr>)
                      (plain_result LoopRWait ''PAPER_LIMIT_OPEN'') d r) d r)"

definition order_index :: "string \<Rightarrow> 's working_order list \<Rightarrow> nat option" where
  "order_index i ws = (let n = length (takeWhile (\<lambda>w. wo_id w \<noteq> i) ws) in if n < length ws then Some n else None)"

definition remove_at :: "nat \<Rightarrow> 'x list \<Rightarrow> 'x list" where
  "remove_at n xs = take n xs @ drop (Suc n) xs"

definition completed_order :: "'s working_order \<Rightarrow> loop_order_status \<Rightarrow> jsnum \<Rightarrow> jsnum \<Rightarrow> jsnum \<Rightarrow> jsnum \<Rightarrow> order_lifecycle \<Rightarrow> loop_order" where
  "completed_order w status quantity price fee now lifecycle =
     \<lparr>ao_id = wo_id w, ao_idempotencyKey = wo_idempotencyKey w, ao_market = wo_market w, ao_side = wo_side w, ao_quantity = quantity,
      ao_price = price, ao_fee = fee, ao_status = status, ao_createdAt = wo_createdAt w, ao_filledAt = now,
      ao_requestFingerprint = Some (wo_requestFingerprint w), ao_lifecycle = Some lifecycle,
      ao_executionProfile = Some (wo_executionProfile w)\<rparr>"

definition cancelWorkingOrder ::
  "'s loop_config \<Rightarrow> ('s, 'r) loop_save \<Rightarrow> string \<Rightarrow> jsnum \<Rightarrow> 's loop_account \<Rightarrow> 'r \<Rightarrow> ('s, 'r) loop_answer" where
  "cancelWorkingOrder cfg save orderId now d r =
     (if blank orderId \<or> \<not> is_safe_integer now \<or> now < Fin 0 then answer (plain_result LoopRFailed ''invalid PAPER cancel request'') d r
      else case order_index orderId (working_orders d) of
        None \<Rightarrow> answer (plain_result LoopRRejected ''PAPER_WORKING_ORDER_NOT_FOUND'') d r
      | Some n \<Rightarrow>
          let w = working_orders d ! n
          in case transitionPaperOrderLifecycle (wo_lifecycle w) LsCancelled now (Fin 0) of
            Inl e \<Rightarrow> answer (plain_result LoopRRejected (error_message e)) d r
          | Inr lifecycle \<Rightarrow>
              let prior = order_fills (wo_id w) d; quantity = fills_quantity prior;
                  price = (if Fin 0 < quantity then number_sum (\<lambda>f. fr_price f * fr_quantity f) prior div quantity else or_default (wo_limitPrice w) (Fin 0));
                  cancelled = completed_order w LoopCancelled quantity price (fills_fee prior) now lifecycle
              in commit_state save
                   (d\<lparr>la_orders := take 1000 (cancelled # filter (\<lambda>x. ao_id x \<noteq> wo_id w) (la_orders d)),
                      la_workingOrders := Some (remove_at n (working_orders d)), la_updatedAt := now\<rparr>)
                   \<lparr>rs_status = LoopRWait, rs_reason = Some (''PAPER_ORDER_CANCELLED:'' @ lf_numberText cfg (lc_transitionSequence lifecycle)),
                    rs_orders = [cancelled], rs_fills = prior\<rparr> d r)"

section \<open>Fills of a working order\<close>

definition marketable :: "'s working_order \<Rightarrow> jsnum \<Rightarrow> bool" where
  "marketable w price =
     (case wo_side w of FillBuy \<Rightarrow> price \<le> or_default (wo_limitPrice w) (Fin 0) | FillSell \<Rightarrow> or_default (wo_limitPrice w) PInf \<le> price)"

definition outside_limit :: "'s working_order \<Rightarrow> jsnum \<Rightarrow> bool" where
  "outside_limit w price \<longleftrightarrow>
     wo_orderType w = LoopLimit \<and>
     (let limit = or_default (wo_limitPrice w) NaN in case wo_side w of FillBuy \<Rightarrow> limit < price | FillSell \<Rightarrow> price < limit)"

definition working_fill :: "'s working_order \<Rightarrow> string \<Rightarrow> jsnum \<Rightarrow> jsnum \<Rightarrow> jsnum \<Rightarrow> jsnum \<Rightarrow> 's loop_fill" where
  "working_fill w i quantity price fee now =
     \<lparr>fr_id = i, fr_orderId = wo_id w, fr_market = wo_market w, fr_side = wo_side w, fr_quantity = quantity, fr_price = price, fr_fee = fee,
      fr_filledAt = now,
      fr_evidence = \<lparr>fe_profileFingerprint = Some (ep_fingerprintSha256 (wo_executionProfile w)),
        fe_engineVersion = Some (ep_engineVersion (wo_executionProfile w)), fe_strategy = None\<rparr>\<rparr>"

definition settle_fill ::
  "('s, 'r) loop_save \<Rightarrow> nat \<Rightarrow> 's working_order \<Rightarrow> string option \<Rightarrow> jsnum \<Rightarrow> jsnum \<Rightarrow> jsnum \<Rightarrow> loop_context \<Rightarrow> 's loop_account \<Rightarrow>
    's loop_account \<Rightarrow> 'r \<Rightarrow> ('s, 'r) loop_answer" where
  "settle_fill save n w eventId quantity price fee x traded d r =
     (let terminal = (js_abs (quantity - lc_remainingQuantity (wo_lifecycle w)) \<le> JS_EPSILON); now = cx_now x
      in case transitionPaperOrderLifecycle (wo_lifecycle w) (if terminal then LsFilled else LsPartiallyFilled) now quantity of
           Inl e \<Rightarrow> answer (plain_result LoopRRejected (error_message e)) d r
         | Inr lifecycle \<Rightarrow>
             let prior = order_fills (wo_id w) d;
                 f = working_fill w (case eventId of None \<Rightarrow> ''fill:'' @ wo_id w @ '':'' @ nat_string (length prior + 1) | Some e \<Rightarrow> ''fill-event:'' @ e)
                   quantity price fee now;
                 all = prior @ [f]; total_quantity = fills_quantity all;
                 completed = completed_order w LoopFilled total_quantity (round8 (fills_notional all div total_quantity)) (fills_fee all) now lifecycle;
                 next = traded\<lparr>la_fills := f # la_fills d,
                   la_orders := (if terminal then take 1000 (completed # la_orders d) else la_orders d),
                   la_workingOrders := Some (if terminal then remove_at n (working_orders d)
                     else (working_orders d)[n := w\<lparr>wo_lifecycle := lifecycle\<rparr>]),
                   la_updatedAt := now\<rparr>
             in commit_state save (markToMarket next (wo_market w) (cx_marketPrice x) now)
                  \<lparr>rs_status = (if terminal then LoopRFilled else LoopRWait),
                   rs_reason = Some (if terminal then ''PAPER_LIMIT_FILLED'' else ''PAPER_LIMIT_PARTIALLY_FILLED''),
                   rs_orders = (if terminal then [completed] else []), rs_fills = [f]\<rparr> d r)"

definition attempt_fill ::
  "('s, 'r) loop_save \<Rightarrow> nat \<Rightarrow> 's working_order \<Rightarrow> jsnum \<Rightarrow> string option \<Rightarrow> loop_context \<Rightarrow> 's loop_account \<Rightarrow> 'r \<Rightarrow> ('s, 'r) loop_answer" where
  "attempt_fill save n w requested eventId x d r =
     (let remaining = lc_remainingQuantity (wo_lifecycle w); market = wo_market w; price = cx_marketPrice x
      in if market \<noteq> js_upper (js_trim market) then answer (plain_result LoopRRejected ''paper working order market is invalid'') d r
         else if \<not> marketable w price then answer (plain_result LoopRWait ''PAPER_LIMIT_NOT_MARKETABLE'') d r
         else if remaining < requested then answer (plain_result LoopRRejected ''fill quantity exceeds remaining quantity'') d r
         else answer_r (deterministicFill (wo_executionProfile w) (wo_side w) (js_min requested remaining) price (wo_requestedQuantity w))
           (\<lambda>(quantity, fillPrice).
              if outside_limit w fillPrice then answer (plain_result LoopRWait ''PAPER_LIMIT_MODELED_PRICE_OUTSIDE_LIMIT'') d r
              else let fee = round8 (quantity * fillPrice * ep_feeRate (wo_executionProfile w))
                in answer_r (trade_account (wo_side w) market quantity fillPrice (round8 (quantity * fillPrice)) fee d) (\<lambda>t.
                     case t of
                       Inl reason \<Rightarrow> answer (plain_result LoopRRejected reason) d r
                     | Inr traded \<Rightarrow> settle_fill save n w eventId quantity fillPrice fee x traded d r) d r) d r)"

definition fillWorkingOrder ::
  "'s loop_config \<Rightarrow> ('s, 'r) loop_save \<Rightarrow> string \<Rightarrow> jsnum \<Rightarrow> loop_context \<Rightarrow> string option \<Rightarrow> 's loop_account \<Rightarrow> 'r \<Rightarrow> ('s, 'r) loop_answer" where
  "fillWorkingOrder cfg save orderId requested x fillEventId d r =
     (case executionGate cfg x of
        Some gate \<Rightarrow> answer (plain_result LoopRBlocked gate) d r
      | None \<Rightarrow>
          if blank orderId \<or> \<not> is_finite requested \<or> requested \<le> Fin 0 \<or> (case fillEventId of None \<Rightarrow> False | Some e \<Rightarrow> blank e)
          then answer (plain_result LoopRFailed ''invalid PAPER working fill request'') d r
          else let eventId = map_option js_trim fillEventId
            in case (case eventId of None \<Rightarrow> None | Some e \<Rightarrow> find (\<lambda>f. fr_id f = ''fill-event:'' @ e) (la_fills d)) of
              Some f \<Rightarrow> answer \<lparr>rs_status = LoopRDuplicate, rs_reason = eventId, rs_orders = [], rs_fills = [f]\<rparr> d r
            | None \<Rightarrow>
                (case order_index orderId (working_orders d) of
                   None \<Rightarrow> answer (plain_result LoopRRejected ''PAPER_WORKING_ORDER_NOT_FOUND'') d r
                 | Some n \<Rightarrow>
                     let w = working_orders d ! n
                     in if wo_strategy w \<noteq> None then answer (plain_result LoopRRejected ''PAPER_STRATEGY_WORKING_ORDER_AUTOMATIC_ONLY'') d r
                        else let ticks = or_default (wo_observedTicks w) (Fin 0) + Fin 1; latency = ep_latencyTicks (wo_executionProfile w);
                                 seen = w\<lparr>wo_observedTicks := Some ticks\<rparr>
                          in if ticks \<le> latency
                             then commit_state save (d\<lparr>la_workingOrders := Some ((working_orders d)[n := seen]), la_updatedAt := cx_now x\<rparr>)
                               (plain_result LoopRWait (''PAPER_EXECUTION_LATENCY:'' @ lf_numberText cfg ticks @ ''/'' @ lf_numberText cfg latency)) d r
                             else attempt_fill save n seen requested eventId x d r))"

section \<open>Immediate orders\<close>

text \<open>\<open>executeOrder\<close> without an observed quote and without strategy provenance, as the manual command calls it.\<close>

definition executed_lifecycle :: "jsnum \<Rightarrow> jsnum \<Rightarrow> order_lifecycle result" where
  "executed_lifecycle quantity now =
     bind_r (createPaperOrderLifecycle quantity now) (\<lambda>a.
     bind_r (transitionPaperOrderLifecycle a LsAccepted now (Fin 0)) (\<lambda>b.
     transitionPaperOrderLifecycle b LsFilled now quantity))"

definition executeOrder ::
  "'s loop_config \<Rightarrow> 's loop_account \<Rightarrow> string \<Rightarrow> string \<Rightarrow> fill_side \<Rightarrow> jsnum \<Rightarrow> jsnum \<Rightarrow> jsnum \<Rightarrow> string \<Rightarrow>
    ('s loop_account \<times> loop_order \<times> 's loop_fill) result" where
  "executeOrder cfg d key market side requested quote now fingerprint =
     (let profile = lf_executionProfile cfg
      in bind_r (deterministicFill profile side requested quote requested) (\<lambda>(quantity, price).
         guard_r (\<not> js_eq quantity requested) (Error ''PAPER_PARTIAL_FILL_REQUIRES_WORKING_ORDER'')
         (let notional = round8 (quantity * price); fee = round8 (notional * ep_feeRate profile)
          in bind_r (trade_account side market quantity price notional fee d) (\<lambda>t.
             case t of
               Inl reason \<Rightarrow> throw reason
             | Inr traded \<Rightarrow>
                 bind_r (executed_lifecycle quantity now) (\<lambda>lifecycle.
                 let i = take 24 (le_sha (lf_env cfg) key);
                     x = \<lparr>ao_id = i, ao_idempotencyKey = key, ao_market = market, ao_side = side, ao_quantity = quantity, ao_price = price,
                           ao_fee = fee, ao_status = LoopFilled, ao_createdAt = now, ao_filledAt = now, ao_requestFingerprint = Some fingerprint,
                           ao_lifecycle = Some lifecycle, ao_executionProfile = Some profile\<rparr>;
                     f = \<lparr>fr_id = ''fill:'' @ i, fr_orderId = i, fr_market = market, fr_side = side, fr_quantity = quantity, fr_price = price,
                           fr_fee = fee, fr_filledAt = now,
                           fr_evidence = \<lparr>fe_profileFingerprint = None, fe_engineVersion = None, fe_strategy = None\<rparr>\<rparr>
                 in Inr (traded\<lparr>la_orders := take 1000 (x # la_orders d), la_fills := take 1000 (f # la_fills d),
                      la_processedIdempotencyKeys := key # la_processedIdempotencyKeys d, la_updatedAt := now\<rparr>, x, f))))))"

definition limit_refusal :: "paper_command \<Rightarrow> jsnum \<Rightarrow> (loop_status \<times> string) option" where
  "limit_refusal c price =
     (if pc_orderType c \<noteq> LoopLimit then None
      else let limit = or_default (pc_limitPrice c) NaN
        in if \<not> is_finite limit \<or> limit \<le> Fin 0 then Some (LoopRFailed, ''invalid PAPER limit price'')
           else if (case pc_side c of FillBuy \<Rightarrow> price \<le> limit | FillSell \<Rightarrow> limit \<le> price) then None
           else Some (LoopRRejected, ''PAPER_LIMIT_NOT_MARKETABLE''))"

definition submitManualOrder ::
  "'s loop_config \<Rightarrow> ('s, 'r) loop_save \<Rightarrow> paper_command \<Rightarrow> loop_context \<Rightarrow> 's loop_account \<Rightarrow> 'r \<Rightarrow> ('s, 'r) loop_answer" where
  "submitManualOrder cfg save c x d r =
     (case validatePersonalPaperOrderCommand c of
        Inl _ \<Rightarrow> answer (plain_result LoopRFailed ''invalid PAPER order command'') d r
      | Inr v \<Rightarrow>
          let fingerprint = lf_commandDigest cfg v; key = pc_idempotencyKey v; market = js_upper (js_trim (pc_market v))
          in case find (\<lambda>y. ao_idempotencyKey y = key) (la_orders d) of
            Some prior \<Rightarrow>
              if ao_requestFingerprint prior \<noteq> Some fingerprint then answer (plain_result LoopRRejected ''PAPER_IDEMPOTENCY_CONFLICT'') d r
              else answer \<lparr>rs_status = LoopRDuplicate, rs_reason = Some key, rs_orders = [prior], rs_fills = order_fills (ao_id prior) d\<rparr> d r
          | None \<Rightarrow>
              if key \<in> set (la_processedIdempotencyKeys d) then answer (plain_result LoopRRejected ''PAPER_IDEMPOTENCY_CONFLICT'') d r
              else case executionGate cfg x of
                Some gate \<Rightarrow> answer (plain_result LoopRBlocked gate) d r
              | None \<Rightarrow>
                  (case limit_refusal v (cx_marketPrice x) of
                     Some (status, reason) \<Rightarrow> answer (plain_result status reason) d r
                   | None \<Rightarrow>
                       (case executeOrder cfg d key market (pc_side v) (pc_quantity v) (cx_marketPrice x) (cx_now x) fingerprint of
                          Inl e \<Rightarrow> answer (plain_result LoopRRejected (error_message e)) d r
                        | Inr (next, y, f) \<Rightarrow>
                            commit_state save (markToMarket next market (cx_marketPrice x) (cx_now x))
                              \<lparr>rs_status = LoopRFilled, rs_reason = None, rs_orders = [y], rs_fills = [f]\<rparr> d r)))"

end
