(* ===== verification/WriterStore.thy ===== *)
theory WriterStore imports LoopAccount begin

text \<open>
  \<open>SqliteCloudPaperAccountRepository\<close> of \<open>apps/cloud/src/paperTradingExecutionLoop.ts\<close>: the paper account, its history
  and its fill ledger in SQL tables, behind a lease that lets one writer at a time write.  The tables hold the
  rows of one account; the triggers on the account table are those of
  \<open>packages/storage/src/cloudPaperAccountHistoryMigration.ts\<close>.  JSON texts and SHA-256 are parameters, a
  transaction that throws leaves the tables as they were, and the clock reading of a call is its argument.
\<close>

section \<open>Tables\<close>

record lease_row =
  ls_ownerId :: string
  ls_leaseUntilMs :: jsnum
  ls_heartbeatAtMs :: jsnum

record account_row =
  cr_schemaVersion :: nat
  cr_updatedAt :: jsnum
  cr_stateJson :: string
  cr_checksum :: string
  cr_valid :: bool

record history_row =
  hx_schemaVersion :: nat
  hx_updatedAt :: jsnum
  hx_stateJson :: string
  hx_checksum :: string

record fill_row =
  fl_sequence :: nat
  fl_fillId :: string
  fl_filledAt :: jsnum
  fl_fillJson :: string
  fl_checksum :: string

record writer_db =
  wd_lease :: "lease_row option"
  wd_account :: "account_row option"
  wd_history :: "history_row list"
  wd_fills :: "fill_row list"

record 's store_env =
  se_env :: "'s loop_env"
  se_sha :: "string \<Rightarrow> string"
  se_stateJson :: "'s loop_account \<Rightarrow> string"
  se_parseState :: "string \<Rightarrow> 's loop_account result"
  se_fillJson :: "'s loop_fill \<Rightarrow> string"
  se_parseFill :: "string \<Rightarrow> 's loop_fill result"

section \<open>The writer lease\<close>

record lease_options =
  lo_leaseDurationMs :: "jsnum option"
  lo_heartbeatIntervalMs :: "jsnum option"
  lo_maxClockAdvanceMs :: "jsnum option"
  lo_maxTakeoverAgeMs :: "jsnum option"

record lease_writer =
  wr_ownerId :: string
  wr_leaseDurationMs :: jsnum
  wr_maxClockAdvanceMs :: jsnum
  wr_maxTakeoverAgeMs :: jsnum
  wr_closed :: bool
  wr_leaseLost :: bool
  wr_leaseFailure :: "string option"
  wr_lastObservedNowMs :: jsnum

definition writer_options :: "string \<Rightarrow> lease_options \<Rightarrow> lease_writer result" where
  "writer_options owner x =
     (let duration = or_default (lo_leaseDurationMs x) (Fin 30000);
          heartbeat = or_default (lo_heartbeatIntervalMs x) (js_max (Fin 1000) (js_floor (duration div Fin 3)));
          advance = or_default (lo_maxClockAdvanceMs x) (js_max (duration * Fin 2) (Fin 60000));
          takeover = or_default (lo_maxTakeoverAgeMs x) (duration * Fin 4)
      in guard_r (\<not> is_safe_integer duration \<or> duration < Fin 1000) (Error ''paper writer lease duration is invalid'')
        (guard_r (\<not> is_safe_integer heartbeat \<or> heartbeat < Fin 1000 \<or> duration \<le> heartbeat) (Error ''paper writer heartbeat interval is invalid'')
        (guard_r (\<not> is_safe_integer advance \<or> advance < duration) (Error ''paper writer clock advance limit is invalid'')
        (guard_r (\<not> is_safe_integer takeover \<or> takeover < duration) (Error ''paper writer takeover age limit is invalid'')
        (Inr \<lparr>wr_ownerId = owner, wr_leaseDurationMs = duration, wr_maxClockAdvanceMs = advance, wr_maxTakeoverAgeMs = takeover,
           wr_closed = False, wr_leaseLost = False, wr_leaseFailure = None, wr_lastObservedNowMs = Fin 0\<rparr>)))))"

definition valid_time :: "jsnum \<Rightarrow> bool" where
  "valid_time t \<longleftrightarrow> is_safe_integer t \<and> \<not> t < Fin 0"

definition check_takeover :: "lease_writer \<Rightarrow> jsnum \<Rightarrow> lease_row \<Rightarrow> unit result" where
  "check_takeover w now row =
     guard_r (\<not> valid_time (ls_heartbeatAtMs row) \<or> \<not> is_safe_integer (ls_leaseUntilMs row) \<or> ls_leaseUntilMs row < ls_heartbeatAtMs row)
       (Error ''PAPER_WRITER_LEASE_CORRUPTED'')
     (guard_r (now < ls_heartbeatAtMs row) (Error ''PAPER_WRITER_CLOCK_REGRESSION'')
     (guard_r (wr_maxTakeoverAgeMs w < now - ls_heartbeatAtMs row) (Error ''PAPER_WRITER_CLOCK_ANOMALY'')
     (guard_r (ls_ownerId row \<noteq> wr_ownerId w \<and> now < ls_leaseUntilMs row) (Error ''PAPER_WRITER_ALREADY_ACTIVE'') (Inr ()))))"

definition lease_of :: "lease_writer \<Rightarrow> jsnum \<Rightarrow> lease_row" where
  "lease_of w now = \<lparr>ls_ownerId = wr_ownerId w, ls_leaseUntilMs = now + wr_leaseDurationMs w, ls_heartbeatAtMs = now\<rparr>"

definition acquireLease :: "jsnum \<Rightarrow> lease_writer \<Rightarrow> writer_db \<Rightarrow> (lease_writer \<times> writer_db) result" where
  "acquireLease now w db =
     guard_r (\<not> valid_time now) (Error ''paper writer clock is invalid'')
     (bind_r (case wd_lease db of None \<Rightarrow> Inr () | Some row \<Rightarrow> check_takeover w now row) (\<lambda>_.
      Inr (w\<lparr>wr_lastObservedNowMs := now\<rparr>, db\<lparr>wd_lease := Some (lease_of w now)\<rparr>)))"

text \<open>A writer that loses its lease remembers the first cause and never regains it.\<close>

definition lose_lease :: "string \<Rightarrow> lease_writer \<Rightarrow> lease_writer" where
  "lose_lease cause w =
     w\<lparr>wr_leaseLost := True, wr_leaseFailure := (case wr_leaseFailure w of None \<Rightarrow> Some cause | Some c \<Rightarrow> Some c)\<rparr>"

definition rejected_renewal :: "lease_writer \<Rightarrow> jsnum \<Rightarrow> lease_row option \<Rightarrow> string" where
  "rejected_renewal w now row =
     (case row of
        None \<Rightarrow> ''PAPER_WRITER_LEASE_ROW_MISSING''
      | Some l \<Rightarrow>
          if ls_ownerId l \<noteq> wr_ownerId w then ''PAPER_WRITER_LEASE_OWNER_MISMATCH''
          else if is_safe_integer (ls_leaseUntilMs l) \<and> ls_leaseUntilMs l \<le> now then ''PAPER_WRITER_LEASE_EXPIRED''
          else ''PAPER_WRITER_LEASE_RENEWAL_REJECTED'')"

definition holds_lease :: "lease_writer \<Rightarrow> jsnum \<Rightarrow> lease_row option \<Rightarrow> bool" where
  "holds_lease w now row \<longleftrightarrow> (case row of None \<Rightarrow> False | Some l \<Rightarrow> ls_ownerId l = wr_ownerId w \<and> now < ls_leaseUntilMs l)"

definition assertLeaseHeld :: "jsnum \<Rightarrow> lease_writer \<Rightarrow> writer_db \<Rightarrow> unit result \<times> lease_writer \<times> writer_db" where
  "assertLeaseHeld now w db =
     (if wr_closed w \<or> wr_leaseLost w then (throw ''PAPER_WRITER_LEASE_LOST'', w, db)
      else if \<not> valid_time now then (throw ''PAPER_WRITER_CLOCK_INVALID'', lose_lease ''PAPER_WRITER_CLOCK_INVALID'' w, db)
      else if now < wr_lastObservedNowMs w then (throw ''PAPER_WRITER_CLOCK_REGRESSION'', lose_lease ''PAPER_WRITER_CLOCK_REGRESSION'' w, db)
      else if wr_maxClockAdvanceMs w < now - wr_lastObservedNowMs w
      then (throw ''PAPER_WRITER_CLOCK_ANOMALY'', lose_lease ''PAPER_WRITER_CLOCK_ANOMALY'' w, db)
      else if \<not> holds_lease w now (wd_lease db)
      then (throw ''PAPER_WRITER_LEASE_LOST'', lose_lease (rejected_renewal w now (wd_lease db)) w, db)
      else (Inr (), w\<lparr>wr_lastObservedNowMs := now\<rparr>, db\<lparr>wd_lease := Some (lease_of w now)\<rparr>))"

text \<open>A transaction whose first step is \<open>assertLeaseHeld\<close>: what the writer learned stays, the tables are rolled back.\<close>

definition lease_transaction ::
  "jsnum \<Rightarrow> (writer_db \<Rightarrow> ('x \<times> writer_db) result) \<Rightarrow> lease_writer \<Rightarrow> writer_db \<Rightarrow> 'x result \<times> lease_writer \<times> writer_db" where
  "lease_transaction now body w db =
     (case assertLeaseHeld now w db of
        (Inl e, w', _) \<Rightarrow> (Inl e, w', db)
      | (Inr _, w', held) \<Rightarrow> (case body held of Inl e \<Rightarrow> (Inl e, w', db) | Inr (x, db') \<Rightarrow> (Inr x, w', db')))"

definition verifyWriterLease :: "jsnum \<Rightarrow> lease_writer \<Rightarrow> writer_db \<Rightarrow> unit result \<times> lease_writer \<times> writer_db" where
  "verifyWriterLease now w db = lease_transaction now (\<lambda>held. Inr ((), held)) w db"

definition heartbeatLease :: "jsnum \<Rightarrow> lease_writer \<Rightarrow> writer_db \<Rightarrow> lease_writer \<times> writer_db" where
  "heartbeatLease now w db =
     (if wr_closed w \<or> wr_leaseLost w then (w, db)
      else case verifyWriterLease now w db of
        (Inl e, w', db') \<Rightarrow> (lose_lease (error_message e) w', db')
      | (Inr _, w', db') \<Rightarrow> (w', db'))"

definition close_writer :: "lease_writer \<Rightarrow> writer_db \<Rightarrow> lease_writer \<times> writer_db" where
  "close_writer w db =
     (if wr_closed w then (w, db)
      else (w\<lparr>wr_closed := True\<rparr>,
        db\<lparr>wd_lease := (case wd_lease db of None \<Rightarrow> None | Some l \<Rightarrow> if ls_ownerId l = wr_ownerId w then None else Some l)\<rparr>))"

section \<open>The fill ledger\<close>

definition max_fill_sequence :: "fill_row list \<Rightarrow> nat" where
  "max_fill_sequence rows = foldl max 0 (map fl_sequence rows)"

definition append_fill :: "'s store_env \<Rightarrow> 's loop_fill \<Rightarrow> nat \<times> fill_row list \<Rightarrow> (nat \<times> fill_row list) result" where
  "append_fill se f nr =
     (let json = se_fillJson se f; checksum = se_sha se json
      in case find (\<lambda>row. fl_fillId row = fr_id f) (snd nr) of
           Some row \<Rightarrow>
             guard_r (fl_fillJson row \<noteq> json \<or> fl_checksum row \<noteq> checksum \<or> \<not> js_eq (fl_filledAt row) (fr_filledAt f))
               (Error ''PAPER_FILL_LEDGER_CONFLICT'') (Inr nr)
         | None \<Rightarrow>
             guard_r (fr_filledAt f = NaN) (Error ''NOT NULL constraint failed'')
             (Inr (fst nr + 1, snd nr @ [\<lparr>fl_sequence = fst nr + 1, fl_fillId = fr_id f, fl_filledAt = fr_filledAt f, fl_fillJson = json,
                fl_checksum = checksum\<rparr>])))"

definition appendFillLedgerRows :: "'s store_env \<Rightarrow> 's loop_fill list \<Rightarrow> writer_db \<Rightarrow> writer_db result" where
  "appendFillLedgerRows se fills db =
     bind_r (fold_r (append_fill se) (js_sort (fill_order (le_locale (se_env se))) fills) (max_fill_sequence (wd_fills db), wd_fills db))
       (\<lambda>nr. Inr (db\<lparr>wd_fills := snd nr\<rparr>))"

fun read_fill_rows :: "'s store_env \<Rightarrow> nat \<Rightarrow> string list \<Rightarrow> fill_row list \<Rightarrow> 's loop_fill list result" where
  "read_fill_rows se index ids [] = Inr []"
| "read_fill_rows se index ids (row # rows) =
     guard_r (fl_sequence row \<noteq> index + 1) (Error ''PAPER_FILL_LEDGER_SEQUENCE_GAP'')
     (bind_r (se_parseFill se (fl_fillJson row)) (\<lambda>f.
      guard_r (blank (fr_id f) \<or> fr_id f \<in> set ids \<or> fr_id f \<noteq> fl_fillId row \<or> \<not> js_eq (fr_filledAt f) (fl_filledAt row))
        (Error ''PAPER_FILL_LEDGER_IDENTITY_INVALID'')
     (guard_r (fl_checksum row \<noteq> se_sha se (se_fillJson se f)) (Error ''PAPER_FILL_LEDGER_CHECKSUM_MISMATCH'')
     (bind_r (read_fill_rows se (index + 1) (fr_id f # ids) rows) (\<lambda>fs. Inr (f # fs))))))"

definition readFillLedgerRows :: "'s store_env \<Rightarrow> writer_db \<Rightarrow> 's loop_fill list result" where
  "readFillLedgerRows se db = read_fill_rows se 0 [] (sort_key fl_sequence (wd_fills db))"

definition assertFillLedgerReconcilesState :: "'s store_env \<Rightarrow> 's loop_account \<Rightarrow> writer_db \<Rightarrow> unit result" where
  "assertFillLedgerReconcilesState se d db =
     bind_r (readFillLedgerRows se db) (\<lambda>fills.
     if fills = [] \<and> la_fills d = [] then Inr ()
     else guard_r (list_ex (\<lambda>f. map_of (rev (map (\<lambda>g. (fr_id g, se_fillJson se g)) fills)) (fr_id f) \<noteq> Some (se_fillJson se f)) (la_fills d))
         (Error ''PAPER_FILL_LEDGER_STATE_CONFLICT'')
       (bind_r (assertPaperAccountingReconciled (le_locale (se_env se)) (le_digest (se_env se)) ((accounting_input d)\<lparr>sa_fills := fills\<rparr>))
         (\<lambda>_. Inr ())))"

section \<open>The account and its history\<close>

definition SCHEMA_VERSION :: nat where
  "SCHEMA_VERSION = 1"

definition accountChecksum :: "'s store_env \<Rightarrow> 's loop_account \<Rightarrow> string" where
  "accountChecksum se d = se_sha se (se_stateJson se d)"

definition account_row_of :: "'s store_env \<Rightarrow> 's loop_account \<Rightarrow> account_row" where
  "account_row_of se d =
     \<lparr>cr_schemaVersion = SCHEMA_VERSION, cr_updatedAt = la_updatedAt d, cr_stateJson = se_stateJson se d,
      cr_checksum = accountChecksum se d, cr_valid = True\<rparr>"

definition history_of :: "account_row \<Rightarrow> history_row" where
  "history_of row = \<lparr>hx_schemaVersion = cr_schemaVersion row, hx_updatedAt = cr_updatedAt row, hx_stateJson = cr_stateJson row, hx_checksum = cr_checksum row\<rparr>"

text \<open>The trigger of the account table.\<close>

definition note_history :: "account_row \<Rightarrow> history_row list \<Rightarrow> history_row list result" where
  "note_history row hs =
     guard_r (list_ex (\<lambda>h. cr_updatedAt row < hx_updatedAt h) hs) (Error ''PAPER_ACCOUNT_HISTORY_CHRONOLOGY_REGRESSION'')
     (guard_r (list_ex (\<lambda>h. js_eq (hx_updatedAt h) (cr_updatedAt row) \<and>
         (hx_checksum h \<noteq> cr_checksum row \<or> hx_stateJson h \<noteq> cr_stateJson row \<or> hx_schemaVersion h \<noteq> cr_schemaVersion row)) hs)
       (Error ''PAPER_ACCOUNT_HISTORY_IDENTITY_CONFLICT'')
     (Inr (if list_ex (\<lambda>h. js_eq (hx_updatedAt h) (cr_updatedAt row)) hs then hs else hs @ [history_of row])))"

definition put_account :: "account_row \<Rightarrow> writer_db \<Rightarrow> writer_db result" where
  "put_account row db = bind_r (note_history row (wd_history db)) (\<lambda>hs. Inr (db\<lparr>wd_account := Some row, wd_history := hs\<rparr>))"

definition save_body :: "'s store_env \<Rightarrow> 's loop_account \<Rightarrow> writer_db \<Rightarrow> (unit \<times> writer_db) result" where
  "save_body se d db =
     bind_r (appendFillLedgerRows se (la_fills d) db) (\<lambda>db1.
     bind_r (assertFillLedgerReconcilesState se d db1) (\<lambda>_.
     bind_r (put_account (account_row_of se d) db1) (\<lambda>db2. Inr ((), db2))))"

definition save_account :: "'s store_env \<Rightarrow> jsnum \<Rightarrow> 's loop_account \<Rightarrow> lease_writer \<Rightarrow> writer_db \<Rightarrow> unit result \<times> lease_writer \<times> writer_db" where
  "save_account se now d w db =
     (case validateState (se_env se) False d of
        Inl e \<Rightarrow> (Inl e, w, db)
      | Inr _ \<Rightarrow> lease_transaction now (save_body se d) w db)"

text \<open>The loads hold the lease without a transaction; an account that cannot be loaded is marked corrupted.\<close>

definition after_lease :: "jsnum \<Rightarrow> (writer_db \<Rightarrow> 'x result \<times> writer_db) \<Rightarrow> lease_writer \<Rightarrow> writer_db \<Rightarrow> 'x result \<times> lease_writer \<times> writer_db" where
  "after_lease now body w db =
     (case assertLeaseHeld now w db of
        (Inl e, w', db') \<Rightarrow> (Inl e, w', db')
      | (Inr _, w', db') \<Rightarrow> (let (x, db'') = body db' in (x, w', db'')))"

definition stored_account_state :: "'s store_env \<Rightarrow> account_row \<Rightarrow> writer_db \<Rightarrow> 's loop_account result" where
  "stored_account_state se row db =
     guard_r (cr_schemaVersion row \<noteq> SCHEMA_VERSION) (Error ''unsupported paper account schema'')
     (bind_r (se_parseState se (cr_stateJson row)) (\<lambda>d.
      bind_r (validateState (se_env se) False d) (\<lambda>_.
      guard_r (cr_checksum row \<noteq> accountChecksum se d) (Error ''paper account checksum mismatch'')
     (bind_r (assertFillLedgerReconcilesState se d db) (\<lambda>_. Inr d)))))"

definition loadLatest :: "'s store_env \<Rightarrow> jsnum \<Rightarrow> lease_writer \<Rightarrow> writer_db \<Rightarrow> 's loop_account option result \<times> lease_writer \<times> writer_db" where
  "loadLatest se now =
     after_lease now (\<lambda>db.
       case wd_account db of
         None \<Rightarrow> (Inr None, db)
       | Some row \<Rightarrow>
           if \<not> cr_valid row then (Inr None, db)
           else case stored_account_state se row db of
             Inl e \<Rightarrow> (Inl e, db\<lparr>wd_account := Some (row\<lparr>cr_valid := False\<rparr>)\<rparr>)
           | Inr d \<Rightarrow> (Inr (Some d), db))"

definition loadFills :: "'s store_env \<Rightarrow> jsnum \<Rightarrow> lease_writer \<Rightarrow> writer_db \<Rightarrow> 's loop_fill list result \<times> lease_writer \<times> writer_db" where
  "loadFills se now = after_lease now (\<lambda>db. (readFillLedgerRows se db, db))"

definition history_state :: "'s store_env \<Rightarrow> history_row \<Rightarrow> 's loop_account result" where
  "history_state se h =
     guard_r (hx_schemaVersion h \<noteq> SCHEMA_VERSION) (Error ''unsupported paper account history schema'')
     (bind_r (se_parseState se (hx_stateJson h)) (\<lambda>d.
      bind_r (validateState (se_env se) True d) (\<lambda>_.
      guard_r (\<not> js_eq (hx_updatedAt h) (la_updatedAt d) \<or> hx_checksum h \<noteq> accountChecksum se d)
        (Error ''paper account history checksum mismatch'') (Inr d))))"

definition loadHistory :: "'s store_env \<Rightarrow> jsnum \<Rightarrow> lease_writer \<Rightarrow> writer_db \<Rightarrow> 's loop_account list result \<times> lease_writer \<times> writer_db" where
  "loadHistory se now =
     after_lease now (\<lambda>db. (map_r (history_state se) (js_sort (\<lambda>a b. hx_updatedAt a - hx_updatedAt b) (wd_history db)), db))"

definition clear_account :: "jsnum \<Rightarrow> lease_writer \<Rightarrow> writer_db \<Rightarrow> unit result \<times> lease_writer \<times> writer_db" where
  "clear_account now = lease_transaction now (\<lambda>db. Inr ((), db\<lparr>wd_fills := [], wd_history := [], wd_account := None\<rparr>))"

section \<open>Backfill of the ledger\<close>

definition collect_fill :: "'s store_env \<Rightarrow> 's loop_fill \<Rightarrow> (string \<times> 's loop_fill) list \<Rightarrow> (string \<times> 's loop_fill) list result" where
  "collect_fill se f m =
     guard_r (case map_of m (fr_id f) of None \<Rightarrow> False | Some g \<Rightarrow> se_fillJson se g \<noteq> se_fillJson se f)
       (Error ''PAPER_FILL_LEDGER_HISTORY_CONFLICT'') (Inr (AList.update (fr_id f) f m))"

definition check_account_row :: "'s store_env \<Rightarrow> account_row \<Rightarrow> writer_db \<Rightarrow> unit result" where
  "check_account_row se row db =
     guard_r (cr_schemaVersion row \<noteq> SCHEMA_VERSION) (Error ''unsupported paper account schema'')
     (bind_r (se_parseState se (cr_stateJson row)) (\<lambda>d.
      bind_r (validateState (se_env se) False d) (\<lambda>_.
      guard_r (\<not> js_eq (cr_updatedAt row) (la_updatedAt d) \<or> cr_checksum row \<noteq> accountChecksum se d) (Error ''paper account checksum mismatch'')
        (assertFillLedgerReconcilesState se d db))))"

text \<open>Two clock readings: one when the history is loaded, one in the transaction.\<close>

definition backfillFillLedgerFromHistory ::
  "'s store_env \<Rightarrow> jsnum \<Rightarrow> jsnum \<Rightarrow> lease_writer \<Rightarrow> writer_db \<Rightarrow> unit result \<times> lease_writer \<times> writer_db" where
  "backfillFillLedgerFromHistory se now later w db =
     (case wd_account db of
        None \<Rightarrow> (Inr (), w, db)
      | Some row \<Rightarrow>
          if \<not> cr_valid row then (Inr (), w, db)
          else if wd_fills db \<noteq> [] then (check_account_row se row db, w, db)
          else case loadHistory se now w db of
            (Inl e, w', db') \<Rightarrow> (Inl e, w', db')
          | (Inr states, w', db') \<Rightarrow>
              (case fold_r (collect_fill se) (concat (map la_fills states)) [] of
                 Inl e \<Rightarrow> (Inl e, w', db')
               | Inr m \<Rightarrow>
                   lease_transaction later (\<lambda>held. bind_r (appendFillLedgerRows se (map snd m) held) (\<lambda>x. Inr ((), x))) w' db'))"

end
