(* ===== verification/WriterFacts.thy ===== *)
theory WriterFacts imports WriterStore begin

text \<open>
  Several writers on one account: each opens with an id of its own and calls the operations of \<open>WriterStore\<close> in any
  order and with any clock readings.  The lease fences them: calls of different writers that change the tables
  never interleave.  The ledger and the history only grow, except when a writer clears the account.
\<close>

section \<open>The system of writers\<close>

text \<open>One call of a writer, and whether it was one that clears the account.\<close>

inductive writer_call :: "'s store_env \<Rightarrow> bool \<Rightarrow> lease_writer \<Rightarrow> writer_db \<Rightarrow> lease_writer \<Rightarrow> writer_db \<Rightarrow> bool" for se where
  wc_save: "save_account se now d w db = (res, w', db') \<Longrightarrow> writer_call se False w db w' db'"
| wc_latest: "loadLatest se now w db = (x, w', db') \<Longrightarrow> writer_call se False w db w' db'"
| wc_fills: "loadFills se now w db = (fs, w', db') \<Longrightarrow> writer_call se False w db w' db'"
| wc_history: "loadHistory se now w db = (hs, w', db') \<Longrightarrow> writer_call se False w db w' db'"
| wc_verify: "verifyWriterLease now w db = (res, w', db') \<Longrightarrow> writer_call se False w db w' db'"
| wc_heartbeat: "heartbeatLease now w db = (w', db') \<Longrightarrow> writer_call se False w db w' db'"
| wc_backfill: "backfillFillLedgerFromHistory se now later w db = (res, w', db') \<Longrightarrow> writer_call se False w db w' db'"
| wc_clear: "clear_account now w db = (res, w', db') \<Longrightarrow> writer_call se True w db w' db'"
| wc_close: "close_writer w db = (w', db') \<Longrightarrow> writer_call se False w db w' db'"

record store_system =
  ss_db :: writer_db
  ss_writers :: "(string \<times> lease_writer) list"

text \<open>The trace holds, for every call that changed the tables, the writer's id and whether it cleared the account.\<close>

inductive store_run :: "'s store_env \<Rightarrow> writer_db \<Rightarrow> store_system \<Rightarrow> (string \<times> bool) list \<Rightarrow> bool" for se db0 where
  sr_start: "store_run se db0 \<lparr>ss_db = db0, ss_writers = []\<rparr> []"
| sr_open: "store_run se db0 s tr \<Longrightarrow> map_of (ss_writers s) i = None \<Longrightarrow> writer_options i x = Inr w \<Longrightarrow>
    acquireLease now w (ss_db s) = Inr (w', db') \<Longrightarrow> store_run se db0 \<lparr>ss_db = db', ss_writers = (i, w') # ss_writers s\<rparr> (tr @ [(i, False)])"
| sr_call: "store_run se db0 s tr \<Longrightarrow> map_of (ss_writers s) i = Some w \<Longrightarrow> writer_call se c w (ss_db s) w' db' \<Longrightarrow>
    store_run se db0 \<lparr>ss_db = db', ss_writers = AList.update i w' (ss_writers s)\<rparr> (tr @ (if db' = ss_db s then [] else [(i, c)]))"

section \<open>Who may change the tables\<close>

definition row_owner :: "writer_db \<Rightarrow> string option" where
  "row_owner db = map_option ls_ownerId (wd_lease db)"

text \<open>A call keeps the writer's id, and changes the tables only if the lease is the writer's own before, and no one else's after.\<close>

definition fenced :: "lease_writer \<Rightarrow> writer_db \<Rightarrow> lease_writer \<Rightarrow> writer_db \<Rightarrow> bool" where
  "fenced w db w' db' \<longleftrightarrow> wr_ownerId w' = wr_ownerId w \<and>
     (db' \<noteq> db \<longrightarrow> row_owner db = Some (wr_ownerId w) \<and> (row_owner db' = None \<or> row_owner db' = Some (wr_ownerId w)))"

lemma lose_lease_owner [simp]: "wr_ownerId (lose_lease c w) = wr_ownerId w"
  by (simp add: lose_lease_def)

lemma assertLeaseHeld_cases:
  obtains (lost) e w' where "assertLeaseHeld now w db = (Inl e, w', db)" "wr_ownerId w' = wr_ownerId w" "wr_closed w \<or> wr_leaseLost w'"
  | (held) "assertLeaseHeld now w db = (Inr (), w\<lparr>wr_lastObservedNowMs := now\<rparr>, db\<lparr>wd_lease := Some (lease_of w now)\<rparr>)"
      "\<not> wr_closed w" "\<not> wr_leaseLost w" "holds_lease w now (wd_lease db)"
  by (cases "wr_closed w \<or> wr_leaseLost w"; cases "\<not> valid_time now"; cases "now < wr_lastObservedNowMs w";
      cases "wr_maxClockAdvanceMs w < now - wr_lastObservedNowMs w"; cases "holds_lease w now (wd_lease db)")
    (auto simp: assertLeaseHeld_def throw_def lose_lease_def)

lemma holds_lease_owner: "holds_lease w now (wd_lease db) \<Longrightarrow> row_owner db = Some (wr_ownerId w)"
  by (auto simp: holds_lease_def row_owner_def split: option.splits)

lemma lease_of_owner [simp]: "ls_ownerId (lease_of w now) = wr_ownerId w"
  by (simp add: lease_of_def)

lemma fenced_same: "wr_ownerId w' = wr_ownerId w \<Longrightarrow> fenced w db w' db"
  by (simp add: fenced_def)

lemma fenced_trans:
  assumes "fenced w db w1 db1" "fenced w1 db1 w' db'"
  shows "fenced w db w' db'"
  using assms by (cases "db1 = db") (auto simp: fenced_def)

text \<open>Bodies of transactions leave the lease alone.\<close>

definition keeps_lease :: "writer_db \<Rightarrow> writer_db \<Rightarrow> bool" where
  "keeps_lease db db' \<longleftrightarrow> wd_lease db' = wd_lease db"

lemma lease_transaction_fenced:
  assumes "lease_transaction now body w db = (res, w', db')" "\<And>a x b. body a = Inr (x, b) \<Longrightarrow> keeps_lease a b"
  shows "fenced w db w' db'"
proof (cases rule: assertLeaseHeld_cases [of now w db])
  case (lost e v)
  then show ?thesis using assms(1) by (auto simp: lease_transaction_def intro: fenced_same)
next
  case held
  note o = holds_lease_owner [OF held(4)]
  show ?thesis
  proof (cases "body (db\<lparr>wd_lease := Some (lease_of w now)\<rparr>)")
    case (Inl e)
    then show ?thesis using assms(1) held(1) by (auto simp: lease_transaction_def intro: fenced_same)
  next
    case (Inr xb)
    obtain x b where xb: "xb = (x, b)" by force
    then show ?thesis using assms(1) assms(2) [OF Inr [unfolded xb]] held(1) Inr o
      by (auto simp: lease_transaction_def keeps_lease_def fenced_def row_owner_def)
  qed
qed

lemma after_lease_fenced:
  assumes "after_lease now body w db = (res, w', db')" "\<And>a x b. body a = (x, b) \<Longrightarrow> keeps_lease a b"
  shows "fenced w db w' db'"
proof (cases rule: assertLeaseHeld_cases [of now w db])
  case (lost e v)
  then show ?thesis using assms(1) by (auto simp: after_lease_def intro: fenced_same)
next
  case held
  note o = holds_lease_owner [OF held(4)]
  obtain x b where xb: "body (db\<lparr>wd_lease := Some (lease_of w now)\<rparr>) = (x, b)" by force
  then show ?thesis using assms(1) assms(2) [OF xb] held(1) o
    by (auto simp: after_lease_def keeps_lease_def fenced_def row_owner_def)
qed

lemma append_keeps_lease: "appendFillLedgerRows se fills db = Inr db' \<Longrightarrow> keeps_lease db db'"
  by (auto simp: appendFillLedgerRows_def result_simps keeps_lease_def)

lemma save_body_keeps_lease: "save_body se d a = Inr (x, b) \<Longrightarrow> keeps_lease a b"
  using append_keeps_lease by (fastforce simp: save_body_def put_account_def result_simps keeps_lease_def)

lemma loadHistory_fenced: "loadHistory se now w db = (x, w', db') \<Longrightarrow> fenced w db w' db'"
  unfolding loadHistory_def by (erule after_lease_fenced) (simp add: keeps_lease_def)

lemma backfill_fenced:
  assumes "backfillFillLedgerFromHistory se now later w db = (res, w', db')"
  shows "fenced w db w' db'"
proof (cases "wd_account db")
  case (Some row)
  show ?thesis
  proof (cases "\<not> cr_valid row \<or> wd_fills db \<noteq> []")
    case False
    obtain h w1 db1 where h: "loadHistory se now w db = (h, w1, db1)" by (cases "loadHistory se now w db")
    note f = loadHistory_fenced [OF h]
    show ?thesis
    proof (cases "\<exists>hs m. h = Inr hs \<and> fold_r (collect_fill se) (concat (map la_fills hs)) [] = Inr m")
      case True
      then obtain hs m where m: "h = Inr hs" "fold_r (collect_fill se) (concat (map la_fills hs)) [] = Inr m" by blast
      have t: "lease_transaction later (\<lambda>held. bind_r (appendFillLedgerRows se (map snd m) held) (\<lambda>x. Inr ((), x))) w1 db1 = (res, w', db')"
        using assms False Some h m by (simp add: backfillFillLedgerFromHistory_def)
      have "fenced w1 db1 w' db'"
        by (rule lease_transaction_fenced [OF t]) (auto simp: result_simps dest: append_keeps_lease)
      then show ?thesis using f fenced_trans by blast
    next
      case no: False
      then have "w' = w1 \<and> db' = db1"
        using assms False Some h by (auto simp: backfillFillLedgerFromHistory_def split: sum.splits)
      then show ?thesis using f by simp
    qed
  qed (use assms Some in \<open>auto simp: backfillFillLedgerFromHistory_def intro: fenced_same split: if_splits\<close>)
qed (use assms in \<open>auto simp: backfillFillLedgerFromHistory_def intro: fenced_same\<close>)

lemma writer_call_fenced:
  assumes "writer_call se c w db w' db'"
  shows "fenced w db w' db'"
  using assms
proof cases
  case (wc_save now d res)
  then show ?thesis
    by (cases "validateState (se_env se) False d")
      (auto simp: save_account_def intro: fenced_same elim!: lease_transaction_fenced dest: save_body_keeps_lease)
next
  case (wc_latest now x)
  from wc_latest(2) show ?thesis unfolding loadLatest_def
    by (rule after_lease_fenced) (auto simp: keeps_lease_def split: option.splits if_splits sum.splits)
next
  case (wc_fills now fs)
  from wc_fills(2) show ?thesis unfolding loadFills_def by (rule after_lease_fenced) (simp add: keeps_lease_def)
next
  case (wc_history now hs)
  from wc_history(2) show ?thesis by (rule loadHistory_fenced)
next
  case (wc_verify now res)
  from wc_verify(2) show ?thesis unfolding verifyWriterLease_def by (rule lease_transaction_fenced) (simp add: keeps_lease_def)
next
  case (wc_heartbeat now)
  obtain res v b where v: "verifyWriterLease now w db = (res, v, b)" by (cases "verifyWriterLease now w db")
  then have "fenced w db v b" unfolding verifyWriterLease_def by (rule lease_transaction_fenced) (simp add: keeps_lease_def)
  then show ?thesis using wc_heartbeat v
    by (auto simp: heartbeatLease_def fenced_def split: if_splits sum.splits)
next
  case (wc_backfill now later res)
  from wc_backfill(2) show ?thesis by (rule backfill_fenced)
next
  case (wc_clear now res)
  from wc_clear(2) show ?thesis unfolding clear_account_def by (rule lease_transaction_fenced) (auto simp: keeps_lease_def)
next
  case wc_close
  then show ?thesis
    by (cases db) (auto simp: close_writer_def fenced_def row_owner_def split: if_splits option.splits)
qed

section \<open>Fencing\<close>

definition store_inv :: "store_system \<Rightarrow> (string \<times> bool) list \<Rightarrow> bool" where
  "store_inv s tr \<longleftrightarrow>
     (\<forall>i w. map_of (ss_writers s) i = Some w \<longrightarrow> wr_ownerId w = i) \<and>
     fst ` set tr \<subseteq> dom (map_of (ss_writers s)) \<and>
     (ss_writers s \<noteq> [] \<longrightarrow> tr \<noteq> []) \<and>
     (tr \<noteq> [] \<longrightarrow> row_owner (ss_db s) = None \<or> row_owner (ss_db s) = Some (fst (last tr))) \<and>
     distinct (remdups_adj (map fst tr))"

lemma remdups_adj_snoc_same: "xs \<noteq> [] \<Longrightarrow> last xs = x \<Longrightarrow> remdups_adj (xs @ [x]) = remdups_adj xs"
  by (induction xs rule: remdups_adj.induct) auto

lemma remdups_adj_snoc_new: "x \<notin> set xs \<Longrightarrow> remdups_adj (xs @ [x]) = remdups_adj xs @ [x]"
  by (induction xs rule: remdups_adj.induct) auto

lemma acquireLease_Inr:
  assumes "acquireLease now w db = Inr (w', db')"
  shows "w' = w\<lparr>wr_lastObservedNowMs := now\<rparr>" "db' = db\<lparr>wd_lease := Some (lease_of w now)\<rparr>" "valid_time now"
    "\<forall>l. wd_lease db = Some l \<longrightarrow> check_takeover w now l = Inr ()"
  using assms by (auto simp: acquireLease_def result_simps split: option.splits)

lemma writer_options_owner: "writer_options i x = Inr w \<Longrightarrow> wr_ownerId w = i"
  by (auto simp: writer_options_def result_simps Let_def)

lemma store_run_inv: "store_run se db0 s tr \<Longrightarrow> store_inv s tr"
proof (induction rule: store_run.induct)
  case sr_start
  then show ?case by (simp add: store_inv_def)
next
  case (sr_open s tr i x w now w' db')
  note a = acquireLease_Inr [OF sr_open(4)]
  have "i \<notin> set (map fst tr)" using sr_open(2) sr_open.IH by (force simp: store_inv_def dom_def)
  then show ?case using sr_open.IH a writer_options_owner [OF sr_open(3)]
    by (auto simp: store_inv_def row_owner_def remdups_adj_snoc_new)
next
  case (sr_call s tr i w c w' db')
  note f = writer_call_fenced [OF sr_call(3), unfolded fenced_def]
  have o: "wr_ownerId w = i" using sr_call.IH sr_call(2) by (simp add: store_inv_def)
  have ws: "ss_writers s \<noteq> []" using sr_call(2) by auto
  show ?case
  proof (cases "db' = ss_db s")
    case True
    then show ?thesis using sr_call.IH f o ws by (auto simp: store_inv_def update_conv')
  next
    case False
    have last: "tr \<noteq> []" "fst (last tr) = i" using sr_call.IH f False o ws by (auto simp: store_inv_def)
    then have "remdups_adj (map fst tr @ [i]) = remdups_adj (map fst tr)" by (intro remdups_adj_snoc_same) (auto simp: last_map)
    then show ?thesis using sr_call.IH f o False sr_call(2) by (auto simp: store_inv_def update_conv' dom_def)
  qed
qed

text \<open>C30: however the calls of several writers interleave, and whatever their clocks read, the writers that change the tables take turns:
  once another writer has changed them, no call of an earlier writer, whether a save, a load, a heartbeat or a clear, changes them again.\<close>

theorem writers_are_fenced:
  assumes "store_run se db0 s tr"
  shows "distinct (remdups_adj (map fst tr))"
  using store_run_inv [OF assms] by (simp add: store_inv_def)

text \<open>A lease is taken over only when it has run out by the new writer's clock.\<close>

lemma takeover_after_expiry:
  assumes "acquireLease now w db = Inr (w', db')" "wd_lease db = Some l" "ls_ownerId l \<noteq> wr_ownerId w"
  shows "ls_leaseUntilMs l \<le> now" "now - ls_heartbeatAtMs l \<le> wr_maxTakeoverAgeMs w \<or> now - ls_heartbeatAtMs l = NaN \<or> wr_maxTakeoverAgeMs w = NaN"
  using acquireLease_Inr(3,4) [OF assms(1)] assms(2,3)
  by (auto simp: check_takeover_def result_simps valid_time_def less_jsnum_def is_safe_integer_def is_integer_def)

text \<open>The row of a writer that went away without closing locks the account for good once it is older than the takeover age: no writer that
  opens later gets past it, and opening is the only way to replace it.\<close>

lemma abandoned_lease_locks_out:
  assumes "wd_lease db = Some l" "jis (ls_heartbeatAtMs l) h" "jis now n" "jis later m" "jis (wr_maxTakeoverAgeMs w) a"
    and "0 \<le> h" "0 \<le> a" "a < n - h" "n \<le> m" "m < 2 ^ 53"
  shows "acquireLease later w db \<noteq> Inr (w', db')"
proof
  assume "acquireLease later w db = Inr (w', db')"
  from acquireLease_Inr(4) [OF this] assms(1) have "\<not> wr_maxTakeoverAgeMs w < later - ls_heartbeatAtMs l"
    by (simp add: check_takeover_def result_simps)
  moreover have "jis (later - ls_heartbeatAtMs l) (m - h)" using assms by (intro jis_sub) auto
  ultimately show False using jis_less [OF assms(5)] assms by auto
qed

section \<open>The ledger and the history only grow\<close>

definition rows_ok :: "nat \<Rightarrow> fill_row list \<Rightarrow> bool" where
  "rows_ok n rows \<longleftrightarrow> map fl_sequence rows = [1..<Suc n] \<and> distinct (map fl_fillId rows)"

definition history_ok :: "history_row list \<Rightarrow> bool" where
  "history_ok hs \<longleftrightarrow> (\<forall>h \<in> set hs. hx_updatedAt h \<noteq> NaN) \<and> sorted_wrt (\<lambda>a b. hx_updatedAt a < hx_updatedAt b) hs"

definition is_latest :: "account_row \<Rightarrow> history_row list \<Rightarrow> bool" where
  "is_latest row hs \<longleftrightarrow> hs \<noteq> [] \<and> js_eq (hx_updatedAt (last hs)) (cr_updatedAt row) \<and> hx_stateJson (last hs) = cr_stateJson row \<and>
     hx_checksum (last hs) = cr_checksum row \<and> hx_schemaVersion (last hs) = cr_schemaVersion row"

definition ledger_ok :: "writer_db \<Rightarrow> bool" where
  "ledger_ok db \<longleftrightarrow> (\<exists>n. rows_ok n (wd_fills db)) \<and> history_ok (wd_history db) \<and>
     (\<forall>row. wd_account db = Some row \<longrightarrow> cr_valid row \<longrightarrow> is_latest row (wd_history db))"

definition ledger_grows :: "writer_db \<Rightarrow> writer_db \<Rightarrow> bool" where
  "ledger_grows a b \<longleftrightarrow> prefix (wd_fills a) (wd_fills b) \<and> prefix (wd_history a) (wd_history b)"

definition ledger_step :: "writer_db \<Rightarrow> writer_db \<Rightarrow> bool" where
  "ledger_step a b \<longleftrightarrow> (ledger_ok a \<longrightarrow> ledger_ok b \<and> ledger_grows a b)"

lemma ledger_ok_lease [simp]: "ledger_ok (db\<lparr>wd_lease := l\<rparr>) = ledger_ok db"
  by (simp add: ledger_ok_def)

lemma ledger_grows_refl [simp]: "ledger_grows a a"
  by (simp add: ledger_grows_def)

lemma ledger_grows_trans: "ledger_grows a b \<Longrightarrow> ledger_grows b c \<Longrightarrow> ledger_grows a c"
  by (auto simp: ledger_grows_def intro: prefix_order.trans)

lemma ledger_step_refl [simp]: "ledger_step a a" "ledger_step a (a\<lparr>wd_lease := l\<rparr>)"
  by (simp_all add: ledger_step_def ledger_grows_def)

lemma ledger_step_trans: "ledger_step a b \<Longrightarrow> ledger_step b c \<Longrightarrow> ledger_step a c"
  by (auto simp: ledger_step_def intro: ledger_grows_trans)

lemma max_fill_sequence_ok: "map fl_sequence rows = [1..<Suc n] \<Longrightarrow> max_fill_sequence rows = n"
proof -
  have "foldl max 0 [1..<Suc n] = n" by (induction n) auto
  then show "map fl_sequence rows = [1..<Suc n] \<Longrightarrow> max_fill_sequence rows = n" by (simp add: max_fill_sequence_def)
qed

lemma rows_ok_snoc: "rows_ok n rows \<Longrightarrow> fl_fillId r \<notin> fl_fillId ` set rows \<Longrightarrow> fl_sequence r = Suc n \<Longrightarrow> rows_ok (Suc n) (rows @ [r])"
  unfolding rows_ok_def by simp

lemma append_fill_cases:
  assumes "append_fill se f nr = Inr nr'"
  shows "nr' = nr \<or> (\<exists>r. nr' = (Suc (fst nr), snd nr @ [r]) \<and> fl_sequence r = Suc (fst nr) \<and> fl_fillId r \<notin> fl_fillId ` set (snd nr))"
proof (cases "find (\<lambda>row. fl_fillId row = fr_id f) (snd nr)")
  case None
  then have "fr_id f \<notin> fl_fillId ` set (snd nr)" by (auto simp: find_None_iff)
  then show ?thesis using assms None by (auto simp: append_fill_def Let_def guard_r_Inr_iff)
next
  case (Some row)
  then show ?thesis using assms by (simp add: append_fill_def Let_def guard_r_Inr_iff)
qed

lemma append_fill_ok:
  assumes "append_fill se f nr = Inr nr'" "rows_ok (fst nr) (snd nr)"
  shows "rows_ok (fst nr') (snd nr')" "prefix (snd nr) (snd nr')"
  using append_fill_cases [OF assms(1)] assms(2) rows_ok_snoc by auto

lemma append_rows_step:
  assumes "appendFillLedgerRows se fills db = Inr db'"
  shows "ledger_step db db'"
proof -
  let ?start = "(max_fill_sequence (wd_fills db), wd_fills db)"
  obtain nr where nr: "fold_r (append_fill se) (js_sort (fill_order (le_locale (se_env se))) fills) ?start = Inr nr"
      "db' = db\<lparr>wd_fills := snd nr\<rparr>"
    using assms by (auto simp: appendFillLedgerRows_def result_simps)
  have "ledger_ok db' \<and> ledger_grows db db'" if l: "ledger_ok db"
  proof -
    obtain n where n: "rows_ok n (wd_fills db)" using l by (auto simp: ledger_ok_def)
    then have start: "rows_ok (fst ?start) (snd ?start)" using max_fill_sequence_ok [of "wd_fills db" n] by (simp add: rows_ok_def)
    have "rows_ok (fst nr) (snd nr) \<and> prefix (wd_fills db) (snd nr)"
    proof (rule fold_r_invariant [OF nr(1), where P = "\<lambda>x. rows_ok (fst x) (snd x) \<and> prefix (wd_fills db) (snd x)"])
      show "rows_ok (fst ?start) (snd ?start) \<and> prefix (wd_fills db) (snd ?start)" using start by simp
    next
      fix f x y
      assume "append_fill se f x = Inr y" "rows_ok (fst x) (snd x) \<and> prefix (wd_fills db) (snd x)"
      then show "rows_ok (fst y) (snd y) \<and> prefix (wd_fills db) (snd y)"
        using append_fill_ok [of se f x y] prefix_order.trans by blast
    qed
    then show ?thesis using l nr(2) by (auto simp: ledger_ok_def ledger_grows_def)
  qed
  then show ?thesis by (simp add: ledger_step_def)
qed

lemma sorted_last: "sorted_wrt P hs \<Longrightarrow> h \<in> set hs \<Longrightarrow> h = last hs \<or> P h (last hs)"
  by (cases hs rule: rev_cases) (auto simp: sorted_wrt_append)

lemma note_history_ok:
  assumes "note_history row hs = Inr hs'" "history_ok hs" "cr_updatedAt row \<noteq> NaN"
  shows "history_ok hs'" "prefix hs hs'" "is_latest row hs'"
proof -
  have le: "\<not> cr_updatedAt row < hx_updatedAt h" if "h \<in> set hs" for h
    using assms(1) that by (auto simp: note_history_def result_simps list_ex_iff)
  have agree: "hx_checksum h = cr_checksum row \<and> hx_stateJson h = cr_stateJson row \<and> hx_schemaVersion h = cr_schemaVersion row"
    if "h \<in> set hs" "js_eq (hx_updatedAt h) (cr_updatedAt row)" for h
    using assms(1) that by (auto simp: note_history_def result_simps list_ex_iff)
  have hs': "hs' = (if \<exists>h \<in> set hs. js_eq (hx_updatedAt h) (cr_updatedAt row) then hs else hs @ [history_of row])"
    using assms(1) by (auto simp: note_history_def result_simps list_ex_iff)
  show "prefix hs hs'" by (simp add: hs')
  have "history_ok hs' \<and> is_latest row hs'"
  proof (cases "\<exists>h \<in> set hs. js_eq (hx_updatedAt h) (cr_updatedAt row)")
    case True
    then obtain h where h: "h \<in> set hs" "js_eq (hx_updatedAt h) (cr_updatedAt row)" by blast
    have "h = last hs \<or> hx_updatedAt h < hx_updatedAt (last hs)" using sorted_last h(1) assms(2) by (fastforce simp: history_ok_def)
    moreover have "\<not> hx_updatedAt h < hx_updatedAt (last hs)"
    proof
      assume less: "hx_updatedAt h < hx_updatedAt (last hs)"
      have "cr_updatedAt row \<le> hx_updatedAt h" using h(2) by (simp add: js_eq_def)
      then show False using le [of "last hs"] less h(1) jle_less_trans by (metis empty_iff last_in_set list.set(1))
    qed
    ultimately have "h = last hs" by blast
    then show ?thesis using hs' True assms(2) h agree [OF h] by (auto simp: is_latest_def)
  next
    case False
    have "hx_updatedAt h < cr_updatedAt row" if "h \<in> set hs" for h
      using le [OF that] False that assms(2,3) by (auto simp: history_ok_def less_jsnum_def js_eq_def)
    then show ?thesis using hs' False assms(2,3) by (auto simp: history_ok_def is_latest_def history_of_def sorted_wrt_append)
  qed
  then show "history_ok hs'" "is_latest row hs'" by auto
qed

lemma lease_transaction_step:
  assumes "lease_transaction now body w db = (res, w', db')" "\<And>a x b. body a = Inr (x, b) \<Longrightarrow> ledger_step a b"
  shows "ledger_step db db'"
proof (cases rule: assertLeaseHeld_cases [of now w db])
  case (lost e v)
  then show ?thesis using assms(1) by (auto simp: lease_transaction_def)
next
  case held
  let ?a = "db\<lparr>wd_lease := Some (lease_of w now)\<rparr>"
  show ?thesis
  proof (cases "body ?a")
    case (Inl e)
    then show ?thesis using assms(1) held(1) by (auto simp: lease_transaction_def)
  next
    case (Inr xb)
    then have "ledger_step ?a db'" using assms held(1) by (cases xb) (auto simp: lease_transaction_def)
    then show ?thesis using ledger_step_trans ledger_step_refl(2) by blast
  qed
qed

lemma after_lease_step:
  assumes "after_lease now body w db = (res, w', db')" "\<And>a x b. body a = (x, b) \<Longrightarrow> ledger_step a b"
  shows "ledger_step db db'"
proof (cases rule: assertLeaseHeld_cases [of now w db])
  case (lost e v)
  then show ?thesis using assms(1) by (auto simp: after_lease_def)
next
  case held
  let ?a = "db\<lparr>wd_lease := Some (lease_of w now)\<rparr>"
  obtain x b where xb: "body ?a = (x, b)" by force
  then have "ledger_step ?a db'" using assms(2) [OF xb] assms(1) held(1) by (auto simp: after_lease_def)
  then show ?thesis using ledger_step_trans ledger_step_refl(2) by blast
qed

lemma put_account_step:
  assumes "put_account row db = Inr db'" "cr_updatedAt row \<noteq> NaN"
  shows "ledger_step db db'"
proof -
  obtain hs where hs: "note_history row (wd_history db) = Inr hs" "db' = db\<lparr>wd_account := Some row, wd_history := hs\<rparr>"
    using assms(1) by (auto simp: put_account_def result_simps)
  then show ?thesis using note_history_ok [OF hs(1) _ assms(2)] by (auto simp: ledger_step_def ledger_ok_def ledger_grows_def)
qed

lemma save_body_step: "save_body se d a = Inr (x, b) \<Longrightarrow> la_updatedAt d \<noteq> NaN \<Longrightarrow> ledger_step a b"
  by (auto simp: save_body_def account_row_of_def result_simps dest!: append_rows_step put_account_step intro: ledger_step_trans)

lemma validated_time: "validateState env legacy d = Inr () \<Longrightarrow> la_updatedAt d \<noteq> NaN"
  by (auto simp: validateState_def check_header_def result_simps is_safe_integer_def is_integer_def)

lemma loadHistory_step: "loadHistory se now w db = (x, w', db') \<Longrightarrow> ledger_step db db'"
  unfolding loadHistory_def by (erule after_lease_step) simp

lemma invalid_row_step: "ledger_step db (db\<lparr>wd_account := Some (row\<lparr>cr_valid := False\<rparr>)\<rparr>)"
  by (simp add: ledger_step_def ledger_ok_def ledger_grows_def)

lemma backfill_step:
  assumes "backfillFillLedgerFromHistory se now later w db = (res, w', db')"
  shows "ledger_step db db'"
proof (cases "wd_account db")
  case (Some row)
  obtain h w1 db1 where h: "loadHistory se now w db = (h, w1, db1)" by (cases "loadHistory se now w db")
  note f = loadHistory_step [OF h]
  have "db' = db \<or> db' = db1 \<or> (\<exists>m. lease_transaction later (\<lambda>held. bind_r (appendFillLedgerRows se m held) (\<lambda>x. Inr ((), x))) w1 db1 = (res, w', db'))"
    using assms Some h by (auto simp: backfillFillLedgerFromHistory_def split: sum.splits if_splits)
  then show ?thesis
  proof (elim disjE exE)
    fix m
    assume "lease_transaction later (\<lambda>held. bind_r (appendFillLedgerRows se m held) (\<lambda>x. Inr ((), x))) w1 db1 = (res, w', db')"
    then have "ledger_step db1 db'" by (rule lease_transaction_step) (auto simp: result_simps dest: append_rows_step)
    then show ?thesis using f ledger_step_trans by blast
  qed (use f in auto)
qed (use assms in \<open>auto simp: backfillFillLedgerFromHistory_def\<close>)

lemma writer_call_ledger:
  assumes "writer_call se c w db w' db'"
  shows "(if c then ledger_ok db \<longrightarrow> ledger_ok db' else ledger_step db db')"
  using assms
proof cases
  case (wc_save now d res)
  show ?thesis
  proof (cases "validateState (se_env se) False d")
    case (Inl e)
    then show ?thesis using wc_save by (simp add: save_account_def)
  next
    case (Inr u)
    then have t: "lease_transaction now (save_body se d) w db = (res, w', db')" using wc_save by (simp add: save_account_def)
    have "la_updatedAt d \<noteq> NaN" using Inr validated_time by fastforce
    then have "ledger_step db db'" using lease_transaction_step [OF t] save_body_step by blast
    then show ?thesis using wc_save by simp
  qed
next
  case (wc_latest now x)
  from wc_latest(2) have "ledger_step db db'" unfolding loadLatest_def
    by (rule after_lease_step) (auto intro: invalid_row_step split: option.splits if_splits sum.splits)
  then show ?thesis using wc_latest by simp
next
  case (wc_fills now fs)
  from wc_fills(2) have "ledger_step db db'" unfolding loadFills_def by (rule after_lease_step) simp
  then show ?thesis using wc_fills by simp
next
  case (wc_history now hs)
  then show ?thesis using loadHistory_step by simp
next
  case (wc_verify now res)
  from wc_verify(2) have "ledger_step db db'" unfolding verifyWriterLease_def by (rule lease_transaction_step) simp
  then show ?thesis using wc_verify by simp
next
  case (wc_heartbeat now)
  obtain res v b where v: "verifyWriterLease now w db = (res, v, b)" by (cases "verifyWriterLease now w db")
  then have "ledger_step db b" unfolding verifyWriterLease_def by (rule lease_transaction_step) simp
  then show ?thesis using wc_heartbeat v by (auto simp: heartbeatLease_def split: if_splits sum.splits)
next
  case (wc_backfill now later res)
  then show ?thesis using backfill_step by simp
next
  case (wc_clear now res)
  then show ?thesis
    by (cases rule: assertLeaseHeld_cases [of now w db])
      (auto simp: clear_account_def lease_transaction_def ledger_ok_def rows_ok_def history_ok_def)
next
  case wc_close
  then show ?thesis by (auto simp: close_writer_def split: if_splits)
qed

text \<open>C31: from tables whose fill rows are numbered without gaps and unique, whose history is chronological and ends with the current account,
  any calls of any writers lead to such tables again; and unless a writer cleared the account, the fill ledger and the account
  history they began with are still there, unchanged, as the beginning of the new ones.\<close>

theorem ledger_is_append_only:
  assumes "store_run se db0 s tr" "ledger_ok db0"
  shows "ledger_ok (ss_db s) \<and> ((\<forall>i. (i, True) \<notin> set tr) \<longrightarrow> ledger_grows db0 (ss_db s))"
  using assms
proof (induction rule: store_run.induct)
  case (sr_open s tr i x w now w' db')
  have "ledger_step (ss_db s) db'" using acquireLease_Inr(2) [OF sr_open(4)] by simp
  then show ?case using sr_open by (auto simp: ledger_step_def intro: ledger_grows_trans)
next
  case (sr_call s tr i w c w' db')
  then show ?case using writer_call_ledger [OF sr_call(3)]
    by (auto simp: ledger_step_def split: if_splits intro: ledger_grows_trans)
qed simp

section \<open>A run\<close>

definition demo_loop_env :: "unit loop_env" where
  "demo_loop_env = \<lparr>le_locale = (\<lambda>_ _. Fin 0), le_digest = (\<lambda>_ _ _ _ _. []), le_positionsJson = (\<lambda>_. []), le_profileDigest = (\<lambda>_. []),
     le_sha = (\<lambda>s. s), le_checkWorking = (\<lambda>_ _ _. Inr ()), le_checkFill = (\<lambda>_ _ _. Inr ()), le_checkBudget = (\<lambda>_ _ _. Inr ())\<rparr>"

definition demo_store_env :: "unit store_env" where
  "demo_store_env = \<lparr>se_env = demo_loop_env, se_sha = (\<lambda>s. s), se_stateJson = (\<lambda>_. ''account''), se_parseState = (\<lambda>_. Inr (initialState (Fin 1000))),
     se_fillJson = (\<lambda>f. fr_id f), se_parseFill = (\<lambda>_. throw ''no fill'')\<rparr>"

definition demo_writer :: "string \<Rightarrow> jsnum \<Rightarrow> lease_writer" where
  "demo_writer i seen =
     \<lparr>wr_ownerId = i, wr_leaseDurationMs = Fin 30000, wr_maxClockAdvanceMs = Fin 60000, wr_maxTakeoverAgeMs = Fin 120000, wr_closed = False,
      wr_leaseLost = False, wr_leaseFailure = None, wr_lastObservedNowMs = seen\<rparr>"

definition demo_account :: "unit loop_account" where
  "demo_account = (initialState (Fin 1000))\<lparr>la_updatedAt := Fin 2000\<rparr>"

definition empty_db :: writer_db where
  "empty_db = \<lparr>wd_lease = None, wd_account = None, wd_history = [], wd_fills = []\<rparr>"

definition demo_db :: "lease_row option \<Rightarrow> writer_db" where
  "demo_db l = \<lparr>wd_lease = l, wd_account = Some (account_row_of demo_store_env demo_account),
     wd_history = [history_of (account_row_of demo_store_env demo_account)], wd_fills = []\<rparr>"

lemma demo_writer_opens:
  "writer_options i \<lparr>lo_leaseDurationMs = None, lo_heartbeatIntervalMs = None, lo_maxClockAdvanceMs = None, lo_maxTakeoverAgeMs = None\<rparr> =
     Inr (demo_writer i (Fin 0))"
  by (simp add: writer_options_def demo_writer_def) code_simp

lemma demo_account_valid: "validateState demo_loop_env False demo_account = Inr ()"
  by code_simp

lemma demo_save:
  "save_account demo_store_env (Fin 2000) demo_account (demo_writer ''a'' (Fin 1000)) (empty_db\<lparr>wd_lease := Some (lease_of (demo_writer ''a'' (Fin 0)) (Fin 1000))\<rparr>) =
     (Inr (), demo_writer ''a'' (Fin 2000), demo_db (Some (lease_of (demo_writer ''a'' (Fin 0)) (Fin 2000))))"
  by code_simp

text \<open>Writer a opens, saves the account and goes away; writer b, opening after the lease ran out, takes over.\<close>

lemma demo_run:
  "store_run demo_store_env empty_db
     \<lparr>ss_db = demo_db (Some (lease_of (demo_writer ''b'' (Fin 0)) (Fin 40000))),
      ss_writers = [(''b'', demo_writer ''b'' (Fin 40000)), (''a'', demo_writer ''a'' (Fin 2000))]\<rparr>
     [(''a'', False), (''a'', False), (''b'', False)]"
proof -
  let ?l = "\<lambda>i t. Some (lease_of (demo_writer i (Fin 0)) (Fin t))"
  have open_a: "acquireLease (Fin 1000) (demo_writer ''a'' (Fin 0)) empty_db = Inr (demo_writer ''a'' (Fin 1000), empty_db\<lparr>wd_lease := ?l ''a'' 1000\<rparr>)"
    by code_simp
  have a: "store_run demo_store_env empty_db \<lparr>ss_db = empty_db\<lparr>wd_lease := ?l ''a'' 1000\<rparr>, ss_writers = [(''a'', demo_writer ''a'' (Fin 1000))]\<rparr>
      [(''a'', False)]"
    using sr_open [OF sr_start _ demo_writer_opens, where i = "''a''"] open_a by fastforce
  have s: "store_run demo_store_env empty_db \<lparr>ss_db = demo_db (?l ''a'' 2000), ss_writers = [(''a'', demo_writer ''a'' (Fin 2000))]\<rparr>
      [(''a'', False), (''a'', False)]"
    using sr_call [OF a _ wc_save, where i = "''a''"] demo_save by (force simp: demo_db_def empty_db_def)
  have "acquireLease (Fin 40000) (demo_writer ''b'' (Fin 0)) (demo_db (?l ''a'' 2000)) =
      Inr (demo_writer ''b'' (Fin 40000), demo_db (?l ''b'' 40000))" by code_simp
  then show ?thesis using sr_open [OF s _ demo_writer_opens, where i = "''b''"] by simp
qed

lemma empty_db_ok: "ledger_ok empty_db"
  by (auto simp: ledger_ok_def rows_ok_def history_ok_def empty_db_def intro: exI [of _ 0])

lemma writers_are_fenced_witness:
  "distinct (remdups_adj (map fst [(''a'', False), (''a'', False), (''b'', False)]))"
  by (rule writers_are_fenced [OF demo_run])

lemma ledger_is_append_only_witness:
  "ledger_ok (demo_db (Some (lease_of (demo_writer ''b'' (Fin 0)) (Fin 40000)))) \<and>
   ledger_grows empty_db (demo_db (Some (lease_of (demo_writer ''b'' (Fin 0)) (Fin 40000))))"
  using ledger_is_append_only [OF demo_run empty_db_ok] by simp

end
