(* ===== verification/PaperLoopFacts.thy ===== *)
theory PaperLoopFacts imports PaperLoop WriterFacts begin

text \<open>
  The manual commands of the paper loop over a repository.  The interface \<open>paper_repository\<close> says what the loop
  needs of its repository: a save that succeeds has stored the account it was given, and that account is
  valid; a save that fails has stored nothing.  The SQL repository of \<open>WriterStore\<close> is an instance.  Then
  the account in memory is what a restart loads, and no idempotency key is accepted twice.
\<close>

section \<open>Outcomes of the commands\<close>

text \<open>A command leaves everything as it is, or commits one account and answers with the given result.\<close>

definition outcome ::
  "('s, 'r) loop_save \<Rightarrow> loop_status set \<Rightarrow> string option \<Rightarrow> 's loop_account \<Rightarrow> 'r \<Rightarrow> ('s, 'r) loop_answer \<Rightarrow> bool" where
  "outcome save accepted key d r y \<longleftrightarrow>
     (\<exists>a. y = (a, d, r) \<and> (\<forall>x. a = Inr x \<longrightarrow> rs_status x \<notin> accepted)) \<or>
     (\<exists>next x. y = commit_state save next x d r \<and> rs_status x \<noteq> LoopRFailed \<and> (key \<noteq> None \<longrightarrow> rs_status x \<in> accepted) \<and>
        la_processedIdempotencyKeys next = (case key of None \<Rightarrow> [] | Some k \<Rightarrow> [k]) @ la_processedIdempotencyKeys d \<and>
        la_initialCapital next = la_initialCapital d)"

lemma outcome_same [simp]: "rs_status x \<notin> accepted \<Longrightarrow> outcome save accepted key d r (answer x d r)"
  by (simp add: outcome_def answer_def)

lemma outcome_throws [simp]: "outcome save accepted key d r (Inl e, d, r)"
  by (simp add: outcome_def)

lemma outcome_commit:
  assumes "rs_status x \<noteq> LoopRFailed" "key \<noteq> None \<longrightarrow> rs_status x \<in> accepted"
    and "la_processedIdempotencyKeys next = (case key of None \<Rightarrow> [] | Some k \<Rightarrow> [k]) @ la_processedIdempotencyKeys d"
    and "la_initialCapital next = la_initialCapital d"
  shows "outcome save accepted key d r (commit_state save next x d r)"
  using assms unfolding outcome_def by blast

lemma outcome_answer_r: "(\<And>x. m = Inr x \<Longrightarrow> outcome save accepted key d r (k x)) \<Longrightarrow> outcome save accepted key d r (answer_r m k d r)"
  by (cases m) (simp_all add: answer_r_def)

lemma plain_status [simp]: "rs_status (plain_result s t) = s"
  by (simp add: plain_result_def)

lemma validate_command_key: "validatePersonalPaperOrderCommand c = Inr v \<Longrightarrow> pc_idempotencyKey v = pc_idempotencyKey c"
  by (auto simp: validatePersonalPaperOrderCommand_def result_simps Let_def)

lemma markToMarket_keeps [simp]:
  "la_processedIdempotencyKeys (markToMarket d m p now) = la_processedIdempotencyKeys d"
  "la_initialCapital (markToMarket d m p now) = la_initialCapital d"
  "la_fills (markToMarket d m p now) = la_fills d"
  by (simp_all add: markToMarket_def Let_def)

lemma case_throw_Inr_iff: "(case t of Inl e \<Rightarrow> throw e | Inr x \<Rightarrow> f x) = Inr y \<longleftrightarrow> (\<exists>x. t = Inr x \<and> f x = Inr y)"
  by (cases t) simp_all

lemma trade_account_keeps:
  "trade_account side market quantity price notional fee d = Inr (Inr t) \<Longrightarrow>
     la_processedIdempotencyKeys t = la_processedIdempotencyKeys d \<and> la_initialCapital t = la_initialCapital d"
  by (auto simp: trade_account_def Let_def result_simps split: fill_side.splits if_splits)

lemma executeOrder_keeps:
  "executeOrder cfg d key market side q p now fp = Inr (t, x, f) \<Longrightarrow>
     la_processedIdempotencyKeys t = key # la_processedIdempotencyKeys d \<and> la_initialCapital t = la_initialCapital d"
  by (auto simp: executeOrder_def Let_def result_simps case_throw_Inr_iff dest: trade_account_keeps)

lemma limit_refusal_status: "limit_refusal c p = Some (status, reason) \<Longrightarrow> status \<noteq> LoopRFilled"
  by (auto simp: limit_refusal_def Let_def split: if_splits fill_side.splits)

lemma submit_outcome: "outcome save {LoopRFilled} (Some (pc_idempotencyKey c)) d r (submitManualOrder cfg save c x d r)"
  unfolding submitManualOrder_def Let_def
  by (auto split: sum.splits option.splits prod.splits intro!: outcome_commit dest!: validate_command_key executeOrder_keeps dest: limit_refusal_status)

lemma open_outcome: "outcome save {LoopRWait} (Some (pc_idempotencyKey c)) d r (openLimitOrder cfg save c x d r)"
  unfolding openLimitOrder_def Let_def
  by (auto split: sum.splits option.splits intro!: outcome_commit outcome_answer_r dest: validate_command_key)

lemma cancel_outcome: "outcome save {} None d r (cancelWorkingOrder cfg save i now d r)"
  unfolding cancelWorkingOrder_def Let_def
  by (auto split: sum.splits option.splits intro!: outcome_commit)

lemma settle_outcome:
  assumes "la_processedIdempotencyKeys t = la_processedIdempotencyKeys d" "la_initialCapital t = la_initialCapital d"
  shows "outcome save {} None d r (settle_fill save n w e q p fee x t d r)"
  unfolding settle_fill_def Let_def
  by (cases "js_abs (q - lc_remainingQuantity (wo_lifecycle w)) \<le> JS_EPSILON") (auto simp: assms split: sum.splits intro!: outcome_commit)

lemma fill_outcome: "outcome save {} None d r (fillWorkingOrder cfg save i q x e d r)"
proof -
  have "outcome save {} None d r (attempt_fill save n w q f x d r)" for n w f
    unfolding attempt_fill_def Let_def
    by (auto split: sum.splits intro!: outcome_answer_r settle_outcome dest!: trade_account_keeps)
  then show ?thesis unfolding fillWorkingOrder_def Let_def
    by (auto split: option.splits intro!: outcome_commit)
qed

section \<open>Runs\<close>

text \<open>One command, with the idempotency key it accepted: a submitted order is accepted when it is filled, a limit order when it is open.\<close>

definition accepted_key :: "loop_status \<Rightarrow> string \<Rightarrow> 's loop_result result \<Rightarrow> string list" where
  "accepted_key status key a = (case a of Inl _ \<Rightarrow> [] | Inr x \<Rightarrow> if rs_status x = status then [key] else [])"

inductive loop_step :: "'s loop_config \<Rightarrow> ('s, 'r) loop_save \<Rightarrow> 's loop_account \<Rightarrow> 'r \<Rightarrow> string list \<Rightarrow> 's loop_account \<Rightarrow> 'r \<Rightarrow> bool" for cfg save where
  lp_submit: "submitManualOrder cfg save c x d r = (a, d', r') \<Longrightarrow> loop_step cfg save d r (accepted_key LoopRFilled (pc_idempotencyKey c) a) d' r'"
| lp_open: "openLimitOrder cfg save c x d r = (a, d', r') \<Longrightarrow> loop_step cfg save d r (accepted_key LoopRWait (pc_idempotencyKey c) a) d' r'"
| lp_cancel: "cancelWorkingOrder cfg save i now d r = (a, d', r') \<Longrightarrow> loop_step cfg save d r [] d' r'"
| lp_fill: "fillWorkingOrder cfg save i q x e d r = (a, d', r') \<Longrightarrow> loop_step cfg save d r [] d' r'"

inductive loop_run :: "'s loop_config \<Rightarrow> ('s, 'r) loop_save \<Rightarrow> 's loop_account \<Rightarrow> 'r \<Rightarrow> string list \<Rightarrow> 's loop_account \<Rightarrow> 'r \<Rightarrow> bool"
  for cfg save d0 r0 where
  lr_start: "loop_run cfg save d0 r0 [] d0 r0"
| lr_step: "loop_run cfg save d0 r0 ks d r \<Longrightarrow> loop_step cfg save d r k d' r' \<Longrightarrow> loop_run cfg save d0 r0 (k @ ks) d' r'"

lemma commit_state_cases:
  assumes "commit_state save next x d r = (a, d', r')"
  shows "save next r = (Inr (), r') \<and> a = Inr x \<and> d' = next \<or>
     (\<exists>e. save next r = (Inl e, r')) \<and> a = Inr (plain_result LoopRFailed ''paper account persistence failed'') \<and> d' = d"
proof (cases "save next r")
  case (Pair m r1)
  then show ?thesis using assms by (cases m) (auto simp: commit_state_def answer_def)
qed

text \<open>What a command does to the account and the repository: nothing, or one save.\<close>

lemma outcome_cases:
  assumes "outcome save acc key d r (a, d', r')"
  shows "(r' = r \<or> (\<exists>next e. save next r = (Inl e, r'))) \<and> d' = d \<and> (\<forall>x. a = Inr x \<longrightarrow> rs_status x \<in> acc \<longrightarrow> rs_status x = LoopRFailed) \<or>
     save d' r = (Inr (), r') \<and> (key \<noteq> None \<longrightarrow> (\<exists>x. a = Inr x \<and> rs_status x \<in> acc)) \<and>
       la_processedIdempotencyKeys d' = (case key of None \<Rightarrow> [] | Some k \<Rightarrow> [k]) @ la_processedIdempotencyKeys d \<and>
       la_initialCapital d' = la_initialCapital d"
  using assms unfolding outcome_def by (elim disjE exE conjE) (auto dest!: sym [of "(a, d', r')"] commit_state_cases)

lemma loop_step_cases:
  assumes "loop_step cfg save d r k d' r'"
  shows "(r' = r \<or> (\<exists>next e. save next r = (Inl e, r'))) \<and> d' = d \<and> k = [] \<or>
     save d' r = (Inr (), r') \<and> la_processedIdempotencyKeys d' = k @ la_processedIdempotencyKeys d \<and> la_initialCapital d' = la_initialCapital d"
  using assms
proof cases
  case (lp_submit c x a)
  from outcome_cases [OF submit_outcome [of save c d r cfg x, unfolded lp_submit(2)]] lp_submit(1) show ?thesis
    by (auto simp: accepted_key_def split: sum.splits)
next
  case (lp_open c x a)
  from outcome_cases [OF open_outcome [of save c d r cfg x, unfolded lp_open(2)]] lp_open(1) show ?thesis
    by (auto simp: accepted_key_def split: sum.splits)
next
  case (lp_cancel i now a)
  from outcome_cases [OF cancel_outcome [of save d r cfg i now, unfolded lp_cancel(2)]] lp_cancel(1) show ?thesis by auto
next
  case (lp_fill i q x e a)
  from outcome_cases [OF fill_outcome [of save d r cfg i q x e, unfolded lp_fill(2)]] lp_fill(1) show ?thesis by auto
qed

section \<open>The repository interface\<close>

locale paper_repository =
  fixes env :: "'s loop_env" and save :: "('s, 'r) loop_save" and holds :: "'r \<Rightarrow> 's loop_account \<Rightarrow> bool"
  assumes saved: "save d r = (Inr (), r') \<Longrightarrow> holds r' d"
    and checked: "save d r = (Inr (), r') \<Longrightarrow> validateState env False d = Inr ()"
    and refused: "save d r = (Inl e, r') \<Longrightarrow> holds r x \<Longrightarrow> holds r' x"
begin

lemma run_held:
  "loop_run cfg save d0 r0 ks d r \<Longrightarrow> holds r0 d0 \<Longrightarrow> holds r d \<and> la_initialCapital d = la_initialCapital d0"
proof (induction rule: loop_run.induct)
  case (lr_step ks d r k d' r')
  then show ?case using loop_step_cases [OF lr_step(2)] saved refused by metis
qed simp

lemma run_keys:
  "loop_run cfg save d0 r0 ks d r \<Longrightarrow> validateState env False d0 = Inr () \<Longrightarrow>
     la_processedIdempotencyKeys d = ks @ la_processedIdempotencyKeys d0 \<and> validateState env False d = Inr ()"
proof (induction rule: loop_run.induct)
  case (lr_step ks d r k d' r')
  then show ?case using loop_step_cases [OF lr_step(2)] checked by fastforce
qed simp

end

section \<open>The SQL repository is one\<close>

text \<open>The world of the repository: the clock readings to come, the writer and the tables.\<close>

type_synonym store_world = "(nat \<Rightarrow> jsnum) \<times> lease_writer \<times> writer_db"

fun store_save :: "'s store_env \<Rightarrow> ('s, store_world) loop_save" where
  "store_save se d (clock, w, db) = (let (res, w', db') = save_account se (clock 0) d w db in (res, \<lambda>n. clock (Suc n), w', db'))"

text \<open>The tables hold the account: it is the one they held at the beginning, or its own row is there with its fills in the ledger.\<close>

fun store_holds :: "'s store_env \<Rightarrow> 's loop_account \<Rightarrow> writer_db \<Rightarrow> store_world \<Rightarrow> 's loop_account \<Rightarrow> bool" where
  "store_holds se d0 db0 (clock, w, db) d \<longleftrightarrow>
     d = d0 \<and> wd_account db = wd_account db0 \<and> wd_fills db = wd_fills db0 \<or>
     wd_account db = Some (account_row_of se d) \<and> validateState (se_env se) False d = Inr () \<and> assertFillLedgerReconcilesState se d db = Inr ()"

lemma reconcile_cong: "wd_fills a = wd_fills b \<Longrightarrow> assertFillLedgerReconcilesState se d a = assertFillLedgerReconcilesState se d b"
  by (simp add: assertFillLedgerReconcilesState_def readFillLedgerRows_def)

lemma store_save_Inr:
  assumes "store_save se d (clock, w, db) = (Inr (), clock', w', db')"
  shows "validateState (se_env se) False d = Inr ()" "wd_account db' = Some (account_row_of se d)" "assertFillLedgerReconcilesState se d db' = Inr ()"
proof -
  have s: "save_account se (clock 0) d w db = (Inr (), w', db')" using assms by (auto split: prod.splits)
  then show v: "validateState (se_env se) False d = Inr ()" by (cases "validateState (se_env se) False d") (auto simp: save_account_def)
  with s obtain held where "save_body se d held = Inr ((), db')"
    by (auto simp: save_account_def lease_transaction_def split: prod.splits sum.splits)
  then obtain db1 where db1: "assertFillLedgerReconcilesState se d db1 = Inr ()" "put_account (account_row_of se d) db1 = Inr db'"
    by (auto simp: save_body_def result_simps)
  then show "wd_account db' = Some (account_row_of se d)" by (auto simp: put_account_def result_simps)
  have "wd_fills db' = wd_fills db1" using db1 by (auto simp: put_account_def result_simps)
  then show "assertFillLedgerReconcilesState se d db' = Inr ()" using db1(1) reconcile_cong by metis
qed

lemma store_save_Inl: "store_save se d (clock, w, db) = (Inl e, clock', w', db') \<Longrightarrow> db' = db"
  by (auto simp: save_account_def lease_transaction_def split: prod.splits sum.splits)

interpretation sql: paper_repository "se_env se" "store_save se" "store_holds se d0 db0" for se d0 db0
proof
  fix d :: "'a loop_account" and r r' :: store_world and x e
  obtain clock w db clock' w' db' where r: "r = (clock, w, db)" "r' = (clock', w', db')" by (cases r, cases r')
  show "store_holds se d0 db0 r' d" if "store_save se d r = (Inr (), r')"
    using store_save_Inr that r by fastforce
  show "validateState (se_env se) False d = Inr ()" if "store_save se d r = (Inr (), r')"
    using store_save_Inr(1) that r by metis
  show "store_holds se d0 db0 r' x" if "store_save se d r = (Inl e, r')" "store_holds se d0 db0 r x"
    using store_save_Inl [of se d clock w db e clock' w' db'] that r by (simp add: reconcile_cong [of db' db])
qed

section \<open>Restart\<close>

lemma loaded_account:
  assumes "loadLatest se now w db = (Inr restored, w1, db1)"
  shows "restored = None \<and> (wd_account db1 = None \<or> (\<exists>row. wd_account db1 = Some row \<and> \<not> cr_valid row)) \<or>
     (\<exists>row d. restored = Some d \<and> wd_account db1 = Some row \<and> cr_valid row \<and> stored_account_state se row db1 = Inr d)"
proof (cases rule: assertLeaseHeld_cases [of now w db])
  case (lost e v)
  then show ?thesis using assms by (simp add: loadLatest_def after_lease_def)
next
  case held
  show ?thesis using assms held(1)
    by (auto simp: loadLatest_def after_lease_def Let_def split: option.splits if_splits sum.splits)
qed

lemma load_again:
  assumes "assertLeaseHeld now v db = (Inr (), v', held)" "wd_account db = wd_account db1" "wd_fills db = wd_fills db1"
    and "restored = None \<and> (wd_account db1 = None \<or> (\<exists>row. wd_account db1 = Some row \<and> \<not> cr_valid row)) \<or>
     (\<exists>row d. restored = Some d \<and> wd_account db1 = Some row \<and> cr_valid row \<and> stored_account_state se row db1 = Inr d)"
  shows "\<exists>v2 db2. loadLatest se now v db = (Inr restored, v2, db2)"
proof -
  have h: "wd_account held = wd_account db1" "wd_fills held = wd_fills db1"
    by (cases rule: assertLeaseHeld_cases [of now v db]; use assms(1-3) in simp)+
  have "stored_account_state se row held = stored_account_state se row db1" for row
    by (simp add: stored_account_state_def reconcile_cong [OF h(2)])
  then show ?thesis using assms(1,4) h(1) by (auto simp: loadLatest_def after_lease_def Let_def split: option.splits)
qed

text \<open>C32: a restart loses nothing the loop acknowledged and keeps nothing it refused.  A loop that was built from what its repository loaded
  runs any sequence of manual commands, saves failing or not; then a loop built anew, by any writer that holds the lease, from what the
  repository loads starts with exactly the account the first one had in memory.  The JSON text of that account must parse to it.\<close>

theorem restart_recovers_account:
  assumes "loadLatest se t0 w0 db0 = (Inr restored, w1, db1)"
    and "PaperTradingExecutionLoop_new (se_env se) commandDigest numberText options restored = Inr (cfg, d0)"
    and "loop_run cfg (store_save se) d0 (clock, w1, db1) ks d (clock', w, db)"
    and "se_parseState se (se_stateJson se d) = Inr d"
    and "assertLeaseHeld now v db = (Inr (), v', held)"
  shows "\<exists>again v2 db2. loadLatest se now v db = (Inr again, v2, db2) \<and>
    PaperTradingExecutionLoop_new (se_env se) commandDigest numberText options again = Inr (cfg, d)"
proof -
  have d0: "d0 = or_default restored (initialState (lq_initialCapital options))" using assms(2)
    by (auto simp: PaperTradingExecutionLoop_new_def result_simps Let_def)
  have run: "store_holds se d0 db1 (clock', w, db) d" "la_initialCapital d = la_initialCapital d0"
    using sql.run_held [OF assms(3), of d0 db1] by auto
  then consider (same) "d = d0" "wd_account db = wd_account db1" "wd_fills db = wd_fills db1"
    | (mine) "wd_account db = Some (account_row_of se d)" "validateState (se_env se) False d = Inr ()" "assertFillLedgerReconcilesState se d db = Inr ()"
    by auto
  then show ?thesis
  proof cases
    case same
    then show ?thesis using load_again [OF assms(5) same(2,3) loaded_account [OF assms(1)]] assms(2) by blast
  next
    case mine
    have "stored_account_state se (account_row_of se d) db = Inr d"
      using mine assms(4) by (simp add: stored_account_state_def account_row_of_def)
    then have "\<exists>v2 db2. loadLatest se now v db = (Inr (Some d), v2, db2)"
      using load_again [OF assms(5), of db "Some d"] mine(1) by (simp add: account_row_of_def)
    moreover have "PaperTradingExecutionLoop_new (se_env se) commandDigest numberText options (Some d) = Inr (cfg, d)"
      using assms(2) run(2) mine(2) d0 by (auto simp: PaperTradingExecutionLoop_new_def result_simps Let_def or_default_def)
    ultimately show ?thesis by blast
  qed
qed

text \<open>C33: over the SQL repository an idempotency key is accepted at most once: the keys of the orders that were filled at once or opened during
  a run are different from each other and from the keys processed before, whatever was submitted, opened, cancelled and filled in between.\<close>

theorem paper_key_accepted_once:
  assumes "loop_run cfg (store_save se) d0 world ks d world'" "validateState (se_env se) False d0 = Inr ()"
  shows "distinct (ks @ la_processedIdempotencyKeys d0)"
  using sql.run_keys [OF assms] by (auto simp: validateState_def check_idempotency_def result_simps Let_def)

section \<open>Fills of limit orders\<close>

lemma commit_fills:
  assumes "commit_state save next x d r = (a, d', r')" "la_fills d' \<noteq> la_fills d"
  shows "a = Inr x \<and> d' = next"
  using commit_state_cases [OF assms(1)] assms(2) by blast

lemma fill_transition_positive:
  "transitionPaperOrderLifecycle s next time q = Inr s' \<Longrightarrow> is_fill_transition next \<Longrightarrow> Fin 0 < q"
  by (cases q) (auto simp: transitionPaperOrderLifecycle_def result_simps Let_def assertQuantity_def)

lemma settle_fill_cases:
  assumes "settle_fill save n w e q p fee x t d r = (a, d', r')" "la_fills d' \<noteq> la_fills d"
  shows "\<exists>f y. a = Inr y \<and> rs_fills y = [f] \<and> la_fills d' = f # la_fills d \<and> fr_orderId f = wo_id w \<and> fr_market f = wo_market w \<and>
    fr_side f = wo_side w \<and> fr_quantity f = q \<and> fr_price f = p \<and> fr_fee f = fee \<and> Fin 0 < q"
proof -
  let ?terminal = "js_abs (q - lc_remainingQuantity (wo_lifecycle w)) \<le> JS_EPSILON"
  let ?s = "if ?terminal then LsFilled else LsPartiallyFilled"
  show ?thesis
  proof (cases "transitionPaperOrderLifecycle (wo_lifecycle w) ?s (cx_now x) q")
    case (Inl e)
    then show ?thesis using assms by (simp add: settle_fill_def Let_def answer_def)
  next
    case (Inr l)
    have "Fin 0 < q" using fill_transition_positive [OF Inr] by (simp add: is_fill_transition_def)
    then show ?thesis using assms Inr by (auto simp: settle_fill_def Let_def working_fill_def dest!: commit_fills)
  qed
qed

definition within_limit :: "fill_side \<Rightarrow> jsnum \<Rightarrow> jsnum \<Rightarrow> bool" where
  "within_limit side limit price \<longleftrightarrow> (case side of FillBuy \<Rightarrow> price \<le> limit | FillSell \<Rightarrow> limit \<le> price)"

lemma js_min_not_NaN: "js_min a b \<noteq> NaN \<Longrightarrow> a \<noteq> NaN \<and> b \<noteq> NaN"
  by (auto simp: js_min_def)

lemma modelled_fill:
  assumes "deterministicFill p side (js_min q remaining) quote liquidity = Inr (quantity, price)" "Fin 0 < quantity"
  shows "quantity \<le> q" "quantity \<le> remaining" "is_finite price"
proof -
  let ?m = "js_min q remaining" and ?r = "round8 (liquidity * ep_maxFillRatio p)"
  have q: "quantity = js_min ?m ?r" and f: "is_finite price"
    using assms(1) by (auto simp: deterministicFill_def result_simps Let_def)
  have n: "quantity \<noteq> NaN" using assms(2) by auto
  have m: "?m \<noteq> NaN \<and> ?r \<noteq> NaN" using js_min_not_NaN n q by blast
  then have "quantity \<le> ?m" using js_min_le q by blast
  moreover have "?m \<le> q \<and> ?m \<le> remaining" using js_min_le js_min_not_NaN m by blast
  ultimately show "quantity \<le> q" "quantity \<le> remaining" using jle_trans by blast+
  show "is_finite price" by (rule f)
qed

lemma limit_kept:
  assumes "marketable w quote" "\<not> outside_limit w price" "wo_orderType w = LoopLimit" "is_finite quote" "Fin 0 < quote" "is_finite price"
  shows "\<exists>limit. wo_limitPrice w = Some limit \<and> within_limit (wo_side w) limit quote \<and> within_limit (wo_side w) limit price"
proof (cases "wo_limitPrice w")
  case None
  then show ?thesis using assms by (cases quote; cases "wo_side w") (auto simp: marketable_def or_default_def)
next
  case (Some limit)
  then have n: "limit \<noteq> NaN" using assms(1) by (cases "wo_side w") (auto simp: marketable_def or_default_def)
  have p: "price \<noteq> NaN" using assms(6) by auto
  show ?thesis using assms(1-3) Some not_jless_iff n p
    by (cases "wo_side w") (auto simp: marketable_def outside_limit_def or_default_def within_limit_def)
qed

lemma bought_with_cash: "trade_account FillBuy market q p notional fee d = Inr (Inr t) \<Longrightarrow> \<not> la_cash d < notional + fee"
  by (auto simp: trade_account_def Let_def split: if_splits)

lemma trade_keeps_fills: "trade_account side market q p notional fee d = Inr (Inr t) \<Longrightarrow> la_fills t = la_fills d"
  by (auto simp: trade_account_def Let_def result_simps split: fill_side.splits if_splits)

lemma gate_price: "executionGate cfg x = None \<Longrightarrow> is_finite (cx_marketPrice x) \<and> Fin 0 < cx_marketPrice x"
  by (cases "cx_marketPrice x") (auto simp: executionGate_def split: if_splits)

text \<open>What a fill of a working order is.\<close>

definition proper_fill :: "'s working_order \<Rightarrow> jsnum \<Rightarrow> jsnum \<Rightarrow> 's loop_account \<Rightarrow> 's loop_fill \<Rightarrow> bool" where
  "proper_fill w q quote d f \<longleftrightarrow>
     fr_orderId f = wo_id w \<and> fr_market f = wo_market w \<and> fr_side f = wo_side w \<and>
     Fin 0 < fr_quantity f \<and> fr_quantity f \<le> q \<and> fr_quantity f \<le> lc_remainingQuantity (wo_lifecycle w) \<and>
     (wo_orderType w = LoopLimit \<longrightarrow>
        (\<exists>limit. wo_limitPrice w = Some limit \<and> within_limit (wo_side w) limit quote \<and> within_limit (wo_side w) limit (fr_price f))) \<and>
     (wo_side w = FillBuy \<longrightarrow> \<not> la_cash d < round8 (fr_quantity f * fr_price f) + fr_fee f)"

lemma attempt_fill_cases:
  assumes "attempt_fill save n w q e x d r = (a, d', r')" "la_fills d' \<noteq> la_fills d" "executionGate cfg x = None"
  shows "\<exists>f y. a = Inr y \<and> rs_fills y = [f] \<and> la_fills d' = f # la_fills d \<and> proper_fill w q (cx_marketPrice x) d f"
proof -
  let ?price = "cx_marketPrice x" and ?p = "wo_executionProfile w"
  obtain quantity price traded where
      m: "marketable w ?price" "\<not> outside_limit w price" and
      f: "deterministicFill ?p (wo_side w) (js_min q (lc_remainingQuantity (wo_lifecycle w))) ?price (wo_requestedQuantity w) = Inr (quantity, price)" and
      t: "trade_account (wo_side w) (wo_market w) quantity price (round8 (quantity * price)) (round8 (quantity * price * ep_feeRate ?p)) d = Inr (Inr traded)" and
      s: "settle_fill save n w e quantity price (round8 (quantity * price * ep_feeRate ?p)) x traded d r = (a, d', r')"
    using assms(1,2) by (auto simp: attempt_fill_def answer_r_def answer_def Let_def split: if_splits sum.splits)
  from settle_fill_cases [OF s assms(2)] obtain g y where g: "a = Inr y" "rs_fills y = [g]" "la_fills d' = g # la_fills d" "fr_orderId g = wo_id w"
      "fr_market g = wo_market w" "fr_side g = wo_side w" "fr_quantity g = quantity" "fr_price g = price"
      "fr_fee g = round8 (quantity * price * ep_feeRate ?p)" "Fin 0 < quantity" by blast
  note q = modelled_fill [OF f g(10)]
  have "wo_side w = FillBuy \<longrightarrow> \<not> la_cash d < round8 (quantity * price) + round8 (quantity * price * ep_feeRate ?p)"
    using bought_with_cash t by metis
  then have "proper_fill w q ?price d g"
    using g q limit_kept [OF m] gate_price [OF assms(3)] by (auto simp: proper_fill_def)
  then show ?thesis using g by blast
qed

lemma order_index_Some: "order_index i ws = Some n \<Longrightarrow> n < length ws \<and> wo_id (ws ! n) = i"
  using nth_length_takeWhile [of "\<lambda>w. wo_id w \<noteq> i" ws] by (auto simp: order_index_def Let_def split: if_splits)

text \<open>C34: a fill request changes the fills only when the gate is open and the working order exists and is not a strategy's own; then it
  adds exactly one fill, of that order, its market and its side, of a positive quantity that exceeds neither the request nor what remains
  of the order; a limit order is filled at a modelled price within its limit while the market is within it too, and a purchase only when
  the cash covers its notional and fee.\<close>

theorem limit_fill_within_order:
  assumes "fillWorkingOrder cfg save i q x e d r = (a, d', r')" "la_fills d' \<noteq> la_fills d"
  shows "executionGate cfg x = None \<and>
    (\<exists>n f y. order_index i (working_orders d) = Some n \<and> wo_id (working_orders d ! n) = i \<and> wo_strategy (working_orders d ! n) = None \<and>
       a = Inr y \<and> rs_fills y = [f] \<and> la_fills d' = f # la_fills d \<and>
       proper_fill (working_orders d ! n) q (cx_marketPrice x) d f)"
proof -
  have gate: "executionGate cfg x = None" using assms
    by (cases "executionGate cfg x") (auto simp: fillWorkingOrder_def answer_def)
  obtain n where n: "order_index i (working_orders d) = Some n" "wo_strategy (working_orders d ! n) = None"
    using assms gate by (cases "order_index i (working_orders d)") (auto simp: fillWorkingOrder_def Let_def answer_def split: if_splits option.splits)
  let ?w = "working_orders d ! n"
  obtain t id where s: "attempt_fill save n (?w\<lparr>wo_observedTicks := t\<rparr>) q id x d r = (a, d', r')"
    using assms gate n
    by (auto simp: fillWorkingOrder_def Let_def answer_def split: if_splits option.splits dest!: commit_fills)
  then obtain f y where "a = Inr y \<and> rs_fills y = [f] \<and> la_fills d' = f # la_fills d \<and> proper_fill (?w\<lparr>wo_observedTicks := t\<rparr>) q (cx_marketPrice x) d f"
    using attempt_fill_cases [OF s assms(2) gate] by blast
  moreover have "wo_id ?w = i" using order_index_Some [OF n(1)] by blast
  ultimately show ?thesis using gate n by (auto simp: proper_fill_def)
qed

section \<open>A run\<close>

definition demo_options :: loop_options where
  "demo_options = \<lparr>lq_initialCapital = Fin 1000, lq_feeRate = Some (Fin 0), lq_slippageBps = None, lq_spreadBps = None, lq_maxFillRatio = None,
     lq_latencyTicks = None, lq_staleWindowMs = None\<rparr>"

definition demo_digest :: "paper_command \<Rightarrow> string" where
  "demo_digest c = replicate 64 (CHR ''a'')"

definition demo_cfg :: "unit loop_config" where
  "demo_cfg = \<lparr>lf_env = demo_loop_env, lf_commandDigest = demo_digest, lf_numberText = (\<lambda>_. ''n''),
     lf_executionProfile = \<lparr>ep_schemaVersion = Fin 1, ep_engineVersion = ''cloud-paper-execution-v1'', ep_feeRate = Fin 0, ep_slippageBps = Fin 0,
       ep_spreadBps = Fin 0, ep_maxFillRatio = Fin 1, ep_latencyTicks = Fin 0, ep_fingerprintSha256 = []\<rparr>,
     lf_staleWindowMs = Fin 30000\<rparr>"

definition limit_command :: paper_command where
  "limit_command = \<lparr>pc_schemaVersion = Fin 1, pc_authority = ''PAPER_ONLY'', pc_productionMutationAllowed = False,
     pc_idempotencyKey = ''manual-order-0001'', pc_market = ''KRW-BTC'', pc_side = FillBuy, pc_orderType = LoopLimit, pc_quantity = Fin 2,
     pc_limitPrice = Some (Fin 100)\<rparr>"

definition demo_context :: "jsnum \<Rightarrow> jsnum \<Rightarrow> loop_context" where
  "demo_context now price = \<lparr>cx_now = now, cx_marketPrice = price, cx_observedAt = now, cx_mode = ''PAPER'', cx_killSwitchActive = False,
     cx_tradingAllowed = True, cx_overallHealth = ''HEALTHY'', cx_p0 = P0Clear\<rparr>"

definition limit_order :: "unit working_order" where
  "limit_order = \<lparr>wo_id = ''manual-order-0001'', wo_idempotencyKey = ''manual-order-0001'', wo_market = ''KRW-BTC'', wo_side = FillBuy, wo_orderType = LoopLimit,
     wo_requestedQuantity = Fin 2, wo_limitPrice = Some (Fin 100), wo_createdAt = Fin 3000, wo_requestFingerprint = replicate 64 (CHR ''a''),
     wo_lifecycle = \<lparr>lc_status = LsOpen, lc_requestedQuantity = Fin 2, lc_filledQuantity = Fin 0, lc_remainingQuantity = Fin 2,
       lc_transitionSequence = Fin 2, lc_lastTransitionAt = Fin 3000\<rparr>,
     wo_executionProfile = lf_executionProfile demo_cfg, wo_observedTicks = Some (Fin 0), wo_strategy = None\<rparr>"

definition opened_account :: "unit loop_account" where
  "opened_account = (initialState (Fin 1000))\<lparr>la_workingOrders := Some [limit_order], la_processedIdempotencyKeys := [''manual-order-0001''],
     la_updatedAt := Fin 3000\<rparr>"

definition opened_store_env :: "unit store_env" where
  "opened_store_env = demo_store_env\<lparr>se_parseState := (\<lambda>_. Inr opened_account)\<rparr>"

definition leased_db :: "string \<Rightarrow> jsnum \<Rightarrow> writer_db" where
  "leased_db i t = empty_db\<lparr>wd_lease := Some (lease_of (demo_writer i (Fin 0)) t)\<rparr>"

definition opened_db :: writer_db where
  "opened_db = (leased_db ''a'' (Fin 3000))\<lparr>wd_account := Some (account_row_of opened_store_env opened_account),
     wd_history := [history_of (account_row_of opened_store_env opened_account)]\<rparr>"

lemma demo_loaded:
  "loadLatest opened_store_env (Fin 2000) (demo_writer ''a'' (Fin 1000)) (leased_db ''a'' (Fin 1000)) =
     (Inr None, demo_writer ''a'' (Fin 2000), leased_db ''a'' (Fin 2000))"
  by code_simp

lemma demo_built:
  "PaperTradingExecutionLoop_new (se_env opened_store_env) demo_digest (\<lambda>_. ''n'') demo_options None = Inr (demo_cfg, initialState (Fin 1000))"
proof -
  have p: "buildExecutionProfile (\<lambda>_. []) (Fin 0) (Fin 0) (Fin 0) (Fin 1) (Fin 0) = Inr (lf_executionProfile demo_cfg)" by code_simp
  have e: "\<not> JS_EPSILON < js_abs (Fin 1000 - Fin 1000)" by code_simp
  have s: "\<not> (\<not> is_safe_integer (Fin 30000) \<or> Fin 30000 < Fin 1000)" by code_simp
  have v: "validateState demo_loop_env False (initialState (Fin 1000)) = Inr ()" by code_simp
  show ?thesis unfolding PaperTradingExecutionLoop_new_def
    using p e s v by (simp add: or_default_def demo_options_def opened_store_env_def demo_store_env_def demo_cfg_def demo_loop_env_def initialState_def Let_def)
qed

lemma demo_sha: "sha256_text (replicate 64 (CHR ''a''))"
  by (simp add: sha256_text_def list_all_iff)

lemma demo_order_checked: "check_working_order demo_loop_env d limit_order = Inr ()"
proof -
  have "is_finite (wo_requestedQuantity limit_order)" "\<not> wo_requestedQuantity limit_order \<le> Fin 0" "is_safe_integer (wo_createdAt limit_order)"
    "\<not> wo_createdAt limit_order < Fin 0" by code_simp+
  moreover have "validatePaperOrderLifecycle (wo_lifecycle limit_order) = Inr (wo_lifecycle limit_order)"
    "js_eq (lc_requestedQuantity (wo_lifecycle limit_order)) (wo_requestedQuantity limit_order)" by code_simp+
  moreover have "\<not> lifecycle_terminal (lc_status (wo_lifecycle limit_order))" by code_simp
  ultimately show ?thesis using demo_sha
    unfolding check_working_order_def by (simp add: limit_order_def)
qed

lemma flat_account_reconciles:
  "assertPaperAccountingReconciled locale digest
     \<lparr>sa_initialCapital = Fin 1000, sa_fills = [], sa_cash = Fin 1000, sa_realizedPnL = Fin 0, sa_positions = []\<rparr> =
   Inr \<lparr>pj_cash = Fin 1000, pj_realizedPnL = Fin 0, pj_positions = [], pj_journal = [],
     pj_fingerprintSha256 = digest (round8 (Fin 1000)) [] [] (Fin 1000) (Fin 0)\<rparr>"
proof -
  have "ledger_start (Fin 1000) = Inr \<lparr>ld_cash = 100000000000, ld_realized = 0, ld_positions = [], ld_journal = []\<rparr>" by code_simp
  moreover have "unscaled 100000000000 = Fin 1000" "unscaled 0 = Fin 0" by code_simp+
  moreover have "Fin 0 \<le> reconciliationTolerance 0 + lit (1 / 10 ^ 12)" "round8 (Fin 1000) - round8 (Fin 1000) = Fin 0"
    "round8 (Fin 0) - round8 (Fin 0) = Fin 0" by code_simp+
  moreover have "js_abs (Fin 0) = Fin 0" by code_simp
  ultimately show ?thesis
    by (simp add: assertPaperAccountingReconciled_def projectPaperAccounting_def ledger_replay_def canonicalFillOrder_def js_sort_def
        reconcilesWithinRounding_def within_tolerance_def sort_positions_def Let_def)
qed

lemma opened_account_valid: "validateState demo_loop_env False opened_account = Inr ()"
proof -
  have "check_header opened_account = Inr ()" by code_simp
  moreover have "check_working demo_loop_env opened_account [] [] [limit_order] = Inr ()"
  proof -
    have "\<not> blank (wo_id limit_order)" "\<not> blank (wo_idempotencyKey limit_order)" "\<not> blank (wo_market limit_order)" by code_simp+
    then show ?thesis by (simp add: demo_order_checked)
  qed
  moreover have "check_working_fills demo_loop_env opened_account limit_order = Inr ()" by code_simp
  moreover have "check_idempotency opened_account = Inr ()" by code_simp
  moreover have "check_accounting demo_loop_env False opened_account = Inr ()"
    by (simp add: check_accounting_def accounting_input_def opened_account_def initialState_def flat_account_reconciles)
  moreover have "check_projection opened_account = Inr ()" by code_simp
  ultimately show ?thesis unfolding validateState_def by (simp add: opened_account_def initialState_def working_orders_def)
qed

lemma demo_opened:
  "openLimitOrder demo_cfg save limit_command (demo_context (Fin 3000) (Fin 100)) (initialState (Fin 1000)) r =
     commit_state save opened_account (plain_result LoopRWait ''PAPER_LIMIT_OPEN'') (initialState (Fin 1000)) r"
proof -
  have "validatePersonalPaperOrderCommand limit_command = Inr limit_command" by code_simp
  moreover have "executionGate demo_cfg (demo_context (Fin 3000) (Fin 100)) = None" by code_simp
  moreover have "open_lifecycle (Fin 2) (Fin 3000) = Inr (wo_lifecycle limit_order)" by code_simp
  ultimately show ?thesis
    by (simp add: openLimitOrder_def prior_fingerprint_def answer_r_def limit_command_def demo_context_def demo_cfg_def demo_loop_env_def
        demo_digest_def limit_order_def opened_account_def initialState_def working_orders_def Let_def)
qed

lemma demo_stored:
  "store_save opened_store_env opened_account (\<lambda>_. Fin 3000, demo_writer ''a'' (Fin 2000), leased_db ''a'' (Fin 2000)) =
     (Inr (), \<lambda>_. Fin 3000, demo_writer ''a'' (Fin 3000), opened_db)"
proof -
  have held: "assertLeaseHeld (Fin 3000) (demo_writer ''a'' (Fin 2000)) (leased_db ''a'' (Fin 2000)) =
      (Inr (), demo_writer ''a'' (Fin 3000), leased_db ''a'' (Fin 3000))" by code_simp
  have "save_body opened_store_env opened_account (leased_db ''a'' (Fin 3000)) = Inr ((), opened_db)" by code_simp
  then show ?thesis using held opened_account_valid
    by (simp add: save_account_def lease_transaction_def opened_store_env_def demo_store_env_def)
qed

lemma demo_loop_run:
  "loop_run demo_cfg (store_save opened_store_env) (initialState (Fin 1000)) (\<lambda>_. Fin 3000, demo_writer ''a'' (Fin 2000), leased_db ''a'' (Fin 2000))
     [''manual-order-0001''] opened_account (\<lambda>_. Fin 3000, demo_writer ''a'' (Fin 3000), opened_db)"
proof -
  let ?world = "(\<lambda>_. Fin 3000, demo_writer ''a'' (Fin 2000), leased_db ''a'' (Fin 2000))"
  have "openLimitOrder demo_cfg (store_save opened_store_env) limit_command (demo_context (Fin 3000) (Fin 100)) (initialState (Fin 1000)) ?world =
      (Inr (plain_result LoopRWait ''PAPER_LIMIT_OPEN''), opened_account, \<lambda>_. Fin 3000, demo_writer ''a'' (Fin 3000), opened_db)"
    unfolding demo_opened commit_state_def demo_stored by (simp add: answer_def)
  from lr_step [OF lr_start lp_open [OF this]] show ?thesis by (simp add: accepted_key_def limit_command_def)
qed

lemma restart_recovers_account_witness:
  "\<exists>again v2 db2. loadLatest opened_store_env (Fin 4000) (demo_writer ''a'' (Fin 3000)) opened_db = (Inr again, v2, db2) \<and>
    PaperTradingExecutionLoop_new (se_env opened_store_env) demo_digest (\<lambda>_. ''n'') demo_options again = Inr (demo_cfg, opened_account)"
proof (rule restart_recovers_account [OF demo_loaded demo_built demo_loop_run])
  show "se_parseState opened_store_env (se_stateJson opened_store_env opened_account) = Inr opened_account"
    by (simp add: opened_store_env_def)
  show "assertLeaseHeld (Fin 4000) (demo_writer ''a'' (Fin 3000)) opened_db =
      (Inr (), demo_writer ''a'' (Fin 4000), opened_db\<lparr>wd_lease := Some (lease_of (demo_writer ''a'' (Fin 0)) (Fin 4000))\<rparr>)" by code_simp
qed

lemma paper_key_accepted_once_witness:
  "distinct ([''manual-order-0001''] @ la_processedIdempotencyKeys (initialState (Fin 1000) :: unit loop_account))"
proof (rule paper_key_accepted_once [OF demo_loop_run])
  show "validateState (se_env opened_store_env) False (initialState (Fin 1000) :: unit loop_account) = Inr ()"
    by (simp add: opened_store_env_def demo_store_env_def) code_simp
qed

definition limit_filled :: "(unit, unit) loop_answer" where
  "limit_filled = fillWorkingOrder demo_cfg (\<lambda>d r. (Inr (), r)) ''manual-order-0001'' (Fin 2) (demo_context (Fin 3500) (Fin 100)) None opened_account ()"

lemma demo_traded:
  obtains t where "trade_account FillBuy ''KRW-BTC'' (Fin 2) (Fin 100) (Fin 200) (Fin 0) opened_account = Inr (Inr t)"
proof -
  have "(case trade_account FillBuy ''KRW-BTC'' (Fin 2) (Fin 100) (Fin 200) (Fin 0) opened_account of Inr (Inr _) \<Rightarrow> True | _ \<Rightarrow> False)" by code_simp
  then show thesis using that by (auto split: sum.splits)
qed

lemma demo_fill_recorded: "la_fills (fst (snd limit_filled)) \<noteq> []"
proof -
  let ?x = "demo_context (Fin 3500) (Fin 100)" and ?save = "\<lambda>d r. (Inr (), r)"
  let ?seen = "limit_order\<lparr>wo_observedTicks := Some (Fin 1)\<rparr>"
  obtain t where t: "trade_account FillBuy ''KRW-BTC'' (Fin 2) (Fin 100) (Fin 200) (Fin 0) opened_account = Inr (Inr t)" by (rule demo_traded)
  have n: "round8 (Fin 2 * Fin 100) = Fin 200" "round8 (Fin 2 * Fin 100 * Fin 0) = Fin 0" "js_min (Fin 2) (Fin 2) = Fin 2" by code_simp+
  have f: "deterministicFill (lf_executionProfile demo_cfg) FillBuy (Fin 2) (Fin 100) (Fin 2) = Inr (Fin 2, Fin 100)" by code_simp
  have e: "js_abs (Fin 2 - Fin 2) \<le> JS_EPSILON" by code_simp
  obtain l where l: "transitionPaperOrderLifecycle (wo_lifecycle limit_order) LsFilled (Fin 3500) (Fin 2) = Inr l"
  proof -
    have "(case transitionPaperOrderLifecycle (wo_lifecycle limit_order) LsFilled (Fin 3500) (Fin 2) of Inr _ \<Rightarrow> True | _ \<Rightarrow> False)" by code_simp
    then show thesis using that by (auto split: sum.splits)
  qed
  have o: "wo_side limit_order = FillBuy" "wo_market limit_order = ''KRW-BTC''" "wo_requestedQuantity limit_order = Fin 2"
      "wo_executionProfile limit_order = lf_executionProfile demo_cfg" "lc_remainingQuantity (wo_lifecycle limit_order) = Fin 2"
      "ep_feeRate (lf_executionProfile demo_cfg) = Fin 0" "cx_marketPrice ?x = Fin 100" "cx_now ?x = Fin 3500"
    by (simp_all add: limit_order_def demo_cfg_def demo_context_def)
  have m: "marketable ?seen (Fin 100)" "\<not> outside_limit ?seen (Fin 100)" "''KRW-BTC'' = js_upper (js_trim ''KRW-BTC'')" by code_simp+
  have settled: "la_fills (fst (snd (settle_fill ?save 0 ?seen None (Fin 2) (Fin 100) (Fin 0) ?x t opened_account ()))) \<noteq> []"
    using e l by (simp add: settle_fill_def commit_state_def answer_def Let_def o)
  have attempt: "attempt_fill ?save 0 ?seen (Fin 2) None ?x opened_account () =
      settle_fill ?save 0 ?seen None (Fin 2) (Fin 100) (Fin 0) ?x t opened_account ()"
    using t n f m by (simp add: attempt_fill_def answer_r_def o Let_def)
  have g: "executionGate demo_cfg ?x = None" by code_simp
  have i: "order_index ''manual-order-0001'' (working_orders opened_account) = Some 0" by code_simp
  have w: "working_orders opened_account ! 0 = limit_order" by (simp add: opened_account_def working_orders_def)
  have q: "\<not> (blank ''manual-order-0001'' \<or> \<not> is_finite (Fin 2) \<or> Fin 2 \<le> Fin 0)" by code_simp
  have k: "Fin 0 + Fin 1 = Fin 1" "\<not> Fin 1 \<le> ep_latencyTicks (lf_executionProfile demo_cfg)" by code_simp+
  have "limit_filled = attempt_fill ?save 0 ?seen (Fin 2) None ?x opened_account ()"
    using g i w q k by (simp add: limit_filled_def fillWorkingOrder_def or_default_def Let_def limit_order_def o)
  then show ?thesis using attempt settled by simp
qed

lemma limit_fill_within_order_witness:
  "\<exists>f. la_fills (fst (snd limit_filled)) = [f] \<and> proper_fill limit_order (Fin 2) (Fin 100) opened_account f"
proof -
  have c: "fillWorkingOrder demo_cfg (\<lambda>d r. (Inr (), r)) ''manual-order-0001'' (Fin 2) (demo_context (Fin 3500) (Fin 100)) None opened_account () =
      (fst limit_filled, fst (snd limit_filled), snd (snd limit_filled))" by (simp only: limit_filled_def prod.collapse)
  have o: "la_fills opened_account = []" "working_orders opened_account = [limit_order]" "cx_marketPrice (demo_context (Fin 3500) (Fin 100)) = Fin 100"
    by (simp_all add: opened_account_def initialState_def working_orders_def demo_context_def)
  have "la_fills (fst (snd limit_filled)) \<noteq> la_fills opened_account" using demo_fill_recorded o by simp
  from limit_fill_within_order [OF c this] obtain n f where
    "order_index ''manual-order-0001'' [limit_order] = Some n" "la_fills (fst (snd limit_filled)) = [f]"
    "proper_fill ([limit_order] ! n) (Fin 2) (Fin 100) opened_account f" by (auto simp: o)
  then show ?thesis using order_index_Some [of "''manual-order-0001''" "[limit_order]" n] by auto
qed

end
