(* ===== verification/AtomicHedge.thy ===== *)
theory AtomicHedge imports Prelude begin

text \<open>
  \<open>apps/cloud/src/atomicHedgeCoordinator.ts\<close>: a hedge of a spot and a perpetual order, from its plan over
  the submission of both legs, their fills and the recovery of a half-filled hedge.  The exchange adapter
  is a parameter that acts on a state of its own: sending an order is an effect, and the promise it returns
  settles with a receipt or with a reason.  Its \<open>submit\<close> returns a promise, as its type says, so that the call
  itself does not throw.
\<close>

section \<open>State\<close>

datatype hedge_status =
  HsPlanned | HsSubmitting | HsPartiallyHedged | HsHedged | HsRebalancing | HsExiting | HsClosed | HsFaulted

datatype hedge_event_type =
  HePlanned | HeSubmitted | HeFillUpdated | HeCancelRemaining | HeCompensate | HeRollback | HeKillSwitch | HeFaulted

record hedge_order =
  ho_clientOrderId :: string
  ho_symbol :: string
  ho_side :: string
  ho_quantity :: jsnum

record hedge_receipt =
  hr_clientOrderId :: string
  hr_accepted :: bool
  hr_exchangeOrderId :: "string option"
  hr_error :: "string option"

record hedge_fill =
  hf_filledQuantity :: jsnum
  hf_averagePrice :: jsnum
  hf_remainingQuantity :: jsnum
  hf_updatedAt :: jsnum

record hedge_event =
  hv_type :: hedge_event_type
  hv_at :: jsnum
  hv_reason :: string

record hedge_plan =
  hp_id :: string
  hp_mode :: string
  hp_spotOrder :: hedge_order
  hp_perpetualOrder :: hedge_order
  hp_contractMultiplier :: jsnum
  hp_deltaTolerance :: jsnum
  hp_createdAt :: jsnum

record hedge_coordinator =
  hc_plan :: hedge_plan
  hc_status :: hedge_status
  hc_spotFill :: hedge_fill
  hc_perpetualFill :: hedge_fill
  hc_actualDelta :: jsnum
  hc_audit :: "hedge_event list"

record hedge_recovery =
  hy_now :: jsnum
  hy_cancellationSucceeded :: bool
  hy_compensationSucceeded :: bool
  hy_rollbackSucceeded :: bool

section \<open>Checks\<close>

definition HEDGE_EPSILON :: jsnum where
  "HEDGE_EPSILON = Fin (1 / 2 ^ 52)"

definition check_number :: "jsnum \<Rightarrow> string \<Rightarrow> jsnum \<Rightarrow> unit result" where
  "check_number value field minimum = guard_r (\<not> is_finite value \<or> value < minimum) (Error (field @ '' is invalid'')) (Inr ())"

definition check_time :: "jsnum \<Rightarrow> string \<Rightarrow> unit result" where
  "check_time value field = guard_r (\<not> is_safe_integer value \<or> value < Fin 0) (Error (field @ '' is invalid'')) (Inr ())"

definition check_text :: "string \<Rightarrow> string \<Rightarrow> string result" where
  "check_text value field = guard_r (js_trim value = []) (Error (field @ '' is required'')) (Inr (js_trim value))"

definition hedge_round8 :: "jsnum \<Rightarrow> jsnum" where
  "hedge_round8 v = js_round (v * Fin 100000000) div Fin 100000000"

definition emptyFill :: "jsnum \<Rightarrow> hedge_fill" where
  "emptyFill time = \<lparr>hf_filledQuantity = Fin 0, hf_averagePrice = Fin 0, hf_remainingQuantity = Fin 0, hf_updatedAt = time\<rparr>"

definition hedge_audit_event :: "hedge_event_type \<Rightarrow> jsnum \<Rightarrow> string \<Rightarrow> hedge_event" where
  "hedge_audit_event k time reason = \<lparr>hv_type = k, hv_at = time, hv_reason = reason\<rparr>"

definition check_order :: "hedge_order \<Rightarrow> unit result" where
  "check_order x =
     bind_r (check_text (ho_clientOrderId x) ''order.clientOrderId'') (\<lambda>_.
     bind_r (check_text (ho_symbol x) ''order.symbol'') (\<lambda>_.
     check_number (ho_quantity x) ''order.quantity'' HEDGE_EPSILON))"

section \<open>Operations\<close>

definition planAtomicHedge :: "hedge_plan \<Rightarrow> hedge_coordinator result" where
  "planAtomicHedge p =
     bind_r (check_text (hp_id p) ''plan.id'') (\<lambda>i.
     guard_r (hp_mode p \<noteq> ''PAPER'' \<and> hp_mode p \<noteq> ''DRY_RUN'') (Error ''only PAPER or DRY_RUN hedge plans are allowed'')
     (bind_r (check_time (hp_createdAt p) ''plan.createdAt'') (\<lambda>_.
      bind_r (check_number (hp_contractMultiplier p) ''plan.contractMultiplier'' HEDGE_EPSILON) (\<lambda>_.
      bind_r (check_number (hp_deltaTolerance p) ''plan.deltaTolerance'' (Fin 0)) (\<lambda>_.
      bind_r (check_order (hp_spotOrder p)) (\<lambda>_.
      bind_r (check_order (hp_perpetualOrder p)) (\<lambda>_.
      guard_r (ho_clientOrderId (hp_spotOrder p) = ho_clientOrderId (hp_perpetualOrder p))
        (Error ''hedge legs require different clientOrderIds'')
      (Inr \<lparr>hc_plan = p\<lparr>hp_id := i\<rparr>, hc_status = HsPlanned, hc_spotFill = emptyFill (hp_createdAt p),
          hc_perpetualFill = emptyFill (hp_createdAt p), hc_actualDelta = Fin 0,
          hc_audit = [hedge_audit_event HePlanned (hp_createdAt p) ''PAPER_OR_DRY_RUN_ONLY'']\<rparr>))))))))"

text \<open>A settled submission: the receipt, or the reason of the rejection, the message if it is an \<open>Error\<close>.\<close>

type_synonym settled_submission = "string option + hedge_receipt"

definition failedReceipt :: "hedge_order \<Rightarrow> string option \<Rightarrow> hedge_receipt" where
  "failedReceipt x reason =
     \<lparr>hr_clientOrderId = ho_clientOrderId x, hr_accepted = False, hr_exchangeOrderId = None,
      hr_error = Some (case reason of Some m \<Rightarrow> m | None \<Rightarrow> ''UNKNOWN_SUBMISSION_ERROR'')\<rparr>"

definition settled_receipt :: "hedge_order \<Rightarrow> settled_submission \<Rightarrow> hedge_receipt" where
  "settled_receipt x r = (case r of Inl reason \<Rightarrow> failedReceipt x reason | Inr receipt \<Rightarrow> receipt)"

text \<open>The adapter: what \<open>submit\<close> of an order settles with, and the state it leaves.\<close>

type_synonym 'x hedge_adapter = "hedge_order \<Rightarrow> 'x \<Rightarrow> settled_submission \<times> 'x"

definition submission_outcome ::
  "hedge_coordinator \<Rightarrow> hedge_receipt \<Rightarrow> hedge_receipt \<Rightarrow> jsnum \<Rightarrow> hedge_coordinator \<times> hedge_receipt list" where
  "submission_outcome s spot perpetual now =
     (let accepted = hr_accepted spot \<and> hr_accepted perpetual;
          one = (hr_accepted spot \<noteq> hr_accepted perpetual);
          audit = hc_audit s @ [hedge_audit_event HeSubmitted now
            (if accepted then ''ORDER_ACCEPTANCE_CONFIRMED_AWAITING_FILLS'' else if one then ''PARTIAL_ORDER_ACCEPTANCE''
             else ''ORDER_ACCEPTANCE_FAILED'')];
          failed = (if accepted then [] else
            (if one then [hedge_audit_event HeKillSwitch now ''ONE_HEDGE_LEG_ACCEPTED_OTHER_LEG_FAILED''] else []) @
            [hedge_audit_event HeFaulted now (if one then ''PARTIAL_SUBMISSION_REQUIRES_CANCELLATION_OR_ROLLBACK'' else ''ORDER_ACCEPTANCE_FAILED'')])
      in (s\<lparr>hc_status := (if accepted then HsSubmitting else HsFaulted), hc_audit := audit @ failed\<rparr>, [spot, perpetual]))"

definition submitAtomicHedge ::
  "'x hedge_adapter \<Rightarrow> hedge_coordinator \<Rightarrow> jsnum \<Rightarrow> 'x \<Rightarrow> (hedge_coordinator \<times> hedge_receipt list) result \<times> 'x" where
  "submitAtomicHedge adapter s now x =
     (case check_time now ''now'' of
        Inl e \<Rightarrow> (Inl e, x)
      | Inr _ \<Rightarrow>
        if hc_status s \<noteq> HsPlanned then (Inl (Error ''only planned hedges can be submitted''), x)
        else case adapter (hp_spotOrder (hc_plan s)) x of (spotAnswer, x1) \<Rightarrow>
          (case adapter (hp_perpetualOrder (hc_plan s)) x1 of (perpetualAnswer, x2) \<Rightarrow>
            (Inr (submission_outcome s (settled_receipt (hp_spotOrder (hc_plan s)) spotAnswer)
                (settled_receipt (hp_perpetualOrder (hc_plan s)) perpetualAnswer) now), x2)))"

definition validateFill :: "hedge_fill \<Rightarrow> jsnum \<Rightarrow> hedge_fill result" where
  "validateFill f now =
     bind_r (check_number (hf_filledQuantity f) ''filledQuantity'' (Fin 0)) (\<lambda>_.
     bind_r (check_number (hf_averagePrice f) ''averagePrice'' (Fin 0)) (\<lambda>_.
     bind_r (check_number (hf_remainingQuantity f) ''remainingQuantity'' (Fin 0)) (\<lambda>_.
     bind_r (check_time (hf_updatedAt f) ''updatedAt'') (\<lambda>_.
     guard_r (now < hf_updatedAt f \<or> Fin 0 < hf_filledQuantity f \<and> hf_averagePrice f \<le> Fin 0) (Error ''fill is invalid'') (Inr f)))))"

definition hedge_delta :: "hedge_plan \<Rightarrow> hedge_fill \<Rightarrow> hedge_fill \<Rightarrow> jsnum" where
  "hedge_delta p spot perpetual = hedge_round8 (hf_filledQuantity spot - hf_filledQuantity perpetual * hp_contractMultiplier p)"

definition fullyFilled :: "hedge_plan \<Rightarrow> hedge_fill \<Rightarrow> hedge_fill \<Rightarrow> bool" where
  "fullyFilled p spot perpetual \<longleftrightarrow>
     js_eq (hf_remainingQuantity spot) (Fin 0) \<and> js_eq (hf_remainingQuantity perpetual) (Fin 0) \<and>
     ho_quantity (hp_spotOrder p) \<le> hf_filledQuantity spot \<and> ho_quantity (hp_perpetualOrder p) \<le> hf_filledQuantity perpetual"

definition applyHedgeFills :: "hedge_coordinator \<Rightarrow> hedge_fill \<Rightarrow> hedge_fill \<Rightarrow> jsnum \<Rightarrow> hedge_coordinator result" where
  "applyHedgeFills s spotFill perpetualFill now =
     bind_r (check_time now ''now'') (\<lambda>_.
     guard_r (hc_status s \<noteq> HsSubmitting \<and> hc_status s \<noteq> HsPartiallyHedged \<and> hc_status s \<noteq> HsRebalancing)
       (Error ''fills are not accepted in the current hedge state'')
     (bind_r (validateFill spotFill now) (\<lambda>spot.
      bind_r (validateFill perpetualFill now) (\<lambda>perpetual.
      let delta = hedge_delta (hc_plan s) spot perpetual;
          status = (if fullyFilled (hc_plan s) spot perpetual \<and> js_abs delta \<le> hp_deltaTolerance (hc_plan s) then HsHedged
            else HsPartiallyHedged)
      in Inr (s\<lparr>hc_status := status, hc_spotFill := spot, hc_perpetualFill := perpetual, hc_actualDelta := delta,
           hc_audit := hc_audit s @ [hedge_audit_event HeFillUpdated now
             (if status = HsHedged then ''ACTUAL_FILLS_DELTA_NEUTRAL'' else ''ACTUAL_FILLS_REQUIRE_RECOVERY'')]\<rparr>)))))"

definition recoverPartialHedge :: "hedge_coordinator \<Rightarrow> hedge_recovery \<Rightarrow> hedge_coordinator result" where
  "recoverPartialHedge s y =
     bind_r (check_time (hy_now y) ''recovery.now'') (\<lambda>_.
     guard_r (hc_status s \<noteq> HsPartiallyHedged) (Error ''only partially hedged state can recover'')
     (let now = hy_now y;
          cancelled = hc_audit s @ [hedge_audit_event HeCancelRemaining now
            (if hy_cancellationSucceeded y then ''REMAINING_ORDERS_CANCELLED'' else ''CANCELLATION_FAILED'')]
      in if hy_cancellationSucceeded y \<and> hy_compensationSucceeded y
         then Inr (s\<lparr>hc_status := HsRebalancing, hc_audit := cancelled @ [hedge_audit_event HeCompensate now ''COMPENSATION_ORDER_FILLED'']\<rparr>)
         else let rolled = cancelled @ [hedge_audit_event HeRollback now
                (if hy_rollbackSucceeded y then ''FILLED_LEG_REDUCED'' else ''ROLLBACK_FAILED'')]
           in if hy_rollbackSucceeded y then Inr (s\<lparr>hc_status := HsExiting, hc_audit := rolled\<rparr>)
              else Inr (s\<lparr>hc_status := HsFaulted, hc_audit := rolled @
                [hedge_audit_event HeKillSwitch now ''UNHEDGED_EXPOSURE_UNRESOLVED'', hedge_audit_event HeFaulted now ''RECOVERY_FAILED'']\<rparr>)))"

section \<open>Runs\<close>

text \<open>An adapter that also records the orders it is sent.\<close>

definition recorded :: "'x hedge_adapter \<Rightarrow> (hedge_order list \<times> 'x) hedge_adapter" where
  "recorded adapter = (\<lambda>q (log, x). case adapter q x of (r, x2) \<Rightarrow> (r, (log @ [q], x2)))"

text \<open>The coordinator keeps nothing: its callers hold the states it returned.  A run collects all of them and may, when
  \<open>reuse\<close> holds, go on from any of them, also from one that was used before; otherwise each call takes the newest.  A
  refused call returns no state.\<close>

inductive hedge_run :: "'x hedge_adapter \<Rightarrow> bool \<Rightarrow> hedge_plan \<Rightarrow> hedge_coordinator list \<Rightarrow> hedge_order list \<times> 'x \<Rightarrow> bool"
  for adapter reuse p where
  run_planned: "planAtomicHedge p = Inr s \<Longrightarrow> hedge_run adapter reuse p [s] ([], x)"
| run_submitted: "hedge_run adapter reuse p S x \<Longrightarrow> s \<in> set S \<Longrightarrow> reuse \<or> s = last S \<Longrightarrow>
    submitAtomicHedge (recorded adapter) s now x = (Inr (t, receipts), x') \<Longrightarrow> hedge_run adapter reuse p (S @ [t]) x'"
| run_refused: "hedge_run adapter reuse p S x \<Longrightarrow> s \<in> set S \<Longrightarrow>
    submitAtomicHedge (recorded adapter) s now x = (Inl e, x') \<Longrightarrow> hedge_run adapter reuse p S x'"
| run_filled: "hedge_run adapter reuse p S x \<Longrightarrow> s \<in> set S \<Longrightarrow> reuse \<or> s = last S \<Longrightarrow>
    applyHedgeFills s f g now = Inr t \<Longrightarrow> hedge_run adapter reuse p (S @ [t]) x"
| run_recovered: "hedge_run adapter reuse p S x \<Longrightarrow> s \<in> set S \<Longrightarrow> reuse \<or> s = last S \<Longrightarrow>
    recoverPartialHedge s y = Inr t \<Longrightarrow> hedge_run adapter reuse p (S @ [t]) x"

definition legs :: "hedge_plan \<Rightarrow> hedge_order list" where
  "legs p = [hp_spotOrder p, hp_perpetualOrder p]"

definition has_event :: "hedge_event_type \<Rightarrow> hedge_coordinator \<Rightarrow> bool" where
  "has_event k s \<longleftrightarrow> k \<in> hv_type ` set (hc_audit s)"

definition submissions :: "hedge_coordinator \<Rightarrow> nat" where
  "submissions s = length (filter (\<lambda>v. hv_type v = HeSubmitted) (hc_audit s))"

text \<open>A state that a submission returned: it left \<open>PLANNED\<close>, and no fill was recorded yet.\<close>

definition just_submitted :: "hedge_coordinator \<Rightarrow> bool" where
  "just_submitted s \<longleftrightarrow> hc_status s \<noteq> HsPlanned \<and> \<not> has_event HeFillUpdated s"

definition hedge_ok :: "hedge_plan \<Rightarrow> hedge_coordinator \<Rightarrow> bool" where
  "hedge_ok p s \<longleftrightarrow>
     hc_plan s = p\<lparr>hp_id := js_trim (hp_id p)\<rparr> \<and> (hp_mode p = ''PAPER'' \<or> hp_mode p = ''DRY_RUN'') \<and> hc_status s \<noteq> HsClosed \<and>
     submissions s = (if hc_status s = HsPlanned then 0 else 1) \<and>
     (hc_status s = HsHedged \<longrightarrow> fullyFilled p (hc_spotFill s) (hc_perpetualFill s) \<and>
       js_abs (hedge_delta p (hc_spotFill s) (hc_perpetualFill s)) \<le> hp_deltaTolerance p) \<and>
     (hc_status s = HsFaulted \<longrightarrow> has_event HeFaulted s \<and> (has_event HeFillUpdated s \<longrightarrow> has_event HeKillSwitch s)) \<and>
     (hc_status s = HsPartiallyHedged \<longrightarrow> has_event HeFillUpdated s) \<and> (hc_status s = HsPlanned \<longrightarrow> \<not> has_event HeKillSwitch s)"

lemma hedge_plan_simps [simp]:
  "fullyFilled (p\<lparr>hp_id := i\<rparr>) f g = fullyFilled p f g" "hedge_delta (p\<lparr>hp_id := i\<rparr>) f g = hedge_delta p f g"
  "legs (p\<lparr>hp_id := i\<rparr>) = legs p"
  by (simp_all add: fullyFilled_def hedge_delta_def legs_def)

lemma hedge_event_type [simp]: "hv_type (hedge_audit_event k time reason) = k" "hv_reason (hedge_audit_event k time reason) = reason"
  by (simp_all add: hedge_audit_event_def)

lemmas hedge_event_simps = submissions_def has_event_def just_submitted_def

text \<open>A call sends both legs exactly when it is accepted.\<close>

lemma submit_accepted:
  assumes "submitAtomicHedge (recorded adapter) s now x = (Inr (t, rs), x')"
  obtains spot perpetual where "rs = [spot, perpetual]" "(t, rs) = submission_outcome s spot perpetual now"
    "fst x' = fst x @ legs (hc_plan s)" "hc_status s = HsPlanned" "check_time now ''now'' = Inr ()"
proof -
  obtain log y where x: "x = (log, y)" by force
  obtain a y1 where a: "adapter (hp_spotOrder (hc_plan s)) y = (a, y1)" by force
  obtain b y2 where b: "adapter (hp_perpetualOrder (hc_plan s)) y1 = (b, y2)" by force
  have "check_time now ''now'' = Inr () \<and> hc_status s = HsPlanned"
    using assms by (auto simp: submitAtomicHedge_def split: sum.splits if_splits)
  moreover from this have "submission_outcome s (settled_receipt (hp_spotOrder (hc_plan s)) a)
      (settled_receipt (hp_perpetualOrder (hc_plan s)) b) now = (t, rs)" "x' = ((log @ [hp_spotOrder (hc_plan s)]) @ [hp_perpetualOrder (hc_plan s)], y2)"
    using assms a b by (simp_all add: submitAtomicHedge_def recorded_def x)
  ultimately show thesis using that by (auto simp: submission_outcome_def Let_def legs_def x)
qed

lemma submit_refused:
  assumes "submitAtomicHedge adapter s now x = (Inl e, x')"
  shows "x' = x \<and> (hc_status s \<noteq> HsPlanned \<or> \<not> is_safe_integer now \<or> now < Fin 0)"
  using assms by (auto simp: submitAtomicHedge_def check_time_def guard_r_def split: sum.splits if_splits prod.splits)

lemma submission_outcome_cases:
  assumes "(t, rs) = submission_outcome s spot perpetual now"
  shows "hc_plan t = hc_plan s \<and> hc_status t = (if hr_accepted spot \<and> hr_accepted perpetual then HsSubmitting else HsFaulted) \<and>
    submissions t = submissions s + 1 \<and> (has_event HeFillUpdated t \<longleftrightarrow> has_event HeFillUpdated s) \<and>
    (has_event HeKillSwitch t \<longleftrightarrow> has_event HeKillSwitch s \<or> hr_accepted spot \<noteq> hr_accepted perpetual) \<and>
    (hc_status t = HsFaulted \<longrightarrow> has_event HeFaulted t)"
  using assms by (cases "hr_accepted spot"; cases "hr_accepted perpetual") (auto simp: submission_outcome_def Let_def hedge_event_simps)

lemma validateFill_Inr: "validateFill f now = Inr g \<Longrightarrow> g = f"
  by (simp add: validateFill_def result_simps)

lemma fill_cases:
  assumes "applyHedgeFills s f g now = Inr t"
  shows "hc_plan t = hc_plan s \<and> hc_status s \<noteq> HsPlanned \<and> submissions t = submissions s \<and> hc_spotFill t = f \<and> hc_perpetualFill t = g \<and>
    has_event HeFillUpdated t \<and> hc_status t = (if fullyFilled (hc_plan s) f g \<and> js_abs (hedge_delta (hc_plan s) f g) \<le> hp_deltaTolerance (hc_plan s)
      then HsHedged else HsPartiallyHedged)"
  using assms by (auto simp: applyHedgeFills_def result_simps Let_def hedge_event_simps dest!: validateFill_Inr)

lemma recover_cases:
  assumes "recoverPartialHedge s y = Inr t"
  shows "hc_plan t = hc_plan s \<and> hc_status s = HsPartiallyHedged \<and> hc_status t \<in> {HsRebalancing, HsExiting, HsFaulted} \<and>
    submissions t = submissions s \<and> (has_event HeFillUpdated s \<longrightarrow> has_event HeFillUpdated t) \<and>
    (hc_status t = HsFaulted \<longrightarrow> has_event HeFaulted t \<and> has_event HeKillSwitch t)"
  using assms
  by (cases "hy_cancellationSucceeded y"; cases "hy_compensationSucceeded y"; cases "hy_rollbackSucceeded y")
    (auto simp: recoverPartialHedge_def Let_def result_simps hedge_event_simps)

lemma hedge_ok_planned: "planAtomicHedge p = Inr s \<Longrightarrow> hedge_ok p s \<and> \<not> just_submitted s \<and> hc_status s = HsPlanned"
  by (auto simp: planAtomicHedge_def result_simps check_text_def hedge_ok_def hedge_event_simps hedge_audit_event_def)

lemma hedge_ok_submit:
  assumes "hedge_ok p s" "submitAtomicHedge (recorded adapter) s now x = (Inr (t, rs), x')" "\<not> has_event HeFillUpdated s"
  shows "hedge_ok p t \<and> just_submitted t \<and> hc_status t \<noteq> HsPlanned \<and> hc_status s = HsPlanned \<and> fst x' = fst x @ legs p"
proof -
  from assms(2) obtain spot perpetual where o: "(t, rs) = submission_outcome s spot perpetual now"
    and s: "fst x' = fst x @ legs (hc_plan s)" "hc_status s = HsPlanned" by (rule submit_accepted)
  show ?thesis using submission_outcome_cases [OF o] s assms(1,3) by (auto simp: hedge_ok_def just_submitted_def)
qed

lemma hedge_ok_fill:
  assumes "hedge_ok p s" "applyHedgeFills s f g now = Inr t"
  shows "hedge_ok p t \<and> \<not> just_submitted t \<and> hc_status t \<noteq> HsPlanned \<and> hc_status s \<noteq> HsPlanned"
  using fill_cases [OF assms(2)] assms(1) by (simp add: hedge_ok_def just_submitted_def)

lemma hedge_ok_recover:
  assumes "hedge_ok p s" "recoverPartialHedge s y = Inr t"
  shows "hedge_ok p t \<and> \<not> just_submitted t \<and> hc_status t \<noteq> HsPlanned \<and> hc_status s \<noteq> HsPlanned"
  using recover_cases [OF assms(2)] assms(1) by (auto simp: hedge_ok_def just_submitted_def)

text \<open>The orders sent are the two legs, once for each state that a submission returned.\<close>

definition run_ok :: "bool \<Rightarrow> hedge_plan \<Rightarrow> hedge_coordinator list \<Rightarrow> hedge_order list \<Rightarrow> bool" where
  "run_ok reuse p S sent_orders \<longleftrightarrow>
     S \<noteq> [] \<and> (\<forall>s\<in>set S. hedge_ok p s \<and> (hc_status s = HsPlanned \<longrightarrow> \<not> has_event HeFillUpdated s)) \<and>
     sent_orders = concat (replicate (length (filter just_submitted S)) (legs p)) \<and>
     (\<not> reuse \<longrightarrow> sent_orders = (if hc_status (last S) = HsPlanned then [] else legs p))"

lemma concat_replicate_snoc: "concat (replicate (Suc n) xs) = concat (replicate n xs) @ xs"
  by (induction n) simp_all

lemma run_ok_submit:
  assumes "run_ok reuse p S (fst x)" "s \<in> set S" "reuse \<or> s = last S"
    "submitAtomicHedge (recorded adapter) s now x = (Inr (t, rs), x')"
  shows "run_ok reuse p (S @ [t]) (fst x')"
proof -
  obtain spot perpetual where pl: "hc_status s = HsPlanned" using assms(4) by (rule submit_accepted)
  then have s: "hedge_ok p s" "\<not> has_event HeFillUpdated s" using assms(1,2) by (auto simp: run_ok_def)
  note h = hedge_ok_submit [OF s(1) assms(4) s(2)]
  have "fst x' = concat (replicate (Suc (length (filter just_submitted S))) (legs p))"
    using h assms(1) unfolding concat_replicate_snoc by (simp add: run_ok_def)
  moreover have "fst x = []" if "\<not> reuse" using that assms(1,3) pl by (auto simp: run_ok_def)
  ultimately show ?thesis using h assms(1) by (auto simp: run_ok_def)
qed

lemma run_ok_other:
  assumes "run_ok reuse p S sent_orders" "s \<in> set S" "reuse \<or> s = last S"
    "hedge_ok p t \<and> \<not> just_submitted t \<and> hc_status t \<noteq> HsPlanned \<and> hc_status s \<noteq> HsPlanned"
  shows "run_ok reuse p (S @ [t]) sent_orders"
  using assms by (auto simp: run_ok_def)

lemma run_ok_member: "run_ok reuse p S sent_orders \<Longrightarrow> s \<in> set S \<Longrightarrow> hedge_ok p s"
  by (simp add: run_ok_def)

lemma hedge_run_ok: "hedge_run adapter reuse p S x \<Longrightarrow> run_ok reuse p S (fst x)"
proof (induction rule: hedge_run.induct)
  case (run_planned s x)
  then show ?case using hedge_ok_planned [OF run_planned]
    by (auto simp: run_ok_def just_submitted_def planAtomicHedge_def result_simps has_event_def hedge_audit_event_def)
next
  case (run_submitted S x s now t receipts x')
  from run_ok_submit [OF run_submitted.IH run_submitted.hyps(2-4)] show ?case .
next
  case (run_refused S x s now e x')
  have "x' = x" using submit_refused [OF run_refused.hyps(3)] by simp
  then show ?case using run_refused.IH by simp
next
  case (run_filled S x s f g now t)
  from run_ok_other [OF run_filled.IH run_filled.hyps(2,3) hedge_ok_fill [OF run_ok_member [OF run_filled.IH run_filled.hyps(2)] run_filled.hyps(4)]]
  show ?case .
next
  case (run_recovered S x s y t)
  from run_ok_other [OF run_recovered.IH run_recovered.hyps(2,3) hedge_ok_recover [OF run_ok_member [OF run_recovered.IH run_recovered.hyps(2)] run_recovered.hyps(4)]]
  show ?case .
qed

lemma hedge_terminal:
  assumes "hc_status s \<in> {HsHedged, HsExiting, HsFaulted}"
  shows "fst (submitAtomicHedge adapter s now x) \<noteq> Inr u" "applyHedgeFills s f g now \<noteq> Inr t" "recoverPartialHedge s y \<noteq> Inr t"
  using assms unfolding submitAtomicHedge_def applyHedgeFills_def recoverPartialHedge_def bind_r_Inr_iff guard_r_Inr_iff
  by (auto split: sum.splits)

text \<open>What one submission does, whatever world \<open>y\<close> it is made in.\<close>

definition submission_sound :: "'x hedge_adapter \<Rightarrow> hedge_plan \<Rightarrow> hedge_coordinator \<Rightarrow> jsnum \<Rightarrow> hedge_order list \<times> 'x \<Rightarrow> bool" where
  "submission_sound adapter p s now y \<longleftrightarrow>
     (case submitAtomicHedge (recorded adapter) s now y of
        (Inl e, y') \<Rightarrow> y' = y \<and> (hc_status s \<noteq> HsPlanned \<or> \<not> is_safe_integer now \<or> now < Fin 0)
      | (Inr (t, receipts), y') \<Rightarrow>
          hc_status s = HsPlanned \<and> is_safe_integer now \<and> \<not> now < Fin 0 \<and> fst y' = fst y @ legs p \<and> length receipts = 2 \<and>
          hc_status t = (if \<forall>r\<in>set receipts. hr_accepted r then HsSubmitting else HsFaulted) \<and>
          (has_event HeKillSwitch t \<longleftrightarrow> length (filter hr_accepted receipts) = 1))"

lemma hedge_ok_sound:
  assumes "hedge_ok p s"
  shows "submission_sound adapter p s now y"
proof -
  obtain r y' where res: "submitAtomicHedge (recorded adapter) s now y = (r, y')" by (rule prod.exhaust)
  show ?thesis
  proof (cases r)
    case (Inl e)
    then show ?thesis using submit_refused [of "recorded adapter" s now y e y'] res by (simp add: submission_sound_def)
  next
    case (Inr u)
    obtain t rs where u: "u = (t, rs)" by force
    have sub: "submitAtomicHedge (recorded adapter) s now y = (Inr (t, rs), y')" using res Inr u by simp
    obtain spot perpetual where o: "rs = [spot, perpetual]" "(t, rs) = submission_outcome s spot perpetual now"
      and f: "fst y' = fst y @ legs (hc_plan s)" "hc_status s = HsPlanned" "check_time now ''now'' = Inr ()"
      using submit_accepted [OF sub] by blast
    have n: "\<not> has_event HeKillSwitch s" "hc_plan s = p\<lparr>hp_id := js_trim (hp_id p)\<rparr>" using assms f by (auto simp: hedge_ok_def)
    show ?thesis using submission_outcome_cases [OF o(2)] f n unfolding submission_sound_def sub
      by (simp add: o(1) check_time_def guard_r_Inr_iff)
  qed
qed

text \<open>C37: In every run of a hedge, also one that goes on from states that were used before, each state keeps the plan, its audit records at
  most one submission, it is called hedged only when both legs are fully filled and the net quantity is within the tolerance, and a
  state that is faulted after a fill was recorded recommends the kill switch.  A submission sends the spot and then the perpetual order
  exactly when its state is \<open>PLANNED\<close> and its time is valid, and a refused one sends nothing; the orders sent are the two legs once for
  each state that a submission returned, so at most once in all for a caller that goes on from the newest state only (the same
  \<open>PLANNED\<close> state can be submitted twice).  The submission faults unless both receipts are accepting, and it recommends the kill
  switch exactly when one of the two is: after two failed submissions, also when both promises were rejected and their outcome is
  unknown, none is recommended.  A hedge that is hedged, exiting or faulted accepts nothing further.\<close>

theorem hedge_run_safe:
  assumes "hedge_run adapter reuse p S x"
  shows "fst x = concat (replicate (length (filter just_submitted S)) (legs p)) \<and>
    (\<not> reuse \<longrightarrow> fst x = (if hc_status (last S) = HsPlanned then [] else legs p)) \<and>
    (\<forall>s\<in>set S. hedge_ok p s \<and> (\<forall>now y. submission_sound adapter p s now y) \<and>
      (hc_status s \<in> {HsHedged, HsExiting, HsFaulted} \<longrightarrow>
        (\<forall>f g y now z u t. fst (submitAtomicHedge (recorded adapter) s now z) \<noteq> Inr u \<and> applyHedgeFills s f g now \<noteq> Inr t \<and>
          recoverPartialHedge s y \<noteq> Inr t)))"
proof -
  have ok: "run_ok reuse p S (fst x)" using assms by (rule hedge_run_ok)
  have each: "hedge_ok p s \<and> (\<forall>now y. submission_sound adapter p s now y)" if "s \<in> set S" for s
    using run_ok_member [OF ok that] hedge_ok_sound by blast
  have log_is: "fst x = concat (replicate (length (filter just_submitted S)) (legs p))"
    "\<not> reuse \<longrightarrow> fst x = (if hc_status (last S) = HsPlanned then [] else legs p)"
    using ok unfolding run_ok_def by blast+
  show ?thesis
    by (intro conjI ballI impI allI log_is [rule_format] each [THEN conjunct1] each [THEN conjunct2, rule_format] hedge_terminal)
qed

text \<open>One accepted leg faults the hedge at once, and neither a fill nor a recovery is accepted any more: the position of that leg cannot
  be reduced through the coordinator.\<close>

lemma partial_submission_is_stuck:
  assumes "submitAtomicHedge adapter s now x = (Inr (t, [spot, perpetual]), x')" "hr_accepted spot" "\<not> hr_accepted perpetual"
  shows "hc_status t = HsFaulted \<and> recoverPartialHedge t y \<noteq> Inr u \<and> applyHedgeFills t f g now' \<noteq> Inr u"
proof -
  have "hc_status t = HsFaulted"
    using assms by (auto simp: submitAtomicHedge_def submission_outcome_def Let_def split: sum.splits if_splits prod.splits)
  then show ?thesis using hedge_terminal [of t] by simp
qed

text \<open>Two submissions of one \<open>PLANNED\<close> state send the orders twice.\<close>

lemma planned_state_sends_again:
  assumes "hc_status s = HsPlanned" "check_time now ''now'' = Inr ()"
  shows "fst (snd (submitAtomicHedge (recorded adapter) s now (snd (submitAtomicHedge (recorded adapter) s now x)))) =
    fst x @ legs (hc_plan s) @ legs (hc_plan s)"
proof -
  have "\<exists>u x'. submitAtomicHedge (recorded adapter) s now z = (Inr u, x')" for z
    using assms by (simp add: submitAtomicHedge_def split: prod.split)
  then have "fst (snd (submitAtomicHedge (recorded adapter) s now z)) = fst z @ legs (hc_plan s)" for z
    by (metis fst_conv old.prod.exhaust snd_conv submit_accepted)
  then show ?thesis by simp
qed

definition demo_plan :: hedge_plan where
  "demo_plan =
     \<lparr>hp_id = '' h1 '', hp_mode = ''PAPER'',
      hp_spotOrder = \<lparr>ho_clientOrderId = ''s'', ho_symbol = ''BTC'', ho_side = ''BUY'', ho_quantity = Fin 2\<rparr>,
      hp_perpetualOrder = \<lparr>ho_clientOrderId = ''p'', ho_symbol = ''BTCUSDT'', ho_side = ''SELL'', ho_quantity = Fin 2\<rparr>,
      hp_contractMultiplier = Fin 1, hp_deltaTolerance = Fin 0, hp_createdAt = Fin 5\<rparr>"

definition demo_receipt :: "string \<Rightarrow> settled_submission" where
  "demo_receipt i = Inr \<lparr>hr_clientOrderId = i, hr_accepted = True, hr_exchangeOrderId = None, hr_error = None\<rparr>"

definition demo_hedge_fill :: hedge_fill where
  "demo_hedge_fill = \<lparr>hf_filledQuantity = Fin 2, hf_averagePrice = Fin 10, hf_remainingQuantity = Fin 0, hf_updatedAt = Fin 6\<rparr>"

definition demo_planned :: hedge_coordinator where
  "demo_planned =
     \<lparr>hc_plan = demo_plan\<lparr>hp_id := ''h1''\<rparr>, hc_status = HsPlanned, hc_spotFill = emptyFill (Fin 5), hc_perpetualFill = emptyFill (Fin 5),
      hc_actualDelta = Fin 0, hc_audit = [hedge_audit_event HePlanned (Fin 5) ''PAPER_OR_DRY_RUN_ONLY'']\<rparr>"

definition demo_submitted :: hedge_coordinator where
  "demo_submitted = demo_planned\<lparr>hc_status := HsSubmitting, hc_audit := hc_audit demo_planned @
     [hedge_audit_event HeSubmitted (Fin 6) ''ORDER_ACCEPTANCE_CONFIRMED_AWAITING_FILLS'']\<rparr>"

text \<open>An exchange that accepts everything.\<close>

definition demo_adapter :: "unit hedge_adapter" where
  "demo_adapter = (\<lambda>q x. (demo_receipt (ho_clientOrderId q), x))"

text \<open>Both legs are accepted and filled.\<close>

theorem hedge_run_safe_witness:
  "\<exists>s. applyHedgeFills demo_submitted demo_hedge_fill demo_hedge_fill (Fin 7) = Inr s \<and> hc_status s = HsHedged \<and> hedge_ok demo_plan s"
proof -
  have p: "planAtomicHedge demo_plan = Inr demo_planned" by code_simp
  have r: "submitAtomicHedge (recorded demo_adapter) demo_planned (Fin 6) ([], ()) =
      (Inr (demo_submitted, map projr [demo_receipt ''s'', demo_receipt ''p'']), (legs demo_plan, ()))"
    by code_simp
  have v: "check_time (Fin 7) ''now'' = Inr ()" "validateFill demo_hedge_fill (Fin 7) = Inr demo_hedge_fill"
    "hc_status demo_submitted = HsSubmitting" "fullyFilled (hc_plan demo_submitted) demo_hedge_fill demo_hedge_fill"
    "js_abs (hedge_delta (hc_plan demo_submitted) demo_hedge_fill demo_hedge_fill) \<le> hp_deltaTolerance (hc_plan demo_submitted)"
    by code_simp+
  obtain s where s: "applyHedgeFills demo_submitted demo_hedge_fill demo_hedge_fill (Fin 7) = Inr s" "hc_status s = HsHedged"
    using v by (simp add: applyHedgeFills_def Let_def result_simps)
  have "hedge_run demo_adapter False demo_plan ([demo_planned] @ [demo_submitted]) (legs demo_plan, ())"
    by (rule run_submitted [OF run_planned [OF p] _ _ r]) simp_all
  then have "hedge_run demo_adapter False demo_plan (([demo_planned] @ [demo_submitted]) @ [s]) (legs demo_plan, ())"
    by (rule run_filled [OF _ _ _ s(1)]) simp_all
  from hedge_run_safe [OF this] s show ?thesis by simp
qed

end
