(* ===== verification/UserAccess.thy ===== *)
theory UserAccess imports Prelude begin

text \<open>
  \<open>apps/cloud/src/operatorUserAccess.ts\<close>: the registry of the users of the cloud service with their roles and
  states, as its in-memory repository keeps it, and the trail of status changes.  The random ids of the trail
  are an argument.  Invariant: an owner is always active, ids and e-mail addresses are unique, and a user who
  is active was let in by an active owner.
\<close>

section \<open>Records\<close>

datatype user_role = UrOwner | UrUser
datatype user_status = UsPending | UsActive | UsRejected | UsSuspended
datatype access_action = AaApprove | AaReject | AaSuspend | AaRestore

record user_record =
  ur_id :: string
  ur_email :: string
  ur_displayName :: "string option"
  ur_role :: user_role
  ur_status :: user_status
  ur_createdAt :: jsnum
  ur_updatedAt :: jsnum
  ur_lastLoginAt :: "jsnum option"
  ur_lastSeenAt :: "jsnum option"

record access_audit =
  ax_id :: string
  ax_actorUserId :: string
  ax_targetUserId :: string
  ax_action :: access_action
  ax_previousStatus :: user_status
  ax_newStatus :: user_status
  ax_reason :: "string option"
  ax_createdAt :: jsnum

record user_identity =
  ui_id :: string
  ui_email :: string
  ui_displayName :: "string option"

record user_repository =
  us_users :: "(string \<times> user_record) list"
  us_audit :: "access_audit list"

section \<open>Checks\<close>

text \<open>\<open>toLowerCase\<close> on code units below 256.\<close>

definition lower_char :: "char \<Rightarrow> char" where
  "lower_char c =
     (let n = of_char c :: nat
      in if 65 \<le> n \<and> n \<le> 90 \<or> 192 \<le> n \<and> n \<le> 222 \<and> n \<noteq> 215 then char_of (n + 32) else c)"

definition normalizeEmail :: "string \<Rightarrow> string" where
  "normalizeEmail v = map lower_char (js_trim v)"

definition nonempty :: "string \<Rightarrow> string option" where
  "nonempty s = (if s = [] then None else Some s)"

definition cleanName :: "string option \<Rightarrow> string option" where
  "cleanName v = (case v of None \<Rightarrow> None | Some s \<Rightarrow> nonempty (js_trim s))"

definition validateIdentity :: "string \<Rightarrow> string \<Rightarrow> unit result" where
  "validateIdentity i email =
     guard_r (js_trim i = []) (Error ''user id is required'')
     (guard_r (normalizeEmail email = [] \<or> CHR ''@'' \<notin> set (normalizeEmail email)) (Error ''valid email is required'') (Inr ()))"

definition nextStatus :: "user_status \<Rightarrow> access_action \<Rightarrow> user_status result" where
  "nextStatus current action =
     (if current = UsPending \<and> action = AaApprove then Inr UsActive
      else if current = UsPending \<and> action = AaReject then Inr UsRejected
      else if current = UsActive \<and> action = AaSuspend then Inr UsSuspended
      else if (current = UsRejected \<or> current = UsSuspended) \<and> action = AaRestore then Inr UsActive
      else throw ''invalid user status transition'')"

definition assertActor :: "user_record option \<Rightarrow> user_record result" where
  "assertActor actor =
     (case actor of Some u \<Rightarrow> guard_r (ur_role u \<noteq> UrOwner \<or> ur_status u \<noteq> UsActive) (Error ''operator authority required'') (Inr u)
      | None \<Rightarrow> throw ''operator authority required'')"

definition assertTarget :: "user_record option \<Rightarrow> user_record result" where
  "assertTarget target =
     (case target of None \<Rightarrow> throw ''target user not found''
      | Some u \<Rightarrow> guard_r (ur_role u = UrOwner) (Error ''owner access cannot be changed through user approval'') (Inr u))"

definition assertOwnerBootstrapSafe :: "user_record option \<Rightarrow> unit result" where
  "assertOwnerBootstrapSafe existing =
     (case existing of None \<Rightarrow> Inr ()
      | Some u \<Rightarrow> guard_r (ur_role u \<noteq> UrOwner \<or> ur_status u \<noteq> UsActive) (Error ''owner bootstrap identity collision'') (Inr ()))"

definition isUserAllowed :: "user_record option \<Rightarrow> bool" where
  "isUserAllowed u = (case u of None \<Rightarrow> False | Some r \<Rightarrow> ur_status r = UsActive)"

section \<open>The repository\<close>

definition user_get :: "user_repository \<Rightarrow> string \<Rightarrow> user_record option" where
  "user_get d i = map_of (us_users d) i"

definition user_put :: "user_record \<Rightarrow> user_repository \<Rightarrow> user_repository" where
  "user_put u d = d\<lparr>us_users := AList.update (ur_id u) u (us_users d)\<rparr>"

definition assertEmailAvailable :: "user_repository \<Rightarrow> string \<Rightarrow> string \<Rightarrow> unit result" where
  "assertEmailAvailable d i email =
     guard_r (list_ex (\<lambda>p. ur_id (snd p) \<noteq> i \<and> ur_email (snd p) = email) (us_users d)) (Error ''user identity collision'') (Inr ())"

definition enroll :: "(string \<Rightarrow> string \<Rightarrow> string option \<Rightarrow> user_record) \<Rightarrow> user_identity \<Rightarrow> user_repository \<Rightarrow> (user_record \<times> user_repository) result" where
  "enroll build identity d =
     (let i = js_trim (ui_id identity); email = normalizeEmail (ui_email identity)
      in case user_get d i of
           Some u \<Rightarrow> guard_r (ur_email u \<noteq> email) (Error ''user identity collision'') (Inr (u, d))
         | None \<Rightarrow> bind_r (assertEmailAvailable d i email) (\<lambda>_.
             let u = build i email (cleanName (ui_displayName identity)) in Inr (u, user_put u d)))"

definition ensureOwner :: "user_identity \<Rightarrow> jsnum \<Rightarrow> user_repository \<Rightarrow> (user_record \<times> user_repository) result" where
  "ensureOwner identity now d =
     bind_r (validateIdentity (ui_id identity) (ui_email identity)) (\<lambda>_.
     bind_r (assertOwnerBootstrapSafe (user_get d (js_trim (ui_id identity)))) (\<lambda>_.
     enroll (\<lambda>i email name. \<lparr>ur_id = i, ur_email = email, ur_displayName = name, ur_role = UrOwner, ur_status = UsActive,
        ur_createdAt = now, ur_updatedAt = now, ur_lastLoginAt = None, ur_lastSeenAt = Some now\<rparr>) identity d))"

definition registerUser :: "user_identity \<Rightarrow> jsnum \<Rightarrow> user_repository \<Rightarrow> (user_record \<times> user_repository) result" where
  "registerUser identity now d =
     bind_r (validateIdentity (ui_id identity) (ui_email identity)) (\<lambda>_.
     enroll (\<lambda>i email name. \<lparr>ur_id = i, ur_email = email, ur_displayName = name, ur_role = UrUser, ur_status = UsPending,
        ur_createdAt = now, ur_updatedAt = now, ur_lastLoginAt = None, ur_lastSeenAt = None\<rparr>) identity d)"

definition user_touch :: "string \<Rightarrow> jsnum \<Rightarrow> bool \<Rightarrow> user_repository \<Rightarrow> (user_record \<times> user_repository) result" where
  "user_touch i now login d =
     (case user_get d i of
        None \<Rightarrow> throw ''user not found''
      | Some u \<Rightarrow>
          let seen = u\<lparr>ur_updatedAt := now, ur_lastSeenAt := Some now\<rparr>;
              next = (if login then seen\<lparr>ur_lastLoginAt := Some now\<rparr> else seen)
          in Inr (next, d\<lparr>us_users := AList.update i next (us_users d)\<rparr>))"

definition user_list :: "user_repository \<Rightarrow> user_record list" where
  "user_list d = js_sort (\<lambda>a b. ur_createdAt b - ur_createdAt a) (map snd (us_users d))"

definition changeStatus ::
  "string \<Rightarrow> string \<Rightarrow> access_action \<Rightarrow> string option \<Rightarrow> jsnum \<Rightarrow> string \<Rightarrow> user_repository \<Rightarrow> (user_record \<times> user_repository) result" where
  "changeStatus actorId targetId action reason now auditId d =
     bind_r (assertActor (user_get d actorId)) (\<lambda>_.
     bind_r (assertTarget (user_get d targetId)) (\<lambda>target.
     bind_r (nextStatus (ur_status target) action) (\<lambda>status.
     let next = target\<lparr>ur_status := status, ur_updatedAt := now\<rparr>
     in Inr (next, (user_put next d)\<lparr>us_audit :=
          \<lparr>ax_id = auditId, ax_actorUserId = actorId, ax_targetUserId = ur_id target, ax_action = action,
           ax_previousStatus = ur_status target, ax_newStatus = status,
           ax_reason = (case reason of None \<Rightarrow> None | Some s \<Rightarrow> nonempty (take 500 (js_trim s))), ax_createdAt = now\<rparr> # us_audit d\<rparr>))))"

definition user_listAudit :: "nat \<Rightarrow> user_repository \<Rightarrow> access_audit list" where
  "user_listAudit limit d = take (min limit 500) (us_audit d)"

section \<open>Invariant\<close>

definition let_in :: "user_repository \<Rightarrow> string \<Rightarrow> bool" where
  "let_in d i \<longleftrightarrow> (\<exists>x \<in> set (us_audit d). ax_targetUserId x = i \<and> ax_newStatus x = UsActive \<and>
     (\<exists>w. user_get d (ax_actorUserId x) = Some w \<and> ur_role w = UrOwner \<and> ur_status w = UsActive))"

definition users_ok :: "user_repository \<Rightarrow> bool" where
  "users_ok d \<longleftrightarrow>
     distinct (map fst (us_users d)) \<and> (\<forall>i u. user_get d i = Some u \<longrightarrow> ur_id u = i) \<and>
     (\<forall>i j u w. user_get d i = Some u \<longrightarrow> user_get d j = Some w \<longrightarrow> ur_email u = ur_email w \<longrightarrow> i = j) \<and>
     (\<forall>i u. user_get d i = Some u \<longrightarrow> ur_role u = UrOwner \<longrightarrow> ur_status u = UsActive) \<and>
     (\<forall>i u. user_get d i = Some u \<longrightarrow> ur_role u = UrUser \<longrightarrow> ur_status u = UsActive \<longrightarrow> let_in d i)"

inductive user_run :: "user_repository \<Rightarrow> user_repository \<Rightarrow> bool" for d where
  ua_none: "user_run d d"
| ua_owner: "user_run d e \<Longrightarrow> ensureOwner identity now e = Inr (u, f) \<Longrightarrow> user_run d f"
| ua_register: "user_run d e \<Longrightarrow> registerUser identity now e = Inr (u, f) \<Longrightarrow> user_run d f"
| ua_touch: "user_run d e \<Longrightarrow> user_touch i now login e = Inr (u, f) \<Longrightarrow> user_run d f"
| ua_change: "user_run d e \<Longrightarrow> changeStatus actor target action reason now auditId e = Inr (u, f) \<Longrightarrow> user_run d f"

lemma user_get_put [simp]: "user_get (user_put u d) i = (if i = ur_id u then Some u else user_get d i)"
  by (simp add: user_get_def user_put_def)

lemma user_put_simps [simp]: "us_audit (user_put u d) = us_audit d" "user_get (d\<lparr>us_audit := a\<rparr>) = user_get d"
  "us_users (d\<lparr>us_audit := a\<rparr>) = us_users d"
  by (simp_all add: user_put_def user_get_def fun_eq_iff)

lemma distinct_user_put: "distinct (map fst (us_users d)) \<Longrightarrow> distinct (map fst (us_users (user_put u d)))"
  by (simp add: user_put_def distinct_update)

text \<open>Replacing a user by one of the same id, role and e-mail.\<close>

lemma let_in_put:
  assumes "let_in d i" "\<And>w. user_get d (ur_id u) = Some w \<Longrightarrow> ur_role w = UrOwner \<Longrightarrow> ur_status w = UsActive \<Longrightarrow>
      ur_role u = UrOwner \<and> ur_status u = UsActive" "set (us_audit d) \<subseteq> set xs"
  shows "let_in ((user_put u d)\<lparr>us_audit := xs\<rparr>) i"
  using assms unfolding let_in_def by (auto 4 4 split: if_splits)

lemma users_ok_replace:
  assumes "users_ok d" "user_get d (ur_id u) = Some w" "ur_role u = ur_role w" "ur_email u = ur_email w"
    "ur_role w = UrOwner \<Longrightarrow> ur_status u = UsActive" "set (us_audit d) \<subseteq> set xs"
    "ur_role u = UrUser \<Longrightarrow> ur_status u = UsActive \<Longrightarrow> let_in ((user_put u d)\<lparr>us_audit := xs\<rparr>) (ur_id u)"
  shows "users_ok ((user_put u d)\<lparr>us_audit := xs\<rparr>)"
proof -
  have ok: "distinct (map fst (us_users d))" "\<And>i u. user_get d i = Some u \<Longrightarrow> ur_id u = i"
    "\<And>i j u w. user_get d i = Some u \<Longrightarrow> user_get d j = Some w \<Longrightarrow> ur_email u = ur_email w \<Longrightarrow> i = j"
    "\<And>i u. user_get d i = Some u \<Longrightarrow> ur_role u = UrOwner \<Longrightarrow> ur_status u = UsActive"
    "\<And>i u. user_get d i = Some u \<Longrightarrow> ur_role u = UrUser \<Longrightarrow> ur_status u = UsActive \<Longrightarrow> let_in d i"
    using assms(1) unfolding users_ok_def by blast+
  have li: "let_in ((user_put u d)\<lparr>us_audit := xs\<rparr>) i" if "let_in d i" for i
    by (rule let_in_put [OF that _ assms(6)]) (use assms(2,3,5) in auto)
  show ?thesis unfolding users_ok_def
  proof (intro conjI allI impI)
    fix i j v w' assume a: "user_get ((user_put u d)\<lparr>us_audit := xs\<rparr>) i = Some v" "user_get ((user_put u d)\<lparr>us_audit := xs\<rparr>) j = Some w'"
      "ur_email v = ur_email w'"
    have "\<exists>v'. user_get d k = Some v' \<and> ur_email v' = ur_email v" if "user_get ((user_put u d)\<lparr>us_audit := xs\<rparr>) k = Some v" for k v
      using that assms(2,4) by (auto split: if_splits)
    then show "i = j" using a ok(3) by metis
  qed (use distinct_user_put [OF ok(1)] ok(2,4,5) assms(2,3,5,7) li in \<open>auto split: if_splits\<close>)
qed

lemma users_ok_enroll:
  assumes "users_ok d" "user_get d (ur_id u) = None" "assertEmailAvailable d (ur_id u) (ur_email u) = Inr ()"
    "ur_role u = UrOwner \<Longrightarrow> ur_status u = UsActive" "ur_role u = UrUser \<Longrightarrow> ur_status u \<noteq> UsActive"
  shows "users_ok (user_put u d)"
proof -
  have ok: "distinct (map fst (us_users d))" "\<And>i u. user_get d i = Some u \<Longrightarrow> ur_id u = i"
    "\<And>i j u w. user_get d i = Some u \<Longrightarrow> user_get d j = Some w \<Longrightarrow> ur_email u = ur_email w \<Longrightarrow> i = j"
    "\<And>i u. user_get d i = Some u \<Longrightarrow> ur_role u = UrOwner \<Longrightarrow> ur_status u = UsActive"
    "\<And>i u. user_get d i = Some u \<Longrightarrow> ur_role u = UrUser \<Longrightarrow> ur_status u = UsActive \<Longrightarrow> let_in d i"
    using assms(1) unfolding users_ok_def by blast+
  have fresh: "ur_email w \<noteq> ur_email u" if "user_get d i = Some w" for i w
  proof -
    have "(i, w) \<in> set (us_users d)" using that by (simp add: user_get_def map_of_SomeD)
    moreover have "ur_id w \<noteq> ur_id u" using ok(2) [OF that] that assms(2) by auto
    ultimately show ?thesis using assms(3) by (force simp: assertEmailAvailable_def result_simps list_ex_iff)
  qed
  have li: "let_in (user_put u d) i" if "let_in d i" for i
    using let_in_put [OF that, of u "us_audit d"] assms(2) by (simp add: user_put_def)
  show ?thesis unfolding users_ok_def
  proof (intro conjI allI impI)
    fix i j v w assume "user_get (user_put u d) i = Some v" "user_get (user_put u d) j = Some w" "ur_email v = ur_email w"
    then show "i = j" using fresh ok(3) by (auto split: if_splits dest: sym)
  qed (use distinct_user_put [OF ok(1)] ok(2,4,5) assms(4,5) li in \<open>auto split: if_splits\<close>)
qed

lemma enroll_cases:
  assumes "enroll build identity d = Inr (u, e)"
  obtains (known) "e = d" "user_get d (js_trim (ui_id identity)) = Some u"
  | (fresh) "u = build (js_trim (ui_id identity)) (normalizeEmail (ui_email identity)) (cleanName (ui_displayName identity))"
      "e = user_put u d" "user_get d (js_trim (ui_id identity)) = None"
      "assertEmailAvailable d (js_trim (ui_id identity)) (normalizeEmail (ui_email identity)) = Inr ()"
  using assms by (auto simp: enroll_def Let_def result_simps split: option.splits)

lemma ensureOwner_ok:
  assumes "users_ok d" "ensureOwner identity now d = Inr (u, e)"
  shows "users_ok e"
proof -
  have "enroll (\<lambda>i email name. \<lparr>ur_id = i, ur_email = email, ur_displayName = name, ur_role = UrOwner, ur_status = UsActive,
      ur_createdAt = now, ur_updatedAt = now, ur_lastLoginAt = None, ur_lastSeenAt = Some now\<rparr>) identity d = Inr (u, e)"
    using assms(2) by (auto simp: ensureOwner_def result_simps)
  then show ?thesis
    by (cases rule: enroll_cases) (use assms(1) in \<open>auto intro: users_ok_enroll\<close>)
qed

lemma registerUser_ok:
  assumes "users_ok d" "registerUser identity now d = Inr (u, e)"
  shows "users_ok e"
proof -
  have "enroll (\<lambda>i email name. \<lparr>ur_id = i, ur_email = email, ur_displayName = name, ur_role = UrUser, ur_status = UsPending,
      ur_createdAt = now, ur_updatedAt = now, ur_lastLoginAt = None, ur_lastSeenAt = None\<rparr>) identity d = Inr (u, e)"
    using assms(2) by (auto simp: registerUser_def result_simps)
  then show ?thesis
    by (cases rule: enroll_cases) (use assms(1) in \<open>auto intro: users_ok_enroll\<close>)
qed

lemma users_ok_get: "users_ok d \<Longrightarrow> user_get d i = Some u \<Longrightarrow> ur_id u = i"
  unfolding users_ok_def by blast

lemma user_touch_ok:
  assumes "users_ok d" "user_touch i now login d = Inr (u, e)"
  shows "users_ok e"
proof -
  obtain w where w: "user_get d i = Some w" using assms(2) by (auto simp: user_touch_def split: option.splits)
  have i: "ur_id w = i" using users_ok_get [OF assms(1) w] .
  have u: "ur_id u = i" "ur_role u = ur_role w" "ur_email u = ur_email w" "ur_status u = ur_status w" "e = (user_put u d)\<lparr>us_audit := us_audit d\<rparr>"
    using assms(2) w i by (auto simp: user_touch_def user_put_def Let_def split: if_splits)
  have "let_in d i" if "ur_role u = UrUser" "ur_status u = UsActive"
    using assms(1) w that u(2,4) unfolding users_ok_def by auto
  moreover have "ur_status w = UsActive" if "ur_role w = UrOwner" using assms(1) w that unfolding users_ok_def by blast
  ultimately show ?thesis unfolding u(5)
    using w u(1-4) let_in_put [of d i u "us_audit d"] by (intro users_ok_replace [OF assms(1)]) auto
qed

lemma nextStatus_changes: "nextStatus current action = Inr status \<Longrightarrow> status = UsActive \<Longrightarrow> action = AaApprove \<or> action = AaRestore"
  by (auto simp: nextStatus_def split: if_splits)

lemma changeStatus_ok:
  assumes "users_ok d" "changeStatus actor target action reason now auditId d = Inr (u, e)"
  shows "users_ok e"
proof -
  obtain a w where a: "user_get d actor = Some a" "ur_role a = UrOwner" "ur_status a = UsActive"
    and w: "user_get d target = Some w" "ur_role w \<noteq> UrOwner"
    using assms(2) by (auto simp: changeStatus_def assertActor_def assertTarget_def result_simps split: option.splits)
  obtain x where u: "ur_id u = ur_id w" "ur_role u = ur_role w" "ur_email u = ur_email w"
    "e = (user_put u d)\<lparr>us_audit := x # us_audit d\<rparr>" "ax_targetUserId x = ur_id w" "ax_newStatus x = ur_status u" "ax_actorUserId x = actor"
    using assms(2) a w by (auto simp: changeStatus_def assertActor_def assertTarget_def result_simps Let_def)
  have i: "ur_id w = target" "actor \<noteq> target" using users_ok_get [OF assms(1) w(1)] a w by auto
  have "let_in e target" if "ur_status u = UsActive"
    unfolding let_in_def u(4) using a i u(1,5-7) that by (intro bexI [of _ x]) auto
  then show ?thesis unfolding u(4)
    using w u(1-3) i by (intro users_ok_replace [OF assms(1)]) (auto simp: u(4))
qed

lemma user_run_ok: "user_run d e \<Longrightarrow> users_ok d \<Longrightarrow> users_ok e"
  by (induction rule: user_run.induct) (blast intro: ensureOwner_ok registerUser_ok user_touch_ok changeStatus_ok)+

text \<open>C38: whatever registrations, logins and status changes follow, ids and e-mail addresses stay unique, an owner is always active, and
  a user is active only if a status change by an owner who is active let that user in.\<close>

theorem users_stay_ok:
  assumes "user_run \<lparr>us_users = [], us_audit = []\<rparr> d"
  shows "users_ok d"
  by (rule user_run_ok [OF assms]) (simp add: users_ok_def user_get_def)

definition demo_users :: "user_repository result" where
  "demo_users =
     bind_r (ensureOwner \<lparr>ui_id = ''owner'', ui_email = ''Owner@x'', ui_displayName = None\<rparr> (Fin 1) \<lparr>us_users = [], us_audit = []\<rparr>) (\<lambda>(_, d).
     bind_r (registerUser \<lparr>ui_id = '' user '', ui_email = ''u@x'', ui_displayName = Some '' ''\<rparr> (Fin 2) d) (\<lambda>(_, e).
     bind_r (changeStatus ''owner'' ''user'' AaApprove None (Fin 3) ''a1'' e) (\<lambda>(_, f). Inr f)))"

theorem users_stay_ok_witness: "\<exists>d. demo_users = Inr d \<and> users_ok d \<and> isUserAllowed (user_get d ''user'')"
proof -
  have "case demo_users of Inl _ \<Rightarrow> False | Inr d \<Rightarrow> isUserAllowed (user_get d ''user'')" by code_simp
  then obtain d where d: "demo_users = Inr d" "isUserAllowed (user_get d ''user'')" by (auto split: sum.splits)
  obtain u1 u2 u3 e f where s: "ensureOwner \<lparr>ui_id = ''owner'', ui_email = ''Owner@x'', ui_displayName = None\<rparr> (Fin 1)
      \<lparr>us_users = [], us_audit = []\<rparr> = Inr (u1, e)"
    "registerUser \<lparr>ui_id = '' user '', ui_email = ''u@x'', ui_displayName = Some '' ''\<rparr> (Fin 2) e = Inr (u2, f)"
    "changeStatus ''owner'' ''user'' AaApprove None (Fin 3) ''a1'' f = Inr (u3, d)"
    using d(1) by (auto simp: demo_users_def result_simps)
  have "users_ok d" by (rule users_stay_ok [OF ua_change [OF ua_register [OF ua_owner [OF ua_none s(1)] s(2)] s(3)]])
  then show ?thesis using d by blast
qed

end
