(* ===== verification/UserSessions.thy ===== *)
theory UserSessions imports UserAccess begin

text \<open>
  \<open>apps/cloud/src/approvedUserSessionCore.ts\<close>: bootstrap tokens, session families and their access and
  rotating refresh tokens, in five SQL tables.  A table is an association list by its key; an insertion
  whose key exists, or that puts NaN into a NOT NULL column, throws, and a transaction that throws leaves
  the tables as they were.  SHA-256 is a parameter; the random tokens and ids of a call are its arguments.
  The rows of the audit table are kept without their random ids.
\<close>

section \<open>Tables\<close>

record bootstrap_row =
  br_id :: string
  br_targetUserId :: string
  br_scopes :: "string list"
  br_createdBy :: string
  br_createdAt :: jsnum
  br_expiresAt :: jsnum
  br_usedAt :: "jsnum option"
  br_revokedAt :: "jsnum option"
  br_deviceIdHash :: "string option"

record family_row =
  fy_userId :: string
  fy_scopes :: "string list"
  fy_createdAt :: jsnum
  fy_expiresAt :: jsnum
  fy_revokedAt :: "jsnum option"
  fy_revokeReason :: "string option"
  fy_deviceIdHash :: "string option"
  fy_proofBound :: bool

record access_row =
  aw_familyId :: string
  aw_createdAt :: jsnum
  aw_expiresAt :: jsnum

record refresh_row =
  rw_familyId :: string
  rw_generation :: nat
  rw_createdAt :: jsnum
  rw_expiresAt :: jsnum
  rw_consumedAt :: "jsnum option"

record session_audit =
  sx_event :: string
  sx_actorUserId :: "string option"
  sx_targetUserId :: "string option"
  sx_familyId :: "string option"
  sx_reason :: "string option"
  sx_createdAt :: jsnum

record session_db =
  sd_bootstrap :: "(string \<times> bootstrap_row) list"
  sd_families :: "(string \<times> family_row) list"
  sd_access :: "(string \<times> access_row) list"
  sd_refresh :: "(string \<times> refresh_row) list"
  sd_audit :: "session_audit list"
  sd_users :: user_repository

record session_profile =
  sp_namespace :: string
  sp_allowedScopes :: "string list"
  sp_defaultScopes :: "string list option"
  sp_accessTtlMs :: jsnum
  sp_refreshTtlMs :: jsnum
  sp_bootstrapTtlMs :: jsnum

record session_tokens =
  st_accessToken :: string
  st_accessExpiresAt :: jsnum
  st_refreshToken :: string
  st_refreshExpiresAt :: jsnum
  st_scopes :: "string list"

record bootstrap_issue =
  bi_id :: string
  bi_token :: string
  bi_expiresAt :: jsnum
  bi_targetUserId :: string
  bi_scopes :: "string list"

record principal =
  pr_userId :: string
  pr_email :: string
  pr_displayName :: "string option"
  pr_scopes :: "string list"

text \<open>What one call draws at random.\<close>

record drawn =
  dn_id :: string
  dn_accessToken :: string
  dn_refreshToken :: string

section \<open>Helpers\<close>

definition validateProfile :: "session_profile \<Rightarrow> unit result" where
  "validateProfile p =
     (let lower = (\<lambda>c. let n = of_char c :: nat in 97 \<le> n \<and> n \<le> 122)
      in guard_r (\<not> (case sp_namespace p of [] \<Rightarrow> False | c # cs \<Rightarrow> lower c \<and> list_all (\<lambda>c. lower c \<or> is_digit c \<or> c = CHR ''_'') cs))
           (Error ''session namespace is invalid'')
        (guard_r (sp_allowedScopes p = []) (Error ''session scopes are invalid'')
        (guard_r (sp_accessTtlMs p \<le> Fin 0 \<or> sp_refreshTtlMs p \<le> Fin 0 \<or> sp_bootstrapTtlMs p \<le> Fin 0) (Error ''session ttl is invalid'')
        (Inr ()))))"

definition deviceDigest :: "(string \<Rightarrow> string) \<Rightarrow> string \<Rightarrow> string result" where
  "deviceDigest sha deviceId =
     (let n = js_trim deviceId
      in guard_r (length n < 8 \<or> 256 < length n \<or> list_ex (\<lambda>c. c = CHR 10 \<or> c = CHR 13) n)
           (Error ''device enrollment identifier is invalid'') (Inr (sha n)))"

definition normalizeScopes :: "session_profile \<Rightarrow> string list option \<Rightarrow> string list result" where
  "normalizeScopes p scopes =
     (let requested = (case scopes of Some s \<Rightarrow> s | None \<Rightarrow> (case sp_defaultScopes p of Some s \<Rightarrow> s | None \<Rightarrow> sp_allowedScopes p));
          unique = set_of_list (filter (\<lambda>s. s \<noteq> []) (map js_trim requested))
      in guard_r (unique = [] \<or> \<not> set unique \<subseteq> set (sp_allowedScopes p)) (Error ''session scopes are invalid'') (Inr unique))"

definition createTokens :: "session_profile \<Rightarrow> drawn \<Rightarrow> string list \<Rightarrow> jsnum \<Rightarrow> jsnum \<Rightarrow> session_tokens" where
  "createTokens p r scopes now refreshExpiresAt =
     \<lparr>st_accessToken = dn_accessToken r, st_accessExpiresAt = now + sp_accessTtlMs p, st_refreshToken = dn_refreshToken r,
      st_refreshExpiresAt = refreshExpiresAt, st_scopes = scopes\<rparr>"

definition insert_row :: "string \<Rightarrow> 'r \<Rightarrow> jsnum list \<Rightarrow> (string \<times> 'r) list \<Rightarrow> (string \<times> 'r) list result" where
  "insert_row key row stamps table =
     guard_r (NaN \<in> set stamps) (Error ''NOT NULL constraint failed'')
     (guard_r (map_of table key \<noteq> None) (Error ''UNIQUE constraint failed'') (Inr (table @ [(key, row)])))"

definition session_audit_row ::
  "string \<Rightarrow> string option \<Rightarrow> string option \<Rightarrow> string option \<Rightarrow> string option \<Rightarrow> jsnum \<Rightarrow> session_db \<Rightarrow> session_db result" where
  "session_audit_row event actor target family reason now d =
     guard_r (now = NaN) (Error ''NOT NULL constraint failed'')
     (Inr (d\<lparr>sd_audit := sd_audit d @ [\<lparr>sx_event = event, sx_actorUserId = actor, sx_targetUserId = target, sx_familyId = family,
        sx_reason = reason, sx_createdAt = now\<rparr>]\<rparr>))"

definition persistTokens :: "(string \<Rightarrow> string) \<Rightarrow> session_tokens \<Rightarrow> string \<Rightarrow> nat \<Rightarrow> jsnum \<Rightarrow> session_db \<Rightarrow> session_db result" where
  "persistTokens sha t family generation now d =
     bind_r (insert_row (sha (st_accessToken t)) \<lparr>aw_familyId = family, aw_createdAt = now, aw_expiresAt = st_accessExpiresAt t\<rparr>
       [now, st_accessExpiresAt t] (sd_access d)) (\<lambda>access.
     bind_r (insert_row (sha (st_refreshToken t)) \<lparr>rw_familyId = family, rw_generation = generation, rw_createdAt = now,
         rw_expiresAt = st_refreshExpiresAt t, rw_consumedAt = None\<rparr> [now, st_refreshExpiresAt t] (sd_refresh d)) (\<lambda>refresh.
     Inr (d\<lparr>sd_access := access, sd_refresh := refresh\<rparr>)))"

definition insert_family :: "string \<Rightarrow> family_row \<Rightarrow> session_db \<Rightarrow> session_db result" where
  "insert_family i row d =
     bind_r (insert_row i row [fy_createdAt row, fy_expiresAt row] (sd_families d)) (\<lambda>fs. Inr (d\<lparr>sd_families := fs\<rparr>))"

definition revokeFamily :: "string \<Rightarrow> string \<Rightarrow> jsnum \<Rightarrow> session_db \<Rightarrow> (bool \<times> session_db) result" where
  "revokeFamily family reason now d =
     (case map_of (sd_families d) family of
        None \<Rightarrow> Inr (False, d)
      | Some row \<Rightarrow>
          if fy_revokedAt row \<noteq> None then Inr (True, d)
          else bind_r (session_audit_row ''SESSION_REVOKED'' (Some (fy_userId row)) (Some (fy_userId row)) (Some family) (Some reason) now
              (d\<lparr>sd_families := AList.update family (row\<lparr>fy_revokedAt := Some now, fy_revokeReason := Some reason\<rparr>) (sd_families d)\<rparr>))
            (\<lambda>e. Inr (True, e)))"

section \<open>Bootstrap tokens\<close>

definition owner_of :: "session_db \<Rightarrow> string \<Rightarrow> user_record result" where
  "owner_of d i =
     (case user_get (sd_users d) (js_trim i) of
        Some u \<Rightarrow> guard_r (ur_role u \<noteq> UrOwner \<or> \<not> isUserAllowed (Some u)) (Error ''owner authority required'') (Inr u)
      | None \<Rightarrow> throw ''owner authority required'')"

definition active_user :: "session_db \<Rightarrow> string \<Rightarrow> user_record result" where
  "active_user d i =
     (case user_get (sd_users d) i of
        Some u \<Rightarrow> guard_r (\<not> isUserAllowed (Some u)) (Error ''target user must be ACTIVE'') (Inr u)
      | None \<Rightarrow> throw ''target user must be ACTIVE'')"

definition issueBootstrapForActiveUser ::
  "session_profile \<Rightarrow> (string \<Rightarrow> string) \<Rightarrow> drawn \<Rightarrow> string \<Rightarrow> string \<Rightarrow> string list option \<Rightarrow> jsnum \<Rightarrow> string \<Rightarrow> string option \<Rightarrow>
    session_db \<Rightarrow> (bootstrap_issue \<times> session_db) result" where
  "issueBootstrapForActiveUser p sha r actorId targetId requested now event deviceHash d =
     bind_r (active_user d targetId) (\<lambda>target.
     bind_r (normalizeScopes p requested) (\<lambda>scopes.
     let expires = now + sp_bootstrapTtlMs p
     in guard_r (list_ex (\<lambda>(h, row). br_id row = dn_id r) (sd_bootstrap d)) (Error ''UNIQUE constraint failed'')
       (bind_r (insert_row (sha (dn_accessToken r))
           \<lparr>br_id = dn_id r, br_targetUserId = ur_id target, br_scopes = scopes, br_createdBy = actorId, br_createdAt = now,
            br_expiresAt = expires, br_usedAt = None, br_revokedAt = None, br_deviceIdHash = deviceHash\<rparr>
           [now, expires] (sd_bootstrap d)) (\<lambda>bs.
        bind_r (session_audit_row event (Some actorId) (Some (ur_id target)) None None now (d\<lparr>sd_bootstrap := bs\<rparr>)) (\<lambda>e.
        Inr (\<lparr>bi_id = dn_id r, bi_token = dn_accessToken r, bi_expiresAt = expires, bi_targetUserId = ur_id target, bi_scopes = scopes\<rparr>, e))))))"

definition issueBootstrap ::
  "session_profile \<Rightarrow> (string \<Rightarrow> string) \<Rightarrow> drawn \<Rightarrow> string \<Rightarrow> string \<Rightarrow> string list option \<Rightarrow> jsnum \<Rightarrow> session_db \<Rightarrow>
    (bootstrap_issue \<times> session_db) result" where
  "issueBootstrap p sha r actorId targetId scopes now d =
     bind_r (owner_of d actorId) (\<lambda>actor.
     bind_r (active_user d (js_trim targetId)) (\<lambda>target.
     issueBootstrapForActiveUser p sha r (ur_id actor) (ur_id target) scopes now ''BOOTSTRAP_ISSUED'' None d))"

definition issueSelfBootstrap ::
  "session_profile \<Rightarrow> (string \<Rightarrow> string) \<Rightarrow> drawn \<Rightarrow> string \<Rightarrow> string \<Rightarrow> string list option \<Rightarrow> jsnum \<Rightarrow> session_db \<Rightarrow>
    (bootstrap_issue \<times> session_db) result" where
  "issueSelfBootstrap p sha r actorId deviceId scopes now d =
     bind_r (active_user d (js_trim actorId)) (\<lambda>actor.
     bind_r (deviceDigest sha deviceId) (\<lambda>h.
     issueBootstrapForActiveUser p sha r (ur_id actor) (ur_id actor) scopes now ''SELF_BOOTSTRAP_ISSUED'' (Some h) d))"

definition revokeBootstrap :: "string \<Rightarrow> string \<Rightarrow> jsnum \<Rightarrow> session_db \<Rightarrow> (bool \<times> session_db) result" where
  "revokeBootstrap actorId bootstrapId now d =
     bind_r (owner_of d actorId) (\<lambda>actor.
     case find (\<lambda>(h, row). br_id row = bootstrapId) (sd_bootstrap d) of
       None \<Rightarrow> Inr (False, d)
     | Some (h, row) \<Rightarrow>
         if br_usedAt row \<noteq> None \<or> br_revokedAt row \<noteq> None then Inr (False, d)
         else bind_r (session_audit_row ''BOOTSTRAP_REVOKED'' (Some (ur_id actor)) (Some (br_targetUserId row)) None None now
             (d\<lparr>sd_bootstrap := map (\<lambda>(h, w). (h, if br_id w = bootstrapId \<and> br_usedAt w = None \<and> br_revokedAt w = None
                then w\<lparr>br_revokedAt := Some now\<rparr> else w)) (sd_bootstrap d)\<rparr>)) (\<lambda>e. Inr (True, e)))"

text \<open>A refused token is audited and answered with nothing.\<close>

definition reject_bootstrap :: "string option \<Rightarrow> string \<Rightarrow> jsnum \<Rightarrow> session_db \<Rightarrow> (session_tokens option \<times> session_db) result" where
  "reject_bootstrap target reason now d =
     bind_r (session_audit_row ''BOOTSTRAP_REJECTED'' None target None (Some reason) now d) (\<lambda>e. Inr (None, e))"

definition session_touch :: "string \<Rightarrow> jsnum \<Rightarrow> bool \<Rightarrow> string \<Rightarrow> session_db \<Rightarrow> session_db result" where
  "session_touch i now login message d =
     (case user_touch i now login (sd_users d) of
        Inl _ \<Rightarrow> throw message
      | Inr (_, us) \<Rightarrow> Inr (d\<lparr>sd_users := us\<rparr>))"

definition consume_bootstrap ::
  "session_profile \<Rightarrow> (string \<Rightarrow> string) \<Rightarrow> drawn \<Rightarrow> string \<Rightarrow> bootstrap_row \<Rightarrow> user_record \<Rightarrow> jsnum \<Rightarrow> session_db \<Rightarrow>
    (session_tokens option \<times> session_db) result" where
  "consume_bootstrap p sha r hash row user now d =
     bind_r (normalizeScopes p (Some (br_scopes row))) (\<lambda>scopes.
     let expires = now + sp_refreshTtlMs p; tokens = createTokens p r scopes now expires
     in guard_r (\<not> now < br_expiresAt row) (Error ''bootstrap token already consumed'')
       (bind_r (insert_family (dn_id r)
           \<lparr>fy_userId = ur_id user, fy_scopes = scopes, fy_createdAt = now, fy_expiresAt = expires, fy_revokedAt = None,
            fy_revokeReason = None, fy_deviceIdHash = br_deviceIdHash row, fy_proofBound = False\<rparr>
           (d\<lparr>sd_bootstrap := AList.update hash (row\<lparr>br_usedAt := Some now\<rparr>) (sd_bootstrap d)\<rparr>)) (\<lambda>e.
        bind_r (persistTokens sha tokens (dn_id r) 0 now e) (\<lambda>f.
        bind_r (session_audit_row ''BOOTSTRAP_CONSUMED'' (Some (ur_id user)) (Some (ur_id user)) (Some (dn_id r)) None now f) (\<lambda>g.
        bind_r (session_touch (ur_id user) now True ''user login state unavailable'' g) (\<lambda>h. Inr (Some tokens, h)))))))"

definition bootstrap_session ::
  "session_profile \<Rightarrow> (string \<Rightarrow> string) \<Rightarrow> drawn \<Rightarrow> string \<Rightarrow> jsnum \<Rightarrow> string option \<Rightarrow> session_db \<Rightarrow> (session_tokens option \<times> session_db) result" where
  "bootstrap_session p sha r token now deviceId d =
     (if token = [] then reject_bootstrap None ''EMPTY_TOKEN'' now d
      else case map_of (sd_bootstrap d) (sha token) of
        None \<Rightarrow> reject_bootstrap None ''UNKNOWN_TOKEN'' now d
      | Some row \<Rightarrow>
          let target = Some (br_targetUserId row)
          in bind_r (case br_deviceIdHash row of None \<Rightarrow> Inr None
               | Some h \<Rightarrow> bind_r (deviceDigest sha (case deviceId of None \<Rightarrow> [] | Some x \<Rightarrow> x)) (\<lambda>x. Inr (Some x))) (\<lambda>requested.
             if br_deviceIdHash row \<noteq> None \<and> requested \<noteq> br_deviceIdHash row then reject_bootstrap target ''DEVICE_MISMATCH'' now d
             else if br_usedAt row \<noteq> None then reject_bootstrap target ''ALREADY_CONSUMED'' now d
             else if br_revokedAt row \<noteq> None then reject_bootstrap target ''REVOKED'' now d
             else if br_expiresAt row \<le> now then reject_bootstrap target ''EXPIRED'' now d
             else case user_get (sd_users d) (br_targetUserId row) of
               None \<Rightarrow> reject_bootstrap target ''USER_NOT_ACTIVE'' now d
             | Some user \<Rightarrow>
                 if \<not> isUserAllowed (Some user) then reject_bootstrap target ''USER_NOT_ACTIVE'' now d
                 else consume_bootstrap p sha r (sha token) row user now d))"

section \<open>Refresh tokens\<close>

definition reject_refresh :: "string option \<Rightarrow> string option \<Rightarrow> string \<Rightarrow> jsnum \<Rightarrow> session_db \<Rightarrow> (session_tokens option \<times> session_db) result" where
  "reject_refresh user family reason now d =
     bind_r (session_audit_row ''SESSION_REFRESH_REJECTED'' user user family (Some reason) now d) (\<lambda>e. Inr (None, e))"

text \<open>The query of \<open>refresh\<close> selects \<open>r.*\<close> and five columns of the family, but not its \<open>device_id_hash\<close>, and the refresh table has
  no such column: the property that \<open>refresh\<close> reads is undefined for every row.\<close>

definition selected_device_hash :: "refresh_row \<times> family_row \<Rightarrow> string option" where
  "selected_device_hash row = None"

definition rotate_refresh ::
  "session_profile \<Rightarrow> (string \<Rightarrow> string) \<Rightarrow> drawn \<Rightarrow> string \<Rightarrow> refresh_row \<Rightarrow> family_row \<Rightarrow> user_record \<Rightarrow> jsnum \<Rightarrow> session_db \<Rightarrow>
    (session_tokens option \<times> session_db) result" where
  "rotate_refresh p sha r hash row family user now d =
     bind_r (normalizeScopes p (Some (fy_scopes family))) (\<lambda>scopes.
     let tokens = createTokens p r scopes now (fy_expiresAt family)
     in bind_r (persistTokens sha tokens (rw_familyId row) (rw_generation row + 1) now
           (d\<lparr>sd_refresh := AList.update hash (row\<lparr>rw_consumedAt := Some now\<rparr>) (sd_refresh d)\<rparr>)) (\<lambda>e.
        bind_r (session_audit_row ''SESSION_REFRESHED'' (Some (ur_id user)) (Some (ur_id user)) (Some (rw_familyId row)) None now e) (\<lambda>f.
        bind_r (session_touch (ur_id user) now False ''user state unavailable'' f) (\<lambda>g. Inr (Some tokens, g)))))"

text \<open>The refusals that revoke the family first commit that revocation before they write their own audit row.\<close>

definition refresh_session ::
  "session_profile \<Rightarrow> (string \<Rightarrow> string) \<Rightarrow> drawn \<Rightarrow> string \<Rightarrow> jsnum \<Rightarrow> string option \<Rightarrow> session_db \<Rightarrow> (session_tokens option \<times> session_db) result" where
  "refresh_session p sha r token now deviceId d =
     (if token = [] then reject_refresh None None ''EMPTY_TOKEN'' now d
      else case map_of (sd_refresh d) (sha token) of
        None \<Rightarrow> reject_refresh None None ''UNKNOWN_TOKEN'' now d
      | Some row \<Rightarrow>
          (case map_of (sd_families d) (rw_familyId row) of
             None \<Rightarrow> reject_refresh None None ''UNKNOWN_TOKEN'' now d
           | Some family \<Rightarrow>
               let reject = reject_refresh (Some (fy_userId family)) (Some (rw_familyId row))
               in if fy_proofBound family then reject ''DEVICE_PROOF_REQUIRED'' now d
                  else bind_r (case selected_device_hash (row, family) of None \<Rightarrow> Inr True
                      | Some h \<Rightarrow> bind_r (deviceDigest sha (case deviceId of None \<Rightarrow> [] | Some x \<Rightarrow> x)) (\<lambda>x. Inr (x = h))) (\<lambda>same.
                    if \<not> same then reject ''DEVICE_MISMATCH'' now d
                    else if rw_consumedAt row \<noteq> None
                    then bind_r (revokeFamily (rw_familyId row) ''REFRESH_REUSE_DETECTED'' now d) (\<lambda>(_, e). reject ''REFRESH_REUSE_DETECTED'' now e)
                    else if fy_revokedAt family \<noteq> None then reject ''FAMILY_REVOKED'' now d
                    else if rw_expiresAt row \<le> now then reject ''TOKEN_EXPIRED'' now d
                    else if fy_expiresAt family \<le> now then reject ''FAMILY_EXPIRED'' now d
                    else case user_get (sd_users d) (fy_userId family) of
                      None \<Rightarrow> bind_r (revokeFamily (rw_familyId row) ''USER_NOT_ACTIVE'' now d) (\<lambda>(_, e). reject ''USER_NOT_ACTIVE'' now e)
                    | Some user \<Rightarrow>
                        if \<not> isUserAllowed (Some user)
                        then bind_r (revokeFamily (rw_familyId row) ''USER_NOT_ACTIVE'' now d) (\<lambda>(_, e). reject ''USER_NOT_ACTIVE'' now e)
                        else rotate_refresh p sha r (sha token) row family user now d)))"

section \<open>Access tokens\<close>

definition verifyAccess :: "session_profile \<Rightarrow> (string \<Rightarrow> string) \<Rightarrow> string \<Rightarrow> jsnum \<Rightarrow> session_db \<Rightarrow> principal option result" where
  "verifyAccess p sha token now d =
     (if token = [] then Inr None
      else case map_of (sd_access d) (sha token) of
        None \<Rightarrow> Inr None
      | Some row \<Rightarrow>
          (case map_of (sd_families d) (aw_familyId row) of
             None \<Rightarrow> Inr None
           | Some family \<Rightarrow>
               if fy_revokedAt family \<noteq> None \<or> aw_expiresAt row \<le> now \<or> fy_expiresAt family \<le> now then Inr None
               else case user_get (sd_users d) (fy_userId family) of
                 None \<Rightarrow> Inr None
               | Some user \<Rightarrow>
                   if \<not> isUserAllowed (Some user) then Inr None
                   else bind_r (normalizeScopes p (Some (fy_scopes family))) (\<lambda>scopes.
                     Inr (Some \<lparr>pr_userId = ur_id user, pr_email = ur_email user,
                       pr_displayName = (case ur_displayName user of None \<Rightarrow> None | Some n \<Rightarrow> nonempty n), pr_scopes = scopes\<rparr>))))"

definition session_me :: "session_profile \<Rightarrow> (string \<Rightarrow> string) \<Rightarrow> string \<Rightarrow> jsnum \<Rightarrow> session_db \<Rightarrow> principal option result" where
  "session_me p sha token now d =
     bind_r (verifyAccess p sha token now d) (\<lambda>who.
     case who of None \<Rightarrow> Inr None
     | Some w \<Rightarrow> bind_r (normalizeScopes p (Some (pr_scopes w))) (\<lambda>scopes. Inr (Some (w\<lparr>pr_scopes := scopes\<rparr>))))"

text \<open>The statements of \<open>createDeviceBoundSession\<close> run in the transaction of its caller.\<close>

definition createDeviceBoundSession ::
  "session_profile \<Rightarrow> (string \<Rightarrow> string) \<Rightarrow> drawn \<Rightarrow> string \<Rightarrow> string \<Rightarrow> string list option \<Rightarrow> jsnum \<Rightarrow> string option \<Rightarrow> bool \<Rightarrow>
    session_db \<Rightarrow> (session_tokens \<times> session_db) result" where
  "createDeviceBoundSession p sha r targetId deviceId scopes now event proofBound d =
     bind_r (active_user d (js_trim targetId)) (\<lambda>user.
     bind_r (normalizeScopes p scopes) (\<lambda>scopes.
     let expires = now + sp_refreshTtlMs p; tokens = createTokens p r scopes now expires
     in bind_r (deviceDigest sha deviceId) (\<lambda>h.
        bind_r (insert_family (dn_id r)
          \<lparr>fy_userId = ur_id user, fy_scopes = scopes, fy_createdAt = now, fy_expiresAt = expires, fy_revokedAt = None,
           fy_revokeReason = None, fy_deviceIdHash = Some h, fy_proofBound = proofBound\<rparr> d) (\<lambda>e.
        bind_r (persistTokens sha tokens (dn_id r) 0 now e) (\<lambda>f.
        bind_r (session_audit_row (case event of None \<Rightarrow> ''DEVICE_SESSION_ISSUED'' | Some v \<Rightarrow> v) (Some (ur_id user)) (Some (ur_id user))
            (Some (dn_id r)) None now f) (\<lambda>g.
        bind_r (session_touch (ur_id user) now True ''user not found'' g) (\<lambda>k. Inr (tokens, k))))))))"

definition revoke_step :: "string \<Rightarrow> jsnum \<Rightarrow> string \<Rightarrow> nat \<times> session_db \<Rightarrow> (nat \<times> session_db) result" where
  "revoke_step reason now family nd =
     bind_r (revokeFamily family reason now (snd nd)) (\<lambda>(done, e). Inr (if done then fst nd + 1 else fst nd, e))"

definition revokeDeviceSessions :: "string \<Rightarrow> string \<Rightarrow> string \<Rightarrow> jsnum \<Rightarrow> session_db \<Rightarrow> (nat \<times> session_db) result" where
  "revokeDeviceSessions userId deviceHash reason now d =
     fold_r (revoke_step reason now)
       (map fst (filter (\<lambda>(i, f). fy_userId f = userId \<and> fy_deviceIdHash f = Some deviceHash \<and> fy_revokedAt f = None) (sd_families d)))
       (0, d)"

definition revokeAccess :: "(string \<Rightarrow> string) \<Rightarrow> string \<Rightarrow> jsnum \<Rightarrow> session_db \<Rightarrow> (bool \<times> session_db) result" where
  "revokeAccess sha token now d =
     (if token = [] then Inr (False, d)
      else case map_of (sd_access d) (sha token) of
        None \<Rightarrow> Inr (False, d)
      | Some row \<Rightarrow> revokeFamily (aw_familyId row) ''CLIENT_REVOKED'' now d)"

text \<open>\<open>composeDashboardTokenVerifiers\<close>: the second verifier is asked first.\<close>

definition compose_verifiers :: "(string \<Rightarrow> principal option) \<Rightarrow> (string \<Rightarrow> principal option) \<Rightarrow> string \<Rightarrow> principal option" where
  "compose_verifiers primary secondary token = (case secondary token of Some w \<Rightarrow> Some w | None \<Rightarrow> primary token)"

end
