(* ===== verification/SessionSafety.thy ===== *)
theory SessionSafety imports UserSessions begin

text \<open>
  The sessions of \<open>UserSessions\<close> over any sequence of calls: rows are never forgotten, a refresh token and a
  bootstrap token work once, and presenting a used refresh token shuts its whole family for good.
\<close>

section \<open>Tables only grow\<close>

definition later :: "session_db \<Rightarrow> session_db \<Rightarrow> bool" where
  "later d e \<longleftrightarrow>
     (\<forall>h row. map_of (sd_bootstrap d) h = Some row \<longrightarrow>
       (\<exists>row'. map_of (sd_bootstrap e) h = Some row' \<and> (br_usedAt row \<noteq> None \<longrightarrow> br_usedAt row' \<noteq> None))) \<and>
     (\<forall>i f. map_of (sd_families d) i = Some f \<longrightarrow>
       (\<exists>f'. map_of (sd_families e) i = Some f' \<and> fy_proofBound f' = fy_proofBound f \<and> (fy_revokedAt f \<noteq> None \<longrightarrow> fy_revokedAt f' \<noteq> None))) \<and>
     (\<forall>h a. map_of (sd_access d) h = Some a \<longrightarrow> map_of (sd_access e) h = Some a) \<and>
     (\<forall>h row. map_of (sd_refresh d) h = Some row \<longrightarrow>
       (\<exists>row'. map_of (sd_refresh e) h = Some row' \<and> rw_familyId row' = rw_familyId row \<and>
         (rw_consumedAt row \<noteq> None \<longrightarrow> rw_consumedAt row' \<noteq> None)))"

lemma laterD:
  assumes "later d e"
  shows "map_of (sd_bootstrap d) h = Some b \<Longrightarrow>
      \<exists>b'. map_of (sd_bootstrap e) h = Some b' \<and> (br_usedAt b \<noteq> None \<longrightarrow> br_usedAt b' \<noteq> None)"
    "map_of (sd_families d) i = Some f \<Longrightarrow>
      \<exists>f'. map_of (sd_families e) i = Some f' \<and> fy_proofBound f' = fy_proofBound f \<and> (fy_revokedAt f \<noteq> None \<longrightarrow> fy_revokedAt f' \<noteq> None)"
    "map_of (sd_access d) h = Some a \<Longrightarrow> map_of (sd_access e) h = Some a"
    "map_of (sd_refresh d) h = Some w \<Longrightarrow>
      \<exists>w'. map_of (sd_refresh e) h = Some w' \<and> rw_familyId w' = rw_familyId w \<and> (rw_consumedAt w \<noteq> None \<longrightarrow> rw_consumedAt w' \<noteq> None)"
  using assms unfolding later_def by blast+

lemma session_later_refl [simp]: "later d d"
  by (simp add: later_def)

lemma session_later_trans:
  assumes "later d e" "later e f"
  shows "later d f"
  using assms unfolding later_def by (intro conjI allI impI; metis)

lemma later_same:
  "sd_bootstrap e = sd_bootstrap d \<Longrightarrow> sd_families e = sd_families d \<Longrightarrow> sd_access e = sd_access d \<Longrightarrow> sd_refresh e = sd_refresh d \<Longrightarrow>
    later d e"
  by (simp add: later_def)

lemma insert_row_Inr:
  "insert_row key row stamps t = Inr t' \<Longrightarrow>
    map_of t' key = Some row \<and> map_of t key = None \<and> (\<forall>h x. map_of t h = Some x \<longrightarrow> map_of t' h = Some x)"
  by (auto simp: insert_row_def result_simps map_add_def split: option.split)

lemma session_audit_row_same:
  "session_audit_row event a t f reason now d = Inr e \<Longrightarrow>
    sd_bootstrap e = sd_bootstrap d \<and> sd_families e = sd_families d \<and> sd_access e = sd_access d \<and> sd_refresh e = sd_refresh d"
  by (auto simp: session_audit_row_def result_simps)

lemma session_audit_row_later: "session_audit_row event a t f reason now d = Inr e \<Longrightarrow> later d e"
  using session_audit_row_same by (blast intro: later_same)

lemma session_touch_same:
  "session_touch i now login message d = Inr e \<Longrightarrow>
    sd_bootstrap e = sd_bootstrap d \<and> sd_families e = sd_families d \<and> sd_access e = sd_access d \<and> sd_refresh e = sd_refresh d"
  by (auto simp: session_touch_def split: sum.splits)

lemma insert_family_later: "insert_family i row d = Inr e \<Longrightarrow> later d e"
  using insert_row_Inr [of i row "[fy_createdAt row, fy_expiresAt row]" "sd_families d"]
  by (auto simp: insert_family_def result_simps later_def)

lemma persistTokens_Inr:
  assumes "persistTokens sha t family generation now d = Inr e"
  shows "later d e \<and> sd_families e = sd_families d \<and> sd_bootstrap e = sd_bootstrap d \<and>
    (\<exists>a. map_of (sd_access e) (sha (st_accessToken t)) = Some a \<and> aw_familyId a = family) \<and>
    (\<exists>w. map_of (sd_refresh e) (sha (st_refreshToken t)) = Some w \<and> rw_familyId w = family)"
proof -
  obtain access refresh where i: "insert_row (sha (st_accessToken t)) \<lparr>aw_familyId = family, aw_createdAt = now, aw_expiresAt = st_accessExpiresAt t\<rparr>
       [now, st_accessExpiresAt t] (sd_access d) = Inr access"
    "insert_row (sha (st_refreshToken t)) \<lparr>rw_familyId = family, rw_generation = generation, rw_createdAt = now,
         rw_expiresAt = st_refreshExpiresAt t, rw_consumedAt = None\<rparr> [now, st_refreshExpiresAt t] (sd_refresh d) = Inr refresh"
    "e = d\<lparr>sd_access := access, sd_refresh := refresh\<rparr>"
    using assms by (auto simp: persistTokens_def result_simps)
  then show ?thesis using insert_row_Inr [OF i(1)] insert_row_Inr [OF i(2)] by (auto simp: later_def)
qed

lemma revokeFamily_Inr:
  assumes "revokeFamily family reason now d = Inr (b, e)"
  shows "later d e \<and> sd_access e = sd_access d \<and> sd_refresh e = sd_refresh d \<and>
    (\<forall>f. map_of (sd_families d) family = Some f \<longrightarrow> (\<exists>f'. map_of (sd_families e) family = Some f' \<and> fy_revokedAt f' \<noteq> None))"
proof (cases "map_of (sd_families d) family")
  case None
  then show ?thesis using assms by (simp add: revokeFamily_def)
next
  case (Some row)
  show ?thesis
  proof (cases "fy_revokedAt row")
    case None
    obtain u where u: "session_audit_row ''SESSION_REVOKED'' (Some (fy_userId row)) (Some (fy_userId row)) (Some family) (Some reason) now
        (d\<lparr>sd_families := AList.update family (row\<lparr>fy_revokedAt := Some now, fy_revokeReason := Some reason\<rparr>) (sd_families d)\<rparr>) = Inr u" "e = u"
      using assms Some None by (auto simp: revokeFamily_def result_simps)
    then show ?thesis using session_audit_row_same [OF u(1)] Some by (auto simp: later_def update_conv')
  next
    case (Some t)
    then show ?thesis using assms \<open>map_of (sd_families d) family = Some row\<close> by (simp add: revokeFamily_def)
  qed
qed

section \<open>Every call\<close>

lemma issue_later: "issueBootstrapForActiveUser p sha r actorId targetId requested now event deviceHash d = Inr (x, e) \<Longrightarrow> later d e"
  using insert_row_Inr session_audit_row_same
  by (fastforce simp: issueBootstrapForActiveUser_def result_simps Let_def later_def)

lemma issueBootstrap_later: "issueBootstrap p sha r actorId targetId scopes now d = Inr (x, e) \<Longrightarrow> later d e"
  by (auto simp: issueBootstrap_def result_simps intro: issue_later)

lemma issueSelfBootstrap_later: "issueSelfBootstrap p sha r actorId deviceId scopes now d = Inr (x, e) \<Longrightarrow> later d e"
  by (auto simp: issueSelfBootstrap_def result_simps intro: issue_later)

lemma update_bootstrap_later:
  assumes "map_of (sd_bootstrap d) h = Some row" "br_usedAt row \<noteq> None \<longrightarrow> br_usedAt row' \<noteq> None"
  shows "later d (d\<lparr>sd_bootstrap := AList.update h row' (sd_bootstrap d)\<rparr>)"
  using assms by (auto simp: later_def update_conv')

lemma map_of_map_row: "map_of (map (\<lambda>(h, w). (h, g w)) t) h = map_option g (map_of t h)"
  by (induction t) auto

lemma revokeBootstrap_later:
  assumes "revokeBootstrap actorId bootstrapId now d = Inr (b, e)"
  shows "later d e"
proof -
  let ?g = "\<lambda>w. if br_id w = bootstrapId \<and> br_usedAt w = None \<and> br_revokedAt w = None then w\<lparr>br_revokedAt := Some now\<rparr> else w"
  have "e = d \<or> (\<exists>x y. session_audit_row ''BOOTSTRAP_REVOKED'' x y None None now
      (d\<lparr>sd_bootstrap := map (\<lambda>(h, w). (h, ?g w)) (sd_bootstrap d)\<rparr>) = Inr e)"
  proof (cases "find (\<lambda>(h, row). br_id row = bootstrapId) (sd_bootstrap d)")
    case (Some hr)
    obtain h row where "hr = (h, row)" by force
    then show ?thesis using assms Some
      by (cases "br_usedAt row \<noteq> None \<or> br_revokedAt row \<noteq> None") (auto simp: revokeBootstrap_def result_simps)
  qed (use assms in \<open>auto simp: revokeBootstrap_def result_simps\<close>)
  then show ?thesis
  proof (elim disjE exE)
    fix x y assume a: "session_audit_row ''BOOTSTRAP_REVOKED'' x y None None now
      (d\<lparr>sd_bootstrap := map (\<lambda>(h, w). (h, ?g w)) (sd_bootstrap d)\<rparr>) = Inr e"
    have "later d (d\<lparr>sd_bootstrap := map (\<lambda>(h, w). (h, ?g w)) (sd_bootstrap d)\<rparr>)"
      by (auto simp: later_def map_of_map_row)
    then show ?thesis by (rule session_later_trans [OF _ session_audit_row_later [OF a]])
  qed simp
qed

lemma reject_bootstrap_later: "reject_bootstrap target reason now d = Inr (x, e) \<Longrightarrow> later d e \<and> x = None"
  by (auto simp: reject_bootstrap_def result_simps intro: session_audit_row_later)

lemma reject_refresh_later: "reject_refresh user family reason now d = Inr (x, e) \<Longrightarrow> later d e \<and> x = None"
  by (auto simp: reject_refresh_def result_simps intro: session_audit_row_later)

lemma consume_bootstrap_later:
  assumes "consume_bootstrap p sha r hash row user now d = Inr (x, e)" "map_of (sd_bootstrap d) hash = Some row"
  shows "later d e \<and> (\<exists>row'. map_of (sd_bootstrap e) hash = Some row' \<and> br_usedAt row' \<noteq> None) \<and>
    (\<exists>tokens. x = Some tokens \<and> normalizeScopes p (Some (br_scopes row)) = Inr (st_scopes tokens)) \<and> now < br_expiresAt row"
proof -
  let ?d = "d\<lparr>sd_bootstrap := AList.update hash (row\<lparr>br_usedAt := Some now\<rparr>) (sd_bootstrap d)\<rparr>"
  obtain fam tokens scopes d1 d2 d3 where s: "insert_family (dn_id r) fam ?d = Inr d1" "persistTokens sha tokens (dn_id r) 0 now d1 = Inr d2"
    "session_audit_row ''BOOTSTRAP_CONSUMED'' (Some (ur_id user)) (Some (ur_id user)) (Some (dn_id r)) None now d2 = Inr d3"
    "session_touch (ur_id user) now True ''user login state unavailable'' d3 = Inr e" "x = Some tokens" "now < br_expiresAt row"
    "normalizeScopes p (Some (br_scopes row)) = Inr scopes" "st_scopes tokens = scopes"
    using assms(1) by (auto simp: consume_bootstrap_def result_simps Let_def createTokens_def)
  have l: "later d ?d" by (rule update_bootstrap_later [OF assms(2)]) simp
  have "later d1 d2" using persistTokens_Inr [OF s(2)] by simp
  moreover have "later d3 e" using session_touch_same [OF s(4)] by (simp add: later_same)
  ultimately have "later d1 e" using session_audit_row_later [OF s(3)] session_later_trans by blast
  then have t: "later ?d e" using insert_family_later [OF s(1)] session_later_trans by blast
  have "map_of (sd_bootstrap ?d) hash = Some (row\<lparr>br_usedAt := Some now\<rparr>)" by (simp add: update_conv')
  then have "\<exists>row'. map_of (sd_bootstrap e) hash = Some row' \<and> br_usedAt row' \<noteq> None" using laterD(1) [OF t] by fastforce
  then show ?thesis using session_later_trans [OF l t] s(5-8) by simp
qed

lemma rotate_refresh_later:
  assumes "rotate_refresh p sha r hash row family user now d = Inr (x, e)" "map_of (sd_refresh d) hash = Some row"
  shows "later d e \<and> (\<exists>w. map_of (sd_refresh e) hash = Some w \<and> rw_consumedAt w \<noteq> None \<and> rw_familyId w = rw_familyId row) \<and>
    (\<exists>tokens a w. x = Some tokens \<and> map_of (sd_access e) (sha (st_accessToken tokens)) = Some a \<and> aw_familyId a = rw_familyId row \<and>
      map_of (sd_refresh e) (sha (st_refreshToken tokens)) = Some w \<and> rw_familyId w = rw_familyId row)"
proof -
  let ?d = "d\<lparr>sd_refresh := AList.update hash (row\<lparr>rw_consumedAt := Some now\<rparr>) (sd_refresh d)\<rparr>"
  obtain tokens d1 d2 where s: "persistTokens sha tokens (rw_familyId row) (rw_generation row + 1) now ?d = Inr d1"
    "session_audit_row ''SESSION_REFRESHED'' (Some (ur_id user)) (Some (ur_id user)) (Some (rw_familyId row)) None now d1 = Inr d2"
    "session_touch (ur_id user) now False ''user state unavailable'' d2 = Inr e" "x = Some tokens"
    using assms(1) by (auto simp: rotate_refresh_def result_simps Let_def)
  have l: "later d ?d" using assms(2) by (auto simp: later_def update_conv')
  note ps = persistTokens_Inr [OF s(1)]
  have same: "sd_bootstrap e = sd_bootstrap d1" "sd_families e = sd_families d1" "sd_access e = sd_access d1" "sd_refresh e = sd_refresh d1"
    using session_audit_row_same [OF s(2)] session_touch_same [OF s(3)] by simp_all
  have t: "later ?d e" using ps later_same [OF same] session_later_trans by blast
  have "map_of (sd_refresh ?d) hash = Some (row\<lparr>rw_consumedAt := Some now\<rparr>)" by (simp add: update_conv')
  then have "\<exists>w. map_of (sd_refresh e) hash = Some w \<and> rw_consumedAt w \<noteq> None \<and> rw_familyId w = rw_familyId row"
    using laterD(4) [OF t] by fastforce
  then show ?thesis using session_later_trans [OF l t] ps s(4) same by auto
qed

lemma bootstrap_session_later:
  assumes "bootstrap_session p sha r token now deviceId d = Inr (x, e)"
  shows "later d e \<and> (\<forall>tokens. x = Some tokens \<longrightarrow>
    (\<exists>row user. map_of (sd_bootstrap d) (sha token) = Some row \<and> br_usedAt row = None \<and> br_revokedAt row = None \<and> now < br_expiresAt row \<and>
       (\<forall>h. br_deviceIdHash row = Some h \<longrightarrow> deviceDigest sha (case deviceId of None \<Rightarrow> [] | Some x \<Rightarrow> x) = Inr h) \<and>
       user_get (sd_users d) (br_targetUserId row) = Some user \<and> ur_status user = UsActive \<and>
       normalizeScopes p (Some (br_scopes row)) = Inr (st_scopes tokens)) \<and>
    (\<exists>row'. map_of (sd_bootstrap e) (sha token) = Some row' \<and> br_usedAt row' \<noteq> None))"
proof (cases "token = [] \<or> map_of (sd_bootstrap d) (sha token) = None")
  case True
  then have "\<exists>reason. reject_bootstrap None reason now d = Inr (x, e)"
    using assms by (auto simp: bootstrap_session_def split: if_splits)
  then show ?thesis using reject_bootstrap_later by blast
next
  case False
  then obtain row where row: "map_of (sd_bootstrap d) (sha token) = Some row" "token \<noteq> []" by auto
  show ?thesis
  proof (cases "\<exists>reason. reject_bootstrap (Some (br_targetUserId row)) reason now d = Inr (x, e)")
    case True
    then show ?thesis using reject_bootstrap_later by blast
  next
    case False
    have "\<exists>user. consume_bootstrap p sha r (sha token) row user now d = Inr (x, e) \<and> br_usedAt row = None \<and> br_revokedAt row = None \<and>
        (\<forall>h. br_deviceIdHash row = Some h \<longrightarrow> deviceDigest sha (case deviceId of None \<Rightarrow> [] | Some x \<Rightarrow> x) = Inr h) \<and>
        user_get (sd_users d) (br_targetUserId row) = Some user \<and> ur_status user = UsActive"
      using assms row False
      by (cases "br_deviceIdHash row"; cases "user_get (sd_users d) (br_targetUserId row)")
        (auto simp: bootstrap_session_def result_simps Let_def isUserAllowed_def split: if_splits)
    then obtain user where u: "consume_bootstrap p sha r (sha token) row user now d = Inr (x, e)" "br_usedAt row = None" "br_revokedAt row = None"
        "\<forall>h. br_deviceIdHash row = Some h \<longrightarrow> deviceDigest sha (case deviceId of None \<Rightarrow> [] | Some x \<Rightarrow> x) = Inr h"
        "user_get (sd_users d) (br_targetUserId row) = Some user" "ur_status user = UsActive" by blast
    note c = consume_bootstrap_later [OF u(1) row(1)]
    then show ?thesis using row(1) u(2-6) by auto
  qed
qed

text \<open>What \<open>refresh\<close> does with a known token of a known family.\<close>

lemma refresh_session_cases:
  assumes "refresh_session p sha r token now deviceId d = Inr (x, e)"
  obtains (refused) "x = None" "later d e" "\<And>w f. map_of (sd_refresh d) (sha token) = Some w \<Longrightarrow> map_of (sd_families d) (rw_familyId w) = Some f \<Longrightarrow>
        token \<noteq> [] \<Longrightarrow> rw_consumedAt w \<noteq> None \<Longrightarrow> \<not> fy_proofBound f \<Longrightarrow>
        \<exists>f'. map_of (sd_families e) (rw_familyId w) = Some f' \<and> fy_revokedAt f' \<noteq> None"
  | (rotated) w f user where "token \<noteq> []" "map_of (sd_refresh d) (sha token) = Some w" "map_of (sd_families d) (rw_familyId w) = Some f"
      "\<not> fy_proofBound f" "rw_consumedAt w = None" "fy_revokedAt f = None" "rotate_refresh p sha r (sha token) w f user now d = Inr (x, e)"
proof (cases "map_of (sd_refresh d) (sha token)")
  case None
  then have "x = None \<and> later d e"
    using assms reject_refresh_later by (fastforce simp: refresh_session_def split: if_splits)
  then show thesis using refused None by simp
next
  case (Some w)
  show thesis
  proof (cases "map_of (sd_families d) (rw_familyId w)")
    case None
    then have "x = None \<and> later d e"
      using assms Some reject_refresh_later by (fastforce simp: refresh_session_def split: if_splits)
    then show thesis by (intro refused) (use None Some in auto)
  next
    case (Some f)
    note wf = \<open>map_of (sd_refresh d) (sha token) = Some w\<close> Some
    let ?reject = "reject_refresh (Some (fy_userId f)) (Some (rw_familyId w))"
    consider (plain) reason where "reject_refresh None None reason now d = Inr (x, e)" "token = []"
      | (kept) reason where "?reject reason now d = Inr (x, e)" "fy_proofBound f \<or> rw_consumedAt w = None"
      | (revoked) reason b u where "revokeFamily (rw_familyId w) reason now d = Inr (b, u)" "?reject reason now u = Inr (x, e)"
      | (rotate) user where "token \<noteq> []" "\<not> fy_proofBound f" "rw_consumedAt w = None" "fy_revokedAt f = None"
          "rotate_refresh p sha r (sha token) w f user now d = Inr (x, e)"
    proof (cases "token = []")
      case True
      then show thesis using assms that(1) by (auto simp: refresh_session_def)
    next
      case False
      show thesis
      proof (cases "fy_proofBound f")
        case True
        then show thesis using assms that(2) wf False by (simp add: refresh_session_def)
      next
        case False
        note unbound = this
        show thesis
        proof (cases "rw_consumedAt w")
          case None
          then show thesis using assms that(2-4) wf \<open>token \<noteq> []\<close> unbound
            by (auto simp: refresh_session_def selected_device_hash_def result_simps Let_def split: if_splits option.splits)
        next
          case (Some c)
          then show thesis using assms that(3) wf \<open>token \<noteq> []\<close> unbound
            by (auto simp: refresh_session_def selected_device_hash_def result_simps Let_def)
        qed
      qed
    qed
    then show thesis
    proof cases
      case plain
      then show thesis using refused reject_refresh_later by blast
    next
      case kept
      then show thesis using refused reject_refresh_later wf by fastforce
    next
      case (revoked reason b u)
      note rf = revokeFamily_Inr [OF revoked(1)] and rj = reject_refresh_later [OF revoked(2)]
      have l: "later d e" using rf rj session_later_trans by blast
      obtain f' where "map_of (sd_families u) (rw_familyId w) = Some f'" "fy_revokedAt f' \<noteq> None" using rf wf(2) by blast
      then have "\<exists>f'. map_of (sd_families e) (rw_familyId w) = Some f' \<and> fy_revokedAt f' \<noteq> None" using rj laterD(2) by blast
      then show thesis by (intro refused) (use rj l wf in auto)
    next
      case rotate
      then show thesis using rotated wf by blast
    qed
  qed
qed

lemma refresh_session_later: "refresh_session p sha r token now deviceId d = Inr (x, e) \<Longrightarrow> later d e"
  by (erule refresh_session_cases) (use rotate_refresh_later in blast)+

lemma createDeviceBoundSession_later:
  assumes "createDeviceBoundSession p sha r targetId deviceId scopes now event proofBound d = Inr (x, e)"
  shows "later d e"
proof -
  obtain row tokens i v a1 a2 a3 d1 d2 d3 where s: "insert_family i row d = Inr d1" "persistTokens sha tokens i 0 now d1 = Inr d2"
    "session_audit_row v a1 a2 a3 None now d2 = Inr d3" "session_touch (the a1) now True ''user not found'' d3 = Inr e"
    using assms by (fastforce simp: createDeviceBoundSession_def result_simps Let_def)
  have "later d3 e" using session_touch_same [OF s(4)] by (simp add: later_same)
  then have "later d2 e" using session_audit_row_later [OF s(3)] session_later_trans by blast
  moreover have "later d1 d2" using persistTokens_Inr [OF s(2)] by simp
  ultimately show ?thesis using insert_family_later [OF s(1)] session_later_trans by blast
qed

lemma revokeDeviceSessions_later:
  assumes "revokeDeviceSessions userId deviceHash reason now d = Inr (n, e)"
  shows "later d e"
proof -
  have "later d (snd (n, e))"
    by (rule fold_r_invariant [OF assms [unfolded revokeDeviceSessions_def], of "\<lambda>nd. later d (snd nd)"])
      (auto simp: revoke_step_def result_simps dest!: revokeFamily_Inr intro: session_later_trans)
  then show ?thesis by simp
qed

lemma revokeAccess_later: "revokeAccess sha token now d = Inr (b, e) \<Longrightarrow> later d e"
  using revokeFamily_Inr by (fastforce simp: revokeAccess_def split: if_splits option.splits)

text \<open>Any sequence of calls, with any changes of the users in between.\<close>

inductive session_run :: "session_profile \<Rightarrow> (string \<Rightarrow> string) \<Rightarrow> session_db \<Rightarrow> session_db \<Rightarrow> bool" for p sha d where
  sr_none: "session_run p sha d d"
| sr_issue: "session_run p sha d e \<Longrightarrow> issueBootstrap p sha r actor target scopes now e = Inr (x, f) \<Longrightarrow> session_run p sha d f"
| sr_self: "session_run p sha d e \<Longrightarrow> issueSelfBootstrap p sha r actor device scopes now e = Inr (x, f) \<Longrightarrow> session_run p sha d f"
| sr_revoke_bootstrap: "session_run p sha d e \<Longrightarrow> revokeBootstrap actor i now e = Inr (b, f) \<Longrightarrow> session_run p sha d f"
| sr_bootstrap: "session_run p sha d e \<Longrightarrow> bootstrap_session p sha r token now dev e = Inr (y, f) \<Longrightarrow> session_run p sha d f"
| sr_refresh: "session_run p sha d e \<Longrightarrow> refresh_session p sha r token now dev e = Inr (y, f) \<Longrightarrow> session_run p sha d f"
| sr_device: "session_run p sha d e \<Longrightarrow> createDeviceBoundSession p sha r target device scopes now ev pb e = Inr (z, f) \<Longrightarrow> session_run p sha d f"
| sr_revoke_device: "session_run p sha d e \<Longrightarrow> revokeDeviceSessions user hash reason now e = Inr (n, f) \<Longrightarrow> session_run p sha d f"
| sr_revoke_access: "session_run p sha d e \<Longrightarrow> revokeAccess sha token now e = Inr (b, f) \<Longrightarrow> session_run p sha d f"
| sr_users: "session_run p sha d e \<Longrightarrow> user_run (sd_users e) us \<Longrightarrow> session_run p sha d (e\<lparr>sd_users := us\<rparr>)"

lemma session_run_later: "session_run p sha d e \<Longrightarrow> later d e"
proof (induction rule: session_run.induct)
  case (sr_users e us)
  moreover have "later e (e\<lparr>sd_users := us\<rparr>)" by (simp add: later_same)
  ultimately show ?case using session_later_trans by blast
qed (auto intro: session_later_refl session_later_trans [OF _ issueBootstrap_later] session_later_trans [OF _ issueSelfBootstrap_later]
    session_later_trans [OF _ revokeBootstrap_later] session_later_trans [OF _ conjunct1 [OF bootstrap_session_later]] session_later_trans [OF _ refresh_session_later]
    session_later_trans [OF _ createDeviceBoundSession_later] session_later_trans [OF _ revokeDeviceSessions_later] session_later_trans [OF _ revokeAccess_later])

section \<open>A revoked family\<close>

lemma revoked_refuses_access:
  assumes "map_of (sd_families d) i = Some f" "fy_revokedAt f \<noteq> None" "map_of (sd_access d) (sha token) = Some a" "aw_familyId a = i"
  shows "verifyAccess p sha token now d = Inr None"
  using assms by (auto simp: verifyAccess_def)

lemma revoked_refuses_refresh:
  assumes "map_of (sd_families d) i = Some f" "fy_revokedAt f \<noteq> None" "map_of (sd_refresh d) (sha token) = Some w" "rw_familyId w = i"
  shows "refresh_session p sha r token now dev d \<noteq> Inr (Some tokens, e)"
proof
  assume "refresh_session p sha r token now dev d = Inr (Some tokens, e)"
  then show False by (rule refresh_session_cases) (use assms in auto)
qed

text \<open>An owner issues a bootstrap token, opens a session with it and exchanges its refresh token; the identity stands for SHA-256.\<close>

lemma inr_of_case: "(case x of Inl _ \<Rightarrow> False | Inr y \<Rightarrow> P y) \<Longrightarrow> \<exists>y. x = Inr y \<and> P y"
  by (cases x) auto

definition demo_profile :: session_profile where
  "demo_profile = \<lparr>sp_namespace = ''np'', sp_allowedScopes = [''read''], sp_defaultScopes = None, sp_accessTtlMs = Fin 10,
     sp_refreshTtlMs = Fin 100, sp_bootstrapTtlMs = Fin 5\<rparr>"

definition demo_drawn :: "string \<Rightarrow> drawn" where
  "demo_drawn i = \<lparr>dn_id = i, dn_accessToken = CHR ''a'' # i, dn_refreshToken = CHR ''r'' # i\<rparr>"

definition demo_issue :: "session_db result" where
  "demo_issue =
     bind_r (ensureOwner \<lparr>ui_id = ''owner'', ui_email = ''Owner@x'', ui_displayName = None\<rparr> (Fin 1) \<lparr>us_users = [], us_audit = []\<rparr>) (\<lambda>(_, us).
     bind_r (issueBootstrap demo_profile (\<lambda>s. s) (demo_drawn ''b'') ''owner'' ''owner'' None (Fin 2)
       \<lparr>sd_bootstrap = [], sd_families = [], sd_access = [], sd_refresh = [], sd_audit = [], sd_users = us\<rparr>) (\<lambda>(_, d). Inr d))"

definition demo_session :: "(session_tokens option \<times> session_db) result" where
  "demo_session = bind_r demo_issue (bootstrap_session demo_profile (\<lambda>s. s) (demo_drawn ''f'') ''ab'' (Fin 3) None)"

definition demo_refresh :: "session_db \<Rightarrow> (session_tokens option \<times> session_db) result" where
  "demo_refresh = refresh_session demo_profile (\<lambda>s. s) (demo_drawn ''g'') ''rf'' (Fin 4) None"

text \<open>C39: a refresh token works once.  After it has been exchanged, presenting it again, whatever happened in between, yields nothing and
  revokes its family: from then on, whatever follows, neither the access token nor the refresh token that the exchange returned, nor any
  other token of the family, is accepted.\<close>

theorem refresh_token_works_once:
  assumes "map_of (sd_refresh d) (sha token) = Some row"
    "refresh_session p sha r token now dev d = Inr (Some tokens, e)" "session_run p sha e f"
    "refresh_session p sha r' token now' dev' f = Inr (answer, g)" "session_run p sha g k"
  shows "answer = None \<and>
    (\<forall>t. t = st_accessToken tokens \<or> (\<exists>a. map_of (sd_access k) (sha t) = Some a \<and> aw_familyId a = rw_familyId row) \<longrightarrow>
      (\<forall>now. verifyAccess p sha t now k = Inr None)) \<and>
    (\<forall>t. t = st_refreshToken tokens \<or> (\<exists>w. map_of (sd_refresh k) (sha t) = Some w \<and> rw_familyId w = rw_familyId row) \<longrightarrow>
      (\<forall>r now dev ts l. refresh_session p sha r t now dev k \<noteq> Inr (Some ts, l)))"
proof -
  let ?i = "rw_familyId row"
  obtain fam a w where e: "token \<noteq> []" "map_of (sd_families d) ?i = Some fam" "\<not> fy_proofBound fam" "later d e"
    "\<exists>c. map_of (sd_refresh e) (sha token) = Some c \<and> rw_consumedAt c \<noteq> None \<and> rw_familyId c = ?i"
    "map_of (sd_access e) (sha (st_accessToken tokens)) = Some a" "aw_familyId a = ?i"
    "map_of (sd_refresh e) (sha (st_refreshToken tokens)) = Some w" "rw_familyId w = ?i"
    using assms(2)
  proof (cases rule: refresh_session_cases)
    case (rotated w f user)
    then show thesis using rotate_refresh_later [OF rotated(7,2)] assms(1) that by auto
  qed simp
  note ef = session_run_later [OF assms(3)] and gk = session_run_later [OF assms(5)]
  obtain c where c: "map_of (sd_refresh f) (sha token) = Some c" "rw_consumedAt c \<noteq> None" "rw_familyId c = ?i"
    using e(5) laterD(4) [OF ef] by force
  obtain fam' where fam': "map_of (sd_families f) ?i = Some fam'" "\<not> fy_proofBound fam'"
    using laterD(2) [OF session_later_trans [OF e(4) ef] e(2)] e(3) by auto
  have g: "answer = None \<and> later f g \<and> (\<exists>f'. map_of (sd_families g) ?i = Some f' \<and> fy_revokedAt f' \<noteq> None)"
    using assms(4)
  proof (cases rule: refresh_session_cases)
    case refused
    then show ?thesis using refused(3) [OF c(1), unfolded c(3), OF fam'(1) e(1) c(2) fam'(2)] by blast
  qed (use c in auto)
  then obtain h where h: "map_of (sd_families k) ?i = Some h" "fy_revokedAt h \<noteq> None" using laterD(2) [OF gk] by fastforce
  have ek: "later e k" using ef g gk session_later_trans by blast
  have "map_of (sd_access k) (sha (st_accessToken tokens)) = Some a" by (rule laterD(3) [OF ek e(6)])
  moreover obtain w' where "map_of (sd_refresh k) (sha (st_refreshToken tokens)) = Some w'" "rw_familyId w' = ?i"
    using laterD(4) [OF ek e(8)] e(9) by auto
  ultimately show ?thesis
    using g e(7) revoked_refuses_access [OF h] revoked_refuses_refresh [OF h] by auto
qed

theorem refresh_token_works_once_witness:
  "\<exists>d tokens e g. demo_session = Inr d \<and> demo_refresh (snd d) = Inr (Some tokens, e) \<and>
     refresh_session demo_profile (\<lambda>s. s) (demo_drawn ''h'') ''rf'' (Fin 5) None e = Inr (None, g) \<and>
     verifyAccess demo_profile (\<lambda>s. s) (st_accessToken tokens) (Fin 6) g = Inr None"
proof -
  have "case demo_session of Inl _ \<Rightarrow> False | Inr d \<Rightarrow> map_of (sd_refresh (snd d)) ''rf'' \<noteq> None \<and>
      (case demo_refresh (snd d) of Inl _ \<Rightarrow> False | Inr (t, e) \<Rightarrow> t \<noteq> None \<and>
        (case refresh_session demo_profile (\<lambda>s. s) (demo_drawn ''h'') ''rf'' (Fin 5) None e of Inl _ \<Rightarrow> False | Inr _ \<Rightarrow> True))"
    by code_simp
  then obtain d where d: "demo_session = Inr d" "map_of (sd_refresh (snd d)) ''rf'' \<noteq> None"
      "case demo_refresh (snd d) of Inl _ \<Rightarrow> False | Inr (t, e) \<Rightarrow> t \<noteq> None \<and>
        (case refresh_session demo_profile (\<lambda>s. s) (demo_drawn ''h'') ''rf'' (Fin 5) None e of Inl _ \<Rightarrow> False | Inr _ \<Rightarrow> True)"
    by (auto dest: inr_of_case)
  then obtain u where s: "demo_session = Inr d" "map_of (sd_refresh (snd d)) ''rf'' \<noteq> None" "demo_refresh (snd d) = Inr u" "fst u \<noteq> None"
      "case refresh_session demo_profile (\<lambda>s. s) (demo_drawn ''h'') ''rf'' (Fin 5) None (snd u) of Inl _ \<Rightarrow> False | Inr _ \<Rightarrow> True"
    using inr_of_case [OF d(3)] by force
  obtain row tokens e where t: "map_of (sd_refresh (snd d)) ''rf'' = Some row" "u = (Some tokens, e)"
    using s(2,4) by (cases u) auto
  obtain answer g where g: "refresh_session demo_profile (\<lambda>s. s) (demo_drawn ''h'') ''rf'' (Fin 5) None e = Inr (answer, g)"
    using s(5) t(2) by (cases "refresh_session demo_profile (\<lambda>s. s) (demo_drawn ''h'') ''rf'' (Fin 5) None e") auto
  note r = refresh_token_works_once [of "snd d" "\<lambda>s. s" "''rf''", OF t(1) s(3) [unfolded demo_refresh_def t(2)] sr_none g sr_none]
  have "answer = None" by (rule conjunct1 [OF r])
  moreover have "verifyAccess demo_profile (\<lambda>s. s) (st_accessToken tokens) (Fin 6) g = Inr None"
    by (rule conjunct1 [OF conjunct2 [OF r], rule_format, OF disjI1 [OF refl]])
  ultimately show ?thesis
    by (intro exI [of _ d] exI [of _ tokens] exI [of _ e] exI [of _ g] conjI) (use s(1,3) t(2) g in simp_all)
qed

text \<open>C40: a bootstrap token works once, and only as issued: a session is opened with it only while it is unused, unrevoked and unexpired, for
  a user who is active, from the device it is bound to, and with scopes of the profile among those it was issued for; and no later call,
  whatever happened in between, opens another.\<close>

theorem bootstrap_token_works_once:
  assumes "bootstrap_session p sha r token now dev d = Inr (Some tokens, e)" "session_run p sha e f"
  shows "(\<exists>row user. map_of (sd_bootstrap d) (sha token) = Some row \<and> br_usedAt row = None \<and> br_revokedAt row = None \<and> now < br_expiresAt row \<and>
       (\<forall>h. br_deviceIdHash row = Some h \<longrightarrow> deviceDigest sha (case dev of None \<Rightarrow> [] | Some x \<Rightarrow> x) = Inr h) \<and>
       user_get (sd_users d) (br_targetUserId row) = Some user \<and> ur_status user = UsActive \<and>
       set (st_scopes tokens) \<subseteq> js_trim ` set (br_scopes row) \<inter> set (sp_allowedScopes p)) \<and>
    bootstrap_session p sha r' token now' dev' f \<noteq> Inr (Some tokens', g)"
proof -
  have b: "\<exists>row user. map_of (sd_bootstrap d) (sha token) = Some row \<and> br_usedAt row = None \<and> br_revokedAt row = None \<and> now < br_expiresAt row \<and>
       (\<forall>h. br_deviceIdHash row = Some h \<longrightarrow> deviceDigest sha (case dev of None \<Rightarrow> [] | Some x \<Rightarrow> x) = Inr h) \<and>
       user_get (sd_users d) (br_targetUserId row) = Some user \<and> ur_status user = UsActive \<and>
       normalizeScopes p (Some (br_scopes row)) = Inr (st_scopes tokens)"
    "\<exists>row'. map_of (sd_bootstrap e) (sha token) = Some row' \<and> br_usedAt row' \<noteq> None"
    using bootstrap_session_later [OF assms(1)] by blast+
  have n: "normalizeScopes p (Some xs) = Inr ys \<Longrightarrow> set ys \<subseteq> js_trim ` set xs \<inter> set (sp_allowedScopes p)" for xs ys
    by (auto simp: normalizeScopes_def Let_def result_simps)
  have "bootstrap_session p sha r' token now' dev' f \<noteq> Inr (Some tokens', g)"
  proof
    assume "bootstrap_session p sha r' token now' dev' f = Inr (Some tokens', g)"
    then obtain row'' where "map_of (sd_bootstrap f) (sha token) = Some row''" "br_usedAt row'' = None" using bootstrap_session_later by blast
    then show False using b(2) laterD(1) [OF session_run_later [OF assms(2)]] by fastforce
  qed
  moreover obtain row user where "map_of (sd_bootstrap d) (sha token) = Some row" "br_usedAt row = None" "br_revokedAt row = None"
    "now < br_expiresAt row" "\<forall>h. br_deviceIdHash row = Some h \<longrightarrow> deviceDigest sha (case dev of None \<Rightarrow> [] | Some x \<Rightarrow> x) = Inr h"
    "user_get (sd_users d) (br_targetUserId row) = Some user" "ur_status user = UsActive"
    "set (st_scopes tokens) \<subseteq> js_trim ` set (br_scopes row) \<inter> set (sp_allowedScopes p)" using b(1) n by blast
  ultimately show ?thesis by blast
qed

theorem bootstrap_token_works_once_witness:
  "\<exists>d tokens e. demo_issue = Inr d \<and> demo_session = Inr (Some tokens, e) \<and> set (st_scopes tokens) \<subseteq> set (sp_allowedScopes demo_profile) \<and>
     bootstrap_session demo_profile (\<lambda>s. s) (demo_drawn ''g'') ''ab'' (Fin 4) None e \<noteq> Inr (Some tokens, e)"
proof -
  have "case demo_issue of Inl _ \<Rightarrow> False | Inr d \<Rightarrow> (case demo_session of Inl _ \<Rightarrow> False | Inr (t, e) \<Rightarrow> t \<noteq> None)" by code_simp
  then obtain d tokens e where s: "demo_issue = Inr d" "demo_session = Inr (Some tokens, e)" by (auto split: sum.splits)
  have b: "bootstrap_session demo_profile (\<lambda>s. s) (demo_drawn ''f'') ''ab'' (Fin 3) None d = Inr (Some tokens, e)"
    using s(2) unfolding demo_session_def s(1) bind_r_def by simp
  note r = bootstrap_token_works_once [OF b sr_none, of "demo_drawn ''g''" "Fin 4" None tokens e]
  have "set (st_scopes tokens) \<subseteq> set (sp_allowedScopes demo_profile)" using conjunct1 [OF r] by blast
  then show ?thesis using s conjunct2 [OF r] by (intro exI conjI) assumption+
qed

text \<open>A session is bound to a device, yet the device presented to \<open>refresh\<close> makes no difference.\<close>

lemma refresh_ignores_device: "refresh_session p sha r token now dev d = refresh_session p sha r token now dev' d"
  by (simp add: refresh_session_def selected_device_hash_def Let_def split: option.split)

end
