(* ===== verification/Spec2Isabelle.thy ===== *)
theory Spec2Isabelle imports OrderEngine OrderServices RateLimit KillSwitch ExecGateway RiskGateway Runtime ControlPlane MarketSupervisor PaperBroker SafetyGate StrategyEngine OrderReconciliation BalanceReconciliation PositionReconciliation FundingReconciliation FuturesGate DurableSystem CommandSafety AccountingFacts OperatorFacts PaperLoopFacts AtomicHedge SessionSafety begin

text \<open>
  The execution and trading-control core of NUSA (TypeScript): what decides whether an order may be
  sent, sends it at most once, accounts for it on paper, and stops everything when something is
  wrong.  Paths are relative to the repository.

  How the code is translated.
  \<^item> A \<open>number\<close> is \<open>jsnum\<close> (\<open>JsNumber\<close>): NaN, the infinities, the negative zero and the finite
    binary64 values, with every operation computed exactly and rounded once by \<open>fp_round\<close> of
    \<open>Binary64\<close> (nearest, ties to even, subnormals and overflow included).  Lemmas about integers
    below \<open>2^53\<close> go through \<open>jis x n\<close>.  A \<open>bigint\<close> is \<open>int\<close>; a string is a list of characters;
    \<open>undefined\<close> and \<open>null\<close> are \<open>None\<close>.
  \<^item> A function that throws returns \<open>'a result = js_error + 'a\<close>; one that may change its object
    before it throws returns the result and the state.  A \<open>Map\<close> is an association list in insertion
    order, a \<open>Set\<close> a list without repetition.
  \<^item> What the repository does not contain is a parameter: SHA-256 and the JSON text that is hashed,
    \<open>Date.parse\<close>, \<open>localeCompare\<close>, \<open>Intl\<close>, \<open>Math.sqrt\<close> and \<open>**\<close>, the decimal text of a number where
    only its identity matters, clocks, random ids, exchange providers, evidence stores, handlers,
    plugins and engines.  A theorem holds for every value of its parameters unless it names a
    condition on them.

  The parts, in the order in which one calls another.
  \<^item> \<open>Prelude\<close>, \<open>Decimals\<close>, \<open>NumberText\<close>: results, strings, index access, stable sort, maps; the exact
    decimals written as text of \<open>apps/execution/src/order-engine.ts\<close>; \<open>toFixed\<close> and the shortest digits.
  \<^item> \<open>OrderEngine\<close>, \<open>OrderServices\<close>, \<open>KeyedQueue\<close> (\<open>order-engine.ts\<close>): the order state machine and its
    replay from an event log, partial fills, ghost-fill recovery; the order queue, retry policy, snapshot
    synchronizer and hash-chained audit.  Replay equals the sum of the fills, the log is well formed,
    partial fills conserve the quantity, the queue is first-in first-out, the audit is tamper evident.
  \<^item> \<open>RateLimit\<close>, \<open>HardRisk\<close>, \<open>KillSwitch\<close> (\<open>rate-limit-manager.ts\<close>, \<open>hard-risk-gateway.ts\<close>,
    \<open>latched-kill-switch.ts\<close>): the token bucket never allows more than its rate, the hard gate decides
    exactly, the switch stays active until two people release it.
  \<^item> \<open>ExecutionStore\<close>, \<open>Restrictions\<close>, \<open>Admission\<close>, \<open>ExecGateway\<close> (\<open>executionPersistence.ts\<close>,
    \<open>order-restriction.ts\<close>, \<open>order-admission.ts\<close> with \<open>pre-trade-risk.ts\<close>, \<open>execution-gateway.ts\<close>): the
    repositories with the interfaces \<open>execution_repository\<close>, \<open>restriction_repository\<close> and
    \<open>idempotency_store\<close>, admission over them, and the gateway, which sends no intent twice.  Its world also
    has a journal of what was stored and sent, which no operation reads: each intent is stored before it is sent.
  \<^item> \<open>OrderReconciliation\<close>, \<open>Reconcile\<close>, \<open>BalanceReconciliation\<close>, \<open>PositionReconciliation\<close>,
    \<open>FundingReconciliation\<close> (\<open>order-reconciliation.ts\<close>, \<open>balance-reconciliation.ts\<close>,
    \<open>position-reconciliation.ts\<close>, \<open>funding-reconciliation.ts\<close>): runs over submissions of unknown outcome
    and comparisons of balances, positions and funding fees, clients of \<open>restriction_repository\<close>
    (\<open>Reconcile\<close> holds what they share).  Successive runs that return scan every unknown submission, critical and
    mismatched states restrict the account, MATCHED means that both sides agree, and only a
    two-person release lifts a restriction.
  \<^item> \<open>RiskGateway\<close> (\<open>packages/core/src/independentRiskGateway.ts\<close>, \<open>packages/contracts/src/riskGateway.ts\<close>)
    and \<open>SafetyGate\<close> (\<open>packages/contracts/src/risk-safety-integration.ts\<close>,
    \<open>packages/core/src/paperApprovalService.ts\<close>): the two gates in front of the broker.  Both fail
    closed; no command is approved twice (\<open>claim_store\<close>).
  \<^item> \<open>DependencyOrder\<close>, \<open>EngineRegistry\<close>, \<open>PluginSystem\<close>, \<open>EventBus\<close>, \<open>Runtime\<close> (the files of the same
    names in \<open>packages/core/src\<close>): plugins are loaded and engines started in dependency order, and rolled back
    when one fails (\<open>lifecycle\<close>, interpreted for both), publication runs every handler once.
  \<^item> \<open>ControlPlane\<close>, \<open>MarketSupervisor\<close> (\<open>controlPlane.ts\<close>, \<open>marketConnectionSupervisor.ts\<close>): automatic
    trading is off when faulted or stopped; reconnection stays within its ceilings, gives up in the end,
    and the reported downtime is the length of the outages.
  \<^item> \<open>PaperBroker\<close> (\<open>paperBroker.ts\<close>): execution, ledger and exact replay of the paper account; the
    incremental cursor is the full replay, and restoring an export gives back a broker whose ledger replays.
  \<^item> \<open>Regime\<close>, \<open>Strategies\<close>, \<open>StrategyEngine\<close> (\<open>regimePolicy.ts\<close>, \<open>strategyEngine.ts\<close>): the six strategies,
    the regime gate and the engine; the interfaces \<open>trading_strategy\<close> and \<open>gated_strategy\<close> say what the
    engine relies on.  A valid tick never throws, and a gated strategy never buys in a blocked regime.

  \<^item> \<open>DecimalText\<close>, \<open>DurableExecution\<close>, \<open>DurableSystem\<close> (\<open>apps/execution/src/durable-execution.ts\<close>):
    decimals as unchecked text, executions as versioned records with their transition log and fills, and
    the service over the exchange port as a system of interleaved methods, each split where it awaits the
    port.  Whatever the order and the answers, an execution is sent at most once and after approval, its
    log is a path of the state table that may stay in a state, and its filled quantity is the exact sum of its fills.
  \<^item> \<open>PaperFutures\<close>, \<open>FuturesGate\<close> (\<open>apps/cloud/src/futures\<close>, \<open>packages/contracts/src/paperFutures.ts\<close>,
    \<open>apps/cloud/src/paperTradingDay.ts\<close>): the futures account with its orders, marks, liquidation and
    funding, and the gate in front of it.  The account stays well formed, breached positions are
    liquidated, a funding event settles once, an opening passes only inside the limits, a reduction always.
  \<^item> \<open>Readiness\<close>, \<open>CommandService\<close>, \<open>CommandSafety\<close> (\<open>operationalReadinessGate.ts\<close>, \<open>runtimeCommandService.ts\<close>
    of \<open>apps/cloud/src\<close>): the commands of the running service over the paper broker, the control plane and
    the strategy engine.  A command succeeds and is saved, or leaves the account, the control plane and the
    strategy as they were; a service that could not save is closed for good with its strategy stopped; an
    automatic fill needs readiness, an approved regime, a fresh signal and the gate's consent.
  \<^item> \<open>PaperAccounting\<close>, \<open>AccountingFacts\<close> (\<open>apps/cloud/src/paperAccountingLedger.ts\<close>): the account as a
    replay of its fills in integers of \<open>10^-8\<close>.  Every coin and every unit of cash is accounted for up to a
    bounded rounding, and the result does not depend on the order in which fills are listed.
  \<^item> \<open>OrderLifecycle\<close>, \<open>LoopAccount\<close>, \<open>PaperLoop\<close>, \<open>WriterStore\<close>, \<open>WriterFacts\<close>, \<open>PaperLoopFacts\<close>
    (\<open>paperOrderLifecycle.ts\<close>, \<open>paperTradingExecutionLoop.ts\<close> of \<open>apps/cloud/src\<close>,
    \<open>packages/contracts/src/personalPaperOrderCommand.ts\<close> and the account tables of \<open>packages/storage/src\<close>): the
    states of a paper order; the account with its validation; the manual commands of the loop over a
    repository (\<open>paper_repository\<close>); and the SQL repository behind a lease of one writer.  An order's quantities
    stay consistent, writers take turns, the fill ledger and the history only grow, a restart loads exactly the
    account in memory, no key is accepted twice, and a limit order is filled within its limit.
    \<open>WriterStore\<close> holds the tables of one account, a call has one clock reading, and what a strategy adds to
    an order or a fill is a type variable with its checks as parameters.  A transaction is atomic: it commits
    whole or changes nothing, and a \<open>BEGIN IMMEDIATE\<close> that fails (\<open>packages/storage/src/index.ts\<close>) is not modelled.
  \<^item> \<open>OperatorControl\<close>, \<open>OperatorFacts\<close> (\<open>controlCommandProcessor.ts\<close>, \<open>controlAuditLedger.ts\<close>,
    \<open>transactionalControlCommandService.ts\<close> of \<open>apps/cloud/src\<close>, \<open>packages/storage/src/controlPlaneStore.ts\<close>,
    \<open>packages/contracts/src/controlPlane.ts\<close>): the operator's pause, emergency stop and resume, decided
    against a stored runtime and a hash-chained ledger.  The ledger's replay always gives the stored
    runtime, and after an accepted emergency stop nothing resumes.
  \<^item> \<open>AtomicHedge\<close> (\<open>atomicHedgeCoordinator.ts\<close>): a hedge of two legs, over an exchange adapter whose state
    records the orders sent.  It is called hedged only when both legs are filled and the delta is within
    tolerance; each accepted submission sends both legs, a refused one nothing.  The coordinator keeps no state
    of its own, so a run may go on from any state it returned.
  \<^item> \<open>UserAccess\<close>, \<open>UserSessions\<close>, \<open>SessionSafety\<close> (\<open>operatorUserAccess.ts\<close>, \<open>approvedUserSessionCore.ts\<close>): who
    may use the service, and the tokens that prove it.  Only an active owner lets a user in; a bootstrap
    or refresh token works once, and a second use of a refresh token revokes every token of its session.

  Bounds.  No fuel is used: every loop of the modelled code is structural recursion, a fold, or (in
  \<open>DependencyOrder\<close>) a search whose measure is the number of unvisited names.  Where a theorem needs
  integers to stay exact it bounds them by \<open>2^53\<close> (times, counts) or \<open>2^52\<close> (buffer limits), and
  \<open>retryDelay\<close> is stated below attempt 1024, where doubling reaches infinity.

  Not modelled.  Asynchrony is modelled as sequences of complete operations; \<open>EventBus\<close> also models
  publications nested in handlers.  \<open>Object.freeze\<close> and defensive copies have no counterpart, since
  values do not alias here.  Type-level guarantees of the language (a field typed \<open>"PAPER"\<close> or
  \<open>true\<close>) are taken from the types, except where the code checks them at run time.  The remaining
  reconcilers (fee, fill, P&L), the offline queues, the global risk gateway,
  paper risk state and market-data normalization are left, as are the automatic tick of the paper loop with its
  strategy orders and the one-time recovery of legacy accounting in its repository.  The other storage packages
  are SQL, the rest of the cloud application and the desktop, mobile and autopilot applications are input and output
  around this core, and the certification builders assemble documents; they are left out.
\<close>

end
